(* ===== verification/Prelude.thy ===== *)
theory Prelude
  imports Main "HOL-Library.Word"
begin

text \<open>
  Shared vocabulary of the development: the machine integer types of the C++ code, the
  error values that stand for its failed assertions and thrown exceptions, the sequencing
  operator on them, and the list lemmas that the queue theories share.

  \<^item> \<open>u32\<close>, \<open>u16\<close>, \<open>u64\<close> are \<open>uint32\<close>, \<open>unsigned short\<close>, and \<open>ulong\<close> on a 64 bit host.
  \<^item> \<open>AssertFailed\<close> is a failed OMNeT++ \<open>ASSERT\<close> (active in the debug build, which is
    the build that is modelled), \<open>RuntimeError\<close> a thrown \<open>cRuntimeError\<close>, \<open>NullPointer\<close> the
    use of a pointer that the code left NULL, \<open>Diverges\<close> a loop whose fuel ran out,
    \<open>Undefined\<close> an operation that C++ leaves undefined.
  \<^item> \<open>bindE x f\<close> runs \<open>f\<close> on the result of \<open>x\<close>, or stops with the error of \<open>x\<close>.
\<close>

type_synonym u8 = "8 word"
type_synonym u16 = "16 word"
type_synonym u32 = "32 word"
type_synonym u64 = "64 word"

text \<open>\<open>simtime_t\<close> in its integer ticks, with \<open>sec\<close> ticks per second.\<close>

type_synonym simtime = int

definition sec :: simtime where
  "sec = 10 ^ 12"

lemma sec_pos [simp]: "0 < sec"
  by (simp add: sec_def)

datatype error =
    AssertFailed string
  | RuntimeError string
  | NullPointer string
  | Diverges string
  | Undefined string

type_synonym 'a res = "error + 'a"

section \<open>Sequencing of operations that may fail\<close>

definition bindE :: "'a res \<Rightarrow> ('a \<Rightarrow> 'b res) \<Rightarrow> 'b res" where
  "bindE x f = (case x of Inl e \<Rightarrow> Inl e | Inr a \<Rightarrow> f a)"

definition assertE :: "bool \<Rightarrow> string \<Rightarrow> 'a res \<Rightarrow> 'a res" where
  "assertE b msg x = (if b then x else Inl (AssertFailed msg))"

definition mapE :: "('a \<Rightarrow> 'b) \<Rightarrow> 'a res \<Rightarrow> 'b res" where
  "mapE f x = (case x of Inl e \<Rightarrow> Inl e | Inr a \<Rightarrow> Inr (f a))"

named_theorems res_simps

lemma bindE_simps [simp, res_simps]:
  "bindE (Inl e) f = Inl e"
  "bindE (Inr a) f = f a"
  by (simp_all add: bindE_def)

lemma bindE_eq_Inr [res_simps]: "bindE x f = Inr b \<longleftrightarrow> (\<exists>a. x = Inr a \<and> f a = Inr b)"
  by (cases x) simp_all

lemma assertE_eq_Inr [res_simps]: "assertE b m x = Inr a \<longleftrightarrow> b \<and> x = Inr a"
  by (simp add: assertE_def)

lemma assertE_True [simp]: "assertE True m x = x"
  by (simp add: assertE_def)

lemma assertE_False [simp]: "assertE False m x = Inl (AssertFailed m)"
  by (simp add: assertE_def)

lemma mapE_simps [simp, res_simps]:
  "mapE f (Inl e) = Inl e"
  "mapE f (Inr a) = Inr (f a)"
  by (simp_all add: mapE_def)

lemma mapE_eq_Inr [res_simps]: "mapE f x = Inr b \<longleftrightarrow> (\<exists>a. x = Inr a \<and> f a = b)"
  by (cases x) simp_all

lemma bindE_assoc: "bindE (bindE x f) g = bindE x (\<lambda>a. bindE (f a) g)"
  by (cases x) simp_all

lemma bindE_cong [fundef_cong]:
  "x = y \<Longrightarrow> (\<And>a. y = Inr a \<Longrightarrow> f a = g a) \<Longrightarrow> bindE x f = bindE y g"
  by (cases y) simp_all

section \<open>Words\<close>

lemma unat32_lt [simp]: "unat (x :: u32) < 4294967296"
  using unsigned_less[of x] by simp

lemma unat32_eq_0 [simp]: "unat (x :: u32) = 0 \<longleftrightarrow> x = 0"
  by (rule unat_eq_0)

lemma unat_plus_small: "unat (a :: u32) + unat b < 2 ^ 32 \<Longrightarrow> unat (a + b) = unat a + unat b"
  by (simp add: unat_word_ariths)

lemma unat_ucast_u64 [simp]: "unat (ucast (x :: u32) :: u64) = unat x"
  using less_trans[OF unat32_lt[of x], of "2 ^ 64"] by (simp add: unsigned_ucast_eq take_bit_nat_eq_self)

section \<open>Lists\<close>

lemma concat_map_replicate_length:
  "length (concat (map (\<lambda>r. replicate (n r) (v r)) rs)) = sum_list (map n rs)"
  by (induction rs) simp_all

lemma take_map_drop_id:
  "a \<le> b \<Longrightarrow> take a xs @ take (b - a) (drop a xs) @ drop b xs = xs"
  by (metis append_take_drop_id drop_drop le_add_diff_inverse2)

end
