(* ===== verification/Seq_Arith.thy ===== *)
theory Seq_Arith
  imports Prelude
begin

text \<open>
  Comparison of 32 bit TCP sequence numbers, as the six inline functions at the top of
  \<open>src/transport/tcp_common/TCPSegment.h\<close> define it.  The comparison is circular, so it
  is not an order on all sequence numbers; it is one on every window of fewer than
  \<open>2^31\<close> consecutive numbers.  The locale \<open>serial_order\<close> states this contract for any
  pair of comparison functions, its lemmas are what the queue theories use, and the
  interpretation \<open>seqo\<close> discharges it for the code's functions.
\<close>

section \<open>The comparison functions\<close>

definition seqLess :: "u32 \<Rightarrow> u32 \<Rightarrow> bool" where
  "seqLess a b \<longleftrightarrow> a \<noteq> b \<and> b - a < 2 ^ 31"

definition seqLE :: "u32 \<Rightarrow> u32 \<Rightarrow> bool" where
  "seqLE a b \<longleftrightarrow> b - a < 2 ^ 31"

definition seqGreater :: "u32 \<Rightarrow> u32 \<Rightarrow> bool" where
  "seqGreater a b \<longleftrightarrow> a \<noteq> b \<and> a - b < 2 ^ 31"

definition seqGE :: "u32 \<Rightarrow> u32 \<Rightarrow> bool" where
  "seqGE a b \<longleftrightarrow> a - b < 2 ^ 31"

definition seqMin :: "u32 \<Rightarrow> u32 \<Rightarrow> u32" where
  "seqMin a b = (if b - a < 2 ^ 31 then a else b)"

definition seqMax :: "u32 \<Rightarrow> u32 \<Rightarrow> u32" where
  "seqMax a b = (if a - b < 2 ^ 31 then a else b)"

lemmas seq_defs = seqLess_def seqLE_def seqGreater_def seqGE_def seqMin_def seqMax_def

section \<open>Offsets inside a window\<close>

text \<open>\<open>soff b x\<close> is the distance of \<open>x\<close> above \<open>b\<close>, walking up around the circle.\<close>

definition soff :: "u32 \<Rightarrow> u32 \<Rightarrow> nat" where
  "soff b x = unat (x - b)"

definition half :: nat where
  "half = 2 ^ 31"

named_theorems seq_win

lemma half_val: "half = 2147483648"
  by (simp add: half_def)

lemma soff_self [simp]: "soff b b = 0"
  by (simp add: soff_def)

lemma soff_int: "int (soff b x) = (uint x - uint b) mod 2 ^ 32"
  by (simp add: soff_def uint_word_ariths)

lemma soff_lt: "soff b x < 2 ^ 32"
  unfolding soff_def using unsigned_less[of "x - b"] by simp

lemma soff_eq_iff [simp]: "soff b x = soff b y \<longleftrightarrow> x = y"
  by (metis soff_def word_unat_eq_iff diff_add_cancel)

lemma soff_eq_0_iff [simp]: "soff b x = 0 \<longleftrightarrow> x = b"
  by (metis soff_eq_iff soff_self)

lemma soff_diff:
  assumes "soff b x \<le> soff b y"
  shows "soff x y = soff b y - soff b x"
proof -
  have "y - x = (y - b) - (x - b)" by simp
  moreover have "x - b \<le> y - b" using assms by (simp add: soff_def word_le_nat_alt)
  ultimately show ?thesis unfolding soff_def by (metis unat_sub)
qed

lemma soff_add:
  assumes "soff b x + soff x y < 2 ^ 32"
  shows "soff b y = soff b x + soff x y"
proof -
  have "int (soff b y) = (int (soff b x) + int (soff x y)) mod 2 ^ 32"
    unfolding soff_int by (simp add: mod_add_eq)
  also have "\<dots> = int (soff b x) + int (soff x y)"
    using assms by simp
  finally show ?thesis by linarith
qed

lemma soff_wrap:
  assumes "soff b y < soff b x"
  shows "soff x y = 2 ^ 32 - (soff b x - soff b y)"
proof -
  have "int (soff x y) = (int (soff b y) - int (soff b x)) mod 2 ^ 32"
    unfolding soff_int by (simp add: mod_diff_eq)
  also have "\<dots> = (int (soff b y) - int (soff b x) + 2 ^ 32) mod 2 ^ 32" by simp
  also have "\<dots> = int (soff b y) - int (soff b x) + 2 ^ 32"
    using assms soff_lt[of b x] by (intro mod_pos_pos_trivial) auto
  finally show ?thesis using assms soff_lt[of b x] by simp
qed

lemma soff_plus:
  assumes "soff b x + n < 2 ^ 32"
  shows "soff b (x + of_nat n) = soff b x + n"
proof -
  have "soff x (x + of_nat n) = n"
    using assms by (simp add: soff_def unat_of_nat)
  then show ?thesis using assms soff_add[of b x "x + of_nat n"] by simp
qed

lemma plus_soff [simp]: "b + of_nat (soff b x) = x"
  by (simp add: soff_def)

section \<open>The comparisons, in offsets\<close>

lemma less_half_iff: "(x :: u32) < 2 ^ 31 \<longleftrightarrow> unat x < half"
  by (simp add: word_less_nat_alt half_def)

lemma seqLE_soff: "seqLE a b \<longleftrightarrow> soff a b < half"
  unfolding seqLE_def soff_def by (rule less_half_iff)

lemma seqLess_soff: "seqLess a b \<longleftrightarrow> 0 < soff a b \<and> soff a b < half"
proof -
  have "a \<noteq> b \<longleftrightarrow> 0 < soff a b" by (metis gr0I soff_eq_0_iff less_numeral_extra(3))
  moreover have "b - a < 2 ^ 31 \<longleftrightarrow> soff a b < half" unfolding soff_def by (rule less_half_iff)
  ultimately show ?thesis unfolding seqLess_def by simp
qed

lemma seqGE_seqLE: "seqGE a b \<longleftrightarrow> seqLE b a"
  by (simp add: seqGE_def seqLE_def)

lemma seqGreater_seqLess: "seqGreater a b \<longleftrightarrow> seqLess b a"
  by (auto simp: seqGreater_def seqLess_def)

lemma seqLess_iff: "seqLess a b \<longleftrightarrow> a \<noteq> b \<and> seqLE a b"
  by (simp add: seqLess_def seqLE_def)

lemma seqLE_refl [simp]: "seqLE a a"
  by (simp add: seqLE_soff half_def)

lemma seqLess_irrefl [simp]: "\<not> seqLess a a"
  by (simp add: seqLess_iff)

lemma seqLE_win [seq_win]:
  assumes "soff b x < half" "soff b y < half"
  shows "seqLE x y \<longleftrightarrow> soff b x \<le> soff b y"
proof (cases "soff b x \<le> soff b y")
  case True
  then show ?thesis using assms by (simp add: seqLE_soff soff_diff[OF True])
next
  case False
  then have "soff x y = 2 ^ 32 - (soff b x - soff b y)" by (intro soff_wrap) simp
  then show ?thesis using False assms by (simp add: seqLE_soff half_def)
qed

lemma seqLess_win [seq_win]:
  assumes "soff b x < half" "soff b y < half"
  shows "seqLess x y \<longleftrightarrow> soff b x < soff b y"
  using assms seqLE_win[OF assms] by (auto simp: seqLess_iff order.strict_iff_order)

lemma seqGE_win [seq_win]:
  "soff b x < half \<Longrightarrow> soff b y < half \<Longrightarrow> seqGE x y \<longleftrightarrow> soff b y \<le> soff b x"
  by (simp add: seqGE_seqLE seqLE_win)

lemma seqGreater_win [seq_win]:
  "soff b x < half \<Longrightarrow> soff b y < half \<Longrightarrow> seqGreater x y \<longleftrightarrow> soff b y < soff b x"
  by (simp add: seqGreater_seqLess seqLess_win)

lemma soff_seqMin_win [seq_win]:
  "soff b x < half \<Longrightarrow> soff b y < half \<Longrightarrow> soff b (seqMin x y) = min (soff b x) (soff b y)"
  using seqLE_win[of b x y] by (auto simp: seqMin_def seqLE_def)

lemma soff_seqMax_win [seq_win]:
  "soff b x < half \<Longrightarrow> soff b y < half \<Longrightarrow> soff b (seqMax x y) = max (soff b x) (soff b y)"
  using seqGE_win[of b x y] by (auto simp: seqMax_def seqGE_def)

section \<open>The contract of the comparisons\<close>

text \<open>
  What every client of the comparison relies on: a key that turns the comparison into that
  of natural numbers on a window.  The laws are those of a linear order on the window.
\<close>

locale serial_order =
  fixes le :: "'a \<Rightarrow> 'a \<Rightarrow> bool"
    and less :: "'a \<Rightarrow> 'a \<Rightarrow> bool"
    and key :: "'a \<Rightarrow> nat"
    and win :: "'a \<Rightarrow> bool"
  assumes le_key: "win x \<Longrightarrow> win y \<Longrightarrow> le x y \<longleftrightarrow> key x \<le> key y"
    and less_key: "win x \<Longrightarrow> win y \<Longrightarrow> less x y \<longleftrightarrow> key x < key y"
    and key_inj: "key x = key y \<Longrightarrow> x = y"
begin

lemma win_trans: "win x \<Longrightarrow> win y \<Longrightarrow> win z \<Longrightarrow> le x y \<Longrightarrow> le y z \<Longrightarrow> le x z"
  by (simp add: le_key)

lemma win_antisym: "win x \<Longrightarrow> win y \<Longrightarrow> le x y \<Longrightarrow> le y x \<Longrightarrow> x = y"
  by (simp add: le_key key_inj)

lemma win_total: "win x \<Longrightarrow> win y \<Longrightarrow> le x y \<or> less y x"
  by (auto simp: le_key less_key)

lemma win_not_both: "win x \<Longrightarrow> win y \<Longrightarrow> \<not> (le x y \<and> less y x)"
  by (simp add: le_key less_key)

lemma win_less_le_trans: "win x \<Longrightarrow> win y \<Longrightarrow> win z \<Longrightarrow> less x y \<Longrightarrow> le y z \<Longrightarrow> less x z"
  by (simp add: le_key less_key)

end

interpretation seqo: serial_order seqLE seqLess "soff b" "\<lambda>x. soff b x < half" for b
  by unfold_locales (simp_all add: seq_win)

section \<open>Properties\<close>

text \<open>
  C9. Inside any window of \<open>2^31\<close> sequence numbers that starts at \<open>b\<close>, the six functions are the comparisons, the
  minimum and the maximum of the distances from \<open>b\<close>, whatever the wrap-around of the numbers in between.  The bound is sharp:
  of two numbers at a distance of exactly \<open>2^31\<close> each is less than the other, and for no other pair is that so.
\<close>

theorem seq_window_order_exact:
  assumes "soff b x < half" "soff b y < half"
  shows "(seqLess x y \<longleftrightarrow> soff b x < soff b y) \<and> (seqLE x y \<longleftrightarrow> soff b x \<le> soff b y)
    \<and> (seqGreater x y \<longleftrightarrow> soff b y < soff b x) \<and> (seqGE x y \<longleftrightarrow> soff b y \<le> soff b x)
    \<and> soff b (seqMin x y) = min (soff b x) (soff b y) \<and> soff b (seqMax x y) = max (soff b x) (soff b y)
    \<and> (seqLess u v \<or> seqLess v u \<longleftrightarrow> u \<noteq> v \<and> soff u v \<noteq> half)"
proof -
  have "soff v u = 2 ^ 32 - soff u v" if "u \<noteq> v"
    using soff_wrap[of u u v] that by simp (metis gr0I soff_eq_0_iff)
  then have "seqLess u v \<or> seqLess v u \<longleftrightarrow> u \<noteq> v \<and> soff u v \<noteq> half"
    using soff_lt[of u v] soff_eq_0_iff[of u v] by (cases "u = v") (auto simp: seqLess_soff half_val intro: gr0I)
  then show ?thesis using assms by (simp add: seq_win)
qed

theorem seq_window_order_exact_witness:
  "seqLE 4294967290 5 \<and> \<not> seqLE 5 4294967290 \<and> seqGreater 5 4294967290 \<and> seqMin 5 4294967290 = 4294967290 \<and> seqMax 5 4294967290 = 5"
proof -
  have o: "soff 4294967280 4294967290 = 10" "soff 4294967280 5 = 21"
    by (simp_all add: soff_def)
  have "x = 5 \<longleftrightarrow> soff 4294967280 x = 21" "x = 4294967290 \<longleftrightarrow> soff 4294967280 x = 10" for x
    using soff_eq_iff[of 4294967280 x 5] soff_eq_iff[of 4294967280 x 4294967290] unfolding o by blast+
  then show ?thesis
    using seq_window_order_exact[of 4294967280 4294967290 5 0 0] seq_window_order_exact[of 4294967280 5 4294967290 0 0]
    unfolding o by (simp add: half_def)
qed

end
