(* ===== verification/Sack_Rexmit_Queue.thy ===== *)
theory Sack_Rexmit_Queue
  imports Seq_Arith
begin

text \<open>
  The SACK retransmission queue, \<open>TCPSACKRexmitQueue\<close> of
  \<open>src/transport/tcp/TCPSACKRexmitQueue.{h,cc}\<close>: the list of the regions of sent and
  not yet acknowledged bytes, each with a sacked and a retransmitted flag.  A \<open>std::list\<close>
  iterator position is modelled by the split of the list in front of it.  Every \<open>ASSERT\<close>
  of the source is a branch of the model, so that an operation on a state it does not
  expect is \<open>Inl (AssertFailed _)\<close>.

  The second half relates the queue to its contract: a list of one flag pair for every byte
  from \<open>begin\<close> to \<open>end\<close> (\<open>rq_bytes\<close>).  Every operation is shown to be the obvious operation
  on this list.
\<close>

section \<open>The queue\<close>

record region =
  beginSeqNum :: u32
  endSeqNum :: u32
  sacked :: bool
  rexmitted :: bool

record rexmit_queue =
  rexmitQueue :: "region list"
  rq_begin :: u32
  rq_end :: u32

text \<open>The constructor, and \<open>init\<close>, which does not touch the list.\<close>

definition rq_new :: rexmit_queue where
  "rq_new = \<lparr>rexmitQueue = [], rq_begin = 0, rq_end = 0\<rparr>"

definition rq_init :: "u32 \<Rightarrow> rexmit_queue \<Rightarrow> rexmit_queue" where
  "rq_init seqNum q = q\<lparr>rq_begin := seqNum, rq_end := seqNum\<rparr>"

text \<open>\<open>checkQueue\<close>: the loop carries the end of the previous region.\<close>

fun check_regions :: "u32 \<Rightarrow> region list \<Rightarrow> u32 \<Rightarrow> bool" where
  "check_regions b [] e = (b = e)"
| "check_regions b (r # rs) e =
     (b = beginSeqNum r \<and> seqLess (beginSeqNum r) (endSeqNum r) \<and> check_regions (endSeqNum r) rs e)"

definition checkQueue :: "rexmit_queue \<Rightarrow> bool" where
  "checkQueue q = check_regions (rq_begin q) (rexmitQueue q) (rq_end q)"

text \<open>The loop \<open>while (i != end \<and> seqLE(i->endSeqNum, s)) i++\<close> that most operations start with.\<close>

definition skip_below :: "u32 \<Rightarrow> region list \<Rightarrow> region list" where
  "skip_below s rs = dropWhile (\<lambda>r. seqLE (endSeqNum r) s) rs"

definition below :: "u32 \<Rightarrow> region list \<Rightarrow> region list" where
  "below s rs = takeWhile (\<lambda>r. seqLE (endSeqNum r) s) rs"

definition holds_seq :: "region \<Rightarrow> u32 \<Rightarrow> bool" where
  "holds_seq r s \<longleftrightarrow> seqLE (beginSeqNum r) s \<and> seqLess s (endSeqNum r)"

definition checked :: "rexmit_queue \<Rightarrow> rexmit_queue res" where
  "checked q = assertE (checkQueue q) ''checkQueue()'' (Inr q)"

definition rq_discardUpTo :: "u32 \<Rightarrow> rexmit_queue \<Rightarrow> rexmit_queue res" where
  "rq_discardUpTo seqNum q =
     assertE (seqLE (rq_begin q) seqNum \<and> seqLE seqNum (rq_end q)) ''discardUpTo: seqNum in queue''
      (case skip_below seqNum (rexmitQueue q) of
         [] \<Rightarrow> checked (q\<lparr>rexmitQueue := [], rq_begin := seqNum\<rparr>)
       | r # rs \<Rightarrow>
           assertE (holds_seq r seqNum) ''discardUpTo: region holds seqNum''
            (checked (q\<lparr>rexmitQueue := r\<lparr>beginSeqNum := seqNum\<rparr> # rs, rq_begin := seqNum\<rparr>)))"

text \<open>
  \<open>enqueueSentData\<close>.  \<open>split_front s r rs\<close> is the block "chunk item": the region \<open>r\<close> that the
  iterator points at is cut at \<open>s\<close> unless it begins there; it returns what is inserted in
  front of the iterator and the list from the iterator on.
\<close>

definition split_front :: "u32 \<Rightarrow> region \<Rightarrow> region list \<Rightarrow> region list \<times> region list" where
  "split_front s r rs =
     (if beginSeqNum r \<noteq> s
      then ([r\<lparr>endSeqNum := s\<rparr>], r\<lparr>beginSeqNum := s\<rparr> # rs)
      else ([], r # rs))"

text \<open>The loop that marks whole regions up to \<open>toSeqNum\<close>: (marked regions, rest, fromSeqNum, found).\<close>

fun mark_rexmitted :: "u32 \<Rightarrow> region list \<Rightarrow> u32 \<Rightarrow> bool \<Rightarrow> region list \<times> region list \<times> u32 \<times> bool" where
  "mark_rexmitted toSeq [] from found = ([], [], from, found)"
| "mark_rexmitted toSeq (r # rs) from found =
     (if seqLE (endSeqNum r) toSeq
      then (let (done, rest, from', found') = mark_rexmitted toSeq rs (endSeqNum r) True
            in (r\<lparr>rexmitted := True\<rparr> # done, rest, from', found'))
      else ([], r # rs, from, found))"

definition enqueue_tail :: "u32 \<Rightarrow> u32 \<Rightarrow> bool \<Rightarrow> region list \<Rightarrow> region list \<Rightarrow> (region list \<times> u32 \<times> bool) res" where
  "enqueue_tail toSeq from found pre rest =
     (if from \<noteq> toSeq
      then (case rest of
              [] \<Rightarrow>
                Inr (pre @ [\<lparr>beginSeqNum = from, endSeqNum = toSeq, sacked = False, rexmitted = False\<rparr>], toSeq, True)
            | r # rs \<Rightarrow>
                assertE (seqLess (beginSeqNum r) toSeq) ''enqueueSentData: region below toSeqNum''
                 (Inr (pre @ [\<lparr>beginSeqNum = from, endSeqNum = toSeq, sacked = sacked r, rexmitted = True\<rparr>]
                         @ r\<lparr>beginSeqNum := toSeq\<rparr> # rs, toSeq, True)))
      else Inr (pre @ rest, from, found))"

definition enqueue_finish :: "u32 \<Rightarrow> rexmit_queue \<Rightarrow> region list \<times> u32 \<times> bool \<Rightarrow> rexmit_queue res" where
  "enqueue_finish toSeq q = (\<lambda>(rs, from, found).
     assertE (from = toSeq) ''enqueueSentData: fromSeqNum == toSeqNum''
      (assertE found ''enqueueSentData: found''
        (if rs = [] then Inl (NullPointer ''rexmitQueue.front()'')
         else checked (q\<lparr>rexmitQueue := rs, rq_begin := beginSeqNum (hd rs), rq_end := endSeqNum (last rs)\<rparr>))))"

definition rq_enqueueSentData :: "u32 \<Rightarrow> u32 \<Rightarrow> rexmit_queue \<Rightarrow> rexmit_queue res" where
  "rq_enqueueSentData fromSeq toSeq q =
     assertE (seqLE (rq_begin q) fromSeq \<and> seqLE fromSeq (rq_end q)) ''enqueueSentData: fromSeqNum in queue''
      (assertE (seqLess fromSeq toSeq) ''enqueueSentData: fromSeqNum < toSeqNum''
        (if rexmitQueue q = [] \<or> rq_end q = fromSeq
         then enqueue_finish toSeq q
                (rexmitQueue q @ [\<lparr>beginSeqNum = fromSeq, endSeqNum = toSeq, sacked = False, rexmitted = False\<rparr>],
                 toSeq, True)
         else (case skip_below fromSeq (rexmitQueue q) of
                 [] \<Rightarrow> Inl (AssertFailed ''enqueueSentData: i != end()'')
               | r # rs \<Rightarrow>
                   assertE (holds_seq r fromSeq) ''enqueueSentData: region holds fromSeqNum''
                    (let (cut, rest) = split_front fromSeq r rs;
                         (marked, rest', from', found') = mark_rexmitted toSeq rest fromSeq False
                     in bindE (enqueue_tail toSeq from' found' (below fromSeq (rexmitQueue q) @ cut @ marked) rest')
                          (enqueue_finish toSeq q)))))"

text \<open>
  \<open>setSackedBit\<close>.  The variable \<open>found\<close> is only logged, so it is left out.
\<close>

fun mark_sacked :: "u32 \<Rightarrow> u32 \<Rightarrow> region list \<Rightarrow> region list \<times> region list" where
  "mark_sacked from toSeq [] = ([], [])"
| "mark_sacked from toSeq (r # rs) =
     (if seqLE (endSeqNum r) toSeq
      then (let (done, rest) = mark_sacked from toSeq rs
            in ((if seqGE (beginSeqNum r) from then r\<lparr>sacked := True\<rparr> else r) # done, rest))
      else ([], r # rs))"

definition sack_tail :: "u32 \<Rightarrow> region list \<Rightarrow> region list" where
  "sack_tail toSeq rest =
     (case rest of
        [] \<Rightarrow> []
      | r # rs \<Rightarrow>
          if seqLess (beginSeqNum r) toSeq \<and> seqLess toSeq (endSeqNum r)
          then r\<lparr>endSeqNum := toSeq, sacked := True\<rparr> # r\<lparr>beginSeqNum := toSeq\<rparr> # rs
          else r # rs)"

definition rq_setSackedBit :: "u32 \<Rightarrow> u32 \<Rightarrow> rexmit_queue \<Rightarrow> rexmit_queue res" where
  "rq_setSackedBit fromSeq0 toSeq q =
     (let fromSeq = (if seqLess fromSeq0 (rq_begin q) then rq_begin q else fromSeq0)
      in assertE (seqLess fromSeq (rq_end q)) ''setSackedBit: fromSeqNum < end''
          (assertE (seqLess (rq_begin q) toSeq \<and> seqLE toSeq (rq_end q)) ''setSackedBit: toSeqNum in queue''
            (assertE (seqLess fromSeq toSeq) ''setSackedBit: fromSeqNum < toSeqNum''
              (if rexmitQueue q = [] then checked q
               else (case skip_below fromSeq (rexmitQueue q) of
                       [] \<Rightarrow> Inl (AssertFailed ''setSackedBit: i != end()'')
                     | r # rs \<Rightarrow>
                         assertE (holds_seq r fromSeq) ''setSackedBit: region holds fromSeqNum''
                          (let (cut, rest) = split_front fromSeq r rs;
                               (marked, rest') = mark_sacked fromSeq toSeq rest
                           in checked (q\<lparr>rexmitQueue :=
                                 below fromSeq (rexmitQueue q) @ cut @ marked @ sack_tail toSeq rest'\<rparr>)))))))"

definition rq_getSackedBit :: "u32 \<Rightarrow> rexmit_queue \<Rightarrow> bool res" where
  "rq_getSackedBit seqNum q =
     assertE (seqLE (rq_begin q) seqNum \<and> seqLE seqNum (rq_end q)) ''getSackedBit: seqNum in queue''
      (if rq_end q = seqNum then Inr False
       else (case skip_below seqNum (rexmitQueue q) of
               [] \<Rightarrow> Inl (AssertFailed ''getSackedBit: i != end()'')
             | r # rs \<Rightarrow> assertE (holds_seq r seqNum) ''getSackedBit: region holds seqNum'' (Inr (sacked r))))"

text \<open>The two searches from the back, and the resets.\<close>

fun find_end :: "(region \<Rightarrow> bool) \<Rightarrow> u32 \<Rightarrow> region list \<Rightarrow> u32" where
  "find_end p b [] = b"
| "find_end p b (r # rs) = (if p r then endSeqNum r else find_end p b rs)"

definition rq_getHighestSackedSeqNum :: "rexmit_queue \<Rightarrow> u32" where
  "rq_getHighestSackedSeqNum q = find_end sacked (rq_begin q) (rev (rexmitQueue q))"

definition rq_getHighestRexmittedSeqNum :: "rexmit_queue \<Rightarrow> u32" where
  "rq_getHighestRexmittedSeqNum q = find_end rexmitted (rq_begin q) (rev (rexmitQueue q))"

fun sacked_or_rexmitted_bytes :: "u32 \<Rightarrow> u32 \<Rightarrow> region list \<Rightarrow> u32 res" where
  "sacked_or_rexmitted_bytes from bytes [] = Inr bytes"
| "sacked_or_rexmitted_bytes from bytes (r # rs) =
     (if sacked r \<or> rexmitted r
      then assertE (holds_seq r from) ''checkRexmitQueue: region holds fromSeqNum''
             (sacked_or_rexmitted_bytes (endSeqNum r) (bytes + (endSeqNum r - from)) rs)
      else Inr bytes)"

definition rq_checkForSackedOrRexmitted :: "u32 \<Rightarrow> rexmit_queue \<Rightarrow> u32 res" where
  "rq_checkForSackedOrRexmitted fromSeq q =
     assertE (seqLE (rq_begin q) fromSeq \<and> seqLE fromSeq (rq_end q)) ''checkRexmitQueue: fromSeqNum in queue''
      (if rexmitQueue q = [] \<or> rq_end q = fromSeq then Inr 0
       else sacked_or_rexmitted_bytes fromSeq 0 (skip_below fromSeq (rexmitQueue q)))"

definition rq_resetSackedBit :: "rexmit_queue \<Rightarrow> rexmit_queue" where
  "rq_resetSackedBit q = q\<lparr>rexmitQueue := map (\<lambda>r. r\<lparr>sacked := False\<rparr>) (rexmitQueue q)\<rparr>"

definition rq_resetRexmittedBit :: "rexmit_queue \<Rightarrow> rexmit_queue" where
  "rq_resetRexmittedBit q = q\<lparr>rexmitQueue := map (\<lambda>r. r\<lparr>rexmitted := False\<rparr>) (rexmitQueue q)\<rparr>"

fun sacked_bytes :: "u32 \<Rightarrow> region list \<Rightarrow> u32" where
  "sacked_bytes bytes [] = bytes"
| "sacked_bytes bytes (r # rs) =
     sacked_bytes (if sacked r then bytes + (endSeqNum r - beginSeqNum r) else bytes) rs"

definition rq_getTotalAmountOfSackedBytes :: "rexmit_queue \<Rightarrow> u32" where
  "rq_getTotalAmountOfSackedBytes q = sacked_bytes 0 (rexmitQueue q)"

fun sacked_bytes_from :: "u32 \<Rightarrow> u32 \<Rightarrow> region list \<Rightarrow> u32" where
  "sacked_bytes_from from bytes [] = bytes"
| "sacked_bytes_from from bytes (r # rs) =
     (if seqLE from (beginSeqNum r)
      then sacked_bytes_from from (if sacked r then bytes + (endSeqNum r - beginSeqNum r) else bytes) rs
      else if seqLess (beginSeqNum r) from \<and> seqLess from (endSeqNum r) \<and> sacked r
           then bytes + (endSeqNum r - from)
           else bytes)"

definition rq_getAmountOfSackedBytes :: "u32 \<Rightarrow> rexmit_queue \<Rightarrow> u32 res" where
  "rq_getAmountOfSackedBytes fromSeq q =
     assertE (seqLE (rq_begin q) fromSeq \<and> seqLE fromSeq (rq_end q)) ''getAmountOfSackedBytes: fromSeqNum in queue''
      (Inr (sacked_bytes_from fromSeq 0 (rev (rexmitQueue q))))"

fun count_sack_runs :: "u32 \<Rightarrow> bool \<Rightarrow> region list \<Rightarrow> u32" where
  "count_sack_runs counter prev [] = counter"
| "count_sack_runs counter prev (r # rs) =
     count_sack_runs (if sacked r \<and> \<not> prev then counter + 1 else counter) (sacked r) rs"

definition rq_getNumOfDiscontiguousSacks :: "u32 \<Rightarrow> rexmit_queue \<Rightarrow> u32 res" where
  "rq_getNumOfDiscontiguousSacks fromSeq q =
     assertE (seqLE (rq_begin q) fromSeq \<and> seqLE fromSeq (rq_end q)) ''getNumOfDiscontiguousSacks: fromSeqNum in queue''
      (if rexmitQueue q = [] \<or> fromSeq = rq_end q then Inr 0
       else Inr (count_sack_runs 0 False (skip_below fromSeq (rexmitQueue q))))"

text \<open>\<open>checkSackBlock\<close> returns (length, sacked, rexmitted).\<close>

definition rq_checkSackBlock :: "u32 \<Rightarrow> rexmit_queue \<Rightarrow> (u32 \<times> bool \<times> bool) res" where
  "rq_checkSackBlock fromSeq q =
     assertE (seqLE (rq_begin q) fromSeq \<and> seqLess fromSeq (rq_end q)) ''checkSackBlock: fromSeqNum in queue''
      (case skip_below fromSeq (rexmitQueue q) of
         [] \<Rightarrow> Inl (AssertFailed ''checkSackBlock: i != end()'')
       | r # rs \<Rightarrow>
           assertE (holds_seq r fromSeq) ''checkSackBlock: region holds fromSeqNum''
            (Inr (endSeqNum r - fromSeq, sacked r, rexmitted r)))"


section \<open>The contract: one flag pair for every byte\<close>

definition region_len :: "region \<Rightarrow> nat" where
  "region_len r = soff (beginSeqNum r) (endSeqNum r)"

definition region_flags :: "region \<Rightarrow> (bool \<times> bool) list" where
  "region_flags r = replicate (region_len r) (sacked r, rexmitted r)"

definition flags :: "region list \<Rightarrow> (bool \<times> bool) list" where
  "flags rs = concat (map region_flags rs)"

definition rq_bytes :: "rexmit_queue \<Rightarrow> (bool \<times> bool) list" where
  "rq_bytes q = flags (rexmitQueue q)"

text \<open>The well-formed queues: \<open>checkQueue\<close> holds, and the queue spans less than half of the circle.\<close>

definition rq_wf :: "rexmit_queue \<Rightarrow> bool" where
  "rq_wf q \<longleftrightarrow> checkQueue q \<and> length (rq_bytes q) < half"

lemma length_region_flags [simp]: "length (region_flags r) = region_len r"
  by (simp add: region_flags_def)

lemma flags_simps [simp]:
  "flags [] = []"
  "flags (r # rs) = region_flags r @ flags rs"
  "flags (xs @ ys) = flags xs @ flags ys"
  by (simp_all add: flags_def)

lemma check_regions_append:
  "check_regions b (xs @ ys) e \<longleftrightarrow> (\<exists>m. check_regions b xs m \<and> check_regions m ys e)"
  by (induction xs arbitrary: b) auto

lemma check_regions_soff:
  "check_regions b rs e \<Longrightarrow> length (flags rs) < half \<Longrightarrow> soff b e = length (flags rs)"
proof (induction rs arbitrary: b)
  case (Cons r rs)
  then have "soff (endSeqNum r) e = length (flags rs)" "b = beginSeqNum r" by auto
  with Cons.prems show ?case
    using soff_add[of b "endSeqNum r" e] by (simp add: region_len_def half_def)
qed simp

lemma region_len_pos: "check_regions b (r # rs) e \<Longrightarrow> 0 < region_len r \<and> region_len r < half"
  by (auto simp: region_len_def seqLess_soff)

text \<open>Cutting a region in two does not change the bytes.\<close>

lemma cut_len:
  assumes "soff (beginSeqNum r) s < region_len r"
  shows "soff s (endSeqNum r) = region_len r - soff (beginSeqNum r) s"
  using assms unfolding region_len_def by (intro soff_diff) simp

lemma flags_cut:
  assumes "soff (beginSeqNum r) s < region_len r"
  shows "region_flags (r\<lparr>endSeqNum := s\<rparr>) = take (soff (beginSeqNum r) s) (region_flags r)"
    and "region_flags (r\<lparr>beginSeqNum := s\<rparr>) = drop (soff (beginSeqNum r) s) (region_flags r)"
  using assms cut_len[OF assms] by (simp_all add: region_flags_def region_len_def)

text \<open>Where the loop that skips the regions below \<open>s\<close> stops.\<close>

lemma below_skip: "below s rs @ skip_below s rs = rs"
  by (simp add: below_def skip_below_def)

lemma seqLE_end:
  assumes "check_regions b (r # rs) e" "soff b s < half"
  shows "seqLE (endSeqNum r) s \<longleftrightarrow> region_len r \<le> soff b s"
  using assms region_len_pos[OF assms(1)] seqLE_win[of b "endSeqNum r" s]
  by (simp add: region_len_def)

lemma skip_below_all:
  assumes "check_regions b rs e" "length (flags rs) \<le> soff b s" "soff b s < half"
  shows "skip_below s rs = [] \<and> below s rs = rs"
  using assms
proof (induction rs arbitrary: b)
  case (Cons r rs)
  have le: "soff b (endSeqNum r) = region_len r" using Cons.prems by (simp add: region_len_def)
  then have "soff (endSeqNum r) s = soff b s - region_len r"
    using Cons.prems by (intro soff_diff[of b "endSeqNum r" s, unfolded le]) simp
  with Cons show ?case using seqLE_end[of b r rs e s] by (auto simp: skip_below_def below_def)
qed (simp add: skip_below_def below_def)

lemma skip_below_hit:
  assumes "check_regions b rs e" "soff b s < length (flags rs)" "length (flags rs) < half"
  obtains r rs' where "skip_below s rs = r # rs'"
    and "check_regions b (below s rs) (beginSeqNum r)" "check_regions (beginSeqNum r) (r # rs') e"
    and "soff b s = length (flags (below s rs)) + soff (beginSeqNum r) s"
    and "soff (beginSeqNum r) s < region_len r"
    and "rs = below s rs @ r # rs'"
  using assms
proof (induction rs arbitrary: b thesis)
  case (Cons r rs)
  have le: "soff b (endSeqNum r) = region_len r" and b: "b = beginSeqNum r"
    using Cons.prems by (simp_all add: region_len_def)
  have hb: "soff b s < half" using Cons.prems by simp
  note E = seqLE_end[OF Cons.prems(2) hb]
  show ?case
  proof (cases "region_len r \<le> soff b s")
    case False
    then show ?thesis using E Cons.prems b
      by (intro Cons.prems(1)[of r rs]) (simp_all add: skip_below_def below_def)
  next
    case True
    then have d: "soff (endSeqNum r) s = soff b s - region_len r"
      by (intro soff_diff[of b "endSeqNum r" s, unfolded le])
    show ?thesis
      apply (rule Cons.IH[of "endSeqNum r"])
      subgoal for r' rs'
        using E True Cons.prems d b by (intro Cons.prems(1)[of r' rs']) (simp_all add: skip_below_def below_def)
      using Cons.prems True d by auto
  qed
qed simp

lemma holds_seqI:
  assumes "soff (beginSeqNum r) s < region_len r" "region_len r < half"
  shows "holds_seq r s"
  using assms seqLess_win[of "beginSeqNum r" s "endSeqNum r"]
  by (simp add: holds_seq_def seqLE_soff region_len_def)


section \<open>Every operation on the bytes\<close>

lemma rq_wfD:
  assumes "rq_wf q"
  shows "check_regions (rq_begin q) (rexmitQueue q) (rq_end q)"
    and "length (flags (rexmitQueue q)) < half"
    and "soff (rq_begin q) (rq_end q) = length (flags (rexmitQueue q))"
  using assms check_regions_soff by (auto simp: rq_wf_def checkQueue_def rq_bytes_def)

lemma in_queue_iff:
  assumes "rq_wf q" "soff (rq_begin q) s \<le> length (rq_bytes q)"
  shows "seqLE (rq_begin q) s \<and> seqLE s (rq_end q)"
    and "seqLess s (rq_end q) \<longleftrightarrow> soff (rq_begin q) s < length (rq_bytes q)"
    and "rq_end q = s \<longleftrightarrow> soff (rq_begin q) s = length (rq_bytes q)"
proof -
  have h: "soff (rq_begin q) s < half" "soff (rq_begin q) (rq_end q) < half"
    using assms rq_wfD[OF assms(1)] by (auto simp: rq_bytes_def)
  show "seqLE (rq_begin q) s \<and> seqLE s (rq_end q)"
    using h assms(2) rq_wfD(3)[OF assms(1)] by (simp add: seqLE_soff[of "rq_begin q"] seqLE_win[of "rq_begin q"] rq_bytes_def)
  show "seqLess s (rq_end q) \<longleftrightarrow> soff (rq_begin q) s < length (rq_bytes q)"
    using h rq_wfD(3)[OF assms(1)] by (simp add: seqLess_win[of "rq_begin q"] rq_bytes_def)
  show "rq_end q = s \<longleftrightarrow> soff (rq_begin q) s = length (rq_bytes q)"
    using rq_wfD(3)[OF assms(1)] by (metis rq_bytes_def soff_eq_iff)
qed

lemma check_regions_cut:
  assumes "check_regions b (r # rs) e" "0 < soff b s" "soff b s < region_len r"
  shows "check_regions s (r\<lparr>beginSeqNum := s\<rparr> # rs) e" "check_regions b [r\<lparr>endSeqNum := s\<rparr>] s"
proof -
  have "soff s (endSeqNum r) = region_len r - soff b s"
    using assms cut_len[of r s] by simp
  then show "check_regions s (r\<lparr>beginSeqNum := s\<rparr> # rs) e"
    using assms region_len_pos[OF assms(1)] by (auto simp: seqLess_soff)
  show "check_regions b [r\<lparr>endSeqNum := s\<rparr>] s"
    using assms region_len_pos[OF assms(1)] by (auto simp: seqLess_soff)
qed

lemma discard_ok:
  assumes "rq_wf q" "soff (rq_begin q) s \<le> length (rq_bytes q)"
  shows "\<exists>q'. rq_discardUpTo s q = Inr q' \<and> rq_wf q' \<and> rq_begin q' = s \<and> rq_end q' = rq_end q
    \<and> rq_bytes q' = drop (soff (rq_begin q) s) (rq_bytes q)"
proof (cases "soff (rq_begin q) s = length (rq_bytes q)")
  case True
  note wf = rq_wfD[OF assms(1)]
  have "skip_below s (rexmitQueue q) = []" "rq_end q = s"
    using skip_below_all[OF wf(1)] True wf in_queue_iff(3)[OF assms] by (auto simp: rq_bytes_def)
  then show ?thesis
    using True in_queue_iff(1)[OF assms]
    by (simp add: rq_discardUpTo_def checked_def checkQueue_def rq_wf_def rq_bytes_def half_def)
next
  case False
  note wf = rq_wfD[OF assms(1)]
  have "soff (rq_begin q) s < length (flags (rexmitQueue q))" using False assms by (simp add: rq_bytes_def)
  then obtain r rs where r: "skip_below s (rexmitQueue q) = r # rs"
      "check_regions (beginSeqNum r) (r # rs) (rq_end q)"
      "soff (rq_begin q) s = length (flags (below s (rexmitQueue q))) + soff (beginSeqNum r) s"
      "soff (beginSeqNum r) s < region_len r" "rexmitQueue q = below s (rexmitQueue q) @ r # rs"
    using skip_below_hit[OF wf(1) _ wf(2)] by metis
  have pos: "0 < region_len r \<and> region_len r < half" using region_len_pos[OF r(2)] .
  have hs: "holds_seq r s" using r(4) pos by (simp add: holds_seqI)
  have chk: "check_regions s (r\<lparr>beginSeqNum := s\<rparr> # rs) (rq_end q)"
    using check_regions_cut(1)[OF r(2), of s] r(2,4) by (cases "soff (beginSeqNum r) s = 0") auto
  have "flags (rexmitQueue q) = flags (below s (rexmitQueue q)) @ region_flags r @ flags rs"
    by (subst r(5)) simp
  then have "flags (r\<lparr>beginSeqNum := s\<rparr> # rs) = drop (soff (rq_begin q) s) (flags (rexmitQueue q))"
    using r(3,4) flags_cut(2)[OF r(4)] by simp
  then show ?thesis
    using r(1) hs chk in_queue_iff(1)[OF assms] wf(2)
    by (simp add: rq_discardUpTo_def checked_def checkQueue_def rq_wf_def rq_bytes_def)
qed

text \<open>The cut in front of a marking loop.\<close>

lemma split_front_ok:
  assumes "check_regions (beginSeqNum r) (r # rs) e" "soff (beginSeqNum r) s < region_len r"
    and "split_front s r rs = (pc, rest)"
  shows "check_regions (beginSeqNum r) pc s \<and> check_regions s rest e
    \<and> flags pc = take (soff (beginSeqNum r) s) (flags (r # rs))
    \<and> flags rest = drop (soff (beginSeqNum r) s) (flags (r # rs))"
proof (cases "beginSeqNum r = s")
  case True then show ?thesis using assms by (auto simp: split_front_def)
next
  case False
  then have "0 < soff (beginSeqNum r) s" by (metis gr0I soff_eq_0_iff)
  with check_regions_cut[OF assms(1) this assms(2)] False assms flags_cut[OF assms(2)]
  show ?thesis by (auto simp: split_front_def)
qed

lemma mark_rexmitted_ok:
  assumes "check_regions b rs e" "length (flags rs) < half" "soff b t < half"
    and "mark_rexmitted t rs b found = (done, rest, f', found')"
  shows "check_regions b done f' \<and> check_regions f' rest e \<and> soff b f' \<le> soff b t
    \<and> soff f' t = soff b t - soff b f'
    \<and> flags done = map (\<lambda>(s, _). (s, True)) (take (soff b f') (flags rs))
    \<and> flags rest = drop (soff b f') (flags rs) \<and> soff b f' \<le> length (flags rs)
    \<and> (rest \<noteq> [] \<longrightarrow> soff f' t < region_len (hd rest)) \<and> (found' \<longleftrightarrow> found \<or> done \<noteq> [])"
  using assms
proof (induction rs arbitrary: b found "done" rest f' found')
  case (Cons r rs)
  have le: "soff b (endSeqNum r) = region_len r" and b: "b = beginSeqNum r"
    using Cons.prems by (simp_all add: region_len_def)
  note E = seqLE_end[OF Cons.prems(1,3)]
  show ?case
  proof (cases "region_len r \<le> soff b t")
    case False
    then show ?thesis using Cons.prems E by auto
  next
    case True
    then have d: "soff (endSeqNum r) t = soff b t - region_len r"
      by (intro soff_diff[of b "endSeqNum r" t, unfolded le])
    obtain done2 where m: "mark_rexmitted t rs (endSeqNum r) True = (done2, rest, f', found')"
        and dn: "done = r\<lparr>rexmitted := True\<rparr> # done2"
      using Cons.prems(4) E True by (auto split: prod.splits)
    have IH: "check_regions (endSeqNum r) done2 f' \<and> check_regions f' rest e
      \<and> soff (endSeqNum r) f' \<le> soff (endSeqNum r) t
      \<and> soff f' t = soff (endSeqNum r) t - soff (endSeqNum r) f'
      \<and> flags done2 = map (\<lambda>(s, _). (s, True)) (take (soff (endSeqNum r) f') (flags rs))
      \<and> flags rest = drop (soff (endSeqNum r) f') (flags rs) \<and> soff (endSeqNum r) f' \<le> length (flags rs)
      \<and> (rest \<noteq> [] \<longrightarrow> soff f' t < region_len (hd rest)) \<and> (found' \<longleftrightarrow> True \<or> done2 \<noteq> [])"
      using Cons.prems d by (intro Cons.IH[OF _ _ _ m]) auto
    have "soff b f' = region_len r + soff (endSeqNum r) f'"
      using soff_add[of b "endSeqNum r" f'] le IH d Cons.prems(2,3) by (simp add: half_def)
    with IH d dn b Cons.prems(1) True show ?thesis
      by (auto simp: region_flags_def region_len_def)
  qed
qed auto


lemma check_regions_hd:
  "check_regions b rs e \<Longrightarrow> rs \<noteq> [] \<Longrightarrow> beginSeqNum (hd rs) = b \<and> endSeqNum (last rs) = e"
  by (induction rs arbitrary: b) (auto split: if_splits simp: neq_Nil_conv)

lemma enqueue_finish_ok:
  assumes "check_regions (rq_begin q) rs e" "rs \<noteq> []"
  shows "enqueue_finish t q (rs, t, True) = Inr (q\<lparr>rexmitQueue := rs, rq_end := e\<rparr>)"
proof -
  have "q\<lparr>rexmitQueue := rs, rq_begin := rq_begin q, rq_end := e\<rparr> = q\<lparr>rexmitQueue := rs, rq_end := e\<rparr>"
    by simp
  then show ?thesis
    using assms check_regions_hd[OF assms] by (simp add: enqueue_finish_def checked_def checkQueue_def)
qed

text \<open>
  What sending the bytes from offset \<open>f\<close> up to offset \<open>t\<close> means on the list of flags, and
  what a SACK block for them means.
\<close>

definition mark_sent :: "nat \<Rightarrow> nat \<Rightarrow> (bool \<times> bool) list \<Rightarrow> (bool \<times> bool) list" where
  "mark_sent f t bs = take f bs @ map (\<lambda>(s, _). (s, True)) (take (t - f) (drop f bs)) @ drop t bs
     @ replicate (t - length bs) (False, False)"

definition mark_sack :: "nat \<Rightarrow> nat \<Rightarrow> (bool \<times> bool) list \<Rightarrow> (bool \<times> bool) list" where
  "mark_sack f t bs = take f bs @ map (\<lambda>(_, r). (True, r)) (take (t - f) (drop f bs)) @ drop t bs"

lemma length_mark_sent: "f \<le> length bs \<Longrightarrow> f \<le> t \<Longrightarrow> length (mark_sent f t bs) = max t (length bs)"
  by (simp add: mark_sent_def)

lemma length_mark_sack [simp]: "f \<le> length bs \<Longrightarrow> f \<le> t \<Longrightarrow> t \<le> length bs \<Longrightarrow> length (mark_sack f t bs) = length bs"
  by (simp add: mark_sack_def)

lemma enqueue_tail_ok:
  assumes "check_regions b (pre @ rest) e" "check_regions b pre f'" "check_regions f' rest e"
    and "soff f' t < half" "rest \<noteq> [] \<longrightarrow> soff f' t < region_len (hd rest)"
    and "f' = t \<longrightarrow> found \<and> pre @ rest \<noteq> []"
  shows "\<exists>rs e'. enqueue_tail t f' found pre rest = Inr (rs, t, True) \<and> rs \<noteq> []
    \<and> check_regions b rs e' \<and> e' = (if rest = [] then t else e)
    \<and> flags rs = flags pre @ mark_sent 0 (soff f' t) (flags rest)"
proof (cases "f' = t")
  case True
  then have "rest = [] \<longrightarrow> e = t" using assms by auto
  then show ?thesis using True assms by (auto simp: enqueue_tail_def mark_sent_def)
next
  case ne: False
  then have pos: "0 < soff f' t" by (metis gr0I soff_eq_0_iff)
  then have less: "seqLess f' t" using assms(4) by (simp add: seqLess_soff)
  show ?thesis
  proof (cases rest)
    case Nil
    then show ?thesis using ne assms less
      by (auto simp: enqueue_tail_def mark_sent_def check_regions_append region_flags_def region_len_def)
  next
    case (Cons r rs)
    then have f': "beginSeqNum r = f'" and lt: "soff (beginSeqNum r) t < region_len r" using assms by auto
    have c: "check_regions f' (r # rs) e" using assms Cons by simp
    have c2: "check_regions t (r\<lparr>beginSeqNum := t\<rparr> # rs) e"
      using check_regions_cut(1)[OF c pos] lt f' by simp
    have fl: "replicate (soff f' t) (sacked r, True) =
        map (\<lambda>(s, _). (s, True)) (take (soff f' t) (region_flags r))"
      using lt f' by (simp add: region_flags_def min_def)
    have "enqueue_tail t f' found pre rest = Inr (pre @ [\<lparr>beginSeqNum = f', endSeqNum = t, sacked = sacked r, rexmitted = True\<rparr>]
                         @ r\<lparr>beginSeqNum := t\<rparr> # rs, t, True)"
      using ne Cons less f' by (simp add: enqueue_tail_def)
    moreover have "check_regions b (pre @ [\<lparr>beginSeqNum = f', endSeqNum = t, sacked = sacked r, rexmitted = True\<rparr>]
                         @ r\<lparr>beginSeqNum := t\<rparr> # rs) e"
      using assms(2) c2 less by (auto simp: check_regions_append)
    ultimately show ?thesis
      using Cons lt f' flags_cut(2)[OF lt] fl
      by (simp add: mark_sent_def region_flags_def[of "\<lparr>beginSeqNum = f', endSeqNum = t, sacked = sacked r, rexmitted = True\<rparr>"]
          region_len_def[of "\<lparr>beginSeqNum = f', endSeqNum = t, sacked = sacked r, rexmitted = True\<rparr>"])
  qed
qed

lemma mark_sent_compose:
  assumes "f \<le> length bs" "m \<le> length bs - f" "m \<le> t - f" "f \<le> t"
  shows "take f bs @ map (\<lambda>(s, _). (s, True)) (take m (drop f bs)) @ mark_sent 0 (t - f - m) (drop (f + m) bs)
    = mark_sent f t bs"
proof -
  have "take (t - f) (drop f bs) = take m (drop f bs) @ take (t - f - m) (drop (f + m) bs)"
    using assms take_add[of m "t - f - m" "drop f bs"] by (simp add: add.commute)
  then show ?thesis using assms by (simp add: mark_sent_def)
qed


lemma enqueue_ok:
  assumes wf: "rq_wf q" and f: "soff (rq_begin q) f \<le> length (rq_bytes q)"
    and t: "soff (rq_begin q) f < soff (rq_begin q) t" "soff (rq_begin q) t < half"
  shows "\<exists>q'. rq_enqueueSentData f t q = Inr q' \<and> rq_wf q' \<and> rq_begin q' = rq_begin q
    \<and> rq_bytes q' = mark_sent (soff (rq_begin q) f) (soff (rq_begin q) t) (rq_bytes q)"
proof -
  let ?b = "rq_begin q" and ?Q = "rexmitQueue q"
  note w = rq_wfD[OF wf]
  have d: "soff f t = soff ?b t - soff ?b f" using t by (intro soff_diff) simp
  have ft: "seqLess f t" using d t by (simp add: seqLess_soff)
  note inq = in_queue_iff[OF wf f]
  have len: "length (mark_sent (soff ?b f) (soff ?b t) (rq_bytes q)) < half"
    using f t w(2) by (simp add: length_mark_sent rq_bytes_def)
  show ?thesis
  proof (cases "?Q = [] \<or> rq_end q = f")
    case True
    then have e: "rq_end q = f" using inq(3) f by (auto simp: rq_bytes_def)
    let ?rs = "?Q @ [\<lparr>beginSeqNum = f, endSeqNum = t, sacked = False, rexmitted = False\<rparr>]"
    have chk: "check_regions ?b ?rs t" using w(1) e ft by (auto simp: check_regions_append)
    have lf: "length (flags ?Q) = soff ?b f" using inq(3) e by (simp add: rq_bytes_def)
    have "flags ?rs = mark_sent (soff ?b f) (soff ?b t) (flags ?Q)"
      using lf d t by (simp add: mark_sent_def region_flags_def region_len_def)
    then show ?thesis
      using True inq(1) ft enqueue_finish_ok[OF chk] chk len
      by (simp add: rq_enqueueSentData_def rq_wf_def checkQueue_def rq_bytes_def)
  next
    case False
    then have "soff ?b f < length (flags ?Q)" using inq(3) f by (auto simp: rq_bytes_def)
    then obtain r rs where r: "skip_below f ?Q = r # rs"
      "check_regions ?b (below f ?Q) (beginSeqNum r)" "check_regions (beginSeqNum r) (r # rs) (rq_end q)"
      "soff ?b f = length (flags (below f ?Q)) + soff (beginSeqNum r) f"
      "soff (beginSeqNum r) f < region_len r" "?Q = below f ?Q @ r # rs"
      using skip_below_hit[OF w(1) _ w(2)] by metis
    have hs: "holds_seq r f" using r(5) region_len_pos[OF r(3)] by (simp add: holds_seqI)
    obtain pc rest where sp: "split_front f r rs = (pc, rest)" by force
    note S = split_front_ok[OF r(3,5) sp]
    obtain "done" rest' f' found' where mk: "mark_rexmitted t rest f False = (done, rest', f', found')"
      by (metis prod_cases4)
    have fQ: "flags ?Q = flags (below f ?Q) @ flags (r # rs)" by (subst r(6)) simp
    then have fl: "flags (below f ?Q @ pc) = take (soff ?b f) (flags ?Q)"
      and fr: "flags rest = drop (soff ?b f) (flags ?Q)"
      using S r(4) by simp_all
    have lr: "length (flags rest) = length (flags ?Q) - soff ?b f" unfolding fr by simp
    have M: "check_regions f done f' \<and> check_regions f' rest' (rq_end q) \<and> soff f f' \<le> soff f t
      \<and> soff f' t = soff f t - soff f f'
      \<and> flags done = map (\<lambda>(s, _). (s, True)) (take (soff f f') (flags rest))
      \<and> flags rest' = drop (soff f f') (flags rest) \<and> soff f f' \<le> length (flags rest)
      \<and> (rest' \<noteq> [] \<longrightarrow> soff f' t < region_len (hd rest')) \<and> (found' \<longleftrightarrow> False \<or> done \<noteq> [])"
      using S lr w(2) d t(2) by (intro mark_rexmitted_ok[OF _ _ _ mk]) (simp_all del: flags_simps)
    have pre: "check_regions ?b (below f ?Q @ pc @ done) f'"
      using r(2) S M by (auto simp: check_regions_append)
    have fnd: "f' = t \<longrightarrow> found' \<and> (below f ?Q @ pc @ done) @ rest' \<noteq> []"
      using M ft by (cases "done") auto
    have all: "check_regions ?b ((below f ?Q @ pc @ done) @ rest') (rq_end q)"
      using pre M check_regions_append by blast
    have h': "soff f' t < half" using M d t by linarith
    obtain rs2 e2 where T: "enqueue_tail t f' found' (below f ?Q @ pc @ done) rest' = Inr (rs2, t, True)"
      "rs2 \<noteq> []" "check_regions ?b rs2 e2" "e2 = (if rest' = [] then t else rq_end q)"
      "flags rs2 = flags (below f ?Q @ pc @ done) @ mark_sent 0 (soff f' t) (flags rest')"
      using enqueue_tail_ok[OF all pre _ h' _ fnd] M by metis
    have eq: "flags rs2 = flags (below f ?Q @ pc) @ flags done @ mark_sent 0 (soff f' t) (flags rest')"
      using T(5) by simp
    have "flags rs2 = mark_sent (soff ?b f) (soff ?b t) (flags ?Q)"
      unfolding eq fl using fr M d f t mark_sent_compose[of "soff ?b f" "flags ?Q" "soff f f'" "soff ?b t"]
      by (simp add: rq_bytes_def add.commute)
    then show ?thesis
      using r(1) False hs sp mk T(1) inq(1) ft enqueue_finish_ok[OF T(3,2)] T(3) len
      by (simp add: rq_enqueueSentData_def rq_wf_def checkQueue_def rq_bytes_def)
  qed
qed

lemma mark_sacked_ok:
  assumes "check_regions b rs e" "length (flags rs) < half" "soff b t < half"
    and "soff a b < half" "soff a b + length (flags rs) < half"
    and "mark_sacked a t rs = (done, rest)"
  shows "\<exists>m. check_regions b done m \<and> check_regions m rest e \<and> soff b m \<le> soff b t
    \<and> soff m t = soff b t - soff b m
    \<and> flags done = map (\<lambda>(_, r). (True, r)) (take (soff b m) (flags rs))
    \<and> flags rest = drop (soff b m) (flags rs) \<and> soff b m \<le> length (flags rs)
    \<and> (rest \<noteq> [] \<longrightarrow> soff m t < region_len (hd rest))"
  using assms
proof (induction rs arbitrary: b "done" rest)
  case (Cons r rs)
  have le: "soff b (endSeqNum r) = region_len r" and b: "b = beginSeqNum r"
    using Cons.prems by (simp_all add: region_len_def)
  note E = seqLE_end[OF Cons.prems(1,3)]
  show ?case
  proof (cases "region_len r \<le> soff b t")
    case False
    then show ?thesis using Cons.prems E by (intro exI[of _ b]) auto
  next
    case True
    then have d: "soff (endSeqNum r) t = soff b t - region_len r"
      by (intro soff_diff[of b "endSeqNum r" t, unfolded le])
    have ae: "soff a (endSeqNum r) = soff a b + region_len r"
      using soff_add[of a b "endSeqNum r"] le Cons.prems(5) by (simp add: half_def)
    have ge: "seqGE (beginSeqNum r) a" using Cons.prems(4) b by (simp add: seqGE_seqLE seqLE_soff)
    obtain done2 where m: "mark_sacked a t rs = (done2, rest)"
        and dn: "done = r\<lparr>sacked := True\<rparr> # done2"
      using Cons.prems(6) E True ge by (auto split: prod.splits)
    have "\<exists>m. check_regions (endSeqNum r) done2 m \<and> check_regions m rest e
      \<and> soff (endSeqNum r) m \<le> soff (endSeqNum r) t
      \<and> soff m t = soff (endSeqNum r) t - soff (endSeqNum r) m
      \<and> flags done2 = map (\<lambda>(_, r). (True, r)) (take (soff (endSeqNum r) m) (flags rs))
      \<and> flags rest = drop (soff (endSeqNum r) m) (flags rs) \<and> soff (endSeqNum r) m \<le> length (flags rs)
      \<and> (rest \<noteq> [] \<longrightarrow> soff m t < region_len (hd rest))"
      using Cons.prems d ae by (intro Cons.IH[OF _ _ _ _ _ m]) auto
    then obtain m where IH: "check_regions (endSeqNum r) done2 m \<and> check_regions m rest e
      \<and> soff (endSeqNum r) m \<le> soff (endSeqNum r) t
      \<and> soff m t = soff (endSeqNum r) t - soff (endSeqNum r) m
      \<and> flags done2 = map (\<lambda>(_, r). (True, r)) (take (soff (endSeqNum r) m) (flags rs))
      \<and> flags rest = drop (soff (endSeqNum r) m) (flags rs) \<and> soff (endSeqNum r) m \<le> length (flags rs)
      \<and> (rest \<noteq> [] \<longrightarrow> soff m t < region_len (hd rest))" by blast
    have "soff b m = region_len r + soff (endSeqNum r) m"
      using soff_add[of b "endSeqNum r" m] le IH d Cons.prems(2,3) by (simp add: half_def)
    with IH d dn b Cons.prems(1) True show ?thesis
      by (intro exI[of _ m]) (auto simp: region_flags_def region_len_def)
  qed
qed auto

lemma sack_tail_ok:
  assumes "check_regions m rest e" "soff m t < half" "rest \<noteq> [] \<longrightarrow> soff m t < region_len (hd rest)"
    and "soff m t \<le> length (flags rest)"
  shows "check_regions m (sack_tail t rest) e \<and>
    flags (sack_tail t rest) = mark_sack 0 (soff m t) (flags rest)"
proof (cases rest)
  case Nil then show ?thesis using assms by (simp add: sack_tail_def mark_sack_def)
next
  case (Cons r rs)
  then have m: "beginSeqNum r = m" and lt: "soff (beginSeqNum r) t < region_len r" using assms by auto
  have c: "check_regions m (r # rs) e" using assms Cons by simp
  have tl: "seqLess t (endSeqNum r)"
    using cut_len[OF lt] lt region_len_pos[OF c] by (simp add: seqLess_soff)
  show ?thesis
  proof (cases "m = t")
    case True then show ?thesis using Cons m c by (simp add: sack_tail_def mark_sack_def)
  next
    case False
    then have pos: "0 < soff m t" by (metis gr0I soff_eq_0_iff)
    then have l: "seqLess m t" using assms(2) by (simp add: seqLess_soff)
    have st: "sack_tail t rest = r\<lparr>endSeqNum := t, sacked := True\<rparr> # r\<lparr>beginSeqNum := t\<rparr> # rs"
      using Cons m l tl by (simp add: sack_tail_def)
    have "check_regions m (sack_tail t rest) e"
      using st check_regions_cut(1)[OF c pos] lt m l by auto
    moreover have "region_flags (r\<lparr>endSeqNum := t, sacked := True\<rparr>) =
        map (\<lambda>(_, r). (True, r)) (take (soff m t) (region_flags r))"
      using lt m by (simp add: region_flags_def region_len_def min_def)
    ultimately show ?thesis
      using st flags_cut(2)[OF lt] lt m Cons by (simp add: mark_sack_def)
  qed
qed

lemma mark_sack_compose:
  assumes "f \<le> length bs" "m \<le> length bs - f" "m \<le> t - f" "f \<le> t"
  shows "take f bs @ map (\<lambda>(_, r). (True, r)) (take m (drop f bs)) @ mark_sack 0 (t - f - m) (drop (f + m) bs)
    = mark_sack f t bs"
proof -
  have "take (t - f) (drop f bs) = take m (drop f bs) @ take (t - f - m) (drop (f + m) bs)"
    using assms take_add[of m "t - f - m" "drop f bs"] by (simp add: add.commute)
  then show ?thesis using assms by (simp add: mark_sack_def)
qed

lemma sack_ok:
  assumes wf: "rq_wf q" and ft: "soff (rq_begin q) f < soff (rq_begin q) t"
    and t: "soff (rq_begin q) t \<le> length (rq_bytes q)"
  shows "\<exists>q'. rq_setSackedBit f t q = Inr q' \<and> rq_wf q' \<and> rq_begin q' = rq_begin q \<and> rq_end q' = rq_end q
    \<and> rq_bytes q' = mark_sack (soff (rq_begin q) f) (soff (rq_begin q) t) (rq_bytes q)"
proof -
  let ?b = "rq_begin q" and ?Q = "rexmitQueue q"
  note w = rq_wfD[OF wf]
  have h: "soff ?b f < half" "soff ?b t < half" using w ft t by (auto simp: rq_bytes_def)
  have d: "soff f t = soff ?b t - soff ?b f" using ft by (intro soff_diff) simp
  have fl: "soff ?b f < length (flags ?Q)" using ft t by (simp add: rq_bytes_def)
  have g: "\<not> seqLess f ?b" "seqLess f t" "seqLess ?b t" "seqLess f (rq_end q)" "seqLE t (rq_end q)" "?Q \<noteq> []"
    using h ft in_queue_iff[OF wf t] in_queue_iff(2)[OF wf, of f] t seqLess_win[of ?b f ?b] seqLess_win[of ?b f t]
      seqLess_win[of ?b ?b t] fl by (auto simp: half_def rq_bytes_def)
  obtain r rs where r: "skip_below f ?Q = r # rs"
      "check_regions ?b (below f ?Q) (beginSeqNum r)" "check_regions (beginSeqNum r) (r # rs) (rq_end q)"
      "soff ?b f = length (flags (below f ?Q)) + soff (beginSeqNum r) f"
      "soff (beginSeqNum r) f < region_len r" "?Q = below f ?Q @ r # rs"
    using skip_below_hit[OF w(1) fl w(2)] by metis
  have hs: "holds_seq r f" using r(5) region_len_pos[OF r(3)] by (simp add: holds_seqI)
  obtain pc rest where sp: "split_front f r rs = (pc, rest)" by force
  note S = split_front_ok[OF r(3,5) sp]
  obtain "done" rest' where mk: "mark_sacked f t rest = (done, rest')" by force
  have fQ: "flags ?Q = flags (below f ?Q) @ flags (r # rs)" by (subst r(6)) simp
  then have flp: "flags (below f ?Q @ pc) = take (soff ?b f) (flags ?Q)"
    and fr: "flags rest = drop (soff ?b f) (flags ?Q)"
    using S r(4) by simp_all
  have lr: "length (flags rest) = length (flags ?Q) - soff ?b f" unfolding fr by simp
  have "\<exists>m. check_regions f done m \<and> check_regions m rest' (rq_end q) \<and> soff f m \<le> soff f t
    \<and> soff m t = soff f t - soff f m
    \<and> flags done = map (\<lambda>(_, r). (True, r)) (take (soff f m) (flags rest))
    \<and> flags rest' = drop (soff f m) (flags rest) \<and> soff f m \<le> length (flags rest)
    \<and> (rest' \<noteq> [] \<longrightarrow> soff m t < region_len (hd rest'))"
    using S lr w(2) d h by (intro mark_sacked_ok[OF _ _ _ _ _ mk]) (simp_all add: half_def del: flags_simps)
  then obtain m where M: "check_regions f done m" "check_regions m rest' (rq_end q)" "soff f m \<le> soff f t"
    "soff m t = soff f t - soff f m"
    "flags done = map (\<lambda>(_, r). (True, r)) (take (soff f m) (flags rest))"
    "flags rest' = drop (soff f m) (flags rest)" "soff f m \<le> length (flags rest)"
    "rest' \<noteq> [] \<longrightarrow> soff m t < region_len (hd rest')" by blast
  have T: "check_regions m (sack_tail t rest') (rq_end q) \<and>
      flags (sack_tail t rest') = mark_sack 0 (soff m t) (flags rest')"
    using M fr d h t by (intro sack_tail_ok) (auto simp: rq_bytes_def)
  let ?Q' = "below f ?Q @ pc @ done @ sack_tail t rest'"
  have "check_regions ?b ?Q' (rq_end q)" using r(2) S M T by (auto simp: check_regions_append)
  moreover have eq: "flags ?Q' = flags (below f ?Q @ pc) @ flags done @ flags (sack_tail t rest')" by simp
  have "flags ?Q' = mark_sack (soff ?b f) (soff ?b t) (flags ?Q)"
    unfolding eq flp using T fr M d ft t mark_sack_compose[of "soff ?b f" "flags ?Q" "soff f m" "soff ?b t"]
    by (simp add: rq_bytes_def add.commute)
  ultimately show ?thesis
    using r(1) hs sp mk g ft t w(2)
    by (simp add: rq_setSackedBit_def checked_def rq_wf_def checkQueue_def rq_bytes_def)
qed


section \<open>The queries\<close>

lemma hit_byte:
  assumes "soff b s = length (flags xs) + soff (beginSeqNum r) s" "soff (beginSeqNum r) s < region_len r"
  shows "flags (xs @ r # rs) ! soff b s = (sacked r, rexmitted r)"
  using assms by (simp add: nth_append region_flags_def)

lemma sacked_bit_ok:
  assumes "rq_wf q" "soff (rq_begin q) s \<le> length (rq_bytes q)"
  shows "rq_getSackedBit s q = Inr (soff (rq_begin q) s < length (rq_bytes q) \<and> fst (rq_bytes q ! soff (rq_begin q) s))"
proof (cases "soff (rq_begin q) s = length (rq_bytes q)")
  case True
  then show ?thesis using in_queue_iff[OF assms] by (simp add: rq_getSackedBit_def)
next
  case False
  note w = rq_wfD[OF assms(1)]
  have l: "soff (rq_begin q) s < length (flags (rexmitQueue q))" using False assms(2) by (simp add: rq_bytes_def)
  then obtain r rs where r: "skip_below s (rexmitQueue q) = r # rs"
      "check_regions (beginSeqNum r) (r # rs) (rq_end q)"
      "soff (rq_begin q) s = length (flags (below s (rexmitQueue q))) + soff (beginSeqNum r) s"
      "soff (beginSeqNum r) s < region_len r" "rexmitQueue q = below s (rexmitQueue q) @ r # rs"
    using skip_below_hit[OF w(1) _ w(2)] by metis
  have "holds_seq r s" using r(4) region_len_pos[OF r(2)] by (simp add: holds_seqI)
  moreover have "rq_bytes q ! soff (rq_begin q) s = (sacked r, rexmitted r)"
    unfolding rq_bytes_def using hit_byte[OF r(3,4), of rs] r(5) by simp
  ultimately show ?thesis using r(1) False l in_queue_iff[OF assms]
    by (simp add: rq_getSackedBit_def rq_bytes_def)
qed

lemma check_sack_block_ok:
  assumes "rq_wf q" "soff (rq_begin q) s < length (rq_bytes q)"
  shows "\<exists>n sk rx. rq_checkSackBlock s q = Inr (n, sk, rx) \<and> 0 < unat n
    \<and> soff (rq_begin q) s + unat n \<le> length (rq_bytes q)
    \<and> take (unat n) (drop (soff (rq_begin q) s) (rq_bytes q)) = replicate (unat n) (sk, rx)"
proof -
  note w = rq_wfD[OF assms(1)]
  have l: "soff (rq_begin q) s < length (flags (rexmitQueue q))" using assms(2) by (simp add: rq_bytes_def)
  then obtain r rs where r: "skip_below s (rexmitQueue q) = r # rs"
      "check_regions (beginSeqNum r) (r # rs) (rq_end q)"
      "soff (rq_begin q) s = length (flags (below s (rexmitQueue q))) + soff (beginSeqNum r) s"
      "soff (beginSeqNum r) s < region_len r" "rexmitQueue q = below s (rexmitQueue q) @ r # rs"
    using skip_below_hit[OF w(1) _ w(2)] by metis
  have hs: "holds_seq r s" using r(4) region_len_pos[OF r(2)] by (simp add: holds_seqI)
  have n: "unat (endSeqNum r - s) = region_len r - soff (beginSeqNum r) s"
    using cut_len[OF r(4)] by (simp add: soff_def)
  have "flags (rexmitQueue q) = flags (below s (rexmitQueue q)) @ region_flags r @ flags rs"
    by (subst r(5)) simp
  then have "take (unat (endSeqNum r - s)) (drop (soff (rq_begin q) s) (flags (rexmitQueue q)))
      = replicate (unat (endSeqNum r - s)) (sacked r, rexmitted r)"
    and "soff (rq_begin q) s + unat (endSeqNum r - s) \<le> length (flags (rexmitQueue q))"
    using r(3,4) n by (simp_all add: region_flags_def)
  then show ?thesis using r(1,4) hs n in_queue_iff[OF assms(1), of s] assms(2)
    by (auto simp: rq_checkSackBlock_def rq_bytes_def)
qed

lemma unat_add_small:
  "unat (x :: u32) + n < 2 ^ 32 \<Longrightarrow> unat (x + of_nat n) = unat x + n"
  by (simp add: unat_word_ariths unat_of_nat mod_add_right_eq)

lemma unat_len: "unat (endSeqNum r - beginSeqNum r) = region_len r"
  by (simp add: region_len_def soff_def)

lemma filter_region_flags:
  "length (filter fst (region_flags r)) = (if sacked r then region_len r else 0)"
  by (simp add: region_flags_def)

lemma sacked_bytes_ok:
  "unat acc + length (flags rs) < 2 ^ 32 \<Longrightarrow>
    unat (sacked_bytes acc rs) = unat acc + length (filter fst (flags rs))"
proof (induction rs arbitrary: acc)
  case (Cons r rs)
  have "unat (acc + (endSeqNum r - beginSeqNum r)) = unat acc + region_len r"
    using Cons.prems by (subst unat_add_lem[THEN iffD1]) (auto simp: unat_len)
  then show ?case using Cons by (simp add: filter_region_flags)
qed simp

lemma total_sacked_ok:
  assumes "rq_wf q"
  shows "unat (rq_getTotalAmountOfSackedBytes q) = length (filter fst (rq_bytes q))"
  using sacked_bytes_ok[of 0 "rexmitQueue q"] rq_wfD(2)[OF assms]
  by (simp add: rq_getTotalAmountOfSackedBytes_def rq_bytes_def half_def)

text \<open>The walk from the back that counts the sacked bytes from a sequence number on.\<close>

lemma sacked_from_ok:
  assumes "check_regions b rs e" "soff b s \<le> length (flags rs)" "length (flags rs) < half"
    and "unat acc + length (flags rs) < 2 ^ 32"
  shows "unat (sacked_bytes_from s acc (rev rs)) = unat acc + length (filter fst (drop (soff b s) (flags rs)))"
  using assms
proof (induction rs arbitrary: e acc rule: rev_induct)
  case (snoc r rs)
  have c: "check_regions b rs (beginSeqNum r)" "beginSeqNum r \<noteq> e"
    "seqLess (beginSeqNum r) (endSeqNum r)" "endSeqNum r = e"
    using snoc.prems(1) by (auto simp: check_regions_append)
  have rl: "0 < region_len r" "region_len r < half" using c by (auto simp: region_len_def seqLess_soff)
  have bo: "soff b (beginSeqNum r) = length (flags rs)"
    using check_regions_soff[OF c(1)] snoc.prems(3) by simp
  have h: "soff b s < half" "soff b (beginSeqNum r) < half" using snoc.prems bo by auto
  have acc: "unat (acc + (endSeqNum r - beginSeqNum r)) = unat acc + region_len r"
    using snoc.prems by (subst unat_add_lem[THEN iffD1]) (auto simp: unat_len)
  show ?case
  proof (cases "soff b s \<le> length (flags rs)")
    case True
    then have le: "seqLE s (beginSeqNum r)" using h bo by (simp add: seqLE_win[of b])
    let ?acc = "if sacked r then acc + (endSeqNum r - beginSeqNum r) else acc"
    have "unat (sacked_bytes_from s ?acc (rev rs)) = unat ?acc + length (filter fst (drop (soff b s) (flags rs)))"
      using snoc.prems True acc by (intro snoc.IH[OF c(1)]) auto
    then show ?thesis using le True acc by (simp add: filter_region_flags)
  next
    case False
    then have g: "\<not> seqLE s (beginSeqNum r)" "seqLess (beginSeqNum r) s"
      using h bo by (simp_all add: seqLE_win[of b] seqLess_win[of b])
    have o: "soff (beginSeqNum r) s = soff b s - length (flags rs)"
      using soff_diff[of b "beginSeqNum r" s] False bo by simp
    have le: "soff (beginSeqNum r) s \<le> region_len r" using o snoc.prems(2) by simp
    have d: "drop (soff b s) (flags (rs @ [r])) = drop (soff (beginSeqNum r) s) (region_flags r)"
      using False o by simp
    have f: "length (filter fst (drop (soff (beginSeqNum r) s) (region_flags r)))
        = (if sacked r then region_len r - soff (beginSeqNum r) s else 0)"
      by (simp add: region_flags_def)
    show ?thesis
    proof (cases "soff (beginSeqNum r) s = region_len r")
      case True
      then have "s = endSeqNum r" by (simp add: region_len_def)
      then show ?thesis using g d f True by simp
    next
      case ne: False
      then have lt: "soff (beginSeqNum r) s < region_len r" using le by simp
      have "soff s (endSeqNum r) = region_len r - soff (beginSeqNum r) s" using cut_len[OF lt] .
      then have l: "seqLess s (endSeqNum r)" and u: "unat (endSeqNum r - s) = region_len r - soff (beginSeqNum r) s"
        using lt rl by (auto simp: seqLess_soff soff_def)
      have "unat (acc + (endSeqNum r - s)) = unat acc + (region_len r - soff (beginSeqNum r) s)"
        using snoc.prems u by (subst unat_add_lem[THEN iffD1]) auto
      then show ?thesis using g d f l by simp
    qed
  qed
qed simp

lemma amount_sacked_ok:
  assumes "rq_wf q" "soff (rq_begin q) s \<le> length (rq_bytes q)"
  shows "\<exists>n. rq_getAmountOfSackedBytes s q = Inr n
    \<and> unat n = length (filter fst (drop (soff (rq_begin q) s) (rq_bytes q)))"
  using in_queue_iff(1)[OF assms] rq_wfD[OF assms(1)] assms(2)
    sacked_from_ok[of "rq_begin q" "rexmitQueue q" "rq_end q" s 0]
  by (simp add: rq_getAmountOfSackedBytes_def rq_bytes_def half_def)

lemma reset_ok:
  assumes "rq_wf q"
  shows "rq_wf (rq_resetSackedBit q) \<and> rq_bytes (rq_resetSackedBit q) = map (\<lambda>(_, r). (False, r)) (rq_bytes q)"
    and "rq_wf (rq_resetRexmittedBit q) \<and> rq_bytes (rq_resetRexmittedBit q) = map (\<lambda>(s, _). (s, False)) (rq_bytes q)"
proof -
  have c1: "check_regions b (map (\<lambda>r. r\<lparr>sacked := False\<rparr>) rs) e = check_regions b rs e" for b rs e
    by (induction rs arbitrary: b) auto
  have c2: "check_regions b (map (\<lambda>r. r\<lparr>rexmitted := False\<rparr>) rs) e = check_regions b rs e" for b rs e
    by (induction rs arbitrary: b) auto
  have f1: "flags (map (\<lambda>r. r\<lparr>sacked := False\<rparr>) rs) = map (\<lambda>(_, r). (False, r)) (flags rs)" for rs
    by (induction rs) (auto simp: region_flags_def region_len_def)
  have f2: "flags (map (\<lambda>r. r\<lparr>rexmitted := False\<rparr>) rs) = map (\<lambda>(s, _). (s, False)) (flags rs)" for rs
    by (induction rs) (auto simp: region_flags_def region_len_def)
  show "rq_wf (rq_resetSackedBit q) \<and> rq_bytes (rq_resetSackedBit q) = map (\<lambda>(_, r). (False, r)) (rq_bytes q)"
    using assms by (simp add: rq_wf_def rq_resetSackedBit_def checkQueue_def rq_bytes_def c1 f1)
  show "rq_wf (rq_resetRexmittedBit q) \<and> rq_bytes (rq_resetRexmittedBit q) = map (\<lambda>(s, _). (s, False)) (rq_bytes q)"
    using assms by (simp add: rq_wf_def rq_resetRexmittedBit_def checkQueue_def rq_bytes_def c2 f2)
qed

text \<open>The highest sacked sequence number: no byte from there on is sacked, and the byte before it is.\<close>

lemma find_end_ok:
  assumes "check_regions b rs e" "length (flags rs) < half"
  shows "(\<forall>x \<in> set (drop (soff b (find_end sacked b (rev rs))) (flags rs)). \<not> fst x)
    \<and> soff b (find_end sacked b (rev rs)) \<le> length (flags rs)
    \<and> (0 < soff b (find_end sacked b (rev rs)) \<longrightarrow> fst (flags rs ! (soff b (find_end sacked b (rev rs)) - 1)))"
  using assms
proof (induction rs arbitrary: e rule: rev_induct)
  case (snoc r rs)
  have c: "check_regions b rs (beginSeqNum r)" "seqLess (beginSeqNum r) (endSeqNum r)"
    using snoc.prems(1) by (auto simp: check_regions_append)
  have rl: "0 < region_len r" using c by (auto simp: region_len_def seqLess_soff)
  have eo: "soff b (endSeqNum r) = length (flags rs) + region_len r"
    using check_regions_soff[OF snoc.prems] snoc.prems(1) by (auto simp: check_regions_append)
  have IH: "(\<forall>x \<in> set (drop (soff b (find_end sacked b (rev rs))) (flags rs)). \<not> fst x)
    \<and> soff b (find_end sacked b (rev rs)) \<le> length (flags rs)
    \<and> (0 < soff b (find_end sacked b (rev rs)) \<longrightarrow> fst (flags rs ! (soff b (find_end sacked b (rev rs)) - 1)))"
    using snoc.prems by (intro snoc.IH[OF c(1)]) simp
  show ?case
  proof (cases "sacked r")
    case True
    then show ?thesis using eo rl by (auto simp: nth_append region_flags_def)
  next
    case False
    then show ?thesis using IH by (auto simp: nth_append region_flags_def)
  qed
qed simp


section \<open>Properties\<close>

text \<open>
  C10. \<open>discardUpTo(seqNum)\<close> on a well-formed queue and a number inside it fails no assertion,
  leaves a well-formed queue that begins at \<open>seqNum\<close> and ends where it did, and drops exactly
  the flags of the acknowledged bytes.
\<close>

theorem rexmit_discard_refines_drop:
  assumes "rq_wf q" "soff (rq_begin q) seqNum \<le> length (rq_bytes q)"
  shows "\<exists>q'. rq_discardUpTo seqNum q = Inr q' \<and> rq_wf q' \<and> rq_begin q' = seqNum \<and> rq_end q' = rq_end q
    \<and> rq_bytes q' = drop (soff (rq_begin q) seqNum) (rq_bytes q)"
  using assms by (rule discard_ok)

definition rq_example :: rexmit_queue where
  "rq_example = \<lparr>rexmitQueue = [\<lparr>beginSeqNum = 4294967290, endSeqNum = 4294967294, sacked = False, rexmitted = True\<rparr>,
      \<lparr>beginSeqNum = 4294967294, endSeqNum = 6, sacked = True, rexmitted = False\<rparr>],
    rq_begin = 4294967290, rq_end = 6\<rparr>"

lemma rq_example_facts:
  "rq_wf rq_example" "length (rq_bytes rq_example) = 12" "rq_begin rq_example = 4294967290"
  by (simp_all add: rq_wf_def rq_example_def checkQueue_def seqLess_def rq_bytes_def region_len_def soff_def half_def)

theorem rexmit_discard_refines_drop_witness:
  "\<exists>q'. rq_discardUpTo 2 rq_example = Inr q' \<and> rq_wf q' \<and> rq_begin q' = 2 \<and> rq_end q' = 6
    \<and> rq_bytes q' = drop 8 (rq_bytes rq_example)"
  using rexmit_discard_refines_drop[of rq_example 2] rq_example_facts
  by (simp add: soff_def) (simp add: rq_example_def)

text \<open>
  C11. \<open>enqueueSentData(fromSeqNum, toSeqNum)\<close>, called with a start inside the well-formed queue
  and an end above it and less than half of the circle from \<open>begin\<close>, fails no assertion and
  keeps the queue well-formed: every byte of the queue that is sent again becomes rexmitted with
  its sacked flag kept, no other flag changes, and the bytes above the old end are appended
  neither sacked nor rexmitted.
\<close>

theorem rexmit_enqueue_refines_mark:
  assumes "rq_wf q" "soff (rq_begin q) f \<le> length (rq_bytes q)"
    and "soff (rq_begin q) f < soff (rq_begin q) t" "soff (rq_begin q) t < half"
  shows "\<exists>q'. rq_enqueueSentData f t q = Inr q' \<and> rq_wf q' \<and> rq_begin q' = rq_begin q
    \<and> rq_bytes q' = take (soff (rq_begin q) f) (rq_bytes q)
        @ map (\<lambda>(s, _). (s, True)) (take (soff (rq_begin q) t - soff (rq_begin q) f) (drop (soff (rq_begin q) f) (rq_bytes q)))
        @ drop (soff (rq_begin q) t) (rq_bytes q)
        @ replicate (soff (rq_begin q) t - length (rq_bytes q)) (False, False)"
  using enqueue_ok[OF assms] by (simp add: mark_sent_def)

theorem rexmit_enqueue_refines_mark_witness:
  "\<exists>q'. rq_enqueueSentData 4294967292 10 rq_example = Inr q' \<and> rq_wf q' \<and> length (rq_bytes q') = 16"
proof -
  obtain q' where "rq_enqueueSentData 4294967292 10 rq_example = Inr q'" "rq_wf q'"
    "rq_bytes q' = take 2 (rq_bytes rq_example) @ map (\<lambda>(s, _). (s, True)) (take 14 (drop 2 (rq_bytes rq_example)))
       @ drop 16 (rq_bytes rq_example) @ replicate 4 (False, False)"
    using rexmit_enqueue_refines_mark[of rq_example 4294967292 10] rq_example_facts
    by (auto simp: soff_def half_def)
  then show ?thesis using rq_example_facts by simp
qed

text \<open>
  C12. \<open>setSackedBit(fromSeqNum, toSeqNum)\<close> for a block inside the well-formed queue fails no
  assertion and sacks exactly the bytes of the block: the other bytes, the rexmitted flags and
  the two ends of the queue do not change.
\<close>

theorem rexmit_sack_refines_mark:
  assumes "rq_wf q" "soff (rq_begin q) f < soff (rq_begin q) t" "soff (rq_begin q) t \<le> length (rq_bytes q)"
  shows "\<exists>q'. rq_setSackedBit f t q = Inr q' \<and> rq_wf q' \<and> rq_begin q' = rq_begin q \<and> rq_end q' = rq_end q
    \<and> rq_bytes q' = take (soff (rq_begin q) f) (rq_bytes q)
        @ map (\<lambda>(_, r). (True, r)) (take (soff (rq_begin q) t - soff (rq_begin q) f) (drop (soff (rq_begin q) f) (rq_bytes q)))
        @ drop (soff (rq_begin q) t) (rq_bytes q)"
  using sack_ok[OF assms] by (simp add: mark_sack_def)

theorem rexmit_sack_refines_mark_witness:
  "\<exists>q'. rq_setSackedBit 4294967291 4 rq_example = Inr q' \<and> rq_wf q' \<and> length (rq_bytes q') = 12"
proof -
  obtain q' where "rq_setSackedBit 4294967291 4 rq_example = Inr q'" "rq_wf q'"
    "rq_bytes q' = take 1 (rq_bytes rq_example) @ map (\<lambda>(_, r). (True, r)) (take 9 (drop 1 (rq_bytes rq_example)))
       @ drop 10 (rq_bytes rq_example)"
    using rexmit_sack_refines_mark[of rq_example 4294967291 4] rq_example_facts
    by (auto simp: soff_def)
  then show ?thesis using rq_example_facts by simp
qed

text \<open>
  The queries report the scoreboard: for a number inside a well-formed queue
  \<open>getSackedBit\<close> is the sacked flag of that byte (false at the end of the queue),
  \<open>getTotalAmountOfSackedBytes\<close> is the number of sacked bytes, \<open>getAmountOfSackedBytes\<close> the
  number of those from that byte on, without wrap-around, and no byte at or above
  \<open>getHighestSackedSeqNum\<close> is sacked.
\<close>

theorem rexmit_queries_correct:
  assumes "rq_wf q" "soff (rq_begin q) s \<le> length (rq_bytes q)"
  shows "rq_getSackedBit s q = Inr (soff (rq_begin q) s < length (rq_bytes q) \<and> fst (rq_bytes q ! soff (rq_begin q) s))
    \<and> unat (rq_getTotalAmountOfSackedBytes q) = length (filter fst (rq_bytes q))
    \<and> mapE unat (rq_getAmountOfSackedBytes s q) = Inr (length (filter fst (drop (soff (rq_begin q) s) (rq_bytes q))))
    \<and> filter fst (drop (soff (rq_begin q) (rq_getHighestSackedSeqNum q)) (rq_bytes q)) = []"
  using sacked_bit_ok[OF assms] total_sacked_ok[OF assms(1)] amount_sacked_ok[OF assms]
    find_end_ok[OF rq_wfD(1,2)[OF assms(1)]]
  by (auto simp: rq_getHighestSackedSeqNum_def rq_bytes_def filter_empty_conv)

theorem rexmit_queries_correct_witness:
  "rq_getSackedBit 0 rq_example = Inr True \<and> unat (rq_getTotalAmountOfSackedBytes rq_example) = 8"
  using rexmit_queries_correct[of rq_example 0] rq_example_facts
  by (simp add: soff_def) (simp add: rq_example_def rq_bytes_def region_flags_def region_len_def soff_def nth_append)

end
