(* ===== verification/Tcp_Segment.thy ===== *)
theory Tcp_Segment
  imports Seq_Arith
begin

text \<open>
  TCP segments and their payload: \<open>src/transport/tcp_common/TCPSegment.{msg,h,cc}\<close>, the byte
  arrays of \<open>src/base/ByteArray.cc\<close> and the chunked byte buffer of
  \<open>src/base/ByteArrayBuffer.cc\<close>.

  A \<open>ByteArray\<close> is the list of its bytes; its \<open>data_arraysize\<close> is the length of the list as
  an \<open>unsigned int\<close>.  A \<open>cPacket\<close> of the simulation library is its identity, its byte length
  and its \<open>ByteArray\<close> where it is a \<open>ByteArrayMessage\<close>.  Object names, ownership
  (\<open>take\<close>, \<open>drop\<close>) and parallel packing are not modelled.
\<close>

section \<open>Byte arrays\<close>

type_synonym byte_array = "u8 list"

definition data_arraysize :: "byte_array \<Rightarrow> u32" where
  "data_arraysize a = of_nat (length a)"

definition ba_truncateData :: "u32 \<Rightarrow> u32 \<Rightarrow> byte_array \<Rightarrow> byte_array res" where
  "ba_truncateData truncleft truncright a =
     assertE (truncleft + truncright \<le> data_arraysize a) ''ByteArray::truncateData''
      (if truncleft \<noteq> 0 \<or> truncright \<noteq> 0
       then Inr (take (unat (data_arraysize a - (truncleft + truncright))) (drop (unat truncleft) a))
       else Inr a)"

text \<open>\<open>setDataFromByteArray\<close> into a fresh array.\<close>

definition setDataFromByteArray :: "byte_array \<Rightarrow> u32 \<Rightarrow> u32 \<Rightarrow> byte_array res" where
  "setDataFromByteArray other srcOffs len =
     assertE (srcOffs + len \<le> data_arraysize other) ''ByteArray::setDataFromByteArray''
      (Inr (take (unat len) (drop (unat srcOffs) other)))"

text \<open>\<open>addDataFromBuffer\<close>: the bytes are appended.\<close>

definition addDataFromBuffer :: "byte_array \<Rightarrow> byte_array \<Rightarrow> byte_array" where
  "addDataFromBuffer ptr a = (if ptr = [] then a else a @ ptr)"

text \<open>\<open>copyDataToBuffer\<close>: the bytes that are copied to the start of the target.\<close>

definition copyDataToBuffer :: "u32 \<Rightarrow> u32 \<Rightarrow> byte_array \<Rightarrow> byte_array" where
  "copyDataToBuffer len srcOffs a =
     (if data_arraysize a \<le> srcOffs then []
      else let len' = (if srcOffs + len > data_arraysize a then data_arraysize a - srcOffs else len)
           in take (unat len') (drop (unat srcOffs) a))"

section \<open>The chunked byte buffer\<close>

record byte_buffer =
  dataListM :: "byte_array list"
  dataLengthM :: u32

definition bb_new :: byte_buffer where
  "bb_new = \<lparr>dataListM = [], dataLengthM = 0\<rparr>"

definition bb_clear :: "byte_buffer \<Rightarrow> byte_buffer" where
  "bb_clear b = \<lparr>dataListM = [], dataLengthM = 0\<rparr>"

definition bb_push :: "byte_array \<Rightarrow> byte_buffer \<Rightarrow> byte_buffer" where
  "bb_push a b = b\<lparr>dataListM := dataListM b @ [a], dataLengthM := dataLengthM b + data_arraysize a\<rparr>"

text \<open>The loop of \<open>getBytesToBuffer\<close>: it copies from the chunks until \<open>len\<close> bytes are there.\<close>

fun bb_copy_chunks :: "u32 \<Rightarrow> u32 \<Rightarrow> u32 \<Rightarrow> byte_array list \<Rightarrow> byte_array" where
  "bb_copy_chunks copied len offs [] = []"
| "bb_copy_chunks copied len offs (c # cs) =
     (if copied < len
      then (let bytes = copyDataToBuffer (len - copied) offs c; cbytes = data_arraysize bytes
            in if cbytes \<noteq> 0 then bytes @ bb_copy_chunks (copied + cbytes) len 0 cs
               else bb_copy_chunks copied len (offs - data_arraysize c) cs)
      else [])"

definition bb_getBytesToBuffer :: "u32 \<Rightarrow> u32 \<Rightarrow> byte_buffer \<Rightarrow> byte_array" where
  "bb_getBytesToBuffer len offs b = bb_copy_chunks 0 len offs (dataListM b)"

text \<open>
  The loop of \<open>drop\<close>; the use of \<open>front()\<close> of an empty list is an error, so the loop is
  structural on the list of chunks.
\<close>

fun bb_drop_chunks :: "u32 \<Rightarrow> byte_array list \<Rightarrow> u32 \<Rightarrow> (byte_array list \<times> u32) res" where
  "bb_drop_chunks len [] tot =
     (if len = 0 then Inr ([], tot) else Inl (NullPointer ''dataListM.front()''))"
| "bb_drop_chunks len (c # cs) tot =
     (if len = 0 then Inr (c # cs, tot)
      else let sliceLength = data_arraysize c
           in if sliceLength \<le> len
              then bb_drop_chunks (len - sliceLength) cs (tot - sliceLength)
              else bindE (ba_truncateData len 0 c) (\<lambda>c'. Inr (c' # cs, tot - len)))"

definition bb_drop :: "u32 \<Rightarrow> byte_buffer \<Rightarrow> byte_buffer res" where
  "bb_drop len b =
     assertE (len \<le> dataLengthM b) ''ByteArrayBuffer::drop''
      (mapE (\<lambda>(cs, n). \<lparr>dataListM = cs, dataLengthM = n\<rparr>) (bb_drop_chunks len (dataListM b) (dataLengthM b)))"

definition bb_popBytesToBuffer :: "u32 \<Rightarrow> byte_buffer \<Rightarrow> (byte_array \<times> byte_buffer) res" where
  "bb_popBytesToBuffer len b =
     (let bytes = bb_getBytesToBuffer len 0 b in mapE (Pair bytes) (bb_drop (data_arraysize bytes) b))"

section \<open>Segments\<close>

record packet =
  pk_id :: nat
  pk_byteLength :: u64
  pk_byteArray :: byte_array

datatype option_kind =
    TCPOPTION_END_OF_OPTION_LIST
  | TCPOPTION_NO_OPERATION
  | TCPOPTION_MAXIMUM_SEGMENT_SIZE
  | TCPOPTION_WINDOW_SCALE
  | TCPOPTION_SACK_PERMITTED
  | TCPOPTION_SACK
  | TCPOPTION_TIMESTAMP
  | TCPOPTION_OTHER u16

record tcp_option =
  opt_kind :: option_kind
  opt_length :: u16
  opt_values :: "u32 list"

record sack =
  sack_start :: u32
  sack_end :: u32

definition sack_empty :: "sack \<Rightarrow> bool" where
  "sack_empty s \<longleftrightarrow> sack_start s = 0 \<and> sack_end s = 0"

definition sack_contains :: "sack \<Rightarrow> sack \<Rightarrow> bool" where
  "sack_contains s other \<longleftrightarrow> seqLE (sack_start s) (sack_start other) \<and> seqLE (sack_end other) (sack_end s)"

definition sack_clear :: "sack \<Rightarrow> sack" where
  "sack_clear s = s\<lparr>sack_start := 0, sack_end := 0\<rparr>"

definition mk_sack :: "u32 \<Rightarrow> u32 \<Rightarrow> sack" where
  "mk_sack s e = \<lparr>sack_start = s, sack_end = e\<rparr>"

text \<open>\<open>payloadList\<close> pairs the sequence number after the last byte of a message with the message.\<close>

record tcp_segment =
  srcPort :: u16
  destPort :: u16
  sequenceNo :: u32
  ackNo :: u32
  headerLength :: u16
  urgBit :: bool
  ackBit :: bool
  pshBit :: bool
  rstBit :: bool
  synBit :: bool
  finBit :: bool
  ecnBit :: bool
  eceBit :: bool
  window :: u16
  urgentPointer :: u16
  options :: "tcp_option list"
  payloadLength :: u64
  payloadList :: "(u32 \<times> packet) list"
  byteArray :: byte_array

definition TCP_HEADER_OCTETS :: u16 where
  "TCP_HEADER_OCTETS = 20"

definition TCP_MAX_HEADER_OCTETS :: u32 where
  "TCP_MAX_HEADER_OCTETS = 60"

definition MAX_SACK_ENTRIES :: nat where
  "MAX_SACK_ENTRIES = 4"

definition new_segment :: tcp_segment where
  "new_segment = \<lparr>srcPort = 0, destPort = 0, sequenceNo = 0, ackNo = 0, headerLength = TCP_HEADER_OCTETS,
     urgBit = False, ackBit = False, pshBit = False, rstBit = False, synBit = False, finBit = False,
     ecnBit = False, eceBit = False, window = 0, urgentPointer = 0, options = [], payloadLength = 0,
     payloadList = [], byteArray = []\<rparr>"

definition segEnd :: "tcp_segment \<Rightarrow> u32" where
  "segEnd s = sequenceNo s + ucast (payloadLength s)"

definition getSegLen :: "tcp_segment \<Rightarrow> u32" where
  "getSegLen s = ucast (payloadLength s + (if finBit s then 1 else 0) + (if synBit s then 1 else 0))"

definition truncateData :: "u32 \<Rightarrow> u32 \<Rightarrow> tcp_segment \<Rightarrow> tcp_segment res" where
  "truncateData truncleft truncright s =
     assertE (ucast (truncleft + truncright) \<le> payloadLength s) ''TCPSegment::truncateData''
      (bindE (if data_arraysize (byteArray s) \<noteq> 0 then ba_truncateData truncleft truncright (byteArray s)
              else Inr (byteArray s))
        (\<lambda>ba. let pl = dropWhile (\<lambda>p. fst p - sequenceNo s \<le> truncleft) (payloadList s);
                  seq = sequenceNo s + truncleft;
                  len = payloadLength s - ucast (truncleft + truncright);
                  pl' = rev (dropWhile (\<lambda>p. len < ucast (fst p - seq)) (rev pl))
              in Inr (s\<lparr>byteArray := ba, payloadList := pl', sequenceNo := seq, payloadLength := len\<rparr>)))"

definition truncateSegment :: "u32 \<Rightarrow> u32 \<Rightarrow> tcp_segment \<Rightarrow> tcp_segment res" where
  "truncateSegment firstSeqNo endSeqNo s =
     assertE (0 < payloadLength s) ''truncateSegment: payloadLength > 0''
      (if \<not> (seqLess (sequenceNo s) endSeqNo \<and> seqLess firstSeqNo (segEnd s))
       then Inl (RuntimeError ''truncateSegment called on segment'')
       else truncateData
              (if seqLess (sequenceNo s) firstSeqNo then firstSeqNo - sequenceNo s else 0)
              (if seqGreater (segEnd s) endSeqNo then segEnd s - endSeqNo else 0) s)"

text \<open>\<open>getOptionsArrayLength\<close> sums in an \<open>unsigned short\<close>.\<close>

definition getOptionsArrayLength :: "tcp_segment \<Rightarrow> u16" where
  "getOptionsArrayLength s = foldl (\<lambda>n opt. n + opt_length opt) 0 (options s)"

definition addPayloadMessage :: "packet \<Rightarrow> u32 \<Rightarrow> tcp_segment \<Rightarrow> tcp_segment" where
  "addPayloadMessage msg endSequenceNo s = s\<lparr>payloadList := payloadList s @ [(endSequenceNo, msg)]\<rparr>"

definition removeFirstPayloadMessage :: "tcp_segment \<Rightarrow> ((u32 \<times> packet) \<times> tcp_segment) option" where
  "removeFirstPayloadMessage s =
     (case payloadList s of [] \<Rightarrow> None | p # ps \<Rightarrow> Some (p, s\<lparr>payloadList := ps\<rparr>))"

definition getPayloadArraySize :: "tcp_segment \<Rightarrow> nat" where
  "getPayloadArraySize s = length (payloadList s)"


section \<open>Byte arrays and buffers as lists of bytes\<close>

lemma unat_arraysize: "length a < 2 ^ 32 \<Longrightarrow> unat (data_arraysize a) = length a"
  by (simp add: data_arraysize_def unat_of_nat)

lemma copyDataToBuffer_take:
  assumes "length a < 2 ^ 32" "unat offs + unat len < 2 ^ 32"
  shows "copyDataToBuffer len offs a = take (unat len) (drop (unat offs) a)"
proof (cases "data_arraysize a \<le> offs")
  case True
  then have "length a \<le> unat offs" using unat_arraysize[OF assms(1)] by (simp add: word_le_nat_alt)
  then show ?thesis using True by (simp add: copyDataToBuffer_def)
next
  case False
  then have l: "unat offs < length a" using unat_arraysize[OF assms(1)] by (simp add: word_le_nat_alt)
  have u: "unat (offs + len) = unat offs + unat len" using assms(2) by (rule unat_plus_small)
  have s: "unat (data_arraysize a - offs) = length a - unat offs"
    using False unat_arraysize[OF assms(1)] by (subst unat_sub) (simp_all add: not_le less_imp_le)
  show ?thesis
  proof (cases "offs + len > data_arraysize a")
    case True
    then have "length a < unat offs + unat len" using u unat_arraysize[OF assms(1)] by (simp add: word_less_nat_alt)
    then show ?thesis using False True s by (simp add: copyDataToBuffer_def)
  next
    case f: False
    then show ?thesis using False by (simp add: copyDataToBuffer_def)
  qed
qed

lemma ba_truncateData_ok:
  assumes "length a < 2 ^ 32" "unat l + unat r \<le> length a"
  shows "ba_truncateData l r a = Inr (take (length a - unat l - unat r) (drop (unat l) a))"
proof -
  have u: "unat (l + r) = unat l + unat r" using assms by (intro unat_plus_small) simp
  then have le: "l + r \<le> data_arraysize a" using assms unat_arraysize by (simp add: word_le_nat_alt)
  moreover have "unat (data_arraysize a - (l + r)) = length a - unat l - unat r"
    using le u unat_arraysize[OF assms(1)] by (subst unat_sub) simp_all
  ultimately show ?thesis by (auto simp: ba_truncateData_def)
qed

definition bb_bytes :: "byte_buffer \<Rightarrow> byte_array" where
  "bb_bytes b = concat (dataListM b)"

definition bb_wf :: "byte_buffer \<Rightarrow> bool" where
  "bb_wf b \<longleftrightarrow> length (bb_bytes b) < 2 ^ 32 \<and> dataLengthM b = of_nat (length (bb_bytes b))"

lemma bb_copy_chunks_ok:
  assumes "length (concat cs) < 2 ^ 32" "unat offs + (unat len - unat copied) \<le> length (concat cs)"
    and "copied \<le> len"
  shows "bb_copy_chunks copied len offs cs = take (unat len - unat copied) (drop (unat offs) (concat cs))"
  using assms
proof (induction cs arbitrary: copied offs)
  case (Cons c cs)
  have d: "unat (len - copied) = unat len - unat copied" using Cons.prems(3) by (rule unat_sub)
  have c: "copyDataToBuffer (len - copied) offs c = take (unat len - unat copied) (drop (unat offs) c)"
    using Cons.prems d by (subst copyDataToBuffer_take) auto
  let ?b = "take (unat len - unat copied) (drop (unat offs) c)"
  have lc: "length c < 2 ^ 32" using Cons.prems(1) by simp
  show ?case
  proof (cases "copied < len")
    case False
    then show ?thesis using Cons.prems(3) by simp
  next
    case True
    have ub: "unat (data_arraysize ?b) = length ?b" using lc by (intro unat_arraysize) simp
    show ?thesis
    proof (cases "?b = []")
      case False
      then have nz: "data_arraysize ?b \<noteq> 0" using ub by (metis length_0_conv unat_0)
      have bnd: "unat copied + length ?b \<le> unat len"
        using True by (simp add: word_less_nat_alt)
      have uc: "unat (copied + data_arraysize ?b) = unat copied + length ?b"
        using unat_plus_small[of copied "data_arraysize ?b"] ub le_less_trans[OF bnd unat32_lt] by simp
      have "bb_copy_chunks (copied + data_arraysize ?b) len 0 cs
          = take (unat len - unat (copied + data_arraysize ?b)) (drop (unat (0 :: u32)) (concat cs))"
        using Cons.prems bnd uc False by (intro Cons.IH) (auto simp: word_le_nat_alt min_def)
      then show ?thesis using True c nz uc False by (auto simp: Let_def min_def)
    next
      case b0: True
      have z: "data_arraysize ?b = 0" unfolding b0 by (simp add: data_arraysize_def)
      have cl: "length c \<le> unat offs" using b0 True by (auto simp: word_less_nat_alt)
      then have uo: "unat (offs - data_arraysize c) = unat offs - length c"
        using unat_arraysize[OF lc] by (subst unat_sub) (auto simp: word_le_nat_alt)
      have "bb_copy_chunks copied len (offs - data_arraysize c) cs
          = take (unat len - unat copied) (drop (unat (offs - data_arraysize c)) (concat cs))"
        using Cons.prems cl uo by (intro Cons.IH) auto
      then show ?thesis using True c z uo cl b0 by (simp add: Let_def)
    qed
  qed
qed auto

lemma bb_drop_chunks_ok:
  assumes "length (concat cs) < 2 ^ 32" "unat len \<le> length (concat cs)" "tot = of_nat (length (concat cs))"
  shows "\<exists>cs'. bb_drop_chunks len cs tot = Inr (cs', of_nat (length (concat cs'))) \<and> concat cs' = drop (unat len) (concat cs)"
  using assms
proof (induction cs arbitrary: len tot)
  case (Cons c cs)
  have lc: "length c < 2 ^ 32" using Cons.prems(1) by simp
  note uc = unat_arraysize[OF lc]
  show ?case
  proof (cases "len = 0")
    case True then show ?thesis using Cons.prems by auto
  next
    case False
    show ?thesis
    proof (cases "data_arraysize c \<le> len")
      case True
      then have u: "unat (len - data_arraysize c) = unat len - length c" using uc by (simp add: unat_sub)
      have "tot - data_arraysize c = of_nat (length (concat cs))"
        using Cons.prems(3) by (simp add: data_arraysize_def)
      with Cons.IH[of "len - data_arraysize c" "tot - data_arraysize c"] Cons.prems True u False uc
      show ?thesis by (auto simp: Let_def word_le_nat_alt)
    next
      case f: False
      then have l: "unat len < length c" using uc by (simp add: word_le_nat_alt)
      then have "ba_truncateData len 0 c = Inr (drop (unat len) c)"
        using ba_truncateData_ok[OF lc, of len 0] by simp
      then show ?thesis using False f Cons.prems l by (simp add: Let_def of_nat_diff)
    qed
  qed
qed auto

lemma bb_new_ok [simp]: "bb_wf bb_new" "bb_bytes bb_new = []" "bb_wf (bb_clear b)" "bb_bytes (bb_clear b) = []"
  by (simp_all add: bb_wf_def bb_bytes_def bb_new_def bb_clear_def)

lemma bb_push_ok:
  "bb_wf b \<Longrightarrow> length (bb_bytes b) + length a < 2 ^ 32 \<Longrightarrow> bb_wf (bb_push a b) \<and> bb_bytes (bb_push a b) = bb_bytes b @ a"
  by (simp add: bb_wf_def bb_bytes_def bb_push_def data_arraysize_def)

lemma bb_get_ok:
  "bb_wf b \<Longrightarrow> unat offs + unat len \<le> length (bb_bytes b) \<Longrightarrow>
    bb_getBytesToBuffer len offs b = take (unat len) (drop (unat offs) (bb_bytes b))"
  using bb_copy_chunks_ok[of "dataListM b" offs len 0] by (simp add: bb_wf_def bb_bytes_def bb_getBytesToBuffer_def)

lemma bb_drop_ok:
  assumes "bb_wf b" "unat len \<le> length (bb_bytes b)"
  shows "\<exists>b'. bb_drop len b = Inr b' \<and> bb_wf b' \<and> bb_bytes b' = drop (unat len) (bb_bytes b)"
proof -
  have l: "len \<le> dataLengthM b" using assms by (simp add: bb_wf_def word_le_nat_alt unat_of_nat)
  obtain cs' where "bb_drop_chunks len (dataListM b) (dataLengthM b) = Inr (cs', of_nat (length (concat cs')))"
    "concat cs' = drop (unat len) (concat (dataListM b))"
    using bb_drop_chunks_ok[of "dataListM b" len "dataLengthM b"] assms by (auto simp: bb_wf_def bb_bytes_def)
  then show ?thesis using l assms less_imp_diff_less by (simp add: bb_drop_def bb_wf_def bb_bytes_def)
qed

text \<open>
  \<open>ByteArrayBuffer\<close> is a byte queue whatever the chunks it was filled with: on a
  well-formed buffer \<open>push\<close> appends, \<open>getBytesToBuffer(len, offs)\<close> reads the slice at the
  offset, and \<open>drop(len)\<close> ends without an error or a failed assertion and removes the first
  \<open>len\<close> bytes, all of them leaving the buffer well-formed.
\<close>

theorem byte_buffer_is_byte_queue:
  assumes "bb_wf b" "length (bb_bytes b) + length a < 2 ^ 32" "unat offs + unat len \<le> length (bb_bytes b)"
  shows "bb_wf (bb_push a b) \<and> bb_bytes (bb_push a b) = bb_bytes b @ a
    \<and> bb_getBytesToBuffer len offs b = take (unat len) (drop (unat offs) (bb_bytes b))
    \<and> (\<exists>b'. bb_drop len b = Inr b' \<and> bb_wf b' \<and> bb_bytes b' = drop (unat len) (bb_bytes b))"
  using bb_push_ok[OF assms(1,2)] bb_get_ok[OF assms(1,3)] bb_drop_ok[OF assms(1), of len] assms(3) by simp

theorem byte_buffer_is_byte_queue_witness:
  "bb_getBytesToBuffer 3 2 \<lparr>dataListM = [[1, 2, 3], [], [4, 5]], dataLengthM = 5\<rparr> = [3, 4, 5]
    \<and> (\<exists>b'. bb_drop 3 \<lparr>dataListM = [[1, 2, 3], [], [4, 5]], dataLengthM = 5\<rparr> = Inr b' \<and> bb_bytes b' = [4, 5])"
  using byte_buffer_is_byte_queue[of "\<lparr>dataListM = [[1, 2, 3], [], [4, 5]], dataLengthM = 5\<rparr>" "[]" 2 3]
  by (auto simp: bb_wf_def bb_bytes_def)


section \<open>Truncation\<close>

lemma truncateData_ok:
  assumes "payloadLength s < 2 ^ 32" "byteArray s = [] \<or> length (byteArray s) = unat (payloadLength s)"
    and "unat l + unat r \<le> unat (payloadLength s)"
  shows "\<exists>s'. truncateData l r s = Inr s' \<and> sequenceNo s' = sequenceNo s + l
    \<and> unat (payloadLength s') = unat (payloadLength s) - unat l - unat r
    \<and> byteArray s' = take (unat (payloadLength s) - unat l - unat r) (drop (unat l) (byteArray s))"
proof -
  have pl: "unat (payloadLength s) < 2 ^ 32" using assms(1) by (simp add: word_less_nat_alt)
  have u: "unat (l + r) = unat l + unat r" using assms pl by (intro unat_plus_small) simp
  have uu: "unat (ucast (l + r) :: u64) = unat l + unat r"
    using u by simp
  then have le: "ucast (l + r) \<le> payloadLength s" using assms(3) by (simp add: word_le_nat_alt)
  have len: "unat (payloadLength s - ucast (l + r)) = unat (payloadLength s) - unat l - unat r"
    using le uu by (simp add: unat_sub)
  show ?thesis
  proof (cases "byteArray s = []")
    case True
    then show ?thesis using le len by (simp add: truncateData_def data_arraysize_def Let_def)
  next
    case False
    then have lb: "length (byteArray s) = unat (payloadLength s)" using assms(2) by simp
    then have nz: "data_arraysize (byteArray s) \<noteq> 0"
      using False unat_arraysize[of "byteArray s"] pl by (metis length_0_conv unat_0)
    have "ba_truncateData l r (byteArray s) = Inr (take (unat (payloadLength s) - unat l - unat r) (drop (unat l) (byteArray s)))"
      using ba_truncateData_ok[of "byteArray s" l r] lb pl assms(3) by simp
    then show ?thesis using le len nz by (simp add: truncateData_def Let_def)
  qed
qed

lemma segEnd_off:
  assumes "soff b (sequenceNo s) + unat (payloadLength s) < 2 ^ 32"
  shows "soff b (segEnd s) = soff b (sequenceNo s) + unat (payloadLength s)"
proof -
  have "ucast (payloadLength s) = (of_nat (unat (payloadLength s)) :: u32)"
    by (metis of_nat_unat)
  then show ?thesis using soff_plus[OF assms] by (simp add: segEnd_def)
qed

text \<open>
  \<open>truncateSegment(firstSeqNo, endSeqNo)\<close> on a segment with data whose range has a byte in
  common with the window cuts it to exactly the intersection: inside any half circle that holds
  the numbers involved no assertion fails and no exception is thrown, the new segment starts at the larger of the two
  starts and ends at the smaller of the two ends, and a byte array is cut to the same bytes.
\<close>

theorem truncateSegment_is_intersection:
  assumes "soff b (sequenceNo s) + unat (payloadLength s) < half" "0 < payloadLength s"
    and "byteArray s = [] \<or> length (byteArray s) = unat (payloadLength s)"
    and "soff b f < half" "soff b e < half" "soff b f < soff b e"
    and "soff b (sequenceNo s) < soff b e" "soff b f < soff b (sequenceNo s) + unat (payloadLength s)"
  shows "\<exists>s'. truncateSegment f e s = Inr s'
    \<and> soff b (sequenceNo s') = max (soff b f) (soff b (sequenceNo s))
    \<and> soff b (sequenceNo s') + unat (payloadLength s') = min (soff b e) (soff b (sequenceNo s) + unat (payloadLength s))
    \<and> byteArray s' = take (unat (payloadLength s')) (drop (soff b (sequenceNo s') - soff b (sequenceNo s)) (byteArray s))"
proof -
  let ?q = "soff b (sequenceNo s)" and ?n = "unat (payloadLength s)"
  have en: "soff b (segEnd s) = ?q + ?n" using assms(1) by (intro segEnd_off) (simp add: half_def)
  have c: "seqLess (sequenceNo s) e" "seqLess f (segEnd s)"
    using assms en by (simp_all add: seqLess_win[of b])
  define l where "l = (if seqLess (sequenceNo s) f then f - sequenceNo s else 0)"
  define r where "r = (if seqGreater (segEnd s) e then segEnd s - e else 0)"
  have l: "unat l = max (soff b f) ?q - ?q"
    using assms seqLess_win[of b "sequenceNo s" f] soff_diff[of b "sequenceNo s" f]
    by (auto simp: l_def soff_def[symmetric])
  have r: "unat r = ?q + ?n - min (soff b e) (?q + ?n)"
    using assms en seqGreater_win[of b "segEnd s" e] soff_diff[of b e "segEnd s"]
    by (auto simp: r_def soff_def[symmetric])
  have lr: "unat l + unat r \<le> ?n" using l r assms by linarith
  have p32: "payloadLength s < 2 ^ 32" using assms(1) by (simp add: word_less_nat_alt half_def)
  obtain s' where s': "truncateData l r s = Inr s'" "sequenceNo s' = sequenceNo s + l"
      "unat (payloadLength s') = ?n - unat l - unat r"
      "byteArray s' = take (?n - unat l - unat r) (drop (unat l) (byteArray s))"
    using truncateData_ok[OF p32 assms(3) lr] by blast
  have "soff b (sequenceNo s + of_nat (unat l)) = ?q + unat l"
    using lr assms(1) by (intro soff_plus) (simp add: half_def)
  then have ql: "soff b (sequenceNo s') = ?q + unat l" using s'(2) by simp
  have q': "soff b (sequenceNo s') = max (soff b f) ?q"
    using ql l by simp
  have "truncateSegment f e s = Inr s'"
    using assms(2) c s'(1) by (simp add: truncateSegment_def l_def r_def)
  moreover have e': "soff b (sequenceNo s') + unat (payloadLength s') = min (soff b e) (?q + ?n)"
    using ql l r lr s'(3) assms(6) by linarith
  moreover have "byteArray s' = take (unat (payloadLength s')) (drop (soff b (sequenceNo s') - ?q) (byteArray s))"
    using s'(3,4) ql by simp
  ultimately show ?thesis using q' by blast
qed

definition seg_example :: tcp_segment where
  "seg_example = new_segment\<lparr>sequenceNo := 4294967290, payloadLength := 10, byteArray := [0, 1, 2, 3, 4, 5, 6, 7, 8, 9]\<rparr>"

theorem truncateSegment_is_intersection_witness:
  "\<exists>s'. truncateSegment 4294967292 2 seg_example = Inr s'
    \<and> unat (payloadLength s') = 6 \<and> byteArray s' = [2, 3, 4, 5, 6, 7]"
proof -
  have e: "soff 4294967280 (sequenceNo seg_example) = 10" "unat (payloadLength seg_example) = 10"
    "length (byteArray seg_example) = 10" "0 < payloadLength seg_example"
    "byteArray seg_example = [0, 1, 2, 3, 4, 5, 6, 7, 8, 9]"
    by (simp_all add: seg_example_def soff_def)
  have o: "soff 4294967280 4294967292 = 12" "soff 4294967280 2 = 18"
    by (simp_all add: soff_def)
  obtain s' where "truncateSegment 4294967292 2 seg_example = Inr s'" "soff 4294967280 (sequenceNo s') = 12"
    "soff 4294967280 (sequenceNo s') + unat (payloadLength s') = 18"
    "byteArray s' = take (unat (payloadLength s')) (drop (soff 4294967280 (sequenceNo s') - 10) (byteArray seg_example))"
    using truncateSegment_is_intersection[of 4294967280 seg_example 4294967292 2] e(1-4) o
    by (auto simp: half_def)
  then show ?thesis using e(5) by auto
qed

end
