(* ===== verification/Tcp_Rcv_Queue.thy ===== *)
theory Tcp_Rcv_Queue
  imports Tcp_Segment
begin

text \<open>
  The receive queues: \<open>TCPVirtualDataRcvQueue\<close>, \<open>TCPByteStreamRcvQueue\<close> and
  \<open>TCPMsgBasedRcvQueue\<close> of \<open>src/transport/tcp/queues\<close>.

  A queue is the sorted list of the regions that have arrived and the next expected sequence
  number.  The class \<open>Region\<close> and its subclass with data are a record and its extension; the
  virtual methods \<open>merge\<close> and \<open>split\<close> are arguments of the list operations, which the three
  queues instantiate with their own.  \<open>std::list\<close> is a list, walked from the back where the
  code uses a reverse iterator.

  The locale \<open>region_merging\<close> is the contract of \<open>Region::merge\<close> that the list operation
  relies on.  Its lemma says that inserting a segment adds exactly its bytes to the set of
  bytes that are there (\<open>cover\<close>) and keeps the regions sorted and apart; it is interpreted
  for both kinds of regions.
\<close>

section \<open>Regions\<close>

record rcv_region =
  rg_begin :: u32
  rg_end :: u32

record data_region = rcv_region +
  rg_data :: byte_array

datatype compare_status = BEFORE | BEFORE_TOUCH | OVERLAP | AFTER_TOUCH | AFTER

definition rg_compare :: "'a rcv_region_scheme \<Rightarrow> 'b rcv_region_scheme \<Rightarrow> compare_status" where
  "rg_compare r other =
     (if rg_end r = rg_begin other then BEFORE_TOUCH
      else if rg_begin r = rg_end other then AFTER_TOUCH
      else if seqLess (rg_end r) (rg_begin other) then BEFORE
      else if seqLess (rg_end other) (rg_begin r) then AFTER
      else OVERLAP)"

definition rg_getLength :: "'a rcv_region_scheme \<Rightarrow> u64" where
  "rg_getLength r = ucast (rg_end r - rg_begin r)"

definition rg_getLengthTo :: "'a rcv_region_scheme \<Rightarrow> u32 \<Rightarrow> u64" where
  "rg_getLengthTo r seq =
     (if seqLE seq (rg_begin r) then 0
      else if seqLess seq (rg_end r) then ucast (seq - rg_begin r)
      else ucast (rg_end r - rg_begin r))"

text \<open>\<open>self.merge(other)\<close>: \<open>None\<close> is the result false.\<close>

definition rg_merge :: "rcv_region \<Rightarrow> rcv_region \<Rightarrow> rcv_region option" where
  "rg_merge self other =
     (if seqLess (rg_end self) (rg_begin other) \<or> seqLess (rg_end other) (rg_begin self) then None
      else (let self1 = (if seqLess (rg_begin other) (rg_begin self) then self\<lparr>rg_begin := rg_begin other\<rparr> else self)
            in Some (if seqLess (rg_end self1) (rg_end other) then self1\<lparr>rg_end := rg_end other\<rparr> else self1)))"

text \<open>\<open>self.split(seq)\<close>: the new region in front, and what is left of the region itself.\<close>

definition rg_split :: "u32 \<Rightarrow> rcv_region \<Rightarrow> (rcv_region \<times> rcv_region) res" where
  "rg_split seq r =
     assertE (seqGreater seq (rg_begin r) \<and> seqLess seq (rg_end r)) ''Region::split''
      (Inr (\<lparr>rg_begin = rg_begin r, rg_end = seq\<rparr>, r\<lparr>rg_begin := seq\<rparr>))"

text \<open>
  The regions with data.  \<open>write_at\<close> is a \<open>memcpy\<close> into the new buffer; the buffer of the code
  is not initialised, here it is zeroed, and the three copies fill it when the regions have as
  many bytes as they should.
\<close>

definition write_at :: "byte_array \<Rightarrow> nat \<Rightarrow> byte_array \<Rightarrow> byte_array" where
  "write_at buf off src = take off buf @ src @ drop (off + length src) buf"

definition drg_merge :: "data_region \<Rightarrow> data_region \<Rightarrow> data_region option" where
  "drg_merge self other =
     (if seqLess (rg_end self) (rg_begin other) \<or> seqLess (rg_end other) (rg_begin self) then None
      else (let nbegin = seqMin (rg_begin self) (rg_begin other);
                nend = seqMax (rg_end self) (rg_end other)
            in if nbegin \<noteq> rg_begin self \<or> nend \<noteq> rg_end self
               then (let buff0 = replicate (unat (nend - nbegin)) 0;
                         buff1 = (if nbegin \<noteq> rg_begin self
                                  then write_at buff0 0 (copyDataToBuffer (rg_begin self - nbegin) 0 (rg_data other))
                                  else buff0);
                         buff2 = write_at buff1 (unat (rg_begin self - nbegin))
                                   (copyDataToBuffer (rg_end self - rg_begin self) 0 (rg_data self));
                         buff3 = (if nend \<noteq> rg_end self
                                  then write_at buff2 (unat (rg_end self - nbegin))
                                         (copyDataToBuffer (nend - rg_end self) 0 (rg_data other))
                                  else buff2)
                     in Some (self\<lparr>rg_begin := nbegin, rg_end := nend, rg_data := buff3\<rparr>))
               else Some self))"

definition drg_split :: "u32 \<Rightarrow> data_region \<Rightarrow> (data_region \<times> data_region) res" where
  "drg_split seq r =
     assertE (seqGreater seq (rg_begin r) \<and> seqLess seq (rg_end r)) ''Region::split''
      (bindE (setDataFromByteArray (rg_data r) 0 (seq - rg_begin r)) (\<lambda>d.
       bindE (ba_truncateData (seq - rg_begin r) 0 (rg_data r)) (\<lambda>d'.
         Inr (\<lparr>rg_begin = rg_begin r, rg_end = seq, rg_data = d\<rparr>, r\<lparr>rg_begin := seq, rg_data := d'\<rparr>))))"

section \<open>The list of regions\<close>

record 'r region_queue =
  rcvq_nxt :: u32
  regionList :: "'r list"

definition rcvq_init :: "u32 \<Rightarrow> 'r region_queue" where
  "rcvq_init startSeq = \<lparr>rcvq_nxt = startSeq, regionList = []\<rparr>"

text \<open>
  The loop of \<open>merge\<close>: the second list is what the reverse iterator still has in front of it,
  the last one the regions it has passed.
\<close>

fun merge_rev :: "('a rcv_region_scheme \<Rightarrow> 'a rcv_region_scheme \<Rightarrow> 'a rcv_region_scheme option)
    \<Rightarrow> 'a rcv_region_scheme \<Rightarrow> 'a rcv_region_scheme list \<Rightarrow> 'a rcv_region_scheme list
    \<Rightarrow> 'a rcv_region_scheme list res" where
  "merge_rev mrg seg [] passed = Inr (seg # passed)"
| "merge_rev mrg seg (r # rs) passed =
     (case rg_compare r seg of
        BEFORE \<Rightarrow> Inr (rev rs @ r # seg # passed)
      | AFTER \<Rightarrow> merge_rev mrg seg rs (r # passed)
      | _ \<Rightarrow> (case mrg seg r of
                Some seg' \<Rightarrow> merge_rev mrg seg' rs passed
              | None \<Rightarrow> Inl (RuntimeError ''Model error: merge of region unsuccessful'')))"

definition merge_region :: "('a rcv_region_scheme \<Rightarrow> 'a rcv_region_scheme \<Rightarrow> 'a rcv_region_scheme option)
    \<Rightarrow> 'a rcv_region_scheme \<Rightarrow> 'a rcv_region_scheme list \<Rightarrow> 'a rcv_region_scheme list res" where
  "merge_region mrg seg rs = merge_rev mrg seg (rev rs) []"

definition range_ok :: "'a rcv_region_scheme \<Rightarrow> 'a rcv_region_scheme list \<Rightarrow> bool" where
  "range_ok region rs \<longleftrightarrow> rs = [] \<or>
     (let ob = rg_begin (hd rs); oe = rg_end (last rs); nb = rg_begin region; ne = rg_end region;
          minb = seqMin ob nb; maxe = seqMax oe ne
      in \<not> (seqGE minb oe \<or> seqGE minb ne \<or> seqGE ob maxe \<or> seqGE nb maxe))"

text \<open>\<open>insertBytesFromSegment\<close>, from the region that \<open>createRegionFromSegment\<close> made.\<close>

definition insert_region :: "('a rcv_region_scheme \<Rightarrow> 'a rcv_region_scheme \<Rightarrow> 'a rcv_region_scheme option)
    \<Rightarrow> 'a rcv_region_scheme \<Rightarrow> ('a rcv_region_scheme) region_queue \<Rightarrow> (u32 \<times> ('a rcv_region_scheme) region_queue) res" where
  "insert_region mrg region q =
     (if range_ok region (regionList q)
      then bindE (merge_region mrg region (regionList q)) (\<lambda>rs.
             if rs = [] then Inl (NullPointer ''regionList.front()'')
             else (let nxt = (if seqGE (rcvq_nxt q) (rg_begin (hd rs)) then rg_end (hd rs) else rcvq_nxt q)
                   in Inr (nxt, q\<lparr>regionList := rs, rcvq_nxt := nxt\<rparr>)))
      else Inl (RuntimeError ''The new segment is out of the acceptable range''))"

definition extract_region :: "(u32 \<Rightarrow> 'a rcv_region_scheme \<Rightarrow> ('a rcv_region_scheme \<times> 'a rcv_region_scheme) res)
    \<Rightarrow> u32 \<Rightarrow> ('a rcv_region_scheme) region_queue
    \<Rightarrow> ('a rcv_region_scheme option \<times> ('a rcv_region_scheme) region_queue) res" where
  "extract_region spl seq q =
     assertE (seqLE seq (rcvq_nxt q)) ''extractTo: seq <= rcv_nxt''
      (case regionList q of
         [] \<Rightarrow> Inr (None, q)
       | r # rs \<Rightarrow>
           if seqLE seq (rg_begin r) then Inr (None, q)
           else if seqGE seq (rg_end r) then Inr (Some r, q\<lparr>regionList := rs\<rparr>)
           else bindE (spl seq r) (\<lambda>(new, r'). Inr (Some new, q\<lparr>regionList := r' # rs\<rparr>)))"

definition rcvq_getAmountOfBufferedBytes :: "('a rcv_region_scheme) region_queue \<Rightarrow> u32" where
  "rcvq_getAmountOfBufferedBytes q = foldl (\<lambda>n r. ucast (ucast n + rg_getLength r)) 0 (regionList q)"

definition rcvq_getAmountOfFreeBytes :: "u32 \<Rightarrow> ('a rcv_region_scheme) region_queue \<Rightarrow> u32" where
  "rcvq_getAmountOfFreeBytes maxRcvBuffer q =
     (let used = rcvq_getAmountOfBufferedBytes q in if used < maxRcvBuffer then maxRcvBuffer - used else 0)"

definition rcvq_getQueueLength :: "'r region_queue \<Rightarrow> u32" where
  "rcvq_getQueueLength q = of_nat (length (regionList q))"

definition rcvq_getLE :: "u32 \<Rightarrow> ('a rcv_region_scheme) region_queue \<Rightarrow> u32" where
  "rcvq_getLE s q =
     (case find (\<lambda>r. seqLE (rg_begin r) s \<and> seqLess s (rg_end r)) (regionList q) of
        Some r \<Rightarrow> rg_begin r | None \<Rightarrow> s)"

definition rcvq_getRE :: "u32 \<Rightarrow> ('a rcv_region_scheme) region_queue \<Rightarrow> u32" where
  "rcvq_getRE s q =
     (case find (\<lambda>r. seqLess (rg_begin r) s \<and> seqLE s (rg_end r)) (regionList q) of
        Some r \<Rightarrow> rg_end r | None \<Rightarrow> s)"

definition rcvq_getFirstSeqNo :: "('a rcv_region_scheme) region_queue \<Rightarrow> u32" where
  "rcvq_getFirstSeqNo q =
     (case regionList q of [] \<Rightarrow> rcvq_nxt q | r # rs \<Rightarrow> seqMin (rg_begin r) (rcvq_nxt q))"

section \<open>The three queues\<close>

datatype rcv_queue =
    VirtualDataRcvQueue "rcv_region region_queue"
  | ByteStreamRcvQueue "data_region region_queue"
  | MsgBasedRcvQueue "rcv_region region_queue" "(u32 \<times> packet) list"

text \<open>\<open>createRegionFromSegment\<close>, twice.\<close>

definition virtual_region :: "tcp_segment \<Rightarrow> rcv_region" where
  "virtual_region seg = \<lparr>rg_begin = sequenceNo seg, rg_end = sequenceNo seg + ucast (payloadLength seg)\<rparr>"

definition bytestream_region :: "tcp_segment \<Rightarrow> data_region res" where
  "bytestream_region seg =
     assertE (payloadLength seg = ucast (data_arraysize (byteArray seg))) ''createRegionFromSegment: array size''
      (Inr \<lparr>rg_begin = sequenceNo seg, rg_end = sequenceNo seg + ucast (payloadLength seg), rg_data = byteArray seg\<rparr>)"

text \<open>
  The loop of \<open>TCPMsgBasedRcvQueue::insertBytesFromSegment\<close> over the messages of the segment:
  the iterator only moves forward, so \<open>passed\<close> collects what is in front of it.  \<open>insert\<close> leaves
  the iterator at the new item.
\<close>

fun insert_payloads :: "(u32 \<times> packet) list \<Rightarrow> (u32 \<times> packet) list \<Rightarrow> (u32 \<times> packet) list
    \<Rightarrow> (u32 \<times> packet) list res" where
  "insert_payloads [] passed rest = Inr (passed @ rest)"
| "insert_payloads ((endSeqNo, msg) # ms) passed rest =
     (let passed' = passed @ takeWhile (\<lambda>p. seqLess (fst p) endSeqNo) rest;
          rest' = dropWhile (\<lambda>p. seqLess (fst p) endSeqNo) rest
      in if rest' \<noteq> [] \<and> fst (hd rest') = endSeqNo
         then insert_payloads ms passed' rest'
         else (let l = passed' @ (endSeqNo, msg) # rest'
               in assertE (seqLE (fst (hd l)) (fst (last l))) ''insertBytesFromSegment: payloadList sorted''
                   (insert_payloads ms passed' ((endSeqNo, msg) # rest'))))"

definition rcv_insertBytesFromSegment :: "tcp_segment \<Rightarrow> rcv_queue \<Rightarrow> (u32 \<times> rcv_queue) res" where
  "rcv_insertBytesFromSegment seg Q =
     (case Q of
        VirtualDataRcvQueue q \<Rightarrow>
          mapE (\<lambda>(n, q'). (n, VirtualDataRcvQueue q')) (insert_region rg_merge (virtual_region seg) q)
      | ByteStreamRcvQueue q \<Rightarrow>
          bindE (bytestream_region seg) (\<lambda>r.
            mapE (\<lambda>(n, q'). (n, ByteStreamRcvQueue q')) (insert_region drg_merge r q))
      | MsgBasedRcvQueue q pl \<Rightarrow>
          bindE (insert_region rg_merge (virtual_region seg) q) (\<lambda>(n, q').
            mapE (\<lambda>pl'. (rcvq_nxt q', MsgBasedRcvQueue q' pl')) (insert_payloads (payloadList seg) [] pl)))"

text \<open>
  \<open>extractBytesUpTo\<close>.  The packet "data" is new; the identity 0 stands for it.
\<close>

definition data_packet :: "u64 \<Rightarrow> byte_array \<Rightarrow> packet" where
  "data_packet n d = \<lparr>pk_id = 0, pk_byteLength = n, pk_byteArray = d\<rparr>"

definition rcv_extractBytesUpTo :: "u32 \<Rightarrow> rcv_queue \<Rightarrow> (packet option \<times> rcv_queue) res" where
  "rcv_extractBytesUpTo seq Q =
     (case Q of
        VirtualDataRcvQueue q \<Rightarrow>
          mapE (\<lambda>(reg, q'). (map_option (\<lambda>r. data_packet (rg_getLength r) []) reg, VirtualDataRcvQueue q'))
            (extract_region rg_split seq q)
      | ByteStreamRcvQueue q \<Rightarrow>
          bindE (extract_region drg_split seq q) (\<lambda>(reg, q').
            case reg of
              None \<Rightarrow> Inr (None, ByteStreamRcvQueue q')
            | Some r \<Rightarrow>
                assertE (rg_getLength r = ucast (data_arraysize (rg_data r))) ''copyTo: array size''
                  (Inr (Some (data_packet (rg_getLength r) (rg_data r)), ByteStreamRcvQueue q')))
      | MsgBasedRcvQueue q pl \<Rightarrow>
          (let seq' = (if pl \<noteq> [] \<and> seqLess (fst (hd pl)) seq then fst (hd pl) else seq)
           in mapE (\<lambda>(reg, q').
                case reg of
                  None \<Rightarrow> (None, MsgBasedRcvQueue q' pl)
                | Some r \<Rightarrow>
                    if pl \<noteq> [] \<and> fst (hd pl) = rg_end r
                    then (Some (snd (hd pl)), MsgBasedRcvQueue q' (tl pl))
                    else (None, MsgBasedRcvQueue q' pl))
              (extract_region rg_split seq' q)))"

text \<open>\<open>init\<close>; that of the message based queue keeps its messages.\<close>

definition rcv_init :: "u32 \<Rightarrow> rcv_queue \<Rightarrow> rcv_queue" where
  "rcv_init startSeq Q =
     (case Q of
        VirtualDataRcvQueue q \<Rightarrow> VirtualDataRcvQueue (rcvq_init startSeq)
      | ByteStreamRcvQueue q \<Rightarrow> ByteStreamRcvQueue (rcvq_init startSeq)
      | MsgBasedRcvQueue q pl \<Rightarrow> MsgBasedRcvQueue (rcvq_init startSeq) pl)"

definition rcv_getAmountOfBufferedBytes :: "rcv_queue \<Rightarrow> u32" where
  "rcv_getAmountOfBufferedBytes Q =
     (case Q of VirtualDataRcvQueue q \<Rightarrow> rcvq_getAmountOfBufferedBytes q
      | ByteStreamRcvQueue q \<Rightarrow> rcvq_getAmountOfBufferedBytes q
      | MsgBasedRcvQueue q pl \<Rightarrow> rcvq_getAmountOfBufferedBytes q)"

definition rcv_getAmountOfFreeBytes :: "u32 \<Rightarrow> rcv_queue \<Rightarrow> u32" where
  "rcv_getAmountOfFreeBytes m Q =
     (case Q of VirtualDataRcvQueue q \<Rightarrow> rcvq_getAmountOfFreeBytes m q
      | ByteStreamRcvQueue q \<Rightarrow> rcvq_getAmountOfFreeBytes m q
      | MsgBasedRcvQueue q pl \<Rightarrow> rcvq_getAmountOfFreeBytes m q)"

definition rcv_getQueueLength :: "rcv_queue \<Rightarrow> u32" where
  "rcv_getQueueLength Q =
     (case Q of VirtualDataRcvQueue q \<Rightarrow> rcvq_getQueueLength q
      | ByteStreamRcvQueue q \<Rightarrow> rcvq_getQueueLength q
      | MsgBasedRcvQueue q pl \<Rightarrow> rcvq_getQueueLength q)"

definition rcv_getLE :: "u32 \<Rightarrow> rcv_queue \<Rightarrow> u32" where
  "rcv_getLE s Q =
     (case Q of VirtualDataRcvQueue q \<Rightarrow> rcvq_getLE s q
      | ByteStreamRcvQueue q \<Rightarrow> rcvq_getLE s q
      | MsgBasedRcvQueue q pl \<Rightarrow> rcvq_getLE s q)"

definition rcv_getRE :: "u32 \<Rightarrow> rcv_queue \<Rightarrow> u32" where
  "rcv_getRE s Q =
     (case Q of VirtualDataRcvQueue q \<Rightarrow> rcvq_getRE s q
      | ByteStreamRcvQueue q \<Rightarrow> rcvq_getRE s q
      | MsgBasedRcvQueue q pl \<Rightarrow> rcvq_getRE s q)"

definition rcv_getFirstSeqNo :: "rcv_queue \<Rightarrow> u32" where
  "rcv_getFirstSeqNo Q =
     (case Q of VirtualDataRcvQueue q \<Rightarrow> rcvq_getFirstSeqNo q
      | ByteStreamRcvQueue q \<Rightarrow> rcvq_getFirstSeqNo q
      | MsgBasedRcvQueue q pl \<Rightarrow> rcvq_getFirstSeqNo q)"


section \<open>What is there: the covered bytes\<close>

definition ival :: "u32 \<Rightarrow> 'a rcv_region_scheme \<Rightarrow> nat set" where
  "ival b r = {soff b (rg_begin r)..<soff b (rg_end r)}"

definition cover :: "u32 \<Rightarrow> 'a rcv_region_scheme list \<Rightarrow> nat set" where
  "cover b rs = (\<Union>r \<in> set rs. ival b r)"

definition region_ok :: "u32 \<Rightarrow> 'a rcv_region_scheme \<Rightarrow> bool" where
  "region_ok b r \<longleftrightarrow> soff b (rg_begin r) < soff b (rg_end r) \<and> soff b (rg_end r) < half"

definition apart :: "u32 \<Rightarrow> 'a rcv_region_scheme \<Rightarrow> 'a rcv_region_scheme \<Rightarrow> bool" where
  "apart b r r' \<longleftrightarrow> soff b (rg_end r) < soff b (rg_begin r')"

definition regions_ok :: "u32 \<Rightarrow> 'a rcv_region_scheme list \<Rightarrow> bool" where
  "regions_ok b rs \<longleftrightarrow> (\<forall>r \<in> set rs. region_ok b r) \<and> sorted_wrt (apart b) rs"

lemma regions_ok_simps [simp]:
  "regions_ok b []"
  "regions_ok b (r # rs) \<longleftrightarrow> region_ok b r \<and> (\<forall>r' \<in> set rs. apart b r r') \<and> regions_ok b rs"
  by (auto simp: regions_ok_def)

lemma regions_ok_append:
  "regions_ok b (xs @ ys) \<longleftrightarrow> regions_ok b xs \<and> regions_ok b ys \<and> (\<forall>x \<in> set xs. \<forall>y \<in> set ys. apart b x y)"
  by (auto simp: regions_ok_def sorted_wrt_append)

lemma cover_simps [simp]:
  "cover b [] = {}"
  "cover b (r # rs) = ival b r \<union> cover b rs"
  "cover b (xs @ ys) = cover b xs \<union> cover b ys"
  "cover b (rev rs) = cover b rs"
  by (auto simp: cover_def)

lemma compare_win:
  assumes "region_ok b r" "region_ok b s"
  shows "rg_compare r s = BEFORE \<longleftrightarrow> apart b r s" "rg_compare r s = AFTER \<longleftrightarrow> apart b s r"
proof -
  have h: "soff b (rg_begin r) < half" "soff b (rg_end r) < half" "soff b (rg_begin s) < half" "soff b (rg_end s) < half"
    "soff b (rg_begin r) < soff b (rg_end r)" "soff b (rg_begin s) < soff b (rg_end s)"
    using assms by (auto simp: region_ok_def)
  have "rg_end r = rg_begin s \<longleftrightarrow> soff b (rg_end r) = soff b (rg_begin s)"
    "rg_begin r = rg_end s \<longleftrightarrow> soff b (rg_begin r) = soff b (rg_end s)" by simp_all
  then show "rg_compare r s = BEFORE \<longleftrightarrow> apart b r s" "rg_compare r s = AFTER \<longleftrightarrow> apart b s r"
    unfolding rg_compare_def apart_def using h
    by (auto simp: seqLess_win[of b "rg_end r" "rg_begin s"] seqLess_win[of b "rg_end s" "rg_begin r"] simp del: soff_eq_iff)
qed

section \<open>The contract of merging two regions\<close>

locale region_merging =
  fixes mrg :: "'a rcv_region_scheme \<Rightarrow> 'a rcv_region_scheme \<Rightarrow> 'a rcv_region_scheme option"
  assumes mrg_touching: "region_ok b s \<Longrightarrow> region_ok b r \<Longrightarrow> \<not> apart b s r \<Longrightarrow> \<not> apart b r s \<Longrightarrow>
    \<exists>m. mrg s r = Some m \<and> soff b (rg_begin m) = min (soff b (rg_begin s)) (soff b (rg_begin r))
      \<and> soff b (rg_end m) = max (soff b (rg_end s)) (soff b (rg_end r))"
begin

lemma merge_rev_ok:
  assumes "regions_ok b (rev rs @ passed)" "region_ok b seg" "\<forall>p \<in> set passed. apart b seg p"
  shows "\<exists>out. merge_rev mrg seg rs passed = Inr out \<and> out \<noteq> [] \<and> regions_ok b out
    \<and> cover b out = cover b rs \<union> ival b seg \<union> cover b passed"
  using assms
proof (induction rs arbitrary: seg passed)
  case (Cons r rs)
  have r: "region_ok b r" "regions_ok b (rev rs @ passed)"
    using Cons.prems(1) by (auto simp: regions_ok_append)
  note cmp = compare_win[OF r(1) Cons.prems(2)]
  consider (before) "apart b r seg" | (after) "apart b seg r" | (touch) "\<not> apart b r seg" "\<not> apart b seg r"
    by blast
  then show ?case
  proof cases
    case before
    then have "merge_rev mrg seg (r # rs) passed = Inr (rev rs @ r # seg # passed)" using cmp by simp
    moreover have "regions_ok b (rev rs @ r # seg # passed)"
      using Cons.prems before by (fastforce simp: regions_ok_append apart_def region_ok_def)
    ultimately show ?thesis by auto
  next
    case after
    then have "merge_rev mrg seg (r # rs) passed = merge_rev mrg seg rs (r # passed)" using cmp by simp
    moreover have "\<exists>out. merge_rev mrg seg rs (r # passed) = Inr out \<and> out \<noteq> [] \<and> regions_ok b out
      \<and> cover b out = cover b rs \<union> ival b seg \<union> cover b (r # passed)"
      using Cons.prems after by (intro Cons.IH) auto
    ultimately show ?thesis by auto
  next
    case touch
    then obtain m where m: "mrg seg r = Some m"
      "soff b (rg_begin m) = min (soff b (rg_begin seg)) (soff b (rg_begin r))"
      "soff b (rg_end m) = max (soff b (rg_end seg)) (soff b (rg_end r))"
      using mrg_touching[OF Cons.prems(2) r(1)] by blast
    have step: "merge_rev mrg seg (r # rs) passed = merge_rev mrg m rs passed"
      using cmp touch m(1) by (simp split: compare_status.split)
    have mok: "region_ok b m" using m r(1) Cons.prems(2) by (auto simp: region_ok_def)
    have mp: "\<forall>p \<in> set passed. apart b m p"
      using m Cons.prems by (auto simp: apart_def regions_ok_append)
    have iv: "ival b m = ival b seg \<union> ival b r"
      using m touch r(1) Cons.prems(2) by (auto simp: ival_def apart_def region_ok_def)
    have "\<exists>out. merge_rev mrg m rs passed = Inr out \<and> out \<noteq> [] \<and> regions_ok b out
      \<and> cover b out = cover b rs \<union> ival b m \<union> cover b passed"
      by (rule Cons.IH[OF r(2) mok mp])
    then show ?thesis using step iv by (auto simp: Un_ac)
  qed
qed auto

lemma merge_region_ok:
  assumes "regions_ok b rs" "region_ok b seg"
  shows "\<exists>out. merge_region mrg seg rs = Inr out \<and> out \<noteq> [] \<and> regions_ok b out
    \<and> cover b out = cover b rs \<union> ival b seg"
  using merge_rev_ok[of b "rev rs" "[]" seg] assms by (simp add: merge_region_def)

end

lemma rg_merge_law:
  assumes "region_ok b s" "region_ok b r" "\<not> apart b s r" "\<not> apart b r s"
  shows "\<exists>m. rg_merge s r = Some m \<and> soff b (rg_begin m) = min (soff b (rg_begin s)) (soff b (rg_begin r))
      \<and> soff b (rg_end m) = max (soff b (rg_end s)) (soff b (rg_end r))"
proof -
  have h: "soff b (rg_begin r) < half" "soff b (rg_end r) < half" "soff b (rg_begin s) < half" "soff b (rg_end s) < half"
    using assms by (auto simp: region_ok_def)
  show ?thesis
    using assms(3,4) h by (auto simp: rg_merge_def apart_def seqLess_win[of b] Let_def)
qed

lemma drg_merge_law:
  assumes "region_ok b s" "region_ok b r" "\<not> apart b s r" "\<not> apart b r s"
  shows "\<exists>m. drg_merge s r = Some m \<and> soff b (rg_begin m) = min (soff b (rg_begin s)) (soff b (rg_begin r))
      \<and> soff b (rg_end m) = max (soff b (rg_end s)) (soff b (rg_end r))"
proof -
  have h: "soff b (rg_begin r) < half" "soff b (rg_end r) < half" "soff b (rg_begin s) < half" "soff b (rg_end s) < half"
    using assms by (auto simp: region_ok_def)
  have "soff b (seqMin (rg_begin s) (rg_begin r)) = min (soff b (rg_begin s)) (soff b (rg_begin r))"
    "soff b (seqMax (rg_end s) (rg_end r)) = max (soff b (rg_end s)) (soff b (rg_end r))"
    using h by (simp_all add: soff_seqMin_win soff_seqMax_win)
  moreover have "\<not> (seqLess (rg_end s) (rg_begin r) \<or> seqLess (rg_end r) (rg_begin s))"
    using assms(3,4) h by (auto simp: apart_def seqLess_win[of b])
  ultimately show ?thesis by (simp add: drg_merge_def Let_def) metis
qed

interpretation vreg: region_merging rg_merge
  by unfold_locales (rule rg_merge_law)

interpretation dreg: region_merging drg_merge
  by unfold_locales (rule drg_merge_law)


section \<open>The queue and its next expected number\<close>

text \<open>
  The well-formed queues inside the half circle that starts at \<open>b\<close>: the regions are sorted and
  apart, and a region that begins at or below \<open>rcv_nxt\<close> ends there.
\<close>

definition rcvq_wf :: "u32 \<Rightarrow> ('a rcv_region_scheme) region_queue \<Rightarrow> bool" where
  "rcvq_wf b q \<longleftrightarrow> regions_ok b (regionList q) \<and> soff b (rcvq_nxt q) < half
    \<and> (\<forall>r \<in> set (regionList q). soff b (rg_begin r) \<le> soff b (rcvq_nxt q) \<longrightarrow> rg_end r = rcvq_nxt q)"

lemma regions_ok_last:
  assumes "regions_ok b rs" "rs \<noteq> []"
  shows "soff b (rg_begin (hd rs)) < soff b (rg_end (last rs)) \<and> soff b (rg_end (last rs)) < half"
  using assms
proof (induction rs)
  case (Cons r rs)
  show ?case
  proof (cases "rs = []")
    case True then show ?thesis using Cons.prems by (simp add: region_ok_def)
  next
    case False
    have 1: "soff b (rg_end r) < soff b (rg_begin (hd rs))" using Cons.prems False by (simp add: apart_def)
    have 2: "soff b (rg_begin (hd rs)) < soff b (rg_end (last rs)) \<and> soff b (rg_end (last rs)) < half"
      using Cons.prems False by (intro Cons.IH) auto
    have 3: "soff b (rg_begin r) < soff b (rg_end r)" using Cons.prems by (simp add: region_ok_def)
    show ?thesis using 1 2 3 False by simp
  qed
qed simp

lemma range_ok_win:
  assumes "regions_ok b rs" "region_ok b seg"
  shows "range_ok seg rs"
proof (cases "rs = []")
  case False
  note l = regions_ok_last[OF assms(1) False]
  have h: "soff b (rg_begin (hd rs)) < half" "soff b (rg_end (last rs)) < half" "soff b (rg_begin seg) < half"
    "soff b (rg_end seg) < half" "soff b (rg_begin seg) < soff b (rg_end seg)"
    using l assms(2) by (auto simp: region_ok_def)
  have m: "soff b (seqMin (rg_begin (hd rs)) (rg_begin seg)) = min (soff b (rg_begin (hd rs))) (soff b (rg_begin seg))"
    "soff b (seqMax (rg_end (last rs)) (rg_end seg)) = max (soff b (rg_end (last rs))) (soff b (rg_end seg))"
    using h by (simp_all add: soff_seqMin_win soff_seqMax_win)
  have hm: "soff b (seqMin (rg_begin (hd rs)) (rg_begin seg)) < half" "soff b (seqMax (rg_end (last rs)) (rg_end seg)) < half"
    using m h by simp_all
  show ?thesis using m l h hm by (auto simp: range_ok_def Let_def seqGE_win[of b])
qed (simp add: range_ok_def)

lemma regions_ok_hd_le:
  "regions_ok b (r # rs) \<Longrightarrow> r' \<in> set rs \<Longrightarrow> soff b (rg_end r) < soff b (rg_begin r')"
  by (simp add: apart_def)

lemma end_not_cover:
  assumes "regions_ok b (r # rs)"
  shows "soff b (rg_end r) \<notin> cover b (r # rs)"
  by (auto simp: cover_def ival_def dest!: regions_ok_hd_le[OF assms])

lemma in_region_of_cover:
  assumes "x \<in> cover b rs"
  obtains r where "r \<in> set rs" "soff b (rg_begin r) \<le> x" "x < soff b (rg_end r)"
  using assms by (auto simp: cover_def ival_def)

context region_merging
begin

lemma insert_region_ok:
  assumes wf: "rcvq_wf b q" and seg: "region_ok b seg" and new: "soff b (rcvq_nxt q) < soff b (rg_end seg)"
  shows "\<exists>n q'. insert_region mrg seg q = Inr (n, q') \<and> rcvq_nxt q' = n \<and> rcvq_wf b q'
    \<and> cover b (regionList q') = cover b (regionList q) \<union> ival b seg
    \<and> soff b (rcvq_nxt q) \<le> soff b n \<and> {soff b (rcvq_nxt q)..<soff b n} \<subseteq> cover b (regionList q')
    \<and> soff b n \<notin> cover b (regionList q')"
proof -
  let ?nx = "soff b (rcvq_nxt q)"
  have w: "regions_ok b (regionList q)" "?nx < half" using wf by (auto simp: rcvq_wf_def)
  have old: "soff b (rg_end r) = ?nx" if "r \<in> set (regionList q)" "soff b (rg_begin r) \<le> ?nx" for r
    using wf that by (simp add: rcvq_wf_def)
  have nxo: "?nx \<notin> cover b (regionList q)"
    using old by (auto elim!: in_region_of_cover)
  obtain out where out: "merge_region mrg seg (regionList q) = Inr out" "out \<noteq> []" "regions_ok b out"
    "cover b out = cover b (regionList q) \<union> ival b seg"
    using merge_region_ok[OF w(1) seg] by blast
  obtain r rs where r: "out = r # rs" using out(2) by (cases out) auto
  have hr: "soff b (rg_begin r) < soff b (rg_end r)" "soff b (rg_end r) < half" using out(3) r by (auto simp: region_ok_def)
  have rest: "soff b (rg_end r) < soff b (rg_begin r')" if "r' \<in> set rs" for r'
    using that out(3) r by (auto simp: apart_def)
  have ge: "seqGE (rcvq_nxt q) (rg_begin r) \<longleftrightarrow> soff b (rg_begin r) \<le> ?nx"
    using hr w(2) by (intro seqGE_win) auto
  define n where "n = (if soff b (rg_begin r) \<le> ?nx then rg_end r else rcvq_nxt q)"
  have ins: "insert_region mrg seg q = Inr (n, q\<lparr>regionList := out, rcvq_nxt := n\<rparr>)"
    using range_ok_win[OF w(1) seg] out(1,2) r ge by (simp add: insert_region_def n_def Let_def)
  have front: "?nx \<le> soff b (rg_end r)" if le: "soff b (rg_begin r) \<le> ?nx"
  proof -
    have "soff b (rg_begin r) \<in> cover b out" using r hr by (simp add: ival_def)
    then consider "soff b (rg_begin r) \<in> cover b (regionList q)" | "soff b (rg_begin r) \<in> ival b seg"
      using out(4) by blast
    then show ?thesis
    proof cases
      case 1
      then obtain r0 where r0: "r0 \<in> set (regionList q)" "soff b (rg_begin r0) \<le> soff b (rg_begin r)"
        "soff b (rg_begin r) < soff b (rg_end r0)" by (auto elim: in_region_of_cover)
      have e0: "soff b (rg_end r0) = ?nx" using old[OF r0(1)] r0(2) le by simp
      show ?thesis
      proof (rule ccontr)
        assume "\<not> ?thesis"
        then have "soff b (rg_end r) \<in> ival b r0" using r0 e0 hr by (simp add: ival_def)
        then have "soff b (rg_end r) \<in> cover b out" using out(4) r0(1) by (auto simp: cover_def)
        then show False using end_not_cover[of b r rs] out(3) r by simp
      qed
    next
      case 2
      show ?thesis
      proof (rule ccontr)
        assume "\<not> ?thesis"
        then have "soff b (rg_end r) \<in> ival b seg" using 2 new hr by (auto simp: ival_def)
        then have "soff b (rg_end r) \<in> cover b out" using out(4) by blast
        then show False using end_not_cover[of b r rs] out(3) r by simp
      qed
    qed
  qed
  have sub: "{?nx..<soff b n} \<subseteq> cover b out"
    using r by (auto simp: n_def ival_def split: if_splits)
  have fresh: "soff b n \<notin> cover b out"
  proof (cases "soff b (rg_begin r) \<le> ?nx")
    case True
    then show ?thesis using end_not_cover[of b r rs] out(3) r by (simp add: n_def)
  next
    case False
    then have "\<forall>r' \<in> set out. ?nx < soff b (rg_begin r')" using r rest hr by force
    then show ?thesis using False by (auto simp: n_def cover_def ival_def)
  qed
  have le: "?nx \<le> soff b n" using front by (simp add: n_def)
  have wf': "rcvq_wf b (q\<lparr>regionList := out, rcvq_nxt := n\<rparr>)"
    using out(3) r rest hr w(2) front by (force simp: rcvq_wf_def n_def)
  show ?thesis using ins wf' out(4) le sub fresh by (intro exI[of _ n] exI) auto
qed

end


section \<open>Extraction\<close>

definition extracted :: "u32 \<Rightarrow> 'a rcv_region_scheme option \<Rightarrow> nat set" where
  "extracted b reg = (case reg of None \<Rightarrow> {} | Some r \<Rightarrow> ival b r)"

text \<open>The contract of \<open>Region::split\<close>, on the regions that are \<open>good\<close>.\<close>

locale region_splitting =
  fixes spl :: "u32 \<Rightarrow> 'a rcv_region_scheme \<Rightarrow> ('a rcv_region_scheme \<times> 'a rcv_region_scheme) res"
    and good :: "'a rcv_region_scheme \<Rightarrow> bool"
  assumes split_inside: "region_ok b r \<Longrightarrow> good r \<Longrightarrow> soff b (rg_begin r) < soff b s \<Longrightarrow> soff b s < soff b (rg_end r) \<Longrightarrow>
    \<exists>f r'. spl s r = Inr (f, r') \<and> rg_begin f = rg_begin r \<and> rg_end f = s \<and> rg_begin r' = s \<and> rg_end r' = rg_end r
      \<and> good f \<and> good r'"
begin

lemma extract_region_ok:
  assumes wf: "rcvq_wf b q" and g: "\<forall>r \<in> set (regionList q). good r"
    and s: "soff b s \<le> soff b (rcvq_nxt q)"
  shows "\<exists>reg q'. extract_region spl s q = Inr (reg, q') \<and> rcvq_nxt q' = rcvq_nxt q \<and> rcvq_wf b q'
    \<and> (\<forall>r \<in> set (regionList q'). good r)
    \<and> (\<forall>r. reg = Some r \<longrightarrow> region_ok b r \<and> good r)
    \<and> extracted b reg = cover b (regionList q) \<inter> {..<soff b s}
    \<and> cover b (regionList q') = cover b (regionList q) - {..<soff b s}"
proof -
  have h: "soff b s < half" "soff b (rcvq_nxt q) < half" using wf s by (auto simp: rcvq_wf_def)
  then have a: "seqLE s (rcvq_nxt q)" using s by (simp add: seqLE_win[of b])
  show ?thesis
  proof (cases "regionList q")
    case Nil
    then show ?thesis using a wf by (simp add: extract_region_def extracted_def)
  next
    case (Cons r rs)
    have w: "regions_ok b (r # rs)" using wf Cons by (simp add: rcvq_wf_def)
    then have ro: "region_ok b r" by simp
    then have hr: "soff b (rg_begin r) < half" "soff b (rg_end r) < half" "soff b (rg_begin r) < soff b (rg_end r)"
      by (auto simp: region_ok_def)
    have le: "seqLE s (rg_begin r) \<longleftrightarrow> soff b s \<le> soff b (rg_begin r)"
      and ge: "seqGE s (rg_end r) \<longleftrightarrow> soff b (rg_end r) \<le> soff b s"
      using h hr by (simp_all add: seqLE_win[of b] seqGE_win[of b])
    have rest: "\<forall>r' \<in> set rs. soff b (rg_end r) < soff b (rg_begin r')" using w by (simp add: apart_def)
    have ro': "region_ok b r'" if "r' \<in> set rs" for r' using w that by (simp add: regions_ok_def)
    have above: "cover b rs \<inter> {..soff b (rg_end r)} = {}"
      using rest by (fastforce simp: cover_def ival_def)
    consider (none) "soff b s \<le> soff b (rg_begin r)"
      | (all) "soff b (rg_begin r) < soff b s" "soff b (rg_end r) \<le> soff b s"
      | (part) "soff b (rg_begin r) < soff b s" "soff b s < soff b (rg_end r)" by linarith
    then show ?thesis
    proof cases
      case none
      then have "extract_region spl s q = Inr (None, q)" using a le Cons by (simp add: extract_region_def)
      moreover have "cover b (r # rs) \<inter> {..<soff b s} = {}" using above none hr by (fastforce simp: ival_def)
      ultimately show ?thesis using wf g Cons by (auto simp: extracted_def)
    next
      case all
      then have ex: "extract_region spl s q = Inr (Some r, q\<lparr>regionList := rs\<rparr>)"
        using a le ge Cons by (simp add: extract_region_def)
      have "rg_end r = rcvq_nxt q" using wf Cons all s by (auto simp: rcvq_wf_def)
      then have es: "soff b (rg_end r) = soff b s" using all s by simp
      have "rcvq_wf b (q\<lparr>regionList := rs\<rparr>)" using wf Cons by (simp add: rcvq_wf_def)
      moreover have "cover b (r # rs) \<inter> {..<soff b s} = ival b r" "cover b (r # rs) - {..<soff b s} = cover b rs"
        using above es by (auto simp: ival_def)
      ultimately show ?thesis using ex g Cons ro by (auto simp: extracted_def)
    next
      case part
      have gr: "good r" using g Cons by simp
      obtain f r' where sp: "spl s r = Inr (f, r')" "rg_begin f = rg_begin r" "rg_end f = s" "rg_begin r' = s"
        "rg_end r' = rg_end r" "good f" "good r'"
        using split_inside[OF ro gr part] by blast
      have ex: "extract_region spl s q = Inr (Some f, q\<lparr>regionList := r' # rs\<rparr>)"
        using a le ge Cons part sp(1) by (simp add: extract_region_def)
      have e: "rg_end r = rcvq_nxt q" using wf Cons part s by (auto simp: rcvq_wf_def)
      have "rcvq_wf b (q\<lparr>regionList := r' # rs\<rparr>)"
        using wf Cons sp part e by (auto simp: rcvq_wf_def region_ok_def apart_def)
      moreover have "cover b (r # rs) \<inter> {..<soff b s} = ival b f" "cover b (r # rs) - {..<soff b s} = cover b (r' # rs)"
        using above sp part by (auto simp: ival_def)
      moreover have "region_ok b f" using sp part h by (simp add: region_ok_def)
      ultimately show ?thesis using ex g Cons sp by (auto simp: extracted_def)
    qed
  qed
qed

end

lemma split_assert:
  assumes "region_ok b r" "soff b (rg_begin r) < soff b s" "soff b s < soff b (rg_end r)"
  shows "seqGreater s (rg_begin r) \<and> seqLess s (rg_end r)"
  using assms by (auto simp: region_ok_def seqGreater_win[of b] seqLess_win[of b])

lemma rg_split_law:
  assumes "region_ok b r" "soff b (rg_begin r) < soff b s" "soff b s < soff b (rg_end r)"
  shows "\<exists>f r'. rg_split s r = Inr (f, r') \<and> rg_begin f = rg_begin r \<and> rg_end f = s \<and> rg_begin r' = s \<and> rg_end r' = rg_end r"
  using split_assert[OF assms] by (simp add: rg_split_def)

definition data_ok :: "data_region \<Rightarrow> bool" where
  "data_ok r \<longleftrightarrow> length (rg_data r) = soff (rg_begin r) (rg_end r)"

lemma drg_split_law:
  assumes "region_ok b r" "data_ok r" "soff b (rg_begin r) < soff b s" "soff b s < soff b (rg_end r)"
  shows "\<exists>f r'. drg_split s r = Inr (f, r') \<and> rg_begin f = rg_begin r \<and> rg_end f = s \<and> rg_begin r' = s \<and> rg_end r' = rg_end r
      \<and> data_ok f \<and> data_ok r' \<and> rg_data f @ rg_data r' = rg_data r"
proof -
  have o: "soff (rg_begin r) s = soff b s - soff b (rg_begin r)" "soff s (rg_end r) = soff b (rg_end r) - soff b s"
    "soff (rg_begin r) (rg_end r) = soff b (rg_end r) - soff b (rg_begin r)"
    using assms(3,4) soff_diff[of b "rg_begin r" s] soff_diff[of b s "rg_end r"] soff_diff[of b "rg_begin r" "rg_end r"]
    by simp_all
  have l: "length (rg_data r) = soff b (rg_end r) - soff b (rg_begin r)" "length (rg_data r) < 2 ^ 32"
    using assms(1,2) o by (auto simp: data_ok_def region_ok_def half_def)
  have u: "unat (s - rg_begin r) = soff b s - soff b (rg_begin r)" using o(1) by (simp add: soff_def)
  have le: "s - rg_begin r \<le> data_arraysize (rg_data r)"
    using u l assms(4) unat_arraysize[OF l(2)] by (simp add: word_le_nat_alt)
  have t: "ba_truncateData (s - rg_begin r) 0 (rg_data r) = Inr (drop (unat (s - rg_begin r)) (rg_data r))"
    using ba_truncateData_ok[OF l(2), of "s - rg_begin r" 0] u l assms(4) by simp
  show ?thesis
    using split_assert[OF assms(1,3,4)] le t u o l assms(3,4)
    by (simp add: drg_split_def setDataFromByteArray_def data_ok_def)
qed

interpretation vspl: region_splitting rg_split "\<lambda>_. True"
  by unfold_locales (use rg_split_law in blast)

interpretation dspl: region_splitting drg_split data_ok
  by unfold_locales (use drg_split_law in blast)

section \<open>The bytes of merged regions\<close>

lemma copy_from_0: "length a < 2 ^ 32 \<Longrightarrow> copyDataToBuffer n 0 a = take (unat n) a"
  using copyDataToBuffer_take[of a 0 n] by simp

lemma length_write_at: "off + length src \<le> length buf \<Longrightarrow> length (write_at buf off src) = length buf"
  by (simp add: write_at_def)

lemma write_three:
  assumes "length A = a" "length B = n" "length C = c"
  shows "write_at (write_at (write_at (replicate (a + n + c) z) 0 A) a B) (a + n) C = A @ B @ C"
  using assms by (simp add: write_at_def)

lemma write_at_Nil: "write_at buf off [] = buf"
  by (simp add: write_at_def)

lemma drg_merge_data:
  assumes s: "region_ok b s" "data_ok s" and r: "region_ok b r" "data_ok r"
    and t: "\<not> apart b s r" "\<not> apart b r s" and m: "drg_merge s r = Some m"
  shows "rg_data m = take (soff b (rg_begin s) - soff b (rg_begin r)) (rg_data r) @ rg_data s
      @ take (soff b (rg_end r) - soff b (rg_end s)) (rg_data r)"
    and "data_ok m"
proof -
  have h: "soff b (rg_begin r) < half" "soff b (rg_end r) < half" "soff b (rg_begin s) < half" "soff b (rg_end s) < half"
    "soff b (rg_begin r) < soff b (rg_end r)" "soff b (rg_begin s) < soff b (rg_end s)"
    using s r by (auto simp: region_ok_def)
  define nb where "nb = seqMin (rg_begin s) (rg_begin r)"
  define ne where "ne = seqMax (rg_end s) (rg_end r)"
  have nb: "soff b nb = min (soff b (rg_begin s)) (soff b (rg_begin r))"
    and ne: "soff b ne = max (soff b (rg_end s)) (soff b (rg_end r))"
    using h by (simp_all add: nb_def ne_def soff_seqMin_win soff_seqMax_win)
  have tt: "soff b (rg_begin r) \<le> soff b (rg_end s)" "soff b (rg_begin s) \<le> soff b (rg_end r)"
    using t by (auto simp: apart_def)
  have lr: "length (rg_data r) = soff b (rg_end r) - soff b (rg_begin r)"
    using r(2) soff_diff[of b "rg_begin r" "rg_end r"] h by (simp add: data_ok_def)
  have ls: "length (rg_data s) = soff b (rg_end s) - soff b (rg_begin s)"
    using s(2) soff_diff[of b "rg_begin s" "rg_end s"] h by (simp add: data_ok_def)
  define a where "a = soff b (rg_begin s) - soff b nb"
  define c where "c = soff b ne - soff b (rg_end s)"
  have ua: "unat (rg_begin s - nb) = a" using soff_diff[of b nb "rg_begin s"] nb by (simp add: soff_def a_def)
  have uc: "unat (ne - rg_end s) = c" using soff_diff[of b "rg_end s" ne] ne by (simp add: soff_def c_def)
  have un: "unat (rg_end s - rg_begin s) = length (rg_data s)"
    using soff_diff[of b "rg_begin s" "rg_end s"] h ls by (simp add: soff_def)
  have ue: "unat (rg_end s - nb) = a + length (rg_data s)"
    using soff_diff[of b nb "rg_end s"] nb h ls by (simp add: soff_def a_def)
  have ut: "unat (ne - nb) = a + length (rg_data s) + c"
    using soff_diff[of b nb ne] nb ne h ls by (simp add: soff_def a_def c_def)
  have sm: "length (rg_data r) < 2 ^ 32" "length (rg_data s) < 2 ^ 32" using lr ls h by (simp_all add: half_def)
  have A: "copyDataToBuffer (rg_begin s - nb) 0 (rg_data r) = take a (rg_data r)"
    using copy_from_0[OF sm(1)] ua by simp
  have B: "copyDataToBuffer (rg_end s - rg_begin s) 0 (rg_data s) = rg_data s"
    using copy_from_0[OF sm(2)] un by simp
  have C: "copyDataToBuffer (ne - rg_end s) 0 (rg_data r) = take c (rg_data r)"
    using copy_from_0[OF sm(1)] uc by simp
  have la: "length (take a (rg_data r)) = a" "length (take c (rg_data r)) = c"
    using lr tt nb ne h by (auto simp: a_def c_def)
  have a0: "nb = rg_begin s \<longleftrightarrow> a = 0" and c0: "ne = rg_end s \<longleftrightarrow> c = 0"
    using nb ne by (metis a_def diff_self_eq_0 diff_is_0_eq' min.cobounded1 soff_eq_iff antisym diff_is_0_eq)
      (metis c_def ne diff_is_0_eq max.cobounded1 order_antisym_conv order_refl soff_eq_iff)
  have nt: "\<not> (seqLess (rg_end s) (rg_begin r) \<or> seqLess (rg_end r) (rg_begin s))"
    using tt h by (simp add: seqLess_win[of b])
  have d: "rg_data m = take a (rg_data r) @ rg_data s @ take c (rg_data r) \<and> rg_begin m = nb \<and> rg_end m = ne"
  proof (cases "nb \<noteq> rg_begin s \<or> ne \<noteq> rg_end s")
    case True
    have "rg_data m = write_at (write_at (write_at (replicate (a + length (rg_data s) + c) 0) 0 (take a (rg_data r))) a
        (rg_data s)) (a + length (rg_data s)) (take c (rg_data r)) \<and> rg_begin m = nb \<and> rg_end m = ne"
      using m nt True unfolding drg_merge_def nb_def[symmetric] ne_def[symmetric]
      by (auto simp: Let_def A B C ua ue ut a0 c0 write_at_Nil)
    then show ?thesis using write_three[OF la(1) refl la(2)] by simp
  next
    case False
    then have "m = s" using m nt unfolding drg_merge_def nb_def[symmetric] ne_def[symmetric] by (simp add: Let_def)
    then show ?thesis using False a0 c0 by simp
  qed
  have ac: "a = soff b (rg_begin s) - soff b (rg_begin r)" "c = soff b (rg_end r) - soff b (rg_end s)"
    using nb ne by (auto simp: a_def c_def)
  show "rg_data m = take (soff b (rg_begin s) - soff b (rg_begin r)) (rg_data r) @ rg_data s
      @ take (soff b (rg_end r) - soff b (rg_end s)) (rg_data r)" using d ac by simp
  show "data_ok m" using d ut la by (simp add: data_ok_def soff_def)
qed


section \<open>Properties\<close>

lemma segment_region_ok:
  assumes "0 < unat (payloadLength seg)" "soff b (sequenceNo seg) + unat (payloadLength seg) < half"
  shows "region_ok b (virtual_region seg)"
    and "ival b (virtual_region seg) = {soff b (sequenceNo seg)..<soff b (sequenceNo seg) + unat (payloadLength seg)}"
    and "soff b (rg_end (virtual_region seg)) = soff b (sequenceNo seg) + unat (payloadLength seg)"
proof -
  have "soff b (segEnd seg) = soff b (sequenceNo seg) + unat (payloadLength seg)"
    using assms(2) by (intro segEnd_off) (simp add: half_def)
  then show "region_ok b (virtual_region seg)"
    "ival b (virtual_region seg) = {soff b (sequenceNo seg)..<soff b (sequenceNo seg) + unat (payloadLength seg)}"
    "soff b (rg_end (virtual_region seg)) = soff b (sequenceNo seg) + unat (payloadLength seg)"
    using assms by (simp_all add: region_ok_def virtual_region_def ival_def segEnd_def)
qed

text \<open>The numbers that a queue of any kind has received, the next one it expects, and when it is well-formed.\<close>

definition received :: "u32 \<Rightarrow> rcv_queue \<Rightarrow> nat set" where
  "received b Q = (case Q of VirtualDataRcvQueue q \<Rightarrow> cover b (regionList q) | ByteStreamRcvQueue q \<Rightarrow> cover b (regionList q)
     | MsgBasedRcvQueue q _ \<Rightarrow> cover b (regionList q))"

definition next_expected :: "rcv_queue \<Rightarrow> u32" where
  "next_expected Q = (case Q of VirtualDataRcvQueue q \<Rightarrow> rcvq_nxt q | ByteStreamRcvQueue q \<Rightarrow> rcvq_nxt q | MsgBasedRcvQueue q _ \<Rightarrow> rcvq_nxt q)"

definition rcv_queue_wf :: "u32 \<Rightarrow> rcv_queue \<Rightarrow> bool" where
  "rcv_queue_wf b Q = (case Q of VirtualDataRcvQueue q \<Rightarrow> rcvq_wf b q | ByteStreamRcvQueue q \<Rightarrow> rcvq_wf b q
     | MsgBasedRcvQueue q _ \<Rightarrow> rcvq_wf b q)"

text \<open>What a segment must carry: for the byte stream as many bytes as its length says, for the messages an end that keeps the list
  sorted.\<close>

definition carries_payload :: "tcp_segment \<Rightarrow> rcv_queue \<Rightarrow> bool" where
  "carries_payload seg Q \<longleftrightarrow> (case Q of VirtualDataRcvQueue q \<Rightarrow> True
     | ByteStreamRcvQueue q \<Rightarrow> payloadLength seg = ucast (data_arraysize (byteArray seg))
     | MsgBasedRcvQueue q pl \<Rightarrow> \<not> isl (insert_payloads (payloadList seg) [] pl))"

lemma bytestream_region_ok:
  assumes "payloadLength seg = ucast (data_arraysize (byteArray seg))" "region_ok b (virtual_region seg)"
  obtains r where "bytestream_region seg = Inr r" "region_ok b r" "ival b r = ival b (virtual_region seg)" "rg_end r = rg_end (virtual_region seg)"
proof
  show "bytestream_region seg = Inr \<lparr>rg_begin = sequenceNo seg, rg_end = sequenceNo seg + ucast (payloadLength seg), rg_data = byteArray seg\<rparr>"
    using assms(1) by (simp add: bytestream_region_def)
qed (use assms(2) in \<open>simp_all add: region_ok_def ival_def virtual_region_def\<close>)

text \<open>
  C13. \<open>insertBytesFromSegment\<close> of each of the three receive queues, for a segment with data that ends
  above \<open>rcv_nxt\<close> and inside the half circle, and carries the payload that the queue needs, raises none of its exceptions and adds
  exactly the numbers of the segment to those received, whatever overlaps, holes and reordering there are; the returned
  \<open>rcv_nxt\<close> never decreases, every byte from the old one up to it has arrived, and the byte at it has not:
  the cumulative acknowledgement is exact.  It is about the sequence numbers; what bytes the byte stream queue keeps for
  them is the subject of \<open>bytestream_merge_keeps_bytes\<close> and \<open>bytestream_merge_overlap_corrupts\<close> below.
\<close>

theorem receive_insert_exact:
  assumes "rcv_queue_wf b Q" "0 < unat (payloadLength seg)" "soff b (sequenceNo seg) + unat (payloadLength seg) < half"
    and "soff b (next_expected Q) < soff b (sequenceNo seg) + unat (payloadLength seg)" "carries_payload seg Q"
  shows "\<exists>n Q'. rcv_insertBytesFromSegment seg Q = Inr (n, Q') \<and> next_expected Q' = n \<and> rcv_queue_wf b Q'
    \<and> received b Q' = received b Q \<union> {soff b (sequenceNo seg)..<soff b (sequenceNo seg) + unat (payloadLength seg)}
    \<and> soff b (next_expected Q) \<le> soff b n \<and> {soff b (next_expected Q)..<soff b n} \<subseteq> received b Q'
    \<and> soff b n \<notin> received b Q'"
proof (cases Q)
  case (VirtualDataRcvQueue q)
  then show ?thesis
    using vreg.insert_region_ok[OF _ segment_region_ok(1)[OF assms(2,3)], of q] segment_region_ok(2,3)[OF assms(2,3)] assms(1,4)
    by (auto simp: rcv_insertBytesFromSegment_def rcv_queue_wf_def next_expected_def received_def)
next
  case (ByteStreamRcvQueue q)
  obtain r where r: "bytestream_region seg = Inr r" "region_ok b r" "ival b r = ival b (virtual_region seg)" "rg_end r = rg_end (virtual_region seg)"
    using bytestream_region_ok[OF _ segment_region_ok(1)[OF assms(2,3)]] assms(5) by (auto simp: carries_payload_def ByteStreamRcvQueue)
  then show ?thesis
    using ByteStreamRcvQueue dreg.insert_region_ok[OF _ r(2), of q] segment_region_ok(2,3)[OF assms(2,3)] assms(1,4)
    by (auto simp: rcv_insertBytesFromSegment_def rcv_queue_wf_def next_expected_def received_def)
next
  case (MsgBasedRcvQueue q pl)
  obtain pl' where "insert_payloads (payloadList seg) [] pl = Inr pl'"
    using assms(5) by (cases "insert_payloads (payloadList seg) [] pl") (auto simp: carries_payload_def MsgBasedRcvQueue)
  then show ?thesis
    using MsgBasedRcvQueue vreg.insert_region_ok[OF _ segment_region_ok(1)[OF assms(2,3)], of q] segment_region_ok(2,3)[OF assms(2,3)] assms(1,4)
    by (auto simp: rcv_insertBytesFromSegment_def rcv_queue_wf_def next_expected_def received_def)
qed

definition rcvq_example :: "rcv_region region_queue" where
  "rcvq_example = \<lparr>rcvq_nxt = 4294967290, regionList = [\<lparr>rg_begin = 4294967280, rg_end = 4294967290\<rparr>, \<lparr>rg_begin = 4, rg_end = 20\<rparr>]\<rparr>"

lemma rcvq_example_wf: "rcvq_wf 4294967200 rcvq_example"
  by (simp add: rcvq_wf_def rcvq_example_def regions_ok_def region_ok_def apart_def soff_def half_def)

theorem receive_insert_exact_witness:
  "(\<exists>n Q'. rcv_insertBytesFromSegment (new_segment\<lparr>sequenceNo := 4294967290, payloadLength := 12\<rparr>)
      (VirtualDataRcvQueue rcvq_example) = Inr (n, Q') \<and> rcv_queue_wf 4294967200 Q' \<and> soff 4294967200 n \<notin> received 4294967200 Q')
   \<and> (\<exists>n Q'. rcv_insertBytesFromSegment (new_segment\<lparr>sequenceNo := 4294967290, payloadLength := 2, byteArray := [7, 8]\<rparr>)
      (ByteStreamRcvQueue (rcvq_init 4294967290)) = Inr (n, Q') \<and> received 4294967200 Q' = {90..<92})"
proof (rule conjI)
  have "unat (payloadLength (new_segment\<lparr>sequenceNo := 4294967290, payloadLength := 12\<rparr>)) = 12"
    "soff 4294967200 (sequenceNo (new_segment\<lparr>sequenceNo := 4294967290, payloadLength := 12\<rparr>)) = 90"
    "soff 4294967200 (next_expected (VirtualDataRcvQueue rcvq_example)) = 90"
    by (simp_all add: soff_def rcvq_example_def next_expected_def)
  then show "\<exists>n Q'. rcv_insertBytesFromSegment (new_segment\<lparr>sequenceNo := 4294967290, payloadLength := 12\<rparr>)
      (VirtualDataRcvQueue rcvq_example) = Inr (n, Q') \<and> rcv_queue_wf 4294967200 Q' \<and> soff 4294967200 n \<notin> received 4294967200 Q'"
    using receive_insert_exact[of 4294967200 "VirtualDataRcvQueue rcvq_example" "new_segment\<lparr>sequenceNo := 4294967290, payloadLength := 12\<rparr>"]
      rcvq_example_wf by (fastforce simp: half_def rcv_queue_wf_def carries_payload_def)
next
  let ?s = "new_segment\<lparr>sequenceNo := 4294967290, payloadLength := 2, byteArray := [7, 8]\<rparr>" and ?Q = "ByteStreamRcvQueue (rcvq_init 4294967290)"
  have "unat (payloadLength ?s) = 2" "soff 4294967200 (sequenceNo ?s) = 90" "soff 4294967200 (next_expected ?Q) = 90"
    "rcv_queue_wf 4294967200 ?Q" "carries_payload ?s ?Q" "received 4294967200 ?Q = {}"
    by (simp_all add: soff_def next_expected_def rcv_queue_wf_def rcvq_wf_def rcvq_init_def carries_payload_def data_arraysize_def
        received_def cover_def half_def)
  then show "\<exists>n Q'. rcv_insertBytesFromSegment ?s ?Q = Inr (n, Q') \<and> received 4294967200 Q' = {90..<92}"
    using receive_insert_exact[of 4294967200 ?Q ?s] by (fastforce simp: half_def)
qed

text \<open>
  C14. \<open>extractBytesUpTo(seq)\<close> of the virtual data queue (the message based one extracts whole messages), for a number up to \<open>rcv_nxt\<close>, fails no
  assertion and splits the received bytes at \<open>seq\<close>: the packet has one byte for every byte
  below \<open>seq\<close> that was there (no packet when there is none), exactly the others stay, and
  \<open>rcv_nxt\<close> does not change.
\<close>

theorem virtual_extract_exact:
  assumes "rcvq_wf b q" "soff b seq \<le> soff b (rcvq_nxt q)"
  shows "\<exists>p q'. rcv_extractBytesUpTo seq (VirtualDataRcvQueue q) = Inr (p, VirtualDataRcvQueue q')
    \<and> rcvq_nxt q' = rcvq_nxt q \<and> rcvq_wf b q'
    \<and> cover b (regionList q') = cover b (regionList q) - {..<soff b seq}
    \<and> (case p of None \<Rightarrow> 0 | Some k \<Rightarrow> unat (pk_byteLength k)) = card (cover b (regionList q) \<inter> {..<soff b seq})"
proof -
  obtain reg q' where e: "extract_region rg_split seq q = Inr (reg, q')" "rcvq_nxt q' = rcvq_nxt q" "rcvq_wf b q'" "\<forall>r. reg = Some r \<longrightarrow> region_ok b r \<and> True"
    "extracted b reg = cover b (regionList q) \<inter> {..<soff b seq}"
    "cover b (regionList q') = cover b (regionList q) - {..<soff b seq}"
    using vspl.extract_region_ok[OF assms(1) _ assms(2)] by auto
  have "unat (rg_getLength r) = card (ival b r)" if "soff b (rg_begin r) \<le> soff b (rg_end r)" for r :: rcv_region
    using soff_diff[OF that] by (simp add: rg_getLength_def ival_def soff_def)
  moreover have "soff b (rg_begin r) \<le> soff b (rg_end r)" if "reg = Some r" for r
    using e(4) that by (simp add: region_ok_def)
  ultimately show ?thesis
    using e by (auto simp: rcv_extractBytesUpTo_def data_packet_def extracted_def split: option.splits)
qed

theorem virtual_extract_exact_witness:
  "\<exists>p q'. rcv_extractBytesUpTo 4294967285 (VirtualDataRcvQueue rcvq_example) = Inr (Some p, VirtualDataRcvQueue q')
    \<and> unat (pk_byteLength p) = 5"
proof -
  have o: "soff 4294967200 4294967285 = 85" "soff 4294967200 (rcvq_nxt rcvq_example) = 90"
    by (simp_all add: soff_def rcvq_example_def)
  have c: "cover 4294967200 (regionList rcvq_example) \<inter> {..<85} = {80..<85}"
    by (auto simp: cover_def ival_def rcvq_example_def soff_def)
  obtain p q' where "rcv_extractBytesUpTo 4294967285 (VirtualDataRcvQueue rcvq_example) = Inr (p, VirtualDataRcvQueue q')"
    "(case p of None \<Rightarrow> 0 | Some k \<Rightarrow> unat (pk_byteLength k)) = card {80..<85 :: nat}"
    using virtual_extract_exact[OF rcvq_example_wf, of 4294967285] o c by auto
  then show ?thesis by (cases p) auto
qed

definition byte_at :: "u32 \<Rightarrow> data_region \<Rightarrow> nat \<Rightarrow> u8" where
  "byte_at b r x = rg_data r ! (x - soff b (rg_begin r))"

text \<open>
  \<open>TCPByteStreamRcvQueue::Region::merge\<close> keeps the bytes of the stream when the other region does not
  overlap the end of this one (it ends at or before it, or begins exactly there): the merged
  region has a byte for every number of both, at the numbers of this region the bytes of this
  region and at the others those of the other region.
\<close>

theorem bytestream_merge_keeps_bytes:
  assumes "region_ok b s" "data_ok s" "region_ok b r" "data_ok r"
    and "\<not> apart b s r" "\<not> apart b r s"
    and "soff b (rg_end r) \<le> soff b (rg_end s) \<or> rg_begin r = rg_end s"
  shows "\<exists>m. drg_merge s r = Some m \<and> region_ok b m \<and> data_ok m \<and> ival b m = ival b s \<union> ival b r
    \<and> (\<forall>x. (x \<in> ival b s \<longrightarrow> byte_at b m x = byte_at b s x)
          \<and> (x \<in> ival b r - ival b s \<longrightarrow> byte_at b m x = byte_at b r x))"
proof -
  obtain m where m: "drg_merge s r = Some m"
    "soff b (rg_begin m) = min (soff b (rg_begin s)) (soff b (rg_begin r))"
    "soff b (rg_end m) = max (soff b (rg_end s)) (soff b (rg_end r))"
    using dreg.mrg_touching[OF assms(1,3,5,6)] by blast
  note d = drg_merge_data[OF assms(1-6) m(1)]
  have h: "soff b (rg_begin r) < soff b (rg_end r)" "soff b (rg_begin s) < soff b (rg_end s)"
    "soff b (rg_end r) < half" "soff b (rg_end s) < half"
    using assms by (auto simp: region_ok_def)
  have lr: "length (rg_data r) = soff b (rg_end r) - soff b (rg_begin r)"
    using assms(4) soff_diff[of b "rg_begin r" "rg_end r"] h by (simp add: data_ok_def)
  have ls: "length (rg_data s) = soff b (rg_end s) - soff b (rg_begin s)"
    using assms(2) soff_diff[of b "rg_begin s" "rg_end s"] h by (simp add: data_ok_def)
  have t: "soff b (rg_begin r) \<le> soff b (rg_end s)" "soff b (rg_begin s) \<le> soff b (rg_end r)"
    using assms(5,6) by (auto simp: apart_def)
  have mo: "region_ok b m" using m h by (simp add: region_ok_def)
  have iv: "ival b m = ival b s \<union> ival b r" using m t h by (auto simp: ival_def)
  have in_s: "byte_at b m x = byte_at b s x" if "x \<in> ival b s" for x
  proof -
    have "length (take (soff b (rg_begin s) - soff b (rg_begin r)) (rg_data r)) = soff b (rg_begin s) - soff b (rg_begin r)"
      using lr t h by simp
    moreover have "x - soff b (rg_begin m) = (soff b (rg_begin s) - soff b (rg_begin r)) + (x - soff b (rg_begin s))"
      "x - soff b (rg_begin s) < length (rg_data s)"
      using that m(2) ls by (auto simp: ival_def)
    ultimately show ?thesis unfolding byte_at_def d(1) by (simp add: nth_append)
  qed
  have in_r: "byte_at b m x = byte_at b r x" if "x \<in> ival b r" "x \<notin> ival b s" for x
  proof (cases "x < soff b (rg_begin s)")
    case True
    then show ?thesis using that m(2) d(1) lr ls t h by (auto simp: byte_at_def ival_def nth_append min_def)
  next
    case False
    then have x: "soff b (rg_end s) \<le> x" "x < soff b (rg_end r)" "soff b (rg_begin r) = soff b (rg_end s)"
      using that assms(7) by (auto simp: ival_def)
    then show ?thesis using m(2) d(1) lr ls h by (auto simp: byte_at_def nth_append min_def)
  qed
  show ?thesis using m(1) mo d(2) iv in_s in_r by blast
qed

theorem bytestream_merge_keeps_bytes_witness:
  "\<exists>m. drg_merge \<lparr>rg_begin = 4, rg_end = 8, rg_data = [4, 5, 6, 7]\<rparr> \<lparr>rg_begin = 2, rg_end = 6, rg_data = [2, 3, 4, 5]\<rparr> = Some m
    \<and> byte_at 0 m 3 = 3"
proof -
  let ?s = "\<lparr>rg_begin = 4, rg_end = 8, rg_data = [4, 5, 6, 7]\<rparr> :: data_region"
  let ?r = "\<lparr>rg_begin = 2, rg_end = 6, rg_data = [2, 3, 4, 5]\<rparr> :: data_region"
  have a: "region_ok 0 ?s" "data_ok ?s" "region_ok 0 ?r" "data_ok ?r" "\<not> apart 0 ?s ?r" "\<not> apart 0 ?r ?s"
    "soff 0 (rg_end ?r) \<le> soff 0 (rg_end ?s) \<or> rg_begin ?r = rg_end ?s"
    by (simp_all add: region_ok_def data_ok_def apart_def soff_def half_def)
  have i: "3 \<in> ival 0 ?r - ival 0 ?s" "byte_at 0 ?r 3 = 3"
    by (simp_all add: ival_def soff_def byte_at_def)
  show ?thesis using bytestream_merge_keeps_bytes[OF a] i by metis
qed

text \<open>
  When the other region overlaps the end of this one, the third copy of \<open>merge\<close> reads from the
  start of the other region instead of from the offset \<open>end - other.begin\<close>, so bytes of the stream
  are lost: of the stream 0 1 2 3 4 5, received as 0 1 2 3 and 2 3 4 5, the merged region holds 0 1 2 3 2 3.
\<close>

lemma bytestream_merge_overlap_corrupts:
  "drg_merge \<lparr>rg_begin = 0, rg_end = 4, rg_data = [0, 1, 2, 3]\<rparr> \<lparr>rg_begin = 2, rg_end = 6, rg_data = [2, 3, 4, 5]\<rparr>
    = Some \<lparr>rg_begin = 0, rg_end = 6, rg_data = [0, 1, 2, 3, 2, 3]\<rparr>"
  by code_simp

end
