(* ===== verification/Tcp_Send_Queue.thy ===== *)
theory Tcp_Send_Queue
  imports Tcp_Segment
begin

text \<open>
  The send queues: \<open>TCPSendQueue.h\<close> and its subclasses \<open>TCPVirtualDataSendQueue\<close>,
  \<open>TCPByteStreamSendQueue\<close> and \<open>TCPMsgBasedSendQueue\<close> of \<open>src/transport/tcp/queues\<close>.

  The virtual methods dispatch on the constructor of \<open>snd_queue\<close>.  The names of segments and
  the time stamps of messages are not modelled.  The locale \<open>send_queue\<close> is the contract of
  the abstract class: the sender may create any segment of the buffered range, and the
  operations move the ends of the range and nothing else.  It is interpreted on the dispatching
  functions, so for all three queues.
\<close>

section \<open>The queues\<close>

datatype snd_queue =
    VirtualDataSendQueue (sq_begin: u32) (sq_end: u32)
  | ByteStreamSendQueue (sq_begin: u32) (sq_end: u32) byte_buffer
  | MsgBasedSendQueue (sq_begin: u32) (sq_end: u32) "(u32 \<times> packet) list"

definition snd_init :: "u32 \<Rightarrow> snd_queue \<Rightarrow> snd_queue" where
  "snd_init startSeq Q =
     (case Q of
        VirtualDataSendQueue b e \<Rightarrow> VirtualDataSendQueue startSeq startSeq
      | ByteStreamSendQueue b e buf \<Rightarrow> ByteStreamSendQueue startSeq startSeq (bb_clear buf)
      | MsgBasedSendQueue b e pq \<Rightarrow> MsgBasedSendQueue startSeq startSeq pq)"

definition snd_getBufferStartSeq :: "snd_queue \<Rightarrow> u32" where
  "snd_getBufferStartSeq Q = sq_begin Q"

definition snd_getBufferEndSeq :: "snd_queue \<Rightarrow> u32" where
  "snd_getBufferEndSeq Q = sq_end Q"

definition snd_getBytesAvailable :: "u32 \<Rightarrow> snd_queue \<Rightarrow> u64" where
  "snd_getBytesAvailable fromSeq Q =
     (if seqLess fromSeq (snd_getBufferEndSeq Q) then ucast (snd_getBufferEndSeq Q - fromSeq) else 0)"

definition snd_enqueueAppData :: "packet \<Rightarrow> snd_queue \<Rightarrow> snd_queue res" where
  "snd_enqueueAppData msg Q =
     (case Q of
        VirtualDataSendQueue b e \<Rightarrow>
          (let e' = e + ucast (pk_byteLength msg)
           in if seqLess e' b then Inl (RuntimeError ''Send queue is full'') else Inr (VirtualDataSendQueue b e'))
      | ByteStreamSendQueue b e buf \<Rightarrow>
          assertE (pk_byteLength msg = ucast (data_arraysize (pk_byteArray msg))) ''enqueueAppData: array size''
            (Inr (ByteStreamSendQueue b (e + ucast (pk_byteLength msg)) (bb_push (pk_byteArray msg) buf)))
      | MsgBasedSendQueue b e pq \<Rightarrow>
          (let e' = e + ucast (pk_byteLength msg)
           in if seqLess e' b then Inl (RuntimeError ''Send queue is full'')
              else Inr (MsgBasedSendQueue b e' (pq @ [(e', msg)]))))"

definition snd_createSegmentWithBytes :: "u32 \<Rightarrow> u64 \<Rightarrow> snd_queue \<Rightarrow> tcp_segment res" where
  "snd_createSegmentWithBytes fromSeq numBytes Q =
     assertE (seqLE (sq_begin Q) fromSeq \<and> seqLE (fromSeq + ucast numBytes) (sq_end Q)) ''createSegmentWithBytes''
      (let seg = new_segment\<lparr>sequenceNo := fromSeq, payloadLength := numBytes\<rparr>
       in case Q of
            VirtualDataSendQueue b e \<Rightarrow> Inr seg
          | ByteStreamSendQueue b e buf \<Rightarrow>
              (let bytes = bb_getBytesToBuffer (ucast numBytes) (fromSeq - b) buf
               in assertE (ucast (data_arraysize bytes) = numBytes) ''createSegmentWithBytes: bytes == numBytes''
                    (Inr (seg\<lparr>byteArray := bytes\<rparr>)))
          | MsgBasedSendQueue b e pq \<Rightarrow>
              (let toSeq = fromSeq + ucast numBytes;
                   ms = takeWhile (\<lambda>p. seqLE (fst p) toSeq) (dropWhile (\<lambda>p. seqLE (fst p) fromSeq) pq)
               in Inr (fold (\<lambda>(endSeq, msg). addPayloadMessage msg endSeq) ms seg)))"

definition snd_discardUpTo :: "u32 \<Rightarrow> snd_queue \<Rightarrow> snd_queue res" where
  "snd_discardUpTo seqNum Q =
     assertE (seqLE (sq_begin Q) seqNum \<and> seqLE seqNum (sq_end Q)) ''discardUpTo''
      (case Q of
         VirtualDataSendQueue b e \<Rightarrow> Inr (VirtualDataSendQueue seqNum e)
       | ByteStreamSendQueue b e buf \<Rightarrow>
           mapE (\<lambda>buf'. ByteStreamSendQueue seqNum e buf') (bb_drop (seqNum - b) buf)
       | MsgBasedSendQueue b e pq \<Rightarrow>
           Inr (MsgBasedSendQueue seqNum e (dropWhile (\<lambda>p. seqLE (fst p) seqNum) pq)))"

section \<open>The contract of a send queue\<close>

text \<open>\<open>span b e f\<close>: the number \<open>f\<close> lies in the buffered range.\<close>

definition in_span :: "u32 \<Rightarrow> u32 \<Rightarrow> u32 \<Rightarrow> bool" where
  "in_span b e f \<longleftrightarrow> soff b f \<le> soff b e"

locale send_queue =
  fixes start_of end_of :: "'q \<Rightarrow> u32"
    and create :: "u32 \<Rightarrow> u64 \<Rightarrow> 'q \<Rightarrow> tcp_segment res"
    and discard :: "u32 \<Rightarrow> 'q \<Rightarrow> 'q res"
    and wf :: "'q \<Rightarrow> bool"
  assumes span_half: "wf q \<Longrightarrow> soff (start_of q) (end_of q) < half"
    and create_law: "wf q \<Longrightarrow> soff (start_of q) f + unat n \<le> soff (start_of q) (end_of q) \<Longrightarrow>
      \<exists>seg. create f n q = Inr seg \<and> sequenceNo seg = f \<and> payloadLength seg = n"
    and discard_law: "wf q \<Longrightarrow> in_span (start_of q) (end_of q) s \<Longrightarrow>
      \<exists>q'. discard s q = Inr q' \<and> wf q' \<and> start_of q' = s \<and> end_of q' = end_of q"
begin

definition available :: "u32 \<Rightarrow> 'q \<Rightarrow> nat" where
  "available f q = (if seqLess f (end_of q) then unat (end_of q - f) else 0)"

lemma available_span:
  assumes "wf q" "in_span (start_of q) (end_of q) f"
  shows "available f q = soff (start_of q) (end_of q) - soff (start_of q) f"
proof -
  have h: "soff (start_of q) (end_of q) < half" "soff (start_of q) f \<le> soff (start_of q) (end_of q)"
    using assms span_half by (auto simp: in_span_def)
  then have "seqLess f (end_of q) \<longleftrightarrow> soff (start_of q) f < soff (start_of q) (end_of q)"
    by (intro seqLess_win) auto
  then show ?thesis using h soff_diff[OF h(2)] by (auto simp: available_def soff_def)
qed

lemma create_available:
  assumes "wf q" "in_span (start_of q) (end_of q) f" "unat n \<le> available f q"
  shows "\<exists>seg. create f n q = Inr seg \<and> sequenceNo seg = f \<and> payloadLength seg = n"
  using assms available_span[OF assms(1,2)] create_law[of q f n] by (simp add: in_span_def)

lemma discard_available:
  assumes "wf q" "in_span (start_of q) (end_of q) f" "in_span (start_of q) (end_of q) s" "soff (start_of q) s \<le> soff (start_of q) f"
  shows "\<exists>q'. discard s q = Inr q' \<and> wf q' \<and> in_span (start_of q') (end_of q') f \<and> available f q' = available f q"
proof -
  obtain q' where q': "discard s q = Inr q'" "wf q'" "start_of q' = s" "end_of q' = end_of q"
    using discard_law[OF assms(1,3)] by blast
  have "soff s f = soff (start_of q) f - soff (start_of q) s" using assms(4) by (rule soff_diff)
  moreover have "soff s (end_of q) = soff (start_of q) (end_of q) - soff (start_of q) s"
    using assms(3) by (intro soff_diff) (simp add: in_span_def)
  ultimately have "in_span (start_of q') (end_of q') f" using assms(2) q' by (simp add: in_span_def)
  then show ?thesis using q' by (auto simp: available_def)
qed

end

text \<open>
  The well-formed queues: less than half of the circle; the byte buffer has a byte for every
  number; the messages end inside the range, in order.
\<close>

definition snd_wf :: "snd_queue \<Rightarrow> bool" where
  "snd_wf Q \<longleftrightarrow> soff (sq_begin Q) (sq_end Q) < half \<and>
     (case Q of
        VirtualDataSendQueue b e \<Rightarrow> True
      | ByteStreamSendQueue b e buf \<Rightarrow> bb_wf buf \<and> length (bb_bytes buf) = soff b e
      | MsgBasedSendQueue b e pq \<Rightarrow>
          sorted_wrt (\<lambda>p p'. soff b (fst p) \<le> soff b (fst p')) pq \<and>
          (\<forall>p \<in> set pq. 0 < soff b (fst p) \<and> soff b (fst p) \<le> soff b e))"


lemma unat_ucast_u32: "unat (n :: u64) < 2 ^ 32 \<Longrightarrow> unat (ucast n :: u32) = unat n"
  by (simp add: unsigned_ucast_eq take_bit_nat_eq_self)

lemma end_in_queue:
  assumes "soff b f + unat (n :: u64) \<le> soff b e" "soff b e < half"
  shows "soff b (f + ucast n) = soff b f + unat n" "seqLE b f \<and> seqLE (f + ucast n) e"
proof -
  have "ucast n = (of_nat (unat n) :: u32)" by (metis of_nat_unat)
  then show o: "soff b (f + ucast n) = soff b f + unat n"
    using soff_plus[of b f "unat n"] assms by (simp add: half_def)
  show "seqLE b f \<and> seqLE (f + ucast n) e"
    using assms o by (simp add: seqLE_soff[of b] seqLE_win[of b])
qed

lemma fold_addPayload:
  "fold (\<lambda>(endSeq, msg). addPayloadMessage msg endSeq) ms seg = seg\<lparr>payloadList := payloadList seg @ ms\<rparr>"
  by (induction ms arbitrary: seg) (auto simp: addPayloadMessage_def)

lemma bytestream_read:
  assumes "bb_wf buf" "length (bb_bytes buf) = soff b e" "soff b f + unat (n :: u64) \<le> soff b e" "soff b e < half"
  shows "bb_getBytesToBuffer (ucast n) (f - b) buf = take (unat n) (drop (soff b f) (bb_bytes buf))"
    and "ucast (data_arraysize (bb_getBytesToBuffer (ucast n) (f - b) buf)) = n"
proof -
  have n: "unat (ucast n :: u32) = unat n" using assms by (intro unat_ucast_u32) (simp add: half_def)
  show r: "bb_getBytesToBuffer (ucast n) (f - b) buf = take (unat n) (drop (soff b f) (bb_bytes buf))"
    using bb_get_ok[OF assms(1), of "f - b" "ucast n"] assms n by (simp add: soff_def)
  have "length (take (unat n) (drop (soff b f) (bb_bytes buf))) = unat n" using assms by simp
  then have "unat (data_arraysize (bb_getBytesToBuffer (ucast n) (f - b) buf)) = unat n"
    unfolding r using assms by (subst unat_arraysize) (auto simp: half_def)
  then show "ucast (data_arraysize (bb_getBytesToBuffer (ucast n) (f - b) buf)) = n"
    by (metis unat_ucast_u64 word_unat_eq_iff)
qed

text \<open>What a segment of \<open>n\<close> bytes from \<open>f\<close> carries: its bytes, or the messages that end in it.\<close>

definition snd_slice :: "u32 \<Rightarrow> nat \<Rightarrow> snd_queue \<Rightarrow> byte_array \<times> (u32 \<times> packet) list" where
  "snd_slice f n Q =
     (case Q of
        VirtualDataSendQueue b e \<Rightarrow> ([], [])
      | ByteStreamSendQueue b e buf \<Rightarrow> (take n (drop (soff b f) (bb_bytes buf)), [])
      | MsgBasedSendQueue b e pq \<Rightarrow> ([], filter (\<lambda>p. soff b f < soff b (fst p) \<and> soff b (fst p) \<le> soff b f + n) pq))"

lemma snd_create_law:
  assumes "snd_wf Q" "soff (sq_begin Q) f + unat n \<le> soff (sq_begin Q) (sq_end Q)"
  shows "snd_createSegmentWithBytes f n Q = Inr (new_segment\<lparr>sequenceNo := f, payloadLength := n,
    payloadList := snd (snd_slice f (unat n) Q), byteArray := fst (snd_slice f (unat n) Q)\<rparr>)"
proof (cases Q)
  case (VirtualDataSendQueue b e)
  then show ?thesis using assms end_in_queue[of b f n e]
    by (simp add: snd_createSegmentWithBytes_def snd_wf_def new_segment_def Let_def snd_slice_def)
next
  case (ByteStreamSendQueue b e buf)
  then show ?thesis using assms end_in_queue[of b f n e] bytestream_read[of buf b e f n]
    by (simp add: snd_createSegmentWithBytes_def snd_wf_def new_segment_def Let_def snd_slice_def)
next
  case (MsgBasedSendQueue b e pq)
  have h: "soff b e < half" "soff b f + unat n \<le> soff b e" using assms MsgBasedSendQueue by (auto simp: snd_wf_def)
  note e = end_in_queue[OF h(2,1)]
  have srt: "sorted_wrt (\<lambda>p p'. soff b (fst p) \<le> soff b (fst p')) pq"
    and bnd: "\<forall>p \<in> set pq. soff b (fst p) < half"
    using assms(1) h MsgBasedSendQueue by (auto simp: snd_wf_def)
  have c: "seqLE (fst p) f \<longleftrightarrow> soff b (fst p) \<le> soff b f"
    "seqLE (fst p) (f + ucast n) \<longleftrightarrow> soff b (fst p) \<le> soff b f + unat n" if "p \<in> set pq" for p
    using that bnd h e(1) by (simp_all add: seqLE_win[of b])
  have "takeWhile (\<lambda>p. seqLE (fst p) (f + ucast n)) (dropWhile (\<lambda>p. seqLE (fst p) f) pq)
      = filter (\<lambda>p. soff b f < soff b (fst p) \<and> soff b (fst p) \<le> soff b f + unat n) pq"
    using srt c
  proof (induction pq)
    case (Cons p ps)
    show ?case
    proof (cases "soff b (fst p) \<le> soff b f")
      case True
      then show ?thesis using Cons by simp
    next
      case False
      have all: "\<forall>q \<in> set ps. soff b f < soff b (fst q)" using Cons.prems(1) False by fastforce
      have d: "dropWhile (\<lambda>p. seqLE (fst p) f) (p # ps) = p # ps" using False Cons.prems(2)[of p] by simp
      have tk: "takeWhile (\<lambda>p. seqLE (fst p) (f + ucast n)) xs = filter (\<lambda>p. soff b (fst p) \<le> soff b f + unat n) xs"
        if "sorted_wrt (\<lambda>p p'. soff b (fst p) \<le> soff b (fst p')) xs"
          "\<forall>q \<in> set xs. seqLE (fst q) (f + ucast n) \<longleftrightarrow> soff b (fst q) \<le> soff b f + unat n" for xs
        using that
      proof (induction xs)
        case (Cons x xs)
        show ?case
        proof (cases "soff b (fst x) \<le> soff b f + unat n")
          case True
          then show ?thesis using Cons by simp
        next
          case False
          then have "filter (\<lambda>p. soff b (fst p) \<le> soff b f + unat n) xs = []"
            using Cons.prems(1) by (fastforce simp: filter_empty_conv)
          then show ?thesis using False Cons.prems(2) by simp
        qed
      qed simp
      have "takeWhile (\<lambda>p. seqLE (fst p) (f + ucast n)) (p # ps) = filter (\<lambda>p. soff b (fst p) \<le> soff b f + unat n) (p # ps)"
        using Cons.prems by (intro tk) auto
      also have "\<dots> = filter (\<lambda>p. soff b f < soff b (fst p) \<and> soff b (fst p) \<le> soff b f + unat n) (p # ps)"
        using all False by (intro filter_cong) auto
      finally show ?thesis using d by simp
    qed
  qed simp
  then show ?thesis using MsgBasedSendQueue e(2)
    by (simp add: snd_createSegmentWithBytes_def fold_addPayload new_segment_def Let_def snd_slice_def)
qed

lemma snd_discard_law:
  assumes "snd_wf Q" "in_span (sq_begin Q) (sq_end Q) s"
  shows "\<exists>Q'. snd_discardUpTo s Q = Inr Q' \<and> snd_wf Q' \<and> sq_begin Q' = s \<and> sq_end Q' = sq_end Q
    \<and> (\<forall>f n. soff (sq_begin Q) s \<le> soff (sq_begin Q) f \<and> soff (sq_begin Q) f + n \<le> soff (sq_begin Q) (sq_end Q)
          \<longrightarrow> snd_slice f n Q' = snd_slice f n Q)"
proof -
  let ?b = "sq_begin Q" and ?e = "sq_end Q"
  have h: "soff ?b ?e < half" "soff ?b s \<le> soff ?b ?e" using assms by (auto simp: snd_wf_def in_span_def)
  have a: "seqLE ?b s \<and> seqLE s ?e" using h by (simp add: seqLE_soff[of ?b] seqLE_win[of ?b])
  have d: "soff s ?e = soff ?b ?e - soff ?b s" using h(2) by (rule soff_diff)
  show ?thesis
  proof (cases Q)
    case (VirtualDataSendQueue b e)
    then show ?thesis using a d h by (simp add: snd_discardUpTo_def snd_wf_def snd_slice_def)
  next
    case (ByteStreamSendQueue b e buf)
    obtain buf' where "bb_drop (s - b) buf = Inr buf'" "bb_wf buf'" "bb_bytes buf' = drop (soff b s) (bb_bytes buf)"
      using bb_drop_ok[of buf "s - b"] assms(1) h ByteStreamSendQueue by (auto simp: snd_wf_def soff_def)
    moreover have "soff s f = soff b f - soff b s" if "soff b s \<le> soff b f" for f using that by (rule soff_diff)
    ultimately show ?thesis using a d h assms(1) ByteStreamSendQueue
      by (simp add: snd_discardUpTo_def snd_wf_def snd_slice_def)
  next
    case (MsgBasedSendQueue b e pq)
    have srt: "sorted_wrt (\<lambda>p p'. soff b (fst p) \<le> soff b (fst p')) pq"
      and bnd: "\<forall>p \<in> set pq. soff b (fst p) \<le> soff b e" and he: "soff b e < half"
      using assms(1) MsgBasedSendQueue by (auto simp: snd_wf_def)
    have after: "soff b s < soff b (fst p)" if "p \<in> set (dropWhile (\<lambda>p. seqLE (fst p) s) pq)" for p
      using that srt bnd
    proof (induction pq)
      case (Cons x xs)
      then show ?case
      proof (cases "seqLE (fst x) s")
        case False
        then have "soff b s < soff b (fst x)" using Cons.prems(3) h he MsgBasedSendQueue
          by (simp add: seqLE_win[of b])
        then show ?thesis using False Cons.prems by fastforce
      qed auto
    qed simp
    have so: "soff s (fst p) = soff b (fst p) - soff b s" if "p \<in> set (dropWhile (\<lambda>p. seqLE (fst p) s) pq)" for p
      using after[OF that] by (intro soff_diff) simp
    have "sorted_wrt (\<lambda>p p'. soff b (fst p) \<le> soff b (fst p')) (dropWhile (\<lambda>p. seqLE (fst p) s) pq)"
      using srt sorted_wrt_append[of _ "takeWhile (\<lambda>p. seqLE (fst p) s) pq" "dropWhile (\<lambda>p. seqLE (fst p) s) pq"]
      unfolding takeWhile_dropWhile_id by blast
    then have srt': "sorted_wrt (\<lambda>p p'. soff s (fst p) \<le> soff s (fst p')) (dropWhile (\<lambda>p. seqLE (fst p) s) pq)"
    proof (rule sorted_wrt_mono_rel[rotated])
      fix x y assume x: "x \<in> set (dropWhile (\<lambda>p. seqLE (fst p) s) pq)" and y: "y \<in> set (dropWhile (\<lambda>p. seqLE (fst p) s) pq)"
        and le: "soff b (fst x) \<le> soff b (fst y)"
      show "soff s (fst x) \<le> soff s (fst y)" unfolding so[OF x] so[OF y] using le by (rule diff_le_mono)
    qed
    have "\<forall>p \<in> set (dropWhile (\<lambda>p. seqLE (fst p) s) pq). 0 < soff s (fst p) \<and> soff s (fst p) \<le> soff s e"
    proof
      fix p assume p: "p \<in> set (dropWhile (\<lambda>p. seqLE (fst p) s) pq)"
      then have "soff b (fst p) \<le> soff b e" using bnd set_dropWhileD by fast
      then show "0 < soff s (fst p) \<and> soff s (fst p) \<le> soff s e"
        unfolding so[OF p] using after[OF p] d MsgBasedSendQueue by simp
    qed
    then have "snd_wf (MsgBasedSendQueue s e (dropWhile (\<lambda>p. seqLE (fst p) s) pq))"
      using srt' d h MsgBasedSendQueue unfolding snd_wf_def by simp
    moreover have "snd_slice f n (MsgBasedSendQueue s e (dropWhile (\<lambda>p. seqLE (fst p) s) pq)) = snd_slice f n Q"
      if "soff b s \<le> soff b f" for f n
    proof -
      have sf: "soff s f = soff b f - soff b s" using that by (rule soff_diff)
      have front: "soff b (fst p) \<le> soff b s" if "p \<in> set (takeWhile (\<lambda>p. seqLE (fst p) s) pq)" for p
      proof -
        have "p \<in> set pq" "seqLE (fst p) s" using set_takeWhileD[OF that] by auto
        moreover have "soff b (fst p) < half" "soff b s < half" using bnd he h calculation(1) MsgBasedSendQueue by auto
        ultimately show ?thesis by (simp add: seqLE_win[of b])
      qed
      let ?P = "\<lambda>p. soff b f < soff b (fst p) \<and> soff b (fst p) \<le> soff b f + n"
      have "filter ?P pq = filter ?P (takeWhile (\<lambda>p. seqLE (fst p) s) pq) @ filter ?P (dropWhile (\<lambda>p. seqLE (fst p) s) pq)"
        by (metis filter_append takeWhile_dropWhile_id)
      moreover have "filter ?P (takeWhile (\<lambda>p. seqLE (fst p) s) pq) = []"
        unfolding filter_empty_conv using front that by fastforce
      moreover have "filter (\<lambda>p. soff s f < soff s (fst p) \<and> soff s (fst p) \<le> soff s f + n) (dropWhile (\<lambda>p. seqLE (fst p) s) pq)
          = filter ?P (dropWhile (\<lambda>p. seqLE (fst p) s) pq)"
      proof (rule filter_cong[OF refl])
        fix p assume p: "p \<in> set (dropWhile (\<lambda>p. seqLE (fst p) s) pq)"
        show "(soff s f < soff s (fst p) \<and> soff s (fst p) \<le> soff s f + n) = ?P p"
          unfolding so[OF p] sf using after[OF p] that by auto
      qed
      ultimately show ?thesis using MsgBasedSendQueue by (simp add: snd_slice_def)
    qed
    ultimately show ?thesis using a MsgBasedSendQueue by (simp add: snd_discardUpTo_def)
  qed
qed

interpretation sndq: send_queue sq_begin sq_end snd_createSegmentWithBytes snd_discardUpTo snd_wf
proof unfold_locales
  show "soff (sq_begin q) (sq_end q) < half" if "snd_wf q" for q using that by (simp add: snd_wf_def)
next
  show "\<exists>seg. snd_createSegmentWithBytes f n q = Inr seg \<and> sequenceNo seg = f \<and> payloadLength seg = n"
    if "snd_wf q" "soff (sq_begin q) f + unat n \<le> soff (sq_begin q) (sq_end q)" for q f n
    using snd_create_law[OF that] by simp
next
  show "\<exists>q'. snd_discardUpTo s q = Inr q' \<and> snd_wf q' \<and> sq_begin q' = s \<and> sq_end q' = sq_end q"
    if "snd_wf q" "in_span (sq_begin q) (sq_end q) s" for q s
    using snd_discard_law[OF that] by blast
qed

section \<open>Properties\<close>

text \<open>
  C15. On a well-formed send queue of any of the three kinds, \<open>createSegmentWithBytes(fromSeq, numBytes)\<close>
  for a range that is buffered fails no assertion and returns a segment with exactly that range:
  from a byte stream queue it carries exactly the bytes of the stream there, from a message queue
  exactly the messages whose last byte lies in the range, in order.
\<close>

theorem send_queue_create_exact:
  assumes "snd_wf Q" "soff (sq_begin Q) f + unat n \<le> soff (sq_begin Q) (sq_end Q)"
  shows "snd_createSegmentWithBytes f n Q = Inr (new_segment\<lparr>sequenceNo := f, payloadLength := n,
    payloadList := snd (snd_slice f (unat n) Q), byteArray := fst (snd_slice f (unat n) Q)\<rparr>)"
  by (rule snd_create_law[OF assms])

definition sndq_example :: snd_queue where
  "sndq_example = ByteStreamSendQueue 4294967294 4 \<lparr>dataListM = [[1, 2, 3], [4, 5, 6]], dataLengthM = 6\<rparr>"

lemma sndq_example_facts: "snd_wf sndq_example" "sq_begin sndq_example = 4294967294" "sq_end sndq_example = 4"
  by (simp_all add: snd_wf_def sndq_example_def bb_wf_def bb_bytes_def soff_def half_def)

theorem send_queue_create_exact_witness:
  "snd_createSegmentWithBytes 0 3 sndq_example = Inr (new_segment\<lparr>sequenceNo := 0, payloadLength := 3, byteArray := [3, 4, 5]\<rparr>)"
  using send_queue_create_exact[OF sndq_example_facts(1), of 0 3] sndq_example_facts(2,3)
  by (simp add: soff_def) (simp add: snd_slice_def sndq_example_def bb_bytes_def soff_def new_segment_def)

text \<open>
  Acknowledging bytes never changes what is retransmitted: \<open>discardUpTo(seqNum)\<close> for a number of the
  buffered range fails no assertion, leaves a well-formed queue that starts at \<open>seqNum\<close> and
  ends where it did, and every segment of the range that is left is created as it was before.
\<close>

theorem send_queue_discard_keeps_rest:
  assumes "snd_wf Q" "in_span (sq_begin Q) (sq_end Q) s"
  shows "\<exists>Q'. snd_discardUpTo s Q = Inr Q' \<and> snd_wf Q' \<and> sq_begin Q' = s \<and> sq_end Q' = sq_end Q
    \<and> (\<forall>f n. soff (sq_begin Q) s \<le> soff (sq_begin Q) f \<and> soff (sq_begin Q) f + unat n \<le> soff (sq_begin Q) (sq_end Q)
          \<longrightarrow> snd_createSegmentWithBytes f n Q' = snd_createSegmentWithBytes f n Q)"
proof -
  obtain Q' where q: "snd_discardUpTo s Q = Inr Q'" "snd_wf Q'" "sq_begin Q' = s" "sq_end Q' = sq_end Q"
    "\<forall>f n. soff (sq_begin Q) s \<le> soff (sq_begin Q) f \<and> soff (sq_begin Q) f + n \<le> soff (sq_begin Q) (sq_end Q)
          \<longrightarrow> snd_slice f n Q' = snd_slice f n Q"
    using snd_discard_law[OF assms] by blast
  have "snd_createSegmentWithBytes f n Q' = snd_createSegmentWithBytes f n Q"
    if "soff (sq_begin Q) s \<le> soff (sq_begin Q) f" "soff (sq_begin Q) f + unat n \<le> soff (sq_begin Q) (sq_end Q)" for f n
  proof -
    have "soff s f = soff (sq_begin Q) f - soff (sq_begin Q) s" using that(1) by (rule soff_diff)
    moreover have "soff s (sq_end Q) = soff (sq_begin Q) (sq_end Q) - soff (sq_begin Q) s"
      using assms(2) by (intro soff_diff) (simp add: in_span_def)
    ultimately show ?thesis
      using snd_create_law[OF assms(1) that(2)] snd_create_law[OF q(2), of f n] q(3-5) that by simp
  qed
  then show ?thesis using q(1-4) by blast
qed

theorem send_queue_discard_keeps_rest_witness:
  "\<exists>Q'. snd_discardUpTo 1 sndq_example = Inr Q' \<and> sq_begin Q' = 1 \<and> snd_wf Q'"
  using send_queue_discard_keeps_rest[OF sndq_example_facts(1), of 1] sndq_example_facts(2,3)
  by (auto simp: in_span_def soff_def)

end
