(* ===== verification/Tcp_State.thy ===== *)
theory Tcp_State
  imports Sack_Rexmit_Queue Tcp_Rcv_Queue Tcp_Send_Queue
begin

text \<open>
  The state of a TCP connection: \<open>TCPStateVariables\<close> and \<open>TCPConnection\<close> of
  \<open>src/transport/tcp/TCPConnection.h\<close>, with the state variables that the algorithm classes
  add to it (\<open>TCPBaseAlg.h\<close>, \<open>TCPTahoeRenoFamily.h\<close>).

  \<^item> The classes of state variables that inherit from one another are one record, extended
    in three steps only because it is long.  The variables of the DCTCP, LGCC and ECN
    experiments in the family class are not modelled.
  \<^item> A timer message is NULL, idle, or scheduled.  The rules of the simulation kernel for
    \<open>scheduleAt\<close> and \<open>cancelEvent\<close> are those of its manual: a message that is already
    scheduled cannot be scheduled again.
  \<^item> What a connection sends, to IP, to the application and to the other connections of the
    module, is appended to \<open>outs\<close>.
  \<^item> \<open>env\<close> holds what the code takes from floating point arithmetic and the simulation:
    the current time, the initial sequence number computed from it, the conversion of times
    to and from time stamps, and the multiplication of a time with 1/8.  \<open>relayMark\<close> is \<open>None\<close> in a
    host without a relay application; with one it tells whether the random draw against the relay's
    marking probability marks the n-th packet of a delivery.
  \<^item> \<open>hasModule\<close> is false for a connection whose \<open>tcpMain\<close> and \<open>tcpMain2\<close> are both NULL.
  \<^item> Output vectors are observations only and are left out, except where the code uses one
    that it has not created.
\<close>

section \<open>Enumerations\<close>

datatype tcp_state =
    TCP_S_INIT
  | TCP_S_CLOSED
  | TCP_S_LISTEN
  | TCP_S_SYN_SENT
  | TCP_S_SYN_RCVD
  | TCP_S_ESTABLISHED
  | TCP_S_CLOSE_WAIT
  | TCP_S_LAST_ACK
  | TCP_S_FIN_WAIT_1
  | TCP_S_FIN_WAIT_2
  | TCP_S_CLOSING
  | TCP_S_TIME_WAIT

datatype tcp_event =
    TCP_E_IGNORE
  | TCP_E_OPEN_ACTIVE
  | TCP_E_OPEN_PASSIVE
  | TCP_E_SEND
  | TCP_E_CLOSE
  | TCP_E_ABORT
  | TCP_E_STATUS
  | TCP_E_QUEUE_BYTES_LIMIT
  | TCP_E_RCV_DATA
  | TCP_E_RCV_ACK
  | TCP_E_RCV_SYN
  | TCP_E_RCV_SYN_ACK
  | TCP_E_RCV_FIN
  | TCP_E_RCV_FIN_ACK
  | TCP_E_RCV_RST
  | TCP_E_RCV_UNEXP_SYN
  | TCP_E_TIMEOUT_2MSL
  | TCP_E_TIMEOUT_CONN_ESTAB
  | TCP_E_TIMEOUT_FIN_WAIT_2

datatype tcp_ind =
    TCP_I_DATA
  | TCP_I_URGENT_DATA
  | TCP_I_ESTABLISHED
  | TCP_I_PEER_CLOSED
  | TCP_I_CLOSED
  | TCP_I_CONNECTION_REFUSED
  | TCP_I_CONNECTION_RESET
  | TCP_I_TIMED_OUT
  | TCP_I_STATUS
  | TCP_I_SEND_MSG

datatype transfer_mode =
    TCP_TRANSFER_UNDEFINED
  | TCP_TRANSFER_BYTECOUNT
  | TCP_TRANSFER_OBJECT
  | TCP_TRANSFER_BYTESTREAM

text \<open>The congestion control classes that are modelled.\<close>

datatype flavour = TCPTahoe | TCPReno | TCPNewReno

text \<open>\<open>IPvXAddress\<close>: an IPv4 address or the four words of an IPv6 address.\<close>

datatype ipvx = IPv4A u32 | IPv6A u32 u32 u32 u32

definition isUnspecified :: "ipvx \<Rightarrow> bool" where
  "isUnspecified a \<longleftrightarrow> a = IPv4A 0"

section \<open>Constants\<close>

definition TCP_TIMEOUT_CONN_ESTAB :: simtime where "TCP_TIMEOUT_CONN_ESTAB = 75 * sec"
definition TCP_TIMEOUT_FIN_WAIT_2 :: simtime where "TCP_TIMEOUT_FIN_WAIT_2 = 600 * sec"
definition TCP_TIMEOUT_2MSL :: simtime where "TCP_TIMEOUT_2MSL = 240 * sec"
definition TCP_TIMEOUT_SYN_REXMIT :: simtime where "TCP_TIMEOUT_SYN_REXMIT = 3 * sec"
definition TCP_TIMEOUT_SYN_REXMIT_MAX :: simtime where "TCP_TIMEOUT_SYN_REXMIT_MAX = 240 * sec"
definition MAX_SYN_REXMIT_COUNT :: int where "MAX_SYN_REXMIT_COUNT = 12"
definition TCP_MAX_WIN :: u32 where "TCP_MAX_WIN = 65535"
definition DUPTHRESH :: u32 where "DUPTHRESH = 3"
definition TCP_OPTIONS_MAX_SIZE :: u32 where "TCP_OPTIONS_MAX_SIZE = 40"
definition TCP_OPTION_SACK_MIN_SIZE :: u32 where "TCP_OPTION_SACK_MIN_SIZE = 10"
definition TCP_OPTION_TS_SIZE :: u32 where "TCP_OPTION_TS_SIZE = 12"
definition PAWS_IDLE_TIME_THRESH :: simtime where "PAWS_IDLE_TIME_THRESH = 24 * 24 * 3600 * sec"

section \<open>State variables\<close>

record tcp_vars =
  active :: bool
  fork :: bool
  snd_mss :: u32
  snd_una :: u32
  snd_nxt :: u32
  snd_max :: u32
  snd_wnd :: u32
  snd_up :: u32
  snd_wl1 :: u32
  snd_wl2 :: u32
  iss :: u32
  rcv_nxt :: u32
  rcv_wnd :: u32
  rcv_up :: u32
  irs :: u32
  rcv_adv :: u32
  syn_rexmit_count :: int
  syn_rexmit_timeout :: simtime
  fin_ack_rcvd :: bool
  send_fin :: bool
  snd_fin_seq :: u32
  fin_rcvd :: bool
  rcv_fin_seq :: u32
  sentBytes :: u32
  nagle_enabled :: bool
  delayed_acks_enabled :: bool
  limited_transmit_enabled :: bool
  increased_IW_enabled :: bool
  full_sized_segment_counter :: u32
  ack_now :: bool
  afterRto :: bool

record tcp_option_vars = tcp_vars +
  ws_support :: bool
  ws_enabled :: bool
  snd_ws :: bool
  rcv_ws :: bool
  rcv_wnd_scale :: u32
  snd_wnd_scale :: u32
  ts_support :: bool
  ts_enabled :: bool
  snd_initial_ts :: bool
  rcv_initial_ts :: bool
  ts_recent :: u32
  last_ack_sent :: u32
  time_last_data_sent :: simtime
  sack_support :: bool
  sack_enabled :: bool
  snd_sack_perm :: bool
  rcv_sack_perm :: bool
  start_seqno :: u32
  end_seqno :: u32
  snd_sack :: bool
  snd_dsack :: bool
  sacks_array :: "sack list"
  highRxt :: u32
  pipe :: u32
  recoveryPoint :: u32
  sackedBytes :: u32
  sackedBytes_old :: u32
  lossRecovery :: bool

text \<open>The rest of \<open>TCPStateVariables\<close>, then \<open>TCPBaseAlgStateVariables\<close> from \<open>rexmit_count\<close> and
  \<open>TCPTahoeRenoFamilyStateVariables\<close> from \<open>ssthresh\<close>.\<close>

record tcp_sv = tcp_option_vars +
  sendQueueLimit :: u32
  queueUpdate :: bool
  dupacks :: u32
  snd_sacks :: u32
  rcv_sacks :: u32
  rcv_oooseg :: u32
  rcv_naseg :: u32
  maxRcvBuffer :: u32
  usedRcvBuffer :: u32
  freeRcvBuffer :: u32
  tcpRcvQueueDrops :: u32
  maxRcvBufferChanged :: bool
  ecn :: bool
  ece :: bool
  rexmit_count :: int
  rexmit_timeout :: simtime
  persist_factor :: u32
  persist_timeout :: simtime
  snd_cwnd :: u32
  rtseq :: u32
  rtseq_sendtime :: simtime
  srtt :: simtime
  minrtt :: simtime
  lastrtt :: simtime
  rttvar :: simtime
  numRtos :: u32
  recover :: u32
  firstPartialACK :: bool
  ssthresh :: u32

text \<open>The constructors; \<open>ecn\<close> and \<open>ece\<close> are not initialised by the code, here they are false.\<close>

definition new_state_variables :: tcp_sv where
  "new_state_variables = \<lparr>
     active = False, fork = False, snd_mss = 0, snd_una = 0, snd_nxt = 0, snd_max = 0, snd_wnd = 0, snd_up = 0,
     snd_wl1 = 0, snd_wl2 = 0, iss = 0, rcv_nxt = 0, rcv_wnd = 0, rcv_up = 0, irs = 0, rcv_adv = 0,
     syn_rexmit_count = 0, syn_rexmit_timeout = 0, fin_ack_rcvd = False, send_fin = False, snd_fin_seq = 0,
     fin_rcvd = False, rcv_fin_seq = 0, sentBytes = 0, nagle_enabled = False, delayed_acks_enabled = False,
     limited_transmit_enabled = False, increased_IW_enabled = False, full_sized_segment_counter = 0,
     ack_now = False, afterRto = False,
     ws_support = False, ws_enabled = False, snd_ws = False, rcv_ws = False, rcv_wnd_scale = 0, snd_wnd_scale = 0,
     ts_support = False, ts_enabled = False, snd_initial_ts = False, rcv_initial_ts = False, ts_recent = 0,
     last_ack_sent = 0, time_last_data_sent = 0, sack_support = False, sack_enabled = False,
     snd_sack_perm = False, rcv_sack_perm = False, start_seqno = 0, end_seqno = 0, snd_sack = False,
     snd_dsack = False, sacks_array = [], highRxt = 0, pipe = 0, recoveryPoint = 0, sackedBytes = 0,
     sackedBytes_old = 0, lossRecovery = False,
     sendQueueLimit = 0, queueUpdate = True, dupacks = 0, snd_sacks = 0, rcv_sacks = 0, rcv_oooseg = 0,
     rcv_naseg = 0, maxRcvBuffer = 0, usedRcvBuffer = 0, freeRcvBuffer = 0, tcpRcvQueueDrops = 0,
     maxRcvBufferChanged = False, ecn = False, ece = False,
     rexmit_count = 0, rexmit_timeout = 3 * sec, persist_factor = 0, persist_timeout = 5 * sec, snd_cwnd = 0,
     rtseq = 0, rtseq_sendtime = 0, srtt = 0, minrtt = sec, lastrtt = 0, rttvar = 3 * sec div 4, numRtos = 0,
     recover = 0, firstPartialACK = False, ssthresh = 7500000\<rparr>"

section \<open>Timers\<close>

datatype timer = TimerNULL | TimerIdle | TimerAt simtime

definition isScheduled :: "timer \<Rightarrow> bool" where
  "isScheduled t = (case t of TimerAt _ \<Rightarrow> True | _ \<Rightarrow> False)"

definition scheduleAt :: "simtime \<Rightarrow> timer \<Rightarrow> timer res" where
  "scheduleAt at t =
     (case t of
        TimerNULL \<Rightarrow> Inl (NullPointer ''scheduleAt'')
      | TimerAt _ \<Rightarrow> Inl (RuntimeError ''scheduleAt: message is already scheduled'')
      | TimerIdle \<Rightarrow> Inr (TimerAt at))"

definition cancelTimer :: "timer \<Rightarrow> timer res" where
  "cancelTimer t = (case t of TimerNULL \<Rightarrow> Inl (NullPointer ''cancelEvent'') | _ \<Rightarrow> Inr TimerIdle)"

text \<open>\<open>if (timer) cancelEvent(timer)\<close>\<close>

definition cancelIfAny :: "timer \<Rightarrow> timer" where
  "cancelIfAny t = (case t of TimerNULL \<Rightarrow> TimerNULL | _ \<Rightarrow> TimerIdle)"

section \<open>The connection\<close>

text \<open>What a connection sends.  \<open>ToIP\<close> has the segment, its byte length, and the addresses.\<close>

datatype tcp_out =
    ToIP tcp_segment u64 ipvx ipvx
  | IndicationToApp tcp_ind int int
  | EstabIndicationToApp int ipvx ipvx int int
  | StatusToApp int tcp_state tcp_sv
  | DataToApp packet int

record conn =
  appGateIndex :: int
  connId :: int
  localAddr :: ipvx
  remoteAddr :: ipvx
  localPort :: int
  remotePort :: int
  fsm :: tcp_state
  st :: tcp_sv
  sendQueue :: snd_queue
  receiveQueue :: rcv_queue
  transferMode :: transfer_mode
  rexmitQ :: "rexmit_queue option"
  tcpAlgorithm :: flavour
  the2MSLTimer :: timer
  connEstabTimer :: timer
  finWait2Timer :: timer
  synRexmitTimer :: timer
  rexmitTimer :: timer
  persistTimer :: timer
  delayedAckTimer :: timer
  keepAliveTimer :: timer
  paceTimer :: timer
  rateUpdateTimer :: timer
  recordStatistics :: bool
  hasModule :: bool
  outs :: "tcp_out list"

record env =
  simTime :: simtime
  issOfTime :: u32
  simtimeToTS :: "simtime \<Rightarrow> u32"
  tsToSimtime :: "u32 \<Rightarrow> simtime"
  timesG :: "simtime \<Rightarrow> simtime"
  relayMark :: "(nat \<Rightarrow> packet \<Rightarrow> bool) option"

text \<open>
  The parameters of the module (\<open>par(...)\<close>), and the value that a member has before the code initialises it.
\<close>

record tcp_pars =
  par_advertisedWindow :: int
  par_windowScalingSupport :: bool
  par_delayedAcksEnabled :: bool
  par_nagleEnabled :: bool
  par_limitedTransmitEnabled :: bool
  par_increasedIWEnabled :: bool
  par_mss :: int
  par_timestampSupport :: bool
  par_sackSupport :: bool
  par_tcpAlgorithmClass :: flavour
  par_recordStats :: bool
  uninitialised :: u32

definition upd :: "(tcp_sv \<Rightarrow> tcp_sv) \<Rightarrow> conn \<Rightarrow> conn" where
  "upd f c = c\<lparr>st := f (st c)\<rparr>"

definition emit :: "tcp_out \<Rightarrow> conn \<Rightarrow> conn" where
  "emit x c = c\<lparr>outs := outs c @ [x]\<rparr>"

text \<open>Use of \<open>rexmitQueue\<close>, which may be NULL.\<close>

definition withRexmitQ :: "conn \<Rightarrow> (rexmit_queue \<Rightarrow> 'a res) \<Rightarrow> 'a res" where
  "withRexmitQ c f = (case rexmitQ c of None \<Rightarrow> Inl (NullPointer ''rexmitQueue'') | Some q \<Rightarrow> f q)"

definition setTimer :: "((timer \<Rightarrow> timer) \<Rightarrow> conn \<Rightarrow> conn) \<Rightarrow> timer res \<Rightarrow> conn \<Rightarrow> conn res" where
  "setTimer u r c = mapE (\<lambda>t. u (\<lambda>_. t) c) r"

lemma st_upd [simp]: "st (upd f c) = f (st c)"
  by (simp add: upd_def)

lemma conn_upd [simp]:
  "fsm (upd f c) = fsm c" "sendQueue (upd f c) = sendQueue c" "receiveQueue (upd f c) = receiveQueue c"
  "rexmitQ (upd f c) = rexmitQ c" "outs (upd f c) = outs c" "rexmitTimer (upd f c) = rexmitTimer c"
  "persistTimer (upd f c) = persistTimer c" "delayedAckTimer (upd f c) = delayedAckTimer c"
  "connEstabTimer (upd f c) = connEstabTimer c" "synRexmitTimer (upd f c) = synRexmitTimer c"
  "the2MSLTimer (upd f c) = the2MSLTimer c" "finWait2Timer (upd f c) = finWait2Timer c"
  "keepAliveTimer (upd f c) = keepAliveTimer c" "paceTimer (upd f c) = paceTimer c"
  "rateUpdateTimer (upd f c) = rateUpdateTimer c" "localAddr (upd f c) = localAddr c"
  "remoteAddr (upd f c) = remoteAddr c" "localPort (upd f c) = localPort c" "remotePort (upd f c) = remotePort c"
  "connId (upd f c) = connId c" "tcpAlgorithm (upd f c) = tcpAlgorithm c"
  "hasModule (upd f c) = hasModule c" "recordStatistics (upd f c) = recordStatistics c" "transferMode (upd f c) = transferMode c"
  "appGateIndex (upd f c) = appGateIndex c"
  by (simp_all add: upd_def)

lemma conn_emit [simp]:
  "st (emit x c) = st c" "outs (emit x c) = outs c @ [x]" "fsm (emit x c) = fsm c"
  "sendQueue (emit x c) = sendQueue c" "receiveQueue (emit x c) = receiveQueue c" "rexmitQ (emit x c) = rexmitQ c"
  "rexmitTimer (emit x c) = rexmitTimer c" "persistTimer (emit x c) = persistTimer c"
  "delayedAckTimer (emit x c) = delayedAckTimer c" "connEstabTimer (emit x c) = connEstabTimer c"
  "synRexmitTimer (emit x c) = synRexmitTimer c" "the2MSLTimer (emit x c) = the2MSLTimer c"
  "finWait2Timer (emit x c) = finWait2Timer c" "keepAliveTimer (emit x c) = keepAliveTimer c"
  "paceTimer (emit x c) = paceTimer c" "rateUpdateTimer (emit x c) = rateUpdateTimer c"
  "localAddr (emit x c) = localAddr c" "remoteAddr (emit x c) = remoteAddr c" "localPort (emit x c) = localPort c"
  "remotePort (emit x c) = remotePort c" "connId (emit x c) = connId c" "tcpAlgorithm (emit x c) = tcpAlgorithm c"
  "hasModule (emit x c) = hasModule c" "recordStatistics (emit x c) = recordStatistics c" "transferMode (emit x c) = transferMode c"
  "appGateIndex (emit x c) = appGateIndex c"
  by (simp_all add: emit_def)

end
