(* ===== verification/Tcp_Options.thy ===== *)
theory Tcp_Options
  imports Tcp_State
begin

text \<open>
  TCP header options and the windows: \<open>readHeaderOptions\<close> with the \<open>process*Option\<close> functions,
  \<open>writeHeaderOptions\<close>, \<open>getTSval\<close>, \<open>getTSecr\<close>, \<open>updateRcvQueueVars\<close>, \<open>updateRcvWnd\<close>, \<open>updateWndInfo\<close>
  and \<open>isSegmentAcceptable\<close> of \<open>src/transport/tcp/TCPConnectionUtil.cc\<close>, and \<open>processSACKOption\<close> and
  \<open>addSacks\<close> of \<open>TCPConnectionSackUtil.cc\<close>.

  A function of the code that changes the segment it is given returns the changed segment.
\<close>

section \<open>Windows\<close>

definition updateRcvQueueVars :: "conn \<Rightarrow> conn" where
  "updateRcvQueueVars c =
     upd (\<lambda>s. let free = rcv_getAmountOfFreeBytes (maxRcvBuffer s) (receiveQueue c)
              in s\<lparr>freeRcvBuffer := free, usedRcvBuffer := maxRcvBuffer s - free\<rparr>) c"

text \<open>The loop that halves a window until it fits into 16 bits, at most 14 times: (window, scale).\<close>

function scale_window :: "u32 \<Rightarrow> u32 \<Rightarrow> u32 \<times> u32" where
  "scale_window wnd scale =
     (if TCP_MAX_WIN < wnd \<and> scale < 14 then scale_window (drop_bit 1 wnd) (scale + 1) else (wnd, scale))"
  by auto
termination
proof (relation "measure (\<lambda>(wnd, scale). 14 - unat scale)")
  fix wnd scale :: u32
  assume "TCP_MAX_WIN < wnd \<and> scale < 14"
  then have "unat scale < 14" by (simp add: word_less_nat_alt)
  moreover from this have "unat (scale + 1) = unat scale + 1" using unat_plus_small[of scale 1] by simp
  ultimately show "((drop_bit 1 wnd, scale + 1), wnd, scale) \<in> measure (\<lambda>(wnd, scale). 14 - unat scale)"
    by simp
qed simp

declare scale_window.simps [simp del]

definition rcv_window_value :: "tcp_sv \<Rightarrow> u32" where
  "rcv_window_value s =
     (let win = freeRcvBuffer s;
          win1 = (if win < maxRcvBuffer s div 4 \<and> win < snd_mss s then 0 else win)
      in if TCP_MAX_WIN < win1 \<and> \<not> ws_enabled s then TCP_MAX_WIN else win1)"

definition updateRcvWnd :: "conn \<Rightarrow> (u16 \<times> conn) res" where
  "updateRcvWnd c =
     (let c1 = updateRcvQueueVars c;
          win = rcv_window_value (st c1);
          c2 = upd (\<lambda>s. if 0 < win \<and> seqGE (rcv_nxt s + win) (rcv_adv s) then s\<lparr>rcv_adv := rcv_nxt s + win\<rparr> else s) c1;
          (scaled, scale) = (if ws_enabled (st c1) then scale_window win 0 else (win, 0));
          c3 = upd (\<lambda>s. s\<lparr>rcv_wnd := win, rcv_wnd_scale := scale\<rparr>) c2
      in assertE (scaled = ucast (ucast scaled :: u16)) ''updateRcvWnd: window fits in 16 bits'' (Inr (ucast scaled, c3)))"

definition updateWndInfo :: "tcp_segment \<Rightarrow> bool \<Rightarrow> conn \<Rightarrow> conn" where
  "updateWndInfo tcpseg doAlways c =
     upd (\<lambda>s. let true_window = (if ws_enabled s \<and> \<not> synBit tcpseg
                                   then push_bit (unat (snd_wnd_scale s)) (ucast (window tcpseg)) else ucast (window tcpseg))
              in if doAlways \<or> (ackBit tcpseg
                    \<and> (seqLess (snd_wl1 s) (sequenceNo tcpseg)
                      \<or> (snd_wl1 s = sequenceNo tcpseg \<and> seqLE (snd_wl2 s) (ackNo tcpseg))
                      \<or> (snd_wl2 s = ackNo tcpseg \<and> snd_wnd s < true_window)))
                 then s\<lparr>snd_wnd := true_window, snd_wl1 := sequenceNo tcpseg, snd_wl2 := ackNo tcpseg\<rparr>
                 else s) c"

definition isSegmentAcceptable :: "tcp_segment \<Rightarrow> conn \<Rightarrow> bool" where
  "isSegmentAcceptable tcpseg c =
     (let s = st c;
          len = ucast (payloadLength tcpseg);
          seqNo = sequenceNo tcpseg;
          ackNo = ackNo tcpseg;
          rcvWndEnd = rcv_nxt s + rcv_wnd s;
          ret = (if len = 0
                 then (if rcv_wnd s = 0 then seqNo = rcv_nxt s
                       else seqLE (rcv_nxt s) seqNo \<and> seqLE seqNo rcvWndEnd)
                 else (if rcv_wnd s = 0 then False
                       else (seqLE (rcv_nxt s) seqNo \<and> seqLess seqNo rcvWndEnd)
                         \<or> (seqLess (rcv_nxt s) (seqNo + len) \<and> seqLE (seqNo + len) rcvWndEnd)))
      in if \<not> ret \<and> len = 0
         then (if \<not> afterRto s then seqLess (snd_una s) ackNo \<and> seqLE ackNo (snd_nxt s)
               else seqLess (snd_una s) ackNo \<and> seqLE ackNo (snd_max s))
         else ret)"

section \<open>Reading options\<close>

definition processMSSOption :: "tcp_option \<Rightarrow> conn \<Rightarrow> conn res" where
  "processMSSOption opt c =
     (if opt_length opt \<noteq> 4 then Inr c
      else if fsm c \<noteq> TCP_S_LISTEN \<and> fsm c \<noteq> TCP_S_SYN_SENT then Inr c
      else (case opt_values opt of
              [] \<Rightarrow> Inl (RuntimeError ''TCPOption for MSS does not contain the data its getLength() promises'')
            | v # _ \<Rightarrow>
                Inr (upd (\<lambda>s. let m = min (snd_mss s) v in s\<lparr>snd_mss := (if m = 0 then 536 else m)\<rparr>) c)))"

definition processWSOption :: "tcp_option \<Rightarrow> conn \<Rightarrow> conn res" where
  "processWSOption opt c =
     (if opt_length opt \<noteq> 3 then Inr c
      else (case opt_values opt of
              [] \<Rightarrow> Inl (RuntimeError ''TCPOption for WS does not contain the data its getLength() promises'')
            | v # _ \<Rightarrow>
                Inr (upd (\<lambda>s. s\<lparr>rcv_ws := True, ws_enabled := ws_support s \<and> snd_ws s,
                                  snd_wnd_scale := (if 14 < v then 14 else v)\<rparr>) c)))"

definition processTSOption :: "tcp_segment \<Rightarrow> tcp_option \<Rightarrow> conn \<Rightarrow> conn res" where
  "processTSOption tcpseg opt c =
     (let s = st c in
      if opt_length opt \<noteq> 10 then Inr c
      else if (\<not> ts_enabled s \<and> fsm c \<noteq> TCP_S_LISTEN \<and> fsm c \<noteq> TCP_S_SYN_SENT)
           \<or> (ts_enabled s \<and> fsm c \<noteq> TCP_S_SYN_RCVD \<and> fsm c \<noteq> TCP_S_ESTABLISHED
                \<and> fsm c \<noteq> TCP_S_FIN_WAIT_1 \<and> fsm c \<noteq> TCP_S_FIN_WAIT_2)
      then Inr c
      else (case opt_values opt of
              [tsval, tsecr] \<Rightarrow>
                (let s1 = (if \<not> ts_enabled s
                           then s\<lparr>rcv_initial_ts := True, ts_enabled := ts_support s \<and> snd_initial_ts s\<rparr> else s);
                     s2 = (if ts_enabled s1
                           then (if seqLess tsval (ts_recent s1) then s1
                                 else if seqLE (sequenceNo tcpseg) (last_ack_sent s1) then s1\<lparr>ts_recent := tsval\<rparr>
                                 else s1)
                           else s1)
                 in Inr (c\<lparr>st := s2\<rparr>))
            | _ \<Rightarrow> Inl (RuntimeError ''TCPOption for TS does not contain the data its getLength() promises'')))"

definition processSACKPermittedOption :: "tcp_option \<Rightarrow> conn \<Rightarrow> conn res" where
  "processSACKPermittedOption opt c =
     (if opt_length opt \<noteq> 2 then Inr c
      else if fsm c \<noteq> TCP_S_LISTEN \<and> fsm c \<noteq> TCP_S_SYN_SENT then Inr c
      else Inr (upd (\<lambda>s. s\<lparr>rcv_sack_perm := True, sack_enabled := sack_support s \<and> snd_sack_perm s\<rparr>) c))"

text \<open>
  The loop over the SACK blocks of an option; the reports of duplicate SACKs are only logged.
\<close>

fun apply_sacks :: "u32 \<Rightarrow> u32 \<Rightarrow> u32 list \<Rightarrow> rexmit_queue \<Rightarrow> rexmit_queue res" where
  "apply_sacks ack una (s # e # vs) q =
     bindE (if seqGreater e ack \<and> seqGreater e una then rq_setSackedBit s e q else Inr q) (apply_sacks ack una vs)"
| "apply_sacks ack una _ q = Inr q"

definition processSACKOption :: "tcp_segment \<Rightarrow> tcp_option \<Rightarrow> conn \<Rightarrow> conn res" where
  "processSACKOption tcpseg opt c =
     (let n = length (opt_values opt) div 2 in
      if opt_length opt mod 8 \<noteq> 2 then Inr c
      else if \<not> sack_enabled (st c) then Inr c
      else if fsm c \<noteq> TCP_S_SYN_RCVD \<and> fsm c \<noteq> TCP_S_ESTABLISHED \<and> fsm c \<noteq> TCP_S_FIN_WAIT_1 \<and> fsm c \<noteq> TCP_S_FIN_WAIT_2
      then Inr c
      else if 0 < n
      then withRexmitQ c (\<lambda>q.
             mapE (\<lambda>q'. upd (\<lambda>s. s\<lparr>rcv_sacks := rcv_sacks s + of_nat n, sackedBytes_old := sackedBytes s,
                                    sackedBytes := rq_getTotalAmountOfSackedBytes q'\<rparr>) (c\<lparr>rexmitQ := Some q'\<rparr>))
               (apply_sacks (ackNo tcpseg) (snd_una (st c)) (opt_values opt) q))
      else Inr c)"

definition processOption :: "tcp_segment \<Rightarrow> tcp_option \<Rightarrow> conn \<Rightarrow> conn res" where
  "processOption tcpseg opt c =
     (case opt_kind opt of
        TCPOPTION_MAXIMUM_SEGMENT_SIZE \<Rightarrow> processMSSOption opt c
      | TCPOPTION_WINDOW_SCALE \<Rightarrow> processWSOption opt c
      | TCPOPTION_SACK_PERMITTED \<Rightarrow> processSACKPermittedOption opt c
      | TCPOPTION_SACK \<Rightarrow> processSACKOption tcpseg opt c
      | TCPOPTION_TIMESTAMP \<Rightarrow> processTSOption tcpseg opt c
      | _ \<Rightarrow> Inr c)"

primrec process_options :: "tcp_segment \<Rightarrow> tcp_option list \<Rightarrow> conn \<Rightarrow> conn res" where
  "process_options tcpseg [] c = Inr c"
| "process_options tcpseg (opt # opts) c = bindE (processOption tcpseg opt c) (process_options tcpseg opts)"

definition readHeaderOptions :: "tcp_segment \<Rightarrow> conn \<Rightarrow> conn res" where
  "readHeaderOptions tcpseg c = process_options tcpseg (options tcpseg) c"

text \<open>\<open>getValues(k)\<close> out of range throws.\<close>

definition getTS :: "nat \<Rightarrow> tcp_segment \<Rightarrow> u32 res" where
  "getTS k tcpseg =
     (case find (\<lambda>opt. opt_kind opt = TCPOPTION_TIMESTAMP) (options tcpseg) of
        None \<Rightarrow> Inr 0
      | Some opt \<Rightarrow> if k < length (opt_values opt) then Inr (opt_values opt ! k) else Inl (RuntimeError ''Array index out of range''))"

definition getTSval :: "tcp_segment \<Rightarrow> u32 res" where
  "getTSval = getTS 0"

definition getTSecr :: "tcp_segment \<Rightarrow> u32 res" where
  "getTSecr = getTS 1"

section \<open>Writing options\<close>

definition addOption :: "option_kind \<Rightarrow> u16 \<Rightarrow> u32 list \<Rightarrow> tcp_segment \<Rightarrow> tcp_segment" where
  "addOption k len vals seg = seg\<lparr>options := options seg @ [\<lparr>opt_kind = k, opt_length = len, opt_values = vals\<rparr>]\<rparr>"

definition addNOPs :: "nat \<Rightarrow> tcp_segment \<Rightarrow> tcp_segment" where
  "addNOPs n = (addOption TCPOPTION_NO_OPERATION 1 [] ^^ n)"

definition syn_rexmit :: "conn \<Rightarrow> bool" where
  "syn_rexmit c \<longleftrightarrow> fsm c = TCP_S_INIT \<or> (fsm c = TCP_S_SYN_SENT \<and> 0 < syn_rexmit_count (st c))"

definition writeMSS :: "tcp_segment \<times> conn \<Rightarrow> tcp_segment \<times> conn" where
  "writeMSS = (\<lambda>(seg, c).
     if 0 < snd_mss (st c) then (addOption TCPOPTION_MAXIMUM_SEGMENT_SIZE 4 [snd_mss (st c)] seg, c) else (seg, c))"

text \<open>The window scale option, which two places write.\<close>

definition writeWS :: "tcp_segment \<times> conn \<Rightarrow> tcp_segment \<times> conn" where
  "writeWS = (\<lambda>(seg, c).
     let scale = snd (scale_window (rcv_getFirstSeqNo (receiveQueue c) + maxRcvBuffer (st c) - rcv_nxt (st c)) 0)
     in (addOption TCPOPTION_WINDOW_SCALE 3 [scale] (addNOPs 1 seg),
         upd (\<lambda>s. s\<lparr>rcv_wnd_scale := scale, snd_ws := True, ws_enabled := ws_support s \<and> rcv_ws s\<rparr>) c))"

definition writeSackPermitted :: "tcp_segment \<times> conn \<Rightarrow> tcp_segment \<times> conn" where
  "writeSackPermitted = (\<lambda>(seg, c).
     (addOption TCPOPTION_SACK_PERMITTED 2 [] (if \<not> ts_support (st c) then addNOPs 2 seg else seg),
      upd (\<lambda>s. s\<lparr>snd_sack_perm := True, sack_enabled := sack_support s \<and> rcv_sack_perm s\<rparr>) c))"

definition writeTS :: "env \<Rightarrow> conn \<Rightarrow> tcp_segment \<Rightarrow> tcp_segment" where
  "writeTS en c seg =
     addOption TCPOPTION_TIMESTAMP 10 [simtimeToTS en (simTime en), if ackBit seg then ts_recent (st c) else 0] seg"

definition writeSynOptions :: "env \<Rightarrow> tcp_segment \<times> conn \<Rightarrow> tcp_segment \<times> conn" where
  "writeSynOptions en sc0 =
     (let sc1 = writeMSS sc0;
          c1 = snd sc1;
          sc2 = (if ws_support (st c1) \<and> (rcv_ws (st c1) \<or> syn_rexmit c1) then writeWS sc1 else sc1);
          c2 = snd sc2;
          sc3 = (if sack_support (st c2) \<and> (rcv_sack_perm (st c2) \<or> syn_rexmit c2) then writeSackPermitted sc2 else sc2);
          c3 = snd sc3
      in if ts_support (st c3) \<and> (rcv_initial_ts (st c3) \<or> syn_rexmit c3)
         then (writeTS en c3 (if \<not> sack_support (st c3) then addNOPs 2 (fst sc3) else fst sc3),
               upd (\<lambda>s. s\<lparr>snd_initial_ts := True, ts_enabled := ts_support s \<and> rcv_initial_ts s\<rparr>) c3)
         else sc3)"

text \<open>\<open>addSacks\<close>\<close>

fun purge_sacks :: "u32 \<Rightarrow> sack list \<Rightarrow> sack list res" where
  "purge_sacks nxt [] = Inr []"
| "purge_sacks nxt (s # ss) =
     (if seqLE (sack_end s) nxt \<or> sack_empty s then purge_sacks nxt ss
      else assertE (seqGE (sack_start s) nxt) ''addSacks: start >= rcv_nxt'' (mapE (Cons s) (purge_sacks nxt ss)))"

function remove_contained :: "sack list \<Rightarrow> sack list res" where
  "remove_contained [] = Inr []"
| "remove_contained (s # ss) =
     assertE (\<not> sack_empty s) ''addSacks: not empty''
       (mapE (Cons s) (remove_contained (filter (\<lambda>t. \<not> sack_contains s t) ss)))"
  by pat_completeness auto
termination
  by (relation "measure length") (auto simp: le_imp_less_Suc)

definition resetSackFlags :: "conn \<Rightarrow> conn" where
  "resetSackFlags = upd (\<lambda>s. s\<lparr>snd_sack := False, snd_dsack := False, start_seqno := 0, end_seqno := 0\<rparr>)"

definition new_sacks :: "conn \<Rightarrow> sack list \<Rightarrow> (bool \<times> sack list) res" where
  "new_sacks c sacks =
     (let s = st c; start = start_seqno s; e = end_seqno s in
      if start \<noteq> e
      then (if snd_dsack s
            then (let e' = (if seqLess start (rcv_nxt s) \<and> seqLess (rcv_nxt s) e then rcv_nxt s else e)
                  in mapE (\<lambda>ss. (True, mk_sack start e' # ss)) (remove_contained sacks))
            else mapE (Pair False)
                   (remove_contained (mk_sack (rcv_getLE start (receiveQueue c)) (rcv_getRE e (receiveQueue c)) # sacks)))
      else Inr (False, sacks))"

text \<open>\<open>sack_padding\<close>: the NOPs that the loop adds until the length is 2 modulo 4.\<close>

definition sack_padding :: "u32 \<Rightarrow> u32" where
  "sack_padding used = (6 - used mod 4) mod 4"

definition addSacks :: "tcp_segment \<Rightarrow> conn \<Rightarrow> (tcp_segment \<times> conn) res" where
  "addSacks tcpseg c =
     (let used = ucast (getOptionsArrayLength tcpseg) :: u32 in
      bindE (purge_sacks (rcv_nxt (st c)) (sacks_array (st c))) (\<lambda>sacks.
      if TCP_OPTIONS_MAX_SIZE - TCP_OPTION_SACK_MIN_SIZE < used
      then Inr (tcpseg, resetSackFlags (upd (\<lambda>s. s\<lparr>sacks_array := sacks\<rparr>) c))
      else bindE (new_sacks c sacks) (\<lambda>(dsack_inserted, sacks1).
        let maxnode = unat ((TCP_OPTIONS_MAX_SIZE - used - 2) div 8);
            n = min (length sacks1) maxnode;
            sacks2 = (if dsack_inserted then tl sacks1 else sacks1);
            c1 = upd (\<lambda>s. s\<lparr>sacks_array := sacks2\<rparr>) c
        in if n = 0 then Inr (tcpseg, resetSackFlags c1)
           else (let pad = sack_padding used;
                     blocks = take n sacks1
                 in assertE (\<forall>b \<in> set blocks. sack_start b \<noteq> sack_end b) ''addSacks: start != end''
                     (assertE (used + pad + 8 * of_nat n + 2 \<le> TCP_OPTIONS_MAX_SIZE) ''addSacks: options_len''
                       (Inr (addOption TCPOPTION_SACK (8 * of_nat n + 2) (concat (map (\<lambda>b. [sack_start b, sack_end b]) blocks))
                               (addNOPs (unat pad) tcpseg),
                             resetSackFlags (upd (\<lambda>s. s\<lparr>snd_sacks := snd_sacks s + of_nat n\<rparr>) c1))))))))"

definition writeDataOptions :: "env \<Rightarrow> tcp_segment \<times> conn \<Rightarrow> (tcp_segment \<times> conn) res" where
  "writeDataOptions en = (\<lambda>(seg, c).
     let sacks_due = (sack_enabled (st c) \<and> (snd_sack (st c) \<or> snd_dsack (st c)));
         seg1 = (if ts_enabled (st c) then writeTS en c (if \<not> sacks_due then addNOPs 2 seg else seg) else seg)
     in if sacks_due then addSacks seg1 c else Inr (seg1, c))"

definition writeHeaderOptions :: "env \<Rightarrow> tcp_segment \<Rightarrow> conn \<Rightarrow> (tcp_segment \<times> conn) res" where
  "writeHeaderOptions en tcpseg c =
     bindE (if synBit tcpseg \<and> (fsm c = TCP_S_INIT \<or> fsm c = TCP_S_LISTEN
                 \<or> ((fsm c = TCP_S_SYN_SENT \<or> fsm c = TCP_S_SYN_RCVD) \<and> 0 < syn_rexmit_count (st c)))
            then Inr (writeSynOptions en (tcpseg, c))
            else if fsm c \<in> {TCP_S_SYN_SENT, TCP_S_SYN_RCVD, TCP_S_ESTABLISHED, TCP_S_FIN_WAIT_1, TCP_S_FIN_WAIT_2}
            then writeDataOptions en (tcpseg, c)
            else Inr (tcpseg, c)) (\<lambda>sc1.
       let (seg2, c2) = (if maxRcvBufferChanged (st (snd sc1))
                         then (let sc = (if ws_support (st (snd sc1)) then writeWS sc1 else sc1)
                               in (fst sc, upd (\<lambda>s. s\<lparr>maxRcvBufferChanged := False\<rparr>) (snd sc)))
                         else sc1);
           len = ucast (getOptionsArrayLength seg2) :: u32
       in Inr (if options seg2 \<noteq> []
               then (if len \<le> TCP_OPTIONS_MAX_SIZE
                     then seg2\<lparr>headerLength := TCP_HEADER_OCTETS + ucast len\<rparr>
                     else seg2\<lparr>headerLength := TCP_HEADER_OCTETS, options := []\<rparr>, c2)
               else (seg2, c2)))"

end
