(* ===== verification/Tcp_Fsm.thy ===== *)
theory Tcp_Fsm
  imports Tcp_State
begin

text \<open>
  The TCP state machine: \<open>performStateTransition\<close> and \<open>stateEntered\<close> of
  \<open>src/transport/tcp/TCPConnectionBase.cc\<close>, with \<open>connectionClosed\<close> of \<open>TCPBaseAlg.cc\<close> and the
  indications to the application of \<open>TCPConnectionUtil.cc\<close>.

  \<open>next_state\<close> is the switch of \<open>performStateTransition\<close>, \<open>stateEntered\<close> the actions on entering a
  state.  The second half gives the machine as a step relation and proves which paths exist:
  the graph of RFC 793 without what this implementation leaves out.
\<close>

section \<open>Indications to the application\<close>

definition sendIndicationToApp :: "tcp_ind \<Rightarrow> int \<Rightarrow> conn \<Rightarrow> conn" where
  "sendIndicationToApp code i c = emit (IndicationToApp code (connId c) i) c"

definition sendEstabIndicationToApp :: "conn \<Rightarrow> conn" where
  "sendEstabIndicationToApp c =
     emit (EstabIndicationToApp (connId c) (localAddr c) (remoteAddr c) (localPort c) (remotePort c)) c"

definition signalConnectionTimeout :: "conn \<Rightarrow> conn" where
  "signalConnectionTimeout c = sendIndicationToApp TCP_I_TIMED_OUT 0 c"

section \<open>The state machine\<close>

definition preanalyseAppCommandEvent :: "int \<Rightarrow> tcp_event res" where
  "preanalyseAppCommandEvent commandCode =
     (if commandCode = 1 then Inr TCP_E_OPEN_ACTIVE
      else if commandCode = 2 then Inr TCP_E_OPEN_PASSIVE
      else if commandCode = 3 then Inr TCP_E_SEND
      else if commandCode = 5 then Inr TCP_E_CLOSE
      else if commandCode = 6 then Inr TCP_E_ABORT
      else if commandCode = 7 then Inr TCP_E_STATUS
      else if commandCode = 8 then Inr TCP_E_QUEUE_BYTES_LIMIT
      else Inl (RuntimeError ''Unknown message kind in app command''))"

text \<open>The switch over state and event; \<open>act\<close> is \<open>state->active\<close>.\<close>

definition next_state :: "bool \<Rightarrow> tcp_state \<Rightarrow> tcp_event \<Rightarrow> tcp_state" where
  "next_state act s e =
     (case s of
        TCP_S_INIT \<Rightarrow>
          (case e of
             TCP_E_OPEN_PASSIVE \<Rightarrow> TCP_S_LISTEN
           | TCP_E_OPEN_ACTIVE \<Rightarrow> TCP_S_SYN_SENT
           | _ \<Rightarrow> s)
      | TCP_S_LISTEN \<Rightarrow>
          (case e of
             TCP_E_OPEN_ACTIVE \<Rightarrow> TCP_S_SYN_SENT
           | TCP_E_SEND \<Rightarrow> TCP_S_SYN_SENT
           | TCP_E_CLOSE \<Rightarrow> TCP_S_CLOSED
           | TCP_E_ABORT \<Rightarrow> TCP_S_CLOSED
           | TCP_E_RCV_SYN \<Rightarrow> TCP_S_SYN_RCVD
           | _ \<Rightarrow> s)
      | TCP_S_SYN_RCVD \<Rightarrow>
          (case e of
             TCP_E_CLOSE \<Rightarrow> TCP_S_FIN_WAIT_1
           | TCP_E_ABORT \<Rightarrow> TCP_S_CLOSED
           | TCP_E_TIMEOUT_CONN_ESTAB \<Rightarrow> (if act then TCP_S_CLOSED else TCP_S_LISTEN)
           | TCP_E_RCV_RST \<Rightarrow> (if act then TCP_S_CLOSED else TCP_S_LISTEN)
           | TCP_E_RCV_ACK \<Rightarrow> TCP_S_ESTABLISHED
           | TCP_E_RCV_FIN \<Rightarrow> TCP_S_CLOSE_WAIT
           | TCP_E_RCV_UNEXP_SYN \<Rightarrow> TCP_S_CLOSED
           | _ \<Rightarrow> s)
      | TCP_S_SYN_SENT \<Rightarrow>
          (case e of
             TCP_E_CLOSE \<Rightarrow> TCP_S_CLOSED
           | TCP_E_ABORT \<Rightarrow> TCP_S_CLOSED
           | TCP_E_TIMEOUT_CONN_ESTAB \<Rightarrow> TCP_S_CLOSED
           | TCP_E_RCV_RST \<Rightarrow> TCP_S_CLOSED
           | TCP_E_RCV_SYN_ACK \<Rightarrow> TCP_S_ESTABLISHED
           | TCP_E_RCV_SYN \<Rightarrow> TCP_S_SYN_RCVD
           | _ \<Rightarrow> s)
      | TCP_S_ESTABLISHED \<Rightarrow>
          (case e of
             TCP_E_CLOSE \<Rightarrow> TCP_S_FIN_WAIT_1
           | TCP_E_ABORT \<Rightarrow> TCP_S_CLOSED
           | TCP_E_RCV_FIN \<Rightarrow> TCP_S_CLOSE_WAIT
           | TCP_E_RCV_RST \<Rightarrow> TCP_S_CLOSED
           | TCP_E_RCV_UNEXP_SYN \<Rightarrow> TCP_S_CLOSED
           | _ \<Rightarrow> s)
      | TCP_S_CLOSE_WAIT \<Rightarrow>
          (case e of
             TCP_E_CLOSE \<Rightarrow> TCP_S_LAST_ACK
           | TCP_E_ABORT \<Rightarrow> TCP_S_CLOSED
           | TCP_E_RCV_RST \<Rightarrow> TCP_S_CLOSED
           | TCP_E_RCV_UNEXP_SYN \<Rightarrow> TCP_S_CLOSED
           | _ \<Rightarrow> s)
      | TCP_S_LAST_ACK \<Rightarrow>
          (case e of
             TCP_E_ABORT \<Rightarrow> TCP_S_CLOSED
           | TCP_E_RCV_ACK \<Rightarrow> TCP_S_CLOSED
           | TCP_E_RCV_RST \<Rightarrow> TCP_S_CLOSED
           | TCP_E_RCV_UNEXP_SYN \<Rightarrow> TCP_S_CLOSED
           | _ \<Rightarrow> s)
      | TCP_S_FIN_WAIT_1 \<Rightarrow>
          (case e of
             TCP_E_ABORT \<Rightarrow> TCP_S_CLOSED
           | TCP_E_RCV_FIN \<Rightarrow> TCP_S_CLOSING
           | TCP_E_RCV_ACK \<Rightarrow> TCP_S_FIN_WAIT_2
           | TCP_E_RCV_FIN_ACK \<Rightarrow> TCP_S_TIME_WAIT
           | TCP_E_RCV_RST \<Rightarrow> TCP_S_CLOSED
           | TCP_E_RCV_UNEXP_SYN \<Rightarrow> TCP_S_CLOSED
           | _ \<Rightarrow> s)
      | TCP_S_FIN_WAIT_2 \<Rightarrow>
          (case e of
             TCP_E_ABORT \<Rightarrow> TCP_S_CLOSED
           | TCP_E_RCV_FIN \<Rightarrow> TCP_S_TIME_WAIT
           | TCP_E_TIMEOUT_FIN_WAIT_2 \<Rightarrow> TCP_S_CLOSED
           | TCP_E_RCV_RST \<Rightarrow> TCP_S_CLOSED
           | TCP_E_RCV_UNEXP_SYN \<Rightarrow> TCP_S_CLOSED
           | _ \<Rightarrow> s)
      | TCP_S_CLOSING \<Rightarrow>
          (case e of
             TCP_E_ABORT \<Rightarrow> TCP_S_CLOSED
           | TCP_E_RCV_ACK \<Rightarrow> TCP_S_TIME_WAIT
           | TCP_E_RCV_RST \<Rightarrow> TCP_S_CLOSED
           | TCP_E_RCV_UNEXP_SYN \<Rightarrow> TCP_S_CLOSED
           | _ \<Rightarrow> s)
      | TCP_S_TIME_WAIT \<Rightarrow>
          (case e of
             TCP_E_ABORT \<Rightarrow> TCP_S_CLOSED
           | TCP_E_TIMEOUT_2MSL \<Rightarrow> TCP_S_CLOSED
           | TCP_E_RCV_RST \<Rightarrow> TCP_S_CLOSED
           | TCP_E_RCV_UNEXP_SYN \<Rightarrow> TCP_S_CLOSED
           | _ \<Rightarrow> s)
      | TCP_S_CLOSED \<Rightarrow> s)"

text \<open>\<open>TCPBaseAlg::connectionClosed\<close>\<close>

definition connectionClosed :: "conn \<Rightarrow> conn res" where
  "connectionClosed c =
     bindE (setTimer rexmitTimer_update (cancelTimer (rexmitTimer c)) c) (\<lambda>c.
     bindE (setTimer persistTimer_update (cancelTimer (persistTimer c)) c) (\<lambda>c.
     bindE (setTimer delayedAckTimer_update (cancelTimer (delayedAckTimer c)) c) (\<lambda>c.
     bindE (setTimer keepAliveTimer_update (cancelTimer (keepAliveTimer c)) c) (\<lambda>c.
     bindE (setTimer paceTimer_update (cancelTimer (paceTimer c)) c) (\<lambda>c.
     setTimer rateUpdateTimer_update (cancelTimer (rateUpdateTimer c)) c)))))"

definition stateEntered :: "tcp_state \<Rightarrow> tcp_state \<Rightarrow> tcp_event \<Rightarrow> conn \<Rightarrow> conn res" where
  "stateEntered s oldState e c =
     (case s of
        TCP_S_INIT \<Rightarrow> Inr c
      | TCP_S_LISTEN \<Rightarrow>
          assertE (connEstabTimer c \<noteq> TimerNULL \<and> synRexmitTimer c \<noteq> TimerNULL) ''stateEntered: timers''
           (bindE (setTimer connEstabTimer_update (cancelTimer (connEstabTimer c)) c) (\<lambda>c.
              setTimer synRexmitTimer_update (cancelTimer (synRexmitTimer c)) c))
      | TCP_S_SYN_RCVD \<Rightarrow> Inr c
      | TCP_S_SYN_SENT \<Rightarrow> Inr c
      | TCP_S_ESTABLISHED \<Rightarrow>
          bindE (setTimer connEstabTimer_update (cancelTimer (connEstabTimer c)) c) (\<lambda>c.
          bindE (setTimer synRexmitTimer_update (cancelTimer (synRexmitTimer c)) c) (\<lambda>c.
            Inr (c\<lparr>connEstabTimer := TimerNULL, synRexmitTimer := TimerNULL\<rparr>)))
      | TCP_S_TIME_WAIT \<Rightarrow> Inr (sendIndicationToApp TCP_I_CLOSED 0 c)
      | TCP_S_CLOSED \<Rightarrow>
          (let c1 = (if oldState \<noteq> TCP_S_TIME_WAIT \<and> e \<noteq> TCP_E_ABORT then sendIndicationToApp TCP_I_CLOSED 0 c else c)
           in connectionClosed (c1\<lparr>the2MSLTimer := cancelIfAny (the2MSLTimer c1),
                connEstabTimer := cancelIfAny (connEstabTimer c1), finWait2Timer := cancelIfAny (finWait2Timer c1),
                synRexmitTimer := cancelIfAny (synRexmitTimer c1)\<rparr>))
      | _ \<Rightarrow>
          (let c1 = (if s = TCP_S_CLOSE_WAIT then sendIndicationToApp TCP_I_PEER_CLOSED 0 c else c)
           in Inr (c1\<lparr>connEstabTimer := cancelIfAny (connEstabTimer c1), synRexmitTimer := cancelIfAny (synRexmitTimer c1)\<rparr>)))"

text \<open>The result is false when the connection is closed and has to be removed.\<close>

definition performStateTransition :: "tcp_event \<Rightarrow> conn \<Rightarrow> (bool \<times> conn) res" where
  "performStateTransition e c =
     assertE (fsm c \<noteq> TCP_S_CLOSED) ''performStateTransition: not CLOSED''
      (if e = TCP_E_IGNORE then Inr (True, c)
       else (let oldState = fsm c;
                 newState = next_state (active (st c)) oldState e;
                 c1 = c\<lparr>fsm := newState\<rparr>
             in mapE (\<lambda>c2. (fsm c2 \<noteq> TCP_S_CLOSED, c2))
                  (if oldState \<noteq> newState then stateEntered newState oldState e c1 else Inr c1)))"


section \<open>Runs of the state machine\<close>

text \<open>
  \<open>fsm_run act es s\<close>: from INIT the events \<open>es\<close> (the last one first) lead to \<open>s\<close>; an event is
  only processed while the connection is not CLOSED, and \<open>TCP_E_IGNORE\<close> is no transition.
\<close>

inductive fsm_run :: "bool \<Rightarrow> tcp_event list \<Rightarrow> tcp_state \<Rightarrow> bool" for act where
  run_init: "fsm_run act [] TCP_S_INIT"
| run_step: "fsm_run act es s \<Longrightarrow> s \<noteq> TCP_S_CLOSED \<Longrightarrow> e \<noteq> TCP_E_IGNORE \<Longrightarrow> fsm_run act (e # es) (next_state act s e)"

inductive_cases fsm_run_ConsE: "fsm_run act (e # es) s"

named_theorems fsm_simps

lemma next_state_INIT_iff [fsm_simps]: "next_state act s e = TCP_S_INIT \<longleftrightarrow> s = TCP_S_INIT \<and> e \<notin> {TCP_E_OPEN_PASSIVE, TCP_E_OPEN_ACTIVE}"
  by (cases s; cases e; simp add: next_state_def)

lemma next_state_ESTABLISHED [fsm_simps]:
  "next_state act s e = TCP_S_ESTABLISHED \<longleftrightarrow>
    s = TCP_S_SYN_RCVD \<and> e = TCP_E_RCV_ACK \<or> s = TCP_S_SYN_SENT \<and> e = TCP_E_RCV_SYN_ACK
    \<or> s = TCP_S_ESTABLISHED \<and> e \<notin> {TCP_E_CLOSE, TCP_E_ABORT, TCP_E_RCV_FIN, TCP_E_RCV_RST, TCP_E_RCV_UNEXP_SYN}"
  by (cases s; cases e; simp add: next_state_def)

definition sent_fin_states :: "tcp_state set" where
  "sent_fin_states = {TCP_S_FIN_WAIT_1, TCP_S_FIN_WAIT_2, TCP_S_CLOSING, TCP_S_TIME_WAIT, TCP_S_LAST_ACK}"

definition got_fin_states :: "tcp_state set" where
  "got_fin_states = {TCP_S_CLOSE_WAIT, TCP_S_LAST_ACK, TCP_S_CLOSING, TCP_S_TIME_WAIT}"

lemma enters_sent_fin:
  "next_state act s e \<in> sent_fin_states \<Longrightarrow> s \<in> sent_fin_states \<or> e = TCP_E_CLOSE"
  by (cases s; cases e; simp add: next_state_def sent_fin_states_def split: if_splits)

lemma enters_got_fin:
  "next_state act s e \<in> got_fin_states \<Longrightarrow> s \<in> got_fin_states \<or> e \<in> {TCP_E_RCV_FIN, TCP_E_RCV_FIN_ACK}"
  by (cases s; cases e; simp add: next_state_def got_fin_states_def split: if_splits)

text \<open>
  C7. Every run of the state machine that is in a state after our FIN (FIN_WAIT_1, FIN_WAIT_2,
  CLOSING, TIME_WAIT, LAST_ACK) had a CLOSE of the user, and every run that is in a state after
  the FIN of the peer (CLOSE_WAIT, LAST_ACK, CLOSING, TIME_WAIT) had that FIN received: no
  sequence of events reaches TIME_WAIT or LAST_ACK without both sides closing.
\<close>

theorem fsm_run_needs_both_fins:
  assumes "fsm_run act es s"
  shows "(s \<in> sent_fin_states \<longrightarrow> TCP_E_CLOSE \<in> set es)
    \<and> (s \<in> got_fin_states \<longrightarrow> TCP_E_RCV_FIN \<in> set es \<or> TCP_E_RCV_FIN_ACK \<in> set es)"
  using assms
proof induction
  case run_init
  then show ?case by (simp add: sent_fin_states_def got_fin_states_def)
next
  case (run_step es s e)
  then show ?case using enters_sent_fin[of act s e] enters_got_fin[of act s e] by auto
qed

lemma fsm_run_example:
  "fsm_run True [TCP_E_RCV_FIN, TCP_E_RCV_ACK, TCP_E_CLOSE, TCP_E_RCV_SYN_ACK, TCP_E_OPEN_ACTIVE] TCP_S_TIME_WAIT"
proof -
  have 1: "fsm_run True [TCP_E_OPEN_ACTIVE] TCP_S_SYN_SENT"
    using run_step[OF run_init, of TCP_E_OPEN_ACTIVE True] by (simp add: next_state_def)
  have 2: "fsm_run True [TCP_E_RCV_SYN_ACK, TCP_E_OPEN_ACTIVE] TCP_S_ESTABLISHED"
    using run_step[OF 1, of TCP_E_RCV_SYN_ACK] by (simp add: next_state_def)
  have 3: "fsm_run True [TCP_E_CLOSE, TCP_E_RCV_SYN_ACK, TCP_E_OPEN_ACTIVE] TCP_S_FIN_WAIT_1"
    using run_step[OF 2, of TCP_E_CLOSE] by (simp add: next_state_def)
  have 4: "fsm_run True [TCP_E_RCV_ACK, TCP_E_CLOSE, TCP_E_RCV_SYN_ACK, TCP_E_OPEN_ACTIVE] TCP_S_FIN_WAIT_2"
    using run_step[OF 3, of TCP_E_RCV_ACK] by (simp add: next_state_def)
  show ?thesis using run_step[OF 4, of TCP_E_RCV_FIN] by (simp add: next_state_def)
qed

theorem fsm_run_needs_both_fins_witness:
  "TCP_E_CLOSE \<in> set [TCP_E_RCV_FIN, TCP_E_RCV_ACK, TCP_E_CLOSE, TCP_E_RCV_SYN_ACK, TCP_E_OPEN_ACTIVE]"
  using fsm_run_needs_both_fins[OF fsm_run_example] by (simp add: sent_fin_states_def)

text \<open>The rank of a state: how far the connection is.\<close>

definition state_rank :: "tcp_state \<Rightarrow> nat" where
  "state_rank s =
     (case s of TCP_S_INIT \<Rightarrow> 0 | TCP_S_LISTEN \<Rightarrow> 1 | TCP_S_SYN_SENT \<Rightarrow> 2 | TCP_S_SYN_RCVD \<Rightarrow> 3
      | TCP_S_ESTABLISHED \<Rightarrow> 4 | TCP_S_CLOSE_WAIT \<Rightarrow> 5 | TCP_S_FIN_WAIT_1 \<Rightarrow> 5 | TCP_S_FIN_WAIT_2 \<Rightarrow> 6
      | TCP_S_CLOSING \<Rightarrow> 6 | TCP_S_LAST_ACK \<Rightarrow> 6 | TCP_S_TIME_WAIT \<Rightarrow> 7 | TCP_S_CLOSED \<Rightarrow> 8)"

lemma next_state_rank:
  assumes "next_state act s e \<noteq> s"
  shows "state_rank s < state_rank (next_state act s e)
    \<or> (\<not> act \<and> s = TCP_S_SYN_RCVD \<and> next_state act s e = TCP_S_LISTEN)"
  using assms by (cases s; cases e; simp add: next_state_def state_rank_def split: if_splits)

section \<open>Entering a state\<close>

definition closed_inds :: "conn \<Rightarrow> nat" where
  "closed_inds c = length (filter (\<lambda>x. case x of IndicationToApp i _ _ \<Rightarrow> i = TCP_I_CLOSED | _ \<Rightarrow> False) (outs c))"

definition some_scheduled :: "conn \<Rightarrow> bool" where
  "some_scheduled c \<longleftrightarrow> isScheduled (the2MSLTimer c) \<or> isScheduled (connEstabTimer c) \<or> isScheduled (finWait2Timer c)
     \<or> isScheduled (synRexmitTimer c) \<or> isScheduled (rexmitTimer c) \<or> isScheduled (persistTimer c)
     \<or> isScheduled (delayedAckTimer c) \<or> isScheduled (keepAliveTimer c) \<or> isScheduled (paceTimer c)
     \<or> isScheduled (rateUpdateTimer c)"

text \<open>The timers of the algorithm exist from \<open>initialize\<close> on.\<close>

definition alg_timers_exist :: "conn \<Rightarrow> bool" where
  "alg_timers_exist c \<longleftrightarrow> rexmitTimer c \<noteq> TimerNULL \<and> persistTimer c \<noteq> TimerNULL \<and> delayedAckTimer c \<noteq> TimerNULL
     \<and> keepAliveTimer c \<noteq> TimerNULL \<and> paceTimer c \<noteq> TimerNULL \<and> rateUpdateTimer c \<noteq> TimerNULL"

text \<open>The timers of the handshake exist until the connection is established.\<close>

definition handshake_timers_exist :: "conn \<Rightarrow> bool" where
  "handshake_timers_exist c \<longleftrightarrow> (fsm c \<in> {TCP_S_INIT, TCP_S_LISTEN, TCP_S_SYN_SENT, TCP_S_SYN_RCVD} \<longrightarrow>
     connEstabTimer c \<noteq> TimerNULL \<and> synRexmitTimer c \<noteq> TimerNULL)"

lemma cancelTimer_ok: "t \<noteq> TimerNULL \<Longrightarrow> cancelTimer t = Inr TimerIdle"
  by (cases t) (simp_all add: cancelTimer_def)

lemma cancelIfAny_facts [simp]:
  "\<not> isScheduled (cancelIfAny t)" "cancelIfAny t = TimerNULL \<longleftrightarrow> t = TimerNULL" "\<not> isScheduled TimerIdle" "\<not> isScheduled TimerNULL"
  by (cases t; simp add: cancelIfAny_def isScheduled_def)+

lemma connectionClosed_ok:
  "alg_timers_exist c \<Longrightarrow> connectionClosed c = Inr (c\<lparr>rexmitTimer := TimerIdle, persistTimer := TimerIdle,
     delayedAckTimer := TimerIdle, keepAliveTimer := TimerIdle, paceTimer := TimerIdle, rateUpdateTimer := TimerIdle\<rparr>)"
  by (simp add: connectionClosed_def setTimer_def alg_timers_exist_def cancelTimer_ok)

lemma closed_inds_emit [simp]:
  "closed_inds (sendIndicationToApp i n c) = closed_inds c + (if i = TCP_I_CLOSED then 1 else 0)"
  by (simp add: closed_inds_def sendIndicationToApp_def emit_def)

lemma closed_inds_frame [simp]:
  "closed_inds (c\<lparr>fsm := s\<rparr>) = closed_inds c" "closed_inds (c\<lparr>the2MSLTimer := t\<rparr>) = closed_inds c"
  "closed_inds (c\<lparr>connEstabTimer := t\<rparr>) = closed_inds c" "closed_inds (c\<lparr>finWait2Timer := t\<rparr>) = closed_inds c"
  "closed_inds (c\<lparr>synRexmitTimer := t\<rparr>) = closed_inds c" "closed_inds (c\<lparr>rexmitTimer := t\<rparr>) = closed_inds c"
  "closed_inds (c\<lparr>persistTimer := t\<rparr>) = closed_inds c" "closed_inds (c\<lparr>delayedAckTimer := t\<rparr>) = closed_inds c"
  "closed_inds (c\<lparr>keepAliveTimer := t\<rparr>) = closed_inds c" "closed_inds (c\<lparr>paceTimer := t\<rparr>) = closed_inds c"
  "closed_inds (c\<lparr>rateUpdateTimer := t\<rparr>) = closed_inds c"
  by (simp_all add: closed_inds_def)

lemma sendIndication_frame [simp]:
  "fsm (sendIndicationToApp i n c) = fsm c" "alg_timers_exist (sendIndicationToApp i n c) = alg_timers_exist c"
  "st (sendIndicationToApp i n c) = st c" "connEstabTimer (sendIndicationToApp i n c) = connEstabTimer c"
  "synRexmitTimer (sendIndicationToApp i n c) = synRexmitTimer c"
  by (simp_all add: sendIndicationToApp_def alg_timers_exist_def)

lemma exist_frame [simp]:
  "alg_timers_exist (c\<lparr>connEstabTimer := t\<rparr>) = alg_timers_exist c" "alg_timers_exist (c\<lparr>synRexmitTimer := t\<rparr>) = alg_timers_exist c"
  "alg_timers_exist (c\<lparr>the2MSLTimer := t\<rparr>) = alg_timers_exist c" "alg_timers_exist (c\<lparr>finWait2Timer := t\<rparr>) = alg_timers_exist c"
  "alg_timers_exist (c\<lparr>fsm := s\<rparr>) = alg_timers_exist c"
  by (simp_all add: alg_timers_exist_def)

lemma stateEntered_ok:
  assumes a: "alg_timers_exist c"
    and h: "fsm c \<in> {TCP_S_LISTEN, TCP_S_SYN_SENT, TCP_S_SYN_RCVD, TCP_S_ESTABLISHED} \<longrightarrow>
        connEstabTimer c \<noteq> TimerNULL \<and> synRexmitTimer c \<noteq> TimerNULL"
    and n: "fsm c \<noteq> TCP_S_INIT"
  shows "\<exists>c'. stateEntered (fsm c) old e c = Inr c' \<and> fsm c' = fsm c \<and> st c' = st c
      \<and> alg_timers_exist c' \<and> handshake_timers_exist c' \<and> (fsm c = TCP_S_CLOSED \<longrightarrow> \<not> some_scheduled c')
      \<and> closed_inds c' = closed_inds c +
          (if fsm c = TCP_S_TIME_WAIT \<or> fsm c = TCP_S_CLOSED \<and> old \<noteq> TCP_S_TIME_WAIT \<and> e \<noteq> TCP_E_ABORT then 1 else 0)"
proof (cases "fsm c")
  case TCP_S_INIT then show ?thesis using n by simp
next
  case TCP_S_CLOSED
  define c1 where "c1 = (if old \<noteq> TCP_S_TIME_WAIT \<and> e \<noteq> TCP_E_ABORT then sendIndicationToApp TCP_I_CLOSED 0 c else c)"
  have c1: "alg_timers_exist c1" "fsm c1 = fsm c" "st c1 = st c"
    "closed_inds c1 = closed_inds c + (if old \<noteq> TCP_S_TIME_WAIT \<and> e \<noteq> TCP_E_ABORT then 1 else 0)"
    using a by (simp_all add: c1_def)
  show ?thesis
    using TCP_S_CLOSED c1 by (simp add: stateEntered_def c1_def[symmetric] Let_def connectionClosed_ok
        handshake_timers_exist_def some_scheduled_def) (simp add: alg_timers_exist_def)
next
  case TCP_S_ESTABLISHED
  then show ?thesis using a h
    by (simp add: stateEntered_def setTimer_def cancelTimer_ok handshake_timers_exist_def)
next
  case TCP_S_LISTEN
  then show ?thesis using a h
    by (simp add: stateEntered_def setTimer_def cancelTimer_ok handshake_timers_exist_def)
qed (use a h in \<open>simp_all add: stateEntered_def handshake_timers_exist_def Let_def\<close>)

text \<open>
  A transition of a connection whose timers exist always succeeds and follows the switch.
  When it ends in CLOSED the function returns false and no timer of the connection is scheduled
  any more; the timers the next transition needs still exist; and the application is told that the
  connection is closed exactly when TIME_WAIT is entered, or CLOSED from another state than
  TIME_WAIT on an event other than ABORT.
\<close>

theorem transition_effects:
  assumes "fsm c \<noteq> TCP_S_CLOSED" "e \<noteq> TCP_E_IGNORE" "alg_timers_exist c" "handshake_timers_exist c"
  shows "\<exists>c'. performStateTransition e c = Inr (fsm c' \<noteq> TCP_S_CLOSED, c')
    \<and> fsm c' = next_state (active (st c)) (fsm c) e \<and> st c' = st c
    \<and> alg_timers_exist c' \<and> handshake_timers_exist c'
    \<and> (fsm c' = TCP_S_CLOSED \<longrightarrow> \<not> some_scheduled c')
    \<and> closed_inds c' = closed_inds c +
        (if fsm c' = TCP_S_TIME_WAIT \<and> fsm c \<noteq> TCP_S_TIME_WAIT
            \<or> fsm c' = TCP_S_CLOSED \<and> fsm c \<noteq> TCP_S_TIME_WAIT \<and> e \<noteq> TCP_E_ABORT then 1 else 0)"
proof -
  define n where "n = next_state (active (st c)) (fsm c) e"
  have ni: "n \<noteq> fsm c \<Longrightarrow> n \<noteq> TCP_S_INIT" by (auto simp: n_def next_state_INIT_iff)
  have est: "n = TCP_S_ESTABLISHED \<Longrightarrow> n \<noteq> fsm c \<Longrightarrow> fsm c \<in> {TCP_S_SYN_RCVD, TCP_S_SYN_SENT}"
    by (auto simp: n_def next_state_ESTABLISHED)
  have hs: "n \<in> {TCP_S_LISTEN, TCP_S_SYN_SENT, TCP_S_SYN_RCVD} \<Longrightarrow> fsm c \<in> {TCP_S_INIT, TCP_S_LISTEN, TCP_S_SYN_SENT, TCP_S_SYN_RCVD}"
    unfolding n_def by (cases "fsm c"; cases e; simp add: next_state_def)
  show ?thesis
  proof (cases "n = fsm c")
    case True
    then have "performStateTransition e c = Inr (fsm c \<noteq> TCP_S_CLOSED, c)"
      using assms(1,2) by (simp add: performStateTransition_def n_def[symmetric] Let_def)
    then show ?thesis using True assms unfolding n_def[symmetric] by (intro exI[of _ c]) auto
  next
    case False
    have p: "performStateTransition e c = mapE (\<lambda>c2. (fsm c2 \<noteq> TCP_S_CLOSED, c2)) (stateEntered n (fsm c) e (c\<lparr>fsm := n\<rparr>))"
      using assms(1,2) False by (simp add: performStateTransition_def n_def[symmetric] Let_def)
    have ht: "connEstabTimer c \<noteq> TimerNULL \<and> synRexmitTimer c \<noteq> TimerNULL"
      if "n \<in> {TCP_S_LISTEN, TCP_S_SYN_SENT, TCP_S_SYN_RCVD} \<or> n = TCP_S_ESTABLISHED"
      using assms(4) that hs est False by (auto simp: handshake_timers_exist_def)
    have "\<exists>c'. stateEntered n (fsm c) e (c\<lparr>fsm := n\<rparr>) = Inr c' \<and> fsm c' = n \<and> st c' = st c
      \<and> alg_timers_exist c' \<and> handshake_timers_exist c' \<and> (n = TCP_S_CLOSED \<longrightarrow> \<not> some_scheduled c')
      \<and> closed_inds c' = closed_inds c +
          (if n = TCP_S_TIME_WAIT \<or> n = TCP_S_CLOSED \<and> fsm c \<noteq> TCP_S_TIME_WAIT \<and> e \<noteq> TCP_E_ABORT then 1 else 0)"
      using stateEntered_ok[of "c\<lparr>fsm := n\<rparr>" "fsm c" e] assms(3) ht ni False by simp
    then obtain c' where "stateEntered n (fsm c) e (c\<lparr>fsm := n\<rparr>) = Inr c' \<and> fsm c' = n \<and> st c' = st c
      \<and> alg_timers_exist c' \<and> handshake_timers_exist c' \<and> (n = TCP_S_CLOSED \<longrightarrow> \<not> some_scheduled c')
      \<and> closed_inds c' = closed_inds c +
          (if n = TCP_S_TIME_WAIT \<or> n = TCP_S_CLOSED \<and> fsm c \<noteq> TCP_S_TIME_WAIT \<and> e \<noteq> TCP_E_ABORT then 1 else 0)" ..
    then show ?thesis unfolding n_def[symmetric] p using False by (intro exI[of _ c']) auto
  qed
qed

definition conn_example :: conn where
  "conn_example = \<lparr>appGateIndex = 0, connId = 7, localAddr = IPv4A 1, remoteAddr = IPv4A 2, localPort = 1000, remotePort = 80,
     fsm = TCP_S_ESTABLISHED, st = new_state_variables, sendQueue = VirtualDataSendQueue 1 1,
     receiveQueue = VirtualDataRcvQueue (rcvq_init 1), transferMode = TCP_TRANSFER_BYTECOUNT, rexmitQ = Some rq_new,
     tcpAlgorithm = TCPReno, the2MSLTimer = TimerIdle, connEstabTimer = TimerNULL, finWait2Timer = TimerIdle,
     synRexmitTimer = TimerNULL, rexmitTimer = TimerAt 5, persistTimer = TimerIdle, delayedAckTimer = TimerIdle,
     keepAliveTimer = TimerIdle, paceTimer = TimerIdle, rateUpdateTimer = TimerIdle, recordStatistics = True, hasModule = True, outs = []\<rparr>"

theorem transition_effects_witness:
  "\<exists>c'. performStateTransition TCP_E_RCV_RST conn_example = Inr (False, c') \<and> \<not> some_scheduled c' \<and> closed_inds c' = 1"
  using transition_effects[of conn_example TCP_E_RCV_RST]
  by (auto simp: conn_example_def alg_timers_exist_def handshake_timers_exist_def next_state_def closed_inds_def)

text \<open>
  C8. The state machine moves forward: every change of state raises the rank INIT, LISTEN, SYN_SENT,
  SYN_RCVD, ESTABLISHED, ..., CLOSED of the connection, but for the return of a passive
  connection from SYN_RCVD to LISTEN; so an actively opened connection changes its state at
  most eight times, whatever events it gets.
\<close>

primrec state_changes :: "bool \<Rightarrow> tcp_event list \<Rightarrow> tcp_state \<Rightarrow> nat" where
  "state_changes act [] s = 0"
| "state_changes act (e # es) s =
     (if next_state act s e \<noteq> s then 1 else 0) + state_changes act es (next_state act s e)"

theorem active_connection_changes_bounded:
  "state_changes True es TCP_S_INIT \<le> 8
   \<and> (next_state act s e \<noteq> s \<longrightarrow> state_rank s < state_rank (next_state act s e)
        \<or> (\<not> act \<and> s = TCP_S_SYN_RCVD \<and> next_state act s e = TCP_S_LISTEN))"
proof -
  have "state_changes True es s + state_rank s \<le> 8" for s
  proof (induction es arbitrary: s)
    case Nil
    then show ?case by (cases s) (simp_all add: state_rank_def)
  next
    case (Cons e es)
    show ?case using next_state_rank[of True s e] Cons[of "next_state True s e"] by auto
  qed
  from this[of TCP_S_INIT] show ?thesis using next_state_rank[of act s e] by (simp add: state_rank_def)
qed

theorem active_connection_changes_bounded_witness:
  "next_state False TCP_S_SYN_RCVD TCP_E_RCV_RST \<noteq> TCP_S_SYN_RCVD
    \<and> next_state False TCP_S_SYN_RCVD TCP_E_RCV_RST = TCP_S_LISTEN"
  using active_connection_changes_bounded[of "[]" False TCP_S_SYN_RCVD TCP_E_RCV_RST] by (simp add: next_state_def)

end
