(* ===== verification/Tcp_Send.thy ===== *)
theory Tcp_Send
  imports Tcp_Options Tcp_Fsm
begin

text \<open>
  Sending: the \<open>send*\<close> and \<open>retransmit*\<close> functions of \<open>src/transport/tcp/TCPConnectionUtil.cc\<close>,
  the loss recovery of RFC 3517 of \<open>TCPConnectionSackUtil.cc\<close>, and the callbacks \<open>ackSent\<close>,
  \<open>dataSent\<close>, \<open>segmentRetransmitted\<close> and \<open>restartRexmitTimer\<close> of \<open>flavours/TCPBaseAlg.cc\<close> that they
  use, which no modelled class overrides.

  A loop whose end the code does not guarantee takes fuel; when the fuel ends the result is
  \<open>Inl (Diverges _)\<close>.  \<open>loop_fuel\<close> is more than the bytes of a window, so that a loop that sends at least one
  byte in every round never uses it up.
\<close>

definition loop_fuel :: nat where
  "loop_fuel = 2 ^ 32"

section \<open>Callbacks of the algorithm\<close>

definition scheduleTimeout :: "env \<Rightarrow> ((timer \<Rightarrow> timer) \<Rightarrow> conn \<Rightarrow> conn) \<Rightarrow> timer \<Rightarrow> simtime \<Rightarrow> conn \<Rightarrow> conn res" where
  "scheduleTimeout en u t timeout c = setTimer u (scheduleAt (simTime en + timeout) t) c"

definition startRexmitTimer :: "env \<Rightarrow> conn \<Rightarrow> conn res" where
  "startRexmitTimer en c =
     (let c1 = upd (\<lambda>s. s\<lparr>rexmit_count := 0\<rparr>) c
      in scheduleTimeout en rexmitTimer_update (rexmitTimer c1) (rexmit_timeout (st c1)) c1)"

definition ackSent :: "conn \<Rightarrow> conn res" where
  "ackSent c =
     (let c1 = upd (\<lambda>s. s\<lparr>full_sized_segment_counter := 0, ack_now := False, last_ack_sent := rcv_nxt s\<rparr>) c
      in if isScheduled (delayedAckTimer c1) then setTimer delayedAckTimer_update (cancelTimer (delayedAckTimer c1)) c1
         else Inr c1)"

definition dataSent :: "env \<Rightarrow> u32 \<Rightarrow> conn \<Rightarrow> conn res" where
  "dataSent en fromseq c =
     bindE (if \<not> isScheduled (rexmitTimer c) then startRexmitTimer en c else Inr c) (\<lambda>c1.
       Inr (upd (\<lambda>s. let s1 = (if \<not> ts_enabled s \<and> rtseq_sendtime s = 0
                               then s\<lparr>rtseq := fromseq, rtseq_sendtime := simTime en\<rparr> else s)
                     in s1\<lparr>time_last_data_sent := simTime en\<rparr>) c1))"

definition segmentRetransmitted :: "u32 \<Rightarrow> u32 \<Rightarrow> conn \<Rightarrow> conn" where
  "segmentRetransmitted fromseq toseq c = c"

definition restartRexmitTimer :: "env \<Rightarrow> conn \<Rightarrow> conn res" where
  "restartRexmitTimer en c =
     bindE (if isScheduled (rexmitTimer c) then setTimer rexmitTimer_update (cancelTimer (rexmitTimer c)) c else Inr c)
       (startRexmitTimer en)"

section \<open>Sending to IP\<close>

definition sendToIP :: "tcp_segment \<Rightarrow> conn \<Rightarrow> conn res" where
  "sendToIP tcpseg c =
     (let seg = tcpseg\<lparr>srcPort := word_of_int (localPort c), destPort := word_of_int (remotePort c)\<rparr>
      in assertE (TCP_HEADER_OCTETS \<le> headerLength seg) ''sendToIP: header length''
          (assertE (ucast (headerLength seg) \<le> TCP_MAX_HEADER_OCTETS) ''sendToIP: header length''
            (Inr (emit (ToIP seg (ucast (headerLength seg) + payloadLength seg) (localAddr c) (remoteAddr c))
                    (upd (\<lambda>s. s\<lparr>sentBytes := ucast (payloadLength seg)\<rparr>) c)))))"

text \<open>The variant that is given the addresses reads the protocol number from \<open>tcpMain\<close>, or else \<open>tcpMain2\<close>.\<close>

definition sendToIP_addr :: "tcp_segment \<Rightarrow> ipvx \<Rightarrow> ipvx \<Rightarrow> conn \<Rightarrow> conn res" where
  "sendToIP_addr tcpseg src dest c =
     (if hasModule c then Inr (emit (ToIP tcpseg 0 src dest) c) else Inl (NullPointer ''tcpMain2''))"

definition sendSyn :: "env \<Rightarrow> conn \<Rightarrow> conn res" where
  "sendSyn en c =
     (if isUnspecified (remoteAddr c) \<or> remotePort c = -1
      then Inl (RuntimeError ''Error processing command OPEN_ACTIVE: foreign socket unspecified'')
      else if localPort c = -1
      then Inl (RuntimeError ''Error processing command OPEN_ACTIVE: local port unspecified'')
      else bindE (updateRcvWnd c) (\<lambda>(w, c1).
        let seg = new_segment\<lparr>sequenceNo := iss (st c), synBit := True, window := ucast (rcv_wnd (st c1))\<rparr>;
            c2 = upd (\<lambda>s. s\<lparr>snd_max := iss s + 1, snd_nxt := iss s + 1\<rparr>) c1
        in bindE (writeHeaderOptions en seg c2) (\<lambda>(seg', c3). sendToIP seg' c3)))"

definition sendSynAck :: "env \<Rightarrow> conn \<Rightarrow> conn res" where
  "sendSynAck en c =
     bindE (updateRcvWnd c) (\<lambda>(w, c1).
       let seg = new_segment\<lparr>sequenceNo := iss (st c), ackNo := rcv_nxt (st c), synBit := True, ackBit := True,
                   window := ucast (rcv_wnd (st c1))\<rparr>;
           c2 = upd (\<lambda>s. s\<lparr>snd_max := iss s + 1, snd_nxt := iss s + 1\<rparr>) c1
       in bindE (writeHeaderOptions en seg c2) (\<lambda>(seg', c3).
          bindE (sendToIP seg' c3) ackSent))"

definition sendRst_addr :: "u32 \<Rightarrow> ipvx \<Rightarrow> ipvx \<Rightarrow> int \<Rightarrow> int \<Rightarrow> conn \<Rightarrow> conn res" where
  "sendRst_addr seq src dest sPort dPort c =
     sendToIP_addr (new_segment\<lparr>srcPort := word_of_int sPort, destPort := word_of_int dPort, rstBit := True,
       sequenceNo := seq\<rparr>) src dest c"

definition sendRst :: "u32 \<Rightarrow> conn \<Rightarrow> conn res" where
  "sendRst seqNo c = sendRst_addr seqNo (localAddr c) (remoteAddr c) (localPort c) (remotePort c) c"

text \<open>The connection that answers for no connection at all has no algorithm (\<open>hasAlg\<close> is false).\<close>

definition sendRstAck :: "bool \<Rightarrow> u32 \<Rightarrow> u32 \<Rightarrow> ipvx \<Rightarrow> ipvx \<Rightarrow> int \<Rightarrow> int \<Rightarrow> conn \<Rightarrow> conn res" where
  "sendRstAck hasAlg seq ack src dest sPort dPort c =
     bindE (sendToIP_addr (new_segment\<lparr>srcPort := word_of_int sPort, destPort := word_of_int dPort, rstBit := True,
                 ackBit := True, sequenceNo := seq, ackNo := ack\<rparr>) src dest c) (\<lambda>c1.
       if hasAlg then ackSent c1 else Inr c1)"

text \<open>\<open>sendAck()\<close>, and \<open>sendAck(ecn)\<close>, which adds the ECN echo (and a packet of weights that is always empty).\<close>

definition sendAck_ecn :: "env \<Rightarrow> bool \<Rightarrow> conn \<Rightarrow> conn res" where
  "sendAck_ecn en echo c =
     bindE (updateRcvWnd c) (\<lambda>(w, c1).
       let seg = new_segment\<lparr>ackBit := True, sequenceNo := snd_nxt (st c), ackNo := rcv_nxt (st c), window := w\<rparr>
       in bindE (writeHeaderOptions en seg c1) (\<lambda>(seg', c2).
          bindE (sendToIP (if echo then seg'\<lparr>eceBit := True\<rparr> else seg') c2) ackSent))"

definition sendAck :: "env \<Rightarrow> conn \<Rightarrow> conn res" where
  "sendAck en c =
     bindE (updateRcvWnd c) (\<lambda>(w, c1).
       let seg = new_segment\<lparr>ackBit := True, sequenceNo := snd_nxt (st c), ackNo := rcv_nxt (st c), window := w\<rparr>
       in bindE (writeHeaderOptions en seg c1) (\<lambda>(seg', c2). bindE (sendToIP seg' c2) ackSent))"

definition sendFin :: "conn \<Rightarrow> conn res" where
  "sendFin c =
     bindE (updateRcvWnd c) (\<lambda>(w, c1).
       bindE (sendToIP (new_segment\<lparr>finBit := True, ackBit := True, ackNo := rcv_nxt (st c), sequenceNo := snd_nxt (st c),
                window := w\<rparr>) c1) ackSent)"

section \<open>Sending data\<close>

text \<open>\<open>sendSegment\<close>, in three parts: skip what is sacked, build and send the segment, ask for more data.\<close>

definition skipSacked :: "conn \<Rightarrow> conn res" where
  "skipSacked c =
     (if sack_enabled (st c) \<and> afterRto (st c)
      then withRexmitQ c (\<lambda>q. mapE (\<lambda>forward. upd (\<lambda>s. if 0 < forward then s\<lparr>snd_nxt := snd_nxt s + forward\<rparr> else s) c)
             (rq_checkForSackedOrRexmitted (snd_nxt (st c)) q))
      else Inr c)"

definition noteSent :: "u32 \<Rightarrow> u32 \<Rightarrow> conn \<Rightarrow> conn res" where
  "noteSent from bytes c =
     (if sack_enabled (st c)
      then withRexmitQ c (\<lambda>q. mapE (\<lambda>q'. c\<lparr>rexmitQ := Some q'\<rparr>) (rq_enqueueSentData from (from + bytes) q))
      else Inr c)"

definition requestMoreData :: "conn \<Rightarrow> conn" where
  "requestMoreData c =
     (let alreadyQueued = ucast (snd_getBytesAvailable (snd_getBufferStartSeq (sendQueue c)) (sendQueue c));
          limit = sendQueueLimit (st c);
          abated = (if alreadyQueued < limit then limit - alreadyQueued else 0)
      in if 0 < limit \<and> \<not> queueUpdate (st c) \<and> snd_mss (st c) \<le> abated
         then upd (\<lambda>s. s\<lparr>queueUpdate := True\<rparr>) (sendIndicationToApp TCP_I_SEND_MSG (sint abated) c)
         else c)"

definition sendSegment :: "env \<Rightarrow> u32 \<Rightarrow> conn \<Rightarrow> conn res" where
  "sendSegment en bytes0 c0 =
     bindE (skipSacked c0) (\<lambda>c.
     let buffered = snd_getBytesAvailable (snd_nxt (st c)) (sendQueue c);
         bytes1 = (if buffered < ucast bytes0 then ucast buffered else bytes0)
     in bindE (writeHeaderOptions en (new_segment\<lparr>ackBit := True\<rparr>) c) (\<lambda>(temp, c1).
        let options_len = ucast (headerLength temp - TCP_HEADER_OCTETS) :: u32;
            mss = snd_mss (st c1);
            bytes = (if mss < bytes1 + options_len then mss - options_len else bytes1);
            from = snd_nxt (st c1);
            c2 = upd (\<lambda>s. s\<lparr>sentBytes := bytes\<rparr>) c1
        in assertE (options_len < mss) ''sendSegment: options_len < snd_mss''
          (bindE (snd_createSegmentWithBytes from (ucast bytes) (sendQueue c2)) (\<lambda>seg.
           bindE (noteSent from bytes c2) (\<lambda>c3.
           bindE (updateRcvWnd c3) (\<lambda>(w, c4).
             assertE (ucast bytes = payloadLength seg) ''sendSegment: bytes == payloadLength''
              (let nxt = from + bytes;
                   isFin = (send_fin (st c4) \<and> nxt = snd_fin_seq (st c4));
                   c5 = upd (\<lambda>s. s\<lparr>snd_nxt := (if isFin then snd_fin_seq s + 1 else nxt),
                                    afterRto := (if afterRto s \<and> seqGE nxt (snd_max s) then False else afterRto s)\<rparr>) c4;
                   seg' = seg\<lparr>ackNo := rcv_nxt (st c4), ackBit := True, window := w, finBit := isFin,
                             options := options temp, headerLength := headerLength temp\<rparr>
               in bindE (sendToIP seg' c5) (\<lambda>c6. Inr (requestMoreData c6)))))))))"

text \<open>The loop that sends whole segments, with what is left to send.\<close>

primrec send_whole_segments :: "nat \<Rightarrow> env \<Rightarrow> u32 \<Rightarrow> u64 \<times> conn \<Rightarrow> (u64 \<times> conn) res" where
  "send_whole_segments 0 en effMax bc = Inl (Diverges ''sendData'')"
| "send_whole_segments (Suc n) en effMax bc =
     (if ucast effMax \<le> fst bc
      then bindE (sendSegment en (snd_mss (st (snd bc))) (snd bc)) (\<lambda>c.
             send_whole_segments n en effMax (fst bc - ucast (sentBytes (st c)), c))
      else Inr bc)"

definition sendData_fuel :: "nat \<Rightarrow> env \<Rightarrow> bool \<Rightarrow> u32 \<Rightarrow> conn \<Rightarrow> (bool \<times> conn) res" where
  "sendData_fuel fuel en fullSegmentsOnly congestionWindow c0 =
     (let c = (if \<not> afterRto (st c0) then upd (\<lambda>s. s\<lparr>snd_nxt := snd_max s\<rparr>) c0 else c0) in
      bindE (if sack_enabled (st c) then withRexmitQ c (\<lambda>q. Inr (rq_getHighestRexmittedSeqNum q)) else Inr 0) (\<lambda>old_highRxt.
      let s = st c;
          buffered = snd_getBytesAvailable (snd_nxt s) (sendQueue c);
          maxWindow = ucast (min (snd_wnd s) congestionWindow) :: u64;
          effectiveWin = maxWindow - ucast (snd_nxt s - snd_una s);
          bytesToSend = (if buffered < effectiveWin then buffered else effectiveWin);
          effMax = (if ts_enabled s then snd_mss s - TCP_OPTION_TS_SIZE else snd_mss s);
          old_snd_nxt = snd_nxt s
      in if buffered = 0 then Inr (False, c)
         else if sint effectiveWin \<le> 0 then Inr (False, c)
         else if fullSegmentsOnly \<and> bytesToSend < ucast effMax then Inr (False, c)
         else assertE (0 < bytesToSend) ''sendData: bytesToSend > 0''
          (bindE (if bytesToSend \<le> ucast (snd_mss s)
                  then bindE (sendSegment en (ucast bytesToSend) c) (\<lambda>c1. Inr (bytesToSend - ucast (sentBytes (st c1)), c1))
                  else send_whole_segments fuel en effMax (bytesToSend, c)) (\<lambda>(left, c1).
           let buffered1 = snd_getBytesAvailable (snd_nxt (st c1)) (sendQueue c1) in
           bindE (if left = buffered1 \<and> buffered1 \<noteq> 0 then sendSegment en (ucast left) c1 else Inr c1) (\<lambda>c2.
           let c3 = upd (\<lambda>s. if seqGreater (snd_nxt s) (snd_max s) then s\<lparr>snd_max := snd_nxt s\<rparr> else s) c2 in
           bindE (ackSent c3) (\<lambda>c4.
           bindE (if sack_enabled (st c4) \<and> lossRecovery (st c4) \<and> old_highRxt \<noteq> highRxt (st c4)
                  then restartRexmitTimer en c4 else dataSent en old_snd_nxt c4) (\<lambda>c5. Inr (True, c5))))))))"

definition sendData :: "env \<Rightarrow> bool \<Rightarrow> u32 \<Rightarrow> conn \<Rightarrow> (bool \<times> conn) res" where
  "sendData = sendData_fuel loop_fuel"

definition sendProbe :: "env \<Rightarrow> conn \<Rightarrow> (bool \<times> conn) res" where
  "sendProbe en c0 =
     (let c = upd (\<lambda>s. s\<lparr>snd_nxt := snd_max s\<rparr>) c0 in
      if snd_getBytesAvailable (snd_nxt (st c)) (sendQueue c) = 0 then Inr (False, c)
      else bindE (sendSegment en 1 c) (\<lambda>c1.
           bindE (ackSent (upd (\<lambda>s. s\<lparr>snd_max := snd_nxt s\<rparr>) c1)) (\<lambda>c2.
           bindE (dataSent en (snd_nxt (st c)) c2) (\<lambda>c3. Inr (True, c3)))))"

text \<open>The FIN is retransmitted alone when all data before it is acknowledged.\<close>

definition retransmitFin :: "conn \<Rightarrow> conn res" where
  "retransmitFin c =
     (let e = snd_getBufferEndSeq (sendQueue c) in
      bindE (sendFin (upd (\<lambda>s. s\<lparr>snd_max := e, snd_nxt := e\<rparr>) c)) (\<lambda>c1.
        Inr (upd (\<lambda>s. s\<lparr>snd_nxt := snd_nxt s + 1, snd_max := snd_nxt s + 1\<rparr>) c1)))"

definition retransmitOneSegment :: "env \<Rightarrow> bool \<Rightarrow> conn \<Rightarrow> conn res" where
  "retransmitOneSegment en called_at_rto c0 =
     (let old_snd_nxt = snd_nxt (st c0);
          c = upd (\<lambda>s. s\<lparr>snd_nxt := snd_una s\<rparr>) c0;
          s = st c;
          bytes = min (ucast (min (snd_mss s) (snd_max s - snd_nxt s))) (snd_getBytesAvailable (snd_nxt s) (sendQueue c))
      in if bytes = 0 \<and> send_fin s \<and> snd_fin_seq s = snd_getBufferEndSeq (sendQueue c) then retransmitFin c
         else assertE (bytes \<noteq> 0) ''retransmitOneSegment: bytes != 0''
          (bindE (sendSegment en (ucast bytes) c) (\<lambda>c1.
           let c2 = (if \<not> called_at_rto
                     then upd (\<lambda>s. if seqGreater old_snd_nxt (snd_nxt s) then s\<lparr>snd_nxt := old_snd_nxt\<rparr> else s) c1 else c1)
           in bindE (ackSent c2) (\<lambda>c3.
              if sack_enabled (st c3)
              then withRexmitQ c3 (\<lambda>q. Inr (upd (\<lambda>s. s\<lparr>highRxt := rq_getHighestRexmittedSeqNum q\<rparr>) c3))
              else Inr c3))))"

primrec retransmit_segments :: "nat \<Rightarrow> env \<Rightarrow> u32 \<times> conn \<Rightarrow> conn res" where
  "retransmit_segments 0 en bc = Inl (Diverges ''retransmitData'')"
| "retransmit_segments (Suc n) en bc =
     (if 0 < fst bc
      then (let c = snd bc;
                bytes = min (min (fst bc) (snd_mss (st c))) (ucast (snd_getBytesAvailable (snd_nxt (st c)) (sendQueue c)))
            in bindE (sendSegment en bytes c) (\<lambda>c1.
               if send_fin (st c1) \<and> snd_nxt (st c1) = snd_fin_seq (st c1) + 1 then Inr c1
               else retransmit_segments n en (fst bc - sentBytes (st c1), c1)))
      else Inr (snd bc))"

definition retransmitData :: "env \<Rightarrow> conn \<Rightarrow> conn res" where
  "retransmitData en c0 =
     (let c = upd (\<lambda>s. s\<lparr>snd_nxt := snd_una s\<rparr>) c0;
          bytesToSend = snd_max (st c) - snd_nxt (st c)
      in if bytesToSend = 0 \<and> send_fin (st c) \<and> snd_fin_seq (st c) = snd_getBufferEndSeq (sendQueue c)
         then retransmitFin c
         else assertE (bytesToSend \<noteq> 0) ''retransmitData: bytesToSend != 0'' (retransmit_segments loop_fuel en (bytesToSend, c)))"

definition sendOneNewSegment :: "env \<Rightarrow> bool \<Rightarrow> u32 \<Rightarrow> conn \<Rightarrow> conn res" where
  "sendOneNewSegment en fullSegmentsOnly congestionWindow c =
     (let s = st c;
          mss = ucast (snd_mss s) :: u64;
          buffered = snd_getBytesAvailable (snd_max s) (sendQueue c);
          outstandingData = ucast (snd_max s - snd_una s) :: u64;
          effectiveWin = ucast (ucast (min (snd_wnd s) congestionWindow) - outstandingData + 2 * mss) :: u32;
          bytes = min effectiveWin (snd_mss s)
      in assertE (limited_transmit_enabled s) ''sendOneNewSegment: limited_transmit_enabled''
          (if (\<not> sack_enabled s \<or> sackedBytes_old s \<noteq> sackedBytes s)
             \<and> (mss \<le> buffered \<or> (\<not> fullSegmentsOnly \<and> 0 < buffered))
             \<and> outstandingData + mss \<le> ucast (snd_wnd s)
             \<and> outstandingData + mss \<le> ucast (congestionWindow + 2 * snd_mss s)
             \<and> (snd_mss s \<le> bytes \<or> (\<not> fullSegmentsOnly \<and> 0 < bytes))
           then (let old_snd_nxt = snd_nxt s in
                 bindE (sendSegment en bytes (upd (\<lambda>s. s\<lparr>snd_nxt := snd_max s\<rparr>) c)) (\<lambda>c1.
                 let c2 = upd (\<lambda>s. if seqGreater (snd_nxt s) (snd_max s) then s\<lparr>snd_max := snd_nxt s\<rparr> else s) c1;
                     c3 = upd (\<lambda>s. if afterRto s then s\<lparr>snd_nxt := old_snd_nxt + sentBytes s\<rparr> else s) c2
                 in bindE (ackSent c3) (dataSent en old_snd_nxt)))
           else Inr c))"

section \<open>Loss recovery with SACK\<close>

definition isLost :: "u32 \<Rightarrow> conn \<Rightarrow> bool res" where
  "isLost seqNum c =
     assertE (sack_enabled (st c)) ''isLost: sack_enabled''
      (assertE (seqGE seqNum (snd_una (st c))) ''isLost: seqNum >= snd_una''
        (withRexmitQ c (\<lambda>q.
           bindE (rq_getNumOfDiscontiguousSacks seqNum q) (\<lambda>n.
             if DUPTHRESH \<le> n then Inr True
             else mapE (\<lambda>bytes. DUPTHRESH * snd_mss (st c) \<le> bytes) (rq_getAmountOfSackedBytes seqNum q)))))"

primrec set_pipe_loop :: "nat \<Rightarrow> conn \<Rightarrow> u32 \<Rightarrow> u32 \<Rightarrow> u32 res" where
  "set_pipe_loop 0 c s1 p = Inl (Diverges ''setPipe'')"
| "set_pipe_loop (Suc n) c s1 p =
     (if seqLess s1 (snd_max (st c))
      then withRexmitQ c (\<lambda>q. bindE (rq_checkSackBlock s1 q) (\<lambda>(length, sacked, rexmitted).
             if \<not> sacked
             then bindE (isLost s1 c) (\<lambda>lost.
                    let p1 = (if \<not> lost then p + length else p);
                        p2 = (if seqLess s1 (highRxt (st c)) then p1 + length else p1)
                    in set_pipe_loop n c (s1 + length) p2)
             else set_pipe_loop n c (s1 + length) p))
      else Inr p)"

definition setPipe :: "conn \<Rightarrow> conn res" where
  "setPipe c =
     assertE (sack_enabled (st c)) ''setPipe: sack_enabled''
      (withRexmitQ c (\<lambda>q.
        let c1 = upd (\<lambda>s. s\<lparr>highRxt := rq_getHighestRexmittedSeqNum q\<rparr>) c
        in mapE (\<lambda>p. upd (\<lambda>s. s\<lparr>pipe := p\<rparr>) c1) (set_pipe_loop loop_fuel c1 (snd_una (st c1)) 0)))"

text \<open>
  The loops of rules 1 and 3 of \<open>nextSeg\<close>: the first block from \<open>s\<close> that is not sacked, and whether it is lost
  where rule 1 asks for that.  \<open>shift\<close> is the variable that both loops share.
\<close>

primrec next_seg_loop :: "nat \<Rightarrow> bool \<Rightarrow> conn \<Rightarrow> u32 \<Rightarrow> u32 \<Rightarrow> u32 \<Rightarrow> (u32 option \<times> u32) res" where
  "next_seg_loop 0 rule1 c highestSacked s shift = Inl (Diverges ''nextSeg'')"
| "next_seg_loop (Suc n) rule1 c highestSacked s shift =
     (if seqLess s (snd_max (st c)) \<and> seqLess s highestSacked
      then withRexmitQ c (\<lambda>q. bindE (rq_checkSackBlock s q) (\<lambda>(shift', sacked, rexmitted).
             if \<not> sacked
             then (if rule1 then mapE (\<lambda>lost. (if lost then Some s else None, shift')) (isLost s c) else Inr (Some s, shift'))
             else next_seg_loop n rule1 c highestSacked (s + shift') shift'))
      else Inr (None, shift))"

definition nextSeg :: "conn \<Rightarrow> ((bool \<times> u32) \<times> conn) res" where
  "nextSeg c0 =
     assertE (sack_enabled (st c0)) ''nextSeg: sack_enabled''
      (withRexmitQ c0 (\<lambda>q.
        let c = upd (\<lambda>s. s\<lparr>highRxt := rq_getHighestRexmittedSeqNum q\<rparr>) c0;
            highestSacked = rq_getHighestSackedSeqNum q;
            shift = (if ts_enabled (st c) then snd_mss (st c) - TCP_OPTION_TS_SIZE else snd_mss (st c))
        in bindE (next_seg_loop loop_fuel True c highestSacked (highRxt (st c)) shift) (\<lambda>(r1, shift1).
           case r1 of
             Some s2 \<Rightarrow> Inr ((True, s2), c)
           | None \<Rightarrow>
               (let buffered = snd_getBytesAvailable (snd_max (st c)) (sendQueue c);
                    effectiveWin = ucast (snd_wnd (st c)) - ucast (pipe (st c)) :: u64
                in if 0 < buffered \<and> ucast (snd_mss (st c)) \<le> effectiveWin
                   then Inr ((True, snd_max (st c)), c)
                   else bindE (next_seg_loop loop_fuel False c highestSacked (highRxt (st c)) shift1) (\<lambda>(r3, shift3).
                          case r3 of Some s3 \<Rightarrow> Inr ((True, s3), c) | None \<Rightarrow> Inr ((False, 0), c))))))"

definition sendSegmentDuringLossRecoveryPhase :: "env \<Rightarrow> u32 \<Rightarrow> conn \<Rightarrow> conn res" where
  "sendSegmentDuringLossRecoveryPhase en seqNum c0 =
     assertE (sack_enabled (st c0) \<and> lossRecovery (st c0)) ''sendSegmentDuringLossRecoveryPhase''
      (let c = upd (\<lambda>s. s\<lparr>snd_nxt := seqNum\<rparr>) c0 in
       withRexmitQ c (\<lambda>q.
       let old_highRxt = rq_getHighestRexmittedSeqNum q in
       bindE (sendSegment en (snd_mss (st c)) c) (\<lambda>c1.
       let sentSeqNum = seqNum + sentBytes (st c1) in
       assertE (seqLE (snd_nxt (st c1)) (sentSeqNum + 1)) ''sendSegmentDuringLossRecoveryPhase: snd_nxt''
        (bindE (if seqLess seqNum (snd_max (st c1))
                then withRexmitQ c1 (\<lambda>q1. Inr (upd (\<lambda>s. s\<lparr>highRxt := rq_getHighestRexmittedSeqNum q1\<rparr>) c1)) else Inr c1) (\<lambda>c2.
         let c3 = upd (\<lambda>s. if seqGreater sentSeqNum (snd_max s) then s\<lparr>snd_max := sentSeqNum\<rparr> else s) c2 in
         bindE (ackSent c3) (\<lambda>c4.
           if old_highRxt \<noteq> highRxt (st c4) then restartRexmitTimer en c4 else dataSent en seqNum c4))))))"

primrec loss_recovery_loop :: "nat \<Rightarrow> env \<Rightarrow> u32 \<Rightarrow> conn \<Rightarrow> conn res" where
  "loss_recovery_loop 0 en cwnd c = Inl (Diverges ''sendDataDuringLossRecoveryPhase'')"
| "loss_recovery_loop (Suc n) en cwnd c =
     (if sint (snd_mss (st c)) \<le> sint (cwnd - pipe (st c))
      then bindE (nextSeg c) (\<lambda>((found, seqNum), c1).
             if \<not> found then Inr c1
             else bindE (sendSegmentDuringLossRecoveryPhase en seqNum c1) (\<lambda>c2.
                    loss_recovery_loop n en cwnd (upd (\<lambda>s. s\<lparr>pipe := pipe s + sentBytes s\<rparr>) c2)))
      else Inr c)"

definition sendDataDuringLossRecoveryPhase :: "env \<Rightarrow> u32 \<Rightarrow> conn \<Rightarrow> conn res" where
  "sendDataDuringLossRecoveryPhase en congestionWindow c =
     assertE (sack_enabled (st c) \<and> lossRecovery (st c)) ''sendDataDuringLossRecoveryPhase''
      (loss_recovery_loop loop_fuel en congestionWindow c)"

definition isSendQueueEmpty :: "conn \<Rightarrow> bool" where
  "isSendQueueEmpty c \<longleftrightarrow> snd_getBytesAvailable (snd_nxt (st c)) (sendQueue c) = 0"

end
