(* ===== verification/Tcp_Alg.thy ===== *)
theory Tcp_Alg
  imports Tcp_Send
begin

text \<open>
  Congestion control: \<open>TCPBaseAlg\<close>, \<open>TCPTahoe\<close>, \<open>TCPReno\<close> and \<open>TCPNewReno\<close> of
  \<open>src/transport/tcp/flavours\<close>.

  A virtual method dispatches on the \<open>flavour\<close> of the connection.  A method that may set the
  event code returns it with the connection.  The pacing timer of Reno is never started by the
  modelled classes, so its handler is left out.  A division by zero, which ends the
  simulation, is a \<open>RuntimeError\<close>.
\<close>

section \<open>TCPBaseAlg\<close>

definition MAX_REXMIT_COUNT :: int where "MAX_REXMIT_COUNT = 12"
definition DELAYED_ACK_TIMEOUT :: simtime where "DELAYED_ACK_TIMEOUT = sec div 5"
definition MIN_REXMIT_TIMEOUT :: simtime where "MIN_REXMIT_TIMEOUT = 3 * sec"
definition MAX_REXMIT_TIMEOUT :: simtime where "MAX_REXMIT_TIMEOUT = 240 * sec"
definition MIN_PERSIST_TIMEOUT :: simtime where "MIN_PERSIST_TIMEOUT = 5 * sec"
definition MAX_PERSIST_TIMEOUT :: simtime where "MAX_PERSIST_TIMEOUT = 60 * sec"

text \<open>\<open>initialize\<close> creates the timers of the algorithm.\<close>

definition alg_initialize :: "conn \<Rightarrow> conn" where
  "alg_initialize c = c\<lparr>rexmitTimer := TimerIdle, persistTimer := TimerIdle, delayedAckTimer := TimerIdle,
     keepAliveTimer := TimerIdle, paceTimer := TimerIdle, rateUpdateTimer := TimerIdle\<rparr>"

definition initial_window :: "tcp_sv \<Rightarrow> u32" where
  "initial_window s = min (4 * snd_mss s) (max (2 * snd_mss s) 4380)"

definition base_sendData :: "env \<Rightarrow> bool \<Rightarrow> conn \<Rightarrow> (bool \<times> conn) res" where
  "base_sendData en sendCommandInvoked c =
     (let fullSegmentsOnly = (sendCommandInvoked \<and> nagle_enabled (st c) \<and> snd_una (st c) \<noteq> snd_max (st c));
          c1 = (if \<not> isSendQueueEmpty c \<and> rexmit_timeout (st c) < simTime en - time_last_data_sent (st c)
                then upd (\<lambda>s. s\<lparr>snd_cwnd := (if increased_IW_enabled s then min (initial_window s) (snd_cwnd s) else snd_mss s)\<rparr>) c
                else c)
      in sendData en fullSegmentsOnly (snd_cwnd (st c1)) c1)"

definition alg_established :: "env \<Rightarrow> bool \<Rightarrow> conn \<Rightarrow> conn res" where
  "alg_established en act c =
     (let c1 = upd (\<lambda>s. s\<lparr>snd_cwnd := (if increased_IW_enabled s \<and> syn_rexmit_count s = 0 then initial_window s else snd_mss s)\<rparr>) c
      in if act then bindE (base_sendData en False c1) (\<lambda>(sent, c2). if \<not> sent then sendAck en c2 else Inr c2)
         else Inr c1)"

text \<open>The retransmission timer has expired and is idle when its handler runs.\<close>

definition base_processRexmitTimer :: "env \<Rightarrow> conn \<Rightarrow> (tcp_event \<times> conn) res" where
  "base_processRexmitTimer en c =
     (let c1 = upd (\<lambda>s. s\<lparr>rexmit_count := rexmit_count s + 1\<rparr>) c in
      if MAX_REXMIT_COUNT < rexmit_count (st c1) then Inr (TCP_E_ABORT, signalConnectionTimeout c1)
      else (let c2 = upd (\<lambda>s. let t = rexmit_timeout s + rexmit_timeout s
                               in s\<lparr>rexmit_timeout := (if MAX_REXMIT_TIMEOUT < t then MAX_REXMIT_TIMEOUT else t)\<rparr>) c1
            in bindE (scheduleTimeout en rexmitTimer_update (rexmitTimer c2) (rexmit_timeout (st c2)) c2) (\<lambda>c3.
               let c4 = upd (\<lambda>s. s\<lparr>rtseq_sendtime := 0, numRtos := numRtos s + 1\<rparr>) c3 in
               bindE (if sack_enabled (st c4)
                      then withRexmitQ c4 (\<lambda>q. Inr (upd (\<lambda>s. if lossRecovery s then s\<lparr>recoveryPoint := snd_max s, lossRecovery := False\<rparr> else s)
                             (c4\<lparr>rexmitQ := Some (rq_resetRexmittedBit (rq_resetSackedBit q))\<rparr>)))
                      else Inr c4) (\<lambda>c5.
                 Inr (TCP_E_IGNORE, upd (\<lambda>s. s\<lparr>time_last_data_sent := simTime en\<rparr>) c5)))))"

definition processPersistTimer :: "env \<Rightarrow> conn \<Rightarrow> conn res" where
  "processPersistTimer en c =
     (let c1 = upd (\<lambda>s. s\<lparr>persist_factor := (if persist_factor s = 0 then 1
                              else if persist_factor s < 64 then persist_factor s * 2 else persist_factor s)\<rparr>) c;
          c2 = upd (\<lambda>s. s\<lparr>persist_timeout := uint (persist_factor s) * 3 * sec div 2\<rparr>) c1;
          c3 = upd (\<lambda>s. if persist_timeout s < MIN_PERSIST_TIMEOUT then s\<lparr>rexmit_timeout := MIN_PERSIST_TIMEOUT\<rparr> else s) c2;
          c4 = upd (\<lambda>s. if MAX_PERSIST_TIMEOUT < persist_timeout s then s\<lparr>rexmit_timeout := MAX_PERSIST_TIMEOUT\<rparr> else s) c3
      in bindE (scheduleTimeout en persistTimer_update (persistTimer c4) (persist_timeout (st c4)) c4) (\<lambda>c5.
         mapE snd (sendProbe en c5)))"

definition processDelayedAckTimer :: "env \<Rightarrow> conn \<Rightarrow> conn res" where
  "processDelayedAckTimer en c = sendAck en (upd (\<lambda>s. s\<lparr>ack_now := True\<rparr>) c)"

definition processKeepAliveTimer :: "conn \<Rightarrow> conn" where
  "processKeepAliveTimer c = c"

definition bound_rto :: "simtime \<Rightarrow> simtime" where
  "bound_rto rto = (if MAX_REXMIT_TIMEOUT < rto then MAX_REXMIT_TIMEOUT else if rto < MIN_REXMIT_TIMEOUT then MIN_REXMIT_TIMEOUT else rto)"

definition rttMeasurementComplete :: "env \<Rightarrow> simtime \<Rightarrow> simtime \<Rightarrow> conn \<Rightarrow> conn" where
  "rttMeasurementComplete en tSent tAcked c =
     (let newRTT = tAcked - tSent in
      upd (\<lambda>s. let err = newRTT - srtt s;
                   srtt1 = srtt s + timesG en err;
                   rttvar1 = rttvar s + timesG en (abs err - rttvar s)
               in s\<lparr>lastrtt := newRTT, minrtt := (if newRTT < minrtt s then newRTT else minrtt s),
                    srtt := srtt1, rttvar := rttvar1, rexmit_timeout := bound_rto (srtt1 + 4 * rttvar1)\<rparr>) c)"

definition rttMeasurementCompleteUsingTS :: "env \<Rightarrow> u32 \<Rightarrow> conn \<Rightarrow> conn res" where
  "rttMeasurementCompleteUsingTS en echoedTS c =
     assertE (ts_enabled (st c)) ''rttMeasurementCompleteUsingTS: ts_enabled''
      (Inr (rttMeasurementComplete en (tsToSimtime en echoedTS) (tsToSimtime en (simtimeToTS en (simTime en))) c))"

definition sendCommandInvoked :: "env \<Rightarrow> conn \<Rightarrow> conn res" where
  "sendCommandInvoked en c = mapE snd (base_sendData en True c)"

definition receivedOutOfOrderSegment :: "env \<Rightarrow> conn \<Rightarrow> conn res" where
  "receivedOutOfOrderSegment en c = sendAck en (upd (\<lambda>s. s\<lparr>ack_now := True\<rparr>) c)"

definition receiveSeqChanged :: "env \<Rightarrow> conn \<Rightarrow> conn res" where
  "receiveSeqChanged en c =
     (let s = st c in
      if full_sized_segment_counter s = 0 \<and> \<not> ack_now s \<and> last_ack_sent s = rcv_nxt s \<and> \<not> isScheduled (delayedAckTimer c)
      then Inr c
      else (let c1 = (if lossRecovery s then upd (\<lambda>s. s\<lparr>ack_now := True\<rparr>) c else c)
            in if \<not> delayed_acks_enabled (st c1) then sendAck_ecn en (ecn (st c1)) c1
               else if ack_now (st c1) then sendAck en c1
               else if 2 \<le> full_sized_segment_counter (st c1) then sendAck en c1
               else if \<not> isScheduled (delayedAckTimer c1)
               then scheduleTimeout en delayedAckTimer_update (delayedAckTimer c1) DELAYED_ACK_TIMEOUT c1
               else Inr c1))"

definition updatePersistTimer :: "env \<Rightarrow> conn \<Rightarrow> conn res" where
  "updatePersistTimer en c =
     (let stopPersist = (\<lambda>c. mapE (upd (\<lambda>s. s\<lparr>persist_factor := 0\<rparr>))
                           (setTimer persistTimer_update (cancelTimer (persistTimer c)) c))
      in if snd_wnd (st c) = 0
         then (if isScheduled (rexmitTimer c)
               then (if isScheduled (persistTimer c) then stopPersist c else Inr c)
               else (if \<not> isScheduled (persistTimer c)
                     then scheduleTimeout en persistTimer_update (persistTimer c) (persist_timeout (st c)) c
                     else Inr c))
         else (if isScheduled (persistTimer c) then stopPersist c else Inr c))"

definition base_receivedDataAck :: "env \<Rightarrow> u32 \<Rightarrow> conn \<Rightarrow> conn res" where
  "base_receivedDataAck en firstSeqAcked c =
     (let s = st c;
          c1 = (if \<not> ts_enabled s \<and> rtseq_sendtime s \<noteq> 0 \<and> seqLess (rtseq s) (snd_una s)
                then upd (\<lambda>s. s\<lparr>rtseq_sendtime := 0\<rparr>) (rttMeasurementComplete en (rtseq_sendtime s) (simTime en) c)
                else c)
      in bindE (if snd_una (st c1) = snd_max (st c1)
                then (if isScheduled (rexmitTimer c1) then setTimer rexmitTimer_update (cancelTimer (rexmitTimer c1)) c1 else Inr c1)
                else bindE (setTimer rexmitTimer_update (cancelTimer (rexmitTimer c1)) c1) (startRexmitTimer en))
           (updatePersistTimer en))"

definition base_receivedDuplicateAck :: "env \<Rightarrow> conn \<Rightarrow> conn res" where
  "base_receivedDuplicateAck en c =
     (let s = st c; fullSegmentsOnly = (nagle_enabled s \<and> snd_una s \<noteq> snd_max s)
      in if dupacks s < DUPTHRESH \<and> limited_transmit_enabled s then sendOneNewSegment en fullSegmentsOnly (snd_cwnd s) c
         else Inr c)"

definition receivedAckForDataNotYetSent :: "env \<Rightarrow> u32 \<Rightarrow> conn \<Rightarrow> conn res" where
  "receivedAckForDataNotYetSent en seq c = sendAck en c"

section \<open>What the three classes share\<close>

definition recalculateSlowStartThreshold :: "conn \<Rightarrow> conn" where
  "recalculateSlowStartThreshold c =
     upd (\<lambda>s. let flight_size = min (snd_cwnd s) (snd_wnd s) in s\<lparr>ssthresh := max (flight_size div 2) (2 * snd_mss s)\<rparr>) c"

text \<open>Slow start below \<open>ssthresh\<close>, else congestion avoidance.\<close>

definition grow_window :: "conn \<Rightarrow> conn res" where
  "grow_window c =
     (let s = st c in
      if snd_cwnd s < ssthresh s then Inr (upd (\<lambda>s. s\<lparr>snd_cwnd := snd_cwnd s + snd_mss s\<rparr>) c)
      else if snd_cwnd s = 0 then Inl (RuntimeError ''division by zero'')
      else (let incr = snd_mss s * snd_mss s div snd_cwnd s;
                incr1 = (if incr = 0 then 1 else incr)
            in Inr (upd (\<lambda>s. s\<lparr>snd_cwnd := snd_cwnd s + incr1\<rparr>) c)))"

section \<open>Tahoe\<close>

definition afterTimeout :: "env \<Rightarrow> conn \<Rightarrow> conn res" where
  "afterTimeout en c =
     retransmitOneSegment en True
       (upd (\<lambda>s. s\<lparr>snd_cwnd := snd_mss s, afterRto := True\<rparr>) (recalculateSlowStartThreshold c))"

definition tahoe_processRexmitTimer :: "env \<Rightarrow> conn \<Rightarrow> (tcp_event \<times> conn) res" where
  "tahoe_processRexmitTimer en c =
     bindE (base_processRexmitTimer en c) (\<lambda>(e, c1).
       if e = TCP_E_ABORT then Inr (e, c1) else mapE (Pair e) (afterTimeout en c1))"

definition tahoe_receivedDataAck :: "env \<Rightarrow> u32 \<Rightarrow> conn \<Rightarrow> conn res" where
  "tahoe_receivedDataAck en firstSeqAcked c =
     bindE (base_receivedDataAck en firstSeqAcked c) (\<lambda>c1.
     bindE (grow_window c1) (\<lambda>c2. mapE snd (base_sendData en False c2)))"

definition tahoe_receivedDuplicateAck :: "env \<Rightarrow> conn \<Rightarrow> conn res" where
  "tahoe_receivedDuplicateAck en c =
     bindE (base_receivedDuplicateAck en c) (\<lambda>c1.
       if dupacks (st c1) = DUPTHRESH
       then retransmitOneSegment en False (upd (\<lambda>s. s\<lparr>snd_cwnd := snd_mss s\<rparr>) (recalculateSlowStartThreshold c1))
       else Inr c1)"

section \<open>Reno\<close>

definition reno_processRexmitTimer :: "env \<Rightarrow> conn \<Rightarrow> (tcp_event \<times> conn) res" where
  "reno_processRexmitTimer en c =
     bindE (base_processRexmitTimer en c) (\<lambda>(e, c1).
       if e = TCP_E_ABORT then Inr (e, c1) else mapE (Pair e) (afterTimeout en c1))"

definition room_in_pipe :: "conn \<Rightarrow> bool" where
  "room_in_pipe c \<longleftrightarrow> sint (snd_mss (st c)) \<le> sint (snd_cwnd (st c) - pipe (st c))"

definition reno_receivedDataAck :: "env \<Rightarrow> u32 \<Rightarrow> conn \<Rightarrow> conn res" where
  "reno_receivedDataAck en firstSeqAcked c =
     bindE (base_receivedDataAck en firstSeqAcked c) (\<lambda>c1.
     bindE (if DUPTHRESH \<le> dupacks (st c1) then Inr (upd (\<lambda>s. s\<lparr>snd_cwnd := ssthresh s\<rparr>) c1) else grow_window c1) (\<lambda>c2.
     bindE (if sack_enabled (st c2) \<and> lossRecovery (st c2)
            then (if seqGE (snd_una (st c2)) (recoveryPoint (st c2))
                  then Inr (upd (\<lambda>s. s\<lparr>lossRecovery := False\<rparr>) c2)
                  else bindE (setPipe c2) (\<lambda>c3.
                         if room_in_pipe c3 then sendDataDuringLossRecoveryPhase en (snd_cwnd (st c3)) c3 else Inr c3))
            else Inr c2) (\<lambda>c4.
       mapE snd (base_sendData en False c4))))"

definition reno_receivedDuplicateAck :: "env \<Rightarrow> conn \<Rightarrow> conn res" where
  "reno_receivedDuplicateAck en c =
     bindE (base_receivedDuplicateAck en c) (\<lambda>c1.
       if dupacks (st c1) = DUPTHRESH
       then (let c2 = upd (\<lambda>s. if sack_enabled s \<and> (recoveryPoint s = 0 \<or> seqGE (snd_una s) (recoveryPoint s))
                               then s\<lparr>recoveryPoint := snd_max s, lossRecovery := True\<rparr> else s) c1;
                 c3 = upd (\<lambda>s. s\<lparr>snd_cwnd := ssthresh s + 3 * snd_mss s\<rparr>) (recalculateSlowStartThreshold c2)
             in bindE (retransmitOneSegment en False c3) (\<lambda>c4.
                bindE (if sack_enabled (st c4)
                       then bindE (setPipe c4) (\<lambda>c5.
                              if lossRecovery (st c5)
                              then bindE (restartRexmitTimer en c5) (\<lambda>c6.
                                     if room_in_pipe c6 then sendDataDuringLossRecoveryPhase en (snd_cwnd (st c6)) c6 else Inr c6)
                              else Inr c5)
                       else Inr c4) (\<lambda>c7.
                  mapE snd (base_sendData en False c7))))
       else if DUPTHRESH < dupacks (st c1)
       then mapE snd (base_sendData en False (upd (\<lambda>s. s\<lparr>snd_cwnd := snd_cwnd s + snd_mss s\<rparr>) c1))
       else Inr c1)"

section \<open>NewReno\<close>

definition newreno_processRexmitTimer :: "env \<Rightarrow> conn \<Rightarrow> (tcp_event \<times> conn) res" where
  "newreno_processRexmitTimer en c =
     bindE (base_processRexmitTimer en c) (\<lambda>(e, c1).
       if e = TCP_E_ABORT then Inr (e, c1)
       else mapE (Pair e) (afterTimeout en
              (upd (\<lambda>s. s\<lparr>recover := snd_max s - 1, lossRecovery := False, firstPartialACK := False\<rparr>) c1)))"

definition newreno_partial_ack :: "env \<Rightarrow> u32 \<Rightarrow> conn \<Rightarrow> conn res" where
  "newreno_partial_ack en firstSeqAcked c =
     bindE (retransmitOneSegment en False c) (\<lambda>c1.
     let acked = snd_una (st c1) - firstSeqAcked;
         c2 = upd (\<lambda>s. s\<lparr>snd_cwnd := snd_cwnd s - acked\<rparr>) c1;
         c3 = upd (\<lambda>s. if snd_mss s \<le> acked then s\<lparr>snd_cwnd := snd_cwnd s + snd_mss s\<rparr> else s) c2
     in bindE (base_sendData en False c3) (\<lambda>(sent, c4).
        if lossRecovery (st c4) \<and> \<not> firstPartialACK (st c4)
        then restartRexmitTimer en (upd (\<lambda>s. s\<lparr>firstPartialACK := True\<rparr>) c4) else Inr c4))"

definition newreno_receivedDataAck :: "env \<Rightarrow> u32 \<Rightarrow> conn \<Rightarrow> conn res" where
  "newreno_receivedDataAck en firstSeqAcked c =
     bindE (base_receivedDataAck en firstSeqAcked c) (\<lambda>c1.
     bindE (if lossRecovery (st c1)
            then (if seqGE (snd_una (st c1) - 1) (recover (st c1))
                  then Inr (upd (\<lambda>s. s\<lparr>snd_cwnd := min (ssthresh s) (snd_max s - snd_una s + snd_mss s),
                                        lossRecovery := False, firstPartialACK := False\<rparr>) c1)
                  else newreno_partial_ack en firstSeqAcked c1)
            else bindE (grow_window c1) (\<lambda>c2. Inr (upd (\<lambda>s. s\<lparr>recover := snd_una s - 2\<rparr>) c2))) (\<lambda>c3.
       mapE snd (base_sendData en False c3)))"

definition newreno_receivedDuplicateAck :: "env \<Rightarrow> conn \<Rightarrow> conn res" where
  "newreno_receivedDuplicateAck en c =
     bindE (base_receivedDuplicateAck en c) (\<lambda>c1.
       let s = st c1 in
       if dupacks s = DUPTHRESH
       then (if \<not> lossRecovery s \<and> recover s < snd_una s - 1
             then (let c2 = recalculateSlowStartThreshold c1;
                       c3 = upd (\<lambda>s. s\<lparr>recover := snd_max s - 1, firstPartialACK := False, lossRecovery := True,
                                        snd_cwnd := ssthresh s + 3 * snd_mss s\<rparr>) c2
                   in bindE (retransmitOneSegment en False c3) (\<lambda>c4. mapE snd (base_sendData en False c4)))
             else Inr c1)
       else if DUPTHRESH < dupacks s \<and> lossRecovery s
       then mapE snd (base_sendData en False (upd (\<lambda>s. s\<lparr>snd_cwnd := snd_cwnd s + snd_mss s\<rparr>) c1))
       else Inr c1)"

section \<open>The virtual methods\<close>

definition processRexmitTimer :: "env \<Rightarrow> conn \<Rightarrow> (tcp_event \<times> conn) res" where
  "processRexmitTimer en c =
     (case tcpAlgorithm c of
        TCPTahoe \<Rightarrow> tahoe_processRexmitTimer en c
      | TCPReno \<Rightarrow> reno_processRexmitTimer en c
      | TCPNewReno \<Rightarrow> newreno_processRexmitTimer en c)"

definition receivedDataAck :: "env \<Rightarrow> u32 \<Rightarrow> conn \<Rightarrow> conn res" where
  "receivedDataAck en firstSeqAcked c =
     (case tcpAlgorithm c of
        TCPTahoe \<Rightarrow> tahoe_receivedDataAck en firstSeqAcked c
      | TCPReno \<Rightarrow> reno_receivedDataAck en firstSeqAcked c
      | TCPNewReno \<Rightarrow> newreno_receivedDataAck en firstSeqAcked c)"

definition receivedDuplicateAck :: "env \<Rightarrow> conn \<Rightarrow> conn res" where
  "receivedDuplicateAck en c =
     (case tcpAlgorithm c of
        TCPTahoe \<Rightarrow> tahoe_receivedDuplicateAck en c
      | TCPReno \<Rightarrow> reno_receivedDuplicateAck en c
      | TCPNewReno \<Rightarrow> newreno_receivedDuplicateAck en c)"

text \<open>The timers that \<open>TCPBaseAlg::processTimer\<close> tells apart.\<close>

datatype alg_timer = RexmitTimer | PersistTimer | DelayedAckTimer | KeepAliveTimer

definition alg_processTimer :: "env \<Rightarrow> alg_timer \<Rightarrow> conn \<Rightarrow> (tcp_event \<times> conn) res" where
  "alg_processTimer en t c =
     (case t of
        RexmitTimer \<Rightarrow> processRexmitTimer en c
      | PersistTimer \<Rightarrow> mapE (Pair TCP_E_IGNORE) (processPersistTimer en c)
      | DelayedAckTimer \<Rightarrow> mapE (Pair TCP_E_IGNORE) (processDelayedAckTimer en c)
      | KeepAliveTimer \<Rightarrow> Inr (TCP_E_IGNORE, processKeepAliveTimer c))"

end
