(* ===== verification/Tcp_Maps.thy ===== *)
theory Tcp_Maps
  imports Tcp_State "HOL-Library.Multiset"
begin

text \<open>
  The tables of the TCP module, \<open>src/transport/tcp/TCP.cc\<close>: the connections by socket pair and by application
  key, and the ephemeral ports in use.

  A pointer to a connection is a \<open>conn_ref\<close>.  The operations that the code calls with a connection take the
  reference and the connection, and return the connection changed.  \<open>maps_ok\<close> is what they keep true: a
  connection that is registered is registered under its own addresses, ports and identifiers, and a port of the
  ephemeral range is counted as often as it is a local port of the table.
\<close>

type_synonym conn_ref = nat

text \<open>\<open>SockPair\<close>: local and remote address, local and remote port; -1 is an unspecified port.\<close>

datatype sock_pair = SockPair (sp_localAddr: ipvx) (sp_remoteAddr: ipvx) (sp_localPort: int) (sp_remotePort: int)

datatype app_conn_key = AppConnKey (ak_gate: int) (ak_connId: int)

record tcp_maps =
  tcpConnMap :: "sock_pair \<Rightarrow> conn_ref option"
  tcpAppConnMap :: "app_conn_key \<Rightarrow> conn_ref option"
  usedEphemeralPorts :: "u16 multiset"
  lastEphemeralPort :: u16

definition EPHEMERAL_PORTRANGE_START :: u16 where "EPHEMERAL_PORTRANGE_START = 1024"
definition EPHEMERAL_PORTRANGE_END :: u16 where "EPHEMERAL_PORTRANGE_END = 5000"

definition unspecifiedAddr :: ipvx where
  "unspecifiedAddr = IPv4A 0"

definition sock_key :: "conn \<Rightarrow> sock_pair" where
  "sock_key c = SockPair (localAddr c) (remoteAddr c) (localPort c) (remotePort c)"

definition app_key :: "conn \<Rightarrow> app_conn_key" where
  "app_key c = AppConnKey (appGateIndex c) (connId c)"

section \<open>Look-up\<close>

text \<open>The first of the four keys under which there is a connection.\<close>

definition findConnForSegment :: "tcp_segment \<Rightarrow> ipvx \<Rightarrow> ipvx \<Rightarrow> tcp_maps \<Rightarrow> conn_ref option" where
  "findConnForSegment tcpseg srcAddr destAddr m =
     (let lport = uint (destPort tcpseg); rport = uint (srcPort tcpseg) in
      case tcpConnMap m (SockPair destAddr srcAddr lport rport) of
        Some r \<Rightarrow> Some r
      | None \<Rightarrow>
          (case tcpConnMap m (SockPair unspecifiedAddr srcAddr lport rport) of
             Some r \<Rightarrow> Some r
           | None \<Rightarrow>
               (case tcpConnMap m (SockPair destAddr unspecifiedAddr lport (-1)) of
                  Some r \<Rightarrow> Some r
                | None \<Rightarrow> tcpConnMap m (SockPair unspecifiedAddr unspecifiedAddr lport (-1)))))"

definition findConnForApp :: "int \<Rightarrow> int \<Rightarrow> tcp_maps \<Rightarrow> conn_ref option" where
  "findConnForApp gate cid m = tcpAppConnMap m (AppConnKey gate cid)"

section \<open>Ephemeral ports\<close>

text \<open>The step to the next port, with the wrap at the end of the range.\<close>

definition next_port :: "u16 \<Rightarrow> u16" where
  "next_port p = (if p + 1 = EPHEMERAL_PORTRANGE_END then EPHEMERAL_PORTRANGE_START else p + 1)"

primrec ephemeral_loop :: "nat \<Rightarrow> u16 multiset \<Rightarrow> u16 \<Rightarrow> u16 \<Rightarrow> u16 res" where
  "ephemeral_loop 0 used searchUntil port = Inl (Diverges ''getEphemeralPort'')"
| "ephemeral_loop (Suc n) used searchUntil port =
     (if port \<in># used
      then (if port = searchUntil then Inl (RuntimeError ''Ephemeral port range exhausted, all ports occupied'')
            else ephemeral_loop n used searchUntil (next_port port))
      else Inr port)"

text \<open>The range has 3976 ports, so the fuel is enough.\<close>

definition getEphemeralPort :: "tcp_maps \<Rightarrow> (u16 \<times> tcp_maps) res" where
  "getEphemeralPort m =
     (let searchUntil = lastEphemeralPort m in
      mapE (\<lambda>p. (p, m\<lparr>lastEphemeralPort := p\<rparr>))
        (ephemeral_loop 65536 (usedEphemeralPorts m) searchUntil (next_port searchUntil)))"

section \<open>Registration\<close>

definition set_sock_pair :: "ipvx \<Rightarrow> ipvx \<Rightarrow> int \<Rightarrow> int \<Rightarrow> conn \<Rightarrow> conn" where
  "set_sock_pair la ra lp rp c = c\<lparr>localAddr := la, remoteAddr := ra, localPort := lp, remotePort := rp\<rparr>"

definition in_ephemeral_range :: "int \<Rightarrow> bool" where
  "in_ephemeral_range p \<longleftrightarrow> uint EPHEMERAL_PORTRANGE_START \<le> p \<and> p < uint EPHEMERAL_PORTRANGE_END"

definition addSockPair ::
  "conn_ref \<Rightarrow> ipvx \<Rightarrow> ipvx \<Rightarrow> int \<Rightarrow> int \<Rightarrow> conn \<times> tcp_maps \<Rightarrow> (conn \<times> tcp_maps) res" where
  "addSockPair r la ra lp rp = (\<lambda>(c, m).
     let c1 = set_sock_pair la ra lp rp c; key = sock_key c1 in
     if tcpConnMap m key \<noteq> None then Inl (RuntimeError ''Address already in use'')
     else Inr (c1, m\<lparr>tcpConnMap := (tcpConnMap m)(key \<mapsto> r),
                    usedEphemeralPorts := (if in_ephemeral_range lp then add_mset (word_of_int lp) (usedEphemeralPorts m)
                                           else usedEphemeralPorts m)\<rparr>))"

definition updateSockPair ::
  "conn_ref \<Rightarrow> ipvx \<Rightarrow> ipvx \<Rightarrow> int \<Rightarrow> int \<Rightarrow> conn \<times> tcp_maps \<Rightarrow> (conn \<times> tcp_maps) res" where
  "updateSockPair r la ra lp rp = (\<lambda>(c, m).
     assertE (tcpConnMap m (sock_key c) = Some r) ''updateSockPair: registered''
      (assertE (localPort c = lp) ''updateSockPair: localPort''
        (let c1 = set_sock_pair la ra lp rp c
         in Inr (c1, m\<lparr>tcpConnMap := (tcpConnMap m)(sock_key c := None, sock_key c1 \<mapsto> r)\<rparr>))))"

text \<open>
  \<open>r\<close> is \<open>conn\<close>, which takes the socket pair and the new identifier \<open>uniqueNumber\<close>, \<open>r'\<close> the listening \<open>newConn\<close>.
\<close>

definition addForkedConnection ::
  "int \<Rightarrow> conn_ref \<Rightarrow> conn_ref \<Rightarrow> ipvx \<Rightarrow> ipvx \<Rightarrow> int \<Rightarrow> int \<Rightarrow> conn \<Rightarrow> conn \<times> tcp_maps \<Rightarrow> ((conn \<times> conn) \<times> tcp_maps) res" where
  "addForkedConnection uniqueNumber r r' la ra lp rp newConn = (\<lambda>(c, m).
     bindE (updateSockPair r la ra lp rp (c, m)) (\<lambda>(c1, m1).
     bindE (addSockPair r' (localAddr newConn) (remoteAddr newConn) (localPort newConn) (remotePort newConn) (newConn, m1))
       (\<lambda>(newConn1, m2).
         let c2 = c1\<lparr>connId := uniqueNumber\<rparr>
         in Inr ((c2, newConn1),
              m2\<lparr>tcpAppConnMap := (tcpAppConnMap m2)(app_key c1 := None, app_key c2 \<mapsto> r, app_key newConn1 \<mapsto> r')\<rparr>))))"

definition unregister :: "conn \<Rightarrow> tcp_maps \<Rightarrow> tcp_maps" where
  "unregister c m =
     m\<lparr>tcpAppConnMap := (tcpAppConnMap m)(app_key c := None), tcpConnMap := (tcpConnMap m)(sock_key c := None),
       usedEphemeralPorts := usedEphemeralPorts m - {#word_of_int (localPort c)#}\<rparr>"

definition reset_maps :: "tcp_maps \<Rightarrow> tcp_maps" where
  "reset_maps m = m\<lparr>tcpAppConnMap := \<lambda>_. None, tcpConnMap := \<lambda>_. None, usedEphemeralPorts := {#},
     lastEphemeralPort := EPHEMERAL_PORTRANGE_START\<rparr>"


section \<open>Ephemeral ports: the search visits every port of the range once\<close>

definition port_index :: "u16 \<Rightarrow> nat" where
  "port_index p = unat p - 1024"

definition in_range :: "u16 \<Rightarrow> bool" where
  "in_range p \<longleftrightarrow> EPHEMERAL_PORTRANGE_START \<le> p \<and> p < EPHEMERAL_PORTRANGE_END"

lemma in_range_nat: "in_range p \<longleftrightarrow> 1024 \<le> unat p \<and> unat p < 5000"
  by (simp add: in_range_def EPHEMERAL_PORTRANGE_START_def EPHEMERAL_PORTRANGE_END_def word_le_nat_alt word_less_nat_alt)

lemma next_port_index:
  assumes "in_range p"
  shows "in_range (next_port p)" "port_index (next_port p) = Suc (port_index p) mod 3976"
proof -
  have u: "unat (p + 1) = unat p + 1"
    using assms by (simp add: in_range_nat unat_word_ariths)
  then have "p + 1 = 5000 \<longleftrightarrow> unat p = 4999"
    by (simp add: word_unat_eq_iff)
  then show "in_range (next_port p)" "port_index (next_port p) = Suc (port_index p) mod 3976"
    using assms u by (auto simp: next_port_def in_range_nat port_index_def EPHEMERAL_PORTRANGE_END_def EPHEMERAL_PORTRANGE_START_def)
qed

lemma iter_port_index:
  assumes "in_range p"
  shows "in_range ((next_port ^^ i) p) \<and> port_index ((next_port ^^ i) p) = (port_index p + i) mod 3976"
proof (induction i)
  case 0
  show ?case using assms by (auto simp: in_range_nat port_index_def)
next
  case (Suc i)
  then show ?case
    using next_port_index[of "(next_port ^^ i) p"] by (simp add: mod_Suc_eq)
qed

lemma port_index_inj: "in_range p \<Longrightarrow> in_range q \<Longrightarrow> port_index p = port_index q \<Longrightarrow> p = q"
  by (auto simp: in_range_nat port_index_def word_unat_eq_iff)

lemma ephemeral_loop_run:
  assumes "s = (next_port ^^ d) p" "\<forall>i < d. (next_port ^^ i) p \<noteq> s" "d < n"
  shows "ephemeral_loop n used s p =
    (case find (\<lambda>q. q \<notin># used) (map (\<lambda>i. (next_port ^^ i) p) [0..<Suc d]) of
       Some q \<Rightarrow> Inr q | None \<Rightarrow> Inl (RuntimeError ''Ephemeral port range exhausted, all ports occupied''))"
  using assms
proof (induction d arbitrary: p n)
  case 0
  then obtain n' where "n = Suc n'" by (cases n) auto
  then show ?case using 0 by simp
next
  case (Suc d)
  then obtain n' where n: "n = Suc n'" "d < n'" by (cases n) auto
  have s: "s = (next_port ^^ d) (next_port p)" "\<forall>i < d. (next_port ^^ i) (next_port p) \<noteq> s" "p \<noteq> s"
    using Suc.prems by (force simp: funpow_swap1)+
  have "map (\<lambda>i. (next_port ^^ i) p) [0..<Suc (Suc d)] = p # map (\<lambda>i. (next_port ^^ i) (next_port p)) [0..<Suc d]"
    by (rule nth_equalityI) (auto simp: nth_Cons funpow_swap1 simp del: upt_Suc split: nat.split)
  then show ?case
    using Suc.IH[OF s(1,2) n(2)] n(1) s(3) by (auto simp del: upt_Suc)
qed

lemma find_None_all: "find P xs = None \<longleftrightarrow> (\<forall>x \<in> set xs. \<not> P x)"
  by (induction xs) auto

lemma find_Some_in: "find P xs = Some x \<Longrightarrow> x \<in> set xs \<and> P x"
  by (induction xs) (auto split: if_splits)

lemma range_visited:
  assumes "in_range s"
  shows "set (map (\<lambda>i. (next_port ^^ i) (next_port s)) [0..<3976]) = {p. in_range p}"
proof (intro set_eqI iffI)
  fix q
  assume "q \<in> {p. in_range p}"
  then have q: "in_range q" "port_index q < 3976" by (auto simp: in_range_nat port_index_def)
  let ?a = "port_index (next_port s)"
  have a: "?a < 3976" "in_range (next_port s)" using next_port_index[OF assms] by simp_all
  let ?i = "(port_index q + 3976 - ?a) mod 3976"
  have "(?a + ?i) mod 3976 = (?a + (port_index q + 3976 - ?a)) mod 3976"
    by (simp add: mod_add_right_eq)
  also have "\<dots> = port_index q" using a q(2) by simp
  finally have "(next_port ^^ ?i) (next_port s) = q"
    using iter_port_index[OF a(2), of ?i] q(1) port_index_inj by simp
  then show "q \<in> set (map (\<lambda>i. (next_port ^^ i) (next_port s)) [0..<3976])"
    by (auto intro!: rev_image_eqI[of ?i])
next
  fix q
  assume "q \<in> set (map (\<lambda>i. (next_port ^^ i) (next_port s)) [0..<3976])"
  then show "q \<in> {p. in_range p}" using iter_port_index[OF next_port_index(1)[OF assms]] by auto
qed

lemma search_run:
  assumes "in_range s"
  shows "ephemeral_loop 65536 used s (next_port s) =
    (case find (\<lambda>q. q \<notin># used) (map (\<lambda>i. (next_port ^^ i) (next_port s)) [0..<3976]) of
       Some q \<Rightarrow> Inr q | None \<Rightarrow> Inl (RuntimeError ''Ephemeral port range exhausted, all ports occupied''))"
proof -
  note n = next_port_index[OF assms]
  have idx: "port_index ((next_port ^^ i) (next_port s)) = (port_index s + Suc i) mod 3976" for i
    using iter_port_index[OF n(1), of i] n(2) by (simp add: mod_add_left_eq mod_Suc_eq)
  have s: "port_index s < 3976" using assms by (auto simp: in_range_nat port_index_def)
  have "s = (next_port ^^ 3975) (next_port s)"
    using iter_port_index[OF n(1), of 3975] idx[of 3975] s assms by (intro port_index_inj) auto
  moreover have "(next_port ^^ i) (next_port s) \<noteq> s" if "i < 3975" for i
  proof
    assume "(next_port ^^ i) (next_port s) = s"
    then have "(port_index s + Suc i) mod 3976 = port_index s" using idx[of i] by simp
    then show False using s that by (simp add: mod_if split: if_splits)
  qed
  ultimately show ?thesis
    using ephemeral_loop_run[of s 3975 "next_port s" 65536 used] by simp
qed

text \<open>
  C16. \<open>getEphemeralPort\<close> ends after at most one round over the range: it returns a port of the range that is not
  in use, and remembers it, whenever there is one; only when every port of the range is in use it reports that
  the range is exhausted.
\<close>

theorem getEphemeralPort_finds_a_free_port:
  assumes "in_range (lastEphemeralPort m)"
  shows "if \<forall>q. in_range q \<longrightarrow> q \<in># usedEphemeralPorts m
    then getEphemeralPort m = Inl (RuntimeError ''Ephemeral port range exhausted, all ports occupied'')
    else \<exists>p. getEphemeralPort m = Inr (p, m\<lparr>lastEphemeralPort := p\<rparr>) \<and> in_range p \<and> p \<notin># usedEphemeralPorts m"
proof -
  let ?xs = "map (\<lambda>i. (next_port ^^ i) (next_port (lastEphemeralPort m))) [0..<3976]"
  note run = search_run[OF assms, of "usedEphemeralPorts m"] and vis = range_visited[OF assms]
  show ?thesis
  proof (cases "find (\<lambda>q. q \<notin># usedEphemeralPorts m) ?xs")
    case None
    then have "\<forall>q. in_range q \<longrightarrow> q \<in># usedEphemeralPorts m"
      using vis unfolding find_None_all by blast
    then show ?thesis using None run by (simp add: getEphemeralPort_def Let_def)
  next
    case (Some p)
    then have "in_range p" "p \<notin># usedEphemeralPorts m" using find_Some_in[OF Some] vis by auto
    then show ?thesis using Some run by (auto simp: getEphemeralPort_def Let_def)
  qed
qed

lemma getEphemeralPort_witness:
  "\<exists>p. getEphemeralPort \<lparr>tcpConnMap = \<lambda>_. None, tcpAppConnMap = \<lambda>_. None, usedEphemeralPorts = {#1025#}, lastEphemeralPort = 1024\<rparr>
     = Inr (p, \<lparr>tcpConnMap = \<lambda>_. None, tcpAppConnMap = \<lambda>_. None, usedEphemeralPorts = {#1025#}, lastEphemeralPort = p\<rparr>)
   \<and> in_range p \<and> p \<noteq> 1025"
proof -
  let ?m = "\<lparr>tcpConnMap = \<lambda>_. None, tcpAppConnMap = \<lambda>_. None, usedEphemeralPorts = {#1025#}, lastEphemeralPort = 1024\<rparr>"
  have r: "in_range (lastEphemeralPort ?m)" by (simp add: in_range_nat)
  have n: "\<not> (\<forall>q. in_range q \<longrightarrow> q \<in># usedEphemeralPorts ?m)"
    by (rule notI) (drule spec[of _ 1026], simp add: in_range_nat)
  show ?thesis using getEphemeralPort_finds_a_free_port[OF r, unfolded if_not_P[OF n]] by simp
qed


section \<open>Look-up finds the most specific match\<close>

text \<open>
  A key matches a segment when each of its parts is that of the segment or left open; the remote address and port
  are open together.  A match with the remote side beats one without, then a match with the local address.
\<close>

definition matches :: "tcp_segment \<Rightarrow> ipvx \<Rightarrow> ipvx \<Rightarrow> sock_pair \<Rightarrow> bool" where
  "matches tcpseg srcAddr destAddr k \<longleftrightarrow> sp_localPort k = uint (destPort tcpseg)
     \<and> (sp_localAddr k = destAddr \<or> sp_localAddr k = unspecifiedAddr)
     \<and> (sp_remoteAddr k = srcAddr \<and> sp_remotePort k = uint (srcPort tcpseg)
        \<or> sp_remoteAddr k = unspecifiedAddr \<and> sp_remotePort k = -1)"

definition specificity :: "sock_pair \<Rightarrow> nat" where
  "specificity k = (if sp_remotePort k = -1 then 0 else 2) + (if sp_localAddr k = unspecifiedAddr then 0 else 1)"

definition first_of4 :: "('k \<Rightarrow> 'r option) \<Rightarrow> 'k \<Rightarrow> 'k \<Rightarrow> 'k \<Rightarrow> 'k \<Rightarrow> 'r option" where
  "first_of4 f k1 k2 k3 k4 =
     (case f k1 of Some r \<Rightarrow> Some r | None \<Rightarrow> (case f k2 of Some r \<Rightarrow> Some r | None \<Rightarrow>
       (case f k3 of Some r \<Rightarrow> Some r | None \<Rightarrow> f k4)))"

lemma first_of4_None:
  "first_of4 f k1 k2 k3 k4 = None \<Longrightarrow> f k1 = None \<and> f k2 = None \<and> f k3 = None \<and> f k4 = None"
  by (auto simp: first_of4_def split: option.splits)

lemma first_of4_Some:
  fixes spec :: "'k \<Rightarrow> nat"
  assumes "first_of4 f k1 k2 k3 k4 = Some r" "spec k2 \<le> spec k1" "spec k3 \<le> spec k2" "spec k4 \<le> spec k3"
  shows "\<exists>k. f k = Some r \<and> (k = k1 \<or> k = k2 \<or> k = k3 \<or> k = k4)
    \<and> (\<forall>k' \<in> dom f. (k' = k1 \<or> k' = k2 \<or> k' = k3 \<or> k' = k4) \<longrightarrow> spec k' \<le> spec k)"
proof (cases "f k1")
  case (Some r1)
  then show ?thesis using assms by (intro exI[of _ k1]) (auto simp: first_of4_def)
next
  case n1: None
  show ?thesis
  proof (cases "f k2")
    case (Some r2)
    then show ?thesis using assms n1 by (intro exI[of _ k2]) (auto simp: first_of4_def)
  next
    case n2: None
    then show ?thesis using assms n1
      by (cases "f k3") (force simp: first_of4_def)+
  qed
qed

text \<open>
  A segment goes to the most specific connection: \<open>findConnForSegment\<close> finds nothing only if no registered
  socket pair matches the segment, and otherwise a registered one that matches and is at least as specific as
  every other that matches.
\<close>

theorem findConnForSegment_most_specific:
  "case findConnForSegment tcpseg srcAddr destAddr m of
     None \<Rightarrow> \<not> (\<exists>k \<in> dom (tcpConnMap m). matches tcpseg srcAddr destAddr k)
   | Some r \<Rightarrow> \<exists>k. tcpConnMap m k = Some r \<and> matches tcpseg srcAddr destAddr k
        \<and> \<not> (\<exists>k' \<in> dom (tcpConnMap m). matches tcpseg srcAddr destAddr k' \<and> specificity k < specificity k')"
proof -
  let ?l = "uint (destPort tcpseg)" and ?r = "uint (srcPort tcpseg)"
  let ?k1 = "SockPair destAddr srcAddr ?l ?r" and ?k2 = "SockPair unspecifiedAddr srcAddr ?l ?r"
  let ?k3 = "SockPair destAddr unspecifiedAddr ?l (-1)" and ?k4 = "SockPair unspecifiedAddr unspecifiedAddr ?l (-1)"
  have m: "matches tcpseg srcAddr destAddr k \<longleftrightarrow> k = ?k1 \<or> k = ?k2 \<or> k = ?k3 \<or> k = ?k4" for k
    by (cases k) (auto simp: matches_def)
  have nz: "?r \<noteq> -1" by (metis uint_nonnegative neg_0_le_iff_le not_one_le_zero)
  have le: "specificity ?k2 \<le> specificity ?k1" "specificity ?k3 \<le> specificity ?k2" "specificity ?k4 \<le> specificity ?k3"
    using nz by (simp_all add: specificity_def)
  have eq: "findConnForSegment tcpseg srcAddr destAddr m = first_of4 (tcpConnMap m) ?k1 ?k2 ?k3 ?k4"
    by (simp add: findConnForSegment_def first_of4_def Let_def)
  show ?thesis
  proof (cases "findConnForSegment tcpseg srcAddr destAddr m")
    case None
    then show ?thesis using first_of4_None[of "tcpConnMap m" ?k1 ?k2 ?k3 ?k4] unfolding eq[symmetric] m by auto
  next
    case (Some r)
    then obtain k where k: "tcpConnMap m k = Some r" "k = ?k1 \<or> k = ?k2 \<or> k = ?k3 \<or> k = ?k4"
      "\<forall>k' \<in> dom (tcpConnMap m). (k' = ?k1 \<or> k' = ?k2 \<or> k' = ?k3 \<or> k' = ?k4) \<longrightarrow> specificity k' \<le> specificity k"
      using first_of4_Some[of "tcpConnMap m" ?k1 ?k2 ?k3 ?k4 r, OF _ le] unfolding eq by blast
    have "\<not> (\<exists>k' \<in> dom (tcpConnMap m). matches tcpseg srcAddr destAddr k' \<and> specificity k < specificity k')"
      using k(3) unfolding m by (meson not_less)
    then show ?thesis using Some k(1) k(2)[folded m] by auto
  qed
qed

end
