(* ===== verification/Tcp_Conn.thy ===== *)
theory Tcp_Conn
  imports Tcp_Alg Tcp_Maps
begin

text \<open>
  Setting up a connection: the constructor of \<open>TCPConnection\<close> (\<open>TCPConnectionBase.cc\<close>), \<open>initConnection\<close>,
  \<open>configureStateVariables\<close>, \<open>cloneListeningConnection\<close> and \<open>selectInitialSeqNum\<close>
  (\<open>TCPConnectionUtil.cc\<close>), and the queues that the module creates (\<open>TCP.cc\<close>).

  A connection in state INIT has no queues, no algorithm and no state variables.  The record has values in these
  fields all the same; no handler of the code, and none of the model, uses them before \<open>initConnection\<close>.
\<close>

text \<open>\<open>TCPOpenCommand\<close>; \<open>op_tcpAlgorithmClass\<close> is \<open>None\<close> where the command does not choose one.\<close>

record open_cmd =
  op_localAddr :: ipvx
  op_remoteAddr :: ipvx
  op_localPort :: int
  op_remotePort :: int
  op_fork :: bool
  op_dataTransferMode :: transfer_mode
  op_tcpAlgorithmClass :: "flavour option"

definition createSendQueue :: "transfer_mode \<Rightarrow> snd_queue res" where
  "createSendQueue mode =
     (case mode of
        TCP_TRANSFER_BYTECOUNT \<Rightarrow> Inr (VirtualDataSendQueue 0 0)
      | TCP_TRANSFER_OBJECT \<Rightarrow> Inr (MsgBasedSendQueue 0 0 [])
      | TCP_TRANSFER_BYTESTREAM \<Rightarrow> Inr (ByteStreamSendQueue 0 0 bb_new)
      | TCP_TRANSFER_UNDEFINED \<Rightarrow> Inl (RuntimeError ''Invalid TCP data transfer mode''))"

text \<open>The constructors of the receive queues leave \<open>rcv_nxt\<close> as it is, here \<open>g\<close>.\<close>

definition createReceiveQueue :: "u32 \<Rightarrow> transfer_mode \<Rightarrow> rcv_queue res" where
  "createReceiveQueue g mode =
     (case mode of
        TCP_TRANSFER_BYTECOUNT \<Rightarrow> Inr (VirtualDataRcvQueue (rcvq_init g))
      | TCP_TRANSFER_OBJECT \<Rightarrow> Inr (MsgBasedRcvQueue (rcvq_init g) [])
      | TCP_TRANSFER_BYTESTREAM \<Rightarrow> Inr (ByteStreamRcvQueue (rcvq_init g))
      | TCP_TRANSFER_UNDEFINED \<Rightarrow> Inl (RuntimeError ''Invalid TCP data transfer mode''))"

definition new_conn :: "tcp_pars \<Rightarrow> int \<Rightarrow> int \<Rightarrow> conn" where
  "new_conn par gate cid = \<lparr>
     appGateIndex = gate, connId = cid, localAddr = unspecifiedAddr, remoteAddr = unspecifiedAddr, localPort = -1,
     remotePort = -1, fsm = TCP_S_INIT, st = new_state_variables, sendQueue = VirtualDataSendQueue 0 0,
     receiveQueue = VirtualDataRcvQueue (rcvq_init 0), transferMode = TCP_TRANSFER_UNDEFINED, rexmitQ = None,
     tcpAlgorithm = TCPReno, the2MSLTimer = TimerIdle, connEstabTimer = TimerIdle, finWait2Timer = TimerIdle,
     synRexmitTimer = TimerIdle, rexmitTimer = TimerNULL, persistTimer = TimerNULL, delayedAckTimer = TimerNULL,
     keepAliveTimer = TimerNULL, paceTimer = TimerNULL, rateUpdateTimer = TimerNULL,
     recordStatistics = par_recordStats par, hasModule = True, outs = []\<rparr>"

text \<open>The checks run on the parameter of the module, whichever class the connection has.\<close>

definition configureStateVariables :: "tcp_pars \<Rightarrow> conn \<Rightarrow> conn res" where
  "configureStateVariables par c =
     (let w = par_advertisedWindow par; ws = par_windowScalingSupport par in
      if \<not> ws \<and> (uint TCP_MAX_WIN < w \<or> w \<le> 0) then Inl (RuntimeError ''Invalid advertisedWindow parameter'')
      else (let win = (if ws \<and> uint TCP_MAX_WIN < w then TCP_MAX_WIN else word_of_int w) in
            assertE (\<not> par_sackSupport par \<or> par_tcpAlgorithmClass par = TCPReno) ''configureStateVariables: SACK needs TCPReno''
              (Inr (upd (\<lambda>s. s\<lparr>ws_support := ws, rcv_wnd := win, rcv_adv := win, maxRcvBuffer := word_of_int w,
                      delayed_acks_enabled := par_delayedAcksEnabled par, nagle_enabled := par_nagleEnabled par,
                      limited_transmit_enabled := par_limitedTransmitEnabled par,
                      increased_IW_enabled := par_increasedIWEnabled par, snd_mss := word_of_int (par_mss par),
                      ts_support := par_timestampSupport par, sack_support := par_sackSupport par\<rparr>) c))))"

definition initConnection :: "tcp_pars \<Rightarrow> open_cmd \<Rightarrow> conn \<Rightarrow> conn res" where
  "initConnection par cmd c =
     (let mode = op_dataTransferMode cmd in
      bindE (createSendQueue mode) (\<lambda>sq.
      bindE (createReceiveQueue (uninitialised par) mode) (\<lambda>rq.
      bindE (configureStateVariables par
              (c\<lparr>transferMode := mode, sendQueue := sq, receiveQueue := rq, rexmitQ := Some rq_new,
                 tcpAlgorithm := (case op_tcpAlgorithmClass cmd of Some a \<Rightarrow> a | None \<Rightarrow> par_tcpAlgorithmClass par),
                 st := new_state_variables\<rparr>)) (\<lambda>c1.
        Inr (alg_initialize c1)))))"

text \<open>
  The result is the clone, which goes on listening, and the connection itself.  The code creates the
  retransmission queue for the connection itself, not for the clone, and configures the state variables of the
  connection itself; so does the model.
\<close>

definition cloneListeningConnection :: "tcp_pars \<Rightarrow> conn \<Rightarrow> (conn \<times> conn) res" where
  "cloneListeningConnection par c =
     bindE (createSendQueue (transferMode c)) (\<lambda>sq.
     bindE (createReceiveQueue (uninitialised par) (transferMode c)) (\<lambda>rq.
     bindE (configureStateVariables par (c\<lparr>rexmitQ := Some rq_new\<rparr>)) (\<lambda>c1.
       Inr (upd (\<lambda>s. s\<lparr>active := False, fork := True\<rparr>)
              (alg_initialize ((new_conn par (appGateIndex c) (connId c))\<lparr>transferMode := transferMode c, sendQueue := sq,
                 receiveQueue := rq, tcpAlgorithm := tcpAlgorithm c, st := new_state_variables, localAddr := localAddr c,
                 localPort := localPort c, fsm := TCP_S_LISTEN\<rparr>)), c1))))"

definition selectInitialSeqNum :: "env \<Rightarrow> conn \<Rightarrow> conn res" where
  "selectInitialSeqNum en c =
     (let i = issOfTime en;
          c1 = upd (\<lambda>s. s\<lparr>iss := i, snd_una := i, snd_nxt := i, snd_max := i\<rparr>) c
      in withRexmitQ c1 (\<lambda>q. Inr (c1\<lparr>sendQueue := snd_init (i + 1) (sendQueue c1), rexmitQ := Some (rq_init (i + 1) q)\<rparr>)))"

end
