(* ===== verification/Tcp_Rcv.thy ===== *)
theory Tcp_Rcv
  imports Tcp_Conn
begin

text \<open>
  Arriving segments and the timers of connection setup: \<open>src/transport/tcp/TCPConnectionRcvSegment.cc\<close>.

  \<open>processSegment1stThru8th\<close> is one function of the code; here every step of RFC 793 that the code numbers is a
  definition, and \<open>processSegment1stThru8th\<close> runs them in order.  The result of a step that may return early says
  whether it does, with the event code it returns.  The state \<open>fsm\<close> of the connection changes in none of them.

  The counters of DCTCP in \<open>processAckInEstabEtc\<close> are left out, as their class is not modelled.
\<close>

section \<open>Pieces\<close>

definition hasEnoughSpaceForSegmentInReceiveQueue :: "tcp_segment \<Rightarrow> conn \<Rightarrow> bool" where
  "hasEnoughSpaceForSegmentInReceiveQueue tcpseg c =
     (let firstSeq = rcv_getFirstSeqNo (receiveQueue c)
      in seqLE firstSeq (sequenceNo tcpseg) \<and> seqLE (segEnd tcpseg) (firstSeq + maxRcvBuffer (st c)))"

definition startSynRexmitTimer :: "env \<Rightarrow> conn \<Rightarrow> conn res" where
  "startSynRexmitTimer en c =
     (let c1 = upd (\<lambda>s. s\<lparr>syn_rexmit_count := 0, syn_rexmit_timeout := TCP_TIMEOUT_SYN_REXMIT\<rparr>) c in
      bindE (if isScheduled (synRexmitTimer c1) then setTimer synRexmitTimer_update (cancelTimer (synRexmitTimer c1)) c1
             else Inr c1) (\<lambda>c2.
        scheduleTimeout en synRexmitTimer_update (synRexmitTimer c2) (syn_rexmit_timeout (st c2)) c2))"

text \<open>The insertion of the text of a SYN segment; the result says whether there was room.\<close>

definition insertSynText :: "tcp_segment \<Rightarrow> conn \<Rightarrow> (bool \<times> conn) res" where
  "insertSynText tcpseg c =
     (if 0 < payloadLength tcpseg
      then (let c1 = updateRcvQueueVars c in
            if hasEnoughSpaceForSegmentInReceiveQueue tcpseg c1
            then mapE (\<lambda>(nxt, q). (True, c1\<lparr>receiveQueue := q\<rparr>)) (rcv_insertBytesFromSegment tcpseg (receiveQueue c1))
            else Inr (False, upd (\<lambda>s. s\<lparr>tcpRcvQueueDrops := tcpRcvQueueDrops s + 1\<rparr>) c1))
      else Inr (True, c))"

section \<open>Segments for no connection\<close>

text \<open>\<open>c\<close> is the temporary connection.\<close>

definition segmentArrivalWhileClosed :: "tcp_segment \<Rightarrow> ipvx \<Rightarrow> ipvx \<Rightarrow> conn \<Rightarrow> conn res" where
  "segmentArrivalWhileClosed tcpseg srcAddr destAddr c =
     (if rstBit tcpseg then Inr c
      else if \<not> ackBit tcpseg
      then sendRstAck False 0 (sequenceNo tcpseg + getSegLen tcpseg) destAddr srcAddr
             (uint (destPort tcpseg)) (uint (srcPort tcpseg)) c
      else sendRst_addr (ackNo tcpseg) destAddr srcAddr (uint (destPort tcpseg)) (uint (srcPort tcpseg)) c)"

section \<open>LISTEN and SYN_SENT\<close>

text \<open>
  The result is the event, the clone where the connection forked, and the connection with the tables.
  \<open>r\<close> and \<open>r'\<close> are the references of the connection and of the clone.
\<close>

definition processSegmentInListen ::
  "env \<Rightarrow> tcp_pars \<Rightarrow> int \<Rightarrow> conn_ref \<Rightarrow> conn_ref \<Rightarrow> tcp_segment \<Rightarrow> ipvx \<Rightarrow> ipvx \<Rightarrow> conn \<times> tcp_maps
    \<Rightarrow> (tcp_event \<times> conn option \<times> conn \<times> tcp_maps) res" where
  "processSegmentInListen en par uniqueNumber r r' tcpseg srcAddr destAddr = (\<lambda>(c, m).
     let dport = uint (destPort tcpseg); sport = uint (srcPort tcpseg) in
     if rstBit tcpseg then Inr (TCP_E_IGNORE, None, c, m)
     else if ackBit tcpseg
     then mapE (\<lambda>c1. (TCP_E_IGNORE, None, c1, m)) (sendRst_addr (ackNo tcpseg) destAddr srcAddr dport sport c)
     else if synBit tcpseg
     then bindE (if fork (st c)
                 then bindE (cloneListeningConnection par c) (\<lambda>(clone, c0).
                      mapE (\<lambda>((c1, clone1), m1). (Some clone1, c1, m1))
                        (addForkedConnection uniqueNumber r r' destAddr srcAddr dport sport clone (c0, m)))
                 else mapE (Pair None) (updateSockPair r destAddr srcAddr dport sport (c, m))) (\<lambda>(clone, c1, m1).
          let nxt = sequenceNo tcpseg + 1;
              c2 = upd (\<lambda>s. s\<lparr>rcv_nxt := nxt, rcv_adv := nxt + rcv_wnd s, irs := sequenceNo tcpseg\<rparr>) c1
          in bindE (selectInitialSeqNum en (c2\<lparr>receiveQueue := rcv_init nxt (receiveQueue c2)\<rparr>)) (\<lambda>c3.
             bindE (if TCP_HEADER_OCTETS < headerLength tcpseg then readHeaderOptions tcpseg (updateWndInfo tcpseg True c3)
                    else Inr (updateWndInfo tcpseg True c3)) (\<lambda>c4.
             bindE (sendSynAck en (upd (\<lambda>s. s\<lparr>ack_now := True\<rparr>) c4)) (\<lambda>c5.
             bindE (startSynRexmitTimer en c5) (\<lambda>c6.
             bindE (if \<not> isScheduled (connEstabTimer c6)
                    then scheduleTimeout en connEstabTimer_update (connEstabTimer c6) TCP_TIMEOUT_CONN_ESTAB c6
                    else Inr c6) (\<lambda>c7.
             mapE (\<lambda>(ok, c8). (if ok then TCP_E_RCV_SYN else TCP_E_IGNORE, clone, c8, m1)) (insertSynText tcpseg c7)))))))
     else Inr (TCP_E_IGNORE, None, c, m))"

text \<open>The two branches for a SYN in SYN_SENT: our SYN is acknowledged, or both sides open at the same time.\<close>

definition synSentAcked :: "env \<Rightarrow> tcp_segment \<Rightarrow> conn \<Rightarrow> (tcp_event \<times> conn) res" where
  "synSentAcked en tcpseg c =
     bindE (insertSynText tcpseg c) (\<lambda>(ok, c1).
       if \<not> ok then Inr (TCP_E_IGNORE, c1)
       else bindE (if TCP_HEADER_OCTETS < headerLength tcpseg then readHeaderOptions tcpseg c1 else Inr c1) (\<lambda>c2.
            bindE (alg_established en True (upd (\<lambda>s. s\<lparr>ack_now := True\<rparr>) c2)) (\<lambda>c3.
              Inr (TCP_E_RCV_SYN_ACK, sendEstabIndicationToApp c3))))"

definition synSentSimultaneous :: "env \<Rightarrow> tcp_segment \<Rightarrow> conn \<Rightarrow> (tcp_event \<times> conn) res" where
  "synSentSimultaneous en tcpseg c =
     bindE (sendSynAck en (upd (\<lambda>s. s\<lparr>snd_nxt := iss s, snd_max := iss s\<rparr>) c)) (\<lambda>c1.
     bindE (startSynRexmitTimer en c1) (\<lambda>c2.
     mapE (\<lambda>(ok, c3). (if ok then TCP_E_RCV_SYN else TCP_E_IGNORE, c3)) (insertSynText tcpseg c2)))"

definition synSentDiscard :: "tcp_segment \<Rightarrow> conn \<Rightarrow> conn res" where
  "synSentDiscard tcpseg c =
     (let una = ackNo tcpseg; c1 = upd (\<lambda>s. s\<lparr>snd_una := una\<rparr>) c in
      bindE (snd_discardUpTo una (sendQueue c1)) (\<lambda>sq.
      bindE (if sack_enabled (st c1)
             then withRexmitQ c1 (\<lambda>q. mapE (\<lambda>q'. c1\<lparr>sendQueue := sq, rexmitQ := Some q'\<rparr>) (rq_discardUpTo una q))
             else Inr (c1\<lparr>sendQueue := sq\<rparr>)) (\<lambda>c2.
        Inr (updateWndInfo tcpseg True c2))))"

definition processSegmentInSynSent ::
  "env \<Rightarrow> conn_ref \<Rightarrow> tcp_segment \<Rightarrow> ipvx \<Rightarrow> ipvx \<Rightarrow> conn \<times> tcp_maps \<Rightarrow> (tcp_event \<times> conn \<times> tcp_maps) res" where
  "processSegmentInSynSent en r tcpseg srcAddr destAddr = (\<lambda>(c, m).
     let dport = uint (destPort tcpseg); sport = uint (srcPort tcpseg); s = st c in
     if ackBit tcpseg \<and> (seqLE (ackNo tcpseg) (iss s) \<or> seqGreater (ackNo tcpseg) (snd_nxt s))
     then mapE (\<lambda>c1. (TCP_E_IGNORE, c1, m))
            (if rstBit tcpseg then Inr c else sendRst_addr (ackNo tcpseg) destAddr srcAddr dport sport c)
     else if rstBit tcpseg
     then (if ackBit tcpseg then Inr (TCP_E_RCV_RST, sendIndicationToApp TCP_I_CONNECTION_RESET 0 c, m)
           else Inr (TCP_E_IGNORE, c, m))
     else if synBit tcpseg
     then (let nxt = sequenceNo tcpseg + 1;
               c1 = upd (\<lambda>s. s\<lparr>rcv_nxt := nxt, rcv_adv := nxt + rcv_wnd s, irs := sequenceNo tcpseg\<rparr>) c;
               c2 = c1\<lparr>receiveQueue := rcv_init nxt (receiveQueue c1)\<rparr>
           in bindE (if ackBit tcpseg then synSentDiscard tcpseg c2 else Inr c2) (\<lambda>c3.
              bindE (updateSockPair r destAddr srcAddr dport sport (c3, m)) (\<lambda>(c4, m1).
                mapE (\<lambda>(e, c5). (e, c5, m1))
                  (if seqGreater (snd_una (st c4)) (iss (st c4)) then synSentAcked en tcpseg c4
                   else synSentSimultaneous en tcpseg c4))))
     else Inr (TCP_E_IGNORE, c, m))"

section \<open>Acknowledgments\<close>

definition processRstInSynReceived :: "conn \<Rightarrow> (tcp_event \<times> conn) res" where
  "processRstInSynReceived c =
     bindE (snd_discardUpTo (snd_getBufferEndSeq (sendQueue c)) (sendQueue c)) (\<lambda>sq.
     let c1 = c\<lparr>sendQueue := sq\<rparr> in
     bindE (if sack_enabled (st c1)
            then withRexmitQ c1 (\<lambda>q. mapE (\<lambda>q'. c1\<lparr>rexmitQ := Some q'\<rparr>) (rq_discardUpTo (rq_end q) q)) else Inr c1) (\<lambda>c2.
       Inr (TCP_E_RCV_RST, if active (st c2) then sendIndicationToApp TCP_I_CONNECTION_REFUSED 0 c2 else c2)))"

text \<open>The branch for an acknowledgment of new data.\<close>

definition processNewAck :: "env \<Rightarrow> tcp_segment \<Rightarrow> conn \<Rightarrow> conn res" where
  "processNewAck en tcpseg c =
     (let old_snd_una = snd_una (st c);
          ack = ackNo tcpseg;
          c1 = upd (\<lambda>s. s\<lparr>snd_una := ack, snd_nxt := (if seqLess (snd_nxt s) ack then ack else snd_nxt s)\<rparr>) c
      in bindE (if ts_enabled (st c1) then bindE (getTSecr tcpseg) (\<lambda>ts. rttMeasurementCompleteUsingTS en ts c1) else Inr c1) (\<lambda>c2.
         let finAcked = (send_fin (st c2) \<and> ack = snd_fin_seq (st c2) + 1);
             c3 = (if finAcked then upd (\<lambda>s. s\<lparr>fin_ack_rcvd := True\<rparr>) c2 else c2);
             upTo = (if finAcked then ack - 1 else ack)
         in bindE (snd_discardUpTo upTo (sendQueue c3)) (\<lambda>sq.
            let c4 = c3\<lparr>sendQueue := sq\<rparr> in
            bindE (if sack_enabled (st c4)
                   then withRexmitQ c4 (\<lambda>q. mapE (\<lambda>q'. c4\<lparr>rexmitQ := Some q'\<rparr>) (rq_discardUpTo upTo q)) else Inr c4) (\<lambda>c5.
            let c6 = updateWndInfo tcpseg False c5 in
            if payloadLength tcpseg = 0 \<and> fsm c6 \<noteq> TCP_S_SYN_RCVD
            then bindE (receivedDataAck en old_snd_una (upd (\<lambda>s. s\<lparr>ece := eceBit tcpseg\<rparr>) c6)) (\<lambda>c7.
                   Inr (upd (\<lambda>s. s\<lparr>dupacks := 0\<rparr>) c7))
            else Inr c6))))"

text \<open>The result is false when the segment has to be dropped.\<close>

definition processAckInEstabEtc :: "env \<Rightarrow> tcp_segment \<Rightarrow> conn \<Rightarrow> (bool \<times> conn) res" where
  "processAckInEstabEtc en tcpseg c =
     (let s = st c in
      if seqGE (snd_una s) (ackNo tcpseg)
      then (if snd_una s = ackNo tcpseg \<and> payloadLength tcpseg = 0 \<and> snd_una s \<noteq> snd_max s
            then mapE (Pair True)
                   (receivedDuplicateAck en (updateWndInfo tcpseg False (upd (\<lambda>s. s\<lparr>dupacks := dupacks s + 1\<rparr>) c)))
            else Inr (True, upd (\<lambda>s. s\<lparr>dupacks := 0\<rparr>) c))
      else if seqLE (ackNo tcpseg) (snd_max s) then mapE (Pair True) (processNewAck en tcpseg c)
      else assertE (seqGreater (ackNo tcpseg) (snd_max s)) ''processAckInEstabEtc: ackNo > snd_max''
            (bindE (receivedAckForDataNotYetSent en (ackNo tcpseg) c) (\<lambda>c1.
               Inr (False, upd (\<lambda>s. s\<lparr>dupacks := 0\<rparr>) c1))))"


section \<open>The eight steps\<close>

text \<open>First: PAWS, the header options, and the window.\<close>

definition pawsRejects :: "env \<Rightarrow> tcp_segment \<Rightarrow> conn \<Rightarrow> bool res" where
  "pawsRejects en tcpseg c =
     (if ts_enabled (st c)
      then mapE (\<lambda>tsval. tsval \<noteq> 0 \<and> seqLess tsval (ts_recent (st c))
                   \<and> PAWS_IDLE_TIME_THRESH < simTime en - time_last_data_sent (st c)) (getTSval tcpseg)
      else Inr False)"

definition checkSequence :: "env \<Rightarrow> tcp_segment \<Rightarrow> conn \<Rightarrow> (bool \<times> conn) res" where
  "checkSequence en tcpseg c =
     bindE (if TCP_HEADER_OCTETS < headerLength tcpseg
            then bindE (pawsRejects en tcpseg c) (\<lambda>rejected. mapE (Pair (\<not> rejected)) (readHeaderOptions tcpseg c))
            else Inr (True, c)) (\<lambda>(acceptable, c1).
       Inr (acceptable \<and> isSegmentAcceptable tcpseg c1, c1))"

definition rejectSegment :: "env \<Rightarrow> tcp_segment \<Rightarrow> conn \<Rightarrow> conn res" where
  "rejectSegment en tcpseg c =
     bindE (if rstBit tcpseg then Inr c
            else sendAck_ecn en (ecnBit tcpseg)
                   (if \<not> synBit tcpseg \<and> 0 < payloadLength tcpseg \<and> sack_enabled (st c)
                       \<and> seqLess (segEnd tcpseg) (rcv_nxt (st c))
                    then upd (\<lambda>s. s\<lparr>start_seqno := sequenceNo tcpseg, end_seqno := segEnd tcpseg, snd_dsack := True\<rparr>) c
                    else c)) (\<lambda>c1.
       Inr (upd (\<lambda>s. s\<lparr>rcv_naseg := rcv_naseg s + 1\<rparr>) c1))"

text \<open>Second: the RST bit.\<close>

definition processRst :: "conn \<Rightarrow> (tcp_event \<times> conn) res" where
  "processRst c =
     (if fsm c = TCP_S_SYN_RCVD then processRstInSynReceived c
      else if fsm c \<in> {TCP_S_ESTABLISHED, TCP_S_FIN_WAIT_1, TCP_S_FIN_WAIT_2, TCP_S_CLOSE_WAIT}
      then Inr (TCP_E_RCV_RST, sendIndicationToApp TCP_I_CONNECTION_RESET 0 c)
      else if fsm c \<in> {TCP_S_CLOSING, TCP_S_LAST_ACK, TCP_S_TIME_WAIT} then Inr (TCP_E_RCV_RST, c)
      else Inl (AssertFailed ''processSegment1stThru8th: RST''))"

text \<open>
  Fifth: the ACK field.  The result is whether to return now, the event, the value of \<open>snd_nxt\<close> before the
  acknowledgment is processed, and the connection.
\<close>

definition restart2MSL :: "env \<Rightarrow> conn \<Rightarrow> conn res" where
  "restart2MSL en c =
     bindE (setTimer the2MSLTimer_update (cancelTimer (the2MSLTimer c)) c) (\<lambda>c1.
       scheduleTimeout en the2MSLTimer_update (the2MSLTimer c1) TCP_TIMEOUT_2MSL c1)"

definition checkAckInSynRcvd :: "env \<Rightarrow> tcp_segment \<Rightarrow> conn \<Rightarrow> (bool \<times> conn) res" where
  "checkAckInSynRcvd en tcpseg c =
     (if \<not> seqLE (snd_una (st c)) (ackNo tcpseg) \<or> \<not> seqLE (ackNo tcpseg) (snd_nxt (st c))
      then mapE (Pair False) (sendRst (ackNo tcpseg) c)
      else mapE (\<lambda>c1. (True, sendEstabIndicationToApp c1)) (alg_established en False c))"

definition afterAck :: "env \<Rightarrow> tcp_segment \<Rightarrow> tcp_event \<Rightarrow> conn \<Rightarrow> (bool \<times> tcp_event \<times> conn) res" where
  "afterAck en tcpseg e c =
     (let s = st c; e1 = (if fsm c = TCP_S_FIN_WAIT_1 \<and> fin_ack_rcvd s then TCP_E_RCV_ACK else e) in
      if fsm c = TCP_S_CLOSING \<and> fin_ack_rcvd s
      then mapE (\<lambda>c1. (False, TCP_E_RCV_ACK, c1)) (scheduleTimeout en the2MSLTimer_update (the2MSLTimer c) TCP_TIMEOUT_2MSL c)
      else if fsm c = TCP_S_LAST_ACK \<and> send_fin s \<and> ackNo tcpseg = snd_fin_seq s + 1 then Inr (True, TCP_E_RCV_ACK, c)
      else if fsm c = TCP_S_TIME_WAIT then mapE (\<lambda>c1. (False, e1, c1)) (bindE (sendAck en c) (restart2MSL en))
      else Inr (False, e1, c))"

definition checkAck :: "env \<Rightarrow> tcp_segment \<Rightarrow> conn \<Rightarrow> (bool \<times> tcp_event \<times> u32 \<times> conn) res" where
  "checkAck en tcpseg c =
     bindE (if fsm c = TCP_S_SYN_RCVD then checkAckInSynRcvd en tcpseg c else Inr (True, c)) (\<lambda>(ok, c1).
     if \<not> ok then Inr (True, TCP_E_IGNORE, 0, c1)
     else (let e = (if fsm c = TCP_S_SYN_RCVD then TCP_E_RCV_ACK else TCP_E_IGNORE);
               old_snd_nxt = snd_nxt (st c1)
           in bindE (if fsm c1 \<in> {TCP_S_SYN_RCVD, TCP_S_ESTABLISHED, TCP_S_FIN_WAIT_1, TCP_S_FIN_WAIT_2, TCP_S_CLOSE_WAIT,
                                  TCP_S_CLOSING, TCP_S_LAST_ACK}
                     then processAckInEstabEtc en tcpseg c1 else Inr (True, c1)) (\<lambda>(ok2, c2).
              if \<not> ok2 then Inr (True, TCP_E_IGNORE, 0, c2)
              else mapE (\<lambda>(ret, e1, c3). (ret, e1, old_snd_nxt, c3)) (afterAck en tcpseg e c2))))"

text \<open>The timers when a FIN is taken over, and the event.\<close>

definition finReceived :: "env \<Rightarrow> conn \<Rightarrow> (tcp_event \<times> conn) res" where
  "finReceived en c =
     (let toTimeWait = bindE (setTimer finWait2Timer_update (cancelTimer (finWait2Timer c)) c) (\<lambda>c1.
                         scheduleTimeout en the2MSLTimer_update (the2MSLTimer c1) TCP_TIMEOUT_2MSL c1)
      in if fsm c = TCP_S_FIN_WAIT_1 \<and> fin_ack_rcvd (st c) then mapE (Pair TCP_E_RCV_FIN_ACK) toTimeWait
         else if fsm c = TCP_S_FIN_WAIT_2 then mapE (Pair TCP_E_RCV_FIN) toTimeWait
         else if fsm c = TCP_S_TIME_WAIT then mapE (Pair TCP_E_RCV_FIN) (restart2MSL en c)
         else Inr (TCP_E_RCV_FIN, c))"

text \<open>
  The loop that hands the data to the application.  The vector \<open>endToEndDelayVector\<close>, which is used in every
  round, exists only where statistics are recorded.
\<close>

primrec deliverData :: "nat \<Rightarrow> env \<Rightarrow> nat \<Rightarrow> tcp_segment \<times> conn \<Rightarrow> (tcp_segment \<times> conn) res" where
  "deliverData 0 en i sc = Inl (Diverges ''processSegment1stThru8th: extract'')"
| "deliverData (Suc n) en i sc =
     (let tcpseg = fst sc; c = snd sc in
      bindE (rcv_extractBytesUpTo (rcv_nxt (st c)) (receiveQueue c)) (\<lambda>(msg, q).
      let c1 = c\<lparr>receiveQueue := q\<rparr> in
      case msg of
        None \<Rightarrow> Inr (tcpseg, c1)
      | Some p \<Rightarrow>
          if \<not> recordStatistics c1 then Inl (NullPointer ''endToEndDelayVector'')
          else (let (seg1, c2) = (case relayMark en of
                                    None \<Rightarrow> (tcpseg, c1)
                                  | Some f \<Rightarrow> (let seg1 = (if f i p then tcpseg\<lparr>ecnBit := True\<rparr> else tcpseg)
                                              in (seg1, upd (\<lambda>s. s\<lparr>ecn := ecnBit seg1\<rparr>) c1)))
                in deliverData n en (Suc i) (seg1, emit (DataToApp p (connId c2)) c2))))"

text \<open>Seventh: the segment text, when there is room for it.\<close>

definition insertText :: "env \<Rightarrow> u32 \<Rightarrow> tcp_segment \<Rightarrow> conn \<Rightarrow> conn res" where
  "insertText en old_snd_una tcpseg c =
     bindE (rcv_insertBytesFromSegment tcpseg (receiveQueue c)) (\<lambda>(nxt, q).
     let c1 = upd (\<lambda>s. s\<lparr>rcv_nxt := nxt\<rparr>) (c\<lparr>receiveQueue := q\<rparr>) in
     if seqGreater (snd_una (st c1)) old_snd_una
     then mapE (upd (\<lambda>s. s\<lparr>dupacks := 0\<rparr>)) (receivedDataAck en old_snd_una c1)
     else Inr c1)"

definition outOfOrderText :: "env \<Rightarrow> u32 \<Rightarrow> tcp_segment \<Rightarrow> conn \<Rightarrow> conn res" where
  "outOfOrderText en old_used tcpseg c =
     (let c1 = upd (\<lambda>s. s\<lparr>rcv_oooseg := rcv_oooseg s + 1\<rparr>) c;
          c2 = (if sack_enabled (st c1)
                then upd (\<lambda>s. let s1 = s\<lparr>start_seqno := sequenceNo tcpseg, end_seqno := segEnd tcpseg\<rparr>
                              in if old_used = rcv_getAmountOfBufferedBytes (receiveQueue c1) then s1\<lparr>snd_dsack := True\<rparr>
                                 else s1\<lparr>snd_sack := True\<rparr>) c1
                else c1)
      in receivedOutOfOrderSegment en c2)"

definition inOrderText :: "env \<Rightarrow> tcp_event \<Rightarrow> tcp_segment \<Rightarrow> conn \<Rightarrow> (tcp_event \<times> tcp_segment \<times> conn) res" where
  "inOrderText en e tcpseg c =
     bindE (deliverData loop_fuel en 0 (tcpseg, c)) (\<lambda>(seg1, c1).
       if fin_rcvd (st c1) \<and> rcv_nxt (st c1) = rcv_fin_seq (st c1)
       then mapE (\<lambda>(e1, c2). (e1, seg1, c2))
              (finReceived en (upd (\<lambda>s. s\<lparr>ack_now := True, rcv_nxt := rcv_fin_seq s + 1\<rparr>) c1))
       else Inr (e, seg1, c1))"

definition noteFullSized :: "tcp_segment \<Rightarrow> conn \<Rightarrow> conn" where
  "noteFullSized tcpseg =
     upd (\<lambda>s. let len = payloadLength tcpseg;
                  full = (len = ucast (snd_mss s)
                    \<or> len + ucast (headerLength tcpseg) - ucast TCP_HEADER_OCTETS = ucast (snd_mss s));
                  s1 = (if full then s\<lparr>full_sized_segment_counter := full_sized_segment_counter s + 1\<rparr> else s)
              in if len = 1 then s1\<lparr>ack_now := True\<rparr> else s1)"

definition processText ::
  "env \<Rightarrow> u32 \<Rightarrow> tcp_event \<Rightarrow> tcp_segment \<Rightarrow> conn \<Rightarrow> (bool \<times> tcp_event \<times> tcp_segment \<times> conn) res" where
  "processText en old_snd_una e tcpseg c =
     (let c1 = noteFullSized tcpseg c; old_rcv_nxt = rcv_nxt (st c) in
      bindE (truncateSegment (rcv_nxt (st c1)) (rcv_nxt (st c1) + rcv_wnd (st c1)) tcpseg) (\<lambda>seg1.
      let c2 = updateRcvQueueVars c1 in
      if hasEnoughSpaceForSegmentInReceiveQueue seg1 c2
      then bindE (insertText en old_snd_una seg1 c2) (\<lambda>c3.
             if old_rcv_nxt = rcv_nxt (st c3)
             then mapE (\<lambda>c4. (False, e, seg1, c4)) (outOfOrderText en (usedRcvBuffer (st c2)) seg1 c3)
             else mapE (Pair False) (inOrderText en e seg1 c3))
      else Inr (True, TCP_E_IGNORE, seg1, upd (\<lambda>s. s\<lparr>tcpRcvQueueDrops := tcpRcvQueueDrops s + 1\<rparr>) c2)))"

text \<open>Eighth: the FIN bit.\<close>

definition processFin :: "env \<Rightarrow> tcp_event \<Rightarrow> tcp_segment \<Rightarrow> conn \<Rightarrow> (tcp_event \<times> conn) res" where
  "processFin en e tcpseg c =
     (let c1 = upd (\<lambda>s. s\<lparr>ack_now := True\<rparr>) c; fin_seq = segEnd tcpseg in
      if rcv_nxt (st c1) = fin_seq then finReceived en (upd (\<lambda>s. s\<lparr>rcv_nxt := rcv_nxt s + 1\<rparr>) c1)
      else Inr (e, upd (\<lambda>s. s\<lparr>fin_rcvd := True, rcv_fin_seq := fin_seq\<rparr>) c1))"

text \<open>Then the acknowledgment, when \<open>rcv_nxt\<close> has changed, and the CLOSE that was put off until the FIN went out.\<close>

definition rcvNxtChanged :: "env \<Rightarrow> tcp_segment \<Rightarrow> conn \<Rightarrow> conn res" where
  "rcvNxtChanged en tcpseg c =
     receiveSeqChanged en
       (if sack_enabled (st c) \<and> rcv_getQueueLength (receiveQueue c) \<noteq> 0
        then upd (\<lambda>s. s\<lparr>start_seqno := sequenceNo tcpseg, end_seqno := segEnd tcpseg, snd_sack := True, ack_now := True\<rparr>) c
        else c)"

definition deferredClose :: "u32 \<Rightarrow> tcp_event \<Rightarrow> conn \<Rightarrow> tcp_event" where
  "deferredClose old_snd_nxt e c =
     (let s = st c; finSent = (send_fin s \<and> snd_nxt s = snd_fin_seq s + 1) in
      if (fsm c = TCP_S_ESTABLISHED \<or> fsm c = TCP_S_SYN_RCVD) \<and> finSent then TCP_E_CLOSE
      else if fsm c = TCP_S_CLOSE_WAIT \<and> finSent \<and> old_snd_nxt \<noteq> snd_nxt s then TCP_E_CLOSE
      else e)"

definition processText_onwards ::
  "env \<Rightarrow> u32 \<Rightarrow> u32 \<Rightarrow> tcp_event \<Rightarrow> tcp_segment \<Rightarrow> conn \<Rightarrow> (tcp_event \<times> conn) res" where
  "processText_onwards en old_snd_una old_snd_nxt e tcpseg c =
     (let old_rcv_nxt = rcv_nxt (st c) in
      bindE (if fsm c \<in> {TCP_S_SYN_RCVD, TCP_S_ESTABLISHED, TCP_S_FIN_WAIT_1, TCP_S_FIN_WAIT_2} \<and> 0 < payloadLength tcpseg
             then processText en old_snd_una e tcpseg c else Inr (False, e, tcpseg, c)) (\<lambda>(ret, e1, seg1, c1).
      if ret then Inr (e1, c1)
      else bindE (if finBit seg1 then processFin en e1 seg1 c1 else Inr (e1, c1)) (\<lambda>(e2, c2).
           bindE (if old_rcv_nxt \<noteq> rcv_nxt (st c2) then rcvNxtChanged en seg1 c2 else Inr c2) (\<lambda>c3.
             Inr (deferredClose old_snd_nxt e2 c3, c3)))))"

definition processSegment1stThru8th :: "env \<Rightarrow> tcp_segment \<Rightarrow> conn \<Rightarrow> (tcp_event \<times> conn) res" where
  "processSegment1stThru8th en tcpseg c =
     bindE (checkSequence en tcpseg c) (\<lambda>(acceptable, c1).
     if \<not> acceptable then mapE (Pair TCP_E_IGNORE) (rejectSegment en tcpseg c1)
     else if rstBit tcpseg then processRst c1
     else if synBit tcpseg
     then assertE (isSegmentAcceptable tcpseg c1) ''processSegment1stThru8th: SYN in window''
            (Inr (TCP_E_RCV_UNEXP_SYN, sendIndicationToApp TCP_I_CONNECTION_RESET 0 c1))
     else if \<not> ackBit tcpseg then Inr (TCP_E_IGNORE, c1)
     else bindE (checkAck en tcpseg c1) (\<lambda>(ret, e, old_snd_nxt, c2).
          if ret then Inr (e, c2) else processText_onwards en (snd_una (st c1)) old_snd_nxt e tcpseg c2))"

text \<open>The dispatch on the state; the segment of a connection in CLOSED or INIT is not dispatched here.\<close>

definition process_RCV_SEGMENT ::
  "env \<Rightarrow> tcp_pars \<Rightarrow> int \<Rightarrow> conn_ref \<Rightarrow> conn_ref \<Rightarrow> tcp_segment \<Rightarrow> ipvx \<Rightarrow> ipvx \<Rightarrow> conn \<times> tcp_maps
    \<Rightarrow> (tcp_event \<times> conn option \<times> conn \<times> tcp_maps) res" where
  "process_RCV_SEGMENT en par uniqueNumber r r' tcpseg src dest = (\<lambda>(c, m).
     if fsm c = TCP_S_LISTEN then processSegmentInListen en par uniqueNumber r r' tcpseg src dest (c, m)
     else if fsm c = TCP_S_SYN_SENT
     then mapE (\<lambda>(e, c1, m1). (e, None, c1, m1)) (processSegmentInSynSent en r tcpseg src dest (c, m))
     else mapE (\<lambda>(e, c1). (e, None, c1, m)) (processSegment1stThru8th en tcpseg c))"

section \<open>The timers of connection setup and teardown\<close>

text \<open>The timer has expired and is idle.\<close>

definition process_TIMEOUT_CONN_ESTAB :: "conn \<Rightarrow> conn res" where
  "process_TIMEOUT_CONN_ESTAB c =
     (if fsm c = TCP_S_SYN_RCVD \<or> fsm c = TCP_S_SYN_SENT
      then Inr (if active (st c) then sendIndicationToApp TCP_I_TIMED_OUT 0 c else c)
      else Inl (RuntimeError ''Internal error: received CONN_ESTAB timeout''))"

definition process_TIMEOUT_2MSL :: "conn \<Rightarrow> conn res" where
  "process_TIMEOUT_2MSL c =
     (if fsm c = TCP_S_TIME_WAIT then Inr c else Inl (RuntimeError ''Internal error: received time-wait (2MSL) timeout''))"

definition process_TIMEOUT_FIN_WAIT_2 :: "conn \<Rightarrow> conn res" where
  "process_TIMEOUT_FIN_WAIT_2 c =
     (if fsm c = TCP_S_FIN_WAIT_2 then Inr c else Inl (RuntimeError ''Internal error: received FIN_WAIT_2 timeout''))"

definition process_TIMEOUT_SYN_REXMIT :: "env \<Rightarrow> conn \<Rightarrow> (tcp_event \<times> conn) res" where
  "process_TIMEOUT_SYN_REXMIT en c =
     (let c1 = upd (\<lambda>s. s\<lparr>syn_rexmit_count := syn_rexmit_count s + 1\<rparr>) c in
      if MAX_SYN_REXMIT_COUNT < syn_rexmit_count (st c1) then Inr (TCP_E_ABORT, c1)
      else bindE (if fsm c1 = TCP_S_SYN_SENT then sendSyn en c1
                  else if fsm c1 = TCP_S_SYN_RCVD then sendSynAck en c1
                  else Inl (RuntimeError ''Internal error: SYN-REXMIT timer expired'')) (\<lambda>c2.
           let c3 = upd (\<lambda>s. s\<lparr>syn_rexmit_timeout := min (syn_rexmit_timeout s * 2) TCP_TIMEOUT_SYN_REXMIT_MAX\<rparr>) c2
           in mapE (Pair TCP_E_IGNORE) (scheduleTimeout en synRexmitTimer_update (synRexmitTimer c3) (syn_rexmit_timeout (st c3)) c3)))"

end
