(* ===== verification/Tcp_Frame.thy ===== *)
theory Tcp_Frame
  imports Tcp_Rcv
begin

text \<open>
  What the operations on a connection leave alone.  \<open>ident\<close> is the part of a connection that only the module,
  the state machine and the handlers of arriving segments change: its identifiers, its addresses and ports, its
  state, and the timers of teardown.  Every function of the options, of sending and of congestion control keeps
  it.

  The lemmas are rules for \<open>post x P\<close>: if \<open>x\<close> ends without an error, its result has \<open>P\<close>.  The rules of
  \<open>wp\<close> take a term apart from the outside.
\<close>

section \<open>Postconditions\<close>

definition post :: "'a res \<Rightarrow> ('a \<Rightarrow> bool) \<Rightarrow> bool" where
  "post x P \<longleftrightarrow> (case x of Inl _ \<Rightarrow> True | Inr a \<Rightarrow> P a)"

named_theorems wp

lemma postD: "post x P \<Longrightarrow> x = Inr a \<Longrightarrow> P a"
  by (simp add: post_def)

lemma postI: "(\<And>a. x = Inr a \<Longrightarrow> P a) \<Longrightarrow> post x P"
  by (simp add: post_def split: sum.splits)

lemma post_mono: "post x Q \<Longrightarrow> (\<And>a. Q a \<Longrightarrow> P a) \<Longrightarrow> post x P"
  by (simp add: post_def split: sum.splits)

lemma post_simps [simp]: "post (Inl e) P" "post (Inr a) P = P a"
  by (simp_all add: post_def)

lemma post_bindE [wp]: "post x (\<lambda>a. post (f a) P) \<Longrightarrow> post (bindE x f) P"
  by (cases x) simp_all

lemma post_mapE [wp]: "post x (\<lambda>a. P (f a)) \<Longrightarrow> post (mapE f x) P"
  by (cases x) simp_all

lemma post_assertE [wp]: "(b \<Longrightarrow> post x P) \<Longrightarrow> post (assertE b m x) P"
  by (cases b) simp_all

lemma post_if [wp]: "(b \<Longrightarrow> post x P) \<Longrightarrow> (\<not> b \<Longrightarrow> post y P) \<Longrightarrow> post (if b then x else y) P"
  by simp

lemma post_let [wp]: "(\<And>y. y = x \<Longrightarrow> post (f y) P) \<Longrightarrow> post (Let x f) P"
  by simp

lemma post_option [wp]:
  "(z = None \<Longrightarrow> post x P) \<Longrightarrow> (\<And>a. z = Some a \<Longrightarrow> post (f a) P) \<Longrightarrow> post (case z of None \<Rightarrow> x | Some a \<Rightarrow> f a) P"
  by (cases z) simp_all

lemma post_prod [wp]: "(\<And>a b. z = (a, b) \<Longrightarrow> post (f a b) P) \<Longrightarrow> post (case z of (a, b) \<Rightarrow> f a b) P"
  by (cases z) simp_all

lemma post_list [wp]:
  "(z = [] \<Longrightarrow> post x P) \<Longrightarrow> (\<And>a as. z = a # as \<Longrightarrow> post (f a as) P) \<Longrightarrow> post (case z of [] \<Rightarrow> x | a # as \<Rightarrow> f a as) P"
  by (cases z) simp_all

lemma post_Inl [wp]: "post (Inl e) P"
  by simp

lemma post_Inr [wp]: "P a \<Longrightarrow> post (Inr a) P"
  by simp

lemma post_withRexmitQ [wp]: "(\<And>q. rexmitQ c = Some q \<Longrightarrow> post (f q) P) \<Longrightarrow> post (withRexmitQ c f) P"
  by (simp add: withRexmitQ_def split: option.split)

section \<open>What stays\<close>

type_synonym identity =
  "(int \<times> int \<times> ipvx \<times> ipvx \<times> int \<times> int) \<times> tcp_state \<times> timer \<times> timer \<times> bool \<times> bool \<times> transfer_mode \<times> flavour"

definition ident :: "conn \<Rightarrow> identity" where
  "ident c = ((appGateIndex c, connId c, localAddr c, remoteAddr c, localPort c, remotePort c), fsm c,
     the2MSLTimer c, finWait2Timer c, recordStatistics c, hasModule c, transferMode c, tcpAlgorithm c)"

lemma identD:
  assumes "ident c' = ident c"
  shows "appGateIndex c' = appGateIndex c" "connId c' = connId c" "localAddr c' = localAddr c"
    "remoteAddr c' = remoteAddr c" "localPort c' = localPort c" "remotePort c' = remotePort c" "fsm c' = fsm c"
    "the2MSLTimer c' = the2MSLTimer c" "finWait2Timer c' = finWait2Timer c"
    "recordStatistics c' = recordStatistics c" "hasModule c' = hasModule c"
    "transferMode c' = transferMode c" "tcpAlgorithm c' = tcpAlgorithm c"
  using assms by (simp_all add: ident_def)

lemma ident_simps [simp]:
  "ident (upd f c) = ident c" "ident (emit x c) = ident c" "ident (c\<lparr>st := s\<rparr>) = ident c"
  "ident (c\<lparr>sendQueue := sq\<rparr>) = ident c" "ident (c\<lparr>receiveQueue := rq\<rparr>) = ident c"
  "ident (c\<lparr>rexmitQ := q\<rparr>) = ident c" "ident (c\<lparr>connEstabTimer := t\<rparr>) = ident c"
  "ident (c\<lparr>synRexmitTimer := t\<rparr>) = ident c" "ident (c\<lparr>rexmitTimer := t\<rparr>) = ident c"
  "ident (c\<lparr>persistTimer := t\<rparr>) = ident c" "ident (c\<lparr>delayedAckTimer := t\<rparr>) = ident c"
  "ident (c\<lparr>keepAliveTimer := t\<rparr>) = ident c" "ident (c\<lparr>paceTimer := t\<rparr>) = ident c"
  "ident (c\<lparr>rateUpdateTimer := t\<rparr>) = ident c" "ident (c\<lparr>outs := os\<rparr>) = ident c"
  by (simp_all add: ident_def upd_def emit_def)

lemma ident_if [simp]: "ident (if b then c else c') = (if b then ident c else ident c')"
  by simp

lemma ident_signals [simp]:
  "ident (sendIndicationToApp code i c) = ident c" "ident (sendEstabIndicationToApp c) = ident c"
  "ident (signalConnectionTimeout c) = ident c"
  by (simp_all add: sendIndicationToApp_def sendEstabIndicationToApp_def signalConnectionTimeout_def)

lemma setTimer_frame [wp]:
  "(\<And>t. r = Inr t \<Longrightarrow> P (u (\<lambda>_. t) c)) \<Longrightarrow> post (setTimer u r c) P"
  by (cases r) (simp_all add: setTimer_def)

lemma scheduleTimeout_frame [wp]:
  "(\<And>t'. scheduleAt (simTime en + d) t = Inr t' \<Longrightarrow> P (u (\<lambda>_. t') c)) \<Longrightarrow> post (scheduleTimeout en u t d c) P"
  unfolding scheduleTimeout_def by (rule setTimer_frame)

section \<open>Options and windows\<close>

lemma updateRcvQueueVars_ident [simp]: "ident (updateRcvQueueVars c) = ident c"
  by (simp add: updateRcvQueueVars_def)

lemma updateWndInfo_ident [simp]: "ident (updateWndInfo seg b c) = ident c"
  by (simp add: updateWndInfo_def)

lemma resetSackFlags_ident [simp]: "ident (resetSackFlags c) = ident c"
  by (simp add: resetSackFlags_def)

lemma updateRcvWnd_frame [wp]: "(\<And>w c'. ident c' = ident c \<Longrightarrow> P (w, c')) \<Longrightarrow> post (updateRcvWnd c) P"
  unfolding updateRcvWnd_def by (rule wp | simp)+

lemma processMSSOption_frame [wp]: "(\<And>c'. ident c' = ident c \<Longrightarrow> P c') \<Longrightarrow> post (processMSSOption opt c) P"
  unfolding processMSSOption_def by (rule wp | simp)+

lemma processWSOption_frame [wp]: "(\<And>c'. ident c' = ident c \<Longrightarrow> P c') \<Longrightarrow> post (processWSOption opt c) P"
  unfolding processWSOption_def by (rule wp | simp)+

lemma processTSOption_frame [wp]: "(\<And>c'. ident c' = ident c \<Longrightarrow> P c') \<Longrightarrow> post (processTSOption seg opt c) P"
  unfolding processTSOption_def by (rule wp | simp)+

lemma processSACKPermittedOption_frame [wp]:
  "(\<And>c'. ident c' = ident c \<Longrightarrow> P c') \<Longrightarrow> post (processSACKPermittedOption opt c) P"
  unfolding processSACKPermittedOption_def by (rule wp | simp)+

lemma apply_sacks_any [wp]: "(\<And>q'. P q') \<Longrightarrow> post (apply_sacks ack una vs q) P"
  by (rule postI)

lemma processSACKOption_frame [wp]: "(\<And>c'. ident c' = ident c \<Longrightarrow> P c') \<Longrightarrow> post (processSACKOption seg opt c) P"
  unfolding processSACKOption_def by (rule wp | simp)+

lemma processOption_frame [wp]: "(\<And>c'. ident c' = ident c \<Longrightarrow> P c') \<Longrightarrow> post (processOption seg opt c) P"
  unfolding processOption_def by (cases "opt_kind opt"; simp) (rule wp | simp)+

lemma process_options_frame [wp]: "(\<And>c'. ident c' = ident c \<Longrightarrow> P c') \<Longrightarrow> post (process_options seg opts c) P"
proof (induction opts arbitrary: c)
  case (Cons opt opts)
  show ?case by simp (rule wp Cons.IH | simp add: Cons.prems)+
qed simp

lemma readHeaderOptions_frame [wp]: "(\<And>c'. ident c' = ident c \<Longrightarrow> P c') \<Longrightarrow> post (readHeaderOptions seg c) P"
  unfolding readHeaderOptions_def by (rule process_options_frame)

lemma writeSynOptions_frame: "ident (snd (writeSynOptions en sc)) = ident (snd sc)"
  by (cases sc) (simp add: writeSynOptions_def writeMSS_def writeWS_def writeSackPermitted_def Let_def split: prod.split)


lemma unit_frames [wp]:
  "(\<And>a. P a) \<Longrightarrow> post (purge_sacks n ss) P" "(\<And>a. P' a) \<Longrightarrow> post (new_sacks c ss) P'"
  by (auto intro: postI)

lemma addSacks_frame [wp]: "(\<And>seg' c'. ident c' = ident c \<Longrightarrow> P (seg', c')) \<Longrightarrow> post (addSacks seg c) P"
  unfolding addSacks_def by (rule wp | simp)+

lemma writeDataOptions_frame [wp]:
  "(\<And>seg' c'. ident c' = ident (snd sc) \<Longrightarrow> P (seg', c')) \<Longrightarrow> post (writeDataOptions en sc) P"
  unfolding writeDataOptions_def by (rule wp | simp)+

lemma writeWS_ident [simp]: "ident (snd (writeWS sc)) = ident (snd sc)"
  by (cases sc) (simp add: writeWS_def Let_def)

text \<open>The end of \<open>writeHeaderOptions\<close>: the option for a changed buffer, and the header length.\<close>

lemma options_end_ident:
  "ident (snd (if b then (fst (if b' then writeWS sc else sc), upd f (snd (if b' then writeWS sc else sc))) else sc))
    = ident (snd sc)"
  by simp

lemma writeHeaderOptions_frame [wp]:
  assumes "\<And>seg' c'. ident c' = ident c \<Longrightarrow> P (seg', c')"
  shows "post (writeHeaderOptions en seg c) P"
  unfolding writeHeaderOptions_def
proof (rule post_bindE, rule post_mono[where Q = "\<lambda>sc. ident (snd sc) = ident c"])
  show "post (if synBit seg \<and> (fsm c = TCP_S_INIT \<or> fsm c = TCP_S_LISTEN \<or> (fsm c = TCP_S_SYN_SENT \<or> fsm c = TCP_S_SYN_RCVD)
                \<and> 0 < syn_rexmit_count (st c))
      then Inr (writeSynOptions en (seg, c))
      else if fsm c \<in> {TCP_S_SYN_SENT, TCP_S_SYN_RCVD, TCP_S_ESTABLISHED, TCP_S_FIN_WAIT_1, TCP_S_FIN_WAIT_2}
           then writeDataOptions en (seg, c) else Inr (seg, c)) (\<lambda>sc. ident (snd sc) = ident c)"
    by (rule wp | simp add: writeSynOptions_frame)+
next
  fix sc :: "tcp_segment \<times> conn"
  assume i: "ident (snd sc) = ident c"
  show "post (let (seg2, c2) = (if maxRcvBufferChanged (st (snd sc))
                         then (let sc = (if ws_support (st (snd sc)) then writeWS sc else sc)
                               in (fst sc, upd (\<lambda>s. s\<lparr>maxRcvBufferChanged := False\<rparr>) (snd sc)))
                         else sc);
           len = ucast (getOptionsArrayLength seg2) :: u32
       in Inr (if options seg2 \<noteq> []
               then (if len \<le> TCP_OPTIONS_MAX_SIZE
                     then seg2\<lparr>headerLength := TCP_HEADER_OCTETS + ucast len\<rparr>
                     else seg2\<lparr>headerLength := TCP_HEADER_OCTETS, options := []\<rparr>, c2)
               else (seg2, c2))) P"
    unfolding Let_def
  proof (rule post_prod, goal_cases)
    case (1 seg2 c2)
    have "ident c2 = ident c"
      using i arg_cong[OF 1, of "\<lambda>x. ident (snd x)"] by (simp split: if_splits)
    then show ?case by (simp add: assms)
  qed
qed

section \<open>Sending\<close>

lemma queue_frames [wp]:
  "(\<And>a. P a) \<Longrightarrow> post (snd_createSegmentWithBytes f n Q) P" "(\<And>a. P2 a) \<Longrightarrow> post (rq_checkForSackedOrRexmitted s q) P2"
  "(\<And>a. P3 a) \<Longrightarrow> post (rq_enqueueSentData f t q) P3" "(\<And>a. P4 a) \<Longrightarrow> post (rq_checkSackBlock s q) P4"
  "(\<And>a. P5 a) \<Longrightarrow> post (isLost s c) P5" "(\<And>a. P6 a) \<Longrightarrow> post (set_pipe_loop k c s p) P6"
  "(\<And>a. P7 a) \<Longrightarrow> post (next_seg_loop k b c h s p) P7" "(\<And>a. P8 a) \<Longrightarrow> post (snd_discardUpTo s Q) P8"
  "(\<And>a. P9 a) \<Longrightarrow> post (rq_discardUpTo s q) P9" "(\<And>a. P10 a) \<Longrightarrow> post (snd_enqueueAppData m Q) P10"
  by (auto intro: postI)

lemma requestMoreData_ident [simp]: "ident (requestMoreData c) = ident c"
  by (simp add: requestMoreData_def Let_def)

lemma startRexmitTimer_frame [wp]: "(\<And>c'. ident c' = ident c \<Longrightarrow> P c') \<Longrightarrow> post (startRexmitTimer en c) P"
  unfolding startRexmitTimer_def by (rule wp | simp)+

lemma ackSent_frame [wp]: "(\<And>c'. ident c' = ident c \<Longrightarrow> P c') \<Longrightarrow> post (ackSent c) P"
  unfolding ackSent_def by (rule wp | simp)+

lemma dataSent_frame [wp]: "(\<And>c'. ident c' = ident c \<Longrightarrow> P c') \<Longrightarrow> post (dataSent en s c) P"
  unfolding dataSent_def by (rule wp | simp)+

lemma restartRexmitTimer_frame [wp]: "(\<And>c'. ident c' = ident c \<Longrightarrow> P c') \<Longrightarrow> post (restartRexmitTimer en c) P"
  unfolding restartRexmitTimer_def by (rule wp | simp)+

lemma sendToIP_frame [wp]: "(\<And>c'. ident c' = ident c \<Longrightarrow> P c') \<Longrightarrow> post (sendToIP seg c) P"
  unfolding sendToIP_def by (rule wp | simp)+

lemma sendToIP_addr_frame [wp]: "(\<And>c'. ident c' = ident c \<Longrightarrow> P c') \<Longrightarrow> post (sendToIP_addr seg a b c) P"
  unfolding sendToIP_addr_def by (rule wp | simp)+

lemma sendSyn_frame [wp]: "(\<And>c'. ident c' = ident c \<Longrightarrow> P c') \<Longrightarrow> post (sendSyn en c) P"
  unfolding sendSyn_def by (rule wp | simp)+

lemma sendSynAck_frame [wp]: "(\<And>c'. ident c' = ident c \<Longrightarrow> P c') \<Longrightarrow> post (sendSynAck en c) P"
  unfolding sendSynAck_def by (rule wp | simp)+

lemma sendRst_addr_frame [wp]: "(\<And>c'. ident c' = ident c \<Longrightarrow> P c') \<Longrightarrow> post (sendRst_addr s a b p q c) P"
  unfolding sendRst_addr_def by (rule wp | simp)+

lemma sendRst_frame [wp]: "(\<And>c'. ident c' = ident c \<Longrightarrow> P c') \<Longrightarrow> post (sendRst s c) P"
  unfolding sendRst_def by (rule wp | simp)+

lemma sendAck_ecn_frame [wp]: "(\<And>c'. ident c' = ident c \<Longrightarrow> P c') \<Longrightarrow> post (sendAck_ecn en b c) P"
  unfolding sendAck_ecn_def by (rule wp | simp)+

lemma sendAck_frame [wp]: "(\<And>c'. ident c' = ident c \<Longrightarrow> P c') \<Longrightarrow> post (sendAck en c) P"
  unfolding sendAck_def by (rule wp | simp)+

lemma sendFin_frame [wp]: "(\<And>c'. ident c' = ident c \<Longrightarrow> P c') \<Longrightarrow> post (sendFin c) P"
  unfolding sendFin_def by (rule wp | simp)+

lemma skipSacked_frame [wp]: "(\<And>c'. ident c' = ident c \<Longrightarrow> P c') \<Longrightarrow> post (skipSacked c) P"
  unfolding skipSacked_def by (rule wp | simp)+

lemma noteSent_frame [wp]: "(\<And>c'. ident c' = ident c \<Longrightarrow> P c') \<Longrightarrow> post (noteSent f b c) P"
  unfolding noteSent_def by (rule wp | simp)+

lemma sendSegment_frame [wp]: "(\<And>c'. ident c' = ident c \<Longrightarrow> P c') \<Longrightarrow> post (sendSegment en b c) P"
  unfolding sendSegment_def by (rule wp | simp)+


lemma post_prod2 [wp]: "(\<And>a b. z = (a, b) \<Longrightarrow> post (f a b y) P) \<Longrightarrow> post ((case z of (a, b) \<Rightarrow> f a b) y) P"
  by (cases z) simp_all

section \<open>Sending data and loss recovery\<close>

lemma send_whole_segments_frame [wp]:
  "(\<And>left c'. ident c' = ident (snd bc) \<Longrightarrow> P (left, c')) \<Longrightarrow> post (send_whole_segments n en e bc) P"
proof (induction n arbitrary: bc)
  case (Suc n)
  show ?case by (cases bc; simp only: send_whole_segments.simps) (rule wp Suc.IH | simp add: Suc.prems)+
qed simp

lemma sendData_fuel_frame [wp]: "(\<And>x c'. ident c' = ident c \<Longrightarrow> P (x, c')) \<Longrightarrow> post (sendData_fuel k en b w c) P"
  unfolding sendData_fuel_def by (rule wp | simp)+

lemma sendData_frame [wp]: "(\<And>x c'. ident c' = ident c \<Longrightarrow> P (x, c')) \<Longrightarrow> post (sendData en b w c) P"
  unfolding sendData_def by (rule wp | simp)+

lemma sendProbe_frame [wp]: "(\<And>x c'. ident c' = ident c \<Longrightarrow> P (x, c')) \<Longrightarrow> post (sendProbe en c) P"
  unfolding sendProbe_def by (rule wp | simp)+

lemma retransmitFin_frame [wp]: "(\<And>c'. ident c' = ident c \<Longrightarrow> P c') \<Longrightarrow> post (retransmitFin c) P"
  unfolding retransmitFin_def by (rule wp | simp)+

lemma retransmitOneSegment_frame [wp]: "(\<And>c'. ident c' = ident c \<Longrightarrow> P c') \<Longrightarrow> post (retransmitOneSegment en b c) P"
  unfolding retransmitOneSegment_def by (rule wp | simp)+

lemma retransmit_segments_frame [wp]:
  "(\<And>c'. ident c' = ident (snd bc) \<Longrightarrow> P c') \<Longrightarrow> post (retransmit_segments n en bc) P"
proof (induction n arbitrary: bc)
  case (Suc n)
  show ?case by (simp only: retransmit_segments.simps) (rule wp Suc.IH | simp add: Suc.prems)+
qed simp

lemma retransmitData_frame [wp]: "(\<And>c'. ident c' = ident c \<Longrightarrow> P c') \<Longrightarrow> post (retransmitData en c) P"
  unfolding retransmitData_def by (rule wp | simp)+

lemma sendOneNewSegment_frame [wp]: "(\<And>c'. ident c' = ident c \<Longrightarrow> P c') \<Longrightarrow> post (sendOneNewSegment en b w c) P"
  unfolding sendOneNewSegment_def by (rule wp | simp)+

lemma setPipe_frame [wp]: "(\<And>c'. ident c' = ident c \<Longrightarrow> P c') \<Longrightarrow> post (setPipe c) P"
  unfolding setPipe_def by (rule wp | simp)+

lemma nextSeg_frame [wp]: "(\<And>x c'. ident c' = ident c \<Longrightarrow> P (x, c')) \<Longrightarrow> post (nextSeg c) P"
  unfolding nextSeg_def by (rule wp | simp)+

lemma sendSegmentDuringLossRecoveryPhase_frame [wp]: "(\<And>c'. ident c' = ident c \<Longrightarrow> P c') \<Longrightarrow> post (sendSegmentDuringLossRecoveryPhase en s c) P"
  unfolding sendSegmentDuringLossRecoveryPhase_def by (rule wp | simp)+

lemma loss_recovery_loop_frame [wp]:
  "(\<And>c'. ident c' = ident c \<Longrightarrow> P c') \<Longrightarrow> post (loss_recovery_loop n en w c) P"
proof (induction n arbitrary: c)
  case (Suc n)
  show ?case by (simp only: loss_recovery_loop.simps) (rule wp Suc.IH | simp add: Suc.prems)+
qed simp

lemma sendDataDuringLossRecoveryPhase_frame [wp]: "(\<And>c'. ident c' = ident c \<Longrightarrow> P c') \<Longrightarrow> post (sendDataDuringLossRecoveryPhase en w c) P"
  unfolding sendDataDuringLossRecoveryPhase_def by (rule wp | simp)+

section \<open>Congestion control\<close>

lemma alg_pure_frames [simp]:
  "ident (rttMeasurementComplete en t1 t2 c) = ident c" "ident (recalculateSlowStartThreshold c) = ident c"
  "ident (processKeepAliveTimer c) = ident c" "ident (alg_initialize c) = ident c"
  by (simp_all add: rttMeasurementComplete_def recalculateSlowStartThreshold_def processKeepAliveTimer_def alg_initialize_def
      Let_def)

lemma base_sendData_frame [wp]: "(\<And>x c'. ident c' = ident c \<Longrightarrow> P (x, c')) \<Longrightarrow> post (base_sendData en b c) P"
  unfolding base_sendData_def by (rule wp | simp)+

lemma alg_established_frame [wp]: "(\<And>c'. ident c' = ident c \<Longrightarrow> P c') \<Longrightarrow> post (alg_established en b c) P"
  unfolding alg_established_def by (rule wp | simp)+

lemma base_processRexmitTimer_frame [wp]: "(\<And>e c'. ident c' = ident c \<Longrightarrow> P (e, c')) \<Longrightarrow> post (base_processRexmitTimer en c) P"
  unfolding base_processRexmitTimer_def by (rule wp | simp)+

lemma processPersistTimer_frame [wp]: "(\<And>c'. ident c' = ident c \<Longrightarrow> P c') \<Longrightarrow> post (processPersistTimer en c) P"
  unfolding processPersistTimer_def by (rule wp | simp)+

lemma processDelayedAckTimer_frame [wp]: "(\<And>c'. ident c' = ident c \<Longrightarrow> P c') \<Longrightarrow> post (processDelayedAckTimer en c) P"
  unfolding processDelayedAckTimer_def by (rule wp | simp)+

lemma rttMeasurementCompleteUsingTS_frame [wp]: "(\<And>c'. ident c' = ident c \<Longrightarrow> P c') \<Longrightarrow> post (rttMeasurementCompleteUsingTS en s c) P"
  unfolding rttMeasurementCompleteUsingTS_def by (rule wp | simp)+

lemma sendCommandInvoked_frame [wp]: "(\<And>c'. ident c' = ident c \<Longrightarrow> P c') \<Longrightarrow> post (sendCommandInvoked en c) P"
  unfolding sendCommandInvoked_def by (rule wp | simp)+

lemma receivedOutOfOrderSegment_frame [wp]: "(\<And>c'. ident c' = ident c \<Longrightarrow> P c') \<Longrightarrow> post (receivedOutOfOrderSegment en c) P"
  unfolding receivedOutOfOrderSegment_def by (rule wp | simp)+

lemma receiveSeqChanged_frame [wp]: "(\<And>c'. ident c' = ident c \<Longrightarrow> P c') \<Longrightarrow> post (receiveSeqChanged en c) P"
  unfolding receiveSeqChanged_def by (rule wp | simp)+

lemma updatePersistTimer_frame [wp]: "(\<And>c'. ident c' = ident c \<Longrightarrow> P c') \<Longrightarrow> post (updatePersistTimer en c) P"
  unfolding updatePersistTimer_def by (rule wp | simp)+

lemma base_receivedDataAck_frame [wp]: "(\<And>c'. ident c' = ident c \<Longrightarrow> P c') \<Longrightarrow> post (base_receivedDataAck en s c) P"
  unfolding base_receivedDataAck_def by (rule wp | simp)+

lemma base_receivedDuplicateAck_frame [wp]: "(\<And>c'. ident c' = ident c \<Longrightarrow> P c') \<Longrightarrow> post (base_receivedDuplicateAck en c) P"
  unfolding base_receivedDuplicateAck_def by (rule wp | simp)+

lemma receivedAckForDataNotYetSent_frame [wp]: "(\<And>c'. ident c' = ident c \<Longrightarrow> P c') \<Longrightarrow> post (receivedAckForDataNotYetSent en s c) P"
  unfolding receivedAckForDataNotYetSent_def by (rule wp | simp)+

lemma grow_window_frame [wp]: "(\<And>c'. ident c' = ident c \<Longrightarrow> P c') \<Longrightarrow> post (grow_window c) P"
  unfolding grow_window_def by (rule wp | simp)+

lemma afterTimeout_frame [wp]: "(\<And>c'. ident c' = ident c \<Longrightarrow> P c') \<Longrightarrow> post (afterTimeout en c) P"
  unfolding afterTimeout_def by (rule wp | simp)+

lemma tahoe_processRexmitTimer_frame [wp]: "(\<And>e c'. ident c' = ident c \<Longrightarrow> P (e, c')) \<Longrightarrow> post (tahoe_processRexmitTimer en c) P"
  unfolding tahoe_processRexmitTimer_def by (rule wp | simp)+

lemma tahoe_receivedDataAck_frame [wp]: "(\<And>c'. ident c' = ident c \<Longrightarrow> P c') \<Longrightarrow> post (tahoe_receivedDataAck en s c) P"
  unfolding tahoe_receivedDataAck_def by (rule wp | simp)+

lemma tahoe_receivedDuplicateAck_frame [wp]: "(\<And>c'. ident c' = ident c \<Longrightarrow> P c') \<Longrightarrow> post (tahoe_receivedDuplicateAck en c) P"
  unfolding tahoe_receivedDuplicateAck_def by (rule wp | simp)+

lemma reno_processRexmitTimer_frame [wp]: "(\<And>e c'. ident c' = ident c \<Longrightarrow> P (e, c')) \<Longrightarrow> post (reno_processRexmitTimer en c) P"
  unfolding reno_processRexmitTimer_def by (rule wp | simp)+

lemma reno_receivedDataAck_frame [wp]: "(\<And>c'. ident c' = ident c \<Longrightarrow> P c') \<Longrightarrow> post (reno_receivedDataAck en s c) P"
  unfolding reno_receivedDataAck_def by (rule wp | simp)+

lemma reno_receivedDuplicateAck_frame [wp]: "(\<And>c'. ident c' = ident c \<Longrightarrow> P c') \<Longrightarrow> post (reno_receivedDuplicateAck en c) P"
  unfolding reno_receivedDuplicateAck_def by (rule wp | simp)+

lemma newreno_processRexmitTimer_frame [wp]: "(\<And>e c'. ident c' = ident c \<Longrightarrow> P (e, c')) \<Longrightarrow> post (newreno_processRexmitTimer en c) P"
  unfolding newreno_processRexmitTimer_def by (rule wp | simp)+

lemma newreno_partial_ack_frame [wp]: "(\<And>c'. ident c' = ident c \<Longrightarrow> P c') \<Longrightarrow> post (newreno_partial_ack en s c) P"
  unfolding newreno_partial_ack_def by (rule wp | simp)+

lemma newreno_receivedDataAck_frame [wp]: "(\<And>c'. ident c' = ident c \<Longrightarrow> P c') \<Longrightarrow> post (newreno_receivedDataAck en s c) P"
  unfolding newreno_receivedDataAck_def by (rule wp | simp)+

lemma newreno_receivedDuplicateAck_frame [wp]: "(\<And>c'. ident c' = ident c \<Longrightarrow> P c') \<Longrightarrow> post (newreno_receivedDuplicateAck en c) P"
  unfolding newreno_receivedDuplicateAck_def by (rule wp | simp)+

lemma processRexmitTimer_frame [wp]: "(\<And>e c'. ident c' = ident c \<Longrightarrow> P (e, c')) \<Longrightarrow> post (processRexmitTimer en c) P"
  unfolding processRexmitTimer_def by (cases "tcpAlgorithm c"; simp) (rule wp | simp)+

lemma receivedDataAck_frame [wp]: "(\<And>c'. ident c' = ident c \<Longrightarrow> P c') \<Longrightarrow> post (receivedDataAck en s c) P"
  unfolding receivedDataAck_def by (cases "tcpAlgorithm c"; simp) (rule wp | simp)+

lemma receivedDuplicateAck_frame [wp]: "(\<And>c'. ident c' = ident c \<Longrightarrow> P c') \<Longrightarrow> post (receivedDuplicateAck en c) P"
  unfolding receivedDuplicateAck_def by (cases "tcpAlgorithm c"; simp) (rule wp | simp)+

lemma alg_processTimer_frame [wp]: "(\<And>e c'. ident c' = ident c \<Longrightarrow> P (e, c')) \<Longrightarrow> post (alg_processTimer en t c) P"
  unfolding alg_processTimer_def by (cases t; simp) (rule wp | simp)+

end
