(* ===== verification/Tcp_App.thy ===== *)
theory Tcp_App
  imports Tcp_Rcv
begin

text \<open>
  The entry points of a connection: the commands of the application
  (\<open>src/transport/tcp/TCPConnectionEventProc.cc\<close>), and \<open>processTimer\<close>, \<open>processTCPSegment\<close> and
  \<open>processAppCommand\<close> of \<open>TCPConnectionBase.cc\<close>, which run a handler and then the state machine.

  A handler that may change the event code returns it.  The vector of the send queue's size exists only where
  statistics are recorded.
\<close>

section \<open>Commands\<close>

text \<open>The commands with what they carry; \<open>C_UNKNOWN\<close> is any other message kind.\<close>

datatype app_command =
    C_OPEN_ACTIVE open_cmd
  | C_OPEN_PASSIVE open_cmd
  | C_SEND packet
  | C_CLOSE
  | C_ABORT
  | C_STATUS
  | C_QUEUE_BYTES_LIMIT int
  | C_UNKNOWN

definition process_OPEN_ACTIVE ::
  "env \<Rightarrow> tcp_pars \<Rightarrow> conn_ref \<Rightarrow> open_cmd \<Rightarrow> conn \<times> tcp_maps \<Rightarrow> (conn \<times> tcp_maps) res" where
  "process_OPEN_ACTIVE en par r cmd = (\<lambda>(c, m).
     if fsm c \<noteq> TCP_S_INIT then Inl (RuntimeError ''Error processing command OPEN_ACTIVE: connection already exists'')
     else bindE (initConnection par cmd c) (\<lambda>c1.
       let c2 = upd (\<lambda>s. s\<lparr>active := True\<rparr>) c1 in
       if isUnspecified (op_remoteAddr cmd) \<or> op_remotePort cmd = -1
       then Inl (RuntimeError ''Error processing command OPEN_ACTIVE: remote address and port must be specified'')
       else bindE (if op_localPort cmd = -1 then mapE (\<lambda>(p, m1). (uint p, m1)) (getEphemeralPort m)
                   else Inr (op_localPort cmd, m)) (\<lambda>(lport, m1).
            bindE (addSockPair r (op_localAddr cmd) (op_remoteAddr cmd) lport (op_remotePort cmd) (c2, m1)) (\<lambda>(c3, m2).
            bindE (selectInitialSeqNum en c3) (\<lambda>c4.
            bindE (sendSyn en c4) (\<lambda>c5.
            bindE (startSynRexmitTimer en c5) (\<lambda>c6.
            bindE (scheduleTimeout en connEstabTimer_update (connEstabTimer c6) TCP_TIMEOUT_CONN_ESTAB c6) (\<lambda>c7.
              Inr (c7, m2)))))))))"

definition process_OPEN_PASSIVE ::
  "tcp_pars \<Rightarrow> conn_ref \<Rightarrow> open_cmd \<Rightarrow> conn \<times> tcp_maps \<Rightarrow> (conn \<times> tcp_maps) res" where
  "process_OPEN_PASSIVE par r cmd = (\<lambda>(c, m).
     if fsm c \<noteq> TCP_S_INIT then Inl (RuntimeError ''Error processing command OPEN_PASSIVE: connection already exists'')
     else bindE (initConnection par cmd c) (\<lambda>c1.
       let c2 = upd (\<lambda>s. s\<lparr>active := False, fork := op_fork cmd\<rparr>) c1 in
       if op_localPort cmd = -1
       then Inl (RuntimeError ''Error processing command OPEN_PASSIVE: local port must be specified'')
       else addSockPair r (op_localAddr cmd) unspecifiedAddr (op_localPort cmd) (-1) (c2, m)))"

definition enqueueData :: "packet \<Rightarrow> conn \<Rightarrow> conn res" where
  "enqueueData msg c =
     bindE (snd_enqueueAppData msg (sendQueue c)) (\<lambda>sq.
       if recordStatistics c then Inr (c\<lparr>sendQueue := sq\<rparr>) else Inl (NullPointer ''sendQueueSizeVector''))"

text \<open>In CLOSED the switch has no case; no command reaches a connection in that state.\<close>

definition process_SEND :: "env \<Rightarrow> packet \<Rightarrow> conn \<Rightarrow> conn res" where
  "process_SEND en msg c =
     bindE
       (if fsm c = TCP_S_INIT then Inl (RuntimeError ''Error processing command SEND: connection not open'')
        else if fsm c = TCP_S_LISTEN
        then bindE (selectInitialSeqNum en (upd (\<lambda>s. s\<lparr>active := True\<rparr>) c)) (\<lambda>c1.
             bindE (sendSyn en c1) (\<lambda>c2.
             bindE (startSynRexmitTimer en c2) (\<lambda>c3.
             bindE (scheduleTimeout en connEstabTimer_update (connEstabTimer c3) TCP_TIMEOUT_CONN_ESTAB c3) (enqueueData msg))))
        else if fsm c = TCP_S_SYN_RCVD \<or> fsm c = TCP_S_SYN_SENT then enqueueData msg c
        else if fsm c = TCP_S_ESTABLISHED \<or> fsm c = TCP_S_CLOSE_WAIT
        then bindE (enqueueData msg c) (sendCommandInvoked en)
        else if fsm c = TCP_S_CLOSED then Inr c
        else Inl (RuntimeError ''Error processing command SEND: connection closing'')) (\<lambda>c1.
     Inr (upd (\<lambda>s. if 0 < sendQueueLimit s \<and> ucast (sendQueueLimit s) < snd_getBytesAvailable (snd_una s) (sendQueue c1)
                   then s\<lparr>queueUpdate := False\<rparr> else s) c1))"

definition process_CLOSE :: "env \<Rightarrow> conn \<Rightarrow> (tcp_event \<times> conn) res" where
  "process_CLOSE en c =
     (if fsm c = TCP_S_INIT then Inl (RuntimeError ''Error processing command CLOSE: connection not open'')
      else if fsm c \<in> {TCP_S_LISTEN, TCP_S_SYN_SENT, TCP_S_CLOSED} then Inr (TCP_E_CLOSE, c)
      else if fsm c \<in> {TCP_S_SYN_RCVD, TCP_S_ESTABLISHED, TCP_S_CLOSE_WAIT}
      then bindE (if snd_max (st c) = snd_getBufferEndSeq (sendQueue c)
                  then bindE (sendFin (upd (\<lambda>s. s\<lparr>snd_nxt := snd_max s\<rparr>) c)) (\<lambda>c1.
                       bindE (restartRexmitTimer en c1) (\<lambda>c2.
                         Inr (TCP_E_CLOSE, upd (\<lambda>s. s\<lparr>snd_nxt := snd_nxt s + 1, snd_max := snd_nxt s + 1\<rparr>) c2)))
                  else Inr (TCP_E_IGNORE, c)) (\<lambda>(e, c3).
             Inr (e, upd (\<lambda>s. s\<lparr>send_fin := True, snd_fin_seq := snd_getBufferEndSeq (sendQueue c3)\<rparr>) c3))
      else Inl (RuntimeError ''Duplicate CLOSE command: connection already closing''))"

definition process_ABORT :: "conn \<Rightarrow> conn res" where
  "process_ABORT c =
     (if fsm c = TCP_S_INIT then Inl (RuntimeError ''Error processing command ABORT: connection not open'')
      else if fsm c \<in> {TCP_S_SYN_RCVD, TCP_S_ESTABLISHED, TCP_S_FIN_WAIT_1, TCP_S_FIN_WAIT_2, TCP_S_CLOSE_WAIT}
      then sendRst (snd_nxt (st c)) c
      else Inr c)"

definition process_STATUS :: "conn \<Rightarrow> conn res" where
  "process_STATUS c =
     (if fsm c = TCP_S_INIT then Inl (RuntimeError ''Error processing command STATUS: connection not open'')
      else Inr (emit (StatusToApp (connId c) (fsm c) (st c)) c))"

definition process_QUEUE_BYTES_LIMIT :: "int \<Rightarrow> conn \<Rightarrow> conn res" where
  "process_QUEUE_BYTES_LIMIT userId c =
     (if fsm c = TCP_S_INIT then Inl (RuntimeError ''Called process_QUEUE_BYTES_LIMIT on uninitialized TCPConnection'')
      else Inr (upd (\<lambda>s. s\<lparr>sendQueueLimit := word_of_int userId\<rparr>) c))"

section \<open>Entry points\<close>

definition processAppCommand ::
  "env \<Rightarrow> tcp_pars \<Rightarrow> conn_ref \<Rightarrow> app_command \<Rightarrow> conn \<times> tcp_maps \<Rightarrow> (bool \<times> conn \<times> tcp_maps) res" where
  "processAppCommand en par r cmd = (\<lambda>(c, m).
     bindE (case cmd of
              C_OPEN_ACTIVE oc \<Rightarrow> mapE (Pair TCP_E_OPEN_ACTIVE) (process_OPEN_ACTIVE en par r oc (c, m))
            | C_OPEN_PASSIVE oc \<Rightarrow> mapE (Pair TCP_E_OPEN_PASSIVE) (process_OPEN_PASSIVE par r oc (c, m))
            | C_SEND msg \<Rightarrow> mapE (\<lambda>c1. (TCP_E_SEND, c1, m)) (process_SEND en msg c)
            | C_CLOSE \<Rightarrow> mapE (\<lambda>(e, c1). (e, c1, m)) (process_CLOSE en c)
            | C_ABORT \<Rightarrow> mapE (\<lambda>c1. (TCP_E_ABORT, c1, m)) (process_ABORT c)
            | C_STATUS \<Rightarrow> mapE (\<lambda>c1. (TCP_E_STATUS, c1, m)) (process_STATUS c)
            | C_QUEUE_BYTES_LIMIT n \<Rightarrow> mapE (\<lambda>c1. (TCP_E_QUEUE_BYTES_LIMIT, c1, m)) (process_QUEUE_BYTES_LIMIT n c)
            | C_UNKNOWN \<Rightarrow> Inl (RuntimeError ''Unknown message kind in app command'')) (\<lambda>(e, c1, m1).
       mapE (\<lambda>(alive, c2). (alive, c2, m1)) (performStateTransition e c1)))"

definition processTCPSegment ::
  "env \<Rightarrow> tcp_pars \<Rightarrow> int \<Rightarrow> conn_ref \<Rightarrow> conn_ref \<Rightarrow> tcp_segment \<Rightarrow> ipvx \<Rightarrow> ipvx \<Rightarrow> conn \<times> tcp_maps
    \<Rightarrow> (bool \<times> conn option \<times> conn \<times> tcp_maps) res" where
  "processTCPSegment en par uniqueNumber r r' tcpseg src dest = (\<lambda>(c, m).
     assertE (isUnspecified (localAddr c) \<or> localAddr c = dest \<and> localPort c = uint (destPort tcpseg))
       ''processTCPSegment: local''
      (assertE (isUnspecified (remoteAddr c) \<or> remoteAddr c = src \<and> remotePort c = uint (srcPort tcpseg))
         ''processTCPSegment: remote''
        (bindE (process_RCV_SEGMENT en par uniqueNumber r r' tcpseg src dest (c, m)) (\<lambda>(e, clone, c1, m1).
           mapE (\<lambda>(alive, c2). (alive, clone, c2, m1)) (performStateTransition e c1)))))"

text \<open>The timers of a connection; \<open>T_ALG\<close> are those of the algorithm.\<close>

datatype conn_timer = T_2MSL | T_CONN_ESTAB | T_FIN_WAIT_2 | T_SYN_REXMIT | T_ALG alg_timer

definition processTimer :: "env \<Rightarrow> conn_timer \<Rightarrow> conn \<Rightarrow> (bool \<times> conn) res" where
  "processTimer en t c =
     bindE (case t of
              T_2MSL \<Rightarrow> mapE (Pair TCP_E_TIMEOUT_2MSL) (process_TIMEOUT_2MSL c)
            | T_CONN_ESTAB \<Rightarrow> mapE (Pair TCP_E_TIMEOUT_CONN_ESTAB) (process_TIMEOUT_CONN_ESTAB c)
            | T_FIN_WAIT_2 \<Rightarrow> mapE (Pair TCP_E_TIMEOUT_FIN_WAIT_2) (process_TIMEOUT_FIN_WAIT_2 c)
            | T_SYN_REXMIT \<Rightarrow> process_TIMEOUT_SYN_REXMIT en c
            | T_ALG a \<Rightarrow> alg_processTimer en a c) (\<lambda>(e, c1). performStateTransition e c1)"

end
