(* ===== verification/Tcp_Main.thy ===== *)
theory Tcp_Main
  imports Tcp_App
begin

text \<open>
  The TCP module, \<open>src/transport/tcp/TCP.cc\<close>: \<open>handleMessage\<close> finds the connection for a timer, a
  segment or a command, lets it run, and removes it when it is closed.

  \<^item> \<open>conns\<close> is the heap of connections; a \<open>conn_ref\<close> that is not in it is a pointer to a deleted one.
  \<^item> What a connection has sent is moved to \<open>sent\<close>, with the index of its application gate, when its handler ends.
  \<^item> The relay application that a host may have is a parameter: from the connection and the segment to
    whether the segment is dropped, and both as it leaves them.  \<open>None\<close> is a host without one.
  \<^item> \<open>uniqueNumber\<close> is what \<open>ev.getUniqueNumber()\<close> returns.
\<close>

record tcp_main =
  maps :: tcp_maps
  conns :: "conn_ref \<Rightarrow> conn option"
  nextRef :: conn_ref
  isOperational :: bool
  sent :: "(int \<times> tcp_out) list"

type_synonym relay_app = "(conn \<times> tcp_segment \<Rightarrow> bool \<times> conn \<times> tcp_segment) option"

text \<open>A segment comes with the addresses and the congestion mark of its control information.\<close>

datatype tcp_message =
    SelfMsg conn_ref conn_timer
  | IcmpError
  | SegmentMsg tcp_segment ipvx ipvx bool
  | SegmentWithoutControlInfo tcp_segment
  | AppMsg int int app_command

definition init_main :: tcp_main where
  "init_main = \<lparr>
     maps = \<lparr>tcpConnMap = \<lambda>_. None, tcpAppConnMap = \<lambda>_. None, usedEphemeralPorts = {#},
              lastEphemeralPort = EPHEMERAL_PORTRANGE_START\<rparr>,
     conns = \<lambda>_. None, nextRef = 0, isOperational = True, sent = []\<rparr>"

definition expireTimer :: "conn_timer \<Rightarrow> conn \<Rightarrow> conn" where
  "expireTimer t c =
     (case t of
        T_2MSL \<Rightarrow> c\<lparr>the2MSLTimer := TimerIdle\<rparr>
      | T_CONN_ESTAB \<Rightarrow> c\<lparr>connEstabTimer := TimerIdle\<rparr>
      | T_FIN_WAIT_2 \<Rightarrow> c\<lparr>finWait2Timer := TimerIdle\<rparr>
      | T_SYN_REXMIT \<Rightarrow> c\<lparr>synRexmitTimer := TimerIdle\<rparr>
      | T_ALG a \<Rightarrow>
          (case a of
             RexmitTimer \<Rightarrow> c\<lparr>rexmitTimer := TimerIdle\<rparr>
           | PersistTimer \<Rightarrow> c\<lparr>persistTimer := TimerIdle\<rparr>
           | DelayedAckTimer \<Rightarrow> c\<lparr>delayedAckTimer := TimerIdle\<rparr>
           | KeepAliveTimer \<Rightarrow> c\<lparr>keepAliveTimer := TimerIdle\<rparr>))"

text \<open>Write a connection back, with what it has sent taken out of it.\<close>

definition store :: "conn_ref \<Rightarrow> conn \<Rightarrow> tcp_main \<Rightarrow> tcp_main" where
  "store r c M = M\<lparr>conns := (conns M)(r \<mapsto> c\<lparr>outs := []\<rparr>), sent := sent M @ map (Pair (appGateIndex c)) (outs c)\<rparr>"

definition removeConnection :: "conn_ref \<Rightarrow> conn \<Rightarrow> tcp_main \<Rightarrow> tcp_main" where
  "removeConnection r c M = M\<lparr>maps := unregister c (maps M), conns := (conns M)(r := None)\<rparr>"

text \<open>After a handler: store the connection and the tables, and remove the connection where it is closed.\<close>

definition finish_handler :: "conn_ref \<Rightarrow> bool \<times> conn \<times> tcp_maps \<Rightarrow> tcp_main \<Rightarrow> tcp_main" where
  "finish_handler r = (\<lambda>(alive, c, m) M.
     let M1 = store r c (M\<lparr>maps := m\<rparr>) in if alive then M1 else removeConnection r c M1)"

definition deref :: "conn_ref \<Rightarrow> tcp_main \<Rightarrow> conn res" where
  "deref r M = (case conns M r of None \<Rightarrow> Inl (NullPointer ''connection'') | Some c \<Rightarrow> Inr c)"

definition handleTimer :: "env \<Rightarrow> conn_ref \<Rightarrow> conn_timer \<Rightarrow> tcp_main \<Rightarrow> tcp_main res" where
  "handleTimer en r t M =
     bindE (deref r M) (\<lambda>c.
     bindE (processTimer en t (expireTimer t c)) (\<lambda>(alive, c1).
       Inr (finish_handler r (alive, c1, maps M) M)))"

text \<open>
  The temporary connection for a segment without a connection: its constructor sets \<open>tcpMain\<close> and \<open>tcpMain2\<close> to
  NULL.
\<close>

definition tmp_conn :: conn where
  "tmp_conn = \<lparr>
     appGateIndex = -1, connId = -1, localAddr = unspecifiedAddr, remoteAddr = unspecifiedAddr, localPort = -1,
     remotePort = -1, fsm = TCP_S_INIT, st = new_state_variables, sendQueue = VirtualDataSendQueue 0 0,
     receiveQueue = VirtualDataRcvQueue (rcvq_init 0), transferMode = TCP_TRANSFER_BYTECOUNT, rexmitQ = None,
     tcpAlgorithm = TCPReno, the2MSLTimer = TimerNULL, connEstabTimer = TimerNULL, finWait2Timer = TimerNULL,
     synRexmitTimer = TimerNULL, rexmitTimer = TimerNULL, persistTimer = TimerNULL, delayedAckTimer = TimerNULL,
     keepAliveTimer = TimerNULL, paceTimer = TimerNULL, rateUpdateTimer = TimerNULL,
     recordStatistics = False, hasModule = False, outs = []\<rparr>"

text \<open>A clone that a forking connection has created takes the next reference.\<close>

definition handleSegment ::
  "env \<Rightarrow> tcp_pars \<Rightarrow> int \<Rightarrow> relay_app \<Rightarrow> tcp_segment \<Rightarrow> ipvx \<Rightarrow> ipvx \<Rightarrow> tcp_main \<Rightarrow> tcp_main res" where
  "handleSegment en par uniqueNumber relay tcpseg srcAddr destAddr M =
     (case findConnForSegment tcpseg srcAddr destAddr (maps M) of
        None \<Rightarrow>
          mapE (\<lambda>tmp. M\<lparr>sent := sent M @ map (Pair (-1)) (outs tmp)\<rparr>)
            (segmentArrivalWhileClosed tcpseg srcAddr destAddr tmp_conn)
      | Some r \<Rightarrow>
          bindE (deref r M) (\<lambda>c.
          let (dropped, c1, seg1) = (case relay of None \<Rightarrow> (False, c, tcpseg) | Some f \<Rightarrow> f (c, tcpseg)) in
          if dropped then Inr (store r c1 M)
          else bindE (processTCPSegment en par uniqueNumber r (nextRef M) seg1 srcAddr destAddr
                        (upd (\<lambda>s. s\<lparr>ecn := ecnBit seg1\<rparr>) c1, maps M)) (\<lambda>(alive, clone, c2, m).
                 let M1 = finish_handler r (alive, c2, m) M
                 in Inr (case clone of
                      None \<Rightarrow> M1
                    | Some c' \<Rightarrow> M1\<lparr>conns := (conns M1)(nextRef M \<mapsto> c'), nextRef := nextRef M + 1\<rparr>))))"

definition handleAppCommand :: "env \<Rightarrow> tcp_pars \<Rightarrow> int \<Rightarrow> int \<Rightarrow> app_command \<Rightarrow> tcp_main \<Rightarrow> tcp_main res" where
  "handleAppCommand en par gate cid cmd M =
     (let (r, M1) =
        (case findConnForApp gate cid (maps M) of
           Some r \<Rightarrow> (r, M)
         | None \<Rightarrow>
             (nextRef M,
              M\<lparr>maps := (maps M)\<lparr>tcpAppConnMap := (tcpAppConnMap (maps M))(AppConnKey gate cid \<mapsto> nextRef M)\<rparr>,
                conns := (conns M)(nextRef M \<mapsto> new_conn par gate cid), nextRef := nextRef M + 1\<rparr>))
      in bindE (deref r M1) (\<lambda>c.
         bindE (processAppCommand en par r cmd (c, maps M1)) (\<lambda>res. Inr (finish_handler r res M1))))"

definition handleMessage :: "env \<Rightarrow> tcp_pars \<Rightarrow> int \<Rightarrow> relay_app \<Rightarrow> tcp_message \<Rightarrow> tcp_main \<Rightarrow> tcp_main res" where
  "handleMessage en par uniqueNumber relay msg M =
     (if \<not> isOperational M
      then (case msg of SelfMsg _ _ \<Rightarrow> Inl (RuntimeError ''Model error: self msg received when isOperational is false'')
            | _ \<Rightarrow> Inr M)
      else (case msg of
              SelfMsg r t \<Rightarrow> handleTimer en r t M
            | IcmpError \<Rightarrow> Inr M
            | SegmentMsg seg src dest mark \<Rightarrow> handleSegment en par uniqueNumber relay (seg\<lparr>ecnBit := mark\<rparr>) src dest M
            | SegmentWithoutControlInfo seg \<Rightarrow> Inl (RuntimeError ''segment arrived without control info'')
            | AppMsg gate cid cmd \<Rightarrow> handleAppCommand en par gate cid cmd M))"

section \<open>Life cycle\<close>

text \<open>The operations on a node, and whether the stage is the one at which the module acts.\<close>

datatype lifecycle_operation = NodeStartOperation | NodeShutdownOperation | NodeCrashOperation | OtherOperation

definition reset_main :: "tcp_main \<Rightarrow> tcp_main" where
  "reset_main M = M\<lparr>maps := reset_maps (maps M), conns := \<lambda>_. None\<rparr>"

definition handleOperationStage :: "lifecycle_operation \<Rightarrow> bool \<Rightarrow> tcp_main \<Rightarrow> tcp_main res" where
  "handleOperationStage op at_stage M =
     (case op of
        NodeStartOperation \<Rightarrow> Inr (if at_stage then M\<lparr>isOperational := True\<rparr> else M)
      | NodeShutdownOperation \<Rightarrow> Inr (if at_stage then (reset_main M)\<lparr>isOperational := False\<rparr> else M)
      | NodeCrashOperation \<Rightarrow> Inr (if at_stage then (reset_main M)\<lparr>isOperational := False\<rparr> else M)
      | OtherOperation \<Rightarrow> Inl (RuntimeError ''Unsupported operation''))"

end
