(* ===== verification/Tcp_Inv.thy ===== *)
theory Tcp_Inv
  imports Tcp_Frame Tcp_Main
begin

text \<open>
  The invariant of the TCP module: the tables, the connections and their timers agree, whatever messages arrive.

  The first part follows a connection through its handlers: \<open>keeps\<close> says what stays, \<open>tw_ok\<close> that the events
  which lead to TIME_WAIT come with a running 2MSL timer.  The second part is \<open>main_ok\<close>, the invariant itself.
\<close>

section \<open>Handlers of one connection\<close>

definition keeps :: "conn \<Rightarrow> conn \<Rightarrow> bool" where
  "keeps c c' \<longleftrightarrow> sock_key c' = sock_key c \<and> app_key c' = app_key c \<and> fsm c' = fsm c \<and> hasModule c' = hasModule c
     \<and> (isScheduled (finWait2Timer c') \<longrightarrow> isScheduled (finWait2Timer c))
     \<and> (isScheduled (the2MSLTimer c) \<longrightarrow> isScheduled (the2MSLTimer c'))"

definition tw_ok :: "tcp_event \<Rightarrow> conn \<Rightarrow> bool" where
  "tw_ok e c \<longleftrightarrow>
     (fsm c = TCP_S_FIN_WAIT_1 \<and> e = TCP_E_RCV_FIN_ACK \<or> fsm c = TCP_S_FIN_WAIT_2 \<and> e = TCP_E_RCV_FIN
       \<or> fsm c = TCP_S_CLOSING \<and> e = TCP_E_RCV_ACK \<longrightarrow> isScheduled (the2MSLTimer c))"

lemma keeps_refl [simp]: "keeps c c"
  by (simp add: keeps_def)

lemma keeps_trans: "keeps c1 c2 \<Longrightarrow> keeps c2 c3 \<Longrightarrow> keeps c1 c3"
  by (simp add: keeps_def)

lemma ident_keeps: "ident c' = ident c \<Longrightarrow> keeps c c'"
  by (simp add: keeps_def sock_key_def app_key_def ident_def)

lemma keeps_tw: "keeps c c' \<Longrightarrow> tw_ok e c \<Longrightarrow> tw_ok e c'"
  by (simp add: keeps_def tw_ok_def)

lemma keeps_fsm: "keeps c c' \<Longrightarrow> fsm c' = fsm c"
  by (simp add: keeps_def)

lemma keeps_2MSL [simp]: "isScheduled t \<Longrightarrow> keeps c (c\<lparr>the2MSLTimer := t\<rparr>)"
  by (simp add: keeps_def sock_key_def app_key_def)

lemma scheduled_now: "scheduleAt at t = Inr t' \<Longrightarrow> isScheduled t'"
  by (cases t) (auto simp: scheduleAt_def isScheduled_def)

lemma cancelled_now: "cancelTimer t = Inr t' \<Longrightarrow> \<not> isScheduled t'"
  by (cases t) (auto simp: cancelTimer_def isScheduled_def)

lemma restart2MSL_keeps [wp]:
  "(\<And>c'. keeps c c' \<Longrightarrow> isScheduled (the2MSLTimer c') \<Longrightarrow> P c') \<Longrightarrow> post (restart2MSL en c) P"
  unfolding restart2MSL_def
  by (rule wp)+ (simp add: keeps_def sock_key_def app_key_def scheduled_now)

lemma finReceived_keeps [wp]:
  "(\<And>e c'. keeps c c' \<Longrightarrow> tw_ok e c' \<Longrightarrow> P (e, c')) \<Longrightarrow> post (finReceived en c) P"
  unfolding finReceived_def
  by (rule wp | simp add: keeps_def sock_key_def app_key_def scheduled_now cancelled_now tw_ok_def)+


lemma rcv_queue_any [wp]:
  "(\<And>n q. P (n, q)) \<Longrightarrow> post (rcv_insertBytesFromSegment seg Q) P"
  "(\<And>m q. P2 (m, q)) \<Longrightarrow> post (rcv_extractBytesUpTo s Q) P2"
  "(\<And>a. P3 a) \<Longrightarrow> post (truncateSegment x y seg) P3" "(\<And>a. P4 a) \<Longrightarrow> post (getTSecr seg) P4"
  "(\<And>a. P5 a) \<Longrightarrow> post (getTSval seg) P5"
  by (auto intro: postI)

lemma insertSynText_frame [wp]: "(\<And>ok c'. ident c' = ident c \<Longrightarrow> P (ok, c')) \<Longrightarrow> post (insertSynText seg c) P"
  unfolding insertSynText_def by (rule wp | simp)+

lemma startSynRexmitTimer_frame [wp]: "(\<And>c'. ident c' = ident c \<Longrightarrow> P c') \<Longrightarrow> post (startSynRexmitTimer en c) P"
  unfolding startSynRexmitTimer_def by (rule wp | simp)+

lemma processNewAck_frame [wp]: "(\<And>c'. ident c' = ident c \<Longrightarrow> P c') \<Longrightarrow> post (processNewAck en seg c) P"
  unfolding processNewAck_def by (rule wp | simp)+

lemma processAckInEstabEtc_frame [wp]:
  "(\<And>ok c'. ident c' = ident c \<Longrightarrow> P (ok, c')) \<Longrightarrow> post (processAckInEstabEtc en seg c) P"
  unfolding processAckInEstabEtc_def by (rule wp | simp)+

lemma pawsRejects_any [wp]: "(\<And>b. P b) \<Longrightarrow> post (pawsRejects en seg c) P"
  by (rule postI)

lemma checkSequence_frame [wp]: "(\<And>ok c'. ident c' = ident c \<Longrightarrow> P (ok, c')) \<Longrightarrow> post (checkSequence en seg c) P"
  unfolding checkSequence_def by (rule wp | simp)+

lemma rejectSegment_frame [wp]: "(\<And>c'. ident c' = ident c \<Longrightarrow> P c') \<Longrightarrow> post (rejectSegment en seg c) P"
  unfolding rejectSegment_def by (rule wp | simp)+

lemma processRstInSynReceived_frame [wp]:
  "(\<And>c'. ident c' = ident c \<Longrightarrow> P (TCP_E_RCV_RST, c')) \<Longrightarrow> post (processRstInSynReceived c) P"
  unfolding processRstInSynReceived_def by (rule wp | simp)+

lemma processRst_frame [wp]: "(\<And>c'. ident c' = ident c \<Longrightarrow> P (TCP_E_RCV_RST, c')) \<Longrightarrow> post (processRst c) P"
  unfolding processRst_def by (rule wp | simp)+

lemma checkAckInSynRcvd_frame [wp]:
  "(\<And>ok c'. ident c' = ident c \<Longrightarrow> P (ok, c')) \<Longrightarrow> post (checkAckInSynRcvd en seg c) P"
  unfolding checkAckInSynRcvd_def by (rule wp | simp)+

lemma afterAck_keeps [wp]:
  assumes "e = TCP_E_IGNORE \<or> fsm c = TCP_S_SYN_RCVD" "\<And>ret e' c'. keeps c c' \<Longrightarrow> tw_ok e' c' \<Longrightarrow> P (ret, e', c')"
  shows "post (afterAck en seg e c) P"
  unfolding afterAck_def
  by (rule wp assms(2)
    | (use assms(1) in \<open>force simp: keeps_def sock_key_def app_key_def ident_def scheduled_now tw_ok_def\<close>))+

lemma deliverData_frame [wp]: "(\<And>s c'. ident c' = ident (snd sc) \<Longrightarrow> P (s, c')) \<Longrightarrow> post (deliverData n en i sc) P"
proof (induction n arbitrary: i sc)
  case (Suc n)
  show ?case
    by (cases "relayMark en"; cases sc; simp only: deliverData.simps) (rule wp Suc.IH | simp add: Suc.prems Let_def)+
qed simp

lemma insertText_frame [wp]: "(\<And>c'. ident c' = ident c \<Longrightarrow> P c') \<Longrightarrow> post (insertText en s seg c) P"
  unfolding insertText_def by (rule wp | simp)+

lemma outOfOrderText_frame [wp]: "(\<And>c'. ident c' = ident c \<Longrightarrow> P c') \<Longrightarrow> post (outOfOrderText en s seg c) P"
  unfolding outOfOrderText_def by (rule wp | simp)+

lemma noteFullSized_ident [simp]: "ident (noteFullSized seg c) = ident c"
  by (simp add: noteFullSized_def)

lemma rcvNxtChanged_frame [wp]: "(\<And>c'. ident c' = ident c \<Longrightarrow> P c') \<Longrightarrow> post (rcvNxtChanged en seg c) P"
  unfolding rcvNxtChanged_def by (rule wp | simp)+


lemmas keep_simps = keeps_def sock_key_def app_key_def ident_def tw_ok_def

lemma checkAck_keeps [wp]:
  assumes "\<And>ret e n c'. keeps c c' \<Longrightarrow> tw_ok e c' \<Longrightarrow> P (ret, e, n, c')"
  shows "post (checkAck en seg c) P"
  unfolding checkAck_def
  by (rule wp assms | assumption | simp only: prod.case | (rule ident_keeps, simp; fail) | (simp add: tw_ok_def; fail)
    | (force simp: keep_simps))+

lemma inOrderText_keeps [wp]:
  assumes "tw_ok e c" "\<And>e' s c'. keeps c c' \<Longrightarrow> tw_ok e' c' \<Longrightarrow> P (e', s, c')"
  shows "post (inOrderText en e seg c) P"
  unfolding inOrderText_def
  by (rule wp assms(2) | assumption | simp only: prod.case | (use assms(1) in \<open>force simp: keep_simps\<close>))+

lemma processText_keeps [wp]:
  assumes "tw_ok e c" "\<And>ret e' s c'. keeps c c' \<Longrightarrow> tw_ok e' c' \<Longrightarrow> P (ret, e', s, c')"
  shows "post (processText en u e seg c) P"
proof -
  have k: "keeps c1 c' \<Longrightarrow> ident c1 = ident c \<Longrightarrow> tw_ok e' c' \<Longrightarrow> P (ret, e', s, c')" for ret e' s c' c1
    by (rule assms(2)[OF keeps_trans[OF ident_keeps]])
  have k0: "ident c' = ident c \<Longrightarrow> P (ret, e, s, c')" for ret s c'
    using assms ident_keeps keeps_tw by blast
  have k1: "ident c' = ident c \<Longrightarrow> P (ret, TCP_E_IGNORE, s, c')" for ret s c'
    by (rule assms(2)[OF ident_keeps]) (simp_all add: tw_ok_def)
  have t: "ident c' = ident c \<Longrightarrow> tw_ok e c'" for c'
    using assms(1) ident_keeps keeps_tw by blast
  show ?thesis
    unfolding processText_def by (rule wp k0 k1 k t | assumption | force)+
qed

lemma processFin_keeps [wp]:
  assumes "tw_ok e c" "\<And>e' c'. keeps c c' \<Longrightarrow> tw_ok e' c' \<Longrightarrow> P (e', c')"
  shows "post (processFin en e seg c) P"
  unfolding processFin_def
  by (rule wp assms(2) | (use assms(1) in \<open>force simp: keep_simps\<close>))+

lemma deferredClose_tw: "tw_ok e c \<Longrightarrow> tw_ok (deferredClose n e c) c"
  by (auto simp: deferredClose_def tw_ok_def Let_def)

lemma processText_onwards_keeps [wp]:
  assumes "tw_ok e c" "\<And>e' c'. keeps c c' \<Longrightarrow> tw_ok e' c' \<Longrightarrow> P (e', c')"
  shows "post (processText_onwards en u n e seg c) P"
proof -
  have step1: "post (if fsm c \<in> X \<and> 0 < payloadLength seg then processText en u e seg c else Inr (False, e, seg, c))
    (\<lambda>(ret, e1, seg1, c1). keeps c c1 \<and> tw_ok e1 c1)" for X
    by (rule wp assms(1) | simp add: assms(1))+
  have step2: "post (if finBit seg1 then processFin en e1 seg1 c1 else Inr (e1, c1)) (\<lambda>(e2, c2). keeps c1 c2 \<and> tw_ok e2 c2)"
    if "tw_ok e1 c1" for e1 c1 seg1
    by (rule wp that | simp add: that)+
  have step3: "post (if b then rcvNxtChanged en seg1 c2 else Inr c2) (\<lambda>c3. keeps c2 c3)" for b seg1 c2
    by (rule wp | simp add: ident_keeps)+
  have k: "keeps c c1 \<Longrightarrow> keeps c1 c2 \<Longrightarrow> keeps c2 c3 \<Longrightarrow> tw_ok e1 c2 \<Longrightarrow> P (deferredClose n e1 c3, c3)" for c1 c2 c3 e1
    by (meson assms(2) deferredClose_tw keeps_trans keeps_tw)
  show ?thesis
    unfolding processText_onwards_def Let_def
  proof (rule post_bindE, rule post_mono[OF step1], clarify, rule post_if)
    show "keeps c c1 \<Longrightarrow> tw_ok e1 c1 \<Longrightarrow> post (Inr (e1, c1)) P" for e1 c1
      by (simp add: assms(2))
  next
    fix e1 seg1 c1
    assume "keeps c c1" "tw_ok e1 c1"
    then show "post (bindE (if finBit seg1 then processFin en e1 seg1 c1 else Inr (e1, c1)) (\<lambda>(e2, c2).
           bindE (if rcv_nxt (st c) \<noteq> rcv_nxt (st c2) then rcvNxtChanged en seg1 c2 else Inr c2) (\<lambda>c3.
             Inr (deferredClose n e2 c3, c3)))) P"
    proof (elim post_bindE[OF post_mono[OF step2]], clarify)
      fix e2 c2
      assume "keeps c c1" "keeps c1 c2" "tw_ok e2 c2"
      then show "post (bindE (if rcv_nxt (st c) \<noteq> rcv_nxt (st c2) then rcvNxtChanged en seg1 c2 else Inr c2) (\<lambda>c3.
             Inr (deferredClose n e2 c3, c3))) P"
        by (intro post_bindE post_mono[OF step3]) (simp add: k)
    qed
  qed
qed

lemma processSegment1stThru8th_keeps [wp]:
  assumes "\<And>e' c'. keeps c c' \<Longrightarrow> tw_ok e' c' \<Longrightarrow> P (e', c')"
  shows "post (processSegment1stThru8th en seg c) P"
  unfolding processSegment1stThru8th_def
  by (rule wp assms | assumption | simp only: prod.case | (rule ident_keeps, simp; fail) | (simp add: tw_ok_def; fail)
    | (force simp: keep_simps))+


section \<open>The tables\<close>

definition port_ok :: "int \<Rightarrow> bool" where
  "port_ok p \<longleftrightarrow> -1 \<le> p \<and> p \<le> 65535"

definition maps_ok :: "tcp_maps \<Rightarrow> bool" where
  "maps_ok m \<longleftrightarrow> finite (dom (tcpConnMap m)) \<and> (\<forall>k \<in> dom (tcpConnMap m). port_ok (sp_localPort k))
     \<and> (\<forall>p. count (usedEphemeralPorts m) p
              = (if in_range p then card {k \<in> dom (tcpConnMap m). sp_localPort k = uint p} else 0))
     \<and> in_range (lastEphemeralPort m)"

lemma maps_okD:
  assumes "maps_ok m"
  shows "finite (dom (tcpConnMap m))" "k \<in> dom (tcpConnMap m) \<Longrightarrow> port_ok (sp_localPort k)"
    "count (usedEphemeralPorts m) p = (if in_range p then card {k \<in> dom (tcpConnMap m). sp_localPort k = uint p} else 0)"
    "in_range (lastEphemeralPort m)"
  using assms by (simp_all add: maps_ok_def)

lemma in_range_int: "in_range q \<longleftrightarrow> 1024 \<le> uint q \<and> uint q < 5000"
  by (simp add: in_range_def EPHEMERAL_PORTRANGE_START_def EPHEMERAL_PORTRANGE_END_def word_le_def word_less_def)

lemma uint_word_of_port: "port_ok p \<Longrightarrow> uint (word_of_int p :: u16) = (if p = -1 then 65535 else p)"
  by (auto simp: port_ok_def uint_word_of_int)

lemma word_of_port: "port_ok p \<Longrightarrow> in_range q \<Longrightarrow> (word_of_int p :: u16) = q \<longleftrightarrow> p = uint q"
  using uint_word_of_port[of p] by (auto simp: in_range_int split: if_splits)

lemma in_range_of_int: "port_ok p \<Longrightarrow> in_range (word_of_int p) \<longleftrightarrow> in_ephemeral_range p"
  using uint_word_of_port[of p]
  by (auto simp: in_range_int in_ephemeral_range_def EPHEMERAL_PORTRANGE_START_def EPHEMERAL_PORTRANGE_END_def)

text \<open>Registration, a new key for a registered connection, and removal.\<close>

lemma maps_ok_add:
  assumes "maps_ok m" "k \<notin> dom (tcpConnMap m)" "port_ok (sp_localPort k)"
  shows "maps_ok (m\<lparr>tcpConnMap := (tcpConnMap m)(k \<mapsto> r),
    usedEphemeralPorts := (if in_ephemeral_range (sp_localPort k) then add_mset (word_of_int (sp_localPort k)) (usedEphemeralPorts m)
                           else usedEphemeralPorts m)\<rparr>)"
proof -
  note m = maps_okD[OF assms(1)]
  let ?S = "\<lambda>p. {k' \<in> dom (tcpConnMap m). sp_localPort k' = uint p}"
  have S: "{k' \<in> dom ((tcpConnMap m)(k \<mapsto> r)). sp_localPort k' = uint p} = (if sp_localPort k = uint p then insert k (?S p) else ?S p)" for p :: u16
    by auto
  have c: "card (insert k (?S p)) = Suc (card (?S p))" for p
    using m(1) assms(2) by simp
  have w: "in_range p \<Longrightarrow> (word_of_int (sp_localPort k) :: u16) = p \<longleftrightarrow> sp_localPort k = uint p" for p
    by (rule word_of_port[OF assms(3)])
  have n: "\<not> in_range p \<Longrightarrow> in_ephemeral_range (sp_localPort k) \<Longrightarrow> word_of_int (sp_localPort k) \<noteq> p" for p
    using in_range_of_int[OF assms(3)] by auto
  have e: "in_range p \<Longrightarrow> sp_localPort k = uint p \<Longrightarrow> in_ephemeral_range (sp_localPort k)" for p
    using w in_range_of_int[OF assms(3)] by force
  have cnt: "count (if in_ephemeral_range (sp_localPort k) then add_mset (word_of_int (sp_localPort k)) (usedEphemeralPorts m)
        else usedEphemeralPorts m) p
    = (if in_range p then card {k' \<in> dom ((tcpConnMap m)(k \<mapsto> r)). sp_localPort k' = uint p} else 0)" for p
    unfolding S using m(3)[of p] c[of p] w[of p] n[of p] e[of p] by auto
  show ?thesis
    unfolding maps_ok_def tcp_maps.simps using m(1,2,4) cnt assms(3) by auto
qed

lemma maps_ok_move:
  assumes "maps_ok m" "k \<in> dom (tcpConnMap m)" "k' = k \<or> k' \<notin> dom (tcpConnMap m)" "sp_localPort k' = sp_localPort k"
  shows "maps_ok (m\<lparr>tcpConnMap := (tcpConnMap m)(k := None, k' \<mapsto> r)\<rparr>)"
proof -
  note m = maps_okD[OF assms(1)]
  let ?S = "\<lambda>p. {j \<in> dom (tcpConnMap m). sp_localPort j = uint p}"
  have "card {j \<in> dom ((tcpConnMap m)(k := None, k' \<mapsto> r)). sp_localPort j = uint p} = card (?S p)" for p :: u16
  proof (cases "sp_localPort k = uint p")
    case True
    then have "{j \<in> dom ((tcpConnMap m)(k := None, k' \<mapsto> r)). sp_localPort j = uint p} = insert k' (?S p - {k})"
      using assms(4) by auto
    moreover have "card (insert k' (?S p - {k})) = card (?S p)"
    proof (cases "k' = k")
      case True
      then show ?thesis using assms(2) \<open>sp_localPort k = uint p\<close> by (simp add: insert_absorb)
    next
      case False
      then have "k' \<notin> dom (tcpConnMap m)" using assms(3) by blast
      then show ?thesis
        using assms(2) \<open>sp_localPort k = uint p\<close> m(1) card_Suc_Diff1[of "?S p" k] by simp
    qed
    ultimately show ?thesis by simp
  next
    case False
    then have "{j \<in> dom ((tcpConnMap m)(k := None, k' \<mapsto> r)). sp_localPort j = uint p} = ?S p"
      using assms(4) by auto
    then show ?thesis by simp
  qed
  then show ?thesis
    using m(1,3,4) m(2)[of k] m(2) assms(2,4) unfolding maps_ok_def by (auto simp: domIff split: if_splits)
qed

lemma maps_ok_remove:
  assumes "maps_ok m" "k \<in> dom (tcpConnMap m)"
  shows "maps_ok (m\<lparr>tcpConnMap := (tcpConnMap m)(k := None),
    usedEphemeralPorts := usedEphemeralPorts m - {#word_of_int (sp_localPort k)#}\<rparr>)"
proof -
  note m = maps_okD[OF assms(1)]
  let ?S = "\<lambda>p. {j \<in> dom (tcpConnMap m). sp_localPort j = uint p}"
  have S: "{j \<in> dom ((tcpConnMap m)(k := None)). sp_localPort j = uint p} = (if sp_localPort k = uint p then ?S p - {k} else ?S p)" for p :: u16
    by auto
  have c: "sp_localPort k = uint p \<Longrightarrow> card (?S p - {k}) = card (?S p) - 1" for p
    using m(1) assms(2) by (simp add: card_Diff_singleton)
  have w: "in_range p \<Longrightarrow> (word_of_int (sp_localPort k) :: u16) = p \<longleftrightarrow> sp_localPort k = uint p" for p
    by (rule word_of_port[OF m(2)[OF assms(2)]])
  have cnt: "count (usedEphemeralPorts m - {#word_of_int (sp_localPort k)#}) p
    = (if in_range p then card {j \<in> dom ((tcpConnMap m)(k := None)). sp_localPort j = uint p} else 0)" for p
    unfolding S using m(3)[of p] c[of p] w[of p] by auto
  show ?thesis
    unfolding maps_ok_def tcp_maps.simps using m(1,2,4) cnt by auto
qed


text \<open>
  What is registered: for every connection its keys, and whether it is still without a socket pair.  \<open>n\<close> is the
  next reference.
\<close>

type_synonym keys = "sock_pair \<times> app_conn_key \<times> bool"

definition reg_ok :: "tcp_maps \<Rightarrow> (conn_ref \<Rightarrow> keys option) \<Rightarrow> conn_ref \<Rightarrow> bool" where
  "reg_ok m h n \<longleftrightarrow> maps_ok m
     \<and> (\<forall>r s a i. h r = Some (s, a, i) \<longrightarrow> r < n \<and> tcpAppConnMap m a = Some r \<and> (\<not> i \<longrightarrow> tcpConnMap m s = Some r))
     \<and> (\<forall>s r. tcpConnMap m s = Some r \<longrightarrow> (\<exists>a. h r = Some (s, a, False)))
     \<and> (\<forall>a r. tcpAppConnMap m a = Some r \<longrightarrow> (\<exists>s i. h r = Some (s, a, i)))"

lemma reg_okD:
  assumes "reg_ok m h n"
  shows "maps_ok m" "h r = Some (s, a, i) \<Longrightarrow> r < n" "h r = Some (s, a, i) \<Longrightarrow> tcpAppConnMap m a = Some r"
    "h r = Some (s, a, False) \<Longrightarrow> tcpConnMap m s = Some r"
    "tcpConnMap m s = Some r \<Longrightarrow> \<exists>a. h r = Some (s, a, False)" "tcpAppConnMap m a = Some r \<Longrightarrow> \<exists>s i. h r = Some (s, a, i)"
  using assms unfolding reg_ok_def by blast+

lemma reg_okI:
  assumes "maps_ok m"
    "\<And>r s a i. h r = Some (s, a, i) \<Longrightarrow> r < n \<and> tcpAppConnMap m a = Some r"
    "\<And>r s a. h r = Some (s, a, False) \<Longrightarrow> tcpConnMap m s = Some r"
    "\<And>s r. tcpConnMap m s = Some r \<Longrightarrow> \<exists>a. h r = Some (s, a, False)"
    "\<And>a r. tcpAppConnMap m a = Some r \<Longrightarrow> \<exists>s i. h r = Some (s, a, i)"
  shows "reg_ok m h n"
  unfolding reg_ok_def using assms by (metis (full_types))

lemma reg_uniq:
  assumes "reg_ok m h n"
  shows "h r = Some (s, a, i) \<Longrightarrow> tcpAppConnMap m a' = Some r \<Longrightarrow> a' = a"
    "h r = Some (s, a, i) \<Longrightarrow> tcpConnMap m s' = Some r \<Longrightarrow> s' = s \<and> \<not> i"
  using reg_okD(6)[OF assms, of a' r] reg_okD(5)[OF assms, of s' r] by auto

lemma maps_ok_app [simp]: "maps_ok (m\<lparr>tcpAppConnMap := x\<rparr>) = maps_ok m"
  by (simp add: maps_ok_def)

lemma reg_new:
  assumes "reg_ok m h n" "tcpAppConnMap m a = None"
  shows "reg_ok (m\<lparr>tcpAppConnMap := (tcpAppConnMap m)(a \<mapsto> n)\<rparr>) (h(n \<mapsto> (s, a, True))) (n + 1)"
proof -
  have "h n = None" using reg_okD(2)[OF assms(1), of n] by (cases "h n") auto
  then show ?thesis
    using assms unfolding reg_ok_def by (auto 4 3 simp: less_Suc_eq)
qed

lemma reg_last:
  assumes "reg_ok m h n" "in_range p"
  shows "reg_ok (m\<lparr>lastEphemeralPort := p\<rparr>) h n"
  using assms by (simp add: reg_ok_def maps_ok_def)

lemma reg_add:
  assumes "reg_ok m h n" "h r = Some (s, a, True)" "tcpConnMap m k = None" "port_ok (sp_localPort k)"
  shows "reg_ok (m\<lparr>tcpConnMap := (tcpConnMap m)(k \<mapsto> r),
      usedEphemeralPorts := (if in_ephemeral_range (sp_localPort k) then add_mset (word_of_int (sp_localPort k)) (usedEphemeralPorts m)
                             else usedEphemeralPorts m)\<rparr>)
    (h(r \<mapsto> (k, a, False))) n" (is "reg_ok ?m ?h n")
proof (rule reg_okI)
  note R = reg_okD[OF assms(1)] and U = reg_uniq[OF assms(1)]
  show "maps_ok ?m"
    using maps_ok_add[OF R(1)] assms(3,4) by (simp add: domIff)
  show "r0 < n \<and> tcpAppConnMap ?m a0 = Some r0" if "?h r0 = Some (s0, a0, i0)" for r0 s0 a0 i0
    using that R(2,3)[of r0 s0 a0 i0] R(2,3)[OF assms(2)] by (simp split: if_splits)
  show "tcpConnMap ?m s0 = Some r0" if "?h r0 = Some (s0, a0, False)" for r0 s0 a0
    using that R(4)[of r0 s0 a0] assms(3) by (auto split: if_splits)
  show "\<exists>a0. ?h r0 = Some (s0, a0, False)" if "tcpConnMap ?m s0 = Some r0" for s0 r0
    using that R(5)[of s0 r0] assms(2) by (auto split: if_splits)
  show "\<exists>s0 i0. ?h r0 = Some (s0, a0, i0)" if "tcpAppConnMap ?m a0 = Some r0" for a0 r0
    using that R(6)[of a0 r0] assms(2) by (auto split: if_splits)
qed

lemma reg_move:
  assumes "reg_ok m h n" "h r = Some (s, a, False)" "k = s \<or> tcpConnMap m k = None" "sp_localPort k = sp_localPort s"
    "a' = a \<or> tcpAppConnMap m a' = None"
  shows "reg_ok (m\<lparr>tcpConnMap := (tcpConnMap m)(s := None, k \<mapsto> r), tcpAppConnMap := (tcpAppConnMap m)(a := None, a' \<mapsto> r)\<rparr>)
    (h(r \<mapsto> (k, a', False))) n" (is "reg_ok ?m ?h n")
proof (rule reg_okI)
  note R = reg_okD[OF assms(1)] and U = reg_uniq[OF assms(1)]
  show "maps_ok ?m"
    using maps_ok_move[OF R(1), of s k r] R(4)[OF assms(2)] assms(3,4) by (auto simp: domIff)
  show "r0 < n \<and> tcpAppConnMap ?m a0 = Some r0" if "?h r0 = Some (s0, a0, i0)" for r0 s0 a0 i0
    using that R(2,3)[of r0 s0 a0 i0] R(2,3)[OF assms(2)] assms(5) by (auto split: if_splits)
  show "tcpConnMap ?m s0 = Some r0" if "?h r0 = Some (s0, a0, False)" for r0 s0 a0
    using that R(4)[of r0 s0 a0] R(4)[OF assms(2)] assms(3) by (auto split: if_splits)
  show "\<exists>a0. ?h r0 = Some (s0, a0, False)" if "tcpConnMap ?m s0 = Some r0" for s0 r0
    using that R(5)[of s0 r0] U(2)[OF assms(2), of s0] by (auto split: if_splits)
  show "\<exists>s0 i0. ?h r0 = Some (s0, a0, i0)" if "tcpAppConnMap ?m a0 = Some r0" for a0 r0
    using that R(6)[of a0 r0] U(1)[OF assms(2), of a0] by (auto split: if_splits)
qed

lemma reg_remove:
  assumes "reg_ok m h n" "h r = Some (s, a, False)"
  shows "reg_ok (m\<lparr>tcpAppConnMap := (tcpAppConnMap m)(a := None), tcpConnMap := (tcpConnMap m)(s := None),
      usedEphemeralPorts := usedEphemeralPorts m - {#word_of_int (sp_localPort s)#}\<rparr>) (h(r := None)) n" (is "reg_ok ?m ?h n")
proof (rule reg_okI)
  note R = reg_okD[OF assms(1)] and U = reg_uniq[OF assms(1)]
  have "?m = m\<lparr>tcpConnMap := (tcpConnMap m)(s := None),
      usedEphemeralPorts := usedEphemeralPorts m - {#word_of_int (sp_localPort s)#}\<rparr>
      \<lparr>tcpAppConnMap := (tcpAppConnMap m)(a := None)\<rparr>" by simp
  then show "maps_ok ?m"
    using maps_ok_remove[OF R(1), of s] R(4)[OF assms(2)] by (simp only: maps_ok_app) blast
  show "r0 < n \<and> tcpAppConnMap ?m a0 = Some r0" if "?h r0 = Some (s0, a0, i0)" for r0 s0 a0 i0
    using that R(2,3)[of r0 s0 a0 i0] R(3)[OF assms(2)] by (auto split: if_splits)
  show "tcpConnMap ?m s0 = Some r0" if "?h r0 = Some (s0, a0, False)" for r0 s0 a0
    using that R(4)[of r0 s0 a0] R(4)[OF assms(2)] by (auto split: if_splits)
  show "\<exists>a0. ?h r0 = Some (s0, a0, False)" if "tcpConnMap ?m s0 = Some r0" for s0 r0
    using that R(5)[of s0 r0] U(2)[OF assms(2), of s0] by (auto split: if_splits)
  show "\<exists>s0 i0. ?h r0 = Some (s0, a0, i0)" if "tcpAppConnMap ?m a0 = Some r0" for a0 r0
    using that R(6)[of a0 r0] U(1)[OF assms(2), of a0] by (auto split: if_splits)
qed

text \<open>The connection gets the key \<open>k\<close> and the identifier \<open>a'\<close>, the clone the key \<open>k2\<close> and the old identifier.\<close>

lemma reg_fork:
  assumes "reg_ok m h n" "h r = Some (s, a, False)" "k = s \<or> tcpConnMap m k = None" "sp_localPort k = sp_localPort s"
    "tcpAppConnMap m a' = None" "((tcpConnMap m)(s := None, k \<mapsto> r)) k2 = None" "port_ok (sp_localPort k2)"
  shows "reg_ok (m\<lparr>tcpConnMap := (tcpConnMap m)(s := None, k \<mapsto> r, k2 \<mapsto> n),
      usedEphemeralPorts := (if in_ephemeral_range (sp_localPort k2) then add_mset (word_of_int (sp_localPort k2)) (usedEphemeralPorts m)
                             else usedEphemeralPorts m),
      tcpAppConnMap := (tcpAppConnMap m)(a := None, a' \<mapsto> r, a \<mapsto> n)\<rparr>)
    (h(r \<mapsto> (k, a', False), n \<mapsto> (k2, a, False))) (n + 1)"
proof -
  let ?m1 = "m\<lparr>tcpConnMap := (tcpConnMap m)(s := None, k \<mapsto> r), tcpAppConnMap := (tcpAppConnMap m)(a := None, a' \<mapsto> r)\<rparr>"
  have 1: "reg_ok ?m1 (h(r \<mapsto> (k, a', False))) n"
    by (rule reg_move[OF assms(1,2,3,4) disjI2[OF assms(5)]])
  have 2: "reg_ok (?m1\<lparr>tcpAppConnMap := (tcpAppConnMap ?m1)(a \<mapsto> n)\<rparr>) (h(r \<mapsto> (k, a', False), n \<mapsto> (k2, a, True))) (n + 1)"
  proof -
    have "a' \<noteq> a" using assms(5) reg_okD(3)[OF assms(1,2)] by auto
    then show ?thesis using reg_new[OF 1, of a k2] by simp
  qed
  from reg_add[OF 2, of n k2 a k2] assms(6,7) show ?thesis
    by (cases m; cases "in_ephemeral_range (sp_localPort k2)") simp_all
qed


section \<open>The invariant\<close>

text \<open>
  Of a connection: it is not CLOSED, it belongs to a module, its FIN-WAIT-2 timer is not running, and in
  TIME_WAIT its 2MSL timer runs.
\<close>

definition conn_inv :: "conn \<Rightarrow> bool" where
  "conn_inv c \<longleftrightarrow> fsm c \<noteq> TCP_S_CLOSED \<and> hasModule c \<and> \<not> isScheduled (finWait2Timer c)
     \<and> (fsm c = TCP_S_TIME_WAIT \<longrightarrow> isScheduled (the2MSLTimer c))"

definition keys_of :: "conn \<Rightarrow> keys" where
  "keys_of c = (sock_key c, app_key c, fsm c = TCP_S_INIT)"

definition main_ok :: "tcp_main \<Rightarrow> bool" where
  "main_ok M \<longleftrightarrow> reg_ok (maps M) (map_option keys_of \<circ> conns M) (nextRef M) \<and> (\<forall>r c. conns M r = Some c \<longrightarrow> conn_inv c)"

lemma keeps_keys: "keeps c c' \<Longrightarrow> keys_of c' = keys_of c"
  by (simp add: keeps_def keys_of_def)

lemma keeps_inv: "keeps c c' \<Longrightarrow> conn_inv c \<Longrightarrow> conn_inv c'"
  by (auto simp: keeps_def conn_inv_def)

section \<open>State transitions\<close>

lemma next_state_TIME_WAIT:
  "next_state act s e = TCP_S_TIME_WAIT \<Longrightarrow> s \<noteq> TCP_S_TIME_WAIT \<Longrightarrow>
    s = TCP_S_FIN_WAIT_1 \<and> e = TCP_E_RCV_FIN_ACK \<or> s = TCP_S_FIN_WAIT_2 \<and> e = TCP_E_RCV_FIN \<or> s = TCP_S_CLOSING \<and> e = TCP_E_RCV_ACK"
  by (cases s; cases e; simp add: next_state_def split: if_splits)

lemma isScheduled_cancelIfAny [simp]: "\<not> isScheduled (cancelIfAny t)"
  by (cases t) (simp_all add: cancelIfAny_def isScheduled_def)

definition cident :: "conn \<Rightarrow> sock_pair \<times> app_conn_key \<times> tcp_state \<times> bool" where
  "cident c = (sock_key c, app_key c, fsm c, hasModule c)"

lemma connectionClosed_frame [wp]:
  "(\<And>c'. ident c' = ident c \<Longrightarrow> P c') \<Longrightarrow> post (connectionClosed c) P"
  unfolding connectionClosed_def by (rule wp | simp)+

lemma stateEntered_frame:
  "post (stateEntered s s0 e c) (\<lambda>c'. cident c' = cident c \<and> (isScheduled (finWait2Timer c') \<longrightarrow> isScheduled (finWait2Timer c))
     \<and> (s \<noteq> TCP_S_CLOSED \<longrightarrow> the2MSLTimer c' = the2MSLTimer c))"
proof (cases "s = TCP_S_CLOSED")
  case True
  have "post (connectionClosed (y\<lparr>the2MSLTimer := t1, connEstabTimer := t2, finWait2Timer := cancelIfAny t3, synRexmitTimer := t4\<rparr>))
      (\<lambda>c'. cident c' = cident c \<and> (isScheduled (finWait2Timer c') \<longrightarrow> isScheduled (finWait2Timer c))
        \<and> (s \<noteq> TCP_S_CLOSED \<longrightarrow> the2MSLTimer c' = the2MSLTimer c))" if "ident y = ident c" for y t1 t2 t3 t4
    by (rule connectionClosed_frame) (use that True in \<open>auto simp: ident_def cident_def sock_key_def app_key_def\<close>)
  then show ?thesis
    unfolding stateEntered_def True tcp_state.case Let_def by simp
next
  case False
  have "post (stateEntered s s0 e c) (\<lambda>c'. ident c' = ident c)"
    unfolding stateEntered_def using False by (cases s; simp) (rule wp | simp)+
  then show ?thesis
    by (rule post_mono) (auto simp: cident_def sock_key_def app_key_def dest: identD)
qed

lemma transition_ok:
  assumes "hasModule c" "\<not> isScheduled (finWait2Timer c)" "tw_ok e c"
    "fsm c = TCP_S_TIME_WAIT \<Longrightarrow> isScheduled (the2MSLTimer c) \<or> e = TCP_E_TIMEOUT_2MSL"
  shows "post (performStateTransition e c) (\<lambda>(alive, c'). sock_key c' = sock_key c \<and> app_key c' = app_key c
     \<and> (alive \<longrightarrow> conn_inv c') \<and> (\<not> alive \<longrightarrow> fsm c' = TCP_S_CLOSED)
     \<and> (fsm c' = TCP_S_INIT \<longleftrightarrow> fsm c = TCP_S_INIT \<and> e \<notin> {TCP_E_OPEN_PASSIVE, TCP_E_OPEN_ACTIVE}))"
proof (cases "e = TCP_E_IGNORE")
  case True
  then show ?thesis
    using assms unfolding performStateTransition_def by (auto intro!: wp simp: conn_inv_def)
next
  case False
  let ?s = "next_state (active (st c)) (fsm c) e"
  have tw: "?s = TCP_S_TIME_WAIT \<Longrightarrow> isScheduled (the2MSLTimer c)"
  proof (cases "fsm c = TCP_S_TIME_WAIT")
    case True
    assume s: "?s = TCP_S_TIME_WAIT"
    have "e \<noteq> TCP_E_TIMEOUT_2MSL"
    proof
      assume "e = TCP_E_TIMEOUT_2MSL"
      with s True show False by (simp add: next_state_def)
    qed
    then show ?thesis using assms(4)[OF True] by blast
  next
    case False
    assume "?s = TCP_S_TIME_WAIT"
    from next_state_TIME_WAIT[OF this False] show ?thesis using assms(3) by (auto simp: tw_ok_def)
  qed
  have init: "?s = TCP_S_INIT \<longleftrightarrow> fsm c = TCP_S_INIT \<and> e \<notin> {TCP_E_OPEN_PASSIVE, TCP_E_OPEN_ACTIVE}"
    by (rule next_state_INIT_iff)
  have moved: "post (if fsm c \<noteq> ?s then stateEntered ?s (fsm c) e (c\<lparr>fsm := ?s\<rparr>) else Inr (c\<lparr>fsm := ?s\<rparr>))
    (\<lambda>c2. cident c2 = (sock_key c, app_key c, ?s, hasModule c) \<and> \<not> isScheduled (finWait2Timer c2)
       \<and> (?s \<noteq> TCP_S_CLOSED \<longrightarrow> the2MSLTimer c2 = the2MSLTimer c))"
    by (rule post_if, rule post_mono[OF stateEntered_frame])
       (use assms(2) in \<open>auto simp: cident_def sock_key_def app_key_def\<close>)
  show ?thesis
    unfolding performStateTransition_def Let_def
    by (rule post_assertE, simp only: False if_False, rule post_mapE, rule post_mono[OF moved])
       (use assms(1) tw init in \<open>auto simp: cident_def conn_inv_def\<close>)
qed

end
