(* ===== verification/Tcp_Module_Inv.thy ===== *)
theory Tcp_Module_Inv
  imports Tcp_Inv
begin

text \<open>
  The invariant \<open>main_ok\<close> holds in every state that the TCP module reaches.  Every handler leaves the tables and its
  connection ready for the transition of the state machine; the transition and \<open>finish_handler\<close> then restore the
  invariant.
\<close>

section \<open>Ready for the transition\<close>

definition ready :: "tcp_event \<Rightarrow> conn \<Rightarrow> bool" where
  "ready e c \<longleftrightarrow> hasModule c \<and> \<not> isScheduled (finWait2Timer c) \<and> tw_ok e c
     \<and> (fsm c = TCP_S_TIME_WAIT \<longrightarrow> isScheduled (the2MSLTimer c) \<or> e = TCP_E_TIMEOUT_2MSL)"

text \<open>The keys a connection has once the event \<open>e\<close> has been performed.\<close>

definition keys_after :: "tcp_event \<Rightarrow> conn \<Rightarrow> keys" where
  "keys_after e c = (sock_key c, app_key c, fsm c = TCP_S_INIT \<and> e \<notin> {TCP_E_OPEN_PASSIVE, TCP_E_OPEN_ACTIVE})"

lemma keeps_ready:
  "keeps c c' \<Longrightarrow> conn_inv c \<Longrightarrow> tw_ok e c' \<Longrightarrow> ready e c'"
  by (auto simp: keeps_def conn_inv_def ready_def)

lemma keeps_keys_after:
  "keeps c c' \<Longrightarrow> e \<notin> {TCP_E_OPEN_PASSIVE, TCP_E_OPEN_ACTIVE} \<Longrightarrow> keys_after e c' = keys_of c"
  by (simp add: keeps_def keys_after_def keys_of_def)

lemma reg_same: "reg_ok m h n \<Longrightarrow> h r = Some k \<Longrightarrow> reg_ok m (h(r \<mapsto> k)) n"
  by (metis fun_upd_triv)

text \<open>The state that a handler leaves: the tables \<open>m\<close>, the other connections \<open>h\<close>, and its own connection.\<close>

definition handled :: "conn_ref \<Rightarrow> (conn_ref \<Rightarrow> keys option) \<Rightarrow> conn_ref \<Rightarrow> tcp_event \<Rightarrow> conn \<Rightarrow> tcp_maps \<Rightarrow> bool" where
  "handled r h n e c m \<longleftrightarrow> ready e c \<and> reg_ok m (h(r \<mapsto> keys_after e c)) n"

lemma handled_keeps:
  assumes "reg_ok m h n" "h r = Some (keys_of c)" "conn_inv c" "keeps c c'" "tw_ok e c'"
    "e \<notin> {TCP_E_OPEN_PASSIVE, TCP_E_OPEN_ACTIVE}"
  shows "handled r h n e c' m"
  unfolding handled_def
  using keeps_ready[OF assms(4,3,5)] keeps_keys_after[OF assms(4,6)] reg_same[OF assms(1,2)] by simp

lemma unregister_eq:
  "unregister c m = m\<lparr>tcpAppConnMap := (tcpAppConnMap m)(app_key c := None), tcpConnMap := (tcpConnMap m)(sock_key c := None),
      usedEphemeralPorts := usedEphemeralPorts m - {#word_of_int (sp_localPort (sock_key c))#}\<rparr>"
  by (simp add: unregister_def sock_key_def)

text \<open>And the state after the transition: the connection is in order, or it can be removed.\<close>

definition settled :: "conn_ref \<Rightarrow> (conn_ref \<Rightarrow> keys option) \<Rightarrow> conn_ref \<Rightarrow> bool \<Rightarrow> conn \<Rightarrow> tcp_maps \<Rightarrow> bool" where
  "settled r h n alive c m \<longleftrightarrow>
     (if alive then reg_ok m (h(r \<mapsto> keys_of c)) n \<and> conn_inv c else reg_ok (unregister c m) (h(r := None)) n)"

lemma perform_handled:
  assumes "handled r h n e c m"
  shows "post (performStateTransition e c) (\<lambda>(alive, c'). settled r h n alive c' m)"
proof -
  have r: "ready e c" and g: "reg_ok m (h(r \<mapsto> keys_after e c)) n" using assms by (simp_all add: handled_def)
  have rem: "reg_ok (unregister c' m) (h(r := None)) n"
    if "sock_key c' = sock_key c" "app_key c' = app_key c" "fsm c' = TCP_S_CLOSED"
       "fsm c' = TCP_S_INIT \<longleftrightarrow> fsm c = TCP_S_INIT \<and> e \<notin> {TCP_E_OPEN_PASSIVE, TCP_E_OPEN_ACTIVE}" for c'
  proof -
    have "(h(r \<mapsto> keys_after e c)) r = Some (sock_key c', app_key c', False)"
      using that by (simp add: keys_after_def)
    from reg_remove[OF g this] show ?thesis by (simp only: unregister_eq fun_upd_upd)
  qed
  show ?thesis
    by (rule post_mono[OF transition_ok])
       (use r g rem in \<open>auto simp: settled_def ready_def keys_of_def keys_after_def split: if_splits\<close>)
qed

section \<open>Timers\<close>

definition quiet_event :: "tcp_event \<Rightarrow> bool" where
  "quiet_event e \<longleftrightarrow> e = TCP_E_IGNORE \<or> e = TCP_E_ABORT"

lemma post_conj: "post x P \<Longrightarrow> post x Q \<Longrightarrow> post x (\<lambda>a. P a \<and> Q a)"
  by (simp add: post_def split: sum.splits)

lemma post_any: "post x (\<lambda>_. True)"
  by (simp add: post_def split: sum.splits)

lemma base_processRexmitTimer_event: "post (base_processRexmitTimer en c) (\<lambda>(e, c'). quiet_event e)"
  unfolding base_processRexmitTimer_def by (rule wp | simp add: quiet_event_def)+

lemma rexmit_event:
  "post (bindE (base_processRexmitTimer en c) (\<lambda>(e, c1). if e = TCP_E_ABORT then Inr (e, c1) else mapE (Pair e) (f c1)))
     (\<lambda>(e, c'). quiet_event e)"
proof -
  have k: "quiet_event e \<Longrightarrow> post (f c1) (\<lambda>_. quiet_event e)" for e c1
    by (simp add: post_def split: sum.split)
  show ?thesis
    by (rule post_bindE, rule post_mono[OF base_processRexmitTimer_event]) (auto intro!: wp k)
qed

lemma processRexmitTimer_event: "post (processRexmitTimer en c) (\<lambda>(e, c'). quiet_event e)"
  unfolding processRexmitTimer_def tahoe_processRexmitTimer_def reno_processRexmitTimer_def newreno_processRexmitTimer_def
  by (cases "tcpAlgorithm c") (simp_all only: flavour.case rexmit_event)

lemma alg_processTimer_event: "post (alg_processTimer en t c) (\<lambda>(e, c'). ident c' = ident c \<and> quiet_event e)"
proof -
  have "post (alg_processTimer en t c) (\<lambda>(e, c'). quiet_event e)"
    unfolding alg_processTimer_def
    by (cases t; simp only: alg_timer.case) (rule processRexmitTimer_event wp | simp add: quiet_event_def)+
  then show ?thesis
    using post_conj[OF alg_processTimer_frame[of c "\<lambda>(e, c'). ident c' = ident c"]]
    by (simp add: case_prod_unfold)
qed

lemma process_TIMEOUT_SYN_REXMIT_event:
  "post (process_TIMEOUT_SYN_REXMIT en c) (\<lambda>(e, c'). ident c' = ident c \<and> quiet_event e)"
  unfolding process_TIMEOUT_SYN_REXMIT_def by (rule wp | simp add: quiet_event_def Let_def)+

lemma quiet_tw: "quiet_event e \<Longrightarrow> tw_ok e c"
  by (auto simp: quiet_event_def tw_ok_def)

lemma quiet_open: "quiet_event e \<Longrightarrow> e \<notin> {TCP_E_OPEN_PASSIVE, TCP_E_OPEN_ACTIVE}"
  by (auto simp: quiet_event_def)

lemma processTimer_ok:
  assumes "reg_ok m h n" "h r = Some (keys_of c)" "conn_inv c"
  shows "post (processTimer en t (expireTimer t c)) (\<lambda>(alive, c'). settled r h n alive c' m)"
proof -
  let ?c = "expireTimer t c"
  let ?ev = "case t of T_2MSL \<Rightarrow> mapE (Pair TCP_E_TIMEOUT_2MSL) (process_TIMEOUT_2MSL ?c)
            | T_CONN_ESTAB \<Rightarrow> mapE (Pair TCP_E_TIMEOUT_CONN_ESTAB) (process_TIMEOUT_CONN_ESTAB ?c)
            | T_FIN_WAIT_2 \<Rightarrow> mapE (Pair TCP_E_TIMEOUT_FIN_WAIT_2) (process_TIMEOUT_FIN_WAIT_2 ?c)
            | T_SYN_REXMIT \<Rightarrow> process_TIMEOUT_SYN_REXMIT en ?c
            | T_ALG a \<Rightarrow> alg_processTimer en a ?c"
  have k: "t \<noteq> T_2MSL \<Longrightarrow> keeps c ?c"
    by (cases t) (simp_all add: expireTimer_def keeps_def sock_key_def app_key_def isScheduled_def split: alg_timer.split)
  have q: "t \<noteq> T_2MSL \<Longrightarrow> keeps ?c c' \<Longrightarrow> tw_ok e c' \<Longrightarrow> e \<notin> {TCP_E_OPEN_PASSIVE, TCP_E_OPEN_ACTIVE} \<Longrightarrow> handled r h n e c' m" for e c'
    using handled_keeps[OF assms keeps_trans[OF k]] by blast
  have "post ?ev (\<lambda>(e, c'). handled r h n e c' m)"
  proof (cases t)
    case T_2MSL
    have "handled r h n TCP_E_TIMEOUT_2MSL ?c m" if "fsm c = TCP_S_TIME_WAIT"
      using reg_same[OF assms(1,2)] assms(3) that T_2MSL
      by (simp add: handled_def ready_def conn_inv_def tw_ok_def expireTimer_def keys_after_def keys_of_def sock_key_def app_key_def)
    then show ?thesis
      using T_2MSL by (auto intro!: wp simp: process_TIMEOUT_2MSL_def expireTimer_def)
  next
    case T_CONN_ESTAB
    then show ?thesis
      by (auto intro!: wp q ident_keeps simp: process_TIMEOUT_CONN_ESTAB_def tw_ok_def)
  next
    case T_FIN_WAIT_2
    then show ?thesis
      by (auto intro!: wp q ident_keeps simp: process_TIMEOUT_FIN_WAIT_2_def tw_ok_def)
  next
    case T_SYN_REXMIT
    then show ?thesis
      by (simp only: conn_timer.case) (rule post_mono[OF process_TIMEOUT_SYN_REXMIT_event],
          use T_SYN_REXMIT in \<open>auto intro!: q ident_keeps dest: quiet_tw quiet_open\<close>)
  next
    case (T_ALG a)
    then show ?thesis
      by (simp only: conn_timer.case) (rule post_mono[OF alg_processTimer_event],
          use T_ALG in \<open>auto intro!: q ident_keeps dest: quiet_tw quiet_open\<close>)
  qed
  then show ?thesis
    unfolding processTimer_def
    by (rule post_bindE[OF post_mono]) (auto intro: perform_handled)
qed


section \<open>Commands\<close>

lemma alg_initialize_ident [simp]: "ident (alg_initialize c) = ident c"
  by (simp add: ident_def alg_initialize_def)

lemma configureStateVariables_frame [wp]: "(\<And>c'. ident c' = ident c \<Longrightarrow> P c') \<Longrightarrow> post (configureStateVariables par c) P"
  unfolding configureStateVariables_def by (rule wp | simp)+

lemma initConnection_frame [wp]:
  assumes "\<And>c'. keeps c c' \<Longrightarrow> P c'"
  shows "post (initConnection par cmd c) P"
proof -
  have k: "keeps c c'" if "ident c' = ident (c\<lparr>transferMode := md, sendQueue := sq, receiveQueue := rq, rexmitQ := x, tcpAlgorithm := a, st := s\<rparr>)"
    for c' md sq rq x a s
    using that by (simp add: keeps_def sock_key_def app_key_def ident_def)
  have q: "(\<And>a. P1 a) \<Longrightarrow> post (createSendQueue md) P1" "(\<And>a. P2 a) \<Longrightarrow> post (createReceiveQueue g md) P2" for md g P1 P2
    by (simp_all add: post_def split: sum.split)
  show ?thesis
    unfolding initConnection_def Let_def by (rule wp q assms k | simp)+
qed

lemma selectInitialSeqNum_frame [wp]: "(\<And>c'. ident c' = ident c \<Longrightarrow> P c') \<Longrightarrow> post (selectInitialSeqNum en c) P"
  unfolding selectInitialSeqNum_def by (rule wp | simp)+

lemma enqueueData_frame [wp]: "(\<And>c'. ident c' = ident c \<Longrightarrow> P c') \<Longrightarrow> post (enqueueData msg c) P"
  unfolding enqueueData_def by (rule wp | simp)+

lemma process_SEND_frame [wp]: "(\<And>c'. ident c' = ident c \<Longrightarrow> P c') \<Longrightarrow> post (process_SEND en msg c) P"
  unfolding process_SEND_def by (rule wp | simp)+

lemma process_CLOSE_frame [wp]:
  "(\<And>e c'. ident c' = ident c \<Longrightarrow> e = TCP_E_CLOSE \<or> e = TCP_E_IGNORE \<Longrightarrow> P (e, c')) \<Longrightarrow> post (process_CLOSE en c) P"
  unfolding process_CLOSE_def by (rule wp | simp)+

lemma process_ABORT_frame [wp]: "(\<And>c'. ident c' = ident c \<Longrightarrow> P c') \<Longrightarrow> post (process_ABORT c) P"
  unfolding process_ABORT_def by (rule wp | simp)+

lemma process_STATUS_frame [wp]: "(\<And>c'. ident c' = ident c \<Longrightarrow> P c') \<Longrightarrow> post (process_STATUS c) P"
  unfolding process_STATUS_def by (rule wp | simp)+

lemma process_QUEUE_BYTES_LIMIT_frame [wp]: "(\<And>c'. ident c' = ident c \<Longrightarrow> P c') \<Longrightarrow> post (process_QUEUE_BYTES_LIMIT k c) P"
  unfolding process_QUEUE_BYTES_LIMIT_def by (rule wp | simp)+

text \<open>The registration of a connection that is still without a socket pair.\<close>

lemma addSockPair_ok:
  assumes "reg_ok m h n" "h r = Some (s, app_key c, True)" "port_ok lp"
  shows "post (addSockPair r la ra lp rp (c, m)) (\<lambda>(c', m'). c' = set_sock_pair la ra lp rp c
    \<and> reg_ok m' (h(r \<mapsto> (sock_key c', app_key c', False))) n)"
proof -
  let ?c = "set_sock_pair la ra lp rp c"
  have k: "sp_localPort (sock_key ?c) = lp" "app_key ?c = app_key c"
    by (simp_all add: set_sock_pair_def sock_key_def app_key_def)
  have reg: "tcpConnMap m (sock_key ?c) = None \<Longrightarrow> reg_ok (m\<lparr>tcpConnMap := (tcpConnMap m)(sock_key ?c \<mapsto> r),
      usedEphemeralPorts := (if in_ephemeral_range lp then add_mset (word_of_int lp) (usedEphemeralPorts m) else usedEphemeralPorts m)\<rparr>)
      (h(r \<mapsto> (sock_key ?c, app_key ?c, False))) n"
    using reg_add[OF assms(1,2), of "sock_key ?c"] assms(3) unfolding k by blast
  show ?thesis
    unfolding addSockPair_def prod.case Let_def by (rule post_if[OF post_Inl post_Inr]) (simp only: not_not prod.case reg simp_thms)
qed

lemma getEphemeralPort_ok:
  assumes "reg_ok m h n"
  shows "post (getEphemeralPort m) (\<lambda>(p, m'). reg_ok m' h n \<and> port_ok (uint p))"
proof (rule postI)
  fix pm
  assume "getEphemeralPort m = Inr pm"
  then obtain p where p: "pm = (p, m\<lparr>lastEphemeralPort := p\<rparr>)"
    by (cases "ephemeral_loop 65536 (usedEphemeralPorts m) (lastEphemeralPort m) (next_port (lastEphemeralPort m))")
       (auto simp: getEphemeralPort_def Let_def)
  have "in_range (lastEphemeralPort m)" using maps_okD(4)[OF reg_okD(1)[OF assms]] .
  with search_run[OF this, of "usedEphemeralPorts m"] range_visited[OF this] \<open>getEphemeralPort m = Inr pm\<close> p
  have "in_range p"
    by (auto simp: getEphemeralPort_def Let_def split: option.splits dest!: find_Some_in)
  then show "case pm of (p, m') \<Rightarrow> reg_ok m' h n \<and> port_ok (uint p)"
    using p reg_last[OF assms] by (simp add: port_ok_def in_range_int)
qed


lemma opened_handled:
  assumes "reg_ok m (h(r \<mapsto> (sock_key c, app_key c, False))) n" "conn_inv c" "keeps c c'"
    "e = TCP_E_OPEN_ACTIVE \<or> e = TCP_E_OPEN_PASSIVE"
  shows "handled r h n e c' m"
  using assms by (auto simp: handled_def keys_after_def keeps_def intro!: keeps_ready[of c] simp: tw_ok_def)

lemma set_sock_pair_simps [simp]:
  "app_key (set_sock_pair la ra lp rp c) = app_key c" "fsm (set_sock_pair la ra lp rp c) = fsm c"
  "conn_inv (set_sock_pair la ra lp rp c) = conn_inv c" "connId (set_sock_pair la ra lp rp c) = connId c"
  "st (set_sock_pair la ra lp rp c) = st c" "hasModule (set_sock_pair la ra lp rp c) = hasModule c"
  by (simp_all add: set_sock_pair_def app_key_def conn_inv_def)

lemma conn_inv_upd [simp]: "conn_inv (upd f c) = conn_inv c" "app_key (upd f c) = app_key c" "fsm (upd f c) = fsm c"
  "sock_key (upd f c) = sock_key c"
  by (simp_all add: conn_inv_def upd_def app_key_def sock_key_def)

lemma process_OPEN_ACTIVE_ok:
  assumes "reg_ok m h n" "h r = Some (keys_of c)" "conn_inv c" "port_ok (op_localPort cmd)"
  shows "post (process_OPEN_ACTIVE en par r cmd (c, m)) (\<lambda>(c', m'). handled r h n TCP_E_OPEN_ACTIVE c' m')"
proof (cases "fsm c = TCP_S_INIT")
  case True
  have reg: "post (if op_localPort cmd = -1 then mapE (\<lambda>(p, m1). (uint p, m1)) (getEphemeralPort m) else Inr (op_localPort cmd, m))
     (\<lambda>(lport, m1). reg_ok m1 h n \<and> port_ok lport)"
    using getEphemeralPort_ok[OF assms(1)] assms(1,4) by (auto intro!: wp elim: post_mono)
  have add: "post (addSockPair r la ra lp rp (upd f c1, m1)) (\<lambda>(c3, m2). keeps c3 c3 \<and> conn_inv c3
      \<and> reg_ok m2 (h(r \<mapsto> (sock_key c3, app_key c3, False))) n)"
    if "keeps c c1" "reg_ok m1 h n" "port_ok lp" for c1 m1 la ra lp rp f
  proof -
    have "h r = Some (sock_key c, app_key (upd f c1), True)"
      using that(1) True assms(2) by (simp add: keys_of_def keeps_def)
    note a = addSockPair_ok[OF that(2) this that(3)]
    show ?thesis
      by (rule post_mono[OF a]) (use keeps_inv[OF that(1) assms(3)] in auto)
  qed
  have fin: "post (bindE (selectInitialSeqNum en c3) (\<lambda>c4.
            bindE (sendSyn en c4) (\<lambda>c5.
            bindE (startSynRexmitTimer en c5) (\<lambda>c6.
            bindE (scheduleTimeout en connEstabTimer_update (connEstabTimer c6) TCP_TIMEOUT_CONN_ESTAB c6) (\<lambda>c7.
              Inr (c7, m2)))))) (\<lambda>(c', m'). handled r h n TCP_E_OPEN_ACTIVE c' m')"
    if "conn_inv c3" "reg_ok m2 (h(r \<mapsto> (sock_key c3, app_key c3, False))) n" for c3 m2
    using opened_handled[OF that(2,1) ident_keeps] by (rule_tac wp | simp)+
  show ?thesis
    unfolding process_OPEN_ACTIVE_def prod.case Let_def
    by (rule wp post_mono[OF reg] post_mono[OF add] fin | simp add: True | clarsimp)+
next
  case False
  then show ?thesis by (simp add: process_OPEN_ACTIVE_def)
qed

lemma process_OPEN_PASSIVE_ok:
  assumes "reg_ok m h n" "h r = Some (keys_of c)" "conn_inv c" "port_ok (op_localPort cmd)"
  shows "post (process_OPEN_PASSIVE par r cmd (c, m)) (\<lambda>(c', m'). handled r h n TCP_E_OPEN_PASSIVE c' m')"
proof (cases "fsm c = TCP_S_INIT")
  case True
  have add: "post (addSockPair r la ra lp rp (upd f c1, m)) (\<lambda>(c3, m2). handled r h n TCP_E_OPEN_PASSIVE c3 m2)"
    if "keeps c c1" "port_ok lp" for c1 la ra lp rp f
  proof -
    have "h r = Some (sock_key c, app_key (upd f c1), True)"
      using that(1) True assms(2) by (simp add: keys_of_def keeps_def)
    note a = addSockPair_ok[OF assms(1) this that(2)]
    show ?thesis
      by (rule post_mono[OF a]) (use keeps_inv[OF that(1) assms(3)] in \<open>auto intro!: opened_handled[OF _ _ keeps_refl]\<close>)
  qed
  show ?thesis
    unfolding process_OPEN_PASSIVE_def prod.case Let_def
    by (rule wp add | simp add: True assms(4))+
next
  case False
  then show ?thesis by (simp add: process_OPEN_PASSIVE_def)
qed

text \<open>A port that a command carries is -1 or a port number.\<close>

definition command_ok :: "app_command \<Rightarrow> bool" where
  "command_ok cmd \<longleftrightarrow>
     (case cmd of C_OPEN_ACTIVE oc \<Rightarrow> port_ok (op_localPort oc) | C_OPEN_PASSIVE oc \<Rightarrow> port_ok (op_localPort oc) | _ \<Rightarrow> True)"

lemma processAppCommand_ok:
  assumes "reg_ok m h n" "h r = Some (keys_of c)" "conn_inv c" "command_ok cmd"
  shows "post (processAppCommand en par r cmd (c, m)) (\<lambda>(alive, c', m'). settled r h n alive c' m')"
proof -
  have q: "handled r h n e c' m" if "ident c' = ident c" "e \<in> {TCP_E_SEND, TCP_E_CLOSE, TCP_E_IGNORE, TCP_E_ABORT, TCP_E_STATUS, TCP_E_QUEUE_BYTES_LIMIT}" for e c'
    using that by (auto intro!: handled_keeps[OF assms(1-3) ident_keeps] simp: tw_ok_def)
  have "post (case cmd of
              C_OPEN_ACTIVE oc \<Rightarrow> mapE (Pair TCP_E_OPEN_ACTIVE) (process_OPEN_ACTIVE en par r oc (c, m))
            | C_OPEN_PASSIVE oc \<Rightarrow> mapE (Pair TCP_E_OPEN_PASSIVE) (process_OPEN_PASSIVE par r oc (c, m))
            | C_SEND msg \<Rightarrow> mapE (\<lambda>c1. (TCP_E_SEND, c1, m)) (process_SEND en msg c)
            | C_CLOSE \<Rightarrow> mapE (\<lambda>(e, c1). (e, c1, m)) (process_CLOSE en c)
            | C_ABORT \<Rightarrow> mapE (\<lambda>c1. (TCP_E_ABORT, c1, m)) (process_ABORT c)
            | C_STATUS \<Rightarrow> mapE (\<lambda>c1. (TCP_E_STATUS, c1, m)) (process_STATUS c)
            | C_QUEUE_BYTES_LIMIT n \<Rightarrow> mapE (\<lambda>c1. (TCP_E_QUEUE_BYTES_LIMIT, c1, m)) (process_QUEUE_BYTES_LIMIT n c)
            | C_UNKNOWN \<Rightarrow> Inl (RuntimeError ''Unknown message kind in app command'')) (\<lambda>(e, c', m'). handled r h n e c' m')"
  proof (cases cmd)
    case (C_OPEN_ACTIVE oc)
    then show ?thesis
      using process_OPEN_ACTIVE_ok[OF assms(1-3), of oc en par] assms(4)
      by (auto simp: command_ok_def intro!: wp elim!: post_mono)
  next
    case (C_OPEN_PASSIVE oc)
    then show ?thesis
      using process_OPEN_PASSIVE_ok[OF assms(1-3), of oc par] assms(4)
      by (auto simp: command_ok_def intro!: wp elim!: post_mono)
  qed (simp_all only: app_command.case, (rule wp | force intro!: q)+)
  then show ?thesis
    unfolding processAppCommand_def prod.case
    by (rule post_bindE[OF post_mono]) (auto intro!: wp post_mono[OF perform_handled])
qed


section \<open>Segments\<close>

text \<open>The connection that the look-up finds is registered under the key found, which has the port of the segment.\<close>

lemma found_key:
  assumes "reg_ok m h n" "h r = Some (s, a, i)" "findConnForSegment seg src dest m = Some r"
    and k: "k = SockPair dest src (uint (destPort seg)) (uint (srcPort seg))"
  shows "\<not> i" "k = s \<or> tcpConnMap m k = None" "sp_localPort s = uint (destPort seg)"
proof -
  note u = reg_uniq(2)[OF assms(1,2)]
  have f: "\<exists>s'. tcpConnMap m s' = Some r \<and> (k = s' \<or> tcpConnMap m k = None) \<and> sp_localPort s' = uint (destPort seg)"
    using assms(3) by (auto simp: findConnForSegment_def Let_def k split: option.splits)
  then obtain s' where s': "tcpConnMap m s' = Some r" "k = s' \<or> tcpConnMap m k = None" "sp_localPort s' = uint (destPort seg)"
    by blast
  have "s' = s \<and> \<not> i" using u[OF s'(1)] .
  with s' show "\<not> i" "k = s \<or> tcpConnMap m k = None" "sp_localPort s = uint (destPort seg)" by auto
qed

lemma updateSockPair_ok:
  assumes "reg_ok m h n" "h r = Some (sock_key c, app_key c, False)" "localPort c = lp"
    "SockPair la ra lp rp = sock_key c \<or> tcpConnMap m (SockPair la ra lp rp) = None"
  defines "c' \<equiv> set_sock_pair la ra lp rp c"
  defines "m' \<equiv> m\<lparr>tcpConnMap := (tcpConnMap m)(sock_key c := None, sock_key c' \<mapsto> r)\<rparr>"
  shows "updateSockPair r la ra lp rp (c, m) = Inr (c', m')"
    "reg_ok m' (h(r \<mapsto> (sock_key c', app_key c', False))) n"
proof -
  have k: "app_key c' = app_key c" "sock_key c' = SockPair la ra lp rp" "sp_localPort (sock_key c) = lp"
    using assms(3) by (simp_all add: c'_def set_sock_pair_def sock_key_def app_key_def)
  have t: "tcpConnMap m (sock_key c) = Some r" "tcpAppConnMap m (app_key c) = Some r"
    using reg_okD(3,4)[OF assms(1)] assms(2) by blast+
  show "updateSockPair r la ra lp rp (c, m) = Inr (c', m')"
    using t(1) assms(3) by (simp add: updateSockPair_def assertE_def Let_def c'_def m'_def)
  have "m' = m\<lparr>tcpConnMap := (tcpConnMap m)(sock_key c := None, sock_key c' \<mapsto> r),
      tcpAppConnMap := (tcpAppConnMap m)(app_key c := None, app_key c \<mapsto> r)\<rparr>"
    using t(2) by (cases m) (auto simp: m'_def fun_eq_iff)
  with reg_move[OF assms(1,2), of "sock_key c'" "app_key c"] k assms(4)
  show "reg_ok m' (h(r \<mapsto> (sock_key c', app_key c', False))) n" by simp
qed

text \<open>A fork: the connection gets the new identifier, the clone goes on under the old one.\<close>

lemma addForkedConnection_ok:
  assumes "reg_ok m h n" "h r = Some (sock_key c, app_key c, False)" "localPort c = lp"
    "SockPair la ra lp rp = sock_key c \<or> tcpConnMap m (SockPair la ra lp rp) = None"
    "tcpAppConnMap m (AppConnKey (appGateIndex c) u) = None" "app_key nc = app_key c" "port_ok (localPort nc)"
  shows "post (addForkedConnection u r n la ra lp rp nc (c, m)) (\<lambda>((c1, nc1), m1).
    c1 = (set_sock_pair la ra lp rp c)\<lparr>connId := u\<rparr> \<and> nc1 = nc
    \<and> reg_ok m1 (h(r \<mapsto> (sock_key c1, app_key c1, False), n \<mapsto> (sock_key nc1, app_key nc1, False))) (n + 1))"
proof -
  let ?c1 = "set_sock_pair la ra lp rp c" and ?a = "AppConnKey (appGateIndex c) u"
  let ?m1 = "m\<lparr>tcpConnMap := (tcpConnMap m)(sock_key c := None, sock_key ?c1 \<mapsto> r)\<rparr>"
  have nc: "set_sock_pair (localAddr nc) (remoteAddr nc) (localPort nc) (remotePort nc) nc = nc"
    by (simp add: set_sock_pair_def)
  have k: "sock_key ?c1 = SockPair la ra lp rp" "sp_localPort (sock_key c) = lp" "sp_localPort (sock_key nc) = localPort nc"
    "sock_key (?c1\<lparr>connId := u\<rparr>) = sock_key ?c1" "app_key (?c1\<lparr>connId := u\<rparr>) = ?a" "app_key ?c1 = app_key c"
    using assms(3) by (simp_all add: set_sock_pair_def sock_key_def app_key_def)
  have "sock_key ?c1 = sock_key c \<or> tcpConnMap m (sock_key ?c1) = None" "sp_localPort (sock_key ?c1) = sp_localPort (sock_key c)"
    using assms(4) k(1,2) by simp_all
  note f = reg_fork[OF assms(1,2) this assms(5), of "sock_key nc", unfolded k(3)]
  show ?thesis
    unfolding addForkedConnection_def prod.case updateSockPair_ok(1)[OF assms(1-4)]
    by (rule wp | simp only: prod.case)+
       (use f assms(6,7) in \<open>auto simp: addSockPair_def nc Let_def k split: if_splits intro!: postI\<close>)
qed


text \<open>What a handler of a segment leaves; \<open>n\<close> is the reference of the clone, where there is one.\<close>

definition seg_handled ::
  "conn_ref \<Rightarrow> (conn_ref \<Rightarrow> keys option) \<Rightarrow> conn_ref \<Rightarrow> tcp_event \<Rightarrow> conn option \<Rightarrow> conn \<Rightarrow> tcp_maps \<Rightarrow> bool" where
  "seg_handled r h n e clone c m \<longleftrightarrow>
     (case clone of
        None \<Rightarrow> handled r h n e c m
      | Some nc \<Rightarrow> handled r (h(n \<mapsto> keys_of nc)) (n + 1) e c m \<and> conn_inv nc)"

lemma cloneListeningConnection_ok:
  "post (cloneListeningConnection par c) (\<lambda>(nc, c0). ident c0 = ident c \<and> app_key nc = app_key c
     \<and> localPort nc = localPort c \<and> conn_inv nc \<and> fsm nc = TCP_S_LISTEN)"
proof -
  have q: "(\<And>a. P1 a) \<Longrightarrow> post (createSendQueue md) P1" "(\<And>a. P2 a) \<Longrightarrow> post (createReceiveQueue g md) P2" for md g P1 P2
    by (simp_all add: post_def split: sum.split)
  show ?thesis
    unfolding cloneListeningConnection_def
    by (rule wp q | simp add: app_key_def conn_inv_def alg_initialize_def new_conn_def upd_def isScheduled_def)+
qed

text \<open>What follows the registration in LISTEN.\<close>

lemma listen_rest:
  assumes "\<And>e c'. ident c' = ident c \<Longrightarrow> e = TCP_E_RCV_SYN \<or> e = TCP_E_IGNORE \<Longrightarrow> P (e, clone, c', m)"
  shows "post (bindE (selectInitialSeqNum en ((upd f c)\<lparr>receiveQueue := q\<rparr>)) (\<lambda>c3.
             bindE (if TCP_HEADER_OCTETS < headerLength tcpseg then readHeaderOptions tcpseg (updateWndInfo tcpseg True c3)
                    else Inr (updateWndInfo tcpseg True c3)) (\<lambda>c4.
             bindE (sendSynAck en (upd (\<lambda>s. s\<lparr>ack_now := True\<rparr>) c4)) (\<lambda>c5.
             bindE (startSynRexmitTimer en c5) (\<lambda>c6.
             bindE (if \<not> isScheduled (connEstabTimer c6)
                    then scheduleTimeout en connEstabTimer_update (connEstabTimer c6) TCP_TIMEOUT_CONN_ESTAB c6
                    else Inr c6) (\<lambda>c7.
             mapE (\<lambda>(ok, c8). (if ok then TCP_E_RCV_SYN else TCP_E_IGNORE, clone, c8, m)) (insertSynText tcpseg c7))))))) P"
  by (rule wp assms | simp add: assms)+

lemma processSegmentInListen_ok:
  assumes "reg_ok m h n" "h r = Some (keys_of c)" "conn_inv c" "fsm c = TCP_S_LISTEN"
    "localPort c = uint (destPort seg)"
    "SockPair dest src (uint (destPort seg)) (uint (srcPort seg)) = sock_key c
       \<or> tcpConnMap m (SockPair dest src (uint (destPort seg)) (uint (srcPort seg))) = None"
    "\<And>g. tcpAppConnMap m (AppConnKey g u) = None"
  shows "post (processSegmentInListen en par u r n seg src dest (c, m)) (\<lambda>(e, clone, c', m'). seg_handled r h n e clone c' m')"
proof -
  have hr: "h r = Some (sock_key c, app_key c, False)"
    using assms(2,4) by (simp add: keys_of_def)
  have rn: "r \<noteq> n" using reg_okD(2)[OF assms(1) hr] by simp
  have port: "port_ok (localPort c)"
    using maps_okD(2)[OF reg_okD(1)[OF assms(1)], of "sock_key c"] reg_okD(4)[OF assms(1) hr] by (auto simp: sock_key_def)
  have ign: "seg_handled r h n TCP_E_IGNORE None c' m" if "ident c' = ident c" for c'
    unfolding seg_handled_def option.case
    by (rule handled_keeps[OF assms(1-3) ident_keeps[OF that]]) (simp_all add: tw_ok_def)
  have moved: "handled r h' n' e c' m'"
    if "reg_ok m' (h'(r \<mapsto> (sock_key c1, app_key c1, False))) n'" "conn_inv c1" "fsm c1 = TCP_S_LISTEN"
      "ident c' = ident c1" "e = TCP_E_RCV_SYN \<or> e = TCP_E_IGNORE" for h' n' e c' c1 m'
  proof -
    have "keeps c1 c'" using ident_keeps[OF that(4)] .
    with that keeps_ready[OF this that(2)] show ?thesis
      by (auto simp: handled_def keys_after_def keeps_def tw_ok_def)
  qed
  have reg: "post (if fork (st c)
                 then bindE (cloneListeningConnection par c) (\<lambda>(clone, c0).
                      mapE (\<lambda>((c1, clone1), m1). (Some clone1, c1, m1))
                        (addForkedConnection u r n dest src (uint (destPort seg)) (uint (srcPort seg)) clone (c0, m)))
                 else mapE (Pair None) (updateSockPair r dest src (uint (destPort seg)) (uint (srcPort seg)) (c, m)))
     (\<lambda>(clone, c1, m1). \<forall>e c'. ident c' = ident c1 \<longrightarrow> e = TCP_E_RCV_SYN \<or> e = TCP_E_IGNORE \<longrightarrow> seg_handled r h n e clone c' m1)"
  proof (rule post_if)
    assume "fork (st c)"
    have "post (addForkedConnection u r n dest src (uint (destPort seg)) (uint (srcPort seg)) nc (c0, m))
      (\<lambda>((c1, nc1), m1). \<forall>e c'. ident c' = ident c1 \<longrightarrow> e = TCP_E_RCV_SYN \<or> e = TCP_E_IGNORE \<longrightarrow> seg_handled r h n e (Some nc1) c' m1)"
      if nc: "ident c0 = ident c" "app_key nc = app_key c" "localPort nc = localPort c" "conn_inv nc" "fsm nc = TCP_S_LISTEN" for nc c0
    proof -
      have c0: "sock_key c0 = sock_key c" "app_key c0 = app_key c" "localPort c0 = localPort c" "fsm c0 = TCP_S_LISTEN" "conn_inv c0"
        "appGateIndex c0 = appGateIndex c"
        using ident_keeps[OF nc(1)] keeps_inv[OF ident_keeps[OF nc(1)] assms(3)] identD[OF nc(1)] assms(4) by (simp_all add: keeps_def)
      have "post (addForkedConnection u r n dest src (uint (destPort seg)) (uint (srcPort seg)) nc (c0, m)) (\<lambda>((c1, nc1), m1).
        c1 = (set_sock_pair dest src (uint (destPort seg)) (uint (srcPort seg)) c0)\<lparr>connId := u\<rparr> \<and> nc1 = nc
        \<and> reg_ok m1 (h(r \<mapsto> (sock_key c1, app_key c1, False), n \<mapsto> (sock_key nc1, app_key nc1, False))) (n + 1))"
        by (rule addForkedConnection_ok) (use assms hr c0 nc port in simp_all)
      then show ?thesis
      proof (rule post_mono, clarify)
        fix c1 nc1 m1 e c'
        let ?c1 = "(set_sock_pair dest src (uint (destPort seg)) (uint (srcPort seg)) c0)\<lparr>connId := u\<rparr>"
        assume g: "reg_ok m1 (h(r \<mapsto> (sock_key ?c1, app_key ?c1, False), n \<mapsto> (sock_key nc, app_key nc, False))) (n + 1)"
          and e: "ident c' = ident ?c1" "e = TCP_E_RCV_SYN \<or> e = TCP_E_IGNORE"
        have k: "(sock_key nc, app_key nc, False) = keys_of nc" using nc(5) by (simp add: keys_of_def)
        have inv: "conn_inv ?c1" "fsm ?c1 = TCP_S_LISTEN"
          using c0(4,5) by (simp_all add: conn_inv_def set_sock_pair_def)
        show "seg_handled r h n e (Some nc) c' m1"
          unfolding seg_handled_def option.case
          using moved[OF g[unfolded k fun_upd_twist[OF rn]] inv e] nc(4) by simp
      qed
    qed
    note fk = this
    show "post (bindE (cloneListeningConnection par c) (\<lambda>(clone, c0).
                      mapE (\<lambda>((c1, clone1), m1). (Some clone1, c1, m1))
                        (addForkedConnection u r n dest src (uint (destPort seg)) (uint (srcPort seg)) clone (c0, m))))
     (\<lambda>(clone, c1, m1). \<forall>e c'. ident c' = ident c1 \<longrightarrow> e = TCP_E_RCV_SYN \<or> e = TCP_E_IGNORE \<longrightarrow> seg_handled r h n e clone c' m1)"
    proof (rule post_bindE, rule post_mono[OF cloneListeningConnection_ok], clarify)
      fix nc c0
      assume "ident c0 = ident c" "app_key nc = app_key c" "localPort nc = localPort c" "conn_inv nc" "fsm nc = TCP_S_LISTEN"
      note f = fk[OF this]
      show "post (mapE (\<lambda>((c1, clone1), m1). (Some clone1, c1, m1))
            (addForkedConnection u r n dest src (uint (destPort seg)) (uint (srcPort seg)) nc (c0, m)))
        (\<lambda>(clone, c1, m1). \<forall>e c'. ident c' = ident c1 \<longrightarrow> e = TCP_E_RCV_SYN \<or> e = TCP_E_IGNORE \<longrightarrow> seg_handled r h n e clone c' m1)"
        by (rule post_mapE, rule post_mono[OF f]) (clarsimp split: prod.splits)
    qed
  next
    assume "\<not> fork (st c)"
    note s = updateSockPair_ok[OF assms(1) hr assms(5,6)]
    let ?c1 = "set_sock_pair dest src (uint (destPort seg)) (uint (srcPort seg)) c"
    show "post (mapE (Pair None) (updateSockPair r dest src (uint (destPort seg)) (uint (srcPort seg)) (c, m)))
     (\<lambda>(clone, c1, m1). \<forall>e c'. ident c' = ident c1 \<longrightarrow> e = TCP_E_RCV_SYN \<or> e = TCP_E_IGNORE \<longrightarrow> seg_handled r h n e clone c' m1)"
      unfolding s(1) using moved[where ?c1.0 = ?c1, OF s(2)] assms(3,4)
      by (simp add: seg_handled_def)
  qed
  show ?thesis
    unfolding processSegmentInListen_def prod.case Let_def
    by (rule post_bindE[OF post_mono[OF reg]] post_if post_mapE sendRst_addr_frame post_Inr ign | simp | (clarify, rule listen_rest, simp, blast))+
qed


text \<open>In SYN_SENT the connection gets its new key before the answer is sent.\<close>

lemma synSentDiscard_frame [wp]: "(\<And>c'. ident c' = ident c \<Longrightarrow> P c') \<Longrightarrow> post (synSentDiscard seg c) P"
  unfolding synSentDiscard_def by (rule wp | simp add: Let_def)+

lemma synSentAcked_frame [wp]:
  "(\<And>e c'. ident c' = ident c \<Longrightarrow> e = TCP_E_RCV_SYN_ACK \<or> e = TCP_E_IGNORE \<Longrightarrow> P (e, c')) \<Longrightarrow> post (synSentAcked en seg c) P"
  unfolding synSentAcked_def by (rule wp | simp)+

lemma synSentSimultaneous_frame [wp]:
  assumes "\<And>e c'. ident c' = ident c \<Longrightarrow> e = TCP_E_RCV_SYN \<or> e = TCP_E_IGNORE \<Longrightarrow> P (e, c')"
  shows "post (synSentSimultaneous en seg c) P"
  unfolding synSentSimultaneous_def by (rule wp | simp add: assms)+

lemma processSegmentInSynSent_ok:
  assumes "reg_ok m h n" "h r = Some (keys_of c)" "conn_inv c" "fsm c = TCP_S_SYN_SENT"
    "localPort c = uint (destPort seg)"
    "SockPair dest src (uint (destPort seg)) (uint (srcPort seg)) = sock_key c
       \<or> tcpConnMap m (SockPair dest src (uint (destPort seg)) (uint (srcPort seg))) = None"
  shows "post (processSegmentInSynSent en r seg src dest (c, m)) (\<lambda>(e, c', m'). handled r h n e c' m')"
proof -
  have hr: "h r = Some (sock_key c, app_key c, False)"
    using assms(2,4) by (simp add: keys_of_def)
  have same: "handled r h n e c' m" if "ident c' = ident c" "e = TCP_E_IGNORE \<or> e = TCP_E_RCV_RST" for e c'
    by (rule handled_keeps[OF assms(1-3) ident_keeps[OF that(1)]]) (use that(2) in \<open>auto simp: tw_ok_def\<close>)
  have upd: "post (bindE (updateSockPair r dest src (uint (destPort seg)) (uint (srcPort seg)) (c3, m)) (\<lambda>(c4, m1).
                mapE (\<lambda>(e, c5). (e, c5, m1))
                  (if seqGreater (snd_una (st c4)) (iss (st c4)) then synSentAcked en seg c4 else synSentSimultaneous en seg c4)))
       (\<lambda>(e, c', m'). handled r h n e c' m')" if "ident c3 = ident c" for c3
  proof -
    let ?c4 = "set_sock_pair dest src (uint (destPort seg)) (uint (srcPort seg)) c3"
    have c3: "sock_key c3 = sock_key c" "app_key c3 = app_key c" "localPort c3 = localPort c" "fsm c3 = TCP_S_SYN_SENT" "conn_inv c3"
      using ident_keeps[OF that] keeps_inv[OF ident_keeps[OF that] assms(3)] identD[OF that] assms(4) by (simp_all add: keeps_def)
    have "SockPair dest src (uint (destPort seg)) (uint (srcPort seg)) = sock_key c3
       \<or> tcpConnMap m (SockPair dest src (uint (destPort seg)) (uint (srcPort seg))) = None" "localPort c3 = uint (destPort seg)"
      using assms(5,6) c3 by simp_all
    note s = updateSockPair_ok[OF assms(1) hr[folded c3(1,2)] this(2,1)]
    have moved: "handled r h n e c' (m\<lparr>tcpConnMap := (tcpConnMap m)(sock_key c3 := None, sock_key ?c4 \<mapsto> r)\<rparr>)"
      if "ident c' = ident ?c4" "e \<in> {TCP_E_RCV_SYN_ACK, TCP_E_RCV_SYN, TCP_E_IGNORE}" for e c'
    proof -
      have i: "conn_inv ?c4" "fsm ?c4 = TCP_S_SYN_SENT" using c3 by simp_all
      have k: "keeps ?c4 c'" using ident_keeps[OF that(1)] .
      have "ready e c'"
        by (rule keeps_ready[OF k i(1)]) (use that(2) i(2) k in \<open>auto simp: tw_ok_def\<close>)
      moreover have "keys_after e c' = (sock_key ?c4, app_key ?c4, False)"
        using k i(2) by (simp add: keys_after_def keeps_def)
      ultimately show ?thesis using s(2) by (simp add: handled_def)
    qed
    show ?thesis
      unfolding s(1) bindE_simps prod.case by (rule post_mapE post_if synSentAcked_frame synSentSimultaneous_frame | simp only: prod.case, rule moved, assumption, blast)+
  qed
  show ?thesis
    unfolding processSegmentInSynSent_def prod.case Let_def
    by (rule post_if post_mapE sendRst_addr_frame synSentDiscard_frame post_bindE[OF synSentDiscard_frame] post_Inr same upd post_bindE | simp)+
qed


lemma processTCPSegment_ok:
  assumes "reg_ok m h n" "h r = Some (keys_of c)" "conn_inv c" "localPort c = uint (destPort seg)"
    "SockPair dest src (uint (destPort seg)) (uint (srcPort seg)) = sock_key c
       \<or> tcpConnMap m (SockPair dest src (uint (destPort seg)) (uint (srcPort seg))) = None"
    "\<And>g. tcpAppConnMap m (AppConnKey g u) = None" "fsm c \<noteq> TCP_S_INIT"
  shows "post (processTCPSegment en par u r n seg src dest (c, m)) (\<lambda>(alive, clone, c', m').
    case clone of None \<Rightarrow> settled r h n alive c' m'
    | Some nc \<Rightarrow> settled r (h(n \<mapsto> keys_of nc)) (n + 1) alive c' m' \<and> conn_inv nc)"
proof -
  have rest: "seg_handled r h n e None c' m" if "keeps c c'" "tw_ok e c'" for e c'
  proof -
    have "keys_after e c' = keys_of c"
      using that(1) assms(7) by (simp add: keeps_def keys_after_def keys_of_def)
    then show ?thesis
      using keeps_ready[OF that(1) assms(3) that(2)] reg_same[OF assms(1,2)] by (simp add: seg_handled_def handled_def)
  qed
  have "post (process_RCV_SEGMENT en par u r n seg src dest (c, m)) (\<lambda>(e, clone, c', m'). seg_handled r h n e clone c' m')"
  proof (cases "fsm c = TCP_S_LISTEN")
    case True
    then show ?thesis
      using processSegmentInListen_ok[OF assms(1-3) True assms(4-6)] by (simp add: process_RCV_SEGMENT_def)
  next
    case listen: False
    show ?thesis
    proof (cases "fsm c = TCP_S_SYN_SENT")
      case True
      have "post (mapE (\<lambda>(e, c1, m1). (e, None, c1, m1)) (processSegmentInSynSent en r seg src dest (c, m)))
          (\<lambda>(e, clone, c', m'). seg_handled r h n e clone c' m')"
        by (rule post_mapE, rule post_mono[OF processSegmentInSynSent_ok[OF assms(1-3) True assms(4,5)]])
           (clarsimp simp: seg_handled_def)
      then show ?thesis using True by (simp add: process_RCV_SEGMENT_def)
    next
      case False
      have "post (mapE (\<lambda>(e, c1). (e, None, c1, m)) (processSegment1stThru8th en seg c))
          (\<lambda>(e, clone, c', m'). seg_handled r h n e clone c' m')"
        by (rule post_mapE, rule processSegment1stThru8th_keeps) (simp add: rest)
      then show ?thesis using listen False by (simp add: process_RCV_SEGMENT_def)
    qed
  qed
  then show ?thesis
    unfolding processTCPSegment_def prod.case
  proof (intro post_assertE, elim post_bindE[OF post_mono], clarify)
    fix e clone c1 m1
    assume s: "seg_handled r h n e clone c1 m1"
    show "post (mapE (\<lambda>(alive, c2). (alive, clone, c2, m1)) (performStateTransition e c1)) (\<lambda>(alive, clone, c', m').
      case clone of None \<Rightarrow> settled r h n alive c' m'
      | Some nc \<Rightarrow> settled r (h(n \<mapsto> keys_of nc)) (n + 1) alive c' m' \<and> conn_inv nc)"
    proof (cases clone)
      case None
      then have "handled r h n e c1 m1" using s by (simp add: seg_handled_def)
      from perform_handled[OF this] show ?thesis using None by (auto intro!: post_mapE elim!: post_mono)
    next
      case (Some nc)
      then have "handled r (h(n \<mapsto> keys_of nc)) (n + 1) e c1 m1" "conn_inv nc" using s by (simp_all add: seg_handled_def)
      from perform_handled[OF this(1)] this(2) show ?thesis using Some by (auto intro!: post_mapE elim!: post_mono)
    qed
  qed
qed

section \<open>The module\<close>

lemma keys_upd: "map_option keys_of \<circ> (f(r := x)) = (map_option keys_of \<circ> f)(r := map_option keys_of x)"
  by auto

lemma outs_cleared [simp]: "keys_of (c\<lparr>outs := os\<rparr>) = keys_of c" "conn_inv (c\<lparr>outs := os\<rparr>) = conn_inv c"
  by (simp_all add: keys_of_def conn_inv_def sock_key_def app_key_def)

text \<open>The end of a handler, for a module whose other connections \<open>f\<close> are in order.\<close>

lemma finish_handler_ok:
  assumes "settled r (map_option keys_of \<circ> f) n alive c m" "\<And>q d. f q = Some d \<Longrightarrow> conn_inv d"
  shows "reg_ok (maps (finish_handler r (alive, c, m) M)) (map_option keys_of \<circ> f(r := (if alive then Some (c\<lparr>outs := []\<rparr>) else None))) n"
    "conns (finish_handler r (alive, c, m) M) = (conns M)(r := (if alive then Some (c\<lparr>outs := []\<rparr>) else None))"
    "nextRef (finish_handler r (alive, c, m) M) = nextRef M"
    "(f(r := (if alive then Some (c\<lparr>outs := []\<rparr>) else None))) q = Some d \<Longrightarrow> conn_inv d"
  using assms(1) assms(2)[of q d] unfolding keys_upd
  by (simp_all add: settled_def finish_handler_def store_def removeConnection_def Let_def del: fun_upd_apply split: if_splits)
     (auto split: if_splits)

lemma finish_main_ok:
  assumes "settled r (map_option keys_of \<circ> conns M) (nextRef M) alive c m" "\<And>q d. conns M q = Some d \<Longrightarrow> conn_inv d"
  shows "main_ok (finish_handler r (alive, c, m) M)"
  using finish_handler_ok(1-3)[OF assms, where M = M] finish_handler_ok(4)[OF assms] by (simp add: main_ok_def)

lemma finish_clone_ok:
  assumes "settled r (map_option keys_of \<circ> (conns M)(nextRef M \<mapsto> nc)) (nextRef M + 1) alive c m" "conn_inv nc" "r \<noteq> nextRef M"
    "\<And>q d. conns M q = Some d \<Longrightarrow> conn_inv d"
  shows "main_ok ((finish_handler r (alive, c, m) M)
    \<lparr>conns := (conns (finish_handler r (alive, c, m) M))(nextRef M \<mapsto> nc), nextRef := nextRef M + 1\<rparr>)"
proof -
  let ?f = "(conns M)(nextRef M \<mapsto> nc)"
  have f: "?f q = Some d \<Longrightarrow> conn_inv d" for q d
    using assms(2,4) by (auto split: if_splits)
  note F = finish_handler_ok(1-3)[OF assms(1) f, where M = M] finish_handler_ok(4)[OF assms(1) f]
  have "((conns M)(r := x))(nextRef M \<mapsto> nc) = ?f(r := x)" for x
    using assms(3) by (rule fun_upd_twist)
  then show ?thesis using F by (simp add: main_ok_def)
qed


lemma main_okD:
  assumes "main_ok M" "conns M r = Some c"
  shows "reg_ok (maps M) (map_option keys_of \<circ> conns M) (nextRef M)" "(map_option keys_of \<circ> conns M) r = Some (keys_of c)" "conn_inv c"
  using assms by (auto simp: main_ok_def)

lemma post_deref [wp]: "(\<And>c. conns M r = Some c \<Longrightarrow> P c) \<Longrightarrow> post (deref r M) P"
  by (simp add: deref_def split: option.split)

lemma main_inv: "main_ok M \<Longrightarrow> conns M q = Some d \<Longrightarrow> conn_inv d"
  by (auto simp: main_ok_def)

lemma handleTimer_ok:
  assumes "main_ok M"
  shows "post (handleTimer en r t M) main_ok"
proof -
  have "post (bindE (processTimer en t (expireTimer t c)) (\<lambda>(alive, c1). Inr (finish_handler r (alive, c1, maps M) M))) main_ok"
    if c: "conns M r = Some c" for c
    by (rule post_bindE, rule post_mono[OF processTimer_ok[OF main_okD[OF assms c]]])
       (clarsimp simp del: comp_apply simp: comp_def finish_main_ok[unfolded comp_def] main_inv[OF assms])
  then show ?thesis unfolding handleTimer_def by (rule post_bindE[OF post_deref])
qed

lemma handleAppCommand_ok:
  assumes "main_ok M" "command_ok cmd"
  shows "post (handleAppCommand en par gate cid cmd M) main_ok"
proof -
  have run: "post (bindE (deref r M') (\<lambda>c. bindE (processAppCommand en par r cmd (c, maps M')) (\<lambda>res. Inr (finish_handler r res M')))) main_ok"
    if "main_ok M'" for r M'
  proof (rule post_bindE, rule post_deref, rule post_bindE)
    fix c
    assume c: "conns M' r = Some c"
    show "post (processAppCommand en par r cmd (c, maps M')) (\<lambda>res. post (Inr (finish_handler r res M')) main_ok)"
      by (rule post_mono[OF processAppCommand_ok[OF main_okD[OF that c] assms(2)]])
         (clarsimp simp: comp_def finish_main_ok[unfolded comp_def] main_inv[OF that])
  qed
  let ?M1 = "M\<lparr>maps := (maps M)\<lparr>tcpAppConnMap := (tcpAppConnMap (maps M))(AppConnKey gate cid \<mapsto> nextRef M)\<rparr>,
       conns := (conns M)(nextRef M \<mapsto> new_conn par gate cid), nextRef := nextRef M + 1\<rparr>"
  have new: "main_ok ?M1" if "findConnForApp gate cid (maps M) = None"
  proof -
    have k: "keys_of (new_conn par gate cid) = (SockPair unspecifiedAddr unspecifiedAddr (-1) (-1), AppConnKey gate cid, True)"
      by (simp add: keys_of_def new_conn_def sock_key_def app_key_def)
    have "conn_inv (new_conn par gate cid)"
      by (simp add: conn_inv_def new_conn_def isScheduled_def)
    with that assms(1) show ?thesis
      using reg_new[of "maps M" "map_option keys_of \<circ> conns M" "nextRef M" "AppConnKey gate cid"]
      by (auto simp: main_ok_def findConnForApp_def keys_upd k simp del: fun_upd_apply) (auto split: if_splits)
  qed
  show ?thesis
    unfolding handleAppCommand_def
    using run[OF assms(1)] run[OF new] by (cases "findConnForApp gate cid (maps M)") (simp_all add: Let_def)
qed

text \<open>What is assumed of a relay application: it leaves the ports of the segment and the identity of the connection.\<close>

definition relay_ok :: "relay_app \<Rightarrow> bool" where
  "relay_ok relay \<longleftrightarrow> (\<forall>f. relay = Some f \<longrightarrow>
     (\<forall>c seg. case f (c, seg) of (dropped, c', seg') \<Rightarrow>
        ident c' = ident c \<and> srcPort seg' = srcPort seg \<and> destPort seg' = destPort seg))"

definition fresh_number :: "int \<Rightarrow> tcp_maps \<Rightarrow> bool" where
  "fresh_number u m \<longleftrightarrow> (\<forall>g. tcpAppConnMap m (AppConnKey g u) = None)"

lemma main_ok_store:
  assumes "main_ok M" "conns M r = Some c" "keeps c c'"
  shows "main_ok (store r c' M)"
proof -
  have "(map_option keys_of \<circ> conns M)(r \<mapsto> keys_of c') = map_option keys_of \<circ> conns M"
    using keeps_keys[OF assms(3)] assms(2) by auto
  with assms keeps_inv[OF assms(3)] show ?thesis
    by (auto simp: main_ok_def store_def keys_upd simp del: fun_upd_apply) (auto split: if_splits)
qed

lemma handleSegment_ok:
  assumes "main_ok M" "relay_ok relay" "fresh_number u (maps M)"
  shows "post (handleSegment en par u relay seg src dest M) main_ok"
proof (cases "findConnForSegment seg src dest (maps M)")
  case None
  have "post (mapE (\<lambda>tmp. M\<lparr>sent := sent M @ map (Pair (-1)) (outs tmp)\<rparr>) (segmentArrivalWhileClosed seg src dest tmp_conn)) main_ok"
    by (rule post_mapE, rule post_mono[OF post_any]) (use assms(1) in \<open>simp add: main_ok_def\<close>)
  then show ?thesis by (simp add: handleSegment_def None)
next
  case (Some r)
  have "post (let (dropped, c1, seg1) = (case relay of None \<Rightarrow> (False, c, seg) | Some f \<Rightarrow> f (c, seg)) in
          if dropped then Inr (store r c1 M)
          else bindE (processTCPSegment en par u r (nextRef M) seg1 src dest (upd (\<lambda>s. s\<lparr>ecn := ecnBit seg1\<rparr>) c1, maps M))
                 (\<lambda>(alive, clone, c2, m).
                 let M1 = finish_handler r (alive, c2, m) M
                 in Inr (case clone of
                      None \<Rightarrow> M1
                    | Some c' \<Rightarrow> M1\<lparr>conns := (conns M1)(nextRef M \<mapsto> c'), nextRef := nextRef M + 1\<rparr>))) main_ok"
    if c: "conns M r = Some c" for c
  proof -
    note m = main_okD[OF assms(1) c]
    obtain dropped c1 seg1 where f: "(case relay of None \<Rightarrow> (False, c, seg) | Some f \<Rightarrow> f (c, seg)) = (dropped, c1, seg1)"
      by (cases "case relay of None \<Rightarrow> (False, c, seg) | Some f \<Rightarrow> f (c, seg)") auto
    have s1: "ident c1 = ident c" "srcPort seg1 = srcPort seg" "destPort seg1 = destPort seg"
      using f assms(2) by (auto simp: relay_ok_def split: option.splits prod.splits)
    let ?c = "upd (\<lambda>s. s\<lparr>ecn := ecnBit seg1\<rparr>) c1"
    have k: "keeps c ?c" by (rule ident_keeps) (simp add: s1)
    have kk: "keys_of ?c = keys_of c" "conn_inv ?c" using keeps_keys[OF k] keeps_inv[OF k m(3)] by simp_all
    have fnd: "findConnForSegment seg1 src dest (maps M) = Some r"
      using Some s1 by (simp add: findConnForSegment_def)
    have h: "(map_option keys_of \<circ> conns M) r = Some (sock_key ?c, app_key ?c, fsm ?c = TCP_S_INIT)"
      using m(2) kk(1) by (simp add: keys_of_def)
    note key = found_key[OF m(1) h fnd refl]
    have rn: "r \<noteq> nextRef M" using reg_okD(2)[OF m(1) h] by simp
    have "post (processTCPSegment en par u r (nextRef M) seg1 src dest (?c, maps M)) (\<lambda>(alive, clone, c', m').
      case clone of None \<Rightarrow> settled r (map_option keys_of \<circ> conns M) (nextRef M) alive c' m'
      | Some nc \<Rightarrow> settled r ((map_option keys_of \<circ> conns M)(nextRef M \<mapsto> keys_of nc)) (nextRef M + 1) alive c' m' \<and> conn_inv nc)"
    proof (rule processTCPSegment_ok)
      show "localPort ?c = uint (destPort seg1)" using key(3) by (simp add: sock_key_def)
      show "fsm ?c \<noteq> TCP_S_INIT" using key(1) .
    qed (use m(1) kk h key(2) assms(3) in \<open>simp_all add: keys_of_def fresh_number_def\<close>)
    note run = this
    have "post (bindE (processTCPSegment en par u r (nextRef M) seg1 src dest (?c, maps M))
                 (\<lambda>(alive, clone, c2, m).
                 let M1 = finish_handler r (alive, c2, m) M
                 in Inr (case clone of
                      None \<Rightarrow> M1
                    | Some c' \<Rightarrow> M1\<lparr>conns := (conns M1)(nextRef M \<mapsto> c'), nextRef := nextRef M + 1\<rparr>))) main_ok"
    proof (rule post_bindE, rule post_mono[OF run], clarify)
      fix alive clone c2 m2
      assume "case clone of None \<Rightarrow> settled r (map_option keys_of \<circ> conns M) (nextRef M) alive c2 m2
        | Some nc \<Rightarrow> settled r ((map_option keys_of \<circ> conns M)(nextRef M \<mapsto> keys_of nc)) (nextRef M + 1) alive c2 m2 \<and> conn_inv nc"
      then show "post (let M1 = finish_handler r (alive, c2, m2) M
                 in Inr (case clone of
                      None \<Rightarrow> M1
                    | Some c' \<Rightarrow> M1\<lparr>conns := (conns M1)(nextRef M \<mapsto> c'), nextRef := nextRef M + 1\<rparr>)) main_ok"
        using finish_main_ok[of r M alive c2 m2] finish_clone_ok[of r M _ alive c2 m2] main_inv[OF assms(1)] rn
        by (cases clone) (simp_all add: Let_def keys_upd)
    qed
    then show ?thesis
      unfolding f Let_def prod.case
      by (intro post_if) (use main_ok_store[OF assms(1) c ident_keeps[OF s1(1)]] in \<open>simp_all add: Let_def\<close>)
  qed
  then show ?thesis
    unfolding handleSegment_def Some option.case by (rule post_bindE[OF post_deref])
qed


section \<open>Reachable states\<close>

text \<open>
  A run of the module: messages in any order and number, at any time and with any environment, and the life cycle
  operations.  A run is stopped by an error, so the reachable states are those after messages without one.
\<close>

inductive reachable :: "relay_app \<Rightarrow> tcp_main \<Rightarrow> bool" for relay where
  reachable_init: "reachable relay init_main"
| reachable_message:
    "reachable relay M \<Longrightarrow> fresh_number u (maps M) \<Longrightarrow> (\<forall>gate cid cmd. msg = AppMsg gate cid cmd \<longrightarrow> command_ok cmd) \<Longrightarrow>
     handleMessage en par u relay msg M = Inr M' \<Longrightarrow> reachable relay M'"
| reachable_stage:
    "reachable relay M \<Longrightarrow> handleOperationStage op at M = Inr M' \<Longrightarrow> reachable relay M'"

inductive_cases reachableE: "reachable relay M"

lemma init_main_ok: "main_ok init_main"
  by (auto simp: main_ok_def init_main_def reg_ok_def maps_ok_def in_range_int EPHEMERAL_PORTRANGE_START_def)

lemma handleMessage_ok:
  assumes "main_ok M" "relay_ok relay" "fresh_number u (maps M)" "\<forall>gate cid cmd. msg = AppMsg gate cid cmd \<longrightarrow> command_ok cmd"
  shows "post (handleMessage en par u relay msg M) main_ok"
  unfolding handleMessage_def
  using handleTimer_ok[OF assms(1)] handleSegment_ok[OF assms(1-3)] handleAppCommand_ok[OF assms(1)] assms(1,4)
  by (cases msg) auto

lemma reset_main_ok: "main_ok (reset_main M)"
  by (auto simp: main_ok_def reset_main_def reset_maps_def reg_ok_def maps_ok_def in_range_int EPHEMERAL_PORTRANGE_START_def)

lemma main_ok_operational [simp]: "main_ok (M\<lparr>isOperational := b\<rparr>) = main_ok M"
  by (simp add: main_ok_def)

lemma handleOperationStage_ok: "main_ok M \<Longrightarrow> post (handleOperationStage op at M) main_ok"
  unfolding handleOperationStage_def using reset_main_ok[of M] by (cases op) simp_all

lemma reachable_main_ok: "reachable relay M \<Longrightarrow> relay_ok relay \<Longrightarrow> main_ok M"
proof (induction rule: reachable.induct)
  case (reachable_message M u msg en par M')
  then show ?case using postD[OF handleMessage_ok] by blast
next
  case (reachable_stage M op at M')
  then show ?case using postD[OF handleOperationStage_ok] by blast
qed (rule init_main_ok)

end
