(* ===== verification/Tcp_Runs.thy ===== *)
theory Tcp_Runs
  imports Tcp_Module_Inv "HOL-Library.FuncSet"
begin

text \<open>
  Concrete runs for the witnesses: a server listens at port 80, a client connects, and so on.  \<open>ex_view\<close> shows the
  state and the identifier of every connection.
\<close>

definition ex_env :: env where
  "ex_env = \<lparr>simTime = 5, issOfTime = 1000, simtimeToTS = (\<lambda>_. 1), tsToSimtime = (\<lambda>_. 1), timesG = (\<lambda>t. t div 8), relayMark = None\<rparr>"

definition ex_par :: tcp_pars where
  "ex_par = \<lparr>par_advertisedWindow = 7504, par_windowScalingSupport = False, par_delayedAcksEnabled = False,
     par_nagleEnabled = True, par_limitedTransmitEnabled = False, par_increasedIWEnabled = False, par_mss = 536,
     par_timestampSupport = False, par_sackSupport = False, par_tcpAlgorithmClass = TCPReno, par_recordStats = True,
     uninitialised = 0\<rparr>"

definition ex_listen :: open_cmd where
  "ex_listen = \<lparr>op_localAddr = IPv4A 1, op_remoteAddr = IPv4A 0, op_localPort = 80, op_remotePort = -1, op_fork = True,
     op_dataTransferMode = TCP_TRANSFER_BYTECOUNT, op_tcpAlgorithmClass = None\<rparr>"

definition ex_msg :: "int \<Rightarrow> tcp_message \<Rightarrow> tcp_main res \<Rightarrow> tcp_main res" where
  "ex_msg u msg x = bindE x (handleMessage ex_env ex_par u None msg)"

definition ex_view :: "tcp_main res \<Rightarrow> (tcp_state \<times> int) option list" where
  "ex_view x = (case x of Inl _ \<Rightarrow> [] | Inr M \<Rightarrow> map (\<lambda>r. map_option (\<lambda>c. (fsm c, connId c)) (conns M r)) [0..<nextRef M])"

definition ex_syn :: tcp_segment where
  "ex_syn = new_segment\<lparr>srcPort := 3000, destPort := 80, sequenceNo := 500, synBit := True, window := 4096\<rparr>"

definition ex_ack :: tcp_segment where
  "ex_ack = new_segment\<lparr>srcPort := 3000, destPort := 80, sequenceNo := 501, ackNo := 1001, ackBit := True, window := 4096\<rparr>"

definition ex_listening :: "tcp_main res" where
  "ex_listening = ex_msg 7 (AppMsg 0 1 (C_OPEN_PASSIVE ex_listen)) (Inr init_main)"

definition ex_syn_received :: "tcp_main res" where
  "ex_syn_received = ex_msg 7 (SegmentMsg ex_syn (IPv4A 2) (IPv4A 1) False) ex_listening"

definition ex_established :: "tcp_main res" where
  "ex_established = ex_msg 8 (SegmentMsg ex_ack (IPv4A 2) (IPv4A 1) False) ex_syn_received"

lemma ex_views:
  "ex_view ex_listening = [Some (TCP_S_LISTEN, 1)]"
  "ex_view ex_syn_received = [Some (TCP_S_SYN_RCVD, 7), Some (TCP_S_LISTEN, 1)]"
  "ex_view ex_established = [Some (TCP_S_ESTABLISHED, 7), Some (TCP_S_LISTEN, 1)]"
proof -
  show "ex_view ex_listening = [Some (TCP_S_LISTEN, 1)]" by code_simp
  show "ex_view ex_syn_received = [Some (TCP_S_SYN_RCVD, 7), Some (TCP_S_LISTEN, 1)]" by code_simp
  show "ex_view ex_established = [Some (TCP_S_ESTABLISHED, 7), Some (TCP_S_LISTEN, 1)]" by code_simp
qed

text \<open>An identifier that no connection has is free.\<close>

lemma fresh_from_conns:
  assumes "main_ok M" "\<forall>r < nextRef M. \<forall>c. conns M r = Some c \<longrightarrow> connId c \<noteq> u"
  shows "fresh_number u (maps M)"
proof -
  have "tcpAppConnMap (maps M) (AppConnKey g u) = None" for g
  proof (rule ccontr)
    assume "tcpAppConnMap (maps M) (AppConnKey g u) \<noteq> None"
    then obtain r where "tcpAppConnMap (maps M) (AppConnKey g u) = Some r" by blast
    with assms(1) obtain s i where h: "(map_option keys_of \<circ> conns M) r = Some (s, AppConnKey g u, i)"
      unfolding main_ok_def using reg_okD(6) by blast
    then obtain c where "conns M r = Some c" "connId c = u" by (auto simp: keys_of_def app_key_def)
    moreover have "r < nextRef M" using assms(1) h unfolding main_ok_def by (blast dest: reg_okD(2))
    ultimately show False using assms(2) by blast
  qed
  then show ?thesis by (simp add: fresh_number_def)
qed

lemma relay_ok_None [simp]: "relay_ok None"
  by (simp add: relay_ok_def)

lemma ex_step:
  assumes "\<exists>M. x = Inr M \<and> reachable None M" "y = ex_msg u msg x"
    "u \<notin> set (map (\<lambda>v. case v of Some (_, i) \<Rightarrow> i | None \<Rightarrow> u + 1) (ex_view x))"
    "\<forall>gate cid cmd. msg = AppMsg gate cid cmd \<longrightarrow> command_ok cmd" "ex_view y \<noteq> []"
  shows "\<exists>M. y = Inr M \<and> reachable None M"
proof -
  obtain M where M: "x = Inr M" "reachable None M" using assms(1) by blast
  have "\<forall>r < nextRef M. \<forall>c. conns M r = Some c \<longrightarrow> connId c \<noteq> u"
    using M(1) assms(3) by (force simp: ex_view_def)
  then have "fresh_number u (maps M)"
    by (rule fresh_from_conns[OF reachable_main_ok[OF M(2) relay_ok_None]])
  moreover obtain M' where "y = Inr M'" using assms(5) by (cases y) (auto simp: ex_view_def)
  ultimately show ?thesis using M assms(2,4) by (auto simp: ex_msg_def intro: reachable_message)
qed

lemma ex_reachable:
  "\<exists>M. ex_listening = Inr M \<and> reachable None M" "\<exists>M. ex_syn_received = Inr M \<and> reachable None M"
  "\<exists>M. ex_established = Inr M \<and> reachable None M"
proof -
  have "\<exists>M. Inr init_main = (Inr M :: tcp_main res) \<and> reachable None M" by (auto intro: reachable_init)
  moreover have "ex_view (Inr init_main) = []" by (simp add: ex_view_def init_main_def)
  ultimately show 1: "\<exists>M. ex_listening = Inr M \<and> reachable None M"
    by (intro ex_step[OF _ ex_listening_def]) (simp_all add: ex_views command_ok_def port_ok_def ex_listen_def)
  show 2: "\<exists>M. ex_syn_received = Inr M \<and> reachable None M"
    by (rule ex_step[OF 1 ex_syn_received_def]) (simp_all add: ex_views)
  show 3: "\<exists>M. ex_established = Inr M \<and> reachable None M"
    by (rule ex_step[OF 2 ex_established_def]) (simp_all add: ex_views)
qed


section \<open>The properties of every reachable state\<close>

lemma port_users:
  assumes "reg_ok m (map_option keys_of \<circ> f) n"
  shows "bij_betw (\<lambda>k. the (tcpConnMap m k)) {k \<in> dom (tcpConnMap m). sp_localPort k = i}
    {r. \<exists>c. f r = Some c \<and> fsm c \<noteq> TCP_S_INIT \<and> localPort c = i}"
proof (rule bij_betwI[where g = "\<lambda>r. sock_key (the (f r))"])
  note R = reg_okD[OF assms]
  show "(\<lambda>k. the (tcpConnMap m k)) \<in> {k \<in> dom (tcpConnMap m). sp_localPort k = i}
      \<rightarrow> {r. \<exists>c. f r = Some c \<and> fsm c \<noteq> TCP_S_INIT \<and> localPort c = i}"
    using R(5) by (fastforce simp: keys_of_def sock_key_def)
  show "(\<lambda>r. sock_key (the (f r))) \<in> {r. \<exists>c. f r = Some c \<and> fsm c \<noteq> TCP_S_INIT \<and> localPort c = i}
      \<rightarrow> {k \<in> dom (tcpConnMap m). sp_localPort k = i}"
    using R(4) by (fastforce simp: keys_of_def sock_key_def)
  show "sock_key (the (f (the (tcpConnMap m k)))) = k" if "k \<in> {k \<in> dom (tcpConnMap m). sp_localPort k = i}" for k
    using that R(5) by (fastforce simp: keys_of_def)
  show "the (tcpConnMap m (sock_key (the (f r)))) = r" if "r \<in> {r. \<exists>c. f r = Some c \<and> fsm c \<noteq> TCP_S_INIT \<and> localPort c = i}" for r
    using that R(4) by (fastforce simp: keys_of_def)
qed

lemma getEphemeralPort_free:
  assumes "in_range (lastEphemeralPort m)" "getEphemeralPort m = Inr (p, m')"
  shows "in_range p" "p \<notin># usedEphemeralPorts m"
  using search_run[OF assms(1), of "usedEphemeralPorts m"] range_visited[OF assms(1)] assms(2)
  by (auto simp: getEphemeralPort_def Let_def split: option.splits dest!: find_Some_in)

text \<open>
  The count of ephemeral ports is exact: a port of the range is counted as often as it is the local port of an open
  connection, and no other port is counted.  So a port that \<open>getEphemeralPort\<close> returns is the local port of none.
\<close>

theorem ephemeral_count_exact:
  assumes "reachable relay M" "relay_ok relay"
  shows "count (usedEphemeralPorts (maps M)) p
      = (if in_range p then card {r. \<exists>c. conns M r = Some c \<and> fsm c \<noteq> TCP_S_INIT \<and> localPort c = uint p} else 0)
    \<and> (getEphemeralPort (maps M) = Inr (p, m') \<longrightarrow> (\<forall>r c. conns M r = Some c \<and> fsm c \<noteq> TCP_S_INIT \<longrightarrow> localPort c \<noteq> uint p))"
proof -
  have ok: "main_ok M" by (rule reachable_main_ok[OF assms])
  then have reg: "reg_ok (maps M) (map_option keys_of \<circ> conns M) (nextRef M)" by (simp add: main_ok_def)
  note m = maps_okD[OF reg_okD(1)[OF reg]] and b = port_users[OF reg, of "uint p"]
  have "{r. \<exists>c. conns M r = Some c \<and> fsm c \<noteq> TCP_S_INIT \<and> localPort c = uint p} = {}"
    if "getEphemeralPort (maps M) = Inr (p, m')"
  proof -
    have "{k \<in> dom (tcpConnMap (maps M)). sp_localPort k = uint p} = {}"
      using getEphemeralPort_free[OF m(4) that] m(3)[of p] m(1) by (simp add: not_in_iff)
    then show ?thesis using bij_betw_imp_surj_on[OF b] by blast
  qed
  then show ?thesis
    using m(3)[of p] bij_betw_same_card[OF b] by auto
qed

lemma ephemeral_count_exact_witness:
  "\<exists>M. ex_established = Inr M \<and> (\<forall>p. \<not> in_range p \<longrightarrow> count (usedEphemeralPorts (maps M)) p = 0)"
proof -
  obtain M where M: "ex_established = Inr M" "reachable None M" using ex_reachable(3) by blast
  from ephemeral_count_exact[OF M(2) relay_ok_None] M(1) show ?thesis by auto
qed

text \<open>
  C1. In every state that the module reaches, the tables and the connections agree: a connection is registered under
  its application key, and under its socket pair as soon as it is open; an entry of a table leads to a live
  connection that has that key.  Every port of the ephemeral range is counted in \<open>usedEphemeralPorts\<close> as often as it is the
  local port of an open connection, and no other port is counted.  No closed connection is kept, the timer for FIN-WAIT-2 never runs, and the 2MSL
  timer runs whenever a connection is in TIME_WAIT, so that it is removed in the end.
\<close>

theorem reachable_tables_agree:
  assumes "reachable relay M" "relay_ok relay"
  shows "(\<forall>r c. conns M r = Some c \<longrightarrow> tcpAppConnMap (maps M) (app_key c) = Some r
      \<and> (fsm c \<noteq> TCP_S_INIT \<longrightarrow> tcpConnMap (maps M) (sock_key c) = Some r)
      \<and> fsm c \<noteq> TCP_S_CLOSED \<and> \<not> isScheduled (finWait2Timer c)
      \<and> (fsm c = TCP_S_TIME_WAIT \<longrightarrow> isScheduled (the2MSLTimer c)))
    \<and> (\<forall>k r. tcpConnMap (maps M) k = Some r \<longrightarrow> (\<exists>c. conns M r = Some c \<and> sock_key c = k \<and> fsm c \<noteq> TCP_S_INIT))
    \<and> (\<forall>k r. tcpAppConnMap (maps M) k = Some r \<longrightarrow> (\<exists>c. conns M r = Some c \<and> app_key c = k))
    \<and> (\<forall>p. count (usedEphemeralPorts (maps M)) p
          = (if in_range p then card {r. \<exists>c. conns M r = Some c \<and> fsm c \<noteq> TCP_S_INIT \<and> localPort c = uint p} else 0))"
proof -
  have ok: "main_ok M" by (rule reachable_main_ok[OF assms])
  then have reg: "reg_ok (maps M) (map_option keys_of \<circ> conns M) (nextRef M)" by (simp add: main_ok_def)
  have "tcpAppConnMap (maps M) (app_key c) = Some r \<and> (fsm c \<noteq> TCP_S_INIT \<longrightarrow> tcpConnMap (maps M) (sock_key c) = Some r)"
    if c: "conns M r = Some c" for r c
    using reg_okD(3)[OF reg, of r "sock_key c" "app_key c"] reg_okD(4)[OF reg, of r "sock_key c" "app_key c"] c
    by (auto simp: keys_of_def)
  moreover have "\<exists>c. conns M r = Some c \<and> sock_key c = k \<and> fsm c \<noteq> TCP_S_INIT" if "tcpConnMap (maps M) k = Some r" for k r
    using reg_okD(5)[OF reg that] by (auto simp: keys_of_def)
  moreover have "\<exists>c. conns M r = Some c \<and> app_key c = k" if "tcpAppConnMap (maps M) k = Some r" for k r
    using reg_okD(6)[OF reg that] by (auto simp: keys_of_def)
  ultimately show ?thesis
    using main_inv[OF ok] ephemeral_count_exact[OF assms] by (simp add: conn_inv_def)
qed

lemma reachable_tables_agree_witness:
  "\<exists>M c. ex_established = Inr M \<and> conns M 0 = Some c \<and> fsm c = TCP_S_ESTABLISHED
     \<and> tcpConnMap (maps M) (sock_key c) = Some 0 \<and> tcpAppConnMap (maps M) (app_key c) = Some 0"
proof -
  obtain M where M: "ex_established = Inr M" "reachable None M" using ex_reachable(3) by blast
  have v: "map (\<lambda>r. map_option (\<lambda>c. (fsm c, connId c)) (conns M r)) [0..<nextRef M] = [Some (TCP_S_ESTABLISHED, 7), Some (TCP_S_LISTEN, 1)]"
    using ex_views(3) unfolding M(1) by (simp add: ex_view_def)
  then obtain c where "conns M 0 = Some c" "fsm c = TCP_S_ESTABLISHED"
    by (auto simp: upt_rec[of 0] split: if_splits)
  with M reachable_tables_agree[OF M(2) relay_ok_None] show ?thesis by auto
qed





end
