(* ===== verification/Tcp_Window.thy ===== *)
theory Tcp_Window
  imports Tcp_Frame Tcp_Main
begin

text \<open>
  The windows: which segments are acceptable, and which window a connection advertises.
\<close>

section \<open>Acceptable segments\<close>

lemma soff_end:
  assumes "soff b x + unat n < half"
  shows "soff b (x + n) = soff b x + unat n" "soff b x < half"
  using soff_plus[of b x "unat n"] assms by (simp_all add: half_val)

text \<open>
  C4. The test of RFC 793 for an arriving segment, on the circle of sequence numbers: a segment with data is
  acceptable if and only if its first or its last byte lies in the receive window; a segment without data if it lies in the
  window or right behind it, or, where it does not, if it acknowledges new data.  A data segment that covers the whole
  window and more on both sides is not acceptable.  \<open>b\<close> is any number below both from which the window and the segment end
  within \<open>2^31\<close>.
\<close>

theorem acceptable_iff_in_window:
  fixes b :: u32 and seg :: tcp_segment and c :: conn
  defines "n \<equiv> unat (ucast (payloadLength seg) :: u32)" and "x \<equiv> soff b (sequenceNo seg)"
    and "lo \<equiv> soff b (rcv_nxt (st c))"
  defines "hi \<equiv> lo + unat (rcv_wnd (st c))"
  assumes "x + n < half" "hi < half"
  shows "isSegmentAcceptable seg c \<longleftrightarrow>
    (if n = 0
     then (if lo = hi then x = lo else lo \<le> x \<and> x \<le> hi)
       \<or> seqLess (snd_una (st c)) (ackNo seg)
           \<and> seqLE (ackNo seg) (if afterRto (st c) then snd_max (st c) else snd_nxt (st c))
     else {x, x + n - 1} \<inter> {lo..<hi} \<noteq> {})"
proof -
  note seg_end = soff_end[of b "sequenceNo seg" "ucast (payloadLength seg)"]
    and win_end = soff_end[of b "rcv_nxt (st c)" "rcv_wnd (st c)"]
  have e: "soff b (sequenceNo seg + ucast (payloadLength seg)) = x + n" "soff b (rcv_nxt (st c) + rcv_wnd (st c)) = hi"
    "x < half" "lo < half"
    using seg_end win_end assms by simp_all
  have z: "rcv_wnd (st c) = 0 \<longleftrightarrow> lo = hi" by (simp add: hi_def unat_eq_0)
  have n0: "ucast (payloadLength seg) = (0 :: u32) \<longleftrightarrow> n = 0" by (simp add: n_def unat_eq_0)
  have cmp: "seqLE (rcv_nxt (st c)) (sequenceNo seg) \<longleftrightarrow> lo \<le> x"
    "seqLE (sequenceNo seg) (rcv_nxt (st c) + rcv_wnd (st c)) \<longleftrightarrow> x \<le> hi"
    "seqLess (sequenceNo seg) (rcv_nxt (st c) + rcv_wnd (st c)) \<longleftrightarrow> x < hi"
    "seqLess (rcv_nxt (st c)) (sequenceNo seg + ucast (payloadLength seg)) \<longleftrightarrow> lo < x + n"
    "seqLE (sequenceNo seg + ucast (payloadLength seg)) (rcv_nxt (st c) + rcv_wnd (st c)) \<longleftrightarrow> x + n \<le> hi"
    using e assms(5,6) by (simp_all add: seqLE_win[of b] seqLess_win[of b] x_def[symmetric] lo_def[symmetric])
  have eq: "sequenceNo seg = rcv_nxt (st c) \<longleftrightarrow> x = lo" by (simp add: x_def lo_def)
  show ?thesis
    unfolding isSegmentAcceptable_def Let_def cmp eq z n0 using z by auto
qed

lemma acceptable_iff_in_window_witness:
  "let seg = new_segment\<lparr>sequenceNo := 4294967290, payloadLength := 10\<rparr>;
       c = tmp_conn\<lparr>st := new_state_variables\<lparr>rcv_nxt := 4294967294, rcv_wnd := 100\<rparr>\<rparr>
   in isSegmentAcceptable seg c"
  using acceptable_iff_in_window[of 4294967200 "new_segment\<lparr>sequenceNo := 4294967290, payloadLength := 10\<rparr>"
      "tmp_conn\<lparr>st := new_state_variables\<lparr>rcv_nxt := 4294967294, rcv_wnd := 100\<rparr>\<rparr>"]
  by (simp add: soff_def half_val)

section \<open>The advertised window\<close>

lemma scale_window_eq:
  assumes "unat s \<le> 14"
  shows "\<exists>k. scale_window w s = (drop_bit k w, s + of_nat k) \<and> unat s + k \<le> 14
    \<and> (drop_bit k w \<le> TCP_MAX_WIN \<or> unat s + k = 14) \<and> (\<forall>j < k. TCP_MAX_WIN < drop_bit j w)"
  using assms
proof (induction w s rule: scale_window.induct)
  case (1 w s)
  show ?case
  proof (cases "TCP_MAX_WIN < w \<and> s < 14")
    case True
    have s: "unat s < 14" using True by (simp add: word_less_nat_alt)
    then have s1: "unat (s + 1) = unat s + 1" using unat_plus_small[of s 1] by simp
    from 1(1)[OF True] s s1 obtain k where k: "scale_window (drop_bit 1 w) (s + 1) = (drop_bit k (drop_bit 1 w), s + 1 + of_nat k)"
      "unat (s + 1) + k \<le> 14" "drop_bit k (drop_bit 1 w) \<le> TCP_MAX_WIN \<or> unat (s + 1) + k = 14"
      "\<forall>j < k. TCP_MAX_WIN < drop_bit j (drop_bit 1 w)"
      by auto
    have d: "drop_bit j (drop_bit 1 w) = drop_bit (Suc j) w" for j by simp
    have "\<forall>j < Suc k. TCP_MAX_WIN < drop_bit j w"
      using k(4) True unfolding d by (auto simp: less_Suc_eq_0_disj)
    with k s1 True show ?thesis
      unfolding d scale_window.simps[of w s] by (intro exI[of _ "Suc k"]) (simp add: ac_simps)
  next
    case False
    have "s = 14 \<longleftrightarrow> unat s = 14" by (simp add: word_unat_eq_iff)
    with False 1(2) show ?thesis
      unfolding scale_window.simps[of w s] by (intro exI[of _ 0]) (auto simp: not_less word_less_nat_alt word_le_nat_alt)
  qed
qed


lemma updateRcvWnd_run:
  fixes c :: conn
  defines "free \<equiv> rcv_getAmountOfFreeBytes (maxRcvBuffer (st c)) (receiveQueue c)"
  assumes "unat free < 2 ^ 30"
  shows "\<exists>w c' k. updateRcvWnd c = Inr (w, c') \<and> receiveQueue c' = receiveQueue c \<and> rcv_nxt (st c') = rcv_nxt (st c)
    \<and> unat w = unat (rcv_wnd (st c')) div 2 ^ k \<and> rcv_wnd_scale (st c') = of_nat k \<and> k \<le> 14
    \<and> (\<forall>j < k. 65535 < unat (rcv_wnd (st c')) div 2 ^ j) \<and> (\<not> ws_enabled (st c) \<longrightarrow> k = 0)
    \<and> unat (rcv_wnd (st c')) \<le> unat free
    \<and> (free < maxRcvBuffer (st c) div 4 \<and> free < snd_mss (st c) \<longrightarrow> rcv_wnd (st c') = 0)
    \<and> seqLE (rcv_adv (st c)) (rcv_adv (st c'))
    \<and> (rcv_adv (st c') = rcv_adv (st c) \<or> rcv_adv (st c') = rcv_nxt (st c) + rcv_wnd (st c'))"
proof -
  let ?s = "st (updateRcvQueueVars c)"
  have s: "freeRcvBuffer ?s = free" "rcv_nxt ?s = rcv_nxt (st c)" "rcv_adv ?s = rcv_adv (st c)" "ws_enabled ?s = ws_enabled (st c)"
    "snd_mss ?s = snd_mss (st c)" "maxRcvBuffer ?s = maxRcvBuffer (st c)" "receiveQueue (updateRcvQueueVars c) = receiveQueue c"
    by (simp_all add: updateRcvQueueVars_def upd_def free_def Let_def)
  define win where "win = rcv_window_value ?s"
  have w: "unat win \<le> unat free" "free < maxRcvBuffer (st c) div 4 \<and> free < snd_mss (st c) \<Longrightarrow> win = 0"
    "\<not> ws_enabled (st c) \<Longrightarrow> unat win \<le> 65535"
    by (auto simp: win_def rcv_window_value_def s Let_def TCP_MAX_WIN_def word_less_nat_alt word_le_nat_alt)
  obtain k where k: "(if ws_enabled ?s then scale_window win 0 else (win, 0)) = (drop_bit k win, of_nat k)" "k \<le> 14"
    "unat (drop_bit k win) \<le> 65535" "\<forall>j < k. 65535 < unat win div 2 ^ j" "\<not> ws_enabled (st c) \<Longrightarrow> k = 0"
  proof (cases "ws_enabled (st c)")
    case True
    obtain k where k: "scale_window win 0 = (drop_bit k win, 0 + of_nat k)" "unat (0 :: u32) + k \<le> 14"
      "drop_bit k win \<le> TCP_MAX_WIN \<or> unat (0 :: u32) + k = 14" "\<forall>j < k. TCP_MAX_WIN < drop_bit j win"
      using scale_window_eq[of 0 win] by auto
    have d: "unat (drop_bit j win) = unat win div 2 ^ j" for j
      by (metis drop_bit_eq_div unat_drop_bit_eq)
    have "unat win < 2 ^ 30" using w(1) assms by simp
    then have "unat win div 2 ^ 14 \<le> 65535" by simp
    with k(2,3) have f: "unat (drop_bit k win) \<le> 65535"
      by (auto simp: d TCP_MAX_WIN_def word_le_nat_alt)
    show thesis
      by (rule that[of k]) (use k f s True in \<open>auto simp: d TCP_MAX_WIN_def word_less_nat_alt\<close>)
  next
    case False
    show thesis by (rule that[of 0]) (use False w(3) s in auto)
  qed
  have "unat (ucast (drop_bit k win) :: u16) = unat (drop_bit k win)"
    using k(3) by (simp add: unsigned_ucast_eq take_bit_nat_eq_self)
  then have u: "unat (ucast (drop_bit k win) :: u16) = unat win div 2 ^ k"
    by (metis drop_bit_eq_div unat_drop_bit_eq)
  then have fits: "drop_bit k win = ucast (ucast (drop_bit k win) :: u16)"
    using k(3) by (simp add: word_unat_eq_iff unsigned_ucast_eq unsigned_take_bit_eq take_bit_nat_eq_self)
  define s2 where "s2 = (if 0 < win \<and> seqGE (rcv_nxt ?s + win) (rcv_adv ?s) then ?s\<lparr>rcv_adv := rcv_nxt ?s + win\<rparr> else ?s)"
  define c' where "c' = upd (\<lambda>s. s\<lparr>rcv_wnd := win, rcv_wnd_scale := of_nat k\<rparr>) ((updateRcvQueueVars c)\<lparr>st := s2\<rparr>)"
  have run: "updateRcvWnd c = Inr (ucast (drop_bit k win), c')"
    unfolding updateRcvWnd_def Let_def win_def[symmetric] k(1) prod.case assertE_def
    using fits by (simp add: c'_def s2_def upd_def)
  have "seqLE (rcv_adv (st c)) (rcv_adv s2)" "rcv_adv s2 = rcv_adv (st c) \<or> rcv_adv s2 = rcv_nxt (st c) + win"
    by (simp_all add: s2_def s seqGE_seqLE)
  then show ?thesis
    using run u k(2,4,5) w s by (intro exI[of _ "ucast (drop_bit k win)"] exI[of _ c'] exI[of _ k]) (simp add: c'_def s2_def upd_def)
qed


text \<open>
  What \<open>updateRcvWnd\<close> advertises: with a receive buffer below \<open>2^30\<close> bytes it never fails.  The value for the header
  is the window divided by \<open>2^k\<close> and rounded down, for the least scale \<open>k\<close> with which it fits into 16 bits; the right
  edge that has been promised to the peer never moves to the left, and is that of the new window wherever it moves; and a
  window smaller than a quarter of the buffer and than a segment is advertised as 0, against the silly window syndrome.
\<close>

theorem updateRcvWnd_exact:
  fixes c :: conn
  defines "free \<equiv> rcv_getAmountOfFreeBytes (maxRcvBuffer (st c)) (receiveQueue c)"
  assumes "unat free < 2 ^ 30"
  shows "\<exists>w c' k. updateRcvWnd c = Inr (w, c') \<and> receiveQueue c' = receiveQueue c \<and> rcv_nxt (st c') = rcv_nxt (st c)
    \<and> unat w = unat (rcv_wnd (st c')) div 2 ^ k \<and> rcv_wnd_scale (st c') = of_nat k \<and> k \<le> 14
    \<and> (\<forall>j < k. 65535 < unat (rcv_wnd (st c')) div 2 ^ j) \<and> (\<not> ws_enabled (st c) \<longrightarrow> k = 0)
    \<and> unat (rcv_wnd (st c')) \<le> unat free
    \<and> (free < maxRcvBuffer (st c) div 4 \<and> free < snd_mss (st c) \<longrightarrow> rcv_wnd (st c') = 0)
    \<and> seqLE (rcv_adv (st c)) (rcv_adv (st c'))
    \<and> (rcv_adv (st c') = rcv_adv (st c) \<or> rcv_adv (st c') = rcv_nxt (st c) + rcv_wnd (st c'))"
  unfolding free_def by (rule updateRcvWnd_run[OF assms(2)[unfolded free_def]])

lemma updateRcvWnd_exact_witness:
  "\<exists>w c'. updateRcvWnd (tmp_conn\<lparr>st := new_state_variables\<lparr>maxRcvBuffer := 1000000, ws_enabled := True, rcv_nxt := 7\<rparr>\<rparr>) = Inr (w, c')
     \<and> unat w = unat (rcv_wnd (st c')) div 2 ^ unat (rcv_wnd_scale (st c')) \<and> rcv_nxt (st c') = 7"
proof -
  let ?c = "tmp_conn\<lparr>st := new_state_variables\<lparr>maxRcvBuffer := 1000000, ws_enabled := True, rcv_nxt := 7\<rparr>\<rparr>"
  have "unat (rcv_getAmountOfFreeBytes (maxRcvBuffer (st ?c)) (receiveQueue ?c)) < 2 ^ 30"
    by (simp add: tmp_conn_def rcv_getAmountOfFreeBytes_def rcvq_getAmountOfFreeBytes_def rcvq_getAmountOfBufferedBytes_def rcvq_init_def)
  from updateRcvWnd_exact[OF this] obtain w c' k where *: "updateRcvWnd ?c = Inr (w, c')" "rcv_nxt (st c') = rcv_nxt (st ?c)"
    "unat w = unat (rcv_wnd (st c')) div 2 ^ k" "rcv_wnd_scale (st c') = of_nat k" "k \<le> 14"
    by blast
  have "unat (rcv_wnd_scale (st c')) = k" unfolding *(4) using *(5) by (simp add: unat_of_nat)
  moreover have "rcv_nxt (st c') = 7" unfolding *(2) by simp
  ultimately show ?thesis using *(1,3) by blast
qed


text \<open>
  C5. How the peer reads the advertised window.  \<open>updateRcvWnd\<close> divides by the least power of two that makes the
  current window fit, the peer multiplies with the power that was agreed in the handshake.  The peer sees the window,
  rounded down, where both are the same; where the current window fits with a smaller power, the peer sees a window that is
  larger than the real one, and may send more than the buffer can take.
\<close>

theorem peer_view_of_window:
  fixes c p :: conn
  assumes "updateRcvWnd c = Inr (w, c')" "unat (rcv_getAmountOfFreeBytes (maxRcvBuffer (st c)) (receiveQueue c)) < 2 ^ 30"
    and "ws_enabled (st p)" "unat (snd_wnd_scale (st p)) \<le> 14" "window seg = w" "\<not> synBit seg"
  defines "view \<equiv> unat (snd_wnd (st (updateWndInfo seg True p)))" and "win \<equiv> unat (rcv_wnd (st c'))"
    and "k \<equiv> unat (rcv_wnd_scale (st c'))" and "K \<equiv> unat (snd_wnd_scale (st p))"
  shows "view = win div 2 ^ k * 2 ^ K \<and> (k = K \<longrightarrow> view \<le> win \<and> win < view + 2 ^ K)
    \<and> (k < K \<and> 2 ^ k \<le> win \<longrightarrow> win < view)"
proof -
  obtain j where j: "unat w = win div 2 ^ j" "rcv_wnd_scale (st c') = of_nat j" "j \<le> 14"
    using updateRcvWnd_run[OF assms(2)] assms(1) unfolding win_def by auto
  then have jk: "j = k" by (simp add: k_def unat_of_nat)
  have w: "unat w < 2 ^ 16" using unsigned_less[of w] by simp
  have "view = unat (push_bit K (ucast w :: u32))"
    using assms(3,5,6) by (simp add: view_def updateWndInfo_def upd_def K_def Let_def)
  also have "\<dots> = take_bit 32 (unat w * 2 ^ K)"
    unfolding unsigned_push_bit_eq unsigned_ucast_eq using w by (simp add: push_bit_eq_mult take_bit_nat_eq_self)
  also have "\<dots> = unat w * 2 ^ K"
  proof -
    have "unat w * 2 ^ K < 2 ^ 16 * 2 ^ 14"
      using w power_increasing[OF assms(4), of "2 :: nat"] unfolding K_def by (intro mult_less_le_imp_less) simp_all
    then show ?thesis by (intro take_bit_nat_eq_self) simp
  qed
  finally have v: "view = win div 2 ^ k * 2 ^ K" by (simp add: j(1) jk)
  have same: "k = K \<Longrightarrow> view \<le> win \<and> win < view + 2 ^ K"
    unfolding v using div_times_less_eq_dividend[of win "2 ^ K"] dividend_less_div_times[of "2 ^ K" win] by (simp add: add.commute)
  have larger: "win < view" if kK: "k < K" "2 ^ k \<le> win"
  proof -
    have q: "1 \<le> win div 2 ^ k" using kK(2) by (simp add: Suc_leI div_greater_zero_iff)
    have lt: "win < (win div 2 ^ k + 1) * 2 ^ k" using dividend_less_div_times[of "2 ^ k" win] by simp
    have pw: "(2 :: nat) ^ k * 2 \<le> 2 ^ K" using kK(1) by (metis Suc_leI mult.commute numeral_le_one_iff one_le_numeral power_Suc power_increasing)
    have "(win div 2 ^ k + 1) * 2 ^ k \<le> (win div 2 ^ k * 2) * 2 ^ k"
      using q by (intro mult_le_mono1) simp
    also have "\<dots> = win div 2 ^ k * (2 ^ k * 2)" by simp
    also have "\<dots> \<le> win div 2 ^ k * 2 ^ K" using pw by (rule mult_le_mono2)
    finally have "win < win div 2 ^ k * 2 ^ K" using lt by simp
  then show ?thesis by (simp add: v)
  qed
  show ?thesis using v same larger by blast
qed

lemma peer_view_of_window_witness:
  "let c = tmp_conn\<lparr>st := new_state_variables\<lparr>maxRcvBuffer := 60000, ws_enabled := True\<rparr>\<rparr>;
       p = tmp_conn\<lparr>st := new_state_variables\<lparr>ws_enabled := True, snd_wnd_scale := 4\<rparr>\<rparr>
   in unat (snd_wnd (st (updateWndInfo (new_segment\<lparr>window := 60000\<rparr>) True p))) = 960000"
proof -
  let ?c = "tmp_conn\<lparr>st := new_state_variables\<lparr>maxRcvBuffer := 60000, ws_enabled := True\<rparr>\<rparr>"
  have f: "unat (rcv_getAmountOfFreeBytes (maxRcvBuffer (st ?c)) (receiveQueue ?c)) < 2 ^ 30"
    by (simp add: tmp_conn_def rcv_getAmountOfFreeBytes_def rcvq_getAmountOfFreeBytes_def rcvq_getAmountOfBufferedBytes_def rcvq_init_def)
  have "(case updateRcvWnd ?c of Inr (w, c') \<Rightarrow> w = 60000 \<and> rcv_wnd (st c') = 60000 \<and> rcv_wnd_scale (st c') = 0 | _ \<Rightarrow> False)"
    by code_simp
  then obtain c' where c': "updateRcvWnd ?c = Inr (60000, c')" "rcv_wnd (st c') = 60000" "rcv_wnd_scale (st c') = 0"
    by (auto split: sum.splits)
  show ?thesis
    using peer_view_of_window[OF c'(1) f, of "tmp_conn\<lparr>st := new_state_variables\<lparr>ws_enabled := True, snd_wnd_scale := 4\<rparr>\<rparr>"
        "new_segment\<lparr>window := 60000\<rparr>"] c'
    by (simp add: new_segment_def)
qed

end
