(* ===== verification/Tcp_Syn_Options.thy ===== *)
theory Tcp_Syn_Options
  imports Tcp_Window
begin

text \<open>
  The header options of the handshake: what the two sides agree on, and the length of the header.
\<close>

section \<open>The options of a SYN\<close>

text \<open>A SYN option, and the options that \<open>writeSynOptions\<close> adds, as a list.\<close>

abbreviation mk_opt :: "option_kind \<Rightarrow> u16 \<Rightarrow> u32 list \<Rightarrow> tcp_option" where
  "mk_opt k len vals \<equiv> \<lparr>opt_kind = k, opt_length = len, opt_values = vals\<rparr>"

definition nops :: "nat \<Rightarrow> tcp_option list" where
  "nops n = replicate n (mk_opt TCPOPTION_NO_OPERATION 1 [])"

lemma options_addOption [simp]: "options (addOption k len vals seg) = options seg @ [mk_opt k len vals]"
  by (simp add: addOption_def)

lemma options_addNOPs [simp]: "options (addNOPs n seg) = options seg @ nops n"
  by (induction n) (simp_all add: addNOPs_def nops_def replicate_app_Cons_same)

lemma ackBit_addOption [simp]:
  "ackBit (addOption k len vals seg) = ackBit seg" "headerLength (addOption k len vals seg) = headerLength seg"
  by (simp_all add: addOption_def)

lemma ackBit_addNOPs [simp]: "ackBit (addNOPs n seg) = ackBit seg" "headerLength (addNOPs n seg) = headerLength seg"
  by (induction n) (simp_all add: addNOPs_def)

definition syn_scale :: "conn \<Rightarrow> u32" where
  "syn_scale c = snd (scale_window (rcv_getFirstSeqNo (receiveQueue c) + maxRcvBuffer (st c) - rcv_nxt (st c)) 0)"

lemma options_writeSynOptions:
  fixes c :: conn
  defines "s \<equiv> st c"
  defines "ws \<equiv> ws_support s \<and> (rcv_ws s \<or> syn_rexmit c)"
    and "sack \<equiv> sack_support s \<and> (rcv_sack_perm s \<or> syn_rexmit c)"
    and "ts \<equiv> ts_support s \<and> (rcv_initial_ts s \<or> syn_rexmit c)"
  shows "options (fst (writeSynOptions en (seg, c))) = options seg
      @ (if 0 < snd_mss s then [mk_opt TCPOPTION_MAXIMUM_SEGMENT_SIZE 4 [snd_mss s]] else [])
      @ (if ws then nops 1 @ [mk_opt TCPOPTION_WINDOW_SCALE 3 [syn_scale c]] else [])
      @ (if sack then (if \<not> ts_support s then nops 2 else []) @ [mk_opt TCPOPTION_SACK_PERMITTED 2 []] else [])
      @ (if ts then (if \<not> sack_support s then nops 2 else [])
            @ [mk_opt TCPOPTION_TIMESTAMP 10 [simtimeToTS en (simTime en), if ackBit seg then ts_recent s else 0]] else [])"
    "headerLength (fst (writeSynOptions en (seg, c))) = headerLength seg"
    "snd (writeSynOptions en (seg, c)) = upd (\<lambda>s.
       let s1 = (if ws then s\<lparr>rcv_wnd_scale := syn_scale c, snd_ws := True, ws_enabled := ws_support s \<and> rcv_ws s\<rparr> else s);
           s2 = (if sack then s1\<lparr>snd_sack_perm := True, sack_enabled := sack_support s \<and> rcv_sack_perm s\<rparr> else s1)
       in if ts then s2\<lparr>snd_initial_ts := True, ts_enabled := ts_support s \<and> rcv_initial_ts s\<rparr> else s2) c"
proof -
  let ?sc1 = "writeMSS (seg, c)"
  have 1: "options (fst ?sc1) = options seg @ (if 0 < snd_mss s then [mk_opt TCPOPTION_MAXIMUM_SEGMENT_SIZE 4 [snd_mss s]] else [])"
    "snd ?sc1 = c" "ackBit (fst ?sc1) = ackBit seg" "headerLength (fst ?sc1) = headerLength seg"
    by (simp_all add: writeMSS_def s_def addOption_def)
  define sc2 where "sc2 = (if ws then writeWS ?sc1 else ?sc1)"
  have 2: "options (fst sc2) = options (fst ?sc1) @ (if ws then nops 1 @ [mk_opt TCPOPTION_WINDOW_SCALE 3 [syn_scale c]] else [])"
    "snd sc2 = upd (\<lambda>s. if ws then s\<lparr>rcv_wnd_scale := syn_scale c, snd_ws := True, ws_enabled := ws_support s \<and> rcv_ws s\<rparr> else s) c"
    "ackBit (fst sc2) = ackBit seg" "headerLength (fst sc2) = headerLength seg"
    using 1 by (auto simp: sc2_def writeWS_def syn_scale_def Let_def upd_def split: prod.split)
  define sc3 where "sc3 = (if sack then writeSackPermitted sc2 else sc2)"
  have 3: "options (fst sc3) = options (fst sc2) @ (if sack then (if \<not> ts_support s then nops 2 else []) @ [mk_opt TCPOPTION_SACK_PERMITTED 2 []] else [])"
    "snd sc3 = upd (\<lambda>s. if sack then s\<lparr>snd_sack_perm := True, sack_enabled := sack_support s \<and> rcv_sack_perm s\<rparr> else s) (snd sc2)"
    "ackBit (fst sc3) = ackBit seg" "headerLength (fst sc3) = headerLength seg"
    using 2 by (auto simp: sc3_def writeSackPermitted_def Let_def upd_def s_def split: prod.split)
  have f2: "ws_support (st (snd sc2)) = ws_support s" "rcv_sack_perm (st (snd sc2)) = rcv_sack_perm s" "sack_support (st (snd sc2)) = sack_support s"
    "fsm (snd sc2) = fsm c" "syn_rexmit_count (st (snd sc2)) = syn_rexmit_count s" "ts_recent (st (snd sc2)) = ts_recent s"
    by (simp_all add: 2 upd_def s_def)
  have f3: "sack_support (st (snd sc3)) = sack_support s" "ts_support (st (snd sc3)) = ts_support s" "rcv_initial_ts (st (snd sc3)) = rcv_initial_ts s"
    "fsm (snd sc3) = fsm c" "syn_rexmit_count (st (snd sc3)) = syn_rexmit_count s" "ts_recent (st (snd sc3)) = ts_recent s"
    by (simp_all add: 3(2) 2(2) upd_def s_def)
  have c2: "(if ws_support (st (snd ?sc1)) \<and> (rcv_ws (st (snd ?sc1)) \<or> syn_rexmit (snd ?sc1)) then writeWS ?sc1 else ?sc1) = sc2"
    by (simp add: sc2_def 1 ws_def s_def)
  have c3: "(if sack_support (st (snd sc2)) \<and> (rcv_sack_perm (st (snd sc2)) \<or> syn_rexmit (snd sc2)) then writeSackPermitted sc2 else sc2) = sc3"
    by (simp add: sc3_def f2 sack_def syn_rexmit_def s_def)
  have c4: "(ts_support (st (snd sc3)) \<and> (rcv_initial_ts (st (snd sc3)) \<or> syn_rexmit (snd sc3))) = ts"
    by (simp add: f3 ts_def syn_rexmit_def s_def)
  have w: "writeSynOptions en (seg, c) =
    (if ts then (writeTS en (snd sc3) (if \<not> sack_support s then addNOPs 2 (fst sc3) else fst sc3),
                 upd (\<lambda>s. s\<lparr>snd_initial_ts := True, ts_enabled := ts_support s \<and> rcv_initial_ts s\<rparr>) (snd sc3)) else sc3)"
    unfolding writeSynOptions_def Let_def c2 c3 c4 f3(1) by simp
  show "options (fst (writeSynOptions en (seg, c))) = options seg
      @ (if 0 < snd_mss s then [mk_opt TCPOPTION_MAXIMUM_SEGMENT_SIZE 4 [snd_mss s]] else [])
      @ (if ws then nops 1 @ [mk_opt TCPOPTION_WINDOW_SCALE 3 [syn_scale c]] else [])
      @ (if sack then (if \<not> ts_support s then nops 2 else []) @ [mk_opt TCPOPTION_SACK_PERMITTED 2 []] else [])
      @ (if ts then (if \<not> sack_support s then nops 2 else [])
            @ [mk_opt TCPOPTION_TIMESTAMP 10 [simtimeToTS en (simTime en), if ackBit seg then ts_recent s else 0]] else [])"
    unfolding w by (cases ts) (simp_all add: writeTS_def 3 2(1) 1(1) f2 f3 append_assoc)
  show "headerLength (fst (writeSynOptions en (seg, c))) = headerLength seg"
    unfolding w by (cases ts) (simp_all add: writeTS_def 3)
  show "snd (writeSynOptions en (seg, c)) = upd (\<lambda>s.
       let s1 = (if ws then s\<lparr>rcv_wnd_scale := syn_scale c, snd_ws := True, ws_enabled := ws_support s \<and> rcv_ws s\<rparr> else s);
           s2 = (if sack then s1\<lparr>snd_sack_perm := True, sack_enabled := sack_support s \<and> rcv_sack_perm s\<rparr> else s1)
       in if ts then s2\<lparr>snd_initial_ts := True, ts_enabled := ts_support s \<and> rcv_initial_ts s\<rparr> else s2) c"
    unfolding w by (cases ts; cases ws; cases sack) (simp_all add: 3(2) 2(2) upd_def Let_def)
qed


section \<open>Reading them\<close>

lemma process_options_append [simp]:
  "process_options seg (xs @ ys) c = bindE (process_options seg xs c) (process_options seg ys)"
  by (induction xs arbitrary: c) (auto simp: bindE_def split: sum.split)

lemma process_nop [simp]: "processOption seg (mk_opt TCPOPTION_NO_OPERATION 1 []) c = Inr c"
  by (simp add: processOption_def)

lemma process_nops [simp]: "process_options seg (nops n) c = Inr c"
  by (induction n) (simp_all add: nops_def)

lemma process_syn_option:
  assumes "fsm c = TCP_S_LISTEN \<or> fsm c = TCP_S_SYN_SENT"
  shows "processOption seg (mk_opt TCPOPTION_MAXIMUM_SEGMENT_SIZE 4 [m]) c
      = Inr (upd (\<lambda>s. s\<lparr>snd_mss := (if min (snd_mss s) m = 0 then 536 else min (snd_mss s) m)\<rparr>) c)"
    "processOption seg (mk_opt TCPOPTION_WINDOW_SCALE 3 [k]) c
      = Inr (upd (\<lambda>s. s\<lparr>rcv_ws := True, ws_enabled := ws_support s \<and> snd_ws s, snd_wnd_scale := (if 14 < k then 14 else k)\<rparr>) c)"
    "processOption seg (mk_opt TCPOPTION_SACK_PERMITTED 2 []) c
      = Inr (upd (\<lambda>s. s\<lparr>rcv_sack_perm := True, sack_enabled := sack_support s \<and> snd_sack_perm s\<rparr>) c)"
  using assms
  by (auto simp: processOption_def processMSSOption_def processWSOption_def processSACKPermittedOption_def Let_def)

lemma process_syn_ts:
  assumes "fsm c = TCP_S_LISTEN \<or> fsm c = TCP_S_SYN_SENT" "\<not> ts_enabled (st c)"
  shows "\<exists>r. processOption seg (mk_opt TCPOPTION_TIMESTAMP 10 [v, e]) c
      = Inr (upd (\<lambda>s. s\<lparr>rcv_initial_ts := True, ts_enabled := ts_support s \<and> snd_initial_ts s, ts_recent := r\<rparr>) c)"
proof -
  let ?s1 = "(st c)\<lparr>rcv_initial_ts := True, ts_enabled := ts_support (st c) \<and> snd_initial_ts (st c)\<rparr>"
  have "processOption seg (mk_opt TCPOPTION_TIMESTAMP 10 [v, e]) c = Inr (c\<lparr>st := ?s1\<lparr>ts_recent :=
      (if ts_enabled ?s1 \<and> \<not> seqLess v (ts_recent ?s1) \<and> seqLE (sequenceNo seg) (last_ack_sent ?s1) then v else ts_recent ?s1)\<rparr>\<rparr>)"
    using assms by (auto simp: processOption_def processTSOption_def Let_def)
  then show ?thesis unfolding upd_def by blast
qed

text \<open>What reading the options of a SYN does, in LISTEN and SYN_SENT.\<close>

lemma read_syn_options:
  assumes "fsm c = TCP_S_LISTEN \<or> fsm c = TCP_S_SYN_SENT" "\<not> ts_enabled (st c)"
    "options seg = (if 0 < m then [mk_opt TCPOPTION_MAXIMUM_SEGMENT_SIZE 4 [m]] else [])
      @ (if ws then nops 1 @ [mk_opt TCPOPTION_WINDOW_SCALE 3 [k]] else [])
      @ (if sack then (if b then nops 2 else []) @ [mk_opt TCPOPTION_SACK_PERMITTED 2 []] else [])
      @ (if ts then (if b' then nops 2 else []) @ [mk_opt TCPOPTION_TIMESTAMP 10 [v, e]] else [])"
  shows "\<exists>r. readHeaderOptions seg c = Inr (upd (\<lambda>s.
      let s1 = (if 0 < m then s\<lparr>snd_mss := (if min (snd_mss s) m = 0 then 536 else min (snd_mss s) m)\<rparr> else s);
          s2 = (if ws then s1\<lparr>rcv_ws := True, ws_enabled := ws_support s \<and> snd_ws s, snd_wnd_scale := (if 14 < k then 14 else k)\<rparr> else s1);
          s3 = (if sack then s2\<lparr>rcv_sack_perm := True, sack_enabled := sack_support s \<and> snd_sack_perm s\<rparr> else s2)
      in if ts then s3\<lparr>rcv_initial_ts := True, ts_enabled := ts_support s \<and> snd_initial_ts s, ts_recent := r\<rparr> else s3) c)"
proof -
  define c1 where "c1 = (if 0 < m then upd (\<lambda>s. s\<lparr>snd_mss := (if min (snd_mss s) m = 0 then 536 else min (snd_mss s) m)\<rparr>) c else c)"
  define c2 where "c2 = (if ws then upd (\<lambda>s. s\<lparr>rcv_ws := True, ws_enabled := ws_support s \<and> snd_ws s, snd_wnd_scale := (if 14 < k then 14 else k)\<rparr>) c1 else c1)"
  define c3 where "c3 = (if sack then upd (\<lambda>s. s\<lparr>rcv_sack_perm := True, sack_enabled := sack_support s \<and> snd_sack_perm s\<rparr>) c2 else c2)"
  have f: "fsm c1 = fsm c" "fsm c2 = fsm c" "fsm c3 = fsm c" "ts_enabled (st c3) = ts_enabled (st c)"
    by (simp_all add: c1_def c2_def c3_def upd_def)
  have 1: "process_options seg (if 0 < m then [mk_opt TCPOPTION_MAXIMUM_SEGMENT_SIZE 4 [m]] else []) c = Inr c1"
    using process_syn_option(1)[OF assms(1)] by (simp add: c1_def)
  have 2: "process_options seg (if ws then nops 1 @ [mk_opt TCPOPTION_WINDOW_SCALE 3 [k]] else []) c1 = Inr c2"
    using process_syn_option(2)[of c1] assms(1) by (simp add: c2_def f)
  have 3: "process_options seg (if sack then (if b then nops 2 else []) @ [mk_opt TCPOPTION_SACK_PERMITTED 2 []] else []) c2 = Inr c3"
    using process_syn_option(3)[of c2] assms(1) by (auto simp: c3_def f)
  obtain r where 4: "processOption seg (mk_opt TCPOPTION_TIMESTAMP 10 [v, e]) c3
      = Inr (upd (\<lambda>s. s\<lparr>rcv_initial_ts := True, ts_enabled := ts_support s \<and> snd_initial_ts s, ts_recent := r\<rparr>) c3)"
    using process_syn_ts[of c3 seg v e] assms(1,2) unfolding f by blast
  have "readHeaderOptions seg c = Inr (if ts then upd (\<lambda>s. s\<lparr>rcv_initial_ts := True, ts_enabled := ts_support s \<and> snd_initial_ts s, ts_recent := r\<rparr>) c3 else c3)"
    unfolding readHeaderOptions_def assms(3) process_options_append 1 2 3 bindE_simps using 4 by auto
  then show ?thesis
    by (intro exI[of _ r]) (simp add: c1_def c2_def c3_def upd_def Let_def)
qed


section \<open>The header of a SYN\<close>

lemma foldl_lengths:
  assumes "unat a + (\<Sum>opt\<leftarrow>opts. unat (opt_length opt)) < 65536"
  shows "unat (foldl (\<lambda>n opt. n + opt_length opt) a opts) = unat a + (\<Sum>opt\<leftarrow>opts. unat (opt_length opt))"
  using assms
proof (induction opts arbitrary: a)
  case (Cons x opts)
  then have "unat (a + opt_length x) = unat a + unat (opt_length x)"
    by (simp add: unat_word_ariths)
  with Cons show ?case by simp
qed simp

lemma unat_getOptionsArrayLength:
  "(\<Sum>opt\<leftarrow>options seg. unat (opt_length opt)) < 65536 \<Longrightarrow>
    unat (getOptionsArrayLength seg) = (\<Sum>opt\<leftarrow>options seg. unat (opt_length opt))"
  unfolding getOptionsArrayLength_def using foldl_lengths[of 0 "options seg"] by simp

lemma sum_nops [simp]: "(\<Sum>opt\<leftarrow>nops n. unat (opt_length opt)) = n"
  by (induction n) (simp_all add: nops_def)

lemma syn_options_length:
  "options seg = [] \<Longrightarrow> (\<Sum>opt\<leftarrow>options (fst (writeSynOptions en (seg, c))). unat (opt_length opt)) \<le> 24"
  unfolding options_writeSynOptions(1) map_append sum_list_append by auto

lemma writeHeaderOptions_syn:
  fixes c :: conn
  assumes "synBit seg" "options seg = []" "fsm c = TCP_S_INIT \<or> fsm c = TCP_S_LISTEN" "\<not> maxRcvBufferChanged (st c)"
    and w: "w = writeSynOptions en (seg, c)" and h: "headerLength seg = TCP_HEADER_OCTETS"
  shows "\<exists>len. writeHeaderOptions en seg c = Inr ((fst w)\<lparr>headerLength := len\<rparr>, snd w)
    \<and> unat len = 20 + (\<Sum>opt\<leftarrow>options (fst w). unat (opt_length opt)) \<and> unat len \<le> 44"
proof -
  let ?n = "\<Sum>opt\<leftarrow>options (fst w). unat (opt_length opt)"
  have le: "?n \<le> 24" unfolding w by (rule syn_options_length[OF assms(2)])
  then have n: "unat (getOptionsArrayLength (fst w)) = ?n" by (intro unat_getOptionsArrayLength) simp
  have m: "maxRcvBufferChanged (st (snd w)) = maxRcvBufferChanged (st c)"
    unfolding w options_writeSynOptions(3) by (simp add: upd_def Let_def)
  have "ucast (getOptionsArrayLength (fst w)) \<le> TCP_OPTIONS_MAX_SIZE"
    using n le by (simp add: word_le_nat_alt TCP_OPTIONS_MAX_SIZE_def unsigned_ucast_eq take_bit_nat_eq_self)
  then have run: "writeHeaderOptions en seg c = Inr (if options (fst w) \<noteq> []
      then (fst w)\<lparr>headerLength := TCP_HEADER_OCTETS + ucast (ucast (getOptionsArrayLength (fst w)) :: u32)\<rparr> else fst w, snd w)"
  proof -
    assume len: "ucast (getOptionsArrayLength (fst w)) \<le> TCP_OPTIONS_MAX_SIZE"
    have "(if synBit seg \<and> (fsm c = TCP_S_INIT \<or> fsm c = TCP_S_LISTEN
                 \<or> ((fsm c = TCP_S_SYN_SENT \<or> fsm c = TCP_S_SYN_RCVD) \<and> 0 < syn_rexmit_count (st c)))
            then Inr (writeSynOptions en (seg, c))
            else if fsm c \<in> {TCP_S_SYN_SENT, TCP_S_SYN_RCVD, TCP_S_ESTABLISHED, TCP_S_FIN_WAIT_1, TCP_S_FIN_WAIT_2}
            then writeDataOptions en (seg, c) else Inr (seg, c)) = Inr w"
      using assms(1,3) w by auto
    then show ?thesis
      unfolding writeHeaderOptions_def using m assms(4) len by (cases w) (simp add: Let_def)
  qed
  have hd: "headerLength (fst w) = TCP_HEADER_OCTETS" unfolding w options_writeSynOptions(2) by (rule h)
  have "unat (TCP_HEADER_OCTETS + getOptionsArrayLength (fst w)) = 20 + ?n"
    using n le by (simp add: TCP_HEADER_OCTETS_def unat_word_ariths)
  note len = this
  have up_down: "ucast (ucast x :: u32) = x" for x :: u16 by transfer simp
  show ?thesis
  proof (cases "options (fst w) = []")
    case True
    then show ?thesis
      using run hd by (intro exI[of _ TCP_HEADER_OCTETS]) (cases w; simp add: TCP_HEADER_OCTETS_def)
  next
    case False
    then show ?thesis
      using run len le unfolding up_down by (intro exI[of _ "TCP_HEADER_OCTETS + getOptionsArrayLength (fst w)"]) simp
  qed
qed

text \<open>What a connection has agreed with its peer.\<close>

definition fresh_options :: "tcp_sv \<Rightarrow> bool" where
  "fresh_options s \<longleftrightarrow> \<not> rcv_ws s \<and> \<not> snd_ws s \<and> \<not> ws_enabled s \<and> \<not> rcv_sack_perm s \<and> \<not> snd_sack_perm s \<and> \<not> sack_enabled s
     \<and> \<not> rcv_initial_ts s \<and> \<not> snd_initial_ts s \<and> \<not> ts_enabled s \<and> \<not> maxRcvBufferChanged s \<and> 0 < snd_mss s"

text \<open>
  C6. The handshake agrees: the client writes the options of its SYN, the server reads them and writes those of its SYN-ACK,
  the client reads these.  None of the four steps fails.  In the end window scaling, SACK and time stamps are each enabled on both sides or on
  none, namely exactly where both sides support them; both use the smaller segment size; and with
  window scaling each side has the scale that the other one has announced.
\<close>

theorem handshake_options_agree:
  fixes c s :: conn
  assumes "fsm c = TCP_S_INIT" "fresh_options (st c)" "fsm s = TCP_S_LISTEN" "fresh_options (st s)"
    "synBit syn" "options syn = []" "synBit synack" "options synack = []"
    "headerLength syn = TCP_HEADER_OCTETS" "headerLength synack = TCP_HEADER_OCTETS"
  shows "\<exists>syn' c1 s1 synack' s2 c2.
      writeHeaderOptions en syn c = Inr (syn', c1) \<and> readHeaderOptions syn' s = Inr s1
    \<and> writeHeaderOptions en' synack s1 = Inr (synack', s2) \<and> readHeaderOptions synack' (c1\<lparr>fsm := TCP_S_SYN_SENT\<rparr>) = Inr c2
    \<and> ws_enabled (st c2) = (ws_support (st c) \<and> ws_support (st s)) \<and> ws_enabled (st s2) = ws_enabled (st c2)
    \<and> sack_enabled (st c2) = (sack_support (st c) \<and> sack_support (st s)) \<and> sack_enabled (st s2) = sack_enabled (st c2)
    \<and> ts_enabled (st c2) = (ts_support (st c) \<and> ts_support (st s)) \<and> ts_enabled (st s2) = ts_enabled (st c2)
    \<and> snd_mss (st c2) = min (snd_mss (st c)) (snd_mss (st s)) \<and> snd_mss (st s2) = snd_mss (st c2)
    \<and> (ws_enabled (st c2) \<longrightarrow> snd_wnd_scale (st c2) = rcv_wnd_scale (st s2) \<and> snd_wnd_scale (st s2) = rcv_wnd_scale (st c2)
          \<and> snd_wnd_scale (st c2) \<le> 14 \<and> snd_wnd_scale (st s2) \<le> 14)"
proof -
  note F = assms(2)[unfolded fresh_options_def] assms(4)[unfolded fresh_options_def]
  have scale: "syn_scale x \<le> 14" "\<not> 14 < syn_scale x" for x
    using scale_window_eq[of 0 "rcv_getFirstSeqNo (receiveQueue x) + maxRcvBuffer (st x) - rcv_nxt (st x)"]
    by (auto simp: syn_scale_def word_le_nat_alt word_less_nat_alt unat_of_nat)
  let ?w = "writeSynOptions en (syn, c)"
  obtain l1 where w1: "writeHeaderOptions en syn c = Inr ((fst ?w)\<lparr>headerLength := l1\<rparr>, snd ?w)"
    using writeHeaderOptions_syn[OF assms(5,6) _ _ refl assms(9), of c en] assms(1) F by auto
  let ?syn = "(fst ?w)\<lparr>headerLength := l1\<rparr>" and ?c1 = "(snd ?w)\<lparr>fsm := TCP_S_SYN_SENT\<rparr>"
  have rexmit: "syn_rexmit c" using assms(1) by (simp add: syn_rexmit_def)
  have c1: "fsm ?c1 = TCP_S_SYN_SENT" "snd_mss (st ?c1) = snd_mss (st c)" "ws_support (st ?c1) = ws_support (st c)"
    "sack_support (st ?c1) = sack_support (st c)" "ts_support (st ?c1) = ts_support (st c)"
    "snd_ws (st ?c1) = ws_support (st c)" "snd_sack_perm (st ?c1) = sack_support (st c)" "snd_initial_ts (st ?c1) = ts_support (st c)"
    "\<not> ws_enabled (st ?c1)" "\<not> sack_enabled (st ?c1)" "\<not> ts_enabled (st ?c1)"
    "ws_support (st c) \<Longrightarrow> rcv_wnd_scale (st ?c1) = syn_scale c"
    unfolding options_writeSynOptions(3) using rexmit F by (simp_all add: upd_def Let_def)
  have o1: "options ?syn = (if 0 < snd_mss (st c) then [mk_opt TCPOPTION_MAXIMUM_SEGMENT_SIZE 4 [snd_mss (st c)]] else [])
      @ (if ws_support (st c) then nops 1 @ [mk_opt TCPOPTION_WINDOW_SCALE 3 [syn_scale c]] else [])
      @ (if sack_support (st c) then (if \<not> ts_support (st c) then nops 2 else []) @ [mk_opt TCPOPTION_SACK_PERMITTED 2 []] else [])
      @ (if ts_support (st c) then (if \<not> sack_support (st c) then nops 2 else [])
            @ [mk_opt TCPOPTION_TIMESTAMP 10 [simtimeToTS en (simTime en), if ackBit syn then ts_recent (st c) else 0]] else [])"
    using options_writeSynOptions(1)[of en syn c] rexmit assms(6) by simp
  obtain s1 where r1: "readHeaderOptions ?syn s = Inr s1" and s1: "fsm s1 = TCP_S_LISTEN" "ws_support (st s1) = ws_support (st s)"
    "sack_support (st s1) = sack_support (st s)" "ts_support (st s1) = ts_support (st s)"
    "rcv_ws (st s1) = ws_support (st c)" "rcv_sack_perm (st s1) = sack_support (st c)" "rcv_initial_ts (st s1) = ts_support (st c)"
    "snd_mss (st s1) = min (snd_mss (st c)) (snd_mss (st s))" "\<not> ws_enabled (st s1)" "\<not> sack_enabled (st s1)" "\<not> ts_enabled (st s1)"
    "ws_support (st c) \<Longrightarrow> snd_wnd_scale (st s1) = syn_scale c" "\<not> maxRcvBufferChanged (st s1)"
  proof -
    from read_syn_options[OF disjI1[OF assms(3)] _ o1] F obtain r where
      "readHeaderOptions ?syn s = Inr (upd (\<lambda>z.
      let s1 = (if 0 < snd_mss (st c) then z\<lparr>snd_mss := (if min (snd_mss z) (snd_mss (st c)) = 0 then 536 else min (snd_mss z) (snd_mss (st c)))\<rparr> else z);
          s2 = (if ws_support (st c) then s1\<lparr>rcv_ws := True, ws_enabled := ws_support z \<and> snd_ws z, snd_wnd_scale := (if 14 < syn_scale c then 14 else syn_scale c)\<rparr> else s1);
          s3 = (if sack_support (st c) then s2\<lparr>rcv_sack_perm := True, sack_enabled := sack_support z \<and> snd_sack_perm z\<rparr> else s2)
      in if ts_support (st c) then s3\<lparr>rcv_initial_ts := True, ts_enabled := ts_support z \<and> snd_initial_ts z, ts_recent := r\<rparr> else s3) s)"
      by blast
    then show thesis
      by (rule that) (use F assms(3) scale in \<open>auto simp: upd_def Let_def min_def\<close>)
  qed
  let ?w2 = "writeSynOptions en' (synack, s1)"
  have not_rexmit: "\<not> syn_rexmit s1" using s1(1) by (simp add: syn_rexmit_def)
  obtain l2 where w2: "writeHeaderOptions en' synack s1 = Inr ((fst ?w2)\<lparr>headerLength := l2\<rparr>, snd ?w2)"
    using writeHeaderOptions_syn[OF assms(7,8) _ _ refl assms(10), of s1 en'] s1 by auto
  let ?synack = "(fst ?w2)\<lparr>headerLength := l2\<rparr>" and ?s2 = "snd ?w2"
  let ?ws = "ws_support (st s) \<and> ws_support (st c)" and ?sack = "sack_support (st s) \<and> sack_support (st c)"
    and ?ts = "ts_support (st s) \<and> ts_support (st c)"
  obtain mm where m: "min (snd_mss (st c)) (snd_mss (st s)) = mm" "0 < mm" "min (snd_mss (st c)) mm = mm"
    using F by (auto simp: min_def)
  have s2: "ws_enabled (st ?s2) = ?ws" "sack_enabled (st ?s2) = ?sack" "ts_enabled (st ?s2) = ?ts"
    "snd_mss (st ?s2) = mm" "?ws \<Longrightarrow> rcv_wnd_scale (st ?s2) = syn_scale s1" "?ws \<Longrightarrow> snd_wnd_scale (st ?s2) = syn_scale c"
    unfolding options_writeSynOptions(3) using not_rexmit s1 m by (auto simp: upd_def Let_def)
  have o2: "options ?synack = (if 0 < mm then [mk_opt TCPOPTION_MAXIMUM_SEGMENT_SIZE 4 [mm]] else [])
      @ (if ?ws then nops 1 @ [mk_opt TCPOPTION_WINDOW_SCALE 3 [syn_scale s1]] else [])
      @ (if ?sack then (if \<not> ts_support (st s) then nops 2 else []) @ [mk_opt TCPOPTION_SACK_PERMITTED 2 []] else [])
      @ (if ?ts then (if \<not> sack_support (st s) then nops 2 else [])
            @ [mk_opt TCPOPTION_TIMESTAMP 10 [simtimeToTS en' (simTime en'), if ackBit synack then ts_recent (st s1) else 0]] else [])"
    using options_writeSynOptions(1)[of en' synack s1] not_rexmit assms(8) s1 m(1) by simp
  obtain c2 where r2: "readHeaderOptions ?synack ?c1 = Inr c2" and c2: "ws_enabled (st c2) = ?ws" "sack_enabled (st c2) = ?sack"
    "ts_enabled (st c2) = ?ts" "snd_mss (st c2) = mm" "?ws \<Longrightarrow> rcv_wnd_scale (st c2) = syn_scale c" "?ws \<Longrightarrow> snd_wnd_scale (st c2) = syn_scale s1"
  proof -
    from read_syn_options[OF disjI2[OF c1(1)] c1(11) o2] obtain r where
      "readHeaderOptions ?synack ?c1 = Inr (upd (\<lambda>z.
      let z1 = (if 0 < mm then z\<lparr>snd_mss := (if min (snd_mss z) mm = 0 then 536 else min (snd_mss z) mm)\<rparr> else z);
          z2 = (if ?ws then z1\<lparr>rcv_ws := True, ws_enabled := ws_support z \<and> snd_ws z, snd_wnd_scale := (if 14 < syn_scale s1 then 14 else syn_scale s1)\<rparr> else z1);
          z3 = (if ?sack then z2\<lparr>rcv_sack_perm := True, sack_enabled := sack_support z \<and> snd_sack_perm z\<rparr> else z2)
      in if ?ts then z3\<lparr>rcv_initial_ts := True, ts_enabled := ts_support z \<and> snd_initial_ts z, ts_recent := r\<rparr> else z3) ?c1)"
      by blast
    then show thesis
      by (rule that) (use c1 scale m in \<open>auto simp: upd_def Let_def\<close>)
  qed
  show ?thesis
    by (rule exI[of _ ?syn], rule exI[of _ "snd ?w"], rule exI[of _ s1], rule exI[of _ ?synack], rule exI[of _ ?s2], rule exI[of _ c2])
       (use w1 r1 w2 r2 s2 c2 scale m(1) in auto)
qed


lemma handshake_options_agree_witness:
  "\<exists>(s2 :: conn) (c2 :: conn). ws_enabled (st c2) \<and> ws_enabled (st s2) \<and> \<not> sack_enabled (st c2) \<and> \<not> sack_enabled (st s2)
     \<and> snd_mss (st c2) = 536 \<and> snd_mss (st s2) = 536 \<and> snd_wnd_scale (st c2) = rcv_wnd_scale (st s2)"
proof -
  let ?c = "tmp_conn\<lparr>fsm := TCP_S_INIT, st := new_state_variables\<lparr>snd_mss := 1024, ws_support := True, sack_support := True, maxRcvBuffer := 100000\<rparr>\<rparr>"
    and ?s = "tmp_conn\<lparr>fsm := TCP_S_LISTEN, st := new_state_variables\<lparr>snd_mss := 536, ws_support := True, maxRcvBuffer := 800000\<rparr>\<rparr>"
    and ?en = "\<lparr>simTime = 0, issOfTime = 0, simtimeToTS = (\<lambda>_. 0), tsToSimtime = (\<lambda>_. 0), timesG = (\<lambda>t. t), relayMark = None\<rparr> :: env"
  obtain c s :: conn where cs: "c = ?c" "s = ?s" by blast
  have conns: "fsm c = TCP_S_INIT" "fresh_options (st c)" "fsm s = TCP_S_LISTEN" "fresh_options (st s)"
    and v: "ws_support (st c)" "ws_support (st s)" "\<not> sack_support (st s)" "min (snd_mss (st c)) (snd_mss (st s)) = 536"
    by (simp_all add: cs fresh_options_def new_state_variables_def)
  let ?syn = "new_segment\<lparr>synBit := True\<rparr>" and ?synack = "new_segment\<lparr>synBit := True, ackBit := True\<rparr>"
  have segs: "synBit ?syn" "options ?syn = []" "synBit ?synack" "options ?synack = []"
    "headerLength ?syn = TCP_HEADER_OCTETS" "headerLength ?synack = TCP_HEADER_OCTETS"
    by (simp_all add: new_segment_def)
  from handshake_options_agree[OF conns segs, of ?en ?en] show ?thesis
  proof (elim exE conjE, goal_cases)
    case (1 syn' c1 s1 synack' s2 c2)
    then show ?case using v by (intro exI[of _ s2] exI[of _ c2]) simp
  qed
qed

text \<open>
  The header of a SYN or SYN-ACK: writing its options never fails, its length is 20 bytes and the
  options, at most 44.  It is a multiple of four, as the header field demands that counts in words, except
  where the host supports both SACK and time stamps and only one of the two is written, because its peer supports only
  that one: then the padding is missing, and the length is two more than a multiple of four.
\<close>

theorem syn_header_length:
  fixes c :: conn
  defines "s \<equiv> st c"
  defines "sack \<equiv> sack_support s \<and> (rcv_sack_perm s \<or> syn_rexmit c)"
    and "ts \<equiv> ts_support s \<and> (rcv_initial_ts s \<or> syn_rexmit c)"
  assumes "synBit seg" "options seg = []" "fsm c = TCP_S_INIT \<or> fsm c = TCP_S_LISTEN" "\<not> maxRcvBufferChanged s"
    "headerLength seg = TCP_HEADER_OCTETS"
  shows "\<exists>seg' c'. writeHeaderOptions en seg c = Inr (seg', c') \<and> unat (headerLength seg') \<le> 44
    \<and> unat (headerLength seg') = 20 + (\<Sum>opt\<leftarrow>options seg'. unat (opt_length opt))
    \<and> unat (headerLength seg') mod 4 = (if sack_support s \<and> ts_support s \<and> sack \<noteq> ts then 2 else 0)"
proof -
  let ?w = "writeSynOptions en (seg, c)"
  obtain len where w: "writeHeaderOptions en seg c = Inr ((fst ?w)\<lparr>headerLength := len\<rparr>, snd ?w)"
    "unat len = 20 + (\<Sum>opt\<leftarrow>options (fst ?w). unat (opt_length opt))" "unat len \<le> 44"
    using writeHeaderOptions_syn[OF assms(4,5,6) _ refl assms(8), of en] assms(7) unfolding s_def by blast
  have "(\<Sum>opt\<leftarrow>options (fst ?w). unat (opt_length opt)) mod 4 = (if sack_support s \<and> ts_support s \<and> sack \<noteq> ts then 2 else 0)"
    unfolding options_writeSynOptions(1) map_append sum_list_append sack_def ts_def s_def by (auto simp: assms(5))
  moreover have mod4: "(20 + n) mod 4 = n mod 4" for n :: nat by presburger
  ultimately have "unat len mod 4 = (if sack_support s \<and> ts_support s \<and> sack \<noteq> ts then 2 else 0)"
    unfolding w(2) using mod4 by simp
  with w show ?thesis by auto
qed


lemma syn_header_length_witness:
  "\<exists>seg' c'. writeHeaderOptions
      \<lparr>simTime = 0, issOfTime = 0, simtimeToTS = (\<lambda>_. 0), tsToSimtime = (\<lambda>_. 0), timesG = (\<lambda>t. t), relayMark = None\<rparr>
      (new_segment\<lparr>synBit := True, ackBit := True\<rparr>)
      (tmp_conn\<lparr>fsm := TCP_S_LISTEN, st := new_state_variables\<lparr>sack_support := True, ts_support := True, rcv_sack_perm := True\<rparr>\<rparr>)
    = Inr (seg', c') \<and> unat (headerLength seg') mod 4 = 2"
proof -
  let ?c = "tmp_conn\<lparr>fsm := TCP_S_LISTEN, st := new_state_variables\<lparr>sack_support := True, ts_support := True, rcv_sack_perm := True\<rparr>\<rparr>"
    and ?seg = "new_segment\<lparr>synBit := True, ackBit := True\<rparr>"
  have "synBit ?seg" "options ?seg = []" "fsm ?c = TCP_S_INIT \<or> fsm ?c = TCP_S_LISTEN" "\<not> maxRcvBufferChanged (st ?c)"
    "headerLength ?seg = TCP_HEADER_OCTETS"
    by (simp_all add: new_segment_def new_state_variables_def)
  note h = syn_header_length[OF this]
  have "sack_support (st ?c) \<and> ts_support (st ?c) \<and> (sack_support (st ?c) \<and> (rcv_sack_perm (st ?c) \<or> syn_rexmit ?c))
      \<noteq> (ts_support (st ?c) \<and> (rcv_initial_ts (st ?c) \<or> syn_rexmit ?c))"
    by (simp add: new_state_variables_def syn_rexmit_def)
  note cond = this
  let ?en = "\<lparr>simTime = 0, issOfTime = 0, simtimeToTS = (\<lambda>_. 0), tsToSimtime = (\<lambda>_. 0), timesG = (\<lambda>t. t), relayMark = None\<rparr>"
  from h[of ?en] show ?thesis
  proof (elim exE conjE, goal_cases)
    case (1 seg' c')
    note m = 1(4)[unfolded if_P[OF cond]]
    show ?case by (rule exI[of _ seg'], rule exI[of _ c']) (rule conjI[OF 1(1) m])
  qed
qed

end
