(* ===== verification/Tcp_Sending.thy ===== *)
theory Tcp_Sending
  imports Tcp_Window Tcp_Runs
begin

text \<open>
  What sending leaves alone, and what it sends.  \<open>sending\<close> are the variables that no function which sends a segment
  changes, and \<open>cursor\<close> those that only the segment itself moves.  The rules are of the form of those of \<open>Tcp_Frame\<close>.
\<close>

section \<open>What stays\<close>

type_synonym sending_vars =
  "(u32 \<times> u32 \<times> u32 \<times> u32 \<times> u32 \<times> u32) \<times> (u32 \<times> bool \<times> u32 \<times> u32 \<times> bool \<times> bool) \<times> (int \<times> simtime \<times> timer \<times> timer) \<times> snd_queue \<times> rcv_queue \<times> flavour"

definition sending :: "conn \<Rightarrow> sending_vars" where
  "sending c = (let s = st c in
     ((snd_una s, snd_wnd s, snd_mss s, snd_cwnd s, ssthresh s, rcv_nxt s),
      (dupacks s, send_fin s, snd_fin_seq s, recover s, lossRecovery s, nagle_enabled s),
      (rexmit_count s, rexmit_timeout s, rexmitTimer c, persistTimer c), sendQueue c, receiveQueue c, tcpAlgorithm c))"

definition cursor :: "conn \<Rightarrow> tcp_out list \<times> u32 \<times> u32 \<times> bool \<times> ipvx \<times> ipvx \<times> int \<times> int \<times> int" where
  "cursor c = (outs c, snd_nxt (st c), snd_max (st c), afterRto (st c), localAddr c, remoteAddr c, localPort c, remotePort c, connId c)"

lemma sendingD:
  assumes "sending c' = sending c"
  shows "snd_una (st c') = snd_una (st c)" "snd_wnd (st c') = snd_wnd (st c)" "snd_mss (st c') = snd_mss (st c)"
    "snd_cwnd (st c') = snd_cwnd (st c)" "ssthresh (st c') = ssthresh (st c)" "rcv_nxt (st c') = rcv_nxt (st c)"
    "dupacks (st c') = dupacks (st c)" "send_fin (st c') = send_fin (st c)" "snd_fin_seq (st c') = snd_fin_seq (st c)"
    "recover (st c') = recover (st c)" "lossRecovery (st c') = lossRecovery (st c)"
    "rexmit_count (st c') = rexmit_count (st c)" "rexmit_timeout (st c') = rexmit_timeout (st c)" "rexmitTimer c' = rexmitTimer c"
    "sendQueue c' = sendQueue c" "receiveQueue c' = receiveQueue c" "tcpAlgorithm c' = tcpAlgorithm c"
  using assms by (simp_all add: sending_def Let_def)

lemma cursorD:
  assumes "cursor c' = cursor c"
  shows "outs c' = outs c" "snd_nxt (st c') = snd_nxt (st c)" "snd_max (st c') = snd_max (st c)" "afterRto (st c') = afterRto (st c)"
    "localAddr c' = localAddr c" "remoteAddr c' = remoteAddr c" "localPort c' = localPort c" "remotePort c' = remotePort c" "connId c' = connId c"
  using assms by (simp_all add: cursor_def)

text \<open>Both: what the functions that only prepare a segment leave alone.\<close>

definition prep :: "conn \<Rightarrow> sending_vars \<times> tcp_out list \<times> u32 \<times> u32 \<times> bool \<times> ipvx \<times> ipvx \<times> int \<times> int \<times> int" where
  "prep c = (sending c, cursor c)"

lemma prepD: "prep c' = prep c \<Longrightarrow> sending c' = sending c" "prep c' = prep c \<Longrightarrow> cursor c' = cursor c"
  by (simp_all add: prep_def)

lemmas swp = post_bindE post_mapE post_assertE post_if post_let post_option post_prod post_prod2 post_list post_Inl post_Inr
  post_withRexmitQ setTimer_frame scheduleTimeout_frame queue_frames unit_frames

lemmas prep_simps = prep_def sending_def cursor_def upd_def Let_def

lemma updateRcvWnd_prep: "(\<And>w c'. prep c' = prep c \<Longrightarrow> P (w, c')) \<Longrightarrow> post (updateRcvWnd c) P"
  unfolding updateRcvWnd_def by (rule swp | simp add: prep_simps updateRcvQueueVars_def)+

lemma addSacks_prep: "(\<And>seg' c'. prep c' = prep c \<Longrightarrow> P (seg', c')) \<Longrightarrow> post (addSacks seg c) P"
  unfolding addSacks_def by (rule swp | simp add: prep_simps resetSackFlags_def)+

lemma writeDataOptions_prep:
  "(\<And>seg' c'. prep c' = prep (snd sc) \<Longrightarrow> P (seg', c')) \<Longrightarrow> post (writeDataOptions en sc) P"
  unfolding writeDataOptions_def by (rule swp addSacks_prep | simp)+

lemma writeWS_prep: "prep (snd (writeWS sc)) = prep (snd sc)"
  by (cases sc) (simp add: writeWS_def prep_simps)

lemma writeSynOptions_prep: "prep (snd (writeSynOptions en sc)) = prep (snd sc)"
  by (cases sc) (simp add: writeSynOptions_def writeMSS_def writeWS_def writeSackPermitted_def prep_simps split: prod.split)


lemma writeHeaderOptions_prep:
  assumes "\<And>seg' c'. prep c' = prep c \<Longrightarrow> P (seg', c')"
  shows "post (writeHeaderOptions en seg c) P"
  unfolding writeHeaderOptions_def
proof (rule post_bindE, rule post_mono[where Q = "\<lambda>sc. prep (snd sc) = prep c"])
  show "post (if synBit seg \<and> (fsm c = TCP_S_INIT \<or> fsm c = TCP_S_LISTEN \<or> (fsm c = TCP_S_SYN_SENT \<or> fsm c = TCP_S_SYN_RCVD)
                \<and> 0 < syn_rexmit_count (st c))
      then Inr (writeSynOptions en (seg, c))
      else if fsm c \<in> {TCP_S_SYN_SENT, TCP_S_SYN_RCVD, TCP_S_ESTABLISHED, TCP_S_FIN_WAIT_1, TCP_S_FIN_WAIT_2}
           then writeDataOptions en (seg, c) else Inr (seg, c)) (\<lambda>sc. prep (snd sc) = prep c)"
    by (rule swp writeDataOptions_prep | simp add: writeSynOptions_prep)+
next
  fix sc :: "tcp_segment \<times> conn"
  assume i: "prep (snd sc) = prep c"
  show "post (let (seg2, c2) = (if maxRcvBufferChanged (st (snd sc))
                         then (let sc = (if ws_support (st (snd sc)) then writeWS sc else sc)
                               in (fst sc, upd (\<lambda>s. s\<lparr>maxRcvBufferChanged := False\<rparr>) (snd sc)))
                         else sc);
           len = ucast (getOptionsArrayLength seg2) :: u32
       in Inr (if options seg2 \<noteq> []
               then (if len \<le> TCP_OPTIONS_MAX_SIZE
                     then seg2\<lparr>headerLength := TCP_HEADER_OCTETS + ucast len\<rparr>
                     else seg2\<lparr>headerLength := TCP_HEADER_OCTETS, options := []\<rparr>, c2)
               else (seg2, c2))) P"
    unfolding Let_def
  proof (rule post_prod, goal_cases)
    case (1 seg2 c2)
    have u: "prep (upd (maxRcvBufferChanged_update (\<lambda>_. False)) c) = prep c" for c
      by (simp add: prep_simps)
    have "prep c2 = prep c"
      using i arg_cong[OF 1, of "\<lambda>x. prep (snd x)"] by (simp add: u writeWS_prep split: if_splits)
    then show ?case by (simp add: assms)
  qed
qed

lemma noteSent_prep: "(\<And>c'. prep c' = prep c \<Longrightarrow> P c') \<Longrightarrow> post (noteSent f b c) P"
  unfolding noteSent_def by (rule swp | simp add: prep_simps)+

lemma ackSent_sending: "(\<And>c'. prep c' = prep c \<Longrightarrow> P c') \<Longrightarrow> post (ackSent c) P"
  unfolding ackSent_def by (rule swp | simp add: prep_simps)+

section \<open>What a segment with data is\<close>

text \<open>The segment with \<open>n\<close> bytes from \<open>snd_nxt\<close> on, for the window \<open>w\<close> and the options of \<open>temp\<close>.\<close>

definition data_segment :: "conn \<Rightarrow> u32 \<Rightarrow> u16 \<Rightarrow> tcp_segment \<Rightarrow> tcp_segment" where
  "data_segment c n w temp =
     (let s = st c; slice = snd_slice (snd_nxt s) (unat n) (sendQueue c)
      in new_segment\<lparr>srcPort := word_of_int (localPort c), destPort := word_of_int (remotePort c), sequenceNo := snd_nxt s,
           ackNo := rcv_nxt s, headerLength := headerLength temp, ackBit := True,
           finBit := send_fin s \<and> snd_nxt s + n = snd_fin_seq s, window := w, options := options temp,
           payloadLength := ucast n, payloadList := snd slice, byteArray := fst slice\<rparr>)"

lemma requestMoreData_sending:
  "sending (requestMoreData c) = sending c" "snd_nxt (st (requestMoreData c)) = snd_nxt (st c)"
  "snd_max (st (requestMoreData c)) = snd_max (st c)" "sentBytes (st (requestMoreData c)) = sentBytes (st c)"
  "\<exists>is. outs (requestMoreData c) = outs c @ is \<and> (\<forall>i \<in> set is. \<exists>n. i = IndicationToApp TCP_I_SEND_MSG (connId c) n)"
  by (auto simp: requestMoreData_def sendIndicationToApp_def emit_def upd_def sending_def Let_def)


lemma ucast_up_down [simp]: "ucast (ucast x :: u64) = (x :: u32)"
  by transfer simp

lemma getBytesAvailable_span:
  assumes "snd_wf Q" "in_span (sq_begin Q) (sq_end Q) f"
  shows "unat (snd_getBytesAvailable f Q) = soff (sq_begin Q) (sq_end Q) - soff (sq_begin Q) f"
proof -
  have e: "snd_getBufferEndSeq Q = sq_end Q" by (cases Q) (simp_all add: snd_getBufferEndSeq_def)
  have "unat (ucast (sq_end Q - f) :: u64) = unat (sq_end Q - f)"
    using unsigned_less[of "sq_end Q - f"] by (simp add: unsigned_ucast_eq take_bit_nat_eq_self)
  then have "unat (snd_getBytesAvailable f Q) = sndq.available f Q"
    by (simp add: snd_getBytesAvailable_def sndq.available_def e)
  then show ?thesis using sndq.available_span[OF assms] by simp
qed

text \<open>The number of bytes that \<open>sendSegment\<close> takes: what is asked for, what is there, and what the segment size leaves.\<close>

lemma segment_bytes:
  fixes bytes mss len :: u32 and buffered :: u64
  assumes "unat bytes < half" "len < mss" "unat len < half"
  defines "bytes1 \<equiv> (if buffered < ucast bytes then ucast buffered else bytes)"
  shows "unat (if mss < bytes1 + len then mss - len else bytes1) = min (min (unat bytes) (unat buffered)) (unat mss - unat len)"
proof -
  have b: "unat (ucast bytes :: u64) = unat bytes"
    using unsigned_less[of bytes] by (simp add: unsigned_ucast_eq take_bit_nat_eq_self)
  have b1: "unat bytes1 = min (unat bytes) (unat buffered)"
  proof (cases "buffered < ucast bytes")
    case True
    then have "unat buffered < unat bytes" using b by (simp add: word_less_nat_alt)
    moreover from this have "unat (ucast buffered :: u32) = unat buffered"
      using assms(1) by (simp add: unsigned_ucast_eq take_bit_nat_eq_self half_val)
    ultimately show ?thesis using True by (simp add: bytes1_def)
  next
    case False
    then have "unat bytes \<le> unat buffered" using b by (simp add: word_le_nat_alt not_less)
    then show ?thesis using False by (simp add: bytes1_def)
  qed
  have "unat (bytes1 + len) = unat bytes1 + unat len"
    using b1 assms(1,3) by (simp add: unat_word_ariths half_val)
  moreover have "unat (mss - len) = unat mss - unat len"
    using assms(2) by (simp add: unat_sub word_less_nat_alt word_le_nat_alt)
  ultimately show ?thesis using assms(2) b1 by (auto simp: word_less_nat_alt)
qed

lemma sendToIP_sends:
  "(\<And>c'. sending c' = sending c \<Longrightarrow> snd_nxt (st c') = snd_nxt (st c) \<Longrightarrow> snd_max (st c') = snd_max (st c) \<Longrightarrow>
      connId c' = connId c \<Longrightarrow> sentBytes (st c') = ucast (payloadLength seg) \<Longrightarrow>
      outs c' = outs c @ [ToIP (seg\<lparr>srcPort := word_of_int (localPort c), destPort := word_of_int (remotePort c)\<rparr>)
                            (ucast (headerLength seg) + payloadLength seg) (localAddr c) (remoteAddr c)] \<Longrightarrow> P c')
    \<Longrightarrow> post (sendToIP seg c) P"
  unfolding sendToIP_def by (rule swp | simp add: emit_def upd_def sending_def Let_def)+


text \<open>What a call of \<open>sendSegment\<close> for \<open>bytes\<close> bytes has sent, and where it leaves the connection.\<close>

definition segment_sent :: "u32 \<Rightarrow> conn \<Rightarrow> conn \<Rightarrow> bool" where
  "segment_sent bytes c c' \<longleftrightarrow>
     (\<exists>n w temp inds. let optlen = unat (headerLength temp - TCP_HEADER_OCTETS); s = st c; Q = sendQueue c in
        outs c' = outs c @ ToIP (data_segment c n w temp) (ucast (headerLength temp) + ucast n) (localAddr c) (remoteAddr c) # inds
      \<and> (\<forall>i \<in> set inds. \<exists>k. i = IndicationToApp TCP_I_SEND_MSG (connId c) k)
      \<and> optlen < unat (snd_mss s)
      \<and> unat n = min (min (unat bytes) (soff (sq_begin Q) (sq_end Q) - soff (sq_begin Q) (snd_nxt s))) (unat (snd_mss s) - optlen)
      \<and> snd_nxt (st c') = snd_nxt s + n + (if send_fin s \<and> snd_nxt s + n = snd_fin_seq s then 1 else 0)
      \<and> sentBytes (st c') = n \<and> snd_max (st c') = snd_max s \<and> sending c' = sending c)"

lemma sendSegment_sends:
  assumes wf: "snd_wf (sendQueue c)" "in_span (sq_begin (sendQueue c)) (sq_end (sendQueue c)) (snd_nxt (st c))"
    and skip: "\<not> (sack_enabled (st c) \<and> afterRto (st c))" and bytes: "unat bytes < half"
  shows "post (sendSegment en bytes c) (segment_sent bytes c)"
proof -
  have sk: "skipSacked c = Inr c" using skip by (auto simp: skipSacked_def)
  show ?thesis
    unfolding sendSegment_def sk bindE_simps Let_def
  proof (rule post_bindE, rule writeHeaderOptions_prep, unfold prod.case, intro post_assertE post_bindE, rule postI)
    fix temp seg :: tcp_segment and c1 :: conn
    assume p1: "prep c1 = prep c"
    note c1 = sendingD[OF prepD(1)[OF p1]] cursorD[OF prepD(2)[OF p1]]
    let ?len = "ucast (headerLength temp - TCP_HEADER_OCTETS) :: u32"
      and ?buf = "snd_getBytesAvailable (snd_nxt (st c)) (sendQueue c)"
    let ?b1 = "if ?buf < ucast bytes then ucast ?buf else bytes"
    let ?n = "if snd_mss (st c1) < ?b1 + ?len then snd_mss (st c1) - ?len else ?b1"
    assume len: "?len < snd_mss (st c1)"
    have "unat (headerLength temp - TCP_HEADER_OCTETS) < 65536"
      using unsigned_less[of "headerLength temp - TCP_HEADER_OCTETS"] by simp
    then have l: "unat ?len = unat (headerLength temp - TCP_HEADER_OCTETS)" "unat ?len < half"
      by (simp_all add: unsigned_ucast_eq take_bit_nat_eq_self half_val)
    have n: "unat ?n = min (min (unat bytes) (unat ?buf)) (unat (snd_mss (st c1)) - unat ?len)"
      by (rule segment_bytes[OF bytes len l(2)])
    have av: "unat ?buf = soff (sq_begin (sendQueue c)) (sq_end (sendQueue c)) - soff (sq_begin (sendQueue c)) (snd_nxt (st c))"
      by (rule getBytesAvailable_span[OF wf])
    obtain k :: u32 where k: "k = ?n" by blast
    have kb: "soff (sq_begin (sendQueue c)) (snd_nxt (st c)) + unat (ucast k :: u64) \<le> soff (sq_begin (sendQueue c)) (sq_end (sendQueue c))"
      using n av wf(2) unsigned_less[of k] unfolding k[symmetric]
      by (simp add: in_span_def unsigned_ucast_eq take_bit_nat_eq_self)
    have nk: "unat k = min (min (unat bytes) (soff (sq_begin (sendQueue c)) (sq_end (sendQueue c)) - soff (sq_begin (sendQueue c)) (snd_nxt (st c))))
        (unat (snd_mss (st c)) - unat (headerLength temp - TCP_HEADER_OCTETS))"
      using n[folded k, unfolded av l(1)] unfolding c1 .
    have lt: "unat (headerLength temp - TCP_HEADER_OCTETS) < unat (snd_mss (st c))"
      using len unfolding word_less_nat_alt l(1) c1 .
    note cr = snd_create_law[OF wf(1) kb]
    assume "snd_createSegmentWithBytes (snd_nxt (st c1)) (ucast ?n) (sendQueue (upd (\<lambda>s. s\<lparr>sentBytes := ?n\<rparr>) c1)) = Inr seg"
    then have seg: "seg = new_segment\<lparr>sequenceNo := snd_nxt (st c), payloadLength := ucast k,
        payloadList := snd (snd_slice (snd_nxt (st c)) (unat k) (sendQueue c)), byteArray := fst (snd_slice (snd_nxt (st c)) (unat k) (sendQueue c))\<rparr>"
      using cr unsigned_less[of k] unfolding k[symmetric] by (simp add: upd_def c1 unsigned_ucast_eq take_bit_nat_eq_self)
    show "post (bindE (noteSent (snd_nxt (st c1)) ?n (upd (\<lambda>s. s\<lparr>sentBytes := ?n\<rparr>) c1)) (\<lambda>c3. bindE (updateRcvWnd c3)
        (\<lambda>(w, c4). assertE (ucast ?n = payloadLength seg) ''sendSegment: bytes == payloadLength''
           (bindE (sendToIP (seg\<lparr>ackNo := rcv_nxt (st c4), ackBit := True, window := w,
                finBit := send_fin (st c4) \<and> snd_nxt (st c1) + ?n = snd_fin_seq (st c4), options := options temp, headerLength := headerLength temp\<rparr>)
              (upd (\<lambda>s. s\<lparr>snd_nxt := if send_fin (st c4) \<and> snd_nxt (st c1) + ?n = snd_fin_seq (st c4) then snd_fin_seq s + 1 else snd_nxt (st c1) + ?n,
                  afterRto := if afterRto s \<and> seqGE (snd_nxt (st c1) + ?n) (snd_max s) then False else afterRto s\<rparr>) c4))
              (\<lambda>c6. Inr (requestMoreData c6)))))) (segment_sent bytes c)"
      unfolding k[symmetric]
    proof (rule post_bindE, rule noteSent_prep, rule post_bindE, rule updateRcvWnd_prep, unfold prod.case, intro post_assertE post_bindE, rule sendToIP_sends, rule post_Inr, goal_cases)
      case (1 c3 w c4 c6)
      let ?fin = "send_fin (st c4) \<and> snd_nxt (st c1) + k = snd_fin_seq (st c4)"
      let ?seg = "seg\<lparr>ackNo := rcv_nxt (st c4), ackBit := True, window := w, finBit := ?fin, options := options temp, headerLength := headerLength temp\<rparr>"
      let ?c5 = "upd (\<lambda>s. s\<lparr>snd_nxt := if ?fin then snd_fin_seq s + 1 else snd_nxt (st c1) + k,
                  afterRto := if afterRto s \<and> seqGE (snd_nxt (st c1) + k) (snd_max s) then False else afterRto s\<rparr>) c4"
      note p3 = 1(1) and p4 = 1(2)
      have c6: "sending c6 = sending ?c5" "snd_nxt (st c6) = snd_nxt (st ?c5)" "snd_max (st c6) = snd_max (st ?c5)" "connId c6 = connId ?c5"
          "sentBytes (st c6) = ucast (payloadLength ?seg)"
          "outs c6 = outs ?c5 @ [ToIP (?seg\<lparr>srcPort := word_of_int (localPort ?c5), destPort := word_of_int (remotePort ?c5)\<rparr>)
                            (ucast (headerLength ?seg) + payloadLength ?seg) (localAddr ?c5) (remoteAddr ?c5)]"
        using 1(4-9) by blast+
      have "prep (upd (\<lambda>s. s\<lparr>sentBytes := k\<rparr>) c1) = prep c1" by (simp add: prep_simps)
      with p1 p3 p4 have p: "prep c4 = prep c" by simp
      note c4 = sendingD[OF prepD(1)[OF p]] cursorD[OF prepD(2)[OF p]]
      have s5: "sending ?c5 = sending c4" by (simp add: prep_simps)
      then have s6: "sending c6 = sending c" using c6(1) prepD(1)[OF p] by simp
      obtain inds where is': "outs (requestMoreData c6) = outs c6 @ inds" "\<forall>i \<in> set inds. \<exists>n. i = IndicationToApp TCP_I_SEND_MSG (connId c6) n"
        using requestMoreData_sending(5) by blast
      have seg_is: "?seg\<lparr>srcPort := word_of_int (localPort ?c5), destPort := word_of_int (remotePort ?c5)\<rparr> = data_segment c k w temp"
        by (simp add: seg data_segment_def Let_def upd_def c4 c1 new_segment_def)
      have pl: "payloadLength ?seg = ucast k" "headerLength ?seg = headerLength temp" by (simp_all add: seg)
      have adr: "localAddr ?c5 = localAddr c" "remoteAddr ?c5 = remoteAddr c" "connId ?c5 = connId c" "outs ?c5 = outs c"
        "snd_max (st ?c5) = snd_max (st c)"
        by (simp_all add: upd_def c4)
      have o: "outs (requestMoreData c6) = outs c @ ToIP (data_segment c k w temp) (ucast (headerLength temp) + ucast k) (localAddr c) (remoteAddr c) # inds"
        unfolding is'(1) c6(6) seg_is pl adr by simp
      have x: "snd_nxt (st (requestMoreData c6)) = snd_nxt (st c) + k + (if send_fin (st c) \<and> snd_nxt (st c) + k = snd_fin_seq (st c) then 1 else 0)"
        unfolding requestMoreData_sending(2) c6(2) by (simp add: upd_def c4 c1)
      have y: "sentBytes (st (requestMoreData c6)) = k" "snd_max (st (requestMoreData c6)) = snd_max (st c)" "sending (requestMoreData c6) = sending c"
        unfolding requestMoreData_sending c6(3,5) pl s6 adr by simp_all
      have "\<forall>i \<in> set inds. \<exists>k. i = IndicationToApp TCP_I_SEND_MSG (connId c) k"
        using is'(2) unfolding c6(4) adr .
      with o x y lt nk show ?case
        unfolding segment_sent_def Let_def by blast
    qed
  qed
qed


section \<open>Sending cannot fail\<close>

lemma addOption_headerLength [simp]: "headerLength (addOption k l vs seg) = headerLength seg"
  by (simp add: addOption_def)

lemma addNOPs_headerLength [simp]: "headerLength (addNOPs n seg) = headerLength seg"
  by (induction n) (simp_all add: addNOPs_def)

lemma header_with_options:
  assumes "headerLength seg = TCP_HEADER_OCTETS"
  defines "len \<equiv> ucast (getOptionsArrayLength seg) :: u32"
  defines "seg' \<equiv> if options seg \<noteq> [] then (if len \<le> TCP_OPTIONS_MAX_SIZE
                     then seg\<lparr>headerLength := TCP_HEADER_OCTETS + ucast len\<rparr>
                     else seg\<lparr>headerLength := TCP_HEADER_OCTETS, options := []\<rparr>)
               else seg"
  shows "TCP_HEADER_OCTETS \<le> headerLength seg'" "headerLength seg' \<le> 60"
proof -
  have "headerLength seg' \<in> {20, 20 + (ucast len :: u16)} \<and> (headerLength seg' = 20 \<or> unat len \<le> 40)"
    using assms(1) by (simp add: seg'_def TCP_HEADER_OCTETS_def TCP_OPTIONS_MAX_SIZE_def word_le_nat_alt)
  moreover have "unat (20 + (ucast len :: u16)) = 20 + unat len" if "unat len \<le> 40"
  proof -
    have "unat (ucast len :: u16) = unat len" using that by (simp add: unsigned_ucast_eq take_bit_nat_eq_self)
    then show ?thesis using that by (simp add: unat_word_ariths)
  qed
  ultimately show "TCP_HEADER_OCTETS \<le> headerLength seg'" "headerLength seg' \<le> 60"
    by (auto simp: TCP_HEADER_OCTETS_def word_le_nat_alt)
qed

lemma writeHeaderOptions_total:
  assumes "\<not> sack_enabled (st c)" "\<not> synBit seg" "headerLength seg = TCP_HEADER_OCTETS"
  shows "\<exists>seg' c'. writeHeaderOptions en seg c = Inr (seg', c') \<and> TCP_HEADER_OCTETS \<le> headerLength seg'
     \<and> headerLength seg' \<le> 60 \<and> \<not> sack_enabled (st c') \<and> maxRcvBuffer (st c') = maxRcvBuffer (st c)
     \<and> receiveQueue c' = receiveQueue c"
proof -
  have data: "\<exists>seg1. writeDataOptions en (seg, c) = Inr (seg1, c) \<and> headerLength seg1 = TCP_HEADER_OCTETS"
    using assms by (simp add: writeDataOptions_def Let_def writeTS_def)
  obtain seg1 where w: "(if synBit seg \<and> (fsm c = TCP_S_INIT \<or> fsm c = TCP_S_LISTEN
                 \<or> ((fsm c = TCP_S_SYN_SENT \<or> fsm c = TCP_S_SYN_RCVD) \<and> 0 < syn_rexmit_count (st c)))
            then Inr (writeSynOptions en (seg, c))
            else if fsm c \<in> {TCP_S_SYN_SENT, TCP_S_SYN_RCVD, TCP_S_ESTABLISHED, TCP_S_FIN_WAIT_1, TCP_S_FIN_WAIT_2}
            then writeDataOptions en (seg, c)
            else Inr (seg, c)) = Inr (seg1, c)" and h1: "headerLength seg1 = TCP_HEADER_OCTETS"
    using data assms by (cases "fsm c \<in> {TCP_S_SYN_SENT, TCP_S_SYN_RCVD, TCP_S_ESTABLISHED, TCP_S_FIN_WAIT_1, TCP_S_FIN_WAIT_2}") (fastforce, simp)
  obtain seg2 c2 where s2: "(if maxRcvBufferChanged (st (snd (seg1, c)))
                         then (let sc = (if ws_support (st (snd (seg1, c))) then writeWS (seg1, c) else (seg1, c))
                               in (fst sc, upd (\<lambda>s. s\<lparr>maxRcvBufferChanged := False\<rparr>) (snd sc)))
                         else (seg1, c)) = (seg2, c2)" by fastforce
  have 2: "headerLength seg2 = TCP_HEADER_OCTETS" "\<not> sack_enabled (st c2)" "maxRcvBuffer (st c2) = maxRcvBuffer (st c)"
    "receiveQueue c2 = receiveQueue c"
    using s2 h1 assms(1) by (auto simp: upd_def writeWS_def Let_def split: if_splits)
  show ?thesis
    unfolding writeHeaderOptions_def w bindE_simps Let_def s2[unfolded Let_def] prod.case
    using header_with_options[OF 2(1)] 2 by (cases "options seg2 = []"; cases "(ucast (getOptionsArrayLength seg2) :: u32) \<le> TCP_OPTIONS_MAX_SIZE") simp_all
qed

lemma sendToIP_total:
  assumes "TCP_HEADER_OCTETS \<le> headerLength seg" "headerLength seg \<le> 60"
  shows "\<exists>c'. sendToIP seg c = Inr c'"
proof -
  have "(ucast (headerLength seg) :: u32) \<le> TCP_MAX_HEADER_OCTETS"
    using assms(2) by (simp add: TCP_MAX_HEADER_OCTETS_def word_le_nat_alt unsigned_ucast_eq take_bit_nat_eq_self)
  then show ?thesis using assms(1) by (simp add: sendToIP_def Let_def)
qed

lemma send_then_request_total:
  assumes "TCP_HEADER_OCTETS \<le> headerLength seg" "headerLength seg \<le> 60"
  shows "\<exists>c'. bindE (sendToIP seg c) (\<lambda>c6. Inr (requestMoreData c6)) = Inr c'"
  using sendToIP_total[OF assms, of c] by auto

text \<open>
  C3.  On a connection without SACK, whose maximal segment size is above the 40 bytes that the options can take,
  \<open>sendSegment\<close> sends exactly one segment: the next bytes of the stream from \<open>snd_nxt\<close> on, as many as were asked
  for, are in the queue and fit into the maximal segment size beside the options, with the FIN when they end at it;
  \<open>snd_nxt\<close> moves behind what was sent, and the windows, the queues and the timers stay as they are.  The other conditions
  are the invariant of the send queue, that \<open>snd_nxt\<close> lies in its span, and that fewer than \<open>2^31\<close> bytes are
  asked for and fewer than \<open>2^30\<close> are free in the receive buffer.  With SACK the routine first skips what the peer has, and may
  send less; with a smaller size the unsigned difference of size and options wraps.
\<close>

theorem sendSegment_exact:
  assumes "snd_wf (sendQueue c)" "in_span (sq_begin (sendQueue c)) (sq_end (sendQueue c)) (snd_nxt (st c))"
    "\<not> sack_enabled (st c)" "unat bytes < half" "40 < snd_mss (st c)"
    "unat (rcv_getAmountOfFreeBytes (maxRcvBuffer (st c)) (receiveQueue c)) < 2 ^ 30"
  shows "\<exists>c'. sendSegment en bytes c = Inr c' \<and> segment_sent bytes c c'"
proof -
  have sk: "skipSacked c = Inr c" using assms(3) by (simp add: skipSacked_def)
  obtain temp c1 where h: "writeHeaderOptions en (new_segment\<lparr>ackBit := True\<rparr>) c = Inr (temp, c1)"
      "TCP_HEADER_OCTETS \<le> headerLength temp" "headerLength temp \<le> 60" "\<not> sack_enabled (st c1)"
      "maxRcvBuffer (st c1) = maxRcvBuffer (st c)" "receiveQueue c1 = receiveQueue c"
    using writeHeaderOptions_total[of c "new_segment\<lparr>ackBit := True\<rparr>" en] assms(3) by (auto simp: new_segment_def)
  have "prep c1 = prep c"
    using writeHeaderOptions_prep[of c "\<lambda>sc. prep (snd sc) = prep c" en "new_segment\<lparr>ackBit := True\<rparr>"] h(1) by (simp add: post_def)
  note c1 = sendingD[OF prepD(1)[OF this]] cursorD[OF prepD(2)[OF this]]
  define L where "L = (ucast (headerLength temp - TCP_HEADER_OCTETS) :: u32)"
  define n where "n = (let buffered = snd_getBytesAvailable (snd_nxt (st c)) (sendQueue c);
      bytes1 = (if buffered < ucast bytes then ucast buffered else bytes)
    in if snd_mss (st c) < bytes1 + L then snd_mss (st c) - L else bytes1)"
  have Ln: "unat L \<le> 40"
    using h(2,3) by (simp add: L_def unsigned_ucast_eq take_bit_nat_eq_self TCP_HEADER_OCTETS_def word_le_nat_alt unat_sub)
  then have L: "L < snd_mss (st c)" "unat L < half"
    using assms(5) by (simp_all add: word_less_nat_alt half_val)
  have "unat n = min (min (unat bytes) (unat (snd_getBytesAvailable (snd_nxt (st c)) (sendQueue c)))) (unat (snd_mss (st c)) - unat L)"
    unfolding n_def Let_def by (rule segment_bytes[OF assms(4) L])
  then have n: "soff (sq_begin (sendQueue c)) (snd_nxt (st c)) + unat (ucast n :: u64) \<le> soff (sq_begin (sendQueue c)) (sq_end (sendQueue c))"
    using getBytesAvailable_span[OF assms(1,2)] assms(2) unsigned_less[of n]
    by (simp add: in_span_def unsigned_ucast_eq take_bit_nat_eq_self)
  obtain w c2 where w: "updateRcvWnd (upd (\<lambda>s. s\<lparr>sentBytes := n\<rparr>) c1) = Inr (w, c2)"
    using updateRcvWnd_run[of "upd (\<lambda>s. s\<lparr>sentBytes := n\<rparr>) c1"] assms(6) by (auto simp: upd_def h)
  have "\<exists>c'. sendSegment en bytes c = Inr c'"
    unfolding sendSegment_def sk bindE_simps h(1) prod.case Let_def L_def[symmetric] c1 n_def[unfolded Let_def, symmetric]
    using send_then_request_total h(2,3) L(1) snd_create_law[OF assms(1) n] w h(4)
    by (simp add: noteSent_def upd_def c1)
  then show ?thesis using sendSegment_sends[OF assms(1,2) _ assms(4), of en] assms(3) by (auto simp: post_def)
qed

lemma sendSegment_exact_witness:
  "\<exists>c'. sendSegment ex_env 300 (tmp_conn\<lparr>st := new_state_variables\<lparr>snd_nxt := 150, snd_mss := 536, maxRcvBuffer := 14336\<rparr>,
            sendQueue := VirtualDataSendQueue 100 1100\<rparr>) = Inr c'
     \<and> segment_sent 300 (tmp_conn\<lparr>st := new_state_variables\<lparr>snd_nxt := 150, snd_mss := 536, maxRcvBuffer := 14336\<rparr>,
            sendQueue := VirtualDataSendQueue 100 1100\<rparr>) c'"
  by (rule sendSegment_exact)
    (simp_all add: tmp_conn_def new_state_variables_def snd_wf_def in_span_def soff_def half_val rcv_getAmountOfFreeBytes_def
      rcvq_getAmountOfFreeBytes_def rcvq_getAmountOfBufferedBytes_def rcvq_init_def)

end
