(* ===== verification/Ip_Address.thy ===== *)
theory Ip_Address
  imports Prelude
begin

unbundle bit_operations_syntax

text \<open>
  \<open>IPv4Address\<close>, \<open>networklayer/contract/IPv4Address.h\<close> and \<open>IPv4Address.cc\<close>: an address is its 32 bit integer.  The text form is
  a list of characters; \<open>parseIPAddress\<close> walks along it like the pointer of the code, and the number that it reads
  is unbounded (the code reads into an \<open>int\<close>).
\<close>

section \<open>Addresses\<close>

type_synonym ip4 = u32

definition UNSPECIFIED_ADDRESS :: ip4 where "UNSPECIFIED_ADDRESS = 0"
definition ALLONES_ADDRESS :: ip4 where "ALLONES_ADDRESS = 0xFFFFFFFF"

definition ip4_set :: "u32 \<Rightarrow> u32 \<Rightarrow> u32 \<Rightarrow> u32 \<Rightarrow> ip4" where
  "ip4_set i0 i1 i2 i3 = push_bit 24 i0 OR push_bit 16 i1 OR push_bit 8 i2 OR i3"

definition LOOPBACK_ADDRESS :: ip4 where "LOOPBACK_ADDRESS = ip4_set 127 0 0 1"
definition LOOPBACK_NETMASK :: ip4 where "LOOPBACK_NETMASK = ip4_set 255 0 0 0"
definition ALL_HOSTS_MCAST :: ip4 where "ALL_HOSTS_MCAST = ip4_set 224 0 0 1"
definition ALL_ROUTERS_MCAST :: ip4 where "ALL_ROUTERS_MCAST = ip4_set 224 0 0 2"

definition ip4_isUnspecified :: "ip4 \<Rightarrow> bool" where "ip4_isUnspecified a \<longleftrightarrow> a = 0"
definition doAnd :: "ip4 \<Rightarrow> ip4 \<Rightarrow> ip4" where "doAnd a b = a AND b"
definition getDByte :: "nat \<Rightarrow> ip4 \<Rightarrow> u32" where "getDByte i a = drop_bit ((3 - i) * 8) a AND 0xFF"
definition isLimitedBroadcastAddress :: "ip4 \<Rightarrow> bool" where "isLimitedBroadcastAddress a \<longleftrightarrow> a = 0xFFFFFFFF"
definition isMulticast :: "ip4 \<Rightarrow> bool" where "isMulticast a \<longleftrightarrow> a AND 0xF0000000 = 0xE0000000"
definition isUnicast :: "ip4 \<Rightarrow> bool" where "isUnicast a \<longleftrightarrow> \<not> isMulticast a \<and> \<not> isLimitedBroadcastAddress a"
definition isLinkLocalMulticast :: "ip4 \<Rightarrow> bool" where "isLinkLocalMulticast a \<longleftrightarrow> a AND 0xFFFFFF00 = 0xE0000000"

definition maskedAddrAreEqual :: "ip4 \<Rightarrow> ip4 \<Rightarrow> ip4 \<Rightarrow> bool" where
  "maskedAddrAreEqual a b m \<longleftrightarrow> (a XOR b) AND m = 0"

definition makeBroadcastAddress :: "ip4 \<Rightarrow> ip4 \<Rightarrow> ip4" where
  "makeBroadcastAddress netmask a = a OR NOT netmask"

section \<open>Netmasks\<close>

text \<open>\<open>_makeNetmask\<close>; the shift count is between 0 and 31 where it is used.\<close>

definition makeNetmask_raw :: "int \<Rightarrow> ip4" where
  "makeNetmask_raw n = (if n \<ge> 32 then 0xFFFFFFFF else NOT (drop_bit (nat n) 0xFFFFFFFF))"

definition makeNetmask :: "int \<Rightarrow> ip4 res" where
  "makeNetmask n = (if n < 0 \<or> n > 32 then Inl (RuntimeError ''IPv4Address: wrong netmask length'') else Inr (makeNetmask_raw n))"

text \<open>The loop looks for the lowest bit that is set.\<close>

fun netmask_length_loop :: "nat \<Rightarrow> nat \<Rightarrow> ip4 \<Rightarrow> int" where
  "netmask_length_loop 0 i a = 0"
| "netmask_length_loop (Suc n) i a = (if a AND push_bit i 1 \<noteq> 0 then 32 - int i else netmask_length_loop n (Suc i) a)"

definition getNetmaskLength :: "ip4 \<Rightarrow> int" where
  "getNetmaskLength a = netmask_length_loop 32 0 a"

definition isValidNetmask :: "ip4 \<Rightarrow> bool" where
  "isValidNetmask a \<longleftrightarrow> a = makeNetmask_raw (getNetmaskLength a)"

definition prefixMatches :: "ip4 \<Rightarrow> int \<Rightarrow> ip4 \<Rightarrow> bool" where
  "prefixMatches other n a =
     (if n < 1 then True else if n > 31 then a = other
      else a AND makeNetmask_raw n = other AND makeNetmask_raw n)"

fun matching_bits_loop :: "nat \<Rightarrow> u32 \<Rightarrow> int" where
  "matching_bits_loop 0 r = 32"
| "matching_bits_loop (Suc i) r = (if r AND push_bit i 1 \<noteq> 0 then 31 - int i else matching_bits_loop i r)"

definition getNumMatchingPrefixBits :: "ip4 \<Rightarrow> ip4 \<Rightarrow> int" where
  "getNumMatchingPrefixBits to_cmp a = matching_bits_loop 32 (a XOR to_cmp)"

section \<open>Classes of addresses\<close>

definition getIPClass :: "ip4 \<Rightarrow> char" where
  "getIPClass a = (let buf = getDByte 0 a in
     if buf AND 0x80 = 0 then CHR ''A'' else if buf AND 0xC0 = 0x80 then CHR ''B''
     else if buf AND 0xE0 = 0xC0 then CHR ''C'' else if buf AND 0xF0 = 0xE0 then CHR ''D''
     else if buf AND 0xF8 = 0xF0 then CHR ''E'' else CHR ''?'')"

datatype address_category =
  UNSPECIFIED | THIS_NETWORK | LOOPBACK | MULTICAST | BROADCAST | IETF | TEST_NET | IPv6_TO_IPv4_RELAY | BENCHMARK
  | RESERVED | LINKLOCAL | PRIVATE_NETWORK | GLOBAL

definition getAddressCategory :: "ip4 \<Rightarrow> address_category" where
  "getAddressCategory a = (let addr24 = a AND 0xFFFFFF00 in
     if ip4_isUnspecified a then UNSPECIFIED
     else if a AND 0xFF000000 = 0 then THIS_NETWORK
     else if a AND 0xFF000000 = 0x7F000000 then LOOPBACK
     else if isMulticast a then MULTICAST
     else if a = 0xFFFFFFFF then BROADCAST
     else if addr24 = 0xC0000000 then IETF
     else if addr24 = 0xC0000200 \<or> addr24 = 0xC6336400 \<or> addr24 = 0xCB007100 then TEST_NET
     else if addr24 = 0xC0586300 then IPv6_TO_IPv4_RELAY
     else if a AND 0xFFFE0000 = 0xC6120000 then BENCHMARK
     else if a AND 0xF0000000 = 0xF0000000 then RESERVED
     else if a AND 0xFFFF0000 = 0xA9FE0000 then LINKLOCAL
     else if a AND 0xFF000000 = 0x0A000000 \<or> a AND 0xFFF00000 = 0xAC100000 \<or> a AND 0xFFFF0000 = 0xC0A80000
     then PRIVATE_NETWORK else GLOBAL)"

definition getNetwork :: "ip4 \<Rightarrow> ip4" where
  "getNetwork a = (let c = getIPClass a in
     if c = CHR ''A'' then ip4_set (getDByte 0 a) 0 0 0
     else if c = CHR ''B'' then ip4_set (getDByte 0 a) (getDByte 1 a) 0 0
     else if c = CHR ''C'' then ip4_set (getDByte 0 a) (getDByte 1 a) (getDByte 2 a) 0 else 0)"

definition getNetworkMask :: "ip4 \<Rightarrow> ip4" where
  "getNetworkMask a = (let c = getIPClass a in
     if c = CHR ''A'' then ip4_set 255 0 0 0
     else if c = CHR ''B'' then ip4_set 255 255 0 0
     else if c = CHR ''C'' then ip4_set 255 255 255 0 else 0)"

definition isNetwork :: "ip4 \<Rightarrow> ip4 \<Rightarrow> bool" where
  "isNetwork toCmp a = (let netmask = getNetworkMask a in
     if ip4_isUnspecified netmask then False else maskedAddrAreEqual a toCmp netmask)"

section \<open>Text form\<close>

text \<open>The value of a digit, and \<open>sprintf(\"%u\")\<close>.\<close>

definition is_digit :: "char \<Rightarrow> bool" where
  "is_digit c \<longleftrightarrow> of_char c \<ge> (48 :: nat) \<and> of_char c \<le> (57 :: nat)"

fun decimal :: "nat \<Rightarrow> string" where
  "decimal n = (if n < 10 then [char_of (48 + n)] else decimal (n div 10) @ [char_of (48 + n mod 10)])"

definition ip4_str :: "bool \<Rightarrow> ip4 \<Rightarrow> string" where
  "ip4_str printUnspec a =
     (if printUnspec \<and> ip4_isUnspecified a then ''<unspec>''
      else decimal (unat (drop_bit 24 a AND 255)) @ ''.'' @ decimal (unat (drop_bit 16 a AND 255)) @ ''.''
           @ decimal (unat (drop_bit 8 a AND 255)) @ ''.'' @ decimal (unat (a AND 255)))"

fun read_number :: "nat \<Rightarrow> string \<Rightarrow> nat \<times> string" where
  "read_number num [] = (num, [])"
| "read_number num (c # s) = (if is_digit c then read_number (10 * num + (of_char c - 48)) s else (num, c # s))"

lemma read_number_length: "length (snd (read_number n s)) \<le> length s"
  by (induction n s rule: read_number.induct) auto

text \<open>The loop of \<open>parseIPAddress\<close>: \<open>bs\<close> are the bytes that have been stored.  \<open>None\<close> is the result false.\<close>

function parse_bytes :: "nat list \<Rightarrow> string \<Rightarrow> nat list option" where
  "parse_bytes bs s =
     (if s = [] \<or> \<not> is_digit (hd s) then None
      else let (num, s1) = read_number 0 s in
        if num > 255 then None
        else let bs1 = bs @ [num] in
          if s1 = [] then (if length bs1 = 4 then Some bs1 else None)
          else if hd s1 \<noteq> CHR ''.'' then None
          else if length bs1 = 4 then None
          else parse_bytes bs1 (tl s1))"
  by auto
termination
proof (relation "measure (length \<circ> snd)", simp, goal_cases)
  case (1 bs s x num s1 bs1)
  then have "length s1 \<le> length s" "s1 \<noteq> []"
    using read_number_length[of 0 s] by (metis snd_conv, simp)
  then show ?case by (cases s1) auto
qed

definition parseIPAddress :: "string \<Rightarrow> nat list option" where
  "parseIPAddress text = (if text = ''<unspec>'' then Some [0, 0, 0, 0] else parse_bytes [] text)"

definition ip4_parse :: "string \<Rightarrow> ip4 res" where
  "ip4_parse text = (case parseIPAddress text of
     Some [a, b, c, d] \<Rightarrow> Inr (ip4_set (of_nat a) (of_nat b) (of_nat c) (of_nat d))
   | _ \<Rightarrow> Inl (RuntimeError ''Invalid IPv4 address string''))"

definition isWellFormed :: "string \<Rightarrow> bool" where
  "isWellFormed text \<longleftrightarrow> parseIPAddress text \<noteq> None"


section \<open>Netmasks are prefixes\<close>

lemma ones_mask: "(0xFFFFFFFF :: u32) = mask 32"
  by (simp add: mask_eq_exp_minus_1)

lemma bit_netmask: "0 \<le> n \<Longrightarrow> bit (makeNetmask_raw n) i \<longleftrightarrow> i < 32 \<and> 32 \<le> int i + n"
  unfolding makeNetmask_raw_def ones_mask by (auto simp: bit_not_iff bit_drop_bit_eq bit_mask_iff)

lemma single_bit: "(a :: u32) AND push_bit i 1 \<noteq> 0 \<longleftrightarrow> bit a i"
  by (simp add: push_bit_of_1 and_exp_eq_0_iff_not_bit)

lemma netmask_length_loop_skip:
  "(\<And>j. i \<le> j \<Longrightarrow> j < i + k \<Longrightarrow> \<not> bit a j) \<Longrightarrow> i + k \<le> 32 \<Longrightarrow> netmask_length_loop (k + m) i a = netmask_length_loop m (i + k) a"
proof (induction k arbitrary: i)
  case (Suc k)
  have "a AND push_bit i 1 = 0" using single_bit[of a i] Suc.prems(1)[of i] by auto
  then show ?case using Suc.IH[of "Suc i"] Suc.prems by simp
qed simp

lemma getNetmaskLength_netmask: "0 \<le> n \<Longrightarrow> n \<le> 32 \<Longrightarrow> getNetmaskLength (makeNetmask_raw n) = n"
proof -
  assume n: "0 \<le> n" "n \<le> 32"
  define k where "k = nat (32 - n)"
  have "netmask_length_loop (k + nat n) 0 (makeNetmask_raw n) = netmask_length_loop (nat n) (0 + k) (makeNetmask_raw n)"
    by (rule netmask_length_loop_skip) (use n in \<open>auto simp: bit_netmask k_def\<close>)
  moreover have "k + nat n = 32" using n by (simp add: k_def)
  moreover have "netmask_length_loop (nat n) k (makeNetmask_raw n) = n"
  proof (cases "nat n")
    case (Suc m)
    then have "makeNetmask_raw n AND push_bit k 1 \<noteq> 0"
      using n unfolding single_bit by (simp add: bit_netmask k_def)
    then show ?thesis using n by (simp add: Suc k_def)
  qed (use n in simp)
  ultimately show ?thesis by (simp add: getNetmaskLength_def)
qed

lemma netmask_length_range: "0 \<le> getNetmaskLength a" "getNetmaskLength a \<le> 32"
proof -
  have "i + n = 32 \<Longrightarrow> 0 \<le> netmask_length_loop n i a \<and> netmask_length_loop n i a \<le> 32" for n i
    by (induction n i a rule: netmask_length_loop.induct) auto
  from this[of 0 32] show "0 \<le> getNetmaskLength a" "getNetmaskLength a \<le> 32" by (simp_all add: getNetmaskLength_def)
qed

lemma isValidNetmask_iff: "isValidNetmask a \<longleftrightarrow> (\<exists>n \<in> {0..32}. a = makeNetmask_raw n)"
  using netmask_length_range[of a] by (auto simp: isValidNetmask_def getNetmaskLength_netmask)

text \<open>A longer mask is a greater number.\<close>

lemma netmask_eq: "0 \<le> n \<Longrightarrow> n \<le> 32 \<Longrightarrow> makeNetmask_raw n = NOT (mask (nat (32 - n)))"
  by (rule bit_eqI) (auto simp: bit_netmask bit_not_iff bit_mask_iff)

lemma unat_netmask: "0 \<le> n \<Longrightarrow> n \<le> 32 \<Longrightarrow> unat (makeNetmask_raw n) + 2 ^ nat (32 - n) = 2 ^ 32"
proof -
  assume n: "0 \<le> n" "n \<le> 32"
  have "unat (mask (nat (32 - n)) :: u32) = mask (nat (32 - n))"
    by (rule bit_eqI) (use n in \<open>auto simp: bit_unsigned_iff bit_mask_iff\<close>)
  moreover have "unat (NOT x :: u32) = 2 ^ 32 - 1 - unat x" for x
  proof -
    have "NOT x = -1 - x" by (simp add: not_eq_complement)
    then show ?thesis by (simp only: unat_sub[OF word_n1_ge]) (simp add: unsigned_minus_1_eq_mask mask_eq_exp_minus_1)
  qed
  ultimately show ?thesis
    using n power_increasing[of "nat (32 - n)" 32 "2 :: nat"] by (simp add: netmask_eq mask_eq_exp_minus_1)
qed

lemma netmask_less_iff:
  assumes "m \<in> {0..32}" "n \<in> {0..32}"
  shows "makeNetmask_raw m < makeNetmask_raw n \<longleftrightarrow> m < n"
proof -
  have "2 ^ nat (32 - n) < (2 :: nat) ^ nat (32 - m) \<longleftrightarrow> m < n"
    using assms by auto
  moreover have "unat (makeNetmask_raw m) + 2 ^ nat (32 - m) = 2 ^ 32" "unat (makeNetmask_raw n) + 2 ^ nat (32 - n) = 2 ^ 32"
    using assms by (simp_all only: atLeastAtMost_iff unat_netmask)
  ultimately show ?thesis unfolding word_less_nat_alt by linarith
qed

lemma valid_less_iff:
  "isValidNetmask a \<Longrightarrow> isValidNetmask b \<Longrightarrow> a < b \<longleftrightarrow> getNetmaskLength a < getNetmaskLength b"
  unfolding isValidNetmask_iff by (auto simp: netmask_less_iff getNetmaskLength_netmask)

text \<open>To match a prefix is to agree on its bits.\<close>

lemma masked_iff_drop_bit:
  assumes "0 \<le> n" "n \<le> 32"
  shows "maskedAddrAreEqual a b (makeNetmask_raw n) \<longleftrightarrow> drop_bit (nat (32 - n)) a = drop_bit (nat (32 - n)) b"
proof -
  have "maskedAddrAreEqual a b (makeNetmask_raw n) \<longleftrightarrow> (\<forall>i < 32. 32 \<le> int i + n \<longrightarrow> bit a i = bit b i)"
    unfolding maskedAddrAreEqual_def using assms by (auto simp: bit_eq_iff[of "(a XOR b) AND x" for x] bit_and_iff bit_xor_iff bit_netmask)
  also have "\<dots> \<longleftrightarrow> (\<forall>j. bit a (nat (32 - n) + j) = bit b (nat (32 - n) + j))"
  proof (rule iffI, goal_cases)
    case 1
    show ?case
    proof
      fix j
      show "bit a (nat (32 - n) + j) = bit b (nat (32 - n) + j)"
      using 1 assms bit_imp_le_length[of a "nat (32 - n) + j"] bit_imp_le_length[of b "nat (32 - n) + j"]
      by (cases "nat (32 - n) + j < 32") auto
    qed
  next
    case 2
    show ?case
    proof (intro allI impI)
    fix i assume *: "i < 32" "32 \<le> int i + n"
    have "nat (32 - n) + (i - nat (32 - n)) = i" using *(2) assms by linarith
    then show "bit a i = bit b i" using 2[rule_format, of "i - nat (32 - n)"] by simp
    qed
  qed
  also have "\<dots> \<longleftrightarrow> drop_bit (nat (32 - n)) a = drop_bit (nat (32 - n)) b"
  proof (rule iffI)
    assume *: "\<forall>j. bit a (nat (32 - n) + j) = bit b (nat (32 - n) + j)"
    show "drop_bit (nat (32 - n)) a = drop_bit (nat (32 - n)) b"
      by (rule bit_word_eqI) (simp add: bit_drop_bit_eq *)
  next
    assume "drop_bit (nat (32 - n)) a = drop_bit (nat (32 - n)) b"
    then have "bit (drop_bit (nat (32 - n)) a) j = bit (drop_bit (nat (32 - n)) b) j" for j by simp
    then show "\<forall>j. bit a (nat (32 - n) + j) = bit b (nat (32 - n) + j)" by (simp add: bit_drop_bit_eq)
  qed
  finally show ?thesis .
qed


section \<open>Printing and parsing\<close>

declare decimal.simps [simp del] parse_bytes.simps [simp del]

lemma is_digit_char [simp]: "d < 10 \<Longrightarrow> is_digit (char_of (48 + d))" "d < 10 \<Longrightarrow> of_char (char_of (48 + d :: nat)) = (48 + d :: nat)"
  by (simp_all add: is_digit_def take_bit_nat_eq_self of_char_of take_bit_eq_mod)

lemma read_number_stop: "s = [] \<or> \<not> is_digit (hd s) \<Longrightarrow> read_number k s = (k, s)"
  by (cases s) auto

lemma read_number_decimal:
  "r = [] \<or> \<not> is_digit (hd r) \<Longrightarrow> read_number k (decimal n @ r) = (k * 10 ^ length (decimal n) + n, r)"
proof (induction n arbitrary: k r rule: decimal.induct)
  case (1 n)
  show ?case
  proof (cases "n < 10")
    case True
    then show ?thesis using read_number_stop[OF "1.prems"] by (simp add: decimal.simps[of n])
  next
    case False
    let ?c = "char_of (48 + n mod 10)"
    have split: "decimal n = decimal (n div 10) @ [?c]" using False by (simp add: decimal.simps[of n])
    have step: "read_number k (xs @ ?c # r) = read_number (10 * fst (read_number k xs) + n mod 10) r"
      if "list_all is_digit xs" for xs k
      using that by (induction xs arbitrary: k) (simp_all)
    have digits: "list_all is_digit (decimal m)" for m
      by (induction m rule: decimal.induct) (subst decimal.simps, simp)
    have "read_number k (decimal (n div 10) @ []) = (k * 10 ^ length (decimal (n div 10)) + n div 10, [])"
      by (rule "1.IH"[OF False]) simp
    then show ?thesis
      unfolding split using step[OF digits, of k "n div 10"] read_number_stop[OF "1.prems"]
      by (simp add: algebra_simps)
  qed
qed

lemma decimal_hd: "decimal n \<noteq> []" "is_digit (hd (decimal n @ r))"
proof -
  have "decimal n \<noteq> [] \<and> is_digit (hd (decimal n))"
    by (induction n rule: decimal.induct) (subst (1 2) decimal.simps, simp)
  then show "decimal n \<noteq> []" "is_digit (hd (decimal n @ r))" by simp_all
qed

lemma parse_bytes_decimal:
  assumes "n \<le> 255" "\<not> is_digit c"
  shows "parse_bytes bs (decimal n @ c # r) = (if c \<noteq> CHR ''.'' \<or> length bs = 3 then None else parse_bytes (bs @ [n]) r)"
    "parse_bytes bs (decimal n) = (if length bs = 3 then Some (bs @ [n]) else None)"
  using assms decimal_hd[of n] decimal_hd(2)[of n "[]"] read_number_decimal[of "c # r" 0 n] read_number_decimal[of "[]" 0 n]
  by (simp_all add: parse_bytes.simps[of bs] Let_def)

lemma digit_dot: "\<not> is_digit CHR ''.''"
  by (simp add: is_digit_def)

lemma bytes_of_address: "ip4_set (drop_bit 24 a AND 255) (drop_bit 16 a AND 255) (drop_bit 8 a AND 255) (a AND 255) = a"
proof -
  have m: "(255 :: u32) = mask 8" by (simp add: mask_eq_exp_minus_1)
  show ?thesis
    unfolding ip4_set_def m
  proof (rule bit_word_eqI)
    fix n assume "n < LENGTH(32)"
    then show "bit (push_bit 24 (drop_bit 24 a AND mask 8) OR push_bit 16 (drop_bit 16 a AND mask 8)
        OR push_bit 8 (drop_bit 8 a AND mask 8) OR a AND mask 8) n = bit a n"
      by (cases "n < 8"; cases "n < 16"; cases "n < 24")
        (auto simp: bit_or_iff bit_and_iff bit_push_bit_iff bit_drop_bit_eq bit_mask_iff)
  qed
qed

lemma ip4_parse_bytes: "ip4_parse s = Inr a \<and> isWellFormed s"
  if "parseIPAddress s = Some [w, x, y, z]" "ip4_set (of_nat w) (of_nat x) (of_nat y) (of_nat z) = a"
  using that by (simp add: ip4_parse_def isWellFormed_def)

text \<open>
   An address survives its text form: the parser of the class accepts what \<open>str\<close> prints, with and without the
  special text for the unspecified address, and returns the address.
\<close>

theorem parse_str_address:
  "ip4_parse (ip4_str printUnspec a) = Inr a \<and> isWellFormed (ip4_str printUnspec a)"
proof (cases "printUnspec \<and> ip4_isUnspecified a")
  case True
  then show ?thesis
    by (intro ip4_parse_bytes) (auto simp: ip4_str_def parseIPAddress_def ip4_isUnspecified_def ip4_set_def)
next
  case False
  let ?b = "\<lambda>x. unat (x AND 255 :: u32)"
  have "x AND 255 \<le> 255" for x :: u32 using word_and_le1[of x 255] by simp
  then have b: "?b x \<le> 255" for x by (simp add: word_le_nat_alt)
  have "hd (ip4_str printUnspec a) \<noteq> CHR ''<''"
  proof
    assume *: "hd (ip4_str printUnspec a) = CHR ''<''"
    have "is_digit (hd (ip4_str printUnspec a))" unfolding ip4_str_def using False decimal_hd(2) by (simp only: if_False)
    then show False unfolding * by (simp add: is_digit_def)
  qed
  then have n: "ip4_str printUnspec a \<noteq> ''<unspec>''" by auto
  have p: "parseIPAddress (ip4_str printUnspec a) = parse_bytes [] (ip4_str printUnspec a)"
    using n by (simp add: parseIPAddress_def)
  show ?thesis
  proof (rule ip4_parse_bytes)
    show "parseIPAddress (ip4_str printUnspec a) = Some [?b (drop_bit 24 a), ?b (drop_bit 16 a), ?b (drop_bit 8 a), ?b a]"
      using False b unfolding p unfolding ip4_str_def if_not_P[OF False]
      by (simp add: parse_bytes_decimal(1) parse_bytes_decimal(2)[OF _ digit_dot] digit_dot)
    show "ip4_set (of_nat (?b (drop_bit 24 a))) (of_nat (?b (drop_bit 16 a))) (of_nat (?b (drop_bit 8 a))) (of_nat (?b a)) = a"
      by (simp add: bytes_of_address)
  qed
qed

end
