(* ===== verification/Ip_Routing.thy ===== *)
theory Ip_Routing
  imports Ip_Address
begin

text \<open>
  \<open>RoutingTable\<close>, \<open>networklayer/ipv4/RoutingTable.cc\<close>, with the routes of \<open>IPv4Route.h\<close> and the part of \<open>InterfaceEntry\<close> and
  \<open>IPv4InterfaceData\<close> that it reads.  An interface is known by its id, a route by its pointer; the vector of the code that
  holds pointers to routes is a list of routes with their pointers.  The code of other modules that runs on a notification
  is not part of a step: the notifications of a step are its output \<open>rt_notes\<close>.
\<close>

section \<open>Interfaces\<close>

text \<open>The reference counts are kept beside the groups; host and router data exist on first use, empty.\<close>

record ipv4_interface_data =
  inetAddr :: ip4
  ie_netmask :: ip4
  ie_metric :: int
  joinedMulticastGroups :: "(ip4 \<times> int) list"
  reportedMulticastGroups :: "ip4 list"
  multicastTtlThreshold :: int

definition new_interface_data :: ipv4_interface_data where
  "new_interface_data = \<lparr>inetAddr = 0, ie_netmask = ALLONES_ADDRESS, ie_metric = 0, joinedMulticastGroups = [],
     reportedMulticastGroups = [], multicastTtlThreshold = 0\<rparr>"

record interface_entry =
  interfaceId :: int
  nwLayerGateIndex :: int
  ie_mtu :: int
  ie_loopback :: bool
  ie_broadcast :: bool
  ie_multicast :: bool
  ie_macAddr :: u64
  ipv4Data :: "ipv4_interface_data option"

definition data_of :: "interface_entry \<Rightarrow> ipv4_interface_data res" where
  "data_of ie = (case ipv4Data ie of None \<Rightarrow> Inl (NullPointer ''ipv4Data'') | Some d \<Rightarrow> Inr d)"

definition isMemberOfMulticastGroup :: "ip4 \<Rightarrow> ipv4_interface_data \<Rightarrow> bool" where
  "isMemberOfMulticastGroup a d \<longleftrightarrow> a \<in> fst ` set (joinedMulticastGroups d)"

fun count_up :: "ip4 \<Rightarrow> (ip4 \<times> int) list \<Rightarrow> (ip4 \<times> int) list option" where
  "count_up a [] = None"
| "count_up a ((g, n) # gs) = (if g = a then Some ((g, n + 1) # gs) else map_option ((#) (g, n)) (count_up a gs))"

text \<open>The flag is whether the members have changed, which is announced to the subscribers.\<close>

definition joinMulticastGroup :: "ip4 \<Rightarrow> ipv4_interface_data \<Rightarrow> (bool \<times> ipv4_interface_data) res" where
  "joinMulticastGroup a d =
     (if \<not> isMulticast a then Inl (RuntimeError ''IPv4InterfaceData::joinMulticastGroup(): multicast address expected'')
      else case count_up a (joinedMulticastGroups d) of
        Some gs \<Rightarrow> Inr (False, d\<lparr>joinedMulticastGroups := gs\<rparr>)
      | None \<Rightarrow> Inr (True, d\<lparr>joinedMulticastGroups := joinedMulticastGroups d @ [(a, 1)]\<rparr>))"

text \<open>The loop does not stop at the group; after an erasure it goes on behind the element that has moved into its place.\<close>

fun count_down :: "ip4 \<Rightarrow> (ip4 \<times> int) list \<Rightarrow> bool \<times> (ip4 \<times> int) list" where
  "count_down a [] = (False, [])"
| "count_down a ((g, n) # gs) =
     (if g = a then
        if n - 1 = 0
        then (case gs of [] \<Rightarrow> (True, []) | h # gs' \<Rightarrow> (True, h # snd (count_down a gs')))
        else let (b, gs') = count_down a gs in (b, (g, n - 1) # gs')
      else let (b, gs') = count_down a gs in (b, (g, n) # gs'))"

definition leaveMulticastGroup :: "ip4 \<Rightarrow> ipv4_interface_data \<Rightarrow> (bool \<times> ipv4_interface_data) res" where
  "leaveMulticastGroup a d =
     (if \<not> isMulticast a then Inl (RuntimeError ''IPv4InterfaceData::leaveMulticastGroup(): multicast address expected'')
      else let (b, gs) = count_down a (joinedMulticastGroups d) in Inr (b, d\<lparr>joinedMulticastGroups := gs\<rparr>))"

definition hasMulticastListener :: "ip4 \<Rightarrow> ipv4_interface_data \<Rightarrow> bool" where
  "hasMulticastListener a d \<longleftrightarrow> a \<in> set (reportedMulticastGroups d)"

definition addMulticastListener :: "ip4 \<Rightarrow> ipv4_interface_data \<Rightarrow> ipv4_interface_data res" where
  "addMulticastListener a d =
     (if \<not> isMulticast a then Inl (RuntimeError ''IPv4InterfaceData::addMulticastListener(): multicast address expected'')
      else Inr (if hasMulticastListener a d then d else d\<lparr>reportedMulticastGroups := reportedMulticastGroups d @ [a]\<rparr>))"

definition removeMulticastListener :: "ip4 \<Rightarrow> ipv4_interface_data \<Rightarrow> ipv4_interface_data" where
  "removeMulticastListener a d = d\<lparr>reportedMulticastGroups := remove1 a (reportedMulticastGroups d)\<rparr>"

section \<open>Routes\<close>

datatype source_type = MANUAL | IFACENETMASK | RIP | OSPF | BGP | ZEBRA | MANET | MANET2 | DYMO | AODV

definition dDirectlyConnected :: u32 where "dDirectlyConnected = 0"
definition dUnknown :: u32 where "dUnknown = 255"

record ipv4_route =
  rt_ptr :: nat
  rt_dest :: ip4
  rt_netmask :: ip4
  rt_gateway :: ip4
  rt_interface :: "int option"
  rt_sourceType :: source_type
  rt_adminDist :: u32
  rt_metric :: int

definition new_route :: "nat \<Rightarrow> ipv4_route" where
  "new_route p = \<lparr>rt_ptr = p, rt_dest = 0, rt_netmask = 0, rt_gateway = 0, rt_interface = None, rt_sourceType = MANUAL,
     rt_adminDist = dUnknown, rt_metric = 0\<rparr>"

text \<open>\<open>isValid\<close> of the class itself; subclasses may override it.\<close>

definition isValid :: "ipv4_route \<Rightarrow> bool" where "isValid r = True"

text \<open>An output interface is its id and whether it is a leaf.\<close>

datatype mroute_source = MROUTE_MANUAL | DVMRP | PIM_DM | PIM_SM

record ipv4_mroute =
  mr_ptr :: nat
  mr_origin :: ip4
  mr_originNetmask :: ip4
  mr_group :: ip4
  mr_inInterface :: "int option"
  mr_outInterfaces :: "(int \<times> bool) list"
  mr_sourceType :: mroute_source
  mr_metric :: int

definition mr_isValid :: "ipv4_mroute \<Rightarrow> bool" where "mr_isValid r = True"

definition mr_matches :: "ip4 \<Rightarrow> ip4 \<Rightarrow> ipv4_mroute \<Rightarrow> bool" where
  "mr_matches origin grp r \<longleftrightarrow>
     (ip4_isUnspecified (mr_group r) \<or> mr_group r = grp) \<and> maskedAddrAreEqual origin (mr_origin r) (mr_originNetmask r)"

section \<open>The table\<close>

datatype rt_note =
    ROUTE_ADDED ipv4_route | ROUTE_DELETED ipv4_route | ROUTE_CHANGED ipv4_route
  | MROUTE_ADDED ipv4_mroute | MROUTE_DELETED ipv4_mroute | MROUTE_CHANGED ipv4_mroute

text \<open>The cache holds the pointer of a route, or NULL.\<close>

record routing_table =
  ift :: "interface_entry list"
  routerId :: ip4
  IPForward :: bool
  multicastForward :: bool
  routes :: "ipv4_route list"
  multicastRoutes :: "ipv4_mroute list"
  routingCache :: "ip4 \<rightharpoonup> nat option"
  localAddresses :: "ip4 list"
  localBroadcastAddresses :: "ip4 list"
  nextPtr :: nat
  rt_notes :: "rt_note list"

definition notify :: "rt_note \<Rightarrow> routing_table \<Rightarrow> routing_table" where
  "notify n T = T\<lparr>rt_notes := rt_notes T @ [n]\<rparr>"

definition invalidateCache :: "routing_table \<Rightarrow> routing_table" where
  "invalidateCache T = T\<lparr>routingCache := Map.empty, localAddresses := [], localBroadcastAddresses := []\<rparr>"

definition find_interface :: "int \<Rightarrow> interface_entry list \<Rightarrow> interface_entry option" where
  "find_interface i ies = find (\<lambda>ie. interfaceId ie = i) ies"

subsection \<open>Look-ups\<close>

fun find_by_address :: "(ipv4_interface_data \<Rightarrow> bool) \<Rightarrow> interface_entry list \<Rightarrow> interface_entry option res" where
  "find_by_address P [] = Inr None"
| "find_by_address P (ie # ies) = bindE (data_of ie) (\<lambda>d. if P d then Inr (Some ie) else find_by_address P ies)"

definition getInterfaceByAddress :: "ip4 \<Rightarrow> routing_table \<Rightarrow> interface_entry option res" where
  "getInterfaceByAddress a T =
     (if ip4_isUnspecified a then Inr None else find_by_address (\<lambda>d. inetAddr d = a) (ift T))"

fun collect :: "(ipv4_interface_data \<Rightarrow> ip4 list) \<Rightarrow> interface_entry list \<Rightarrow> ip4 list res" where
  "collect f [] = Inr []"
| "collect f (ie # ies) = bindE (data_of ie) (\<lambda>d. mapE (\<lambda>as. f d @ as) (collect f ies))"

definition isLocalAddress :: "ip4 \<Rightarrow> routing_table \<Rightarrow> (bool \<times> routing_table) res" where
  "isLocalAddress dest T =
     bindE (if localAddresses T = [] then mapE (\<lambda>as. T\<lparr>localAddresses := as\<rparr>) (collect (\<lambda>d. [inetAddr d]) (ift T)) else Inr T)
       (\<lambda>T'. Inr (dest \<in> set (localAddresses T'), T'))"

definition broadcast_of :: "ipv4_interface_data \<Rightarrow> ip4" where
  "broadcast_of d = makeBroadcastAddress (ie_netmask d) (inetAddr d)"

definition isLocalBroadcastAddress :: "ip4 \<Rightarrow> routing_table \<Rightarrow> (bool \<times> routing_table) res" where
  "isLocalBroadcastAddress dest T =
     bindE (if localBroadcastAddresses T = []
            then mapE (\<lambda>as. T\<lparr>localBroadcastAddresses := as\<rparr>)
                   (collect (\<lambda>d. if ip4_isUnspecified (broadcast_of d) then [] else [broadcast_of d]) (ift T))
            else Inr T)
       (\<lambda>T'. Inr (dest \<in> set (localBroadcastAddresses T'), T'))"

definition findInterfaceByLocalBroadcastAddress :: "ip4 \<Rightarrow> routing_table \<Rightarrow> interface_entry option res" where
  "findInterfaceByLocalBroadcastAddress dest T = find_by_address (\<lambda>d. broadcast_of d = dest) (ift T)"

definition isLocalMulticastAddress :: "ip4 \<Rightarrow> routing_table \<Rightarrow> bool res" where
  "isLocalMulticastAddress dest T = mapE (\<lambda>x. x \<noteq> None) (find_by_address (isMemberOfMulticastGroup dest) (ift T))"

definition route_at :: "nat \<Rightarrow> routing_table \<Rightarrow> ipv4_route option" where
  "route_at p T = find (\<lambda>r. rt_ptr r = p) (routes T)"

definition matches :: "ip4 \<Rightarrow> ipv4_route \<Rightarrow> bool" where
  "matches dest r \<longleftrightarrow> isValid r \<and> maskedAddrAreEqual dest (rt_dest r) (rt_netmask r)"

text \<open>The result is the route, and the cache is updated.  A cached pointer to a route that is gone would be dangling.\<close>

definition search_routes :: "ip4 \<Rightarrow> routing_table \<Rightarrow> ipv4_route option \<times> routing_table" where
  "search_routes dest T =
     (let best = find (matches dest) (routes T) in (best, T\<lparr>routingCache := (routingCache T)(dest \<mapsto> map_option rt_ptr best)\<rparr>))"

definition findBestMatchingRoute :: "ip4 \<Rightarrow> routing_table \<Rightarrow> (ipv4_route option \<times> routing_table) res" where
  "findBestMatchingRoute dest T =
     (case routingCache T dest of
        Some None \<Rightarrow> Inr (None, T)
      | Some (Some p) \<Rightarrow>
          (case route_at p T of
             None \<Rightarrow> Inl (Undefined ''dangling pointer in routingCache'')
           | Some r \<Rightarrow> Inr (if isValid r then (Some r, T) else search_routes dest T))
      | None \<Rightarrow> Inr (search_routes dest T))"

definition getInterfaceForDestAddr :: "ip4 \<Rightarrow> routing_table \<Rightarrow> (int option \<times> routing_table) res" where
  "getInterfaceForDestAddr dest T =
     mapE (\<lambda>(r, T'). (case r of None \<Rightarrow> None | Some e \<Rightarrow> rt_interface e, T')) (findBestMatchingRoute dest T)"

definition getGatewayForDestAddr :: "ip4 \<Rightarrow> routing_table \<Rightarrow> (ip4 \<times> routing_table) res" where
  "getGatewayForDestAddr dest T =
     mapE (\<lambda>(r, T'). (case r of None \<Rightarrow> 0 | Some e \<Rightarrow> rt_gateway e, T')) (findBestMatchingRoute dest T)"

definition findBestMatchingMulticastRoute :: "ip4 \<Rightarrow> ip4 \<Rightarrow> routing_table \<Rightarrow> ipv4_mroute option" where
  "findBestMatchingMulticastRoute origin grp T =
     find (\<lambda>e. mr_isValid e \<and> mr_matches origin grp e) (multicastRoutes T)"

definition getRoute :: "int \<Rightarrow> routing_table \<Rightarrow> ipv4_route option res" where
  "getRoute k T = (if k < int (length (routes T))
     then if k < 0 then Inl (Undefined ''routes[k]'') else Inr (Some (routes T ! nat k)) else Inr None)"

definition getDefaultRoute :: "routing_table \<Rightarrow> ipv4_route option" where
  "getDefaultRoute T = find isValid (takeWhile (\<lambda>r. ip4_isUnspecified (rt_netmask r)) (rev (routes T)))"


subsection \<open>The order\<close>

definition routeLessThan :: "ipv4_route \<Rightarrow> ipv4_route \<Rightarrow> bool" where
  "routeLessThan a b =
     (if rt_netmask a \<noteq> rt_netmask b then rt_netmask b < rt_netmask a
      else if rt_dest a \<noteq> rt_dest b then rt_dest a < rt_dest b
      else if rt_adminDist a \<noteq> rt_adminDist b then rt_adminDist a < rt_adminDist b
      else rt_metric a < rt_metric b)"

definition multicastRouteLessThan :: "ipv4_mroute \<Rightarrow> ipv4_mroute \<Rightarrow> bool" where
  "multicastRouteLessThan a b =
     (if mr_originNetmask a \<noteq> mr_originNetmask b then mr_originNetmask b < mr_originNetmask a
      else if mr_origin a \<noteq> mr_origin b then mr_origin a < mr_origin b
      else if mr_group a \<noteq> mr_group b then mr_group b < mr_group a
      else mr_metric a < mr_metric b)"

text \<open>\<open>std::upper_bound\<close> and \<open>insert\<close>: before the first element that is greater.  The search is undefined where the
  elements that are greater are not all at the end.\<close>

fun span_le :: "('a \<Rightarrow> 'a \<Rightarrow> bool) \<Rightarrow> 'a \<Rightarrow> 'a list \<Rightarrow> 'a list \<times> 'a list" where
  "span_le lt x [] = ([], [])"
| "span_le lt x (y # ys) = (if lt x y then ([], y # ys) else let (a, b) = span_le lt x ys in (y # a, b))"

definition upper_bound_insert :: "('a \<Rightarrow> 'a \<Rightarrow> bool) \<Rightarrow> 'a \<Rightarrow> 'a list \<Rightarrow> 'a list res" where
  "upper_bound_insert lt x xs =
     (let (front, back) = span_le lt x xs in
      if list_all (lt x) back then Inr (front @ x # back) else Inl (Undefined ''upper_bound''))"

subsection \<open>Unicast routes\<close>

definition remove_ptr :: "nat \<Rightarrow> ipv4_route list \<Rightarrow> ipv4_route list" where
  "remove_ptr p rs = filter (\<lambda>r. rt_ptr r \<noteq> p) rs"

text \<open>\<open>removeRoute\<close> and \<open>deleteRoute\<close>; the result tells whether the route was there.\<close>

definition removeRoute :: "nat \<Rightarrow> routing_table \<Rightarrow> ipv4_route option \<times> routing_table" where
  "removeRoute p T =
     (case route_at p T of
        None \<Rightarrow> (None, T)
      | Some r \<Rightarrow> (Some r, notify (ROUTE_DELETED r) (invalidateCache (T\<lparr>routes := remove_ptr p (routes T)\<rparr>))))"

definition deleteRoute :: "nat \<Rightarrow> routing_table \<Rightarrow> bool \<times> routing_table" where
  "deleteRoute p T = (let (r, T') = removeRoute p T in (r \<noteq> None, T'))"

text \<open>A new default route replaces the old one.\<close>

definition replace_default :: "ipv4_route \<Rightarrow> routing_table \<Rightarrow> routing_table" where
  "replace_default e T =
     (if ip4_isUnspecified (rt_netmask e)
      then (case getDefaultRoute T of None \<Rightarrow> T | Some old \<Rightarrow> snd (deleteRoute (rt_ptr old) T)) else T)"

definition internalAddRoute :: "ipv4_route \<Rightarrow> routing_table \<Rightarrow> routing_table res" where
  "internalAddRoute e T =
     (if \<not> isValidNetmask (rt_netmask e) then Inl (RuntimeError ''addRoute(): wrong netmask'')
      else if rt_netmask e \<noteq> 0 \<and> rt_dest e AND rt_netmask e = 0
      then Inl (RuntimeError ''addRoute(): all bits of destination address are 0 inside non zero netmask'')
      else if rt_dest e AND NOT (rt_netmask e) \<noteq> 0
      then Inl (RuntimeError ''addRoute(): destination has bits set outside netmask'')
      else if rt_interface e = None then Inl (RuntimeError ''addRoute(): interface cannot be NULL'')
      else
        let T1 = replace_default e T
        in mapE (\<lambda>rs. T1\<lparr>routes := rs\<rparr>) (upper_bound_insert routeLessThan e (routes T1)))"

definition addRoute :: "ipv4_route \<Rightarrow> routing_table \<Rightarrow> routing_table res" where
  "addRoute e T = mapE (\<lambda>T'. notify (ROUTE_ADDED e) (invalidateCache T')) (internalAddRoute e T)"

datatype route_field = F_DESTINATION | F_NETMASK | F_GATEWAY | F_IFACE | F_TYPE | F_SOURCE | F_ADMINDIST | F_METRIC

text \<open>A setter has changed the route \<open>p\<close> in place.\<close>

definition routeChanged :: "nat \<Rightarrow> route_field \<Rightarrow> routing_table \<Rightarrow> routing_table res" where
  "routeChanged p f T =
     (case route_at p T of
        None \<Rightarrow> Inl (AssertFailed ''routeChanged: entry != NULL'')
      | Some e \<Rightarrow>
          mapE (notify (ROUTE_CHANGED e))
            (if f \<in> {F_DESTINATION, F_NETMASK, F_METRIC}
             then mapE invalidateCache (internalAddRoute e (T\<lparr>routes := remove_ptr p (routes T)\<rparr>))
             else Inr T))"

text \<open>The setters of a route that is in the table: nothing happens where the value is the same.\<close>

definition set_route_field :: "route_field \<Rightarrow> (ipv4_route \<Rightarrow> ipv4_route) \<Rightarrow> nat \<Rightarrow> routing_table \<Rightarrow> routing_table res" where
  "set_route_field f upd p T =
     (case route_at p T of
        None \<Rightarrow> Inl (NullPointer ''route'')
      | Some e \<Rightarrow> if upd e = e then Inr T
                  else routeChanged p f (T\<lparr>routes := map (\<lambda>r. if rt_ptr r = p then upd r else r) (routes T)\<rparr>))"

definition setDestination :: "ip4 \<Rightarrow> nat \<Rightarrow> routing_table \<Rightarrow> routing_table res" where
  "setDestination a = set_route_field F_DESTINATION (rt_dest_update (\<lambda>_. a))"
definition setNetmask :: "ip4 \<Rightarrow> nat \<Rightarrow> routing_table \<Rightarrow> routing_table res" where
  "setNetmask a = set_route_field F_NETMASK (rt_netmask_update (\<lambda>_. a))"
definition setGateway :: "ip4 \<Rightarrow> nat \<Rightarrow> routing_table \<Rightarrow> routing_table res" where
  "setGateway a = set_route_field F_GATEWAY (rt_gateway_update (\<lambda>_. a))"
definition setInterface :: "int option \<Rightarrow> nat \<Rightarrow> routing_table \<Rightarrow> routing_table res" where
  "setInterface i = set_route_field F_IFACE (rt_interface_update (\<lambda>_. i))"
definition setSourceType :: "source_type \<Rightarrow> nat \<Rightarrow> routing_table \<Rightarrow> routing_table res" where
  "setSourceType s = set_route_field F_SOURCE (rt_sourceType_update (\<lambda>_. s))"
definition setAdminDist :: "u32 \<Rightarrow> nat \<Rightarrow> routing_table \<Rightarrow> routing_table res" where
  "setAdminDist d = set_route_field F_ADMINDIST (rt_adminDist_update (\<lambda>_. d))"
definition setMetric :: "int \<Rightarrow> nat \<Rightarrow> routing_table \<Rightarrow> routing_table res" where
  "setMetric m = set_route_field F_METRIC (rt_metric_update (\<lambda>_. m))"

subsection \<open>Routes of the interfaces\<close>

fun delete_netmask_routes :: "ipv4_route list \<Rightarrow> ipv4_route list \<times> rt_note list" where
  "delete_netmask_routes [] = ([], [])"
| "delete_netmask_routes (r # rs) =
     (let (rs', ns) = delete_netmask_routes rs in
      if rt_sourceType r = IFACENETMASK then (rs', ROUTE_DELETED r # ns) else (r # rs', ns))"

definition netmask_route :: "nat \<Rightarrow> interface_entry \<Rightarrow> ipv4_interface_data \<Rightarrow> ipv4_route" where
  "netmask_route p ie d = (new_route p)\<lparr>rt_sourceType := IFACENETMASK, rt_dest := doAnd (inetAddr d) (ie_netmask d),
     rt_netmask := ie_netmask d, rt_gateway := 0, rt_adminDist := dDirectlyConnected, rt_metric := ie_metric d,
     rt_interface := Some (interfaceId ie)\<rparr>"

fun add_netmask_routes :: "interface_entry list \<Rightarrow> routing_table \<Rightarrow> routing_table res" where
  "add_netmask_routes [] T = Inr T"
| "add_netmask_routes (ie # ies) T =
     (case ipv4Data ie of
        Some d \<Rightarrow>
          if ie_netmask d \<noteq> ALLONES_ADDRESS
          then let r = netmask_route (nextPtr T) ie d in
               bindE (upper_bound_insert routeLessThan r (routes T))
                 (\<lambda>rs. add_netmask_routes ies (notify (ROUTE_ADDED r) (T\<lparr>routes := rs, nextPtr := Suc (nextPtr T)\<rparr>)))
          else add_netmask_routes ies T
      | None \<Rightarrow> add_netmask_routes ies T)"

definition updateNetmaskRoutes :: "routing_table \<Rightarrow> routing_table res" where
  "updateNetmaskRoutes T =
     (let (rs, ns) = delete_netmask_routes (routes T)
      in mapE invalidateCache (add_netmask_routes (ift T) (T\<lparr>routes := rs, rt_notes := rt_notes T @ ns\<rparr>)))"

subsection \<open>Multicast routes\<close>

definition mroute_at :: "nat \<Rightarrow> routing_table \<Rightarrow> ipv4_mroute option" where
  "mroute_at p T = find (\<lambda>r. mr_ptr r = p) (multicastRoutes T)"

definition is_multicast_interface :: "int \<Rightarrow> routing_table \<Rightarrow> bool" where
  "is_multicast_interface i T = (case find_interface i (ift T) of None \<Rightarrow> False | Some ie \<Rightarrow> ie_multicast ie)"

definition internalAddMulticastRoute :: "ipv4_mroute \<Rightarrow> routing_table \<Rightarrow> routing_table res" where
  "internalAddMulticastRoute e T =
     (if \<not> isValidNetmask (mr_originNetmask e) then Inl (RuntimeError ''addMulticastRoute(): wrong netmask'')
      else if mr_origin e AND NOT (mr_originNetmask e) \<noteq> 0
      then Inl (RuntimeError ''addMulticastRoute(): origin has bits set outside netmask'')
      else if \<not> ip4_isUnspecified (mr_group e) \<and> \<not> isMulticast (mr_group e)
      then Inl (RuntimeError ''addMulticastRoute(): group address is not a multicast address'')
      else if (case mr_inInterface e of None \<Rightarrow> False | Some i \<Rightarrow> \<not> is_multicast_interface i T)
      then Inl (RuntimeError ''addMulticastRoute(): input interface must be multicast capable'')
      else if list_ex (\<lambda>(i, leaf). \<not> is_multicast_interface i T) (mr_outInterfaces e)
      then Inl (RuntimeError ''addMulticastRoute(): output interface must be multicast capable'')
      else if list_ex (\<lambda>(i, leaf). mr_inInterface e = Some i) (mr_outInterfaces e)
      then Inl (RuntimeError ''addMulticastRoute(): output interface cannot be the same as the input interface'')
      else mapE (\<lambda>rs. T\<lparr>multicastRoutes := rs\<rparr>) (upper_bound_insert multicastRouteLessThan e (multicastRoutes T)))"

definition addMulticastRoute :: "ipv4_mroute \<Rightarrow> routing_table \<Rightarrow> routing_table res" where
  "addMulticastRoute e T = mapE (\<lambda>T'. notify (MROUTE_ADDED e) (invalidateCache T')) (internalAddMulticastRoute e T)"

definition removeMulticastRoute :: "nat \<Rightarrow> routing_table \<Rightarrow> ipv4_mroute option \<times> routing_table" where
  "removeMulticastRoute p T =
     (case mroute_at p T of
        None \<Rightarrow> (None, T)
      | Some r \<Rightarrow> (Some r, notify (MROUTE_DELETED r)
                    (invalidateCache (T\<lparr>multicastRoutes := filter (\<lambda>r. mr_ptr r \<noteq> p) (multicastRoutes T)\<rparr>))))"

definition deleteMulticastRoute :: "nat \<Rightarrow> routing_table \<Rightarrow> bool \<times> routing_table" where
  "deleteMulticastRoute p T = (let (r, T') = removeMulticastRoute p T in (r \<noteq> None, T'))"

datatype mroute_field = F_ORIGIN | F_ORIGINMASK | F_MULTICASTGROUP | F_IN | F_OUT | F_MSOURCE | F_MMETRIC

definition multicastRouteChanged :: "nat \<Rightarrow> mroute_field \<Rightarrow> routing_table \<Rightarrow> routing_table res" where
  "multicastRouteChanged p f T =
     (case mroute_at p T of
        None \<Rightarrow> Inl (AssertFailed ''multicastRouteChanged: entry != NULL'')
      | Some e \<Rightarrow>
          mapE (notify (MROUTE_CHANGED e))
            (if f \<in> {F_ORIGIN, F_ORIGINMASK, F_MULTICASTGROUP, F_MMETRIC}
             then mapE invalidateCache
                    (internalAddMulticastRoute e (T\<lparr>multicastRoutes := filter (\<lambda>r. mr_ptr r \<noteq> p) (multicastRoutes T)\<rparr>))
             else Inr T))"

text \<open>\<open>removeOutInterface\<close>: the first entry of the interface, with a notification by way of \<open>changed(F_OUT)\<close>.\<close>

fun remove_out :: "int \<Rightarrow> (int \<times> bool) list \<Rightarrow> (int \<times> bool) list option" where
  "remove_out i [] = None"
| "remove_out i ((j, leaf) # os) = (if j = i then Some os else map_option ((#) (j, leaf)) (remove_out i os))"

text \<open>\<open>addOutInterface\<close>: an entry of the interface is replaced.\<close>

fun put_out :: "int \<times> bool \<Rightarrow> (int \<times> bool) list \<Rightarrow> (int \<times> bool) list" where
  "put_out x [] = [x]"
| "put_out x (y # ys) = (if fst y = fst x then x # ys else y # put_out x ys)"

definition addOutInterface :: "int \<times> bool \<Rightarrow> nat \<Rightarrow> routing_table \<Rightarrow> routing_table res" where
  "addOutInterface x p T =
     multicastRouteChanged p F_OUT
       (T\<lparr>multicastRoutes := map (\<lambda>r. if mr_ptr r = p then r\<lparr>mr_outInterfaces := put_out x (mr_outInterfaces r)\<rparr> else r) (multicastRoutes T)\<rparr>)"

subsection \<open>Changes of interfaces, and the life cycle\<close>

fun purge_mroutes :: "int \<Rightarrow> ipv4_mroute list \<Rightarrow> bool \<times> ipv4_mroute list \<times> rt_note list" where
  "purge_mroutes i [] = (False, [], [])"
| "purge_mroutes i (r # rs) =
     (let (changed, rs', ns) = purge_mroutes i rs in
      if mr_inInterface r = Some i then (True, rs', MROUTE_DELETED r # ns)
      else case remove_out i (mr_outInterfaces r) of
          Some os \<Rightarrow> let r' = r\<lparr>mr_outInterfaces := os\<rparr> in (True, r' # rs', MROUTE_CHANGED r' # MROUTE_CHANGED r' # ns)
        | None \<Rightarrow> (changed, r # rs', ns))"

definition deleteInterfaceRoutes :: "int \<Rightarrow> routing_table \<Rightarrow> routing_table" where
  "deleteInterfaceRoutes i T =
     (let gone = filter (\<lambda>r. rt_interface r = Some i) (routes T);
          (changed, mrs, ns) = purge_mroutes i (multicastRoutes T);
          T1 = T\<lparr>routes := filter (\<lambda>r. rt_interface r \<noteq> Some i) (routes T), multicastRoutes := mrs,
                 rt_notes := rt_notes T @ map ROUTE_DELETED gone @ ns\<rparr>
      in if gone \<noteq> [] \<or> changed then invalidateCache T1 else T1)"

definition purge :: "routing_table \<Rightarrow> routing_table" where
  "purge T =
     (let gone = filter (\<lambda>r. \<not> isValid r) (routes T); mgone = filter (\<lambda>r. \<not> mr_isValid r) (multicastRoutes T);
          T1 = T\<lparr>routes := filter isValid (routes T), multicastRoutes := filter mr_isValid (multicastRoutes T),
                 rt_notes := rt_notes T @ map ROUTE_DELETED gone @ map MROUTE_DELETED mgone\<rparr>
      in if gone \<noteq> [] \<or> mgone \<noteq> [] then invalidateCache T1 else T1)"

datatype category =
    NF_INTERFACE_CREATED | NF_INTERFACE_DELETED int | NF_INTERFACE_STATE_CHANGED | NF_INTERFACE_CONFIG_CHANGED
  | NF_INTERFACE_IPv4CONFIG_CHANGED

definition receiveChangeNotification :: "bool \<Rightarrow> category \<Rightarrow> routing_table \<Rightarrow> routing_table res" where
  "receiveChangeNotification initializing c T =
     (if initializing then Inr T
      else case c of
        NF_INTERFACE_CREATED \<Rightarrow> updateNetmaskRoutes T
      | NF_INTERFACE_DELETED i \<Rightarrow> Inr (deleteInterfaceRoutes i T)
      | NF_INTERFACE_STATE_CHANGED \<Rightarrow> Inr (invalidateCache T)
      | NF_INTERFACE_CONFIG_CHANGED \<Rightarrow> Inr (invalidateCache T)
      | NF_INTERFACE_IPv4CONFIG_CHANGED \<Rightarrow> updateNetmaskRoutes T)"

text \<open>\<open>setIPAddress\<close> and the other setters of an interface fire \<open>NF_INTERFACE_IPv4CONFIG_CHANGED\<close> after the change.\<close>

definition change_interface :: "int \<Rightarrow> (ipv4_interface_data \<Rightarrow> ipv4_interface_data) \<Rightarrow> routing_table \<Rightarrow> routing_table res" where
  "change_interface i f T =
     receiveChangeNotification False NF_INTERFACE_IPv4CONFIG_CHANGED
       (T\<lparr>ift := map (\<lambda>ie. if interfaceId ie = i then ie\<lparr>ipv4Data := map_option f (ipv4Data ie)\<rparr> else ie) (ift T)\<rparr>)"

fun highest_address :: "interface_entry list \<Rightarrow> ip4 \<Rightarrow> ip4 res" where
  "highest_address [] a = Inr a"
| "highest_address (ie # ies) a =
     (if ie_loopback ie then highest_address ies a
      else bindE (data_of ie) (\<lambda>d. highest_address ies (if a < inetAddr d then inetAddr d else a)))"

text \<open>\<open>auto\<close> is whether the parameter \<open>routerId\<close> is \"auto\".  The two setters each rebuild the netmask routes.\<close>

definition configureRouterId :: "bool \<Rightarrow> routing_table \<Rightarrow> routing_table res" where
  "configureRouterId auto T =
     (if ip4_isUnspecified (routerId T)
      then if auto then mapE (\<lambda>a. T\<lparr>routerId := a\<rparr>) (highest_address (ift T) (routerId T)) else Inr T
      else bindE (getInterfaceByAddress (routerId T) T) (\<lambda>ie.
        if ie \<noteq> None then Inr T
        else case find ie_loopback (ift T) of
          None \<Rightarrow> Inl (AssertFailed ''configureRouterId: lo0'')
        | Some lo0 \<Rightarrow> bindE (data_of lo0) (\<lambda>_.
            bindE (change_interface (interfaceId lo0) (inetAddr_update (\<lambda>_. routerId T)) T)
                  (change_interface (interfaceId lo0) (ie_netmask_update (\<lambda>_. ALLONES_ADDRESS))))))"

text \<open>A node that goes down or crashes removes its unicast routes one by one, from the front.\<close>

fun remove_all :: "nat list \<Rightarrow> routing_table \<Rightarrow> routing_table" where
  "remove_all [] T = T"
| "remove_all (p # ps) T = remove_all ps (snd (removeRoute p T))"

definition node_down :: "routing_table \<Rightarrow> routing_table" where
  "node_down T = remove_all (map rt_ptr (routes T)) T"


section \<open>The table stays sorted\<close>

lemma routeLessThan_trans:
  "\<not> routeLessThan b a \<Longrightarrow> \<not> routeLessThan c b \<Longrightarrow> \<not> routeLessThan c a"
  unfolding routeLessThan_def by (auto split: if_splits)

lemma routeLessThan_total: "routeLessThan a b \<Longrightarrow> \<not> routeLessThan b a"
  unfolding routeLessThan_def by (auto split: if_splits)

definition in_order :: "ipv4_route list \<Rightarrow> bool" where
  "in_order rs \<longleftrightarrow> sorted_wrt (\<lambda>a b. \<not> routeLessThan b a) rs"

lemma span_le_append: "span_le lt x xs = (a, b) \<Longrightarrow> xs = a @ b \<and> (\<forall>y \<in> set a. \<not> lt x y) \<and> (b \<noteq> [] \<longrightarrow> lt x (hd b))"
  by (induction xs arbitrary: a b) (auto split: if_splits prod.splits)

lemma upper_bound_insert_ok:
  assumes "in_order rs"
  shows "\<exists>a b. rs = a @ b \<and> upper_bound_insert routeLessThan x rs = Inr (a @ x # b) \<and> in_order (a @ x # b)"
proof -
  obtain a b where s: "span_le routeLessThan x rs = (a, b)" by fastforce
  note ab = span_le_append[OF s]
  have o: "sorted_wrt (\<lambda>a b. \<not> routeLessThan b a) a" "sorted_wrt (\<lambda>a b. \<not> routeLessThan b a) b"
      "\<forall>u \<in> set a. \<forall>v \<in> set b. \<not> routeLessThan v u"
    using assms ab unfolding in_order_def by (simp_all add: sorted_wrt_append)
  have b: "\<forall>y \<in> set b. \<not> routeLessThan y x"
  proof (cases b)
    case (Cons y ys)
    then have xy: "\<not> routeLessThan y x" using ab routeLessThan_total by simp
    have "\<not> routeLessThan z x" if "z \<in> set ys" for z
      using o(2) Cons that routeLessThan_trans[OF xy] by simp
    then show ?thesis using xy Cons by simp
  qed simp
  have lt: "list_all (routeLessThan x) b"
  proof (cases b)
    case (Cons y ys)
    have "routeLessThan x z" if "z \<in> set b" for z
    proof (rule ccontr)
      assume "\<not> routeLessThan x z"
      moreover have "\<not> routeLessThan z y" using o(2) Cons that routeLessThan_total by auto
      ultimately show False using routeLessThan_trans ab Cons by (metis list.distinct(1) list.sel(1))
    qed
    then show ?thesis by (simp add: list_all_iff)
  qed simp
  have "in_order (a @ x # b)"
    using o b ab unfolding in_order_def by (auto simp: sorted_wrt_append)
  then show ?thesis using ab lt s by (auto simp: upper_bound_insert_def)
qed


text \<open>A route in the table has a mask that is a prefix, and no bits outside of it.\<close>

definition route_ok :: "nat \<Rightarrow> ipv4_route \<Rightarrow> bool" where
  "route_ok n r \<longleftrightarrow> rt_ptr r < n \<and> isValidNetmask (rt_netmask r) \<and> rt_dest r AND NOT (rt_netmask r) = 0"

definition masks_ok :: "interface_entry list \<Rightarrow> bool" where
  "masks_ok ies \<longleftrightarrow> (\<forall>ie \<in> set ies. \<forall>d. ipv4Data ie = Some d \<longrightarrow> isValidNetmask (ie_netmask d))"

definition routes_ok :: "nat \<Rightarrow> ipv4_route list \<Rightarrow> bool" where
  "routes_ok n rs \<longleftrightarrow> in_order rs \<and> distinct (map rt_ptr rs) \<and> list_all (route_ok n) rs"

definition cache_ok :: "routing_table \<Rightarrow> bool" where
  "cache_ok T \<longleftrightarrow> (\<forall>d x. routingCache T d = Some x \<longrightarrow> x = map_option rt_ptr (find (matches d) (routes T)))"

definition table_ok :: "routing_table \<Rightarrow> bool" where
  "table_ok T \<longleftrightarrow> routes_ok (nextPtr T) (routes T) \<and> masks_ok (ift T) \<and> cache_ok T"

lemma table_okD:
  assumes "table_ok T"
  shows "routes_ok (nextPtr T) (routes T)" "masks_ok (ift T)" "cache_ok T"
  using assms by (simp_all add: table_ok_def)

lemma cache_ok_invalidate [simp]: "cache_ok (invalidateCache T)"
  by (simp add: cache_ok_def invalidateCache_def)

lemma notify_simps [simp]:
  "routes (notify n T) = routes T" "routes (invalidateCache T) = routes T" "ift (notify n T) = ift T"
  "ift (invalidateCache T) = ift T" "nextPtr (notify n T) = nextPtr T" "nextPtr (invalidateCache T) = nextPtr T"
  "cache_ok (notify n T) = cache_ok T"
  by (simp_all add: notify_def invalidateCache_def cache_ok_def)

lemma table_ok_notify [simp]: "table_ok (notify n T) = table_ok T"
  by (simp add: table_ok_def)

lemma table_ok_invalidate: "routes_ok (nextPtr T) (routes T) \<Longrightarrow> masks_ok (ift T) \<Longrightarrow> table_ok (invalidateCache T)"
  by (simp add: table_ok_def)

lemma routes_ok_filter: "routes_ok n rs \<Longrightarrow> routes_ok n (filter P rs)"
  by (auto simp: routes_ok_def in_order_def sorted_wrt_filter list_all_iff distinct_map_filter)

lemma routes_ok_mono: "routes_ok n rs \<Longrightarrow> n \<le> m \<Longrightarrow> routes_ok m rs"
  by (auto simp: routes_ok_def list_all_iff route_ok_def)

lemma routes_ok_insert:
  assumes "routes_ok n rs" "route_ok n x" "rt_ptr x \<notin> rt_ptr ` set rs"
  shows "\<exists>rs'. upper_bound_insert routeLessThan x rs = Inr rs' \<and> routes_ok n rs' \<and> set rs' = insert x (set rs)"
proof -
  obtain a b where ab: "rs = a @ b" "upper_bound_insert routeLessThan x rs = Inr (a @ x # b)" "in_order (a @ x # b)"
    using upper_bound_insert_ok assms(1) unfolding routes_ok_def by blast
  have "routes_ok n (a @ x # b)" using ab(1,3) assms unfolding routes_ok_def by auto
  then show ?thesis using ab(1,2) by auto
qed

section \<open>Every operation keeps the table\<close>

lemma removeRoute_ok:
  assumes "table_ok T"
  shows "table_ok (snd (removeRoute p T))" "nextPtr (snd (removeRoute p T)) = nextPtr T" "ift (snd (removeRoute p T)) = ift T"
    "routes (snd (removeRoute p T)) = remove_ptr p (routes T)"
proof -
  have "remove_ptr p (routes T) = routes T" if "route_at p T = None"
    using that by (auto simp: route_at_def remove_ptr_def find_None_iff filter_id_conv)
  then show "table_ok (snd (removeRoute p T))" "nextPtr (snd (removeRoute p T)) = nextPtr T" "ift (snd (removeRoute p T)) = ift T"
    "routes (snd (removeRoute p T)) = remove_ptr p (routes T)"
    using assms routes_ok_filter[OF table_okD(1)[OF assms]]
    by (auto simp: removeRoute_def remove_ptr_def table_ok_invalidate table_okD split: option.split)
qed

lemma replace_default_ok:
  "routes (replace_default e T) = routes T \<or> (\<exists>p. routes (replace_default e T) = remove_ptr p (routes T))"
  "ift (replace_default e T) = ift T" "nextPtr (replace_default e T) = nextPtr T"
  by (auto simp: replace_default_def deleteRoute_def removeRoute_def split: option.split)

lemma internalAddRoute_ok:
  assumes "routes_ok (nextPtr T) (routes T)" "rt_ptr e < nextPtr T" "rt_ptr e \<notin> rt_ptr ` set (routes T)"
    "internalAddRoute e T = Inr T'"
  shows "routes_ok (nextPtr T') (routes T')" "ift T' = ift T" "nextPtr T' = nextPtr T" "e \<in> set (routes T')"
proof -
  have ok: "route_ok (nextPtr T) e"
    using assms(2,4) by (auto simp: route_ok_def internalAddRoute_def split: if_splits)
  have T': "mapE (\<lambda>rs. (replace_default e T)\<lparr>routes := rs\<rparr>) (upper_bound_insert routeLessThan e (routes (replace_default e T))) = Inr T'"
    using assms(4) by (auto simp: internalAddRoute_def Let_def split: if_splits)
  have r1: "routes_ok (nextPtr T) (routes (replace_default e T))" "rt_ptr e \<notin> rt_ptr ` set (routes (replace_default e T))"
    using replace_default_ok(1)[of e T] assms(1,3) by (auto simp: remove_ptr_def routes_ok_filter)
  from routes_ok_insert[OF r1(1) ok r1(2)] obtain rs' where
    "upper_bound_insert routeLessThan e (routes (replace_default e T)) = Inr rs'" "routes_ok (nextPtr T) rs'" "e \<in> set rs'" by blast
  then show "routes_ok (nextPtr T') (routes T')" "ift T' = ift T" "nextPtr T' = nextPtr T" "e \<in> set (routes T')"
    using T' by (auto simp: replace_default_ok(2,3))
qed

lemma addRoute_ok:
  assumes "table_ok T" "rt_ptr e < nextPtr T" "rt_ptr e \<notin> rt_ptr ` set (routes T)" "addRoute e T = Inr T'"
  shows "table_ok T'" "e \<in> set (routes T')"
proof -
  obtain T1 where T1: "internalAddRoute e T = Inr T1" "T' = notify (ROUTE_ADDED e) (invalidateCache T1)"
    using assms(4) by (auto simp: addRoute_def mapE_eq_Inr)
  note ok = internalAddRoute_ok[OF table_okD(1)[OF assms(1)] assms(2,3) T1(1)]
  then show "table_ok T'" "e \<in> set (routes T')"
    using table_okD(2)[OF assms(1)] by (simp_all add: T1(2) table_ok_invalidate)
qed

text \<open>Every setter but the one of the administrative distance.\<close>

lemma set_route_field_ok:
  assumes "table_ok T" "set_route_field f u p T = Inr T'" "\<And>r. rt_ptr (u r) = rt_ptr r"
    "f \<in> {F_DESTINATION, F_NETMASK, F_METRIC} \<or>
       (\<forall>r. rt_netmask (u r) = rt_netmask r \<and> rt_dest (u r) = rt_dest r \<and> rt_adminDist (u r) = rt_adminDist r \<and> rt_metric (u r) = rt_metric r)"
  shows "table_ok T'"
proof -
  obtain e where e: "route_at p T = Some e" using assms(2) by (auto simp: set_route_field_def split: option.splits)
  define g where "g = (\<lambda>r. if rt_ptr r = p then u r else r)"
  let ?T = "T\<lparr>routes := map g (routes T)\<rparr>"
  have gp: "rt_ptr (g r) = rt_ptr r" for r using assms(3) by (simp add: g_def)
  have T': "T' = T \<or> routeChanged p f ?T = Inr T'"
    using assms(2) e by (auto simp: set_route_field_def g_def split: if_splits)
  have same: "table_ok ?T"
    if "\<forall>r. rt_netmask (u r) = rt_netmask r \<and> rt_dest (u r) = rt_dest r \<and> rt_adminDist (u r) = rt_adminDist r \<and> rt_metric (u r) = rt_metric r"
  proof -
    have g: "routeLessThan (g a) (g b) = routeLessThan a b" "matches d (g a) = matches d a" "route_ok n (g a) = route_ok n a" for a b d n
      using that assms(3) by (simp_all add: g_def routeLessThan_def matches_def isValid_def route_ok_def)
    have f: "find (matches d) (map g rs) = map_option g (find (matches d) rs)" for d rs
      by (induction rs) (simp_all add: g)
    have "map_option rt_ptr (map_option g x) = map_option rt_ptr x" for x by (cases x) (simp_all add: gp)
    then have "cache_ok ?T" using table_okD(3)[OF assms(1)] by (simp add: cache_ok_def f)
    moreover have "routes_ok (nextPtr T) (map g (routes T))"
      using table_okD(1)[OF assms(1)] by (simp add: routes_ok_def in_order_def sorted_wrt_map g comp_def gp list_all_iff)
    ultimately show ?thesis using table_okD(2)[OF assms(1)] by (simp add: table_ok_def)
  qed
  show ?thesis
  proof (cases "f \<in> {F_DESTINATION, F_NETMASK, F_METRIC} \<and> T' \<noteq> T")
    case True
    let ?R = "T\<lparr>routes := remove_ptr p (routes T)\<rparr>"
    have R: "remove_ptr p (map g rs) = remove_ptr p rs" for rs
      by (induction rs) (simp_all add: remove_ptr_def g_def assms(3))
    obtain e' where e': "route_at p ?T = Some e'" "mapE (notify (ROUTE_CHANGED e')) (mapE invalidateCache (internalAddRoute e' ?R)) = Inr T'"
      using T' True by (auto simp: routeChanged_def R split: option.splits)
    then obtain T1 where T1: "internalAddRoute e' ?R = Inr T1" "T' = notify (ROUTE_CHANGED e') (invalidateCache T1)"
      by (auto simp: mapE_eq_Inr)
    have p: "rt_ptr e' = p" using e'(1) by (auto simp: route_at_def find_Some_iff)
    have "p \<in> rt_ptr ` set (routes T)" using e by (auto simp: route_at_def find_Some_iff)
    then have "p < nextPtr T" using table_okD(1)[OF assms(1)] by (auto simp: routes_ok_def list_all_iff route_ok_def)
    moreover have "p \<notin> rt_ptr ` {x \<in> set (routes T). rt_ptr x \<noteq> p}" by auto
    ultimately have "routes_ok (nextPtr T1) (routes T1) \<and> ift T1 = ift T"
      using internalAddRoute_ok[of ?R e' T1] T1(1) routes_ok_filter[OF table_okD(1)[OF assms(1)]]
      by (auto simp: remove_ptr_def p)
    then show ?thesis using table_okD(2)[OF assms(1)] by (simp add: T1(2) table_ok_invalidate)
  next
    case False
    then show ?thesis using T' same assms(1,4) by (auto simp: routeChanged_def split: option.splits)
  qed
qed


lemma delete_netmask_routes_filter:
  "fst (delete_netmask_routes rs) = filter (\<lambda>r. rt_sourceType r \<noteq> IFACENETMASK) rs"
  by (induction rs) (auto split: prod.splits)

lemma add_netmask_routes_ok:
  "routes_ok (nextPtr T) (routes T) \<Longrightarrow> masks_ok ies \<Longrightarrow>
   \<exists>T'. add_netmask_routes ies T = Inr T' \<and> routes_ok (nextPtr T') (routes T') \<and> ift T' = ift T"
proof (induction ies T rule: add_netmask_routes.induct)
  case (2 ie ies T)
  have m: "masks_ok ies" using "2.prems"(2) by (simp add: masks_ok_def)
  show ?case
  proof (cases "ipv4Data ie")
    case None
    then show ?thesis using "2.IH"(1)[OF None "2.prems"(1) m] by simp
  next
    case (Some d)
    show ?thesis
    proof (cases "ie_netmask d = ALLONES_ADDRESS")
      case True
      then show ?thesis using "2.IH"(3)[OF Some _ "2.prems"(1) m] Some by simp
    next
      case False
      let ?r = "netmask_route (nextPtr T) ie d"
      have r: "route_ok (Suc (nextPtr T)) ?r"
        using "2.prems"(2) Some by (auto simp: route_ok_def netmask_route_def new_route_def masks_ok_def doAnd_def and.assoc)
      have fresh: "rt_ptr ?r \<notin> rt_ptr ` set (routes T)"
        using "2.prems"(1) by (auto simp: netmask_route_def new_route_def routes_ok_def list_all_iff route_ok_def)
      from routes_ok_insert[OF routes_ok_mono[OF "2.prems"(1)] r fresh] obtain rs where
        rs: "upper_bound_insert routeLessThan ?r (routes T) = Inr rs" "routes_ok (Suc (nextPtr T)) rs" by auto
      show ?thesis
        using "2.IH"(2)[OF Some False refl rs(1)] rs m Some False by (simp add: Let_def)
    qed
  qed
qed simp

lemma updateNetmaskRoutes_ok:
  assumes "routes_ok (nextPtr T) (routes T)" "masks_ok (ift T)"
  shows "\<exists>T'. updateNetmaskRoutes T = Inr T' \<and> table_ok T' \<and> ift T' = ift T"
proof -
  let ?T = "T\<lparr>routes := fst (delete_netmask_routes (routes T)), rt_notes := rt_notes T @ snd (delete_netmask_routes (routes T))\<rparr>"
  have "routes_ok (nextPtr ?T) (routes ?T)" using assms(1) by (simp add: delete_netmask_routes_filter routes_ok_filter)
  from add_netmask_routes_ok[OF this assms(2)] obtain T' where
    "add_netmask_routes (ift T) ?T = Inr T'" "routes_ok (nextPtr T') (routes T')" "ift T' = ift T" by auto
  then show ?thesis using assms(2) by (auto simp: updateNetmaskRoutes_def split_beta table_ok_invalidate)
qed

lemma change_interface_ok:
  assumes "table_ok T" "change_interface i f T = Inr T'" "\<And>d. isValidNetmask (ie_netmask d) \<Longrightarrow> isValidNetmask (ie_netmask (f d))"
  shows "table_ok T'"
proof -
  let ?ies = "map (\<lambda>ie. if interfaceId ie = i then ie\<lparr>ipv4Data := map_option f (ipv4Data ie)\<rparr> else ie) (ift T)"
  have "masks_ok ?ies" using table_okD(2)[OF assms(1)] assms(3) by (auto simp: masks_ok_def)
  then show ?thesis
    using updateNetmaskRoutes_ok[of "T\<lparr>ift := ?ies\<rparr>"] table_okD(1)[OF assms(1)] assms(2)
    by (auto simp: change_interface_def receiveChangeNotification_def)
qed

lemma routingCache_invalidate [simp]: "routingCache (invalidateCache T) = Map.empty"
  by (simp add: invalidateCache_def)

lemma deleteInterfaceRoutes_ok: "table_ok T \<Longrightarrow> table_ok (deleteInterfaceRoutes i T)"
proof -
  assume ok: "table_ok T"
  have none: "filter (\<lambda>r. rt_interface r \<noteq> Some i) (routes T) = routes T" if "filter (\<lambda>r. rt_interface r = Some i) (routes T) = []"
    using that by (auto simp: filter_empty_conv filter_id_conv)
  show ?thesis
    using table_okD[OF ok] routes_ok_filter[OF table_okD(1)[OF ok]] none
    by (auto simp: deleteInterfaceRoutes_def Let_def table_ok_invalidate table_ok_def cache_ok_def split: prod.split)
qed

lemma purge_ok: "table_ok T \<Longrightarrow> table_ok (purge T)"
  by (simp add: purge_def isValid_def mr_isValid_def Let_def table_ok_def cache_ok_def)

lemma remove_all_ok: "table_ok T \<Longrightarrow> table_ok (remove_all ps T)"
  by (induction ps T rule: remove_all.induct) (simp_all add: removeRoute_ok)

lemma node_down_empty: "table_ok T \<Longrightarrow> routes (node_down T) = []"
proof -
  have "table_ok T \<Longrightarrow> routes (remove_all ps T) = filter (\<lambda>r. rt_ptr r \<notin> set ps) (routes T)" for ps T
    by (induction ps T rule: remove_all.induct) (auto simp: removeRoute_ok remove_ptr_def intro: filter_cong)
  then show "table_ok T \<Longrightarrow> routes (node_down T) = []" by (simp add: node_down_def filter_empty_conv)
qed


section \<open>Reachable tables\<close>

lemma lookup_ok:
  assumes "table_ok T"
  shows "\<exists>T'. findBestMatchingRoute d T = Inr (find (matches d) (routes T), T') \<and> table_ok T' \<and> routes T' = routes T"
proof -
  have s: "table_ok (snd (search_routes d T))"
    using assms by (auto simp: table_ok_def search_routes_def cache_ok_def Let_def)
  have f: "fst (search_routes d T) = find (matches d) (routes T)" "routes (snd (search_routes d T)) = routes T"
    by (simp_all add: search_routes_def Let_def)
  show ?thesis
  proof (cases "routingCache T d")
    case None
    then show ?thesis using s f by (cases "search_routes d T") (simp add: findBestMatchingRoute_def)
  next
    case (Some x)
    then have x: "x = map_option rt_ptr (find (matches d) (routes T))"
      using table_okD(3)[OF assms] by (simp add: cache_ok_def)
    show ?thesis
    proof (cases "find (matches d) (routes T)")
      case None
      then show ?thesis using Some x assms by (simp add: findBestMatchingRoute_def)
    next
      case (Some r)
      then have r: "r \<in> set (routes T)" by (auto simp: find_Some_iff)
      obtain r' where r': "route_at (rt_ptr r) T = Some r'"
        using r by (cases "route_at (rt_ptr r) T") (auto simp: route_at_def find_None_iff)
      then have "r' \<in> set (routes T)" "rt_ptr r' = rt_ptr r" by (auto simp: route_at_def find_Some_iff)
      then have "r' = r" using r table_okD(1)[OF assms] by (auto simp: routes_ok_def distinct_map inj_on_def)
      then show ?thesis
        using Some x r' assms \<open>routingCache T d = Some x\<close> by (simp add: findBestMatchingRoute_def isValid_def)
    qed
  qed
qed

text \<open>
  What users of the table do: they allocate routes and add and remove them, change every field but the administrative
  distance, look up, and change the interfaces, with masks that are prefixes.
\<close>

inductive table_run :: "routing_table \<Rightarrow> bool" where
  start: "routes T = [] \<Longrightarrow> routingCache T = Map.empty \<Longrightarrow> masks_ok (ift T) \<Longrightarrow> table_run T"
| alloc: "table_run T \<Longrightarrow> table_run (T\<lparr>nextPtr := Suc (nextPtr T)\<rparr>)"
| add: "table_run T \<Longrightarrow> rt_ptr e < nextPtr T \<Longrightarrow> rt_ptr e \<notin> rt_ptr ` set (routes T) \<Longrightarrow> addRoute e T = Inr T' \<Longrightarrow> table_run T'"
| remove: "table_run T \<Longrightarrow> table_run (snd (removeRoute p T))"
| destination: "table_run T \<Longrightarrow> setDestination a p T = Inr T' \<Longrightarrow> table_run T'"
| netmask: "table_run T \<Longrightarrow> setNetmask a p T = Inr T' \<Longrightarrow> table_run T'"
| gateway: "table_run T \<Longrightarrow> setGateway a p T = Inr T' \<Longrightarrow> table_run T'"
| interface: "table_run T \<Longrightarrow> setInterface i p T = Inr T' \<Longrightarrow> table_run T'"
| metric: "table_run T \<Longrightarrow> setMetric m p T = Inr T' \<Longrightarrow> table_run T'"
| lookup: "table_run T \<Longrightarrow> findBestMatchingRoute d T = Inr (x, T') \<Longrightarrow> table_run T'"
| interfaces: "table_run T \<Longrightarrow> masks_ok ies \<Longrightarrow> c \<in> {NF_INTERFACE_CREATED, NF_INTERFACE_DELETED i, NF_INTERFACE_IPv4CONFIG_CHANGED} \<Longrightarrow>
    receiveChangeNotification False c (T\<lparr>ift := ies\<rparr>) = Inr T' \<Longrightarrow> table_run T'"
| router_id: "table_run T \<Longrightarrow> configureRouterId auto T = Inr T' \<Longrightarrow> table_run T'"
| purge: "table_run T \<Longrightarrow> table_run (purge T)"
| down: "table_run T \<Longrightarrow> table_run (node_down T)"

lemma ALLONES_valid: "isValidNetmask ALLONES_ADDRESS"
  unfolding isValidNetmask_iff by (rule bexI[of _ 32]) (simp_all add: ALLONES_ADDRESS_def makeNetmask_raw_def)

lemma table_ok_ift: "table_ok T \<Longrightarrow> masks_ok ies \<Longrightarrow> table_ok (T\<lparr>ift := ies\<rparr>)"
  by (simp add: table_ok_def cache_ok_def)

lemma configureRouterId_ok:
  assumes "table_ok T" "configureRouterId auto T = Inr T'"
  shows "table_ok T'"
proof -
  have r: "table_ok (T\<lparr>routerId := a\<rparr>)" for a using assms(1) by (simp add: table_ok_def cache_ok_def)
  have step: "table_ok T2" if ok: "table_ok T0" and c: "bindE (change_interface i (inetAddr_update (\<lambda>_. a)) T0)
      (change_interface i (ie_netmask_update (\<lambda>_. ALLONES_ADDRESS))) = Inr T2" for T0 T2 i a
  proof -
    obtain T1 where 1: "change_interface i (inetAddr_update (\<lambda>_. a)) T0 = Inr T1"
        "change_interface i (ie_netmask_update (\<lambda>_. ALLONES_ADDRESS)) T1 = Inr T2"
      using c by (auto simp: bindE_eq_Inr)
    have "table_ok T1" using change_interface_ok[OF ok 1(1)] by simp
    then show ?thesis using change_interface_ok[OF _ 1(2)] ALLONES_valid by simp
  qed
  show ?thesis
  proof (cases "ip4_isUnspecified (routerId T)")
    case True
    then show ?thesis using assms r by (auto simp: configureRouterId_def mapE_eq_Inr split: if_splits)
  next
    case False
    then show ?thesis
      using assms step[OF assms(1)]
      by (auto simp: configureRouterId_def bindE_eq_Inr[of "getInterfaceByAddress a b" for a b] bindE_eq_Inr[of "data_of a" for a]
          split: if_splits option.splits)
  qed
qed

lemma table_run_ok: "table_run T \<Longrightarrow> table_ok T"
proof (induction rule: table_run.induct)
  case (start T)
  then show ?case by (simp add: table_ok_def routes_ok_def in_order_def cache_ok_def)
next
  case (alloc T)
  then show ?case using routes_ok_mono[of "nextPtr T" "routes T"] by (simp add: table_ok_def cache_ok_def)
next
  case (add T e T')
  then show ?case by (simp add: addRoute_ok(1))
next
  case (remove T p)
  then show ?case by (simp add: removeRoute_ok(1))
next
  case (lookup T d x T')
  then show ?case using lookup_ok[of T d] by auto
next
  case (interfaces T ies c i T')
  then show ?case
    using updateNetmaskRoutes_ok[of "T\<lparr>ift := ies\<rparr>"] table_okD[of T] table_ok_ift[of T ies] deleteInterfaceRoutes_ok[of "T\<lparr>ift := ies\<rparr>"]
    by (auto simp: receiveChangeNotification_def)
next
  case (router_id T auto T')
  then show ?case by (blast intro: configureRouterId_ok)
qed (simp_all add: set_route_field_ok setDestination_def setNetmask_def setGateway_def setInterface_def setMetric_def
      purge_ok remove_all_ok node_down_def)

text \<open>A route covers an address that agrees with its destination on the prefix.\<close>

definition covers :: "ip4 \<Rightarrow> ipv4_route \<Rightarrow> bool" where
  "covers d r \<longleftrightarrow> (let k = nat (32 - getNetmaskLength (rt_netmask r)) in drop_bit k d = drop_bit k (rt_dest r))"

text \<open>\<open>r\<close> is more specific than \<open>s\<close>, or has the same prefix and is preferred by distance and metric.\<close>

definition at_least_as_good :: "ipv4_route \<Rightarrow> ipv4_route \<Rightarrow> bool" where
  "at_least_as_good r s \<longleftrightarrow>
     getNetmaskLength (rt_netmask s) < getNetmaskLength (rt_netmask r)
   \<or> rt_netmask s = rt_netmask r \<and> rt_dest s = rt_dest r \<and>
       (rt_adminDist r < rt_adminDist s \<or> rt_adminDist r = rt_adminDist s \<and> rt_metric r \<le> rt_metric s)"

lemma covers_iff: "isValidNetmask (rt_netmask r) \<Longrightarrow> matches d r \<longleftrightarrow> covers d r"
  unfolding isValidNetmask_iff matches_def isValid_def covers_def
  by (auto simp: masked_iff_drop_bit getNetmaskLength_netmask Let_def)

lemma same_prefix:
  assumes "route_ok n r" "route_ok m s" "matches d r" "matches d s" "rt_netmask r = rt_netmask s"
  shows "rt_dest r = rt_dest s"
proof (rule bit_word_eqI)
  fix i assume "i < LENGTH(32)"
  have *: "bit ((d XOR rt_dest x) AND rt_netmask x) i = False" if "x = r \<or> x = s" for x
    using that assms(3,4) by (auto simp: matches_def maskedAddrAreEqual_def)
  have **: "bit (rt_dest x AND NOT (rt_netmask x)) i = False" if "x = r \<or> x = s" for x
    using that assms(1,2) by (auto simp: route_ok_def)
  show "bit (rt_dest r) i = bit (rt_dest s) i"
    using *[of r] *[of s] **[of r] **[of s] assms(5) \<open>i < LENGTH(32)\<close> by (auto simp: bit_and_iff bit_xor_iff bit_not_iff)
qed


section \<open>Properties\<close>

lemma find_sorted:
  assumes "routes_ok n rs" "find (matches d) rs = Some r" "s \<in> set rs" "matches d s"
  shows "at_least_as_good r s"
proof -
  obtain i where i: "i < length rs" "rs ! i = r" "matches d r" "\<forall>j < i. \<not> matches d (rs ! j)"
    using assms(2) by (auto simp: find_Some_iff)
  obtain j where j: "j < length rs" "rs ! j = s" using assms(3) by (auto simp: in_set_conv_nth)
  then have "i \<le> j" using i(4) assms(4) by (meson linorder_not_le)
  then have le: "r = s \<or> \<not> routeLessThan s r"
    using assms(1) i j by (cases "i = j") (auto simp: routes_ok_def in_order_def sorted_wrt_iff_nth_less)
  have ok: "route_ok n r" "route_ok n s" using assms(1,3) i by (auto simp: routes_ok_def list_all_iff)
  then have v: "isValidNetmask (rt_netmask r)" "isValidNetmask (rt_netmask s)" by (simp_all add: route_ok_def)
  show ?thesis
  proof (cases "rt_netmask r = rt_netmask s")
    case True
    then show ?thesis
      using le same_prefix[OF ok i(3) assms(4) True] by (auto simp: at_least_as_good_def routeLessThan_def split: if_splits)
  next
    case False
    then show ?thesis using le valid_less_iff[OF v(2,1)] by (auto simp: at_least_as_good_def routeLessThan_def)
  qed
qed

text \<open>
  C18.  Longest prefix matching: in every table that users build without changing the administrative distance of a route
  in place, \<open>findBestMatchingRoute\<close> succeeds, does not change the routes, and returns a route that covers the address
  whenever there is one, with the longest prefix of all that cover it, and among the routes with this prefix the
  smallest distance and then the smallest metric.  The cache never shows.
\<close>

theorem findBestMatchingRoute_longest_prefix:
  assumes "table_run T"
  shows "\<exists>x T'. findBestMatchingRoute d T = Inr (x, T') \<and> routes T' = routes T
    \<and> (x = None \<longleftrightarrow> (\<forall>s \<in> set (routes T). \<not> covers d s))
    \<and> (\<forall>r. x = Some r \<longrightarrow> r \<in> set (routes T) \<and> covers d r \<and> (\<forall>s \<in> set (routes T). covers d s \<longrightarrow> at_least_as_good r s))"
proof -
  note ok = table_run_ok[OF assms]
  have c: "matches d s \<longleftrightarrow> covers d s" if "s \<in> set (routes T)" for s
    using that table_okD(1)[OF ok] by (intro covers_iff) (auto simp: routes_ok_def list_all_iff route_ok_def)
  obtain T' where T': "findBestMatchingRoute d T = Inr (find (matches d) (routes T), T')" "routes T' = routes T"
    using lookup_ok[OF ok] by blast
  have r: "r \<in> set (routes T)" "matches d r" if "find (matches d) (routes T) = Some r" for r
    using that by (auto simp: find_Some_iff)
  show ?thesis
    using T' r c find_sorted[OF table_okD(1)[OF ok]] by (auto simp: find_None_iff intro!: exI[of _ T'])
qed

definition ex_table :: routing_table where
  "ex_table = \<lparr>ift = [\<lparr>interfaceId = 100, nwLayerGateIndex = 0, ie_mtu = 1500, ie_loopback = False, ie_broadcast = True,
        ie_multicast = True, ie_macAddr = 1, ipv4Data = Some (new_interface_data\<lparr>inetAddr := 0x0A000001, ie_netmask := 0xFF000000\<rparr>)\<rparr>],
     routerId = 0, IPForward = True, multicastForward = False, routes = [], multicastRoutes = [], routingCache = Map.empty,
     localAddresses = [], localBroadcastAddresses = [], nextPtr = 2, rt_notes = []\<rparr>"

definition ex_route :: "nat \<Rightarrow> ip4 \<Rightarrow> ip4 \<Rightarrow> u32 \<Rightarrow> ipv4_route" where
  "ex_route p a m d = (new_route p)\<lparr>rt_dest := a, rt_netmask := m, rt_adminDist := d, rt_interface := Some 100\<rparr>"

definition ex_added :: "routing_table res" where
  "ex_added = bindE (addRoute (ex_route 0 0x0A000000 0xFF000000 110) ex_table) (addRoute (ex_route 1 0x0A000000 0xFF000000 120))"

lemma ex_masks: "masks_ok (ift ex_table)"
proof -
  have "isValidNetmask 0xFF000000" by code_simp
  then show ?thesis by (simp add: masks_ok_def ex_table_def)
qed

lemma ex_added_run: "\<exists>T. ex_added = Inr T \<and> table_run T \<and> routes T = [ex_route 0 0x0A000000 0xFF000000 110, ex_route 1 0x0A000000 0xFF000000 120]"
proof -
  let ?a = "ex_route 0 0x0A000000 0xFF000000 110" and ?b = "ex_route 1 0x0A000000 0xFF000000 120"
  have a: "mapE (\<lambda>T. (routes T, nextPtr T)) (addRoute ?a ex_table) = Inr ([?a], 2)" by code_simp
  then obtain T1 where T1: "addRoute ?a ex_table = Inr T1" "routes T1 = [?a]" "nextPtr T1 = 2" by (auto simp: mapE_eq_Inr)
  have "mapE routes ex_added = Inr [?a, ?b]" by code_simp
  then obtain T2 where T2: "addRoute ?b T1 = Inr T2" "ex_added = Inr T2" "routes T2 = [?a, ?b]"
    using T1(1) by (auto simp: mapE_eq_Inr ex_added_def)
  have "table_run ex_table" by (rule table_run.start) (simp_all add: ex_masks, simp_all add: ex_table_def)
  then have "table_run T1" by (rule table_run.add[OF _ _ _ T1(1)]) (simp_all add: ex_table_def ex_route_def new_route_def)
  then have "table_run T2" by (rule table_run.add[OF _ _ _ T2(1)]) (simp_all add: T1 ex_route_def new_route_def)
  then show ?thesis using T2 by blast
qed

lemma findBestMatchingRoute_longest_prefix_witness:
  "\<exists>T r T'. ex_added = Inr T \<and> findBestMatchingRoute 0x0A010203 T = Inr (Some r, T') \<and> covers 0x0A010203 r \<and> rt_adminDist r = 110"
proof -
  obtain T where T: "ex_added = Inr T" "table_run T"
      "routes T = [ex_route 0 0x0A000000 0xFF000000 110, ex_route 1 0x0A000000 0xFF000000 120]"
    using ex_added_run by blast
  have "covers 0x0A010203 (ex_route 0 0x0A000000 0xFF000000 110)" by code_simp
  then obtain r T' where r: "findBestMatchingRoute 0x0A010203 T = Inr (Some r, T')" "covers 0x0A010203 r"
      "\<forall>s \<in> set (routes T). covers 0x0A010203 s \<longrightarrow> at_least_as_good r s" "r \<in> set (routes T)"
    using findBestMatchingRoute_longest_prefix[OF T(2), of "0x0A010203"] T(3) by fastforce
  then have "at_least_as_good r (ex_route 0 0x0A000000 0xFF000000 110)"
    using T(3) \<open>covers 0x0A010203 (ex_route 0 0x0A000000 0xFF000000 110)\<close> by simp
  then have "rt_adminDist r = 110" using r(4) T(3) by (auto simp: at_least_as_good_def ex_route_def)
  then show ?thesis using T(1) r by blast
qed

text \<open>
   The administrative distance is part of the order, but \<open>routeChanged\<close> does not move the route when it changes:
  with two routes to the same network, setting the distance of the second one to a smaller value leaves the worse one in
  front, and look-ups keep returning it.
\<close>

theorem setAdminDist_breaks_the_order:
  "\<exists>T T' T'' r s. table_run T \<and> setAdminDist 50 1 T = Inr T' \<and> findBestMatchingRoute 0x0A010203 T' = Inr (Some r, T'')
    \<and> s \<in> set (routes T') \<and> covers 0x0A010203 s \<and> rt_netmask s = rt_netmask r \<and> rt_adminDist s < rt_adminDist r"
proof -
  obtain T where T: "ex_added = Inr T" "table_run T"
    using ex_added_run by blast
  have "mapE (\<lambda>(r, T''). (map_option rt_adminDist r, map rt_adminDist (routes T''), map (covers 0x0A010203) (routes T''), map rt_netmask (routes T''), map_option rt_netmask r))
      (bindE (bindE ex_added (setAdminDist 50 1)) (findBestMatchingRoute 0x0A010203)) = Inr (Some 110, [110, 50], [True, True], [0xFF000000, 0xFF000000], Some 0xFF000000)"
    by code_simp
  then obtain T' r T'' where *: "setAdminDist 50 1 T = Inr T'" "findBestMatchingRoute 0x0A010203 T' = Inr (Some r, T'')"
      "rt_adminDist r = 110" "rt_netmask r = 0xFF000000"
      "map rt_adminDist (routes T'') = [110, 50]" "map (covers 0x0A010203) (routes T'') = [True, True]"
      "map rt_netmask (routes T'') = [0xFF000000, 0xFF000000]"
    by (auto simp: T(1) mapE_eq_Inr bindE_eq_Inr)
  have "routes T'' = routes T'"
    using *(2) by (auto simp: findBestMatchingRoute_def search_routes_def Let_def split: option.splits if_splits)
  then obtain a s where "routes T' = [a, s]" "rt_adminDist s = 50" "covers 0x0A010203 s" "rt_netmask s = 0xFF000000"
    using *(5-7) by auto
  then show ?thesis using T(2) *(1-4) by (intro exI[of _ T] exI[of _ T'] exI[of _ T''] exI[of _ r] exI[of _ s]) simp
qed

end
