(* ===== verification/Ip_Arp.thy ===== *)
theory Ip_Arp
  imports Ip_Routing
begin

text \<open>
  \<open>ARP\<close>, \<open>networklayer/arp/ARP.cc\<close>.  The caches are lists in the order of the addresses, as the maps of the code are.  The
  timer of an entry is the time at which it expires.  The signals of a step are part of its output, in order; the IPv4
  module (\<open>Ip_Module\<close>) is the only one that listens to them.
\<close>

section \<open>State\<close>

record arp_entry =
  ae_ie :: int
  ae_pending :: bool
  ae_mac :: u64
  ae_lastUpdate :: int
  ae_numRetries :: int
  ae_timer :: "int option"

text \<open>An entry of the global cache is owned by a module; its interface is that of the owner.\<close>

record global_entry =
  ga_owner :: nat
  ga_ie :: int
  ga_mac :: u64

datatype arp_opcode = ARP_REQUEST | ARP_REPLY | ARP_RARP_REQUEST | ARP_RARP_REPLY | ARP_OTHER int

record arp_packet =
  arp_opcode_of :: arp_opcode
  arp_srcMAC :: u64
  arp_destMAC :: u64
  arp_srcIP :: ip4
  arp_destIP :: ip4

text \<open>A packet is sent with the interface and the MAC address of its control info.\<close>

datatype arp_out =
    ArpSend arp_packet int u64
  | InitiatedResolution ip4 int
  | CompletedResolution ip4 u64 int
  | FailedResolution ip4 int

record arp =
  arp_self :: nat
  retryTimeout :: int
  retryCount :: int
  cacheTimeout :: int
  respondToProxyARP :: bool
  globalARP :: bool
  arp_isUp :: bool
  arpCache :: "(ip4 \<times> arp_entry) list"
  globalArpCache :: "(ip4 \<times> global_entry) list"
  numResolutions :: nat
  numFailedResolutions :: nat
  numRequestsSent :: nat
  numRepliesSent :: nat
  arp_outs :: "arp_out list"

fun put_at :: "ip4 \<Rightarrow> 'a \<Rightarrow> (ip4 \<times> 'a) list \<Rightarrow> (ip4 \<times> 'a) list" where
  "put_at k v [] = [(k, v)]"
| "put_at k v ((k', v') # xs) = (if k = k' then (k, v) # xs else if k < k' then (k, v) # (k', v') # xs else (k', v') # put_at k v xs)"

definition erase_at :: "ip4 \<Rightarrow> (ip4 \<times> 'a) list \<Rightarrow> (ip4 \<times> 'a) list" where
  "erase_at k xs = filter (\<lambda>(k', v). k' \<noteq> k) xs"

definition arp_emit :: "arp_out \<Rightarrow> arp \<Rightarrow> arp" where
  "arp_emit x A = A\<lparr>arp_outs := arp_outs A @ [x]\<rparr>"

section \<open>Requests\<close>

definition BROADCAST_MAC :: u64 where "BROADCAST_MAC = 0xFFFFFFFFFFFF"

definition sendARPRequest :: "interface_entry \<Rightarrow> ip4 \<Rightarrow> arp \<Rightarrow> arp res" where
  "sendARPRequest ie a A =
     bindE (data_of ie) (\<lambda>d.
       assertE (ie_macAddr ie \<noteq> 0) ''sendARPRequest: myMACAddress''
        (assertE (\<not> ip4_isUnspecified (inetAddr d)) ''sendARPRequest: myIPAddress''
          (Inr (arp_emit (ArpSend \<lparr>arp_opcode_of = ARP_REQUEST, arp_srcMAC = ie_macAddr ie, arp_destMAC = 0,
                             arp_srcIP = inetAddr d, arp_destIP = a\<rparr> (interfaceId ie) BROADCAST_MAC)
                 (A\<lparr>numRequestsSent := Suc (numRequestsSent A)\<rparr>)))))"

text \<open>The request is sent after the entry has been reset, and the timer is started after that.\<close>

definition initiateARPResolution :: "int \<Rightarrow> interface_entry \<Rightarrow> ip4 \<Rightarrow> arp \<Rightarrow> arp res" where
  "initiateARPResolution now ie a A =
     (let e = \<lparr>ae_ie = interfaceId ie, ae_pending = True, ae_mac = 0, ae_lastUpdate = 0, ae_numRetries = 0,
               ae_timer = Some (now + retryTimeout A)\<rparr>
      in bindE (sendARPRequest ie a A) (\<lambda>A1.
           Inr (arp_emit (InitiatedResolution a (interfaceId ie))
             (A1\<lparr>arpCache := put_at a e (arpCache A1), numResolutions := Suc (numResolutions A1)\<rparr>))))"

definition startAddressResolution :: "int \<Rightarrow> ip4 \<Rightarrow> interface_entry \<Rightarrow> arp \<Rightarrow> arp res" where
  "startAddressResolution now a ie A =
     (if globalARP A then Inl (RuntimeError ''globalARP does not support dynamic address resolution'')
      else case map_of (arpCache A) a of
          None \<Rightarrow> initiateARPResolution now ie a A
        | Some e \<Rightarrow> if ae_pending e then Inr A else initiateARPResolution now ie a A)"

definition getMACAddressFor :: "int \<Rightarrow> ip4 \<Rightarrow> arp \<Rightarrow> u64" where
  "getMACAddressFor now a A =
     (if globalARP A then (case map_of (globalArpCache A) a of None \<Rightarrow> 0 | Some e \<Rightarrow> ga_mac e)
      else case map_of (arpCache A) a of
          None \<Rightarrow> 0
        | Some e \<Rightarrow> if \<not> ae_pending e \<and> now \<le> ae_lastUpdate e + cacheTimeout A then ae_mac e else 0)"

definition getIPv4AddressFor :: "int \<Rightarrow> u64 \<Rightarrow> arp \<Rightarrow> ip4" where
  "getIPv4AddressFor now mac A =
     (if mac = 0 then 0
      else if globalARP A then (case find (\<lambda>(a, e). ga_mac e = mac) (globalArpCache A) of None \<Rightarrow> 0 | Some (a, e) \<Rightarrow> a)
      else case find (\<lambda>(a, e). ae_mac e = mac \<and> now \<le> ae_lastUpdate e + cacheTimeout A) (arpCache A) of
          None \<Rightarrow> 0 | Some (a, e) \<Rightarrow> a)"

text \<open>The timer of the entry for \<open>a\<close> expires.\<close>

definition requestTimedOut :: "int \<Rightarrow> interface_entry list \<Rightarrow> ip4 \<Rightarrow> arp \<Rightarrow> arp res" where
  "requestTimedOut now ies a A =
     (case map_of (arpCache A) a of
        None \<Rightarrow> Inl (Undefined ''entry of the timer'')
      | Some e0 \<Rightarrow>
          let e = e0\<lparr>ae_numRetries := ae_numRetries e0 + 1\<rparr>;
              A1 = A\<lparr>arpCache := put_at a e (arpCache A)\<rparr>
          in if ae_numRetries e < retryCount A
             then (case find_interface (ae_ie e) ies of
                     None \<Rightarrow> Inl (Undefined ''entry->ie'')
                   | Some ie \<Rightarrow>
                       mapE (\<lambda>A2. A2\<lparr>arpCache := put_at a (e\<lparr>ae_timer := Some (now + retryTimeout A)\<rparr>) (arpCache A2)\<rparr>)
                         (sendARPRequest ie a A1))
             else Inr (arp_emit (FailedResolution a (ae_ie e))
                        (A1\<lparr>arpCache := erase_at a (arpCache A1), numFailedResolutions := Suc (numFailedResolutions A1)\<rparr>)))"

section \<open>Packets\<close>

definition updateARPCache :: "int \<Rightarrow> ip4 \<Rightarrow> u64 \<Rightarrow> arp_entry \<Rightarrow> arp \<Rightarrow> arp" where
  "updateARPCache now a mac e A =
     (let e1 = (if ae_pending e then e\<lparr>ae_pending := False, ae_timer := None, ae_numRetries := 0\<rparr> else e);
          e2 = e1\<lparr>ae_mac := mac, ae_lastUpdate := now\<rparr>
      in arp_emit (CompletedResolution a mac (ae_ie e2)) (A\<lparr>arpCache := put_at a e2 (arpCache A)\<rparr>))"

definition addressRecognized :: "ip4 \<Rightarrow> int \<Rightarrow> arp \<Rightarrow> routing_table \<Rightarrow> (bool \<times> routing_table) res" where
  "addressRecognized dest ie A T =
     bindE (isLocalAddress dest T) (\<lambda>(local, T1).
       if local then Inr (True, T1)
       else if respondToProxyARP A
       then mapE (\<lambda>(rtie, T2). (case rtie of None \<Rightarrow> False | Some i \<Rightarrow> i \<noteq> ie, T2)) (getInterfaceForDestAddr dest T1)
       else Inr (False, T1))"

definition processARPPacket :: "int \<Rightarrow> arp_packet \<Rightarrow> int \<Rightarrow> arp \<times> routing_table \<Rightarrow> (arp \<times> routing_table) res" where
  "processARPPacket now p i = (\<lambda>(A, T).
     case find_interface i (ift T) of
       None \<Rightarrow> Inl (NullPointer ''ie'')
     | Some ie \<Rightarrow>
        if arp_srcMAC p = 0 then Inl (RuntimeError ''wrong ARP packet: source MAC address is empty'')
        else if ip4_isUnspecified (arp_srcIP p) then Inl (RuntimeError ''wrong ARP packet: source IPv4 address is empty'')
        else
          let found = map_of (arpCache A) (arp_srcIP p);
              A1 = (case found of None \<Rightarrow> A | Some e \<Rightarrow> updateARPCache now (arp_srcIP p) (arp_srcMAC p) e A)
          in bindE (addressRecognized (arp_destIP p) i A1 T) (\<lambda>(mine, T1).
               if \<not> mine then Inr (A1, T1)
               else
                 let A2 = (case found of
                             Some e \<Rightarrow> A1
                           | None \<Rightarrow> updateARPCache now (arp_srcIP p) (arp_srcMAC p)
                                      \<lparr>ae_ie = i, ae_pending = False, ae_mac = 0, ae_lastUpdate = 0, ae_numRetries = 0,
                                       ae_timer = None\<rparr> A1)
                 in case arp_opcode_of p of
                      ARP_REQUEST \<Rightarrow>
                        bindE (data_of ie) (\<lambda>d.
                          Inr (arp_emit (ArpSend \<lparr>arp_opcode_of = ARP_REPLY, arp_srcMAC = ie_macAddr ie, arp_destMAC = arp_srcMAC p,
                                          arp_srcIP = arp_destIP p, arp_destIP = arp_srcIP p\<rparr> i (arp_srcMAC p))
                                (A2\<lparr>numRepliesSent := Suc (numRepliesSent A2)\<rparr>), T1))
                    | ARP_REPLY \<Rightarrow> Inr (A2, T1)
                    | ARP_RARP_REQUEST \<Rightarrow> Inl (RuntimeError ''RARP request received: RARP is not supported'')
                    | ARP_RARP_REPLY \<Rightarrow> Inl (RuntimeError ''RARP reply received: RARP is not supported'')
                    | ARP_OTHER n \<Rightarrow> Inl (RuntimeError ''Unsupported opcode in received ARP packet'')))"

section \<open>Messages, the global cache, and the life cycle\<close>

datatype arp_message = ArpTimer ip4 | ArpPacketFrom arp_packet int

definition arp_handleMessage :: "int \<Rightarrow> arp_message \<Rightarrow> arp \<times> routing_table \<Rightarrow> (arp \<times> routing_table) res" where
  "arp_handleMessage now msg = (\<lambda>(A, T).
     if \<not> arp_isUp A
     then (case msg of
             ArpTimer a \<Rightarrow> Inl (RuntimeError ''Model error: self msg received when protocol is down'')
           | ArpPacketFrom p i \<Rightarrow> Inr (A, T))
     else case msg of
         ArpTimer a \<Rightarrow> mapE (\<lambda>A'. (A', T)) (requestTimedOut now (ift T) a A)
       | ArpPacketFrom p i \<Rightarrow> processARPPacket now p i (A, T))"

definition arp_start :: "arp \<Rightarrow> arp res" where
  "arp_start A = assertE (arpCache A = []) ''start: arpCache.empty()'' (Inr (A\<lparr>arp_isUp := True\<rparr>))"

definition arp_stop :: "arp \<Rightarrow> arp" where
  "arp_stop A = A\<lparr>arp_isUp := False, arpCache := []\<rparr>"

text \<open>\<open>initialize\<close>: the interfaces with an address enter the global cache, unless the address is there already.\<close>

fun register_global :: "nat \<Rightarrow> interface_entry list \<Rightarrow> (ip4 \<times> global_entry) list \<Rightarrow> (ip4 \<times> global_entry) list" where
  "register_global self [] g = g"
| "register_global self (ie # ies) g =
     register_global self ies
       (case ipv4Data ie of
          None \<Rightarrow> g
        | Some d \<Rightarrow>
            if ie_loopback ie \<or> ip4_isUnspecified (inetAddr d) \<or> map_of g (inetAddr d) \<noteq> None then g
            else put_at (inetAddr d) \<lparr>ga_owner = self, ga_ie = interfaceId ie, ga_mac = ie_macAddr ie\<rparr> g)"

definition arp_configChanged :: "interface_entry \<Rightarrow> arp \<Rightarrow> arp res" where
  "arp_configChanged ie A =
     (if ie_loopback ie then Inr A
      else
        let found = find (\<lambda>(a, e). ga_owner e = arp_self A \<and> ga_ie e = interfaceId ie) (globalArpCache A);
            g = (case found of None \<Rightarrow> globalArpCache A | Some (a, e) \<Rightarrow> erase_at a (globalArpCache A))
        in case ipv4Data ie of
             None \<Rightarrow> Inr (A\<lparr>globalArpCache := g\<rparr>)
           | Some d \<Rightarrow>
               if ip4_isUnspecified (inetAddr d) then Inr (A\<lparr>globalArpCache := g\<rparr>)
               else assertE (map_of g (inetAddr d) = None) ''receiveChangeNotification: where->second == entry''
                      (Inr (A\<lparr>globalArpCache := put_at (inetAddr d)
                               \<lparr>ga_owner = arp_self A, ga_ie = interfaceId ie, ga_mac = ie_macAddr ie\<rparr> g\<rparr>)))"


section \<open>The caches as maps\<close>

lemma map_of_put_at [simp]: "map_of (put_at k v xs) = (map_of xs)(k \<mapsto> v)"
  by (induction k v xs rule: put_at.induct) (auto simp: fun_eq_iff)

lemma map_of_erase_at [simp]: "map_of (erase_at k xs) = (map_of xs)(k := None)"
  by (induction xs) (auto simp: erase_at_def fun_eq_iff)

lemma keys_put_at: "fst ` set (put_at k v xs) = insert k (fst ` set xs)"
  by (induction k v xs rule: put_at.induct) auto

lemma keys_erase_at: "fst ` set (erase_at k xs) = fst ` set xs - {k}"
  by (auto simp: erase_at_def)

lemma erase_at_Nil [simp]: "erase_at k [] = []"
  by (simp add: erase_at_def)

definition keys_sorted :: "(ip4 \<times> 'a) list \<Rightarrow> bool" where
  "keys_sorted xs = sorted_wrt (<) (map fst xs)"

lemma keys_sorted_put_at: "keys_sorted xs \<Longrightarrow> keys_sorted (put_at k v xs)"
proof (induction k v xs rule: put_at.induct)
  case (2 k v k' v' xs)
  have "k < fst x" if "k < k'" "x \<in> set xs" for x
    using 2(2) that by (auto simp: keys_sorted_def)
  moreover have "k' < fst x" if "k' < k" "x \<in> set (put_at k v xs)" for x
  proof -
    have "fst x \<in> insert k (fst ` set xs)"
      using imageI[OF that(2), of fst] by (simp only: keys_put_at)
    with 2(2) that(1) show ?thesis
      by (auto simp: keys_sorted_def)
  qed
  ultimately show ?case
    using 2 by (auto simp: keys_sorted_def)
qed (simp add: keys_sorted_def)

lemma keys_sorted_erase_at: "keys_sorted xs \<Longrightarrow> keys_sorted (erase_at k xs)"
  by (induction xs) (auto simp: keys_sorted_def erase_at_def)

lemma keys_sorted_distinct: "keys_sorted xs \<Longrightarrow> distinct (map fst xs)"
  by (simp add: keys_sorted_def strict_sorted_iff)

lemma erase_put_at: "keys_sorted xs \<Longrightarrow> map_of xs k = None \<Longrightarrow> erase_at k (put_at k v xs) = xs"
  by (induction k v xs rule: put_at.induct) (auto simp: erase_at_def keys_sorted_def filter_id_conv split: if_splits)

lemma erase_put_same: "keys_sorted xs \<Longrightarrow> erase_at k (put_at k v xs) = erase_at k xs"
  by (induction k v xs rule: put_at.induct) (auto simp: erase_at_def keys_sorted_def split: if_splits)

lemma put_put_same: "put_at k v (put_at k w xs) = put_at k v xs"
  by (induction k w xs rule: put_at.induct) auto

section \<open>The invariant of the cache\<close>

text \<open>An entry is pending exactly while its timer runs, and then fewer than \<open>retryCount\<close> retries have been made (an
  address that is not retried at all has made none).\<close>

definition entry_ok :: "int \<Rightarrow> arp_entry \<Rightarrow> bool" where
  "entry_ok n e \<longleftrightarrow>
     (if ae_pending e then ae_timer e \<noteq> None \<and> 0 \<le> ae_numRetries e \<and> ae_numRetries e < max 1 n \<and> ae_mac e = 0
      else ae_timer e = None \<and> ae_numRetries e = 0)"

definition arp_ok :: "arp \<Rightarrow> bool" where
  "arp_ok A \<longleftrightarrow> keys_sorted (arpCache A) \<and> (\<forall>a e. map_of (arpCache A) a = Some e \<longrightarrow> entry_ok (retryCount A) e)
              \<and> (\<not> arp_isUp A \<longrightarrow> arpCache A = [])"

definition pending :: "arp \<Rightarrow> ip4 \<Rightarrow> bool" where
  "pending A a = (case map_of (arpCache A) a of None \<Rightarrow> False | Some e \<Rightarrow> ae_pending e)"

lemma arp_ok_emit [simp]: "arp_ok (arp_emit x A) = arp_ok A"
  by (simp add: arp_ok_def arp_emit_def)

lemma arp_emit_simps [simp]:
  "arpCache (arp_emit x A) = arpCache A" "retryCount (arp_emit x A) = retryCount A" "retryTimeout (arp_emit x A) = retryTimeout A"
  "arp_isUp (arp_emit x A) = arp_isUp A" "arp_outs (arp_emit x A) = arp_outs A @ [x]" "globalARP (arp_emit x A) = globalARP A"
  "cacheTimeout (arp_emit x A) = cacheTimeout A"
  by (simp_all add: arp_emit_def)

lemma sendARPRequest_frame:
  assumes "sendARPRequest ie a A = Inr A'"
  obtains p where "A' = arp_emit (ArpSend p (interfaceId ie) BROADCAST_MAC) (A\<lparr>numRequestsSent := Suc (numRequestsSent A)\<rparr>)"
  using assms by (auto simp: sendARPRequest_def res_simps)

lemma arp_ok_counters [simp]:
  "arp_ok (A\<lparr>numRequestsSent := n\<rparr>) = arp_ok A" "arp_ok (A\<lparr>numResolutions := n\<rparr>) = arp_ok A"
  "arp_ok (A\<lparr>numFailedResolutions := n\<rparr>) = arp_ok A" "arp_ok (A\<lparr>numRepliesSent := n\<rparr>) = arp_ok A"
  by (simp_all add: arp_ok_def)

lemma arp_ok_put [simp, intro]:
  "arp_ok A \<Longrightarrow> arp_isUp A \<Longrightarrow> entry_ok (retryCount A) e \<Longrightarrow> arp_ok (A\<lparr>arpCache := put_at a e (arpCache A)\<rparr>)"
  by (simp add: arp_ok_def keys_sorted_put_at)

lemma arp_ok_erase [simp, intro]: "arp_ok A \<Longrightarrow> arp_ok (A\<lparr>arpCache := erase_at a (arpCache A)\<rparr>)"
  by (auto simp: arp_ok_def keys_sorted_erase_at)

lemma arp_ok_entry: "arp_ok A \<Longrightarrow> map_of (arpCache A) a = Some e \<Longrightarrow> entry_ok (retryCount A) e"
  by (simp add: arp_ok_def)

lemma pending_put [simp]: "pending (A\<lparr>arpCache := put_at a e (arpCache A)\<rparr>) b = (if b = a then ae_pending e else pending A b)"
  by (simp add: pending_def)

lemma pending_cache_cong: "arpCache A = arpCache B \<Longrightarrow> pending A b = pending B b"
  by (simp add: pending_def)

text \<open>What an operation of the module does to an up module: it keeps the invariant.\<close>

definition keeps_ok :: "arp \<Rightarrow> arp \<Rightarrow> bool" where
  "keeps_ok A A' \<longleftrightarrow> (arp_ok A \<and> arp_isUp A \<longrightarrow> arp_ok A' \<and> arp_isUp A') \<and> retryCount A' = retryCount A"

lemma initiate_cache:
  assumes "initiateARPResolution now ie a A = Inr A'"
  obtains t p where "arpCache A' = put_at a \<lparr>ae_ie = interfaceId ie, ae_pending = True, ae_mac = 0, ae_lastUpdate = 0,
      ae_numRetries = 0, ae_timer = Some t\<rparr> (arpCache A)" "retryCount A' = retryCount A" "arp_isUp A' = arp_isUp A"
    "arp_outs A' = arp_outs A @ [ArpSend p (interfaceId ie) BROADCAST_MAC, InitiatedResolution a (interfaceId ie)]"
  using assms by (auto simp: initiateARPResolution_def Let_def res_simps elim!: sendARPRequest_frame)

lemma arp_ok_cache_cong:
  "arp_ok (A\<lparr>arpCache := c\<rparr>) \<Longrightarrow> arpCache A' = c \<Longrightarrow> retryCount A' = retryCount A \<Longrightarrow> arp_isUp A' = arp_isUp A \<Longrightarrow> arp_ok A'"
  by (simp add: arp_ok_def)

lemma initiate_ok:
  assumes "arp_ok A" "arp_isUp A" "initiateARPResolution now ie a A = Inr A'"
  shows "arp_ok A' \<and> arp_isUp A' \<and> (\<forall>b. pending A' b = (b = a \<or> pending A b))"
proof -
  obtain t p where c: "arpCache A' = put_at a \<lparr>ae_ie = interfaceId ie, ae_pending = True, ae_mac = 0, ae_lastUpdate = 0,
      ae_numRetries = 0, ae_timer = Some t\<rparr> (arpCache A)" "retryCount A' = retryCount A" "arp_isUp A' = arp_isUp A"
    using initiate_cache[OF assms(3)] by metis
  have "arp_ok (A\<lparr>arpCache := arpCache A'\<rparr>)"
    using assms(1,2) unfolding c(1) by (intro arp_ok_put) (simp_all add: entry_ok_def)
  then have "arp_ok A'"
    by (rule arp_ok_cache_cong) (simp_all add: c)
  then show ?thesis
    using assms(2) c by (simp add: pending_def)
qed

lemma start_resolution_ok:
  assumes "arp_ok A" "arp_isUp A" "startAddressResolution now a ie A = Inr A'"
  shows "arp_ok A' \<and> arp_isUp A' \<and> (\<forall>b. pending A' b = (b = a \<or> pending A b))"
proof (cases "\<exists>e. map_of (arpCache A) a = Some e \<and> ae_pending e")
  case True
  then show ?thesis
    using assms by (auto simp: startAddressResolution_def pending_def split: if_splits)
next
  case False
  then have "initiateARPResolution now ie a A = Inr A'"
    using assms(3) by (auto simp: startAddressResolution_def split: if_splits option.splits)
  from initiate_ok[OF assms(1,2) this] show ?thesis .
qed

lemma requestTimedOut_cases:
  assumes "requestTimedOut now ies a A = Inr A'"
  obtains e0 where "map_of (arpCache A) a = Some e0" "retryCount A \<le> ae_numRetries e0 + 1"
      "arpCache A' = erase_at a (put_at a (e0\<lparr>ae_numRetries := ae_numRetries e0 + 1\<rparr>) (arpCache A))"
      "retryCount A' = retryCount A" "arp_isUp A' = arp_isUp A" "arp_outs A' = arp_outs A @ [FailedResolution a (ae_ie e0)]"
  | e0 p where "map_of (arpCache A) a = Some e0" "ae_numRetries e0 + 1 < retryCount A"
      "arpCache A' = put_at a (e0\<lparr>ae_numRetries := ae_numRetries e0 + 1, ae_timer := Some (now + retryTimeout A)\<rparr>) (arpCache A)"
      "retryCount A' = retryCount A" "arp_isUp A' = arp_isUp A" "arp_outs A' = arp_outs A @ [ArpSend p (ae_ie e0) BROADCAST_MAC]"
proof -
  obtain e0 where e0: "map_of (arpCache A) a = Some e0"
    using assms by (auto simp: requestTimedOut_def split: option.splits)
  show ?thesis
  proof (cases "ae_numRetries e0 + 1 < retryCount A")
    case True
    then show ?thesis
      using assms that(2)[OF e0 True] e0
      by (auto simp: requestTimedOut_def Let_def res_simps put_put_same find_interface_def find_Some_iff
          elim!: sendARPRequest_frame split: option.splits)
  next
    case False
    then show ?thesis
      using assms that(1)[OF e0] e0 by (auto simp: requestTimedOut_def Let_def)
  qed
qed

lemma requestTimedOut_ok:
  assumes "arp_ok A" "arp_isUp A" "pending A a" "requestTimedOut now ies a A = Inr A'"
  shows "arp_ok A' \<and> arp_isUp A'"
  using assms(4)
proof (cases rule: requestTimedOut_cases)
  case (1 e0)
  have "arp_ok (A\<lparr>arpCache := arpCache A'\<rparr>)"
    using assms(1,2) unfolding 1(3) by (auto simp: arp_ok_def keys_sorted_put_at keys_sorted_erase_at)
  then show ?thesis
    using 1 assms(2) arp_ok_cache_cong by auto
next
  case (2 e0)
  have "arp_ok (A\<lparr>arpCache := arpCache A'\<rparr>)"
    using assms(1,2,3) 2 arp_ok_entry[OF assms(1) 2(1)] unfolding 2(3)
    by (intro arp_ok_put) (auto simp: entry_ok_def pending_def)
  then show ?thesis
    using 2 assms(2) arp_ok_cache_cong by auto
qed

lemma updateARPCache_ok:
  assumes "arp_ok A" "arp_isUp A" "entry_ok (retryCount A) e"
  shows "arp_ok (updateARPCache now a mac e A) \<and> arp_isUp (updateARPCache now a mac e A)
       \<and> (\<forall>b. pending (updateARPCache now a mac e A) b = (b \<noteq> a \<and> pending A b))"
  using assms by (auto simp: updateARPCache_def Let_def entry_ok_def pending_cache_cong[of "arp_emit x B" "B" for x B])

lemma processARPPacket_ok:
  assumes "arp_ok A" "arp_isUp A" "processARPPacket now p i (A, T) = Inr (A', T')"
  shows "arp_ok A' \<and> arp_isUp A' \<and> (\<forall>b. pending A' b \<longrightarrow> pending A b)"
proof -
  define A1 where "A1 = (case map_of (arpCache A) (arp_srcIP p) of None \<Rightarrow> A
                         | Some e \<Rightarrow> updateARPCache now (arp_srcIP p) (arp_srcMAC p) e A)"
  define A2 where "A2 = (case map_of (arpCache A) (arp_srcIP p) of Some e \<Rightarrow> A1
                         | None \<Rightarrow> updateARPCache now (arp_srcIP p) (arp_srcMAC p)
                                    \<lparr>ae_ie = i, ae_pending = False, ae_mac = 0, ae_lastUpdate = 0, ae_numRetries = 0,
                                     ae_timer = None\<rparr> A1)"
  have ok1: "arp_ok A1 \<and> arp_isUp A1 \<and> (\<forall>b. pending A1 b \<longrightarrow> pending A b)"
    using assms(1,2) updateARPCache_ok[OF assms(1,2) arp_ok_entry[OF assms(1)]] by (auto simp: A1_def split: option.splits)
  have ok2: "arp_ok A2 \<and> arp_isUp A2 \<and> (\<forall>b. pending A2 b \<longrightarrow> pending A b)"
    using ok1 updateARPCache_ok[of A1] by (auto simp: A2_def entry_ok_def split: option.splits)
  have "A' \<in> {A1, A2} \<or> (\<exists>x n. A' = arp_emit x (A2\<lparr>numRepliesSent := n\<rparr>))"
    using assms(3) unfolding processARPPacket_def Let_def prod.case A1_def[symmetric] A2_def[symmetric]
    by (auto simp: res_simps split: option.splits if_splits arp_opcode.splits)
  moreover have "pending (arp_emit x (A2\<lparr>numRepliesSent := n\<rparr>)) b = pending A2 b" for x n b
    by (rule pending_cache_cong) simp
  ultimately show ?thesis
    using ok1 ok2 by auto
qed

section \<open>Reachable states\<close>

text \<open>What can happen to the module: the node starts and stops, IPv4 asks for an address, a packet arrives, and a timer that
  runs expires.\<close>

datatype arp_event =
    EvStart
  | EvStop
  | EvResolve ip4 interface_entry
  | EvMessage arp_message

definition timer_runs :: "arp_event \<Rightarrow> arp \<Rightarrow> bool" where
  "timer_runs ev A = (case ev of
     EvMessage (ArpTimer a) \<Rightarrow> (case map_of (arpCache A) a of None \<Rightarrow> False | Some e \<Rightarrow> ae_timer e \<noteq> None)
   | EvResolve a ie \<Rightarrow> arp_isUp A
   | _ \<Rightarrow> True)"

definition arp_event_step :: "int \<Rightarrow> arp_event \<Rightarrow> arp \<times> routing_table \<Rightarrow> (arp \<times> routing_table) res" where
  "arp_event_step now ev = (\<lambda>(A, T). case ev of
     EvStart \<Rightarrow> mapE (\<lambda>A'. (A', T)) (arp_start A)
   | EvStop \<Rightarrow> Inr (arp_stop A, T)
   | EvResolve a ie \<Rightarrow> mapE (\<lambda>A'. (A', T)) (startAddressResolution now a ie A)
   | EvMessage msg \<Rightarrow> arp_handleMessage now msg (A, T))"

inductive arp_run :: "arp \<Rightarrow> bool" where
  boot: "arpCache A = [] \<Longrightarrow> arp_run A"
| step: "arp_run A \<Longrightarrow> timer_runs ev A \<Longrightarrow> arp_event_step now ev (A, T) = Inr (A', T') \<Longrightarrow> arp_run A'"

lemma arp_step_ok:
  assumes "arp_ok A" "timer_runs ev A" "arp_event_step now ev (A, T) = Inr (A', T')"
  shows "arp_ok A'"
proof (cases ev)
  case EvStart
  then show ?thesis
    using assms by (auto simp: arp_event_step_def arp_start_def res_simps arp_ok_def)
next
  case EvStop
  then show ?thesis
    using assms by (auto simp: arp_event_step_def arp_stop_def arp_ok_def keys_sorted_def)
next
  case (EvResolve a ie)
  then show ?thesis
    using assms start_resolution_ok[OF assms(1)] by (auto simp: arp_event_step_def timer_runs_def res_simps)
next
  case (EvMessage msg)
  show ?thesis
  proof (cases msg)
    case (ArpTimer a)
    then have "pending A a"
      using EvMessage assms(1,2) arp_ok_entry[OF assms(1)]
      by (fastforce simp: timer_runs_def pending_def entry_ok_def split: option.splits if_splits)
    then show ?thesis
      using EvMessage ArpTimer assms requestTimedOut_ok[OF assms(1)]
      by (auto simp: arp_event_step_def arp_handleMessage_def res_simps split: if_splits)
  next
    case (ArpPacketFrom p i)
    then show ?thesis
      using EvMessage assms processARPPacket_ok[OF assms(1)]
      by (auto simp: arp_event_step_def arp_handleMessage_def split: if_splits)
  qed
qed

lemma arp_run_ok: "arp_run A \<Longrightarrow> arp_ok A"
proof (induction rule: arp_run.induct)
  case (boot A)
  then show ?case by (simp add: arp_ok_def keys_sorted_def)
next
  case (step A ev now T A' T')
  then show ?case using arp_step_ok by blast
qed


section \<open>Properties\<close>

text \<open>The timer of an address expires again and again, and nothing else happens to it.\<close>

fun timeouts :: "int list \<Rightarrow> interface_entry list \<Rightarrow> ip4 \<Rightarrow> arp \<Rightarrow> arp res" where
  "timeouts [] ies a A = Inr A"
| "timeouts (t # ts) ies a A = bindE (requestTimedOut t ies a A) (timeouts ts ies a)"

definition request_for :: "interface_entry \<Rightarrow> ipv4_interface_data \<Rightarrow> ip4 \<Rightarrow> arp_packet" where
  "request_for ie d a = \<lparr>arp_opcode_of = ARP_REQUEST, arp_srcMAC = ie_macAddr ie, arp_destMAC = 0, arp_srcIP = inetAddr d, arp_destIP = a\<rparr>"

definition reply_to :: "interface_entry \<Rightarrow> arp_packet \<Rightarrow> arp_packet" where
  "reply_to ie p = \<lparr>arp_opcode_of = ARP_REPLY, arp_srcMAC = ie_macAddr ie, arp_destMAC = arp_srcMAC p, arp_srcIP = arp_destIP p,
                    arp_destIP = arp_srcIP p\<rparr>"

definition usable :: "interface_entry \<Rightarrow> ipv4_interface_data \<Rightarrow> bool" where
  "usable ie d \<longleftrightarrow> ipv4Data ie = Some d \<and> ie_macAddr ie \<noteq> 0 \<and> inetAddr d \<noteq> 0"

lemma find_interface_id: "find_interface i ies = Some ie \<Longrightarrow> interfaceId ie = i"
  by (auto simp: find_interface_def find_Some_iff)

lemma sendARPRequest_usable:
  "usable ie d \<Longrightarrow> sendARPRequest ie a A =
     Inr (arp_emit (ArpSend (request_for ie d a) (interfaceId ie) BROADCAST_MAC) (A\<lparr>numRequestsSent := Suc (numRequestsSent A)\<rparr>))"
  by (simp add: usable_def sendARPRequest_def data_of_def ip4_isUnspecified_def UNSPECIFIED_ADDRESS_def request_for_def)

lemma timeouts_exact:
  assumes "find_interface i ies = Some ie" "usable ie d" "map_of (arpCache A) a = Some e" "ae_ie e = i"
    and "int (length ts) = max 1 (retryCount A - ae_numRetries e)"
  shows "\<exists>A'. timeouts ts ies a A = Inr A' \<and> map_of (arpCache A') = (map_of (arpCache A))(a := None)
           \<and> arp_outs A' = arp_outs A @ replicate (length ts - 1) (ArpSend (request_for ie d a) i BROADCAST_MAC)
                           @ [FailedResolution a i]"
  using assms
proof (induction ts arbitrary: A e)
  case Nil
  then show ?case by simp
next
  case (Cons t ts)
  show ?case
  proof (cases "ae_numRetries e + 1 < retryCount A")
    case True
    let ?e = "e\<lparr>ae_numRetries := ae_numRetries e + 1, ae_timer := Some (t + retryTimeout A)\<rparr>"
    obtain A1 where A1: "requestTimedOut t ies a A = Inr A1" "arpCache A1 = put_at a ?e (arpCache A)" "retryCount A1 = retryCount A"
      "arp_outs A1 = arp_outs A @ [ArpSend (request_for ie d a) i BROADCAST_MAC]"
      using Cons.prems True
      by (simp add: requestTimedOut_def Let_def sendARPRequest_usable put_put_same find_interface_id)
    have "int (length ts) = max 1 (retryCount A1 - ae_numRetries ?e)"
      using Cons.prems(5) True A1(3) by simp
    moreover have "map_of (arpCache A1) a = Some ?e" "ae_ie ?e = i"
      using A1 Cons.prems(4) by simp_all
    ultimately
    obtain A' where A': "timeouts ts ies a A1 = Inr A'" "map_of (arpCache A') = (map_of (arpCache A1))(a := None)"
      "arp_outs A' = arp_outs A1 @ replicate (length ts - 1) (ArpSend (request_for ie d a) i BROADCAST_MAC) @ [FailedResolution a i]"
      using Cons.IH[OF Cons.prems(1,2), of A1 ?e] by blast
    have "ts \<noteq> []"
      using Cons.prems(5) True by auto
    then obtain n where "length ts = Suc n"
      by (cases ts) auto
    then show ?thesis
      using A1 A' by (simp add: fun_eq_iff)
  next
    case False
    then have "ts = []"
      using Cons.prems(5) by simp
    then show ?thesis
      using Cons.prems False by (simp add: requestTimedOut_def Let_def fun_eq_iff)
  qed
qed

text \<open>
  The cache of a module that is reached from its start is a map in the order of the addresses, and an entry is pending
  exactly while its timer runs; then it has no MAC address and has made fewer than \<open>retryCount\<close> retries, so that no request is
  ever left without a timer.
\<close>

theorem arp_cache_invariant:
  assumes "arp_run A" and "map_of (arpCache A) a = Some e"
  shows "distinct (map fst (arpCache A)) \<and> sorted (map fst (arpCache A))
    \<and> (ae_pending e = (ae_timer e \<noteq> None)) \<and> 0 \<le> ae_numRetries e \<and> ae_numRetries e < max 1 (retryCount A)
    \<and> (ae_pending e \<longrightarrow> ae_mac e = 0) \<and> (\<not> ae_pending e \<longrightarrow> ae_numRetries e = 0)"
proof -
  have ok: "arp_ok A"
    using assms(1) by (rule arp_run_ok)
  have "entry_ok (retryCount A) e"
    using arp_ok_entry[OF ok assms(2)] .
  then show ?thesis
    using ok by (auto simp: arp_ok_def entry_ok_def keys_sorted_def strict_sorted_iff split: if_splits)
qed

definition idle_arp :: arp where
  "idle_arp = \<lparr>arp_self = 0, retryTimeout = 1, retryCount = 3, cacheTimeout = 120, respondToProxyARP = True, globalARP = False,
     arp_isUp = True, arpCache = [], globalArpCache = [], numResolutions = 0, numFailedResolutions = 0, numRequestsSent = 0,
     numRepliesSent = 0, arp_outs = []\<rparr>"

definition host_data :: "ip4 \<Rightarrow> ipv4_interface_data" where
  "host_data a = new_interface_data\<lparr>inetAddr := a, ie_netmask := 0xFFFFFF00\<rparr>"

definition host_interface :: "ip4 \<Rightarrow> u64 \<Rightarrow> interface_entry" where
  "host_interface a mac = \<lparr>interfaceId = 101, nwLayerGateIndex = 0, ie_mtu = 1500, ie_loopback = False, ie_broadcast = True,
     ie_multicast = True, ie_macAddr = mac, ipv4Data = Some (host_data a)\<rparr>"

lemma host_usable: "usable (host_interface 0x0A000001 0xA1) (host_data 0x0A000001)" "usable (host_interface 0x0A000002 0xB2) (host_data 0x0A000002)"
  by (simp_all add: usable_def host_interface_def host_data_def)

lemma idle_arp_resolves:
  "\<exists>A'. startAddressResolution 0 0x0A000002 (host_interface 0x0A000001 0xA1) idle_arp = Inr A' \<and> retryCount A' = 3
     \<and> arpCache A' = [(0x0A000002, \<lparr>ae_ie = 101, ae_pending = True, ae_mac = 0, ae_lastUpdate = 0, ae_numRetries = 0, ae_timer = Some 1\<rparr>)]"
proof -
  have "interfaceId (host_interface 0x0A000001 0xA1) = 101"
    by (simp add: host_interface_def)
  then show ?thesis
    by (simp add: startAddressResolution_def initiateARPResolution_def Let_def sendARPRequest_usable[OF host_usable(1)] idle_arp_def)
qed

lemma waiting_run:
  "\<exists>A. arp_run A \<and> retryCount A = 3 \<and> map_of (arpCache A) 0x0A000002 = Some \<lparr>ae_ie = 101, ae_pending = True, ae_mac = 0,
     ae_lastUpdate = 0, ae_numRetries = 0, ae_timer = Some 1\<rparr>"
proof -
  obtain A' where A': "startAddressResolution 0 0x0A000002 (host_interface 0x0A000001 0xA1) idle_arp = Inr A'" "retryCount A' = 3"
     "arpCache A' = [(0x0A000002, \<lparr>ae_ie = 101, ae_pending = True, ae_mac = 0, ae_lastUpdate = 0, ae_numRetries = 0, ae_timer = Some 1\<rparr>)]"
    using idle_arp_resolves by auto
  have "arp_run idle_arp"
    by (rule arp_run.boot) (simp add: idle_arp_def)
  then have "arp_run A'"
    by (rule arp_run.step[where ev = "EvResolve 0x0A000002 (host_interface 0x0A000001 0xA1)" and now = 0])
       (simp_all add: arp_event_step_def A' timer_runs_def idle_arp_def[THEN arg_cong[where f = arp_isUp]])
  then show ?thesis
    using A' by auto
qed

theorem arp_cache_invariant_witness:
  "\<exists>A e. arp_run A \<and> map_of (arpCache A) 0x0A000002 = Some e \<and> ae_pending e \<and> ae_timer e \<noteq> None \<and> ae_mac e = 0"
proof -
  obtain A e where A: "arp_run A" "map_of (arpCache A) 0x0A000002 = Some e" "ae_pending e"
    using waiting_run by auto
  with arp_cache_invariant[OF A(1,2)] show ?thesis
    by blast
qed

text \<open>
  C20. A resolution ends.  When an address stays unanswered, its timer expires \<open>retryCount\<close> times in all: all but the last
  time the same request is broadcast again on the interface of the entry, and at the last one the entry is removed and the
  failure is announced, once.
\<close>

theorem resolution_ends:
  assumes "arp_run A" and "map_of (arpCache A) a = Some e" and "ae_pending e"
    and "find_interface (ae_ie e) ies = Some ie" and "usable ie d"
    and "int (length ts) = max 1 (retryCount A) - ae_numRetries e"
  shows "\<exists>A'. timeouts ts ies a A = Inr A' \<and> map_of (arpCache A') = (map_of (arpCache A))(a := None)
    \<and> arp_outs A' = arp_outs A @ replicate (length ts - 1) (ArpSend (request_for ie d a) (ae_ie e) BROADCAST_MAC)
                    @ [FailedResolution a (ae_ie e)]"
proof -
  have "entry_ok (retryCount A) e"
    using arp_run_ok[OF assms(1)] assms(2) by (rule arp_ok_entry)
  then have "int (length ts) = max 1 (retryCount A - ae_numRetries e)"
    using assms(3,6) by (auto simp: entry_ok_def max_def split: if_splits)
  with assms(2,4,5) show ?thesis
    by (intro timeouts_exact) auto
qed

theorem resolution_ends_witness:
  "\<exists>A A'. arp_run A \<and> timeouts [1, 2, 3] [host_interface 0x0A000001 0xA1] 0x0A000002 A = Inr A'
     \<and> arpCache A \<noteq> [] \<and> map_of (arpCache A') 0x0A000002 = None
     \<and> arp_outs A' = arp_outs A @ replicate 2 (ArpSend (request_for (host_interface 0x0A000001 0xA1) (host_data 0x0A000001) 0x0A000002)
                                          101 BROADCAST_MAC) @ [FailedResolution 0x0A000002 101]"
proof -
  obtain A where A: "arp_run A" "retryCount A = 3" "map_of (arpCache A) 0x0A000002 = Some \<lparr>ae_ie = 101, ae_pending = True,
     ae_mac = 0, ae_lastUpdate = 0, ae_numRetries = 0, ae_timer = Some 1\<rparr>"
    using waiting_run by auto
  have f: "find_interface 101 [host_interface 0x0A000001 0xA1] = Some (host_interface 0x0A000001 0xA1)"
    by (simp add: find_interface_def host_interface_def)
  obtain A' where A': "timeouts [1, 2, 3] [host_interface 0x0A000001 0xA1] 0x0A000002 A = Inr A'"
    "map_of (arpCache A') = (map_of (arpCache A))(0x0A000002 := None)"
    "arp_outs A' = arp_outs A @ replicate 2 (ArpSend (request_for (host_interface 0x0A000001 0xA1) (host_data 0x0A000001) 0x0A000002)
                                          101 BROADCAST_MAC) @ [FailedResolution 0x0A000002 101]"
    using resolution_ends[OF A(1,3) _ _ host_usable(1), of "[host_interface 0x0A000001 0xA1]" "[1, 2, 3]"] A(2) f
    by (auto simp: numeral_2_eq_2 simp del: timeouts.simps)
  have "arpCache A \<noteq> []" "map_of (arpCache A') 0x0A000002 = None"
    using A(3) A'(2) by auto
  with A(1) A'(1,3) show ?thesis
    by blast
qed

section \<open>Two nodes\<close>

lemma updateARPCache_simps:
  "map_of (arpCache (updateARPCache now a mac e A)) = (map_of (arpCache A))
     (a \<mapsto> e\<lparr>ae_pending := False, ae_timer := (if ae_pending e then None else ae_timer e),
            ae_numRetries := (if ae_pending e then 0 else ae_numRetries e), ae_mac := mac, ae_lastUpdate := now\<rparr>)"
  "arp_outs (updateARPCache now a mac e A) = arp_outs A @ [CompletedResolution a mac (ae_ie e)]"
  "globalARP (updateARPCache now a mac e A) = globalARP A" "cacheTimeout (updateARPCache now a mac e A) = cacheTimeout A"
  "retryCount (updateARPCache now a mac e A) = retryCount A" "arp_isUp (updateARPCache now a mac e A) = arp_isUp A"
  by (cases e; simp add: updateARPCache_def Let_def)+

lemma getMAC_learned:
  "map_of (arpCache A) a = Some e \<Longrightarrow> \<not> globalARP A \<Longrightarrow> \<not> ae_pending e \<Longrightarrow> t \<le> ae_lastUpdate e + cacheTimeout A
   \<Longrightarrow> getMACAddressFor t a A = ae_mac e"
  by (simp add: getMACAddressFor_def)

text \<open>
  Two nodes resolve an address.  The first asks for an address of the second: its request is broadcast, the second node
  learns the addresses of the first from it and answers with the MAC address of the interface that has received it, and when the
  answer arrives the first node knows this MAC address, tells so once, and its timer is stopped.  Both remember for
  \<open>cacheTimeout\<close>.
\<close>

theorem arp_request_reply:
  assumes up: "arp_isUp A1" "arp_isUp A2" "\<not> globalARP A1" "\<not> globalARP A2"
    and idle: "\<not> pending A1 a"
    and ie1: "usable ie1 d1" "find_interface (interfaceId ie1) (ift T1) = Some ie1" "isLocalAddress (inetAddr d1) T1 = Inr (True, T1')"
    and ie2: "usable ie2 d2" "find_interface (interfaceId ie2) (ift T2) = Some ie2" "isLocalAddress a T2 = Inr (True, T2')"
    and a: "a \<noteq> 0"
  shows "\<exists>A1' A2' A1'' e. startAddressResolution t a ie1 A1 = Inr A1' \<and> pending A1' a
      \<and> arp_outs A1' = arp_outs A1 @ [ArpSend (request_for ie1 d1 a) (interfaceId ie1) BROADCAST_MAC,
                                      InitiatedResolution a (interfaceId ie1)]
      \<and> arp_handleMessage t' (ArpPacketFrom (request_for ie1 d1 a) (interfaceId ie2)) (A2, T2) = Inr (A2', T2')
      \<and> (\<exists>j. arp_outs A2' = arp_outs A2 @ [CompletedResolution (inetAddr d1) (ie_macAddr ie1) j,
            ArpSend (reply_to ie2 (request_for ie1 d1 a)) (interfaceId ie2) (ie_macAddr ie1)])
      \<and> (\<forall>n \<le> t' + cacheTimeout A2. getMACAddressFor n (inetAddr d1) A2' = ie_macAddr ie1)
      \<and> arp_handleMessage t'' (ArpPacketFrom (reply_to ie2 (request_for ie1 d1 a)) (interfaceId ie1)) (A1', T1) = Inr (A1'', T1')
      \<and> arp_outs A1'' = arp_outs A1' @ [CompletedResolution a (ie_macAddr ie2) (interfaceId ie1)]
      \<and> map_of (arpCache A1'') a = Some e \<and> \<not> ae_pending e \<and> ae_timer e = None
      \<and> (\<forall>n \<le> t'' + cacheTimeout A1. getMACAddressFor n a A1'' = ie_macAddr ie2)"
proof -
  let ?p = "request_for ie1 d1 a"
  let ?q = "reply_to ie2 ?p"
  define e1 where "e1 = \<lparr>ae_ie = interfaceId ie1, ae_pending = True, ae_mac = 0, ae_lastUpdate = 0, ae_numRetries = 0,
                         ae_timer = Some (t + retryTimeout A1)\<rparr>"
  obtain A1' where A1': "startAddressResolution t a ie1 A1 = Inr A1'" "arpCache A1' = put_at a e1 (arpCache A1)"
    "arp_outs A1' = arp_outs A1 @ [ArpSend ?p (interfaceId ie1) BROADCAST_MAC, InitiatedResolution a (interfaceId ie1)]"
    "globalARP A1' = globalARP A1" "cacheTimeout A1' = cacheTimeout A1" "arp_isUp A1' = arp_isUp A1"
    using idle up by (auto simp: startAddressResolution_def initiateARPResolution_def Let_def sendARPRequest_usable[OF ie1(1)]
        e1_def pending_def split: option.splits)
  define e2 where "e2 = (case map_of (arpCache A2) (inetAddr d1) of Some e \<Rightarrow> e
      | None \<Rightarrow> \<lparr>ae_ie = interfaceId ie2, ae_pending = False, ae_mac = 0, ae_lastUpdate = 0, ae_numRetries = 0, ae_timer = None\<rparr>)"
  define B where "B = updateARPCache t' (inetAddr d1) (ie_macAddr ie1) e2 A2"
  define A2' where "A2' = arp_emit (ArpSend ?q (interfaceId ie2) (ie_macAddr ie1)) (B\<lparr>numRepliesSent := Suc (numRepliesSent B)\<rparr>)"
  have "arp_handleMessage t' (ArpPacketFrom ?p (interfaceId ie2)) (A2, T2) = Inr (A2', T2')"
    using up ie1(1) ie2
    by (simp add: arp_handleMessage_def processARPPacket_def request_for_def usable_def ip4_isUnspecified_def UNSPECIFIED_ADDRESS_def
        addressRecognized_def Let_def data_of_def e2_def B_def A2'_def reply_to_def split: option.splits)
  moreover have "arp_outs A2' = arp_outs A2 @ [CompletedResolution (inetAddr d1) (ie_macAddr ie1) (ae_ie e2),
            ArpSend ?q (interfaceId ie2) (ie_macAddr ie1)]"
    by (simp add: A2'_def B_def updateARPCache_simps)
  moreover have "getMACAddressFor n (inetAddr d1) A2' = ie_macAddr ie1" if "n \<le> t' + cacheTimeout A2" for n
    using that up by (simp add: getMACAddressFor_def A2'_def B_def updateARPCache_simps)
  moreover
  define A1'' where "A1'' = updateARPCache t'' a (ie_macAddr ie2) e1 A1'"
  have "arp_handleMessage t'' (ArpPacketFrom ?q (interfaceId ie1)) (A1', T1) = Inr (A1'', T1')"
    using up ie1 ie2(1) a A1'
    by (simp add: arp_handleMessage_def processARPPacket_def request_for_def usable_def ip4_isUnspecified_def UNSPECIFIED_ADDRESS_def
        addressRecognized_def Let_def data_of_def A1''_def reply_to_def)
  moreover have "getMACAddressFor n a A1'' = ie_macAddr ie2" if "n \<le> t'' + cacheTimeout A1" for n
    using that up A1' by (simp add: getMACAddressFor_def A1''_def updateARPCache_simps)
  moreover have "pending A1' a"
    by (simp add: pending_def A1' e1_def)
  moreover have "arp_outs A1'' = arp_outs A1' @ [CompletedResolution a (ie_macAddr ie2) (interfaceId ie1)]"
    by (simp add: A1''_def updateARPCache_simps e1_def)
  moreover have "\<exists>e. map_of (arpCache A1'') a = Some e \<and> \<not> ae_pending e \<and> ae_timer e = None"
    by (simp add: A1''_def updateARPCache_simps e1_def)
  ultimately show ?thesis
    using A1'(1,3) by blast
qed

definition host_table :: "interface_entry \<Rightarrow> routing_table \<Rightarrow> routing_table" where
  "host_table ie T = T\<lparr>ift := [ie], localAddresses := []\<rparr>"

theorem arp_request_reply_witness:
  "\<exists>A1' A2' A1''. startAddressResolution 0 0x0A000002 (host_interface 0x0A000001 0xA1) idle_arp = Inr A1'
     \<and> getMACAddressFor 5 0x0A000001 A2' = 0xA1 \<and> getMACAddressFor 6 0x0A000002 A1'' = 0xB2
     \<and> arp_outs A1'' = arp_outs A1' @ [CompletedResolution 0x0A000002 0xB2 101]"
proof -
  have *: "interfaceId (host_interface a m) = 101" "ie_macAddr (host_interface a m) = m" "inetAddr (host_data a) = a"
    "cacheTimeout idle_arp = 120" for a m
    by (simp_all add: host_interface_def host_data_def idle_arp_def)
  let ?T = "\<lambda>a m. host_table (host_interface a m) undefined"
  have loc: "isLocalAddress a (?T a m) = Inr (True, (?T a m)\<lparr>localAddresses := [a]\<rparr>)" for a m
    by (simp add: isLocalAddress_def host_table_def data_of_def host_interface_def host_data_def)
  have f: "find_interface (interfaceId (host_interface a m)) (ift (?T a m)) = Some (host_interface a m)" for a m
    by (simp add: find_interface_def host_table_def)
  have i: "arp_isUp idle_arp" "\<not> globalARP idle_arp" "\<not> pending idle_arp 0x0A000002"
    by (simp_all add: idle_arp_def pending_def)
  have loc1: "isLocalAddress (inetAddr (host_data 0x0A000001)) (?T 0x0A000001 0xA1) = Inr (True, (?T 0x0A000001 0xA1)\<lparr>localAddresses := [0x0A000001]\<rparr>)"
    using loc[of "0x0A000001"] by (simp add: *)
  from arp_request_reply[OF i(1,1,2,2,3) host_usable(1) f loc1 host_usable(2) f loc, of 0 2 3]
  obtain A1' A2' A1'' where r: "startAddressResolution 0 0x0A000002 (host_interface 0x0A000001 0xA1) idle_arp = Inr A1'"
    "\<forall>n \<le> 2 + 120. getMACAddressFor n 0x0A000001 A2' = 0xA1" "\<forall>n \<le> 3 + 120. getMACAddressFor n 0x0A000002 A1'' = 0xB2"
    "arp_outs A1'' = arp_outs A1' @ [CompletedResolution 0x0A000002 0xB2 101]"
    unfolding * by force
  from r(2)[rule_format, of 5] r(3)[rule_format, of 6] r(1,4) show ?thesis
    by auto
qed

end
