(* ===== verification/Ip_Fragment.thy ===== *)
theory Ip_Fragment
  imports Ip_Routing "HOL-Library.Signed_Division"
begin

text \<open>
  IPv4 datagrams, their fragmentation in \<open>IPv4::fragmentAndSend\<close> (\<open>networklayer/ipv4/IPv4.cc\<close>), and reassembly: \<open>ReassemblyBuffer\<close>
  (\<open>base/ReassemblyBuffer.cc\<close>) and \<open>IPv4FragBuf\<close> (\<open>networklayer/ipv4/IPv4FragBuf.cc\<close>).  Offsets are the \<open>unsigned short\<close>
  of the code, lengths are unbounded integers, and the encapsulated packet is known by a number.  The name of a
  datagram is left out; \<open>dg_gate\<close> is the index of the gate at which the message has arrived, if any, which a copy keeps.
\<close>

section \<open>Datagrams\<close>

record ip_datagram =
  dg_src :: ip4
  dg_dest :: ip4
  dg_protocol :: int
  dg_ttl :: "16 word"
  dg_id :: int
  dg_moreFragments :: bool
  dg_dontFragment :: bool
  dg_fragmentOffset :: int
  dg_tos :: u8
  dg_headerLength :: int
  dg_byteLength :: int
  dg_packet :: "nat option"
  dg_gate :: "int option"

section \<open>Fragmentation\<close>

text \<open>The loop of \<open>fragmentAndSend\<close>; the fragment length is positive there.\<close>

function fragment_loop :: "ip_datagram \<Rightarrow> int \<Rightarrow> int \<Rightarrow> int \<Rightarrow> ip_datagram list" where
  "fragment_loop dg payloadLength fragmentLength offset =
     (if offset < payloadLength \<and> 0 < fragmentLength then
        let lastFragment = (offset + fragmentLength \<ge> payloadLength);
            thisFragmentLength = (if lastFragment then payloadLength - offset else fragmentLength);
            fragment = dg\<lparr>dg_moreFragments := (if \<not> lastFragment then True else dg_moreFragments dg),
                          dg_byteLength := dg_headerLength dg + thisFragmentLength,
                          dg_fragmentOffset := dg_fragmentOffset dg + offset\<rparr>
        in fragment # fragment_loop dg payloadLength fragmentLength (offset + fragmentLength)
      else [])"
  by auto
termination by (relation "measure (\<lambda>(_, p, _, off). nat (p - off))") auto

text \<open>What \<open>fragmentAndSend\<close> decides: an ICMP error with type and code, or the datagrams to send.\<close>

datatype fragmentation =
    TimeExceeded ip_datagram
  | FragmentationNeeded ip_datagram
  | Fragments "ip_datagram list"

definition fragment_plan :: "interface_entry \<Rightarrow> ip_datagram \<Rightarrow> fragmentation res" where
  "fragment_plan ie dg0 =
     bindE (if ip4_isUnspecified (dg_src dg0) then mapE (\<lambda>d. dg0\<lparr>dg_src := inetAddr d\<rparr>) (data_of ie) else Inr dg0) (\<lambda>dg1.
       let dg = (if \<not> ie_loopback ie then dg1\<lparr>dg_ttl := dg_ttl dg1 - 1\<rparr> else dg1);
           mtu = ie_mtu ie
       in if dg_ttl dg <s 0 then Inr (TimeExceeded dg)
          else if mtu = 0 \<or> dg_byteLength dg \<le> mtu then Inr (Fragments [dg])
          else if dg_dontFragment dg then Inr (FragmentationNeeded dg)
          else
            let headerLength = dg_headerLength dg;
                payloadLength = dg_byteLength dg - headerLength;
                fragmentLength = ((mtu - headerLength) sdiv 8) * 8
            in if fragmentLength \<le> 0 then Inl (RuntimeError ''Cannot fragment datagram: MTU too small for header size'')
               else Inr (Fragments (fragment_loop dg payloadLength fragmentLength 0)))"

section \<open>The reassembly buffer\<close>

record reasm_region =
  rg_beg :: u16
  rg_end :: u16
  rg_islast :: bool

text \<open>The vector of fragments that is not allocated yet is the empty one.\<close>

record reassembly_buffer =
  rb_main :: reasm_region
  rb_fragments :: "reasm_region list"

definition new_reassembly_buffer :: reassembly_buffer where
  "new_reassembly_buffer = \<lparr>rb_main = \<lparr>rg_beg = 0, rg_end = 0, rg_islast = False\<rparr>, rb_fragments = []\<rparr>"

text \<open>One pass over the fragments; the flag is \<open>oncemore\<close>.\<close>

fun merge_pass :: "reasm_region \<Rightarrow> reasm_region list \<Rightarrow> reasm_region \<times> reasm_region list \<times> bool" where
  "merge_pass m [] = (m, [], False)"
| "merge_pass m (f # fs) =
     (if rg_end m = rg_beg f
      then let (m', fs', _) = merge_pass (m\<lparr>rg_end := rg_end f, rg_islast := (if rg_islast f then True else rg_islast m)\<rparr>) fs
           in (m', fs', True)
      else if rg_beg m = rg_end f
      then let (m', fs', _) = merge_pass (m\<lparr>rg_beg := rg_beg f\<rparr>) fs in (m', fs', True)
      else if rg_beg m \<le> rg_beg f \<and> rg_end f \<le> rg_end m
      then let (m', fs', _) = merge_pass m fs in (m', fs', True)
      else let (m', fs', oncemore) = merge_pass m fs in (m', f # fs', oncemore))"

lemma merge_pass_length:
  "merge_pass m fs = (m', fs', b) \<Longrightarrow> length fs' \<le> length fs \<and> (b \<longrightarrow> length fs' < length fs)"
  by (induction m fs arbitrary: m' fs' b rule: merge_pass.induct) (fastforce split: if_splits prod.splits)+

function mergeFragments :: "reasm_region \<Rightarrow> reasm_region list \<Rightarrow> reassembly_buffer" where
  "mergeFragments m fs =
     (let (m', fs', oncemore) = merge_pass m fs
      in if oncemore then mergeFragments m' fs' else \<lparr>rb_main = m', rb_fragments = fs'\<rparr>)"
  by auto
termination by (relation "measure (length \<circ> snd)") (auto dest!: sym[of "(_, _, True)"] simp: merge_pass_length)

definition rb_merge :: "u16 \<Rightarrow> u16 \<Rightarrow> bool \<Rightarrow> reassembly_buffer \<Rightarrow> reassembly_buffer" where
  "rb_merge beg fin islast b =
     (let m = rb_main b in
      if rg_end m = beg
      then mergeFragments (m\<lparr>rg_end := fin, rg_islast := (if islast then True else rg_islast m)\<rparr>) (rb_fragments b)
      else if rg_beg m = fin
      then mergeFragments (m\<lparr>rg_beg := beg\<rparr>) (rb_fragments b)
      else if rg_end m < beg \<or> fin < rg_beg m
      then b\<lparr>rb_fragments := rb_fragments b @ [\<lparr>rg_beg = beg, rg_end = fin, rg_islast = islast\<rparr>]\<rparr>
      else b)"

definition rb_addFragment :: "u16 \<Rightarrow> u16 \<Rightarrow> bool \<Rightarrow> reassembly_buffer \<Rightarrow> bool \<times> reassembly_buffer" where
  "rb_addFragment beg fin islast b =
     (let b' = rb_merge beg fin islast b in (rg_beg (rb_main b') = 0 \<and> rg_islast (rb_main b'), b'))"

definition rb_getTotalLength :: "reassembly_buffer \<Rightarrow> u16" where
  "rb_getTotalLength b = rg_end (rb_main b)"

section \<open>The buffers of a host\<close>

type_synonym frag_key = "u16 \<times> ip4 \<times> ip4"

record datagram_buffer =
  db_buf :: reassembly_buffer
  db_datagram :: "ip_datagram option"
  db_lastupdate :: int

definition frag_key_of :: "ip_datagram \<Rightarrow> frag_key" where
  "frag_key_of dg = (word_of_int (dg_id dg), dg_src dg, dg_dest dg)"

definition key_less :: "frag_key \<Rightarrow> frag_key \<Rightarrow> bool" where
  "key_less a b = (case (a, b) of ((i, src, dest), (i', src', dest')) \<Rightarrow>
     if i \<noteq> i' then i < i' else if src \<noteq> src' then src < src' else dest < dest')"

text \<open>The \<open>std::map\<close> is a list in the order of the keys.\<close>

type_synonym frag_bufs = "(frag_key \<times> datagram_buffer) list"

fun put_buf :: "frag_key \<Rightarrow> datagram_buffer \<Rightarrow> frag_bufs \<Rightarrow> frag_bufs" where
  "put_buf k b [] = [(k, b)]"
| "put_buf k b ((k', b') # bs) =
     (if k = k' then (k, b) # bs else if key_less k k' then (k, b) # (k', b') # bs else (k', b') # put_buf k b bs)"

definition erase_buf :: "frag_key \<Rightarrow> frag_bufs \<Rightarrow> frag_bufs" where
  "erase_buf k bs = filter (\<lambda>(k', b). k' \<noteq> k) bs"

text \<open>\<open>Some\<close> datagram is the result when it is complete.  To erase at \<open>i\<close> is undefined where the key was not there.\<close>

definition fb_addFragment :: "ip_datagram \<Rightarrow> int \<Rightarrow> frag_bufs \<Rightarrow> (ip_datagram option \<times> frag_bufs) res" where
  "fb_addFragment dg now bufs =
     (let key = frag_key_of dg;
          found = map_of bufs key;
          buf = (case found of None \<Rightarrow> \<lparr>db_buf = new_reassembly_buffer, db_datagram = None, db_lastupdate = 0\<rparr> | Some b \<Rightarrow> b);
          bytes = dg_byteLength dg - dg_headerLength dg;
          (isComplete, rb) = rb_addFragment (word_of_int (dg_fragmentOffset dg)) (word_of_int (dg_fragmentOffset dg + bytes))
                               (\<not> dg_moreFragments dg) (db_buf buf);
          kept = (case db_datagram buf of
                    None \<Rightarrow> dg
                  | Some old \<Rightarrow> if dg_packet old = None \<and> dg_packet dg \<noteq> None then dg else old)
      in if isComplete
         then (case found of
                 None \<Rightarrow> Inl (Undefined ''bufs.erase(bufs.end())'')
               | Some _ \<Rightarrow> Inr (Some (kept\<lparr>dg_byteLength := dg_headerLength kept + uint (rb_getTotalLength rb),
                                            dg_fragmentOffset := 0, dg_moreFragments := False\<rparr>), erase_buf key bufs))
         else Inr (None, put_buf key \<lparr>db_buf = rb, db_datagram = Some kept, db_lastupdate = now\<rparr> bufs))"

text \<open>\<open>purgeStaleFragments\<close>: the datagrams for which an error is sent, and the buffers that stay.\<close>

definition purgeStaleFragments :: "int \<Rightarrow> frag_bufs \<Rightarrow> ip_datagram option list \<times> frag_bufs" where
  "purgeStaleFragments lastupdate bufs =
     (map (\<lambda>(k, b). db_datagram b) (filter (\<lambda>(k, b). db_lastupdate b < lastupdate) bufs),
      filter (\<lambda>(k, b). \<not> db_lastupdate b < lastupdate) bufs)"


declare fragment_loop.simps [simp del] mergeFragments.simps [simp del]

section \<open>Reassembly of a partition\<close>

text \<open>The fragments of a datagram cut its payload at \<open>c 0 = 0 < c 1 < ... < c n\<close>.  The main region always starts at 0.\<close>

definition is_cut :: "(nat \<Rightarrow> nat) \<Rightarrow> nat \<Rightarrow> bool" where
  "is_cut c n \<longleftrightarrow> c 0 = 0 \<and> 0 < n \<and> (\<forall>i < n. c i < c (Suc i)) \<and> c n < 65536"

definition piece :: "(nat \<Rightarrow> nat) \<Rightarrow> nat \<Rightarrow> nat \<Rightarrow> reasm_region" where
  "piece c n i = \<lparr>rg_beg = of_nat (c i), rg_end = of_nat (c (Suc i)), rg_islast = (Suc i = n)\<rparr>"

definition front :: "(nat \<Rightarrow> nat) \<Rightarrow> nat \<Rightarrow> nat \<Rightarrow> reasm_region" where
  "front c n p = \<lparr>rg_beg = 0, rg_end = of_nat (c p), rg_islast = (p = n)\<rparr>"

lemma cut_less: "is_cut c n \<Longrightarrow> i < j \<Longrightarrow> j \<le> n \<Longrightarrow> c i < c j"
proof (induction j)
  case (Suc j)
  then show ?case by (cases "i = j") (auto simp: is_cut_def intro: less_trans)
qed simp

lemma cut_le_iff: "is_cut c n \<Longrightarrow> i \<le> n \<Longrightarrow> j \<le> n \<Longrightarrow> c i \<le> c j \<longleftrightarrow> i \<le> j"
  using cut_less[of c n i j] cut_less[of c n j i] by (metis leD leI le_eq_less_or_eq)

lemma cut_words:
  assumes "is_cut c n" "i \<le> n" "j \<le> n"
  shows "of_nat (c i) = (of_nat (c j) :: u16) \<longleftrightarrow> i = j" "of_nat (c i) \<le> (of_nat (c j) :: u16) \<longleftrightarrow> i \<le> j"
    "(0 = (of_nat (c i) :: u16)) \<longleftrightarrow> i = 0" "unat (of_nat (c i) :: u16) = c i"
proof -
  have u: "unat (of_nat (c k) :: u16) = c k" if "k \<le> n" for k
    using that cut_le_iff[OF assms(1) that order_refl] assms(1) by (simp add: unat_of_nat is_cut_def)
  show "of_nat (c i) \<le> (of_nat (c j) :: u16) \<longleftrightarrow> i \<le> j"
    using u[OF assms(2)] u[OF assms(3)] cut_le_iff[OF assms] by (simp add: word_le_nat_alt)
  show "of_nat (c i) = (of_nat (c j) :: u16) \<longleftrightarrow> i = j"
    unfolding word_unat_eq_iff u[OF assms(2)] u[OF assms(3)]
    by (simp add: eq_iff cut_le_iff[OF assms] cut_le_iff[OF assms(1,3,2)])
  have "c i = 0 \<longleftrightarrow> i = 0"
    using assms(1) cut_less[OF assms(1) _ assms(2), of 0] by (cases i) (auto simp: is_cut_def)
  then show "(0 = (of_nat (c i) :: u16)) \<longleftrightarrow> i = 0"
    using u[OF assms(2)] by (auto simp: word_unat_eq_iff)
  show "unat (of_nat (c i) :: u16) = c i" by (rule u[OF assms(2)])
qed

lemma merge_pass_pieces:
  assumes "is_cut c n"
  shows "merge_pass (front c n p) (map (piece c n) is) = (m', fs', b) \<Longrightarrow> p \<le> n \<Longrightarrow> set is \<subseteq> {..<n} \<Longrightarrow>
    \<exists>q js. m' = front c n q \<and> fs' = map (piece c n) js \<and> p \<le> q \<and> q \<le> n \<and> {p..<q} \<subseteq> set is \<and> set js \<subseteq> set is
      \<and> set is \<subseteq> set js \<union> {..<q} \<and> (\<not> b \<longrightarrow> q = p \<and> (\<forall>i \<in> set js. p < i))"
proof (induction "is" arbitrary: p m' fs' b)
  case Nil
  then show ?case by auto
next
  case (Cons i "is")
  have i: "i < n" "Suc i \<le> n" "i \<le> n" using Cons.prems(3) by auto
  note w = cut_words[OF assms]
  have g: "rg_end (front c n p) = rg_beg (piece c n i) \<longleftrightarrow> p = i" "\<not> rg_beg (front c n p) = rg_end (piece c n i)"
    "rg_beg (front c n p) \<le> rg_beg (piece c n i)" "rg_end (piece c n i) \<le> rg_end (front c n p) \<longleftrightarrow> Suc i \<le> p"
    by (simp_all only: front_def piece_def reasm_region.select_convs w(1)[OF Cons.prems(2) i(3)] w(2)[OF i(2) Cons.prems(2)]
        w(3)[OF i(2) i(2)] word_zero_le)
  have f: "(front c n p)\<lparr>rg_end := rg_end (piece c n i), rg_islast := (if rg_islast (piece c n i) then True else rg_islast (front c n p))\<rparr>
      = front c n (Suc i)" if "p = i"
    using that i by (simp add: front_def piece_def)
  consider (now) "p = i" | (old) "i < p" | (later) "p < i" by linarith
  then show ?case
  proof cases
    case now
    obtain m1 fs1 b1 where r: "merge_pass (front c n (Suc i)) (map (piece c n) is) = (m1, fs1, b1)" by (metis prod_cases3)
    have "merge_pass (front c n p) (piece c n i # map (piece c n) is) = (m1, fs1, True)"
      unfolding merge_pass.simps if_P[OF g(1)[THEN iffD2, OF now]] f[OF now] r by simp
    then have "m' = m1" "fs' = fs1" "b" using Cons.prems(1) by simp_all
    moreover have "set is \<subseteq> {..<n}" using Cons.prems(3) by simp
    from Cons.IH[OF r i(2) this] obtain q js where q:
      "m1 = front c n q" "fs1 = map (piece c n) js" "Suc i \<le> q" "q \<le> n" "{Suc i..<q} \<subseteq> set is" "set js \<subseteq> set is"
      "set is \<subseteq> set js \<union> {..<q}" by blast
    have "{p..<q} \<subseteq> insert p {Suc i..<q}" using now by auto
    then have "{p..<q} \<subseteq> set (i # is)" using q(5) now by auto
    moreover have "set (i # is) \<subseteq> set js \<union> {..<q}" using q(3,7) by auto
    ultimately show ?thesis using q now \<open>m' = m1\<close> \<open>fs' = fs1\<close> \<open>b\<close>
      by (intro exI[of _ q] exI[of _ js]) auto
  next
    case old
    obtain m1 fs1 b1 where r: "merge_pass (front c n p) (map (piece c n) is) = (m1, fs1, b1)" by (metis prod_cases3)
    have "m' = m1" "fs' = fs1" "b" using Cons.prems(1) old g r by (auto simp: split_beta)
    moreover have "set is \<subseteq> {..<n}" using Cons.prems(3) by simp
    from Cons.IH[OF r Cons.prems(2) this] obtain q js where
      "m1 = front c n q" "fs1 = map (piece c n) js" "p \<le> q" "q \<le> n" "{p..<q} \<subseteq> set is" "set js \<subseteq> set is"
      "set is \<subseteq> set js \<union> {..<q}" by blast
    ultimately show ?thesis using old by (intro exI[of _ q] exI[of _ js]) auto
  next
    case later
    obtain m1 fs1 b1 where r: "merge_pass (front c n p) (map (piece c n) is) = (m1, fs1, b1)" by (metis prod_cases3)
    have e: "m' = m1" "fs' = piece c n i # fs1" "b = b1" using Cons.prems(1) later g r by (auto simp: split_beta)
    obtain q js where q: "m1 = front c n q" "fs1 = map (piece c n) js" "p \<le> q" "q \<le> n" "{p..<q} \<subseteq> set is" "set js \<subseteq> set is"
      "set is \<subseteq> set js \<union> {..<q}" "\<not> b1 \<longrightarrow> q = p \<and> (\<forall>i \<in> set js. p < i)"
      using Cons.IH[OF r Cons.prems(2)] Cons.prems(3) by auto
    then show ?thesis using e later by (intro exI[of _ q] exI[of _ "i # js"]) auto
  qed
qed

lemma mergeFragments_pieces:
  assumes "is_cut c n"
  shows "p \<le> n \<Longrightarrow> set is \<subseteq> {..<n} \<Longrightarrow>
    \<exists>q js. mergeFragments (front c n p) (map (piece c n) is) = \<lparr>rb_main = front c n q, rb_fragments = map (piece c n) js\<rparr>
      \<and> p \<le> q \<and> q \<le> n \<and> {p..<q} \<subseteq> set is \<and> set js \<subseteq> set is \<and> set is \<subseteq> set js \<union> {..<q} \<and> (\<forall>i \<in> set js. q < i)"
proof (induction "length is" arbitrary: p "is" rule: less_induct)
  case less
  obtain m' fs' b where r: "merge_pass (front c n p) (map (piece c n) is) = (m', fs', b)" by (metis prod_cases3)
  obtain q js where q: "m' = front c n q" "fs' = map (piece c n) js" "p \<le> q" "q \<le> n" "{p..<q} \<subseteq> set is" "set js \<subseteq> set is"
      "set is \<subseteq> set js \<union> {..<q}" "\<not> b \<longrightarrow> q = p \<and> (\<forall>i \<in> set js. p < i)"
    using merge_pass_pieces[OF assms r less.prems] by blast
  show ?case
  proof (cases b)
    case True
    have "length js < length is" using merge_pass_length[OF r] q(2) True by simp
    from less.hyps[OF this q(4)] obtain q' js' where
      h: "mergeFragments (front c n q) (map (piece c n) js) = \<lparr>rb_main = front c n q', rb_fragments = map (piece c n) js'\<rparr>"
      "q \<le> q'" "q' \<le> n" "{q..<q'} \<subseteq> set js" "set js' \<subseteq> set js" "set js \<subseteq> set js' \<union> {..<q'}" "\<forall>i \<in> set js'. q' < i"
      using q(6) less.prems by blast
    have "mergeFragments (front c n p) (map (piece c n) is) = mergeFragments (front c n q) (map (piece c n) js)"
      using True by (subst mergeFragments.simps) (simp add: r q(1,2))
    then have 1: "mergeFragments (front c n p) (map (piece c n) is) = \<lparr>rb_main = front c n q', rb_fragments = map (piece c n) js'\<rparr>"
      unfolding h(1) .
    have "{p..<q'} \<subseteq> {p..<q} \<union> {q..<q'}" by auto
    then have 2: "{p..<q'} \<subseteq> set is" using q(5,6) h(4) by blast
    have 3: "set is \<subseteq> set js' \<union> {..<q'}" using q(7) h(2,6) by auto
    have 4: "set js' \<subseteq> set is" "p \<le> q'" using q(3,6) h(2,5) by auto
    show ?thesis using 1 2 3 4 h(3,7) by blast
  next
    case False
    then show ?thesis using q by (subst mergeFragments.simps) (auto simp: r intro!: exI[of _ p] exI[of _ js])
  qed
qed


text \<open>The buffer after the pieces in \<open>A\<close> have arrived: the front reaches to the first piece that is missing.\<close>

definition has_pieces :: "(nat \<Rightarrow> nat) \<Rightarrow> nat \<Rightarrow> nat set \<Rightarrow> reassembly_buffer \<Rightarrow> bool" where
  "has_pieces c n A b \<longleftrightarrow>
     (\<exists>p js. b = \<lparr>rb_main = front c n p, rb_fragments = map (piece c n) js\<rparr> \<and> p \<le> n \<and> {..<p} \<subseteq> A \<and> set js \<subseteq> A
        \<and> A \<subseteq> set js \<union> {..<p} \<and> (\<forall>i \<in> set js. p < i) \<and> A \<subseteq> {..<n})"

lemma has_pieces_empty: "is_cut c n \<Longrightarrow> has_pieces c n {} new_reassembly_buffer"
  unfolding has_pieces_def
  by (rule exI[of _ 0], rule exI[of _ "[]"]) (auto simp: front_def new_reassembly_buffer_def is_cut_def)

lemma front_extend: "i < n \<Longrightarrow>
    (front c n i)\<lparr>rg_end := of_nat (c (Suc i)), rg_islast := (if Suc i = n then True else rg_islast (front c n i))\<rparr> = front c n (Suc i)"
  by (auto simp: front_def)

lemma merge_piece:
  assumes "is_cut c n" "has_pieces c n A b" "i < n"
  shows "has_pieces c n (insert i A) (rb_merge (of_nat (c i)) (of_nat (c (Suc i))) (Suc i = n) b)"
proof -
  obtain p js where b: "b = \<lparr>rb_main = front c n p, rb_fragments = map (piece c n) js\<rparr>" "p \<le> n" "{..<p} \<subseteq> A" "set js \<subseteq> A"
      "A \<subseteq> set js \<union> {..<p}" "\<forall>i \<in> set js. p < i" "A \<subseteq> {..<n}"
    using assms(2) unfolding has_pieces_def by blast
  have i: "i \<le> n" "Suc i \<le> n" using assms(3) by auto
  have g1: "rg_end (front c n p) = of_nat (c i) \<longleftrightarrow> p = i"
    unfolding front_def reasm_region.select_convs by (rule cut_words(1)[OF assms(1) b(2) i(1)])
  have g2: "rg_beg (front c n p) \<noteq> of_nat (c (Suc i))"
    using cut_words(3)[OF assms(1) i(2) i(2)] unfolding front_def reasm_region.select_convs by simp
  have g3: "rg_end (front c n p) < of_nat (c i) \<longleftrightarrow> p < i"
    unfolding front_def reasm_region.select_convs not_le[symmetric] cut_words(2)[OF assms(1) i(1) b(2)] ..
  have g4: "\<not> of_nat (c (Suc i)) < rg_beg (front c n p)" by (simp add: front_def)
  show ?thesis
  proof (cases "p = i")
    case True
    have m: "rb_merge (of_nat (c i)) (of_nat (c (Suc i))) (Suc i = n) b = mergeFragments (front c n (Suc i)) (map (piece c n) js)"
      unfolding rb_merge_def b(1) Let_def reassembly_buffer.select_convs if_P[OF g1[THEN iffD2, OF True]]
      by (simp only: True front_extend[OF assms(3)])
    have "set js \<subseteq> {..<n}" using b(4,7) by blast
    from mergeFragments_pieces[OF assms(1) i(2) this] obtain q ks where
      q: "mergeFragments (front c n (Suc i)) (map (piece c n) js) = \<lparr>rb_main = front c n q, rb_fragments = map (piece c n) ks\<rparr>"
      "Suc i \<le> q" "q \<le> n" "{Suc i..<q} \<subseteq> set js" "set ks \<subseteq> set js" "set js \<subseteq> set ks \<union> {..<q}" "\<forall>i \<in> set ks. q < i"
      by blast
    have "{..<q} \<subseteq> {..<p} \<union> insert i {Suc i..<q}" using True q(2) by auto
    then have 1: "{..<q} \<subseteq> insert i A" using b(3,4) q(4) by blast
    have 2: "insert i A \<subseteq> set ks \<union> {..<q}" using b(5) q(2,6) True by auto
    have 3: "set ks \<subseteq> insert i A" "insert i A \<subseteq> {..<n}" using q(5) b(4,7) assms(3) by auto
    show ?thesis unfolding has_pieces_def m using q(1,3,7) 1 2 3 by blast
  next
    case False
    then have n1: "\<not> rg_end (front c n p) = of_nat (c i)" using g1 by simp
    show ?thesis
    proof (cases "p < i")
      case True
      have m: "rb_merge (of_nat (c i)) (of_nat (c (Suc i))) (Suc i = n) b
          = \<lparr>rb_main = front c n p, rb_fragments = map (piece c n) (js @ [i])\<rparr>"
        unfolding rb_merge_def b(1) Let_def reassembly_buffer.select_convs if_not_P[OF n1] if_not_P[OF g2]
        using g3 True by (simp add: piece_def)
      have "{..<p} \<subseteq> insert i A" "set (js @ [i]) \<subseteq> insert i A" "insert i A \<subseteq> set (js @ [i]) \<union> {..<p}"
        "\<forall>j \<in> set (js @ [i]). p < j" "insert i A \<subseteq> {..<n}"
        using b(3-7) True assms(3) by auto
      then show ?thesis unfolding has_pieces_def m using b(2) by blast
    next
      case later: False
      have m: "rb_merge (of_nat (c i)) (of_nat (c (Suc i))) (Suc i = n) b = b"
        unfolding rb_merge_def b(1) Let_def reassembly_buffer.select_convs if_not_P[OF n1] if_not_P[OF g2]
        using g3 g4 later by simp
      have "i \<in> A" using b(3) later False by auto
      then show ?thesis using assms(2) unfolding m by (simp add: insert_absorb)
    qed
  qed
qed

lemma pieces_complete:
  assumes "is_cut c n" "has_pieces c n A b"
  shows "rg_beg (rb_main b) = 0" "rg_islast (rb_main b) \<longleftrightarrow> A = {..<n}" "A = {..<n} \<Longrightarrow> uint (rb_getTotalLength b) = int (c n)"
proof -
  obtain p js where b: "b = \<lparr>rb_main = front c n p, rb_fragments = map (piece c n) js\<rparr>" "p \<le> n" "{..<p} \<subseteq> A" "set js \<subseteq> A"
      "A \<subseteq> set js \<union> {..<p}" "\<forall>i \<in> set js. p < i" "A \<subseteq> {..<n}"
    using assms(2) unfolding has_pieces_def by blast
  have "p = n" if "A = {..<n}"
  proof (rule ccontr)
    assume "p \<noteq> n"
    then have "p \<in> set js" using b(2,5) that by auto
    then show False using b(6) by auto
  qed
  then show l: "rg_islast (rb_main b) \<longleftrightarrow> A = {..<n}" using b by (auto simp: front_def)
  show "rg_beg (rb_main b) = 0" by (simp add: b(1) front_def)
  show "uint (rb_getTotalLength b) = int (c n)" if "A = {..<n}"
    using l that cut_words(4)[OF assms(1) order_refl order_refl]
    by (simp only: uint_nat) (simp add: b(1) front_def rb_getTotalLength_def)
qed


section \<open>The fragments of a datagram\<close>

text \<open>\<open>P\<close> bytes in pieces of \<open>L\<close>.\<close>

definition cut_at :: "nat \<Rightarrow> nat \<Rightarrow> nat \<Rightarrow> nat" where "cut_at P L i = min (i * L) P"
definition cut_count :: "nat \<Rightarrow> nat \<Rightarrow> nat" where "cut_count P L = (P + L - 1) div L"

lemma cut_count_iff: "0 < L \<Longrightarrow> i < cut_count P L \<longleftrightarrow> i * L < P"
  unfolding cut_count_def Suc_le_eq[symmetric] by (subst less_eq_div_iff_mult_less_eq) auto

lemma is_cut_at: "0 < L \<Longrightarrow> 0 < P \<Longrightarrow> P < 65536 \<Longrightarrow> is_cut (cut_at P L) (cut_count P L)"
proof -
  assume *: "0 < L" "0 < P" "P < 65536"
  have "cut_at P L i < cut_at P L (Suc i)" if "i < cut_count P L" for i
    using that cut_count_iff[OF *(1)] * by (simp add: cut_at_def)
  moreover have "0 < cut_count P L" using cut_count_iff[OF *(1), of 0 P] * by simp
  ultimately show ?thesis using * by (simp add: is_cut_def cut_at_def)
qed

definition nth_fragment :: "ip_datagram \<Rightarrow> nat \<Rightarrow> nat \<Rightarrow> nat \<Rightarrow> ip_datagram" where
  "nth_fragment dg P L i =
     dg\<lparr>dg_moreFragments := (Suc i < cut_count P L \<or> dg_moreFragments dg),
        dg_byteLength := dg_headerLength dg + int (cut_at P L (Suc i) - cut_at P L i),
        dg_fragmentOffset := dg_fragmentOffset dg + int (cut_at P L i)\<rparr>"

lemma fragment_loop_pieces:
  assumes "0 < L" "k \<le> cut_count P L"
  shows "fragment_loop dg (int P) (int L) (int (k * L)) = map (nth_fragment dg P L) [k..<cut_count P L]"
  using assms(2)
proof (induction "cut_count P L - k" arbitrary: k)
  case 0
  then have "\<not> k * L < P" using cut_count_iff[OF assms(1), of k P] by simp
  then have "\<not> (int (k * L) < int P \<and> 0 < int L)" by linarith
  then show ?case using 0 unfolding fragment_loop.simps[of _ _ _ "int (k * L)"] by (simp only: if_False) simp
next
  case (Suc d)
  then have k: "k < cut_count P L" "k * L < P" using cut_count_iff[OF assms(1), of k P] by auto
  have last: "int (k * L) + int L \<ge> int P \<longleftrightarrow> \<not> Suc k < cut_count P L"
  proof -
    have "int (k * L) + int L = int (Suc k * L)" by simp
    then show ?thesis unfolding cut_count_iff[OF assms(1)] by (simp only: of_nat_le_iff not_less)
  qed
  have le: "int P \<le> int (k * L) + int L \<longleftrightarrow> P \<le> Suc k * L" using of_nat_le_iff[where 'a = int, of P "Suc k * L"]
    by (simp add: add.commute)
  have len: "(if int (k * L) + int L \<ge> int P then int P - int (k * L) else int L) = int (cut_at P L (Suc k) - cut_at P L k)"
    unfolding le using k(2) by (auto simp: cut_at_def min_def of_nat_diff)
  have off: "int (cut_at P L k) = int (k * L)" using k(2) by (simp add: cut_at_def)
  have "d = cut_count P L - Suc k" "Suc k \<le> cut_count P L" using Suc.hyps(2) k by auto
  from Suc.hyps(1)[OF this] have rest: "fragment_loop dg (int P) (int L) (int (k * L) + int L) = map (nth_fragment dg P L) [Suc k..<cut_count P L]"
    by (simp add: add.commute)
  have head: "dg\<lparr>dg_moreFragments := (if \<not> int P \<le> int (k * L) + int L then True else dg_moreFragments dg),
      dg_byteLength := dg_headerLength dg + (if int P \<le> int (k * L) + int L then int P - int (k * L) else int L),
      dg_fragmentOffset := dg_fragmentOffset dg + int (k * L)\<rparr> = nth_fragment dg P L k"
    unfolding nth_fragment_def off len[symmetric] last by (cases "Suc k < cut_count P L") simp_all
  have cond: "int (k * L) < int P \<and> 0 < int L" using k(2) assms(1) by (simp only: of_nat_less_iff of_nat_0_less_iff)
  show ?case
    unfolding upt_conv_Cons[OF k(1)] list.map fragment_loop.simps[of _ _ _ "int (k * L)"] if_P[OF cond] Let_def head rest ..
qed


text \<open>What arrives at the buffers, each datagram with its time; the datagrams that are complete come out.\<close>

fun fb_receive :: "(ip_datagram \<times> int) list \<Rightarrow> frag_bufs \<Rightarrow> (ip_datagram list \<times> frag_bufs) res" where
  "fb_receive [] bufs = Inr ([], bufs)"
| "fb_receive ((dg, now) # xs) bufs =
     bindE (fb_addFragment dg now bufs) (\<lambda>(out, bufs1).
       mapE (\<lambda>(outs, bufs2). (case out of None \<Rightarrow> outs | Some w \<Rightarrow> w # outs, bufs2)) (fb_receive xs bufs1))"

lemma map_of_put_buf: "map_of (put_buf k b bs) = (map_of bs)(k \<mapsto> b)"
  by (induction k b bs rule: put_buf.induct) auto

lemma map_of_erase_buf: "map_of (erase_buf k bs) = (map_of bs)(k := None)"
  by (induction bs) (auto simp: erase_buf_def)

text \<open>The buffer of a datagram \<open>dg\<close> that has the fragments in \<open>A\<close>: some fragment is kept for the rest of the header.\<close>

definition collecting :: "ip_datagram \<Rightarrow> nat \<Rightarrow> nat \<Rightarrow> nat set \<Rightarrow> frag_bufs \<Rightarrow> bool" where
  "collecting dg P L A bufs \<longleftrightarrow>
     (if A = {} then map_of bufs (frag_key_of dg) = None
      else \<exists>b i. map_of bufs (frag_key_of dg) = Some b \<and> has_pieces (cut_at P L) (cut_count P L) A (db_buf b)
             \<and> db_datagram b = Some (nth_fragment dg P L i))"

lemma add_nth_fragment:
  assumes LP: "0 < L" "0 < P" "P < 65536" "1 < cut_count P L" and dg: "dg_fragmentOffset dg = 0" "\<not> dg_moreFragments dg"
    and A: "collecting dg P L A bufs" "i < cut_count P L" "A \<noteq> {..<cut_count P L}"
  shows "\<exists>bufs'. fb_addFragment (nth_fragment dg P L i) now bufs
      = Inr (if insert i A = {..<cut_count P L} then Some (dg\<lparr>dg_byteLength := dg_headerLength dg + int P\<rparr>) else None, bufs')
    \<and> map_of bufs' = (if insert i A = {..<cut_count P L} then (map_of bufs)(frag_key_of dg := None)
         else (map_of bufs)(frag_key_of dg := map_of bufs' (frag_key_of dg)))
    \<and> (insert i A \<noteq> {..<cut_count P L} \<longrightarrow> collecting dg P L (insert i A) bufs')"
proof -
  let ?c = "cut_at P L" and ?n = "cut_count P L" and ?f = "nth_fragment dg P L i"
  note cut = is_cut_at[OF LP(1-3)]
  have key: "frag_key_of ?f = frag_key_of dg" by (simp add: frag_key_of_def nth_fragment_def)
  have le: "?c i \<le> ?c (Suc i)" by (simp add: cut_at_def)
  have beg: "word_of_int (dg_fragmentOffset ?f) = (of_nat (?c i) :: u16)"
    and fin: "word_of_int (dg_fragmentOffset ?f + (dg_byteLength ?f - dg_headerLength ?f)) = (of_nat (?c (Suc i)) :: u16)"
    using le by (simp_all add: nth_fragment_def dg(1) of_nat_diff)
  have more: "(\<not> dg_moreFragments ?f) = (Suc i = ?n)" using A(2) dg(2) by (auto simp: nth_fragment_def)
  define buf where "buf = (case map_of bufs (frag_key_of dg) of
      None \<Rightarrow> \<lparr>db_buf = new_reassembly_buffer, db_datagram = None, db_lastupdate = 0\<rparr> | Some b \<Rightarrow> b)"
  have hp: "has_pieces ?c ?n A (db_buf buf)"
    using A(1) has_pieces_empty[OF cut] by (auto simp: collecting_def buf_def split: if_splits)
  define rb where "rb = rb_merge (of_nat (?c i)) (of_nat (?c (Suc i))) (Suc i = ?n) (db_buf buf)"
  have hp': "has_pieces ?c ?n (insert i A) rb" unfolding rb_def by (rule merge_piece[OF cut hp A(2)])
  note pc = pieces_complete[OF cut hp']
  define kept where "kept = (case db_datagram buf of None \<Rightarrow> ?f
      | Some old \<Rightarrow> if dg_packet old = None \<and> dg_packet ?f \<noteq> None then ?f else old)"
  have "\<exists>j. kept = nth_fragment dg P L j"
    using A(1) by (auto simp: kept_def collecting_def buf_def split: if_splits)
  then obtain j where j: "kept = nth_fragment dg P L j" by blast
  have whole: "kept\<lparr>dg_byteLength := dg_headerLength kept + int P, dg_fragmentOffset := 0, dg_moreFragments := False\<rparr>
      = dg\<lparr>dg_byteLength := dg_headerLength dg + int P\<rparr>"
    using dg by (simp add: j nth_fragment_def)
  have cn: "int (?c ?n) = int P" using cut_count_iff[OF LP(1), of ?n P] by (simp add: cut_at_def)
  have run: "fb_addFragment ?f now bufs = (if insert i A = {..<?n}
      then (case map_of bufs (frag_key_of dg) of None \<Rightarrow> Inl (Undefined ''bufs.erase(bufs.end())'')
            | Some _ \<Rightarrow> Inr (Some (dg\<lparr>dg_byteLength := dg_headerLength dg + int P\<rparr>), erase_buf (frag_key_of dg) bufs))
      else Inr (None, put_buf (frag_key_of dg) \<lparr>db_buf = rb, db_datagram = Some kept, db_lastupdate = now\<rparr> bufs))"
  proof -
    have r: "rb_addFragment (of_nat (?c i)) (of_nat (?c (Suc i))) (Suc i = ?n) (db_buf buf) = (insert i A = {..<?n}, rb)"
      using pc(1,2) by (simp add: rb_addFragment_def rb_def[symmetric] Let_def)
    have w: "insert i A = {..<?n} \<Longrightarrow> kept\<lparr>dg_byteLength := dg_headerLength kept + uint (rb_getTotalLength rb),
        dg_fragmentOffset := 0, dg_moreFragments := False\<rparr> = dg\<lparr>dg_byteLength := dg_headerLength dg + int P\<rparr>"
      using pc(3) cn whole by simp
    show ?thesis
      unfolding fb_addFragment_def Let_def key beg fin more buf_def[symmetric] r prod.case kept_def[symmetric]
      using w by (cases "insert i A = {..<?n}") (simp_all only: if_True if_False simp_thms)
  qed
  show ?thesis
  proof (cases "insert i A = {..<?n}")
    case True
    have "A \<noteq> {}"
    proof
      assume "A = {}"
      then have "card (insert i A) = 1" by simp
      then show False unfolding True using LP(4) by simp
    qed
    then obtain b where "map_of bufs (frag_key_of dg) = Some b" using A(1) \<open>A \<noteq> {}\<close> by (auto simp: collecting_def)
    then show ?thesis using run True by (simp add: map_of_erase_buf)
  next
    case False
    have "collecting dg P L (insert i A) (put_buf (frag_key_of dg) \<lparr>db_buf = rb, db_datagram = Some kept, db_lastupdate = now\<rparr> bufs)"
      using hp' j by (auto simp: collecting_def map_of_put_buf)
    then show ?thesis using run False by (simp add: map_of_put_buf)
  qed
qed


lemma receive_fragments:
  assumes LP: "0 < L" "0 < P" "P < 65536" "1 < cut_count P L" and dg: "dg_fragmentOffset dg = 0" "\<not> dg_moreFragments dg"
  shows "collecting dg P L A bufs \<Longrightarrow> A \<noteq> {..<cut_count P L} \<Longrightarrow> set (map fst (ys @ [y])) \<subseteq> nth_fragment dg P L ` {..<cut_count P L} \<Longrightarrow>
    nth_fragment dg P L ` A \<union> fst ` set ys \<noteq> nth_fragment dg P L ` {..<cut_count P L} \<Longrightarrow>
    nth_fragment dg P L ` A \<union> fst ` set (ys @ [y]) = nth_fragment dg P L ` {..<cut_count P L} \<Longrightarrow>
    \<exists>bufs'. fb_receive (ys @ [y]) bufs = Inr ([dg\<lparr>dg_byteLength := dg_headerLength dg + int P\<rparr>], bufs')
      \<and> map_of bufs' = (map_of bufs)(frag_key_of dg := None)"
proof (induction ys arbitrary: A bufs)
  case Nil
  obtain dy t where y: "y = (dy, t)" by fastforce
  have inj: "inj_on (nth_fragment dg P L) {..<cut_count P L}"
  proof (rule inj_onI)
    fix i j assume *: "i \<in> {..<cut_count P L}" "j \<in> {..<cut_count P L}" "nth_fragment dg P L i = nth_fragment dg P L j"
    have "cut_at P L i = cut_at P L j" using arg_cong[OF *(3), of dg_fragmentOffset] by (simp add: nth_fragment_def)
    then show "i = j" using cut_le_iff[OF is_cut_at[OF LP(1-3)], of i j] cut_le_iff[OF is_cut_at[OF LP(1-3)], of j i] *(1,2) by auto
  qed
  obtain i where i: "i < cut_count P L" "dy = nth_fragment dg P L i" using Nil.prems(3) y by auto
  have sub: "A \<subseteq> {..<cut_count P L}"
    using Nil.prems(1) by (auto simp: collecting_def has_pieces_def split: if_splits)
  have "insert i A = {..<cut_count P L}"
  proof (rule inj_on_image_eq_iff[OF inj, THEN iffD1])
    show "insert i A \<subseteq> {..<cut_count P L}" using sub i by simp
    show "nth_fragment dg P L ` insert i A = nth_fragment dg P L ` {..<cut_count P L}" using Nil.prems(5) y i by simp
  qed simp
  then show ?case
    using add_nth_fragment[OF LP dg Nil.prems(1) i(1) Nil.prems(2), of t] by (auto simp: y i)
next
  case (Cons z ys)
  obtain dz t where z: "z = (dz, t)" by fastforce
  obtain i where i: "i < cut_count P L" "dz = nth_fragment dg P L i" using Cons.prems(3) z by auto
  have sub: "insert i A \<noteq> {..<cut_count P L}"
  proof
    assume *: "insert i A = {..<cut_count P L}"
    have "nth_fragment dg P L ` {..<cut_count P L} = insert dz (nth_fragment dg P L ` A)" by (simp add: *[symmetric] i)
    moreover have "fst ` set ys \<subseteq> nth_fragment dg P L ` {..<cut_count P L}" using Cons.prems(3) by auto
    ultimately show False using Cons.prems(4) z by auto
  qed
  obtain b1 where b1: "fb_addFragment dz t bufs = Inr (None, b1)" "collecting dg P L (insert i A) b1"
      "map_of b1 = (map_of bufs)(frag_key_of dg := map_of b1 (frag_key_of dg))"
    using add_nth_fragment[OF LP dg Cons.prems(1) i(1) Cons.prems(2), of t] sub i by auto
  have "\<exists>bufs'. fb_receive (ys @ [y]) b1 = Inr ([dg\<lparr>dg_byteLength := dg_headerLength dg + int P\<rparr>], bufs')
      \<and> map_of bufs' = (map_of b1)(frag_key_of dg := None)"
    by (rule Cons.IH[OF b1(2) sub]) (use Cons.prems(3-5) z i in auto)
  then obtain b' where b': "fb_receive (ys @ [y]) b1 = Inr ([dg\<lparr>dg_byteLength := dg_headerLength dg + int P\<rparr>], b')"
      "map_of b' = (map_of b1)(frag_key_of dg := None)" by blast
  have "map_of b' = (map_of bufs)(frag_key_of dg := None)" unfolding b'(2) by (subst b1(3)) simp
  then show ?case using b1(1) b'(1) by (simp add: z fun_upd_def)
qed

lemma plan_fragments:
  assumes "fragment_plan ie dg = Inr (Fragments fs)" "1 < length fs"
  shows "\<exists>w L. fragment_plan (ie\<lparr>ie_mtu := 0\<rparr>) dg = Inr (Fragments [w]) \<and> 0 < L \<and> fs = fragment_loop w (dg_byteLength w - dg_headerLength w) L 0
    \<and> dg_fragmentOffset w = dg_fragmentOffset dg \<and> dg_moreFragments w = dg_moreFragments dg
    \<and> dg_byteLength w = dg_byteLength dg \<and> dg_headerLength w = dg_headerLength dg
    \<and> frag_key_of w = frag_key_of (dg\<lparr>dg_src := dg_src w\<rparr>)"
proof -
  have d: "data_of (ie\<lparr>ie_mtu := 0\<rparr>) = data_of ie" by (simp add: data_of_def)
  obtain dg1 where dg1: "(if ip4_isUnspecified (dg_src dg) then mapE (\<lambda>d. dg\<lparr>dg_src := inetAddr d\<rparr>) (data_of ie) else Inr dg) = Inr dg1"
    using assms(1) by (auto simp: fragment_plan_def bindE_eq_Inr)
  then have same: "dg_fragmentOffset dg1 = dg_fragmentOffset dg" "dg_moreFragments dg1 = dg_moreFragments dg"
      "dg_byteLength dg1 = dg_byteLength dg" "dg_headerLength dg1 = dg_headerLength dg" "dg_id dg1 = dg_id dg" "dg_dest dg1 = dg_dest dg"
    by (auto simp: mapE_eq_Inr split: if_splits)
  define w where "w = (if \<not> ie_loopback ie then dg1\<lparr>dg_ttl := dg_ttl dg1 - 1\<rparr> else dg1)"
  let ?L = "((ie_mtu ie - dg_headerLength w) sdiv 8) * 8"
  have "\<not> dg_ttl w <s 0 \<and> \<not> ?L \<le> 0 \<and> fs = fragment_loop w (dg_byteLength w - dg_headerLength w) ?L 0"
    using assms dg1 unfolding fragment_plan_def dg1 bindE_simps Let_def w_def[symmetric] by (auto split: if_splits)
  moreover have "dg_src w = dg_src dg1" "dg_fragmentOffset w = dg_fragmentOffset dg1" "dg_moreFragments w = dg_moreFragments dg1"
      "dg_byteLength w = dg_byteLength dg1" "dg_headerLength w = dg_headerLength dg1" "dg_id w = dg_id dg1" "dg_dest w = dg_dest dg1"
    by (simp_all add: w_def)
  moreover have "fragment_plan (ie\<lparr>ie_mtu := 0\<rparr>) dg = Inr (Fragments [w])"
    using calculation(1) unfolding fragment_plan_def d dg1 bindE_simps Let_def w_def[symmetric] by (simp add: w_def[symmetric])
  ultimately show ?thesis using same by (intro exI[of _ w] exI[of _ ?L]) (simp add: frag_key_of_def)
qed

text \<open>
  C17.  Fragmentation and reassembly: a host that receives the fragments of a datagram in any order, with repetitions and at
  any times, delivers nothing until the last missing fragment arrives, and then exactly the datagram that an interface without
  a limit would have sent.  The buffer of the datagram is gone then, and the buffers of others are as before.
\<close>

theorem fragments_reassemble:
  assumes "fragment_plan ie dg = Inr (Fragments fs)" "1 < length fs" "dg_fragmentOffset dg = 0" "\<not> dg_moreFragments dg"
    "dg_byteLength dg - dg_headerLength dg < 65536"
    and "fst ` set (ys @ [y]) = set fs" "fst ` set ys \<noteq> set fs" "map_of bufs (frag_key_of (hd fs)) = None"
  shows "\<exists>w bufs'. fragment_plan (ie\<lparr>ie_mtu := 0\<rparr>) dg = Inr (Fragments [w]) \<and> fb_receive (ys @ [y]) bufs = Inr ([w], bufs')
    \<and> map_of bufs' = map_of bufs"
proof -
  obtain w L0 where w: "fragment_plan (ie\<lparr>ie_mtu := 0\<rparr>) dg = Inr (Fragments [w])" "0 < L0"
      "fs = fragment_loop w (dg_byteLength w - dg_headerLength w) L0 0" "dg_fragmentOffset w = dg_fragmentOffset dg"
      "dg_moreFragments w = dg_moreFragments dg" "dg_byteLength w = dg_byteLength dg" "dg_headerLength w = dg_headerLength dg"
    using plan_fragments[OF assms(1,2)] by blast
  define L where "L = nat L0"
  define P where "P = nat (dg_byteLength w - dg_headerLength w)"
  have pos: "0 < dg_byteLength w - dg_headerLength w"
    using assms(2) w(3) by (rule_tac ccontr) (simp add: fragment_loop.simps)
  then have LP: "0 < L" "0 < P" "P < 65536" "int P = dg_byteLength w - dg_headerLength w" "int L = L0"
    using w(2,6,7) assms(5) by (simp_all add: L_def P_def)
  have fs: "fs = map (nth_fragment w P L) [0..<cut_count P L]"
    using fragment_loop_pieces[OF LP(1), of 0 P w] w(3) LP(4,5) by simp
  then have n: "1 < cut_count P L" and set: "set fs = nth_fragment w P L ` {..<cut_count P L}"
    using assms(2) by (auto simp: lessThan_atLeast0)
  have "frag_key_of (hd fs) = frag_key_of w" using n unfolding fs by (simp add: hd_map hd_upt nth_fragment_def frag_key_of_def)
  then have none: "map_of bufs (frag_key_of w) = None" using assms(8) by simp
  have e: "w\<lparr>dg_byteLength := dg_headerLength w + int P\<rparr> = w" by (simp add: LP(4))
  have "\<exists>bufs'. fb_receive (ys @ [y]) bufs = Inr ([w\<lparr>dg_byteLength := dg_headerLength w + int P\<rparr>], bufs')
      \<and> map_of bufs' = (map_of bufs)(frag_key_of w := None)"
    by (rule receive_fragments[where A = "{}"])
      (use LP(1-3) n w(4,5) assms(3,4,6,7) none set in \<open>auto simp: collecting_def\<close>)
  then show ?thesis using w(1) none unfolding e by (metis fun_upd_triv)
qed

definition ex_ie :: interface_entry where
  "ex_ie = \<lparr>interfaceId = 101, nwLayerGateIndex = 0, ie_mtu = 100, ie_loopback = False, ie_broadcast = False, ie_multicast = False,
     ie_macAddr = 1, ipv4Data = Some (new_interface_data\<lparr>inetAddr := 0x0A000001\<rparr>)\<rparr>"

definition ex_datagram :: ip_datagram where
  "ex_datagram = \<lparr>dg_src = 0, dg_dest = 0x0B000001, dg_protocol = 17, dg_ttl = 32, dg_id = 5, dg_moreFragments = False,
     dg_dontFragment = False, dg_fragmentOffset = 0, dg_tos = 0, dg_headerLength = 20, dg_byteLength = 250, dg_packet = Some 7,
     dg_gate = Some 0\<rparr>"

definition ex_sent :: ip_datagram where "ex_sent = ex_datagram\<lparr>dg_src := 0x0A000001, dg_ttl := 31\<rparr>"

lemma fragments_reassemble_witness:
  "\<exists>fs. fragment_plan ex_ie ex_datagram = Inr (Fragments fs) \<and> length fs = 3
     \<and> (\<exists>bufs'. fb_receive ([(fs ! 2, 0), (fs ! 0, 1), (fs ! 2, 5)] @ [(fs ! 1, 9)]) [] = Inr ([ex_sent], bufs'))"
proof -
  let ?f = "\<lambda>pos len more. ex_sent\<lparr>dg_moreFragments := more, dg_byteLength := len, dg_fragmentOffset := pos\<rparr>"
  let ?fs = "[?f 0 100 True, ?f 80 100 True, ?f 160 90 False]"
  have p: "fragment_plan ex_ie ex_datagram = Inr (Fragments ?fs)" by code_simp
  have q: "fragment_plan (ex_ie\<lparr>ie_mtu := 0\<rparr>) ex_datagram = Inr (Fragments [ex_sent])" by code_simp
  have "\<exists>w bufs'. fragment_plan (ex_ie\<lparr>ie_mtu := 0\<rparr>) ex_datagram = Inr (Fragments [w])
      \<and> fb_receive ([(?fs ! 2, 0), (?fs ! 0, 1), (?fs ! 2, 5)] @ [(?fs ! 1, 9)]) [] = Inr ([w], bufs') \<and> map_of bufs' = map_of []"
  proof (rule fragments_reassemble[OF p])
    show "fst ` set ([(?fs ! 2, 0), (?fs ! 0, 1), (?fs ! 2, 5)] @ [(?fs ! 1, 9)]) = set ?fs" by (simp add: insert_commute)
    have "?fs ! 1 \<noteq> ?fs ! 2" "?fs ! 1 \<noteq> ?fs ! 0" by (simp_all add: ex_sent_def ex_datagram_def)
    then show "fst ` set [(?fs ! 2, 0), (?fs ! 0, 1), (?fs ! 2, 5)] \<noteq> set ?fs" by auto
  qed (simp_all add: ex_datagram_def)
  then show ?thesis using p q by auto
qed

end
