(* ===== verification/Ip_Icmp.thy ===== *)
theory Ip_Icmp
  imports Ip_Fragment
begin

text \<open>
  \<open>ICMP\<close>, \<open>networklayer/ipv4/ICMP.cc\<close>, with the control info that passes between IPv4 and the protocols above it.  The
  encapsulated packet of a datagram is known by a number; \<open>icmp_of\<close> gives the type of an ICMP message with that number.
  Names of messages, and the counter in them, are left out.
\<close>

section \<open>Control info and messages\<close>

record ip_control =
  ctl_dest :: ip4
  ctl_src :: ip4
  ctl_protocol :: int
  ctl_tos :: u8
  ctl_ifid :: int
  ctl_dontFragment :: bool
  ctl_ttl :: "16 word"
  ctl_multicastLoop :: bool
  ctl_orig :: "ip_datagram option"

definition new_control :: ip_control where
  "new_control = \<lparr>ctl_dest = 0, ctl_src = 0, ctl_protocol = 0, ctl_tos = 0, ctl_ifid = -1, ctl_dontFragment = False, ctl_ttl = 0,
     ctl_multicastLoop = False, ctl_orig = None\<rparr>"

definition setOrigDatagram :: "ip_datagram \<Rightarrow> ip_control \<Rightarrow> ip_control res" where
  "setOrigDatagram dg c =
     (if ctl_orig c \<noteq> None then Inl (RuntimeError ''setOrigDatagram(): a datagram is already attached'')
      else Inr (c\<lparr>ctl_orig := Some dg\<rparr>))"

definition removeOrigDatagram :: "ip_control \<Rightarrow> (ip_datagram \<times> ip_control) res" where
  "removeOrigDatagram c =
     (case ctl_orig c of
        None \<Rightarrow> Inl (RuntimeError ''removeOrigDatagram(): no datagram attached'')
      | Some dg \<Rightarrow> Inr (dg, c\<lparr>ctl_orig := None\<rparr>))"

definition ICMP_REDIRECT :: int where "ICMP_REDIRECT = 5"
definition ICMP_TIME_EXCEEDED :: int where "ICMP_TIME_EXCEEDED = 11"
definition ICMP_PARAMETER_PROBLEM :: int where "ICMP_PARAMETER_PROBLEM = 12"
definition ICMP_DESTINATION_UNREACHABLE :: int where "ICMP_DESTINATION_UNREACHABLE = 13"
definition ICMP_ECHO_REQUEST :: int where "ICMP_ECHO_REQUEST = 128"
definition ICMP_ECHO_REPLY :: int where "ICMP_ECHO_REPLY = 129"
definition ICMP_TIMESTAMP_REQUEST :: int where "ICMP_TIMESTAMP_REQUEST = 130"
definition ICMP_TIMESTAMP_REPLY :: int where "ICMP_TIMESTAMP_REPLY = 131"
definition ICMP_DU_PROTOCOL_UNREACHABLE :: int where "ICMP_DU_PROTOCOL_UNREACHABLE = 2"
definition ICMP_DU_FRAGMENTATION_NEEDED :: int where "ICMP_DU_FRAGMENTATION_NEEDED = 4"

definition IP_PROT_ICMP :: int where "IP_PROT_ICMP = 1"
definition IP_PROT_IGMP :: int where "IP_PROT_IGMP = 2"
definition IP_PROT_IP :: int where "IP_PROT_IP = 4"

lemmas icmp_types = ICMP_REDIRECT_def ICMP_TIME_EXCEEDED_def ICMP_PARAMETER_PROBLEM_def ICMP_DESTINATION_UNREACHABLE_def
  ICMP_ECHO_REQUEST_def ICMP_ECHO_REPLY_def ICMP_TIMESTAMP_REQUEST_def ICMP_TIMESTAMP_REPLY_def

text \<open>What a message encapsulates: a datagram, or the payload of a ping with the id of its originator.\<close>

datatype icmp_content = IcmpNothing | IcmpDatagram ip_datagram | IcmpPing int nat

record icmp_message =
  icmp_type :: int
  icmp_code :: int
  icmp_content_of :: icmp_content
  icmp_length :: int
  icmp_ctl :: "ip_control option"

datatype icmp_out =
    ErrorOut icmp_message
  | IcmpToIp icmp_message
  | PingOut int icmp_content ip_control

record icmp =
  pingMap :: "int \<rightharpoonup> int"
  icmp_outs :: "icmp_out list"

definition icmp_emit :: "icmp_out \<Rightarrow> icmp \<Rightarrow> icmp" where
  "icmp_emit x M = M\<lparr>icmp_outs := icmp_outs M @ [x]\<rparr>"

section \<open>Messages that arrive\<close>

definition processEchoRequest :: "icmp_message \<Rightarrow> icmp \<Rightarrow> icmp res" where
  "processEchoRequest request M =
     (case icmp_ctl request of
        None \<Rightarrow> Inl (RuntimeError ''check_and_cast: control info'')
      | Some ctrl \<Rightarrow>
          Inr (icmp_emit (IcmpToIp (request\<lparr>icmp_type := ICMP_ECHO_REPLY,
                 icmp_ctl := Some (ctrl\<lparr>ctl_ifid := -1, ctl_src := ctl_dest ctrl, ctl_dest := ctl_src ctrl\<rparr>)\<rparr>)) M))"

definition processEchoReply :: "icmp_message \<Rightarrow> icmp \<Rightarrow> icmp res" where
  "processEchoReply reply M =
     (case icmp_ctl reply of
        None \<Rightarrow> Inl (RuntimeError ''check_and_cast: control info'')
      | Some ctrl \<Rightarrow>
          (case icmp_content_of reply of
             IcmpPing originatorId payload \<Rightarrow>
               (case pingMap M originatorId of
                  None \<Rightarrow> Inr M
                | Some i \<Rightarrow> Inr (icmp_emit (PingOut i (IcmpPing originatorId payload) ctrl) M))
           | _ \<Rightarrow> Inl (RuntimeError ''check_and_cast: PingPayload'')))"

definition processICMPMessage :: "icmp_message \<Rightarrow> icmp \<Rightarrow> icmp res" where
  "processICMPMessage m M =
     (if icmp_type m \<in> {ICMP_DESTINATION_UNREACHABLE, ICMP_REDIRECT, ICMP_TIME_EXCEEDED, ICMP_PARAMETER_PROBLEM}
      then Inr (icmp_emit (ErrorOut m) M)
      else if icmp_type m \<in> {ICMP_ECHO_REQUEST, ICMP_TIMESTAMP_REQUEST} then processEchoRequest m M
      else if icmp_type m \<in> {ICMP_ECHO_REPLY, ICMP_TIMESTAMP_REPLY} then processEchoReply m M
      else Inl (RuntimeError ''Unknown ICMP type''))"

section \<open>Error messages\<close>

definition unconfigured :: "interface_entry \<Rightarrow> bool" where
  "unconfigured ie = (case ipv4Data ie of None \<Rightarrow> True | Some d \<Rightarrow> ip4_isUnspecified (inetAddr d))"

definition possiblyLocalBroadcast :: "ip4 \<Rightarrow> int \<Rightarrow> routing_table \<Rightarrow> (bool \<times> routing_table) res" where
  "possiblyLocalBroadcast addr ifid T =
     (if addr AND 1 = 0 then Inr (False, T)
      else bindE (isLocalBroadcastAddress addr T) (\<lambda>(local, T1).
        if local then Inr (True, T1)
        else if ifid \<noteq> -1
        then (case find_interface ifid (ift T1) of
                None \<Rightarrow> Inl (NullPointer ''ie'')
              | Some ie \<Rightarrow> Inr (unconfigured ie, T1))
        else Inr (list_ex unconfigured (ift T1), T1)))"

text \<open>The flag is whether an address is one that no error is sent about, or to.\<close>

definition no_error_for :: "ip4 \<Rightarrow> int \<Rightarrow> routing_table \<Rightarrow> (bool \<times> routing_table) res" where
  "no_error_for a ifid T =
     (if isMulticast a \<or> isLimitedBroadcastAddress a then Inr (True, T) else possiblyLocalBroadcast a ifid T)"

definition encapsulated_icmp_type :: "(nat \<Rightarrow> int option) \<Rightarrow> ip_datagram \<Rightarrow> int res" where
  "encapsulated_icmp_type icmp_of dg =
     (case dg_packet dg of
        None \<Rightarrow> Inl (RuntimeError ''check_and_cast: NULL'')
      | Some n \<Rightarrow> (case icmp_of n of None \<Rightarrow> Inl (RuntimeError ''check_and_cast: ICMPMessage'') | Some t \<Rightarrow> Inr t))"

definition sendToIP_dest :: "icmp_message \<Rightarrow> ip4 \<Rightarrow> icmp \<Rightarrow> icmp" where
  "sendToIP_dest m dest M =
     icmp_emit (IcmpToIp (m\<lparr>icmp_ctl := Some (new_control\<lparr>ctl_dest := dest, ctl_protocol := IP_PROT_ICMP\<rparr>)\<rparr>)) M"

definition error_message :: "ip_datagram \<Rightarrow> int \<Rightarrow> int \<Rightarrow> icmp_message" where
  "error_message dg ty code =
     (let dataLength = dg_byteLength dg - dg_headerLength dg;
          truncatedDataLength = (if dataLength \<le> 8 then dataLength else 8)
      in \<lparr>icmp_type = ty, icmp_code = code, icmp_content_of = IcmpDatagram dg,
          icmp_length = 8 + dg_headerLength dg + truncatedDataLength, icmp_ctl = None\<rparr>)"

definition sendErrorMessage ::
  "(nat \<Rightarrow> int option) \<Rightarrow> ip_datagram \<Rightarrow> int \<Rightarrow> int \<Rightarrow> int \<Rightarrow> icmp \<times> routing_table \<Rightarrow> (icmp \<times> routing_table) res" where
  "sendErrorMessage icmp_of dg ifid ty code = (\<lambda>(M, T).
     bindE (no_error_for (dg_dest dg) ifid T) (\<lambda>(dest_bad, T1).
       if dest_bad then Inr (M, T1)
       else bindE (if ip4_isUnspecified (dg_src dg) then Inr (True, T1) else no_error_for (dg_src dg) ifid T1) (\<lambda>(src_bad, T2).
         if src_bad then Inr (M, T2)
         else bindE (if dg_protocol dg = IP_PROT_ICMP then mapE (\<lambda>t. t < 128) (encapsulated_icmp_type icmp_of dg) else Inr False)
           (\<lambda>is_error.
             if is_error then Inr (M, T2)
             else let m = error_message dg ty code
                  in if ip4_isUnspecified (dg_src dg)
                     then mapE (\<lambda>M'. (M', T2))
                       (processICMPMessage
                         (m\<lparr>icmp_ctl := Some (new_control\<lparr>ctl_src := LOOPBACK_ADDRESS, ctl_protocol := IP_PROT_ICMP\<rparr>)\<rparr>) M)
                     else Inr (sendToIP_dest m (dg_src dg) M, T2)))))"

text \<open>The variant for a transport packet with the control info it came with.\<close>

definition sendErrorMessage_transport ::
  "(nat \<Rightarrow> int option) \<Rightarrow> nat \<Rightarrow> int \<Rightarrow> ip_control \<Rightarrow> int \<Rightarrow> int \<Rightarrow> icmp \<times> routing_table \<Rightarrow> (icmp \<times> routing_table) res" where
  "sendErrorMessage_transport icmp_of packet len ctrl ty code s =
     bindE (removeOrigDatagram ctrl) (\<lambda>(dg, ctrl').
       sendErrorMessage icmp_of (dg\<lparr>dg_packet := Some packet, dg_byteLength := dg_byteLength dg + len\<rparr>) (ctl_ifid ctrl') ty code s)"

section \<open>Pings\<close>

definition sendEchoRequest :: "int \<Rightarrow> int \<Rightarrow> nat \<Rightarrow> int \<Rightarrow> ip_control option \<Rightarrow> icmp \<Rightarrow> icmp res" where
  "sendEchoRequest gate originatorId payload len ctrl M =
     (case ctrl of
        None \<Rightarrow> Inl (RuntimeError ''check_and_cast: control info'')
      | Some c \<Rightarrow>
          Inr (icmp_emit (IcmpToIp \<lparr>icmp_type = ICMP_ECHO_REQUEST, icmp_code = 0, icmp_content_of = IcmpPing originatorId payload,
                            icmp_length = len, icmp_ctl = Some (c\<lparr>ctl_protocol := IP_PROT_ICMP\<rparr>)\<rparr>)
                (M\<lparr>pingMap := (pingMap M)(originatorId \<mapsto> gate)\<rparr>)))"

datatype icmp_input =
    LocalIn icmp_message
  | PingIn int int nat int "ip_control option"
  | OtherGate

definition icmp_handleMessage :: "icmp_input \<Rightarrow> icmp \<Rightarrow> icmp res" where
  "icmp_handleMessage x M = (case x of
     LocalIn m \<Rightarrow> processICMPMessage m M
   | PingIn gate originatorId payload len ctrl \<Rightarrow> sendEchoRequest gate originatorId payload len ctrl M
   | OtherGate \<Rightarrow> Inr M)"

section \<open>Properties\<close>

text \<open>
  The broadcast addresses of the subnets that the interfaces of a table are configured for; an interface with a host mask is not
  part of a subnet that has one.  The table answers from a list that it remembers: \<open>broadcasts_known\<close> says that this list, when
  there is one, holds them, which every change of an address establishes, because it empties the list.
\<close>

definition subnet_broadcast :: "ip4 \<Rightarrow> routing_table \<Rightarrow> bool" where
  "subnet_broadcast a T \<longleftrightarrow>
     list_ex (\<lambda>ie. case ipv4Data ie of None \<Rightarrow> False | Some d \<Rightarrow> ie_netmask d AND 1 = 0 \<and> broadcast_of d = a) (ift T)"

definition broadcasts_known :: "routing_table \<Rightarrow> bool" where
  "broadcasts_known T \<longleftrightarrow> localBroadcastAddresses T = [] \<or> (\<forall>a. subnet_broadcast a T \<longrightarrow> a \<in> set (localBroadcastAddresses T))"

text \<open>An odd address may be the broadcast address of an interface whose address is not known yet.\<close>

definition may_be_broadcast :: "ip4 \<Rightarrow> int \<Rightarrow> routing_table \<Rightarrow> bool" where
  "may_be_broadcast a ifid T \<longleftrightarrow> a AND 1 = 1
     \<and> list_ex (\<lambda>ie. (ifid = -1 \<or> Some ie = find_interface ifid (ift T)) \<and> unconfigured ie) (ift T)"

lemma even_word: "a AND 1 = 0 \<longleftrightarrow> even (a :: ip4)"
  by (simp add: and_one_eq mod2_eq_if)

lemma odd_word: "a AND 1 = 1 \<longleftrightarrow> odd (a :: ip4)"
  by (simp add: and_one_eq mod2_eq_if)

lemma broadcast_odd: "ie_netmask d AND 1 = 0 \<Longrightarrow> broadcast_of d AND 1 = 1"
  by (simp add: broadcast_of_def makeBroadcastAddress_def even_word odd_word even_or_iff)

lemma subnet_broadcast_odd: "subnet_broadcast a T \<Longrightarrow> a AND 1 = 1"
  by (auto simp: subnet_broadcast_def list_ex_iff broadcast_odd split: option.splits)

lemma collect_set: "collect f ies = Inr as \<Longrightarrow> ie \<in> set ies \<Longrightarrow> ipv4Data ie = Some d \<Longrightarrow> set (f d) \<subseteq> set as"
  by (induction ies arbitrary: as) (auto simp: res_simps data_of_def split: option.splits)

lemma broadcasts_collected:
  assumes "collect (\<lambda>d. if ip4_isUnspecified (broadcast_of d) then [] else [broadcast_of d]) (ift T) = Inr as" "subnet_broadcast a T"
  shows "a \<in> set as"
proof -
  obtain ie d where "ie \<in> set (ift T)" "ipv4Data ie = Some d" "broadcast_of d = a"
    using assms(2) by (auto simp: subnet_broadcast_def list_ex_iff split: option.splits)
  moreover have "a \<noteq> 0" using subnet_broadcast_odd[OF assms(2)] by auto
  ultimately show ?thesis
    using collect_set[OF assms(1)] by (fastforce simp: ip4_isUnspecified_def UNSPECIFIED_ADDRESS_def)
qed

lemma isLocalBroadcastAddress_known:
  assumes "isLocalBroadcastAddress a T = Inr (b, T')" "broadcasts_known T"
  shows "broadcasts_known T'" "subnet_broadcast a T \<Longrightarrow> b" "ift T' = ift T"
  using assms broadcasts_collected
  by (auto simp: isLocalBroadcastAddress_def res_simps broadcasts_known_def subnet_broadcast_def split: if_splits)

lemma broadcasts_known_invalidate: "broadcasts_known (invalidateCache T)"
  by (simp add: broadcasts_known_def invalidateCache_def)

lemma broadcasts_known_change: "change_interface i f T = Inr T' \<Longrightarrow> broadcasts_known T'"
  by (auto simp: change_interface_def receiveChangeNotification_def updateNetmaskRoutes_def Let_def res_simps
      broadcasts_known_invalidate split: prod.splits)

lemma no_error_for_False: "no_error_for a ifid T = Inr (False, T') \<Longrightarrow> \<not> isMulticast a \<and> a \<noteq> 0xFFFFFFFF"
  by (auto simp: no_error_for_def isLimitedBroadcastAddress_def split: if_splits)

lemma no_error_for_unicast:
  assumes "no_error_for a ifid T = Inr (False, T')" "broadcasts_known T"
  shows "broadcasts_known T' \<and> ift T' = ift T \<and> \<not> subnet_broadcast a T \<and> \<not> may_be_broadcast a ifid T"
proof (cases "a AND 1 = 0")
  case True
  then show ?thesis
    using assms subnet_broadcast_odd[of a T] by (auto simp: no_error_for_def possiblyLocalBroadcast_def may_be_broadcast_def split: if_splits)
next
  case False
  then have l: "isLocalBroadcastAddress a T = Inr (False, T')"
    and "if ifid \<noteq> -1 then (\<exists>ie. find_interface ifid (ift T') = Some ie \<and> \<not> unconfigured ie) else \<not> list_ex unconfigured (ift T')"
    using assms(1) by (auto simp: no_error_for_def possiblyLocalBroadcast_def res_simps split: if_splits option.splits)
  then show ?thesis
    using isLocalBroadcastAddress_known(1,2)[OF l assms(2)] isLocalBroadcastAddress_known(3)[OF l assms(2)]
    by (auto simp: may_be_broadcast_def list_ex_iff split: if_splits)
qed

text \<open>
  C21. Errors do not breed errors: whatever \<open>sendErrorMessage\<close> is called with, it sends at most one message, and only when the
  datagram that went wrong has a unicast source and destination and is not an ICMP error itself; the message goes to that source,
  and its length is that of the header and at most eight bytes of the data, after the eight bytes of ICMP.  Unicast means: neither
  multicast, nor the limited broadcast address, nor the broadcast address of the subnet of an interface, nor an odd address while
  the interface (or one of them, when none is given) has no address yet.  In particular the branch for an unspecified source is
  never taken.  The list of broadcast addresses that the routing table remembers, if it does, is assumed to be up to date.
\<close>

theorem icmp_error_discipline:
  assumes "sendErrorMessage icmp_of dg ifid ty code (M, T) = Inr (M', T')" "broadcasts_known T"
  shows "M' = M \<or> (\<exists>m c. icmp_outs M' = icmp_outs M @ [IcmpToIp m] \<and> pingMap M' = pingMap M
    \<and> icmp_type m = ty \<and> icmp_code m = code \<and> icmp_content_of m = IcmpDatagram dg
    \<and> icmp_ctl m = Some c \<and> ctl_dest c = dg_src dg \<and> ctl_protocol c = IP_PROT_ICMP
    \<and> icmp_length m = 8 + dg_headerLength dg + min 8 (dg_byteLength dg - dg_headerLength dg)
    \<and> dg_src dg \<noteq> 0 \<and> dg_src dg \<noteq> 0xFFFFFFFF \<and> dg_dest dg \<noteq> 0xFFFFFFFF \<and> \<not> isMulticast (dg_src dg) \<and> \<not> isMulticast (dg_dest dg)
    \<and> \<not> subnet_broadcast (dg_src dg) T \<and> \<not> subnet_broadcast (dg_dest dg) T
    \<and> \<not> may_be_broadcast (dg_src dg) ifid T \<and> \<not> may_be_broadcast (dg_dest dg) ifid T
    \<and> (dg_protocol dg = IP_PROT_ICMP \<longrightarrow> (\<exists>n t. dg_packet dg = Some n \<and> icmp_of n = Some t \<and> 128 \<le> t)))"
proof (cases "M' = M")
  case False
  obtain b1 T1 where 1: "no_error_for (dg_dest dg) ifid T = Inr (b1, T1)"
    using assms(1) by (cases "no_error_for (dg_dest dg) ifid T") (auto simp: sendErrorMessage_def)
  have b1: "\<not> b1" using assms(1) False by (auto simp: sendErrorMessage_def 1)
  have src: "dg_src dg \<noteq> 0"
    using assms(1) False b1 by (auto simp: sendErrorMessage_def 1 ip4_isUnspecified_def UNSPECIFIED_ADDRESS_def)
  obtain b2 T2 where 2: "no_error_for (dg_src dg) ifid T1 = Inr (b2, T2)"
    using assms(1) b1 src
    by (cases "no_error_for (dg_src dg) ifid T1") (auto simp: sendErrorMessage_def 1 ip4_isUnspecified_def UNSPECIFIED_ADDRESS_def)
  have b2: "\<not> b2" using assms(1) False b1 src by (auto simp: sendErrorMessage_def 1 2 ip4_isUnspecified_def UNSPECIFIED_ADDRESS_def)
  let ?e = "if dg_protocol dg = IP_PROT_ICMP then mapE (\<lambda>t. t < 128) (encapsulated_icmp_type icmp_of dg) else Inr False"
  note call = sendErrorMessage_def 1 2 b1 b2 src ip4_isUnspecified_def UNSPECIFIED_ADDRESS_def
  obtain err where 3: "?e = Inr err"
    using assms(1) by (cases ?e) (simp_all add: call)
  have 4: "\<not> err" using assms(1) False by (auto simp: call 3)
  then have M': "M' = sendToIP_dest (error_message dg ty code) (dg_src dg) M"
    using assms(1) by (simp add: call 3 Let_def)
  have prot: "dg_protocol dg = IP_PROT_ICMP \<longrightarrow> (\<exists>n t. dg_packet dg = Some n \<and> icmp_of n = Some t \<and> 128 \<le> t)"
    using 3 4 by (auto simp: encapsulated_icmp_type_def split: option.splits if_splits)
  have u: "no_error_for (dg_dest dg) ifid T = Inr (False, T1)" "no_error_for (dg_src dg) ifid T1 = Inr (False, T2)"
    using 1 2 b1 b2 by simp_all
  have "subnet_broadcast a T1 = subnet_broadcast a T" "may_be_broadcast a ifid T1 = may_be_broadcast a ifid T" for a
    using no_error_for_unicast[OF u(1) assms(2)] by (auto simp: subnet_broadcast_def may_be_broadcast_def)
  then show ?thesis
    using no_error_for_unicast[OF u(1) assms(2)] no_error_for_unicast[OF u(2)] no_error_for_False[OF u(1)] no_error_for_False[OF u(2)]
      src prot
    by (auto simp: M' sendToIP_dest_def icmp_emit_def error_message_def Let_def min_def)
qed simp

text \<open>A datagram between two hosts is answered; one to the broadcast address of the subnet of the interface is not.\<close>

theorem icmp_error_discipline_witness:
  "\<exists>M' T'. sendErrorMessage (\<lambda>_. None) (ex_sent\<lparr>dg_src := 0x0A000003, dg_dest := 0x0B000003\<rparr>) 100 ICMP_TIME_EXCEEDED 0
      (\<lparr>pingMap = Map.empty, icmp_outs = []\<rparr>, ex_table) = Inr (M', T') \<and> (\<exists>m. icmp_outs M' = [IcmpToIp m] \<and> icmp_length m = 36)
   \<and> sendErrorMessage (\<lambda>_. None) (ex_sent\<lparr>dg_src := 0x0A000003, dg_dest := 0x0AFFFFFF\<rparr>) 100 ICMP_TIME_EXCEEDED 0
      (\<lparr>pingMap = Map.empty, icmp_outs = []\<rparr>, ex_table) = Inr (\<lparr>pingMap = Map.empty, icmp_outs = []\<rparr>, T')"
proof -
  let ?M = "\<lparr>pingMap = Map.empty, icmp_outs = []\<rparr> :: icmp" and ?T = "ex_table\<lparr>localBroadcastAddresses := [0x0AFFFFFF]\<rparr>"
  let ?d = "\<lambda>a. ex_sent\<lparr>dg_src := 0x0A000003, dg_dest := a\<rparr>"
  have n: "no_error_for a 100 T = Inr (a = 0x0AFFFFFF, ?T)" if "T \<in> {ex_table, ?T}" "a \<in> {0x0A000003, 0x0B000003, 0x0AFFFFFF}" for a T
    using that by (auto simp: no_error_for_def possiblyLocalBroadcast_def isMulticast_def isLimitedBroadcastAddress_def
        isLocalBroadcastAddress_def ex_table_def data_of_def broadcast_of_def makeBroadcastAddress_def new_interface_data_def
        ip4_isUnspecified_def UNSPECIFIED_ADDRESS_def find_interface_def unconfigured_def res_simps)
  obtain M' where r: "sendErrorMessage (\<lambda>_. None) (?d 0x0B000003) 100 ICMP_TIME_EXCEEDED 0 (?M, ex_table) = Inr (M', ?T)" "icmp_outs M' \<noteq> []"
    using n by (auto simp: sendErrorMessage_def ex_sent_def ex_datagram_def ip4_isUnspecified_def UNSPECIFIED_ADDRESS_def IP_PROT_ICMP_def
        sendToIP_dest_def icmp_emit_def)
  have "broadcasts_known ex_table" by (simp add: broadcasts_known_def ex_table_def)
  from icmp_error_discipline[OF r(1) this] r(2) have "\<exists>m. icmp_outs M' = [IcmpToIp m] \<and> icmp_length m = 36"
    by (auto simp: ex_sent_def ex_datagram_def)
  moreover have "sendErrorMessage (\<lambda>_. None) (?d 0x0AFFFFFF) 100 ICMP_TIME_EXCEEDED 0 (?M, ex_table) = Inr (?M, ?T)"
    using n by (simp add: sendErrorMessage_def)
  ultimately show ?thesis using r(1) by blast
qed

text \<open>
  A ping comes back to the application that has sent it: the peer turns the request into a reply with the addresses
  exchanged and no interface prescribed, and when the reply arrives with the payload, it goes out at the gate of the request.
\<close>

lemma echo_roundtrip:
  fixes received :: ip_control and returned :: ip_control
  shows "\<exists>req M1 rep N1 M2.
     icmp_handleMessage (PingIn gate originator payload len (Some c)) M = Inr M1 \<and> icmp_outs M1 = icmp_outs M @ [IcmpToIp req]
   \<and> icmp_type req = ICMP_ECHO_REQUEST
   \<and> icmp_handleMessage (LocalIn (req\<lparr>icmp_ctl := Some received\<rparr>)) N = Inr N1 \<and> icmp_outs N1 = icmp_outs N @ [IcmpToIp rep]
   \<and> icmp_type rep = ICMP_ECHO_REPLY
   \<and> map_option (\<lambda>k. (ctl_src k, ctl_dest k, ctl_ifid k)) (icmp_ctl rep) = Some (ctl_dest received, ctl_src received, -1)
   \<and> icmp_handleMessage (LocalIn (rep\<lparr>icmp_ctl := Some returned\<rparr>)) M1 = Inr M2
   \<and> icmp_outs M2 = icmp_outs M1 @ [PingOut gate (IcmpPing originator payload) returned]"
  by (simp add: icmp_handleMessage_def sendEchoRequest_def processICMPMessage_def processEchoRequest_def processEchoReply_def
      icmp_emit_def icmp_types)

end
