(* ===== verification/Ip_Module.thy ===== *)
theory Ip_Module
  imports Ip_Arp Ip_Icmp
begin

text \<open>
  \<open>IPv4\<close>, \<open>networklayer/ipv4/IPv4.cc\<close>, together with the two modules it calls: the routing table and ARP, whose signals it
  receives while the call is running.  Datagrams that wait for an address are queued by the address.  The methods of ICMP that it
  calls are part of its output, in order with what it sends.

  Given from outside are the hooks, the ICMP content of a packet, the connections of the gates to the transport layer, and what
  the listeners of the notification board do (\<open>ip_env\<close>).  The queue in front of the module (\<open>QueueBase\<close>) is in \<open>Abstract_Queue\<close>.
\<close>

section \<open>State\<close>

datatype hook_type = LOCALOUT | PREROUTING | FORWARD | POSTROUTING | LOCALIN
datatype hook_result = ACCEPT | DROP | QUEUE | STOLEN

text \<open>A hook may change the datagram, the interface and the next hop.\<close>

type_synonym hook_fun =
  "ip_datagram \<Rightarrow> interface_entry option \<Rightarrow> interface_entry option \<Rightarrow> ip4
     \<Rightarrow> hook_result \<times> ip_datagram \<times> interface_entry option \<times> ip4"

text \<open>The type of an ICMP message, and the protocol of the datagram in it.\<close>

record ip_env =
  env_now :: int
  env_hook :: "nat \<Rightarrow> hook_type \<Rightarrow> hook_fun"
  env_icmp :: "nat \<Rightarrow> (int \<times> int option) option"
  env_pathOK :: "int \<Rightarrow> bool"
  env_enabled :: "ipv4_mroute \<Rightarrow> int \<Rightarrow> bool"
  env_newMulticast :: "ip_datagram \<Rightarrow> routing_table \<Rightarrow> routing_table"

record queued_datagram =
  qd_key :: nat
  qd_datagram :: ip_datagram
  qd_in :: "interface_entry option"
  qd_out :: "interface_entry option"
  qd_nextHop :: ip4
  qd_hook :: hook_type
  qd_multicastLoop :: "bool option"

datatype ip_notification =
    NF_IPv4_NEW_MULTICAST | NF_IPv4_DATA_ON_NONRPF | NF_IPv4_DATA_ON_RPF | NF_IPv4_MDATA_REGISTER

text \<open>A datagram goes to a network gate, with the MAC address of the control info if it has one.\<close>

datatype ip_out =
    ToNIC int ip_datagram "u64 option"
  | ArpToNIC int arp_packet u64
  | ToArp arp_packet int
  | ToTransport int nat ip_control
  | SendErrorMessage ip_datagram int int int
  | Notification ip_notification ip_datagram

record ip =
  ip_arp :: arp
  ip_rt :: routing_table
  defaultTimeToLive :: "16 word"
  defaultMCTimeToLive :: "16 word"
  fragmentTimeoutTime :: int
  forceBroadcast :: bool
  useProxyARP :: bool
  ip_isUp :: bool
  curFragmentId :: int
  fragbuf :: frag_bufs
  lastCheckTime :: int
  mapping :: "(int \<times> int) list"
  pendingPackets :: "(ip4 \<times> ip_datagram list) list"
  numMulticast :: nat
  numLocalDeliver :: nat
  numDropped :: nat
  numUnroutable :: nat
  numForwarded :: nat
  hooks :: "(int \<times> nat) list"
  queuedDatagramsForHooks :: "queued_datagram list"
  nextQueueKey :: nat
  ip_outs :: "ip_out list"

definition ip_emit :: "ip_out \<Rightarrow> ip \<Rightarrow> ip" where
  "ip_emit x S = S\<lparr>ip_outs := ip_outs S @ [x]\<rparr>"

fun foldE :: "('x \<Rightarrow> 's \<Rightarrow> 's res) \<Rightarrow> 'x list \<Rightarrow> 's \<Rightarrow> 's res" where
  "foldE f [] s = Inr s"
| "foldE f (x # xs) s = bindE (f x s) (foldE f xs)"

section \<open>The protocol map\<close>

definition findOutputGateForProtocol :: "int \<Rightarrow> (int \<times> int) list \<Rightarrow> int" where
  "findOutputGateForProtocol p m = (case map_of m p of Some g \<Rightarrow> g | None \<Rightarrow> -2)"

definition getOutputGateForProtocol :: "int \<Rightarrow> (int \<times> int) list \<Rightarrow> int res" where
  "getOutputGateForProtocol p m =
     (let ret = findOutputGateForProtocol p m
      in if ret \<ge> -1 then Inr ret else Inl (RuntimeError ''No output gate defined in protocolMapping for protocol number''))"

definition addProtocolMapping :: "int \<Rightarrow> int \<Rightarrow> (int \<times> int) list \<Rightarrow> (int \<times> int) list res" where
  "addProtocolMapping p gate m =
     (let registered = findOutputGateForProtocol p m
      in if registered = -2 then Inr (m @ [(p, gate)])
         else if registered = gate then Inr m
         else Inl (RuntimeError ''The protocol should not register to gate index because it already registered''))"

section \<open>Interfaces\<close>

definition getSourceInterfaceFrom :: "ip_datagram \<Rightarrow> ip \<Rightarrow> interface_entry option" where
  "getSourceInterfaceFrom dg S =
     (case dg_gate dg of None \<Rightarrow> None | Some g \<Rightarrow> find (\<lambda>ie. nwLayerGateIndex ie = g) (ift (ip_rt S)))"

definition getFirstLoopbackInterface :: "routing_table \<Rightarrow> interface_entry option" where
  "getFirstLoopbackInterface T = find ie_loopback (ift T)"

definition getFirstMulticastInterface :: "routing_table \<Rightarrow> interface_entry option" where
  "getFirstMulticastInterface T = find (\<lambda>ie. ie_multicast ie \<and> \<not> ie_loopback ie) (ift T)"

definition interface_of :: "int option \<Rightarrow> routing_table \<Rightarrow> interface_entry option" where
  "interface_of i T = (case i of None \<Rightarrow> None | Some k \<Rightarrow> find_interface k (ift T))"

section \<open>Sending\<close>

definition sendPacketToNIC :: "ip_datagram \<Rightarrow> interface_entry \<Rightarrow> ip \<Rightarrow> ip" where
  "sendPacketToNIC dg ie = ip_emit (ToNIC (nwLayerGateIndex ie) dg None)"

definition sendPacketToIeee802NIC :: "ip_datagram \<Rightarrow> interface_entry \<Rightarrow> u64 \<Rightarrow> ip \<Rightarrow> ip" where
  "sendPacketToIeee802NIC dg ie mac = ip_emit (ToNIC (nwLayerGateIndex ie) dg (Some mac))"

definition setAddressByte :: "nat \<Rightarrow> u64 \<Rightarrow> u64 \<Rightarrow> u64" where
  "setAddressByte k b mac =
     (let offset = (6 - k - 1) * 8 in (mac AND NOT (push_bit offset 0xFF)) OR push_bit offset b)"

definition makeMulticastAddress :: "ip4 \<Rightarrow> u64 res" where
  "makeMulticastAddress a =
     assertE (isMulticast a) ''makeMulticastAddress: addr.isMulticast()''
      (Inr (setAddressByte 5 (ucast (getDByte 3 a))
           (setAddressByte 4 (ucast (getDByte 2 a))
           (setAddressByte 3 (ucast (getDByte 1 a AND 0x7F))
           (setAddressByte 2 0x5E (setAddressByte 1 0x00 (setAddressByte 0 0x01 0)))))))"

definition resolveNextHopMacAddress :: "int \<Rightarrow> ip4 \<Rightarrow> interface_entry \<Rightarrow> ip \<Rightarrow> u64 res" where
  "resolveNextHopMacAddress now nh ie S =
     bindE (if isLimitedBroadcastAddress nh then Inr True else mapE (\<lambda>d. nh = broadcast_of d) (data_of ie)) (\<lambda>bcast.
       if bcast then Inr BROADCAST_MAC
       else if isMulticast nh then makeMulticastAddress nh
       else Inr (getMACAddressFor now nh (ip_arp S)))"

definition waiting_for :: "ip4 \<Rightarrow> ip \<Rightarrow> ip_datagram list" where
  "waiting_for a S = (case map_of (pendingPackets S) a of None \<Rightarrow> [] | Some q \<Rightarrow> q)"

definition sendDatagramToOutput :: "int \<Rightarrow> ip_datagram \<Rightarrow> interface_entry \<Rightarrow> ip4 \<Rightarrow> ip \<Rightarrow> ip res" where
  "sendDatagramToOutput now dg ie nh0 S =
     (if \<not> (ie_broadcast ie \<and> ie_macAddr ie \<noteq> 0) then Inr (sendPacketToNIC dg ie S)
      else
       bindE (if ip4_isUnspecified nh0
              then if useProxyARP S then Inr (dg_dest dg)
                   else Inl (RuntimeError ''Cannot send datagram on broadcast interface: no next-hop address and Proxy ARP is disabled'')
              else Inr nh0) (\<lambda>nh.
       bindE (resolveNextHopMacAddress now nh ie S) (\<lambda>mac.
         if mac = 0
         then mapE (\<lambda>A. S\<lparr>pendingPackets := put_at nh (waiting_for nh S @ [dg]) (pendingPackets S), ip_arp := A\<rparr>)
                (startAddressResolution now nh ie (ip_arp S))
         else assertE (map_of (pendingPackets S) nh = None) ''IPv4-ARP error: queue for nextHopAddr not empty''
                (Inr (sendPacketToIeee802NIC dg ie mac S)))))"

definition fragmentAndSend :: "int \<Rightarrow> ip_datagram \<Rightarrow> interface_entry \<Rightarrow> ip4 \<Rightarrow> ip \<Rightarrow> ip res" where
  "fragmentAndSend now dg ie nh S =
     bindE (fragment_plan ie dg) (\<lambda>plan. case plan of
        TimeExceeded d \<Rightarrow> Inr ((ip_emit (SendErrorMessage d (-1) ICMP_TIME_EXCEEDED 0) S)\<lparr>numDropped := Suc (numDropped S)\<rparr>)
      | FragmentationNeeded d \<Rightarrow>
          Inr ((ip_emit (SendErrorMessage d (-1) ICMP_DESTINATION_UNREACHABLE ICMP_DU_FRAGMENTATION_NEEDED) S)
                 \<lparr>numDropped := Suc (numDropped S)\<rparr>)
      | Fragments ds \<Rightarrow> foldE (\<lambda>d. sendDatagramToOutput now d ie nh) ds S)"

section \<open>Hooks\<close>

text \<open>\<open>Accepted\<close> has what the hooks have made of the datagram, the output interface and the next hop.\<close>

datatype hook_verdict =
    Accepted ip_datagram "interface_entry option" ip4
  | NotAccepted ip

fun run_hooks :: "ip_env \<Rightarrow> hook_type \<Rightarrow> bool option \<Rightarrow> interface_entry option \<Rightarrow> (int \<times> nat) list
    \<Rightarrow> ip_datagram \<Rightarrow> interface_entry option \<Rightarrow> ip4 \<Rightarrow> ip \<Rightarrow> hook_verdict" where
  "run_hooks en t loop inIE [] dg outIE nh S = Accepted dg outIE nh"
| "run_hooks en t loop inIE ((prio, h) # hs) dg outIE nh S =
     (case env_hook en h t dg inIE outIE nh of (r, dg', outIE', nh') \<Rightarrow>
        (case r of
           ACCEPT \<Rightarrow> run_hooks en t loop inIE hs dg' outIE' nh' S
         | DROP \<Rightarrow> NotAccepted S
         | STOLEN \<Rightarrow> NotAccepted S
         | QUEUE \<Rightarrow> NotAccepted (S\<lparr>queuedDatagramsForHooks := queuedDatagramsForHooks S @
                [\<lparr>qd_key = nextQueueKey S, qd_datagram = dg', qd_in = inIE,
                  qd_out = (if t = LOCALIN then None else outIE'), qd_nextHop = (if t = LOCALIN then 0 else nh'),
                  qd_hook = t, qd_multicastLoop = loop\<rparr>],
              nextQueueKey := Suc (nextQueueKey S)\<rparr>)))"

definition after_hooks :: "hook_verdict \<Rightarrow> (ip_datagram \<Rightarrow> interface_entry option \<Rightarrow> ip4 \<Rightarrow> ip res) \<Rightarrow> ip res" where
  "after_hooks v k = (case v of Accepted dg outIE nh \<Rightarrow> k dg outIE nh | NotAccepted S \<Rightarrow> Inr S)"

definition needs_interface :: "interface_entry option \<Rightarrow> (interface_entry \<Rightarrow> ip res) \<Rightarrow> ip res" where
  "needs_interface ie k = (case ie of None \<Rightarrow> Inl (NullPointer ''ie'') | Some i \<Rightarrow> k i)"

definition fragmentPostRouting :: "ip_env \<Rightarrow> ip_datagram \<Rightarrow> interface_entry \<Rightarrow> ip4 \<Rightarrow> ip \<Rightarrow> ip res" where
  "fragmentPostRouting en dg ie nh S =
     after_hooks (run_hooks en POSTROUTING None (getSourceInterfaceFrom dg S) (hooks S) dg (Some ie) nh S)
       (\<lambda>dg' outIE nh'. needs_interface outIE (\<lambda>i. fragmentAndSend (env_now en) dg' i nh' S))"

section \<open>Local delivery\<close>

text \<open>The packet inside a datagram, with its control info, which has the datagram without the packet.\<close>

definition decapsulate :: "ip_datagram \<Rightarrow> ip \<Rightarrow> (nat \<times> ip_control) res" where
  "decapsulate dg S =
     (let fromIE = getSourceInterfaceFrom dg S;
          ctl = \<lparr>ctl_dest = dg_dest dg, ctl_src = dg_src dg, ctl_protocol = dg_protocol dg, ctl_tos = dg_tos dg,
                 ctl_ifid = (case fromIE of None \<Rightarrow> -1 | Some ie \<Rightarrow> interfaceId ie), ctl_dontFragment = False,
                 ctl_ttl = dg_ttl dg, ctl_multicastLoop = False,
                 ctl_orig = Some (dg\<lparr>dg_packet := None, dg_byteLength := dg_headerLength dg\<rparr>)\<rparr>
      in case dg_packet dg of None \<Rightarrow> Inl (NullPointer ''packet'') | Some p \<Rightarrow> Inr (p, ctl))"

definition handleIncomingICMP :: "ip_env \<Rightarrow> nat \<Rightarrow> ip_control \<Rightarrow> ip \<Rightarrow> ip res" where
  "handleIncomingICMP en p ctl S =
     (case env_icmp en p of
        None \<Rightarrow> Inl (RuntimeError ''check_and_cast: ICMPMessage'')
      | Some (ty, bogus) \<Rightarrow>
          bindE (if ty \<in> {ICMP_REDIRECT, ICMP_DESTINATION_UNREACHABLE, ICMP_TIME_EXCEEDED, ICMP_PARAMETER_PROBLEM}
                 then (case bogus of
                         None \<Rightarrow> Inl (RuntimeError ''check_and_cast: IPv4Datagram'')
                       | Some protocol \<Rightarrow> getOutputGateForProtocol protocol (mapping S))
                 else getOutputGateForProtocol IP_PROT_ICMP (mapping S))
            (\<lambda>gate. Inr (ip_emit (ToTransport gate p ctl) S)))"

definition reassembleAndDeliverFinish :: "ip_env \<Rightarrow> ip_datagram \<Rightarrow> ip \<Rightarrow> ip res" where
  "reassembleAndDeliverFinish en dg S =
     (if dg_protocol dg = IP_PROT_ICMP
      then bindE (decapsulate dg S) (\<lambda>(p, ctl).
             mapE (\<lambda>S'. S'\<lparr>numLocalDeliver := Suc (numLocalDeliver S')\<rparr>) (handleIncomingICMP en p ctl S))
      else if dg_protocol dg = IP_PROT_IP
      then Inl (RuntimeError ''send(): there is no preRoutingOut gate'')
      else
        let gate = findOutputGateForProtocol (dg_protocol dg) (mapping S)
        in if 0 \<le> gate \<and> env_pathOK en gate
           then bindE (decapsulate dg S) (\<lambda>(p, ctl).
                  Inr ((ip_emit (ToTransport gate p ctl) S)\<lparr>numLocalDeliver := Suc (numLocalDeliver S)\<rparr>))
           else needs_interface (getSourceInterfaceFrom dg S) (\<lambda>ie.
                  Inr (ip_emit (SendErrorMessage dg (interfaceId ie) ICMP_DESTINATION_UNREACHABLE ICMP_DU_PROTOCOL_UNREACHABLE) S)))"

text \<open>Stale buffers are looked for at most every ten seconds.  A stale buffer always holds a datagram.\<close>

definition purge_fragments :: "int \<Rightarrow> ip \<Rightarrow> ip res" where
  "purge_fragments now S =
     (if lastCheckTime S + 10 \<le> now
      then let (stale, bufs) = purgeStaleFragments (now - fragmentTimeoutTime S) (fragbuf S)
           in foldE (\<lambda>d S'. case d of
                 None \<Rightarrow> Inl (NullPointer ''buf.datagram'')
               | Some dg \<Rightarrow> Inr (ip_emit (SendErrorMessage dg (-1) ICMP_TIME_EXCEEDED 0) S')) stale
             (S\<lparr>lastCheckTime := now, fragbuf := bufs\<rparr>)
      else Inr S)"

definition reassembleAndDeliver :: "ip_env \<Rightarrow> ip_datagram \<Rightarrow> ip \<Rightarrow> ip res" where
  "reassembleAndDeliver en dg0 S0 =
     bindE (if dg_fragmentOffset dg0 \<noteq> 0 \<or> dg_moreFragments dg0
            then bindE (purge_fragments (env_now en) S0) (\<lambda>S1.
                   mapE (\<lambda>(d, bufs). (d, S1\<lparr>fragbuf := bufs\<rparr>)) (fb_addFragment dg0 (env_now en) (fragbuf S1)))
            else Inr (Some dg0, S0)) (\<lambda>(whole, S).
       case whole of
         None \<Rightarrow> Inr S
       | Some dg \<Rightarrow>
           after_hooks (run_hooks en LOCALIN None (getSourceInterfaceFrom dg S) (hooks S) dg None 0 S)
             (\<lambda>dg' _ _. reassembleAndDeliverFinish en dg' S))"

section \<open>Routing\<close>

definition set_rt :: "routing_table \<Rightarrow> ip \<Rightarrow> ip" where
  "set_rt T S = S\<lparr>ip_rt := T\<rparr>"

definition drop_datagram :: "ip \<Rightarrow> ip" where
  "drop_datagram S = S\<lparr>numDropped := Suc (numDropped S)\<rparr>"

definition unroutable :: "ip \<Rightarrow> ip" where
  "unroutable S = S\<lparr>numUnroutable := Suc (numUnroutable S)\<rparr>"

definition routeUnicastPacketFinish :: "ip_env \<Rightarrow> ip_datagram \<Rightarrow> interface_entry \<Rightarrow> ip4 \<Rightarrow> ip \<Rightarrow> ip res" where
  "routeUnicastPacketFinish en dg destIE nh S =
     fragmentPostRouting en dg destIE nh (S\<lparr>numForwarded := Suc (numForwarded S)\<rparr>)"

text \<open>The interface and the next hop of a unicast datagram.\<close>

definition choose_next_hop ::
  "ip4 \<Rightarrow> interface_entry option \<Rightarrow> ip4 \<Rightarrow> ip \<Rightarrow> ((interface_entry option \<times> ip4) \<times> ip) res" where
  "choose_next_hop dest destIE requested S =
     (case destIE of
        Some ie \<Rightarrow>
          if \<not> ip4_isUnspecified requested then Inr ((destIE, requested), S)
          else if ie_broadcast ie
          then mapE (\<lambda>(re, T). ((destIE, case re of
                   Some e \<Rightarrow> if rt_interface e = Some (interfaceId ie) then rt_gateway e else 0
                 | None \<Rightarrow> 0), set_rt T S)) (findBestMatchingRoute dest (ip_rt S))
          else Inr ((destIE, 0), S)
      | None \<Rightarrow>
          mapE (\<lambda>(re, T). (case re of
                   Some e \<Rightarrow> (interface_of (rt_interface e) T, rt_gateway e)
                 | None \<Rightarrow> (None, 0), set_rt T S)) (findBestMatchingRoute dest (ip_rt S)))"

definition routeUnicastPacket ::
  "ip_env \<Rightarrow> ip_datagram \<Rightarrow> interface_entry option \<Rightarrow> interface_entry option \<Rightarrow> ip4 \<Rightarrow> ip \<Rightarrow> ip res" where
  "routeUnicastPacket en dg fromIE destIE requested S0 =
     bindE (choose_next_hop (dg_dest dg) destIE requested S0) (\<lambda>((outIE, nh), S).
       case outIE of
         None \<Rightarrow> Inr (ip_emit (SendErrorMessage dg (case fromIE of None \<Rightarrow> -1 | Some f \<Rightarrow> interfaceId f) ICMP_DESTINATION_UNREACHABLE 0)
                       (unroutable S))
       | Some ie \<Rightarrow>
           if fromIE \<noteq> None
           then after_hooks (run_hooks en FORWARD None fromIE (hooks S) dg outIE nh S)
                  (\<lambda>dg' outIE' nh'. needs_interface outIE' (\<lambda>i. routeUnicastPacketFinish en dg' i nh' S))
           else routeUnicastPacketFinish en dg ie nh S)"

definition routeLocalBroadcastPacket :: "ip_env \<Rightarrow> ip_datagram \<Rightarrow> interface_entry option \<Rightarrow> ip \<Rightarrow> ip res" where
  "routeLocalBroadcastPacket en dg destIE S =
     (case destIE of
        Some ie \<Rightarrow> fragmentPostRouting en dg ie ALLONES_ADDRESS S
      | None \<Rightarrow>
          if forceBroadcast S then foldE (\<lambda>ie. fragmentPostRouting en dg ie ALLONES_ADDRESS) (ift (ip_rt S)) S
          else Inr (drop_datagram S))"

text \<open>One output interface of a multicast route: its id and whether it is a leaf.\<close>

definition forward_to ::
  "ip_env \<Rightarrow> ip_datagram \<Rightarrow> interface_entry \<Rightarrow> ipv4_mroute \<Rightarrow> int \<times> bool \<Rightarrow> ip \<Rightarrow> ip res" where
  "forward_to en dg fromIE route = (\<lambda>(i, isLeaf) S.
     if i \<noteq> interfaceId fromIE \<and> env_enabled en route i
     then needs_interface (find_interface i (ift (ip_rt S))) (\<lambda>destIE.
       bindE (data_of destIE) (\<lambda>d.
         if sint (dg_ttl dg) \<le> multicastTtlThreshold d then Inr S
         else if isLeaf \<and> \<not> hasMulticastListener (dg_dest dg) d then Inr S
         else fragmentPostRouting en dg destIE (dg_dest dg) S))
     else Inr S)"

text \<open>A listener of the notification board may add the route that is missing.\<close>

definition find_multicast_route :: "ip_env \<Rightarrow> ip_datagram \<Rightarrow> ip \<Rightarrow> ipv4_mroute option \<times> ip" where
  "find_multicast_route en dg S =
     (case findBestMatchingMulticastRoute (dg_src dg) (dg_dest dg) (ip_rt S) of
        Some r \<Rightarrow> (Some r, S)
      | None \<Rightarrow>
          let S1 = set_rt (env_newMulticast en dg (ip_rt S)) (ip_emit (Notification NF_IPv4_NEW_MULTICAST dg) S)
          in (findBestMatchingMulticastRoute (dg_src dg) (dg_dest dg) (ip_rt S1), S1))"

definition forwardMulticastPacket :: "ip_env \<Rightarrow> ip_datagram \<Rightarrow> interface_entry \<Rightarrow> ip \<Rightarrow> ip res" where
  "forwardMulticastPacket en dg fromIE S0 =
     assertE (isMulticast (dg_dest dg)) ''forwardMulticastPacket: destAddr.isMulticast()''
      (assertE (\<not> isLinkLocalMulticast (dg_dest dg)) ''forwardMulticastPacket: !destAddr.isLinkLocalMulticast()''
        (let (found, S) = find_multicast_route en dg (S0\<lparr>numMulticast := Suc (numMulticast S0)\<rparr>)
         in case found of
              None \<Rightarrow> Inr (unroutable S)
            | Some route \<Rightarrow>
                if (case mr_inInterface route of Some i \<Rightarrow> i \<noteq> interfaceId fromIE | None \<Rightarrow> False)
                then Inr (drop_datagram (ip_emit (Notification NF_IPv4_DATA_ON_NONRPF dg) S))
                else
                  bindE (if mr_inInterface route = None
                         then mapE (\<lambda>(i, T). (i \<noteq> Some (interfaceId fromIE), set_rt T S)) (getInterfaceForDestAddr (dg_src dg) (ip_rt S))
                         else Inr (False, S)) (\<lambda>(off_path, S1).
                    if off_path then Inr (drop_datagram S1)
                    else
                      let S2 = ip_emit (Notification NF_IPv4_DATA_ON_RPF dg) S1
                      in mapE (ip_emit (Notification NF_IPv4_MDATA_REGISTER dg))
                           (foldE (forward_to en dg fromIE route) (mr_outInterfaces route)
                             (S2\<lparr>numForwarded := Suc (numForwarded S2)\<rparr>)))))"

section \<open>Datagrams from the network\<close>

definition member_of_group :: "interface_entry \<Rightarrow> ip4 \<Rightarrow> bool res" where
  "member_of_group ie a = mapE (isMemberOfMulticastGroup a) (data_of ie)"

definition preroutingFinish_multicast :: "ip_env \<Rightarrow> ip_datagram \<Rightarrow> interface_entry \<Rightarrow> ip \<Rightarrow> ip res" where
  "preroutingFinish_multicast en dg fromIE S =
     bindE (member_of_group fromIE (dg_dest dg)) (\<lambda>member.
     bindE (if member \<or> (multicastForward (ip_rt S) \<and> dg_protocol dg = IP_PROT_IGMP)
            then reassembleAndDeliver en dg S else Inr S) (\<lambda>S1.
       if \<not> IPForward (ip_rt S1) \<or> isLinkLocalMulticast (dg_dest dg) then Inr S1
       else if dg_ttl dg = 0 then Inr S1
       else forwardMulticastPacket en dg fromIE S1))"

definition preroutingFinish_unicast ::
  "ip_env \<Rightarrow> ip_datagram \<Rightarrow> interface_entry \<Rightarrow> interface_entry option \<Rightarrow> ip4 \<Rightarrow> ip \<Rightarrow> ip res" where
  "preroutingFinish_unicast en dg fromIE destIE nh S0 =
     bindE (isLocalAddress (dg_dest dg) (ip_rt S0)) (\<lambda>(local, T).
     let S = set_rt T S0
     in bindE (if local then Inr True else mapE (\<lambda>d. ip4_isUnspecified (inetAddr d)) (data_of fromIE)) (\<lambda>mine.
       if mine then reassembleAndDeliver en dg S
       else
        bindE (if isLimitedBroadcastAddress (dg_dest dg) then Inr None
               else findInterfaceByLocalBroadcastAddress (dg_dest dg) (ip_rt S)) (\<lambda>broadcastIE.
          if isLimitedBroadcastAddress (dg_dest dg) \<or> broadcastIE \<noteq> None
          then bindE (case broadcastIE of
                        Some bie \<Rightarrow> if interfaceId fromIE \<noteq> interfaceId bie \<and> IPForward (ip_rt S)
                                    then fragmentPostRouting en dg bie ALLONES_ADDRESS S else Inr S
                      | None \<Rightarrow> Inr S) (reassembleAndDeliver en dg)
          else if \<not> IPForward (ip_rt S) then Inr (drop_datagram S)
          else routeUnicastPacket en dg (Some fromIE) destIE nh S)))"

definition preroutingFinish ::
  "ip_env \<Rightarrow> ip_datagram \<Rightarrow> interface_entry option \<Rightarrow> interface_entry option \<Rightarrow> ip4 \<Rightarrow> ip \<Rightarrow> ip res" where
  "preroutingFinish en dg inIE destIE nh S =
     needs_interface inIE (\<lambda>fromIE.
       if ie_loopback fromIE then reassembleAndDeliver en dg S
       else if isMulticast (dg_dest dg) then preroutingFinish_multicast en dg fromIE S
       else preroutingFinish_unicast en dg fromIE destIE nh S)"

text \<open>\<open>in_header\<close> is whether a bit error of the datagram is taken to be in the header, which is a matter of chance.\<close>

definition handleIncomingDatagram :: "ip_env \<Rightarrow> bool \<Rightarrow> ip_datagram \<Rightarrow> interface_entry option \<Rightarrow> ip \<Rightarrow> ip res" where
  "handleIncomingDatagram en in_header dg inIE S =
     (case inIE of
        None \<Rightarrow> Inl (AssertFailed ''handleIncomingDatagram: fromIE'')
      | Some fromIE \<Rightarrow>
          if in_header then Inr (ip_emit (SendErrorMessage dg (interfaceId fromIE) ICMP_PARAMETER_PROBLEM 0) S)
          else after_hooks (run_hooks en PREROUTING None inIE (hooks S) dg None 0 S)
                 (\<lambda>dg' destIE nh. preroutingFinish en dg' inIE destIE nh S))"

definition handleIncomingARPPacket :: "arp_packet \<Rightarrow> interface_entry option \<Rightarrow> ip \<Rightarrow> ip res" where
  "handleIncomingARPPacket p inIE S = needs_interface inIE (\<lambda>ie. Inr (ip_emit (ToArp p (interfaceId ie)) S))"

section \<open>Packets from the transport layer\<close>

definition determineOutgoingInterfaceForMulticastDatagram ::
  "ip_datagram \<Rightarrow> interface_entry option \<Rightarrow> ip \<Rightarrow> (interface_entry option \<times> ip) res" where
  "determineOutgoingInterfaceForMulticastDatagram dg option S =
     (if option \<noteq> None then Inr (option, S)
      else bindE (findBestMatchingRoute (dg_dest dg) (ip_rt S)) (\<lambda>(route, T).
        let S1 = set_rt T S;
            by_route = (case route of None \<Rightarrow> None | Some r \<Rightarrow> interface_of (rt_interface r) T)
        in if by_route \<noteq> None then Inr (by_route, S1)
           else mapE (\<lambda>by_source. (if by_source \<noteq> None then by_source else getFirstMulticastInterface T, S1))
                  (getInterfaceByAddress (dg_src dg) T)))"

definition datagramLocalOut_multicast :: "ip_env \<Rightarrow> bool \<Rightarrow> ip_datagram \<Rightarrow> interface_entry option \<Rightarrow> ip \<Rightarrow> ip res" where
  "datagramLocalOut_multicast en multicastLoop dg destIE0 S0 =
     bindE (determineOutgoingInterfaceForMulticastDatagram dg destIE0 S0) (\<lambda>(destIE, S).
     bindE (if multicastLoop \<and> (case destIE of None \<Rightarrow> True | Some ie \<Rightarrow> \<not> ie_loopback ie)
            then (case getFirstLoopbackInterface (ip_rt S) of
                    None \<Rightarrow> Inr S | Some lo \<Rightarrow> fragmentPostRouting en dg lo (dg_dest dg) S)
            else Inr S) (\<lambda>S1.
       case destIE of
         Some ie \<Rightarrow> fragmentPostRouting en dg ie (dg_dest dg) (S1\<lparr>numMulticast := Suc (numMulticast S1)\<rparr>)
       | None \<Rightarrow> Inr (unroutable S1)))"

definition datagramLocalOut :: "ip_env \<Rightarrow> bool option \<Rightarrow> ip_datagram \<Rightarrow> interface_entry option \<Rightarrow> ip4 \<Rightarrow> ip \<Rightarrow> ip res" where
  "datagramLocalOut en loop dg destIE requested S0 =
     (if isMulticast (dg_dest dg)
      then datagramLocalOut_multicast en (case loop of None \<Rightarrow> True | Some b \<Rightarrow> b) dg destIE S0
      else bindE (isLocalAddress (dg_dest dg) (ip_rt S0)) (\<lambda>(local, T).
        let S = set_rt T S0
        in if local
           then (let chosen = (case destIE of Some ie \<Rightarrow> if ie_loopback ie then Some ie else None | None \<Rightarrow> None);
                     lo = (if chosen = None then getFirstLoopbackInterface T else chosen)
                 in assertE (lo \<noteq> None) ''datagramLocalOut: destIE'' (routeUnicastPacket en dg None lo (dg_dest dg) S))
           else bindE (if isLimitedBroadcastAddress (dg_dest dg) then Inr (True, T)
                       else isLocalBroadcastAddress (dg_dest dg) T) (\<lambda>(bcast, T').
                  if bcast then routeLocalBroadcastPacket en dg destIE (set_rt T' S)
                  else routeUnicastPacket en dg None destIE requested (set_rt T' S))))"

definition encapsulate :: "nat \<Rightarrow> int \<Rightarrow> ip_control \<Rightarrow> ip \<Rightarrow> (ip_datagram \<times> ip) res" where
  "encapsulate packet len ctl S =
     bindE (if ip4_isUnspecified (ctl_src ctl) then Inr ()
            else bindE (getInterfaceByAddress (ctl_src ctl) (ip_rt S)) (\<lambda>ie.
                   if ie = None then Inl (RuntimeError ''Wrong source address: no interface with such address'') else Inr ())) (\<lambda>_.
       let ttl = (if 0 <s ctl_ttl ctl then ctl_ttl ctl
                  else if isLinkLocalMulticast (ctl_dest ctl) then 1
                  else if isMulticast (ctl_dest ctl) then defaultMCTimeToLive S
                  else defaultTimeToLive S)
       in Inr (\<lparr>dg_src = ctl_src ctl, dg_dest = ctl_dest ctl, dg_protocol = ctl_protocol ctl, dg_ttl = ttl, dg_id = curFragmentId S,
                dg_moreFragments = False, dg_dontFragment = ctl_dontFragment ctl, dg_fragmentOffset = 0, dg_tos = ctl_tos ctl,
                dg_headerLength = 20, dg_byteLength = 20 + len, dg_packet = Some packet, dg_gate = None\<rparr>,
               S\<lparr>curFragmentId := curFragmentId S + 1\<rparr>))"

text \<open>What comes from above is a datagram that is ready, or a packet of some length with its control info.\<close>

datatype hl_packet = HlDatagram ip_datagram | HlPacket nat int "ip_control option"

definition handlePacketFromHL :: "ip_env \<Rightarrow> hl_packet \<Rightarrow> ip \<Rightarrow> ip res" where
  "handlePacketFromHL en x S =
     (if ift (ip_rt S) = [] then Inr (drop_datagram S)
      else
       let out = (\<lambda>loop dg destIE S1.
                   after_hooks (run_hooks en LOCALOUT loop None (hooks S1) dg destIE 0 S1)
                     (\<lambda>dg' destIE' nh. datagramLocalOut en loop dg' destIE' nh S1))
       in case x of
            HlDatagram dg \<Rightarrow> out None dg None S
          | HlPacket packet len None \<Rightarrow> Inl (RuntimeError ''check_and_cast: IPv4ControlInfo'')
          | HlPacket packet len (Some ctl) \<Rightarrow>
              bindE (encapsulate packet len ctl S) (\<lambda>(dg, S1).
                out (Some (ctl_multicastLoop ctl)) dg (find_interface (ctl_ifid ctl) (ift (ip_rt S1))) S1))"

definition handlePacketFromARP :: "arp_packet \<Rightarrow> int \<Rightarrow> u64 \<Rightarrow> ip \<Rightarrow> ip res" where
  "handlePacketFromARP p i mac S =
     needs_interface (find_interface i (ift (ip_rt S))) (\<lambda>ie. Inr (ip_emit (ArpToNIC (nwLayerGateIndex ie) p mac) S))"

section \<open>The signals of ARP\<close>

definition arpResolutionCompleted :: "ip4 \<Rightarrow> u64 \<Rightarrow> int \<Rightarrow> ip \<Rightarrow> ip res" where
  "arpResolutionCompleted a mac i S =
     (case map_of (pendingPackets S) a of
        None \<Rightarrow> Inr S
      | Some q \<Rightarrow>
          mapE (\<lambda>S'. S'\<lparr>pendingPackets := erase_at a (pendingPackets S')\<rparr>)
            (foldE (\<lambda>dg S'. needs_interface (find_interface i (ift (ip_rt S'))) (\<lambda>ie. Inr (sendPacketToIeee802NIC dg ie mac S'))) q S))"

definition arpResolutionTimedOut :: "ip4 \<Rightarrow> ip \<Rightarrow> ip" where
  "arpResolutionTimedOut a S = S\<lparr>pendingPackets := erase_at a (pendingPackets S)\<rparr>"

definition receiveSignal :: "arp_out \<Rightarrow> ip \<Rightarrow> ip res" where
  "receiveSignal x S = (case x of
     CompletedResolution a mac i \<Rightarrow> arpResolutionCompleted a mac i S
   | FailedResolution a i \<Rightarrow> Inr (arpResolutionTimedOut a S)
   | _ \<Rightarrow> Inr S)"

text \<open>ARP handles a message; IPv4 handles the signals that this emits, in their order.\<close>

definition arp_message_step :: "ip_env \<Rightarrow> arp_message \<Rightarrow> ip \<Rightarrow> ip res" where
  "arp_message_step en msg S =
     bindE (arp_handleMessage (env_now en) msg (ip_arp S, ip_rt S)) (\<lambda>(A, T).
       foldE receiveSignal (drop (length (arp_outs (ip_arp S))) (arp_outs A)) (S\<lparr>ip_arp := A, ip_rt := T\<rparr>))"

section \<open>Messages, hooks and the life cycle\<close>

text \<open>A message has the index of the gate at which it arrives, of the transport layer or of the network.\<close>

datatype ip_message =
    FromTransport int hl_packet
  | FromArp arp_packet int u64
  | ArpFromNetwork arp_packet int
  | DatagramFromNetwork ip_datagram int bool
  | OtherFromNetwork

definition endService :: "ip_env \<Rightarrow> ip_message \<Rightarrow> ip \<Rightarrow> ip res" where
  "endService en x S =
     (if \<not> ip_isUp S then Inr S
      else case x of
        FromTransport g p \<Rightarrow>
          handlePacketFromHL en (case p of HlDatagram dg \<Rightarrow> HlDatagram (dg\<lparr>dg_gate := Some g\<rparr>) | _ \<Rightarrow> p) S
      | FromArp p i mac \<Rightarrow> handlePacketFromARP p i mac S
      | ArpFromNetwork p g \<Rightarrow> handleIncomingARPPacket p (find (\<lambda>ie. nwLayerGateIndex ie = g) (ift (ip_rt S))) S
      | DatagramFromNetwork dg g in_header \<Rightarrow>
          (let dg' = dg\<lparr>dg_gate := Some g\<rparr> in handleIncomingDatagram en in_header dg' (getSourceInterfaceFrom dg' S) S)
      | OtherFromNetwork \<Rightarrow> Inl (RuntimeError ''Unexpected packet type''))"

definition register_protocol :: "int \<Rightarrow> int \<Rightarrow> ip \<Rightarrow> ip res" where
  "register_protocol p gate S = mapE (\<lambda>m. S\<lparr>mapping := m\<rparr>) (addProtocolMapping p gate (mapping S))"

text \<open>The hooks are a multimap: a new one goes behind those of its priority.\<close>

definition registerHook :: "int \<Rightarrow> nat \<Rightarrow> ip \<Rightarrow> ip" where
  "registerHook prio h S =
     S\<lparr>hooks := takeWhile (\<lambda>(p, _). p \<le> prio) (hooks S) @ (prio, h) # dropWhile (\<lambda>(p, _). p \<le> prio) (hooks S)\<rparr>"

definition unregisterHook :: "int \<Rightarrow> nat \<Rightarrow> ip \<Rightarrow> ip" where
  "unregisterHook prio h S = S\<lparr>hooks := remove1 (prio, h) (hooks S)\<rparr>"

definition erase_queued :: "nat \<Rightarrow> ip \<Rightarrow> ip" where
  "erase_queued k S = S\<lparr>queuedDatagramsForHooks := filter (\<lambda>q. qd_key q \<noteq> k) (queuedDatagramsForHooks S)\<rparr>"

definition dropQueuedDatagram :: "nat \<Rightarrow> ip \<Rightarrow> ip" where
  "dropQueuedDatagram k S = erase_queued k S"

definition reinjectQueuedDatagram :: "ip_env \<Rightarrow> nat \<Rightarrow> ip \<Rightarrow> ip res" where
  "reinjectQueuedDatagram en k S =
     (case find (\<lambda>q. qd_key q = k) (queuedDatagramsForHooks S) of
        None \<Rightarrow> Inr S
      | Some q \<Rightarrow>
          mapE (erase_queued k) (case qd_hook q of
             LOCALOUT \<Rightarrow> datagramLocalOut en (qd_multicastLoop q) (qd_datagram q) (qd_out q) (qd_nextHop q) S
           | PREROUTING \<Rightarrow> preroutingFinish en (qd_datagram q) (qd_in q) (qd_out q) (qd_nextHop q) S
           | POSTROUTING \<Rightarrow> needs_interface (qd_out q) (\<lambda>ie. fragmentAndSend (env_now en) (qd_datagram q) ie (qd_nextHop q) S)
           | LOCALIN \<Rightarrow> reassembleAndDeliverFinish en (qd_datagram q) S
           | FORWARD \<Rightarrow> needs_interface (qd_out q) (\<lambda>ie. routeUnicastPacketFinish en (qd_datagram q) ie (qd_nextHop q) S)))"

definition ip_start :: "ip \<Rightarrow> ip" where
  "ip_start S = S\<lparr>ip_isUp := True\<rparr>"

definition flush :: "ip \<Rightarrow> ip" where
  "flush S = S\<lparr>pendingPackets := []\<rparr>"

definition ip_stop :: "ip \<Rightarrow> ip" where
  "ip_stop S = flush (S\<lparr>ip_isUp := False\<rparr>)"

end
