(* ===== verification/Ip_Module_Inv.thy ===== *)
theory Ip_Module_Inv
  imports Ip_Module
begin

text \<open>
  IPv4 and ARP agree: a datagram waits for an address exactly as long as the resolution of the address is under way.  The
  invariant is kept by every handler; they change the two tables only in \<open>sendDatagramToOutput\<close>, and so the proofs follow the
  calls with the rules for \<open>safe\<close>.
\<close>

section \<open>Results that satisfy a predicate\<close>

definition safe :: "('a \<Rightarrow> bool) \<Rightarrow> 'a res \<Rightarrow> bool" where
  "safe P r \<longleftrightarrow> (\<forall>x. r = Inr x \<longrightarrow> P x)"

named_theorems safe_intros

lemma safe_Inr [simp]: "safe P (Inr x) = P x"
  by (simp add: safe_def)

lemma safe_Inl [simp]: "safe P (Inl e)"
  by (simp add: safe_def)

lemma safe_bind: "safe P r \<Longrightarrow> (\<And>x. P x \<Longrightarrow> safe Q (f x)) \<Longrightarrow> safe Q (bindE r f)"
  by (cases r) simp_all

lemma safe_bind_any [safe_intros]: "(\<And>x. safe Q (f x)) \<Longrightarrow> safe Q (bindE r f)"
  by (cases r) simp_all

lemma safe_map: "safe (\<lambda>x. P (f x)) r \<Longrightarrow> safe P (mapE f r)"
  by (cases r) simp_all

lemma safe_assert [safe_intros]: "(b \<Longrightarrow> safe P r) \<Longrightarrow> safe P (assertE b m r)"
  by (simp add: assertE_def)

lemma safe_if: "(b \<Longrightarrow> safe P x) \<Longrightarrow> (\<not> b \<Longrightarrow> safe P y) \<Longrightarrow> safe P (if b then x else y)"
  by simp

lemma safe_split: "(\<And>a b. z = (a, b) \<Longrightarrow> safe P (f a b)) \<Longrightarrow> safe P (case z of (a, b) \<Rightarrow> f a b)"
  by (cases z) simp

lemma safe_needs [safe_intros]: "(\<And>i. safe P (k i)) \<Longrightarrow> safe P (needs_interface ie k)"
  by (simp add: needs_interface_def split: option.splits)

lemma safe_foldE: "P s \<Longrightarrow> (\<And>x s. x \<in> set xs \<Longrightarrow> P s \<Longrightarrow> safe P (f x s)) \<Longrightarrow> safe P (foldE f xs s)"
proof (induction xs arbitrary: s)
  case (Cons x xs)
  then show ?case
    by (auto intro!: safe_bind[where P = P])
qed simp

section \<open>The invariant\<close>

definition waiting_ok :: "ip \<Rightarrow> bool" where
  "waiting_ok S \<longleftrightarrow> arp_ok (ip_arp S) \<and> (ip_isUp S \<longrightarrow> arp_isUp (ip_arp S)) \<and> keys_sorted (pendingPackets S)
     \<and> (\<forall>a q. map_of (pendingPackets S) a = Some q \<longrightarrow> q \<noteq> [] \<and> pending (ip_arp S) a)"

definition up_ok :: "ip \<Rightarrow> bool" where
  "up_ok S \<longleftrightarrow> waiting_ok S \<and> ip_isUp S"

lemma waiting_ok_cong:
  "ip_arp S' = ip_arp S \<Longrightarrow> pendingPackets S' = pendingPackets S \<Longrightarrow> ip_isUp S' = ip_isUp S \<Longrightarrow> up_ok S' = up_ok S"
  by (simp add: waiting_ok_def up_ok_def)

lemma up_ok_simps [simp]:
  "up_ok (ip_emit x S) = up_ok S" "up_ok (set_rt T S) = up_ok S" "up_ok (drop_datagram S) = up_ok S" "up_ok (unroutable S) = up_ok S"
  "up_ok (S\<lparr>numDropped := n\<rparr>) = up_ok S" "up_ok (S\<lparr>numForwarded := n\<rparr>) = up_ok S" "up_ok (S\<lparr>numMulticast := n\<rparr>) = up_ok S"
  "up_ok (S\<lparr>numLocalDeliver := n\<rparr>) = up_ok S" "up_ok (S\<lparr>fragbuf := b\<rparr>) = up_ok S"
  "up_ok (S\<lparr>lastCheckTime := t, fragbuf := b\<rparr>) = up_ok S" "up_ok (S\<lparr>curFragmentId := i\<rparr>) = up_ok S"
  "up_ok (S\<lparr>lastCheckTime := t\<rparr>) = up_ok S"
  "up_ok (S\<lparr>queuedDatagramsForHooks := qs, nextQueueKey := k\<rparr>) = up_ok S" "up_ok (erase_queued k S) = up_ok S"
  "up_ok (sendPacketToNIC dg ie S) = up_ok S" "up_ok (sendPacketToIeee802NIC dg ie mac S) = up_ok S"
  by (rule waiting_ok_cong; simp add: ip_emit_def set_rt_def drop_datagram_def unroutable_def erase_queued_def sendPacketToNIC_def
      sendPacketToIeee802NIC_def)+

lemma after_hooks_ok [safe_intros]:
  assumes "up_ok S" "\<And>dg' outIE' nh'. safe up_ok (k dg' outIE' nh')"
  shows "safe up_ok (after_hooks (run_hooks en t loop inIE hs dg outIE nh S) k)"
proof (induction hs arbitrary: dg outIE nh)
  case Nil
  then show ?case
    using assms(2) by (simp add: after_hooks_def)
next
  case (Cons h hs)
  then show ?case
    using assms(1) by (cases h) (auto simp: after_hooks_def split: prod.splits hook_result.splits)
qed

lemma getMAC_not_pending: "getMACAddressFor now a A \<noteq> 0 \<Longrightarrow> \<not> globalARP A \<Longrightarrow> \<not> pending A a"
  by (auto simp: getMACAddressFor_def pending_def split: option.splits)

lemma sendDatagramToOutput_ok [safe_intros]:
  assumes "up_ok S"
  shows "safe up_ok (sendDatagramToOutput now dg ie nh S)"
proof -
  have "up_ok (S\<lparr>pendingPackets := put_at nh' (waiting_for nh' S @ [dg]) (pendingPackets S), ip_arp := A\<rparr>)"
    if "startAddressResolution now nh' ie (ip_arp S) = Inr A" for nh' A
  proof -
    have "arp_ok (ip_arp S)" "arp_isUp (ip_arp S)"
      using assms by (auto simp: up_ok_def waiting_ok_def)
    from start_resolution_ok[OF this that] assms show ?thesis
      by (auto simp: up_ok_def waiting_ok_def keys_sorted_put_at)
  qed
  then show ?thesis
    using assms unfolding sendDatagramToOutput_def
    by (auto intro!: safe_intros safe_map simp: safe_def[of _ "startAddressResolution a b c d" for a b c d])
qed

lemma fragmentAndSend_ok [safe_intros]: "up_ok S \<Longrightarrow> safe up_ok (fragmentAndSend now dg ie nh S)"
  unfolding fragmentAndSend_def
  by (auto intro!: safe_bind_any safe_foldE sendDatagramToOutput_ok split: fragmentation.splits)

lemma fragmentPostRouting_ok [safe_intros]: "up_ok S \<Longrightarrow> safe up_ok (fragmentPostRouting en dg ie nh S)"
  unfolding fragmentPostRouting_def by (intro safe_intros)

lemma handleIncomingICMP_ok [safe_intros]: "up_ok S \<Longrightarrow> safe up_ok (handleIncomingICMP en p ctl S)"
  unfolding handleIncomingICMP_def by (auto intro!: safe_bind_any split: option.splits)

lemma reassembleAndDeliverFinish_ok [safe_intros]: "up_ok S \<Longrightarrow> safe up_ok (reassembleAndDeliverFinish en dg S)"
  unfolding reassembleAndDeliverFinish_def Let_def
  by (auto intro!: safe_intros safe_map handleIncomingICMP_ok split: prod.splits)

lemma purge_fragments_ok: "up_ok S \<Longrightarrow> safe up_ok (purge_fragments now S)"
  unfolding purge_fragments_def
  by (auto intro!: safe_foldE split: prod.splits option.splits)

lemma reassembleAndDeliver_ok [safe_intros]:
  assumes "up_ok S"
  shows "safe up_ok (reassembleAndDeliver en dg S)"
  unfolding reassembleAndDeliver_def
proof (rule safe_bind[where P = "up_ok \<circ> snd"])
  show "safe (up_ok \<circ> snd) (if dg_fragmentOffset dg \<noteq> 0 \<or> dg_moreFragments dg
      then bindE (purge_fragments (env_now en) S) (\<lambda>S1.
             mapE (\<lambda>(d, bufs). (d, S1\<lparr>fragbuf := bufs\<rparr>)) (fb_addFragment dg (env_now en) (fragbuf S1)))
      else Inr (Some dg, S))"
  proof -
    have "safe (up_ok \<circ> snd) (mapE (\<lambda>(d, bufs). (d, S1\<lparr>fragbuf := bufs\<rparr>)) r)" if "up_ok S1"
      for S1 :: ip and r :: "(ip_datagram option \<times> frag_bufs) res"
      using that by (cases r) auto
    then show ?thesis
      using assms purge_fragments_ok[OF assms, of "env_now en"] by (auto intro!: safe_bind[where P = up_ok])
  qed
  show "safe up_ok (case x of (whole, S) \<Rightarrow> case whole of None \<Rightarrow> Inr S
      | Some dg \<Rightarrow> after_hooks (run_hooks en LOCALIN None (getSourceInterfaceFrom dg S) (hooks S) dg None 0 S)
           (\<lambda>dg' _ _. reassembleAndDeliverFinish en dg' S))" if "(up_ok \<circ> snd) x" for x
    using that by (auto intro!: safe_intros split: prod.splits option.splits)
qed

lemma safe_snd_map: "(\<And>x. P (snd (f x))) \<Longrightarrow> safe (P \<circ> snd) (mapE f r)"
  by (cases r) simp_all

lemma choose_next_hop_ok: "up_ok S \<Longrightarrow> safe (up_ok \<circ> snd) (choose_next_hop dest destIE requested S)"
  unfolding choose_next_hop_def by (auto intro!: safe_snd_map split: option.splits prod.splits)

lemma routeUnicastPacketFinish_ok [safe_intros]: "up_ok S \<Longrightarrow> safe up_ok (routeUnicastPacketFinish en dg ie nh S)"
  unfolding routeUnicastPacketFinish_def by (intro safe_intros) simp

lemma routeUnicastPacket_ok [safe_intros]:
  assumes "up_ok S"
  shows "safe up_ok (routeUnicastPacket en dg fromIE destIE requested S)"
  unfolding routeUnicastPacket_def
  by (rule safe_bind[OF choose_next_hop_ok[OF assms]]) (auto intro!: safe_intros split: option.splits prod.splits)

lemma routeLocalBroadcastPacket_ok [safe_intros]: "up_ok S \<Longrightarrow> safe up_ok (routeLocalBroadcastPacket en dg destIE S)"
  unfolding routeLocalBroadcastPacket_def by (auto intro!: safe_intros safe_foldE split: option.splits)

lemma forward_to_ok: "up_ok S \<Longrightarrow> safe up_ok (forward_to en dg fromIE route out S)"
  unfolding forward_to_def by (auto intro!: safe_intros split: prod.splits)

lemma find_multicast_route_ok: "up_ok S \<Longrightarrow> up_ok (snd (find_multicast_route en dg S))"
  by (simp add: find_multicast_route_def Let_def split: option.splits)

lemma forwardMulticastPacket_ok [safe_intros]:
  assumes "up_ok S0"
  shows "safe up_ok (forwardMulticastPacket en dg fromIE S0)"
proof -
  obtain found S where S: "find_multicast_route en dg (S0\<lparr>numMulticast := Suc (numMulticast S0)\<rparr>) = (found, S)"
    by fastforce
  have ok: "up_ok S"
    using find_multicast_route_ok[of "S0\<lparr>numMulticast := Suc (numMulticast S0)\<rparr>" en dg] assms by (simp add: S)
  have path: "safe (up_ok \<circ> snd) (if mr_inInterface route = None
      then mapE (\<lambda>(i, T). (i \<noteq> Some (interfaceId fromIE), set_rt T S)) (getInterfaceForDestAddr (dg_src dg) (ip_rt S))
      else Inr (False, S))" for route
    using ok by (auto intro!: safe_snd_map split: prod.splits)
  show ?thesis
    unfolding forwardMulticastPacket_def S Let_def prod.case
  proof (intro safe_assert, cases found)
    case (Some route)
    show "safe up_ok (case found of None \<Rightarrow> Inr (unroutable S) | Some route \<Rightarrow>
         if case mr_inInterface route of None \<Rightarrow> False | Some i \<Rightarrow> i \<noteq> interfaceId fromIE
         then Inr (drop_datagram (ip_emit (Notification NF_IPv4_DATA_ON_NONRPF dg) S))
         else bindE (if mr_inInterface route = None
              then mapE (\<lambda>(i, T). (i \<noteq> Some (interfaceId fromIE), set_rt T S)) (getInterfaceForDestAddr (dg_src dg) (ip_rt S))
              else Inr (False, S))
           (\<lambda>(off_path, S1). if off_path then Inr (drop_datagram S1)
             else mapE (ip_emit (Notification NF_IPv4_MDATA_REGISTER dg))
                   (foldE (forward_to en dg fromIE route) (mr_outInterfaces route)
                     ((ip_emit (Notification NF_IPv4_DATA_ON_RPF dg) S1)
                       \<lparr>numForwarded := Suc (numForwarded (ip_emit (Notification NF_IPv4_DATA_ON_RPF dg) S1))\<rparr>))))"
      using ok unfolding Some option.case
      by (intro safe_if safe_bind[OF path]) (auto intro!: safe_map safe_foldE forward_to_ok)
  qed (use ok in simp)
qed

lemma preroutingFinish_multicast_ok [safe_intros]:
  "up_ok S \<Longrightarrow> safe up_ok (preroutingFinish_multicast en dg fromIE S)"
  unfolding preroutingFinish_multicast_def
  by (intro safe_bind_any safe_bind[where P = up_ok]) (auto intro!: safe_intros)

lemma preroutingFinish_unicast_ok [safe_intros]:
  assumes "up_ok S"
  shows "safe up_ok (preroutingFinish_unicast en dg fromIE destIE nh S)"
proof -
  have deliver: "safe up_ok (bindE r (reassembleAndDeliver en dg))" if "safe up_ok r" for r
    using that by (rule safe_bind) (rule reassembleAndDeliver_ok)
  show ?thesis
    unfolding preroutingFinish_unicast_def Let_def
    by (intro deliver safe_bind_any safe_split safe_if)
       (use assms in \<open>auto intro!: reassembleAndDeliver_ok routeUnicastPacket_ok fragmentPostRouting_ok split: option.splits\<close>)
qed

lemma preroutingFinish_ok [safe_intros]: "up_ok S \<Longrightarrow> safe up_ok (preroutingFinish en dg inIE destIE nh S)"
  unfolding preroutingFinish_def by (auto intro!: safe_intros)

lemma handleIncomingDatagram_ok [safe_intros]: "up_ok S \<Longrightarrow> safe up_ok (handleIncomingDatagram en in_header dg inIE S)"
  unfolding handleIncomingDatagram_def by (auto intro!: safe_intros split: option.splits)

lemma determine_interface_ok:
  "up_ok S \<Longrightarrow> safe (up_ok \<circ> snd) (determineOutgoingInterfaceForMulticastDatagram dg option S)"
  unfolding determineOutgoingInterfaceForMulticastDatagram_def Let_def
  by (auto intro!: safe_bind_any safe_snd_map split: prod.splits)

lemma datagramLocalOut_ok [safe_intros]:
  assumes "up_ok S"
  shows "safe up_ok (datagramLocalOut en loop dg destIE requested S)"
proof -
  have "safe up_ok (datagramLocalOut_multicast en multicastLoop dg destIE S)" for multicastLoop
    unfolding datagramLocalOut_multicast_def
    by (rule safe_bind[OF determine_interface_ok[OF assms]])
      (auto intro!: safe_bind[where P = up_ok] fragmentPostRouting_ok split: option.splits)
  then show ?thesis
    using assms unfolding datagramLocalOut_def Let_def
    by (auto intro!: safe_intros split: prod.splits)
qed

lemma encapsulate_ok: "up_ok S \<Longrightarrow> safe (up_ok \<circ> snd) (encapsulate packet len ctl S)"
  unfolding encapsulate_def Let_def by (auto intro!: safe_bind_any)

lemma handlePacketFromHL_ok [safe_intros]:
  assumes "up_ok S"
  shows "safe up_ok (handlePacketFromHL en x S)"
proof -
  define out where "out = (\<lambda>loop dg destIE S1.
     after_hooks (run_hooks en LOCALOUT loop None (hooks S1) dg destIE 0 S1)
       (\<lambda>dg' destIE' nh. datagramLocalOut en loop dg' destIE' nh S1))"
  have ok: "safe up_ok (out loop dg destIE S1)" if "up_ok S1" for loop dg destIE S1
    using that unfolding out_def by (intro safe_intros)
  have "safe up_ok (bindE (encapsulate packet len ctl S) (\<lambda>(dg, S1).
           out (Some (ctl_multicastLoop ctl)) dg (find_interface (ctl_ifid ctl) (ift (ip_rt S1))) S1))" for packet len ctl
    by (rule safe_bind[OF encapsulate_ok[OF assms]]) (auto intro: ok)
  then show ?thesis
    using assms ok unfolding handlePacketFromHL_def Let_def out_def[symmetric]
    by (auto split: hl_packet.splits option.splits)
qed

lemma endService_ok:
  assumes "up_ok S"
  shows "safe up_ok (endService en x S)"
  using assms unfolding endService_def handlePacketFromARP_def handleIncomingARPPacket_def Let_def
  by (auto intro!: safe_intros split: ip_message.splits)

lemma reinjectQueuedDatagram_ok:
  assumes "up_ok S"
  shows "safe up_ok (reinjectQueuedDatagram en k S)"
  using assms unfolding reinjectQueuedDatagram_def
  by (auto intro!: safe_map safe_intros split: option.splits hook_type.splits)


section \<open>Signals\<close>

definition resolved_in :: "arp_out list \<Rightarrow> ip4 \<Rightarrow> bool" where
  "resolved_in xs a \<longleftrightarrow> (\<exists>m i. CompletedResolution a m i \<in> set xs) \<or> (\<exists>i. FailedResolution a i \<in> set xs)"

lemma resolved_in_Cons:
  "resolved_in (x # xs) a \<longleftrightarrow> (case x of CompletedResolution b m i \<Rightarrow> b = a | FailedResolution b i \<Rightarrow> b = a | _ \<Rightarrow> False) \<or> resolved_in xs a"
  by (auto simp: resolved_in_def split: arp_out.splits)

text \<open>The output of one handler of ARP is appended to what was there.\<close>

lemma requestTimedOut_signals:
  assumes "requestTimedOut now ies a A = Inr A'"
  shows "\<exists>xs. arp_outs A' = arp_outs A @ xs \<and> (\<forall>b. pending A b \<longrightarrow> pending A' b \<or> resolved_in xs b)"
  using assms
proof (cases rule: requestTimedOut_cases)
  case (1 e0)
  then have "arp_outs A' = arp_outs A @ [FailedResolution a (ae_ie e0)]" "pending A b \<longrightarrow> pending A' b \<or> b = a" for b
    by (simp_all add: pending_def)
  then show ?thesis
    by (auto simp: resolved_in_def)
next
  case (2 e0 p)
  then have "pending A b \<longrightarrow> pending A' b" for b
    by (auto simp: pending_def)
  then show ?thesis
    using 2 by blast
qed

lemma updateARPCache_signals:
  "arp_outs (updateARPCache now a mac e A) = arp_outs A @ [CompletedResolution a mac (ae_ie e)]"
  "pending (updateARPCache now a mac e A) b = (if b = a then False else pending A b)"
  by (simp_all add: updateARPCache_simps pending_def)

text \<open>What a packet does to the cache and what it tells, in terms of the sender of the packet.\<close>

lemma processARPPacket_signals:
  assumes "processARPPacket now p i (A, T) = Inr (A', T')"
  shows "\<exists>xs. arp_outs A' = arp_outs A @ xs \<and> (\<forall>b. pending A b \<longrightarrow> pending A' b \<or> resolved_in xs b)
    \<and> (\<forall>b m j. CompletedResolution b m j \<in> set xs \<longrightarrow> b = arp_srcIP p \<and> m = arp_srcMAC p) \<and> (\<forall>b j. FailedResolution b j \<notin> set xs)"
proof -
  define a where "a = arp_srcIP p"
  define A1 where "A1 = (case map_of (arpCache A) a of None \<Rightarrow> A | Some e \<Rightarrow> updateARPCache now a (arp_srcMAC p) e A)"
  define A2 where "A2 = (case map_of (arpCache A) a of Some e \<Rightarrow> A1
                         | None \<Rightarrow> updateARPCache now a (arp_srcMAC p)
                                    \<lparr>ae_ie = i, ae_pending = False, ae_mac = 0, ae_lastUpdate = 0, ae_numRetries = 0,
                                     ae_timer = None\<rparr> A1)"
  let ?R = "\<lambda>B. \<exists>xs. arp_outs B = arp_outs A @ xs \<and> (\<forall>b. pending A b \<longrightarrow> pending B b \<or> resolved_in xs b)
    \<and> (\<forall>b m j. CompletedResolution b m j \<in> set xs \<longrightarrow> b = a \<and> m = arp_srcMAC p) \<and> (\<forall>b j. FailedResolution b j \<notin> set xs)"
  have upd: "?R (updateARPCache now a (arp_srcMAC p) e A)" for e
    by (auto simp: updateARPCache_signals resolved_in_def)
  have "?R A"
    by (auto simp: resolved_in_def)
  then have 1: "?R A1" and 2: "?R A2"
    using upd by (auto simp: A1_def A2_def split: option.splits)
  have "A' \<in> {A1, A2} \<or> (\<exists>q m n. A' = arp_emit (ArpSend q i m) (A2\<lparr>numRepliesSent := n\<rparr>))"
    using assms unfolding processARPPacket_def Let_def prod.case A1_def[symmetric] A2_def[symmetric] a_def[symmetric]
    by (auto simp: res_simps split: option.splits if_splits arp_opcode.splits)
  then show ?thesis
  proof
    assume "A' \<in> {A1, A2}"
    then show ?thesis
      using 1 2 by (auto simp: a_def)
  next
    assume "\<exists>q m n. A' = arp_emit (ArpSend q i m) (A2\<lparr>numRepliesSent := n\<rparr>)"
    then obtain q m n where A': "A' = arp_emit (ArpSend q i m) (A2\<lparr>numRepliesSent := n\<rparr>)"
      by blast
    from 2 obtain xs where xs: "arp_outs A2 = arp_outs A @ xs" "\<forall>b. pending A b \<longrightarrow> pending A2 b \<or> resolved_in xs b"
      "\<forall>b m j. CompletedResolution b m j \<in> set xs \<longrightarrow> b = a \<and> m = arp_srcMAC p" "\<forall>b j. FailedResolution b j \<notin> set xs"
      by blast
    have "pending A' b = pending A2 b" for b
      by (rule pending_cache_cong) (simp add: A')
    then show ?thesis
      using xs by (intro exI[of _ "xs @ [ArpSend q i m]"]) (auto simp: A' a_def resolved_in_def)
  qed
qed

lemma arp_message_signals:
  assumes "arp_handleMessage now msg (A, T) = Inr (A', T')"
  shows "\<exists>xs. arp_outs A' = arp_outs A @ xs \<and> (\<forall>b. pending A b \<longrightarrow> pending A' b \<or> resolved_in xs b)"
proof (cases "arp_isUp A")
  case True
  then show ?thesis
    using assms requestTimedOut_signals[of now "ift T" _ A A'] processARPPacket_signals[of now _ _ A T A' T']
    by (auto simp: arp_handleMessage_def res_simps split: arp_message.splits) blast+
next
  case False
  then show ?thesis
    using assms by (auto simp: arp_handleMessage_def split: arp_message.splits)
qed

lemma send_waiting:
  assumes "foldE (\<lambda>dg S'. needs_interface (find_interface i (ift (ip_rt S'))) (\<lambda>ie. Inr (sendPacketToIeee802NIC dg ie mac S'))) q S = Inr S'"
  shows "ip_arp S' = ip_arp S \<and> pendingPackets S' = pendingPackets S \<and> ip_isUp S' = ip_isUp S \<and> ip_rt S' = ip_rt S
    \<and> (\<forall>ie. find_interface i (ift (ip_rt S)) = Some ie \<longrightarrow> ip_outs S' = ip_outs S @ map (\<lambda>d. ToNIC (nwLayerGateIndex ie) d (Some mac)) q)"
  using assms
proof (induction q arbitrary: S)
  case (Cons d q)
  then obtain ie where ie: "find_interface i (ift (ip_rt S)) = Some ie"
    by (auto simp: needs_interface_def split: option.splits)
  let ?S = "sendPacketToIeee802NIC d ie mac S"
  have "foldE (\<lambda>dg S'. needs_interface (find_interface i (ift (ip_rt S'))) (\<lambda>ie. Inr (sendPacketToIeee802NIC dg ie mac S'))) q ?S = Inr S'"
    using Cons.prems ie by (simp add: needs_interface_def)
  from Cons.IH[OF this] show ?case
    using ie by (auto simp: sendPacketToIeee802NIC_def ip_emit_def)
qed simp

lemma receiveSignal_effect:
  assumes "receiveSignal x S = Inr S'"
  shows "ip_arp S' = ip_arp S \<and> ip_isUp S' = ip_isUp S \<and> (keys_sorted (pendingPackets S) \<longrightarrow> keys_sorted (pendingPackets S'))
    \<and> map_of (pendingPackets S') b = (if resolved_in [x] b then None else map_of (pendingPackets S) b)"
  using assms by (auto simp: receiveSignal_def resolved_in_def arpResolutionCompleted_def arpResolutionTimedOut_def res_simps
      keys_sorted_erase_at dest!: send_waiting split: arp_out.splits option.splits)

lemma receiveSignals_effect:
  assumes "foldE receiveSignal xs S = Inr S'"
  shows "ip_arp S' = ip_arp S \<and> ip_isUp S' = ip_isUp S \<and> (keys_sorted (pendingPackets S) \<longrightarrow> keys_sorted (pendingPackets S'))
    \<and> map_of (pendingPackets S') b = (if resolved_in xs b then None else map_of (pendingPackets S) b)"
  using assms
proof (induction xs arbitrary: S)
  case Nil
  then show ?case by (simp add: resolved_in_def)
next
  case (Cons x xs)
  then obtain S1 where S1: "receiveSignal x S = Inr S1" "foldE receiveSignal xs S1 = Inr S'"
    by (auto simp: res_simps)
  from Cons.IH[OF S1(2)] receiveSignal_effect[OF S1(1), of b] show ?case
    by (auto simp: resolved_in_def)
qed

definition timer_of_message_runs :: "arp_message \<Rightarrow> ip \<Rightarrow> bool" where
  "timer_of_message_runs msg S = timer_runs (EvMessage msg) (ip_arp S)"

lemma arp_message_step_ok:
  assumes "waiting_ok S" "timer_of_message_runs msg S" "arp_message_step en msg S = Inr S'"
  shows "waiting_ok S'"
proof -
  obtain A T where A: "arp_handleMessage (env_now en) msg (ip_arp S, ip_rt S) = Inr (A, T)"
    "foldE receiveSignal (drop (length (arp_outs (ip_arp S))) (arp_outs A)) (S\<lparr>ip_arp := A, ip_rt := T\<rparr>) = Inr S'"
    using assms(3) by (auto simp: arp_message_step_def res_simps)
  obtain xs where xs: "arp_outs A = arp_outs (ip_arp S) @ xs" "\<forall>b. pending (ip_arp S) b \<longrightarrow> pending A b \<or> resolved_in xs b"
    using arp_message_signals[OF A(1)] by blast
  have sig: "foldE receiveSignal xs (S\<lparr>ip_arp := A, ip_rt := T\<rparr>) = Inr S'"
    using A(2) xs(1) by simp
  have "arp_ok A"
    using arp_step_ok[of "ip_arp S" "EvMessage msg" "env_now en" "ip_rt S" A T] assms(1,2) A(1)
    by (simp add: arp_event_step_def waiting_ok_def timer_of_message_runs_def)
  moreover have "arp_isUp A = arp_isUp (ip_arp S)"
  proof (cases "arp_isUp (ip_arp S)")
    case True
    have ok: "arp_ok (ip_arp S)"
      using assms(1) by (simp add: waiting_ok_def)
    show ?thesis
    proof (cases msg)
      case (ArpTimer a)
      then show ?thesis
        using A(1) True by (auto simp: arp_handleMessage_def res_simps elim: requestTimedOut_cases)
    next
      case (ArpPacketFrom p i)
      then show ?thesis
        using A(1) True processARPPacket_ok[OF ok True, of "env_now en" p i "ip_rt S" A T] by (auto simp: arp_handleMessage_def)
    qed
  next
    case False
    then show ?thesis
      using A(1) by (auto simp: arp_handleMessage_def split: arp_message.splits)
  qed
  moreover have "q \<noteq> [] \<and> pending A a" if "map_of (pendingPackets S') a = Some q" for a q
  proof -
    have "\<not> resolved_in xs a" "map_of (pendingPackets S) a = Some q"
      using that receiveSignals_effect[OF sig, of a] by (auto split: if_splits)
    then show ?thesis
      using assms(1) xs(2) unfolding waiting_ok_def by blast
  qed
  ultimately show ?thesis
    using assms(1) receiveSignals_effect[OF sig] by (auto simp: waiting_ok_def)
qed

section \<open>Runs\<close>

text \<open>
  The module from its start: messages, messages of ARP, what hooks do, protocols that register, other modules that change the
  routing table, and the life cycle, in which IPv4 and ARP start and stop together.  Queued datagrams are reinjected while the
  module is up.
\<close>

inductive ip_run :: "ip \<Rightarrow> bool" where
  boot: "arpCache (ip_arp S) = [] \<Longrightarrow> pendingPackets S = [] \<Longrightarrow> arp_isUp (ip_arp S) = ip_isUp S \<Longrightarrow> ip_run S"
| message: "ip_run S \<Longrightarrow> endService en x S = Inr S' \<Longrightarrow> ip_run S'"
| arp_message: "ip_run S \<Longrightarrow> timer_of_message_runs msg S \<Longrightarrow> arp_message_step en msg S = Inr S' \<Longrightarrow> ip_run S'"
| reinject: "ip_run S \<Longrightarrow> ip_isUp S \<Longrightarrow> reinjectQueuedDatagram en k S = Inr S' \<Longrightarrow> ip_run S'"
| drop_queued: "ip_run S \<Longrightarrow> ip_run (dropQueuedDatagram k S)"
| hook_added: "ip_run S \<Longrightarrow> ip_run (registerHook prio h S)"
| hook_removed: "ip_run S \<Longrightarrow> ip_run (unregisterHook prio h S)"
| protocol: "ip_run S \<Longrightarrow> register_protocol p gate S = Inr S' \<Longrightarrow> ip_run S'"
| routing: "ip_run S \<Longrightarrow> ip_run (set_rt T S)"
| node_start: "ip_run S \<Longrightarrow> arp_start (ip_arp S) = Inr A \<Longrightarrow> ip_run (ip_start (S\<lparr>ip_arp := A\<rparr>))"
| node_stop: "ip_run S \<Longrightarrow> ip_run (ip_stop (S\<lparr>ip_arp := arp_stop (ip_arp S)\<rparr>))"

lemma waiting_ok_cong2:
  "waiting_ok S \<Longrightarrow> ip_arp S' = ip_arp S \<Longrightarrow> pendingPackets S' = pendingPackets S \<Longrightarrow> ip_isUp S' = ip_isUp S \<Longrightarrow> waiting_ok S'"
  by (simp add: waiting_ok_def)

lemma ip_run_ok: "ip_run S \<Longrightarrow> waiting_ok S"
proof (induction rule: ip_run.induct)
  case (boot S)
  then show ?case by (simp add: waiting_ok_def arp_ok_def keys_sorted_def)
next
  case (message S en x S')
  then show ?case
    using endService_ok[of S en x] by (cases "ip_isUp S") (auto simp: safe_def up_ok_def endService_def)
next
  case (arp_message S msg en S')
  then show ?case using arp_message_step_ok by blast
next
  case (reinject S en k S')
  then show ?case
    using reinjectQueuedDatagram_ok[of S en k] by (auto simp: safe_def up_ok_def)
next
  case (node_start S A)
  then show ?case by (auto simp: waiting_ok_def ip_start_def arp_start_def res_simps arp_ok_def pending_def)
next
  case (node_stop S)
  then show ?case by (simp add: waiting_ok_def ip_stop_def flush_def arp_stop_def arp_ok_def keys_sorted_def)
qed (auto elim!: waiting_ok_cong2 simp: dropQueuedDatagram_def erase_queued_def registerHook_def unregisterHook_def set_rt_def
      register_protocol_def res_simps)

section \<open>Properties\<close>

text \<open>
  C19. A datagram waits only for an answer that is under way.  In every state that IPv4 and ARP reach together, a queue of
  waiting datagrams is not empty and belongs to an address whose resolution is pending in ARP, with a timer that runs; so when
  ARP does know the address, nothing waits for it, and the assertion of \<open>sendDatagramToOutput\<close> holds.
\<close>

theorem waiting_datagrams_are_resolved:
  assumes "ip_run S" and "map_of (pendingPackets S) a = Some q"
  shows "q \<noteq> [] \<and> (\<exists>e t. map_of (arpCache (ip_arp S)) a = Some e \<and> ae_pending e \<and> ae_timer e = Some t)
    \<and> (\<not> globalARP (ip_arp S) \<longrightarrow> getMACAddressFor now a (ip_arp S) = 0)"
proof -
  have ok: "arp_ok (ip_arp S)" "q \<noteq> []" "pending (ip_arp S) a"
    using ip_run_ok[OF assms(1)] assms(2) by (auto simp: waiting_ok_def)
  then obtain e where e: "map_of (arpCache (ip_arp S)) a = Some e" "ae_pending e"
    by (auto simp: pending_def split: option.splits)
  with arp_ok_entry[OF ok(1) e(1)] have "ae_timer e \<noteq> None"
    by (simp add: entry_ok_def)
  then show ?thesis
    using ok(2) e by (auto simp: getMACAddressFor_def)
qed

definition lan_host :: ip where
  "lan_host = \<lparr>ip_arp = idle_arp, ip_rt = \<lparr>ift = [host_interface 0x0A000001 0xA1], routerId = 0, IPForward = False,
       multicastForward = False, routes = [(new_route 0)\<lparr>rt_dest := 0x0A000000, rt_netmask := 0xFFFFFF00, rt_interface := Some 101\<rparr>],
       multicastRoutes = [], routingCache = Map.empty, localAddresses = [0x0A000001], localBroadcastAddresses = [0x0A0000FF],
       nextPtr = 1, rt_notes = []\<rparr>, defaultTimeToLive = 32, defaultMCTimeToLive = 32, fragmentTimeoutTime = 60,
     forceBroadcast = False, useProxyARP = True, ip_isUp = True, curFragmentId = 0, fragbuf = [], lastCheckTime = 0, mapping = [],
     pendingPackets = [], numMulticast = 0, numLocalDeliver = 0, numDropped = 0, numUnroutable = 0, numForwarded = 0, hooks = [],
     queuedDatagramsForHooks = [], nextQueueKey = 0, ip_outs = []\<rparr>"

definition quiet_env :: ip_env where
  "quiet_env = \<lparr>env_now = 0, env_hook = (\<lambda>_ _ d i ie nh. (ACCEPT, d, ie, nh)), env_icmp = (\<lambda>_. None), env_pathOK = (\<lambda>_. True),
     env_enabled = (\<lambda>_ _. True), env_newMulticast = (\<lambda>_ T. T)\<rparr>"

definition first_packet :: hl_packet where
  "first_packet = HlPacket 7 100 (Some (new_control\<lparr>ctl_dest := 0x0A000002, ctl_protocol := 17\<rparr>))"

definition first_datagram :: ip_datagram where
  "first_datagram = \<lparr>dg_src = 0x0A000001, dg_dest = 0x0A000002, dg_protocol = 17, dg_ttl = 31, dg_id = 0, dg_moreFragments = False,
     dg_dontFragment = False, dg_fragmentOffset = 0, dg_tos = 0, dg_headerLength = 20, dg_byteLength = 120, dg_packet = Some 7,
     dg_gate = None\<rparr>"


lemma lan_host_waits:
  "case endService quiet_env (FromTransport 0 first_packet) lan_host of
     Inl e \<Rightarrow> False
   | Inr S \<Rightarrow> map_of (pendingPackets S) 0x0A000002 = Some [first_datagram] \<and> \<not> globalARP (ip_arp S) \<and> ip_isUp S
        \<and> map_of (arpCache (ip_arp S)) 0x0A000002 = Some \<lparr>ae_ie = 101, ae_pending = True, ae_mac = 0, ae_lastUpdate = 0,
             ae_numRetries = 0, ae_timer = Some 1\<rparr>
        \<and> ift (ip_rt S) = [host_interface 0x0A000001 0xA1] \<and> localAddresses (ip_rt S) = [0x0A000001]
        \<and> cacheTimeout (ip_arp S) = 120 \<and> arp_isUp (ip_arp S)"
  by code_simp

lemma waiting_host:
  "\<exists>S. ip_run S \<and> map_of (pendingPackets S) 0x0A000002 = Some [first_datagram] \<and> \<not> globalARP (ip_arp S) \<and> ip_isUp S
        \<and> map_of (arpCache (ip_arp S)) 0x0A000002 = Some \<lparr>ae_ie = 101, ae_pending = True, ae_mac = 0, ae_lastUpdate = 0,
             ae_numRetries = 0, ae_timer = Some 1\<rparr>
        \<and> ift (ip_rt S) = [host_interface 0x0A000001 0xA1] \<and> localAddresses (ip_rt S) = [0x0A000001]
        \<and> cacheTimeout (ip_arp S) = 120 \<and> arp_isUp (ip_arp S)"
proof -
  have "ip_run lan_host"
    by (rule ip_run.boot) (simp_all add: lan_host_def idle_arp_def)
  then show ?thesis
    using lan_host_waits ip_run.message by (fastforce split: sum.splits)
qed

theorem waiting_datagrams_are_resolved_witness:
  "\<exists>S. ip_run S \<and> map_of (pendingPackets S) 0x0A000002 = Some [first_datagram]
     \<and> getMACAddressFor 5 0x0A000002 (ip_arp S) = 0"
proof -
  obtain S where S: "ip_run S" "map_of (pendingPackets S) 0x0A000002 = Some [first_datagram]" "\<not> globalARP (ip_arp S)"
    using waiting_host by blast
  with waiting_datagrams_are_resolved[OF S(1,2), of 5] show ?thesis
    by blast
qed

text \<open>
  The queue of a next hop and its entry in ARP never disagree where a datagram is sent: in a reachable state the assertion of
  \<open>sendDatagramToOutput\<close> can fail only for a next hop that is the broadcast address of the interface or a multicast
  address, which are not looked up in ARP at all.
\<close>

theorem queue_assertion_holds:
  assumes "ip_run S" and "\<not> globalARP (ip_arp S)"
    and "sendDatagramToOutput now dg ie nh S = Inl (AssertFailed ''IPv4-ARP error: queue for nextHopAddr not empty'')"
  defines "hop \<equiv> (if nh = 0 then dg_dest dg else nh)"
  shows "isMulticast hop \<or> hop = 0xFFFFFFFF \<or> (\<exists>d. ipv4Data ie = Some d \<and> hop = broadcast_of d)"
proof (rule ccontr)
  assume c: "\<not> ?thesis"
  have lan: "ie_broadcast ie \<and> ie_macAddr ie \<noteq> 0" "nh = 0 \<longrightarrow> useProxyARP S"
    using assms(3) by (auto simp: sendDatagramToOutput_def ip4_isUnspecified_def UNSPECIFIED_ADDRESS_def split: if_splits)
  have send: "bindE (resolveNextHopMacAddress now hop ie S) (\<lambda>mac.
         if mac = 0
         then mapE (\<lambda>A. S\<lparr>pendingPackets := put_at hop (waiting_for hop S @ [dg]) (pendingPackets S), ip_arp := A\<rparr>)
                (startAddressResolution now hop ie (ip_arp S))
         else assertE (map_of (pendingPackets S) hop = None) ''IPv4-ARP error: queue for nextHopAddr not empty''
                (Inr (sendPacketToIeee802NIC dg ie mac S)))
     = Inl (AssertFailed ''IPv4-ARP error: queue for nextHopAddr not empty'')"
    using assms(3) lan unfolding hop_def
    by (auto simp: sendDatagramToOutput_def ip4_isUnspecified_def UNSPECIFIED_ADDRESS_def split: if_splits)
  obtain d where d: "ipv4Data ie = Some d"
    using send c by (auto simp: resolveNextHopMacAddress_def data_of_def isLimitedBroadcastAddress_def split: option.splits)
  have r: "resolveNextHopMacAddress now hop ie S = Inr (getMACAddressFor now hop (ip_arp S))"
    using c d by (auto simp: resolveNextHopMacAddress_def data_of_def isLimitedBroadcastAddress_def)
  show False
  proof (cases "getMACAddressFor now hop (ip_arp S) = 0")
    case True
    have "startAddressResolution now hop ie (ip_arp S) \<noteq> Inl (AssertFailed ''IPv4-ARP error: queue for nextHopAddr not empty'')"
      by (auto simp: startAddressResolution_def initiateARPResolution_def sendARPRequest_def data_of_def assertE_def Let_def
          bindE_def split: option.splits)
    then show False
      using send r True by (cases "startAddressResolution now hop ie (ip_arp S)") auto
  next
    case False
    then have "map_of (pendingPackets S) hop = None"
      using ip_run_ok[OF assms(1)] getMAC_not_pending[OF False assms(2)] by (cases "map_of (pendingPackets S) hop") (auto simp: waiting_ok_def)
    then show False
      using send r False by simp
  qed
qed

theorem queue_assertion_holds_witness:
  "\<exists>S ie. ip_run S \<and> sendDatagramToOutput 5 first_datagram ie 0x0A000002 S
       = Inl (AssertFailed ''IPv4-ARP error: queue for nextHopAddr not empty'')
     \<and> (\<exists>d. ipv4Data ie = Some d \<and> 0x0A000002 = broadcast_of d)"
proof -
  obtain S where S: "ip_run S" "map_of (pendingPackets S) 0x0A000002 = Some [first_datagram]" "\<not> globalARP (ip_arp S)"
    using waiting_host by blast
  define ie where "ie = (host_interface 0x0A000002 0xC3)\<lparr>ipv4Data := Some (new_interface_data\<lparr>inetAddr := 0x0A000002, ie_netmask := 0xFFFFFFFF\<rparr>)\<rparr>"
  have fail: "sendDatagramToOutput 5 first_datagram ie 0x0A000002 S = Inl (AssertFailed ''IPv4-ARP error: queue for nextHopAddr not empty'')"
    by (simp add: sendDatagramToOutput_def ie_def host_interface_def ip4_isUnspecified_def UNSPECIFIED_ADDRESS_def
        resolveNextHopMacAddress_def isLimitedBroadcastAddress_def data_of_def new_interface_data_def broadcast_of_def
        makeBroadcastAddress_def BROADCAST_MAC_def S(2))
  from queue_assertion_holds[OF S(1,3) fail] S(1) fail show ?thesis
    by (auto simp: isMulticast_def)
qed

section \<open>The answer releases the datagrams\<close>

lemma isLocalAddress_ift: "isLocalAddress a T = Inr (b, T') \<Longrightarrow> ift T' = ift T"
  by (auto simp: isLocalAddress_def res_simps split: if_splits)

lemma addressRecognized_ift: "addressRecognized a i A T = Inr (b, T') \<Longrightarrow> ift T' = ift T"
  by (auto simp: addressRecognized_def getInterfaceForDestAddr_def findBestMatchingRoute_def search_routes_def Let_def res_simps
      dest!: isLocalAddress_ift split: if_splits option.splits)

lemma processARPPacket_known:
  assumes "processARPPacket now p i (A, T) = Inr (A', T')" "map_of (arpCache A) (arp_srcIP p) = Some e"
  shows "ift T' = ift T \<and> arp_srcMAC p \<noteq> 0
    \<and> (\<exists>ys. arp_outs A' = arp_outs A @ CompletedResolution (arp_srcIP p) (arp_srcMAC p) (ae_ie e) # ys
          \<and> (\<forall>x \<in> set ys. \<exists>q j m. x = ArpSend q j m))
    \<and> globalARP A' = globalARP A \<and> cacheTimeout A' = cacheTimeout A
    \<and> (\<exists>e'. map_of (arpCache A') (arp_srcIP p) = Some e' \<and> \<not> ae_pending e' \<and> ae_mac e' = arp_srcMAC p \<and> ae_lastUpdate e' = now)"
proof -
  define A1 where "A1 = updateARPCache now (arp_srcIP p) (arp_srcMAC p) e A"
  have A1: "arp_outs A1 = arp_outs A @ [CompletedResolution (arp_srcIP p) (arp_srcMAC p) (ae_ie e)]"
    "globalARP A1 = globalARP A" "cacheTimeout A1 = cacheTimeout A"
    "\<exists>e'. map_of (arpCache A1) (arp_srcIP p) = Some e' \<and> \<not> ae_pending e' \<and> ae_mac e' = arp_srcMAC p \<and> ae_lastUpdate e' = now"
    by (simp_all add: A1_def updateARPCache_simps)
  have "ift T' = ift T \<and> arp_srcMAC p \<noteq> 0 \<and> (A' = A1 \<or> (\<exists>q j m n. A' = arp_emit (ArpSend q j m) (A1\<lparr>numRepliesSent := n\<rparr>)))"
    using assms(1) unfolding processARPPacket_def Let_def prod.case assms(2) option.case A1_def[symmetric]
    by (auto simp: res_simps dest!: addressRecognized_ift split: option.splits if_splits arp_opcode.splits)
  then show ?thesis
    using A1 by auto
qed

lemma receive_no_signals: "(\<forall>x \<in> set ys. \<exists>q j m. x = ArpSend q j m) \<Longrightarrow> foldE receiveSignal ys S = Inr S"
  by (induction ys) (auto simp: receiveSignal_def)

text \<open>
  The answer releases what waits for it: when a packet of the address arrives (an answer, or any ARP packet of that node), the
  datagrams in the queue go out on the interface of the entry, all of them, in the order in which they have come, to the MAC address
  in the packet; the queue is gone and ARP knows the address from then on.
\<close>

theorem answer_releases_waiting:
  assumes "ip_run S" and "ip_isUp S"
    and "map_of (pendingPackets S) (arp_srcIP p) = Some q"
    and "map_of (arpCache (ip_arp S)) (arp_srcIP p) = Some e" and "find_interface (ae_ie e) (ift (ip_rt S)) = Some ie"
    and "arp_message_step en (ArpPacketFrom p i) S = Inr S'"
  shows "ip_outs S' = ip_outs S @ map (\<lambda>d. ToNIC (nwLayerGateIndex ie) d (Some (arp_srcMAC p))) q
    \<and> map_of (pendingPackets S') = (map_of (pendingPackets S))(arp_srcIP p := None)
    \<and> (\<not> globalARP (ip_arp S) \<and> n \<le> env_now en + cacheTimeout (ip_arp S)
          \<longrightarrow> getMACAddressFor n (arp_srcIP p) (ip_arp S') = arp_srcMAC p)"
proof -
  let ?a = "arp_srcIP p"
  obtain A T where A: "arp_handleMessage (env_now en) (ArpPacketFrom p i) (ip_arp S, ip_rt S) = Inr (A, T)"
    "foldE receiveSignal (drop (length (arp_outs (ip_arp S))) (arp_outs A)) (S\<lparr>ip_arp := A, ip_rt := T\<rparr>) = Inr S'"
    using assms(6) by (auto simp: arp_message_step_def res_simps)
  have up: "arp_isUp (ip_arp S)"
    using ip_run_ok[OF assms(1)] assms(2) by (simp add: waiting_ok_def)
  then have "processARPPacket (env_now en) p i (ip_arp S, ip_rt S) = Inr (A, T)"
    using A(1) by (simp add: arp_handleMessage_def)
  from processARPPacket_known[OF this assms(4)] obtain ys e' where k: "ift T = ift (ip_rt S)"
    "arp_outs A = arp_outs (ip_arp S) @ CompletedResolution ?a (arp_srcMAC p) (ae_ie e) # ys"
    "\<forall>x \<in> set ys. \<exists>q j m. x = ArpSend q j m" "globalARP A = globalARP (ip_arp S)" "cacheTimeout A = cacheTimeout (ip_arp S)"
    "map_of (arpCache A) ?a = Some e'" "\<not> ae_pending e'" "ae_mac e' = arp_srcMAC p" "ae_lastUpdate e' = env_now en"
    by blast
  let ?S = "S\<lparr>ip_arp := A, ip_rt := T\<rparr>"
  have "foldE receiveSignal (CompletedResolution ?a (arp_srcMAC p) (ae_ie e) # ys) ?S = Inr S'"
    using A(2) k(2) by simp
  then obtain S1 where "receiveSignal (CompletedResolution ?a (arp_srcMAC p) (ae_ie e)) ?S = Inr S1" "foldE receiveSignal ys S1 = Inr S'"
    by (auto simp: res_simps)
  then have r: "arpResolutionCompleted ?a (arp_srcMAC p) (ae_ie e) ?S = Inr S'"
    using k(3) by (simp add: receiveSignal_def receive_no_signals)
  obtain S2 where S2: "foldE (\<lambda>dg S'. needs_interface (find_interface (ae_ie e) (ift (ip_rt S'))) (\<lambda>ie. Inr (sendPacketToIeee802NIC dg ie (arp_srcMAC p) S'))) q ?S = Inr S2"
    "S' = S2\<lparr>pendingPackets := erase_at ?a (pendingPackets S2)\<rparr>"
    using r assms(3) by (auto simp: arpResolutionCompleted_def res_simps)
  from send_waiting[OF S2(1)] S2(2) k assms(5) show ?thesis
    by (auto simp: getMACAddressFor_def)
qed

theorem answer_releases_waiting_witness:
  "\<exists>S S'. ip_run S \<and> map_of (pendingPackets S) 0x0A000002 = Some [first_datagram]
     \<and> arp_message_step quiet_env (ArpPacketFrom (reply_to (host_interface 0x0A000002 0xB2)
           (request_for (host_interface 0x0A000001 0xA1) (host_data 0x0A000001) 0x0A000002)) 101) S = Inr S'
     \<and> ip_outs S' = ip_outs S @ [ToNIC 0 first_datagram (Some 0xB2)] \<and> map_of (pendingPackets S') 0x0A000002 = None
     \<and> getMACAddressFor 60 0x0A000002 (ip_arp S') = 0xB2"
proof -
  let ?p = "reply_to (host_interface 0x0A000002 0xB2) (request_for (host_interface 0x0A000001 0xA1) (host_data 0x0A000001) 0x0A000002)"
  let ?e = "\<lparr>ae_ie = 101, ae_pending = True, ae_mac = 0, ae_lastUpdate = 0, ae_numRetries = 0, ae_timer = Some 1\<rparr>"
  let ?ie = "host_interface 0x0A000001 0xA1"
  obtain S where S: "ip_run S" "map_of (pendingPackets S) 0x0A000002 = Some [first_datagram]" "\<not> globalARP (ip_arp S)" "ip_isUp S"
    "map_of (arpCache (ip_arp S)) 0x0A000002 = Some ?e" "ift (ip_rt S) = [?ie]" "localAddresses (ip_rt S) = [0x0A000001]"
    "cacheTimeout (ip_arp S) = 120" "arp_isUp (ip_arp S)"
    using waiting_host by blast
  have p: "arp_srcIP ?p = 0x0A000002" "arp_srcMAC ?p = 0xB2" "arp_destIP ?p = 0x0A000001" "arp_opcode_of ?p = ARP_REPLY"
    by (simp_all add: reply_to_def request_for_def host_interface_def host_data_def)
  have ie: "find_interface 101 (ift (ip_rt S)) = Some ?ie" "nwLayerGateIndex ?ie = 0"
    by (simp_all add: S(6) find_interface_def host_interface_def)
  have local: "isLocalAddress 0x0A000001 (ip_rt S) = Inr (True, ip_rt S)"
    by (simp add: isLocalAddress_def S(7))
  obtain A where A: "arp_handleMessage 0 (ArpPacketFrom ?p 101) (ip_arp S, ip_rt S) = Inr (A, ip_rt S)"
    "arp_outs A = arp_outs (ip_arp S) @ [CompletedResolution 0x0A000002 0xB2 101]"
    by (simp add: arp_handleMessage_def S(5,9) processARPPacket_def ie p ip4_isUnspecified_def UNSPECIFIED_ADDRESS_def Let_def
        addressRecognized_def local updateARPCache_simps)
  have "\<exists>S'. arp_message_step quiet_env (ArpPacketFrom ?p 101) S = Inr S'"
    using A S(2) ie
    by (simp add: arp_message_step_def quiet_env_def receiveSignal_def arpResolutionCompleted_def needs_interface_def
        sendPacketToIeee802NIC_def ip_emit_def)
  then obtain S' where S': "arp_message_step quiet_env (ArpPacketFrom ?p 101) S = Inr S'"
    by blast
  have "env_now quiet_env = 0"
    by (simp add: quiet_env_def)
  with answer_releases_waiting[OF S(1,4) _ _ _ S', of "[first_datagram]" ?e ?ie 60] S ie p
  have "ip_outs S' = ip_outs S @ [ToNIC 0 first_datagram (Some 0xB2)]" "map_of (pendingPackets S') 0x0A000002 = None"
    "getMACAddressFor 60 0x0A000002 (ip_arp S') = 0xB2"
    by simp_all
  with S(1,2) S' show ?thesis
    by blast
qed

end
