(* ===== verification/Packet_Queues.thy ===== *)
theory Packet_Queues
  imports Prelude
begin

text \<open>
  Queues and schedulers: \<open>AbstractQueue\<close> (\<open>base/AbstractQueue.cc\<close>), which serves one packet at a time, \<open>PassiveQueueBase\<close> with its
  implementations \<open>DropTailQueue\<close> and \<open>FIFOQueue\<close>, which send a packet when they are asked to, and \<open>SchedulerBase\<close> with
  \<open>PriorityScheduler\<close> and \<open>WRRScheduler\<close>, which ask their input queues (\<open>linklayer/queue/\<close>).  The locale \<open>scheduling\<close> is the
  contract of \<open>schedulePacket\<close>.  A packet that a queue has sent to the scheduler is in transit until the scheduler handles it.
\<close>

section \<open>A queue with a server\<close>

record 'm abstract_queue =
  aq_queue :: "'m list"
  msgServiced :: "'m option"
  endServiceAt :: "int option"

text \<open>\<open>service\<close> is the service time of a message, and \<open>fin\<close> what the end of the service does to the rest of the module.  A service
  time of zero ends the service at once.\<close>

fun serve :: "('m \<Rightarrow> int) \<Rightarrow> ('m \<Rightarrow> 's \<Rightarrow> 's res) \<Rightarrow> int \<Rightarrow> 'm \<Rightarrow> 'm list \<Rightarrow> 's \<Rightarrow> ('m abstract_queue \<times> 's) res" where
  "serve service fin now m q s =
     (if service m \<noteq> 0 then Inr (\<lparr>aq_queue = q, msgServiced = Some m, endServiceAt = Some (now + service m)\<rparr>, s)
      else bindE (fin m s) (\<lambda>s'. case q of
             [] \<Rightarrow> Inr (\<lparr>aq_queue = [], msgServiced = None, endServiceAt = None\<rparr>, s')
           | m' # q' \<Rightarrow> serve service fin now m' q' s'))"

definition aq_arrival :: "('m \<Rightarrow> int) \<Rightarrow> ('m \<Rightarrow> 's \<Rightarrow> 's res) \<Rightarrow> int \<Rightarrow> 'm \<Rightarrow> 'm abstract_queue \<times> 's \<Rightarrow> ('m abstract_queue \<times> 's) res" where
  "aq_arrival service fin now m = (\<lambda>(Q, s).
     case msgServiced Q of
       None \<Rightarrow> serve service fin now m (aq_queue Q) s
     | Some _ \<Rightarrow> Inr (Q\<lparr>aq_queue := aq_queue Q @ [m]\<rparr>, s))"

definition doEndService :: "('m \<Rightarrow> int) \<Rightarrow> ('m \<Rightarrow> 's \<Rightarrow> 's res) \<Rightarrow> int \<Rightarrow> 'm abstract_queue \<times> 's \<Rightarrow> ('m abstract_queue \<times> 's) res" where
  "doEndService service fin now = (\<lambda>(Q, s).
     case msgServiced Q of
       None \<Rightarrow> Inl (NullPointer ''msgServiced'')
     | Some m \<Rightarrow> bindE (fin m s) (\<lambda>s'. case aq_queue Q of
           [] \<Rightarrow> Inr (\<lparr>aq_queue = [], msgServiced = None, endServiceAt = None\<rparr>, s')
         | m' # q' \<Rightarrow> serve service fin now m' q' s'))"

definition cancelService :: "'m abstract_queue \<Rightarrow> 'm option \<times> 'm abstract_queue" where
  "cancelService Q = (msgServiced Q, Q\<lparr>msgServiced := None, endServiceAt := None\<rparr>)"

section \<open>Passive queues\<close>

record pkt =
  pk_id :: nat
  pk_length :: int

datatype queue_kind = DropTailQueue int | FIFOQueue

record passive_queue =
  pq_kind :: queue_kind
  pq_queue :: "pkt list"
  byteLength :: int
  packetRequested :: int
  numQueueReceived :: int
  numQueueDropped :: int

text \<open>The result is the packet that is dropped, if any.\<close>

definition enqueue :: "pkt \<Rightarrow> passive_queue \<Rightarrow> pkt option \<times> passive_queue" where
  "enqueue p q = (case pq_kind q of
     DropTailQueue frameCapacity \<Rightarrow>
       if frameCapacity \<noteq> 0 \<and> int (length (pq_queue q)) \<ge> frameCapacity then (Some p, q)
       else (None, q\<lparr>pq_queue := pq_queue q @ [p]\<rparr>)
   | FIFOQueue \<Rightarrow> (None, q\<lparr>pq_queue := pq_queue q @ [p], byteLength := byteLength q + pk_length p\<rparr>))"

definition dequeue :: "passive_queue \<Rightarrow> pkt option \<times> passive_queue" where
  "dequeue q = (case pq_queue q of
     [] \<Rightarrow> (None, q)
   | p # ps \<Rightarrow> (Some p, case pq_kind q of
         DropTailQueue _ \<Rightarrow> q\<lparr>pq_queue := ps\<rparr>
       | FIFOQueue \<Rightarrow> q\<lparr>pq_queue := ps, byteLength := byteLength q - pk_length p\<rparr>))"

definition pq_isEmpty :: "passive_queue \<Rightarrow> bool" where
  "pq_isEmpty q \<longleftrightarrow> pq_queue q = []"

text \<open>A packet arrives: what is sent, and whether the listeners are notified.\<close>

definition pq_handleMessage :: "pkt \<Rightarrow> passive_queue \<Rightarrow> pkt option \<times> bool \<times> passive_queue" where
  "pq_handleMessage p q0 =
     (let q = q0\<lparr>numQueueReceived := numQueueReceived q0 + 1\<rparr>
      in if 0 < packetRequested q then (Some p, False, q\<lparr>packetRequested := packetRequested q - 1\<rparr>)
         else case enqueue p q of
             (Some _, q') \<Rightarrow> (None, False, q'\<lparr>numQueueDropped := numQueueDropped q' + 1\<rparr>)
           | (None, q') \<Rightarrow> (None, True, q'))"

definition pq_requestPacket :: "passive_queue \<Rightarrow> pkt option \<times> passive_queue" where
  "pq_requestPacket q = (case dequeue q of
     (None, q') \<Rightarrow> (None, q'\<lparr>packetRequested := packetRequested q' + 1\<rparr>)
   | (Some p, q') \<Rightarrow> (Some p, q'))"

fun pq_clear_loop :: "nat \<Rightarrow> passive_queue \<Rightarrow> passive_queue" where
  "pq_clear_loop 0 q = q"
| "pq_clear_loop (Suc n) q = (case dequeue q of (None, q') \<Rightarrow> q' | (Some _, q') \<Rightarrow> pq_clear_loop n q')"

text \<open>Each round of the loop of \<open>clear\<close> takes a packet out.\<close>

definition pq_clear :: "passive_queue \<Rightarrow> passive_queue" where
  "pq_clear q = (pq_clear_loop (Suc (length (pq_queue q))) q)\<lparr>packetRequested := 0\<rparr>"

section \<open>Schedulers\<close>

record sched =
  inputQueues :: "passive_queue list"
  weights :: "int list"
  buckets :: "int list"
  packetsRequestedFromUs :: int
  packetsToBeRequestedFromInputs :: int
  inTransit :: "pkt list"
  sched_sent :: "pkt list"
  sched_notified :: nat

text \<open>The scheduler asks input \<open>i\<close> for a packet.\<close>

definition request_input :: "nat \<Rightarrow> sched \<Rightarrow> sched" where
  "request_input i S =
     (case pq_requestPacket (inputQueues S ! i) of (out, q) \<Rightarrow>
        S\<lparr>inputQueues := (inputQueues S)[i := q],
          inTransit := (case out of None \<Rightarrow> inTransit S | Some p \<Rightarrow> inTransit S @ [p])\<rparr>)"

fun first_nonempty :: "nat \<Rightarrow> passive_queue list \<Rightarrow> nat option" where
  "first_nonempty i [] = None"
| "first_nonempty i (q # qs) = (if \<not> pq_isEmpty q then Some i else first_nonempty (Suc i) qs)"

text \<open>The result of \<open>schedulePacket\<close> is the input that is asked, if any.\<close>

definition schedulePacket_priority :: "sched \<Rightarrow> nat option \<times> sched" where
  "schedulePacket_priority S =
     (case first_nonempty 0 (inputQueues S) of None \<Rightarrow> (None, S) | Some i \<Rightarrow> (Some i, request_input i S))"

fun first_with_bucket :: "nat \<Rightarrow> passive_queue list \<Rightarrow> int list \<Rightarrow> nat option" where
  "first_with_bucket i (q # qs) (b # bs) =
     (if \<not> pq_isEmpty q \<and> 0 < b then Some i else first_with_bucket (Suc i) qs bs)"
| "first_with_bucket i qs bs = None"

text \<open>The second loop fills the buckets, and asks the first input that has a packet and a positive weight.\<close>

fun refill :: "nat \<Rightarrow> passive_queue list \<Rightarrow> int list \<Rightarrow> bool \<Rightarrow> int list \<times> nat option" where
  "refill i (q # qs) (w # ws) requested =
     (if \<not> requested \<and> 0 < w \<and> \<not> pq_isEmpty q
      then let (bs, _) = refill (Suc i) qs ws True in ((w - 1) # bs, Some i)
      else let (bs, pick) = refill (Suc i) qs ws requested in (w # bs, pick))"
| "refill i qs ws requested = ([], None)"

definition schedulePacket_wrr :: "sched \<Rightarrow> nat option \<times> sched" where
  "schedulePacket_wrr S =
     (case first_with_bucket 0 (inputQueues S) (buckets S) of
        Some i \<Rightarrow> (Some i, request_input i (S\<lparr>buckets := (buckets S)[i := buckets S ! i - 1]\<rparr>))
      | None \<Rightarrow>
          if \<forall>q \<in> set (inputQueues S). pq_isEmpty q then (None, S)
          else case refill 0 (inputQueues S) (weights S) False of
              (bs, None) \<Rightarrow> (None, S\<lparr>buckets := bs\<rparr>)
            | (bs, Some i) \<Rightarrow> (Some i, request_input i (S\<lparr>buckets := bs\<rparr>)))"

definition wrr_initialize :: "int list \<Rightarrow> passive_queue list \<Rightarrow> sched res" where
  "wrr_initialize ws qs =
     (if length ws < length qs then Inl (RuntimeError ''Too few values given in the weights parameter.'')
      else if length qs < length ws then Inl (RuntimeError ''Too many values given in the weights parameter.'')
      else Inr \<lparr>inputQueues = qs, weights = ws, buckets = ws, packetsRequestedFromUs = 0, packetsToBeRequestedFromInputs = 0,
               inTransit = [], sched_sent = [], sched_notified = 0\<rparr>)"

text \<open>What follows is \<open>SchedulerBase\<close>, for any \<open>schedulePacket\<close>.\<close>

type_synonym schedule = "sched \<Rightarrow> nat option \<times> sched"

definition ask_inputs :: "schedule \<Rightarrow> sched \<Rightarrow> sched" where
  "ask_inputs schedulePacket S =
     (case schedulePacket S of
        (None, S') \<Rightarrow> S'
      | (Some _, S') \<Rightarrow> S'\<lparr>packetsToBeRequestedFromInputs := packetsToBeRequestedFromInputs S' - 1\<rparr>)"

definition sched_requestPacket :: "schedule \<Rightarrow> sched \<Rightarrow> sched" where
  "sched_requestPacket schedulePacket S =
     ask_inputs schedulePacket
       (S\<lparr>packetsRequestedFromUs := packetsRequestedFromUs S + 1, packetsToBeRequestedFromInputs := packetsToBeRequestedFromInputs S + 1\<rparr>)"

definition packetEnqueued :: "schedule \<Rightarrow> sched \<Rightarrow> sched" where
  "packetEnqueued schedulePacket S =
     (if 0 < packetsToBeRequestedFromInputs S then ask_inputs schedulePacket S
      else if packetsRequestedFromUs S = 0 then S\<lparr>sched_notified := Suc (sched_notified S)\<rparr>
      else S)"

text \<open>A packet arrives at input \<open>i\<close>, and the queue notifies the scheduler.\<close>

definition input_arrival :: "schedule \<Rightarrow> nat \<Rightarrow> pkt \<Rightarrow> sched \<Rightarrow> sched" where
  "input_arrival schedulePacket i p S =
     (case pq_handleMessage p (inputQueues S ! i) of (out, notify, q) \<Rightarrow>
        let S1 = S\<lparr>inputQueues := (inputQueues S)[i := q],
                   inTransit := (case out of None \<Rightarrow> inTransit S | Some x \<Rightarrow> inTransit S @ [x])\<rparr>
        in if notify then packetEnqueued schedulePacket S1 else S1)"

definition sched_handleMessage :: "sched \<Rightarrow> sched res" where
  "sched_handleMessage S =
     (case inTransit S of
        [] \<Rightarrow> Inr S
      | p # ps \<Rightarrow>
          assertE (0 < packetsRequestedFromUs S) ''handleMessage: packetsRequestedFromUs > 0''
            (Inr (S\<lparr>inTransit := ps, packetsRequestedFromUs := packetsRequestedFromUs S - 1, sched_sent := sched_sent S @ [p]\<rparr>)))"

definition sched_isEmpty :: "sched \<Rightarrow> bool" where
  "sched_isEmpty S \<longleftrightarrow> (\<forall>q \<in> set (inputQueues S). pq_isEmpty q)"

definition sched_clear :: "sched \<Rightarrow> sched" where
  "sched_clear S = S\<lparr>inputQueues := map pq_clear (inputQueues S), packetsRequestedFromUs := 0, packetsToBeRequestedFromInputs := 0\<rparr>"

fun pop_inputs :: "passive_queue list \<Rightarrow> pkt option \<times> passive_queue list" where
  "pop_inputs [] = (None, [])"
| "pop_inputs (q # qs) =
     (if \<not> pq_isEmpty q then case dequeue q of (p, q') \<Rightarrow> (p, q' # qs)
      else case pop_inputs qs of (p, qs') \<Rightarrow> (p, q # qs'))"

definition sched_pop :: "sched \<Rightarrow> pkt option \<times> sched" where
  "sched_pop S = (case pop_inputs (inputQueues S) of (p, qs) \<Rightarrow> (p, S\<lparr>inputQueues := qs\<rparr>))"

section \<open>Droppers\<close>

text \<open>\<open>ThresholdDropper\<close>: the lengths are those of all the output queues together.\<close>

definition shouldDrop :: "int \<Rightarrow> int \<Rightarrow> passive_queue list \<Rightarrow> pkt \<Rightarrow> bool" where
  "shouldDrop frameCapacity byteCapacity outs p =
     (if 0 \<le> frameCapacity \<and> frameCapacity < sum_list (map (\<lambda>q. int (length (pq_queue q))) outs) + 1 then True
      else if 0 \<le> byteCapacity \<and> byteCapacity < sum_list (map byteLength outs) + pk_length p then True
      else False)"


section \<open>The contract of a scheduler\<close>

lemma pq_request_nonempty:
  "\<not> pq_isEmpty q \<Longrightarrow> pq_requestPacket q = (Some (hd (pq_queue q)), snd (dequeue q))
     \<and> pq_queue (snd (dequeue q)) = tl (pq_queue q) \<and> packetRequested (snd (dequeue q)) = packetRequested q"
  by (cases "pq_queue q") (auto simp: pq_isEmpty_def pq_requestPacket_def dequeue_def split: queue_kind.splits)

locale scheduling =
  fixes schedulePacket :: schedule
    and wf :: "sched \<Rightarrow> bool"
  assumes wf_cong: "wf S \<Longrightarrow> weights S' = weights S \<Longrightarrow> buckets S' = buckets S
      \<Longrightarrow> length (inputQueues S') = length (inputQueues S) \<Longrightarrow> wf S'"
    and picks_none: "wf S \<Longrightarrow> schedulePacket S = (None, S') \<Longrightarrow> sched_isEmpty S \<and> S' = S"
    and picks_some: "wf S \<Longrightarrow> schedulePacket S = (Some i, S') \<Longrightarrow>
      i < length (inputQueues S) \<and> \<not> pq_isEmpty (inputQueues S ! i) \<and> wf S' \<and> (\<exists>bs. S' = request_input i (S\<lparr>buckets := bs\<rparr>))"
begin

definition ok :: "sched \<Rightarrow> bool" where
  "ok S \<longleftrightarrow> wf S \<and> packetsRequestedFromUs S = packetsToBeRequestedFromInputs S + int (length (inTransit S))
     \<and> 0 \<le> packetsToBeRequestedFromInputs S \<and> (\<forall>q \<in> set (inputQueues S). packetRequested q = 0)
     \<and> (0 < packetsToBeRequestedFromInputs S \<longrightarrow> sched_isEmpty S)"

text \<open>The state in which the scheduler is about to ask: one more request is open than the invariant says.\<close>

definition asking :: "sched \<Rightarrow> bool" where
  "asking S \<longleftrightarrow> wf S \<and> packetsRequestedFromUs S = packetsToBeRequestedFromInputs S + int (length (inTransit S))
     \<and> 0 < packetsToBeRequestedFromInputs S \<and> (\<forall>q \<in> set (inputQueues S). packetRequested q = 0)
     \<and> (1 < packetsToBeRequestedFromInputs S \<longrightarrow>
          (\<forall>i < length (inputQueues S). \<not> pq_isEmpty (inputQueues S ! i) \<longrightarrow> length (pq_queue (inputQueues S ! i)) = 1 \<and>
             (\<forall>j < length (inputQueues S). j \<noteq> i \<longrightarrow> pq_isEmpty (inputQueues S ! j))))"

lemma ask_inputs_ok:
  assumes "asking S"
  shows "ok (ask_inputs schedulePacket S)"
proof (cases "schedulePacket S")
  case (Pair pick S')
  show ?thesis
  proof (cases pick)
    case None
    then show ?thesis
      using assms Pair picks_none[of S S'] by (auto simp: ask_inputs_def asking_def ok_def)
  next
    case (Some i)
    from picks_some[of S i S'] obtain bs where i: "i < length (inputQueues S)" "\<not> pq_isEmpty (inputQueues S ! i)" "wf S'"
      "S' = request_input i (S\<lparr>buckets := bs\<rparr>)"
      using assms Pair Some by (auto simp: asking_def)
    let ?q = "snd (dequeue (inputQueues S ! i))"
    have q: "pq_queue ?q = tl (pq_queue (inputQueues S ! i))" "packetRequested ?q = packetRequested (inputQueues S ! i)"
      and r: "pq_requestPacket (inputQueues S ! i) = (Some (hd (pq_queue (inputQueues S ! i))), ?q)"
      using pq_request_nonempty[OF i(2)] by auto
    have S': "inputQueues S' = (inputQueues S)[i := ?q]" "inTransit S' = inTransit S @ [hd (pq_queue (inputQueues S ! i))]"
      "packetsRequestedFromUs S' = packetsRequestedFromUs S" "packetsToBeRequestedFromInputs S' = packetsToBeRequestedFromInputs S"
      using i(4) r by (simp_all add: request_input_def)
    have req: "\<forall>q \<in> set (inputQueues S'). packetRequested q = 0"
      using assms i(1) q S'(1) by (auto simp: asking_def dest!: set_update_subset_insert[THEN subsetD])
    have "sched_isEmpty S'" if "1 < packetsToBeRequestedFromInputs S"
    proof -
      have one: "length (pq_queue (inputQueues S ! i)) = 1" "\<forall>j < length (inputQueues S). j \<noteq> i \<longrightarrow> pq_isEmpty (inputQueues S ! j)"
        using assms that i(1,2) unfolding asking_def by blast+
      then have "pq_isEmpty ?q"
        by (cases "pq_queue (inputQueues S ! i)") (simp_all add: pq_isEmpty_def q)
      then have "pq_isEmpty (inputQueues S' ! j)" if "j < length (inputQueues S')" for j
        using one(2) that by (cases "j = i") (simp_all add: S'(1))
      then show ?thesis
        by (auto simp: sched_isEmpty_def in_set_conv_nth)
    qed
    moreover have "wf (S'\<lparr>packetsToBeRequestedFromInputs := n\<rparr>)" for n
      by (rule wf_cong[OF i(3)]) simp_all
    moreover have "ask_inputs schedulePacket S = S'\<lparr>packetsToBeRequestedFromInputs := packetsToBeRequestedFromInputs S - 1\<rparr>"
      by (simp add: ask_inputs_def Pair Some S')
    ultimately show ?thesis
      using assms req by (auto simp: ok_def asking_def S' sched_isEmpty_def)
  qed
qed

lemma requestPacket_ok:
  assumes "ok S"
  shows "ok (sched_requestPacket schedulePacket S)"
proof -
  let ?S = "S\<lparr>packetsRequestedFromUs := packetsRequestedFromUs S + 1, packetsToBeRequestedFromInputs := packetsToBeRequestedFromInputs S + 1\<rparr>"
  have "wf ?S"
    using assms by - (rule wf_cong[of S], auto simp: ok_def)
  then have "asking ?S"
    using assms by (auto simp: asking_def ok_def sched_isEmpty_def)
  then show ?thesis
    unfolding sched_requestPacket_def by (rule ask_inputs_ok)
qed

lemma input_arrival_ok:
  assumes "ok S" "i < length (inputQueues S)"
  shows "ok (input_arrival schedulePacket i p S)"
proof -
  let ?q = "(inputQueues S ! i)\<lparr>numQueueReceived := numQueueReceived (inputQueues S ! i) + 1\<rparr>"
  have r0: "packetRequested (inputQueues S ! i) = 0"
    using assms by (simp add: ok_def)
  have others: "packetRequested x = 0" if "x \<in> set ((inputQueues S)[i := y])" "packetRequested y = 0" for x y
    using assms(1) that set_update_subset_insert[of "inputQueues S" i y] by (auto simp: ok_def)
  obtain d q' where e: "enqueue p ?q = (d, q')"
    by fastforce
  have q': "packetRequested q' = 0" "d \<noteq> None \<Longrightarrow> pq_queue q' = pq_queue (inputQueues S ! i)"
    "d = None \<Longrightarrow> pq_queue q' = pq_queue (inputQueues S ! i) @ [p]"
    using e r0 by (auto simp: enqueue_def split: queue_kind.splits if_splits)
  show ?thesis
  proof (cases d)
    case (Some x)
    let ?q'' = "q'\<lparr>numQueueDropped := numQueueDropped q' + 1\<rparr>"
    have arr: "input_arrival schedulePacket i p S = S\<lparr>inputQueues := (inputQueues S)[i := ?q'']\<rparr>"
      using e Some r0 by (simp add: input_arrival_def pq_handleMessage_def Let_def)
    have "wf (S\<lparr>inputQueues := (inputQueues S)[i := ?q'']\<rparr>)"
      using assms(1) by - (rule wf_cong[of S], auto simp: ok_def)
    moreover have "sched_isEmpty (S\<lparr>inputQueues := (inputQueues S)[i := ?q'']\<rparr>)" if "sched_isEmpty S"
    proof -
      have "pq_isEmpty (inputQueues S ! j)" if "j < length (inputQueues S)" for j
        using \<open>sched_isEmpty S\<close> that by (simp add: sched_isEmpty_def)
      then show ?thesis
        using assms(2) q'(2) Some by (auto simp: sched_isEmpty_def pq_isEmpty_def in_set_conv_nth nth_list_update)
    qed
    ultimately show ?thesis
      unfolding arr using assms(1) others[of _ ?q''] q'(1) by (auto simp: ok_def)
  next
    case None
    let ?S = "S\<lparr>inputQueues := (inputQueues S)[i := q']\<rparr>"
    have arr: "input_arrival schedulePacket i p S = packetEnqueued schedulePacket ?S"
      using e None r0 by (simp add: input_arrival_def pq_handleMessage_def Let_def)
    have wf: "wf ?S"
      using assms(1) by - (rule wf_cong[of S], auto simp: ok_def)
    show ?thesis
    proof (cases "0 < packetsToBeRequestedFromInputs S")
      case True
      then have empty: "pq_isEmpty (inputQueues S ! j)" if "j < length (inputQueues S)" for j
        using assms(1) that by (auto simp: ok_def sched_isEmpty_def)
      have "length (pq_queue q') = 1"
        using q'(3)[OF None] empty[OF assms(2)] by (simp add: pq_isEmpty_def)
      then have "asking ?S"
        using True wf assms others[of _ q'] q'(1) empty
        by (auto simp: asking_def ok_def nth_list_update split: if_splits)
      then show ?thesis
        using True by (simp add: arr packetEnqueued_def ask_inputs_ok)
    next
      case False
      have "wf (?S\<lparr>sched_notified := n\<rparr>)" for n
        by (rule wf_cong[OF wf]) simp_all
      then show ?thesis
        using False wf assms(1) others[of _ q'] q'(1) by (auto simp: arr packetEnqueued_def ok_def)
    qed
  qed
qed

lemma sched_message_ok:
  assumes "ok S"
  shows "\<exists>S'. sched_handleMessage S = Inr S' \<and> ok S'"
proof (cases "inTransit S")
  case Nil
  then show ?thesis using assms by (simp add: sched_handleMessage_def)
next
  case (Cons p ps)
  then have "0 < packetsRequestedFromUs S"
    using assms by (simp add: ok_def)
  moreover have "wf (S\<lparr>inTransit := ps, packetsRequestedFromUs := n, sched_sent := x\<rparr>)" for n x
    using assms by - (rule wf_cong[of S], auto simp: ok_def)
  ultimately show ?thesis
    using assms Cons by (auto simp: sched_handleMessage_def ok_def sched_isEmpty_def)
qed

end

section \<open>The two schedulers\<close>

definition priority_wf :: "sched \<Rightarrow> bool" where
  "priority_wf S = True"

definition wrr_wf :: "sched \<Rightarrow> bool" where
  "wrr_wf S \<longleftrightarrow> length (weights S) = length (inputQueues S) \<and> length (buckets S) = length (inputQueues S) \<and> (\<forall>w \<in> set (weights S). 0 < w)"

lemma first_nonempty_None: "first_nonempty i qs = None \<longleftrightarrow> (\<forall>q \<in> set qs. pq_isEmpty q)"
  by (induction qs arbitrary: i) auto

lemma first_nonempty_Some: "first_nonempty i qs = Some k \<Longrightarrow> i \<le> k \<and> k - i < length qs \<and> \<not> pq_isEmpty (qs ! (k - i))"
proof (induction qs arbitrary: i)
  case (Cons q qs)
  show ?case
  proof (cases "pq_isEmpty q")
    case True
    then have "Suc i \<le> k \<and> k - Suc i < length qs \<and> \<not> pq_isEmpty (qs ! (k - Suc i))"
      using Cons.IH[of "Suc i"] Cons.prems by simp
    then show ?thesis
      by (auto simp: nth_Cons')
  next
    case False
    then show ?thesis
      using Cons.prems by auto
  qed
qed simp

lemma first_with_bucket_Some:
  "first_with_bucket i qs bs = Some k \<Longrightarrow> i \<le> k \<and> k - i < length qs \<and> k - i < length bs \<and> \<not> pq_isEmpty (qs ! (k - i)) \<and> 0 < bs ! (k - i)"
  by (induction i qs bs rule: first_with_bucket.induct)
     (auto split: if_splits dest!: Suc_le_lessD simp: nth_Cons' less_diff_conv2)

lemma refill_None:
  "refill i qs ws False = (bs, None) \<Longrightarrow> length ws = length qs \<Longrightarrow> (\<forall>w \<in> set ws. 0 < w) \<Longrightarrow> \<forall>q \<in> set qs. pq_isEmpty q"
  by (induction i qs ws False arbitrary: bs rule: refill.induct) (auto split: if_splits prod.splits)

lemma refill_Some:
  "refill i qs ws r = (bs, Some k) \<Longrightarrow> length ws = length qs \<Longrightarrow> i \<le> k \<and> k - i < length qs \<and> \<not> pq_isEmpty (qs ! (k - i))"
  by (induction i qs ws r arbitrary: bs k rule: refill.induct)
     (fastforce split: if_splits prod.splits dest!: Suc_le_lessD simp: nth_Cons' less_diff_conv2)+

lemma refill_length: "length ws = length qs \<Longrightarrow> length (fst (refill i qs ws r)) = length qs"
  by (induction i qs ws r rule: refill.induct) (auto split: prod.splits)

interpretation prio: scheduling schedulePacket_priority priority_wf
proof
  fix S S' :: sched and i
  show "schedulePacket_priority S = (None, S') \<Longrightarrow> sched_isEmpty S \<and> S' = S"
    by (auto simp: schedulePacket_priority_def sched_isEmpty_def first_nonempty_None split: option.splits)
  show "schedulePacket_priority S = (Some i, S') \<Longrightarrow> i < length (inputQueues S) \<and> \<not> pq_isEmpty (inputQueues S ! i) \<and> priority_wf S'
      \<and> (\<exists>bs. S' = request_input i (S\<lparr>buckets := bs\<rparr>))"
    using first_nonempty_Some[of 0 "inputQueues S" i]
    by (auto simp: schedulePacket_priority_def priority_wf_def intro!: exI[of _ "buckets S"] split: option.splits)
qed (simp add: priority_wf_def)

lemma request_input_length: "length (inputQueues (request_input i S)) = length (inputQueues S)"
  "weights (request_input i S) = weights S" "buckets (request_input i S) = buckets S"
  by (simp_all add: request_input_def split: prod.splits)

interpretation wrr: scheduling schedulePacket_wrr wrr_wf
proof
  fix S S' :: sched and i
  show "wrr_wf S \<Longrightarrow> weights S' = weights S \<Longrightarrow> buckets S' = buckets S \<Longrightarrow> length (inputQueues S') = length (inputQueues S) \<Longrightarrow> wrr_wf S'"
    by (simp add: wrr_wf_def)
  show "wrr_wf S \<Longrightarrow> schedulePacket_wrr S = (None, S') \<Longrightarrow> sched_isEmpty S \<and> S' = S"
    using refill_None[of 0 "inputQueues S" "weights S"]
    by (auto simp: schedulePacket_wrr_def sched_isEmpty_def wrr_wf_def split: option.splits if_splits prod.splits)
  show "wrr_wf S \<Longrightarrow> schedulePacket_wrr S = (Some i, S') \<Longrightarrow> i < length (inputQueues S) \<and> \<not> pq_isEmpty (inputQueues S ! i) \<and> wrr_wf S'
      \<and> (\<exists>bs. S' = request_input i (S\<lparr>buckets := bs\<rparr>))"
    using refill_Some[of 0 "inputQueues S" "weights S" False _ i] first_with_bucket_Some[of 0 "inputQueues S" "buckets S" i]
      refill_length[of "weights S" "inputQueues S" 0 False]
    by (auto simp: schedulePacket_wrr_def wrr_wf_def request_input_length split: option.splits if_splits prod.splits)
qed

section \<open>Runs\<close>

text \<open>From the initial state, requests, packets at the inputs, and packets that arrive from the queues.\<close>

inductive sched_run :: "schedule \<Rightarrow> sched \<Rightarrow> bool" for schedulePacket where
  init: "wrr_initialize ws qs = Inr S \<Longrightarrow> \<forall>w \<in> set ws. 0 < w \<Longrightarrow> \<forall>q \<in> set qs. packetRequested q = 0 \<Longrightarrow> sched_run schedulePacket S"
| request: "sched_run schedulePacket S \<Longrightarrow> sched_run schedulePacket (sched_requestPacket schedulePacket S)"
| arrival: "sched_run schedulePacket S \<Longrightarrow> i < length (inputQueues S) \<Longrightarrow> sched_run schedulePacket (input_arrival schedulePacket i p S)"
| handle: "sched_run schedulePacket S \<Longrightarrow> sched_handleMessage S = Inr S' \<Longrightarrow> sched_run schedulePacket S'"

lemma wrr_initialize_ok:
  assumes "wrr_initialize ws qs = Inr S" "\<forall>w \<in> set ws. 0 < w" "\<forall>q \<in> set qs. packetRequested q = 0"
  shows "prio.ok S \<and> wrr.ok S"
  using assms by (auto simp: wrr_initialize_def prio.ok_def wrr.ok_def priority_wf_def wrr_wf_def split: if_splits)

lemma sched_run_prio: "sched_run schedulePacket_priority S \<Longrightarrow> prio.ok S"
  by (induction rule: sched_run.induct)
     (use wrr_initialize_ok prio.requestPacket_ok prio.input_arrival_ok prio.sched_message_ok in \<open>fastforce+\<close>)

lemma sched_run_wrr: "sched_run schedulePacket_wrr S \<Longrightarrow> wrr.ok S"
  by (induction rule: sched_run.induct)
     (use wrr_initialize_ok wrr.requestPacket_ok wrr.input_arrival_ok wrr.sched_message_ok in \<open>fastforce+\<close>)

text \<open>
  Both schedulers keep the promise of a passive queue: in every reachable state the packets that they owe are those in transit and
  those that no input had when they were asked for, so the assertion of \<open>handleMessage\<close> holds for the next packet, and while a
  request is unanswered all the inputs are empty.
\<close>

theorem scheduler_keeps_promise:
  assumes "sched_run schedulePacket_priority S \<or> sched_run schedulePacket_wrr S"
  shows "(\<exists>S'. sched_handleMessage S = Inr S')
    \<and> packetsRequestedFromUs S = packetsToBeRequestedFromInputs S + int (length (inTransit S))
    \<and> 0 \<le> packetsToBeRequestedFromInputs S
    \<and> (0 < packetsToBeRequestedFromInputs S \<longrightarrow> sched_isEmpty S)"
  using assms
proof
  assume "sched_run schedulePacket_priority S"
  from sched_run_prio[OF this] prio.sched_message_ok[of S] show ?thesis
    by (auto simp: prio.ok_def)
next
  assume "sched_run schedulePacket_wrr S"
  from sched_run_wrr[OF this] wrr.sched_message_ok[of S] show ?thesis
    by (auto simp: wrr.ok_def)
qed

definition empty_queue :: passive_queue where
  "empty_queue = \<lparr>pq_kind = DropTailQueue 10, pq_queue = [], byteLength = 0, packetRequested = 0, numQueueReceived = 0, numQueueDropped = 0\<rparr>"

definition wrr_start :: sched where
  "wrr_start = \<lparr>inputQueues = [empty_queue, empty_queue], weights = [2, 1], buckets = [2, 1], packetsRequestedFromUs = 0,
     packetsToBeRequestedFromInputs = 0, inTransit = [], sched_sent = [], sched_notified = 0\<rparr>"

lemma wrr_start_run: "sched_run schedulePacket_wrr wrr_start"
  by (rule sched_run.init[of "[2, 1]" "[empty_queue, empty_queue]"]) (simp_all add: wrr_initialize_def wrr_start_def empty_queue_def)

theorem scheduler_keeps_promise_witness:
  "\<exists>S S'. sched_run schedulePacket_wrr S \<and> length (inTransit S) = 1 \<and> sched_handleMessage S = Inr S'"
proof -
  define S where "S = input_arrival schedulePacket_wrr 1 \<lparr>pk_id = 5, pk_length = 100\<rparr> (sched_requestPacket schedulePacket_wrr wrr_start)"
  have "length (inputQueues (sched_requestPacket schedulePacket_wrr wrr_start)) = 2"
    by code_simp
  then have run: "sched_run schedulePacket_wrr S"
    unfolding S_def by (intro sched_run.arrival sched_run.request wrr_start_run) simp
  have "length (inTransit S) = 1"
    unfolding S_def by code_simp
  moreover obtain S' where "sched_handleMessage S = Inr S'"
    using scheduler_keeps_promise[OF disjI2[OF run]] by blast
  ultimately show ?thesis
    using run by blast
qed


section \<open>Fairness of the weighted round robin\<close>

text \<open>The order of service that the weights ask for: each input as often as its weight says, one after the other.\<close>

fun service_order :: "nat \<Rightarrow> int list \<Rightarrow> nat list" where
  "service_order i [] = []"
| "service_order i (w # ws) = replicate (nat w) i @ service_order (Suc i) ws"

fun schedule_picks :: "nat \<Rightarrow> sched \<Rightarrow> nat option list \<times> sched" where
  "schedule_picks 0 S = ([], S)"
| "schedule_picks (Suc n) S =
     (let (pick, S1) = schedulePacket_wrr S; (picks, S2) = schedule_picks n S1 in (pick # picks, S2))"

lemma schedule_picks_add:
  "schedule_picks (m + n) S =
     (let (ps, S1) = schedule_picks m S; (qs, S2) = schedule_picks n S1 in (ps @ qs, S2))"
  by (induction m arbitrary: S) (auto simp: Let_def split: prod.splits)

text \<open>\<open>supplied k S bs\<close>: input \<open>i\<close> has at least \<open>k\<close> packets more than \<open>bs ! i\<close>.\<close>

definition supplied :: "(nat \<Rightarrow> int) \<Rightarrow> int list \<Rightarrow> sched \<Rightarrow> bool" where
  "supplied k bs S \<longleftrightarrow> length bs = length (inputQueues S)
     \<and> (\<forall>i < length bs. 0 \<le> bs ! i \<and> 0 \<le> k i \<and> k i + bs ! i \<le> int (length (pq_queue (inputQueues S ! i))))"

lemma service_order_Nil: "\<forall>b \<in> set bs. b \<le> 0 \<Longrightarrow> service_order i bs = []"
  by (induction bs arbitrary: i) auto

lemma service_order_empty: "service_order i bs = [] \<Longrightarrow> \<forall>b \<in> set bs. b \<le> 0"
  by (induction bs arbitrary: i) auto

lemma length_service_order: "\<forall>b \<in> set bs. 0 \<le> b \<Longrightarrow> int (length (service_order i bs)) = sum_list bs"
  by (induction bs arbitrary: i) auto

text \<open>The first input with a bucket is the next one in the order, when no input with a bucket is empty.\<close>

lemma service_order_step:
  assumes "length qs = length bs" "\<forall>j < length bs. 0 \<le> bs ! j \<and> (0 < bs ! j \<longrightarrow> \<not> pq_isEmpty (qs ! j))" "service_order i bs \<noteq> []"
  shows "\<exists>j < length bs. first_with_bucket i qs bs = Some (i + j) \<and> 0 < bs ! j
    \<and> service_order i bs = (i + j) # service_order i (bs[j := bs ! j - 1])"
  using assms
proof (induction i qs bs rule: first_with_bucket.induct)
  case (1 i q qs b bs)
  show ?case
  proof (cases "0 < b")
    case True
    then obtain n where n: "nat b = Suc n" "nat (b - 1) = n"
      by (metis Suc_nat_eq_nat_zadd1 add.commute diff_add_cancel int_one_le_iff_zero_less zle_diff1_eq)
    have "\<not> pq_isEmpty q"
      using "1.prems"(2) True by force
    then show ?thesis
      using True n by (intro exI[of _ 0]) simp
  next
    case False
    then have b: "b = 0"
      using "1.prems"(2) by force
    have "\<forall>j < length bs. 0 \<le> bs ! j \<and> (0 < bs ! j \<longrightarrow> \<not> pq_isEmpty (qs ! j))"
      using "1.prems"(2) by force
    then obtain j where "j < length bs" "first_with_bucket (Suc i) qs bs = Some (Suc i + j)" "0 < bs ! j"
      "service_order (Suc i) bs = (Suc i + j) # service_order (Suc i) (bs[j := bs ! j - 1])"
      using "1.IH" "1.prems" False b by auto
    then show ?thesis
      using False b by (intro exI[of _ "Suc j"]) simp
  qed
qed simp_all

lemma first_with_bucket_None: "\<forall>b \<in> set bs. b \<le> 0 \<Longrightarrow> first_with_bucket i qs bs = None"
  by (induction i qs bs rule: first_with_bucket.induct) auto

lemma refill_first:
  "first_with_bucket i qs ws = Some k \<Longrightarrow> length qs = length ws \<Longrightarrow> refill i qs ws False = (ws[k - i := ws ! (k - i) - 1], Some k)"
proof (induction i qs ws rule: first_with_bucket.induct)
  case (1 i q qs w ws)
  have all: "refill j qs ws True = (ws, None)" if "length qs = length ws" for j and qs :: "passive_queue list" and ws
    using that by (induction j qs ws True rule: refill.induct) auto
  show ?case
  proof (cases "\<not> pq_isEmpty q \<and> 0 < w")
    case True
    then show ?thesis
      using 1 all by auto
  next
    case False
    then have "first_with_bucket (Suc i) qs ws = Some k"
      using "1.prems"(1) by auto
    moreover from first_with_bucket_Some[OF this] have "k - i = Suc (k - Suc i)"
      by auto
    ultimately show ?thesis
      using 1 False by auto
  qed
qed simp_all

text \<open>Empty buckets are as good as full ones: the scheduler fills them first.\<close>

lemma wrr_refills:
  assumes "\<forall>b \<in> set (buckets S). b \<le> 0" "length (weights S) = length (inputQueues S)"
    "first_with_bucket 0 (inputQueues S) (weights S) = Some k"
  shows "schedulePacket_wrr S = schedulePacket_wrr (S\<lparr>buckets := weights S\<rparr>)"
proof -
  have "\<not> (\<forall>q \<in> set (inputQueues S). pq_isEmpty q)"
    using first_with_bucket_Some[OF assms(3)] by (auto dest!: nth_mem)
  then show ?thesis
    using assms first_with_bucket_None[OF assms(1)] refill_first[OF assms(3)] by (simp add: schedulePacket_wrr_def)
qed

lemma serve_buckets:
  assumes "supplied k (buckets S) S"
  shows "\<exists>S'. schedule_picks (length (service_order 0 (buckets S))) S = (map Some (service_order 0 (buckets S)), S')
    \<and> weights S' = weights S \<and> length (inputQueues S') = length (inputQueues S)
    \<and> length (buckets S') = length (buckets S) \<and> (\<forall>b \<in> set (buckets S'). b \<le> 0)
    \<and> (\<forall>i < length (inputQueues S'). k i \<le> int (length (pq_queue (inputQueues S' ! i))))"
  using assms
proof (induction "service_order 0 (buckets S)" arbitrary: S)
  case Nil
  then have "\<forall>b \<in> set (buckets S). b \<le> 0"
    by (intro service_order_empty[of 0]) simp
  then show ?case
    using Nil by (auto simp: supplied_def)
next
  case (Cons x xs)
  have len: "length (inputQueues S) = length (buckets S)"
    using Cons.prems by (simp add: supplied_def)
  have ne: "0 \<le> buckets S ! j" "0 < buckets S ! j \<Longrightarrow> \<not> pq_isEmpty (inputQueues S ! j)" if "j < length (buckets S)" for j
    using Cons.prems that by (force simp: supplied_def pq_isEmpty_def)+
  obtain j where j: "j < length (buckets S)" "first_with_bucket 0 (inputQueues S) (buckets S) = Some j" "0 < buckets S ! j"
    "service_order 0 (buckets S) = j # service_order 0 ((buckets S)[j := buckets S ! j - 1])"
  proof -
    have "service_order 0 (buckets S) \<noteq> []"
      using Cons.hyps(2) by (metis list.distinct(1))
    then show ?thesis
      using service_order_step[OF len, of 0] ne that by auto
  qed
  let ?S1 = "request_input j (S\<lparr>buckets := (buckets S)[j := buckets S ! j - 1]\<rparr>)"
  have pick: "schedulePacket_wrr S = (Some j, ?S1)"
    using j(2) by (simp add: schedulePacket_wrr_def)
  have b1: "buckets ?S1 = (buckets S)[j := buckets S ! j - 1]" "weights ?S1 = weights S"
    "length (inputQueues ?S1) = length (inputQueues S)"
    by (simp_all add: request_input_length)
  have q1: "inputQueues ?S1 = (inputQueues S)[j := snd (dequeue (inputQueues S ! j))]"
    using pq_request_nonempty[OF ne(2)[OF j(1,3)]] by (simp add: request_input_def)
  have sup: "supplied k (buckets ?S1) ?S1"
    unfolding supplied_def b1 q1
  proof (intro conjI allI impI)
    fix i assume i: "i < length ((buckets S)[j := buckets S ! j - 1])"
    have old: "0 \<le> buckets S ! i" "0 \<le> k i" "k i + buckets S ! i \<le> int (length (pq_queue (inputQueues S ! i)))"
      using Cons.prems i by (simp_all add: supplied_def)
    show "0 \<le> (buckets S)[j := buckets S ! j - 1] ! i" "0 \<le> k i"
      using old j(1,3) i by (auto simp: nth_list_update)
    have t: "pq_queue (snd (dequeue (inputQueues S ! j))) = tl (pq_queue (inputQueues S ! j))"
      using pq_request_nonempty[OF ne(2)[OF j(1,3)]] by simp
    show "k i + (buckets S)[j := buckets S ! j - 1] ! i
       \<le> int (length (pq_queue ((inputQueues S)[j := snd (dequeue (inputQueues S ! j))] ! i)))"
      using old j(1,3) i len by (cases "i = j") (auto simp: t)
  qed (simp add: len)
  have "xs = service_order 0 (buckets ?S1)"
    using Cons.hyps(2) j(4) b1(1) by simp
  from Cons.hyps(1)[OF this sup] obtain S' where S': "schedule_picks (length xs) ?S1 = (map Some xs, S')"
    "weights S' = weights ?S1" "length (inputQueues S') = length (inputQueues ?S1)" "length (buckets S') = length (buckets ?S1)"
    "\<forall>b \<in> set (buckets S'). b \<le> 0" "\<forall>i < length (inputQueues S'). k i \<le> int (length (pq_queue (inputQueues S' ! i)))"
    using \<open>xs = service_order 0 (buckets ?S1)\<close> by auto
  have "service_order 0 (buckets S) = j # xs"
    using Cons.hyps(2) j(4) by simp
  then show ?case
    using S' pick b1 by (simp add: Let_def)
qed

lemma wrr_rounds:
  assumes "weights S = ws" "buckets S = ws \<or> (\<forall>b \<in> set (buckets S). b \<le> 0)" "length ws = length (inputQueues S)"
    "\<forall>w \<in> set ws. 0 < w" "ws \<noteq> []"
    "\<forall>i < length ws. int m * ws ! i \<le> int (length (pq_queue (inputQueues S ! i)))"
  shows "fst (schedule_picks (m * length (service_order 0 ws)) S) = map Some (concat (replicate m (service_order 0 ws)))"
  using assms
proof (induction m arbitrary: S)
  case (Suc m)
  let ?n = "length (service_order 0 ws)" and ?T = "S\<lparr>buckets := ws\<rparr>"
  have sup: "supplied (\<lambda>i. int m * ws ! i) (buckets ?T) ?T"
    unfolding supplied_def
  proof (intro conjI allI impI)
    fix i assume "i < length (buckets ?T)"
    then have i: "i < length ws" "0 < ws ! i"
      using Suc.prems(4) by simp_all
    then show "0 \<le> buckets ?T ! i" "0 \<le> int m * ws ! i"
      by simp_all
    show "int m * ws ! i + buckets ?T ! i \<le> int (length (pq_queue (inputQueues ?T ! i)))"
      using Suc.prems(6) i by (simp add: algebra_simps)
  qed (use Suc.prems in simp)
  have ne: "service_order 0 ws \<noteq> []"
    using service_order_empty[of 0 ws] Suc.prems(4,5) by (cases ws) auto
  then obtain n where n: "?n = Suc n"
    by (cases "service_order 0 ws") auto
  have "\<forall>j < length ws. 0 \<le> ws ! j \<and> (0 < ws ! j \<longrightarrow> \<not> pq_isEmpty (inputQueues S ! j))"
  proof (intro allI impI)
    fix j assume j: "j < length ws"
    then have "0 < ws ! j"
      using Suc.prems(4) by simp
    moreover have "0 \<le> int m * ws ! j" "int m * ws ! j + ws ! j \<le> int (length (pq_queue (inputQueues S ! j)))"
      using sup j by (simp_all add: supplied_def)
    ultimately have "0 < length (pq_queue (inputQueues S ! j))"
      by linarith
    then show "0 \<le> ws ! j \<and> (0 < ws ! j \<longrightarrow> \<not> pq_isEmpty (inputQueues S ! j))"
      using \<open>0 < ws ! j\<close> by (auto simp: pq_isEmpty_def)
  qed
  then obtain k where k: "first_with_bucket 0 (inputQueues S) ws = Some k"
    using service_order_step[of "inputQueues S" ws 0] ne Suc.prems(3) by auto
  have "schedulePacket_wrr S = schedulePacket_wrr ?T"
    using Suc.prems(2)
  proof
    assume "\<forall>b \<in> set (buckets S). b \<le> 0"
    then show ?thesis
      using wrr_refills[of S k] k Suc.prems(1,3) by simp
  next
    assume "buckets S = ws"
    then have "?T = S" by simp
    then show ?thesis by simp
  qed
  then have eq: "schedule_picks ?n S = schedule_picks ?n ?T"
    by (simp add: n)
  obtain S' where S': "schedule_picks ?n S = (map Some (service_order 0 ws), S')" "weights S' = ws"
    "length (inputQueues S') = length (inputQueues S)" "\<forall>b \<in> set (buckets S'). b \<le> 0"
    "\<forall>i < length (inputQueues S'). int m * ws ! i \<le> int (length (pq_queue (inputQueues S' ! i)))"
    using serve_buckets[OF sup] Suc.prems(1) by (auto simp: eq)
  have "fst (schedule_picks (m * ?n) S') = map Some (concat (replicate m (service_order 0 ws)))"
    using Suc.IH[of S'] S' Suc.prems(3-5) by simp
  then show ?case
    using schedule_picks_add[of ?n "m * ?n" S] S'(1) by (auto simp: Let_def split: prod.splits)
qed simp

text \<open>
  C22. The weighted round robin scheduler is fair: while the inputs have enough packets for \<open>m\<close> rounds, it asks them in rounds, in each
  of which every input is asked exactly as often as its weight says, in the order of the inputs.
\<close>

theorem wrr_is_fair:
  assumes "wrr_initialize ws qs = Inr S" "\<forall>w \<in> set ws. 0 < w" "ws \<noteq> []"
    and "\<forall>i < length ws. int m * ws ! i \<le> int (length (pq_queue (qs ! i)))"
  shows "fst (schedule_picks (m * length (service_order 0 ws)) S) = map Some (concat (replicate m (service_order 0 ws)))"
  using assms by (intro wrr_rounds) (auto simp: wrr_initialize_def split: if_splits)

definition full_queue :: "nat \<Rightarrow> passive_queue" where
  "full_queue n = empty_queue\<lparr>pq_queue := replicate n \<lparr>pk_id = 0, pk_length = 1\<rparr>\<rparr>"

theorem wrr_is_fair_witness:
  "\<exists>S. wrr_initialize [2, 1] [full_queue 4, full_queue 2] = Inr S
     \<and> fst (schedule_picks 6 S) = [Some 0, Some 0, Some 1, Some 0, Some 0, Some 1]"
proof -
  obtain S where S: "wrr_initialize [2, 1] [full_queue 4, full_queue 2] = Inr S"
    by (simp add: wrr_initialize_def)
  have "\<forall>i < length [2, 1 :: int]. int 2 * [2, 1] ! i \<le> int (length (pq_queue ([full_queue 4, full_queue 2] ! i)))"
    by (simp add: full_queue_def less_Suc_eq)
  moreover have "service_order 0 [2, 1] = [0, 0, 1]"
    by code_simp
  ultimately have "fst (schedule_picks (2 * length [0 :: nat, 0, 1]) S) = map Some (concat (replicate 2 [0, 0, 1]))"
    using wrr_is_fair[OF S, of 2] by (simp only: list.set ball_simps) simp
  moreover have "2 * length [0 :: nat, 0, 1] = 6" "map Some (concat (replicate 2 [0 :: nat, 0, 1])) = [Some 0, Some 0, Some 1, Some 0, Some 0, Some 1]"
    by code_simp+
  ultimately show ?thesis
    using S by (simp only:) blast
qed

text \<open>
  \<open>clear\<close> forgets the packets in transit: when a scheduler is cleared between the moment at which an input has sent a packet and its
  arrival, the packet that then arrives fails the assertion of \<open>handleMessage\<close>.
\<close>

theorem clear_loses_packet_in_transit:
  "\<exists>S. sched_run schedulePacket_wrr S \<and> length (inTransit S) = 1
     \<and> sched_handleMessage (sched_clear S) = Inl (AssertFailed ''handleMessage: packetsRequestedFromUs > 0'')"
proof -
  define S where "S = input_arrival schedulePacket_wrr 1 \<lparr>pk_id = 5, pk_length = 100\<rparr> (sched_requestPacket schedulePacket_wrr wrr_start)"
  have "length (inputQueues (sched_requestPacket schedulePacket_wrr wrr_start)) = 2"
    by code_simp
  then have run: "sched_run schedulePacket_wrr S"
    unfolding S_def by (intro sched_run.arrival sched_run.request wrr_start_run) simp
  have len: "length (inTransit S) = 1"
    unfolding S_def by code_simp
  then obtain p where "inTransit S = [p]"
    by (cases "inTransit S") auto
  then show ?thesis
    using run len by (intro exI[of _ S]) (simp add: sched_handleMessage_def sched_clear_def)
qed

end
