(* ===== verification/Udp.thy ===== *)
theory Udp
  imports Tcp_Maps Ip_Icmp
begin

text \<open>
  \<open>UDP\<close>, \<open>transport/udp/UDP.cc\<close>.  A pointer to a socket is its \<open>sockId\<close>: \<open>socketsByIdMap\<close> has the sockets, and the lists of
  \<open>socketsByPortMap\<close> their ids.  The search for an ephemeral port is the loop of \<open>TCP\<close> (\<open>Tcp_Maps\<close>), which has the same code;
  here a port is in use when it is a key of \<open>socketsByPortMap\<close>.
\<close>

section \<open>State\<close>

record sock_desc =
  sd_sockId :: int
  sd_appGateIndex :: int
  sd_isBound :: bool
  sd_onlyLocalPortIsSet :: bool
  sd_reuseAddr :: bool
  sd_localAddr :: ipvx
  sd_remoteAddr :: ipvx
  sd_localPort :: int
  sd_remotePort :: int
  sd_isBroadcast :: bool
  sd_multicastOutputInterfaceId :: int
  sd_multicastLoop :: bool
  sd_ttl :: int
  sd_typeOfService :: u8
  sd_multicastAddrs :: "ipvx \<rightharpoonup> int"

definition new_sock_desc :: "int \<Rightarrow> int \<Rightarrow> sock_desc" where
  "new_sock_desc sockId gateIndex =
     \<lparr>sd_sockId = sockId, sd_appGateIndex = gateIndex, sd_isBound = False, sd_onlyLocalPortIsSet = False, sd_reuseAddr = False,
      sd_localAddr = unspecifiedAddr, sd_remoteAddr = unspecifiedAddr, sd_localPort = -1, sd_remotePort = -1, sd_isBroadcast = False,
      sd_multicastOutputInterfaceId = -1, sd_multicastLoop = True, sd_ttl = -1, sd_typeOfService = 0, sd_multicastAddrs = Map.empty\<rparr>"

record udp_packet =
  up_sourcePort :: u16
  up_destinationPort :: u16
  up_payload :: nat
  up_length :: int

text \<open>The control info of IPv6: addresses, interface, hop limit and traffic class.\<close>

datatype udp_control =
    Ctl4 ip_control
  | Ctl6 ipvx ipvx int int u8 bool
  | NoCtl
  | OtherCtl

record udp_indication =
  ui_sockId :: int
  ui_srcAddr :: ipvx
  ui_destAddr :: ipvx
  ui_srcPort :: int
  ui_destPort :: int
  ui_interfaceId :: int
  ui_ttl :: int
  ui_tos :: u8

datatype udp_out =
    UdpData int nat udp_indication
  | UdpError int int ipvx ipvx int int
  | UdpToIp udp_packet udp_control
  | PortUnreachable udp_packet udp_control

record udp =
  socketsByIdMap :: "int \<rightharpoonup> sock_desc"
  socketsByPortMap :: "(int \<times> int list) list"
  udp_lastEphemeralPort :: u16
  numSent :: nat
  numPassedUp :: nat
  numDroppedWrongPort :: nat
  numDroppedBadChecksum :: nat
  isOperational :: bool
  udp_ift :: "interface_entry list"
  udp_outs :: "udp_out list"

definition udp_emit :: "udp_out \<Rightarrow> udp \<Rightarrow> udp" where
  "udp_emit x U = U\<lparr>udp_outs := udp_outs U @ [x]\<rparr>"

definition put_sock :: "sock_desc \<Rightarrow> udp \<Rightarrow> udp" where
  "put_sock s U = U\<lparr>socketsByIdMap := (socketsByIdMap U)(sd_sockId s \<mapsto> s)\<rparr>"

text \<open>A \<open>std::map\<close> by port is a list in the order of the ports.\<close>

fun put_port :: "int \<Rightarrow> 'a \<Rightarrow> (int \<times> 'a) list \<Rightarrow> (int \<times> 'a) list" where
  "put_port k v [] = [(k, v)]"
| "put_port k v ((k', v') # xs) = (if k = k' then (k, v) # xs else if k < k' then (k, v) # (k', v') # xs else (k', v') # put_port k v xs)"

definition ids_at :: "int \<Rightarrow> udp \<Rightarrow> int list" where
  "ids_at p U = (case map_of (socketsByPortMap U) p of None \<Rightarrow> [] | Some l \<Rightarrow> l)"

definition socks_at :: "int \<Rightarrow> udp \<Rightarrow> sock_desc list" where
  "socks_at p U = List.map_filter (socketsByIdMap U) (ids_at p U)"

section \<open>Sockets\<close>

definition used_ports :: "udp \<Rightarrow> u16 multiset" where
  "used_ports U = mset (map (\<lambda>(p, _). word_of_int p) (socketsByPortMap U))"

definition udp_getEphemeralPort :: "udp \<Rightarrow> (u16 \<times> udp) res" where
  "udp_getEphemeralPort U =
     (let searchUntil = udp_lastEphemeralPort U
      in mapE (\<lambda>p. (p, U\<lparr>udp_lastEphemeralPort := p\<rparr>)) (ephemeral_loop 65536 (used_ports U) searchUntil (next_port searchUntil)))"

definition createSocket :: "int \<Rightarrow> int \<Rightarrow> ipvx \<Rightarrow> int \<Rightarrow> udp \<Rightarrow> (sock_desc \<times> udp) res" where
  "createSocket sockId gateIndex la lp U =
     bindE (if lp = -1 then mapE (\<lambda>(p, U'). (uint p, U')) (udp_getEphemeralPort U) else Inr (lp, U)) (\<lambda>(port, U1).
       let sd = (new_sock_desc sockId gateIndex)\<lparr>sd_localAddr := la, sd_localPort := port, sd_onlyLocalPortIsSet := isUnspecified la\<rparr>
       in Inr (sd, (put_sock sd U1)\<lparr>socketsByPortMap := put_port port (ids_at port U1 @ [sockId]) (socketsByPortMap U1)\<rparr>))"

definition getOrCreateSocket :: "int \<Rightarrow> int \<Rightarrow> udp \<Rightarrow> (sock_desc \<times> udp) res" where
  "getOrCreateSocket sockId gateIndex U =
     (if sockId = -1 then Inl (RuntimeError ''sockId in UDP command not filled in'')
      else case socketsByIdMap U sockId of
          Some sd \<Rightarrow> Inr (sd, U)
        | None \<Rightarrow> createSocket sockId gateIndex unspecifiedAddr (-1) U)"

definition findFirstSocketByLocalAddress :: "ipvx \<Rightarrow> u16 \<Rightarrow> udp \<Rightarrow> sock_desc option" where
  "findFirstSocketByLocalAddress la lp U =
     find (\<lambda>sd. isUnspecified (sd_localAddr sd) \<or> sd_localAddr sd = la) (socks_at (uint lp) U)"

text \<open>A socket that is there already moves to the list of its new port; the old list stays, even when it is empty.\<close>

definition udp_bind :: "int \<Rightarrow> int \<Rightarrow> ipvx \<Rightarrow> int \<Rightarrow> udp \<Rightarrow> udp res" where
  "udp_bind sockId gateIndex la lp U =
     (if sockId = -1 then Inl (RuntimeError ''sockId in BIND message not filled in'')
      else if lp < -1 \<or> 65535 < lp then Inl (RuntimeError ''bind: invalid local port number'')
      else
       let sd = socketsByIdMap U sockId;
           existing = findFirstSocketByLocalAddress la (word_of_int lp) U
       in if (case existing of None \<Rightarrow> False
              | Some x \<Rightarrow> (case sd of None \<Rightarrow> True | Some s \<Rightarrow> \<not> sd_reuseAddr s \<or> \<not> sd_reuseAddr x))
          then Inl (RuntimeError ''bind: local address/port already taken'')
          else case sd of
              Some s \<Rightarrow>
                if sd_isBound s then Inl (RuntimeError ''bind: socket is already bound'')
                else
                  let s1 = s\<lparr>sd_isBound := True, sd_localAddr := la\<rparr>
                  in if lp \<noteq> -1 \<and> sd_localPort s1 \<noteq> lp
                     then let ports1 = put_port (sd_localPort s1) (removeAll sockId (ids_at (sd_localPort s1) U)) (socketsByPortMap U);
                              U1 = U\<lparr>socketsByPortMap := ports1\<rparr>;
                              U2 = U1\<lparr>socketsByPortMap := put_port lp (ids_at lp U1 @ [sockId]) ports1\<rparr>
                          in Inr (put_sock (s1\<lparr>sd_localPort := lp\<rparr>) U2)
                     else Inr (put_sock s1 U)
            | None \<Rightarrow> mapE (\<lambda>(s, U'). put_sock (s\<lparr>sd_isBound := True\<rparr>) U') (createSocket sockId gateIndex la lp U))"

definition udp_connect :: "int \<Rightarrow> int \<Rightarrow> ipvx \<Rightarrow> int \<Rightarrow> udp \<Rightarrow> udp res" where
  "udp_connect sockId gateIndex ra rp U =
     (if isUnspecified ra then Inl (RuntimeError ''connect: unspecified remote address'')
      else if rp \<le> 0 \<or> 65535 < rp then Inl (RuntimeError ''connect: invalid remote port number'')
      else mapE (\<lambda>(sd, U'). put_sock (sd\<lparr>sd_remoteAddr := ra, sd_remotePort := rp, sd_onlyLocalPortIsSet := False\<rparr>) U')
             (getOrCreateSocket sockId gateIndex U))"

definition udp_close :: "int \<Rightarrow> udp \<Rightarrow> udp res" where
  "udp_close sockId U =
     (case socketsByIdMap U sockId of
        None \<Rightarrow> Inl (RuntimeError ''socket id doesn't exist (already closed?)'')
      | Some sd \<Rightarrow>
          let rest = remove1 sockId (ids_at (sd_localPort sd) U)
          in Inr (U\<lparr>socketsByIdMap := (socketsByIdMap U)(sockId := None),
                    socketsByPortMap :=
                      (if rest = [] then filter (\<lambda>(p, _). p \<noteq> sd_localPort sd) (socketsByPortMap U)
                       else put_port (sd_localPort sd) rest (socketsByPortMap U))\<rparr>))"

definition clearAllSockets :: "udp \<Rightarrow> udp" where
  "clearAllSockets U = U\<lparr>socketsByIdMap := Map.empty, socketsByPortMap := []\<rparr>"

section \<open>Finding the socket of a packet\<close>

definition accepts :: "ipvx \<Rightarrow> ipvx \<Rightarrow> u16 \<Rightarrow> sock_desc \<Rightarrow> bool" where
  "accepts la ra rp sd \<longleftrightarrow>
     sd_onlyLocalPortIsSet sd \<or>
     ((sd_remotePort sd = -1 \<or> sd_remotePort sd = uint rp)
      \<and> (isUnspecified (sd_localAddr sd) \<or> sd_localAddr sd = la)
      \<and> (isUnspecified (sd_remoteAddr sd) \<or> sd_remoteAddr sd = ra))"

text \<open>The loop from the back of the list; \<open>any\<close> is the socket that is bound to any address.\<close>

fun unicast_loop :: "(sock_desc \<Rightarrow> bool) \<Rightarrow> sock_desc list \<Rightarrow> sock_desc option \<Rightarrow> sock_desc option" where
  "unicast_loop ok [] any = any"
| "unicast_loop ok (sd # sds) any =
     (if ok sd then if isUnspecified (sd_localAddr sd) then unicast_loop ok sds (Some sd) else Some sd
      else unicast_loop ok sds any)"

definition findSocketForUnicastPacket :: "ipvx \<Rightarrow> u16 \<Rightarrow> ipvx \<Rightarrow> u16 \<Rightarrow> udp \<Rightarrow> sock_desc option" where
  "findSocketForUnicastPacket la lp ra rp U = unicast_loop (accepts la ra rp) (rev (socks_at (uint lp) U)) None"

definition findSocketsForMcastBcastPacket ::
  "ipvx \<Rightarrow> u16 \<Rightarrow> ipvx \<Rightarrow> u16 \<Rightarrow> bool \<Rightarrow> bool \<Rightarrow> udp \<Rightarrow> sock_desc list res" where
  "findSocketsForMcastBcastPacket la lp ra rp isMcast isBcast U =
     assertE (isMcast \<or> isBcast) ''findSocketsForMcastBcastPacket: isMulticast || isBroadcast''
      (Inr (filter (\<lambda>sd. (if isBcast then sd_isBroadcast sd else sd_multicastAddrs sd la \<noteq> None)
              \<and> (sd_remotePort sd = -1 \<or> sd_remotePort sd = uint rp)
              \<and> (isUnspecified (sd_remoteAddr sd) \<or> sd_remoteAddr sd = ra)) (socks_at (uint lp) U)))"

section \<open>Packets from the network\<close>

definition udp_sendUp :: "udp_indication \<Rightarrow> nat \<Rightarrow> sock_desc \<Rightarrow> udp \<Rightarrow> udp" where
  "udp_sendUp ind payload sd U =
     (udp_emit (UdpData (sd_appGateIndex sd) payload (ind\<lparr>ui_sockId := sd_sockId sd\<rparr>)) U)\<lparr>numPassedUp := Suc (numPassedUp U)\<rparr>"

fun sendUp_all :: "udp_indication \<Rightarrow> nat \<Rightarrow> sock_desc list \<Rightarrow> udp \<Rightarrow> udp" where
  "sendUp_all ind payload [] U = U"
| "sendUp_all ind payload (sd # sds) U = sendUp_all ind payload sds (udp_sendUp ind payload sd U)"

definition processUndeliverablePacket :: "udp_packet \<Rightarrow> udp_control \<Rightarrow> udp \<Rightarrow> udp" where
  "processUndeliverablePacket p ctl U =
     (udp_emit (PortUnreachable p ctl) U)\<lparr>numDroppedWrongPort := Suc (numDroppedWrongPort U)\<rparr>"

definition ipvx_isMulticast :: "ipvx \<Rightarrow> bool" where
  "ipvx_isMulticast a = (case a of IPv4A x \<Rightarrow> isMulticast x | IPv6A w0 w1 w2 w3 \<Rightarrow> w0 AND 0xFF000000 = 0xFF000000)"

definition udp_deliver :: "udp_packet \<Rightarrow> udp_control \<Rightarrow> udp_indication \<Rightarrow> bool \<Rightarrow> bool \<Rightarrow> udp \<Rightarrow> udp res" where
  "udp_deliver p ctl ind isMcast isBcast U =
     (if \<not> isMcast \<and> \<not> isBcast
      then (case findSocketForUnicastPacket (ui_destAddr ind) (up_destinationPort p) (ui_srcAddr ind) (up_sourcePort p) U of
              None \<Rightarrow> Inr (processUndeliverablePacket p ctl U)
            | Some sd \<Rightarrow> Inr (udp_sendUp ind (up_payload p) sd U))
      else bindE (findSocketsForMcastBcastPacket (ui_destAddr ind) (up_destinationPort p) (ui_srcAddr ind) (up_sourcePort p) isMcast isBcast U)
             (\<lambda>sds. if sds = [] then Inr (processUndeliverablePacket p ctl U)
                    else Inr (sendUp_all ind (up_payload p) sds U)))"

definition processUDPPacket :: "udp_packet \<Rightarrow> bool \<Rightarrow> udp_control \<Rightarrow> udp \<Rightarrow> udp res" where
  "processUDPPacket p bitError ctl U =
     (if bitError then Inr (U\<lparr>numDroppedBadChecksum := Suc (numDroppedBadChecksum U)\<rparr>)
      else
       let ind = (\<lambda>src dest ifid ttl tos. \<lparr>ui_sockId = -1, ui_srcAddr = src, ui_destAddr = dest, ui_srcPort = uint (up_sourcePort p),
                    ui_destPort = uint (up_destinationPort p), ui_interfaceId = ifid, ui_ttl = ttl, ui_tos = tos\<rparr>)
       in case ctl of
            Ctl4 c \<Rightarrow> udp_deliver p ctl (ind (IPv4A (ctl_src c)) (IPv4A (ctl_dest c)) (ctl_ifid c) (sint (ctl_ttl c)) (ctl_tos c))
                        (isMulticast (ctl_dest c)) (isLimitedBroadcastAddress (ctl_dest c)) U
          | Ctl6 src dest ifid hop tc _ \<Rightarrow> udp_deliver p ctl (ind src dest ifid hop tc) (ipvx_isMulticast dest) False U
          | NoCtl \<Rightarrow> Inl (RuntimeError ''arrived from lower layer without control info'')
          | OtherCtl \<Rightarrow> Inl (RuntimeError ''arrived from lower layer with unrecognized control info''))"

text \<open>An ICMP error about a datagram: the addresses of that datagram, and the ports of the packet in it.\<close>

definition processICMPError :: "ipvx \<Rightarrow> ipvx \<Rightarrow> udp_packet \<Rightarrow> udp \<Rightarrow> udp" where
  "processICMPError la ra p U =
     (case findSocketForUnicastPacket la (up_sourcePort p) ra (up_destinationPort p) U of
        None \<Rightarrow> U
      | Some sd \<Rightarrow> udp_emit (UdpError (sd_appGateIndex sd) (sd_sockId sd) la ra (sd_localPort sd) (uint (up_destinationPort p))) U)"

section \<open>Packets and commands of the application\<close>

definition udp_sendDown :: "nat \<Rightarrow> int \<Rightarrow> ipvx \<Rightarrow> int \<Rightarrow> ipvx \<Rightarrow> int \<Rightarrow> int \<Rightarrow> sock_desc \<Rightarrow> udp \<Rightarrow> udp res" where
  "udp_sendDown payload len src sport dest dport ifid sd U =
     (if isUnspecified dest then Inl (RuntimeError ''send: unspecified destination address'')
      else if dport \<le> 0 \<or> 65535 < dport then Inl (RuntimeError ''send invalid remote port number'')
      else
       let p = \<lparr>up_sourcePort = word_of_int sport, up_destinationPort = word_of_int dport, up_payload = payload, up_length = 8 + len\<rparr>
       in bindE (case dest of
            IPv4A d \<Rightarrow> (case src of
                IPv4A s \<Rightarrow> Inr (Ctl4 (new_control\<lparr>ctl_protocol := 17, ctl_src := s, ctl_dest := d, ctl_ifid := ifid,
                   ctl_multicastLoop := sd_multicastLoop sd, ctl_ttl := word_of_int (sd_ttl sd), ctl_tos := sd_typeOfService sd\<rparr>))
              | IPv6A _ _ _ _ \<Rightarrow> Inl (RuntimeError ''IPvXAddress: cannot return IPv6 address as IPv4''))
          | IPv6A _ _ _ _ \<Rightarrow> (case src of
                IPv4A s \<Rightarrow> if s = 0 then Inr (Ctl6 src dest ifid (sd_ttl sd) (sd_typeOfService sd) (sd_multicastLoop sd))
                            else Inl (RuntimeError ''IPvXAddress: cannot return IPv4 address as IPv6'')
              | IPv6A _ _ _ _ \<Rightarrow> Inr (Ctl6 src dest ifid (sd_ttl sd) (sd_typeOfService sd) (sd_multicastLoop sd))))
          (\<lambda>ctl. Inr ((udp_emit (UdpToIp p ctl) U)\<lparr>numSent := Suc (numSent U)\<rparr>)))"

record udp_send =
  us_sockId :: int
  us_destAddr :: ipvx
  us_destPort :: int
  us_srcAddr :: ipvx
  us_interfaceId :: int

definition processPacketFromApp :: "int \<Rightarrow> nat \<Rightarrow> int \<Rightarrow> udp_send \<Rightarrow> udp \<Rightarrow> udp res" where
  "processPacketFromApp gate payload len c U0 =
     bindE (getOrCreateSocket (us_sockId c) gate U0) (\<lambda>(sd, U).
       let dest = (if isUnspecified (us_destAddr c) then sd_remoteAddr sd else us_destAddr c);
           dport = (if us_destPort c = -1 then sd_remotePort sd else us_destPort c)
       in if isUnspecified dest \<or> dport = -1
          then Inl (RuntimeError ''send: missing destination address or port when sending over unconnected port'')
          else
            let src = (if isUnspecified (us_srcAddr c) then sd_localAddr sd else us_srcAddr c);
                ifid = (if us_interfaceId c = -1 \<and> ipvx_isMulticast dest
                        then (case sd_multicastAddrs sd dest of
                                Some i \<Rightarrow> if i \<noteq> -1 then i else sd_multicastOutputInterfaceId sd
                              | None \<Rightarrow> sd_multicastOutputInterfaceId sd)
                        else us_interfaceId c)
            in udp_sendDown payload len src (sd_localPort sd) dest dport ifid sd U)"

datatype sock_option =
    SetTimeToLive int
  | SetTypeOfService u8
  | SetBroadcast bool
  | SetMulticastInterface int
  | SetMulticastLoop bool
  | SetReuseAddress bool
  | JoinMulticastGroups "ipvx list" "int list"
  | LeaveMulticastGroups "ipvx list"
  | UnknownOption

text \<open>Joining at one interface or at all; an IPv6 interface only gets an address, which is not part of this state.\<close>

fun join_interfaces :: "ipvx \<Rightarrow> (interface_entry \<Rightarrow> bool) \<Rightarrow> interface_entry list \<Rightarrow> interface_entry list res" where
  "join_interfaces a P [] = Inr []"
| "join_interfaces a P (ie # ies) =
     bindE (if P ie
            then (case a of
                    IPv4A g \<Rightarrow> bindE (data_of ie) (\<lambda>d. mapE (\<lambda>(_, d'). ie\<lparr>ipv4Data := Some d'\<rparr>) (joinMulticastGroup g d))
                  | IPv6A _ _ _ _ \<Rightarrow> Inr ie)
            else Inr ie) (\<lambda>ie'. mapE ((#) ie') (join_interfaces a P ies))"

fun join_groups :: "ipvx list \<Rightarrow> int list \<Rightarrow> sock_desc \<times> interface_entry list \<Rightarrow> (sock_desc \<times> interface_entry list) res" where
  "join_groups [] ids s = Inr s"
| "join_groups (a # as) ids (sd, ies) =
     (let ifid = (case ids of [] \<Rightarrow> -1 | i # _ \<Rightarrow> i);
          sd1 = sd\<lparr>sd_multicastAddrs := (sd_multicastAddrs sd)(a \<mapsto> ifid)\<rparr>
      in assertE (ipvx_isMulticast a) ''joinMulticastGroups: multicastAddr.isMulticast()''
          (if ifid \<noteq> -1 \<and> find_interface ifid ies = None then Inl (RuntimeError ''Interface id does not exist'')
           else bindE (join_interfaces a (\<lambda>ie. ifid = -1 \<or> interfaceId ie = ifid) ies)
                  (\<lambda>ies'. join_groups as (tl ids) (sd1, ies'))))"

definition setOption :: "sock_option \<Rightarrow> sock_desc \<Rightarrow> udp \<Rightarrow> udp res" where
  "setOption opt sd U =
     (case opt of
        SetTimeToLive t \<Rightarrow> Inr (put_sock (sd\<lparr>sd_ttl := t\<rparr>) U)
      | SetTypeOfService t \<Rightarrow> Inr (put_sock (sd\<lparr>sd_typeOfService := t\<rparr>) U)
      | SetBroadcast b \<Rightarrow> Inr (put_sock (sd\<lparr>sd_isBroadcast := b\<rparr>) U)
      | SetMulticastInterface i \<Rightarrow> Inr (put_sock (sd\<lparr>sd_multicastOutputInterfaceId := i\<rparr>) U)
      | SetMulticastLoop b \<Rightarrow> Inr (put_sock (sd\<lparr>sd_multicastLoop := b\<rparr>) U)
      | SetReuseAddress b \<Rightarrow> Inr (put_sock (sd\<lparr>sd_reuseAddr := b\<rparr>) U)
      | JoinMulticastGroups as ids \<Rightarrow>
          mapE (\<lambda>(sd', ies). put_sock sd' (U\<lparr>udp_ift := ies\<rparr>)) (join_groups as ids (sd, udp_ift U))
      | LeaveMulticastGroups as \<Rightarrow>
          Inr (put_sock (sd\<lparr>sd_multicastAddrs := fold (\<lambda>a m. m(a := None)) as (sd_multicastAddrs sd)\<rparr>) U)
      | UnknownOption \<Rightarrow> Inl (RuntimeError ''Unknown subclass of UDPSetOptionCommand received from app''))"

datatype udp_command =
    UDP_C_BIND int ipvx int
  | UDP_C_CONNECT int ipvx int
  | UDP_C_CLOSE int
  | UDP_C_SETOPTION int sock_option
  | UDP_C_UNKNOWN

definition processCommandFromApp :: "int \<Rightarrow> udp_command \<Rightarrow> udp \<Rightarrow> udp res" where
  "processCommandFromApp gate c U =
     (case c of
        UDP_C_BIND sockId la lp \<Rightarrow> udp_bind sockId gate la lp U
      | UDP_C_CONNECT sockId ra rp \<Rightarrow> udp_connect sockId gate ra rp U
      | UDP_C_CLOSE sockId \<Rightarrow> udp_close sockId U
      | UDP_C_SETOPTION sockId opt \<Rightarrow> bindE (getOrCreateSocket sockId gate U) (\<lambda>(sd, U'). setOption opt sd U')
      | UDP_C_UNKNOWN \<Rightarrow> Inl (RuntimeError ''Unknown command code (message kind) received from app''))"

datatype udp_message =
    UdpPacketIn udp_packet bool udp_control
  | IcmpErrorIn ipvx ipvx udp_packet
  | OtherFromIp
  | AppPacket int nat int udp_send
  | AppCommand int udp_command

definition udp_handleMessage :: "udp_message \<Rightarrow> udp \<Rightarrow> udp res" where
  "udp_handleMessage msg U =
     (if \<not> isOperational U then Inl (RuntimeError ''Message received when UDP is OFF'')
      else case msg of
        UdpPacketIn p bitError ctl \<Rightarrow> processUDPPacket p bitError ctl U
      | IcmpErrorIn la ra p \<Rightarrow> Inr (processICMPError la ra p U)
      | OtherFromIp \<Rightarrow> Inl (RuntimeError ''Unrecognized packet: not an ICMP error message'')
      | AppPacket gate payload len c \<Rightarrow> processPacketFromApp gate payload len c U
      | AppCommand gate c \<Rightarrow> processCommandFromApp gate c U)"

definition udp_start :: "udp \<Rightarrow> udp" where
  "udp_start U = U\<lparr>isOperational := True\<rparr>"

definition udp_stop :: "udp \<Rightarrow> udp" where
  "udp_stop U = (clearAllSockets U)\<lparr>isOperational := False\<rparr>"


section \<open>The tables\<close>

lemma map_of_put_port [simp]: "map_of (put_port k v xs) = (map_of xs)(k \<mapsto> v)"
  by (induction k v xs rule: put_port.induct) (auto simp: fun_eq_iff)

lemma map_of_drop_port [simp]: "map_of (filter (\<lambda>(p, _). p \<noteq> k) xs) = (map_of xs)(k := None)"
  by (induction xs) (auto simp: fun_eq_iff)

lemma ids_at_simps [simp]:
  "ids_at p (put_sock s U) = ids_at p U"
  "ids_at p (U\<lparr>socketsByPortMap := put_port k l (socketsByPortMap U)\<rparr>) = (if p = k then l else ids_at p U)"
  "ids_at p (U\<lparr>udp_lastEphemeralPort := e\<rparr>) = ids_at p U"
  by (simp_all add: ids_at_def put_sock_def)

text \<open>A socket is in the list of its local port, once, and nowhere else.\<close>

definition tables_agree :: "(int \<rightharpoonup> sock_desc) \<Rightarrow> (int \<Rightarrow> int list) \<Rightarrow> bool" where
  "tables_agree socks ids \<longleftrightarrow>
     (\<forall>i s. socks i = Some s \<longrightarrow> sd_sockId s = i \<and> 0 \<le> sd_localPort s \<and> sd_localPort s \<le> 65535 \<and> i \<in> set (ids (sd_localPort s)))
   \<and> (\<forall>p i. i \<in> set (ids p) \<longrightarrow> (\<exists>s. socks i = Some s \<and> sd_localPort s = p))
   \<and> (\<forall>p. distinct (ids p))"

definition udp_ok :: "udp \<Rightarrow> bool" where
  "udp_ok U \<longleftrightarrow> tables_agree (socketsByIdMap U) (\<lambda>p. ids_at p U)"

lemma tables_agreeD:
  assumes "tables_agree socks ids"
  shows "socks i = Some s \<Longrightarrow> sd_sockId s = i" "socks i = Some s \<Longrightarrow> 0 \<le> sd_localPort s"
    "socks i = Some s \<Longrightarrow> sd_localPort s \<le> 65535" "socks i = Some s \<Longrightarrow> sd_localPort s = p \<Longrightarrow> i \<in> set (ids p)"
    "i \<in> set (ids p) \<Longrightarrow> \<exists>s. socks i = Some s \<and> sd_localPort s = p" "distinct (ids p)"
  using assms by (auto simp: tables_agree_def)

lemma tables_agreeI:
  assumes "\<And>i s. socks i = Some s \<Longrightarrow> sd_sockId s = i \<and> 0 \<le> sd_localPort s \<and> sd_localPort s \<le> 65535"
    "\<And>i s p. socks i = Some s \<Longrightarrow> sd_localPort s = p \<Longrightarrow> i \<in> set (ids p)"
    "\<And>i p. i \<in> set (ids p) \<Longrightarrow> \<exists>s. socks i = Some s \<and> sd_localPort s = p" "\<And>p. distinct (ids p)"
  shows "tables_agree socks ids"
  using assms by (simp add: tables_agree_def)

lemma tables_agree_insert:
  assumes "tables_agree socks ids" "socks i = None" "sd_sockId s = i" "0 \<le> sd_localPort s" "sd_localPort s \<le> 65535"
  shows "tables_agree (socks(i \<mapsto> s)) (\<lambda>p. if p = sd_localPort s then ids p @ [i] else ids p)"
proof -
  have "i \<notin> set (ids p)" for p
    using assms(1,2) by (fastforce simp: tables_agree_def)
  then show ?thesis
    using assms by (intro tables_agreeI) (auto split: if_splits dest: tables_agreeD)
qed

lemma tables_agree_update:
  assumes "tables_agree socks ids" "socks i = Some s0" "sd_sockId s = i" "sd_localPort s = sd_localPort s0"
  shows "tables_agree (socks(i \<mapsto> s)) ids"
  using assms by (fastforce simp: tables_agree_def)

lemma tables_agree_move:
  assumes "tables_agree socks ids" "socks i = Some s0" "sd_sockId s = i" "0 \<le> sd_localPort s" "sd_localPort s \<le> 65535"
    "sd_localPort s \<noteq> sd_localPort s0"
  shows "tables_agree (socks(i \<mapsto> s))
    (\<lambda>p. if p = sd_localPort s then ids p @ [i] else if p = sd_localPort s0 then removeAll i (ids p) else ids p)"
proof -
  have "i \<notin> set (ids p)" if "p \<noteq> sd_localPort s0" for p
    using assms(1,2) that by (fastforce simp: tables_agree_def)
  then show ?thesis
    using assms by (intro tables_agreeI) (auto split: if_splits dest: tables_agreeD intro: distinct_removeAll)
qed

lemma tables_agree_delete:
  assumes "tables_agree socks ids" "socks i = Some s"
  shows "tables_agree (socks(i := None)) (\<lambda>p. if p = sd_localPort s then remove1 i (ids p) else ids p)"
proof -
  have "i \<notin> set (ids p)" if "p \<noteq> sd_localPort s" for p
    using assms that by (fastforce simp: tables_agree_def)
  moreover have "distinct (ids p)" for p
    using assms(1) by (simp add: tables_agree_def)
  ultimately show ?thesis
    using assms by (intro tables_agreeI) (auto simp: set_remove1_eq split: if_splits dest: tables_agreeD)
qed

lemma udp_ok_cong: "udp_ok U \<Longrightarrow> socketsByIdMap U' = socketsByIdMap U \<Longrightarrow> socketsByPortMap U' = socketsByPortMap U \<Longrightarrow> udp_ok U'"
  by (simp add: udp_ok_def ids_at_def)

lemma udp_ok_simps [simp]:
  "udp_ok (udp_emit x U) = udp_ok U" "udp_ok (U\<lparr>numSent := n\<rparr>) = udp_ok U" "udp_ok (U\<lparr>numPassedUp := n\<rparr>) = udp_ok U"
  "udp_ok (U\<lparr>numDroppedWrongPort := n\<rparr>) = udp_ok U" "udp_ok (U\<lparr>numDroppedBadChecksum := n\<rparr>) = udp_ok U"
  "udp_ok (U\<lparr>udp_ift := ies\<rparr>) = udp_ok U" "udp_ok (U\<lparr>isOperational := b\<rparr>) = udp_ok U"
  by (simp_all add: udp_ok_def ids_at_def udp_emit_def)

lemma udp_getEphemeralPort_frame:
  "udp_getEphemeralPort U = Inr (p, U') \<Longrightarrow> U' = U\<lparr>udp_lastEphemeralPort := p\<rparr>"
  by (auto simp: udp_getEphemeralPort_def Let_def res_simps)

lemma createSocket_ok:
  assumes "createSocket i gate la lp U = Inr (s, U')" "udp_ok U" "socketsByIdMap U i = None" "-1 \<le> lp" "lp \<le> 65535"
  shows "udp_ok U' \<and> socketsByIdMap U' i = Some s \<and> sd_sockId s = i \<and> sd_remotePort s = -1"
proof -
  obtain port U1 where 1: "(if lp = -1 then mapE (\<lambda>(p, U'). (uint p, U')) (udp_getEphemeralPort U) else Inr (lp, U)) = Inr (port, U1)"
    "s = (new_sock_desc i gate)\<lparr>sd_localAddr := la, sd_localPort := port, sd_onlyLocalPortIsSet := isUnspecified la\<rparr>"
    "U' = (put_sock s U1)\<lparr>socketsByPortMap := put_port port (ids_at port U1 @ [i]) (socketsByPortMap U1)\<rparr>"
    using assms(1) by (auto simp: createSocket_def bindE_eq_Inr Let_def)
  have frame: "socketsByIdMap U1 = socketsByIdMap U" "socketsByPortMap U1 = socketsByPortMap U" "0 \<le> port" "port \<le> 65535"
  proof -
    have "uint (p :: u16) \<le> 65535" for p
      using uint_lt2p[of p] by simp
    then show "socketsByIdMap U1 = socketsByIdMap U" "socketsByPortMap U1 = socketsByPortMap U" "0 \<le> port" "port \<le> 65535"
      using 1(1) assms(4,5) by (auto simp: res_simps split: if_splits dest!: udp_getEphemeralPort_frame)
  qed
  have s: "sd_sockId s = i" "sd_localPort s = port" "sd_remotePort s = -1"
    by (simp_all add: 1(2) new_sock_desc_def)
  have ids: "(\<lambda>p. ids_at p U') = (\<lambda>p. if p = sd_localPort s then ids_at p U @ [i] else ids_at p U)"
    by (rule ext) (simp add: 1(3) s(2) ids_at_def frame put_sock_def)
  have m: "socketsByIdMap U' = (socketsByIdMap U)(i \<mapsto> s)"
    by (simp add: 1(3) put_sock_def frame s(1))
  have "tables_agree (socketsByIdMap U') (\<lambda>p. ids_at p U')"
    unfolding ids m using assms(2,3) s frame by (intro tables_agree_insert) (auto simp: udp_ok_def)
  then show ?thesis
    using m s by (simp add: udp_ok_def)
qed

lemma getOrCreateSocket_ok:
  assumes "getOrCreateSocket i gate U = Inr (s, U')" "udp_ok U"
  shows "udp_ok U' \<and> socketsByIdMap U' i = Some s \<and> sd_sockId s = i"
proof (cases "socketsByIdMap U i")
  case None
  then show ?thesis
    using assms createSocket_ok[OF _ assms(2) None, of gate unspecifiedAddr "-1" s U'] by (auto simp: getOrCreateSocket_def split: if_splits)
next
  case (Some x)
  then show ?thesis
    using assms by (auto simp: getOrCreateSocket_def udp_ok_def tables_agree_def split: if_splits)
qed

lemma put_sock_ok:
  assumes "udp_ok U" "socketsByIdMap U i = Some s0" "sd_sockId s = i" "sd_localPort s = sd_localPort s0"
  shows "udp_ok (put_sock s U)"
  using assms tables_agree_update[of "socketsByIdMap U" "\<lambda>p. ids_at p U" i s0 s]
  by (simp add: udp_ok_def) (simp add: put_sock_def)

lemma udp_bind_ok:
  assumes "udp_bind i gate la lp U = Inr U'" "udp_ok U"
  shows "udp_ok U'"
proof (cases "socketsByIdMap U i")
  case None
  obtain s U1 where "createSocket i gate la lp U = Inr (s, U1)" "U' = put_sock (s\<lparr>sd_isBound := True\<rparr>) U1" "-1 \<le> lp" "lp \<le> 65535"
    using assms(1) None by (auto simp: udp_bind_def Let_def res_simps split: if_splits option.splits)
  from createSocket_ok[OF this(1) assms(2) None this(3,4)] this(2) show ?thesis
    by (auto intro!: put_sock_ok)
next
  case (Some s)
  have s: "sd_sockId s = i" "0 \<le> sd_localPort s" "sd_localPort s \<le> 65535"
    using assms(2) Some by (auto simp: udp_ok_def tables_agree_def)
  have lp: "-1 \<le> lp" "lp \<le> 65535"
    using assms(1) by (auto simp: udp_bind_def split: if_splits)
  let ?s1 = "s\<lparr>sd_isBound := True, sd_localAddr := la\<rparr>"
  show ?thesis
  proof (cases "lp \<noteq> -1 \<and> sd_localPort s \<noteq> lp")
    case True
    let ?s2 = "?s1\<lparr>sd_localPort := lp\<rparr>"
    let ?ports = "put_port (sd_localPort s) (removeAll i (ids_at (sd_localPort s) U)) (socketsByPortMap U)"
    have U': "U' = put_sock ?s2 (U\<lparr>socketsByPortMap := put_port lp (ids_at lp (U\<lparr>socketsByPortMap := ?ports\<rparr>) @ [i]) ?ports\<rparr>)"
      using assms(1) Some True by (auto simp: udp_bind_def Let_def split: if_splits)
    have ids: "(\<lambda>p. ids_at p U') = (\<lambda>p. if p = sd_localPort ?s2 then ids_at p U @ [i]
        else if p = sd_localPort s then removeAll i (ids_at p U) else ids_at p U)"
      using True by (intro ext) (auto simp: U' ids_at_def put_sock_def)
    have m: "socketsByIdMap U' = (socketsByIdMap U)(i \<mapsto> ?s2)"
      by (simp add: U' put_sock_def s(1))
    have "tables_agree (socketsByIdMap U') (\<lambda>p. ids_at p U')"
      unfolding ids m using assms(2) Some s lp True by (intro tables_agree_move) (auto simp: udp_ok_def)
    then show ?thesis
      by (simp add: udp_ok_def)
  next
    case False
    then have "U' = put_sock ?s1 U"
      using assms(1) Some by (auto simp: udp_bind_def Let_def split: if_splits)
    then show ?thesis
      using put_sock_ok[OF assms(2) Some, of ?s1] s(1) by simp
  qed
qed

lemma udp_connect_ok: "udp_connect i gate ra rp U = Inr U' \<Longrightarrow> udp_ok U \<Longrightarrow> udp_ok U'"
  by (auto simp: udp_connect_def res_simps split: if_splits dest!: getOrCreateSocket_ok intro!: put_sock_ok)

lemma udp_close_ok:
  assumes "udp_close i U = Inr U'" "udp_ok U"
  shows "udp_ok U'"
proof -
  obtain s where s: "socketsByIdMap U i = Some s"
    using assms(1) by (auto simp: udp_close_def split: option.splits)
  have m: "socketsByIdMap U' = (socketsByIdMap U)(i := None)"
    using assms(1) s by (auto simp: udp_close_def Let_def)
  have ids: "(\<lambda>p. ids_at p U') = (\<lambda>p. if p = sd_localPort s then remove1 i (ids_at p U) else ids_at p U)"
    using assms(1) s by (intro ext) (auto simp: udp_close_def Let_def ids_at_def)
  show ?thesis
    unfolding udp_ok_def m ids using tables_agree_delete[of "socketsByIdMap U" "\<lambda>p. ids_at p U", OF _ s] assms(2)
    by (simp add: udp_ok_def)
qed

lemma join_groups_frame:
  "join_groups as ids x = Inr y \<Longrightarrow> sd_sockId (fst y) = sd_sockId (fst x) \<and> sd_localPort (fst y) = sd_localPort (fst x)"
proof (induction as arbitrary: ids x)
  case Nil
  then show ?case by simp
next
  case (Cons a as)
  show ?case
    using Cons.prems Cons.IH by (cases x) (fastforce simp: Let_def res_simps split: if_splits)
qed

lemma setOption_ok:
  assumes "setOption opt s U = Inr U'" "udp_ok U" "socketsByIdMap U i = Some s" "sd_sockId s = i"
  shows "udp_ok U'"
proof -
  have put: "udp_ok (put_sock x U)" if "sd_sockId x = i" "sd_localPort x = sd_localPort s" for x
    using put_sock_ok[OF assms(2,3)] that by simp
  have "udp_ok (put_sock x (U\<lparr>udp_ift := ies\<rparr>))" if "sd_sockId x = i" "sd_localPort x = sd_localPort s" for x ies
    using put_sock_ok[of "U\<lparr>udp_ift := ies\<rparr>" i s x] assms(2,3) that by simp
  then show ?thesis
    using assms(1,4) put by (auto simp: setOption_def res_simps split: sock_option.splits dest!: join_groups_frame)
qed

lemma sendUp_all_ok [simp]: "udp_ok (sendUp_all ind payload sds U) = udp_ok U"
  by (induction sds arbitrary: U) (simp_all add: udp_sendUp_def)

lemma udp_handleMessage_ok:
  assumes "udp_handleMessage msg U = Inr U'" "udp_ok U"
  shows "udp_ok U'"
proof (cases msg)
  case (UdpPacketIn p bitError ctl)
  then show ?thesis
    using assms by (auto simp: udp_handleMessage_def processUDPPacket_def udp_deliver_def Let_def processUndeliverablePacket_def
        udp_sendUp_def res_simps split: if_splits udp_control.splits option.splits)
next
  case (IcmpErrorIn la ra p)
  then show ?thesis
    using assms by (auto simp: udp_handleMessage_def processICMPError_def split: if_splits option.splits)
next
  case OtherFromIp
  then show ?thesis
    using assms by (auto simp: udp_handleMessage_def split: if_splits)
next
  case (AppPacket gate payload len c)
  then show ?thesis
    using assms by (auto simp: udp_handleMessage_def processPacketFromApp_def udp_sendDown_def Let_def res_simps
        split: if_splits dest!: getOrCreateSocket_ok)
next
  case (AppCommand gate c)
  then show ?thesis
    using assms by (auto simp: udp_handleMessage_def processCommandFromApp_def res_simps split: if_splits udp_command.splits
        dest: udp_bind_ok udp_connect_ok udp_close_ok getOrCreateSocket_ok setOption_ok dest!: getOrCreateSocket_ok)
qed

inductive udp_run :: "udp \<Rightarrow> bool" where
  boot: "socketsByIdMap U = Map.empty \<Longrightarrow> socketsByPortMap U = [] \<Longrightarrow> udp_run U"
| message: "udp_run U \<Longrightarrow> udp_handleMessage msg U = Inr U' \<Longrightarrow> udp_run U'"
| node_start: "udp_run U \<Longrightarrow> udp_run (udp_start U)"
| node_stop: "udp_run U \<Longrightarrow> udp_run (udp_stop U)"

lemma udp_run_ok: "udp_run U \<Longrightarrow> udp_ok U"
proof (induction rule: udp_run.induct)
  case (message U msg U')
  then show ?case using udp_handleMessage_ok by blast
qed (auto simp: udp_ok_def tables_agree_def ids_at_def udp_start_def udp_stop_def clearAllSockets_def)


section \<open>Delivery\<close>

lemma udp_run_id: "udp_run U \<Longrightarrow> socketsByIdMap U i = Some s \<Longrightarrow> sd_sockId s = i"
  using udp_run_ok by (fastforce simp: udp_ok_def tables_agree_def)

lemma socks_at_iff:
  assumes "udp_run U"
  shows "s \<in> set (socks_at p U) \<longleftrightarrow> socketsByIdMap U (sd_sockId s) = Some s \<and> sd_localPort s = p"
proof -
  have ok: "tables_agree (socketsByIdMap U) (\<lambda>p. ids_at p U)"
    using udp_run_ok[OF assms] by (simp add: udp_ok_def)
  have "s \<in> set (socks_at p U) \<longleftrightarrow> (\<exists>i\<in>set (ids_at p U). socketsByIdMap U i = Some s)"
    by (force simp: socks_at_def List.map_filter_def)
  also have "\<dots> \<longleftrightarrow> socketsByIdMap U (sd_sockId s) = Some s \<and> sd_localPort s = p"
  proof
    assume "\<exists>i\<in>set (ids_at p U). socketsByIdMap U i = Some s"
    then obtain i where i: "i \<in> set (ids_at p U)" "socketsByIdMap U i = Some s" by blast
    from tables_agreeD(5)[OF ok i(1)] tables_agreeD(1)[OF ok i(2)] i(2)
    show "socketsByIdMap U (sd_sockId s) = Some s \<and> sd_localPort s = p" by auto
  next
    assume a: "socketsByIdMap U (sd_sockId s) = Some s \<and> sd_localPort s = p"
    then have "sd_sockId s \<in> set (ids_at p U)"
      using tables_agreeD(4)[OF ok] by blast
    then show "\<exists>i\<in>set (ids_at p U). socketsByIdMap U i = Some s"
      using a by blast
  qed
  finally show ?thesis .
qed

text \<open>The loop from the back takes the last socket with an address of its own, else the first socket of any address.\<close>

lemma unicast_loop_find:
  "unicast_loop ok sds any =
     (case find (\<lambda>s. ok s \<and> \<not> isUnspecified (sd_localAddr s)) sds of
        Some s \<Rightarrow> Some s
      | None \<Rightarrow> (case find ok (rev sds) of Some s \<Rightarrow> Some s | None \<Rightarrow> any))"
proof -
  have find_append: "find P (xs @ ys) = (case find P xs of Some x \<Rightarrow> Some x | None \<Rightarrow> find P ys)" for P :: "sock_desc \<Rightarrow> bool" and xs ys
    by (induction xs) auto
  show ?thesis
    by (induction ok sds any rule: unicast_loop.induct) (auto simp: find_append split: option.splits)
qed

lemma find_SomeD: "find P xs = Some x \<Longrightarrow> x \<in> set xs \<and> P x"
  by (induction xs) (auto split: if_splits)

lemma unicast_loop_SomeD:
  assumes "unicast_loop ok sds None = Some s"
  shows "s \<in> set sds" "ok s" "s' \<in> set sds \<Longrightarrow> ok s' \<Longrightarrow> isUnspecified (sd_localAddr s) \<Longrightarrow> isUnspecified (sd_localAddr s')"
  using assms by (auto simp: unicast_loop_find find_None_iff split: option.splits dest!: find_SomeD)

lemma unicast_loop_None: "unicast_loop ok sds None = None \<longleftrightarrow> (\<forall>s\<in>set sds. \<not> ok s)"
  by (auto simp: unicast_loop_find find_None_iff split: option.splits dest!: find_SomeD)

definition udp_example :: udp where
  "udp_example = \<lparr>socketsByIdMap = Map.empty, socketsByPortMap = [], udp_lastEphemeralPort = 1024, numSent = 0, numPassedUp = 0,
     numDroppedWrongPort = 0, numDroppedBadChecksum = 0, isOperational = True, udp_ift = [], udp_outs = []\<rparr>"

definition udp_example_bound :: udp where
  "udp_example_bound = (case udp_handleMessage (AppCommand 0 (UDP_C_BIND 7 (IPv4A 0x0A000001) 53)) udp_example of Inr U \<Rightarrow> U | Inl _ \<Rightarrow> udp_example)"

lemma udp_example_run: "udp_run udp_example"
  by (rule udp_run.boot) (simp_all add: udp_example_def)

lemma udp_example_bound_step:
  "udp_handleMessage (AppCommand 0 (UDP_C_BIND 7 (IPv4A 0x0A000001) 53)) udp_example = Inr udp_example_bound"
proof -
  have "isl (udp_handleMessage (AppCommand 0 (UDP_C_BIND 7 (IPv4A 0x0A000001) 53)) udp_example) = False"
    by code_simp
  then show ?thesis
    by (auto simp: udp_example_bound_def split: sum.splits)
qed

lemma udp_example_bound_run: "udp_run udp_example_bound"
  by (rule udp_run.message[OF udp_example_run udp_example_bound_step])

text \<open>C23. Whatever commands and packets a UDP module has taken since it booted, its two tables agree: a socket of
  \<open>socketsByIdMap\<close> is listed under its own local port in \<open>socketsByPortMap\<close>, exactly once, and every listed socket exists and
  has the port it is listed under, a port of 16 bits.\<close>

theorem udp_tables_agree:
  assumes "udp_run U"
  shows "(\<forall>p. distinct (ids_at p U))
    \<and> (\<forall>p i. i \<in> set (ids_at p U) \<longleftrightarrow> (\<exists>s. socketsByIdMap U i = Some s \<and> sd_localPort s = p))
    \<and> (\<forall>i s. socketsByIdMap U i = Some s \<longrightarrow> sd_sockId s = i \<and> 0 \<le> sd_localPort s \<and> sd_localPort s \<le> 65535)"
  using udp_run_ok[OF assms] by (fastforce simp: udp_ok_def tables_agree_def)

lemma udp_tables_agree_witness: "distinct (ids_at 53 udp_example_bound) \<and> ids_at 53 udp_example_bound = [7]"
proof
  show "distinct (ids_at 53 udp_example_bound)"
    using udp_tables_agree[OF udp_example_bound_run] by blast
  show "ids_at 53 udp_example_bound = [7]"
    by code_simp
qed

text \<open>C24. A unicast packet that arrives intact goes to at most one socket.  Either there is a socket at the destination port
  that accepts it, and then exactly one such socket gets the payload, one bound to the very address if there is one; or no
  socket accepts it, and then the sender gets a port-unreachable error and no socket gets anything.\<close>

theorem unicast_goes_to_one_socket:
  assumes "udp_run U" "\<not> isMulticast (ctl_dest c)" "\<not> isLimitedBroadcastAddress (ctl_dest c)"
    and "processUDPPacket p False (Ctl4 c) U = Inr U'"
  defines "ok \<equiv> \<lambda>i s. socketsByIdMap U i = Some s \<and> sd_localPort s = uint (up_destinationPort p)
    \<and> accepts (IPv4A (ctl_dest c)) (IPv4A (ctl_src c)) (up_sourcePort p) s"
  shows "(\<exists>i s ind. ok i s \<and> udp_outs U' = udp_outs U @ [UdpData (sd_appGateIndex s) (up_payload p) ind] \<and> ui_sockId ind = i
        \<and> ui_srcAddr ind = IPv4A (ctl_src c) \<and> ui_srcPort ind = uint (up_sourcePort p)
        \<and> (isUnspecified (sd_localAddr s) \<longrightarrow> (\<forall>i' s'. ok i' s' \<longrightarrow> isUnspecified (sd_localAddr s'))))
    \<or> ((\<forall>i s. \<not> ok i s) \<and> udp_outs U' = udp_outs U @ [PortUnreachable p (Ctl4 c)])"
proof -
  let ?a = "accepts (IPv4A (ctl_dest c)) (IPv4A (ctl_src c)) (up_sourcePort p)"
  let ?sds = "rev (socks_at (uint (up_destinationPort p)) U)"
  have ok: "ok i s \<longleftrightarrow> i = sd_sockId s \<and> s \<in> set ?sds \<and> ?a s" for i s
    using udp_run_id[OF assms(1)] by (auto simp: ok_def socks_at_iff[OF assms(1)])
  show ?thesis
  proof (cases "unicast_loop ?a ?sds None")
    case None
    then have "\<forall>i s. \<not> ok i s"
      by (simp add: ok unicast_loop_None)
    then show ?thesis
      using assms(2-4) None by (auto simp: processUDPPacket_def udp_deliver_def findSocketForUnicastPacket_def
          processUndeliverablePacket_def udp_emit_def)
  next
    case (Some s)
    note s = unicast_loop_SomeD[OF Some]
    have "ok (sd_sockId s) s" "isUnspecified (sd_localAddr s) \<longrightarrow> (\<forall>i' s'. ok i' s' \<longrightarrow> isUnspecified (sd_localAddr s'))"
      using s by (auto simp: ok)
    then show ?thesis
      using assms(2-4) Some
      by (intro disjI1 exI[of _ "sd_sockId s"] exI[of _ s])
         (auto simp: processUDPPacket_def udp_deliver_def findSocketForUnicastPacket_def Let_def udp_sendUp_def udp_emit_def)
  qed
qed


lemma not_isl_Inr: "isl x = False \<Longrightarrow> \<exists>y. x = Inr y"
  by (cases x) simp_all

definition udp_query :: "udp_packet" where
  "udp_query = \<lparr>up_sourcePort = 2000, up_destinationPort = 53, up_payload = 4, up_length = 12\<rparr>"

definition udp_query_from :: ip_control where
  "udp_query_from = new_control\<lparr>ctl_src := 0x0A000002, ctl_dest := 0x0A000001\<rparr>"

lemma unicast_goes_to_one_socket_witness:
  "\<exists>U'. processUDPPacket udp_query False (Ctl4 udp_query_from) udp_example_bound = Inr U' \<and> udp_outs U' \<noteq> udp_outs udp_example_bound"
proof -
  have "isl (processUDPPacket udp_query False (Ctl4 udp_query_from) udp_example_bound) = False"
    by code_simp
  then obtain U' where U': "processUDPPacket udp_query False (Ctl4 udp_query_from) udp_example_bound = Inr U'"
    using not_isl_Inr by blast
  have "\<not> isMulticast (ctl_dest udp_query_from)" "\<not> isLimitedBroadcastAddress (ctl_dest udp_query_from)"
    by code_simp+
  from unicast_goes_to_one_socket[OF udp_example_bound_run this U'] U' show ?thesis
    by auto
qed

lemma isUnspecified_unspecifiedAddr [simp]: "isUnspecified unspecifiedAddr"
  by (simp add: isUnspecified_def unspecifiedAddr_def)

lemma find_snoc: "find P xs = None \<Longrightarrow> P y \<Longrightarrow> find P (xs @ [y]) = Some y"
  by (induction xs) (auto split: if_splits)

lemma find_app: "find P (xs @ ys) = (case find P xs of Some x \<Rightarrow> Some x | None \<Rightarrow> find P ys)"
  by (induction xs) auto

lemma ephemeral_loop_unused: "ephemeral_loop n used s p = Inr q \<Longrightarrow> q \<notin># used"
  by (induction n arbitrary: p) (auto split: if_splits)

text \<open>What a socket keeps when it is bound to an address and a port: its address, no remote side, and its place in the list of the port;
  the sockets behind it in that list do not take packets for the address away from it.\<close>

definition no_rival :: "ipvx \<Rightarrow> sock_desc \<Rightarrow> bool" where
  "no_rival la s \<longleftrightarrow> isUnspecified (sd_localAddr s) \<or> sd_localAddr s \<noteq> la \<and> \<not> sd_onlyLocalPortIsSet s"

definition holds_port :: "int \<Rightarrow> ipvx \<Rightarrow> int \<Rightarrow> udp \<Rightarrow> bool" where
  "holds_port i la lp U \<longleftrightarrow> udp_ok U
     \<and> (\<exists>s. socketsByIdMap U i = Some s \<and> sd_localAddr s = la \<and> sd_isBound s \<and> sd_remotePort s = -1 \<and> isUnspecified (sd_remoteAddr s))
     \<and> (\<exists>pre post. ids_at lp U = pre @ i # post \<and> (\<forall>j\<in>set post. \<forall>s. socketsByIdMap U j = Some s \<longrightarrow> no_rival la s))"

lemma holds_port_frame [simp]:
  "holds_port i la lp (udp_emit x U) = holds_port i la lp U" "holds_port i la lp (U\<lparr>numSent := n\<rparr>) = holds_port i la lp U"
  "holds_port i la lp (U\<lparr>numPassedUp := n\<rparr>) = holds_port i la lp U" "holds_port i la lp (U\<lparr>numDroppedWrongPort := n\<rparr>) = holds_port i la lp U"
  "holds_port i la lp (U\<lparr>numDroppedBadChecksum := n\<rparr>) = holds_port i la lp U" "holds_port i la lp (U\<lparr>udp_ift := ies\<rparr>) = holds_port i la lp U"
  by (simp_all add: holds_port_def) (simp_all add: ids_at_def udp_emit_def)

lemma sendUp_all_holds [simp]: "holds_port i la lp (sendUp_all ind payload sds U) = holds_port i la lp U"
  by (induction sds arbitrary: U) (simp_all add: udp_sendUp_def)

lemma holds_port_find:
  assumes "holds_port i la lp U" "\<not> isUnspecified la"
  shows "\<exists>s. findSocketForUnicastPacket la (word_of_int lp) ra rp U = Some s \<and> sd_sockId s = i"
    "j \<noteq> -1 \<Longrightarrow> socketsByIdMap U j = None \<Longrightarrow> udp_bind j gate la lp U = Inl (RuntimeError ''bind: local address/port already taken'')"
proof -
  obtain s pre post where s: "socketsByIdMap U i = Some s" "sd_localAddr s = la" "sd_remotePort s = -1" "isUnspecified (sd_remoteAddr s)"
    and ids: "ids_at lp U = pre @ i # post" and post: "\<forall>j\<in>set post. \<forall>s. socketsByIdMap U j = Some s \<longrightarrow> no_rival la s"
    using assms(1) by (auto simp: holds_port_def)
  have ok: "tables_agree (socketsByIdMap U) (\<lambda>p. ids_at p U)"
    using assms(1) by (simp add: holds_port_def udp_ok_def)
  have "sd_localPort s = lp"
    using tables_agreeD(5)[OF ok, of i lp] ids s(1) by auto
  then have lp: "0 \<le> lp" "lp \<le> 65535" and id: "sd_sockId s = i"
    using tables_agreeD(1-3)[OF ok s(1)] by auto
  have port: "uint (word_of_int lp :: u16) = lp"
    using lp by (simp add: uint_word_of_int)
  let ?behind = "List.map_filter (socketsByIdMap U) post"
  have socks: "socks_at lp U = List.map_filter (socketsByIdMap U) pre @ s # ?behind"
    by (simp add: socks_at_def ids List.map_filter_def s(1))
  have acc: "accepts la ra rp s"
    using s by (simp add: accepts_def)
  have "x \<in> set ?behind \<Longrightarrow> \<not> (accepts la ra rp x \<and> \<not> isUnspecified (sd_localAddr x))" for x
    using post by (auto simp: List.map_filter_def accepts_def no_rival_def)
  then have "find (\<lambda>x. accepts la ra rp x \<and> \<not> isUnspecified (sd_localAddr x)) (rev ?behind) = None"
    by (simp add: find_None_iff)
  then have "find (\<lambda>x. accepts la ra rp x \<and> \<not> isUnspecified (sd_localAddr x)) (rev (socks_at lp U)) = Some s"
    using acc s(2) assms(2) by (simp add: socks find_app)
  then show "\<exists>s. findSocketForUnicastPacket la (word_of_int lp) ra rp U = Some s \<and> sd_sockId s = i"
    by (simp add: findSocketForUnicastPacket_def port unicast_loop_find id)
  assume j: "j \<noteq> -1" "socketsByIdMap U j = None"
  have "findFirstSocketByLocalAddress la (word_of_int lp) U \<noteq> None"
    using s(2) by (auto simp: findFirstSocketByLocalAddress_def port find_None_iff socks)
  then show "udp_bind j gate la lp U = Inl (RuntimeError ''bind: local address/port already taken'')"
    using j lp by (auto simp: udp_bind_def)
qed

lemma holds_port_put:
  assumes "holds_port i la lp U" "socketsByIdMap U (sd_sockId s') = Some s0" "sd_localPort s' = sd_localPort s0" "sd_localAddr s' = sd_localAddr s0"
    "sd_onlyLocalPortIsSet s' \<longrightarrow> sd_onlyLocalPortIsSet s0"
    "sd_sockId s' = i \<longrightarrow> sd_isBound s' \<and> sd_remotePort s' = sd_remotePort s0 \<and> sd_remoteAddr s' = sd_remoteAddr s0"
  shows "holds_port i la lp (put_sock s' U)"
proof -
  have "udp_ok (put_sock s' U)"
    using put_sock_ok[of U "sd_sockId s'" s0 s'] assms(1,2,3) by (simp add: holds_port_def)
  then show ?thesis
    using assms by (auto simp: holds_port_def no_rival_def put_sock_def ids_at_def)
qed

lemma holds_port_create:
  assumes "holds_port i la lp U" "socketsByIdMap U j = None" "createSocket j gate la' lp' U = Inr (s, U')" "-1 \<le> lp'" "lp' \<le> 65535"
    "isUnspecified la' \<or> la' \<noteq> la \<or> lp' \<noteq> lp"
  shows "holds_port i la lp U'"
proof -
  obtain port U1 where 1: "(if lp' = -1 then mapE (\<lambda>(p, U'). (uint p, U')) (udp_getEphemeralPort U) else Inr (lp', U)) = Inr (port, U1)"
    "s = (new_sock_desc j gate)\<lparr>sd_localAddr := la', sd_localPort := port, sd_onlyLocalPortIsSet := isUnspecified la'\<rparr>"
    "U' = (put_sock s U1)\<lparr>socketsByPortMap := put_port port (ids_at port U1 @ [j]) (socketsByPortMap U1)\<rparr>"
    using assms(3) by (auto simp: createSocket_def bindE_eq_Inr Let_def)
  have U1: "socketsByIdMap U1 = socketsByIdMap U" "socketsByPortMap U1 = socketsByPortMap U"
    using 1(1) by (auto simp: res_simps split: if_splits dest!: udp_getEphemeralPort_frame)
  have ids: "ids_at lp U' = (if port = lp then ids_at lp U @ [j] else ids_at lp U)"
    by (simp add: 1(3) ids_at_def U1 put_sock_def)
  have m: "socketsByIdMap U' = (socketsByIdMap U)(j \<mapsto> s)"
    by (simp add: 1(2,3) put_sock_def U1 new_sock_desc_def)
  have new: "no_rival la s" if "port = lp"
  proof (cases "lp' = -1")
    case True
    then obtain p :: u16 where "port = uint p" "p \<notin># used_ports U"
      using 1(1) by (auto simp: udp_getEphemeralPort_def Let_def res_simps dest!: ephemeral_loop_unused)
    moreover have "map_of (socketsByPortMap U) lp \<noteq> None"
      using assms(1) by (auto simp: holds_port_def ids_at_def split: option.splits)
    ultimately show ?thesis
      using that by (force simp: used_ports_def dest: map_of_SomeD)
  next
    case False
    then show ?thesis
      using that 1(1,2) assms(6) by (auto simp: no_rival_def new_sock_desc_def)
  qed
  have "udp_ok U'"
    using createSocket_ok[OF assms(3) _ assms(2,4,5)] assms(1) by (simp add: holds_port_def)
  moreover have "i \<noteq> j"
    using assms(1,2) by (auto simp: holds_port_def)
  moreover have "j \<notin> set (ids_at lp U)"
    using assms(1,2) by (auto simp: holds_port_def udp_ok_def dest: tables_agreeD)
  moreover obtain pre post where l: "ids_at lp U = pre @ i # post" "\<forall>j\<in>set post. \<forall>s. socketsByIdMap U j = Some s \<longrightarrow> no_rival la s"
    using assms(1) by (auto simp: holds_port_def)
  ultimately have "\<exists>pre post. ids_at lp U' = pre @ i # post \<and> (\<forall>k\<in>set post. \<forall>s. socketsByIdMap U' k = Some s \<longrightarrow> no_rival la s)"
    using new unfolding ids m
    by (cases "port = lp") (rule exI[of _ pre], rule exI[of _ "if port = lp then post @ [j] else post"], auto)+
  then show ?thesis
    using assms(1) \<open>udp_ok U'\<close> \<open>i \<noteq> j\<close> unfolding holds_port_def m by simp
qed

lemma holds_port_getOrCreate:
  assumes "holds_port i la lp U" "\<not> isUnspecified la" "getOrCreateSocket j gate U = Inr (s, U')"
  shows "holds_port i la lp U' \<and> socketsByIdMap U' j = Some s \<and> sd_sockId s = j"
proof (cases "socketsByIdMap U j")
  case None
  then have "createSocket j gate unspecifiedAddr (-1) U = Inr (s, U')"
    using assms(3) by (auto simp: getOrCreateSocket_def split: if_splits)
  from holds_port_create[OF assms(1) None this] show ?thesis
    using getOrCreateSocket_ok[OF assms(3)] assms(1) by (simp add: holds_port_def)
next
  case (Some x)
  then show ?thesis
    using assms getOrCreateSocket_ok[OF assms(3)] by (auto simp: getOrCreateSocket_def holds_port_def split: if_splits)
qed

lemma holds_port_close:
  assumes "holds_port i la lp U" "j \<noteq> i" "udp_close j U = Inr U'"
  shows "holds_port i la lp U'"
proof -
  obtain s where s: "socketsByIdMap U j = Some s"
    using assms(3) by (auto simp: udp_close_def split: option.splits)
  have m: "socketsByIdMap U' = (socketsByIdMap U)(j := None)"
    using assms(3) s by (auto simp: udp_close_def Let_def)
  have ids: "ids_at lp U' = (if lp = sd_localPort s then remove1 j (ids_at lp U) else ids_at lp U)"
    using assms(3) s by (auto simp: udp_close_def Let_def ids_at_def)
  obtain pre post where l: "ids_at lp U = pre @ i # post" "\<forall>j\<in>set post. \<forall>s. socketsByIdMap U j = Some s \<longrightarrow> no_rival la s"
    using assms(1) by (auto simp: holds_port_def)
  have "\<exists>pre' post'. remove1 j (ids_at lp U) = pre' @ i # post' \<and> set post' \<subseteq> set post"
  proof (cases "j \<in> set pre")
    case True
    then show ?thesis by (intro exI[of _ "remove1 j pre"] exI[of _ post]) (simp add: l(1) remove1_append)
  next
    case False
    then show ?thesis
      using assms(2) by (intro exI[of _ pre] exI[of _ "remove1 j post"]) (auto simp: l(1) remove1_append set_remove1_subset)
  qed
  then have "\<exists>pre' post'. ids_at lp U' = pre' @ i # post' \<and> set post' \<subseteq> set post"
    using l(1) unfolding ids by (cases "lp = sd_localPort s") auto
  then have "\<exists>pre' post'. ids_at lp U' = pre' @ i # post' \<and> (\<forall>k\<in>set post'. \<forall>s. socketsByIdMap U' k = Some s \<longrightarrow> no_rival la s)"
    using l(2) unfolding m by fastforce
  then show ?thesis
    using assms(1,2) udp_close_ok[OF assms(3)] unfolding m holds_port_def by auto
qed

lemma holds_port_bind:
  assumes "holds_port i la lp U" "\<not> isUnspecified la" "socketsByIdMap U j = None" "udp_bind j gate la' lp' U = Inr U'"
  shows "holds_port i la lp U'"
proof -
  obtain s U1 where c: "createSocket j gate la' lp' U = Inr (s, U1)" "U' = put_sock (s\<lparr>sd_isBound := True\<rparr>) U1" "-1 \<le> lp'" "lp' \<le> 65535" "j \<noteq> -1"
    using assms(3,4) by (auto simp: udp_bind_def Let_def res_simps split: if_splits option.splits)
  have "la' \<noteq> la \<or> lp' \<noteq> lp"
    using holds_port_find(2)[OF assms(1,2) c(5) assms(3), of gate] assms(4) by auto
  then have "holds_port i la lp U1"
    using holds_port_create[OF assms(1,3) c(1,3,4)] by blast
  moreover have "udp_ok U" using assms(1) by (simp add: holds_port_def)
  ultimately show ?thesis
    using holds_port_put[of i la lp U1 "s\<lparr>sd_isBound := True\<rparr>" s] createSocket_ok[OF c(1) _ assms(3) c(3,4)] by (simp add: c(2))
qed

lemma join_groups_view:
  "join_groups as ids x = Inr y \<Longrightarrow> \<exists>m. fst y = (fst x)\<lparr>sd_multicastAddrs := m\<rparr>"
proof (induction as arbitrary: ids x)
  case Nil
  then show ?case by (cases "fst x") simp
next
  case (Cons a as)
  show ?case
    using Cons.prems Cons.IH by (cases x) (fastforce simp: Let_def res_simps split: if_splits)
qed

lemma holds_port_option:
  assumes "holds_port i la lp U" "socketsByIdMap U j = Some s" "sd_sockId s = j" "setOption opt s U = Inr U'"
  shows "holds_port i la lp U'"
proof -
  have bound: "j = i \<longrightarrow> sd_isBound s"
    using assms(1,2) by (auto simp: holds_port_def)
  note put = holds_port_put[OF _ _, of i la lp _ _ s]
  show ?thesis
    using assms bound by (auto simp: setOption_def res_simps intro!: put split: sock_option.splits dest!: join_groups_view)
qed

text \<open>
  The messages that leave the socket alone: everything but that it is connected or closed, and but the bind of a socket that is
  there already, which an option, a connect or a packet has made before.
\<close>

definition leaves_alone :: "int \<Rightarrow> udp_message \<Rightarrow> udp \<Rightarrow> bool" where
  "leaves_alone i msg U \<longleftrightarrow> (case msg of
     AppCommand gate c \<Rightarrow> (case c of
         UDP_C_BIND j _ _ \<Rightarrow> socketsByIdMap U j = None
       | UDP_C_CONNECT j _ _ \<Rightarrow> j \<noteq> i
       | UDP_C_CLOSE j \<Rightarrow> j \<noteq> i
       | _ \<Rightarrow> True)
   | _ \<Rightarrow> True)"

inductive udp_later :: "int \<Rightarrow> udp \<Rightarrow> udp \<Rightarrow> bool" for i U where
  now: "udp_later i U U"
| later: "udp_later i U V \<Longrightarrow> leaves_alone i msg V \<Longrightarrow> udp_handleMessage msg V = Inr V' \<Longrightarrow> udp_later i U V'"

lemma holds_port_message:
  assumes "holds_port i la lp U" "\<not> isUnspecified la" "leaves_alone i msg U" "udp_handleMessage msg U = Inr U'"
  shows "holds_port i la lp U'"
proof (cases msg)
  case (UdpPacketIn p bitError ctl)
  then show ?thesis
    using assms by (auto simp: udp_handleMessage_def processUDPPacket_def udp_deliver_def Let_def processUndeliverablePacket_def
        udp_sendUp_def res_simps split: if_splits udp_control.splits option.splits)
next
  case (IcmpErrorIn a ra p)
  then show ?thesis
    using assms by (auto simp: udp_handleMessage_def processICMPError_def split: if_splits option.splits)
next
  case OtherFromIp
  then show ?thesis
    using assms by (auto simp: udp_handleMessage_def split: if_splits)
next
  case (AppPacket gate payload len c)
  then show ?thesis
    using assms holds_port_getOrCreate[OF assms(1,2)]
    by (fastforce simp: udp_handleMessage_def processPacketFromApp_def udp_sendDown_def Let_def res_simps split: if_splits)
next
  case (AppCommand gate c)
  then have c: "processCommandFromApp gate c U = Inr U'"
    using assms(4) by (auto simp: udp_handleMessage_def split: if_splits)
  show ?thesis
  proof (cases c)
    case (UDP_C_BIND j a p)
    then show ?thesis
      using holds_port_bind[OF assms(1,2)] assms(3) c by (auto simp: leaves_alone_def AppCommand processCommandFromApp_def)
  next
    case (UDP_C_CONNECT j ra rp)
    then obtain s V where "getOrCreateSocket j gate U = Inr (s, V)" "j \<noteq> i"
        "U' = put_sock (s\<lparr>sd_remoteAddr := ra, sd_remotePort := rp, sd_onlyLocalPortIsSet := False\<rparr>) V"
      using assms(3) c by (auto simp: leaves_alone_def AppCommand processCommandFromApp_def udp_connect_def res_simps split: if_splits)
    then show ?thesis
      using holds_port_getOrCreate[OF assms(1,2), of j gate s V] by (auto intro!: holds_port_put)
  next
    case (UDP_C_CLOSE j)
    then show ?thesis
      using holds_port_close[OF assms(1)] assms(3) c by (auto simp: leaves_alone_def AppCommand processCommandFromApp_def)
  next
    case (UDP_C_SETOPTION j opt)
    then obtain s V where "getOrCreateSocket j gate U = Inr (s, V)" "setOption opt s V = Inr U'"
      using c by (auto simp: processCommandFromApp_def res_simps)
    then show ?thesis
      using holds_port_getOrCreate[OF assms(1,2), of j gate s V] holds_port_option by blast
  next
    case UDP_C_UNKNOWN
    then show ?thesis using c by (simp add: processCommandFromApp_def)
  qed
qed

lemma holds_port_later: "udp_later i U V \<Longrightarrow> holds_port i la lp U \<Longrightarrow> \<not> isUnspecified la \<Longrightarrow> holds_port i la lp V"
  by (induction rule: udp_later.induct) (auto dest: holds_port_message)

lemma udp_bind_holds:
  assumes "udp_ok U" "socketsByIdMap U i = None" "\<not> isUnspecified la" "lp \<noteq> -1" "udp_bind i gate la lp U = Inr U'"
  shows "holds_port i la lp U'"
proof -
  define s where "s = (new_sock_desc i gate)\<lparr>sd_localAddr := la, sd_localPort := lp, sd_onlyLocalPortIsSet := False, sd_isBound := True\<rparr>"
  have "socketsByIdMap U' = (socketsByIdMap U)(i \<mapsto> s)" "ids_at lp U' = ids_at lp U @ [i]"
    using assms(2-5) by (auto simp: udp_bind_def createSocket_def Let_def put_sock_def s_def new_sock_desc_def ids_at_def split: if_splits option.splits)
  moreover have "sd_localAddr s = la" "sd_isBound s" "sd_remotePort s = -1" "isUnspecified (sd_remoteAddr s)"
    by (simp_all add: s_def new_sock_desc_def)
  ultimately show ?thesis
    using udp_bind_ok[OF assms(5,1)] unfolding holds_port_def by (intro conjI exI[of _ "ids_at lp U"] exI[of _ "[]"]) auto
qed

text \<open>C25. Binding reserves the address: when a fresh socket is bound to an address and a port, every packet to that address and port
  is delivered to it, and a bind of a fresh socket to the same address and port is refused; right after the bind, and in
  every later state, as long as the socket itself is neither connected nor closed and no socket is bound that an option,
  a connect or a packet has made before its bind (\<open>leaves_alone\<close>; such a socket may listen to every address).\<close>

theorem bind_receives_and_reserves:
  assumes "udp_run U" "socketsByIdMap U i = None" "\<not> isUnspecified la" "lp \<noteq> -1" "udp_bind i gate la lp U = Inr U'" "udp_later i U' V"
  shows "(\<forall>ra rp. \<exists>s. findSocketForUnicastPacket la (word_of_int lp) ra rp V = Some s \<and> sd_sockId s = i)
    \<and> (\<forall>j gate'. j \<noteq> -1 \<longrightarrow> socketsByIdMap V j = None \<longrightarrow>
          udp_bind j gate' la lp V = Inl (RuntimeError ''bind: local address/port already taken''))"
proof -
  have "holds_port i la lp V"
    using holds_port_later[OF assms(6) udp_bind_holds[OF udp_run_ok[OF assms(1)] assms(2-5)] assms(3)] .
  then show ?thesis
    using holds_port_find[OF _ assms(3)] by blast
qed

lemma bind_receives_and_reserves_witness:
  "\<exists>U' V. udp_bind 7 0 (IPv4A 0x0A000001) 53 udp_example = Inr U' \<and> udp_handleMessage (AppCommand 1 (UDP_C_BIND 9 unspecifiedAddr 53)) U' = Inr V
    \<and> map_option sd_sockId (findSocketForUnicastPacket (IPv4A 0x0A000001) 53 (IPv4A 1) 1 V) = Some 7
    \<and> udp_bind 8 1 (IPv4A 0x0A000001) 53 V = Inl (RuntimeError ''bind: local address/port already taken'')"
proof -
  define U' where "U' = projr (udp_bind 7 0 (IPv4A 0x0A000001) 53 udp_example)"
  define V where "V = projr (udp_handleMessage (AppCommand 1 (UDP_C_BIND 9 unspecifiedAddr 53)) U')"
  have n: "socketsByIdMap udp_example 7 = None" "\<not> isUnspecified (IPv4A 0x0A000001)" "53 \<noteq> (-1 :: int)"
    by code_simp+
  have "isl (udp_bind 7 0 (IPv4A 0x0A000001) 53 udp_example) = False"
    "isl (udp_handleMessage (AppCommand 1 (UDP_C_BIND 9 unspecifiedAddr 53)) U') = False"
    unfolding U'_def by code_simp+
  then have U': "udp_bind 7 0 (IPv4A 0x0A000001) 53 udp_example = Inr U'"
    and V: "udp_handleMessage (AppCommand 1 (UDP_C_BIND 9 unspecifiedAddr 53)) U' = Inr V"
    by (auto simp: U'_def V_def dest!: not_isl_Inr)
  have "socketsByIdMap U' 9 = None \<longleftrightarrow> True" "socketsByIdMap V 8 = None \<longleftrightarrow> True"
    unfolding V_def U'_def Option.is_none_def[symmetric] by code_simp+
  then have f: "socketsByIdMap U' 9 = None" "socketsByIdMap V 8 = None"
    by simp_all
  then have "udp_later 7 U' V"
    using V by (intro udp_later.later[OF udp_later.now]) (auto simp: leaves_alone_def)
  from bind_receives_and_reserves[OF udp_example_run n U' this] obtain s
    where "findSocketForUnicastPacket (IPv4A 0x0A000001) 53 (IPv4A 1) 1 V = Some s" "sd_sockId s = 7"
      "udp_bind 8 1 (IPv4A 0x0A000001) 53 V = Inl (RuntimeError ''bind: local address/port already taken'')"
    using f(2) by fastforce
  then show ?thesis using U' V by auto
qed

text \<open>An option that is set before the bind defeats it.  The option makes the socket, on an ephemeral port, and notes that
  only its port is set; \<open>bind\<close> stores the address but keeps that note, so the bound socket accepts packets for every address; and
  it leaves an empty list at the ephemeral port, which therefore stays in use.\<close>

theorem option_before_bind_accepts_everything:
  assumes "udp_run U" "socketsByIdMap U i = None" "setOption (SetTimeToLive t) s0 U0 = Inr U1" "getOrCreateSocket i gate U = Inr (s0, U0)"
    and "udp_bind i gate la lp U1 = Inr U2" "lp \<noteq> -1" "lp \<noteq> sd_localPort s0"
  shows "(\<exists>s. socketsByIdMap U2 i = Some s \<and> sd_localAddr s = la \<and> sd_localPort s = lp \<and> (\<forall>la' ra rp. accepts la' ra rp s))
    \<and> word_of_int (sd_localPort s0) \<in># used_ports U2"
proof -
  have ok: "udp_ok U0" "socketsByIdMap U0 i = Some s0" "sd_sockId s0 = i"
    using getOrCreateSocket_ok[OF assms(4) udp_run_ok[OF assms(1)]] by auto
  have only: "sd_onlyLocalPortIsSet s0" and fresh: "\<not> sd_isBound s0"
    using assms(2,4) by (auto simp: getOrCreateSocket_def createSocket_def res_simps new_sock_desc_def Let_def split: if_splits)
  have U1: "U1 = put_sock (s0\<lparr>sd_ttl := t\<rparr>) U0"
    using assms(3) by (simp add: setOption_def)
  have id1: "socketsByIdMap U1 i = Some (s0\<lparr>sd_ttl := t\<rparr>)"
    by (simp add: U1 put_sock_def ok)
  let ?s = "s0\<lparr>sd_ttl := t, sd_isBound := True, sd_localAddr := la, sd_localPort := lp\<rparr>"
  have 2: "socketsByIdMap U2 i = Some ?s"
    "\<exists>l l'. socketsByPortMap U2 = put_port lp l' (put_port (sd_localPort s0) l (socketsByPortMap U1))"
    using assms(5-7) id1 ok(3) by (auto simp: udp_bind_def Let_def put_sock_def split: if_splits) blast
  then have "map_of (socketsByPortMap U2) (sd_localPort s0) \<noteq> None"
    using assms(7) by auto
  then have "word_of_int (sd_localPort s0) \<in># used_ports U2"
    by (force simp: used_ports_def dest: map_of_SomeD)
  then show ?thesis
    using 2(1) only by (simp add: accepts_def)
qed

lemma udp_example_port: "udp_getEphemeralPort udp_example = Inr (1025, udp_example\<lparr>udp_lastEphemeralPort := 1025\<rparr>)"
proof -
  have "next_port 1024 = 1025" "used_ports udp_example = {#}" "udp_lastEphemeralPort udp_example = 1024" by code_simp+
  moreover have "ephemeral_loop (Suc n) {#} 1024 1025 = Inr 1025" for n by simp
  from this[of 65535] have "ephemeral_loop 65536 {#} 1024 1025 = Inr 1025" by (simp add: Suc_numeral del: ephemeral_loop.simps)
  ultimately show ?thesis by (simp add: udp_getEphemeralPort_def)
qed

lemma option_before_bind_accepts_everything_witness:
  "\<exists>(U :: udp) s. socketsByIdMap U 7 = Some s \<and> sd_localAddr s = IPv4A 0x0A000001 \<and> accepts (IPv4A 0x0A000099) (IPv4A 1) 1 s"
proof -
  have n: "socketsByIdMap udp_example 7 = None" "socketsByPortMap udp_example = []" by (simp_all add: udp_example_def)
  let ?s = "(new_sock_desc 7 0)\<lparr>sd_localPort := 1025, sd_onlyLocalPortIsSet := True\<rparr>"
  let ?U = "(put_sock ?s (udp_example\<lparr>udp_lastEphemeralPort := 1025\<rparr>))\<lparr>socketsByPortMap := [(1025, [7])]\<rparr>"
  have 1: "getOrCreateSocket 7 0 udp_example = Inr (?s, ?U)"
    by (simp add: getOrCreateSocket_def createSocket_def ids_at_def udp_example_port n)
       (simp add: udp_example_def new_sock_desc_def Let_def)
  have 2: "setOption (SetTimeToLive 5) ?s ?U = Inr (put_sock (?s\<lparr>sd_ttl := 5\<rparr>) ?U)"
    by (simp add: setOption_def)
  have none: "findFirstSocketByLocalAddress (IPv4A 0x0A000001) 53 (put_sock (?s\<lparr>sd_ttl := 5\<rparr>) ?U) = None"
    by (simp add: findFirstSocketByLocalAddress_def socks_at_def ids_at_def put_sock_def)
  obtain U2 where 3: "udp_bind 7 0 (IPv4A 0x0A000001) 53 (put_sock (?s\<lparr>sd_ttl := 5\<rparr>) ?U) = Inr U2"
    by (simp add: udp_bind_def none) (simp add: put_sock_def new_sock_desc_def Let_def)
  have 4: "53 \<noteq> (- 1 :: int)" "53 \<noteq> sd_localPort ?s" by simp_all
  from option_before_bind_accepts_everything[OF udp_example_run n(1) 2 1 3 4] show ?thesis
    by blast
qed

text \<open>Among sockets that share a port and are bound to no address, the one that was bound first gets the packets.\<close>

lemma first_bound_any_address_wins:
  assumes "socks_at (uint lp) U = s # sds" "accepts la ra rp s" "\<forall>x\<in>set (s # sds). isUnspecified (sd_localAddr x)"
  shows "findSocketForUnicastPacket la lp ra rp U = Some s"
proof -
  have "find (\<lambda>x. accepts la ra rp x \<and> \<not> isUnspecified (sd_localAddr x)) (rev (s # sds)) = None"
    using assms(3) by (auto simp: find_None_iff)
  then show ?thesis
    using assms(1,2) by (simp add: findSocketForUnicastPacket_def unicast_loop_find)
qed

end
