(* ===== verification/Ether_Switch.thy ===== *)
theory Ether_Switch
  imports Prelude
begin

text \<open>
  The learning switch: \<open>linklayer/ethernet/switch\<close>.  \<open>MACAddressTable\<close> remembers at which port an address was seen last,
  by VLAN; \<open>MACRelayUnit\<close> learns from every frame and sends it on.  A MAC address is its 48 bits in a \<open>uint64\<close>.  The pointer
  \<open>addressTable\<close> of the code is always the table of VLAN 0, or NULL when there is none.  The file of initial entries is not read.
\<close>

section \<open>Addresses\<close>

definition MAC_ADDRESS_MASK :: u64 where "MAC_ADDRESS_MASK = 0xFFFFFFFFFFFF"
definition STP_MULTICAST_ADDRESS :: u64 where "STP_MULTICAST_ADDRESS = 0x0180C2000000"

definition mac_isBroadcast :: "u64 \<Rightarrow> bool" where
  "mac_isBroadcast a \<longleftrightarrow> a = MAC_ADDRESS_MASK"

definition mac_compareTo :: "u64 \<Rightarrow> u64 \<Rightarrow> int" where
  "mac_compareTo a b = (if a < b then -1 else if a = b then 0 else 1)"

section \<open>The address table\<close>

record mac_entry =
  me_vid :: u32
  me_portno :: int
  me_insertionTime :: simtime

type_synonym mac_entries = "u64 \<rightharpoonup> mac_entry"

record mac_table =
  agingTime :: simtime
  lastPurge :: simtime
  vlanAddressTable :: "u32 \<rightharpoonup> mac_entries"

definition new_mac_table :: "simtime \<Rightarrow> mac_table" where
  "new_mac_table aging = \<lparr>agingTime = aging, lastPurge = 0, vlanAddressTable = [0 \<mapsto> Map.empty]\<rparr>"

definition getTableForVid :: "u32 \<Rightarrow> mac_table \<Rightarrow> mac_entries option" where
  "getTableForVid vid T = vlanAddressTable T vid"

definition put_table :: "u32 \<Rightarrow> mac_entries \<Rightarrow> mac_table \<Rightarrow> mac_table" where
  "put_table vid t T = T\<lparr>vlanAddressTable := (vlanAddressTable T)(vid \<mapsto> t)\<rparr>"

definition aged :: "simtime \<Rightarrow> simtime \<Rightarrow> mac_entry \<Rightarrow> bool" where
  "aged now aging e \<longleftrightarrow> me_insertionTime e + aging \<le> now"

definition getPortForAddress :: "simtime \<Rightarrow> u64 \<Rightarrow> u32 \<Rightarrow> mac_table \<Rightarrow> int \<times> mac_table" where
  "getPortForAddress now a vid T =
     (case getTableForVid vid T of
        None \<Rightarrow> (-1, T)
      | Some t \<Rightarrow> (case t a of
            None \<Rightarrow> (-1, T)
          | Some e \<Rightarrow> if aged now (agingTime T) e then (-1, put_table vid (t(a := None)) T) else (me_portno e, T)))"

definition erase_if :: "(mac_entry \<Rightarrow> bool) \<Rightarrow> mac_entries \<Rightarrow> mac_entries" where
  "erase_if P t = (\<lambda>a. case t a of None \<Rightarrow> None | Some e \<Rightarrow> if P e then None else Some e)"

definition flush_port :: "int \<Rightarrow> mac_table \<Rightarrow> mac_table" where
  "flush_port portno T = T\<lparr>vlanAddressTable := \<lambda>v. map_option (erase_if (\<lambda>e. me_portno e = portno)) (vlanAddressTable T v)\<rparr>"

definition copyTable :: "int \<Rightarrow> int \<Rightarrow> mac_table \<Rightarrow> mac_table" where
  "copyTable portA portB T = T\<lparr>vlanAddressTable := \<lambda>v. map_option
     (\<lambda>t a. map_option (\<lambda>e. if me_portno e = portA then e\<lparr>me_portno := portB\<rparr> else e) (t a)) (vlanAddressTable T v)\<rparr>"

definition removeAgedEntriesFromVlan :: "simtime \<Rightarrow> u32 \<Rightarrow> mac_table \<Rightarrow> mac_table" where
  "removeAgedEntriesFromVlan now vid T =
     (case getTableForVid vid T of None \<Rightarrow> T | Some t \<Rightarrow> put_table vid (erase_if (aged now (agingTime T)) t) T)"

definition removeAgedEntriesFromAllVlans :: "simtime \<Rightarrow> mac_table \<Rightarrow> mac_table" where
  "removeAgedEntriesFromAllVlans now T =
     T\<lparr>vlanAddressTable := \<lambda>v. map_option (erase_if (aged now (agingTime T))) (vlanAddressTable T v)\<rparr>"

definition removeAgedEntriesIfNeeded :: "simtime \<Rightarrow> mac_table \<Rightarrow> mac_table" where
  "removeAgedEntriesIfNeeded now T =
     (if lastPurge T + sec \<le> now then removeAgedEntriesFromAllVlans now T else T)\<lparr>lastPurge := now\<rparr>"

definition updateTableWithAddress :: "simtime \<Rightarrow> int \<Rightarrow> u64 \<Rightarrow> u32 \<Rightarrow> mac_table \<Rightarrow> bool \<times> mac_table" where
  "updateTableWithAddress now portno a vid T =
     (if mac_isBroadcast a then (False, T)
      else
       let T1 = (case getTableForVid vid T of None \<Rightarrow> put_table vid Map.empty T | Some _ \<Rightarrow> T);
           new_entry = \<lparr>me_vid = vid, me_portno = portno, me_insertionTime = now\<rparr>;
           entries = (\<lambda>X. case getTableForVid vid X of None \<Rightarrow> Map.empty | Some t \<Rightarrow> t)
       in case entries T1 a of
            None \<Rightarrow> let T2 = removeAgedEntriesIfNeeded now T1 in (False, put_table vid ((entries T2)(a \<mapsto> new_entry)) T2)
          | Some e \<Rightarrow> (True, put_table vid ((entries T1)(a \<mapsto> e\<lparr>me_insertionTime := now, me_portno := portno\<rparr>)) T1))"

definition clearTable :: "mac_table \<Rightarrow> mac_table" where
  "clearTable T = T\<lparr>vlanAddressTable := Map.empty\<rparr>"

definition setAgingTime :: "simtime \<Rightarrow> mac_table \<Rightarrow> mac_table" where
  "setAgingTime t T = T\<lparr>agingTime := t\<rparr>"

section \<open>The relay unit\<close>

record 'p eth_frame =
  fr_src :: u64
  fr_dest :: u64
  fr_payload :: 'p

record 'p relay_unit =
  ru_numPorts :: nat
  ru_isOperational :: bool
  numProcessedFrames :: nat
  numDiscardedFrames :: nat
  ru_table :: mac_table
  ru_outs :: "(nat \<times> 'p eth_frame) list"

definition broadcastFrame :: "'p eth_frame \<Rightarrow> nat \<Rightarrow> 'p relay_unit \<Rightarrow> 'p relay_unit" where
  "broadcastFrame f inputport U =
     U\<lparr>ru_outs := ru_outs U @ map (\<lambda>i. (i, f)) (filter (\<lambda>i. i \<noteq> inputport) [0..<ru_numPorts U])\<rparr>"

definition ru_handleAndDispatchFrame :: "simtime \<Rightarrow> nat \<Rightarrow> 'p eth_frame \<Rightarrow> 'p relay_unit \<Rightarrow> 'p relay_unit res" where
  "ru_handleAndDispatchFrame now inputport f U =
     (let U1 = U\<lparr>numProcessedFrames := Suc (numProcessedFrames U),
                 ru_table := snd (updateTableWithAddress now (int inputport) (fr_src f) 0 (ru_table U))\<rparr>
      in if mac_isBroadcast (fr_dest f) then Inr (broadcastFrame f inputport U1)
         else
          let (outputport, T) = getPortForAddress now (fr_dest f) 0 (ru_table U1);
              U2 = U1\<lparr>ru_table := T\<rparr>
          in if int inputport = outputport then Inr (U2\<lparr>numDiscardedFrames := Suc (numDiscardedFrames U2)\<rparr>)
             else if 0 \<le> outputport
             then (if outputport < int (ru_numPorts U2)
                   then Inr (U2\<lparr>ru_outs := ru_outs U2 @ [(nat outputport, f)]\<rparr>)
                   else Inl (RuntimeError ''send: gate index out of range''))
             else Inr (broadcastFrame f inputport U2))"

definition ru_handleMessage :: "simtime \<Rightarrow> nat \<Rightarrow> 'p eth_frame \<Rightarrow> 'p relay_unit \<Rightarrow> 'p relay_unit res" where
  "ru_handleMessage now inputport f U = (if ru_isOperational U then ru_handleAndDispatchFrame now inputport f U else Inr U)"

definition ru_start :: "'p relay_unit \<Rightarrow> 'p relay_unit" where
  "ru_start U = U\<lparr>ru_table := clearTable (ru_table U), ru_isOperational := True\<rparr>"

definition ru_stop :: "'p relay_unit \<Rightarrow> 'p relay_unit" where
  "ru_stop U = U\<lparr>ru_table := clearTable (ru_table U), ru_isOperational := False\<rparr>"

section \<open>What the table says, by the history of the frames\<close>

text \<open>A history is the list of the frames that arrived, the latest first, with the time and the port.\<close>

type_synonym history = "(simtime \<times> nat \<times> u64) list"

fun last_seen :: "history \<Rightarrow> u64 \<Rightarrow> (int \<times> nat) option" where
  "last_seen [] a = None"
| "last_seen ((t, p, src) # H) a = (if src = a then Some (t, p) else last_seen H a)"

definition known_port :: "simtime \<Rightarrow> simtime \<Rightarrow> history \<Rightarrow> u64 \<Rightarrow> nat option" where
  "known_port aging now H a = (case last_seen H a of Some (t, p) \<Rightarrow> if now < t + aging then Some p else None | None \<Rightarrow> None)"

text \<open>The table holds what was seen last, but may have dropped what is too old.\<close>

definition entry_of :: "mac_table \<Rightarrow> u64 \<Rightarrow> mac_entry option" where
  "entry_of T a = (case getTableForVid 0 T of None \<Rightarrow> None | Some t \<Rightarrow> t a)"

definition agrees :: "simtime \<Rightarrow> simtime \<Rightarrow> history \<Rightarrow> u64 \<Rightarrow> mac_entry option \<Rightarrow> bool" where
  "agrees now aging H a x \<longleftrightarrow>
     (case x of Some e \<Rightarrow> \<exists>p. last_seen H a = Some (me_insertionTime e, p) \<and> me_portno e = int p
      | None \<Rightarrow> known_port aging now H a = None)"

definition remembers :: "simtime \<Rightarrow> history \<Rightarrow> mac_table \<Rightarrow> bool" where
  "remembers now H T \<longleftrightarrow> (\<forall>a. \<not> mac_isBroadcast a \<longrightarrow> agrees now (agingTime T) H a (entry_of T a))"

text \<open>The outputs that a switch with that memory gives, and a run of the unit.\<close>

definition flood :: "nat \<Rightarrow> nat \<Rightarrow> 'p eth_frame \<Rightarrow> (nat \<times> 'p eth_frame) list" where
  "flood n p f = map (\<lambda>i. (i, f)) (filter (\<lambda>i. i \<noteq> p) [0..<n])"

definition forward_by :: "nat \<Rightarrow> nat option \<Rightarrow> nat \<Rightarrow> 'p eth_frame \<Rightarrow> (nat \<times> 'p eth_frame) list" where
  "forward_by n port p f = (if mac_isBroadcast (fr_dest f) then flood n p f
     else case port of None \<Rightarrow> flood n p f | Some q \<Rightarrow> if q = p then [] else [(q, f)])"

fun switch_spec :: "nat \<Rightarrow> simtime \<Rightarrow> history \<Rightarrow> (simtime \<times> nat \<times> 'p eth_frame) list \<Rightarrow> (nat \<times> 'p eth_frame) list" where
  "switch_spec n aging H [] = []"
| "switch_spec n aging H ((t, p, f) # evs) =
     (let H' = (t, p, fr_src f) # H
      in forward_by n (known_port aging t H' (fr_dest f)) p f @ switch_spec n aging H' evs)"

fun relay_run :: "(simtime \<times> nat \<times> 'p eth_frame) list \<Rightarrow> 'p relay_unit \<Rightarrow> 'p relay_unit res" where
  "relay_run [] U = Inr U"
| "relay_run ((t, p, f) # evs) U = bindE (ru_handleMessage t p f U) (relay_run evs)"

lemma put_table_simps [simp]:
  "agingTime (put_table vid t T) = agingTime T" "getTableForVid vid (put_table vid t T) = Some t"
  "entry_of (put_table 0 t T) = t"
  by (simp_all add: put_table_def getTableForVid_def entry_of_def fun_eq_iff)

lemma entry_of_purge [simp]:
  "agingTime (removeAgedEntriesIfNeeded now T) = agingTime T"
  "entry_of (removeAgedEntriesIfNeeded now T) a =
     (case entry_of T a of None \<Rightarrow> None
      | Some e \<Rightarrow> if lastPurge T + sec \<le> now \<and> aged now (agingTime T) e then None else Some e)"
  by (auto simp: removeAgedEntriesIfNeeded_def removeAgedEntriesFromAllVlans_def entry_of_def getTableForVid_def erase_if_def
      split: option.splits)

lemma entry_of_update:
  fixes T :: mac_table and now portno :: int and src :: u64
  assumes "\<not> mac_isBroadcast src"
  defines "T' \<equiv> snd (updateTableWithAddress now portno src 0 T)"
  shows "agingTime T' = agingTime T"
    "entry_of T' a = (if a = src then Some (case entry_of T a of Some e \<Rightarrow> e\<lparr>me_insertionTime := now, me_portno := portno\<rparr>
         | None \<Rightarrow> \<lparr>me_vid = 0, me_portno = portno, me_insertionTime = now\<rparr>)
       else if entry_of T src = None then entry_of (removeAgedEntriesIfNeeded now T) a else entry_of T a)"
proof -
  have look: "(case getTableForVid 0 X of None \<Rightarrow> Map.empty | Some t \<Rightarrow> t) = entry_of X" for X
    by (simp add: entry_of_def fun_eq_iff split: option.splits)
  define T1 where "T1 = (case getTableForVid 0 T of None \<Rightarrow> put_table 0 Map.empty T | Some _ \<Rightarrow> T)"
  have T1: "agingTime T1 = agingTime T" "entry_of T1 = entry_of T" "lastPurge T1 = lastPurge T"
    by (auto simp: T1_def entry_of_def fun_eq_iff put_table_def getTableForVid_def split: option.splits)
  have T': "T' = (case entry_of T src of
      None \<Rightarrow> put_table 0 ((entry_of (removeAgedEntriesIfNeeded now T1))(src \<mapsto> \<lparr>me_vid = 0, me_portno = portno, me_insertionTime = now\<rparr>))
        (removeAgedEntriesIfNeeded now T1)
    | Some e \<Rightarrow> put_table 0 ((entry_of T)(src \<mapsto> e\<lparr>me_insertionTime := now, me_portno := portno\<rparr>)) T1)"
    using assms(1) by (simp add: T'_def updateTableWithAddress_def T1_def[symmetric] look T1 Let_def split: option.splits)
  show "agingTime T' = agingTime T"
    by (simp add: T' T1 split: option.splits)
  show "entry_of T' a = (if a = src then Some (case entry_of T a of Some e \<Rightarrow> e\<lparr>me_insertionTime := now, me_portno := portno\<rparr>
         | None \<Rightarrow> \<lparr>me_vid = 0, me_portno = portno, me_insertionTime = now\<rparr>)
       else if entry_of T src = None then entry_of (removeAgedEntriesIfNeeded now T) a else entry_of T a)"
    by (simp add: T' T1 split: option.splits)
qed

lemma known_port_None_mono: "known_port aging now H a = None \<Longrightarrow> now \<le> now' \<Longrightarrow> known_port aging now' H a = None"
  by (auto simp: known_port_def split: option.splits if_splits)

lemma known_port_other:
  "a \<noteq> src \<Longrightarrow> known_port aging now ((t, p, src) # H) a = known_port aging now H a"
  "a \<noteq> src \<Longrightarrow> agrees now aging ((t, p, src) # H) a x = agrees now aging H a x"
  by (simp_all add: known_port_def agrees_def split: option.splits)

lemma agrees_mono: "agrees now aging H a x \<Longrightarrow> now \<le> now' \<Longrightarrow> agrees now' aging H a x"
  using known_port_None_mono by (auto simp: agrees_def split: option.splits)

lemma agrees_seen: "me_insertionTime e = now \<Longrightarrow> me_portno e = int p \<Longrightarrow> agrees now aging ((now, p, a) # H) a (Some e)"
  by (simp add: agrees_def)

lemma agrees_drop: "agrees now aging H a (Some e) \<Longrightarrow> aged now aging e \<Longrightarrow> agrees now aging H a None"
  by (auto simp: agrees_def aged_def known_port_def)

lemma remembers_mono: "remembers now H T \<Longrightarrow> now \<le> now' \<Longrightarrow> remembers now' H T"
  using agrees_mono by (auto simp: remembers_def)

lemma remembers_learn:
  assumes "remembers now H T"
  shows "remembers now ((now, p, src) # H) (snd (updateTableWithAddress now (int p) src 0 T))"
proof (cases "mac_isBroadcast src")
  case True
  then have "a \<noteq> src" if "\<not> mac_isBroadcast a" for a
    using that by blast
  then show ?thesis
    using assms True by (auto simp: remembers_def updateTableWithAddress_def known_port_other)
next
  case False
  have "agrees now (agingTime T) ((now, p, src) # H) a (entry_of (snd (updateTableWithAddress now (int p) src 0 T)) a)"
    if a: "\<not> mac_isBroadcast a" for a
  proof (cases "a = src")
    case True
    then show ?thesis
      by (auto simp: entry_of_update[OF False] intro!: agrees_seen split: option.splits)
  next
    case other: False
    have "agrees now (agingTime T) H a (entry_of T a)"
      using assms a by (simp add: remembers_def)
    then show ?thesis
      using other by (auto simp: entry_of_update[OF False] known_port_other split: option.splits intro: agrees_drop)
  qed
  then show ?thesis
    by (simp add: remembers_def entry_of_update(1)[OF False])
qed

lemma getPort_known:
  assumes "remembers now H T" "\<not> mac_isBroadcast a"
  shows "fst (getPortForAddress now a 0 T) = (case known_port (agingTime T) now H a of None \<Rightarrow> -1 | Some p \<Rightarrow> int p)"
    "remembers now H (snd (getPortForAddress now a 0 T))" "agingTime (snd (getPortForAddress now a 0 T)) = agingTime T"
proof -
  have r: "agrees now (agingTime T) H a (entry_of T a)" if "\<not> mac_isBroadcast a" for a
    using assms(1) that by (simp add: remembers_def)
  have get: "getPortForAddress now a 0 T = (case entry_of T a of None \<Rightarrow> (-1, T)
      | Some e \<Rightarrow> if aged now (agingTime T) e then (-1, put_table 0 ((entry_of T)(a := None)) T) else (me_portno e, T))"
    by (auto simp: getPortForAddress_def entry_of_def fun_eq_iff intro!: arg_cong[where f = "\<lambda>t. put_table 0 t T"] split: option.splits)
  show "fst (getPortForAddress now a 0 T) = (case known_port (agingTime T) now H a of None \<Rightarrow> -1 | Some p \<Rightarrow> int p)"
    using r[OF assms(2)] by (auto simp: get agrees_def aged_def known_port_def split: option.splits)
  show "agingTime (snd (getPortForAddress now a 0 T)) = agingTime T"
    by (simp add: get split: option.splits)
  show "remembers now H (snd (getPortForAddress now a 0 T))"
    using r by (auto simp: remembers_def get split: option.splits) (metis agrees_drop)
qed

text \<open>One frame, then a run.\<close>

lemma known_port_bound: "\<forall>(t, p, a)\<in>set H. p < n \<Longrightarrow> known_port aging now H a = Some q \<Longrightarrow> q < n"
  by (induction H a rule: last_seen.induct) (auto simp: known_port_def split: if_splits option.splits)

lemma handleAndDispatch_step:
  assumes "remembers now H (ru_table U)" "ru_isOperational U" "p < ru_numPorts U" "\<forall>(t, p, a)\<in>set H. p < ru_numPorts U"
  shows "\<exists>U'. ru_handleMessage now p f U = Inr U' \<and> remembers now ((now, p, fr_src f) # H) (ru_table U')
    \<and> agingTime (ru_table U') = agingTime (ru_table U) \<and> ru_isOperational U' \<and> ru_numPorts U' = ru_numPorts U
    \<and> ru_outs U' = ru_outs U
        @ forward_by (ru_numPorts U) (known_port (agingTime (ru_table U)) now ((now, p, fr_src f) # H) (fr_dest f)) p f"
proof -
  let ?H = "(now, p, fr_src f) # H"
  let ?T = "snd (updateTableWithAddress now (int p) (fr_src f) 0 (ru_table U))"
  have T: "remembers now ?H ?T" "agingTime ?T = agingTime (ru_table U)"
    using remembers_learn[OF assms(1)] entry_of_update(1)[of "fr_src f"] by (auto simp: updateTableWithAddress_def)
  have bound: "known_port aging now ?H a = Some q \<Longrightarrow> q < ru_numPorts U" for aging a q
    using known_port_bound[of ?H "ru_numPorts U"] assms(3,4) by auto
  show ?thesis
  proof (cases "mac_isBroadcast (fr_dest f)")
    case True
    then show ?thesis
      using T assms(2) by (simp add: ru_handleMessage_def ru_handleAndDispatchFrame_def Let_def broadcastFrame_def forward_by_def flood_def)
  next
    case False
    obtain port T' where get: "getPortForAddress now (fr_dest f) 0 ?T = (port, T')"
      by fastforce
    have 1: "port = (case known_port (agingTime (ru_table U)) now ?H (fr_dest f) of None \<Rightarrow> -1 | Some p \<Rightarrow> int p)"
      "remembers now ?H T'" "agingTime T' = agingTime (ru_table U)"
      using getPort_known[OF T(1) False] get T(2) by auto
    then show ?thesis
      using T assms(2) False get bound
      by (auto simp: ru_handleMessage_def ru_handleAndDispatchFrame_def Let_def broadcastFrame_def forward_by_def flood_def
          split: option.splits if_splits)
  qed
qed


lemma relay_run_spec:
  assumes "sorted (map fst evs)" "\<forall>(t, p, f)\<in>set evs. now \<le> t \<and> p < ru_numPorts U"
    and "remembers now H (ru_table U)" "ru_isOperational U" "\<forall>(t, p, a)\<in>set H. p < ru_numPorts U"
  shows "\<exists>U'. relay_run evs U = Inr U'
    \<and> ru_outs U' = ru_outs U @ switch_spec (ru_numPorts U) (agingTime (ru_table U)) H evs"
  using assms
proof (induction evs arbitrary: now H U)
  case Nil
  then show ?case by simp
next
  case (Cons e evs)
  obtain t p f where e: "e = (t, p, f)" by (cases e)
  have t: "remembers t H (ru_table U)" "p < ru_numPorts U"
    using Cons.prems(2,3) remembers_mono[of now H _ t] by (auto simp: e)
  from handleAndDispatch_step[OF t(1) Cons.prems(4) t(2) Cons.prems(5), of f] obtain U1 where
    U1: "ru_handleMessage t p f U = Inr U1" "remembers t ((t, p, fr_src f) # H) (ru_table U1)"
      "agingTime (ru_table U1) = agingTime (ru_table U)" "ru_isOperational U1" "ru_numPorts U1 = ru_numPorts U"
      "ru_outs U1 = ru_outs U
        @ forward_by (ru_numPorts U) (known_port (agingTime (ru_table U)) t ((t, p, fr_src f) # H) (fr_dest f)) p f"
    by blast
  have "\<exists>U'. relay_run evs U1 = Inr U'
    \<and> ru_outs U' = ru_outs U1 @ switch_spec (ru_numPorts U1) (agingTime (ru_table U1)) ((t, p, fr_src f) # H) evs"
    using Cons.prems t(2) by (intro Cons.IH[of t]) (auto simp: e U1)
  then show ?case
    using U1 by (auto simp: e Let_def)
qed

lemma remembers_nothing: "vlanAddressTable T = Map.empty \<or> vlanAddressTable T = [0 \<mapsto> Map.empty] \<Longrightarrow> remembers now [] T"
  by (auto simp: remembers_def entry_of_def getTableForVid_def known_port_def agrees_def)

text \<open>
  C26. A switch that starts with an empty table does exactly what its history says.  Whatever frames arrive, in the order of
  time, each is sent to the port where its destination was seen last as a source, when that is less than the ageing time ago,
  and not back to the port it came from; it is sent to all other ports when the destination is the broadcast address, was never
  seen, or not lately.  So purging the table of old entries at odd times, and refreshing them, is not visible from outside,
  and no frame leads to an error.
\<close>

theorem switch_follows_history:
  assumes "ru_isOperational U" "vlanAddressTable (ru_table U) = Map.empty \<or> vlanAddressTable (ru_table U) = [0 \<mapsto> Map.empty]"
    and "sorted (map fst evs)" "\<forall>(t, p, f)\<in>set evs. p < ru_numPorts U"
  shows "\<exists>U'. relay_run evs U = Inr U' \<and> ru_outs U' = ru_outs U @ switch_spec (ru_numPorts U) (agingTime (ru_table U)) [] evs"
proof (cases evs)
  case Nil
  then show ?thesis by simp
next
  case (Cons e evs')
  have "\<forall>(t, p, f)\<in>set evs. fst e \<le> t \<and> p < ru_numPorts U"
    using assms(3,4) by (auto simp: Cons)
  then show ?thesis
    using assms remembers_nothing by (intro relay_run_spec[of evs "fst e"]) auto
qed

definition switch_example :: "nat relay_unit" where
  "switch_example = \<lparr>ru_numPorts = 3, ru_isOperational = True, numProcessedFrames = 0, numDiscardedFrames = 0,
     ru_table = new_mac_table 120, ru_outs = []\<rparr>"

lemma switch_follows_history_witness:
  "\<exists>U'. relay_run [(0 :: int, 0, \<lparr>fr_src = 10, fr_dest = 20, fr_payload = 1\<rparr>), (5, 2, \<lparr>fr_src = 20, fr_dest = 10, fr_payload = 2\<rparr>),
       (130, 1, \<lparr>fr_src = 30, fr_dest = 20, fr_payload = 3\<rparr>)] switch_example = Inr (U' :: nat relay_unit)
    \<and> map (\<lambda>(p, f). (p, fr_payload f)) (ru_outs U') = [(1, 1), (2, 1), (0, 2), (0, 3), (2, 3)]"
proof -
  let ?evs = "[(0 :: int, 0, \<lparr>fr_src = 10, fr_dest = 20, fr_payload = 1\<rparr>), (5, 2, \<lparr>fr_src = 20, fr_dest = 10, fr_payload = 2\<rparr>),
       (130, 1, \<lparr>fr_src = 30, fr_dest = 20, fr_payload = 3\<rparr>)]"
  have "ru_isOperational switch_example"
    "vlanAddressTable (ru_table switch_example) = Map.empty \<or> vlanAddressTable (ru_table switch_example) = [0 \<mapsto> Map.empty]"
    "sorted (map fst ?evs)" "\<forall>(t, p, f)\<in>set ?evs. p < ru_numPorts switch_example"
    by (simp_all add: switch_example_def new_mac_table_def)
  from switch_follows_history[OF this] obtain U' where U': "relay_run ?evs switch_example = Inr U'"
    "ru_outs U' = ru_outs switch_example @ switch_spec (ru_numPorts switch_example) (agingTime (ru_table switch_example)) [] ?evs"
    by blast
  have "map (\<lambda>(p, f). (p, fr_payload f)) (ru_outs switch_example @ switch_spec (ru_numPorts switch_example)
      (agingTime (ru_table switch_example)) [] ?evs) = [(1, 1), (2, 1), (0, 2), (0, 3), (2, 3)]"
    by code_simp
  then show ?thesis
    using U' by auto
qed

text \<open>Learning many addresses, with the times of the calls.\<close>

fun learn_all :: "(simtime \<times> int \<times> u64) list \<Rightarrow> mac_table \<Rightarrow> mac_table" where
  "learn_all [] T = T"
| "learn_all ((t, p, a) # xs) T = learn_all xs (snd (updateTableWithAddress t p a 0 T))"

fun at_least_every_second :: "simtime \<Rightarrow> simtime list \<Rightarrow> bool" where
  "at_least_every_second t0 [] \<longleftrightarrow> True"
| "at_least_every_second t0 (t # ts) \<longleftrightarrow> t0 \<le> t \<and> t < t0 + sec \<and> at_least_every_second t ts"

lemma lastPurge_update:
  "\<not> mac_isBroadcast a \<Longrightarrow> entry_of T a = None \<Longrightarrow> lastPurge (snd (updateTableWithAddress now p a 0 T)) = now"
  by (auto simp: updateTableWithAddress_def Let_def entry_of_def removeAgedEntriesIfNeeded_def put_table_def getTableForVid_def split: option.splits)

text \<open>
  The table is purged only when the last call of \<open>removeAgedEntriesIfNeeded\<close> was a second ago or more, and every call counts,
  also one that did not purge.  So while a new address is learned more often than once a second, however long and however old
  the entries are, none is ever removed, and the table grows with every address.
\<close>

theorem busy_switch_never_purges:
  assumes "at_least_every_second (lastPurge T) (map fst xs)" "distinct (map (\<lambda>(t, p, a). a) xs)"
    and "\<forall>(t, p, a)\<in>set xs. \<not> mac_isBroadcast a \<and> entry_of T a = None"
  shows "dom (entry_of (learn_all xs T)) = dom (entry_of T) \<union> (\<lambda>(t, p, a). a) ` set xs"
  using assms
proof (induction xs arbitrary: T)
  case Nil
  then show ?case by simp
next
  case (Cons x xs)
  obtain t p a where x: "x = (t, p, a)" by (cases x)
  let ?T = "snd (updateTableWithAddress t p a 0 T)"
  have a: "\<not> mac_isBroadcast a" "entry_of T a = None"
    using Cons.prems(3) by (auto simp: x)
  have "entry_of (removeAgedEntriesIfNeeded t T) b = entry_of T b" for b
    using Cons.prems(1) by (auto simp: x split: option.splits)
  then have e: "entry_of ?T b = (if b = a then Some \<lparr>me_vid = 0, me_portno = p, me_insertionTime = t\<rparr> else entry_of T b)" for b
    using a by (simp add: entry_of_update(2)[OF a(1)])
  have "dom (entry_of (learn_all xs ?T)) = dom (entry_of ?T) \<union> (\<lambda>(t, p, a). a) ` set xs"
    using Cons.prems lastPurge_update[OF a] by (intro Cons.IH) (force simp: x e)+
  moreover have "dom (entry_of ?T) = insert a (dom (entry_of T))"
    by (auto simp: e dom_def split: if_splits)
  ultimately show ?case
    by (simp add: x)
qed

lemma busy_switch_never_purges_witness:
  "20 \<in> dom (entry_of (learn_all [(0, 0, 20), (sec div 2, 1, 21), (sec, 1, 22)] (new_mac_table 10)))"
proof -
  let ?xs = "[(0, 0, 20), (sec div 2, 1, 21), (sec, 1, 22)] :: (simtime \<times> int \<times> u64) list"
  have "at_least_every_second (lastPurge (new_mac_table 10)) (map fst ?xs)" "distinct (map (\<lambda>(t, p, a). a) ?xs)"
    "\<forall>(t, p, a)\<in>set ?xs. \<not> mac_isBroadcast a \<and> entry_of (new_mac_table 10) a = None"
    by (simp_all add: sec_def new_mac_table_def mac_isBroadcast_def MAC_ADDRESS_MASK_def entry_of_def getTableForVid_def)
  from busy_switch_never_purges[OF this] show ?thesis
    by auto
qed

end
