(* ===== verification/Stp.thy ===== *)
theory Stp
  imports Ether_Switch "HOL-Library.Product_Lexorder"
begin

text \<open>
  The spanning tree protocol: \<open>linklayer/ieee8021d/stp/STP.cc\<close> and \<open>STPBase.cc\<close>, with the data of a port of
  \<open>linklayer/configurator/Ieee8021dInterfaceData.h\<close>.  A port is its index in the list of ports; a pointer to the data of a port
  is that index.  What the module sends to the relay, and what it tells the MAC address table, is appended to \<open>stp_outs\<close>.
  The member \<open>helloTime\<close> is the parameter until the module has started, and the hello timer from then on.
\<close>

section \<open>State\<close>

datatype port_role = ALTERNATE | NOTASSIGNED | DISABLED | DESIGNATED | BACKUP | ROOT
datatype port_state = DISCARDING | LEARNING | FORWARDING

record port_info =
  pi_priority :: u32
  pi_linkCost :: u32
  pi_edge :: bool
  pi_state :: port_state
  pi_role :: port_role
  pi_rootPriority :: u32
  pi_rootAddress :: u64
  pi_rootPathCost :: u32
  pi_bridgePriority :: u32
  pi_bridgeAddress :: u64
  pi_portPriority :: u32
  pi_portNum :: u32
  pi_age :: simtime
  pi_maxAge :: simtime
  pi_fdWhile :: simtime
  pi_fwdDelay :: simtime
  pi_helloTime :: simtime
  pi_TCWhile :: simtime
  pi_lostBPDU :: u32
  pi_nextUpgrade :: simtime

definition pi_isLearning :: "port_info \<Rightarrow> bool" where
  "pi_isLearning p \<longleftrightarrow> pi_state p = LEARNING \<or> pi_state p = FORWARDING"

definition pi_isForwarding :: "port_info \<Rightarrow> bool" where
  "pi_isForwarding p \<longleftrightarrow> pi_state p = FORWARDING"

record bpdu =
  bp_protocolIdentifier :: u32
  bp_protocolVersionIdentifier :: u32
  bp_type :: u32
  bp_tca :: bool
  bp_tc :: bool
  bp_rootAddress :: u64
  bp_rootPriority :: u32
  bp_rootPathCost :: u32
  bp_bridgeAddress :: u64
  bp_bridgePriority :: u32
  bp_portNum :: u32
  bp_portPriority :: u32
  bp_messageAge :: simtime
  bp_maxAge :: simtime
  bp_helloTime :: simtime
  bp_forwardDelay :: simtime

definition blank_bpdu :: bpdu where
  "blank_bpdu = \<lparr>bp_protocolIdentifier = 0, bp_protocolVersionIdentifier = 0, bp_type = 0, bp_tca = False, bp_tc = False, bp_rootAddress = 0,
     bp_rootPriority = 0, bp_rootPathCost = 0, bp_bridgeAddress = 0, bp_bridgePriority = 0, bp_portNum = 0, bp_portPriority = 0,
     bp_messageAge = 0, bp_maxAge = 0, bp_helloTime = 0, bp_forwardDelay = 0\<rparr>"

text \<open>The control info of a packet to or from the relay: source, destination and port of the switch.\<close>

record relay_ctrl =
  rc_src :: u64
  rc_dest :: u64
  rc_switchPort :: nat

datatype stp_out =
    ToRelay bpdu relay_ctrl
  | SetAging simtime
  | ResetAging

record stp =
  st_bridgePriority :: u32
  st_bridgeAddress :: u64
  st_maxAge :: simtime
  st_forwardDelay :: simtime
  st_helloTime :: simtime
  st_isOperational :: bool
  st_ports :: "port_info list"
  isRoot :: bool
  rootPort :: nat
  desPorts :: "nat list"
  rootPathCost :: u32
  rootPriority :: u32
  rootAddress :: u64
  currentMaxAge :: simtime
  currentFwdDelay :: simtime
  currentHelloTime :: simtime
  currentBridgePriority :: u32
  topologyChangeNotification :: bool
  topologyChangeRecvd :: bool
  tickScheduled :: bool
  stp_outs :: "stp_out list"

definition stp_emit :: "stp_out \<Rightarrow> stp \<Rightarrow> stp" where
  "stp_emit x S = S\<lparr>stp_outs := stp_outs S @ [x]\<rparr>"

definition getPortInterfaceData :: "nat \<Rightarrow> stp \<Rightarrow> port_info res" where
  "getPortInterfaceData i S = (if i < length (st_ports S) then Inr (st_ports S ! i) else Inl (RuntimeError ''gate index out of range''))"

definition upd_port :: "nat \<Rightarrow> (port_info \<Rightarrow> port_info) \<Rightarrow> stp \<Rightarrow> stp" where
  "upd_port i f S = S\<lparr>st_ports := (st_ports S)[i := f (st_ports S ! i)]\<rparr>"

section \<open>Comparisons\<close>

definition compareBridgeIDs :: "u32 \<Rightarrow> u64 \<Rightarrow> u32 \<Rightarrow> u64 \<Rightarrow> int" where
  "compareBridgeIDs aPriority aAddress bPriority bAddress =
     (if aPriority < bPriority then 1
      else if bPriority < aPriority then -1
      else if mac_compareTo aAddress bAddress = -1 then 1
      else if mac_compareTo aAddress bAddress = 1 then -1
      else 0)"

definition comparePortIDs :: "u32 \<Rightarrow> u32 \<Rightarrow> u32 \<Rightarrow> u32 \<Rightarrow> int" where
  "comparePortIDs aPriority aNum bPriority bNum =
     (if aPriority < bPriority then 1
      else if bPriority < aPriority then -1
      else if aNum < bNum then 1
      else if bNum < aNum then -1
      else 0)"

definition comparePorts :: "port_info \<Rightarrow> port_info \<Rightarrow> int" where
  "comparePorts a b =
     (let r = compareBridgeIDs (pi_rootPriority a) (pi_rootAddress a) (pi_rootPriority b) (pi_rootAddress b)
      in if r \<noteq> 0 then r
         else if pi_rootPathCost a < pi_rootPathCost b then 1
         else if pi_rootPathCost b < pi_rootPathCost a then -1
         else
          let r2 = compareBridgeIDs (pi_bridgePriority a) (pi_bridgeAddress a) (pi_bridgePriority b) (pi_bridgeAddress b)
          in if r2 \<noteq> 0 then r2
             else comparePortIDs (pi_portPriority a) (pi_portNum a) (pi_portPriority b) (pi_portNum b))"

section \<open>Roles\<close>

definition initInterfacedata :: "u32 \<Rightarrow> u64 \<Rightarrow> port_info \<Rightarrow> port_info" where
  "initInterfacedata prio addr p = p\<lparr>pi_role := NOTASSIGNED, pi_state := DISCARDING, pi_rootPriority := prio, pi_rootAddress := addr,
     pi_rootPathCost := 0, pi_age := 0, pi_bridgePriority := prio, pi_bridgeAddress := addr, pi_portPriority := -1, pi_portNum := -1,
     pi_lostBPDU := 0\<rparr>"

definition initPortTable :: "stp \<Rightarrow> stp" where
  "initPortTable S = S\<lparr>st_ports := map (initInterfacedata (st_bridgePriority S) (st_bridgeAddress S)) (st_ports S)\<rparr>"

definition setAllDesignated :: "stp \<Rightarrow> stp" where
  "setAllDesignated S =
     S\<lparr>st_ports := map (\<lambda>p. if pi_role p = DISABLED then p else p\<lparr>pi_role := DESIGNATED\<rparr>) (st_ports S),
       desPorts := filter (\<lambda>i. pi_role (st_ports S ! i) \<noteq> DISABLED) [0..<length (st_ports S)]\<rparr>"

text \<open>The loop of \<open>selectRootPort\<close>: the best port so far, with its index.\<close>

fun best_port :: "(nat \<times> port_info) list \<Rightarrow> nat \<times> port_info \<Rightarrow> nat \<times> port_info" where
  "best_port [] best = best"
| "best_port ((i, p) # ps) best =
     (let result = comparePorts p (snd best)
      in if 0 < result then best_port ps (i, p)
         else if result < 0 then best_port ps best
         else if pi_priority p < pi_priority (snd best) then best_port ps (i, p)
         else best_port ps best)"

definition selectRootPort :: "stp \<Rightarrow> stp res" where
  "selectRootPort S =
     bindE (getPortInterfaceData 0 S) (\<lambda>p0.
       let (x, best) = best_port (List.enumerate 0 (st_ports S)) (0, p0)
       in Inr (S\<lparr>desPorts := [],
                 st_ports := (map (\<lambda>p. p\<lparr>pi_role := NOTASSIGNED\<rparr>) (st_ports S))[x := best\<lparr>pi_role := ROOT\<rparr>],
                 topologyChangeNotification := topologyChangeNotification S \<or> rootPort S \<noteq> x,
                 rootPort := x,
                 rootPathCost := pi_rootPathCost best, rootAddress := pi_rootAddress best, rootPriority := pi_rootPriority best,
                 currentMaxAge := pi_maxAge best, currentFwdDelay := pi_fwdDelay best, currentHelloTime := pi_helloTime best\<rparr>))"

text \<open>What the bridge would say of the root at a port: \<open>bridgeGlobal\<close> of the code.\<close>

definition bridgeGlobal :: "stp \<Rightarrow> nat \<Rightarrow> port_info \<Rightarrow> port_info" where
  "bridgeGlobal S i p = p\<lparr>pi_bridgePriority := st_bridgePriority S, pi_bridgeAddress := st_bridgeAddress S, pi_rootAddress := rootAddress S,
     pi_rootPriority := rootPriority S, pi_portPriority := pi_priority p, pi_portNum := word_of_nat i,
     pi_rootPathCost := rootPathCost S + pi_linkCost p\<rparr>"

definition designate :: "stp \<Rightarrow> nat \<Rightarrow> port_info \<Rightarrow> port_info" where
  "designate S i p =
     (if pi_role p = ROOT \<or> pi_role p = DISABLED then p
      else
       let result = comparePorts (bridgeGlobal S i p) p
       in if 0 < result then p\<lparr>pi_role := DESIGNATED\<rparr> else if result < 0 then p\<lparr>pi_role := ALTERNATE\<rparr> else p)"

definition elected :: "stp \<Rightarrow> nat \<Rightarrow> port_info \<Rightarrow> bool" where
  "elected S i p \<longleftrightarrow> pi_role p \<noteq> ROOT \<and> pi_role p \<noteq> DISABLED \<and> 0 < comparePorts (bridgeGlobal S i p) p"

definition selectDesignatedPorts :: "stp \<Rightarrow> stp" where
  "selectDesignatedPorts S =
     S\<lparr>st_ports := map (\<lambda>(i, p). designate S i p) (List.enumerate 0 (st_ports S)),
       desPorts := filter (\<lambda>i. elected S i (st_ports S ! i)) [0..<length (st_ports S)]\<rparr>"

definition checkRootEligibility :: "stp \<Rightarrow> bool" where
  "checkRootEligibility S \<longleftrightarrow>
     (\<forall>p\<in>set (st_ports S). \<not> 0 < compareBridgeIDs (pi_rootPriority p) (pi_rootAddress p) (st_bridgePriority S) (st_bridgeAddress S))"

definition becomeRoot :: "stp \<Rightarrow> stp" where
  "becomeRoot S = S\<lparr>rootPriority := st_bridgePriority S, rootAddress := st_bridgeAddress S, rootPathCost := 0,
     currentHelloTime := st_helloTime S, currentMaxAge := st_maxAge S, currentFwdDelay := st_forwardDelay S\<rparr>"

definition tryRoot :: "stp \<Rightarrow> stp res" where
  "tryRoot S =
     (if checkRootEligibility S then Inr (becomeRoot (setAllDesignated (S\<lparr>isRoot := True\<rparr>)))
      else mapE selectDesignatedPorts (selectRootPort (S\<lparr>isRoot := False\<rparr>)))"

definition lostRoot :: "stp \<Rightarrow> stp res" where
  "lostRoot S = tryRoot (S\<lparr>topologyChangeNotification := True\<rparr>)"

definition lostAlternate :: "stp \<Rightarrow> stp" where
  "lostAlternate S = (selectDesignatedPorts S)\<lparr>topologyChangeNotification := True\<rparr>"

definition stp_reset :: "stp \<Rightarrow> stp" where
  "stp_reset S = setAllDesignated (becomeRoot (S\<lparr>isRoot := True\<rparr>))"

section \<open>BPDUs\<close>

definition generateBPDU :: "nat \<Rightarrow> u64 \<Rightarrow> bool \<Rightarrow> bool \<Rightarrow> stp \<Rightarrow> stp res" where
  "generateBPDU port address tcFlag tcaFlag S =
     bindE (getPortInterfaceData port S) (\<lambda>p.
       let b = blank_bpdu\<lparr>bp_bridgeAddress := st_bridgeAddress S, bp_bridgePriority := st_bridgePriority S, bp_rootPathCost := rootPathCost S,
             bp_rootAddress := rootAddress S, bp_rootPriority := rootPriority S, bp_portNum := word_of_nat port,
             bp_portPriority := pi_priority p, bp_messageAge := 0, bp_maxAge := currentMaxAge S, bp_helloTime := currentHelloTime S,
             bp_forwardDelay := currentFwdDelay S\<rparr>;
           b' = (if topologyChangeNotification S
                 then if isRoot S \<or> tcFlag then b\<lparr>bp_tc := True, bp_tca := False\<rparr>
                      else if tcaFlag then b\<lparr>bp_tc := False, bp_tca := True\<rparr> else b
                 else b)
       in Inr (stp_emit (ToRelay b' \<lparr>rc_src = 0, rc_dest = address, rc_switchPort = port\<rparr>) S))"

fun generate_all :: "nat list \<Rightarrow> bool \<Rightarrow> stp \<Rightarrow> stp res" where
  "generate_all [] tc S = Inr S"
| "generate_all (i # is) tc S = bindE (generateBPDU i STP_MULTICAST_ADDRESS tc False S) (generate_all is tc)"

definition generateTCN :: "stp \<Rightarrow> stp res" where
  "generateTCN S =
     (if topologyChangeNotification S \<or> \<not> topologyChangeRecvd S
      then bindE (getPortInterfaceData (rootPort S) S) (\<lambda>p.
        if pi_role p = ROOT
        then Inr (stp_emit (ToRelay (blank_bpdu\<lparr>bp_type := 1\<rparr>) \<lparr>rc_src = 0, rc_dest = STP_MULTICAST_ADDRESS, rc_switchPort = rootPort S\<rparr>)
                    (S\<lparr>topologyChangeNotification := False\<rparr>))
        else Inr S)
      else Inr S)"

definition setSuperiorBPDU :: "bpdu \<Rightarrow> port_info \<Rightarrow> port_info" where
  "setSuperiorBPDU b p =
     (if bp_maxAge b \<le> bp_messageAge b then p
      else p\<lparr>pi_rootPriority := bp_rootPriority b, pi_rootAddress := bp_rootAddress b, pi_rootPathCost := bp_rootPathCost b + pi_linkCost p,
             pi_bridgePriority := bp_bridgePriority b, pi_bridgeAddress := bp_bridgeAddress b, pi_portPriority := bp_portPriority b,
             pi_portNum := bp_portNum b, pi_maxAge := bp_maxAge b, pi_fwdDelay := bp_forwardDelay b, pi_helloTime := bp_helloTime b,
             pi_age := 0\<rparr>)"

definition bpdu_vector :: "bpdu \<Rightarrow> port_info \<Rightarrow> port_info" where
  "bpdu_vector b p = p\<lparr>pi_rootPriority := bp_rootPriority b, pi_rootAddress := bp_rootAddress b,
     pi_rootPathCost := bp_rootPathCost b + pi_linkCost p, pi_bridgePriority := bp_bridgePriority b,
     pi_bridgeAddress := bp_bridgeAddress b, pi_portPriority := bp_portPriority b, pi_portNum := bp_portNum b\<rparr>"

definition isSuperiorBPDU :: "nat \<Rightarrow> bpdu \<Rightarrow> stp \<Rightarrow> (bool \<times> stp) res" where
  "isSuperiorBPDU i b S =
     bindE (getPortInterfaceData i S) (\<lambda>p.
       let result = comparePorts p (bpdu_vector b p)
       in if 0 < result then Inr (False, S)
          else if result < 0
          then Inr (True, upd_port i (\<lambda>p. setSuperiorBPDU b (p\<lparr>pi_fdWhile := 0, pi_state := DISCARDING\<rparr>)) S)
          else Inr (True, upd_port i (setSuperiorBPDU b) S))"

definition handleBPDU :: "bpdu \<Rightarrow> nat \<Rightarrow> stp \<Rightarrow> stp res" where
  "handleBPDU b arrivalGate S0 =
     bindE (getPortInterfaceData arrivalGate S0) (\<lambda>p.
       let S1 = (if bp_tca b then S0\<lparr>topologyChangeRecvd := True, topologyChangeNotification := False\<rparr> else S0)
       in bindE (isSuperiorBPDU arrivalGate b S1) (\<lambda>(superior, S2).
            bindE (if \<not> superior
                   then (if pi_role p = DESIGNATED then generateBPDU arrivalGate STP_MULTICAST_ADDRESS False False S2 else Inr S2)
                   else if pi_role p = ROOT
                   then (if bp_tc b then generate_all (desPorts S2) True (stp_emit (SetAging (currentFwdDelay S2)) S2)
                         else generate_all (desPorts S2) False (stp_emit ResetAging S2))
                   else Inr S2) tryRoot))"

definition handleTCN :: "bpdu \<Rightarrow> relay_ctrl \<Rightarrow> stp \<Rightarrow> stp res" where
  "handleTCN tcn c S =
     bindE (generateBPDU (rc_switchPort c) (rc_src c) False True (S\<lparr>topologyChangeNotification := True\<rparr>)) (\<lambda>S1.
       if \<not> isRoot S1 then Inr (stp_emit (ToRelay tcn (c\<lparr>rc_switchPort := rootPort S1\<rparr>)) S1) else Inr S1)"

section \<open>Timers\<close>

fun age_check :: "nat list \<Rightarrow> stp \<Rightarrow> stp res" where
  "age_check [] S = Inr S"
| "age_check (i # is) S =
     bindE (getPortInterfaceData i S) (\<lambda>p.
       if currentMaxAge S \<le> pi_age p
       then let S1 = upd_port i (initInterfacedata (st_bridgePriority S) (st_bridgeAddress S)) S
            in if pi_role p = ROOT then bindE (lostRoot S1) (age_check is) else age_check is (lostAlternate S1)
       else age_check is S)"

definition forward_check :: "simtime \<Rightarrow> port_info \<Rightarrow> port_info" where
  "forward_check fwd p =
     (if pi_role p = ROOT \<or> pi_role p = DESIGNATED
      then if fwd \<le> pi_fdWhile p
           then (case pi_state p of
                   DISCARDING \<Rightarrow> p\<lparr>pi_state := LEARNING, pi_fdWhile := 0\<rparr>
                 | LEARNING \<Rightarrow> p\<lparr>pi_state := FORWARDING, pi_fdWhile := 0\<rparr>
                 | FORWARDING \<Rightarrow> p\<lparr>pi_fdWhile := 0\<rparr>)
           else p
      else p\<lparr>pi_fdWhile := 0, pi_state := DISCARDING\<rparr>)"

definition generateHelloBDPUs :: "stp \<Rightarrow> stp res" where
  "generateHelloBDPUs S = generate_all [0..<length (st_ports S)] False S"

definition checkTimers :: "stp \<Rightarrow> stp res" where
  "checkTimers S =
     bindE (if currentHelloTime S \<le> st_helloTime S
            then mapE (\<lambda>S'. S'\<lparr>st_helloTime := 0\<rparr>) (if isRoot S then generateHelloBDPUs S else Inr S)
            else Inr S) (\<lambda>S1.
       mapE (\<lambda>S2. S2\<lparr>st_ports := map (forward_check (currentFwdDelay S2)) (st_ports S2)\<rparr>)
         (age_check [0..<length (st_ports S1)] S1))"

definition checkParametersChange :: "stp \<Rightarrow> stp" where
  "checkParametersChange S =
     (let S1 = (if isRoot S then S\<lparr>currentHelloTime := st_helloTime S, currentMaxAge := st_maxAge S, currentFwdDelay := st_forwardDelay S\<rparr>
                else S)
      in if currentBridgePriority S1 \<noteq> st_bridgePriority S1
         then stp_reset (S1\<lparr>currentBridgePriority := st_bridgePriority S1\<rparr>) else S1)"

definition tick_port :: "port_info \<Rightarrow> port_info" where
  "tick_port p =
     (if pi_role p = DISABLED then p
      else
       let p1 = (if pi_role p \<noteq> DESIGNATED then p\<lparr>pi_age := pi_age p + sec\<rparr> else p)
       in if pi_role p = ROOT \<or> pi_role p = DESIGNATED then p1\<lparr>pi_fdWhile := pi_fdWhile p + sec\<rparr> else p1)"

definition handleTick :: "stp \<Rightarrow> stp res" where
  "handleTick S =
     bindE (checkTimers (S\<lparr>st_helloTime := (if isRoot S then st_helloTime S + sec else 0), st_ports := map tick_port (st_ports S)\<rparr>))
       (\<lambda>S1. generateTCN (checkParametersChange S1))"

section \<open>Messages and the life cycle\<close>

text \<open>
  What arrives: a BPDU from the relay with its control info, another packet from it, or the timer; there is no other self message,
  so that the branch for an unknown one is never taken.
\<close>

datatype stp_message = FromRelay bpdu relay_ctrl | NoBPDU | StpTick

definition stp_handleMessage :: "stp_message \<Rightarrow> stp \<Rightarrow> stp res" where
  "stp_handleMessage msg S =
     (if \<not> st_isOperational S then Inr S
      else case msg of
        FromRelay b c \<Rightarrow>
          if bp_type b = 0 then handleBPDU b (rc_switchPort c) S
          else if bp_type b = 1 then handleTCN b c S
          else Inr S
      | NoBPDU \<Rightarrow> Inl (RuntimeError ''Non-BPDU packet received'')
      | StpTick \<Rightarrow> mapE (\<lambda>S'. S'\<lparr>tickScheduled := True\<rparr>) (handleTick (S\<lparr>tickScheduled := False\<rparr>)))"

definition stp_initialize :: "stp \<Rightarrow> stp" where
  "stp_initialize S =
     (setAllDesignated ((becomeRoot ((initPortTable S)\<lparr>isRoot := True, topologyChangeNotification := False, topologyChangeRecvd := True,
          rootPort := 0, currentBridgePriority := st_bridgePriority S\<rparr>))\<lparr>st_helloTime := 0\<rparr>))\<lparr>tickScheduled := True\<rparr>"

definition stp_start :: "u64 option \<Rightarrow> stp \<Rightarrow> stp res" where
  "stp_start mac S0 =
     (case mac of
        None \<Rightarrow> Inl (RuntimeError ''No non-loopback interface found!'')
      | Some a \<Rightarrow>
         let S = initPortTable (S0\<lparr>st_isOperational := True, st_bridgeAddress := a\<rparr>)
         in Inr ((setAllDesignated ((becomeRoot (S\<lparr>currentBridgePriority := st_bridgePriority S, isRoot := True, topologyChangeNotification := True,
              topologyChangeRecvd := True, rootPort := 0\<rparr>))\<lparr>st_helloTime := 0\<rparr>))\<lparr>tickScheduled := True\<rparr>))"

definition stp_stop :: "stp \<Rightarrow> stp" where
  "stp_stop S = S\<lparr>st_isOperational := False, isRoot := False, topologyChangeNotification := True, tickScheduled := False\<rparr>"

end
