(* ===== verification/Stp_Inv.thy ===== *)
theory Stp_Inv
  imports Stp
begin

text \<open>
  What the spanning tree protocol guarantees: the election, the two ends of a link, the roles in every reachable state, and the
  timers of a bridge that hears no other.
\<close>

section \<open>The comparison is an order\<close>

text \<open>The vector of a port: root identifier, cost, designated bridge and designated port, in the order of \<open>Product_Lexorder\<close>.\<close>

type_synonym priority_vector = "(u32 \<times> u64) \<times> u32 \<times> (u32 \<times> u64) \<times> u32 \<times> u32"

definition root_id :: "port_info \<Rightarrow> u32 \<times> u64" where
  "root_id p = (pi_rootPriority p, pi_rootAddress p)"

definition vec :: "port_info \<Rightarrow> priority_vector" where
  "vec p = (root_id p, pi_rootPathCost p, (pi_bridgePriority p, pi_bridgeAddress p), pi_portPriority p, pi_portNum p)"

lemma compareBridgeIDs_pos: "0 < compareBridgeIDs p a q b \<longleftrightarrow> (p, a) < (q, b)"
  by (auto simp: compareBridgeIDs_def mac_compareTo_def)

text \<open>The pairwise comparison of ports with its early returns is the lexicographic order of their vectors; the lower vector is
  the better one.\<close>

lemma comparePorts_vec:
  "comparePorts a b = (if vec a < vec b then 1 else if vec a = vec b then 0 else -1)"
  by (auto simp: comparePorts_def compareBridgeIDs_def comparePortIDs_def mac_compareTo_def vec_def root_id_def)

lemma comparePorts_pos [simp]:
  "0 < comparePorts a b \<longleftrightarrow> vec a < vec b" "comparePorts a b < 0 \<longleftrightarrow> vec b < vec a"
  using less_linear[of "vec a" "vec b"] by (auto simp: comparePorts_vec)

text \<open>The best port is the least one, and among equals the one with the least priority, then the first.\<close>

definition port_key :: "port_info \<Rightarrow> priority_vector \<times> u32" where
  "port_key p = (vec p, pi_priority p)"

lemma best_port_least:
  assumes "best_port ps b = (x, q)"
  shows "port_key q \<le> port_key (snd b) \<and> (\<forall>(i, p)\<in>set ps. port_key q \<le> port_key p) \<and> ((x, q) = b \<or> (x, q) \<in> set ps)"
  using assms
proof (induction ps b rule: best_port.induct)
  case (1 b)
  then show ?case by simp
next
  case (2 i p ps b)
  let ?c = "if port_key p < port_key (snd b) then (i, p) else b"
  have step: "best_port ((i, p) # ps) b = best_port ps ?c"
    using less_linear[of "vec p" "vec (snd b)"] by (auto simp: port_key_def Let_def)
  then have "best_port ps ?c = (x, q)"
    using 2(5) by simp
  moreover have "port_key q \<le> port_key (snd c) \<and> (\<forall>(i, p)\<in>set ps. port_key q \<le> port_key p) \<and> ((x, q) = c \<or> (x, q) \<in> set ps)"
    if "best_port ps c = (x, q)" "c = ?c" for c
    using that 2 less_linear[of "vec p" "vec (snd b)"] by (auto simp: port_key_def Let_def split: if_splits)
  ultimately show ?case
    by (auto split: if_splits)
qed

section \<open>The election\<close>

definition own_id :: "stp \<Rightarrow> u32 \<times> u64" where
  "own_id S = (st_bridgePriority S, st_bridgeAddress S)"

lemma checkRootEligibility_iff: "checkRootEligibility S \<longleftrightarrow> (\<forall>p\<in>set (st_ports S). own_id S \<le> root_id p)"
  by (auto simp: checkRootEligibility_def compareBridgeIDs_pos own_id_def root_id_def not_less)

text \<open>What the ports of the root and of any other bridge look like after an election.\<close>

definition root_bridge :: "stp \<Rightarrow> bool" where
  "root_bridge S \<longleftrightarrow> isRoot S \<and> (\<forall>p\<in>set (st_ports S). pi_role p \<noteq> ROOT)"

definition other_bridge :: "stp \<Rightarrow> bool" where
  "other_bridge S \<longleftrightarrow> \<not> isRoot S \<and> rootPort S < length (st_ports S)
     \<and> (\<forall>i<length (st_ports S). pi_role (st_ports S ! i) = ROOT \<longleftrightarrow> i = rootPort S)"

text \<open>
  The list of designated ports holds exactly the ports with that role, each once.  The one exception is a port on which the bridge
  has stored its own BPDU of that very port: there the vectors are equal, so that the election leaves the role as it was, but does
  not list the port.
\<close>

definition heard_itself :: "stp \<Rightarrow> nat \<Rightarrow> bool" where
  "heard_itself S i \<longleftrightarrow> pi_bridgeAddress (st_ports S ! i) = st_bridgeAddress S \<and> pi_portNum (st_ports S ! i) = word_of_nat i"

definition des_ok :: "stp \<Rightarrow> bool" where
  "des_ok S \<longleftrightarrow> distinct (desPorts S) \<and> (\<forall>i\<in>set (desPorts S). i < length (st_ports S) \<and> pi_role (st_ports S ! i) = DESIGNATED)
     \<and> (\<forall>i<length (st_ports S). pi_role (st_ports S ! i) = DESIGNATED \<longrightarrow> i \<in> set (desPorts S) \<or> heard_itself S i)"

lemma length_setAllDesignated [simp]: "length (st_ports (setAllDesignated S)) = length (st_ports S)"
  by (simp add: setAllDesignated_def)

lemma length_selectDesignatedPorts [simp]: "length (st_ports (selectDesignatedPorts S)) = length (st_ports S)"
  by (simp add: selectDesignatedPorts_def)

lemma nth_selectDesignatedPorts [simp]:
  "i < length (st_ports S) \<Longrightarrow> st_ports (selectDesignatedPorts S) ! i = designate S i (st_ports S ! i)"
  by (simp add: selectDesignatedPorts_def nth_enumerate_eq)

lemma selectDesignatedPorts_frame [simp]:
  "isRoot (selectDesignatedPorts S) = isRoot S" "rootPort (selectDesignatedPorts S) = rootPort S"
  "st_bridgePriority (selectDesignatedPorts S) = st_bridgePriority S" "st_bridgeAddress (selectDesignatedPorts S) = st_bridgeAddress S"
  "currentBridgePriority (selectDesignatedPorts S) = currentBridgePriority S"
  "st_isOperational (selectDesignatedPorts S) = st_isOperational S"
  by (simp_all add: selectDesignatedPorts_def)

lemma designate_role: "pi_role (designate S i p) = ROOT \<longleftrightarrow> pi_role p = ROOT"
  by (auto simp: designate_def Let_def)

lemma selectDesignatedPorts_ok:
  "des_ok (selectDesignatedPorts S)" "root_bridge S \<Longrightarrow> root_bridge (selectDesignatedPorts S)"
  "other_bridge S \<Longrightarrow> other_bridge (selectDesignatedPorts S)"
proof -
  have "pi_bridgeAddress p = st_bridgeAddress S \<and> pi_portNum p = word_of_nat i" if "vec (bridgeGlobal S i p) = vec p" for i p
    using that by (simp add: vec_def bridgeGlobal_def)
  then have "elected S i p \<or> pi_bridgeAddress p = st_bridgeAddress S \<and> pi_portNum p = word_of_nat i"
    if "pi_role (designate S i p) = DESIGNATED" for i p
    using that less_linear[of "vec (bridgeGlobal S i p)" "vec p"]
    by (auto simp: designate_def elected_def Let_def split: if_splits)
  moreover have "pi_bridgeAddress (designate S i p) = pi_bridgeAddress p" "pi_portNum (designate S i p) = pi_portNum p" for i p
    by (simp_all add: designate_def Let_def)
  moreover have "pi_role (designate S i p) = DESIGNATED" if "elected S i p" for i p
    using that by (auto simp: designate_def elected_def)
  ultimately show "des_ok (selectDesignatedPorts S)"
    by (fastforce simp: des_ok_def heard_itself_def selectDesignatedPorts_def nth_enumerate_eq)
  show "root_bridge S \<Longrightarrow> root_bridge (selectDesignatedPorts S)"
    by (auto simp: root_bridge_def all_set_conv_all_nth designate_role)
  show "other_bridge S \<Longrightarrow> other_bridge (selectDesignatedPorts S)"
    by (auto simp: other_bridge_def designate_role)
qed

lemma setAllDesignated_ok: "isRoot S \<Longrightarrow> root_bridge (setAllDesignated S) \<and> des_ok (setAllDesignated S)"
  by (auto simp: setAllDesignated_def root_bridge_def des_ok_def split: if_splits)

lemma becomeRoot_frame [simp]:
  "st_ports (becomeRoot S) = st_ports S" "isRoot (becomeRoot S) = isRoot S" "desPorts (becomeRoot S) = desPorts S"
  "root_bridge (becomeRoot S) = root_bridge S" "des_ok (becomeRoot S) = des_ok S"
  "st_isOperational (becomeRoot S) = st_isOperational S"
  by (simp_all add: becomeRoot_def root_bridge_def des_ok_def heard_itself_def)

lemma selectRootPort_frame:
  assumes "selectRootPort S = Inr S'"
  shows "st_bridgePriority S' = st_bridgePriority S \<and> st_bridgeAddress S' = st_bridgeAddress S \<and> isRoot S' = isRoot S
    \<and> length (st_ports S') = length (st_ports S) \<and> st_isOperational S' = st_isOperational S
    \<and> currentBridgePriority S' = currentBridgePriority S"
  using assms by (auto simp: selectRootPort_def bindE_eq_Inr Let_def prod.case_eq_if)

lemma in_enumerate: "(i, p) \<in> set (List.enumerate 0 xs) \<longleftrightarrow> i < length xs \<and> p = xs ! i"
  by (auto simp: in_set_enumerate_eq)

lemma selectRootPort_exact:
  assumes "st_ports S \<noteq> []"
  shows "\<exists>S'. selectRootPort S = Inr S' \<and> rootPort S' < length (st_ports S)
    \<and> (\<forall>p\<in>set (st_ports S). port_key (st_ports S ! rootPort S') \<le> port_key p)
    \<and> st_ports S' = (map (\<lambda>p. p\<lparr>pi_role := NOTASSIGNED\<rparr>) (st_ports S))[rootPort S' := (st_ports S ! rootPort S')\<lparr>pi_role := ROOT\<rparr>]
    \<and> rootPathCost S' = pi_rootPathCost (st_ports S ! rootPort S') \<and> (rootPriority S', rootAddress S') = root_id (st_ports S ! rootPort S')"
proof -
  obtain x q where b: "best_port (List.enumerate 0 (st_ports S)) (0, st_ports S ! 0) = (x, q)"
    by fastforce
  from best_port_least[OF b] assms have xq: "x < length (st_ports S)" "q = st_ports S ! x"
    by (auto simp: in_enumerate)
  have least: "\<forall>p\<in>set (st_ports S). port_key q \<le> port_key p"
    using best_port_least[OF b] by (auto simp: in_enumerate all_set_conv_all_nth nth_enumerate_eq)
  show ?thesis
    using assms xq least b by (simp add: selectRootPort_def getPortInterfaceData_def root_id_def)
qed

lemma tryRoot_cases:
  obtains (root) S' where "tryRoot S = Inr S'" "checkRootEligibility S" "S' = becomeRoot (setAllDesignated (S\<lparr>isRoot := True\<rparr>))"
  | (other) S1 where "tryRoot S = Inr (selectDesignatedPorts S1)" "\<not> checkRootEligibility S" "st_ports S \<noteq> []"
      "selectRootPort (S\<lparr>isRoot := False\<rparr>) = Inr S1" "other_bridge S1"
proof (cases "checkRootEligibility S")
  case True
  then show ?thesis
    using root by (simp add: tryRoot_def)
next
  case False
  then have ne: "st_ports (S\<lparr>isRoot := False\<rparr>) \<noteq> []"
    by (auto simp: checkRootEligibility_def)
  from selectRootPort_exact[OF ne] obtain S1 where S1: "selectRootPort (S\<lparr>isRoot := False\<rparr>) = Inr S1"
    "rootPort S1 < length (st_ports S)"
    "st_ports S1 = (map (\<lambda>p. p\<lparr>pi_role := NOTASSIGNED\<rparr>) (st_ports S))[rootPort S1 := (st_ports S ! rootPort S1)\<lparr>pi_role := ROOT\<rparr>]"
    by auto
  then have "other_bridge S1"
    using selectRootPort_frame[OF S1(1)] by (auto simp: other_bridge_def nth_list_update)
  then show ?thesis
    using other[of S1] False ne S1(1) by (simp add: tryRoot_def)
qed

lemma election_exact:
  "\<exists>S'. tryRoot S = Inr S' \<and>
    (if \<forall>p\<in>set (st_ports S). own_id S \<le> root_id p
     then isRoot S' \<and> (rootPriority S', rootAddress S') = own_id S \<and> rootPathCost S' = 0
        \<and> map pi_role (st_ports S') = map (\<lambda>p. if pi_role p = DISABLED then DISABLED else DESIGNATED) (st_ports S)
     else \<not> isRoot S' \<and> (\<exists>x<length (st_ports S). rootPort S' = x
        \<and> (\<forall>p\<in>set (st_ports S). port_key (st_ports S ! x) \<le> port_key p)
        \<and> (rootPriority S', rootAddress S') = root_id (st_ports S ! x) \<and> rootPathCost S' = pi_rootPathCost (st_ports S ! x)
        \<and> (\<forall>i<length (st_ports S). pi_role (st_ports S' ! i) =
             (if i = x then ROOT
              else if vec (bridgeGlobal S' i (st_ports S ! i)) < vec (st_ports S ! i) then DESIGNATED
              else if vec (st_ports S ! i) < vec (bridgeGlobal S' i (st_ports S ! i)) then ALTERNATE
              else NOTASSIGNED))
        \<and> desPorts S' = filter (\<lambda>i. pi_role (st_ports S' ! i) = DESIGNATED) [0..<length (st_ports S)]))"
proof (cases S rule: tryRoot_cases)
  case (root S')
  then show ?thesis
    by (auto simp: checkRootEligibility_iff becomeRoot_def setAllDesignated_def own_id_def)
next
  case (other S1)
  have ne: "st_ports (S\<lparr>isRoot := False\<rparr>) \<noteq> []"
    using other(3) by simp
  from selectRootPort_exact[OF ne] other(4) obtain x where S1: "rootPort S1 = x" "x < length (st_ports S)"
    "\<forall>p\<in>set (st_ports S). port_key (st_ports S ! x) \<le> port_key p"
    "st_ports S1 = (map (\<lambda>p. p\<lparr>pi_role := NOTASSIGNED\<rparr>) (st_ports S))[x := (st_ports S ! x)\<lparr>pi_role := ROOT\<rparr>]"
    "rootPathCost S1 = pi_rootPathCost (st_ports S ! x)" "(rootPriority S1, rootAddress S1) = root_id (st_ports S ! x)"
    by auto
  let ?S' = "selectDesignatedPorts S1"
  have vec_role: "vec (p\<lparr>pi_role := r\<rparr>) = vec p" for p r
    by (simp add: vec_def root_id_def)
  have glob: "vec (bridgeGlobal ?S' i p) = vec (bridgeGlobal S1 i p)" "vec (bridgeGlobal T i (p\<lparr>pi_role := r\<rparr>)) = vec (bridgeGlobal T i p)" for T i p r
    by (simp_all add: bridgeGlobal_def vec_def root_id_def selectDesignatedPorts_def)
  have role: "pi_role (st_ports ?S' ! i) =
             (if i = x then ROOT
              else if vec (bridgeGlobal ?S' i (st_ports S ! i)) < vec (st_ports S ! i) then DESIGNATED
              else if vec (st_ports S ! i) < vec (bridgeGlobal ?S' i (st_ports S ! i)) then ALTERNATE
              else NOTASSIGNED)" if "i < length (st_ports S)" for i
    using that S1(2) by (auto simp: S1(4) designate_def nth_list_update vec_role glob)
  have "desPorts ?S' = filter (\<lambda>i. elected S1 i (st_ports S1 ! i)) [0..<length (st_ports S)]"
    by (simp add: selectDesignatedPorts_def S1(4))
  also have "\<dots> = filter (\<lambda>i. pi_role (st_ports ?S' ! i) = DESIGNATED) [0..<length (st_ports S)]"
    using S1(2) by (intro filter_cong) (auto simp: elected_def designate_def S1(4) nth_list_update vec_role glob)
  finally have des: "desPorts ?S' = filter (\<lambda>i. pi_role (st_ports ?S' ! i) = DESIGNATED) [0..<length (st_ports S)]" .
  have "\<not> (\<forall>p\<in>set (st_ports S). own_id S \<le> root_id p)" "\<not> isRoot S1" "(rootPriority ?S', rootAddress ?S') = (rootPriority S1, rootAddress S1)"
    "rootPathCost ?S' = rootPathCost S1"
    using other(2,5) by (auto simp: checkRootEligibility_iff other_bridge_def selectDesignatedPorts_def)
  then show ?thesis
    using other(1) S1 role des by (intro exI[of _ ?S']) auto
qed

text \<open>
  C27. The election.  A bridge that knows no better root than itself becomes the root, with all its ports designated, but for the
  disabled ones.  Any other bridge takes as its only root port the one with the least vector of root, cost, designated bridge and
  designated port, and of the equal ones one with the least port priority; it makes a port designated exactly when the vector it
  would send there is better than what it heard there, and lists exactly these ports.  The election never fails.
\<close>

theorem election_outcome:
  "\<exists>S'. tryRoot S = Inr S' \<and>
    (if \<forall>p\<in>set (st_ports S). own_id S \<le> root_id p
     then isRoot S' \<and> (rootPriority S', rootAddress S') = own_id S \<and> rootPathCost S' = 0
        \<and> map pi_role (st_ports S') = map (\<lambda>p. if pi_role p = DISABLED then DISABLED else DESIGNATED) (st_ports S)
     else \<not> isRoot S' \<and> (\<exists>x<length (st_ports S). rootPort S' = x
        \<and> (\<forall>p\<in>set (st_ports S). port_key (st_ports S ! x) \<le> port_key p)
        \<and> (rootPriority S', rootAddress S') = root_id (st_ports S ! x) \<and> rootPathCost S' = pi_rootPathCost (st_ports S ! x)
        \<and> (\<forall>i<length (st_ports S). pi_role (st_ports S' ! i) =
             (if i = x then ROOT
              else if vec (bridgeGlobal S' i (st_ports S ! i)) < vec (st_ports S ! i) then DESIGNATED
              else if vec (st_ports S ! i) < vec (bridgeGlobal S' i (st_ports S ! i)) then ALTERNATE
              else NOTASSIGNED))
        \<and> desPorts S' = filter (\<lambda>i. pi_role (st_ports S' ! i) = DESIGNATED) [0..<length (st_ports S)]))"
  by (rule election_exact)

section \<open>The two ends of a link\<close>

definition sent_bpdu :: "nat \<Rightarrow> stp \<Rightarrow> bpdu" where
  "sent_bpdu i S = blank_bpdu\<lparr>bp_bridgeAddress := st_bridgeAddress S, bp_bridgePriority := st_bridgePriority S, bp_rootPathCost := rootPathCost S,
     bp_rootAddress := rootAddress S, bp_rootPriority := rootPriority S, bp_portNum := word_of_nat i,
     bp_portPriority := pi_priority (st_ports S ! i), bp_messageAge := 0, bp_maxAge := currentMaxAge S, bp_helloTime := currentHelloTime S,
     bp_forwardDelay := currentFwdDelay S\<rparr>"

lemma generateBPDU_sends:
  assumes "i < length (st_ports S)" "\<not> topologyChangeNotification S"
  shows "generateBPDU i a tc tca S = Inr (stp_emit (ToRelay (sent_bpdu i S) \<lparr>rc_src = 0, rc_dest = a, rc_switchPort = i\<rparr>) S)"
  using assms by (simp add: generateBPDU_def getPortInterfaceData_def sent_bpdu_def)

lemma plus_less_word: "unat a + unat c < 2 ^ 32 \<Longrightarrow> unat b + unat c < 2 ^ 32 \<Longrightarrow> a + c < b + c \<longleftrightarrow> a < (b :: u32)"
  by (simp add: word_less_nat_alt unat_plus_small)

lemma tryRoot_frame:
  assumes "tryRoot S = Inr S'"
  shows "own_id S' = own_id S" "map pi_priority (st_ports S') = map pi_priority (st_ports S)"
proof -
  show "own_id S' = own_id S"
  proof (cases S rule: tryRoot_cases)
    case (root T)
    then show ?thesis using assms by (simp add: own_id_def becomeRoot_def setAllDesignated_def)
  next
    case (other S1)
    then show ?thesis using assms selectRootPort_frame[OF other(4)] by (simp add: own_id_def)
  qed
  have des: "pi_priority (designate T i p) = pi_priority p" for T i p
    by (simp add: designate_def Let_def)
  show "map pi_priority (st_ports S') = map pi_priority (st_ports S)"
  proof (cases S rule: tryRoot_cases)
    case (root T)
    then show ?thesis using assms by (simp add: becomeRoot_def setAllDesignated_def)
  next
    case (other S1)
    have "st_ports (S\<lparr>isRoot := False\<rparr>) \<noteq> []" using other(3) by simp
    from selectRootPort_exact[OF this] other(4) obtain x where "x < length (st_ports S)"
      "st_ports S1 = (map (\<lambda>p. p\<lparr>pi_role := NOTASSIGNED\<rparr>) (st_ports S))[x := (st_ports S ! x)\<lparr>pi_role := ROOT\<rparr>]"
      by auto
    then show ?thesis using assms other(1)
      by (auto simp: des nth_list_update intro!: nth_equalityI)
  qed
qed

text \<open>What an end of a link knows after its election: its own vector on the link, and the role that the vector of the other end gives it.\<close>

definition own_vec :: "stp \<Rightarrow> nat \<Rightarrow> priority_vector" where
  "own_vec S i = ((rootPriority S, rootAddress S), rootPathCost S, own_id S, pi_priority (st_ports S ! i), word_of_nat i)"

lemma end_of_link:
  fixes A A0 B :: stp and i j :: nat and q :: port_info
  defines "p \<equiv> setSuperiorBPDU (sent_bpdu j B) q"
  assumes el: "tryRoot A0 = Inr A" and i: "i < length (st_ports A0)" "st_ports A0 ! i = p" "pi_role p \<noteq> DISABLED"
    and age: "0 < currentMaxAge B" and cost: "0 < pi_linkCost p"
    and wrap: "unat (rootPathCost A) + unat (pi_linkCost p) < 2 ^ 32" "unat (rootPathCost B) + unat (pi_linkCost p) < 2 ^ 32"
    and diff: "own_vec A i \<noteq> own_vec B j"
  obtains (root) "own_id A \<le> (rootPriority B, rootAddress B)" "(rootPriority A, rootAddress A) = own_id A" "rootPathCost A = 0"
      "pi_role (st_ports A ! i) = DESIGNATED"
  | (rootPort) "pi_role (st_ports A ! i) = ROOT" "own_vec B j < own_vec A i" "(rootPriority A, rootAddress A) < own_id A"
      "(rootPriority A, rootAddress A) = (rootPriority B, rootAddress B)"
  | (port) "(rootPriority A, rootAddress A) \<le> (rootPriority B, rootAddress B)" "(rootPriority A, rootAddress A) < own_id A"
      "pi_role (st_ports A ! i) = (if own_vec A i < own_vec B j then DESIGNATED else ALTERNATE)"
proof -
  have p: "root_id p = (rootPriority B, rootAddress B)" "pi_rootPathCost p = rootPathCost B + pi_linkCost p"
    "vec p = ((rootPriority B, rootAddress B), rootPathCost B + pi_linkCost p, own_id B, pi_priority (st_ports B ! j), word_of_nat j)"
    using age by (simp_all add: p_def setSuperiorBPDU_def sent_bpdu_def blank_bpdu_def root_id_def vec_def own_id_def not_le)
  have pin: "p \<in> set (st_ports A0)" using i(1,2) by (metis nth_mem)
  have own: "own_id A0 = own_id A" and prio: "pi_priority (st_ports A ! i) = pi_priority p"
    using tryRoot_frame[OF el] i by (metis, metis length_map nth_map)
  show thesis
  proof (cases "\<forall>p\<in>set (st_ports A0). own_id A0 \<le> root_id p")
    case True
    note el' = election_exact[of A0, unfolded el if_P[OF True] sum.inject]
    obtain S' where S': "A = S' \<and> isRoot S' \<and> (rootPriority S', rootAddress S') = own_id A0 \<and> rootPathCost S' = 0
        \<and> map pi_role (st_ports S') = map (\<lambda>p. if pi_role p = DISABLED then DISABLED else DESIGNATED) (st_ports A0)"
      using el' by (rule exE)
    note r = S'[THEN conjunct2, THEN conjunct2, folded conjunct1[OF S']]
    have m: "map pi_role (st_ports A) = map (\<lambda>p. if pi_role p = DISABLED then DISABLED else DESIGNATED) (st_ports A0)"
      using r by (elim conjE)
    have "pi_role (st_ports A ! i) = DESIGNATED"
      using arg_cong[OF m, of length] arg_cong[OF m, of "\<lambda>rs. rs ! i"] i by simp
    then show thesis using True r pin p(1) own root by auto
  next
    case False
    note el' = election_exact[of A0, unfolded el if_not_P[OF False] sum.inject]
    then obtain S' x where eq: "A = S'" and n: "x < length (st_ports A0)" "\<forall>p\<in>set (st_ports A0). port_key (st_ports A0 ! x) \<le> port_key p"
        "(rootPriority S', rootAddress S') = root_id (st_ports A0 ! x)" "rootPathCost S' = pi_rootPathCost (st_ports A0 ! x)"
      and roles: "\<forall>i<length (st_ports A0). pi_role (st_ports S' ! i) = (if i = x then ROOT
              else if vec (bridgeGlobal S' i (st_ports A0 ! i)) < vec (st_ports A0 ! i) then DESIGNATED
              else if vec (st_ports A0 ! i) < vec (bridgeGlobal S' i (st_ports A0 ! i)) then ALTERNATE else NOTASSIGNED)"
      by (elim exE conjE) blast
    note n = n[folded eq] and role = roles[folded eq, rule_format, OF i(1), unfolded i(2)]
    have least: "root_id (st_ports A0 ! x) \<le> root_id p'" if "p' \<in> set (st_ports A0)" for p'
      using n(2) that by (force simp: port_key_def vec_def)
    obtain p' where p': "p' \<in> set (st_ports A0)" "root_id p' < own_id A0"
      using False by (auto simp: not_le)
    have lt: "(rootPriority A, rootAddress A) < own_id A"
      using le_less_trans[OF least[OF p'(1)] p'(2)] unfolding n(3) own .
    have le: "(rootPriority A, rootAddress A) \<le> (rootPriority B, rootAddress B)"
      using least[OF pin] n(3) p(1) by simp
    show thesis
    proof (cases "i = x")
      case True
      then have same: "(rootPriority A, rootAddress A) = (rootPriority B, rootAddress B)" and c: "rootPathCost A = rootPathCost B + pi_linkCost p"
        using n(3,4) i(2) p by auto
      have "rootPathCost B < rootPathCost A"
        using c cost wrap(2) by (simp add: word_less_nat_alt unat_plus_small)
      then have "own_vec B j < own_vec A i"
        using same by (simp add: own_vec_def)
      then show thesis using rootPort role True lt same by simp
    next
      case False
      have less: "rootPathCost A + pi_linkCost p < rootPathCost B + pi_linkCost p \<longleftrightarrow> rootPathCost A < rootPathCost B"
        "rootPathCost B + pi_linkCost p < rootPathCost A + pi_linkCost p \<longleftrightarrow> rootPathCost B < rootPathCost A"
        using wrap plus_less_word by blast+
      have V: "vec (bridgeGlobal A i p) = ((rootPriority A, rootAddress A), rootPathCost A + pi_linkCost p, own_id A,
          pi_priority (st_ports A ! i), word_of_nat i)"
        by (simp add: vec_def root_id_def bridgeGlobal_def own_id_def prio)
      have v: "vec (bridgeGlobal A i p) < vec p \<longleftrightarrow> own_vec A i < own_vec B j" "vec p < vec (bridgeGlobal A i p) \<longleftrightarrow> own_vec B j < own_vec A i"
        unfolding V p(3) own_vec_def by (simp_all add: less le_less)
      have "pi_role (st_ports A ! i) = (if own_vec A i < own_vec B j then DESIGNATED else ALTERNATE)"
        using role False diff less_linear[of "own_vec A i" "own_vec B j"] by (auto simp: v)
      then show thesis by (rule port[OF le lt])
    qed
  qed
qed

text \<open>
  C28. A link between two bridges has exactly one designated end.  Bridges A and B are joined by a link between port i of A and
  port j of B, both enabled.  The elections have settled: each bridge has stored the BPDU that the other one sends there, and its
  election, from \<open>A0\<close> to \<open>A\<close> and from \<open>B0\<close> to \<open>B\<close>, has used it.  Then exactly one of the two ports
  is designated, and the other one is a root port or an alternate, which blocks.  Assumed: the bridges have different
  identifiers, the ends of the link have a cost, which need not be the same at both ends, the path costs do not wrap, and the
  maximal age is positive, without which no BPDU is stored.
\<close>

theorem link_has_one_designated_port:
  fixes A A0 B B0 :: stp and i j :: nat and qa qb :: port_info
  defines "pa \<equiv> setSuperiorBPDU (sent_bpdu j B) qa" and "pb \<equiv> setSuperiorBPDU (sent_bpdu i A) qb"
  assumes "tryRoot A0 = Inr A" "i < length (st_ports A0)" "st_ports A0 ! i = pa"
    and "tryRoot B0 = Inr B" "j < length (st_ports B0)" "st_ports B0 ! j = pb"
    and "pi_role pa \<noteq> DISABLED" "pi_role pb \<noteq> DISABLED"
    and "0 < currentMaxAge A" "0 < currentMaxAge B" "own_id A \<noteq> own_id B"
    and "\<forall>c\<in>{pi_linkCost pa, pi_linkCost pb}. 0 < c \<and> unat (rootPathCost A) + unat c < 2 ^ 32 \<and> unat (rootPathCost B) + unat c < 2 ^ 32"
  shows "(pi_role (st_ports A ! i) = DESIGNATED \<and> pi_role (st_ports B ! j) \<in> {ROOT, ALTERNATE})
    \<or> (pi_role (st_ports A ! i) \<in> {ROOT, ALTERNATE} \<and> pi_role (st_ports B ! j) = DESIGNATED)"
proof -
  have d: "own_vec A i \<noteq> own_vec B j" "own_vec B j \<noteq> own_vec A i"
    using assms(13) by (auto simp: own_vec_def)
  have c: "0 < pi_linkCost pa" "unat (rootPathCost A) + unat (pi_linkCost pa) < 2 ^ 32" "unat (rootPathCost B) + unat (pi_linkCost pa) < 2 ^ 32"
    and e: "0 < pi_linkCost pb" "unat (rootPathCost B) + unat (pi_linkCost pb) < 2 ^ 32" "unat (rootPathCost A) + unat (pi_linkCost pb) < 2 ^ 32"
    using assms(14) by simp_all
  note a = end_of_link[OF assms(3,4) assms(5,9)[unfolded pa_def] assms(12) c[unfolded pa_def] d(1)]
  note b = end_of_link[OF assms(6,7) assms(8,10)[unfolded pb_def] assms(11) e[unfolded pb_def] d(2)]
  show ?thesis
  proof (rule a)
    assume A: "own_id A \<le> (rootPriority B, rootAddress B)" "(rootPriority A, rootAddress A) = own_id A" "rootPathCost A = 0"
      "pi_role (st_ports A ! i) = DESIGNATED"
    show ?thesis
    proof (rule b)
      assume "own_id B \<le> (rootPriority A, rootAddress A)" "(rootPriority B, rootAddress B) = own_id B"
      then show ?thesis using A assms(13) by auto
    next
      assume B: "(rootPriority B, rootAddress B) \<le> (rootPriority A, rootAddress A)" "(rootPriority B, rootAddress B) < own_id B"
        "pi_role (st_ports B ! j) = (if own_vec B j < own_vec A i then DESIGNATED else ALTERNATE)"
      have same: "(rootPriority B, rootAddress B) = own_id A"
        using A B by (metis antisym)
      then have "own_id A < own_id B" using B(2) by metis
      moreover have "rootPathCost A < rootPathCost B \<or> rootPathCost A = rootPathCost B"
        using A(3) by (auto simp: word_gt_0)
      ultimately have "own_vec A i < own_vec B j"
        using A(2) same by (auto simp: own_vec_def)
      then show ?thesis using A(4) B(3) by (simp add: less_not_sym)
    next
      assume "own_vec A i < own_vec B j" "pi_role (st_ports B ! j) = ROOT"
      then show ?thesis using A(4) by simp
    qed
  next
    assume A: "pi_role (st_ports A ! i) = ROOT" "own_vec B j < own_vec A i" "(rootPriority A, rootAddress A) < own_id A"
      "(rootPriority A, rootAddress A) = (rootPriority B, rootAddress B)"
    show ?thesis
    proof (rule b)
      assume "own_id B \<le> (rootPriority A, rootAddress A)" "pi_role (st_ports B ! j) = DESIGNATED"
      then show ?thesis using A(1) by simp
    next
      assume "own_vec A i < own_vec B j"
      then show ?thesis using A(2) by (simp add: less_not_sym)
    next
      assume "pi_role (st_ports B ! j) = (if own_vec B j < own_vec A i then DESIGNATED else ALTERNATE)"
      then show ?thesis using A(1,2) by simp
    qed
  next
    assume A: "(rootPriority A, rootAddress A) \<le> (rootPriority B, rootAddress B)" "(rootPriority A, rootAddress A) < own_id A"
      "pi_role (st_ports A ! i) = (if own_vec A i < own_vec B j then DESIGNATED else ALTERNATE)"
    show ?thesis
    proof (rule b)
      assume B: "own_id B \<le> (rootPriority A, rootAddress A)" "(rootPriority B, rootAddress B) = own_id B" "rootPathCost B = 0"
        "pi_role (st_ports B ! j) = DESIGNATED"
      have same: "(rootPriority A, rootAddress A) = own_id B"
        using A B by (metis antisym)
      then have "own_id B < own_id A" using A(2) by metis
      moreover have "rootPathCost B < rootPathCost A \<or> rootPathCost B = rootPathCost A"
        using B(3) by (auto simp: word_gt_0)
      ultimately have "own_vec B j < own_vec A i"
        using B(2) same by (auto simp: own_vec_def)
      then show ?thesis using A(3) B(4) by (simp add: less_not_sym)
    next
      assume B: "pi_role (st_ports B ! j) = ROOT" "own_vec A i < own_vec B j"
      then show ?thesis using A(3) by simp
    next
      assume "pi_role (st_ports B ! j) = (if own_vec B j < own_vec A i then DESIGNATED else ALTERNATE)"
      then show ?thesis using A(3) less_linear[of "own_vec A i" "own_vec B j"] d by (auto dest: less_not_sym)
    qed
  qed
qed

definition example_port :: "u32 \<Rightarrow> port_info" where
  "example_port cost = \<lparr>pi_priority = 128, pi_linkCost = cost, pi_edge = False, pi_state = DISCARDING, pi_role = DESIGNATED, pi_rootPriority = 32768,
     pi_rootAddress = 0, pi_rootPathCost = 0, pi_bridgePriority = 32768, pi_bridgeAddress = 0, pi_portPriority = -1, pi_portNum = -1, pi_age = 0,
     pi_maxAge = 0, pi_fdWhile = 0, pi_fwdDelay = 0, pi_helloTime = 0, pi_TCWhile = 0, pi_lostBPDU = 0, pi_nextUpgrade = 0\<rparr>"

definition example_bridge :: "u64 \<Rightarrow> u32 \<Rightarrow> nat \<Rightarrow> stp" where
  "example_bridge a cost n = \<lparr>st_bridgePriority = 32768, st_bridgeAddress = a, st_maxAge = 20 * sec, st_forwardDelay = 15 * sec, st_helloTime = 2 * sec,
     st_isOperational = True, st_ports = replicate n (example_port cost), isRoot = True, rootPort = 0, desPorts = [], rootPathCost = 0,
     rootPriority = 32768, rootAddress = a, currentMaxAge = 20 * sec, currentFwdDelay = 15 * sec, currentHelloTime = 2 * sec,
     currentBridgePriority = 32768, topologyChangeNotification = False, topologyChangeRecvd = True, tickScheduled = False, stp_outs = []\<rparr>"

text \<open>Two bridges with one link between them, of cost 19 at the root's end and 7 at the other: the other end is the root port.\<close>

definition ex_root0 :: stp where
  "ex_root0 = (example_bridge 1 19 1)\<lparr>st_ports := [setSuperiorBPDU
     (sent_bpdu 0 ((example_bridge 2 7 1)\<lparr>rootAddress := 1, rootPathCost := 7\<rparr>)) (example_port 19)]\<rparr>"

definition ex_leaf0 :: stp where
  "ex_leaf0 = (example_bridge 2 7 1)\<lparr>st_ports := [setSuperiorBPDU (sent_bpdu 0 (example_bridge 1 19 1)) (example_port 7)]\<rparr>"

definition elected_state :: "stp \<Rightarrow> stp" where
  "elected_state S = projr (tryRoot S)"

lemma link_has_one_designated_port_witness:
  "pi_role (st_ports (elected_state ex_root0) ! 0) = DESIGNATED \<and> pi_role (st_ports (elected_state ex_leaf0) ! 0) = ROOT"
proof -
  have el: "tryRoot S = Inr (elected_state S)" for S
    using election_exact[of S] by (auto simp: elected_state_def)
  note ex = ex_root0_def ex_leaf0_def example_bridge_def example_port_def sent_bpdu_def blank_bpdu_def setSuperiorBPDU_def sec_def
    elected_state_def tryRoot_def checkRootEligibility_def compareBridgeIDs_def mac_compareTo_def
  have r: "currentMaxAge (elected_state ex_root0) = 20 * sec" "own_id (elected_state ex_root0) = (32768, 1)" "rootPathCost (elected_state ex_root0) = 0"
      "sent_bpdu 0 (elected_state ex_root0) = sent_bpdu 0 (example_bridge 1 19 1)"
    by (simp_all add: ex becomeRoot_def setAllDesignated_def own_id_def)
  have l: "currentMaxAge (elected_state ex_leaf0) = 20 * sec" "own_id (elected_state ex_leaf0) = (32768, 2)" "rootPathCost (elected_state ex_leaf0) = 7"
      "sent_bpdu 0 (elected_state ex_leaf0) = sent_bpdu 0 ((example_bridge 2 7 1)\<lparr>rootAddress := 1, rootPathCost := 7\<rparr>)"
      "pi_role (st_ports (elected_state ex_leaf0) ! 0) = ROOT"
    by (simp_all add: ex selectRootPort_def getPortInterfaceData_def selectDesignatedPorts_def designate_def own_id_def)
  have p: "length (st_ports ex_root0) = 1" "length (st_ports ex_leaf0) = 1"
    "st_ports ex_root0 ! 0 = setSuperiorBPDU (sent_bpdu 0 (elected_state ex_leaf0)) (example_port 19)"
    "st_ports ex_leaf0 ! 0 = setSuperiorBPDU (sent_bpdu 0 (elected_state ex_root0)) (example_port 7)"
    unfolding r(4) l(4) by (simp_all add: ex_root0_def ex_leaf0_def)
  have q: "pi_role (setSuperiorBPDU b (example_port c)) \<noteq> DISABLED" "pi_linkCost (setSuperiorBPDU b (example_port c)) = c" for b c
    by (simp_all add: setSuperiorBPDU_def example_port_def)
  show ?thesis
    using link_has_one_designated_port[OF el _ p(3) el _ p(4)] l(5) by (simp add: p(1,2) q r(1,2,3) l(1,2,3) sec_def)
qed

lemma election_outcome_witness:
  "\<exists>S'. tryRoot (example_bridge 1 19 2) = Inr S' \<and> \<not> isRoot S' \<and> rootPort S' < 2"
proof -
  have "example_port 19 \<in> set (st_ports (example_bridge 1 19 2))" "\<not> own_id (example_bridge 1 19 2) \<le> root_id (example_port 19)"
    "length (st_ports (example_bridge 1 19 2)) = 2"
    by (simp_all add: example_bridge_def example_port_def own_id_def root_id_def)
  then have no: "(\<forall>p\<in>set (st_ports (example_bridge 1 19 2)). own_id (example_bridge 1 19 2) \<le> root_id p) = False"
    "length (st_ports (example_bridge 1 19 2)) = 2"
    by blast+
  from election_outcome[of "example_bridge 1 19 2"] show ?thesis
    unfolding no if_False by blast
qed

section \<open>Roles in every reachable state\<close>

definition stp_ok :: "nat \<Rightarrow> stp \<Rightarrow> bool" where
  "stp_ok n S \<longleftrightarrow> length (st_ports S) = n \<and> rootPort S < n \<and> (st_isOperational S \<longrightarrow> (root_bridge S \<or> other_bridge S) \<and> des_ok S)"

text \<open>What the invariant reads of a port.\<close>

definition port_view :: "port_info \<Rightarrow> port_role \<times> u64 \<times> u32" where
  "port_view p = (pi_role p, pi_bridgeAddress p, pi_portNum p)"

lemma stp_ok_cong:
  "stp_ok n S \<Longrightarrow> map port_view (st_ports S') = map port_view (st_ports S) \<Longrightarrow> isRoot S' = isRoot S \<Longrightarrow> rootPort S' = rootPort S
   \<Longrightarrow> desPorts S' = desPorts S \<Longrightarrow> st_isOperational S' = st_isOperational S \<Longrightarrow> st_bridgeAddress S' = st_bridgeAddress S \<Longrightarrow> stp_ok n S'"
proof -
  assume a: "stp_ok n S" "map port_view (st_ports S') = map port_view (st_ports S)" "isRoot S' = isRoot S" "rootPort S' = rootPort S"
    "desPorts S' = desPorts S" "st_isOperational S' = st_isOperational S" "st_bridgeAddress S' = st_bridgeAddress S"
  have len: "length (st_ports S') = length (st_ports S)"
    using a(2) by (metis length_map)
  have "port_view (st_ports S' ! i) = port_view (st_ports S ! i)" if "i < length (st_ports S)" for i
    using a(2) len that by (metis nth_map)
  then have role: "pi_role (st_ports S' ! i) = pi_role (st_ports S ! i)" "heard_itself S' i = heard_itself S i"
    if "i < length (st_ports S)" for i
    using that a(7) by (auto simp: port_view_def heard_itself_def)
  show ?thesis
    using a by (auto simp: stp_ok_def root_bridge_def other_bridge_def des_ok_def len role all_set_conv_all_nth)
qed

lemma stp_ok_frame [simp]:
  "stp_ok n (S\<lparr>stp_outs := xs\<rparr>) = stp_ok n S" "stp_ok n (S\<lparr>st_helloTime := x\<rparr>) = stp_ok n S"
  "stp_ok n (S\<lparr>topologyChangeNotification := b\<rparr>) = stp_ok n S" "stp_ok n (S\<lparr>topologyChangeRecvd := b\<rparr>) = stp_ok n S"
  "stp_ok n (S\<lparr>tickScheduled := b\<rparr>) = stp_ok n S" "stp_ok n (S\<lparr>currentBridgePriority := p\<rparr>) = stp_ok n S"
  "stp_ok n (S\<lparr>currentHelloTime := x, currentMaxAge := y, currentFwdDelay := z\<rparr>) = stp_ok n S"
  by (simp_all add: stp_ok_def root_bridge_def other_bridge_def des_ok_def heard_itself_def)

lemma stp_ok_emit [simp]: "stp_ok n (stp_emit x S) = stp_ok n S"
  by (simp add: stp_ok_def root_bridge_def other_bridge_def des_ok_def heard_itself_def stp_emit_def)

lemma tryRoot_ok:
  assumes "length (st_ports S) = n" "rootPort S < n"
  shows "\<exists>S'. tryRoot S = Inr S' \<and> stp_ok n S' \<and> st_isOperational S' = st_isOperational S \<and> st_bridgePriority S' = st_bridgePriority S
    \<and> st_bridgeAddress S' = st_bridgeAddress S"
proof (cases S rule: tryRoot_cases)
  case (root S')
  then show ?thesis
    using assms setAllDesignated_ok[of "S\<lparr>isRoot := True\<rparr>"] by (auto simp: stp_ok_def)
       (simp_all add: becomeRoot_def setAllDesignated_def)
next
  case (other S1)
  then show ?thesis
    using assms selectRootPort_frame[OF other(4)] selectDesignatedPorts_ok[of S1] by (auto simp: stp_ok_def) (auto simp: other_bridge_def)
qed

lemma generateBPDU_ok:
  assumes "i < length (st_ports S)"
  shows "\<exists>b c. generateBPDU i a tc tca S = Inr (stp_emit (ToRelay b c) S)"
  using assms by (auto simp: generateBPDU_def getPortInterfaceData_def Let_def)

lemma generate_all_ok:
  assumes "\<forall>i\<in>set is. i < length (st_ports S)"
  shows "\<exists>xs. generate_all is tc S = Inr (S\<lparr>stp_outs := stp_outs S @ xs\<rparr>)"
  using assms
proof (induction "is" arbitrary: S)
  case Nil
  have "S = S\<lparr>stp_outs := stp_outs S @ []\<rparr>" by simp
  then show ?case by (metis generate_all.simps(1))
next
  case (Cons i js)
  obtain b c where 1: "generateBPDU i STP_MULTICAST_ADDRESS tc False S = Inr (stp_emit (ToRelay b c) S)"
    using generateBPDU_ok[of i S] Cons.prems by (meson list.set_intros(1))
  obtain xs where "generate_all js tc (stp_emit (ToRelay b c) S)
      = Inr ((stp_emit (ToRelay b c) S)\<lparr>stp_outs := stp_outs (stp_emit (ToRelay b c) S) @ xs\<rparr>)"
    using Cons.IH[of "stp_emit (ToRelay b c) S"] Cons.prems by (auto simp: stp_emit_def)
  then show ?case
    by (simp add: 1 stp_emit_def) (metis append_Cons)
qed

lemma setSuperior_role [simp]: "pi_role (setSuperiorBPDU b p) = pi_role p"
  by (simp add: setSuperiorBPDU_def)

lemma upd_port_role: "(\<And>p. pi_role (f p) = pi_role p) \<Longrightarrow> map pi_role (st_ports (upd_port i f S)) = map pi_role (st_ports S)"
  by (cases "i < length (st_ports S)") (auto simp: upd_port_def nth_list_update intro: nth_equalityI)

lemma isSuperiorBPDU_ok:
  assumes "i < length (st_ports S)"
  shows "\<exists>s S'. isSuperiorBPDU i b S = Inr (s, S') \<and> map pi_role (st_ports S') = map pi_role (st_ports S) \<and> isRoot S' = isRoot S
    \<and> rootPort S' = rootPort S \<and> desPorts S' = desPorts S \<and> st_isOperational S' = st_isOperational S"
  using assms by (auto simp: isSuperiorBPDU_def getPortInterfaceData_def Let_def upd_port_role) (simp_all add: upd_port_def)

lemma handleBPDU_ok:
  assumes "stp_ok n S" "st_isOperational S" "i < n"
  shows "\<exists>S'. handleBPDU b i S = Inr S' \<and> stp_ok n S' \<and> st_isOperational S' = st_isOperational S"
proof -
  have i: "i < length (st_ports S)"
    using assms by (simp add: stp_ok_def)
  let ?S1 = "if bp_tca b then S\<lparr>topologyChangeRecvd := True, topologyChangeNotification := False\<rparr> else S"
  have 1: "st_ports ?S1 = st_ports S" "isRoot ?S1 = isRoot S" "rootPort ?S1 = rootPort S" "desPorts ?S1 = desPorts S"
    "st_isOperational ?S1 = st_isOperational S"
    by simp_all
  obtain sup S2 where S2: "isSuperiorBPDU i b ?S1 = Inr (sup, S2)" "map pi_role (st_ports S2) = map pi_role (st_ports S)"
    "isRoot S2 = isRoot S" "rootPort S2 = rootPort S" "desPorts S2 = desPorts S" "st_isOperational S2 = st_isOperational S"
    using isSuperiorBPDU_ok[of i ?S1 b] i unfolding 1 by blast
  have "length (st_ports S2) = length (st_ports S)"
    using S2(2) by (metis length_map)
  then have ok2: "length (st_ports S2) = n" "rootPort S2 < n"
    and len: "i < length (st_ports S2)" "\<forall>j\<in>set (desPorts S2). j < length (st_ports S2)"
    using assms S2 by (auto simp: stp_ok_def des_ok_def)
  have out: "\<exists>S'. (if \<not> sup
        then (if pi_role p = DESIGNATED then generateBPDU i STP_MULTICAST_ADDRESS False False S2 else Inr S2)
        else if pi_role p = ROOT
        then (if bp_tc b then generate_all (desPorts S2) True (stp_emit (SetAging (currentFwdDelay S2)) S2)
              else generate_all (desPorts S2) False (stp_emit ResetAging S2))
        else Inr S2) = Inr S' \<and> length (st_ports S') = n \<and> rootPort S' < n \<and> st_isOperational S' = st_isOperational S" for p
  proof -
    have "\<exists>S'. generate_all (desPorts S2) tc (stp_emit x S2) = Inr S' \<and> length (st_ports S') = length (st_ports S2)
        \<and> rootPort S' = rootPort S2 \<and> st_isOperational S' = st_isOperational S2" for tc x
      using generate_all_ok[of "desPorts S2" "stp_emit x S2" tc] len(2) by (auto simp: stp_emit_def)
    moreover have "\<exists>c d. generateBPDU i STP_MULTICAST_ADDRESS False False S2 = Inr (stp_emit (ToRelay c d) S2)"
      using generateBPDU_ok[OF len(1)] .
    ultimately show ?thesis
      using S2(6) ok2 by (cases sup; cases "pi_role p = ROOT"; cases "bp_tc b"; cases "pi_role p = DESIGNATED") (auto simp: stp_emit_def, metis+)
  qed
  from out[of "st_ports S ! i"] obtain S3 where S3: "(if \<not> sup
        then (if pi_role (st_ports S ! i) = DESIGNATED then generateBPDU i STP_MULTICAST_ADDRESS False False S2 else Inr S2)
        else if pi_role (st_ports S ! i) = ROOT
        then (if bp_tc b then generate_all (desPorts S2) True (stp_emit (SetAging (currentFwdDelay S2)) S2)
              else generate_all (desPorts S2) False (stp_emit ResetAging S2))
        else Inr S2) = Inr S3" "length (st_ports S3) = n" "rootPort S3 < n" "st_isOperational S3 = st_isOperational S"
    by blast
  have "handleBPDU b i S = tryRoot S3"
    unfolding handleBPDU_def Let_def using i S2(1) S3(1) by (simp add: getPortInterfaceData_def)
  then show ?thesis
    using tryRoot_ok[OF S3(2,3)] S3(4) by auto
qed

lemma handleTCN_ok:
  assumes "stp_ok n S" "rc_switchPort c < n"
  shows "\<exists>S'. handleTCN b c S = Inr S' \<and> stp_ok n S' \<and> st_isOperational S' = st_isOperational S"
proof -
  let ?S = "S\<lparr>topologyChangeNotification := True\<rparr>"
  have 1: "stp_ok n ?S" "rc_switchPort c < length (st_ports ?S)"
    using assms by (simp, simp add: stp_ok_def)
  obtain d e where "generateBPDU (rc_switchPort c) (rc_src c) False True ?S = Inr (stp_emit (ToRelay d e) ?S)"
    using generateBPDU_ok[OF 1(2)] by blast
  then show ?thesis
    using 1(1) by (auto simp: handleTCN_def) (simp_all add: stp_emit_def)
qed

lemma age_check_ok:
  assumes "stp_ok n S" "st_isOperational S" "\<forall>i\<in>set is. i < n"
  shows "\<exists>S'. age_check is S = Inr S' \<and> stp_ok n S' \<and> st_isOperational S'"
  using assms
proof (induction "is" arbitrary: S)
  case Nil
  then show ?case by simp
next
  case (Cons i js)
  have i: "i < length (st_ports S)"
    using Cons.prems by (simp add: stp_ok_def)
  let ?S = "upd_port i (initInterfacedata (st_bridgePriority S) (st_bridgeAddress S)) S"
  have len: "length (st_ports ?S) = n" "st_isOperational ?S" "rootPort ?S < n"
    using Cons.prems(1,2) by (simp_all add: stp_ok_def upd_port_def)
  consider "\<not> currentMaxAge S \<le> pi_age (st_ports S ! i)"
    | "currentMaxAge S \<le> pi_age (st_ports S ! i)" "pi_role (st_ports S ! i) = ROOT"
    | "currentMaxAge S \<le> pi_age (st_ports S ! i)" "pi_role (st_ports S ! i) \<noteq> ROOT"
    by blast
  then show ?case
  proof cases
    case 1
    then show ?thesis
      using Cons.IH[of S] Cons.prems i by (simp add: getPortInterfaceData_def)
  next
    case 2
    obtain S1 where S1: "lostRoot ?S = Inr S1" "stp_ok n S1" "st_isOperational S1"
      using tryRoot_ok[of "?S\<lparr>topologyChangeNotification := True\<rparr>" n] len by (auto simp: lostRoot_def)
    then show ?thesis
      using Cons.IH[OF S1(2,3)] Cons.prems 2 i by (simp add: getPortInterfaceData_def)
  next
    case 3
    have "root_bridge ?S \<or> other_bridge ?S"
      using Cons.prems(1,2) 3(2) i
      by (auto simp: stp_ok_def root_bridge_def other_bridge_def upd_port_def initInterfacedata_def nth_list_update all_set_conv_all_nth)
    then have "stp_ok n (lostAlternate ?S)" "st_isOperational (lostAlternate ?S)"
      using len selectDesignatedPorts_ok[of ?S]
      by (auto simp: stp_ok_def lostAlternate_def root_bridge_def other_bridge_def des_ok_def heard_itself_def)
    then show ?thesis
      using Cons.IH Cons.prems 3 i by (simp add: getPortInterfaceData_def)
  qed
qed

lemma stp_ok_ports:
  "stp_ok n S \<Longrightarrow> (\<And>p. port_view (f p) = port_view p) \<Longrightarrow> stp_ok n (S\<lparr>st_ports := map f (st_ports S)\<rparr>)"
  by (erule stp_ok_cong) simp_all

lemma forward_check_view [simp]: "port_view (forward_check d p) = port_view p" "pi_role (forward_check d p) = pi_role p"
  by (simp_all add: forward_check_def port_view_def split: port_state.splits)

lemma tick_port_view [simp]: "port_view (tick_port p) = port_view p" "pi_role (tick_port p) = pi_role p"
  by (simp_all add: tick_port_def port_view_def Let_def)

lemma checkTimers_ok:
  assumes "stp_ok n S" "st_isOperational S"
  shows "\<exists>S'. checkTimers S = Inr S' \<and> stp_ok n S' \<and> st_isOperational S'
    \<and> (\<forall>p\<in>set (st_ports S'). pi_state p \<noteq> DISCARDING \<longrightarrow> pi_role p \<in> {ROOT, DESIGNATED})"
proof -
  obtain xs where hello: "generateHelloBDPUs S = Inr (S\<lparr>stp_outs := stp_outs S @ xs\<rparr>)"
    using generate_all_ok[of "[0..<length (st_ports S)]" S False] by (auto simp: generateHelloBDPUs_def)
  obtain S1 where S1: "(if currentHelloTime S \<le> st_helloTime S
      then mapE (\<lambda>S'. S'\<lparr>st_helloTime := 0\<rparr>) (if isRoot S then generateHelloBDPUs S else Inr S) else Inr S) = Inr S1"
    "stp_ok n S1" "st_isOperational S1"
  proof (cases "currentHelloTime S \<le> st_helloTime S \<and> isRoot S")
    case True
    then show ?thesis
      using that[of "S\<lparr>stp_outs := stp_outs S @ xs, st_helloTime := 0\<rparr>"] assms by (simp add: hello)
  next
    case False
    then show ?thesis
      using that[of "S\<lparr>st_helloTime := 0\<rparr>"] that[of S] assms
      by (cases "currentHelloTime S \<le> st_helloTime S") auto
  qed
  obtain S2 where S2: "age_check [0..<length (st_ports S1)] S1 = Inr S2" "stp_ok n S2" "st_isOperational S2"
    using age_check_ok[OF S1(2,3), of "[0..<length (st_ports S1)]"] S1(2) by (auto simp: stp_ok_def)
  have "pi_state (forward_check d p) \<noteq> DISCARDING \<Longrightarrow> pi_role p \<in> {ROOT, DESIGNATED}" for d p
    by (auto simp: forward_check_def split: if_splits)
  then show ?thesis
    using S1(1) S2 stp_ok_ports[OF S2(2), of "forward_check (currentFwdDelay S2)"] by (auto simp: checkTimers_def)
qed

lemma checkParametersChange_ok:
  assumes "stp_ok n S" "st_isOperational S" "\<forall>p\<in>set (st_ports S). pi_state p \<noteq> DISCARDING \<longrightarrow> pi_role p \<in> {ROOT, DESIGNATED}"
  shows "stp_ok n (checkParametersChange S) \<and> st_isOperational (checkParametersChange S)
    \<and> (\<forall>p\<in>set (st_ports (checkParametersChange S)). pi_state p \<noteq> DISCARDING \<longrightarrow> pi_role p \<in> {ROOT, DESIGNATED})"
proof -
  let ?S = "if isRoot S then S\<lparr>currentHelloTime := st_helloTime S, currentMaxAge := st_maxAge S, currentFwdDelay := st_forwardDelay S\<rparr> else S"
  have 1: "stp_ok n ?S" "st_isOperational ?S" "st_ports ?S = st_ports S"
    using assms(1,2) by simp_all
  have reset: "stp_ok n (stp_reset X) \<and> st_isOperational (stp_reset X)
      \<and> (\<forall>p\<in>set (st_ports (stp_reset X)). pi_state p \<noteq> DISCARDING \<longrightarrow> pi_role p \<in> {ROOT, DESIGNATED})"
    if "stp_ok n X" "st_isOperational X" "st_ports X = st_ports S" for X
    using that assms(3) setAllDesignated_ok[of "becomeRoot (X\<lparr>isRoot := True\<rparr>)"]
    by (auto simp: stp_ok_def stp_reset_def) (auto simp: setAllDesignated_def becomeRoot_def)
  show ?thesis
  proof (cases "currentBridgePriority ?S \<noteq> st_bridgePriority ?S")
    case True
    then have "checkParametersChange S = stp_reset (?S\<lparr>currentBridgePriority := st_bridgePriority ?S\<rparr>)"
      by (simp add: checkParametersChange_def Let_def)
    then show ?thesis
      using reset[of "?S\<lparr>currentBridgePriority := st_bridgePriority ?S\<rparr>"] 1 by simp
  next
    case False
    then have "checkParametersChange S = ?S"
      by (simp add: checkParametersChange_def Let_def)
    then show ?thesis
      using 1 assms(3) by simp
  qed
qed

lemma generateTCN_ok:
  assumes "stp_ok n S"
  shows "\<exists>S'. generateTCN S = Inr S' \<and> stp_ok n S' \<and> st_ports S' = st_ports S \<and> st_isOperational S' = st_isOperational S"
  using assms by (auto simp: generateTCN_def getPortInterfaceData_def stp_ok_def) (auto simp: stp_emit_def root_bridge_def other_bridge_def des_ok_def heard_itself_def)

lemma handleTick_ok:
  assumes "stp_ok n S" "st_isOperational S"
  shows "\<exists>S'. handleTick S = Inr S' \<and> stp_ok n S' \<and> st_isOperational S'
    \<and> (\<forall>p\<in>set (st_ports S'). pi_state p \<noteq> DISCARDING \<longrightarrow> pi_role p \<in> {ROOT, DESIGNATED})"
proof -
  let ?h = "if isRoot S then st_helloTime S + sec else 0"
  let ?S = "S\<lparr>st_helloTime := ?h, st_ports := map tick_port (st_ports S)\<rparr>"
  have "stp_ok n ?S"
    using stp_ok_ports[of n "S\<lparr>st_helloTime := ?h\<rparr>" tick_port] assms(1) by simp
  from checkTimers_ok[OF this] assms(2) obtain S1 where S1: "checkTimers ?S = Inr S1" "stp_ok n S1" "st_isOperational S1"
    "\<forall>p\<in>set (st_ports S1). pi_state p \<noteq> DISCARDING \<longrightarrow> pi_role p \<in> {ROOT, DESIGNATED}"
    by auto
  note 2 = checkParametersChange_ok[OF S1(2-4)]
  from generateTCN_ok[of n "checkParametersChange S1"] 2 obtain S' where "generateTCN (checkParametersChange S1) = Inr S'" "stp_ok n S'"
    "st_ports S' = st_ports (checkParametersChange S1)" "st_isOperational S'"
    by auto
  then show ?thesis
    using S1(1) 2 by (simp add: handleTick_def)
qed

definition via_port :: "nat \<Rightarrow> stp_message \<Rightarrow> bool" where
  "via_port n msg \<longleftrightarrow> (case msg of FromRelay b c \<Rightarrow> rc_switchPort c < n | NoBPDU \<Rightarrow> True | StpTick \<Rightarrow> True)"

lemma stp_handleMessage_ok:
  assumes "stp_ok n S" "via_port n msg" "msg = NoBPDU \<longrightarrow> \<not> st_isOperational S"
  shows "\<exists>S'. stp_handleMessage msg S = Inr S' \<and> stp_ok n S'"
proof (cases "st_isOperational S")
  case False
  then show ?thesis
    using assms(1) by (simp add: stp_handleMessage_def)
next
  case True
  show ?thesis
  proof (cases msg)
    case (FromRelay b c)
    then have "rc_switchPort c < n"
      using assms(2) by (simp add: via_port_def)
    then show ?thesis
      using handleBPDU_ok[OF assms(1) True, of "rc_switchPort c" b] handleTCN_ok[OF assms(1), of c b] assms(1) True
      by (auto simp: stp_handleMessage_def FromRelay)
  next
    case NoBPDU
    then show ?thesis
      using assms(3) True by simp
  next
    case StpTick
    have "stp_ok n (S\<lparr>tickScheduled := False\<rparr>)" "st_isOperational (S\<lparr>tickScheduled := False\<rparr>)"
      using assms(1) True by simp_all
    from handleTick_ok[OF this] show ?thesis
      using True by (auto simp: stp_handleMessage_def StpTick)
  qed
qed

lemma stp_initialize_ok:
  assumes "0 < length (st_ports S)"
  shows "stp_ok (length (st_ports S)) (stp_initialize S)"
    "stp_start (Some a) S = Inr S' \<Longrightarrow> stp_ok (length (st_ports S)) S'"
proof -
  have "stp_ok (length (st_ports X)) (setAllDesignated X)" if "isRoot X" "rootPort X < length (st_ports X)" for X
    using setAllDesignated_ok[of X] that by (auto simp: stp_ok_def) (simp add: setAllDesignated_def)
  note this[of "(becomeRoot X)\<lparr>st_helloTime := 0\<rparr>" for X]
  then have *: "isRoot X \<Longrightarrow> rootPort X < length (st_ports X) \<Longrightarrow>
      stp_ok (length (st_ports X)) (setAllDesignated ((becomeRoot X)\<lparr>st_helloTime := 0\<rparr>))" for X
    by (simp add: becomeRoot_def)
  show "stp_ok (length (st_ports S)) (stp_initialize S)"
    using *[of "(initPortTable S)\<lparr>isRoot := True, topologyChangeNotification := False, topologyChangeRecvd := True,
          rootPort := 0, currentBridgePriority := st_bridgePriority S\<rparr>"] assms
    by (simp add: stp_initialize_def initPortTable_def)
  assume "stp_start (Some a) S = Inr S'"
  then show "stp_ok (length (st_ports S)) S'"
    using *[of "(initPortTable (S\<lparr>st_isOperational := True, st_bridgeAddress := a\<rparr>))\<lparr>currentBridgePriority := st_bridgePriority S, isRoot := True,
        topologyChangeNotification := True, topologyChangeRecvd := True, rootPort := 0\<rparr>"] assms
    by (auto simp: stp_start_def initPortTable_def Let_def)
qed

text \<open>The states of a module with n ports; the network manager may change the bridge priority at any time.\<close>

inductive stp_run :: "nat \<Rightarrow> stp \<Rightarrow> bool" for n where
  boot: "length (st_ports S) = n \<Longrightarrow> stp_run n (stp_initialize S)"
| message: "stp_run n S \<Longrightarrow> via_port n msg \<Longrightarrow> stp_handleMessage msg S = Inr S' \<Longrightarrow> stp_run n S'"
| set_priority: "stp_run n S \<Longrightarrow> stp_run n (S\<lparr>st_bridgePriority := prio\<rparr>)"
| node_start: "stp_run n S \<Longrightarrow> stp_start (Some a) S = Inr S' \<Longrightarrow> stp_run n S'"
| node_stop: "stp_run n S \<Longrightarrow> stp_run n (stp_stop S)"

lemma stp_run_ok:
  assumes "stp_run n S" "0 < n"
  shows "stp_ok n S"
  using assms
proof (induction rule: stp_run.induct)
  case (boot S)
  then show ?case using stp_initialize_ok(1)[of S] by simp
next
  case (message S msg S')
  then have "msg = NoBPDU \<longrightarrow> \<not> st_isOperational S"
    by (auto simp: stp_handleMessage_def)
  then show ?case using stp_handleMessage_ok[of n S msg] message by auto
next
  case (set_priority S prio)
  then show ?case by (auto simp: stp_ok_def root_bridge_def other_bridge_def des_ok_def heard_itself_def)
next
  case (node_start S a S')
  then have "length (st_ports S) = n" by (simp add: stp_ok_def)
  then show ?case using stp_initialize_ok(2)[of S a S'] node_start by simp
next
  case (node_stop S)
  then show ?case by (simp add: stp_ok_def stp_stop_def)
qed

text \<open>
  C29. In every state that a bridge with ports can reach while it is up, whatever BPDUs, ticks, restarts and changes of its priority
  there were: either it is the root and no port has the role ROOT, or exactly one port has it, the one in \<open>rootPort\<close>; \<open>desPorts\<close>
  lists, without repetition, designated ports only, and each of them, but for one on which the bridge has stored its own BPDU of
  that very port; and of the messages of existing ports and the ticks the only one that leads to an error is a packet that is no
  BPDU, while the bridge is up.
\<close>

theorem bridge_roles_invariant:
  assumes "stp_run n S" "0 < n"
  shows "(st_isOperational S \<longrightarrow>
       (if isRoot S then \<forall>p\<in>set (st_ports S). pi_role p \<noteq> ROOT
        else rootPort S < n \<and> (\<forall>i<n. pi_role (st_ports S ! i) = ROOT \<longleftrightarrow> i = rootPort S))
       \<and> distinct (desPorts S) \<and> (\<forall>i\<in>set (desPorts S). i < n \<and> pi_role (st_ports S ! i) = DESIGNATED)
       \<and> (\<forall>i<n. pi_role (st_ports S ! i) = DESIGNATED \<longrightarrow> i \<in> set (desPorts S)
            \<or> pi_bridgeAddress (st_ports S ! i) = st_bridgeAddress S \<and> pi_portNum (st_ports S ! i) = word_of_nat i))
    \<and> (\<forall>msg. via_port n msg \<longrightarrow> isl (stp_handleMessage msg S) = (st_isOperational S \<and> msg = NoBPDU))"
proof -
  have ok: "stp_ok n S"
    using stp_run_ok[OF assms] .
  have "isl (stp_handleMessage msg S) = (st_isOperational S \<and> msg = NoBPDU)" if "via_port n msg" for msg
  proof (cases "st_isOperational S \<and> msg = NoBPDU")
    case True
    then show ?thesis by (simp add: stp_handleMessage_def)
  next
    case False
    then show ?thesis using stp_handleMessage_ok[OF ok that] by auto
  qed
  then show ?thesis
    using ok by (auto simp: stp_ok_def root_bridge_def other_bridge_def des_ok_def heard_itself_def)
qed

lemma bridge_roles_invariant_witness:
  "list_all (\<lambda>p. pi_role p \<noteq> ROOT) (st_ports (stp_initialize (example_bridge 1 19 2)))
   \<and> set (desPorts (stp_initialize (example_bridge 1 19 2))) = {0, 1}"
proof -
  have "stp_run 2 (stp_initialize (example_bridge 1 19 2))"
    by (rule stp_run.boot) (simp add: example_bridge_def)
  moreover have "st_isOperational (stp_initialize (example_bridge 1 19 2)) \<and> isRoot (stp_initialize (example_bridge 1 19 2))"
    by (simp add: stp_initialize_def setAllDesignated_def becomeRoot_def initPortTable_def example_bridge_def)
  moreover have "pi_role (st_ports (stp_initialize (example_bridge 1 19 2)) ! i) = DESIGNATED
      \<and> pi_portNum (st_ports (stp_initialize (example_bridge 1 19 2)) ! i) = -1" if "i < 2" for i
    using that by (simp add: stp_initialize_def setAllDesignated_def becomeRoot_def initPortTable_def initInterfacedata_def example_bridge_def)
  moreover have "(word_of_nat i :: u32) \<noteq> -1" if "i < 2" for i
    using that by (auto simp: less_2_cases_iff)
  ultimately show ?thesis
    using bridge_roles_invariant[of 2 "stp_initialize (example_bridge 1 19 2)"] by (auto simp: list_all_iff less_2_cases_iff)
qed

text \<open>
  A blocked port stays silent for at most a tick too long.  Between ticks a port that has just become an alternate may still be
  learning or forwarding; but after every tick each port that is not discarding is a root port or designated.
\<close>

theorem tick_blocks_alternates:
  assumes "stp_run n S" "0 < n" "st_isOperational S" "stp_handleMessage StpTick S = Inr S'"
  shows "\<forall>p\<in>set (st_ports S'). pi_state p \<noteq> DISCARDING \<longrightarrow> pi_role p \<in> {ROOT, DESIGNATED}"
proof -
  have "stp_ok n (S\<lparr>tickScheduled := False\<rparr>)" "st_isOperational (S\<lparr>tickScheduled := False\<rparr>)"
    using stp_run_ok[OF assms(1,2)] assms(3) by simp_all
  from handleTick_ok[OF this] obtain S1 where S1: "handleTick (S\<lparr>tickScheduled := False\<rparr>) = Inr S1"
    "\<forall>p\<in>set (st_ports S1). pi_state p \<noteq> DISCARDING \<longrightarrow> pi_role p \<in> {ROOT, DESIGNATED}"
    by blast
  then have "S' = S1\<lparr>tickScheduled := True\<rparr>"
    using assms(3,4) by (simp add: stp_handleMessage_def)
  then show ?thesis
    using S1(2) by simp
qed

lemma tick_blocks_alternates_witness:
  "\<exists>S'. stp_handleMessage StpTick (stp_initialize (example_bridge 1 19 2)) = Inr S'
    \<and> list_all (\<lambda>p. pi_state p = DISCARDING \<or> pi_role p \<in> {ROOT, DESIGNATED}) (st_ports S')"
proof -
  let ?S = "stp_initialize (example_bridge 1 19 2)"
  have run: "stp_run 2 ?S"
    by (rule stp_run.boot) (simp add: example_bridge_def)
  have up: "st_isOperational ?S"
    by (simp add: stp_initialize_def setAllDesignated_def becomeRoot_def initPortTable_def example_bridge_def)
  have "via_port 2 StpTick" by (simp add: via_port_def)
  from stp_handleMessage_ok[OF stp_run_ok[OF run] this] obtain S' where "stp_handleMessage StpTick ?S = Inr S'"
    by auto
  then show ?thesis
    using tick_blocks_alternates[OF run zero_less_numeral up] by (auto simp: list_all_iff)
qed

end
