(* ===== verification/Stp_Timers.thy ===== *)
theory Stp_Timers
  imports Stp_Inv
begin

text \<open>The timers of a bridge that hears no other: its hellos, and when its ports forward.\<close>

section \<open>The hello timer\<close>

definition root_alone :: "stp \<Rightarrow> bool" where
  "root_alone S \<longleftrightarrow> st_isOperational S \<and> isRoot S \<and> \<not> topologyChangeNotification S \<and> topologyChangeRecvd S
     \<and> currentBridgePriority S = st_bridgePriority S \<and> 0 < currentMaxAge S \<and> currentMaxAge S = st_maxAge S
     \<and> (\<forall>p\<in>set (st_ports S). pi_role p = DESIGNATED \<and> pi_age p = 0)"

definition hellos :: "stp \<Rightarrow> stp_out list" where
  "hellos S = map (\<lambda>i. ToRelay (sent_bpdu i S) \<lparr>rc_src = 0, rc_dest = STP_MULTICAST_ADDRESS, rc_switchPort = i\<rparr>) [0..<length (st_ports S)]"

lemma generate_all_hellos:
  assumes "\<not> topologyChangeNotification S" "\<forall>i\<in>set is. i < length (st_ports S)"
  shows "generate_all is tc S = Inr (S\<lparr>stp_outs := stp_outs S
    @ map (\<lambda>i. ToRelay (sent_bpdu i S) \<lparr>rc_src = 0, rc_dest = STP_MULTICAST_ADDRESS, rc_switchPort = i\<rparr>) is\<rparr>)"
  using assms
proof (induction "is" arbitrary: S)
  case Nil
  then show ?case by simp
next
  case (Cons i js)
  have sent: "sent_bpdu j (S\<lparr>stp_outs := xs\<rparr>) = sent_bpdu j S" for j xs
    by (simp add: sent_bpdu_def)
  show ?case
    using Cons.prems Cons.IH by (simp add: generateBPDU_sends stp_emit_def sent)
qed

lemma age_check_young:
  "\<forall>i\<in>set is. i < length (st_ports S) \<and> pi_age (st_ports S ! i) < currentMaxAge S \<Longrightarrow> age_check is S = Inr S"
  by (induction "is") (simp_all add: getPortInterfaceData_def)

lemma tick_alone:
  assumes "root_alone S"
  defines "h \<equiv> st_helloTime S + sec" and "d \<equiv> currentFwdDelay S"
  defines "ports \<equiv> map (\<lambda>p. forward_check d (tick_port p)) (st_ports S)" and "hello \<equiv> currentHelloTime S \<le> st_helloTime S + sec"
  shows "\<exists>S'. stp_handleMessage StpTick S = Inr S' \<and> root_alone S' \<and> length (st_ports S') = length (st_ports S)
    \<and> currentFwdDelay S' = st_forwardDelay S \<and> st_forwardDelay S' = st_forwardDelay S
    \<and> st_ports S' = ports \<and> stp_outs S' = stp_outs S @ (if hello then hellos S else [])
    \<and> st_helloTime S' = (if hello then 0 else h) \<and> currentHelloTime S' = st_helloTime S'"
proof -
  note a = assms(1)[unfolded root_alone_def]
  let ?T = "S\<lparr>tickScheduled := False, st_helloTime := h, st_ports := map tick_port (st_ports S)\<rparr>"
  have port: "tick_port p = p\<lparr>pi_fdWhile := pi_fdWhile p + sec\<rparr>" if "p \<in> set (st_ports S)" for p
    using that a by (simp add: tick_port_def)
  have sent: "sent_bpdu i ?T = sent_bpdu i S" if "i < length (st_ports S)" for i
    using that port by (simp add: sent_bpdu_def)
  have hl: "generateHelloBDPUs ?T = Inr (?T\<lparr>stp_outs := stp_outs S @ hellos S\<rparr>)"
  proof -
    have "map (\<lambda>i. ToRelay (sent_bpdu i ?T) \<lparr>rc_src = 0, rc_dest = STP_MULTICAST_ADDRESS, rc_switchPort = i\<rparr>) [0..<length (st_ports S)] = hellos S"
      using sent by (auto simp: hellos_def)
    then show ?thesis
      using generate_all_hellos[of ?T "[0..<length (st_ports S)]" False] a by (simp add: generateHelloBDPUs_def)
  qed
  let ?S1 = "if hello then ?T\<lparr>stp_outs := stp_outs S @ hellos S, st_helloTime := 0\<rparr> else ?T"
  have S1: "(if currentHelloTime ?T \<le> st_helloTime ?T
      then mapE (\<lambda>S'. S'\<lparr>st_helloTime := 0\<rparr>) (if isRoot ?T then generateHelloBDPUs ?T else Inr ?T) else Inr ?T) = Inr ?S1"
    using a hl by (simp add: hello_def h_def)
  have "age_check [0..<length (st_ports ?S1)] ?S1 = Inr ?S1"
    using a port by (intro age_check_young) auto
  then have timers: "checkTimers ?T = Inr (?S1\<lparr>st_ports := ports\<rparr>)"
    using S1 by (simp add: checkTimers_def ports_def d_def comp_def)
  have ports: "\<forall>p\<in>set ports. pi_role p = DESIGNATED \<and> pi_age p = 0" "length ports = length (st_ports S)"
    using a port by (auto simp: ports_def forward_check_def split: port_state.splits)
  define S3 where "S3 = (?S1\<lparr>st_ports := ports\<rparr>)\<lparr>currentHelloTime := st_helloTime ?S1, currentMaxAge := st_maxAge S, currentFwdDelay := st_forwardDelay S\<rparr>"
  have S3: "checkParametersChange (?S1\<lparr>st_ports := ports\<rparr>) = S3" "generateTCN S3 = Inr S3"
    using a by (simp_all add: checkParametersChange_def Let_def S3_def generateTCN_def)
  have "stp_handleMessage StpTick S = Inr (S3\<lparr>tickScheduled := True\<rparr>)"
    using a timers S3 by (simp add: stp_handleMessage_def handleTick_def h_def)
  moreover have "root_alone (S3\<lparr>tickScheduled := True\<rparr>)"
    using a ports by (simp add: S3_def root_alone_def)
  ultimately show ?thesis
    using ports(2) by (intro exI[of _ "S3\<lparr>tickScheduled := True\<rparr>"]) (simp add: S3_def h_def)
qed

fun run_ticks :: "nat \<Rightarrow> stp \<Rightarrow> stp res" where
  "run_ticks 0 S = Inr S"
| "run_ticks (Suc n) S = bindE (run_ticks n S) (stp_handleMessage StpTick)"

lemma initialize_alone:
  assumes "st_isOperational S" "0 < st_maxAge S"
  shows "root_alone (stp_initialize S)" "st_helloTime (stp_initialize S) = 0" "currentHelloTime (stp_initialize S) = st_helloTime S"
    "currentFwdDelay (stp_initialize S) = st_forwardDelay S" "st_forwardDelay (stp_initialize S) = st_forwardDelay S"
    "st_ports (stp_initialize S)
      = map (\<lambda>p. (initInterfacedata (st_bridgePriority S) (st_bridgeAddress S) p)\<lparr>pi_role := DESIGNATED\<rparr>) (st_ports S)"
    "length (st_ports (stp_initialize S)) = length (st_ports S)"
  using assms by (auto simp: stp_initialize_def root_alone_def setAllDesignated_def becomeRoot_def initPortTable_def initInterfacedata_def)

lemma hello_run:
  assumes "st_isOperational S" "0 < st_maxAge S" "sec < st_helloTime S"
  shows "\<exists>S1. run_ticks (n + 2) (stp_initialize S) = Inr S1 \<and> root_alone S1 \<and> length (st_ports S1) = length (st_ports S)
    \<and> st_helloTime S1 = 0 \<and> currentHelloTime S1 = 0"
proof (induction n)
  case 0
  note i = initialize_alone[OF assms(1,2)]
  obtain T1 where T1: "stp_handleMessage StpTick (stp_initialize S) = Inr T1" "root_alone T1" "length (st_ports T1) = length (st_ports S)"
    "st_helloTime T1 = sec" "currentHelloTime T1 = sec"
    using tick_alone[OF i(1)] assms(3) by (auto simp: i)
  obtain T2 where "stp_handleMessage StpTick T1 = Inr T2" "root_alone T2" "length (st_ports T2) = length (st_ports S)"
    "st_helloTime T2 = 0" "currentHelloTime T2 = 0"
    using tick_alone[OF T1(2)] T1 less_imp_le[OF sec_pos] by auto
  then show ?case
    using T1(1) by (simp add: numeral_2_eq_2)
next
  case (Suc n)
  then obtain T where T: "run_ticks (n + 2) (stp_initialize S) = Inr T" "root_alone T" "length (st_ports T) = length (st_ports S)"
    "st_helloTime T = 0" "currentHelloTime T = 0"
    by blast
  then show ?case
    using tick_alone[OF T(2)] less_imp_le[OF sec_pos] by auto
qed

text \<open>
  The hello period is lost.  The member \<open>helloTime\<close> is first the configured period and then the timer, and on every tick the root
  copies it to \<open>currentHelloTime\<close>; so, whatever period of more than a second is configured, a root that hears nothing sends its
  hellos on every tick from the third on, on all its ports, and announces a hello time of zero in them.
\<close>

theorem hello_period_is_lost:
  assumes "st_isOperational S" "0 < st_maxAge S" "sec < st_helloTime S"
  shows "\<exists>S1 S2. run_ticks (n + 2) (stp_initialize S) = Inr S1 \<and> stp_handleMessage StpTick S1 = Inr S2
    \<and> stp_outs S2 = stp_outs S1 @ map (\<lambda>i. ToRelay (sent_bpdu i S1) \<lparr>rc_src = 0, rc_dest = STP_MULTICAST_ADDRESS, rc_switchPort = i\<rparr>)
        [0..<length (st_ports S)]
    \<and> (\<forall>i. bp_helloTime (sent_bpdu i S1) = 0)"
proof -
  obtain T where T: "run_ticks (n + 2) (stp_initialize S) = Inr T" "root_alone T" "length (st_ports T) = length (st_ports S)"
    "st_helloTime T = 0" "currentHelloTime T = 0"
    using hello_run[OF assms] by blast
  then show ?thesis
    using tick_alone[OF T(2)] less_imp_le[OF sec_pos] by (auto simp: hellos_def sent_bpdu_def)
qed

lemma hello_period_is_lost_witness:
  "\<exists>S1 S2. run_ticks 5 (stp_initialize (example_bridge 1 19 2)) = Inr S1 \<and> stp_handleMessage StpTick S1 = Inr S2
    \<and> length (stp_outs S2) = length (stp_outs S1) + 2"
proof -
  have "st_isOperational (example_bridge 1 19 2)" "0 < st_maxAge (example_bridge 1 19 2)" "sec < st_helloTime (example_bridge 1 19 2)"
    by (simp_all add: example_bridge_def)
  from hello_period_is_lost[OF this, of 3] show ?thesis
    by (auto simp: example_bridge_def)
qed

section \<open>The forward delay\<close>

text \<open>A port after k ticks, when the forward delay is m ticks.\<close>

definition port_phase :: "nat \<Rightarrow> nat \<Rightarrow> port_info \<Rightarrow> bool" where
  "port_phase m k p \<longleftrightarrow>
     (if k < m then pi_state p = DISCARDING \<and> pi_fdWhile p = int k * sec
      else if k < 2 * m then pi_state p = LEARNING \<and> pi_fdWhile p = (int k - int m) * sec
      else pi_state p = FORWARDING)"

lemma port_phase_tick:
  assumes "port_phase m k p" "0 < m" "pi_role p = DESIGNATED"
  shows "port_phase m (Suc k) (forward_check (int m * sec) (tick_port p))"
proof -
  have t: "tick_port p = p\<lparr>pi_fdWhile := pi_fdWhile p + sec\<rparr>"
    using assms(3) by (simp add: tick_port_def)
  have le: "int m * sec \<le> a * sec + sec \<longleftrightarrow> int m \<le> a + 1" for a
    using mult_le_cancel_right_pos[OF sec_pos, of "int m" "a + 1"] by (simp add: distrib_right)
  consider "Suc k < m" | "Suc k = m" | "m \<le> k" "Suc k < 2 * m" | "m \<le> k" "Suc k = 2 * m" | "2 * m \<le> k"
    using assms(2) by linarith
  then show ?thesis
  proof cases
    case 1
    then have p: "pi_state p = DISCARDING" "pi_fdWhile p = int k * sec"
      using assms(1) by (simp_all add: port_phase_def)
    then show ?thesis
      using 1 assms(3) le[of "int k"] by (simp add: port_phase_def forward_check_def t distrib_right)
  next
    case 2
    then have p: "pi_state p = DISCARDING" "pi_fdWhile p = int k * sec"
      using assms(1) by (simp_all add: port_phase_def)
    then show ?thesis
      using 2 assms(2,3) le[of "int k"] by (simp add: port_phase_def forward_check_def t)
  next
    case 3
    then have p: "pi_state p = LEARNING" "pi_fdWhile p = (int k - int m) * sec"
      using assms(1) by (simp_all add: port_phase_def)
    have "(int k - int m) * sec + sec = (int (Suc k) - int m) * sec" "\<not> int m \<le> int k - int m + 1"
      using 3 by (simp_all add: algebra_simps)
    then show ?thesis
      using 3 p assms(3) le[of "int k - int m"] by (simp add: port_phase_def forward_check_def t)
  next
    case 4
    then have p: "pi_state p = LEARNING" "pi_fdWhile p = (int k - int m) * sec"
      using assms by (simp_all add: port_phase_def)
    have "int m \<le> int k - int m + 1"
      using 4 by linarith
    then show ?thesis
      using 4 p assms(3) le[of "int k - int m"] by (simp add: port_phase_def forward_check_def t)
  next
    case 5
    then show ?thesis
      using assms by (simp add: port_phase_def forward_check_def t)
  qed
qed

text \<open>
  C30. A port that is designated and stays so forwards after exactly two forward delays.  In a bridge that hears no other, every
  port discards for the first m ticks, where m ticks are the forward delay, learns for the next m, and forwards from then on.
\<close>

theorem ports_forward_in_time:
  assumes "st_isOperational S" "0 < st_maxAge S" "st_forwardDelay S = int m * sec" "0 < m" "\<forall>p\<in>set (st_ports S). pi_fdWhile p = 0"
  shows "\<exists>S'. run_ticks k (stp_initialize S) = Inr S' \<and> length (st_ports S') = length (st_ports S)
    \<and> (\<forall>p\<in>set (st_ports S'). pi_role p = DESIGNATED
        \<and> pi_state p = (if k < m then DISCARDING else if k < 2 * m then LEARNING else FORWARDING))"
proof -
  note i = initialize_alone[OF assms(1,2)]
  have "\<exists>S'. run_ticks k (stp_initialize S) = Inr S' \<and> root_alone S' \<and> length (st_ports S') = length (st_ports S)
    \<and> currentFwdDelay S' = int m * sec \<and> st_forwardDelay S' = int m * sec \<and> (\<forall>p\<in>set (st_ports S'). port_phase m k p)"
  proof (induction k)
    case 0
    then show ?case
      using i assms(3-5) by (auto simp: port_phase_def initInterfacedata_def)
  next
    case (Suc k)
    then obtain T where T: "run_ticks k (stp_initialize S) = Inr T" "root_alone T" "length (st_ports T) = length (st_ports S)"
      "currentFwdDelay T = int m * sec" "st_forwardDelay T = int m * sec" "\<forall>p\<in>set (st_ports T). port_phase m k p"
      by blast
    have "\<forall>p\<in>set (st_ports T). port_phase m (Suc k) (forward_check (int m * sec) (tick_port p))"
      using T(2,6) assms(4) port_phase_tick by (auto simp: root_alone_def)
    then show ?case
      using tick_alone[OF T(2)] T by auto
  qed
  then obtain S' where "run_ticks k (stp_initialize S) = Inr S'" "root_alone S'" "length (st_ports S') = length (st_ports S)"
    "\<forall>p\<in>set (st_ports S'). port_phase m k p"
    by blast
  then show ?thesis
    by (intro exI[of _ S']) (auto simp: port_phase_def root_alone_def)
qed

lemma ports_forward_in_time_witness:
  "\<exists>S'. run_ticks 30 (stp_initialize (example_bridge 1 19 2)) = Inr S' \<and> list_all (\<lambda>p. pi_state p = FORWARDING) (st_ports S')"
proof -
  have "st_isOperational (example_bridge 1 19 2)" "0 < st_maxAge (example_bridge 1 19 2)"
    "st_forwardDelay (example_bridge 1 19 2) = int 15 * sec" "0 < (15 :: nat)" "\<forall>p\<in>set (st_ports (example_bridge 1 19 2)). pi_fdWhile p = 0"
    by (simp_all add: example_bridge_def example_port_def)
  from ports_forward_in_time[OF this, of 30] show ?thesis
    by (auto simp: list_all_iff)
qed

section \<open>Topology changes\<close>

text \<open>The root never acknowledges a topology change: what it answers to a notification has the other flag.\<close>

lemma root_generates_tc:
  assumes "isRoot S" "topologyChangeNotification S" "generateBPDU i a tc tca S = Inr S1"
  shows "\<exists>r d. S1 = stp_emit (ToRelay r d) S \<and> \<not> bp_tca r \<and> bp_tc r"
proof -
  obtain p where "getPortInterfaceData i S = Inr p"
    using assms(3) by (auto simp: generateBPDU_def bindE_eq_Inr)
  then show ?thesis
    using assms by (simp add: generateBPDU_def Let_def) (auto simp: blank_bpdu_def)
qed

lemma root_does_not_acknowledge:
  assumes "isRoot S" "handleTCN b c S = Inr S'"
  shows "\<exists>r d. stp_outs S' = stp_outs S @ [ToRelay r d] \<and> \<not> bp_tca r \<and> bp_tc r"
proof -
  let ?S = "S\<lparr>topologyChangeNotification := True\<rparr>"
  obtain S1 where S1: "generateBPDU (rc_switchPort c) (rc_src c) False True ?S = Inr S1"
    using assms(2) by (auto simp: handleTCN_def bindE_eq_Inr)
  from root_generates_tc[OF _ _ S1] assms(1) obtain r d where r: "S1 = stp_emit (ToRelay r d) ?S" "\<not> bp_tca r" "bp_tc r"
    by auto
  then have "S' = S1"
    using assms S1 by (simp add: handleTCN_def stp_emit_def)
  then show ?thesis
    using r by (auto simp: stp_emit_def)
qed

end
