(* ===== verification/Bridge_Relay.thy ===== *)
theory Bridge_Relay
  imports Stp_Timers
begin

text \<open>
  The relay of a bridge: \<open>linklayer/ieee8021d/relay/Ieee8021dRelay.cc\<close>.  It passes BPDUs between the network and the spanning tree
  module and forwards all other frames between the ports that the protocol lets forward.  The data of the ports is that of the
  spanning tree module, an argument here; without such a module the relay is not aware of it and every port forwards.
\<close>

datatype payload = BpduPayload bpdu | DataPayload nat

datatype relay_out = RelayFrame nat "payload eth_frame" | RelayToStp bpdu relay_ctrl

record relay =
  rl_portCount :: nat
  rl_isOperational :: bool
  rl_isStpAware :: bool
  rl_bridgeAddress :: u64
  rl_table :: mac_table
  numReceivedNetworkFrames :: nat
  numDroppedFrames :: nat
  numReceivedBPDUsFromSTP :: nat
  numDeliveredBPDUsToSTP :: nat
  numDispatchedNonBPDUFrames :: nat
  numDispatchedBPDUFrames :: nat
  rl_outs :: "relay_out list"

definition rl_emit :: "relay_out \<Rightarrow> relay \<Rightarrow> relay" where
  "rl_emit x R = R\<lparr>rl_outs := rl_outs R @ [x]\<rparr>"

text \<open>NULL when the relay is not aware of the protocol.\<close>

definition rl_portData :: "port_info list \<Rightarrow> nat \<Rightarrow> relay \<Rightarrow> port_info option res" where
  "rl_portData ps i R =
     (if rl_isStpAware R
      then if i < length ps then Inr (Some (ps ! i)) else Inl (RuntimeError ''gate index out of range'')
      else Inr None)"

definition deref :: "port_info option \<Rightarrow> port_info res" where
  "deref x = (case x of Some p \<Rightarrow> Inr p | None \<Rightarrow> Inl (NullPointer ''arrivalPortData''))"

definition rl_forwards :: "port_info option \<Rightarrow> relay \<Rightarrow> bool res" where
  "rl_forwards x R = (if rl_isStpAware R then mapE pi_isForwarding (deref x) else Inr True)"

definition rl_dispatch :: "payload eth_frame \<Rightarrow> nat \<Rightarrow> relay \<Rightarrow> relay res" where
  "rl_dispatch f portNum R =
     (if rl_portCount R \<le> portNum then Inl (RuntimeError ''Output port doesn't exist!'')
      else Inr (rl_emit (RelayFrame portNum f) (R\<lparr>numDispatchedNonBPDUFrames := Suc (numDispatchedNonBPDUFrames R)\<rparr>)))"

fun rl_broadcast :: "port_info list \<Rightarrow> payload eth_frame \<Rightarrow> nat \<Rightarrow> nat list \<Rightarrow> relay \<Rightarrow> relay res" where
  "rl_broadcast ps f arrivalGate [] R = Inr R"
| "rl_broadcast ps f arrivalGate (i # is) R =
     bindE (if i \<noteq> arrivalGate
            then bindE (rl_portData ps i R) (\<lambda>x. bindE (rl_forwards x R) (\<lambda>fw. if fw then rl_dispatch f i R else Inr R))
            else Inr R) (rl_broadcast ps f arrivalGate is)"

definition rl_learn :: "simtime \<Rightarrow> port_info list \<Rightarrow> nat \<Rightarrow> payload eth_frame \<Rightarrow> relay \<Rightarrow> relay res" where
  "rl_learn now ps arrivalGate f R =
     bindE (rl_portData ps arrivalGate R) (\<lambda>x.
       bindE (if rl_isStpAware R then mapE pi_isLearning (deref x) else Inr True) (\<lambda>learning.
         if learning then Inr (R\<lparr>rl_table := snd (updateTableWithAddress now (int arrivalGate) (fr_src f) 0 (rl_table R))\<rparr>)
         else Inr R))"

definition dispatchBPDU :: "bpdu \<Rightarrow> relay_ctrl \<Rightarrow> relay \<Rightarrow> relay res" where
  "dispatchBPDU b c R =
     (if rl_portCount R \<le> rc_switchPort c then Inl (RuntimeError ''Output port doesn't exist!'')
      else Inr (rl_emit (RelayFrame (rc_switchPort c) \<lparr>fr_src = rl_bridgeAddress R, fr_dest = rc_dest c, fr_payload = BpduPayload b\<rparr>)
                  (R\<lparr>numDispatchedBPDUFrames := Suc (numDispatchedBPDUFrames R)\<rparr>)))"

definition deliverBPDU :: "nat \<Rightarrow> payload eth_frame \<Rightarrow> relay \<Rightarrow> relay res" where
  "deliverBPDU arrivalGate f R =
     (case fr_payload f of
        DataPayload _ \<Rightarrow> Inl (RuntimeError ''check_and_cast: cannot cast to BPDU'')
      | BpduPayload b \<Rightarrow> Inr (rl_emit (RelayToStp b \<lparr>rc_src = fr_src f, rc_dest = fr_dest f, rc_switchPort = arrivalGate\<rparr>)
                              (R\<lparr>numDeliveredBPDUsToSTP := Suc (numDeliveredBPDUsToSTP R)\<rparr>)))"

definition rl_drop :: "relay \<Rightarrow> relay" where
  "rl_drop R = R\<lparr>numDroppedFrames := Suc (numDroppedFrames R)\<rparr>"

text \<open>A negative port other than -1 becomes a large unsigned number, which is no port.\<close>

definition rl_handleAndDispatchFrame :: "simtime \<Rightarrow> port_info list \<Rightarrow> nat \<Rightarrow> payload eth_frame \<Rightarrow> relay \<Rightarrow> relay res" where
  "rl_handleAndDispatchFrame now ps arrivalGate f R0 =
     bindE (rl_portData ps arrivalGate R0) (\<lambda>arrivalPortData.
     bindE (rl_learn now ps arrivalGate f R0) (\<lambda>R.
     bindE (if fr_dest f = STP_MULTICAST_ADDRESS \<or> fr_dest f = rl_bridgeAddress R
            then mapE (\<lambda>p. pi_role p \<noteq> DISABLED) (deref arrivalPortData) else Inr False) (\<lambda>for_bridge.
     if for_bridge then deliverBPDU arrivalGate f R
     else bindE (rl_forwards arrivalPortData R) (\<lambda>fw.
       if \<not> fw then Inr (rl_drop R)
       else if mac_isBroadcast (fr_dest f) then rl_broadcast ps f arrivalGate [0..<rl_portCount R] R
       else
        let (outGate, T) = getPortForAddress now (fr_dest f) 0 (rl_table R);
            R1 = R\<lparr>rl_table := T\<rparr>
        in if outGate = -1 then rl_broadcast ps f arrivalGate [0..<rl_portCount R] R1
           else if outGate < 0 then Inl (RuntimeError ''gate index out of range'')
           else if outGate \<noteq> int arrivalGate
           then bindE (rl_portData ps (nat outGate) R1) (\<lambda>outPortData.
                  bindE (rl_forwards outPortData R1) (\<lambda>ofw.
                    if ofw then rl_dispatch f (nat outGate) R1 else Inr (rl_drop R1)))
           else Inr (rl_drop R1)))))"

datatype relay_message = FromStp bpdu relay_ctrl | FromNetwork nat "payload eth_frame" | RelaySelfMessage

definition rl_handleMessage :: "simtime \<Rightarrow> port_info list \<Rightarrow> relay_message \<Rightarrow> relay \<Rightarrow> relay res" where
  "rl_handleMessage now ps msg R =
     (if \<not> rl_isOperational R then Inr R
      else case msg of
        FromStp b c \<Rightarrow> dispatchBPDU b c (R\<lparr>numReceivedBPDUsFromSTP := Suc (numReceivedBPDUsFromSTP R)\<rparr>)
      | FromNetwork i f \<Rightarrow> rl_handleAndDispatchFrame now ps i f (R\<lparr>numReceivedNetworkFrames := Suc (numReceivedNetworkFrames R)\<rparr>)
      | RelaySelfMessage \<Rightarrow> Inl (RuntimeError ''This module doesn't handle self-messages!''))"

definition rl_start :: "u64 option \<Rightarrow> relay \<Rightarrow> relay res" where
  "rl_start mac R =
     (case mac of
        None \<Rightarrow> Inl (RuntimeError ''No non-loopback interface found!'')
      | Some a \<Rightarrow> Inr (R\<lparr>rl_isOperational := True, rl_bridgeAddress := a, rl_table := clearTable (rl_table R)\<rparr>))"

definition rl_stop :: "relay \<Rightarrow> relay" where
  "rl_stop R = R\<lparr>rl_isOperational := False, rl_table := clearTable (rl_table R)\<rparr>"

section \<open>What may leave the bridge\<close>

text \<open>The frames that a step adds, with the port each leaves by.\<close>

definition allowed :: "port_info list \<Rightarrow> nat \<Rightarrow> payload eth_frame \<Rightarrow> relay \<Rightarrow> relay_out \<Rightarrow> bool" where
  "allowed ps arrivalGate f R x \<longleftrightarrow>
     (case x of
        RelayFrame i f' \<Rightarrow> f' = f \<and> i \<noteq> arrivalGate \<and> i < rl_portCount R
          \<and> (rl_isStpAware R \<longrightarrow> pi_isForwarding (ps ! arrivalGate) \<and> pi_isForwarding (ps ! i))
      | RelayToStp b c \<Rightarrow> fr_payload f = BpduPayload b \<and> rc_switchPort c = arrivalGate \<and> pi_role (ps ! arrivalGate) \<noteq> DISABLED)"

lemma rl_broadcast_allowed:
  assumes "rl_broadcast ps f g is R = Inr R'" "rl_isStpAware R \<longrightarrow> pi_isForwarding (ps ! g)"
  shows "\<exists>xs. rl_outs R' = rl_outs R @ xs \<and> (\<forall>x\<in>set xs. allowed ps g f R x) \<and> (distinct is \<longrightarrow> distinct xs)
    \<and> (\<forall>i h. RelayFrame i h \<in> set xs \<longrightarrow> i \<in> set is)"
  using assms
proof (induction "is" arbitrary: R)
  case Nil
  then show ?case by simp
next
  case (Cons i js)
  obtain R1 where R1: "rl_broadcast ps f g js R1 = Inr R'"
    "R1 = R \<or> rl_outs R1 = rl_outs R @ [RelayFrame i f] \<and> allowed ps g f R (RelayFrame i f)
       \<and> rl_isStpAware R1 = rl_isStpAware R \<and> rl_portCount R1 = rl_portCount R"
    using Cons.prems
    by (auto simp: res_simps rl_portData_def rl_forwards_def deref_def rl_dispatch_def rl_emit_def allowed_def split: if_splits)
  then have aw: "rl_isStpAware R1 = rl_isStpAware R" "allowed ps g f R1 = allowed ps g f R"
    by (auto simp: allowed_def fun_eq_iff split: relay_out.splits)
  obtain xs where xs: "rl_outs R' = rl_outs R1 @ xs" "\<forall>x\<in>set xs. allowed ps g f R1 x" "distinct js \<longrightarrow> distinct xs"
    "\<forall>i h. RelayFrame i h \<in> set xs \<longrightarrow> i \<in> set js"
    using Cons.IH[OF R1(1)] Cons.prems(2) aw(1) by auto
  show ?case
  proof (cases "R1 = R")
    case True
    then show ?thesis
      using xs by (intro exI[of _ xs]) auto
  next
    case False
    then show ?thesis
      using R1(2) xs aw(2) by (intro exI[of _ "RelayFrame i f # xs"]) auto
  qed
qed

text \<open>
  C31. The relay keeps to the spanning tree.  A frame from the network that is handled without an error leaves by no port twice,
  never by the one it came from, and, when there is a spanning tree module, only from a forwarding port to forwarding ports;
  only a BPDU that came in at a port that is not disabled is given to the spanning tree module, with that port.
\<close>

theorem relay_respects_spanning_tree:
  assumes "rl_handleMessage now ps (FromNetwork g f) R = Inr R'"
  shows "\<exists>xs. rl_outs R' = rl_outs R @ xs \<and> (\<forall>x\<in>set xs. allowed ps g f R x) \<and> distinct xs"
proof -
  let ?R = "R\<lparr>numReceivedNetworkFrames := Suc (numReceivedNetworkFrames R)\<rparr>"
  show ?thesis
  proof (cases "rl_isOperational R")
    case False
    then show ?thesis
      using assms by (simp add: rl_handleMessage_def)
  next
    case True
    obtain x R1 where x: "rl_portData ps g ?R = Inr x" and R1: "rl_learn now ps g f ?R = Inr R1"
      using assms True by (auto simp: rl_handleMessage_def rl_handleAndDispatchFrame_def bindE_eq_Inr)
    have f1: "rl_outs R1 = rl_outs R" "rl_isStpAware R1 = rl_isStpAware R" "rl_portCount R1 = rl_portCount R"
      using R1 by (auto simp: rl_learn_def res_simps split: if_splits)
    have x': "x = (if rl_isStpAware R then Some (ps ! g) else None)"
      using x by (auto simp: rl_portData_def split: if_splits)
    have fw: "rl_forwards x R1 = Inr b \<Longrightarrow> b = (rl_isStpAware R \<longrightarrow> pi_isForwarding (ps ! g))" for b
      by (auto simp: rl_forwards_def x' f1 deref_def split: if_splits)
    obtain fb where fb: "(if fr_dest f = STP_MULTICAST_ADDRESS \<or> fr_dest f = rl_bridgeAddress R1
            then mapE (\<lambda>p. pi_role p \<noteq> DISABLED) (deref x) else Inr False) = Inr fb"
      using assms True x R1 by (auto simp: rl_handleMessage_def rl_handleAndDispatchFrame_def bindE_eq_Inr simp del: if_split)
    have bc: "rl_broadcast ps f g [0..<n] R2 = Inr R' \<Longrightarrow> ?thesis"
      if "rl_isStpAware R \<longrightarrow> pi_isForwarding (ps ! g)" "rl_outs R2 = rl_outs R" "rl_isStpAware R2 = rl_isStpAware R"
        "rl_portCount R2 = rl_portCount R" for n R2
    proof -
      assume "rl_broadcast ps f g [0..<n] R2 = Inr R'"
      moreover have "allowed ps g f R2 = allowed ps g f R"
        using that by (simp add: allowed_def fun_eq_iff split: relay_out.splits)
      ultimately show ?thesis
        using rl_broadcast_allowed[of ps f g "[0..<n]" R2 R'] that by auto
    qed
    show ?thesis
    proof (cases fb)
      case True
      then have "deliverBPDU g f R1 = Inr R'" "rl_isStpAware R" "pi_role (ps ! g) \<noteq> DISABLED"
        using assms \<open>rl_isOperational R\<close> x R1 fb
        by (auto simp: rl_handleMessage_def rl_handleAndDispatchFrame_def x' deref_def split: if_splits)
      then show ?thesis
        by (auto simp: deliverBPDU_def f1 rl_emit_def allowed_def split: payload.splits)
    next
      case False
      obtain b where b: "rl_forwards x R1 = Inr b"
        using assms \<open>rl_isOperational R\<close> x R1 fb False
        by (auto simp: rl_handleMessage_def rl_handleAndDispatchFrame_def bindE_eq_Inr simp del: if_split)
      obtain outGate T where get: "getPortForAddress now (fr_dest f) 0 (rl_table R1) = (outGate, T)"
        by fastforce
      have step: "(if \<not> b then Inr (rl_drop R1)
       else if mac_isBroadcast (fr_dest f) then rl_broadcast ps f g [0..<rl_portCount R1] R1
       else if outGate = -1 then rl_broadcast ps f g [0..<rl_portCount R1] (R1\<lparr>rl_table := T\<rparr>)
       else if outGate < 0 then Inl (RuntimeError ''gate index out of range'')
       else if outGate \<noteq> int g
       then bindE (rl_portData ps (nat outGate) (R1\<lparr>rl_table := T\<rparr>)) (\<lambda>y.
              bindE (rl_forwards y (R1\<lparr>rl_table := T\<rparr>)) (\<lambda>ofw.
                if ofw then rl_dispatch f (nat outGate) (R1\<lparr>rl_table := T\<rparr>) else Inr (rl_drop (R1\<lparr>rl_table := T\<rparr>))))
       else Inr (rl_drop (R1\<lparr>rl_table := T\<rparr>))) = Inr R'"
        using assms \<open>rl_isOperational R\<close> x R1 fb False b get
        by (simp add: rl_handleMessage_def rl_handleAndDispatchFrame_def Let_def cong: if_cong)
      let ?R1 = "R1\<lparr>rl_table := T\<rparr>"
      have same: "rl_outs R1 = rl_outs R" "rl_outs ?R1 = rl_outs R" "rl_isStpAware ?R1 = rl_isStpAware R" "rl_portCount ?R1 = rl_portCount R"
        using f1 by simp_all
      consider (drop) "rl_outs R' = rl_outs R"
        | (flood) n R2 where "rl_broadcast ps f g [0..<n] R2 = Inr R'" "b" "rl_outs R2 = rl_outs R" "rl_isStpAware R2 = rl_isStpAware R"
            "rl_portCount R2 = rl_portCount R"
        | (known) y where "b" "outGate \<noteq> int g" "rl_portData ps (nat outGate) ?R1 = Inr y" "rl_forwards y ?R1 = Inr True"
            "rl_dispatch f (nat outGate) ?R1 = Inr R'" "0 \<le> outGate"
        using step same f1 by (auto simp: rl_drop_def bindE_eq_Inr split: if_splits)
      then show ?thesis
      proof cases
        case drop
        then show ?thesis
          by (intro exI[of _ "[]"]) simp
      next
        case flood
        then show ?thesis
          using bc fw[OF b] by blast
      next
        case known
        then have "nat outGate \<noteq> g"
          by linarith
        then have "allowed ps g f R (RelayFrame (nat outGate) f)"
          using known fw[OF b] same
          by (auto simp: allowed_def rl_dispatch_def rl_forwards_def rl_portData_def deref_def split: if_splits)
        then show ?thesis
          using known same by (auto simp: rl_dispatch_def rl_emit_def split: if_splits)
      qed
    qed
  qed
qed


definition relay_example :: "bool \<Rightarrow> relay" where
  "relay_example aware = \<lparr>rl_portCount = 3, rl_isOperational = True, rl_isStpAware = aware, rl_bridgeAddress = 7, rl_table = new_mac_table 120,
     numReceivedNetworkFrames = 0, numDroppedFrames = 0, numReceivedBPDUsFromSTP = 0, numDeliveredBPDUsToSTP = 0,
     numDispatchedNonBPDUFrames = 0, numDispatchedBPDUFrames = 0, rl_outs = []\<rparr>"

lemma relay_respects_spanning_tree_witness:
  "\<exists>R'. rl_handleMessage 0 [(example_port 1)\<lparr>pi_state := FORWARDING\<rparr>, example_port 1, (example_port 1)\<lparr>pi_state := FORWARDING\<rparr>]
      (FromNetwork 0 \<lparr>fr_src = 1, fr_dest = 2, fr_payload = DataPayload 5\<rparr>) (relay_example True) = Inr R'
    \<and> (\<forall>f. RelayFrame 1 f \<notin> set (rl_outs R'))"
proof -
  let ?ps = "[(example_port 1)\<lparr>pi_state := FORWARDING\<rparr>, example_port 1, (example_port 1)\<lparr>pi_state := FORWARDING\<rparr>]"
  let ?f = "\<lparr>fr_src = 1, fr_dest = 2, fr_payload = DataPayload 5\<rparr> :: payload eth_frame"
  have "isl (rl_handleMessage 0 ?ps (FromNetwork 0 ?f) (relay_example True)) = False"
    by code_simp
  then obtain R' where R': "rl_handleMessage 0 ?ps (FromNetwork 0 ?f) (relay_example True) = Inr R'"
    by (cases "rl_handleMessage 0 ?ps (FromNetwork 0 ?f) (relay_example True)") auto
  from relay_respects_spanning_tree[OF R'] obtain xs where xs: "rl_outs R' = xs" "\<forall>x\<in>set xs. allowed ?ps 0 ?f (relay_example True) x"
    by (auto simp: relay_example_def)
  have "\<not> allowed ?ps 0 ?f (relay_example True) (RelayFrame 1 f)" for f
    by (simp add: allowed_def relay_example_def example_port_def pi_isForwarding_def)
  then show ?thesis
    using R' xs by blast
qed

text \<open>
  A relay without a spanning tree module breaks down on BPDUs.  It has no data of the arrival port, but asks it for its role
  whenever a frame is sent to the spanning tree group or to the bridge itself, and so uses a null pointer.
\<close>

theorem unaware_relay_breaks_on_bpdus:
  assumes "rl_isOperational R" "\<not> rl_isStpAware R" "fr_dest f \<in> {STP_MULTICAST_ADDRESS, rl_bridgeAddress R}"
  shows "rl_handleMessage now ps (FromNetwork g f) R = Inl (NullPointer ''arrivalPortData'')"
  using assms
  by (auto simp: rl_handleMessage_def rl_handleAndDispatchFrame_def rl_portData_def rl_learn_def deref_def)

lemma unaware_relay_breaks_on_bpdus_witness:
  "rl_handleMessage 0 [] (FromNetwork 0 \<lparr>fr_src = 1, fr_dest = STP_MULTICAST_ADDRESS, fr_payload = BpduPayload blank_bpdu\<rparr>) (relay_example False)
    = Inl (NullPointer ''arrivalPortData'')"
  by (rule unaware_relay_breaks_on_bpdus) (simp_all add: relay_example_def)

text \<open>A frame for the bridge itself that is no BPDU stops the simulation of a bridge with the protocol, too.\<close>

lemma data_for_the_bridge_is_an_error:
  assumes "rl_isOperational R" "rl_isStpAware R" "g < length ps" "pi_role (ps ! g) \<noteq> DISABLED" "fr_payload f = DataPayload d"
    and "fr_dest f = rl_bridgeAddress R"
  shows "rl_handleMessage now ps (FromNetwork g f) R = Inl (RuntimeError ''check_and_cast: cannot cast to BPDU'')"
  using assms by (simp add: rl_handleMessage_def rl_handleAndDispatchFrame_def rl_portData_def rl_learn_def deref_def deliverBPDU_def)

end
