(* ===== verification/Rip.thy ===== *)
theory Rip
  imports Ip_Routing
begin

text \<open>
  The Routing Information Protocol, \<open>networklayer/routing/rip/RIPRouting.cc\<close>, on the routing table of \<open>Ip_Routing\<close>, for IPv4
  addresses.  An interface is known by its id; a \<open>RIPRoute\<close> by its place in the vector \<open>ripRoutes\<close>, and the \<open>IPv4Route\<close> it
  points to by the pointer that it has in the table.  The code that writes through a pointer to a route that has left the
  table is undefined.  The source of a route is the module itself where its type is \<open>RIP\<close>, and the interface where it is
  \<open>IFACENETMASK\<close>: nobody else sets these types.

  The notifications of the table reach \<open>receiveChangeNotification\<close> at once; those of the operations of the module itself
  are heard at the end of the operation, where only the deletion of a route of another source matters: a new default route
  replaces the old one.  What the selectors of \<open>ripConfig\<close> find for an interface is a parameter, and so are the random
  delays.
\<close>

section \<open>Data\<close>

datatype route_type =
  RIP_ROUTE_RTE | RIP_ROUTE_STATIC | RIP_ROUTE_DEFAULT | RIP_ROUTE_REDISTRIBUTE | RIP_ROUTE_INTERFACE

definition RIP_INFINITE_METRIC :: int where "RIP_INFINITE_METRIC = 16"

record rip_route =
  rr_type :: route_type
  rr_route :: "nat option"
  rr_dest :: ip4
  rr_prefixLength :: int
  rr_nextHop :: ip4
  rr_ie :: "int option"
  rr_from :: ip4
  rr_metric :: int
  rr_tag :: u16
  rr_changed :: bool
  rr_lastUpdateTime :: simtime

definition new_rip_route :: "ipv4_route \<Rightarrow> route_type \<Rightarrow> int \<Rightarrow> u16 \<Rightarrow> rip_route" where
  "new_rip_route r ty m tag =
     \<lparr>rr_type = ty, rr_route = Some (rt_ptr r), rr_dest = rt_dest r, rr_prefixLength = getNetmaskLength (rt_netmask r),
      rr_nextHop = rt_gateway r, rr_ie = rt_interface r, rr_from = 0, rr_metric = m, rr_tag = tag, rr_changed = False,
      rr_lastUpdateTime = 0\<rparr>"

datatype rip_horizon = NO_RIP | NO_SPLIT_HORIZON | SPLIT_HORIZON | SPLIT_HORIZON_POISONED_REVERSE

record rip_interface =
  ri_ie :: int
  ri_metric :: int
  ri_mode :: rip_horizon

text \<open>The matching \<open>interface\<close> element: its attributes \<open>metric\<close>, read by \<open>atoi\<close>, and \<open>mode\<close>.\<close>

type_synonym rip_config = "int option \<times> string option"

definition new_rip_interface :: "interface_entry \<Rightarrow> rip_interface res" where
  "new_rip_interface ie =
     assertE (\<not> ie_loopback ie) ''!ie->isLoopback()''
       (assertE (ie_multicast ie) ''ie->isMulticast()'' (Inr \<lparr>ri_ie = interfaceId ie, ri_metric = 1, ri_mode = NO_RIP\<rparr>))"

definition rip_mode_of :: "string option \<Rightarrow> rip_horizon res" where
  "rip_mode_of a =
     (case a of None \<Rightarrow> Inr SPLIT_HORIZON_POISONED_REVERSE
      | Some m \<Rightarrow>
          if m = ''NoRIP'' then Inr NO_RIP
          else if m = ''NoSplitHorizon'' then Inr NO_SPLIT_HORIZON
          else if m = ''SplitHorizon'' then Inr SPLIT_HORIZON
          else if m = ''SplitHorizonPoisonedReverse'' then Inr SPLIT_HORIZON_POISONED_REVERSE
          else Inl (RuntimeError ''RIP: invalid split-horizon-mode attribute''))"

definition rip_configure :: "rip_config \<Rightarrow> rip_interface \<Rightarrow> rip_interface res" where
  "rip_configure c i =
     (case fst c of
        Some m \<Rightarrow> if m < 1 \<or> m \<ge> RIP_INFINITE_METRIC then Inl (RuntimeError ''RIP: invalid metric in <interface> element'')
                  else mapE (\<lambda>h. i\<lparr>ri_metric := m, ri_mode := h\<rparr>) (rip_mode_of (snd c))
      | None \<Rightarrow> mapE (\<lambda>h. i\<lparr>ri_mode := h\<rparr>) (rip_mode_of (snd c)))"

definition RIP_REQUEST :: u8 where "RIP_REQUEST = 1"
definition RIP_RESPONSE :: u8 where "RIP_RESPONSE = 2"
definition RIP_AF_NONE :: u16 where "RIP_AF_NONE = 0"
definition RIP_AF_INET :: u16 where "RIP_AF_INET = 2"

record rip_entry =
  re_addressFamilyId :: u16
  re_routeTag :: u16
  re_address :: ip4
  re_prefixLength :: int
  re_nextHop :: ip4
  re_metric :: u32

record rip_packet =
  rp_command :: u8
  rp_entry :: "rip_entry list"
  rp_byteLength :: int

text \<open>What goes to the socket; a datagram has its destination, port, and the outgoing interface where that is given.\<close>

datatype rip_out =
    Rip_datagram rip_packet ip4 int "int option"
  | Rip_ttl int | Rip_multicast_loop bool | Rip_bind int | Rip_join ip4 int | Rip_close | Rip_shutdown_complete

datatype rip_version = RIPv2 | RIPng

definition ALL_RIP_ROUTERS_MCAST :: ip4 where "ALL_RIP_ROUTERS_MCAST = ip4_set 224 0 0 9"

record rip =
  rip_rt :: routing_table
  ripInterfaces :: "rip_interface list"
  ripRoutes :: "rip_route list"
  updateTimer :: "simtime option"
  triggeredUpdateTimer :: "simtime option"
  startupTimer :: "simtime option"
  shutdownTimer :: "simtime option"
  rip_version :: rip_version
  ripUdpPort :: int
  updateInterval :: simtime
  routeExpiryTime :: simtime
  routePurgeTime :: simtime
  shutdownTime :: simtime
  rip_operational :: bool
  rip_subscribed :: bool
  rip_now :: simtime
  triggerDelay :: "nat \<Rightarrow> simtime"
  delayReads :: nat
  rip_sent :: "rip_out list"

definition rip_emit :: "rip_out \<Rightarrow> rip \<Rightarrow> rip" where
  "rip_emit x s = s\<lparr>rip_sent := rip_sent s @ [x]\<rparr>"

definition change_rip :: "nat \<Rightarrow> (rip_route \<Rightarrow> rip_route) \<Rightarrow> rip \<Rightarrow> rip" where
  "change_rip i f s = s\<lparr>ripRoutes := (ripRoutes s)[i := f (ripRoutes s ! i)]\<rparr>"

section \<open>Look-ups\<close>

definition findInterfaceById :: "int \<Rightarrow> rip \<Rightarrow> rip_interface option" where
  "findInterfaceById i s = find (\<lambda>r. ri_ie r = i) (ripInterfaces s)"

text \<open>The four \<open>findRoute\<close>: by prefix, by prefix and type, by the route of the table, and by interface and type.\<close>

fun find_index :: "('a \<Rightarrow> bool) \<Rightarrow> 'a list \<Rightarrow> nat option" where
  "find_index P [] = None"
| "find_index P (x # xs) = (if P x then Some 0 else map_option Suc (find_index P xs))"

definition findRoute :: "ip4 \<Rightarrow> int \<Rightarrow> rip \<Rightarrow> nat option" where
  "findRoute d n s = find_index (\<lambda>r. rr_dest r = d \<and> rr_prefixLength r = n) (ripRoutes s)"

definition findRoute_typed :: "ip4 \<Rightarrow> int \<Rightarrow> route_type \<Rightarrow> rip \<Rightarrow> nat option" where
  "findRoute_typed d n ty s = find_index (\<lambda>r. rr_type r = ty \<and> rr_dest r = d \<and> rr_prefixLength r = n) (ripRoutes s)"

definition findRoute_of :: "nat \<Rightarrow> rip \<Rightarrow> nat option" where
  "findRoute_of p s = find_index (\<lambda>r. rr_route r = Some p) (ripRoutes s)"

definition findRoute_on :: "int \<Rightarrow> route_type \<Rightarrow> rip \<Rightarrow> nat option" where
  "findRoute_on i ty s = find_index (\<lambda>r. rr_type r = ty \<and> rr_ie r = Some i) (ripRoutes s)"

definition getInterfaceMetric :: "int \<Rightarrow> rip \<Rightarrow> int" where
  "getInterfaceMetric i s = (case findInterfaceById i s of Some r \<Rightarrow> ri_metric r | None \<Rightarrow> 1)"

definition isLoopbackInterfaceRoute :: "ipv4_route \<Rightarrow> rip \<Rightarrow> bool" where
  "isLoopbackInterfaceRoute r s =
     (case rt_interface r of None \<Rightarrow> False
      | Some i \<Rightarrow> (case find_interface i (ift (rip_rt s)) of None \<Rightarrow> False | Some ie \<Rightarrow> ie_loopback ie))"

definition source_interface :: "ipv4_route \<Rightarrow> int option" where
  "source_interface r = (if rt_sourceType r = IFACENETMASK then rt_interface r else None)"

definition isLocalInterfaceRoute :: "ipv4_route \<Rightarrow> rip \<Rightarrow> bool" where
  "isLocalInterfaceRoute r s = (source_interface r \<noteq> None \<and> \<not> isLoopbackInterfaceRoute r s)"

definition isDefaultRoute :: "ipv4_route \<Rightarrow> bool" where
  "isDefaultRoute r \<longleftrightarrow> ip4_isUnspecified (rt_netmask r)"

section \<open>Changes of routes\<close>

text \<open>The updates are sent after a delay, unless the regular update is due by then.\<close>

definition triggerUpdate :: "rip \<Rightarrow> rip" where
  "triggerUpdate s =
     (case triggeredUpdateTimer s of
        Some _ \<Rightarrow> s
      | None \<Rightarrow>
          let updateTime = rip_now s + triggerDelay s (delayReads s); s' = s\<lparr>delayReads := Suc (delayReads s)\<rparr> in
          if (case updateTimer s of None \<Rightarrow> True | Some u \<Rightarrow> u > updateTime)
          then s'\<lparr>triggeredUpdateTimer := Some updateTime\<rparr> else s')"

definition mark_invalid :: "nat \<Rightarrow> rip \<Rightarrow> rip" where
  "mark_invalid i s = triggerUpdate (change_rip i (\<lambda>r. r\<lparr>rr_metric := RIP_INFINITE_METRIC, rr_changed := True\<rparr>) s)"

text \<open>\<open>NF_IPv4_ROUTE_DELETED\<close>: \<open>invalidateRoute\<close> finds no route of the table any more.\<close>

fun forget_route :: "nat \<Rightarrow> nat list \<Rightarrow> rip \<Rightarrow> rip" where
  "forget_route p [] s = s"
| "forget_route p (i # is) s =
     forget_route p is
       (if rr_route (ripRoutes s ! i) = Some p then mark_invalid i (change_rip i (rr_route_update (\<lambda>_. None)) s) else s)"

definition hear_deleted :: "ipv4_route \<Rightarrow> rip \<Rightarrow> rip" where
  "hear_deleted r s =
     (if rt_sourceType r = RIP then s else forget_route (rt_ptr r) [0..<length (ripRoutes s)] s)"

fun hear_deletions :: "rt_note list \<Rightarrow> rip \<Rightarrow> rip" where
  "hear_deletions [] s = s"
| "hear_deletions (ROUTE_DELETED r # ns) s = hear_deletions ns (hear_deleted r s)"
| "hear_deletions (_ # ns) s = hear_deletions ns s"

definition with_table :: "(routing_table \<Rightarrow> routing_table res) \<Rightarrow> rip \<Rightarrow> rip res" where
  "with_table f s =
     mapE (\<lambda>T. hear_deletions (drop (length (rt_notes (rip_rt s))) (rt_notes T)) (s\<lparr>rip_rt := T\<rparr>)) (f (rip_rt s))"

definition rip_deleteRoute :: "nat \<Rightarrow> rip \<Rightarrow> rip res" where
  "rip_deleteRoute p = with_table (\<lambda>T. Inr (snd (deleteRoute p T)))"

definition rip_addTableRoute :: "ip4 \<Rightarrow> int \<Rightarrow> int \<Rightarrow> ip4 \<Rightarrow> int \<Rightarrow> rip \<Rightarrow> (nat \<times> rip) res" where
  "rip_addTableRoute dest n ie nextHop metric s =
     bindE (makeNetmask n) (\<lambda>mask.
       let p = nextPtr (rip_rt s);
           e = \<lparr>rt_ptr = p, rt_dest = dest, rt_netmask = mask, rt_gateway = nextHop, rt_interface = Some ie,
                rt_sourceType = RIP, rt_adminDist = dUnknown, rt_metric = metric\<rparr>
       in mapE (\<lambda>s'. (p, s')) (with_table (addRoute e) (s\<lparr>rip_rt := (rip_rt s)\<lparr>nextPtr := Suc p\<rparr>\<rparr>)))"

text \<open>The setters of \<open>RIPRoute\<close>: those of a learned route write to the route of the table too.\<close>

definition write_through :: "(nat \<Rightarrow> routing_table \<Rightarrow> routing_table res) \<Rightarrow> nat \<Rightarrow> rip \<Rightarrow> rip res" where
  "write_through f i s =
     (case rr_route (ripRoutes s ! i) of
        None \<Rightarrow> Inr s
      | Some p \<Rightarrow>
          if rr_type (ripRoutes s ! i) \<noteq> RIP_ROUTE_RTE then Inr s
          else if route_at p (rip_rt s) = None then Inl (Undefined ''dangling pointer to a route'')
          else with_table (f p) s)"

definition rip_setNextHop :: "ip4 \<Rightarrow> nat \<Rightarrow> rip \<Rightarrow> rip res" where
  "rip_setNextHop a i s = write_through (setGateway a) i (change_rip i (rr_nextHop_update (\<lambda>_. a)) s)"

definition rip_setInterface :: "int option \<Rightarrow> nat \<Rightarrow> rip \<Rightarrow> rip res" where
  "rip_setInterface ie i s = write_through (setInterface ie) i (change_rip i (rr_ie_update (\<lambda>_. ie)) s)"

definition rip_setMetric :: "int \<Rightarrow> nat \<Rightarrow> rip \<Rightarrow> rip res" where
  "rip_setMetric m i s = write_through (setMetric m) i (change_rip i (rr_metric_update (\<lambda>_. m)) s)"

definition invalidateRoute :: "nat \<Rightarrow> rip \<Rightarrow> rip res" where
  "invalidateRoute i s =
     mapE (mark_invalid i)
       (case rr_route (ripRoutes s ! i) of
          None \<Rightarrow> Inr s
        | Some p \<Rightarrow> rip_deleteRoute p (change_rip i (rr_route_update (\<lambda>_. None)) s))"

definition purgeRoute :: "nat \<Rightarrow> rip \<Rightarrow> rip res" where
  "purgeRoute i s =
     assertE (rr_type (ripRoutes s ! i) = RIP_ROUTE_RTE) ''purgeRoute: RIP_ROUTE_RTE''
       (mapE (\<lambda>s'. s'\<lparr>ripRoutes := take i (ripRoutes s') @ drop (Suc i) (ripRoutes s')\<rparr>)
         (case rr_route (ripRoutes s ! i) of
            None \<Rightarrow> Inr s
          | Some p \<Rightarrow> rip_deleteRoute p (change_rip i (rr_route_update (\<lambda>_. None)) s)))"

datatype expiry = Valid | Invalidated | Purged

definition checkRouteIsExpired :: "nat \<Rightarrow> rip \<Rightarrow> (expiry \<times> rip) res" where
  "checkRouteIsExpired i s =
     (let r = ripRoutes s ! i in
      if rr_type r = RIP_ROUTE_RTE \<and> rip_now s \<ge> rr_lastUpdateTime r + routeExpiryTime s + routePurgeTime s
      then mapE (\<lambda>s'. (Purged, s')) (purgeRoute i s)
      else if rr_type r = RIP_ROUTE_RTE \<and> rip_now s \<ge> rr_lastUpdateTime r + routeExpiryTime s
      then mapE (\<lambda>s'. (Invalidated, s')) (invalidateRoute i s)
      else Inr (Valid, s))"

definition importRoute :: "ipv4_route \<Rightarrow> route_type \<Rightarrow> int \<Rightarrow> u16 \<Rightarrow> rip \<Rightarrow> rip res" where
  "importRoute r ty m tag s =
     assertE (m < RIP_INFINITE_METRIC) ''metric < RIP_INFINITE_METRIC''
       (let x = new_rip_route r ty m tag;
            x' = (if ty = RIP_ROUTE_INTERFACE then x\<lparr>rr_ie := source_interface r\<rparr> else x)
        in Inr (s\<lparr>ripRoutes := ripRoutes s @ [x']\<rparr>))"

definition rip_addRoute :: "ip4 \<Rightarrow> int \<Rightarrow> int \<Rightarrow> ip4 \<Rightarrow> int \<Rightarrow> u16 \<Rightarrow> ip4 \<Rightarrow> rip \<Rightarrow> rip res" where
  "rip_addRoute dest n ie nextHop metric tag from s =
     bindE (rip_addTableRoute dest n ie nextHop metric s) (\<lambda>(p, s1).
       case route_at p (rip_rt s1) of
         None \<Rightarrow> Inl (NullPointer ''route'')
       | Some r \<Rightarrow>
           Inr (triggerUpdate (s1\<lparr>ripRoutes := ripRoutes s1 @
             [(new_rip_route r RIP_ROUTE_RTE metric tag)\<lparr>rr_from := from, rr_lastUpdateTime := rip_now s, rr_changed := True\<rparr>]\<rparr>)))"

text \<open>\<open>updateRoute\<close>: the new metric is written to the route of the table before that is replaced by a new one.\<close>

definition adopt_route :: "nat \<Rightarrow> int \<Rightarrow> ip4 \<Rightarrow> int \<Rightarrow> rip \<Rightarrow> rip res" where
  "adopt_route i ie nextHop metric s =
     (let r = ripRoutes s ! i in
      mapE (\<lambda>(p, s'). change_rip i (rr_route_update (\<lambda>_. Some p)) s')
        (rip_addTableRoute (rr_dest r) (rr_prefixLength r) ie nextHop metric s))"

definition revive_route :: "nat \<Rightarrow> int \<Rightarrow> ip4 \<Rightarrow> int \<Rightarrow> rip \<Rightarrow> rip res" where
  "revive_route i ie nextHop metric s =
     assertE (rr_route (ripRoutes s ! i) = None) ''!ripRoute->getRoute()''
       (bindE (rip_setNextHop nextHop i (change_rip i (rr_type_update (\<lambda>_. RIP_ROUTE_RTE)) s))
         (adopt_route i ie nextHop metric))"

definition replace_route :: "nat \<Rightarrow> int \<Rightarrow> ip4 \<Rightarrow> int \<Rightarrow> rip \<Rightarrow> rip res" where
  "replace_route i ie nextHop metric s =
     (case rr_route (ripRoutes s ! i) of
        None \<Rightarrow> Inl (AssertFailed ''route'')
      | Some p \<Rightarrow>
          bindE (rip_deleteRoute p (change_rip i (rr_route_update (\<lambda>_. None)) s)) (\<lambda>s1.
          bindE (rip_setNextHop nextHop i s1) (\<lambda>s2.
            if metric < RIP_INFINITE_METRIC then adopt_route i ie nextHop metric s2 else Inr s2)))"

definition updateRoute :: "nat \<Rightarrow> int \<Rightarrow> ip4 \<Rightarrow> int \<Rightarrow> u16 \<Rightarrow> ip4 \<Rightarrow> rip \<Rightarrow> rip res" where
  "updateRoute i ie nextHop metric tag from s =
     (let oldMetric = rr_metric (ripRoutes s ! i) in
      bindE (rip_setInterface (Some ie) i s) (\<lambda>s1.
      bindE (rip_setMetric metric i s1) (\<lambda>s2.
      let s3 = change_rip i (\<lambda>r. r\<lparr>rr_from := from, rr_tag := tag\<rparr>) s2 in
      bindE (if oldMetric = RIP_INFINITE_METRIC \<and> metric < RIP_INFINITE_METRIC then revive_route i ie nextHop metric s3 else Inr s3) (\<lambda>s4.
      bindE (if oldMetric \<noteq> RIP_INFINITE_METRIC then replace_route i ie nextHop metric s4 else Inr s4) (\<lambda>s5.
      let s6 = triggerUpdate (change_rip i (rr_changed_update (\<lambda>_. True)) s5) in
      if metric = RIP_INFINITE_METRIC \<and> oldMetric \<noteq> RIP_INFINITE_METRIC then invalidateRoute i s6
      else Inr (change_rip i (rr_lastUpdateTime_update (\<lambda>_. rip_now s6)) s6))))))"

section \<open>Sending\<close>

definition rip_sendPacket :: "rip_packet \<Rightarrow> ip4 \<Rightarrow> int \<Rightarrow> int \<Rightarrow> rip \<Rightarrow> rip" where
  "rip_sendPacket pkt addr port ie s =
     (let pkt' = pkt\<lparr>rp_byteLength := 4 + 20 * int (length (rp_entry pkt))\<rparr> in
      if isMulticast addr
      then rip_emit (Rip_datagram pkt' addr port (Some ie)) (if rip_version s = RIPng then rip_emit (Rip_ttl 255) s else s)
      else rip_emit (Rip_datagram pkt' addr port None) s)"

definition sendRIPRequest :: "rip_interface \<Rightarrow> rip \<Rightarrow> rip" where
  "sendRIPRequest i s =
     rip_sendPacket \<lparr>rp_command = RIP_REQUEST,
         rp_entry = [\<lparr>re_addressFamilyId = RIP_AF_NONE, re_routeTag = 0, re_address = 0, re_prefixLength = 0, re_nextHop = 0,
                      re_metric = word_of_int RIP_INFINITE_METRIC\<rparr>], rp_byteLength = 0\<rparr>
       ALL_RIP_ROUTERS_MCAST (ripUdpPort s) (ri_ie i) s"

text \<open>The entry for a route, unless the split horizon leaves it out.\<close>

definition horizon_metric :: "rip_interface \<Rightarrow> rip_route \<Rightarrow> int option" where
  "horizon_metric i r =
     (if rr_ie r = Some (ri_ie i)
      then if ri_mode i = SPLIT_HORIZON then None
           else if ri_mode i = SPLIT_HORIZON_POISONED_REVERSE then Some RIP_INFINITE_METRIC else Some (rr_metric r)
      else Some (rr_metric r))"

definition route_entry :: "rip_route \<Rightarrow> int \<Rightarrow> rip_entry" where
  "route_entry r m =
     \<lparr>re_addressFamilyId = RIP_AF_INET, re_routeTag = rr_tag r, re_address = rr_dest r, re_prefixLength = rr_prefixLength r,
      re_nextHop = UNSPECIFIED_ADDRESS, re_metric = word_of_int m\<rparr>"

definition send_entries :: "rip_interface \<Rightarrow> ip4 \<Rightarrow> int \<Rightarrow> rip_entry list \<Rightarrow> rip \<Rightarrow> rip" where
  "send_entries i addr port es s =
     rip_sendPacket \<lparr>rp_command = RIP_RESPONSE, rp_entry = es, rp_byteLength = 0\<rparr> addr port (ri_ie i) s"

text \<open>Fill the next entry, and send the packet when it is full.\<close>

definition put_entry :: "int \<Rightarrow> rip_interface \<Rightarrow> ip4 \<Rightarrow> int \<Rightarrow> rip_entry \<Rightarrow> rip_entry list \<times> rip \<Rightarrow> (rip_entry list \<times> rip) res" where
  "put_entry room i addr port e c =
     (let (es, s) = c; es' = es @ [e] in
      if int (length es) \<ge> room then Inl (RuntimeError ''Array of size 0 indexed by 0'')
      else Inr (if int (length es') \<ge> room then ([], send_entries i addr port es' s) else (es', s)))"

text \<open>
  The loop of \<open>sendRoutes\<close> over the vector, at the index \<open>j\<close>.  \<open>checkRouteIsExpired\<close> may take the route out of the vector
  while the loop is at it: the routes behind it move up, so that the next one is passed over; where there is none, the
  iterator is past the end when it is incremented.  \<open>f\<close> is fuel: the length of the vector is enough.
\<close>

fun send_loop :: "nat \<Rightarrow> int \<Rightarrow> rip_interface \<Rightarrow> ip4 \<Rightarrow> int \<Rightarrow> bool \<Rightarrow> nat \<Rightarrow> rip_entry list \<times> rip \<Rightarrow> (rip_entry list \<times> rip) res" where
  "send_loop 0 room i addr port changedOnly j c =
     (if j \<ge> length (ripRoutes (snd c)) then Inr c else Inl (Diverges ''sendRoutes''))"
| "send_loop (Suc f) room i addr port changedOnly j c =
     (if j \<ge> length (ripRoutes (snd c)) then Inr c
      else bindE (checkRouteIsExpired j (snd c)) (\<lambda>(x, s1).
        case x of
          Purged \<Rightarrow>
            if j \<ge> length (ripRoutes s1) then Inl (Undefined ''sendRoutes: iterator past the end'')
            else send_loop f room i addr port changedOnly (Suc j) (fst c, s1)
        | Invalidated \<Rightarrow> send_loop f room i addr port changedOnly (Suc j) (fst c, s1)
        | Valid \<Rightarrow>
            let r = ripRoutes s1 ! j in
            if changedOnly \<and> \<not> rr_changed r then send_loop f room i addr port changedOnly (Suc j) (fst c, s1)
            else case horizon_metric i r of
              None \<Rightarrow> send_loop f room i addr port changedOnly (Suc j) (fst c, s1)
            | Some m \<Rightarrow> bindE (put_entry room i addr port (route_entry r m) (fst c, s1))
                         (send_loop f room i addr port changedOnly (Suc j))))"

definition maxEntries :: "rip_interface \<Rightarrow> rip \<Rightarrow> int res" where
  "maxEntries i s =
     (if rip_version s = RIPv2 then Inr 25
      else case find_interface (ri_ie i) (ift (rip_rt s)) of
        None \<Rightarrow> Inl (Undefined ''dangling pointer to an interface'')
      | Some ie \<Rightarrow> let n = (ie_mtu ie - 40 - 8 - 4) in
                   if n < 0 \<and> - n \<ge> 20 then Inl (Undefined ''setEntryArraySize'') else Inr (if n < 0 then 0 else n div 20))"

definition sendRoutes :: "ip4 \<Rightarrow> int \<Rightarrow> rip_interface \<Rightarrow> bool \<Rightarrow> rip \<Rightarrow> rip res" where
  "sendRoutes addr port i changedOnly s =
     bindE (maxEntries i s) (\<lambda>room.
       mapE (\<lambda>(es, s'). if es \<noteq> [] then send_entries i addr port es s' else s')
         (send_loop (length (ripRoutes s)) room i addr port changedOnly 0 ([], s)))"

fun send_on :: "rip_interface list \<Rightarrow> (rip_interface \<Rightarrow> bool) \<Rightarrow> bool \<Rightarrow> rip \<Rightarrow> rip res" where
  "send_on [] P changedOnly s = Inr s"
| "send_on (i # is) P changedOnly s =
     bindE (if P i then sendRoutes ALL_RIP_ROUTERS_MCAST (ripUdpPort s) i changedOnly s else Inr s) (send_on is P changedOnly)"

definition processUpdate :: "bool \<Rightarrow> rip \<Rightarrow> rip res" where
  "processUpdate triggered s =
     mapE (\<lambda>s'. s'\<lparr>ripRoutes := map (rr_changed_update (\<lambda>_. False)) (ripRoutes s')\<rparr>)
       (send_on (ripInterfaces s) (\<lambda>i. ri_mode i \<noteq> NO_RIP) triggered s)"

section \<open>Packets that arrive\<close>

text \<open>None stands for a request for the whole table.\<close>

fun fill_request :: "nat \<Rightarrow> rip_entry list \<Rightarrow> rip \<Rightarrow> rip_entry list option res" where
  "fill_request n [] s = Inr (Some [])"
| "fill_request n (e # es) s =
     (if re_addressFamilyId e = RIP_AF_NONE
      then if n = 1 \<and> re_metric e = word_of_int RIP_INFINITE_METRIC then Inr None else Inl (RuntimeError ''RIP: invalid request.'')
      else if re_addressFamilyId e = RIP_AF_INET
      then let m = (case findRoute (re_address e) (re_prefixLength e) s of
                      Some j \<Rightarrow> rr_metric (ripRoutes s ! j) | None \<Rightarrow> RIP_INFINITE_METRIC)
           in mapE (map_option ((#) (e\<lparr>re_metric := word_of_int m\<rparr>))) (fill_request n es s)
      else Inl (RuntimeError ''RIP: request has invalid addressFamilyId''))"

definition processRequest :: "rip_packet \<Rightarrow> ip4 \<Rightarrow> int \<Rightarrow> int \<Rightarrow> rip \<Rightarrow> rip res" where
  "processRequest pkt srcAddr srcPort ifId s =
     (if rp_entry pkt = [] then Inr s
      else bindE (fill_request (length (rp_entry pkt)) (rp_entry pkt) s) (\<lambda>x.
        case x of
          None \<Rightarrow> (case findInterfaceById ifId s of Some i \<Rightarrow> sendRoutes srcAddr srcPort i False s | None \<Rightarrow> Inr s)
        | Some es \<Rightarrow> Inr (rip_emit (Rip_datagram (pkt\<lparr>rp_command := RIP_RESPONSE, rp_entry := es\<rparr>) srcAddr srcPort None) s)))"

definition isNeighborAddress :: "ip4 \<Rightarrow> interface_entry list \<Rightarrow> bool" where
  "isNeighborAddress a ies =
     (if ip4_isUnspecified a then False
      else case find (\<lambda>ie. case ipv4Data ie of None \<Rightarrow> False | Some d \<Rightarrow> maskedAddrAreEqual a (inetAddr d) (ie_netmask d)) ies of
        None \<Rightarrow> False
      | Some ie \<Rightarrow> (case ipv4Data ie of None \<Rightarrow> False | Some d \<Rightarrow> a \<noteq> inetAddr d))"

definition entry_acceptable :: "rip_version \<Rightarrow> rip_entry \<Rightarrow> bool" where
  "entry_acceptable v e \<longleftrightarrow>
     \<not> (re_metric e < 1 \<or> re_metric e > word_of_int RIP_INFINITE_METRIC) \<and> isUnicast (re_address e) \<and>
     (v = RIPng \<longrightarrow> 0 \<le> re_prefixLength e \<and> re_prefixLength e \<le> 32)"

text \<open>The table keeps the addresses of the interfaces that it has collected.  Every response is refused in the mode RIPng.\<close>

definition isValidResponse :: "rip_packet \<Rightarrow> ip4 \<Rightarrow> int \<Rightarrow> rip \<Rightarrow> (bool \<times> rip) res" where
  "isValidResponse pkt srcAddr srcPort s =
     (if srcPort \<noteq> ripUdpPort s then Inr (False, s)
      else mapE (\<lambda>(mine, T).
          (\<not> mine \<and> rip_version s \<noteq> RIPng \<and> isNeighborAddress srcAddr (ift T) \<and> list_all (entry_acceptable (rip_version s)) (rp_entry pkt),
           s\<lparr>rip_rt := T\<rparr>))
        (isLocalAddress srcAddr (rip_rt s)))"

definition process_entry :: "rip_interface \<Rightarrow> ip4 \<Rightarrow> rip_entry \<Rightarrow> rip \<Rightarrow> rip res" where
  "process_entry inc srcAddr e s =
     (let metric = min (sint (re_metric e) + ri_metric inc) RIP_INFINITE_METRIC;
          nextHop = (if ip4_isUnspecified (re_nextHop e) then srcAddr else re_nextHop e) in
      case findRoute (re_address e) (re_prefixLength e) s of
        Some j \<Rightarrow>
          let r = ripRoutes s ! j in
          if rr_type r \<in> {RIP_ROUTE_STATIC, RIP_ROUTE_DEFAULT} \<and> rr_metric r \<noteq> RIP_INFINITE_METRIC then Inr s
          else let s1 = (if rr_from r = srcAddr then change_rip j (rr_lastUpdateTime_update (\<lambda>_. rip_now s)) s else s) in
            if rr_from r = srcAddr \<and> rr_metric r \<noteq> metric \<or> metric < rr_metric r
            then updateRoute j (ri_ie inc) nextHop metric (re_routeTag e) srcAddr s1 else Inr s1
      | None \<Rightarrow>
          if metric \<noteq> RIP_INFINITE_METRIC
          then rip_addRoute (re_address e) (re_prefixLength e) (ri_ie inc) nextHop metric (re_routeTag e) srcAddr s else Inr s)"

fun process_entries :: "rip_interface \<Rightarrow> ip4 \<Rightarrow> rip_entry list \<Rightarrow> rip \<Rightarrow> rip res" where
  "process_entries inc srcAddr [] s = Inr s"
| "process_entries inc srcAddr (e # es) s = bindE (process_entry inc srcAddr e s) (process_entries inc srcAddr es)"

definition processResponse :: "rip_packet \<Rightarrow> ip4 \<Rightarrow> int \<Rightarrow> int \<Rightarrow> rip \<Rightarrow> rip res" where
  "processResponse pkt srcAddr srcPort ifId s =
     bindE (isValidResponse pkt srcAddr srcPort s) (\<lambda>(ok, s1).
       if \<not> ok then Inr s1
       else case findInterfaceById ifId s1 of None \<Rightarrow> Inr s1 | Some inc \<Rightarrow> process_entries inc srcAddr (rp_entry pkt) s1)"


section \<open>Interfaces and notifications\<close>

definition rip_addInterface :: "interface_entry \<Rightarrow> rip_config option \<Rightarrow> rip \<Rightarrow> rip res" where
  "rip_addInterface ie c s =
     bindE (new_rip_interface ie) (\<lambda>i.
       mapE (\<lambda>i'. s\<lparr>ripInterfaces := ripInterfaces s @ [i']\<rparr>) (case c of None \<Rightarrow> Inr i | Some c \<Rightarrow> rip_configure c i))"

definition deleteInterface :: "int \<Rightarrow> rip \<Rightarrow> rip" where
  "deleteInterface i s =
     s\<lparr>ripInterfaces := filter (\<lambda>x. ri_ie x \<noteq> i) (ripInterfaces s), ripRoutes := filter (\<lambda>r. rr_ie r \<noteq> Some i) (ripRoutes s)\<rparr>"

fun invalidate_where :: "(rip_route \<Rightarrow> bool) \<Rightarrow> nat list \<Rightarrow> rip \<Rightarrow> rip res" where
  "invalidate_where P [] s = Inr s"
| "invalidate_where P (j # js) s =
     bindE (if P (ripRoutes s ! j) then invalidateRoute j s else Inr s) (invalidate_where P js)"

definition invalidateRoutes :: "int \<Rightarrow> rip \<Rightarrow> rip res" where
  "invalidateRoutes i s = invalidate_where (\<lambda>r. rr_ie r = Some i) [0..<length (ripRoutes s)] s"

datatype rip_signal =
    Interface_created interface_entry
  | Interface_deleted int
  | Interface_state_changed bool int bool
  | Route_deleted ipv4_route
  | Route_added ipv4_route
  | Route_changed ipv4_route

text \<open>\<open>Interface_state_changed\<close> tells whether the carrier or the state has changed, the interface, and whether it is up.\<close>

definition hear_added :: "ipv4_route \<Rightarrow> rip \<Rightarrow> rip res" where
  "hear_added r s =
     (if rt_sourceType r = RIP \<or> isLoopbackInterfaceRoute r s then Inr s
      else case source_interface r of
        None \<Rightarrow> Inr s
      | Some i \<Rightarrow>
          (case findRoute_on i RIP_ROUTE_INTERFACE s of
             Some j \<Rightarrow>
               mapE (\<lambda>s'. triggerUpdate (change_rip j (rr_changed_update (\<lambda>_. True)) s'))
                 (rip_setMetric (getInterfaceMetric i s) j (change_rip j (rr_route_update (\<lambda>_. Some (rt_ptr r))) s))
           | None \<Rightarrow> importRoute r RIP_ROUTE_INTERFACE (getInterfaceMetric i s) 0 s))"

definition hear_changed :: "ipv4_route \<Rightarrow> rip \<Rightarrow> rip res" where
  "hear_changed r s =
     (if rt_sourceType r = RIP then Inr s
      else case findRoute_of (rt_ptr r) s of
        None \<Rightarrow> Inr s
      | Some j \<Rightarrow>
          let x = ripRoutes s ! j in
          bindE (if rt_dest r \<noteq> rr_dest x then Inr True
                 else mapE (\<lambda>m. rt_netmask r \<noteq> m \<or> rt_gateway r \<noteq> rr_nextHop x \<or> rt_interface r \<noteq> rr_ie x)
                        (makeNetmask (rr_prefixLength x))) (\<lambda>changed.
          bindE (rip_setNextHop (rt_gateway r) j (change_rip j
                   (\<lambda>x. x\<lparr>rr_dest := rt_dest r, rr_prefixLength := getNetmaskLength (rt_netmask r)\<rparr>) s)) (\<lambda>s1.
          mapE (\<lambda>s2. if changed then triggerUpdate (change_rip j (rr_changed_update (\<lambda>_. True)) s2) else s2)
            (rip_setInterface (rt_interface r) j s1))))"

definition rip_receiveChangeNotification :: "(interface_entry \<Rightarrow> rip_config option) \<Rightarrow> rip_signal \<Rightarrow> rip \<Rightarrow> rip res" where
  "rip_receiveChangeNotification cfg x s =
     (case x of
        Interface_created ie \<Rightarrow>
          (if ie_multicast ie \<and> \<not> ie_loopback ie \<and> cfg ie \<noteq> None then rip_addInterface ie (cfg ie) s else Inr s)
      | Interface_deleted i \<Rightarrow> Inr (deleteInterface i s)
      | Interface_state_changed relevant i up \<Rightarrow>
          (if \<not> relevant then Inr s
           else if \<not> up then invalidateRoutes i s
           else (case findInterfaceById i s of
                   None \<Rightarrow> Inr s | Some ri \<Rightarrow> Inr (if ri_mode ri \<noteq> NO_RIP then sendRIPRequest ri s else s)))
      | Route_deleted r \<Rightarrow> Inr (hear_deleted r s)
      | Route_added r \<Rightarrow> hear_added r s
      | Route_changed r \<Rightarrow> hear_changed r s)"

section \<open>Life cycle and messages\<close>

fun configureInterfaces :: "(interface_entry \<Rightarrow> rip_config option) \<Rightarrow> interface_entry list \<Rightarrow> rip \<Rightarrow> rip res" where
  "configureInterfaces cfg [] s = Inr s"
| "configureInterfaces cfg (ie # ies) s =
     bindE (if ie_multicast ie \<and> \<not> ie_loopback ie then rip_addInterface ie (cfg ie) s else Inr s) (configureInterfaces cfg ies)"

fun configureInitialRoutes :: "ipv4_route list \<Rightarrow> rip \<Rightarrow> rip res" where
  "configureInitialRoutes [] s = Inr s"
| "configureInitialRoutes (r # rs) s =
     bindE (if isLoopbackInterfaceRoute r s then Inr s
            else case source_interface r of
              Some i \<Rightarrow> importRoute r RIP_ROUTE_INTERFACE (getInterfaceMetric i s) 0 s
            | None \<Rightarrow>
                if isDefaultRoute r then importRoute r RIP_ROUTE_DEFAULT 1 0 s
                else if \<not> isMulticast (rt_dest r) then importRoute r RIP_ROUTE_STATIC 1 0 s else Inr s)
       (configureInitialRoutes rs)"

definition schedule_update :: "rip \<Rightarrow> rip res" where
  "schedule_update s =
     (if updateTimer s \<noteq> None then Inl (RuntimeError ''scheduleAt(): message RIP-timer is already scheduled'')
      else Inr (s\<lparr>updateTimer := Some (rip_now s + updateInterval s)\<rparr>))"

definition startRIPRouting :: "(interface_entry \<Rightarrow> rip_config option) \<Rightarrow> rip \<Rightarrow> rip res" where
  "startRIPRouting cfg s =
     bindE (configureInterfaces cfg (ift (rip_rt s)) s) (\<lambda>s1.
     bindE (configureInitialRoutes (routes (rip_rt s1)) s1) (\<lambda>s2.
       let active = filter (\<lambda>i. ri_mode i \<noteq> NO_RIP) (ripInterfaces s2);
           s3 = rip_emit (Rip_bind (ripUdpPort s2)) (rip_emit (Rip_multicast_loop False) (s2\<lparr>rip_subscribed := True\<rparr>));
           s4 = fold (\<lambda>i. rip_emit (Rip_join ALL_RIP_ROUTERS_MCAST (ri_ie i))) active s3
       in schedule_update (fold sendRIPRequest active s4)))"

definition stopRIPRouting :: "rip \<Rightarrow> rip" where
  "stopRIPRouting s =
     (let s1 = (if startupTimer s \<noteq> None then s\<lparr>startupTimer := None\<rparr> else rip_emit Rip_close (s\<lparr>rip_subscribed := False\<rparr>))
      in s1\<lparr>updateTimer := None, triggeredUpdateTimer := None, ripRoutes := [], ripInterfaces := []\<rparr>)"

text \<open>The delay of a start is the value that the parameter \<open>startupTime\<close> has then.\<close>

datatype rip_operation = Node_start simtime | Node_shutdown | Node_crash

definition rip_handleOperationStage :: "rip_operation \<Rightarrow> rip \<Rightarrow> rip res" where
  "rip_handleOperationStage x s =
     (case x of
        Node_start d \<Rightarrow> Inr (s\<lparr>rip_operational := True, startupTimer := Some (rip_now s + d)\<rparr>)
      | Node_shutdown \<Rightarrow>
          bindE (invalidate_where (\<lambda>_. True) [0..<length (ripRoutes s)] s) (\<lambda>s1.
          bindE (send_on (ripInterfaces s1) (\<lambda>_. True) False s1) (\<lambda>s2.
            if shutdownTimer s2 \<noteq> None then Inl (RuntimeError ''scheduleAt(): message RIP-shutdown is already scheduled'')
            else Inr ((stopRIPRouting s2)\<lparr>shutdownTimer := Some (rip_now s2 + shutdownTime s2)\<rparr>)))
      | Node_crash \<Rightarrow> Inr ((stopRIPRouting s)\<lparr>rip_operational := False\<rparr>))"

datatype rip_message =
    Update_timer | Trigger_timer | Startup_timer | Shutdown_timer
  | Udp_data rip_packet ip4 int int
  | Udp_error

text \<open>A timer is no more scheduled when it arrives.\<close>

fun is_timer :: "rip_message \<Rightarrow> bool" where
  "is_timer (Udp_data _ _ _ _) = False"
| "is_timer Udp_error = False"
| "is_timer _ = True"

fun timer_due :: "rip_message \<Rightarrow> rip \<Rightarrow> bool" where
  "timer_due Update_timer s = (updateTimer s = Some (rip_now s))"
| "timer_due Trigger_timer s = (triggeredUpdateTimer s = Some (rip_now s))"
| "timer_due Startup_timer s = (startupTimer s = Some (rip_now s))"
| "timer_due Shutdown_timer s = (shutdownTimer s = Some (rip_now s))"
| "timer_due _ s = False"

definition rip_handleMessage :: "(interface_entry \<Rightarrow> rip_config option) \<Rightarrow> rip_message \<Rightarrow> rip \<Rightarrow> rip res" where
  "rip_handleMessage cfg m s =
     (if \<not> rip_operational s
      then if is_timer m then Inl (RuntimeError ''Model error: self msg received when isOperational is false'')
           else Inl (Undefined ''handleMessage: msg has been deleted'')
      else case m of
        Update_timer \<Rightarrow> bindE (processUpdate False (s\<lparr>updateTimer := None\<rparr>)) schedule_update
      | Trigger_timer \<Rightarrow> processUpdate True (s\<lparr>triggeredUpdateTimer := None\<rparr>)
      | Startup_timer \<Rightarrow> startRIPRouting cfg (s\<lparr>startupTimer := None\<rparr>)
      | Shutdown_timer \<Rightarrow> Inr (rip_emit Rip_shutdown_complete (s\<lparr>shutdownTimer := None, rip_operational := False\<rparr>))
      | Udp_data pkt srcAddr srcPort ifId \<Rightarrow>
          (if rp_command pkt = RIP_REQUEST then processRequest pkt srcAddr srcPort ifId s
           else if rp_command pkt = RIP_RESPONSE then processResponse pkt srcAddr srcPort ifId s
           else Inl (RuntimeError ''RIP: unknown command''))
      | Udp_error \<Rightarrow> Inr s)"

text \<open>The module after \<open>initialize\<close>, on a node that is up or not.\<close>

definition rip_fresh :: "rip \<Rightarrow> bool" where
  "rip_fresh s \<longleftrightarrow> ripInterfaces s = [] \<and> ripRoutes s = [] \<and> updateTimer s = None \<and> triggeredUpdateTimer s = None \<and>
     startupTimer s = None \<and> shutdownTimer s = None \<and> \<not> rip_subscribed s \<and> \<not> rip_operational s"

definition rip_initialize :: "bool \<Rightarrow> simtime \<Rightarrow> rip \<Rightarrow> rip" where
  "rip_initialize up d s =
     (let s' = s\<lparr>rip_operational := up\<rparr> in if up then s'\<lparr>startupTimer := Some (rip_now s + d)\<rparr> else s')"

text \<open>
  What can happen to the module, the table being changed by others at will: they and the interfaces are heard while the
  module is subscribed to their signals.
\<close>

datatype rip_event =
    Rip_message rip_message
  | Rip_operation rip_operation
  | Rip_signal rip_signal routing_table
  | Rip_table routing_table
  | Rip_advance simtime

fun rip_possible :: "rip_event \<Rightarrow> rip \<Rightarrow> bool" where
  "rip_possible (Rip_message m) s = (is_timer m \<longrightarrow> timer_due m s)"
| "rip_possible (Rip_operation x) s = True"
| "rip_possible (Rip_signal x T) s = rip_subscribed s"
| "rip_possible (Rip_table T) s = True"
| "rip_possible (Rip_advance t) s = (rip_now s \<le> t \<and>
     (\<forall>u \<in> set_option (updateTimer s) \<union> set_option (triggeredUpdateTimer s) \<union> set_option (startupTimer s)
         \<union> set_option (shutdownTimer s). t \<le> u))"

fun rip_step :: "(interface_entry \<Rightarrow> rip_config option) \<Rightarrow> rip_event \<Rightarrow> rip \<Rightarrow> rip res" where
  "rip_step cfg (Rip_message m) s = rip_handleMessage cfg m s"
| "rip_step cfg (Rip_operation x) s = rip_handleOperationStage x s"
| "rip_step cfg (Rip_signal x T) s = rip_receiveChangeNotification cfg x (s\<lparr>rip_rt := T\<rparr>)"
| "rip_step cfg (Rip_table T) s = Inr (s\<lparr>rip_rt := T\<rparr>)"
| "rip_step cfg (Rip_advance t) s = Inr (s\<lparr>rip_now := t\<rparr>)"

inductive rip_run :: "(interface_entry \<Rightarrow> rip_config option) \<Rightarrow> rip \<Rightarrow> bool" for cfg where
  start: "rip_fresh s \<Longrightarrow> rip_run cfg (rip_initialize up d s)"
| step: "rip_run cfg s \<Longrightarrow> rip_possible e s \<Longrightarrow> rip_step cfg e s = Inr s' \<Longrightarrow> rip_run cfg s'"

end
