(* ===== verification/Rip_Inv.thy ===== *)
theory Rip_Inv
  imports Rip
begin

text \<open>
  The invariant of the RIP module: a RIP route has a pointer to a route of the routing table exactly while its metric is finite,
  whatever the neighbours send and whatever others do to the table, so that none of the assertions of the code can fail.
\<close>

section \<open>Results without a failed assertion\<close>

definition no_assert :: "'a res \<Rightarrow> bool" where
  "no_assert x \<longleftrightarrow> (\<forall>m. x \<noteq> Inl (AssertFailed m))"

lemma no_assert_simps [simp]:
  "no_assert (Inr a)" "no_assert (Inl (RuntimeError m))" "no_assert (Inl (Undefined m))" "no_assert (Inl (NullPointer m))"
  "no_assert (Inl (Diverges m))" "no_assert (mapE f x) \<longleftrightarrow> no_assert x"
  by (auto simp: no_assert_def mapE_def split: sum.split)

lemma no_assert_bindE [intro]: "no_assert x \<Longrightarrow> (\<And>a. x = Inr a \<Longrightarrow> no_assert (f a)) \<Longrightarrow> no_assert (bindE x f)"
  by (cases x) (simp_all add: no_assert_def)

lemma no_assert_makeNetmask [simp]: "no_assert (makeNetmask n)"
  by (simp add: makeNetmask_def)

lemma no_assert_addRoute [simp]: "no_assert (internalAddRoute e T)" "no_assert (addRoute e T)"
proof -
  show "no_assert (internalAddRoute e T)"
    by (simp add: internalAddRoute_def upper_bound_insert_def Let_def split: prod.split)
  then show "no_assert (addRoute e T)" by (simp add: addRoute_def)
qed

lemma no_assert_set_route_field [simp]:
  assumes "\<And>r. rt_ptr (u r) = rt_ptr r"
  shows "no_assert (set_route_field f u p T)"
proof (cases "route_at p T")
  case (Some e)
  let ?T = "T\<lparr>routes := map (\<lambda>r. if rt_ptr r = p then u r else r) (routes T)\<rparr>"
  have "e \<in> set (routes T)" "rt_ptr e = p" using Some by (auto simp: route_at_def find_Some_iff)
  then have "u e \<in> set (routes ?T)" "rt_ptr (u e) = p" using assms by auto
  then have "route_at p ?T \<noteq> None" unfolding route_at_def find_None_iff by blast
  then obtain e' where "route_at p ?T = Some e'" by auto
  then show ?thesis by (simp add: set_route_field_def routeChanged_def Some)
qed (simp add: set_route_field_def)

lemma no_assert_setters [simp]:
  "no_assert (setGateway a p T)" "no_assert (setInterface ie p T)" "no_assert (setMetric m p T)"
  by (simp_all add: setGateway_def setInterface_def setMetric_def)

section \<open>What the notifications change\<close>

definition lost :: "rt_note list \<Rightarrow> nat set" where
  "lost ns = {rt_ptr r | r. ROUTE_DELETED r \<in> set ns \<and> rt_sourceType r \<noteq> RIP}"

lemma lost_simps [simp]:
  "lost [] = {}"
  "lost (ROUTE_DELETED r # ns) = (if rt_sourceType r = RIP then lost ns else insert (rt_ptr r) (lost ns))"
  "lost (ROUTE_ADDED r # ns) = lost ns" "lost (ROUTE_CHANGED r # ns) = lost ns" "lost (MROUTE_ADDED m # ns) = lost ns"
  "lost (MROUTE_DELETED m # ns) = lost ns" "lost (MROUTE_CHANGED m # ns) = lost ns"
  by (auto simp: lost_def)

definition invalid :: "rip_route \<Rightarrow> rip_route" where
  "invalid r = r\<lparr>rr_route := None, rr_metric := RIP_INFINITE_METRIC, rr_changed := True\<rparr>"

definition drop_lost :: "nat set \<Rightarrow> rip_route \<Rightarrow> rip_route" where
  "drop_lost P r = (if \<exists>p\<in>P. rr_route r = Some p then invalid r else r)"

definition worse :: "rip_route \<Rightarrow> rip_route \<Rightarrow> bool" where
  "worse r r' \<longleftrightarrow> r' = r \<or> rr_route r \<noteq> None \<and> r' = invalid r"

lemma worse_drop_lost [simp]: "worse r (drop_lost P r)"
  by (auto simp: worse_def drop_lost_def)

lemma drop_lost_None [simp]: "rr_route r = None \<Longrightarrow> drop_lost P r = r" "drop_lost {} r = r"
  by (simp_all add: drop_lost_def)

lemma worse_refl [simp]: "worse r r" by (simp add: worse_def)

lemma worse_trans: "worse a b \<Longrightarrow> worse b c \<Longrightarrow> worse a c"
  by (auto simp: worse_def invalid_def)

lemma triggerUpdate_simps [simp]:
  "ripRoutes (triggerUpdate s) = ripRoutes s" "ripInterfaces (triggerUpdate s) = ripInterfaces s" "rip_rt (triggerUpdate s) = rip_rt s"
  "rip_now (triggerUpdate s) = rip_now s" "updateTimer (triggerUpdate s) = updateTimer s" "rip_sent (triggerUpdate s) = rip_sent s"
  "rip_version (triggerUpdate s) = rip_version s" "routeExpiryTime (triggerUpdate s) = routeExpiryTime s"
  "routePurgeTime (triggerUpdate s) = routePurgeTime s" "ripUdpPort (triggerUpdate s) = ripUdpPort s"
  by (simp_all add: triggerUpdate_def Let_def split: option.split)

lemma change_rip_simps [simp]:
  "ripRoutes (change_rip i f s) = (ripRoutes s)[i := f (ripRoutes s ! i)]" "ripInterfaces (change_rip i f s) = ripInterfaces s"
  "rip_rt (change_rip i f s) = rip_rt s" "rip_now (change_rip i f s) = rip_now s" "rip_sent (change_rip i f s) = rip_sent s"
  "rip_version (change_rip i f s) = rip_version s" "routeExpiryTime (change_rip i f s) = routeExpiryTime s"
  "routePurgeTime (change_rip i f s) = routePurgeTime s" "ripUdpPort (change_rip i f s) = ripUdpPort s"
  by (simp_all add: change_rip_def)

text \<open>What stays as it is when routes change.\<close>

definition same_config :: "rip \<Rightarrow> rip \<Rightarrow> bool" where
  "same_config s s' \<longleftrightarrow> ripInterfaces s' = ripInterfaces s \<and> rip_now s' = rip_now s \<and> rip_version s' = rip_version s
     \<and> routeExpiryTime s' = routeExpiryTime s \<and> routePurgeTime s' = routePurgeTime s \<and> ripUdpPort s' = ripUdpPort s"

lemma same_config_refl [simp]: "same_config s s" by (simp add: same_config_def)

lemma same_config_trans: "same_config a b \<Longrightarrow> same_config b c \<Longrightarrow> same_config a c" by (simp add: same_config_def)

lemma same_config_steps [simp]:
  "same_config a (triggerUpdate s) = same_config a s" "same_config a (change_rip i f s) = same_config a s"
  "same_config a (s\<lparr>rip_rt := T\<rparr>) = same_config a s" "same_config a (s\<lparr>ripRoutes := rs\<rparr>) = same_config a s"
  "same_config a (rip_emit x s) = same_config a s" "same_config (change_rip i f s) a = same_config s a"
  by (simp_all add: same_config_def rip_emit_def)

lemma mark_invalid_simps [simp]:
  "ripRoutes (mark_invalid i s) = (ripRoutes s)[i := (ripRoutes s ! i)\<lparr>rr_metric := RIP_INFINITE_METRIC, rr_changed := True\<rparr>]"
  "same_config a (mark_invalid i s) = same_config a s" "rip_rt (mark_invalid i s) = rip_rt s" "rip_sent (mark_invalid i s) = rip_sent s"
  by (simp_all add: mark_invalid_def)

lemma forget_route_frame:
  "same_config s (forget_route p is s)" "rip_rt (forget_route p is s) = rip_rt s" "rip_sent (forget_route p is s) = rip_sent s"
  "length (ripRoutes (forget_route p is s)) = length (ripRoutes s)"
proof -
  have "same_config s (forget_route p is s) \<and> rip_rt (forget_route p is s) = rip_rt s \<and> rip_sent (forget_route p is s) = rip_sent s
    \<and> length (ripRoutes (forget_route p is s)) = length (ripRoutes s)"
  proof (induction p "is" s rule: forget_route.induct)
    case (2 p i "is" s)
    let ?s = "if rr_route (ripRoutes s ! i) = Some p then mark_invalid i (change_rip i (rr_route_update (\<lambda>_. None)) s) else s"
    have "same_config s ?s" by simp
    then show ?case using "2.IH" same_config_trans[of s ?s] by simp
  qed simp
  then show "same_config s (forget_route p is s)" "rip_rt (forget_route p is s) = rip_rt s"
    "rip_sent (forget_route p is s) = rip_sent s" "length (ripRoutes (forget_route p is s)) = length (ripRoutes s)" by auto
qed

lemma forget_route_nth:
  "distinct is \<Longrightarrow> set is \<subseteq> {..<length (ripRoutes s)} \<Longrightarrow> j < length (ripRoutes s) \<Longrightarrow>
   ripRoutes (forget_route p is s) ! j = (if j \<in> set is then drop_lost {p} (ripRoutes s ! j) else ripRoutes s ! j)"
proof (induction p "is" s rule: forget_route.induct)
  case (2 p i "is" s)
  let ?s = "if rr_route (ripRoutes s ! i) = Some p then mark_invalid i (change_rip i (rr_route_update (\<lambda>_. None)) s) else s"
  have i: "i < length (ripRoutes s)" and d: "distinct is" "i \<notin> set is" "set is \<subseteq> {..<length (ripRoutes ?s)}"
    "j < length (ripRoutes ?s)" using "2.prems" by auto
  have s: "ripRoutes ?s ! j = (if j = i then drop_lost {p} (ripRoutes s ! i) else ripRoutes s ! j)"
    using "2.prems"(3) i by (auto simp: drop_lost_def invalid_def nth_list_update)
  show ?case using "2.IH"[OF d(1,3,4)] s d(2) by auto
qed simp

lemma hear_deleted_routes:
  "ripRoutes (hear_deleted r s) = map (drop_lost (lost [ROUTE_DELETED r])) (ripRoutes s)"
  "same_config s (hear_deleted r s)" "rip_rt (hear_deleted r s) = rip_rt s" "rip_sent (hear_deleted r s) = rip_sent s"
  by (auto simp: hear_deleted_def forget_route_frame forget_route_nth lessThan_atLeast0 intro!: nth_equalityI)

lemma drop_lost_twice: "drop_lost A (drop_lost B r) = drop_lost (A \<union> B) r"
  by (auto simp: drop_lost_def invalid_def)

lemma drop_lost_empty [simp]: "map (drop_lost {}) rs = rs" by (simp add: map_idI)

lemma hear_deletions_routes:
  "ripRoutes (hear_deletions ns s) = map (drop_lost (lost ns)) (ripRoutes s)"
  "same_config s (hear_deletions ns s)" "rip_rt (hear_deletions ns s) = rip_rt s" "rip_sent (hear_deletions ns s) = rip_sent s"
proof (induction ns s rule: hear_deletions.induct)
  case (2 r ns s)
  have "insert (rt_ptr r) (lost ns) = lost ns \<union> {rt_ptr r}" by auto
  then show "ripRoutes (hear_deletions (ROUTE_DELETED r # ns) s) = map (drop_lost (lost (ROUTE_DELETED r # ns))) (ripRoutes s)"
    using 2(1) by (auto simp: hear_deleted_routes drop_lost_twice)
  show "same_config s (hear_deletions (ROUTE_DELETED r # ns) s)"
    using same_config_trans[OF hear_deleted_routes(2) 2(2)] by simp
  show "rip_rt (hear_deletions (ROUTE_DELETED r # ns) s) = rip_rt s" "rip_sent (hear_deletions (ROUTE_DELETED r # ns) s) = rip_sent s"
    using 2(3,4) by (simp_all add: hear_deleted_routes)
qed simp_all

lemma with_table_routes:
  assumes "with_table f s = Inr s'"
  obtains T where "f (rip_rt s) = Inr T" "rip_rt s' = T" "same_config s s'" "rip_sent s' = rip_sent s"
    "ripRoutes s' = map (drop_lost (lost (drop (length (rt_notes (rip_rt s))) (rt_notes T)))) (ripRoutes s)"
proof -
  from assms obtain T where T: "f (rip_rt s) = Inr T"
    "s' = hear_deletions (drop (length (rt_notes (rip_rt s))) (rt_notes T)) (s\<lparr>rip_rt := T\<rparr>)"
    by (auto simp: with_table_def mapE_eq_Inr)
  have "same_config s (s\<lparr>rip_rt := T\<rparr>)" by simp
  then have "same_config s s'" unfolding T(2) using hear_deletions_routes(2) same_config_trans by blast
  then show ?thesis using that T by (simp add: hear_deletions_routes)
qed

lemma no_assert_with_table [simp]: "no_assert (with_table f s) = no_assert (f (rip_rt s))"
  by (simp add: with_table_def)

section \<open>What the operations on the table tell\<close>

lemma removeRoute_notes:
  "\<exists>ns. rt_notes (snd (removeRoute p T)) = rt_notes T @ ns \<and> lost ns \<subseteq> {p} \<inter> rt_ptr ` set (routes T)"
  by (auto simp: removeRoute_def notify_def invalidateCache_def route_at_def find_Some_iff split: option.split)

lemma internalAddRoute_notes:
  assumes "internalAddRoute e T = Inr T'"
  shows "\<exists>ns. rt_notes T' = rt_notes T @ ns \<and> lost ns \<subseteq> rt_ptr ` set (routes T) \<and> (rt_netmask e \<noteq> 0 \<longrightarrow> ns = [])"
proof -
  have "\<exists>ns. rt_notes (replace_default e T) = rt_notes T @ ns \<and> lost ns \<subseteq> rt_ptr ` set (routes T) \<and> (rt_netmask e \<noteq> 0 \<longrightarrow> ns = [])"
  proof (cases "ip4_isUnspecified (rt_netmask e)")
    case True
    show ?thesis
    proof (cases "getDefaultRoute T")
      case (Some old)
      from removeRoute_notes[of "rt_ptr old" T] obtain ns where
        "rt_notes (snd (removeRoute (rt_ptr old) T)) = rt_notes T @ ns" "lost ns \<subseteq> rt_ptr ` set (routes T)" by blast
      then show ?thesis using True Some by (auto simp: replace_default_def deleteRoute_def ip4_isUnspecified_def split_beta)
    qed (simp add: replace_default_def)
  qed (simp add: replace_default_def)
  then show ?thesis using assms by (auto simp: internalAddRoute_def Let_def mapE_eq_Inr split: if_splits)
qed

lemma addRoute_notes:
  assumes "addRoute e T = Inr T'"
  shows "\<exists>ns. rt_notes T' = rt_notes T @ ns \<and> (rt_netmask e \<noteq> 0 \<longrightarrow> lost ns = {})"
proof -
  obtain T1 where 1: "internalAddRoute e T = Inr T1" "T' = notify (ROUTE_ADDED e) (invalidateCache T1)"
    using assms by (auto simp: addRoute_def mapE_eq_Inr)
  obtain ns where "rt_notes T1 = rt_notes T @ ns" "rt_netmask e \<noteq> 0 \<longrightarrow> ns = []" using internalAddRoute_notes[OF 1(1)] by auto
  then show ?thesis using 1(2) by (intro exI[of _ "ns @ [ROUTE_ADDED e]"]) (auto simp: notify_def invalidateCache_def)
qed

lemma set_route_field_notes:
  assumes "set_route_field f u p T = Inr T'"
  shows "\<exists>ns. rt_notes T' = rt_notes T @ ns \<and> p \<notin> lost ns"
proof -
  obtain e where e: "route_at p T = Some e" using assms by (auto simp: set_route_field_def split: option.splits)
  let ?T = "T\<lparr>routes := map (\<lambda>r. if rt_ptr r = p then u r else r) (routes T)\<rparr>"
  show ?thesis
  proof (cases "u e = e")
    case True
    then show ?thesis using assms e by (auto simp: set_route_field_def intro!: exI[of _ "[]"])
  next
    case False
    then have "routeChanged p f ?T = Inr T'" using assms e by (simp add: set_route_field_def)
    then obtain e' where T': "T' = notify (ROUTE_CHANGED e') ?T \<or>
        (\<exists>T1. internalAddRoute e' (?T\<lparr>routes := remove_ptr p (routes ?T)\<rparr>) = Inr T1 \<and> T' = notify (ROUTE_CHANGED e') (invalidateCache T1))"
      by (auto simp: routeChanged_def mapE_eq_Inr split: option.splits if_splits)
    then show ?thesis
    proof
      assume "T' = notify (ROUTE_CHANGED e') ?T"
      then show ?thesis by (intro exI[of _ "[ROUTE_CHANGED e']"]) (simp add: notify_def)
    next
      assume "\<exists>T1. internalAddRoute e' (?T\<lparr>routes := remove_ptr p (routes ?T)\<rparr>) = Inr T1 \<and> T' = notify (ROUTE_CHANGED e') (invalidateCache T1)"
      then obtain T1 where T1: "internalAddRoute e' (?T\<lparr>routes := remove_ptr p (routes ?T)\<rparr>) = Inr T1"
        "T' = notify (ROUTE_CHANGED e') (invalidateCache T1)" by blast
      from internalAddRoute_notes[OF T1(1)] obtain ns where ns: "rt_notes T1 = rt_notes T @ ns"
        "lost ns \<subseteq> rt_ptr ` set (remove_ptr p (routes ?T))" by auto
      have "p \<notin> rt_ptr ` set (remove_ptr p (routes ?T))" by (auto simp: remove_ptr_def)
      then have "p \<notin> lost (ns @ [ROUTE_CHANGED e'])" using ns(2) by (auto simp: lost_def)
      then show ?thesis using T1(2) ns(1) by (intro exI[of _ "ns @ [ROUTE_CHANGED e']"]) (simp add: notify_def invalidateCache_def)
    qed
  qed
qed

section \<open>What the operations change\<close>

definition changes :: "nat set \<Rightarrow> rip \<Rightarrow> rip \<Rightarrow> bool" where
  "changes P s s' \<longleftrightarrow> same_config s s' \<and> rip_sent s' = rip_sent s \<and> ripRoutes s' = map (drop_lost P) (ripRoutes s)"

lemma changesD:
  assumes "changes P s s'"
  shows "same_config s s'" "rip_sent s' = rip_sent s" "length (ripRoutes s') = length (ripRoutes s)"
    "j < length (ripRoutes s) \<Longrightarrow> ripRoutes s' ! j = drop_lost P (ripRoutes s ! j)"
  using assms by (simp_all add: changes_def)

lemma with_table_changes:
  assumes "with_table f s = Inr s'" "\<And>T. f (rip_rt s) = Inr T \<Longrightarrow> \<exists>ns. rt_notes T = rt_notes (rip_rt s) @ ns \<and> Q (lost ns)"
  obtains P where "changes P s s'" "Q P"
proof -
  from assms(1) obtain T where T: "f (rip_rt s) = Inr T" "rip_rt s' = T" "same_config s s'" "rip_sent s' = rip_sent s"
    "ripRoutes s' = map (drop_lost (lost (drop (length (rt_notes (rip_rt s))) (rt_notes T)))) (ripRoutes s)"
    by (rule with_table_routes)
  from assms(2)[OF T(1)] obtain ns where ns: "rt_notes T = rt_notes (rip_rt s) @ ns" "Q (lost ns)" by blast
  have "changes (lost ns) s s'" using T(3,4,5) ns(1) by (simp add: changes_def)
  then show ?thesis using that ns(2) by blast
qed

lemma rip_deleteRoute_changes:
  obtains s' P where "rip_deleteRoute p s = Inr s'" "changes P s s'" "P \<subseteq> {p}"
proof -
  obtain s' where s': "rip_deleteRoute p s = Inr s'" by (simp add: rip_deleteRoute_def with_table_def)
  have "\<exists>ns. rt_notes T = rt_notes (rip_rt s) @ ns \<and> lost ns \<subseteq> {p}" if "Inr (snd (deleteRoute p (rip_rt s))) = (Inr T :: routing_table res)" for T
    using that removeRoute_notes[of p "rip_rt s"] by (auto simp: deleteRoute_def split_beta)
  with s' obtain P where "changes P s s'" "P \<subseteq> {p}" unfolding rip_deleteRoute_def by (rule with_table_changes)
  then show ?thesis using that s' by blast
qed

lemma rip_addTableRoute_changes:
  assumes "rip_addTableRoute dest n ie nh m s = Inr (p, s')"
  obtains P where "changes P s s'" "n \<noteq> 0 \<longrightarrow> P = {}"
proof -
  obtain mask where mask: "makeNetmask n = Inr mask" using assms by (auto simp: rip_addTableRoute_def bindE_eq_Inr)
  let ?s = "s\<lparr>rip_rt := (rip_rt s)\<lparr>nextPtr := Suc (nextPtr (rip_rt s))\<rparr>\<rparr>"
  let ?e = "\<lparr>rt_ptr = nextPtr (rip_rt s), rt_dest = dest, rt_netmask = mask, rt_gateway = nh, rt_interface = Some ie,
                rt_sourceType = RIP, rt_adminDist = dUnknown, rt_metric = m\<rparr>"
  have w: "with_table (addRoute ?e) ?s = Inr s'"
    using assms mask by (auto simp: rip_addTableRoute_def mapE_eq_Inr Let_def)
  have nz: "mask \<noteq> 0" if "n \<noteq> 0"
  proof -
    have "0 \<le> n" "n \<le> 32" "mask = makeNetmask_raw n" using mask by (auto simp: makeNetmask_def split: if_splits)
    moreover have "(2 :: nat) ^ nat (32 - n) \<noteq> 2 ^ 32" using that \<open>0 \<le> n\<close> \<open>n \<le> 32\<close> by (subst power_inject_exp) auto
    ultimately show ?thesis using unat_netmask[of n] by auto
  qed
  have "\<exists>ns. rt_notes T = rt_notes (rip_rt ?s) @ ns \<and> (n \<noteq> 0 \<longrightarrow> lost ns = {})" if "addRoute ?e (rip_rt ?s) = Inr T" for T
    using addRoute_notes[OF that] nz by auto
  with w obtain P where "changes P ?s s'" "n \<noteq> 0 \<longrightarrow> P = {}" by (rule with_table_changes)
  then show ?thesis using that[of P] by (simp add: changes_def same_config_def)
qed

lemma no_assert_rip_addTableRoute [simp]: "no_assert (rip_addTableRoute dest n ie nh m s)"
  by (auto simp: rip_addTableRoute_def Let_def)

text \<open>
  The contract of the setters of a route of the table, which the module calls on the route that a RIP route owns: no assertion
  fails, and the module does not hear that the route itself is deleted.
\<close>

locale table_setter =
  fixes f :: "nat \<Rightarrow> routing_table \<Rightarrow> routing_table res"
  assumes never_asserts: "no_assert (f p T)"
    and tells: "f p T = Inr T' \<Longrightarrow> \<exists>ns. rt_notes T' = rt_notes T @ ns \<and> p \<notin> lost ns"
begin

lemma write_through_changes:
  assumes "write_through f i s = Inr s'"
  obtains P where "changes P s s'" "drop_lost P (ripRoutes s ! i) = ripRoutes s ! i"
proof (cases "rr_route (ripRoutes s ! i) = None \<or> rr_type (ripRoutes s ! i) \<noteq> RIP_ROUTE_RTE")
  case True
  then have "changes {} s s'" using assms by (auto simp: write_through_def changes_def split: option.splits)
  then show ?thesis using that by simp
next
  case False
  then obtain p where p: "rr_route (ripRoutes s ! i) = Some p" "with_table (f p) s = Inr s'"
    using assms by (auto simp: write_through_def split: if_splits)
  have "\<exists>ns. rt_notes T = rt_notes (rip_rt s) @ ns \<and> p \<notin> lost ns" if "f p (rip_rt s) = Inr T" for T
    using tells[OF that] .
  with p(2) obtain P where "changes P s s'" "p \<notin> P" by (rule with_table_changes)
  then show ?thesis using that p(1) by (auto simp: drop_lost_def)
qed

lemma no_assert_write_through [simp]: "no_assert (write_through f i s)"
  by (auto simp: write_through_def never_asserts split: option.split)

end

interpretation set_gateway: table_setter "setGateway a" for a
  by unfold_locales (simp_all add: setGateway_def set_route_field_notes)

interpretation set_interface: table_setter "setInterface ie" for ie
  by unfold_locales (simp_all add: setInterface_def set_route_field_notes)

interpretation set_metric: table_setter "setMetric m" for m
  by unfold_locales (simp_all add: setMetric_def set_route_field_notes)

section \<open>The invariant\<close>

definition rip_route_ok :: "rip_route \<Rightarrow> bool" where
  "rip_route_ok r \<longleftrightarrow> 1 \<le> rr_metric r \<and> rr_metric r \<le> RIP_INFINITE_METRIC \<and> (rr_route r = None \<longleftrightarrow> rr_metric r = RIP_INFINITE_METRIC)"

definition rip_interface_ok :: "rip_interface \<Rightarrow> bool" where
  "rip_interface_ok i \<longleftrightarrow> 1 \<le> ri_metric i \<and> ri_metric i < RIP_INFINITE_METRIC"

definition rip_ok :: "rip \<Rightarrow> bool" where
  "rip_ok s \<longleftrightarrow> list_all rip_route_ok (ripRoutes s) \<and> list_all rip_interface_ok (ripInterfaces s)"

lemma invalid_ok [simp]: "rip_route_ok (invalid r)"
  by (simp add: rip_route_ok_def invalid_def RIP_INFINITE_METRIC_def)

lemma drop_lost_ok [simp]: "rip_route_ok r \<Longrightarrow> rip_route_ok (drop_lost P r)"
  by (simp add: drop_lost_def)

text \<open>One route is changed by the operation, and others may be lost.\<close>

definition changes_one :: "nat \<Rightarrow> nat set \<Rightarrow> rip_route \<Rightarrow> rip \<Rightarrow> rip \<Rightarrow> bool" where
  "changes_one i P x s s' \<longleftrightarrow> same_config s s' \<and> rip_sent s' = rip_sent s \<and> i < length (ripRoutes s)
     \<and> ripRoutes s' = (map (drop_lost P) (ripRoutes s))[i := x]"

lemma changes_oneD:
  assumes "changes_one i P x s s'"
  shows "same_config s s'" "rip_sent s' = rip_sent s" "length (ripRoutes s') = length (ripRoutes s)" "i < length (ripRoutes s)"
    "ripRoutes s' ! i = x" "j < length (ripRoutes s) \<Longrightarrow> j \<noteq> i \<Longrightarrow> ripRoutes s' ! j = drop_lost P (ripRoutes s ! j)"
  using assms by (simp_all add: changes_one_def)

lemma changes_one_ok: "rip_ok s \<Longrightarrow> changes_one i P x s s' \<Longrightarrow> rip_route_ok x \<Longrightarrow> rip_ok s'"
proof -
  assume a: "rip_ok s" "changes_one i P x s s'" "rip_route_ok x"
  have "list_all rip_route_ok (map (drop_lost P) (ripRoutes s))" using a(1) by (auto simp: rip_ok_def list_all_iff)
  then show ?thesis using a set_update_subset_insert[of "map (drop_lost P) (ripRoutes s)" i x]
    by (auto simp: rip_ok_def changes_one_def same_config_def list_all_iff subset_iff)
qed

lemma changes_one_change:
  "i < length (ripRoutes s) \<Longrightarrow> changes_one i {} (f (ripRoutes s ! i)) s (change_rip i f s)"
  by (simp add: changes_one_def)

lemma changes_one_trans:
  assumes "changes_one i P x s s1" "changes_one i Q y s1 s2"
  shows "changes_one i (P \<union> Q) y s s2"
proof -
  have "ripRoutes s2 = (map (drop_lost (P \<union> Q)) (ripRoutes s))[i := y]"
    using assms by (auto simp: changes_one_def map_update comp_def drop_lost_twice Un_commute)
  then show ?thesis using assms same_config_trans by (auto simp: changes_one_def)
qed

text \<open>Where the route itself is not lost, a change of the others is a change of this one to what it is.\<close>

lemma changes_to_one:
  assumes "changes P s s'" "i < length (ripRoutes s)" "drop_lost P (ripRoutes s ! i) = ripRoutes s ! i"
  shows "changes_one i P (ripRoutes s ! i) s s'"
  using assms by (auto simp: changes_def changes_one_def intro!: nth_equalityI simp: nth_list_update)

lemma changes_one_more:
  assumes "changes_one i P x s s'" "drop_lost Q x = x" "changes Q s' s''"
  shows "changes_one i (P \<union> Q) x s s''"
proof -
  have "i < length (ripRoutes s')" "ripRoutes s' ! i = x" using changes_oneD[OF assms(1)] by auto
  then have "changes_one i Q x s' s''" using changes_to_one[OF assms(3)] assms(2) by auto
  then show ?thesis using changes_one_trans[OF assms(1)] by blast
qed

lemma changes_one_trigger: "changes_one i P x s s' \<Longrightarrow> changes_one i P x s (triggerUpdate s')"
  by (simp add: changes_one_def)

lemma changes_one_set:
  assumes "changes_one i P x s s'"
  shows "changes_one i P (f x) s (change_rip i f s')"
  using assms by (auto simp: changes_one_def)

context table_setter begin

lemma setter_change:
  assumes "write_through f i (change_rip i g s) = Inr s'" "i < length (ripRoutes s)"
  obtains P where "changes_one i P (g (ripRoutes s ! i)) s s'"
proof -
  from write_through_changes[OF assms(1)] obtain P where P: "changes P (change_rip i g s) s'"
    "drop_lost P (ripRoutes (change_rip i g s) ! i) = ripRoutes (change_rip i g s) ! i" .
  have i: "ripRoutes (change_rip i g s) ! i = g (ripRoutes s ! i)" using assms(2) by simp
  have "changes_one i ({} \<union> P) (g (ripRoutes s ! i)) s s'"
    by (rule changes_one_more[OF changes_one_change[OF assms(2)] _ P(1)]) (use P(2) i in simp)
  then show ?thesis using that by blast
qed

end

lemma invalidateRoute_changes:
  assumes "i < length (ripRoutes s)"
  obtains s' P where "invalidateRoute i s = Inr s'" "changes_one i P (invalid (ripRoutes s ! i)) s s'"
proof (cases "rr_route (ripRoutes s ! i)")
  case None
  then have "changes_one i {} (invalid (ripRoutes s ! i)) s (mark_invalid i s)"
    using assms by (auto simp: changes_one_def invalid_def intro!: arg_cong[of _ _ "list_update _ i"])
  then show ?thesis using that None by (simp add: invalidateRoute_def)
next
  case (Some p)
  let ?g = "rr_route_update (\<lambda>_. None)"
  from rip_deleteRoute_changes[of p "change_rip i ?g s"] obtain s1 P
    where s1: "rip_deleteRoute p (change_rip i ?g s) = Inr s1" "changes P (change_rip i ?g s) s1" by metis
  have "changes_one i ({} \<union> P) (?g (ripRoutes s ! i)) s s1"
    by (rule changes_one_more[OF changes_one_change[OF assms] _ s1(2)]) simp
  then have c: "changes_one i P (?g (ripRoutes s ! i)) s s1" by simp
  have "changes_one i P (invalid (ripRoutes s ! i)) s (mark_invalid i s1)"
    unfolding mark_invalid_def
    by (rule changes_one_trigger) (use changes_one_set[OF c, of "\<lambda>r. r\<lparr>rr_metric := RIP_INFINITE_METRIC, rr_changed := True\<rparr>"] in \<open>simp add: invalid_def\<close>)
  then show ?thesis using that s1(1) Some by (simp add: invalidateRoute_def)
qed

lemma adopt_route_changes:
  assumes "adopt_route i ie nh m s = Inr s'" "i < length (ripRoutes s)" "rr_route (ripRoutes s ! i) = None"
  obtains p P where "changes_one i P ((ripRoutes s ! i)\<lparr>rr_route := Some p\<rparr>) s s'" "rr_prefixLength (ripRoutes s ! i) \<noteq> 0 \<longrightarrow> P = {}"
proof -
  from assms(1) obtain p s1 where s1: "rip_addTableRoute (rr_dest (ripRoutes s ! i)) (rr_prefixLength (ripRoutes s ! i)) ie nh m s = Inr (p, s1)"
    "s' = change_rip i (rr_route_update (\<lambda>_. Some p)) s1" by (auto simp: adopt_route_def Let_def mapE_eq_Inr)
  from rip_addTableRoute_changes[OF s1(1)] obtain P where P: "changes P s s1" "rr_prefixLength (ripRoutes s ! i) \<noteq> 0 \<longrightarrow> P = {}" .
  have "changes_one i P (ripRoutes s ! i) s s1" by (rule changes_to_one[OF P(1) assms(2)]) (simp add: assms(3))
  from changes_one_set[OF this, of "rr_route_update (\<lambda>_. Some p)"]
  show ?thesis using that P(2) by (simp add: s1(2))
qed

lemma revive_route_changes:
  assumes "i < length (ripRoutes s)" "rr_route (ripRoutes s ! i) = None"
  shows "no_assert (revive_route i ie nh m s)"
    "revive_route i ie nh m s = Inr s' \<Longrightarrow>
       \<exists>p P. changes_one i P ((ripRoutes s ! i)\<lparr>rr_type := RIP_ROUTE_RTE, rr_nextHop := nh, rr_route := Some p\<rparr>) s s'"
proof -
  let ?s = "change_rip i (rr_type_update (\<lambda>_. RIP_ROUTE_RTE)) s"
  show "no_assert (revive_route i ie nh m s)"
    unfolding revive_route_def using assms(2) by (auto simp: rip_setNextHop_def adopt_route_def Let_def)
  assume "revive_route i ie nh m s = Inr s'"
  then obtain s1 where s1: "rip_setNextHop nh i ?s = Inr s1" "adopt_route i ie nh m s1 = Inr s'"
    using assms(2) by (auto simp: revive_route_def bindE_eq_Inr)
  have i: "i < length (ripRoutes ?s)" using assms(1) by simp
  from set_gateway.setter_change[OF s1(1)[unfolded rip_setNextHop_def] i] obtain P where
    "changes_one i P (rr_nextHop_update (\<lambda>_. nh) (ripRoutes ?s ! i)) ?s s1" .
  from changes_one_trans[OF changes_one_change[OF assms(1)] this]
  have 1: "changes_one i ({} \<union> P) ((ripRoutes s ! i)\<lparr>rr_type := RIP_ROUTE_RTE, rr_nextHop := nh\<rparr>) s s1" using assms(1) by simp
  have n: "rr_route (ripRoutes s1 ! i) = None" "i < length (ripRoutes s1)" using changes_oneD[OF 1] assms(2) by auto
  from adopt_route_changes[OF s1(2) n(2,1)] obtain p Q where
    "changes_one i Q ((ripRoutes s1 ! i)\<lparr>rr_route := Some p\<rparr>) s1 s'" .
  from changes_one_trans[OF 1 this] show "\<exists>p P. changes_one i P ((ripRoutes s ! i)\<lparr>rr_type := RIP_ROUTE_RTE, rr_nextHop := nh, rr_route := Some p\<rparr>) s s'"
    using changes_oneD(5)[OF 1] by auto
qed

lemma replace_route_changes:
  assumes "i < length (ripRoutes s)" "rr_route (ripRoutes s ! i) = Some q"
  shows "no_assert (replace_route i ie nh m s)"
    "replace_route i ie nh m s = Inr s' \<Longrightarrow>
       \<exists>p P. changes_one i P ((ripRoutes s ! i)\<lparr>rr_route := p, rr_nextHop := nh\<rparr>) s s' \<and> (p = None \<longleftrightarrow> RIP_INFINITE_METRIC \<le> m)"
proof -
  let ?s = "change_rip i (rr_route_update (\<lambda>_. None)) s"
  obtain s1 P where s1: "rip_deleteRoute q ?s = Inr s1" "changes P ?s s1" by (rule rip_deleteRoute_changes)
  show "no_assert (replace_route i ie nh m s)"
    unfolding replace_route_def using assms(2) s1(1) by (auto simp: rip_setNextHop_def adopt_route_def Let_def)
  assume "replace_route i ie nh m s = Inr s'"
  then obtain s2 where s2: "rip_setNextHop nh i s1 = Inr s2"
    "(if m < RIP_INFINITE_METRIC then adopt_route i ie nh m s2 else Inr s2) = Inr s'"
    using assms(2) s1(1) by (auto simp: replace_route_def bindE_eq_Inr)
  have "changes_one i ({} \<union> P) ((ripRoutes s ! i)\<lparr>rr_route := None\<rparr>) s s1"
    by (rule changes_one_more[OF changes_one_change[OF assms(1)] _ s1(2)]) simp
  then have 1: "changes_one i P ((ripRoutes s ! i)\<lparr>rr_route := None\<rparr>) s s1" by simp
  then have i1: "i < length (ripRoutes s1)" "ripRoutes s1 ! i = (ripRoutes s ! i)\<lparr>rr_route := None\<rparr>" using changes_oneD[OF 1] by auto
  from set_gateway.setter_change[OF s2(1)[unfolded rip_setNextHop_def] i1(1)] obtain Q where
    "changes_one i Q (rr_nextHop_update (\<lambda>_. nh) (ripRoutes s1 ! i)) s1 s2" .
  from changes_one_trans[OF 1 this]
  have 2: "changes_one i (P \<union> Q) ((ripRoutes s ! i)\<lparr>rr_route := None, rr_nextHop := nh\<rparr>) s s2" by (simp add: i1(2))
  show "\<exists>p P. changes_one i P ((ripRoutes s ! i)\<lparr>rr_route := p, rr_nextHop := nh\<rparr>) s s' \<and> (p = None \<longleftrightarrow> RIP_INFINITE_METRIC \<le> m)"
  proof (cases "m < RIP_INFINITE_METRIC")
    case True
    have i2: "i < length (ripRoutes s2)" "rr_route (ripRoutes s2 ! i) = None" using changes_oneD[OF 2] by auto
    from True s2(2) have "adopt_route i ie nh m s2 = Inr s'" by simp
    from adopt_route_changes[OF this i2] obtain p R where "changes_one i R ((ripRoutes s2 ! i)\<lparr>rr_route := Some p\<rparr>) s2 s'" .
    moreover have "(ripRoutes s2 ! i)\<lparr>rr_route := Some p\<rparr> = (ripRoutes s ! i)\<lparr>rr_route := Some p, rr_nextHop := nh\<rparr>"
      using changes_oneD(5)[OF 2] by simp
    ultimately have "changes_one i (P \<union> Q \<union> R) ((ripRoutes s ! i)\<lparr>rr_route := Some p, rr_nextHop := nh\<rparr>) s s'"
      using changes_one_trans[OF 2] by metis
    then show ?thesis using True by auto
  next
    case False
    then have "s' = s2" using s2(2) by simp
    then show ?thesis using 2 False by force
  qed
qed

definition updated :: "rip_route \<Rightarrow> int \<Rightarrow> int \<Rightarrow> u16 \<Rightarrow> ip4 \<Rightarrow> simtime \<Rightarrow> rip_route \<Rightarrow> bool" where
  "updated r ie m tag from now x \<longleftrightarrow> rip_route_ok x \<and> rr_dest x = rr_dest r \<and> rr_prefixLength x = rr_prefixLength r \<and> rr_metric x = m
     \<and> rr_from x = from \<and> rr_tag x = tag \<and> rr_ie x = Some ie \<and> rr_changed x
     \<and> rr_lastUpdateTime x = (if m = RIP_INFINITE_METRIC \<and> rr_metric r \<noteq> RIP_INFINITE_METRIC then rr_lastUpdateTime r else now)"

text \<open>The steps of \<open>updateRoute\<close>, from the route \<open>r\<close>: what the route is in between.\<close>

definition adopting :: "rip_route \<Rightarrow> int \<Rightarrow> int \<Rightarrow> u16 \<Rightarrow> ip4 \<Rightarrow> rip_route \<Rightarrow> bool" where
  "adopting r ie m tag from x \<longleftrightarrow> rr_dest x = rr_dest r \<and> rr_prefixLength x = rr_prefixLength r \<and> rr_metric x = m \<and> rr_from x = from
     \<and> rr_tag x = tag \<and> rr_ie x = Some ie \<and> rr_lastUpdateTime x = rr_lastUpdateTime r"

lemma adopting_simps [simp]:
  "adopting r ie m tag from (x\<lparr>rr_type := ty\<rparr>) = adopting r ie m tag from x"
  "adopting r ie m tag from (x\<lparr>rr_nextHop := nh\<rparr>) = adopting r ie m tag from x"
  "adopting r ie m tag from (x\<lparr>rr_route := p\<rparr>) = adopting r ie m tag from x"
  "adopting r ie m tag from (x\<lparr>rr_changed := c\<rparr>) = adopting r ie m tag from x"
  by (simp_all add: adopting_def)

lemma update_fields:
  assumes "i < length (ripRoutes s)" "rip_setInterface (Some ie) i s = Inr s1" "rip_setMetric m i s1 = Inr s2"
  obtains P x where "changes_one i P x s (change_rip i (\<lambda>r. r\<lparr>rr_from := from, rr_tag := tag\<rparr>) s2)"
    "adopting (ripRoutes s ! i) ie m tag from x" "rr_route x = rr_route (ripRoutes s ! i)"
proof -
  let ?r = "ripRoutes s ! i"
  from set_interface.setter_change[OF assms(2)[unfolded rip_setInterface_def] assms(1)] obtain P where
    1: "changes_one i P (?r\<lparr>rr_ie := Some ie\<rparr>) s s1" by auto
  have i1: "i < length (ripRoutes s1)" "ripRoutes s1 ! i = ?r\<lparr>rr_ie := Some ie\<rparr>" using changes_oneD[OF 1] by auto
  from set_metric.setter_change[OF assms(3)[unfolded rip_setMetric_def] i1(1)] obtain Q where
    2: "changes_one i Q (?r\<lparr>rr_ie := Some ie, rr_metric := m\<rparr>) s1 s2" using i1(2) by auto
  from changes_one_set[OF changes_one_trans[OF 1 2], of "\<lambda>r. r\<lparr>rr_from := from, rr_tag := tag\<rparr>"]
  show ?thesis by (rule that) (simp_all add: adopting_def)
qed

lemma update_revive:
  assumes "changes_one i P x s s3" "adopting r ie m tag from x" "rr_route x = None \<longleftrightarrow> old = RIP_INFINITE_METRIC" "m \<le> RIP_INFINITE_METRIC"
  shows "no_assert (if old = RIP_INFINITE_METRIC \<and> m < RIP_INFINITE_METRIC then revive_route i ie nh m s3 else Inr s3)"
    "(if old = RIP_INFINITE_METRIC \<and> m < RIP_INFINITE_METRIC then revive_route i ie nh m s3 else Inr s3) = Inr s4 \<Longrightarrow>
      \<exists>x Q. changes_one i Q x s s4 \<and> adopting r ie m tag from x
        \<and> (if old = RIP_INFINITE_METRIC then rr_route x = None \<longleftrightarrow> m = RIP_INFINITE_METRIC else rr_route x \<noteq> None)"
proof -
  have i3: "i < length (ripRoutes s3)" "ripRoutes s3 ! i = x" using changes_oneD[OF assms(1)] by auto
  then show "no_assert (if old = RIP_INFINITE_METRIC \<and> m < RIP_INFINITE_METRIC then revive_route i ie nh m s3 else Inr s3)"
    using revive_route_changes(1) assms(3) by auto
  assume 4: "(if old = RIP_INFINITE_METRIC \<and> m < RIP_INFINITE_METRIC then revive_route i ie nh m s3 else Inr s3) = Inr s4"
  show "\<exists>x Q. changes_one i Q x s s4 \<and> adopting r ie m tag from x
        \<and> (if old = RIP_INFINITE_METRIC then rr_route x = None \<longleftrightarrow> m = RIP_INFINITE_METRIC else rr_route x \<noteq> None)"
  proof (cases "old = RIP_INFINITE_METRIC \<and> m < RIP_INFINITE_METRIC")
    case True
    then have "revive_route i ie nh m s3 = Inr s4" "rr_route (ripRoutes s3 ! i) = None" using 4 assms(3) i3(2) by auto
    with revive_route_changes(2)[OF i3(1)] obtain p Q where
      "changes_one i Q (x\<lparr>rr_type := RIP_ROUTE_RTE, rr_nextHop := nh, rr_route := Some p\<rparr>) s3 s4" using i3(2) by blast
    from changes_one_trans[OF assms(1) this] show ?thesis using True assms(2) by (intro exI conjI) (assumption, auto)
  next
    case False
    then have "s4 = s3" using 4 by (auto split: if_splits)
    then show ?thesis using False assms by (intro exI[of _ x] exI[of _ P]) auto
  qed
qed

lemma update_replace:
  assumes "changes_one i P x s s4" "adopting r ie m tag from x" "m \<le> RIP_INFINITE_METRIC"
    "if old = RIP_INFINITE_METRIC then rr_route x = None \<longleftrightarrow> m = RIP_INFINITE_METRIC else rr_route x \<noteq> None"
  shows "no_assert (if old \<noteq> RIP_INFINITE_METRIC then replace_route i ie nh m s4 else Inr s4)"
    "(if old \<noteq> RIP_INFINITE_METRIC then replace_route i ie nh m s4 else Inr s4) = Inr s5 \<Longrightarrow>
      \<exists>y Q. changes_one i Q y s s5 \<and> adopting r ie m tag from y \<and> (rr_route y = None \<longleftrightarrow> m = RIP_INFINITE_METRIC)"
proof -
  have i4: "i < length (ripRoutes s4)" "ripRoutes s4 ! i = x" using changes_oneD[OF assms(1)] by auto
  then show "no_assert (if old \<noteq> RIP_INFINITE_METRIC then replace_route i ie nh m s4 else Inr s4)"
    using replace_route_changes(1) assms(4) by auto
  assume 5: "(if old \<noteq> RIP_INFINITE_METRIC then replace_route i ie nh m s4 else Inr s4) = Inr s5"
  show "\<exists>y Q. changes_one i Q y s s5 \<and> adopting r ie m tag from y \<and> (rr_route y = None \<longleftrightarrow> m = RIP_INFINITE_METRIC)"
  proof (cases "old = RIP_INFINITE_METRIC")
    case True
    then have "s5 = s4" using 5 by simp
    then show ?thesis using True assms by (intro exI[of _ x] exI[of _ P]) auto
  next
    case False
    then obtain q where q: "rr_route (ripRoutes s4 ! i) = Some q" "replace_route i ie nh m s4 = Inr s5" using assms(4) i4(2) 5 by auto
    from replace_route_changes(2)[OF i4(1) q] obtain p Q where
      Q: "changes_one i Q (x\<lparr>rr_route := p, rr_nextHop := nh\<rparr>) s4 s5" "p = None \<longleftrightarrow> RIP_INFINITE_METRIC \<le> m" using i4(2) by auto
    from changes_one_trans[OF assms(1) Q(1)] show ?thesis using assms(2,3) Q(2) by (intro exI conjI) (assumption, auto)
  qed
qed

lemma update_finish:
  assumes "changes_one i P y s s5" "adopting (ripRoutes s ! i) ie m tag from y" "rr_route y = None \<longleftrightarrow> m = RIP_INFINITE_METRIC"
    "1 \<le> m" "m \<le> RIP_INFINITE_METRIC" "s6 = triggerUpdate (change_rip i (rr_changed_update (\<lambda>_. True)) s5)"
  obtains x Q s' where "(if m = RIP_INFINITE_METRIC \<and> rr_metric (ripRoutes s ! i) \<noteq> RIP_INFINITE_METRIC then invalidateRoute i s6
      else Inr (change_rip i (rr_lastUpdateTime_update (\<lambda>_. rip_now s6)) s6)) = Inr s'"
    "changes_one i Q x s s'" "updated (ripRoutes s ! i) ie m tag from (rip_now s) x"
proof -
  have c: "changes_one i P (y\<lparr>rr_changed := True\<rparr>) s s6"
    unfolding assms(6) by (rule changes_one_trigger) (use changes_one_set[OF assms(1), of "rr_changed_update (\<lambda>_. True)"] in simp)
  have i6: "i < length (ripRoutes s6)" "ripRoutes s6 ! i = y\<lparr>rr_changed := True\<rparr>" "rip_now s6 = rip_now s"
    using changes_oneD[OF c] by (auto simp: same_config_def)
  show ?thesis
  proof (cases "m = RIP_INFINITE_METRIC \<and> rr_metric (ripRoutes s ! i) \<noteq> RIP_INFINITE_METRIC")
    case True
    from invalidateRoute_changes[OF i6(1)] obtain s' Q where s': "invalidateRoute i s6 = Inr s'"
      "changes_one i Q (invalid (ripRoutes s6 ! i)) s6 s'" .
    have "updated (ripRoutes s ! i) ie m tag from (rip_now s) (invalid (ripRoutes s6 ! i))"
      unfolding i6(2) updated_def using True assms(2) by (simp add: adopting_def) (simp add: invalid_def)
    then show ?thesis using that True s'(1) changes_one_trans[OF c s'(2)] by auto
  next
    case False
    have "changes_one i P (y\<lparr>rr_changed := True, rr_lastUpdateTime := rip_now s\<rparr>) s (change_rip i (rr_lastUpdateTime_update (\<lambda>_. rip_now s6)) s6)"
      using changes_one_set[OF c, of "rr_lastUpdateTime_update (\<lambda>_. rip_now s6)"] i6(3) by simp
    moreover have "updated (ripRoutes s ! i) ie m tag from (rip_now s) (y\<lparr>rr_changed := True, rr_lastUpdateTime := rip_now s\<rparr>)"
      using False assms(2-5) by (auto simp: updated_def rip_route_ok_def adopting_def)
    ultimately show ?thesis using that False by auto
  qed
qed

lemma updateRoute_changes:
  assumes i: "i < length (ripRoutes s)" and ok: "rip_route_ok (ripRoutes s ! i)" and m: "1 \<le> m" "m \<le> RIP_INFINITE_METRIC"
  shows "no_assert (updateRoute i ie nh m tag from s)"
    "updateRoute i ie nh m tag from s = Inr s' \<Longrightarrow>
       \<exists>x P. changes_one i P x s s' \<and> updated (ripRoutes s ! i) ie m tag from (rip_now s) x"
proof -
  let ?old = "rr_metric (ripRoutes s ! i)"
  have route: "rr_route x = None \<longleftrightarrow> ?old = RIP_INFINITE_METRIC" if "rr_route x = rr_route (ripRoutes s ! i)" for x :: rip_route
    using ok that by (simp add: rip_route_ok_def)
  show "no_assert (updateRoute i ie nh m tag from s)"
    unfolding updateRoute_def Let_def
  proof (intro no_assert_bindE)
    show "no_assert (rip_setInterface (Some ie) i s)" by (simp add: rip_setInterface_def)
    fix s1 s2 s4 s5 assume 1: "rip_setInterface (Some ie) i s = Inr s1"
    show "no_assert (rip_setMetric m i s1)" by (simp add: rip_setMetric_def)
    let ?s3 = "change_rip i (\<lambda>r. r\<lparr>rr_from := from, rr_tag := tag\<rparr>) s2"
    assume 2: "rip_setMetric m i s1 = Inr s2"
    obtain P x where 3: "changes_one i P x s ?s3" "adopting (ripRoutes s ! i) ie m tag from x" "rr_route x = rr_route (ripRoutes s ! i)"
      by (rule update_fields[OF i 1 2])
    note revive = update_revive[OF 3(1,2) route[OF 3(3)] m(2)]
    show "no_assert (if ?old = RIP_INFINITE_METRIC \<and> m < RIP_INFINITE_METRIC then revive_route i ie nh m ?s3 else Inr ?s3)"
      by (rule revive(1))
    assume "(if ?old = RIP_INFINITE_METRIC \<and> m < RIP_INFINITE_METRIC then revive_route i ie nh m ?s3 else Inr ?s3) = Inr s4"
    from revive(2)[OF this] obtain y Q where 4: "changes_one i Q y s s4" "adopting (ripRoutes s ! i) ie m tag from y"
      "if ?old = RIP_INFINITE_METRIC then rr_route y = None \<longleftrightarrow> m = RIP_INFINITE_METRIC else rr_route y \<noteq> None" by blast
    note replace = update_replace[OF 4(1,2) m(2) 4(3)]
    show "no_assert (if ?old \<noteq> RIP_INFINITE_METRIC then replace_route i ie nh m s4 else Inr s4)" by (rule replace(1))
    assume "(if ?old \<noteq> RIP_INFINITE_METRIC then replace_route i ie nh m s4 else Inr s4) = Inr s5"
    from replace(2)[OF this] obtain z R where 5: "changes_one i R z s s5" "adopting (ripRoutes s ! i) ie m tag from z"
      "rr_route z = None \<longleftrightarrow> m = RIP_INFINITE_METRIC" by (elim exE conjE)
    show "no_assert (if m = RIP_INFINITE_METRIC \<and> ?old \<noteq> RIP_INFINITE_METRIC
        then invalidateRoute i (triggerUpdate (change_rip i (rr_changed_update (\<lambda>_. True)) s5))
        else Inr (change_rip i (rr_lastUpdateTime_update (\<lambda>_. rip_now (triggerUpdate (change_rip i (rr_changed_update (\<lambda>_. True)) s5))))
               (triggerUpdate (change_rip i (rr_changed_update (\<lambda>_. True)) s5))))"
      by (rule update_finish[OF 5 m refl]) (simp only: no_assert_simps)
  qed
  assume "updateRoute i ie nh m tag from s = Inr s'"
  then obtain s1 s2 s4 s5 where 1: "rip_setInterface (Some ie) i s = Inr s1" "rip_setMetric m i s1 = Inr s2"
    and 4: "(if ?old = RIP_INFINITE_METRIC \<and> m < RIP_INFINITE_METRIC
        then revive_route i ie nh m (change_rip i (\<lambda>r. r\<lparr>rr_from := from, rr_tag := tag\<rparr>) s2)
        else Inr (change_rip i (\<lambda>r. r\<lparr>rr_from := from, rr_tag := tag\<rparr>) s2)) = Inr s4"
    and 5: "(if ?old \<noteq> RIP_INFINITE_METRIC then replace_route i ie nh m s4 else Inr s4) = Inr s5"
    and 6: "(if m = RIP_INFINITE_METRIC \<and> ?old \<noteq> RIP_INFINITE_METRIC
        then invalidateRoute i (triggerUpdate (change_rip i (rr_changed_update (\<lambda>_. True)) s5))
        else Inr (change_rip i (rr_lastUpdateTime_update (\<lambda>_. rip_now (triggerUpdate (change_rip i (rr_changed_update (\<lambda>_. True)) s5))))
               (triggerUpdate (change_rip i (rr_changed_update (\<lambda>_. True)) s5)))) = Inr s'"
    unfolding updateRoute_def Let_def by (auto simp: bindE_eq_Inr simp del: triggerUpdate_simps change_rip_simps)
  obtain P x where 3: "changes_one i P x s (change_rip i (\<lambda>r. r\<lparr>rr_from := from, rr_tag := tag\<rparr>) s2)"
    "adopting (ripRoutes s ! i) ie m tag from x" "rr_route x = rr_route (ripRoutes s ! i)"
    by (rule update_fields[OF i 1])
  from update_revive(2)[OF 3(1,2) route[OF 3(3)] m(2) 4] obtain y Q where y: "changes_one i Q y s s4" "adopting (ripRoutes s ! i) ie m tag from y"
    "if ?old = RIP_INFINITE_METRIC then rr_route y = None \<longleftrightarrow> m = RIP_INFINITE_METRIC else rr_route y \<noteq> None" by blast
  from update_replace(2)[OF y(1,2) m(2) y(3) 5] obtain z R where z: "changes_one i R z s s5" "adopting (ripRoutes s ! i) ie m tag from z"
    "rr_route z = None \<longleftrightarrow> m = RIP_INFINITE_METRIC" by (elim exE conjE)
  show "\<exists>x P. changes_one i P x s s' \<and> updated (ripRoutes s ! i) ie m tag from (rip_now s) x"
    by (rule update_finish[OF z m refl]) (use 6 in auto)
qed

section \<open>Every operation keeps the invariant\<close>

definition secure :: "('a \<Rightarrow> bool) \<Rightarrow> 'a res \<Rightarrow> bool" where
  "secure P x \<longleftrightarrow> no_assert x \<and> (\<forall>a. x = Inr a \<longrightarrow> P a)"

lemma secure_simps [simp]:
  "secure P (Inr a) = P a" "secure P (Inl (RuntimeError m))" "secure P (Inl (Undefined m))" "secure P (Inl (NullPointer m))"
  "secure P (Inl (Diverges m))" "secure P (mapE f x) = secure (\<lambda>a. P (f a)) x"
  by (auto simp: secure_def mapE_eq_Inr)

lemma secure_bindE [intro]: "secure Q x \<Longrightarrow> (\<And>a. Q a \<Longrightarrow> secure P (f a)) \<Longrightarrow> secure P (bindE x f)"
  by (cases x) (auto simp: secure_def no_assert_def)

lemma secure_weaken: "secure Q x \<Longrightarrow> (\<And>a. Q a \<Longrightarrow> P a) \<Longrightarrow> secure P x"
  by (auto simp: secure_def)

lemma secureI: "no_assert x \<Longrightarrow> (\<And>a. x = Inr a \<Longrightarrow> P a) \<Longrightarrow> secure P x"
  by (simp add: secure_def)

lemma secure_True: "secure (\<lambda>_. True) x = no_assert x"
  by (simp add: secure_def)

lemma find_index_Some: "find_index P xs = Some j \<Longrightarrow> j < length xs \<and> P (xs ! j) \<and> (\<forall>k<j. \<not> P (xs ! k))"
proof (induction xs arbitrary: j)
  case (Cons x xs)
  show ?case
  proof (cases "P x")
    case False
    then obtain i where i: "find_index P xs = Some i" "j = Suc i" using Cons.prems by auto
    have "\<not> P ((x # xs) ! k)" if "k < Suc i" for k using that False Cons.IH[OF i(1)] by (cases k) auto
    then show ?thesis using Cons.IH[OF i(1)] i(2) by auto
  qed (use Cons.prems in auto)
qed simp

lemma find_index_None: "find_index P xs = None \<longleftrightarrow> (\<forall>x\<in>set xs. \<not> P x)"
  by (induction xs) auto

lemma rip_okD:
  assumes "rip_ok s"
  shows "i < length (ripRoutes s) \<Longrightarrow> rip_route_ok (ripRoutes s ! i)" "x \<in> set (ripInterfaces s) \<Longrightarrow> rip_interface_ok x"
  using assms by (auto simp: rip_ok_def list_all_iff)

lemma rip_ok_change: "rip_ok s \<Longrightarrow> i < length (ripRoutes s) \<Longrightarrow> rip_route_ok (f (ripRoutes s ! i)) \<Longrightarrow> rip_ok (change_rip i f s)"
  using changes_one_ok[OF _ changes_one_change] by blast

lemma rip_ok_changes: "rip_ok s \<Longrightarrow> changes P s s' \<Longrightarrow> rip_ok s'"
  by (auto simp: rip_ok_def changes_def same_config_def list_all_iff)

lemma rip_ok_frame [simp]:
  "rip_ok (triggerUpdate s) = rip_ok s" "rip_ok (rip_emit x s) = rip_ok s" "rip_ok (s\<lparr>rip_rt := T\<rparr>) = rip_ok s"
  "rip_ok (s\<lparr>updateTimer := t\<rparr>) = rip_ok s" "rip_ok (s\<lparr>triggeredUpdateTimer := t\<rparr>) = rip_ok s" "rip_ok (s\<lparr>startupTimer := t\<rparr>) = rip_ok s"
  "rip_ok (s\<lparr>shutdownTimer := t\<rparr>) = rip_ok s" "rip_ok (s\<lparr>rip_operational := b\<rparr>) = rip_ok s" "rip_ok (s\<lparr>rip_subscribed := b\<rparr>) = rip_ok s"
  "rip_ok (s\<lparr>rip_now := u\<rparr>) = rip_ok s"
  by (simp_all add: rip_ok_def rip_emit_def)

lemma rip_sendPacket_ok [simp]: "rip_ok (rip_sendPacket pkt a p i s) = rip_ok s" "rip_ok (sendRIPRequest ri s) = rip_ok s"
  "rip_ok (send_entries ri a p es s) = rip_ok s"
  by (simp_all add: rip_sendPacket_def sendRIPRequest_def send_entries_def Let_def)

lemma invalidateRoute_ok: "rip_ok s \<Longrightarrow> i < length (ripRoutes s) \<Longrightarrow> secure (\<lambda>s'. rip_ok s' \<and> length (ripRoutes s') = length (ripRoutes s)) (invalidateRoute i s)"
  by (rule invalidateRoute_changes[of i s]) (auto simp: changes_one_ok[of s] changes_oneD)

lemma list_all_take_drop: "list_all P rs \<Longrightarrow> list_all P (take i rs @ drop j rs)"
  using set_take_subset[of i rs] set_drop_subset[of j rs] by (auto simp: list_all_iff)

lemma rip_ok_remove: "rip_ok s \<Longrightarrow> rip_ok (s\<lparr>ripRoutes := take i (ripRoutes s) @ drop j (ripRoutes s)\<rparr>)"
  by (simp add: rip_ok_def list_all_take_drop del: list_all_append)

lemma purgeRoute_ok:
  assumes "rip_ok s" "i < length (ripRoutes s)" "rr_type (ripRoutes s ! i) = RIP_ROUTE_RTE"
  shows "secure (\<lambda>s'. rip_ok s' \<and> length (ripRoutes s') < length (ripRoutes s)) (purgeRoute i s)"
proof (cases "rr_route (ripRoutes s ! i)")
  case None
  then show ?thesis using assms rip_ok_remove[OF assms(1)] by (auto simp: purgeRoute_def)
next
  case (Some p)
  let ?s = "change_rip i (rr_route_update (\<lambda>_. None)) s"
  obtain s1 P where s1: "rip_deleteRoute p ?s = Inr s1" "changes P ?s s1" by (rule rip_deleteRoute_changes)
  have r1: "ripRoutes s1 = (map (drop_lost P) (ripRoutes s))[i := drop_lost P ((ripRoutes s ! i)\<lparr>rr_route := None\<rparr>)]"
    using s1(2) by (simp add: changes_def map_update)
  have "list_all rip_route_ok (map (drop_lost P) (ripRoutes s))" using assms(1) by (auto simp: rip_ok_def list_all_iff)
  moreover have "take i (ripRoutes s1) @ drop (Suc i) (ripRoutes s1) =
      take i (map (drop_lost P) (ripRoutes s)) @ drop (Suc i) (map (drop_lost P) (ripRoutes s))"
    using assms(2) by (simp add: r1 take_map drop_map)
  ultimately have "list_all rip_route_ok (take i (ripRoutes s1) @ drop (Suc i) (ripRoutes s1))"
    using list_all_take_drop by metis
  then show ?thesis using s1 assms by (auto simp: purgeRoute_def Some rip_ok_def changes_def same_config_def)
qed

lemma checkRouteIsExpired_ok:
  assumes "rip_ok s" "i < length (ripRoutes s)"
  shows "secure (\<lambda>(x, s'). rip_ok s' \<and> (if x = Purged then length (ripRoutes s') < length (ripRoutes s)
      else length (ripRoutes s') = length (ripRoutes s))) (checkRouteIsExpired i s)"
  using purgeRoute_ok[OF assms] invalidateRoute_ok[OF assms] assms
  by (auto simp: checkRouteIsExpired_def Let_def)

lemma secure_bindE_pair:
  "secure (\<lambda>a. rip_ok (snd a)) x \<Longrightarrow> (\<And>v s. rip_ok s \<Longrightarrow> secure P (f v s)) \<Longrightarrow> secure P (bindE x (\<lambda>(v, s). f v s))"
  by (rule secure_bindE[of "\<lambda>a. rip_ok (snd a)"]) auto

lemma put_entry_ok: "rip_ok s \<Longrightarrow> secure (\<lambda>c'. rip_ok (snd c')) (put_entry room i addr port e (es, s))"
  by (auto simp: put_entry_def Let_def)

lemma send_loop_ok: "rip_ok (snd c) \<Longrightarrow> secure (\<lambda>c'. rip_ok (snd c')) (send_loop f room i addr port changedOnly j c)"
proof (induction f arbitrary: changedOnly j c)
  case (Suc f)
  show ?case
  proof (cases "j < length (ripRoutes (snd c))")
    case True
    have e: "secure (\<lambda>a. rip_ok (snd a)) (checkRouteIsExpired j (snd c))"
      by (rule secure_weaken[OF checkRouteIsExpired_ok[OF Suc.prems True]]) auto
    have go: "secure (\<lambda>c'. rip_ok (snd c')) (send_loop f room i addr port b (Suc j) (es, s))" if "rip_ok s" for es s b
      using Suc.IH that by simp
    have put: "secure (\<lambda>c'. rip_ok (snd c')) (bindE (put_entry room i addr port x (es, s)) (send_loop f room i addr port b (Suc j)))"
      if "rip_ok s" for x es s b
      using put_entry_ok[OF that] Suc.IH by (rule secure_bindE)
    show ?thesis
      unfolding send_loop.simps using True
      by (auto intro!: secure_bindE_pair[OF e] simp: go put Let_def split: expiry.split option.split)
  qed (use Suc.prems in simp)
qed simp

lemma sendRoutes_ok: "rip_ok s \<Longrightarrow> secure rip_ok (sendRoutes addr port i changedOnly s)"
  unfolding sendRoutes_def
proof (rule secure_bindE[of "\<lambda>_. True"])
  show "secure (\<lambda>_. True) (maxEntries i s)" by (simp add: maxEntries_def Let_def split: option.split)
  fix room assume "rip_ok s"
  then have "secure (\<lambda>c'. rip_ok (snd c')) (send_loop (length (ripRoutes s)) room i addr port changedOnly 0 ([], s))" by (simp add: send_loop_ok)
  then show "secure rip_ok (mapE (\<lambda>(es, s'). if es \<noteq> [] then send_entries i addr port es s' else s')
      (send_loop (length (ripRoutes s)) room i addr port changedOnly 0 ([], s)))"
    by (simp add: secure_weaken split_beta)
qed

lemma send_on_ok: "rip_ok s \<Longrightarrow> secure rip_ok (send_on is P changedOnly s)"
  by (induction "is" arbitrary: s) (auto intro!: secure_bindE[of rip_ok] sendRoutes_ok)

lemma processUpdate_ok: "rip_ok s \<Longrightarrow> secure rip_ok (processUpdate triggered s)"
proof -
  assume "rip_ok s"
  have "rip_ok (a\<lparr>ripRoutes := map (rr_changed_update (\<lambda>_. False)) (ripRoutes a)\<rparr>)" if "rip_ok a" for a
    using that by (auto simp: rip_ok_def list_all_iff rip_route_ok_def)
  then show ?thesis unfolding processUpdate_def secure_simps by (intro secure_weaken[OF send_on_ok[OF \<open>rip_ok s\<close>]])
qed

text \<open>A route that is learned is put behind the others.\<close>

lemma rip_addRoute_changes:
  assumes "1 \<le> m" "m < RIP_INFINITE_METRIC"
  shows "no_assert (rip_addRoute dest n ie nh m tag from s)"
    "rip_addRoute dest n ie nh m tag from s = Inr s' \<Longrightarrow>
       \<exists>P x. same_config s s' \<and> rip_sent s' = rip_sent s \<and> ripRoutes s' = map (drop_lost P) (ripRoutes s) @ [x] \<and> rip_route_ok x
         \<and> rr_metric x = m \<and> rr_from x = from \<and> (n \<noteq> 0 \<longrightarrow> P = {})"
proof -
  show "no_assert (rip_addRoute dest n ie nh m tag from s)"
    unfolding rip_addRoute_def by (rule no_assert_bindE) (auto split: option.split)
  assume "rip_addRoute dest n ie nh m tag from s = Inr s'"
  then obtain p s1 r where s1: "rip_addTableRoute dest n ie nh m s = Inr (p, s1)"
    "s' = triggerUpdate (s1\<lparr>ripRoutes := ripRoutes s1 @
             [(new_rip_route r RIP_ROUTE_RTE m tag)\<lparr>rr_from := from, rr_lastUpdateTime := rip_now s, rr_changed := True\<rparr>]\<rparr>)"
    by (auto simp: rip_addRoute_def bindE_eq_Inr split: option.splits)
  from rip_addTableRoute_changes[OF s1(1)] obtain P where P: "changes P s s1" "n \<noteq> 0 \<longrightarrow> P = {}" .
  show "\<exists>P x. same_config s s' \<and> rip_sent s' = rip_sent s \<and> ripRoutes s' = map (drop_lost P) (ripRoutes s) @ [x] \<and> rip_route_ok x
      \<and> rr_metric x = m \<and> rr_from x = from \<and> (n \<noteq> 0 \<longrightarrow> P = {})"
    using P assms by (auto simp: s1(2) changes_def rip_route_ok_def new_rip_route_def intro!: exI[of _ P])
qed

lemma entry_metric_uint: "entry_acceptable v e \<Longrightarrow> sint (re_metric e) = uint (re_metric e)"
  and entry_metric_range: "entry_acceptable v e \<Longrightarrow> 1 \<le> sint (re_metric e) \<and> sint (re_metric e) \<le> 16"
proof -
  assume "entry_acceptable v e"
  then have "\<not> re_metric e < 1" "re_metric e \<le> 16" unfolding entry_acceptable_def RIP_INFINITE_METRIC_def by (auto simp: not_less)
  then have u: "1 \<le> uint (re_metric e)" "uint (re_metric e) \<le> 16" by (simp_all only: word_less_def word_le_def) simp_all
  then show "sint (re_metric e) = uint (re_metric e)" by (simp add: sint_uint signed_take_bit_int_eq_self)
  then show "1 \<le> sint (re_metric e) \<and> sint (re_metric e) \<le> 16" using u by simp
qed

lemma process_entry_ok:
  assumes "rip_ok s" "rip_interface_ok inc" "entry_acceptable v e"
  shows "secure (\<lambda>s'. rip_ok s' \<and> same_config s s') (process_entry inc srcAddr e s)"
proof -
  define m where "m = min (sint (re_metric e) + ri_metric inc) RIP_INFINITE_METRIC"
  define nh where "nh = (if ip4_isUnspecified (re_nextHop e) then srcAddr else re_nextHop e)"
  have m: "1 \<le> m" "m \<le> RIP_INFINITE_METRIC"
    using assms(2,3) entry_metric_range[of v e] by (auto simp: m_def rip_interface_ok_def RIP_INFINITE_METRIC_def)
  show ?thesis
  proof (cases "findRoute (re_address e) (re_prefixLength e) s")
    case None
    show ?thesis
    proof (cases "m = RIP_INFINITE_METRIC")
      case False
      then have a: "1 \<le> m" "m < RIP_INFINITE_METRIC" using m by auto
      have "rip_ok s' \<and> same_config s s'" if s': "rip_addRoute (re_address e) (re_prefixLength e) (ri_ie inc) nh m (re_routeTag e) srcAddr s = Inr s'" for s'
        using rip_addRoute_changes(2)[OF a s'] assms(1) by (auto simp: rip_ok_def same_config_def list_all_iff)
      then have "secure (\<lambda>s'. rip_ok s' \<and> same_config s s') (rip_addRoute (re_address e) (re_prefixLength e) (ri_ie inc) nh m (re_routeTag e) srcAddr s)"
        using rip_addRoute_changes(1)[OF a] by (auto intro: secureI)
      then show ?thesis using None False by (simp add: process_entry_def Let_def m_def[symmetric] nh_def[symmetric])
    qed (use None assms(1) in \<open>simp add: process_entry_def Let_def m_def[symmetric]\<close>)
  next
    case (Some j)
    then have j: "j < length (ripRoutes s)" using find_index_Some by (fastforce simp: findRoute_def)
    let ?r = "ripRoutes s ! j"
    define s1 where "s1 = (if rr_from ?r = srcAddr then change_rip j (rr_lastUpdateTime_update (\<lambda>_. rip_now s)) s else s)"
    have s1: "rip_ok s1" "same_config s s1" "j < length (ripRoutes s1)"
      using rip_okD(1)[OF assms(1) j] rip_ok_change[OF assms(1) j] j assms(1) by (auto simp: s1_def rip_route_ok_def)
    note u = updateRoute_changes[OF s1(3) rip_okD(1)[OF s1(1,3)] m]
    have "rip_ok s' \<and> same_config s s'" if s': "updateRoute j (ri_ie inc) nh m (re_routeTag e) srcAddr s1 = Inr s'" for s'
    proof -
      from u(2)[OF s'] obtain x P where x: "changes_one j P x s1 s'" "updated (ripRoutes s1 ! j) (ri_ie inc) m (re_routeTag e) srcAddr (rip_now s1) x" by blast
      then have "rip_route_ok x" by (simp add: updated_def)
      then show ?thesis using changes_one_ok[OF s1(1) x(1)] same_config_trans[OF s1(2)] x(1) by (simp add: changes_one_def)
    qed
    then have "secure (\<lambda>s'. rip_ok s' \<and> same_config s s') (updateRoute j (ri_ie inc) nh m (re_routeTag e) srcAddr s1)"
      using u(1) by (auto intro: secureI)
    then show ?thesis
      using s1 assms(1) by (simp add: process_entry_def Let_def Some m_def[symmetric] nh_def[symmetric] s1_def[symmetric])
  qed
qed

lemma process_entries_ok:
  assumes "rip_ok s" "rip_interface_ok inc" "list_all (entry_acceptable v) es"
  shows "secure rip_ok (process_entries inc srcAddr es s)"
  using assms
proof (induction es arbitrary: s)
  case (Cons e es)
  have "secure rip_ok (process_entry inc srcAddr e s)"
    by (rule secure_weaken[OF process_entry_ok]) (use Cons.prems in auto)
  then show ?case using Cons by (auto intro!: secure_bindE[of rip_ok])
qed simp

lemma no_assert_collect [simp]: "no_assert (collect f ies)"
  by (induction ies) (auto simp: data_of_def split: option.split)

lemma isLocalAddress_ok [simp]: "no_assert (isLocalAddress a T)"
  by (auto simp: isLocalAddress_def)

lemma processResponse_ok: "rip_ok s \<Longrightarrow> secure rip_ok (processResponse pkt srcAddr srcPort ifId s)"
proof -
  assume ok: "rip_ok s"
  have "secure (\<lambda>(b, s'). rip_ok s' \<and> ripInterfaces s' = ripInterfaces s \<and> (b \<longrightarrow> list_all (entry_acceptable (rip_version s)) (rp_entry pkt)))
      (isValidResponse pkt srcAddr srcPort s)"
    using ok isLocalAddress_ok by (auto simp: isValidResponse_def split_beta secure_True intro!: secureI)
  then show ?thesis
    unfolding processResponse_def
  proof (rule secure_bindE)
    fix a :: "bool \<times> rip"
    assume "case a of (b, s') \<Rightarrow> rip_ok s' \<and> ripInterfaces s' = ripInterfaces s \<and> (b \<longrightarrow> list_all (entry_acceptable (rip_version s)) (rp_entry pkt))"
    then obtain b s' where a: "a = (b, s')" "rip_ok s'" "b \<Longrightarrow> list_all (entry_acceptable (rip_version s)) (rp_entry pkt)" by (cases a) auto
    have "rip_interface_ok inc" if "findInterfaceById ifId s' = Some inc" for inc
      using that rip_okD(2)[OF a(2)] by (auto simp: findInterfaceById_def find_Some_iff)
    then show "secure rip_ok (case a of (ok, s1) \<Rightarrow>
       if \<not> ok then Inr s1
       else case findInterfaceById ifId s1 of None \<Rightarrow> Inr s1 | Some inc \<Rightarrow> process_entries inc srcAddr (rp_entry pkt) s1)"
      using a process_entries_ok[OF a(2)] by (auto split: option.split)
  qed
qed

lemma no_assert_fill_request [simp]: "no_assert (fill_request n es s)"
  by (induction n es s rule: fill_request.induct) (auto simp: Let_def)

lemma processRequest_ok: "rip_ok s \<Longrightarrow> secure rip_ok (processRequest pkt srcAddr srcPort ifId s)"
  unfolding processRequest_def
  by (auto intro!: secure_bindE[of "\<lambda>_. True"] sendRoutes_ok simp: secure_True split: option.split)

section \<open>Notifications, and the life cycle\<close>

lemma getInterfaceMetric_range: "rip_ok s \<Longrightarrow> 1 \<le> getInterfaceMetric i s \<and> getInterfaceMetric i s < RIP_INFINITE_METRIC"
  using rip_okD(2)[of s] by (auto simp: getInterfaceMetric_def findInterfaceById_def find_Some_iff rip_interface_ok_def RIP_INFINITE_METRIC_def
      split: option.split)

lemma importRoute_ok:
  assumes "rip_ok s" "1 \<le> m" "m < RIP_INFINITE_METRIC"
  shows "secure rip_ok (importRoute r ty m tag s)"
  using assms by (auto simp: importRoute_def rip_ok_def rip_route_ok_def new_rip_route_def Let_def)

lemma rip_addInterface_ok:
  assumes "rip_ok s" "ie_multicast ie" "\<not> ie_loopback ie"
  shows "secure rip_ok (rip_addInterface ie c s)"
proof -
  have m: "no_assert (rip_mode_of x)" for x by (simp add: rip_mode_of_def split: option.split)
  have c: "secure rip_interface_ok (rip_configure k i)" if "rip_interface_ok i" for k i
    using that m by (auto simp: rip_configure_def rip_interface_ok_def split: option.split intro!: secureI)
  have "rip_interface_ok \<lparr>ri_ie = interfaceId ie, ri_metric = 1, ri_mode = NO_RIP\<rparr>" by (simp add: rip_interface_ok_def RIP_INFINITE_METRIC_def)
  then have "secure rip_interface_ok (case c of None \<Rightarrow> Inr \<lparr>ri_ie = interfaceId ie, ri_metric = 1, ri_mode = NO_RIP\<rparr> | Some c \<Rightarrow> rip_configure c \<lparr>ri_ie = interfaceId ie, ri_metric = 1, ri_mode = NO_RIP\<rparr>)"
    using c by (simp split: option.split)
  then show ?thesis
    using assms by (auto simp: rip_addInterface_def new_rip_interface_def rip_ok_def elim!: secure_weaken)
qed

lemma invalidate_where_ok:
  "rip_ok s \<Longrightarrow> set js \<subseteq> {..<length (ripRoutes s)} \<Longrightarrow> secure rip_ok (invalidate_where P js s)"
proof (induction js arbitrary: s)
  case (Cons j js)
  have "secure (\<lambda>s'. rip_ok s' \<and> length (ripRoutes s') = length (ripRoutes s)) (if P (ripRoutes s ! j) then invalidateRoute j s else Inr s)"
    using Cons.prems invalidateRoute_ok by auto
  then show ?case using Cons by (auto intro!: secure_bindE[of "\<lambda>s'. rip_ok s' \<and> length (ripRoutes s') = length (ripRoutes s)"])
qed simp

lemma deleteInterface_ok [simp]: "rip_ok s \<Longrightarrow> rip_ok (deleteInterface i s)"
  by (simp add: rip_ok_def deleteInterface_def list_all_iff)

lemma hear_deleted_ok [simp]: "rip_ok s \<Longrightarrow> rip_ok (hear_deleted r s)"
  using hear_deleted_routes(1,2)[where s = s and r = r] by (auto simp: rip_ok_def same_config_def list_all_iff)

context table_setter begin

lemma setter_ok:
  assumes "rip_ok s" "i < length (ripRoutes s)" "rip_route_ok (g (ripRoutes s ! i))"
  shows "secure (\<lambda>s'. rip_ok s' \<and> length (ripRoutes s') = length (ripRoutes s)) (write_through f i (change_rip i g s))"
proof (rule secureI)
  fix s' assume "write_through f i (change_rip i g s) = Inr s'"
  from setter_change[OF this assms(2)] obtain P where "changes_one i P (g (ripRoutes s ! i)) s s'" .
  then show "rip_ok s' \<and> length (ripRoutes s') = length (ripRoutes s)" using changes_one_ok[OF assms(1)] assms(3) changes_oneD(3) by blast
qed simp

end

lemma hear_added_ok: "rip_ok s \<Longrightarrow> secure rip_ok (hear_added r s)"
proof -
  assume ok: "rip_ok s"
  have readd: "secure rip_ok (mapE (\<lambda>s'. triggerUpdate (change_rip j (rr_changed_update (\<lambda>_. True)) s'))
      (rip_setMetric m j (change_rip j (rr_route_update (\<lambda>_. Some p)) s)))"
    if j: "j < length (ripRoutes s)" and m: "1 \<le> m" "m < RIP_INFINITE_METRIC" for j m p
  proof -
    have two: "change_rip j (rr_metric_update (\<lambda>_. m)) (change_rip j (rr_route_update (\<lambda>_. Some p)) s)
        = change_rip j (\<lambda>r. r\<lparr>rr_route := Some p, rr_metric := m\<rparr>) s" using j by (simp add: change_rip_def)
    have "rip_route_ok ((ripRoutes s ! j)\<lparr>rr_route := Some p, rr_metric := m\<rparr>)" using m by (simp add: rip_route_ok_def)
    from set_metric.setter_ok[OF ok j, where g = "\<lambda>r. r\<lparr>rr_route := Some p, rr_metric := m\<rparr>", OF this]
    have "secure (\<lambda>s'. rip_ok s' \<and> length (ripRoutes s') = length (ripRoutes s)) (rip_setMetric m j (change_rip j (rr_route_update (\<lambda>_. Some p)) s))"
      unfolding rip_setMetric_def two .
    moreover have "rip_ok (change_rip j (rr_changed_update (\<lambda>_. True)) a)" if "rip_ok a" "length (ripRoutes a) = length (ripRoutes s)" for a
      using rip_ok_change[OF that(1)] rip_okD(1)[OF that(1)] j that(2) by (simp add: rip_route_ok_def)
    ultimately show ?thesis by (auto elim!: secure_weaken)
  qed
  have "j < length (ripRoutes s)" if "findRoute_on i ty s = Some j" for i ty j
    using that find_index_Some by (fastforce simp: findRoute_on_def)
  then show ?thesis
    using ok getInterfaceMetric_range[OF ok] by (auto simp: hear_added_def simp del: secure_simps(6) intro!: importRoute_ok readd split: option.split)
qed

lemma hear_changed_ok: "rip_ok s \<Longrightarrow> secure rip_ok (hear_changed r s)"
proof -
  assume ok: "rip_ok s"
  show ?thesis
  proof (cases "rt_sourceType r = RIP \<or> findRoute_of (rt_ptr r) s = None")
    case False
    then obtain j where fr: "rt_sourceType r \<noteq> RIP" "findRoute_of (rt_ptr r) s = Some j" by auto
    then have j: "j < length (ripRoutes s)" using find_index_Some by (fastforce simp: findRoute_of_def)
    let ?n = "length (ripRoutes s)"
    let ?g = "\<lambda>x. x\<lparr>rr_dest := rt_dest r, rr_prefixLength := getNetmaskLength (rt_netmask r)\<rparr>"
    have two: "change_rip j (rr_nextHop_update (\<lambda>_. rt_gateway r)) (change_rip j ?g s) = change_rip j (\<lambda>x. (?g x)\<lparr>rr_nextHop := rt_gateway r\<rparr>) s"
      using j by (simp add: change_rip_def)
    have keep: "rip_route_ok ((?g (ripRoutes s ! j))\<lparr>rr_nextHop := rt_gateway r\<rparr>)" using rip_okD(1)[OF ok j] by (simp add: rip_route_ok_def)
    have 1: "secure (\<lambda>s'. rip_ok s' \<and> length (ripRoutes s') = ?n) (rip_setNextHop (rt_gateway r) j (change_rip j ?g s))"
      using set_gateway.setter_ok[OF ok j, where g = "\<lambda>x. (?g x)\<lparr>rr_nextHop := rt_gateway r\<rparr>", OF keep] unfolding rip_setNextHop_def two .
    have 2: "secure (\<lambda>s'. rip_ok s' \<and> length (ripRoutes s') = ?n) (rip_setInterface (rt_interface r) j s1)"
      if "rip_ok s1 \<and> length (ripRoutes s1) = ?n" for s1
      using set_interface.setter_ok[where s = s1 and i = j and g = "rr_ie_update (\<lambda>_. rt_interface r)" and ie = "rt_interface r"] that j rip_okD(1)[of s1 j]
      by (auto simp: rip_setInterface_def rip_route_ok_def)
    have 3: "rip_ok (change_rip j (rr_changed_update (\<lambda>_. True)) a)" if "rip_ok a \<and> length (ripRoutes a) = ?n" for a
      using rip_ok_change[of a j] rip_okD(1)[of a j] j that by (simp add: rip_route_ok_def)
    have "secure rip_ok (bindE (if rt_dest r \<noteq> rr_dest (ripRoutes s ! j) then Inr True
          else mapE (\<lambda>m. rt_netmask r \<noteq> m \<or> rt_gateway r \<noteq> rr_nextHop (ripRoutes s ! j) \<or> rt_interface r \<noteq> rr_ie (ripRoutes s ! j))
                 (makeNetmask (rr_prefixLength (ripRoutes s ! j)))) (\<lambda>changed.
        bindE (rip_setNextHop (rt_gateway r) j (change_rip j ?g s)) (\<lambda>s1.
          mapE (\<lambda>s2. if changed then triggerUpdate (change_rip j (rr_changed_update (\<lambda>_. True)) s2) else s2)
            (rip_setInterface (rt_interface r) j s1))))"
    proof (rule secure_bindE[of "\<lambda>_. True"])
      fix changed
      show "secure rip_ok (bindE (rip_setNextHop (rt_gateway r) j (change_rip j ?g s)) (\<lambda>s1.
          mapE (\<lambda>s2. if changed then triggerUpdate (change_rip j (rr_changed_update (\<lambda>_. True)) s2) else s2)
            (rip_setInterface (rt_interface r) j s1)))"
      proof (rule secure_bindE[OF 1])
        fix s1 assume s1: "rip_ok s1 \<and> length (ripRoutes s1) = ?n"
        show "secure rip_ok (mapE (\<lambda>s2. if changed then triggerUpdate (change_rip j (rr_changed_update (\<lambda>_. True)) s2) else s2)
            (rip_setInterface (rt_interface r) j s1))"
          unfolding secure_simps by (rule secure_weaken[OF 2[OF s1]]) (use 3 in auto)
      qed
    qed (simp add: secure_True)
    then show ?thesis using fr by (simp add: hear_changed_def Let_def)
  qed (use ok in \<open>auto simp: hear_changed_def\<close>)
qed

lemma notification_ok: "rip_ok s \<Longrightarrow> secure rip_ok (rip_receiveChangeNotification cfg x s)"
  unfolding rip_receiveChangeNotification_def
  by (cases x) (auto simp: hear_added_ok hear_changed_ok invalidateRoutes_def rip_addInterface_ok lessThan_atLeast0
      intro!: invalidate_where_ok split: option.split)

lemma configureInterfaces_ok: "rip_ok s \<Longrightarrow> secure rip_ok (configureInterfaces cfg ies s)"
  by (induction ies arbitrary: s) (auto intro!: secure_bindE[of rip_ok] rip_addInterface_ok)

lemma configureInitialRoutes_ok: "rip_ok s \<Longrightarrow> secure rip_ok (configureInitialRoutes rs s)"
proof (induction rs arbitrary: s)
  case (Cons r rs)
  have one: "secure rip_ok (importRoute r ty 1 0 s)" for ty
    by (rule importRoute_ok) (use Cons.prems in \<open>auto simp: RIP_INFINITE_METRIC_def\<close>)
  have "1 < RIP_INFINITE_METRIC" by (simp add: RIP_INFINITE_METRIC_def)
  then show ?case
    using Cons getInterfaceMetric_range[OF Cons.prems]
    by (auto intro!: secure_bindE[of rip_ok] importRoute_ok split: option.split)
qed simp

lemma fold_frame: "(\<And>x s. rip_ok (f x s) = rip_ok s) \<Longrightarrow> rip_ok (fold f xs s) = rip_ok s"
  by (induction xs arbitrary: s) simp_all

lemma schedule_update_ok: "rip_ok s \<Longrightarrow> secure rip_ok (schedule_update s)"
  by (simp add: schedule_update_def)

lemma startRIPRouting_ok: "rip_ok s \<Longrightarrow> secure rip_ok (startRIPRouting cfg s)"
  unfolding startRIPRouting_def Let_def
  by (intro secure_bindE[OF configureInterfaces_ok] secure_bindE[OF configureInitialRoutes_ok] schedule_update_ok) (simp_all add: fold_frame)

lemma stopRIPRouting_ok [simp]: "rip_ok (stopRIPRouting s)"
  by (simp add: stopRIPRouting_def rip_ok_def Let_def)

lemma operation_ok: "rip_ok s \<Longrightarrow> secure rip_ok (rip_handleOperationStage x s)"
  unfolding rip_handleOperationStage_def
  by (cases x) (auto simp: lessThan_atLeast0 intro!: secure_bindE[of rip_ok] invalidate_where_ok send_on_ok)

lemma message_ok: "rip_ok s \<Longrightarrow> secure rip_ok (rip_handleMessage cfg m s)"
  unfolding rip_handleMessage_def
  by (cases m) (auto simp: processUpdate_ok startRIPRouting_ok processRequest_ok processResponse_ok schedule_update_ok
      intro!: secure_bindE[OF processUpdate_ok])

lemma rip_step_ok: "rip_ok s \<Longrightarrow> secure rip_ok (rip_step cfg e s)"
  by (cases e) (simp_all add: message_ok operation_ok notification_ok)

lemma rip_run_ok: "rip_run cfg s \<Longrightarrow> rip_ok s"
proof (induction rule: rip_run.induct)
  case (start s up d)
  then show ?case by (simp add: rip_initialize_def rip_fresh_def rip_ok_def Let_def)
next
  case (step s e s')
  then show ?case using rip_step_ok[of s cfg e] by (simp add: secure_def)
qed

text \<open>
  C32. Whatever packets arrive and whatever others do to the routing table and the interfaces, every RIP route has a metric
  between 1 and 16, and its pointer to a route of the routing table is NULL exactly while the metric is 16; so that no assertion
  of the module can fail in the next step, whatever that is.  The pointer may dangle: the module does not hear of it when others
  delete a route that it has made itself.
\<close>

theorem rip_assertions_hold:
  assumes "rip_run cfg s"
  shows "(\<forall>r\<in>set (ripRoutes s). 1 \<le> rr_metric r \<and> rr_metric r \<le> 16 \<and> (rr_route r = None \<longleftrightarrow> rr_metric r = 16))
    \<and> (\<forall>e m. rip_step cfg e s \<noteq> Inl (AssertFailed m))"
proof -
  have ok: "rip_ok s" by (rule rip_run_ok[OF assms])
  have "rip_step cfg e s \<noteq> Inl (AssertFailed m)" for e m
    using rip_step_ok[OF ok, of cfg e] by (auto simp: secure_def no_assert_def)
  then show ?thesis using ok by (auto simp: rip_ok_def list_all_iff rip_route_ok_def RIP_INFINITE_METRIC_def)
qed

section \<open>An example\<close>

definition rip_example_link :: interface_entry where
  "rip_example_link = \<lparr>interfaceId = 1, nwLayerGateIndex = 0, ie_mtu = 1500, ie_loopback = False, ie_broadcast = True,
     ie_multicast = True, ie_macAddr = 1,
     ipv4Data = Some (new_interface_data\<lparr>inetAddr := 0x0A000001, ie_netmask := 0xFFFFFF00\<rparr>)\<rparr>"

definition rip_example_table :: routing_table where
  "rip_example_table = \<lparr>ift = [rip_example_link], routerId = 0, IPForward = True, multicastForward = False, routes = [],
     multicastRoutes = [], routingCache = Map.empty, localAddresses = [], localBroadcastAddresses = [], nextPtr = 0, rt_notes = []\<rparr>"

definition rip_example :: rip where
  "rip_example = \<lparr>rip_rt = rip_example_table, ripInterfaces = [], ripRoutes = [], updateTimer = None, triggeredUpdateTimer = None,
     startupTimer = None, shutdownTimer = None, rip_version = RIPv2, ripUdpPort = 520, updateInterval = 30 * sec,
     routeExpiryTime = 180 * sec, routePurgeTime = 120 * sec, shutdownTime = sec, rip_operational = False, rip_subscribed = False,
     rip_now = 0, triggerDelay = (\<lambda>_. sec), delayReads = 0, rip_sent = []\<rparr>"

definition rip_example_config :: "interface_entry \<Rightarrow> rip_config option" where
  "rip_example_config = (\<lambda>_. Some (None, None))"

definition rip_example_entry :: rip_entry where
  "rip_example_entry = \<lparr>re_addressFamilyId = RIP_AF_INET, re_routeTag = 0, re_address = 0x0A010000, re_prefixLength = 16,
     re_nextHop = 0, re_metric = 3\<rparr>"

definition rip_example_route :: "ip4 \<Rightarrow> int \<Rightarrow> simtime \<Rightarrow> rip_route" where
  "rip_example_route d i t = \<lparr>rr_type = RIP_ROUTE_RTE, rr_route = None, rr_dest = d, rr_prefixLength = 16, rr_nextHop = 0x0A000002,
     rr_ie = Some i, rr_from = 0x0A000002, rr_metric = 16, rr_tag = 0, rr_changed = False, rr_lastUpdateTime = t\<rparr>"

lemma rip_emit_frame [simp]:
  "rip_rt (rip_emit x s) = rip_rt s" "ripInterfaces (rip_emit x s) = ripInterfaces s" "rip_version (rip_emit x s) = rip_version s"
  "ripRoutes (rip_emit x s) = ripRoutes s" "updateTimer (rip_emit x s) = updateTimer s"
  by (simp_all add: rip_emit_def)

lemma sendRIPRequest_frame [simp]:
  "rip_rt (sendRIPRequest i s) = rip_rt s" "ripInterfaces (sendRIPRequest i s) = ripInterfaces s"
  "rip_version (sendRIPRequest i s) = rip_version s" "ripRoutes (sendRIPRequest i s) = ripRoutes s"
  "updateTimer (sendRIPRequest i s) = updateTimer s"
  by (simp_all add: sendRIPRequest_def rip_sendPacket_def Let_def)

lemma rip_example_started:
  obtains s where "rip_run rip_example_config s" "rip_rt s = rip_example_table" "ripInterfaces s = [\<lparr>ri_ie = 1, ri_metric = 1, ri_mode = SPLIT_HORIZON_POISONED_REVERSE\<rparr>]"
    "rip_version s = RIPv2" "ripRoutes s = []"
proof -
  let ?s = "rip_initialize True 0 rip_example"
  have r: "rip_run rip_example_config ?s" by (rule rip_run.start) (simp add: rip_fresh_def rip_example_def)
  obtain s where s: "rip_step rip_example_config (Rip_message Startup_timer) ?s = Inr s"
    "rip_rt s = rip_example_table" "ripInterfaces s = [\<lparr>ri_ie = 1, ri_metric = 1, ri_mode = SPLIT_HORIZON_POISONED_REVERSE\<rparr>]"
    "rip_version s = RIPv2" "ripRoutes s = []"
    by (simp add: rip_handleMessage_def rip_initialize_def rip_example_def startRIPRouting_def rip_example_table_def rip_example_link_def
        rip_addInterface_def new_rip_interface_def rip_example_config_def rip_configure_def rip_mode_of_def schedule_update_def Let_def)
  have "rip_possible (Rip_message Startup_timer) ?s" by (simp add: rip_initialize_def rip_example_def)
  from rip_run.step[OF r this s(1)] show ?thesis using that s by blast
qed

lemma rip_example_table_ok: "table_ok rip_example_table"
proof -
  have "isValidNetmask 0xFFFFFF00" unfolding isValidNetmask_iff by (rule bexI[of _ 24]) (simp_all add: makeNetmask_raw_def)
  then show ?thesis
    by (simp add: table_ok_def rip_example_table_def routes_ok_def in_order_def cache_ok_def masks_ok_def rip_example_link_def)
qed

lemma rip_assertions_hold_witness: "\<exists>s. rip_run rip_example_config s \<and> ripInterfaces s \<noteq> [] \<and>
    rip_step rip_example_config (Rip_message Update_timer) s \<noteq> Inl (AssertFailed ''route'')"
proof -
  obtain s where s: "rip_run rip_example_config s" "ripInterfaces s \<noteq> []" by (rule rip_example_started) simp
  then show ?thesis using rip_assertions_hold[OF s(1)] by blast
qed

end
