(* ===== verification/Rip_Send.thy ===== *)
theory Rip_Send
  imports Rip_Inv
begin

text \<open>
  What the RIP module announces: the packets of \<open>sendRoutes\<close>, with the split horizon and the routes that have expired; what
  becomes of a route that a neighbour announces, against the relaxation step of a distance vector protocol; and the behaviour
  of the code at the end of the life of a route and of a link.
\<close>

section \<open>Expired routes\<close>

definition expired :: "rip \<Rightarrow> rip_route \<Rightarrow> bool" where
  "expired s r \<longleftrightarrow> rr_type r = RIP_ROUTE_RTE \<and> rip_now s \<ge> rr_lastUpdateTime r + routeExpiryTime s"

definition purge_due :: "rip \<Rightarrow> rip_route \<Rightarrow> bool" where
  "purge_due s r \<longleftrightarrow> rr_type r = RIP_ROUTE_RTE \<and> rip_now s \<ge> rr_lastUpdateTime r + routeExpiryTime s + routePurgeTime s"

text \<open>The learned routes own routes of the type RIP, so that the module does not hear of their deletion.\<close>

definition owns_learned :: "rip \<Rightarrow> bool" where
  "owns_learned s \<longleftrightarrow> (\<forall>r p x. r \<in> set (ripRoutes s) \<longrightarrow> rr_type r = RIP_ROUTE_RTE \<longrightarrow> rr_route r = Some p \<longrightarrow>
     x \<in> set (routes (rip_rt s)) \<longrightarrow> rt_ptr x = p \<longrightarrow> rt_sourceType x = RIP)"

lemma owns_learnedD:
  "owns_learned s \<Longrightarrow> j < length (ripRoutes s) \<Longrightarrow> rr_type (ripRoutes s ! j) = RIP_ROUTE_RTE \<Longrightarrow> rr_route (ripRoutes s ! j) = Some p \<Longrightarrow>
   x \<in> set (routes (rip_rt s)) \<Longrightarrow> rt_ptr x = p \<Longrightarrow> rt_sourceType x = RIP"
  unfolding owns_learned_def using nth_mem by blast

lemma rip_deleteRoute_own:
  assumes "\<And>x. x \<in> set (routes (rip_rt s)) \<Longrightarrow> rt_ptr x = p \<Longrightarrow> rt_sourceType x = RIP"
  obtains s' where "rip_deleteRoute p s = Inr s'" "changes {} s s'" "routes (rip_rt s') = remove_ptr p (routes (rip_rt s))"
proof -
  let ?T = "snd (deleteRoute p (rip_rt s))"
  obtain s' where s': "rip_deleteRoute p s = Inr s'" by (simp add: rip_deleteRoute_def with_table_def)
  obtain r where r: "r = route_at p (rip_rt s)" by blast
  have "rt_notes ?T = rt_notes (rip_rt s) @ (case r of None \<Rightarrow> [] | Some x \<Rightarrow> [ROUTE_DELETED x])"
    by (auto simp: r deleteRoute_def removeRoute_def notify_def invalidateCache_def split_beta split: option.split)
  moreover have "lost (case r of None \<Rightarrow> [] | Some x \<Rightarrow> [ROUTE_DELETED x]) = {}"
    using assms by (auto simp: r route_at_def find_Some_iff split: option.split)
  moreover have rt: "routes ?T = remove_ptr p (routes (rip_rt s))"
    by (auto simp: deleteRoute_def removeRoute_def split_beta route_at_def find_None_iff remove_ptr_def filter_id_conv split: option.split)
  ultimately show ?thesis
    using s' by (auto simp: rip_deleteRoute_def elim!: with_table_routes intro!: that[OF s'] simp: changes_def)
qed

lemma invalidateRoute_own:
  assumes "owns_learned s" "j < length (ripRoutes s)" "rr_type (ripRoutes s ! j) = RIP_ROUTE_RTE"
  obtains s' where "invalidateRoute j s = Inr s'" "changes_one j {} (invalid (ripRoutes s ! j)) s s'" "owns_learned s'"
proof (cases "rr_route (ripRoutes s ! j)")
  case None
  let ?s' = "mark_invalid j s"
  have c: "changes_one j {} (invalid (ripRoutes s ! j)) s ?s'"
    using None assms(2) by (auto simp: changes_one_def invalid_def intro!: arg_cong[of _ _ "list_update _ j"])
  moreover have "owns_learned ?s'"
    using assms(1) None set_update_subset_insert[of "ripRoutes s" j]
    by (fastforce simp: owns_learned_def)
  ultimately show ?thesis using that None by (simp add: invalidateRoute_def)
next
  case (Some p)
  let ?s = "change_rip j (rr_route_update (\<lambda>_. None)) s"
  have own: "rt_sourceType x = RIP" if "x \<in> set (routes (rip_rt ?s))" "rt_ptr x = p" for x
    using owns_learnedD[OF assms Some] that by simp
  obtain s1 where s1: "rip_deleteRoute p ?s = Inr s1" "changes {} ?s s1" "routes (rip_rt s1) = remove_ptr p (routes (rip_rt s))"
    using rip_deleteRoute_own[of ?s p, OF own] by (metis change_rip_simps(3))
  let ?s' = "mark_invalid j s1"
  have r: "ripRoutes ?s' = (ripRoutes s)[j := invalid (ripRoutes s ! j)]"
    using s1(2) assms(2) by (auto simp: changes_def invalid_def)
  then have c: "changes_one j {} (invalid (ripRoutes s ! j)) s ?s'"
    using s1(2) assms(2) by (simp add: changes_one_def changes_def)
  have "owns_learned ?s'"
    unfolding owns_learned_def r
  proof (intro allI impI)
    fix q p' x assume q: "q \<in> set ((ripRoutes s)[j := invalid (ripRoutes s ! j)])" "rr_type q = RIP_ROUTE_RTE" "rr_route q = Some p'"
      "x \<in> set (routes (rip_rt (mark_invalid j s1)))" "rt_ptr x = p'"
    then have "q \<in> set (ripRoutes s)" using set_update_subset_insert[of "ripRoutes s" j "invalid (ripRoutes s ! j)"] by (auto simp: invalid_def)
    then show "rt_sourceType x = RIP" using assms(1) q s1(3) by (auto simp: owns_learned_def remove_ptr_def)
  qed
  then show ?thesis using that c s1(1) Some by (simp add: invalidateRoute_def)
qed

section \<open>The packets of an update\<close>

lemma map_filter_append: "List.map_filter f (xs @ ys) = List.map_filter f xs @ List.map_filter f ys"
  by (simp add: List.map_filter_def)

text \<open>The entry that a route has in an update, if it has one.\<close>

definition announced :: "rip \<Rightarrow> rip_interface \<Rightarrow> bool \<Rightarrow> rip_route \<Rightarrow> rip_entry option" where
  "announced s i changedOnly r =
     (let from_there = (rr_ie r = Some (ri_ie i)) in
      if expired s r \<or> changedOnly \<and> \<not> rr_changed r \<or> from_there \<and> ri_mode i = SPLIT_HORIZON then None
      else Some \<lparr>re_addressFamilyId = RIP_AF_INET, re_routeTag = rr_tag r, re_address = rr_dest r, re_prefixLength = rr_prefixLength r,
             re_nextHop = 0,
             re_metric = (if from_there \<and> ri_mode i = SPLIT_HORIZON_POISONED_REVERSE then 16 else word_of_int (rr_metric r))\<rparr>)"

lemma announced_horizon:
  "announced s i changedOnly r =
     (if expired s r \<or> changedOnly \<and> \<not> rr_changed r then None else map_option (route_entry r) (horizon_metric i r))"
  by (simp add: announced_def horizon_metric_def route_entry_def UNSPECIFIED_ADDRESS_def RIP_INFINITE_METRIC_def Let_def)

definition response :: "rip_interface \<Rightarrow> ip4 \<Rightarrow> int \<Rightarrow> rip_entry list \<Rightarrow> rip_out" where
  "response i addr port es =
     Rip_datagram \<lparr>rp_command = RIP_RESPONSE, rp_entry = es, rp_byteLength = 4 + 20 * int (length es)\<rparr> addr port
       (if isMulticast addr then Some (ri_ie i) else None)"

lemma send_entries_response:
  "rip_version s = RIPv2 \<Longrightarrow> send_entries i addr port es s = s\<lparr>rip_sent := rip_sent s @ [response i addr port es]\<rparr>"
  by (simp add: send_entries_def rip_sendPacket_def rip_emit_def response_def Let_def)

text \<open>The state of the loop before the route \<open>k\<close>: \<open>es\<close> is the packet that is being filled, \<open>pkts\<close> those that are sent.\<close>

definition sending :: "rip \<Rightarrow> rip_interface \<Rightarrow> ip4 \<Rightarrow> int \<Rightarrow> bool \<Rightarrow> nat \<Rightarrow> rip_entry list list \<Rightarrow> rip_entry list \<Rightarrow> rip \<Rightarrow> bool" where
  "sending s i addr port changedOnly k pkts es s1 \<longleftrightarrow> same_config s s1 \<and> owns_learned s1
     \<and> ripRoutes s1 = map (\<lambda>r. if expired s r then invalid r else r) (take k (ripRoutes s)) @ drop k (ripRoutes s)
     \<and> rip_sent s1 = rip_sent s @ map (response i addr port) pkts \<and> (\<forall>p\<in>set pkts. length p = 25) \<and> length es < 25
     \<and> concat pkts @ es = List.map_filter (announced s i changedOnly) (take k (ripRoutes s))"

lemma sending_expired:
  assumes "sending s i addr port ch k pkts es s1" "k < length (ripRoutes s)" "\<not> purge_due s (ripRoutes s ! k)" "expired s (ripRoutes s ! k)"
  obtains s2 where "checkRouteIsExpired k s1 = Inr (Invalidated, s2)" "sending s i addr port ch (Suc k) pkts es s2"
proof -
  have k: "k < length (ripRoutes s1)" "ripRoutes s1 ! k = ripRoutes s ! k" and c: "same_config s s1"
    using assms(1,2) by (auto simp: sending_def nth_append)
  have t: "rr_type (ripRoutes s1 ! k) = RIP_ROUTE_RTE" using assms(4) k(2) by (simp add: expired_def)
  obtain s2 where s2: "invalidateRoute k s1 = Inr s2" "changes_one k {} (invalid (ripRoutes s ! k)) s1 s2" "owns_learned s2"
    by (rule invalidateRoute_own[OF _ k(1) t]) (use assms(1) k(2) in \<open>auto simp: sending_def\<close>)
  have "checkRouteIsExpired k s1 = Inr (Invalidated, s2)"
    using s2(1) assms(3,4) k(2) c by (auto simp: checkRouteIsExpired_def Let_def expired_def purge_due_def same_config_def)
  moreover have "sending s i addr port ch (Suc k) pkts es s2"
    using assms(1,2,4) s2(2,3) same_config_trans
    by (auto simp: sending_def changes_one_def take_Suc_conv_app_nth map_filter_append map_filter_simps announced_horizon
        Cons_nth_drop_Suc[symmetric] list_update_append)
  ultimately show ?thesis using that by blast
qed

lemma sending_valid:
  assumes "sending s i addr port ch k pkts es s1" "k < length (ripRoutes s)" "\<not> expired s (ripRoutes s ! k)" "0 \<le> routePurgeTime s"
  shows "checkRouteIsExpired k s1 = Inr (Valid, s1)" "ripRoutes s1 ! k = ripRoutes s ! k"
    "announced s i ch (ripRoutes s ! k) = None \<Longrightarrow> sending s i addr port ch (Suc k) pkts es s1"
proof -
  have k: "ripRoutes s1 ! k = ripRoutes s ! k" "same_config s s1"
    using assms(1,2) by (auto simp: sending_def nth_append)
  then show "ripRoutes s1 ! k = ripRoutes s ! k" by simp
  show "checkRouteIsExpired k s1 = Inr (Valid, s1)"
    using assms(3,4) k by (auto simp: checkRouteIsExpired_def Let_def expired_def same_config_def)
  show "announced s i ch (ripRoutes s ! k) = None \<Longrightarrow> sending s i addr port ch (Suc k) pkts es s1"
    using assms(1-3) by (auto simp: sending_def take_Suc_conv_app_nth map_filter_append map_filter_simps Cons_nth_drop_Suc[symmetric])
qed

lemma sending_put:
  assumes "sending s i addr port ch k pkts es s1" "k < length (ripRoutes s)" "\<not> expired s (ripRoutes s ! k)" "rip_version s = RIPv2"
    "announced s i ch (ripRoutes s ! k) = Some e"
  obtains pkts' es' s2 where "put_entry 25 i addr port e (es, s1) = Inr (es', s2)" "sending s i addr port ch (Suc k) pkts' es' s2"
proof -
  have v: "rip_version s1 = RIPv2" using assms(1,4) by (simp add: sending_def same_config_def)
  have room: "int (length es) < 25" using assms(1) by (simp add: sending_def)
  have next_k: "map (\<lambda>r. if expired s r then invalid r else r) (take (Suc k) (ripRoutes s)) @ drop (Suc k) (ripRoutes s)
      = map (\<lambda>r. if expired s r then invalid r else r) (take k (ripRoutes s)) @ drop k (ripRoutes s)"
    "List.map_filter (announced s i ch) (take (Suc k) (ripRoutes s)) = List.map_filter (announced s i ch) (take k (ripRoutes s)) @ [e]"
    using assms(2,3,5) by (auto simp: take_Suc_conv_app_nth map_filter_append map_filter_simps Cons_nth_drop_Suc[symmetric])
  show ?thesis
  proof (cases "length es + 1 \<ge> 25")
    case True
    let ?s2 = "s1\<lparr>rip_sent := rip_sent s1 @ [response i addr port (es @ [e])]\<rparr>"
    have "put_entry 25 i addr port e (es, s1) = Inr ([], ?s2)"
      using True room v by (simp add: put_entry_def Let_def send_entries_response)
    moreover have "sending s i addr port ch (Suc k) (pkts @ [es @ [e]]) [] ?s2"
      using assms(1) True unfolding sending_def next_k by (auto simp: same_config_def owns_learned_def)
    ultimately show ?thesis using that by blast
  next
    case False
    then have "put_entry 25 i addr port e (es, s1) = Inr (es @ [e], s1)" using room by (simp add: put_entry_def Let_def)
    moreover have "sending s i addr port ch (Suc k) pkts (es @ [e]) s1"
      using assms(1) False unfolding sending_def next_k by auto
    ultimately show ?thesis using that by blast
  qed
qed

lemma send_loop_prefix:
  assumes "owns_learned s" "rip_version s = RIPv2" "0 \<le> routePurgeTime s"
    "k \<le> length (ripRoutes s)" "list_all (\<lambda>r. \<not> purge_due s r) (take k (ripRoutes s))"
  shows "\<exists>pkts es s1. sending s i addr port ch k pkts es s1
    \<and> send_loop (f + k) 25 i addr port ch 0 ([], s) = send_loop f 25 i addr port ch k (es, s1)"
  using assms(4,5)
proof (induction k arbitrary: f)
  case 0
  have "sending s i addr port ch 0 [] [] s" using assms(1) by (simp add: sending_def map_filter_simps)
  then show ?case by force
next
  case (Suc k)
  have k: "k < length (ripRoutes s)" "\<not> purge_due s (ripRoutes s ! k)" "list_all (\<lambda>r. \<not> purge_due s r) (take k (ripRoutes s))"
    using Suc.prems by (auto simp: take_Suc_conv_app_nth)
  let ?r = "ripRoutes s ! k"
  from Suc.IH[of "Suc f"] k obtain pkts es s1 where IH: "sending s i addr port ch k pkts es s1"
    "send_loop (f + Suc k) 25 i addr port ch 0 ([], s) = send_loop (Suc f) 25 i addr port ch k (es, s1)" by auto
  have k1: "\<not> k \<ge> length (ripRoutes s1)" using IH(1) k(1) by (simp add: sending_def)
  consider (expired) "expired s ?r" | (skip) "\<not> expired s ?r" "announced s i ch ?r = None"
    | (put) e where "\<not> expired s ?r" "announced s i ch ?r = Some e" by auto
  then show ?case
  proof cases
    case expired
    from sending_expired[OF IH(1) k(1,2) expired] obtain s2 where s2: "checkRouteIsExpired k s1 = Inr (Invalidated, s2)"
      "sending s i addr port ch (Suc k) pkts es s2" .
    then show ?thesis using IH(2) k1 by auto
  next
    case skip
    note v = sending_valid[OF IH(1) k(1) skip(1) assms(3)]
    have "send_loop (Suc f) 25 i addr port ch k (es, s1) = send_loop f 25 i addr port ch (Suc k) (es, s1)"
      using v(1,2) k1 skip by (auto simp: announced_horizon Let_def split: if_splits)
    then show ?thesis using IH(2) v(3)[OF skip(2)] by metis
  next
    case put
    note v = sending_valid[OF IH(1) k(1) put(1) assms(3)]
    from sending_put[OF IH(1) k(1) put(1) assms(2) put(2)] obtain pkts' es' s2 where p:
      "put_entry 25 i addr port e (es, s1) = Inr (es', s2)" "sending s i addr port ch (Suc k) pkts' es' s2" .
    have "send_loop (Suc f) 25 i addr port ch k (es, s1) = send_loop f 25 i addr port ch (Suc k) (es', s2)"
      using v(1,2) k1 put p(1) by (auto simp: announced_horizon Let_def split: if_splits)
    then show ?thesis using IH(2) p(2) by metis
  qed
qed


text \<open>
  C35. The last route of the module cannot be purged by an update: the loop goes on behind the end of the vector.
\<close>

theorem purge_of_last_route_undefined:
  assumes "owns_learned s" "rip_version s = RIPv2" "0 \<le> routePurgeTime s"
    "ripRoutes s = rs @ [r]" "list_all (\<lambda>r. \<not> purge_due s r) rs" "purge_due s r"
  shows "sendRoutes addr port i changedOnly s = Inl (Undefined ''sendRoutes: iterator past the end'')"
proof -
  let ?n = "length rs"
  from send_loop_prefix[OF assms(1-3), of ?n i addr port changedOnly 1] assms(4,5) obtain pkts es s1 where
    loop: "sending s i addr port changedOnly ?n pkts es s1"
    "send_loop (Suc ?n) 25 i addr port changedOnly 0 ([], s) = send_loop 1 25 i addr port changedOnly ?n (es, s1)" by auto
  have s1: "ripRoutes s1 ! ?n = r" "length (ripRoutes s1) = Suc ?n" "same_config s s1" using loop(1) assms(4) by (auto simp: sending_def nth_append)
  have t: "rr_type r = RIP_ROUTE_RTE" using assms(6) by (simp add: purge_due_def)
  obtain s2 where s2: "purgeRoute ?n s1 = Inr s2" "length (ripRoutes s2) = ?n"
  proof (cases "rr_route (ripRoutes s1 ! ?n)")
    case None
    then show ?thesis using that s1 t by (simp add: purgeRoute_def)
  next
    case (Some p)
    obtain s2 P where "rip_deleteRoute p (change_rip ?n (rr_route_update (\<lambda>_. None)) s1) = Inr s2"
      "changes P (change_rip ?n (rr_route_update (\<lambda>_. None)) s1) s2" by (rule rip_deleteRoute_changes)
    then show ?thesis using that Some s1 t changesD(3) by (fastforce simp: purgeRoute_def)
  qed
  have "checkRouteIsExpired ?n s1 = Inr (Purged, s2)"
    using s2(1) assms(6) s1 by (auto simp: checkRouteIsExpired_def Let_def purge_due_def same_config_def)
  then have "send_loop (Suc ?n) 25 i addr port changedOnly 0 ([], s) = Inl (Undefined ''sendRoutes: iterator past the end'')"
    using loop(2) s1(2) s2(2) by simp
  then show ?thesis using assms(2,4) by (simp add: sendRoutes_def maxEntries_def)
qed

section \<open>Distances\<close>

text \<open>The metric of the first route to a prefix, and 16 where there is none; and the step of a distance vector protocol.\<close>

definition distance :: "ip4 \<Rightarrow> int \<Rightarrow> rip \<Rightarrow> int" where
  "distance d n s = (case findRoute d n s of None \<Rightarrow> RIP_INFINITE_METRIC | Some j \<Rightarrow> rr_metric (ripRoutes s ! j))"

definition relax :: "bool \<Rightarrow> bool \<Rightarrow> int \<Rightarrow> int \<Rightarrow> int" where
  "relax fixed from_next_hop m old =
     (if fixed \<and> old \<noteq> RIP_INFINITE_METRIC then old else if from_next_hop then m else min m old)"

definition fixed_route :: "ip4 \<Rightarrow> int \<Rightarrow> rip \<Rightarrow> bool" where
  "fixed_route d n s =
     (case findRoute d n s of None \<Rightarrow> False | Some j \<Rightarrow> rr_type (ripRoutes s ! j) \<in> {RIP_ROUTE_STATIC, RIP_ROUTE_DEFAULT})"

definition learned_from :: "ip4 \<Rightarrow> ip4 \<Rightarrow> int \<Rightarrow> rip \<Rightarrow> bool" where
  "learned_from a d n s = (case findRoute d n s of None \<Rightarrow> False | Some j \<Rightarrow> rr_from (ripRoutes s ! j) = a)"

definition rip_keys :: "rip \<Rightarrow> (ip4 \<times> int) list" where
  "rip_keys s = map (\<lambda>r. (rr_dest r, rr_prefixLength r)) (ripRoutes s)"

lemma find_index_map: "find_index P (map f xs) = find_index (P \<circ> f) xs"
  by (induction xs) simp_all

lemma find_index_append: "find_index P (xs @ ys) = (case find_index P xs of Some j \<Rightarrow> Some j | None \<Rightarrow> map_option ((+) (length xs)) (find_index P ys))"
proof (induction xs)
  case Nil
  have "(+) 0 = (\<lambda>x :: nat. x)" by auto
  then show ?case by (simp add: option.map_ident)
next
  case (Cons x xs)
  have "(\<lambda>i. Suc (length xs + i)) = (+) (Suc (length xs))" by auto
  then show ?case using Cons by (auto simp: option.map_comp comp_def split: option.split)
qed

lemma findRoute_keys: "findRoute d n s = find_index ((=) (d, n)) (rip_keys s)"
proof -
  have "(\<lambda>r :: rip_route. rr_dest r = d \<and> rr_prefixLength r = n) = ((=) (d, n) \<circ> (\<lambda>r. (rr_dest r, rr_prefixLength r)))" by auto
  then show ?thesis by (simp only: findRoute_def rip_keys_def find_index_map)
qed

lemma drop_lost_key [simp]: "rr_dest (drop_lost P r) = rr_dest r" "rr_prefixLength (drop_lost P r) = rr_prefixLength r"
  by (simp_all add: drop_lost_def invalid_def)

lemma drop_lost_metric: "rr_metric (drop_lost P r) = rr_metric r \<or> rr_metric (drop_lost P r) = RIP_INFINITE_METRIC"
  by (simp add: drop_lost_def invalid_def)

text \<open>A change of the route that was found, and a route that is added where none was.\<close>

lemma distance_change:
  assumes "changes_one j P x s s'" "findRoute d n s = Some j" "rr_dest x = d" "rr_prefixLength x = n"
  shows "distance d n s' = rr_metric x" "(d', n') \<noteq> (d, n) \<Longrightarrow> distance d' n' s' \<in> {distance d' n' s, RIP_INFINITE_METRIC}"
proof -
  have j: "j < length (ripRoutes s)" "rr_dest (ripRoutes s ! j) = d" "rr_prefixLength (ripRoutes s ! j) = n"
    using assms(2) find_index_Some by (fastforce simp: findRoute_def)+
  have "rip_keys s' = rip_keys s"
    using assms(1,3,4) j by (auto simp: rip_keys_def changes_one_def nth_list_update intro!: nth_equalityI)
  then have f: "findRoute a b s' = findRoute a b s" for a b by (simp add: findRoute_keys)
  show "distance d n s' = rr_metric x" using changes_oneD(5)[OF assms(1)] by (simp add: distance_def f assms(2))
  show "distance d' n' s' \<in> {distance d' n' s, RIP_INFINITE_METRIC}" if "(d', n') \<noteq> (d, n)"
  proof (cases "findRoute d' n' s")
    case (Some k)
    then have k: "k < length (ripRoutes s)" "rr_dest (ripRoutes s ! k) = d'" "rr_prefixLength (ripRoutes s ! k) = n'"
      using find_index_Some by (fastforce simp: findRoute_def)+
    then have "k \<noteq> j" using that j by auto
    then show ?thesis using changes_oneD(6)[OF assms(1) k(1)] drop_lost_metric by (auto simp: distance_def f Some)
  qed (simp add: distance_def f)
qed

lemma distance_new:
  assumes "ripRoutes s' = map (drop_lost P) (ripRoutes s) @ [x]" "findRoute d n s = None" "rr_dest x = d" "rr_prefixLength x = n"
  shows "distance d n s' = rr_metric x" "(d', n') \<noteq> (d, n) \<Longrightarrow> distance d' n' s' \<in> {distance d' n' s, RIP_INFINITE_METRIC}"
proof -
  have "rip_keys s' = rip_keys s @ [(d, n)]" using assms(1,3,4) by (simp add: rip_keys_def)
  then have f: "findRoute a b s' = (case findRoute a b s of Some k \<Rightarrow> Some k | None \<Rightarrow> if (a, b) = (d, n) then Some (length (ripRoutes s)) else None)" for a b
    by (auto simp: findRoute_keys find_index_append rip_keys_def split: option.split)
  show "distance d n s' = rr_metric x" using assms(1) by (simp add: distance_def f assms(2) nth_append)
  show "distance d' n' s' \<in> {distance d' n' s, RIP_INFINITE_METRIC}" if "(d', n') \<noteq> (d, n)"
  proof (cases "findRoute d' n' s")
    case (Some k)
    then have "k < length (ripRoutes s)" using find_index_Some by (fastforce simp: findRoute_def)
    then show ?thesis using assms(1) drop_lost_metric by (auto simp: distance_def f Some nth_append)
  qed (use that in \<open>auto simp: distance_def f\<close>)
qed

text \<open>The route that is added is the one with the new pointer.\<close>

lemma rip_addRoute_key:
  assumes "table_ok (rip_rt s)" "rip_addRoute d n ie nh m tag from s = Inr s'"
  shows "\<exists>x P. ripRoutes s' = map (drop_lost P) (ripRoutes s) @ [x] \<and> rr_dest x = d \<and> rr_prefixLength x = n \<and> rr_metric x = m"
proof -
  from assms(2) obtain p s1 r where s1: "rip_addTableRoute d n ie nh m s = Inr (p, s1)" "route_at p (rip_rt s1) = Some r"
    "s' = triggerUpdate (s1\<lparr>ripRoutes := ripRoutes s1 @
             [(new_rip_route r RIP_ROUTE_RTE m tag)\<lparr>rr_from := from, rr_lastUpdateTime := rip_now s, rr_changed := True\<rparr>]\<rparr>)"
    by (auto simp: rip_addRoute_def bindE_eq_Inr split: option.splits)
  let ?T = "(rip_rt s)\<lparr>nextPtr := Suc (nextPtr (rip_rt s))\<rparr>"
  obtain mask where mask: "makeNetmask n = Inr mask" using s1(1) by (auto simp: rip_addTableRoute_def bindE_eq_Inr)
  let ?e = "\<lparr>rt_ptr = p, rt_dest = d, rt_netmask = mask, rt_gateway = nh, rt_interface = Some ie, rt_sourceType = RIP,
      rt_adminDist = dUnknown, rt_metric = m\<rparr>"
  have p: "p = nextPtr (rip_rt s)" and w: "with_table (addRoute ?e) (s\<lparr>rip_rt := ?T\<rparr>) = Inr s1"
    using s1(1) mask by (auto simp: rip_addTableRoute_def mapE_eq_Inr Let_def)
  from w obtain T' where T': "addRoute ?e ?T = Inr T'" "rip_rt s1 = T'" by (rule with_table_routes) simp
  have "table_ok ?T" using assms(1) routes_ok_mono[of "nextPtr (rip_rt s)" "routes (rip_rt s)"] by (simp add: table_ok_def cache_ok_def)
  moreover have "p \<notin> rt_ptr ` set (routes (rip_rt s))"
    using table_okD(1)[OF assms(1)] p by (auto simp: routes_ok_def list_all_iff route_ok_def)
  ultimately have T'_ok: "table_ok T'" "?e \<in> set (routes T')" using addRoute_ok[of ?T ?e T'] T'(1) p by auto
  have "r \<in> set (routes T')" "rt_ptr r = p" using s1(2) T'(2) by (auto simp: route_at_def find_Some_iff)
  then have "r = ?e" using T'_ok by (auto simp: table_ok_def routes_ok_def distinct_map inj_on_def)
  moreover have "0 \<le> n" "n \<le> 32" "mask = makeNetmask_raw n" using mask by (auto simp: makeNetmask_def split: if_splits)
  moreover from rip_addTableRoute_changes[OF s1(1)] obtain P where "changes P s s1" by blast
  ultimately show ?thesis
    by (auto simp: s1(3) changes_def new_rip_route_def getNetmaskLength_netmask intro!: exI[of _ P])
qed

text \<open>An entry for a prefix that has no route, and one for a prefix that has one; \<open>m\<close> is the metric that is computed.\<close>

lemma process_entry_unknown:
  assumes "table_ok (rip_rt s)" "findRoute (re_address e) (re_prefixLength e) s = None" "process_entry inc src e s = Inr s'"
    "m = min (sint (re_metric e) + ri_metric inc) RIP_INFINITE_METRIC"
  shows "distance (re_address e) (re_prefixLength e) s' = m"
    "(d, n) \<noteq> (re_address e, re_prefixLength e) \<Longrightarrow> distance d n s' \<in> {distance d n s, RIP_INFINITE_METRIC}"
proof -
  define nh where "nh = (if ip4_isUnspecified (re_nextHop e) then src else re_nextHop e)"
  have "distance (re_address e) (re_prefixLength e) s' = m \<and>
     ((d, n) \<noteq> (re_address e, re_prefixLength e) \<longrightarrow> distance d n s' \<in> {distance d n s, RIP_INFINITE_METRIC})"
  proof (cases "m = RIP_INFINITE_METRIC")
    case True
    then have "s' = s" using assms(2,3) by (simp add: process_entry_def Let_def assms(4)[symmetric])
    then show ?thesis using True by (auto simp: distance_def assms(2))
  next
    case False
    then have "rip_addRoute (re_address e) (re_prefixLength e) (ri_ie inc) nh m (re_routeTag e) src s = Inr s'"
      using assms(2,3) by (simp add: process_entry_def Let_def assms(4)[symmetric] nh_def[symmetric])
    from rip_addRoute_key[OF assms(1) this] show ?thesis using distance_new[OF _ assms(2)] by metis
  qed
  then show "distance (re_address e) (re_prefixLength e) s' = m"
    "(d, n) \<noteq> (re_address e, re_prefixLength e) \<Longrightarrow> distance d n s' \<in> {distance d n s, RIP_INFINITE_METRIC}" by auto
qed

lemma process_entry_known:
  assumes "rip_ok s" "findRoute (re_address e) (re_prefixLength e) s = Some j" "process_entry inc src e s = Inr s'"
    "m = min (sint (re_metric e) + ri_metric inc) RIP_INFINITE_METRIC" "1 \<le> m" "r = ripRoutes s ! j"
  obtains (fixed) "rr_type r \<in> {RIP_ROUTE_STATIC, RIP_ROUTE_DEFAULT}" "rr_metric r \<noteq> RIP_INFINITE_METRIC" "s' = s"
  | (same) x where "rr_from r = src \<longrightarrow> rr_metric r = m" "rr_metric r \<le> m" "changes_one j {} x s s'" "rr_metric x = rr_metric r"
      "rr_dest x = rr_dest r" "rr_prefixLength x = rr_prefixLength r"
  | (better) x P where "\<not> (rr_type r \<in> {RIP_ROUTE_STATIC, RIP_ROUTE_DEFAULT} \<and> rr_metric r \<noteq> RIP_INFINITE_METRIC)"
      "rr_from r = src \<or> m < rr_metric r" "changes_one j P x s s'" "rr_metric x = m" "rr_dest x = rr_dest r" "rr_prefixLength x = rr_prefixLength r"
proof -
  define nh where "nh = (if ip4_isUnspecified (re_nextHop e) then src else re_nextHop e)"
  have j: "j < length (ripRoutes s)" using assms(2) find_index_Some by (fastforce simp: findRoute_def)
  define t where "t = (if rr_from r = src then rip_now s else rr_lastUpdateTime r)"
  let ?s1 = "change_rip j (rr_lastUpdateTime_update (\<lambda>_. t)) s"
  have "change_rip j (rr_lastUpdateTime_update (\<lambda>_. rr_lastUpdateTime r)) s = s" by (simp add: change_rip_def assms(6))
  then have s1: "(if rr_from r = src then change_rip j (rr_lastUpdateTime_update (\<lambda>_. rip_now s)) s else s) = ?s1" by (simp add: t_def)
  have c1: "changes_one j {} (r\<lparr>rr_lastUpdateTime := t\<rparr>) s ?s1"
    using changes_one_change[OF j, of "rr_lastUpdateTime_update (\<lambda>_. t)"] by (simp add: assms(6))
  have step: "process_entry inc src e s =
      (if rr_type r \<in> {RIP_ROUTE_STATIC, RIP_ROUTE_DEFAULT} \<and> rr_metric r \<noteq> RIP_INFINITE_METRIC then Inr s
       else if rr_from r = src \<and> rr_metric r \<noteq> m \<or> m < rr_metric r
       then updateRoute j (ri_ie inc) nh m (re_routeTag e) src ?s1 else Inr ?s1)"
    unfolding process_entry_def Let_def assms(2) assms(4)[symmetric] nh_def[symmetric] by (simp only: option.case s1 assms(6)[symmetric])
  consider (f) "rr_type r \<in> {RIP_ROUTE_STATIC, RIP_ROUTE_DEFAULT}" "rr_metric r \<noteq> RIP_INFINITE_METRIC" "s' = s"
    | (s) "\<not> (rr_from r = src \<and> rr_metric r \<noteq> m \<or> m < rr_metric r)" "s' = ?s1"
    | (b) "\<not> (rr_type r \<in> {RIP_ROUTE_STATIC, RIP_ROUTE_DEFAULT} \<and> rr_metric r \<noteq> RIP_INFINITE_METRIC)"
        "rr_from r = src \<and> rr_metric r \<noteq> m \<or> m < rr_metric r" "updateRoute j (ri_ie inc) nh m (re_routeTag e) src ?s1 = Inr s'"
    using assms(3) unfolding step by (metis Inr_inject)
  then show ?thesis
  proof cases
    case f then show ?thesis by (rule fixed)
  next
    case s then show ?thesis using same c1 by auto
  next
    case b
    have "rip_route_ok (ripRoutes ?s1 ! j)" "m \<le> RIP_INFINITE_METRIC" "j < length (ripRoutes ?s1)"
      using rip_okD(1)[OF assms(1) j] j assms(4) by (simp_all add: rip_route_ok_def)
    from updateRoute_changes(2)[OF this(3,1) assms(5) this(2) b(3)] obtain x P where
      x: "changes_one j P x ?s1 s'" "updated (ripRoutes ?s1 ! j) (ri_ie inc) m (re_routeTag e) src (rip_now ?s1) x" by auto
    have "rr_dest x = rr_dest r" "rr_prefixLength x = rr_prefixLength r" "rr_metric x = m" using x(2) j by (auto simp: updated_def assms(6))
    then show ?thesis using better b(1,2) changes_one_trans[OF c1 x(1)] by blast
  qed
qed

text \<open>
  C34. An entry of a response changes the distance to its prefix as the relaxation step of a distance vector protocol does, with
  the announced metric plus the one of the interface, at most 16: what the next hop itself announces is taken over, better or
  worse, what another neighbour announces only where it is better, and a static or default route that is valid stays.  The
  distance to no other prefix changes, but by the loss of a route.
\<close>

theorem response_entry_relaxes:
  assumes "rip_run cfg s" "table_ok (rip_rt s)" "inc \<in> set (ripInterfaces s)" "entry_acceptable (rip_version s) e"
    "process_entry inc src e s = Inr s'"
  shows "distance (re_address e) (re_prefixLength e) s' =
      relax (fixed_route (re_address e) (re_prefixLength e) s) (learned_from src (re_address e) (re_prefixLength e) s)
        (min (uint (re_metric e) + ri_metric inc) 16) (distance (re_address e) (re_prefixLength e) s)
    \<and> (\<forall>d n. (d, n) \<noteq> (re_address e, re_prefixLength e) \<longrightarrow> distance d n s' \<in> {distance d n s, 16})"
proof -
  let ?d = "re_address e" and ?n = "re_prefixLength e"
  define m where "m = min (sint (re_metric e) + ri_metric inc) RIP_INFINITE_METRIC"
  have ok: "rip_ok s" by (rule rip_run_ok[OF assms(1)])
  have m: "1 \<le> m" "m \<le> RIP_INFINITE_METRIC" "m = min (uint (re_metric e) + ri_metric inc) 16"
    using rip_okD(2)[OF ok assms(3)] entry_metric_range[OF assms(4)] entry_metric_uint[OF assms(4)]
    by (auto simp: m_def rip_interface_ok_def RIP_INFINITE_METRIC_def)
  have "distance ?d ?n s' = relax (fixed_route ?d ?n s) (learned_from src ?d ?n s) m (distance ?d ?n s)
    \<and> (\<forall>d n. (d, n) \<noteq> (?d, ?n) \<longrightarrow> distance d n s' \<in> {distance d n s, RIP_INFINITE_METRIC})"
  proof (cases "findRoute ?d ?n s")
    case None
    then show ?thesis
      using process_entry_unknown[OF assms(2) None assms(5) m_def] m(2)
      by (simp add: relax_def fixed_route_def learned_from_def distance_def[of ?d ?n s])
  next
    case (Some j)
    then have key: "rr_dest (ripRoutes s ! j) = ?d" "rr_prefixLength (ripRoutes s ! j) = ?n"
      using find_index_Some by (fastforce simp: findRoute_def)+
    have old: "distance ?d ?n s = rr_metric (ripRoutes s ! j)"
      "fixed_route ?d ?n s = (rr_type (ripRoutes s ! j) \<in> {RIP_ROUTE_STATIC, RIP_ROUTE_DEFAULT})"
      "learned_from src ?d ?n s = (rr_from (ripRoutes s ! j) = src)" by (simp_all add: distance_def fixed_route_def learned_from_def Some)
    from ok Some assms(5) m_def m(1) refl show ?thesis
    proof (cases rule: process_entry_known)
      case fixed
      then show ?thesis by (simp add: old relax_def)
    next
      case (same x)
      then show ?thesis using distance_change[OF same(3) Some] key by (auto simp: old relax_def)
    next
      case (better x P)
      then show ?thesis using distance_change[OF better(3) Some] key by (auto simp: old relax_def)
    qed
  qed
  then show ?thesis unfolding m(3) RIP_INFINITE_METRIC_def .
qed

section \<open>A link that goes down and comes up\<close>

definition table_ptrs :: "rip \<Rightarrow> nat set" where
  "table_ptrs s = rt_ptr ` set (routes (rip_rt s))"

text \<open>The route \<open>k\<close> has become invalid on the way from \<open>s\<close> to \<open>s'\<close>, and its route of the table is gone.\<close>

definition dead :: "rip \<Rightarrow> rip \<Rightarrow> nat \<Rightarrow> bool" where
  "dead s s' k \<longleftrightarrow> rr_metric (ripRoutes s' ! k) = RIP_INFINITE_METRIC \<and> rr_route (ripRoutes s' ! k) = None
     \<and> (\<forall>p. rr_route (ripRoutes s ! k) = Some p \<longrightarrow> p \<notin> table_ptrs s')"

definition withers :: "rip \<Rightarrow> rip \<Rightarrow> bool" where
  "withers s s' \<longleftrightarrow> length (ripRoutes s') = length (ripRoutes s) \<and> table_ptrs s' \<subseteq> table_ptrs s
     \<and> (\<forall>k<length (ripRoutes s). rr_ie (ripRoutes s' ! k) = rr_ie (ripRoutes s ! k)
          \<and> (ripRoutes s' ! k = ripRoutes s ! k \<or> dead s s' k))"

lemma withers_refl [simp]: "withers s s"
  by (simp add: withers_def)

lemma dead_later: "dead s s1 k \<Longrightarrow> withers s1 s2 \<Longrightarrow> k < length (ripRoutes s1) \<Longrightarrow> dead s s2 k"
  unfolding withers_def dead_def by (metis subsetD)

lemma dead_earlier: "withers s s1 \<Longrightarrow> withers s1 s2 \<Longrightarrow> dead s1 s2 k \<Longrightarrow> k < length (ripRoutes s) \<Longrightarrow> dead s s2 k"
  unfolding withers_def dead_def by (metis subsetD)

lemma withers_trans: "withers s s1 \<Longrightarrow> withers s1 s2 \<Longrightarrow> withers s s2"
proof -
  assume a: "withers s s1" "withers s1 s2"
  have "ripRoutes s2 ! k = ripRoutes s ! k \<or> dead s s2 k" if k: "k < length (ripRoutes s)" for k
    using a dead_later[OF _ a(2)] dead_earlier[OF a] k unfolding withers_def by metis
  then show "withers s s2" using a by (auto simp: withers_def)
qed

lemma invalidateRoute_withers:
  assumes "i < length (ripRoutes s)"
  obtains s' where "invalidateRoute i s = Inr s'" "withers s s'" "dead s s' i"
proof -
  obtain s' where s': "invalidateRoute i s = Inr s'" using invalidateRoute_changes[OF assms] by metis
  have t: "table_ptrs s' = table_ptrs s - set_option (rr_route (ripRoutes s ! i)) \<and> (\<exists>P. P \<subseteq> set_option (rr_route (ripRoutes s ! i))
      \<and> changes_one i P (invalid (ripRoutes s ! i)) s s')"
  proof (cases "rr_route (ripRoutes s ! i)")
    case None
    then show ?thesis
      using s' assms by (auto simp: invalidateRoute_def changes_one_def invalid_def table_ptrs_def intro!: arg_cong[of _ _ "list_update _ i"])
  next
    case (Some p)
    let ?s = "change_rip i (rr_route_update (\<lambda>_. None)) s"
    obtain s1 where s1: "rip_deleteRoute p ?s = Inr s1" "s' = mark_invalid i s1" using s' Some by (auto simp: invalidateRoute_def mapE_eq_Inr)
    obtain P where P: "changes P ?s s1" "P \<subseteq> {p}" using rip_deleteRoute_changes[of p ?s] s1(1) by (metis Inr_inject)
    have "routes (snd (deleteRoute p (rip_rt s))) = remove_ptr p (routes (rip_rt s))"
      by (auto simp: deleteRoute_def removeRoute_def split_beta route_at_def find_None_iff remove_ptr_def filter_id_conv split: option.split)
    then have "routes (rip_rt s1) = remove_ptr p (routes (rip_rt s))"
      using s1(1) by (auto simp: rip_deleteRoute_def elim!: with_table_routes)
    then have "table_ptrs s' = table_ptrs s - {p}" by (auto simp: s1(2) table_ptrs_def remove_ptr_def)
    moreover have "changes_one i P (invalid (ripRoutes s ! i)) s s'"
      using P(1) assms by (auto simp: s1(2) changes_def changes_one_def invalid_def map_update)
    ultimately show ?thesis using Some P(2) by auto
  qed
  then obtain P where P: "P \<subseteq> set_option (rr_route (ripRoutes s ! i))" "changes_one i P (invalid (ripRoutes s ! i)) s s'" by blast
  have d: "dead s s' i" using t changes_oneD(5)[OF P(2)] by (auto simp: dead_def invalid_def)
  have "rr_ie (ripRoutes s' ! k) = rr_ie (ripRoutes s ! k) \<and> (ripRoutes s' ! k = ripRoutes s ! k \<or> dead s s' k)" if k: "k < length (ripRoutes s)" for k
  proof (cases "k = i")
    case True
    then show ?thesis using d changes_oneD(5)[OF P(2)] by (simp add: invalid_def)
  next
    case False
    then have "ripRoutes s' ! k = drop_lost P (ripRoutes s ! k)" using changes_oneD(6)[OF P(2) k] by simp
    then show ?thesis using P(1) t by (auto simp: drop_lost_def invalid_def dead_def)
  qed
  then have "withers s s'" using t changes_oneD(3)[OF P(2)] by (auto simp: withers_def)
  then show ?thesis using that s' d by blast
qed

lemma invalidate_where_withers:
  "set js \<subseteq> {..<length (ripRoutes s)} \<Longrightarrow> \<exists>s'. invalidate_where (\<lambda>r. rr_ie r = Some i) js s = Inr s' \<and> withers s s'
    \<and> (\<forall>k\<in>set js. rr_ie (ripRoutes s ! k) = Some i \<longrightarrow> dead s s' k)"
proof (induction js arbitrary: s)
  case (Cons j js)
  have j: "j < length (ripRoutes s)" using Cons.prems by simp
  obtain s1 where s1: "(if rr_ie (ripRoutes s ! j) = Some i then invalidateRoute j s else Inr s) = Inr s1" "withers s s1"
    "rr_ie (ripRoutes s ! j) = Some i \<longrightarrow> dead s s1 j"
  proof (cases "rr_ie (ripRoutes s ! j) = Some i")
    case True
    obtain s1 where "invalidateRoute j s = Inr s1" "withers s s1" "dead s s1 j" by (rule invalidateRoute_withers[OF j])
    then show ?thesis using that True by simp
  qed (use that[of s] in simp)
  then have n: "length (ripRoutes s1) = length (ripRoutes s)" "\<forall>k<length (ripRoutes s). rr_ie (ripRoutes s1 ! k) = rr_ie (ripRoutes s ! k)"
    by (auto simp: withers_def)
  obtain s2 where s2: "invalidate_where (\<lambda>r. rr_ie r = Some i) js s1 = Inr s2" "withers s1 s2"
    "\<forall>k\<in>set js. rr_ie (ripRoutes s1 ! k) = Some i \<longrightarrow> dead s1 s2 k"
    using Cons.IH[of s1] Cons.prems n(1) by auto
  have "dead s s2 k" if "k \<in> set (j # js)" "rr_ie (ripRoutes s ! k) = Some i" for k
    using that s1(3) s2(3) n Cons.prems dead_later[OF _ s2(2)] dead_earlier[OF s1(2) s2(2)] j by (auto simp: subset_iff)
  then show ?case using s1(1) s2(1) withers_trans[OF s1(2) s2(2)] by auto
qed simp

text \<open>
  C36. A link that goes down and comes up again has lost its route: the module deletes the route of the interface from the
  routing table when the link fails, and neither the module nor the routing table puts it back at the notification that
  the link is up again: right after it the route is not in the table and the metric of the directly connected network is
  infinite.  What comes later, a change of the address or a response of a neighbour, may restore it.
\<close>

theorem link_flap_loses_connected_route:
  assumes "j < length (ripRoutes s)" "rr_ie (ripRoutes s ! j) = Some i" "rr_route (ripRoutes s ! j) = Some p"
  shows "\<exists>s1 T s2. rip_receiveChangeNotification cfg (Interface_state_changed True i False) s = Inr s1
    \<and> receiveChangeNotification False NF_INTERFACE_STATE_CHANGED (rip_rt s1) = Inr T
    \<and> rip_receiveChangeNotification cfg (Interface_state_changed True i True) (s1\<lparr>rip_rt := T\<rparr>) = Inr s2
    \<and> route_at p (rip_rt s2) = None \<and> rr_metric (ripRoutes s2 ! j) = 16"
proof -
  obtain s1 where s1: "invalidateRoutes i s = Inr s1" "dead s s1 j"
    using invalidate_where_withers[of "[0..<length (ripRoutes s)]" s i] assms(1,2) by (auto simp: invalidateRoutes_def lessThan_atLeast0)
  let ?T = "invalidateCache (rip_rt s1)"
  have send: "rip_rt (sendRIPRequest ri x) = rip_rt x" "ripRoutes (sendRIPRequest ri x) = ripRoutes x" for ri x
    by (simp_all add: sendRIPRequest_def rip_sendPacket_def rip_emit_def Let_def)
  obtain s2 where s2: "rip_receiveChangeNotification cfg (Interface_state_changed True i True) (s1\<lparr>rip_rt := ?T\<rparr>) = Inr s2"
    "rip_rt s2 = ?T" "ripRoutes s2 = ripRoutes s1"
    by (cases "findInterfaceById i (s1\<lparr>rip_rt := ?T\<rparr>)") (auto simp: rip_receiveChangeNotification_def send)
  have "p \<notin> table_ptrs s1" "rr_metric (ripRoutes s1 ! j) = 16" using s1(2) assms(3) by (auto simp: dead_def RIP_INFINITE_METRIC_def)
  then have "route_at p (rip_rt s2) = None" "rr_metric (ripRoutes s2 ! j) = 16"
    using s2(2,3) by (auto simp: route_at_def find_None_iff table_ptrs_def)
  then show ?thesis
    using s1(1) s2(1) by (auto simp: rip_receiveChangeNotification_def[of cfg "Interface_state_changed True i False"]
        Ip_Routing.receiveChangeNotification_def)
qed

section \<open>Witnesses\<close>




lemma purge_of_last_route_undefined_witness:
  "sendRoutes ALL_RIP_ROUTERS_MCAST 520 \<lparr>ri_ie = 1, ri_metric = 1, ri_mode = SPLIT_HORIZON\<rparr> False
     (rip_example\<lparr>rip_now := 300 * sec, ripRoutes := [rip_example_route 0x0A010000 1 0]\<rparr>)
   = Inl (Undefined ''sendRoutes: iterator past the end'')"
  by (rule purge_of_last_route_undefined[where rs = "[]" and r = "rip_example_route 0x0A010000 1 0"])
    (simp_all add: owns_learned_def rip_example_def rip_example_table_def purge_due_def rip_example_route_def sec_def)

lemma response_entry_relaxes_witness:
  "\<exists>s s'. rip_run rip_example_config s \<and> process_entry (hd (ripInterfaces s)) 0x0A000002 rip_example_entry s = Inr s'
    \<and> distance 0x0A010000 16 s = 16 \<and> distance 0x0A010000 16 s' = 4"
proof -
  obtain s where s: "rip_run rip_example_config s" "rip_rt s = rip_example_table"
    "ripInterfaces s = [\<lparr>ri_ie = 1, ri_metric = 1, ri_mode = SPLIT_HORIZON_POISONED_REVERSE\<rparr>]" "rip_version s = RIPv2" "ripRoutes s = []"
    by (rule rip_example_started)
  have none: "findRoute 0x0A010000 16 s = None" by (simp add: findRoute_def s(5))
  have "isValidNetmask (- 65536)" unfolding isValidNetmask_iff by (rule bexI[of _ 16]) (simp_all add: makeNetmask_raw_def)
  then obtain s' where s': "process_entry (hd (ripInterfaces s)) 0x0A000002 rip_example_entry s = Inr s'"
    by (simp add: process_entry_def Let_def rip_example_entry_def none s(3) RIP_INFINITE_METRIC_def rip_addRoute_def rip_addTableRoute_def
        makeNetmask_def makeNetmask_raw_def s(2) rip_example_table_def addRoute_def with_table_def internalAddRoute_def replace_default_def
        ip4_isUnspecified_def upper_bound_insert_def notify_def invalidateCache_def route_at_def)
  have a: "entry_acceptable (rip_version s) rip_example_entry"
    by (simp add: entry_acceptable_def s(4) rip_example_entry_def RIP_INFINITE_METRIC_def isUnicast_def isMulticast_def isLimitedBroadcastAddress_def)
  have d: "distance 0x0A010000 16 s = 16" by (simp add: distance_def none RIP_INFINITE_METRIC_def)
  have "distance 0x0A010000 16 s' = 4"
    using response_entry_relaxes[OF s(1) rip_example_table_ok[folded s(2)] _ a s'] s(3) d
    by (simp add: rip_example_entry_def relax_def fixed_route_def learned_from_def none)
  then show ?thesis using s(1) s' d by blast
qed

lemma link_flap_loses_connected_route_witness:
  "\<exists>s2. route_at 0 (rip_rt s2) = None \<and> rr_metric (ripRoutes s2 ! 0) = 16 \<and>
     (\<exists>s1 T. rip_receiveChangeNotification rip_example_config (Interface_state_changed True 1 False)
       (rip_example\<lparr>ripRoutes := [(rip_example_route 0x0A000000 1 0)\<lparr>rr_type := RIP_ROUTE_INTERFACE, rr_route := Some 0, rr_metric := 1\<rparr>],
          rip_rt := rip_example_table\<lparr>routes := [netmask_route 0 rip_example_link (the (ipv4Data rip_example_link))], nextPtr := 1\<rparr>\<rparr>) = Inr s1
      \<and> rip_receiveChangeNotification rip_example_config (Interface_state_changed True 1 True) (s1\<lparr>rip_rt := T\<rparr>) = Inr s2)"
  using link_flap_loses_connected_route[of 0 "rip_example\<lparr>ripRoutes := [(rip_example_route 0x0A000000 1 0)\<lparr>rr_type := RIP_ROUTE_INTERFACE, rr_route := Some 0, rr_metric := 1\<rparr>],
          rip_rt := rip_example_table\<lparr>routes := [netmask_route 0 rip_example_link (the (ipv4Data rip_example_link))], nextPtr := 1\<rparr>\<rparr>" 1 0 rip_example_config]
  by (simp add: rip_example_route_def) blast

end
