(* ===== verification/Igmp.thy ===== *)
theory Igmp
  imports Ip_Routing
begin

text \<open>
  IGMPv2, \<open>networklayer/ipv4/IGMPv2.cc\<close>: the groups that the interfaces of a host have joined, the groups that have members
  on the links of a multicast router, and the election of the querier of a link.  An interface is known by its id; its
  listener list is the one of \<open>Ip_Routing\<close>.  A \<open>std::map\<close> that the code iterates over is a list sorted by its keys.

  A timer is None for NULL, or \<open>Some\<close> of the time for which it is scheduled, if it is.  Times, which are of type \<open>double\<close> in
  the code, are simulation time in integer ticks; the tenths of a second of a message are exact.  \<open>uniform\<close> is a parameter:
  its \<open>n\<close>-th value, from 0 to its argument.  Message counters, which nothing reads, are left out.  An interface that is
  created is configured once, so that its query timer replaces none.
\<close>

section \<open>Data\<close>

datatype router_state = IGMP_RS_INITIAL | IGMP_RS_QUERIER | IGMP_RS_NON_QUERIER

datatype router_group_state =
  IGMP_RGS_NO_MEMBERS_PRESENT | IGMP_RGS_MEMBERS_PRESENT | IGMP_RGS_V1_MEMBERS_PRESENT | IGMP_RGS_CHECKING_MEMBERSHIP

datatype host_group_state = IGMP_HGS_NON_MEMBER | IGMP_HGS_DELAYING_MEMBER | IGMP_HGS_IDLE_MEMBER

type_synonym igmp_timer = "simtime option option"

record host_group =
  hg_state :: host_group_state
  hg_flag :: bool
  hg_timer :: igmp_timer

record router_group =
  rg_state :: router_group_state
  rg_timer :: igmp_timer
  rg_rexmtTimer :: igmp_timer

type_synonym host_groups = "(ip4 \<times> host_group) list"

record router_interface =
  ri_groups :: "(ip4 \<times> router_group) list"
  igmpRouterState :: router_state
  igmpQueryTimer :: igmp_timer

definition IGMP_MEMBERSHIP_QUERY :: int where "IGMP_MEMBERSHIP_QUERY = 0x11"
definition IGMPV2_MEMBERSHIP_REPORT :: int where "IGMPV2_MEMBERSHIP_REPORT = 0x16"
definition IGMPV2_LEAVE_GROUP :: int where "IGMPV2_LEAVE_GROUP = 0x17"

record igmp_message =
  ig_type :: int
  ig_maxRespTime :: int
  ig_groupAddress :: ip4

text \<open>What leaves the module: messages to IP with interface and destination, messages to the other router module, and the two
  notifications of the routing protocols.\<close>

datatype igmp_out =
    Igmp_to_ip igmp_message int ip4
  | Igmp_to_router igmp_message
  | Igmp_forwarded igmp_message
  | Mcast_registered int ip4
  | Mcast_unregistered int ip4

record igmp =
  ig_ift :: "interface_entry list"
  ig_forwarding :: bool
  ig_enabled :: bool
  externalRouter :: bool
  queryInterval :: simtime
  queryResponseInterval :: simtime
  groupMembershipInterval :: simtime
  otherQuerierPresentInterval :: simtime
  startupQueryInterval :: simtime
  lastMemberQueryInterval :: simtime
  lastMemberQueryCount :: int
  unsolicitedReportInterval :: simtime
  hostData :: "int \<rightharpoonup> host_groups"
  routerData :: "int \<rightharpoonup> router_interface"
  numGroups :: int
  numHostGroups :: int
  numRouterGroups :: int
  ig_now :: simtime
  ig_uniform :: "nat \<Rightarrow> simtime \<Rightarrow> simtime"
  ig_draws :: nat
  ig_outs :: "igmp_out list"

definition ig_emit :: "igmp_out \<Rightarrow> igmp \<Rightarrow> igmp" where
  "ig_emit x s = s\<lparr>ig_outs := ig_outs s @ [x]\<rparr>"

definition put_host :: "int \<Rightarrow> host_groups \<Rightarrow> igmp \<Rightarrow> igmp" where
  "put_host i gs s = s\<lparr>hostData := (hostData s)(i \<mapsto> gs)\<rparr>"

definition put_router :: "int \<Rightarrow> router_interface \<Rightarrow> igmp \<Rightarrow> igmp" where
  "put_router i r s = s\<lparr>routerData := (routerData s)(i \<mapsto> r)\<rparr>"

fun put_group :: "ip4 \<Rightarrow> 'a \<Rightarrow> (ip4 \<times> 'a) list \<Rightarrow> (ip4 \<times> 'a) list" where
  "put_group g x [] = [(g, x)]"
| "put_group g x ((h, y) # hs) =
     (if g = h then (g, x) # hs else if g < h then (g, x) # (h, y) # hs else (h, y) # put_group g x hs)"

definition remove_group :: "ip4 \<Rightarrow> (ip4 \<times> 'a) list \<Rightarrow> (ip4 \<times> 'a) list" where
  "remove_group g = filter (\<lambda>(h, _). h \<noteq> g)"

section \<open>The data of interfaces and groups\<close>

text \<open>A look-up creates the data of the interface, where there are none.\<close>

definition new_router_interface :: router_interface where
  "new_router_interface = \<lparr>ri_groups = [], igmpRouterState = IGMP_RS_INITIAL, igmpQueryTimer = None\<rparr>"

definition getHostInterfaceData :: "int \<Rightarrow> igmp \<Rightarrow> host_groups \<times> igmp" where
  "getHostInterfaceData i s = (case hostData s i of Some d \<Rightarrow> (d, s) | None \<Rightarrow> ([], put_host i [] s))"

definition getRouterInterfaceData :: "int \<Rightarrow> igmp \<Rightarrow> router_interface \<times> igmp" where
  "getRouterInterfaceData i s =
     (case routerData s i of Some d \<Rightarrow> (d, s) | None \<Rightarrow> (new_router_interface, put_router i new_router_interface s))"

definition getHostGroupData :: "int \<Rightarrow> ip4 \<Rightarrow> igmp \<Rightarrow> host_group option \<times> igmp" where
  "getHostGroupData i g s = (let (d, s') = getHostInterfaceData i s in (map_of d g, s'))"

definition getRouterGroupData :: "int \<Rightarrow> ip4 \<Rightarrow> igmp \<Rightarrow> router_group option \<times> igmp" where
  "getRouterGroupData i g s = (let (d, s') = getRouterInterfaceData i s in (map_of (ri_groups d) g, s'))"

definition set_host_group :: "int \<Rightarrow> ip4 \<Rightarrow> host_group \<Rightarrow> igmp \<Rightarrow> igmp" where
  "set_host_group i g x s = (let (d, s') = getHostInterfaceData i s in put_host i (put_group g x d) s')"

definition set_router_group :: "int \<Rightarrow> ip4 \<Rightarrow> router_group \<Rightarrow> igmp \<Rightarrow> igmp" where
  "set_router_group i g x s =
     (let (d, s') = getRouterInterfaceData i s in put_router i (d\<lparr>ri_groups := put_group g x (ri_groups d)\<rparr>) s')"

definition new_host_group :: host_group where
  "new_host_group = \<lparr>hg_state = IGMP_HGS_NON_MEMBER, hg_flag = False, hg_timer = None\<rparr>"

definition new_router_group :: router_group where
  "new_router_group = \<lparr>rg_state = IGMP_RGS_NO_MEMBERS_PRESENT, rg_timer = None, rg_rexmtTimer = None\<rparr>"

definition createHostGroupData :: "int \<Rightarrow> ip4 \<Rightarrow> igmp \<Rightarrow> (host_group \<times> igmp) res" where
  "createHostGroupData i g s =
     (let (d, s') = getHostInterfaceData i s in
      assertE (map_of d g = None) ''interfaceData->groups.find(group) == end'' (assertE (isMulticast g) ''groupAddr.isMulticast()''
        (Inr (new_host_group, set_host_group i g new_host_group s'))))"

definition createRouterGroupData :: "int \<Rightarrow> ip4 \<Rightarrow> igmp \<Rightarrow> (router_group \<times> igmp) res" where
  "createRouterGroupData i g s =
     (let (d, s') = getRouterInterfaceData i s in
      assertE (map_of (ri_groups d) g = None) ''interfaceData->groups.find(group) == end'' (assertE (isMulticast g) ''groupAddr.isMulticast()''
        (Inr (new_router_group, set_router_group i g new_router_group s'))))"

definition deleteHostGroupData :: "int \<Rightarrow> ip4 \<Rightarrow> igmp \<Rightarrow> igmp" where
  "deleteHostGroupData i g s = (let (d, s') = getHostInterfaceData i s in put_host i (remove_group g d) s')"

definition deleteRouterGroupData :: "int \<Rightarrow> ip4 \<Rightarrow> igmp \<Rightarrow> igmp" where
  "deleteRouterGroupData i g s =
     (let (d, s') = getRouterInterfaceData i s in put_router i (d\<lparr>ri_groups := remove_group g (ri_groups d)\<rparr>) s')"

definition deleteHostInterfaceData :: "int \<Rightarrow> igmp \<Rightarrow> igmp" where
  "deleteHostInterfaceData i s = s\<lparr>hostData := (hostData s)(i := None)\<rparr>"

definition deleteRouterInterfaceData :: "int \<Rightarrow> igmp \<Rightarrow> igmp" where
  "deleteRouterInterfaceData i s = s\<lparr>routerData := (routerData s)(i := None)\<rparr>"

section \<open>Timers and messages\<close>

definition ig_startTimer :: "simtime \<Rightarrow> igmp_timer \<Rightarrow> igmp \<Rightarrow> igmp_timer res" where
  "ig_startTimer d t s = assertE (t \<noteq> None) ''timer'' (Inr (Some (Some (ig_now s + d))))"

definition ig_cancelEvent :: "igmp_timer \<Rightarrow> igmp_timer res" where
  "ig_cancelEvent t = (case t of None \<Rightarrow> Inl (NullPointer ''cancelEvent'') | Some _ \<Rightarrow> Inr (Some None))"

definition startHostTimer :: "simtime \<Rightarrow> host_group \<Rightarrow> igmp \<Rightarrow> host_group \<times> igmp" where
  "startHostTimer maxRespTime h s =
     (h\<lparr>hg_timer := Some (Some (ig_now s + ig_uniform s (ig_draws s) maxRespTime))\<rparr>, s\<lparr>ig_draws := Suc (ig_draws s)\<rparr>)"

definition ig_interface :: "int \<Rightarrow> igmp \<Rightarrow> interface_entry res" where
  "ig_interface i s = (case find_interface i (ig_ift s) of None \<Rightarrow> Inl (NullPointer ''ie'') | Some ie \<Rightarrow> Inr ie)"

definition ig_sendToIP :: "igmp_message \<Rightarrow> int \<Rightarrow> ip4 \<Rightarrow> igmp \<Rightarrow> igmp res" where
  "ig_sendToIP m i dest s =
     bindE (ig_interface i s) (\<lambda>ie. assertE (ie_multicast ie) ''ie->isMulticast()'' (Inr (ig_emit (Igmp_to_ip m i dest) s)))"

definition tenths :: "simtime \<Rightarrow> int" where
  "tenths t = t * 10 div sec"

definition of_tenths :: "int \<Rightarrow> simtime" where
  "of_tenths n = n * (sec div 10)"

definition routable_group :: "ip4 \<Rightarrow> bool" where
  "routable_group g \<longleftrightarrow> isMulticast g \<and> \<not> isLinkLocalMulticast g"

definition sendQuery :: "int \<Rightarrow> ip4 \<Rightarrow> simtime \<Rightarrow> igmp \<Rightarrow> igmp res" where
  "sendQuery i g maxRespTime s =
     assertE (ip4_isUnspecified g \<or> routable_group g) ''groupAddr.isUnspecified() || groupAddr.isMulticast()''
       (let (d, s') = getRouterInterfaceData i s in
        if igmpRouterState d = IGMP_RS_QUERIER
        then ig_sendToIP \<lparr>ig_type = IGMP_MEMBERSHIP_QUERY, ig_maxRespTime = tenths maxRespTime, ig_groupAddress = g\<rparr> i
               (if ip4_isUnspecified g then ALL_HOSTS_MCAST else g) s'
        else Inr s')"

definition sendReport :: "int \<Rightarrow> ip4 \<Rightarrow> igmp \<Rightarrow> igmp res" where
  "sendReport i g s =
     assertE (routable_group g) ''group->groupAddr.isMulticast()''
       (ig_sendToIP \<lparr>ig_type = IGMPV2_MEMBERSHIP_REPORT, ig_maxRespTime = 0, ig_groupAddress = g\<rparr> i g s)"

definition sendLeave :: "int \<Rightarrow> ip4 \<Rightarrow> igmp \<Rightarrow> igmp res" where
  "sendLeave i g s =
     assertE (routable_group g) ''group->groupAddr.isMulticast()''
       (ig_sendToIP \<lparr>ig_type = IGMPV2_LEAVE_GROUP, ig_maxRespTime = 0, ig_groupAddress = g\<rparr> i ALL_ROUTERS_MCAST s)"

section \<open>Notifications\<close>

definition configureInterface :: "int \<Rightarrow> igmp \<Rightarrow> igmp res" where
  "configureInterface i s =
     (if ig_enabled s \<and> ig_forwarding s \<and> \<not> externalRouter s
      then let (d, s1) = getRouterInterfaceData i s;
               d1 = d\<lparr>igmpQueryTimer := Some None, igmpRouterState := IGMP_RS_QUERIER\<rparr>
           in bindE (sendQuery i 0 (queryResponseInterval s) (put_router i d1 s1)) (\<lambda>s2.
              mapE (\<lambda>t. put_router i (d1\<lparr>igmpQueryTimer := t\<rparr>) s2) (ig_startTimer (startupQueryInterval s) (igmpQueryTimer d1) s2))
      else Inr s)"

definition multicastGroupJoined :: "int \<Rightarrow> ip4 \<Rightarrow> igmp \<Rightarrow> igmp res" where
  "multicastGroupJoined i g s =
     bindE (ig_interface i s) (\<lambda>ie. assertE (ie_multicast ie) ''ie && ie->isMulticast()'' (assertE (isMulticast g) ''groupAddr.isMulticast()''
       (if ig_enabled s \<and> \<not> isLinkLocalMulticast g
        then bindE (createHostGroupData i g s) (\<lambda>(h, s1).
             bindE (sendReport i g (s1\<lparr>numGroups := numGroups s1 + 1, numHostGroups := numHostGroups s1 + 1\<rparr>)) (\<lambda>s2.
             let (h', s3) = startHostTimer (unsolicitedReportInterval s2) (h\<lparr>hg_flag := True\<rparr>) s2
             in Inr (set_host_group i g (h'\<lparr>hg_state := IGMP_HGS_DELAYING_MEMBER\<rparr>) s3)))
        else Inr s)))"

definition multicastGroupLeft :: "int \<Rightarrow> ip4 \<Rightarrow> igmp \<Rightarrow> igmp res" where
  "multicastGroupLeft i g s =
     bindE (ig_interface i s) (\<lambda>ie. assertE (ie_multicast ie) ''ie && ie->isMulticast()'' (assertE (isMulticast g) ''groupAddr.isMulticast()''
       (if ig_enabled s \<and> \<not> isLinkLocalMulticast g
        then let (h, s1) = getHostGroupData i g s in
             bindE (case h of
                      None \<Rightarrow> Inr s1
                    | Some h \<Rightarrow>
                        bindE (if hg_state h = IGMP_HGS_DELAYING_MEMBER then mapE (\<lambda>_. ()) (ig_cancelEvent (hg_timer h)) else Inr ()) (\<lambda>_.
                          if hg_flag h then sendLeave i g s1 else Inr s1)) (\<lambda>s2.
             let s3 = deleteHostGroupData i g s2
             in Inr (s3\<lparr>numHostGroups := numHostGroups s3 - 1, numGroups := numGroups s3 - 1\<rparr>))
        else Inr s)))"

text \<open>The notifications that the module has subscribed to.\<close>

datatype igmp_notification =
    Igmp_interface_created interface_entry
  | Igmp_interface_deleted interface_entry
  | Igmp_mcast_join int ip4
  | Igmp_mcast_leave int ip4

definition igmp_receiveChangeNotification :: "igmp_notification \<Rightarrow> igmp \<Rightarrow> igmp res" where
  "igmp_receiveChangeNotification x s =
     (case x of
        Igmp_interface_created ie \<Rightarrow> (if ie_multicast ie then configureInterface (interfaceId ie) s else Inr s)
      | Igmp_interface_deleted ie \<Rightarrow>
          Inr (if ie_multicast ie then deleteRouterInterfaceData (interfaceId ie) (deleteHostInterfaceData (interfaceId ie) s) else s)
      | Igmp_mcast_join i g \<Rightarrow> multicastGroupJoined i g s
      | Igmp_mcast_leave i g \<Rightarrow> multicastGroupLeft i g s)"

fun configure_all :: "interface_entry list \<Rightarrow> igmp \<Rightarrow> igmp res" where
  "configure_all [] s = Inr s"
| "configure_all (ie # ies) s = bindE (if ie_multicast ie then configureInterface (interfaceId ie) s else Inr s) (configure_all ies)"

definition igmp_initialize :: "igmp \<Rightarrow> igmp res" where
  "igmp_initialize s = configure_all (ig_ift s)
     (s\<lparr>numGroups := 0, numHostGroups := 0, numRouterGroups := 0, hostData := Map.empty, routerData := Map.empty\<rparr>)"

section \<open>Timers that expire\<close>

text \<open>A timer is no more scheduled while its handler runs.  The arguments are the interface and the group of the context.\<close>

definition processQueryTimer :: "int \<Rightarrow> igmp \<Rightarrow> igmp res" where
  "processQueryTimer i s =
     (let (d, s1) = getRouterInterfaceData i s in
      if igmpRouterState d = IGMP_RS_QUERIER \<or> igmpRouterState d = IGMP_RS_NON_QUERIER
      then let d1 = d\<lparr>igmpRouterState := IGMP_RS_QUERIER\<rparr> in
           bindE (sendQuery i 0 (queryResponseInterval s1) (put_router i d1 s1)) (\<lambda>s2.
           mapE (\<lambda>t. put_router i (d1\<lparr>igmpQueryTimer := t\<rparr>) s2) (ig_startTimer (queryInterval s2) (igmpQueryTimer d1) s2))
      else Inr s1)"

definition processHostGroupTimer :: "int \<Rightarrow> ip4 \<Rightarrow> igmp \<Rightarrow> igmp res" where
  "processHostGroupTimer i g s =
     (let (h, s1) = getHostGroupData i g s in
      case h of None \<Rightarrow> Inl (Undefined ''dangling pointer to a group'')
      | Some h \<Rightarrow> mapE (set_host_group i g (h\<lparr>hg_flag := True, hg_state := IGMP_HGS_IDLE_MEMBER, hg_timer := Some None\<rparr>)) (sendReport i g s1))"

definition change_listeners :: "(ipv4_interface_data \<Rightarrow> ipv4_interface_data res) \<Rightarrow> int \<Rightarrow> igmp \<Rightarrow> igmp res" where
  "change_listeners f i s =
     bindE (ig_interface i s) (\<lambda>ie. bindE (data_of ie) (\<lambda>d. mapE (\<lambda>d'.
       s\<lparr>ig_ift := map (\<lambda>x. if interfaceId x = i then x\<lparr>ipv4Data := Some d'\<rparr> else x) (ig_ift s)\<rparr>) (f d)))"

definition processLeaveTimer :: "int \<Rightarrow> ip4 \<Rightarrow> igmp \<Rightarrow> igmp res" where
  "processLeaveTimer i g s =
     bindE (change_listeners (\<lambda>d. Inr (removeMulticastListener g d)) i s) (\<lambda>s1.
     let (r, s2) = getRouterGroupData i g (ig_emit (Mcast_unregistered i g) s1) in
     case r of None \<Rightarrow> Inl (Undefined ''dangling pointer to a group'')
     | Some r \<Rightarrow>
         mapE (\<lambda>_. let s3 = deleteRouterGroupData i g s2 in s3\<lparr>numRouterGroups := numRouterGroups s3 - 1, numGroups := numGroups s3 - 1\<rparr>)
           (if rg_state r = IGMP_RGS_CHECKING_MEMBERSHIP then ig_cancelEvent (rg_rexmtTimer r) else Inr None))"

definition processRexmtTimer :: "int \<Rightarrow> ip4 \<Rightarrow> igmp \<Rightarrow> igmp res" where
  "processRexmtTimer i g s =
     bindE (sendQuery i g (lastMemberQueryInterval s) s) (\<lambda>s1.
     let (r, s2) = getRouterGroupData i g s1 in
     case r of None \<Rightarrow> Inl (Undefined ''dangling pointer to a group'')
     | Some r \<Rightarrow>
         mapE (\<lambda>t. set_router_group i g (r\<lparr>rg_rexmtTimer := t, rg_state := IGMP_RGS_CHECKING_MEMBERSHIP\<rparr>) s2)
           (ig_startTimer (lastMemberQueryInterval s2) (rg_rexmtTimer r) s2))"

section \<open>Messages that arrive\<close>

definition processGroupQuery :: "int \<Rightarrow> host_group \<Rightarrow> igmp \<Rightarrow> (host_group \<times> igmp) res" where
  "processGroupQuery maxRespTime h s =
     (case hg_state h of
        IGMP_HGS_DELAYING_MEMBER \<Rightarrow>
          (case hg_timer h of
             None \<Rightarrow> Inl (NullPointer ''timer'')
           | Some t \<Rightarrow> Inr (case t of None \<Rightarrow> (h, s)
               | Some u \<Rightarrow> if ig_now s + of_tenths maxRespTime < u then startHostTimer (of_tenths maxRespTime) h s else (h, s)))
      | IGMP_HGS_IDLE_MEMBER \<Rightarrow>
          (let (h', s') = startHostTimer (of_tenths maxRespTime) h s in Inr (h'\<lparr>hg_state := IGMP_HGS_DELAYING_MEMBER\<rparr>, s'))
      | IGMP_HGS_NON_MEMBER \<Rightarrow> Inr (h, s))"

fun query_groups :: "int \<Rightarrow> host_groups \<Rightarrow> igmp \<Rightarrow> (host_groups \<times> igmp) res" where
  "query_groups maxRespTime [] s = Inr ([], s)"
| "query_groups maxRespTime ((g, h) # gs) s =
     bindE (processGroupQuery maxRespTime h s) (\<lambda>(h', s1). mapE (\<lambda>(gs', s2). ((g, h') # gs', s2)) (query_groups maxRespTime gs s1))"

definition query_host :: "int \<Rightarrow> igmp_message \<Rightarrow> igmp \<Rightarrow> igmp res" where
  "query_host i m s =
     (let (d, s1) = getHostInterfaceData i s in
      if ip4_isUnspecified (ig_groupAddress m)
      then mapE (\<lambda>(d', s2). put_host i d' s2) (query_groups (ig_maxRespTime m) d s1)
      else case map_of d (ig_groupAddress m) of
        None \<Rightarrow> Inr s1
      | Some h \<Rightarrow> mapE (\<lambda>(h', s2). set_host_group i (ig_groupAddress m) h' s2) (processGroupQuery (ig_maxRespTime m) h s1))"

definition query_router :: "int \<Rightarrow> ip4 \<Rightarrow> igmp_message \<Rightarrow> interface_entry \<Rightarrow> igmp \<Rightarrow> igmp res" where
  "query_router i sender m ie s =
     (let (d, s1) = getRouterInterfaceData i s; g = ig_groupAddress m in
      bindE (data_of ie) (\<lambda>ip.
      bindE (if sender < inetAddr ip
             then mapE (\<lambda>t. put_router i (d\<lparr>igmpQueryTimer := t, igmpRouterState := IGMP_RS_NON_QUERIER\<rparr>) s1)
                    (ig_startTimer (otherQuerierPresentInterval s1) (igmpQueryTimer d) s1)
             else Inr s1) (\<lambda>s2.
      let (d2, s3) = getRouterInterfaceData i s2 in
      if \<not> ip4_isUnspecified g \<and> igmpRouterState d2 = IGMP_RS_NON_QUERIER
      then let (r, s4) = getRouterGroupData i g s3 in
           case r of None \<Rightarrow> Inl (NullPointer ''groupData'')
           | Some r \<Rightarrow>
               if rg_state r = IGMP_RGS_MEMBERS_PRESENT
               then mapE (\<lambda>t. set_router_group i g (r\<lparr>rg_timer := t, rg_state := IGMP_RGS_CHECKING_MEMBERSHIP\<rparr>) s4)
                      (ig_startTimer (of_tenths (ig_maxRespTime m) * lastMemberQueryCount s4) (rg_timer r) s4)
               else Inr s4
      else Inr s3)))"

definition processQuery :: "int \<Rightarrow> ip4 \<Rightarrow> igmp_message \<Rightarrow> igmp \<Rightarrow> igmp res" where
  "processQuery i sender m s =
     bindE (ig_interface i s) (\<lambda>ie. assertE (ie_multicast ie) ''ie->isMulticast()''
       (bindE (query_host i m s) (\<lambda>s1.
         if ig_forwarding s1
         then if externalRouter s1 then Inr (ig_emit (Igmp_to_router m) s1) else query_router i sender m ie s1
         else Inr s1)))"

text \<open>A report of another host, for the members on this host; and for the router.\<close>

definition report_host :: "int \<Rightarrow> ip4 \<Rightarrow> igmp \<Rightarrow> igmp res" where
  "report_host i g s =
     (let (h, s1) = getHostGroupData i g s in
      case h of None \<Rightarrow> Inr s1
      | Some h \<Rightarrow>
          if hg_state h = IGMP_HGS_DELAYING_MEMBER
          then mapE (\<lambda>t. set_host_group i g (h\<lparr>hg_timer := t, hg_flag := False, hg_state := IGMP_HGS_IDLE_MEMBER\<rparr>) s1)
                 (ig_cancelEvent (hg_timer h))
          else Inr s1)"

definition report_router :: "int \<Rightarrow> ip4 \<Rightarrow> igmp \<Rightarrow> igmp res" where
  "report_router i g s =
     (let (r, s1) = getRouterGroupData i g s;
          unscheduled = (\<lambda>t :: igmp_timer. case t of None \<Rightarrow> Some None | Some u \<Rightarrow> Some u) in
      bindE (case r of Some r \<Rightarrow> Inr (r, s1) | None \<Rightarrow> mapE (\<lambda>(r, s2). (r, s2\<lparr>numGroups := numGroups s2 + 1\<rparr>)) (createRouterGroupData i g s1))
        (\<lambda>(r, s2).
      let r1 = r\<lparr>rg_timer := unscheduled (rg_timer r), rg_rexmtTimer := unscheduled (rg_rexmtTimer r)\<rparr> in
      bindE (if rg_state r1 = IGMP_RGS_NO_MEMBERS_PRESENT
             then mapE (\<lambda>s3. (r1, (ig_emit (Mcast_registered i g) s3)\<lparr>numRouterGroups := numRouterGroups s3 + 1\<rparr>))
                    (change_listeners (addMulticastListener g) i s2)
             else if rg_state r1 = IGMP_RGS_CHECKING_MEMBERSHIP
             then mapE (\<lambda>t. (r1\<lparr>rg_rexmtTimer := t\<rparr>, s2)) (ig_cancelEvent (rg_rexmtTimer r1))
             else Inr (r1, s2)) (\<lambda>(r2, s3).
      mapE (\<lambda>t. set_router_group i g (r2\<lparr>rg_timer := t, rg_state := IGMP_RGS_MEMBERS_PRESENT\<rparr>) s3)
        (ig_startTimer (groupMembershipInterval s3) (rg_timer r2) s3))))"

definition processV2Report :: "int \<Rightarrow> igmp_message \<Rightarrow> igmp \<Rightarrow> igmp res" where
  "processV2Report i m s =
     bindE (ig_interface i s) (\<lambda>ie. assertE (ie_multicast ie) ''ie->isMulticast()''
       (bindE (report_host i (ig_groupAddress m) s) (\<lambda>s1.
         if ig_forwarding s1
         then if externalRouter s1 then Inr (ig_emit (Igmp_to_router m) s1) else report_router i (ig_groupAddress m) s1
         else Inr s1)))"

definition leave_router :: "int \<Rightarrow> ip4 \<Rightarrow> igmp \<Rightarrow> igmp res" where
  "leave_router i g s =
     (let (d, s1) = getRouterInterfaceData i s; (r, s2) = getRouterGroupData i g s1 in
      case r of None \<Rightarrow> Inr s2
      | Some r \<Rightarrow>
          if rg_state r = IGMP_RGS_MEMBERS_PRESENT \<and> igmpRouterState d = IGMP_RS_QUERIER
          then bindE (ig_startTimer (lastMemberQueryInterval s2 * lastMemberQueryCount s2) (rg_timer r) s2) (\<lambda>t.
               bindE (ig_startTimer (lastMemberQueryInterval s2) (rg_rexmtTimer r) s2) (\<lambda>u.
               mapE (set_router_group i g (r\<lparr>rg_timer := t, rg_rexmtTimer := u, rg_state := IGMP_RGS_CHECKING_MEMBERSHIP\<rparr>))
                 (sendQuery i g (lastMemberQueryInterval s2) s2)))
          else Inr s2)"

definition processLeave :: "int \<Rightarrow> igmp_message \<Rightarrow> igmp \<Rightarrow> igmp res" where
  "processLeave i m s =
     bindE (ig_interface i s) (\<lambda>ie. assertE (ie_multicast ie) ''ie->isMulticast()''
       (if ig_forwarding s
        then if externalRouter s then Inr (ig_emit (Igmp_to_router m) s) else leave_router i (ig_groupAddress m) s
        else Inr s))"

definition processIgmpMessage :: "int \<Rightarrow> ip4 \<Rightarrow> igmp_message \<Rightarrow> igmp \<Rightarrow> igmp res" where
  "processIgmpMessage i srcAddr m s =
     (if ig_type m = IGMP_MEMBERSHIP_QUERY then processQuery i srcAddr m s
      else if ig_type m = IGMPV2_MEMBERSHIP_REPORT then processV2Report i m s
      else if ig_type m = IGMPV2_LEAVE_GROUP then processLeave i m s
      else if externalRouter s then Inr (ig_emit (Igmp_to_router m) s)
      else Inl (RuntimeError ''IGMPv2: Unhandled message type''))"

datatype igmp_arrival =
    Igmp_query_timer int
  | Igmp_hostgroup_timer int ip4
  | Igmp_leave_timer int ip4
  | Igmp_rexmt_timer int ip4
  | Igmp_from_router igmp_message
  | Igmp_from_ip int ip4 igmp_message

definition igmp_handleMessage :: "igmp_arrival \<Rightarrow> igmp \<Rightarrow> igmp res" where
  "igmp_handleMessage x s =
     (if \<not> ig_enabled s then Inr s
      else case x of
        Igmp_query_timer i \<Rightarrow> processQueryTimer i s
      | Igmp_hostgroup_timer i g \<Rightarrow> processHostGroupTimer i g s
      | Igmp_leave_timer i g \<Rightarrow> processLeaveTimer i g s
      | Igmp_rexmt_timer i g \<Rightarrow> processRexmtTimer i g s
      | Igmp_from_router m \<Rightarrow> Inr (ig_emit (Igmp_forwarded m) s)
      | Igmp_from_ip i srcAddr m \<Rightarrow> processIgmpMessage i srcAddr m s)"

end
