(* ===== verification/Igmp_Inv.thy ===== *)
theory Igmp_Inv
  imports Igmp
begin

text \<open>
  The invariant of IGMPv2: the state of a group and its timers fit together, and every interface of a router has a query
  timer that is running, so that no assertion fails.
\<close>

section \<open>Results that are there\<close>

definition returns :: "('a \<Rightarrow> bool) \<Rightarrow> 'a res \<Rightarrow> bool" where
  "returns P x \<longleftrightarrow> (\<exists>a. x = Inr a \<and> P a)"

lemma returns_simps [simp]:
  "returns P (Inl e) \<longleftrightarrow> False" "returns P (Inr a) \<longleftrightarrow> P a" "returns P (mapE f y) \<longleftrightarrow> returns (\<lambda>a. P (f a)) y"
  "returns P (assertE b m x) \<longleftrightarrow> b \<and> returns P x" "returns P (bindE z h) \<longleftrightarrow> returns (\<lambda>a. returns P (h a)) z"
  by (auto simp: returns_def mapE_eq_Inr assertE_eq_Inr bindE_eq_Inr)

lemma returns_eq: "returns (\<lambda>a. a = b) x \<longleftrightarrow> x = Inr b"
  by (auto simp: returns_def)

lemma returns_mono: "returns P x \<Longrightarrow> (\<And>a. x = Inr a \<Longrightarrow> P a \<Longrightarrow> Q a) \<Longrightarrow> returns Q x"
  by (auto simp: returns_def)

section \<open>Tables of groups\<close>

lemma map_of_put_group [simp]: "map_of (put_group g x gs) = (map_of gs)(g \<mapsto> x)"
  by (induction g x gs rule: put_group.induct) auto

lemma map_of_remove_group [simp]: "map_of (remove_group g gs) = (map_of gs)(g := None)"
  by (induction gs) (auto simp: remove_group_def)

lemma set_put_group: "set (put_group g x gs) \<subseteq> insert (g, x) (set gs)"
  by (induction g x gs rule: put_group.induct) auto

lemma list_all_put_group: "P (g, x) \<Longrightarrow> list_all P gs \<Longrightarrow> list_all P (put_group g x gs)"
  using set_put_group[of g x gs] by (auto simp: list_all_iff)

lemma list_all_remove_group: "list_all P gs \<Longrightarrow> list_all P (remove_group g gs)"
  by (auto simp: list_all_iff remove_group_def)

lemma keys_put_group: "fst ` set (put_group g x gs) = insert g (fst ` set gs)"
  by (induction g x gs rule: put_group.induct) auto

lemma sorted_put_group: "sorted_wrt (<) (map fst gs) \<Longrightarrow> sorted_wrt (<) (map fst (put_group g x gs))"
proof (induction g x gs rule: put_group.induct)
  case (2 g x h y hs)
  have "fst ` set (put_group g x hs) = insert g (fst ` set hs)" by (rule keys_put_group)
  with 2 show ?case by (auto simp flip: set_map)
qed simp

lemma sorted_remove_group: "sorted_wrt (<) (map fst gs) \<Longrightarrow> sorted_wrt (<) (map fst (remove_group g gs))"
  by (induction gs) (auto simp: remove_group_def)

lemmas group_list_rules = list_all_put_group list_all_remove_group sorted_put_group sorted_remove_group

section \<open>Look-ups\<close>

definition host_of :: "int \<Rightarrow> igmp \<Rightarrow> host_groups" where
  "host_of i s = (case hostData s i of Some d \<Rightarrow> d | None \<Rightarrow> [])"

definition router_of :: "int \<Rightarrow> igmp \<Rightarrow> router_interface" where
  "router_of i s = (case routerData s i of Some d \<Rightarrow> d | None \<Rightarrow> new_router_interface)"

lemma put_same [simp]:
  "hostData s i = Some d \<Longrightarrow> put_host i d s = s" "routerData s i = Some r \<Longrightarrow> put_router i r s = s"
  by (simp_all add: put_host_def put_router_def fun_upd_idem)

lemma put_put [simp]: "put_host i d (put_host i e s) = put_host i d s" "put_router i r (put_router i q s) = put_router i r s"
  by (simp_all add: put_host_def put_router_def)

lemma of_put [simp]:
  "host_of j (put_host i d s) = (if j = i then d else host_of j s)" "router_of j (put_router i r s) = (if j = i then r else router_of j s)"
  "host_of j (put_router i r s) = host_of j s" "router_of j (put_host i d s) = router_of j s"
  "host_of j (ig_emit x s) = host_of j s" "router_of j (ig_emit x s) = router_of j s"
  by (auto simp: host_of_def router_of_def put_host_def put_router_def ig_emit_def)

lemma getInterfaceData_eq:
  "getHostInterfaceData i s = (host_of i s, put_host i (host_of i s) s)"
  "getRouterInterfaceData i s = (router_of i s, put_router i (router_of i s) s)"
  by (auto simp: getHostInterfaceData_def getRouterInterfaceData_def host_of_def router_of_def split: option.split)

lemma group_data_eq:
  "getHostGroupData i g s = (map_of (host_of i s) g, put_host i (host_of i s) s)"
  "getRouterGroupData i g s = (map_of (ri_groups (router_of i s)) g, put_router i (router_of i s) s)"
  "set_host_group i g x s = put_host i (put_group g x (host_of i s)) s"
  "set_router_group i g y s = put_router i ((router_of i s)\<lparr>ri_groups := put_group g y (ri_groups (router_of i s))\<rparr>) s"
  "deleteHostGroupData i g s = put_host i (remove_group g (host_of i s)) s"
  "deleteRouterGroupData i g s = put_router i ((router_of i s)\<lparr>ri_groups := remove_group g (ri_groups (router_of i s))\<rparr>) s"
  by (simp_all add: getHostGroupData_def getRouterGroupData_def set_host_group_def set_router_group_def deleteHostGroupData_def
      deleteRouterGroupData_def getInterfaceData_eq)

lemmas igmp_data = getInterfaceData_eq group_data_eq

definition mcast_if :: "igmp \<Rightarrow> int \<Rightarrow> bool" where
  "mcast_if s i \<longleftrightarrow> (case find_interface i (ig_ift s) of None \<Rightarrow> False | Some ie \<Rightarrow> ie_multicast ie)"

definition ip_data :: "igmp \<Rightarrow> int \<Rightarrow> ipv4_interface_data option" where
  "ip_data s i = Option.bind (find_interface i (ig_ift s)) ipv4Data"

definition listeners :: "igmp \<Rightarrow> int \<Rightarrow> ip4 list" where
  "listeners s i = (case ip_data s i of None \<Rightarrow> [] | Some d \<Rightarrow> reportedMulticastGroups d)"

section \<open>The invariant\<close>

definition scheduled :: "igmp_timer \<Rightarrow> bool" where
  "scheduled t \<longleftrightarrow> (case t of Some (Some u) \<Rightarrow> True | _ \<Rightarrow> False)"

definition host_group_ok :: "ip4 \<times> host_group \<Rightarrow> bool" where
  "host_group_ok = (\<lambda>(g, h). routable_group g \<and>
     (case hg_state h of IGMP_HGS_DELAYING_MEMBER \<Rightarrow> scheduled (hg_timer h) | IGMP_HGS_IDLE_MEMBER \<Rightarrow> hg_timer h = Some None
      | IGMP_HGS_NON_MEMBER \<Rightarrow> False))"

definition router_group_ok :: "ip4 list \<Rightarrow> ip4 \<times> router_group \<Rightarrow> bool" where
  "router_group_ok L = (\<lambda>(g, r). routable_group g \<and> g \<in> set L \<and> scheduled (rg_timer r) \<and>
     (case rg_state r of IGMP_RGS_MEMBERS_PRESENT \<Rightarrow> rg_rexmtTimer r = Some None
      | IGMP_RGS_CHECKING_MEMBERSHIP \<Rightarrow> rg_rexmtTimer r \<noteq> None | _ \<Rightarrow> False))"

definition host_if_ok :: "host_groups \<Rightarrow> bool" where
  "host_if_ok d \<longleftrightarrow> sorted_wrt (<) (map fst d) \<and> list_all host_group_ok d"

definition router_if_ok :: "ip4 list \<Rightarrow> router_interface \<Rightarrow> bool" where
  "router_if_ok L d \<longleftrightarrow> sorted_wrt (<) (map fst (ri_groups d)) \<and> list_all (router_group_ok L) (ri_groups d)
     \<and> igmpRouterState d \<noteq> IGMP_RS_INITIAL \<and> scheduled (igmpQueryTimer d)"

definition active_router :: "igmp \<Rightarrow> bool" where
  "active_router s \<longleftrightarrow> ig_enabled s \<and> ig_forwarding s \<and> \<not> externalRouter s"

definition interfaces_ok :: "igmp \<Rightarrow> bool" where
  "interfaces_ok s \<longleftrightarrow> distinct (map interfaceId (ig_ift s)) \<and> (\<forall>i. mcast_if s i \<longrightarrow> ip_data s i \<noteq> None \<and> distinct (listeners s i))"

definition hosts_ok :: "igmp \<Rightarrow> bool" where
  "hosts_ok s \<longleftrightarrow> (\<forall>i d. hostData s i = Some d \<longrightarrow> mcast_if s i \<and> host_if_ok d)"

definition routers_on :: "int set \<Rightarrow> igmp \<Rightarrow> bool" where
  "routers_on C s \<longleftrightarrow> (\<forall>i. if active_router s \<and> i \<in> C then \<exists>d. routerData s i = Some d \<and> router_if_ok (listeners s i) d
     else routerData s i = None)"

definition igmp_inv :: "int set \<Rightarrow> igmp \<Rightarrow> bool" where
  "igmp_inv C s \<longleftrightarrow> interfaces_ok s \<and> hosts_ok s \<and> routers_on C s"

abbreviation igmp_ok :: "igmp \<Rightarrow> bool" where
  "igmp_ok s \<equiv> igmp_inv (Collect (mcast_if s)) s"

subsection \<open>What does not touch it\<close>

lemma routers_on_None: "routers_on C s \<Longrightarrow> \<not> (active_router s \<and> i \<in> C) \<Longrightarrow> routerData s i = None"
  unfolding routers_on_def by metis

lemma frame_interface [simp]:
  "mcast_if (ig_emit x s) = mcast_if s" "mcast_if (put_host i d s) = mcast_if s" "mcast_if (put_router i r s) = mcast_if s"
  "ip_data (ig_emit x s) = ip_data s" "ip_data (put_host i d s) = ip_data s" "ip_data (put_router i r s) = ip_data s"
  "listeners (ig_emit x s) = listeners s" "listeners (put_host i d s) = listeners s" "listeners (put_router i r s) = listeners s"
  "active_router (ig_emit x s) = active_router s" "active_router (put_host i d s) = active_router s"
  "active_router (put_router i r s) = active_router s"
  "mcast_if (s\<lparr>ig_draws := n\<rparr>) = mcast_if s" "mcast_if (s\<lparr>numGroups := k\<rparr>) = mcast_if s"
  "mcast_if (s\<lparr>numHostGroups := k\<rparr>) = mcast_if s" "mcast_if (s\<lparr>numRouterGroups := k\<rparr>) = mcast_if s" "mcast_if (s\<lparr>ig_now := t\<rparr>) = mcast_if s"
  by (simp_all add: fun_eq_iff mcast_if_def ip_data_def listeners_def active_router_def ig_emit_def put_host_def put_router_def)

lemma frame_counters [simp]:
  "ip_data (s\<lparr>numGroups := k\<rparr>) = ip_data s" "ip_data (s\<lparr>numRouterGroups := k\<rparr>) = ip_data s"
  "listeners (s\<lparr>numGroups := k\<rparr>) = listeners s" "listeners (s\<lparr>numRouterGroups := k\<rparr>) = listeners s"
  by (simp_all add: fun_eq_iff ip_data_def listeners_def)

lemma frame_inv [simp]:
  "igmp_inv C (ig_emit x s) = igmp_inv C s" "igmp_inv C (s\<lparr>ig_draws := n\<rparr>) = igmp_inv C s" "igmp_inv C (s\<lparr>numGroups := k\<rparr>) = igmp_inv C s"
  "igmp_inv C (s\<lparr>numHostGroups := k\<rparr>) = igmp_inv C s" "igmp_inv C (s\<lparr>numRouterGroups := k\<rparr>) = igmp_inv C s"
  "igmp_inv C (s\<lparr>ig_now := t\<rparr>) = igmp_inv C s"
  by (simp_all add: igmp_inv_def interfaces_ok_def hosts_ok_def routers_on_def mcast_if_def ip_data_def listeners_def active_router_def
      ig_emit_def)

lemma frame_of [simp]:
  "host_of i (s\<lparr>ig_draws := n\<rparr>) = host_of i s" "host_of i (s\<lparr>numGroups := k\<rparr>) = host_of i s"
  "host_of i (s\<lparr>numHostGroups := k\<rparr>) = host_of i s" "router_of i (s\<lparr>numGroups := k\<rparr>) = router_of i s"
  "router_of i (s\<lparr>numRouterGroups := k\<rparr>) = router_of i s"
  by (simp_all add: host_of_def router_of_def)

lemma data_of_put [simp]:
  "hostData (put_host i d s) = (hostData s)(i \<mapsto> d)" "hostData (put_router i r s) = hostData s"
  "routerData (put_router i r s) = (routerData s)(i \<mapsto> r)" "routerData (put_host i d s) = routerData s"
  "ig_ift (put_host i d s) = ig_ift s" "ig_ift (put_router i r s) = ig_ift s"
  by (simp_all add: put_host_def put_router_def)

lemma igmp_inv_put_host: "igmp_inv C s \<Longrightarrow> mcast_if s i \<Longrightarrow> host_if_ok d \<Longrightarrow> igmp_inv C (put_host i d s)"
  by (auto simp: igmp_inv_def interfaces_ok_def hosts_ok_def routers_on_def)

lemma igmp_inv_put_router:
  "igmp_inv C s \<Longrightarrow> i \<in> C \<Longrightarrow> active_router s \<Longrightarrow> router_if_ok (listeners s i) r \<Longrightarrow> igmp_inv C (put_router i r s)"
  by (auto simp: igmp_inv_def interfaces_ok_def hosts_ok_def routers_on_def)

lemma host_of_ok: "igmp_inv C s \<Longrightarrow> host_if_ok (host_of i s)"
  by (auto simp: igmp_inv_def hosts_ok_def host_of_def host_if_ok_def split: option.split)

text \<open>The handlers of hosts and routers, each with the data that it needs.\<close>

lemma router_of_ok:
  assumes "igmp_inv C s" "active_router s" "i \<in> C"
  shows "routerData s i = Some (router_of i s)" "router_if_ok (listeners s i) (router_of i s)"
  using assms by (auto simp: igmp_inv_def routers_on_def router_of_def split: option.split) (metis option.sel option.distinct(1))+


subsection \<open>Groups\<close>

lemma host_if_ok_groups:
  "host_if_ok d \<Longrightarrow> map_of d g = Some h \<Longrightarrow> host_group_ok (g, h)"
  "host_if_ok d \<Longrightarrow> host_group_ok (g, h) \<Longrightarrow> host_if_ok (put_group g h d)"
  "host_if_ok d \<Longrightarrow> host_if_ok (remove_group g d)"
  by (auto simp: host_if_ok_def list_all_iff dest: map_of_SomeD intro!: sorted_put_group sorted_remove_group)
    (use set_put_group in fastforce, auto simp: remove_group_def)

lemma router_if_ok_groups:
  "router_if_ok L d \<Longrightarrow> map_of (ri_groups d) g = Some r \<Longrightarrow> router_group_ok L (g, r)"
  "router_if_ok L d \<Longrightarrow> router_group_ok L (g, r) \<Longrightarrow> router_if_ok L (d\<lparr>ri_groups := put_group g r (ri_groups d)\<rparr>)"
  by (auto simp: router_if_ok_def list_all_iff dest: map_of_SomeD intro!: sorted_put_group) (use set_put_group in fastforce)

lemma router_if_ok_fields [simp]:
  "router_if_ok L (d\<lparr>igmpQueryTimer := t, igmpRouterState := q\<rparr>) \<longleftrightarrow>
     sorted_wrt (<) (map fst (ri_groups d)) \<and> list_all (router_group_ok L) (ri_groups d) \<and> q \<noteq> IGMP_RS_INITIAL \<and> scheduled t"
  by (simp add: router_if_ok_def)

lemma router_if_ok_listeners: "router_if_ok L d \<Longrightarrow> set L \<subseteq> set L' \<Longrightarrow> router_if_ok L' d"
  by (auto simp: router_if_ok_def router_group_ok_def list_all_iff)

lemma scheduled_simps [simp]: "scheduled (Some (Some u))" "\<not> scheduled None" "\<not> scheduled (Some None)"
  by (simp_all add: scheduled_def)

lemma scheduled_not_None: "scheduled t \<Longrightarrow> t \<noteq> None"
  by (cases t) simp_all

lemma scheduledD: "scheduled t \<Longrightarrow> \<exists>u. t = Some (Some u)"
  by (auto simp: scheduled_def split: option.splits)

subsection \<open>Sending\<close>

lemma returns_ig_interface [simp]: "returns P (ig_interface i s) \<longleftrightarrow> (\<exists>ie. find_interface i (ig_ift s) = Some ie \<and> P ie)"
  by (simp add: ig_interface_def split: option.split)

lemma returns_startTimer [simp]: "returns P (ig_startTimer d t s) \<longleftrightarrow> t \<noteq> None \<and> P (Some (Some (ig_now s + d)))"
  by (simp add: ig_startTimer_def)

lemma returns_cancelEvent [simp]: "returns P (ig_cancelEvent t) \<longleftrightarrow> t \<noteq> None \<and> P (Some None)"
  by (cases t) (simp_all add: ig_cancelEvent_def)

lemma returns_sendToIP [simp]: "returns P (ig_sendToIP m i dest s) \<longleftrightarrow> mcast_if s i \<and> P (ig_emit (Igmp_to_ip m i dest) s)"
  by (auto simp: ig_sendToIP_def mcast_if_def split: option.split)

definition the_query :: "int \<Rightarrow> ip4 \<Rightarrow> simtime \<Rightarrow> igmp_out" where
  "the_query i g t = Igmp_to_ip \<lparr>ig_type = IGMP_MEMBERSHIP_QUERY, ig_maxRespTime = tenths t, ig_groupAddress = g\<rparr> i
     (if ip4_isUnspecified g then ALL_HOSTS_MCAST else g)"

definition the_report :: "int \<Rightarrow> ip4 \<Rightarrow> igmp_out" where
  "the_report i g = Igmp_to_ip \<lparr>ig_type = IGMPV2_MEMBERSHIP_REPORT, ig_maxRespTime = 0, ig_groupAddress = g\<rparr> i g"

definition the_leave :: "int \<Rightarrow> ip4 \<Rightarrow> igmp_out" where
  "the_leave i g = Igmp_to_ip \<lparr>ig_type = IGMPV2_LEAVE_GROUP, ig_maxRespTime = 0, ig_groupAddress = g\<rparr> i ALL_ROUTERS_MCAST"

lemma returns_sendReport [simp]: "returns P (sendReport i g s) \<longleftrightarrow> routable_group g \<and> mcast_if s i \<and> P (ig_emit (the_report i g) s)"
  by (simp add: sendReport_def the_report_def)

lemma returns_sendLeave [simp]: "returns P (sendLeave i g s) \<longleftrightarrow> routable_group g \<and> mcast_if s i \<and> P (ig_emit (the_leave i g) s)"
  by (simp add: sendLeave_def the_leave_def)

lemma returns_sendQuery [simp]:
  "returns P (sendQuery i g t s) \<longleftrightarrow> (ip4_isUnspecified g \<or> routable_group g) \<and>
     (let s' = put_router i (router_of i s) s in
      if igmpRouterState (router_of i s) = IGMP_RS_QUERIER then mcast_if s i \<and> P (ig_emit (the_query i g t) s') else P s')"
  by (simp add: sendQuery_def the_query_def Let_def igmp_data)

lemma returns_startHostTimer: "startHostTimer t h s = (h', s') \<Longrightarrow>
    hg_state h' = hg_state h \<and> scheduled (hg_timer h') \<and> (\<exists>n. s' = s\<lparr>ig_draws := n\<rparr>)"
  by (auto simp: startHostTimer_def)

section \<open>The invariant is kept\<close>

definition kept :: "igmp \<Rightarrow> int set \<Rightarrow> igmp \<Rightarrow> bool" where
  "kept s C s' \<longleftrightarrow> igmp_inv C s' \<and> mcast_if s' = mcast_if s \<and> active_router s' = active_router s \<and> externalRouter s' = externalRouter s
     \<and> ig_enabled s' = ig_enabled s \<and> ig_forwarding s' = ig_forwarding s"

lemma kept_frame [simp]:
  "kept s C (ig_emit x s') = kept s C s'" "kept s C (s'\<lparr>ig_draws := n\<rparr>) = kept s C s'" "kept s C (s'\<lparr>numGroups := k\<rparr>) = kept s C s'"
  "kept s C (s'\<lparr>numHostGroups := k\<rparr>) = kept s C s'" "kept s C (s'\<lparr>numRouterGroups := k\<rparr>) = kept s C s'"
  "kept (ig_emit x s) C s' = kept s C s'"
  by (simp_all add: kept_def active_router_def) (simp_all add: ig_emit_def)

lemma kept_refl: "igmp_inv C s \<Longrightarrow> kept s C s" by (simp add: kept_def)

lemma kept_trans: "kept s C s' \<Longrightarrow> kept s' C s'' \<Longrightarrow> kept s C s''" by (simp add: kept_def)

lemma kept_put_host: "kept s C s' \<Longrightarrow> mcast_if s i \<Longrightarrow> host_if_ok d \<Longrightarrow> kept s C (put_host i d s')"
  by (simp add: kept_def igmp_inv_put_host) (simp add: put_host_def)

lemma kept_put_router:
  "kept s C s' \<Longrightarrow> i \<in> C \<Longrightarrow> active_router s \<Longrightarrow> router_if_ok (listeners s' i) r \<Longrightarrow> kept s C (put_router i r s')"
  by (simp add: kept_def igmp_inv_put_router) (simp add: put_router_def)

lemma kept_host_of: "kept s C s' \<Longrightarrow> host_if_ok (host_of i s')"
  by (auto simp: kept_def intro: host_of_ok)

text \<open>Data that are put last.\<close>

lemma igmp_put_out [simp]:
  "ig_emit x (put_host i d s) = put_host i d (ig_emit x s)" "ig_emit x (put_router i r s) = put_router i r (ig_emit x s)"
  "(put_host i d s)\<lparr>ig_draws := n\<rparr> = put_host i d (s\<lparr>ig_draws := n\<rparr>)"
  "(put_host i d s)\<lparr>numGroups := k\<rparr> = put_host i d (s\<lparr>numGroups := k\<rparr>)"
  "(put_host i d s)\<lparr>numHostGroups := k\<rparr> = put_host i d (s\<lparr>numHostGroups := k\<rparr>)"
  "(put_router i r s)\<lparr>numGroups := k\<rparr> = put_router i r (s\<lparr>numGroups := k\<rparr>)"
  "(put_router i r s)\<lparr>numRouterGroups := k\<rparr> = put_router i r (s\<lparr>numRouterGroups := k\<rparr>)"
  by (simp_all add: put_host_def put_router_def ig_emit_def)

lemma rest_of_put [simp]:
  "ig_draws (put_host i d s) = ig_draws s" "numGroups (put_host i d s) = numGroups s" "numHostGroups (put_host i d s) = numHostGroups s"
  "numGroups (put_router i r s) = numGroups s" "numRouterGroups (put_router i r s) = numRouterGroups s"
  "ig_now (put_host i d s) = ig_now s" "ig_now (put_router i r s) = ig_now s" "ig_now (ig_emit x s) = ig_now s"
  "ig_enabled (put_host i d s) = ig_enabled s" "ig_forwarding (put_host i d s) = ig_forwarding s"
  "externalRouter (put_host i d s) = externalRouter s" "ig_outs (put_host i d s) = ig_outs s" "ig_outs (put_router i r s) = ig_outs s"
  "ig_outs (ig_emit x s) = ig_outs s @ [x]"
  by (simp_all add: put_host_def put_router_def ig_emit_def)

lemma parameters_of_put [simp]:
  "queryInterval (put_host i d s) = queryInterval s" "queryInterval (put_router i r s) = queryInterval s"
  "queryInterval (ig_emit x s) = queryInterval s"
  "queryResponseInterval (put_host i d s) = queryResponseInterval s" "queryResponseInterval (put_router i r s) = queryResponseInterval s"
  "queryResponseInterval (ig_emit x s) = queryResponseInterval s"
  "groupMembershipInterval (put_host i d s) = groupMembershipInterval s" "groupMembershipInterval (put_router i r s) = groupMembershipInterval s"
  "groupMembershipInterval (ig_emit x s) = groupMembershipInterval s"
  "otherQuerierPresentInterval (put_host i d s) = otherQuerierPresentInterval s" "otherQuerierPresentInterval (put_router i r s) = otherQuerierPresentInterval s"
  "otherQuerierPresentInterval (ig_emit x s) = otherQuerierPresentInterval s"
  "startupQueryInterval (put_host i d s) = startupQueryInterval s" "startupQueryInterval (put_router i r s) = startupQueryInterval s"
  "startupQueryInterval (ig_emit x s) = startupQueryInterval s"
  "lastMemberQueryInterval (put_host i d s) = lastMemberQueryInterval s" "lastMemberQueryInterval (put_router i r s) = lastMemberQueryInterval s"
  "lastMemberQueryInterval (ig_emit x s) = lastMemberQueryInterval s"
  "lastMemberQueryCount (put_host i d s) = lastMemberQueryCount s" "lastMemberQueryCount (put_router i r s) = lastMemberQueryCount s"
  "lastMemberQueryCount (ig_emit x s) = lastMemberQueryCount s"
  "unsolicitedReportInterval (put_host i d s) = unsolicitedReportInterval s" "unsolicitedReportInterval (put_router i r s) = unsolicitedReportInterval s"
  "unsolicitedReportInterval (ig_emit x s) = unsolicitedReportInterval s"
  by (simp_all add: put_host_def put_router_def ig_emit_def)

lemma put_group_twice [simp]: "put_group g x (put_group g y gs) = put_group g x gs"
  by (induction g y gs rule: put_group.induct) auto

lemma ex_mcast_if [simp]:
  "(\<exists>ie. find_interface i (ig_ift s) = Some ie \<and> ie_multicast ie \<and> Q) \<longleftrightarrow> mcast_if s i \<and> Q"
  by (auto simp: mcast_if_def split: option.split)

lemma routable_groupI: "isMulticast g \<Longrightarrow> \<not> isLinkLocalMulticast g \<Longrightarrow> routable_group g"
  by (simp add: routable_group_def)

subsection \<open>The host\<close>

lemma multicastGroupJoined_kept:
  assumes "igmp_inv C s" "mcast_if s i" "isMulticast g" "map_of (host_of i s) g = None \<or> isLinkLocalMulticast g"
  shows "returns (kept s C) (multicastGroupJoined i g s)"
  using assms
  by (auto simp: multicastGroupJoined_def createHostGroupData_def igmp_data startHostTimer_def kept_refl host_group_ok_def routable_groupI
      intro!: kept_put_host host_if_ok_groups(2) host_of_ok)

lemma multicastGroupLeft_kept:
  assumes "igmp_inv C s" "mcast_if s i" "isMulticast g"
  shows "returns (kept s C) (multicastGroupLeft i g s)"
proof (cases "map_of (host_of i s) g")
  case None
  then show ?thesis using assms
    by (auto simp: multicastGroupLeft_def igmp_data kept_refl intro!: kept_put_host host_if_ok_groups host_of_ok)
next
  case (Some h)
  then have "host_group_ok (g, h)" using host_of_ok[OF assms(1)] host_if_ok_groups(1) by blast
  then show ?thesis using assms Some
    by (auto simp: multicastGroupLeft_def igmp_data kept_refl host_group_ok_def scheduled_def
        intro!: kept_put_host host_if_ok_groups host_of_ok split: host_group_state.splits option.splits)
qed

lemma processHostGroupTimer_kept:
  assumes "igmp_inv C s" "mcast_if s i" "map_of (host_of i s) g = Some h"
  shows "returns (kept s C) (processHostGroupTimer i g s)"
proof -
  have "host_group_ok (g, h)" using host_of_ok[OF assms(1)] host_if_ok_groups(1) assms(3) by blast
  then show ?thesis using assms
    by (auto simp: processHostGroupTimer_def igmp_data kept_refl host_group_ok_def
        intro!: kept_put_host host_if_ok_groups(2) host_of_ok)
qed

definition draws_only :: "igmp \<Rightarrow> igmp \<Rightarrow> bool" where
  "draws_only s s' \<longleftrightarrow> s' = s\<lparr>ig_draws := ig_draws s'\<rparr>"

lemma draws_only_simps [simp]: "draws_only s s" "draws_only s (s\<lparr>ig_draws := n\<rparr>)"
  by (simp_all add: draws_only_def)

lemma draws_only_trans: "draws_only s s' \<Longrightarrow> draws_only s' s'' \<Longrightarrow> draws_only s s''"
  unfolding draws_only_def by (metis igmp.update_convs(20) igmp.surjective)

lemma processGroupQuery_ok:
  assumes "host_group_ok (g, h)"
  shows "returns (\<lambda>(h', s'). host_group_ok (g, h') \<and> draws_only s s') (processGroupQuery r h s)"
proof (cases "hg_state h")
  case IGMP_HGS_DELAYING_MEMBER
  then obtain u where "hg_timer h = Some (Some u)" "routable_group g" using assms scheduledD by (auto simp: host_group_ok_def)
  then show ?thesis using IGMP_HGS_DELAYING_MEMBER by (simp add: processGroupQuery_def host_group_ok_def startHostTimer_def)
qed (use assms in \<open>simp_all add: processGroupQuery_def host_group_ok_def startHostTimer_def Let_def\<close>)

lemma query_groups_ok:
  "list_all host_group_ok gs \<Longrightarrow>
   returns (\<lambda>(gs', s'). map fst gs' = map fst gs \<and> list_all host_group_ok gs' \<and> draws_only s s') (query_groups r gs s)"
proof (induction r gs s rule: query_groups.induct)
  case (2 r g h gs s)
  then have "returns (\<lambda>(h', s'). host_group_ok (g, h') \<and> draws_only s s') (processGroupQuery r h s)"
    by (intro processGroupQuery_ok) simp
  then obtain h' s1 where 1: "processGroupQuery r h s = Inr (h', s1)" "host_group_ok (g, h')" "draws_only s s1"
    by (auto simp: returns_def)
  have "returns (\<lambda>(gs', s'). map fst gs' = map fst gs \<and> list_all host_group_ok gs' \<and> draws_only s1 s') (query_groups r gs s1)"
    using 2 1 by auto
  then show ?case using 1 by (auto elim!: returns_mono intro: draws_only_trans)
qed simp

lemma kept_draws: "kept s C s' \<Longrightarrow> draws_only s' s'' \<Longrightarrow> kept s C s''"
  unfolding draws_only_def using kept_frame(2) by metis

lemma draws_host_of: "draws_only s s' \<Longrightarrow> host_of i s' = host_of i s"
  unfolding draws_only_def using frame_of(1) by metis

lemma query_host_kept:
  assumes "igmp_inv C s" "mcast_if s i"
  shows "returns (kept s C) (query_host i m s)"
proof -
  have d: "host_if_ok (host_of i s)" using assms(1) by (rule host_of_ok)
  have k: "kept s C (put_host i (host_of i s) s)" using assms d by (intro kept_put_host kept_refl)
  show ?thesis
  proof (cases "ip4_isUnspecified (ig_groupAddress m)")
    case True
    have "returns (\<lambda>(d', s'). host_if_ok d' \<and> draws_only (put_host i (host_of i s) s) s')
      (query_groups (ig_maxRespTime m) (host_of i s) (put_host i (host_of i s) s))"
      using query_groups_ok[of "host_of i s" "put_host i (host_of i s) s" "ig_maxRespTime m"] d
      by (auto simp: host_if_ok_def elim!: returns_mono)
    then show ?thesis using True assms(2) kept_draws[OF k]
      by (auto simp: query_host_def igmp_data intro!: kept_put_host elim!: returns_mono)
  next
    case False
    show ?thesis
    proof (cases "map_of (host_of i s) (ig_groupAddress m)")
      case None
      then show ?thesis using False k by (simp add: query_host_def igmp_data)
    next
      case (Some h)
      have "returns (\<lambda>(h', s'). host_group_ok (ig_groupAddress m, h') \<and> draws_only (put_host i (host_of i s) s) s')
          (processGroupQuery (ig_maxRespTime m) h (put_host i (host_of i s) s))"
        using host_if_ok_groups(1)[OF d Some] by (rule processGroupQuery_ok)
      then show ?thesis using False Some assms(2) kept_draws[OF k] d
        by (auto simp: query_host_def igmp_data draws_host_of intro!: kept_put_host host_if_ok_groups(2) elim!: returns_mono)
    qed
  qed
qed

lemma report_host_kept:
  assumes "igmp_inv C s" "mcast_if s i"
  shows "returns (kept s C) (report_host i g s)"
proof (cases "map_of (host_of i s) g")
  case None
  then show ?thesis using assms by (auto simp: report_host_def igmp_data kept_refl intro!: kept_put_host host_of_ok)
next
  case (Some h)
  then have "host_group_ok (g, h)" using host_of_ok[OF assms(1)] host_if_ok_groups(1) by blast
  then show ?thesis using assms Some
    by (auto simp: report_host_def igmp_data kept_refl host_group_ok_def scheduled_def
        intro!: kept_put_host host_if_ok_groups(2) host_of_ok split: option.splits)
qed

subsection \<open>The router\<close>

lemma router_state_cases:
  assumes "router_if_ok L d"
  obtains "igmpRouterState d = IGMP_RS_QUERIER" | "igmpRouterState d = IGMP_RS_NON_QUERIER"
  using assms by (cases "igmpRouterState d") (simp_all add: router_if_ok_def)

lemma query_timer_runs: "router_if_ok L d \<Longrightarrow> \<exists>u. igmpQueryTimer d = Some (Some u)"
  by (simp add: router_if_ok_def scheduledD)

lemma processQueryTimer_kept:
  assumes "igmp_inv C s" "active_router s" "i \<in> C" "mcast_if s i"
  shows "returns (kept s C) (processQueryTimer i s)"
proof -
  obtain d where d: "routerData s i = Some d" "router_of i s = d" "router_if_ok (listeners s i) d"
    using router_of_ok[OF assms(1-3)] by auto
  obtain u where u: "igmpQueryTimer d = Some (Some u)" using query_timer_runs[OF d(3)] ..
  have "igmpRouterState d = IGMP_RS_QUERIER \<or> igmpRouterState d = IGMP_RS_NON_QUERIER" using d(3) by (rule router_state_cases) auto
  then have "processQueryTimer i s = Inr (put_router i (d\<lparr>igmpRouterState := IGMP_RS_QUERIER,
      igmpQueryTimer := Some (Some (ig_now s + queryInterval s))\<rparr>) (ig_emit (the_query i 0 (queryResponseInterval s)) s))"
    using d(1,2) u assms(4) unfolding returns_eq[symmetric] processQueryTimer_def igmp_data
    by (simp add: ip4_isUnspecified_def Let_def)
  then show ?thesis using d(3) assms by (auto intro!: kept_put_router simp: kept_refl router_if_ok_def)
qed

subsection \<open>The list of listeners\<close>

definition set_ip_data :: "int \<Rightarrow> ipv4_interface_data \<Rightarrow> igmp \<Rightarrow> igmp" where
  "set_ip_data i d s = s\<lparr>ig_ift := map (\<lambda>x. if interfaceId x = i then x\<lparr>ipv4Data := Some d\<rparr> else x) (ig_ift s)\<rparr>"

lemma find_set_ip_data [simp]:
  "find_interface j (ig_ift (set_ip_data i d s)) =
     map_option (\<lambda>ie. if j = i then ie\<lparr>ipv4Data := Some d\<rparr> else ie) (find_interface j (ig_ift s))"
proof -
  have "find_interface j (map (\<lambda>x. if interfaceId x = i then x\<lparr>ipv4Data := Some d\<rparr> else x) ies) =
     map_option (\<lambda>ie. if j = i then ie\<lparr>ipv4Data := Some d\<rparr> else ie) (find_interface j ies)" for ies
    by (induction ies) (auto simp: find_interface_def)
  then show ?thesis by (simp add: set_ip_data_def)
qed

lemma set_ip_data_interface [simp]:
  "mcast_if (set_ip_data i d s) = mcast_if s" "active_router (set_ip_data i d s) = active_router s"
  "interfaceId ` set (ig_ift (set_ip_data i d s)) = interfaceId ` set (ig_ift s)"
  "distinct (map interfaceId (ig_ift (set_ip_data i d s))) = distinct (map interfaceId (ig_ift s))"
proof -
  show "mcast_if (set_ip_data i d s) = mcast_if s" by (auto simp: mcast_if_def fun_eq_iff split: option.split)
  have ids: "map interfaceId (ig_ift (set_ip_data i d s)) = map interfaceId (ig_ift s)" by (simp add: set_ip_data_def)
  then show "distinct (map interfaceId (ig_ift (set_ip_data i d s))) = distinct (map interfaceId (ig_ift s))" by simp
  show "interfaceId ` set (ig_ift (set_ip_data i d s)) = interfaceId ` set (ig_ift s)" using arg_cong[OF ids, of set] by simp
qed (simp add: set_ip_data_def active_router_def)

lemma ip_data_set [simp]:
  "ip_data (set_ip_data i d s) j = (if j = i \<and> ip_data s i \<noteq> None then Some d else ip_data s j)" if "ip_data s i \<noteq> None"
  using that by (auto simp: ip_data_def split: option.splits bind_splits)

lemma set_ip_data_rest [simp]:
  "hostData (set_ip_data i d s) = hostData s" "routerData (set_ip_data i d s) = routerData s" "router_of j (set_ip_data i d s) = router_of j s"
  "set_ip_data i d (put_router j r s) = put_router j r (set_ip_data i d s)" "ig_emit x (set_ip_data i d s) = set_ip_data i d (ig_emit x s)"
  "(set_ip_data i d s)\<lparr>numGroups := k\<rparr> = set_ip_data i d (s\<lparr>numGroups := k\<rparr>)"
  "(set_ip_data i d s)\<lparr>numRouterGroups := k\<rparr> = set_ip_data i d (s\<lparr>numRouterGroups := k\<rparr>)"
  "numGroups (set_ip_data i d s) = numGroups s" "numRouterGroups (set_ip_data i d s) = numRouterGroups s"
  "ig_now (set_ip_data i d s) = ig_now s" "groupMembershipInterval (set_ip_data i d s) = groupMembershipInterval s"
  "ig_outs (set_ip_data i d s) = ig_outs s"
  by (simp_all add: set_ip_data_def put_router_def ig_emit_def router_of_def)

lemma returns_change_listeners:
  assumes "ip_data s i = Some d"
  shows "returns P (change_listeners f i s) \<longleftrightarrow> returns (\<lambda>d'. P (set_ip_data i d' s)) (f d)"
  using assms by (auto simp: change_listeners_def data_of_def ip_data_def set_ip_data_def split: option.splits bind_splits)

lemma igmp_inv_set_ip_data:
  assumes "igmp_inv C s" "i \<in> C" "active_router s" "ip_data s i \<noteq> None" "distinct (reportedMulticastGroups d)"
    "router_if_ok (reportedMulticastGroups d) r"
  shows "igmp_inv C (put_router i r (set_ip_data i d s))"
proof -
  have "listeners (set_ip_data i d s) j = (if j = i then reportedMulticastGroups d else listeners s j)" for j
    using assms(4) by (simp add: listeners_def)
  then show ?thesis using assms by (auto simp: igmp_inv_def interfaces_ok_def hosts_ok_def routers_on_def)
qed

lemma kept_set_ip_data:
  assumes "kept s C s'" "i \<in> C" "active_router s" "ip_data s' i \<noteq> None" "distinct (reportedMulticastGroups d)"
    "router_if_ok (reportedMulticastGroups d) r"
  shows "kept s C (put_router i r (set_ip_data i d s'))"
  using assms by (simp add: kept_def igmp_inv_set_ip_data) (simp add: put_router_def set_ip_data_def)

lemma interface_data:
  assumes "igmp_inv C s" "mcast_if s i"
  obtains dat where "ip_data s i = Some dat" "distinct (reportedMulticastGroups dat)" "listeners s i = reportedMulticastGroups dat"
proof -
  obtain dat where "ip_data s i = Some dat" "distinct (listeners s i)"
    using assms by (auto simp: igmp_inv_def interfaces_ok_def)
  then show ?thesis using that by (simp add: listeners_def)
qed

lemma group_on_router:
  assumes "igmp_inv C s" "active_router s" "i \<in> C" "map_of (ri_groups (router_of i s)) g = Some r"
  shows "router_group_ok (listeners s i) (g, r)"
  using router_of_ok(2)[OF assms(1-3)] assms(4) by (rule router_if_ok_groups(1))

subsection \<open>Groups of a router\<close>

definition with_group :: "int \<Rightarrow> ip4 \<Rightarrow> router_group \<Rightarrow> igmp \<Rightarrow> igmp" where
  "with_group i g r s = put_router i ((router_of i s)\<lparr>ri_groups := put_group g r (ri_groups (router_of i s))\<rparr>) s"

lemma kept_with_group:
  assumes "igmp_inv C s" "active_router s" "i \<in> C" "router_group_ok (listeners s i) (g, r)"
  shows "kept s C (with_group i g r s)"
  unfolding with_group_def using assms router_of_ok[OF assms(1-3)]
  by (auto intro!: kept_put_router router_if_ok_groups(2) simp: kept_refl)

lemma processRexmtTimer_eq:
  assumes "routerData s i = Some (router_of i s)" "mcast_if s i" "routable_group g" "map_of (ri_groups (router_of i s)) g = Some r"
    "rg_rexmtTimer r \<noteq> None"
  shows "processRexmtTimer i g s = Inr (with_group i g
      (r\<lparr>rg_rexmtTimer := Some (Some (ig_now s + lastMemberQueryInterval s)), rg_state := IGMP_RGS_CHECKING_MEMBERSHIP\<rparr>)
      (if igmpRouterState (router_of i s) = IGMP_RS_QUERIER then ig_emit (the_query i g (lastMemberQueryInterval s)) s else s))"
  unfolding returns_eq[symmetric] processRexmtTimer_def igmp_data with_group_def
  using assms by (simp add: Let_def)

lemma leave_router_eq:
  assumes "routerData s i = Some (router_of i s)" "mcast_if s i" "routable_group g" "map_of (ri_groups (router_of i s)) g = Some r"
    "rg_timer r \<noteq> None" "rg_rexmtTimer r \<noteq> None"
  shows "leave_router i g s = Inr
     (if rg_state r = IGMP_RGS_MEMBERS_PRESENT \<and> igmpRouterState (router_of i s) = IGMP_RS_QUERIER
      then with_group i g (r\<lparr>rg_timer := Some (Some (ig_now s + lastMemberQueryInterval s * lastMemberQueryCount s)),
          rg_rexmtTimer := Some (Some (ig_now s + lastMemberQueryInterval s)), rg_state := IGMP_RGS_CHECKING_MEMBERSHIP\<rparr>)
        (ig_emit (the_query i g (lastMemberQueryInterval s)) s)
      else s)"
  unfolding returns_eq[symmetric] leave_router_def igmp_data with_group_def
  using assms by (simp add: Let_def)

lemma processLeaveTimer_eq:
  assumes "routerData s i = Some (router_of i s)" "ip_data s i = Some dat" "map_of (ri_groups (router_of i s)) g = Some r"
    "rg_state r = IGMP_RGS_CHECKING_MEMBERSHIP \<longrightarrow> rg_rexmtTimer r \<noteq> None"
  shows "processLeaveTimer i g s = Inr
     (put_router i ((router_of i s)\<lparr>ri_groups := remove_group g (ri_groups (router_of i s))\<rparr>)
       (set_ip_data i (removeMulticastListener g dat)
         (ig_emit (Mcast_unregistered i g) s\<lparr>numRouterGroups := numRouterGroups s - 1, numGroups := numGroups s - 1\<rparr>)))"
  unfolding returns_eq[symmetric] processLeaveTimer_def igmp_data
  using assms by (simp add: Let_def returns_change_listeners) (simp add: ig_emit_def)

lemma processRexmtTimer_kept:
  assumes "igmp_inv C s" "active_router s" "i \<in> C" "mcast_if s i" "map_of (ri_groups (router_of i s)) g = Some r"
    "scheduled (rg_rexmtTimer r)"
  shows "returns (kept s C) (processRexmtTimer i g s)"
proof -
  have r: "router_group_ok (listeners s i) (g, r)" by (rule group_on_router[OF assms(1-3,5)])
  let ?s = "if igmpRouterState (router_of i s) = IGMP_RS_QUERIER then ig_emit (the_query i g (lastMemberQueryInterval s)) s else s"
  have "kept ?s C (with_group i g (r\<lparr>rg_rexmtTimer := Some (Some (ig_now s + lastMemberQueryInterval s)),
      rg_state := IGMP_RGS_CHECKING_MEMBERSHIP\<rparr>) ?s)"
    using assms r by (intro kept_with_group) (auto simp: router_group_ok_def)
  moreover have "kept s C ?s" using assms(1) by (simp add: kept_refl)
  moreover have "routable_group g" "rg_rexmtTimer r \<noteq> None" using r assms(6) scheduled_not_None by (auto simp: router_group_ok_def)
  ultimately show ?thesis using assms router_of_ok(1)[OF assms(1-3)]
    by (auto simp: processRexmtTimer_eq intro: kept_trans)
qed

lemma router_group_cases:
  assumes "router_group_ok L (g, r)"
  obtains u where "routable_group g" "g \<in> set L" "rg_timer r = Some (Some u)" "rg_state r = IGMP_RGS_MEMBERS_PRESENT" "rg_rexmtTimer r = Some None"
  | u v where "routable_group g" "g \<in> set L" "rg_timer r = Some (Some u)" "rg_state r = IGMP_RGS_CHECKING_MEMBERSHIP" "rg_rexmtTimer r = Some v"
  using assms by (auto simp: router_group_ok_def split: router_group_state.splits dest!: scheduledD)

lemma leave_router_kept:
  assumes "igmp_inv C s" "active_router s" "i \<in> C" "mcast_if s i"
  shows "returns (kept s C) (leave_router i g s)"
proof (cases "map_of (ri_groups (router_of i s)) g")
  case None
  then show ?thesis using assms router_of_ok(1)[OF assms(1-3)] by (simp add: leave_router_def igmp_data Let_def kept_refl)
next
  case (Some r)
  have r: "router_group_ok (listeners s i) (g, r)" by (rule group_on_router[OF assms(1-3) Some])
  then have t: "routable_group g" "rg_timer r \<noteq> None" "rg_rexmtTimer r \<noteq> None" by (auto elim: router_group_cases)
  let ?s = "ig_emit (the_query i g (lastMemberQueryInterval s)) s"
  have "kept ?s C (with_group i g (r\<lparr>rg_timer := Some (Some (ig_now s + lastMemberQueryInterval s * lastMemberQueryCount s)),
          rg_rexmtTimer := Some (Some (ig_now s + lastMemberQueryInterval s)), rg_state := IGMP_RGS_CHECKING_MEMBERSHIP\<rparr>) ?s)"
    using assms r by (intro kept_with_group) (auto simp: router_group_ok_def)
  then show ?thesis using assms router_of_ok(1)[OF assms(1-3)] Some t by (simp add: leave_router_eq kept_refl)
qed

lemma in_remove_group: "(h, x) \<in> set (remove_group g gs) \<longleftrightarrow> (h, x) \<in> set gs \<and> h \<noteq> g"
  by (auto simp: remove_group_def)

lemma processLeaveTimer_kept:
  assumes "igmp_inv C s" "active_router s" "i \<in> C" "mcast_if s i" "map_of (ri_groups (router_of i s)) g = Some r"
  shows "returns (kept s C) (processLeaveTimer i g s)"
proof -
  obtain dat where dat: "ip_data s i = Some dat" "distinct (reportedMulticastGroups dat)" "listeners s i = reportedMulticastGroups dat"
    using interface_data[OF assms(1,4)] .
  have r: "router_group_ok (listeners s i) (g, r)" by (rule group_on_router[OF assms(1-3,5)])
  then have t: "rg_rexmtTimer r \<noteq> None" by (auto elim: router_group_cases)
  have "router_if_ok (reportedMulticastGroups dat) (router_of i s)" using router_of_ok(2)[OF assms(1-3)] dat(3) by simp
  then have "router_if_ok (remove1 g (reportedMulticastGroups dat)) ((router_of i s)\<lparr>ri_groups := remove_group g (ri_groups (router_of i s))\<rparr>)"
    using dat(2) by (auto simp: router_if_ok_def list_all_iff in_remove_group router_group_ok_def intro!: sorted_remove_group)
  then show ?thesis using assms dat t router_of_ok(1)[OF assms(1-3)]
    by (subst processLeaveTimer_eq[of s i dat g r])
      (auto simp: removeMulticastListener_def kept_refl intro!: kept_set_ip_data)
qed

definition heard_group :: "simtime \<Rightarrow> router_group" where
  "heard_group t = \<lparr>rg_state = IGMP_RGS_MEMBERS_PRESENT, rg_timer = Some (Some t), rg_rexmtTimer = Some None\<rparr>"

lemma heard_group_eq: "r\<lparr>rg_rexmtTimer := Some None, rg_timer := Some (Some t), rg_state := IGMP_RGS_MEMBERS_PRESENT\<rparr> = heard_group t"
  by (cases r) (simp add: heard_group_def)

definition add_listener :: "ip4 \<Rightarrow> ipv4_interface_data \<Rightarrow> ipv4_interface_data" where
  "add_listener g d = (if hasMulticastListener g d then d else d\<lparr>reportedMulticastGroups := reportedMulticastGroups d @ [g]\<rparr>)"

lemma report_router_new:
  assumes "routerData s i = Some (router_of i s)" "ip_data s i = Some dat" "isMulticast g" "map_of (ri_groups (router_of i s)) g = None"
  shows "report_router i g s = Inr (put_router i
      ((router_of i s)\<lparr>ri_groups := put_group g (heard_group (ig_now s + groupMembershipInterval s)) (ri_groups (router_of i s))\<rparr>)
      (set_ip_data i (add_listener g dat)
        (ig_emit (Mcast_registered i g) (s\<lparr>numGroups := numGroups s + 1\<rparr>)\<lparr>numRouterGroups := numRouterGroups s + 1\<rparr>)))"
  unfolding returns_eq[symmetric] report_router_def igmp_data using assms
  by (simp add: Let_def createRouterGroupData_def igmp_data new_router_group_def returns_change_listeners addMulticastListener_def
      add_listener_def heard_group_def)

lemma report_router_again:
  assumes "routerData s i = Some (router_of i s)" "map_of (ri_groups (router_of i s)) g = Some r" "router_group_ok L (g, r)"
  shows "report_router i g s = Inr (with_group i g (heard_group (ig_now s + groupMembershipInterval s)) s)"
  using assms(3)
  by (rule router_group_cases; unfold returns_eq[symmetric] report_router_def igmp_data with_group_def)
    (use assms(1,2) in \<open>simp_all add: heard_group_eq\<close>)

lemma report_router_kept:
  assumes "igmp_inv C s" "active_router s" "i \<in> C" "mcast_if s i" "routable_group g"
  shows "returns (kept s C) (report_router i g s)"
proof -
  obtain dat where dat: "ip_data s i = Some dat" "distinct (reportedMulticastGroups dat)" "listeners s i = reportedMulticastGroups dat"
    using interface_data[OF assms(1,4)] .
  note d = router_of_ok[OF assms(1-3)]
  let ?r = "heard_group (ig_now s + groupMembershipInterval s)"
  show ?thesis
  proof (cases "map_of (ri_groups (router_of i s)) g")
    case None
    let ?L = "reportedMulticastGroups (add_listener g dat)"
    have L: "distinct ?L" "set (reportedMulticastGroups dat) \<subseteq> set ?L" "g \<in> set ?L"
      using dat(2) by (auto simp: add_listener_def hasMulticastListener_def)
    then have "router_if_ok ?L (router_of i s)" using d(2) dat(3) router_if_ok_listeners by metis
    then have "router_if_ok ?L ((router_of i s)\<lparr>ri_groups := put_group g ?r (ri_groups (router_of i s))\<rparr>)"
      using assms(5) L by (intro router_if_ok_groups(2)) (simp_all add: router_group_ok_def heard_group_def)
    moreover have "isMulticast g" using assms(5) by (simp add: routable_group_def)
    ultimately show ?thesis using assms dat d(1) None L
      by (auto simp: report_router_new kept_refl intro!: kept_set_ip_data)
  next
    case (Some r)
    have r: "router_group_ok (listeners s i) (g, r)" by (rule group_on_router[OF assms(1-3) Some])
    then have "router_group_ok (listeners s i) (g, ?r)" using assms(5) by (auto simp: router_group_ok_def heard_group_def)
    then show ?thesis using kept_with_group[OF assms(1-3)] report_router_again[OF d(1) Some r] by simp
  qed
qed

subsection \<open>Queries of other routers\<close>

text \<open>What the module does with a query for a group that it does not know, when it is not the querier or ceases to be.\<close>

definition unknown_group :: "int \<Rightarrow> ip4 \<Rightarrow> igmp_message \<Rightarrow> igmp \<Rightarrow> bool" where
  "unknown_group i sender m s \<longleftrightarrow> active_router s \<and> \<not> ip4_isUnspecified (ig_groupAddress m)
     \<and> map_of (ri_groups (router_of i s)) (ig_groupAddress m) = None
     \<and> (igmpRouterState (router_of i s) = IGMP_RS_NON_QUERIER \<or> (\<exists>dat. ip_data s i = Some dat \<and> sender < inetAddr dat))"

definition heard_querier :: "int \<Rightarrow> ip4 \<Rightarrow> ip4 \<Rightarrow> igmp \<Rightarrow> igmp" where
  "heard_querier i sender a s =
     (if sender < a
      then put_router i ((router_of i s)\<lparr>igmpQueryTimer := Some (Some (ig_now s + otherQuerierPresentInterval s)),
        igmpRouterState := IGMP_RS_NON_QUERIER\<rparr>) s
      else s)"

lemma query_router_eq:
  assumes "routerData s i = Some (router_of i s)" "ipv4Data ie = Some dat" "igmpQueryTimer (router_of i s) \<noteq> None"
  shows "query_router i sender m ie s =
     (let s' = heard_querier i sender (inetAddr dat) s; g = ig_groupAddress m in
      if \<not> ip4_isUnspecified g \<and> igmpRouterState (router_of i s') = IGMP_RS_NON_QUERIER
      then case map_of (ri_groups (router_of i s')) g of
          None \<Rightarrow> Inl (NullPointer ''groupData'')
        | Some r \<Rightarrow> if rg_state r = IGMP_RGS_MEMBERS_PRESENT
            then mapE (\<lambda>t. with_group i g (r\<lparr>rg_timer := t, rg_state := IGMP_RGS_CHECKING_MEMBERSHIP\<rparr>) s')
              (ig_startTimer (of_tenths (ig_maxRespTime m) * lastMemberQueryCount s') (rg_timer r) s')
            else Inr s'
      else Inr s')"
  using assms unfolding query_router_def igmp_data heard_querier_def with_group_def data_of_def ig_startTimer_def
  by (auto simp: Let_def split: option.split)

lemma heard_querier_kept:
  assumes "igmp_inv C s" "active_router s" "i \<in> C"
  shows "kept s C (heard_querier i sender a s)"
  using assms router_of_ok(2)[OF assms] by (auto simp: heard_querier_def kept_refl router_if_ok_def intro!: kept_put_router)

lemma heard_querier_fields [simp]:
  "ri_groups (router_of i (heard_querier i sender a s)) = ri_groups (router_of i s)"
  "igmpRouterState (router_of i (heard_querier i sender a s)) = (if sender < a then IGMP_RS_NON_QUERIER else igmpRouterState (router_of i s))"
  "listeners (heard_querier i sender a s) = listeners s" "mcast_if (heard_querier i sender a s) = mcast_if s"
  "active_router (heard_querier i sender a s) = active_router s" "ig_now (heard_querier i sender a s) = ig_now s"
  by (simp_all add: heard_querier_def)

lemma query_router_kept:
  assumes "igmp_inv C s" "active_router s" "i \<in> C" "mcast_if s i" "find_interface i (ig_ift s) = Some ie"
  shows "if unknown_group i sender m s then query_router i sender m ie s = Inl (NullPointer ''groupData'')
    else returns (kept s C) (query_router i sender m ie s)"
proof -
  obtain dat where dat: "ip_data s i = Some dat" using interface_data[OF assms(1,4)] .
  then have ie: "ipv4Data ie = Some dat" using assms(5) by (simp add: ip_data_def)
  note d = router_of_ok[OF assms(1-3)]
  then have q: "igmpQueryTimer (router_of i s) \<noteq> None" using query_timer_runs by fastforce
  let ?s = "heard_querier i sender (inetAddr dat) s" and ?g = "ig_groupAddress m"
  have k: "kept s C ?s" using assms(1-3) by (rule heard_querier_kept)
  then have k': "igmp_inv C ?s" by (simp add: kept_def)
  show ?thesis
  proof (cases "\<not> ip4_isUnspecified ?g \<and> igmpRouterState (router_of i ?s) = IGMP_RS_NON_QUERIER")
    case False
    then show ?thesis using query_router_eq[OF d(1) ie q] k dat by (auto simp: unknown_group_def)
  next
    case True
    show ?thesis
    proof (cases "map_of (ri_groups (router_of i s)) ?g")
      case None
      then show ?thesis using query_router_eq[OF d(1) ie q] True dat assms(2) by (auto simp: unknown_group_def split: if_splits)
    next
      case (Some r)
      have r: "router_group_ok (listeners s i) (?g, r)" by (rule group_on_router[OF assms(1-3) Some])
      then have t: "rg_timer r \<noteq> None" by (auto elim: router_group_cases)
      have "router_group_ok (listeners s i) (?g, r\<lparr>rg_timer := Some (Some u), rg_state := IGMP_RGS_CHECKING_MEMBERSHIP\<rparr>)" for u
        using r by (auto simp: router_group_ok_def split: router_group_state.splits)
      then have "kept s C (with_group i ?g (r\<lparr>rg_timer := Some (Some u), rg_state := IGMP_RGS_CHECKING_MEMBERSHIP\<rparr>) ?s)" for u
        using kept_trans[OF k kept_with_group[OF k']] assms by simp
      then show ?thesis using query_router_eq[OF d(1) ie q] True Some t k by (auto simp: unknown_group_def Let_def)
    qed
  qed
qed

subsection \<open>Interfaces that come and go\<close>

lemma configureInterface_kept:
  assumes "igmp_inv C s" "mcast_if s i" "i \<notin> C"
  shows "returns (\<lambda>s'. igmp_inv (insert i C) s' \<and> mcast_if s' = mcast_if s) (configureInterface i s)"
proof (cases "active_router s")
  case True
  have r: "routerData s i = None" using assms True by (auto simp: igmp_inv_def routers_on_def)
  then have eq: "configureInterface i s = Inr (put_router i \<lparr>ri_groups = [], igmpRouterState = IGMP_RS_QUERIER,
      igmpQueryTimer = Some (Some (ig_now s + startupQueryInterval s))\<rparr> (ig_emit (the_query i 0 (queryResponseInterval s)) s))"
    using assms(2) True unfolding returns_eq[symmetric] configureInterface_def igmp_data
    by (simp add: active_router_def Let_def router_of_def new_router_interface_def ip4_isUnspecified_def)
  have "router_if_ok L \<lparr>ri_groups = [], igmpRouterState = IGMP_RS_QUERIER, igmpQueryTimer = Some (Some u)\<rparr>" for L u
    by (simp add: router_if_ok_def)
  then have "igmp_inv (insert i C) (put_router i \<lparr>ri_groups = [], igmpRouterState = IGMP_RS_QUERIER, igmpQueryTimer = Some (Some u)\<rparr> s)" for u
    using assms(1) True by (auto simp: igmp_inv_def interfaces_ok_def hosts_ok_def routers_on_def)
  then show ?thesis unfolding eq using assms(1) by (simp flip: igmp_put_out)
next
  case False
  then show ?thesis using assms by (auto simp: configureInterface_def active_router_def igmp_inv_def routers_on_def)
qed

section \<open>Reachable states\<close>

text \<open>A timer that runs may expire; IP hands over messages of the three types, for groups that routers may forward.\<close>

definition well_formed :: "igmp_message \<Rightarrow> bool" where
  "well_formed m \<longleftrightarrow> ig_type m = IGMP_MEMBERSHIP_QUERY \<and> (ip4_isUnspecified (ig_groupAddress m) \<or> routable_group (ig_groupAddress m))
     \<or> ig_type m \<in> {IGMPV2_MEMBERSHIP_REPORT, IGMPV2_LEAVE_GROUP} \<and> routable_group (ig_groupAddress m)"

fun igmp_may_arrive :: "igmp_arrival \<Rightarrow> igmp \<Rightarrow> bool" where
  "igmp_may_arrive (Igmp_query_timer i) s \<longleftrightarrow> routerData s i \<noteq> None \<and> scheduled (igmpQueryTimer (router_of i s))"
| "igmp_may_arrive (Igmp_hostgroup_timer i g) s \<longleftrightarrow>
     (case map_of (host_of i s) g of None \<Rightarrow> False | Some h \<Rightarrow> scheduled (hg_timer h))"
| "igmp_may_arrive (Igmp_leave_timer i g) s \<longleftrightarrow>
     (case map_of (ri_groups (router_of i s)) g of None \<Rightarrow> False | Some r \<Rightarrow> scheduled (rg_timer r))"
| "igmp_may_arrive (Igmp_rexmt_timer i g) s \<longleftrightarrow>
     (case map_of (ri_groups (router_of i s)) g of None \<Rightarrow> False | Some r \<Rightarrow> scheduled (rg_rexmtTimer r))"
| "igmp_may_arrive (Igmp_from_router m) s \<longleftrightarrow> True"
| "igmp_may_arrive (Igmp_from_ip i src m) s \<longleftrightarrow> mcast_if s i \<and> well_formed m"

text \<open>An interface tells of the first member that joins a group and of the last one that leaves it.\<close>

fun igmp_may_tell :: "igmp_notification \<Rightarrow> igmp \<Rightarrow> bool" where
  "igmp_may_tell (Igmp_mcast_join i g) s \<longleftrightarrow> mcast_if s i \<and> isMulticast g \<and> map_of (host_of i s) g = None"
| "igmp_may_tell (Igmp_mcast_leave i g) s \<longleftrightarrow> mcast_if s i \<and> isMulticast g"
| "igmp_may_tell (Igmp_interface_created ie) s \<longleftrightarrow> False"
| "igmp_may_tell (Igmp_interface_deleted ie) s \<longleftrightarrow> False"

definition fresh_interface :: "interface_entry \<Rightarrow> igmp \<Rightarrow> bool" where
  "fresh_interface ie s \<longleftrightarrow> interfaceId ie \<notin> interfaceId ` set (ig_ift s)
     \<and> (ie_multicast ie \<longrightarrow> (case ipv4Data ie of None \<Rightarrow> False | Some d \<Rightarrow> distinct (reportedMulticastGroups d)))"

text \<open>The table of interfaces has a new interface before it tells, and has it still when it tells that it is deleted.\<close>

inductive igmp_run :: "igmp \<Rightarrow> bool" where
  start: "interfaces_ok s \<Longrightarrow> igmp_initialize s = Inr s' \<Longrightarrow> igmp_run s'"
| arrive: "igmp_run s \<Longrightarrow> igmp_may_arrive x s \<Longrightarrow> igmp_handleMessage x s = Inr s' \<Longrightarrow> igmp_run s'"
| tell: "igmp_run s \<Longrightarrow> igmp_may_tell x s \<Longrightarrow> igmp_receiveChangeNotification x s = Inr s' \<Longrightarrow> igmp_run s'"
| create: "igmp_run s \<Longrightarrow> fresh_interface ie s \<Longrightarrow>
    igmp_receiveChangeNotification (Igmp_interface_created ie) (s\<lparr>ig_ift := ig_ift s @ [ie]\<rparr>) = Inr s' \<Longrightarrow> igmp_run s'"
| delete: "igmp_run s \<Longrightarrow> find_interface (interfaceId ie) (ig_ift s) = Some ie \<Longrightarrow>
    igmp_receiveChangeNotification (Igmp_interface_deleted ie) s = Inr s' \<Longrightarrow> igmp_run (s'\<lparr>ig_ift := remove1 ie (ig_ift s')\<rparr>)"
| pass: "igmp_run s \<Longrightarrow> ig_now s \<le> t \<Longrightarrow> igmp_run (s\<lparr>ig_now := t\<rparr>)"

subsection \<open>Messages\<close>

lemma processGroupQuery_draws: "processGroupQuery r h s = Inr (h', s') \<Longrightarrow> draws_only s s'"
  by (auto simp: processGroupQuery_def startHostTimer_def Let_def split: host_group_state.splits option.splits if_splits)

lemma query_groups_draws: "query_groups r gs s = Inr (gs', s') \<Longrightarrow> draws_only s s'"
proof (induction r gs s arbitrary: gs' s' rule: query_groups.induct)
  case (2 r g h gs s)
  then obtain h' s1 gs1 where 1: "processGroupQuery r h s = Inr (h', s1)" "query_groups r gs s1 = Inr (gs1, s')"
    by (auto simp: bindE_eq_Inr mapE_eq_Inr)
  then show ?case using "2.IH"[OF 1(1) refl 1(2)] draws_only_trans[OF processGroupQuery_draws[OF 1(1)]] by blast
qed simp

lemma draws_only_fields:
  assumes "draws_only s s'"
  shows "routerData s' = routerData s \<and> ig_ift s' = ig_ift s \<and> ig_outs s' = ig_outs s"
  by (subst (1 2 3) assms[unfolded draws_only_def]) simp

lemma query_host_frame:
  assumes "query_host i m s = Inr s'"
  shows "routerData s' = routerData s" "ig_ift s' = ig_ift s" "ig_outs s' = ig_outs s"
  using assms
  by (auto simp: query_host_def igmp_data mapE_eq_Inr split: if_splits option.splits
      dest!: processGroupQuery_draws query_groups_draws draws_only_fields)

lemma igmp_interface: "mcast_if s i \<Longrightarrow> \<exists>ie. find_interface i (ig_ift s) = Some ie \<and> ie_multicast ie"
  by (auto simp: mcast_if_def split: option.splits)

lemma processQuery_kept:
  assumes "igmp_inv (Collect (mcast_if s)) s" "mcast_if s i" "ig_enabled s"
  shows "if unknown_group i sender m s then processQuery i sender m s = Inl (NullPointer ''groupData'')
    else returns (kept s (Collect (mcast_if s))) (processQuery i sender m s)"
proof -
  let ?C = "Collect (mcast_if s)"
  obtain ie where ie: "find_interface i (ig_ift s) = Some ie" "ie_multicast ie" using igmp_interface[OF assms(2)] by auto
  obtain s1 where s1: "query_host i m s = Inr s1" "kept s ?C s1" using query_host_kept[OF assms(1,2)] by (auto simp: returns_def)
  note f = query_host_frame[OF s1(1)]
  have m: "mcast_if s1 = mcast_if s" "igmp_inv ?C s1" "ig_enabled s1" "active_router s1 = active_router s"
    using s1(2) assms(3) by (simp_all add: kept_def)
  have "router_of i s1 = router_of i s" "ip_data s1 i = ip_data s i" using f by (simp_all add: router_of_def ip_data_def)
  then have u: "unknown_group i sender m s1 = unknown_group i sender m s" using m(4) by (simp add: unknown_group_def)
  have eq: "processQuery i sender m s = (if ig_forwarding s1
      then if externalRouter s1 then Inr (ig_emit (Igmp_to_router m) s1) else query_router i sender m ie s1 else Inr s1)"
    using ie s1(1) by (simp add: processQuery_def ig_interface_def)
  show ?thesis
  proof (cases "active_router s1")
    case True
    then have "processQuery i sender m s = query_router i sender m ie s1" by (simp add: eq active_router_def)
    moreover have "kept s1 ?C s' \<Longrightarrow> kept s ?C s'" for s' using s1(2) by (rule kept_trans)
    ultimately show ?thesis
      using query_router_kept[OF m(2) True, of i ie sender m] assms(2) m(1) ie(1) f(2) u by (auto elim: returns_mono split: if_splits)
  next
    case False
    then have "\<not> unknown_group i sender m s" using u by (simp add: unknown_group_def)
    then show ?thesis using False m(3) s1(2) by (auto simp: eq active_router_def)
  qed
qed

lemma processV2Report_kept:
  assumes "igmp_inv (Collect (mcast_if s)) s" "mcast_if s i" "ig_enabled s" "routable_group (ig_groupAddress m)"
  shows "returns (kept s (Collect (mcast_if s))) (processV2Report i m s)"
proof -
  let ?C = "Collect (mcast_if s)"
  obtain ie where ie: "find_interface i (ig_ift s) = Some ie" "ie_multicast ie" using igmp_interface[OF assms(2)] by auto
  obtain s1 where s1: "report_host i (ig_groupAddress m) s = Inr s1" "kept s ?C s1"
    using report_host_kept[OF assms(1,2)] by (auto simp: returns_def)
  have m: "mcast_if s1 = mcast_if s" "igmp_inv ?C s1" "ig_enabled s1" using s1(2) assms(3) by (simp_all add: kept_def)
  have eq: "processV2Report i m s = (if ig_forwarding s1
      then if externalRouter s1 then Inr (ig_emit (Igmp_to_router m) s1) else report_router i (ig_groupAddress m) s1 else Inr s1)"
    using ie s1(1) by (simp add: processV2Report_def ig_interface_def)
  show ?thesis
  proof (cases "active_router s1")
    case True
    have "kept s1 ?C s' \<Longrightarrow> kept s ?C s'" for s' using s1(2) by (rule kept_trans)
    then show ?thesis using report_router_kept[OF m(2) True, of i "ig_groupAddress m"] assms(2,4) m(1) True
      by (auto simp: eq active_router_def elim: returns_mono)
  next
    case False
    then show ?thesis using m(3) s1(2) by (auto simp: eq active_router_def)
  qed
qed

lemma processLeave_kept:
  assumes "igmp_inv (Collect (mcast_if s)) s" "mcast_if s i" "ig_enabled s"
  shows "returns (kept s (Collect (mcast_if s))) (processLeave i m s)"
  using assms leave_router_kept[OF assms(1), of i "ig_groupAddress m"]
  by (auto simp: processLeave_def active_router_def kept_refl)

text \<open>The one message that the module cannot process.\<close>

fun hits_null :: "igmp_arrival \<Rightarrow> igmp \<Rightarrow> bool" where
  "hits_null (Igmp_from_ip i src m) s \<longleftrightarrow> ig_type m = IGMP_MEMBERSHIP_QUERY \<and> unknown_group i src m s"
| "hits_null x s \<longleftrightarrow> False"

lemma igmp_handleMessage_kept:
  assumes "igmp_ok s" "igmp_may_arrive x s"
  shows "if hits_null x s then igmp_handleMessage x s = Inl (NullPointer ''groupData'')
    else returns (kept s (Collect (mcast_if s))) (igmp_handleMessage x s)"
proof (cases "ig_enabled s")
  case False
  then have "\<not> hits_null x s" by (cases x) (auto simp: unknown_group_def active_router_def)
  then show ?thesis using False assms(1) by (simp add: igmp_handleMessage_def kept_refl)
next
  case en: True
  let ?C = "Collect (mcast_if s)"
  have router: "active_router s \<and> mcast_if s i" if "routerData s i \<noteq> None" for i
    using assms(1) that routers_on_None[of ?C s i] by (metis igmp_inv_def mem_Collect_eq)
  have group: "active_router s \<and> mcast_if s i" if "map_of (ri_groups (router_of i s)) g = Some r" for i g r
    using that router[of i] by (auto simp: router_of_def new_router_interface_def split: option.splits)
  have host: "mcast_if s i" if "map_of (host_of i s) g = Some h" for i g h
    using assms(1) that by (auto simp: igmp_inv_def hosts_ok_def host_of_def split: option.splits)
  show ?thesis
  proof (cases x)
    case (Igmp_query_timer i)
    then show ?thesis using en assms router[of i] processQueryTimer_kept[OF assms(1), of i] by (simp add: igmp_handleMessage_def)
  next
    case (Igmp_hostgroup_timer i g)
    then obtain h where "map_of (host_of i s) g = Some h" using assms(2) by (auto split: option.splits)
    then show ?thesis using Igmp_hostgroup_timer en host processHostGroupTimer_kept[OF assms(1), of i]
      by (simp add: igmp_handleMessage_def)
  next
    case (Igmp_leave_timer i g)
    then obtain r where "map_of (ri_groups (router_of i s)) g = Some r" using assms(2) by (auto split: option.splits)
    then show ?thesis using Igmp_leave_timer en group processLeaveTimer_kept[OF assms(1), of i g r]
      by (simp add: igmp_handleMessage_def)
  next
    case (Igmp_rexmt_timer i g)
    then obtain r where "map_of (ri_groups (router_of i s)) g = Some r" "scheduled (rg_rexmtTimer r)"
      using assms(2) by (auto split: option.splits)
    then show ?thesis using Igmp_rexmt_timer en group processRexmtTimer_kept[OF assms(1), of i g r]
      by (simp add: igmp_handleMessage_def)
  next
    case (Igmp_from_router m)
    then show ?thesis using en assms(1) by (simp add: igmp_handleMessage_def kept_refl)
  next
    case (Igmp_from_ip i src m)
    then have m: "mcast_if s i" "well_formed m" using assms(2) by simp_all
    have t: "IGMPV2_MEMBERSHIP_REPORT \<noteq> IGMP_MEMBERSHIP_QUERY" "IGMPV2_LEAVE_GROUP \<noteq> IGMP_MEMBERSHIP_QUERY"
      "IGMPV2_LEAVE_GROUP \<noteq> IGMPV2_MEMBERSHIP_REPORT"
      by (simp_all add: IGMP_MEMBERSHIP_QUERY_def IGMPV2_MEMBERSHIP_REPORT_def IGMPV2_LEAVE_GROUP_def)
    from m(2) consider "ig_type m = IGMP_MEMBERSHIP_QUERY"
      | "ig_type m = IGMPV2_MEMBERSHIP_REPORT" "routable_group (ig_groupAddress m)" | "ig_type m = IGMPV2_LEAVE_GROUP"
      by (auto simp: well_formed_def)
    then show ?thesis
    proof cases
      case 1
      then show ?thesis using en Igmp_from_ip processQuery_kept[OF assms(1) m(1) en, of src m]
        by (auto simp: igmp_handleMessage_def processIgmpMessage_def)
    next
      case 2
      then show ?thesis using en Igmp_from_ip processV2Report_kept[OF assms(1) m(1) en, of m] t
        by (auto simp: igmp_handleMessage_def processIgmpMessage_def)
    next
      case 3
      then show ?thesis using en Igmp_from_ip processLeave_kept[OF assms(1) m(1) en, of m] t
        by (auto simp: igmp_handleMessage_def processIgmpMessage_def)
    qed
  qed
qed

lemma configure_all_kept:
  assumes "igmp_inv C s" "distinct (map interfaceId ies)" "\<And>ie. ie \<in> set ies \<Longrightarrow> ie_multicast ie \<Longrightarrow> mcast_if s (interfaceId ie) \<and> interfaceId ie \<notin> C"
  shows "returns (\<lambda>s'. igmp_inv (C \<union> interfaceId ` {ie \<in> set ies. ie_multicast ie}) s' \<and> mcast_if s' = mcast_if s) (configure_all ies s)"
  using assms
proof (induction ies arbitrary: C s)
  case (Cons ie ies)
  show ?case
  proof (cases "ie_multicast ie")
    case True
    then have "mcast_if s (interfaceId ie)" "interfaceId ie \<notin> C" using Cons.prems(3)[of ie] by auto
    then obtain s1 where s1: "configureInterface (interfaceId ie) s = Inr s1" "igmp_inv (insert (interfaceId ie) C) s1" "mcast_if s1 = mcast_if s"
      using configureInterface_kept[OF Cons.prems(1)] by (auto simp: returns_def)
    have "insert (interfaceId ie) C \<union> interfaceId ` {ie \<in> set ies. ie_multicast ie} = C \<union> interfaceId ` {x \<in> set (ie # ies). ie_multicast x}"
      using True by auto
    moreover have "returns (\<lambda>s'. igmp_inv (insert (interfaceId ie) C \<union> interfaceId ` {ie \<in> set ies. ie_multicast ie}) s' \<and> mcast_if s' = mcast_if s1)
       (configure_all ies s1)"
      using Cons.prems(2,3) s1(3) by (intro Cons.IH[OF s1(2)]) (auto simp: image_iff)
    ultimately show ?thesis using s1 True by simp
  next
    case False
    then have "{x \<in> set (ie # ies). ie_multicast x} = {x \<in> set ies. ie_multicast x}" by auto
    then show ?thesis using False Cons.IH[OF Cons.prems(1)] Cons.prems(2,3) by simp
  qed
qed simp

lemma find_interface_distinct: "distinct (map interfaceId ies) \<Longrightarrow> ie \<in> set ies \<Longrightarrow> find_interface (interfaceId ie) ies = Some ie"
  by (induction ies) (auto simp: find_interface_def)

lemma find_interface_SomeD: "find_interface j ies = Some ie \<Longrightarrow> ie \<in> set ies \<and> interfaceId ie = j"
  by (induction ies) (auto simp: find_interface_def split: if_splits)

lemma mcast_ids:
  assumes "distinct (map interfaceId (ig_ift s))"
  shows "interfaceId ` {ie \<in> set (ig_ift s). ie_multicast ie} = Collect (mcast_if s)"
proof (intro set_eqI iffI)
  fix j assume "j \<in> interfaceId ` {ie \<in> set (ig_ift s). ie_multicast ie}"
  then show "j \<in> Collect (mcast_if s)" using find_interface_distinct[OF assms] by (auto simp: mcast_if_def)
next
  fix j assume "j \<in> Collect (mcast_if s)"
  then obtain ie where "find_interface j (ig_ift s) = Some ie" "ie_multicast ie" using igmp_interface by auto
  then show "j \<in> interfaceId ` {ie \<in> set (ig_ift s). ie_multicast ie}" using find_interface_SomeD by fastforce
qed

lemma igmp_initialize_ok:
  assumes "interfaces_ok s"
  shows "returns igmp_ok (igmp_initialize s)"
proof -
  let ?s = "s\<lparr>numGroups := 0, numHostGroups := 0, numRouterGroups := 0, hostData := Map.empty, routerData := Map.empty\<rparr>"
  have f: "mcast_if ?s = mcast_if s" "ip_data ?s = ip_data s" "listeners ?s = listeners s"
    by (simp_all add: fun_eq_iff mcast_if_def ip_data_def listeners_def)
  have d: "distinct (map interfaceId (ig_ift s))" using assms by (simp add: interfaces_ok_def)
  have "igmp_inv {} ?s" using assms f by (simp add: igmp_inv_def interfaces_ok_def hosts_ok_def routers_on_def)
  moreover have "mcast_if ?s (interfaceId ie)" if "ie \<in> set (ig_ift s)" "ie_multicast ie" for ie
    using mcast_ids[OF d] that f(1) by auto
  ultimately have "returns (\<lambda>s'. igmp_inv ({} \<union> interfaceId ` {ie \<in> set (ig_ift s). ie_multicast ie}) s' \<and> mcast_if s' = mcast_if ?s)
     (configure_all (ig_ift s) ?s)" using d by (intro configure_all_kept) auto
  then show ?thesis unfolding igmp_initialize_def mcast_ids[OF d] using f(1) by (auto elim: returns_mono)
qed

lemma igmp_tell_kept:
  assumes "igmp_ok s" "igmp_may_tell x s"
  shows "returns (kept s (Collect (mcast_if s))) (igmp_receiveChangeNotification x s)"
  using assms by (cases x) (auto simp: igmp_receiveChangeNotification_def intro!: multicastGroupJoined_kept multicastGroupLeft_kept)

lemma find_interface_append:
  "find_interface j (ies @ [ie]) = (case find_interface j ies of None \<Rightarrow> if interfaceId ie = j then Some ie else None | Some x \<Rightarrow> Some x)"
  by (induction ies) (simp_all add: find_interface_def)

lemma igmp_create_ok:
  assumes "igmp_ok s" "fresh_interface ie s"
  shows "returns igmp_ok (igmp_receiveChangeNotification (Igmp_interface_created ie) (s\<lparr>ig_ift := ig_ift s @ [ie]\<rparr>))"
proof -
  let ?s = "s\<lparr>ig_ift := ig_ift s @ [ie]\<rparr>" and ?i = "interfaceId ie" and ?C = "Collect (mcast_if s)"
  have new: "find_interface ?i (ig_ift s) = None"
    using assms(2) unfolding fresh_interface_def find_interface_def find_None_iff by (metis imageI)
  have m: "mcast_if ?s j = (if j = ?i then ie_multicast ie else mcast_if s j)"
    and l: "ip_data ?s j = (if j = ?i then ipv4Data ie else ip_data s j)" for j
    using new by (auto simp: mcast_if_def ip_data_def find_interface_append split: option.split)
  have l': "listeners ?s j = (if j = ?i then (case ipv4Data ie of None \<Rightarrow> [] | Some d \<Rightarrow> reportedMulticastGroups d) else listeners s j)" for j
    by (simp add: listeners_def l)
  have ni: "?i \<notin> ?C" using new by (simp add: mcast_if_def)
  have a: "active_router ?s = active_router s" by (simp add: active_router_def)
  have h: "hostData s ?i = None" using assms(1) ni by (cases "hostData s ?i") (auto simp: igmp_inv_def hosts_ok_def)
  have inv: "igmp_inv ?C ?s"
    using assms ni m l l' a h
    by (auto simp: igmp_inv_def interfaces_ok_def hosts_ok_def routers_on_def fresh_interface_def split: option.splits)
  show ?thesis
  proof (cases "ie_multicast ie")
    case True
    then have "mcast_if ?s ?i" using m by simp
    then have "returns (\<lambda>s'. igmp_inv (insert ?i ?C) s' \<and> mcast_if s' = mcast_if ?s) (configureInterface ?i ?s)"
      using configureInterface_kept[OF inv] ni by simp
    moreover have "j \<in> insert ?i ?C \<longleftrightarrow> j \<in> Collect (mcast_if ?s)" for j using m[of j] True by (cases "j = ?i") simp_all
    then have "insert ?i ?C = Collect (mcast_if ?s)" by (rule set_eqI)
    ultimately show ?thesis using True by (auto simp: igmp_receiveChangeNotification_def elim: returns_mono)
  next
    case False
    have "j \<in> Collect (mcast_if ?s) \<longleftrightarrow> j \<in> ?C" for j using m[of j] False ni by (cases "j = ?i") simp_all
    then have "Collect (mcast_if ?s) = ?C" by (rule set_eqI)
    then show ?thesis using False inv by (simp add: igmp_receiveChangeNotification_def)
  qed
qed

lemma find_interface_remove1:
  assumes "distinct (map interfaceId ies)" "ie \<in> set ies"
  shows "find_interface j (remove1 ie ies) = (if j = interfaceId ie then None else find_interface j ies)"
  using assms
proof (induction ies)
  case (Cons a ies)
  have "a \<noteq> ie \<Longrightarrow> interfaceId a \<noteq> interfaceId ie" using Cons.prems by (metis imageI list.map(2) list.set_map distinct.simps(2) set_ConsD)
  moreover have "find_interface (interfaceId a) ies = None"
    using Cons.prems(1) unfolding find_interface_def find_None_iff by (metis imageI list.map(2) list.set_map distinct.simps(2))
  ultimately show ?case using Cons by (auto simp: find_interface_def)
qed simp

lemma igmp_delete_ok:
  assumes "igmp_ok s" "find_interface (interfaceId ie) (ig_ift s) = Some ie"
  shows "returns (\<lambda>s'. igmp_ok (s'\<lparr>ig_ift := remove1 ie (ig_ift s')\<rparr>)) (igmp_receiveChangeNotification (Igmp_interface_deleted ie) s)"
proof -
  let ?i = "interfaceId ie" and ?C = "Collect (mcast_if s)"
  define s1 where "s1 = (if ie_multicast ie then deleteRouterInterfaceData ?i (deleteHostInterfaceData ?i s) else s)"
  let ?s = "s1\<lparr>ig_ift := remove1 ie (ig_ift s1)\<rparr>"
  have d: "distinct (map interfaceId (ig_ift s))" "ie \<in> set (ig_ift s)"
    using assms find_interface_SomeD[OF assms(2)] by (auto simp: igmp_inv_def interfaces_ok_def)
  have i: "ig_ift s1 = ig_ift s" "active_router ?s = active_router s"
    by (simp_all add: s1_def deleteRouterInterfaceData_def deleteHostInterfaceData_def active_router_def)
  have m: "mcast_if ?s j = (j \<noteq> ?i \<and> mcast_if s j)" "ip_data ?s j = (if j = ?i then None else ip_data s j)" for j
    using i(1) find_interface_remove1[OF d] by (auto simp: mcast_if_def ip_data_def split: option.split)
  have l: "listeners ?s j = (if j = ?i then [] else listeners s j)" for j using m(2) by (simp add: listeners_def)
  have mi: "mcast_if s ?i = ie_multicast ie" using assms(2) by (simp add: mcast_if_def)
  have hd: "hostData ?s j = (if j = ?i then None else hostData s j)" "routerData ?s j = (if j = ?i then None else routerData s j)" for j
    using assms(1) mi routers_on_None[of ?C s ?i]
    by (cases "hostData s j"; auto simp: s1_def deleteRouterInterfaceData_def deleteHostInterfaceData_def igmp_inv_def hosts_ok_def)+
  have "distinct (map interfaceId (ig_ift ?s))" using d(1) i(1) by (simp add: distinct_map distinct_remove1 inj_on_def notin_set_remove1)
  then have "igmp_ok ?s"
    using assms(1) unfolding igmp_inv_def interfaces_ok_def hosts_ok_def routers_on_def hd m l i(2) by (auto split: if_splits)
  then show ?thesis by (simp add: igmp_receiveChangeNotification_def s1_def)
qed

lemma kept_igmp_ok: "kept s (Collect (mcast_if s)) s' \<Longrightarrow> igmp_ok s'"
  by (simp add: kept_def)

lemma igmp_run_ok: "igmp_run s \<Longrightarrow> igmp_ok s"
proof (induction rule: igmp_run.induct)
  case (start s s')
  then show ?case using igmp_initialize_ok[of s] by (auto simp: returns_def)
next
  case (arrive s x s')
  then show ?case using igmp_handleMessage_kept[of s x] kept_igmp_ok by (auto simp: returns_def split: if_splits)
next
  case (tell s x s')
  then show ?case using igmp_tell_kept[of s x] kept_igmp_ok by (auto simp: returns_def)
next
  case (create s ie s')
  then show ?case using igmp_create_ok[of s ie] by (auto simp: returns_def)
next
  case (delete s ie s')
  then show ?case using igmp_delete_ok[of s ie] by (auto simp: returns_def)
qed simp

end
