(* ===== verification/Igmp_Runs.thy ===== *)
theory Igmp_Runs
  imports Igmp_Inv "HOL-Library.Multiset"
begin

text \<open>
  What the reachable states of IGMPv2 show: the one message that it cannot process, how long a group outlives its last
  member, which of the routers on a link is the querier, and which host tells that it leaves.
\<close>

section \<open>Failures\<close>

text \<open>
  C37. In a reachable state, a timer that runs or a well-formed message is processed to the end, with one exception: a router that
  is not the querier of the link, or that finds by this message that it is not, dereferences a null pointer when the query
  asks for a group that it has not heard of.\<close>

theorem igmp_fails_only_at_unknown_group:
  assumes "igmp_run s" "igmp_may_arrive x s"
  shows "igmp_handleMessage x s = Inl e \<longleftrightarrow> hits_null x s \<and> e = NullPointer ''groupData''"
  using igmp_handleMessage_kept[OF igmp_run_ok[OF assms(1)] assms(2)] by (auto simp: returns_def split: if_splits)

text \<open>A router with one interface, and a group.\<close>

definition link_interface :: "ip4 \<Rightarrow> interface_entry" where
  "link_interface a = \<lparr>interfaceId = 1, nwLayerGateIndex = 0, ie_mtu = 1500, ie_loopback = False, ie_broadcast = True, ie_multicast = True,
     ie_macAddr = 0, ipv4Data = Some (new_interface_data\<lparr>inetAddr := a\<rparr>)\<rparr>"

definition link_router :: "ip4 \<Rightarrow> igmp" where
  "link_router a = \<lparr>ig_ift = [link_interface a], ig_forwarding = True, ig_enabled = True, externalRouter = False,
     queryInterval = 125 * sec, queryResponseInterval = 10 * sec, groupMembershipInterval = 260 * sec,
     otherQuerierPresentInterval = 255 * sec, startupQueryInterval = 31 * sec, lastMemberQueryInterval = sec, lastMemberQueryCount = 2,
     unsolicitedReportInterval = 10 * sec, hostData = Map.empty, routerData = Map.empty, numGroups = 0, numHostGroups = 0,
     numRouterGroups = 0, ig_now = 0, ig_uniform = (\<lambda>_ t. t), ig_draws = 0, ig_outs = []\<rparr>"

definition a_group :: ip4 where "a_group = 0xE1000001"

lemma a_group_routable [simp]: "routable_group a_group" "isMulticast a_group" "\<not> isLinkLocalMulticast a_group" "\<not> ip4_isUnspecified a_group"
  by (simp_all add: routable_group_def a_group_def isMulticast_def isLinkLocalMulticast_def ip4_isUnspecified_def)

definition started :: "ip4 \<Rightarrow> igmp" where
  "started a = put_router 1 \<lparr>ri_groups = [], igmpRouterState = IGMP_RS_QUERIER, igmpQueryTimer = Some (Some (31 * sec))\<rparr>
     (ig_emit (the_query 1 0 (10 * sec)) (link_router a))"

lemma link_router_fields [simp]:
  "mcast_if (link_router a) 1" "ip_data (link_router a) 1 = Some (new_interface_data\<lparr>inetAddr := a\<rparr>)" "active_router (link_router a)"
  by (simp_all add: active_router_def link_router_def link_interface_def mcast_if_def ip_data_def find_interface_def)

lemma started_fields [simp]:
  "mcast_if (started a) 1" "ip_data (started a) 1 = Some (new_interface_data\<lparr>inetAddr := a\<rparr>)" "active_router (started a)"
  "router_of 1 (started a) = \<lparr>ri_groups = [], igmpRouterState = IGMP_RS_QUERIER, igmpQueryTimer = Some (Some (31 * sec))\<rparr>"
  by (simp_all add: started_def)

lemma started_run: "igmp_run (started a)"
proof (rule igmp_run.start)
  show "interfaces_ok (link_router a)"
    by (auto simp: interfaces_ok_def mcast_if_def ip_data_def listeners_def link_router_def link_interface_def find_interface_def
        new_interface_data_def split: if_splits)
  have "configureInterface 1 (link_router a) = Inr (started a)"
    unfolding returns_eq[symmetric] configureInterface_def igmp_data started_def
    by (simp add: Let_def ip4_isUnspecified_def) (simp add: link_router_def router_of_def new_router_interface_def)
  then show "igmp_initialize (link_router a) = Inr (started a)"
    by (simp add: igmp_initialize_def) (simp add: link_router_def link_interface_def)
qed

definition general_query :: "simtime \<Rightarrow> igmp_message" where
  "general_query t = \<lparr>ig_type = IGMP_MEMBERSHIP_QUERY, ig_maxRespTime = tenths t, ig_groupAddress = 0\<rparr>"

definition about_group :: "int \<Rightarrow> ip4 \<Rightarrow> igmp_message" where
  "about_group t g = \<lparr>ig_type = t, ig_maxRespTime = 0, ig_groupAddress = g\<rparr>"

lemma igmp_fails_only_at_unknown_group_witness:
  "igmp_handleMessage (Igmp_from_ip 1 0x0A000001 (about_group IGMP_MEMBERSHIP_QUERY a_group)) (started 0x0A000002)
     = Inl (NullPointer ''groupData'')"
  by (subst igmp_fails_only_at_unknown_group[OF started_run]) (simp_all add: about_group_def well_formed_def unknown_group_def)

section \<open>How long a group outlives its last member\<close>

lemma router_handlers:
  assumes "active_router s"
  shows "igmp_handleMessage (Igmp_rexmt_timer i g) s = processRexmtTimer i g s"
    "igmp_handleMessage (Igmp_leave_timer i g) s = processLeaveTimer i g s"
    "mcast_if s i \<Longrightarrow> igmp_handleMessage (Igmp_from_ip i src (about_group IGMPV2_LEAVE_GROUP g)) s = leave_router i g s"
  using assms igmp_interface[of s i]
  by (auto simp: igmp_handleMessage_def active_router_def processIgmpMessage_def processLeave_def about_group_def ig_interface_def
      IGMP_MEMBERSHIP_QUERY_def IGMPV2_MEMBERSHIP_REPORT_def IGMPV2_LEAVE_GROUP_def)

lemma with_group_fields [simp]:
  "router_of i (with_group i g r s) = (router_of i s)\<lparr>ri_groups := put_group g r (ri_groups (router_of i s))\<rparr>"
  "routerData (with_group i g r s) i = Some (router_of i (with_group i g r s))"
  "mcast_if (with_group i g r s) = mcast_if s" "ip_data (with_group i g r s) = ip_data s" "active_router (with_group i g r s) = active_router s"
  "ig_now (with_group i g r s) = ig_now s" "ig_outs (with_group i g r s) = ig_outs s"
  "lastMemberQueryInterval (with_group i g r s) = lastMemberQueryInterval s" "lastMemberQueryCount (with_group i g r s) = lastMemberQueryCount s"
  by (simp_all add: with_group_def)

lemma clock_fields [simp]:
  "router_of i (s\<lparr>ig_now := t\<rparr>) = router_of i s" "host_of i (s\<lparr>ig_now := t\<rparr>) = host_of i s" "ip_data (s\<lparr>ig_now := t\<rparr>) = ip_data s"
  "listeners (s\<lparr>ig_now := t\<rparr>) = listeners s" "active_router (s\<lparr>ig_now := t\<rparr>) = active_router s"
  by (simp_all add: router_of_def host_of_def ip_data_def listeners_def active_router_def fun_eq_iff)

text \<open>The timer for the next query of the group expires \<open>n\<close> times, each time when it is due.\<close>

fun queries_repeated :: "nat \<Rightarrow> int \<Rightarrow> ip4 \<Rightarrow> igmp \<Rightarrow> igmp res" where
  "queries_repeated 0 i g s = Inr s"
| "queries_repeated (Suc n) i g s =
     bindE (igmp_handleMessage (Igmp_rexmt_timer i g) (s\<lparr>ig_now := ig_now s + lastMemberQueryInterval s\<rparr>)) (queries_repeated n i g)"

text \<open>A group that the router checks: when it is given up, and when its next query is due.\<close>

definition under_check :: "int \<Rightarrow> ip4 \<Rightarrow> simtime \<Rightarrow> simtime \<Rightarrow> igmp \<Rightarrow> bool" where
  "under_check i g t u s \<longleftrightarrow> active_router s \<and> mcast_if s i \<and> routable_group g \<and> routerData s i \<noteq> None
     \<and> igmpRouterState (router_of i s) = IGMP_RS_QUERIER
     \<and> (\<exists>r. map_of (ri_groups (router_of i s)) g = Some r \<and> rg_state r = IGMP_RGS_CHECKING_MEMBERSHIP
          \<and> rg_timer r = Some (Some t) \<and> rg_rexmtTimer r = Some (Some u))"

lemma router_of_Some: "routerData s i \<noteq> None \<Longrightarrow> routerData s i = Some (router_of i s)"
  by (auto simp: router_of_def)

lemma query_repeated:
  assumes "under_check i g t u s"
  shows "\<exists>s'. igmp_handleMessage (Igmp_rexmt_timer i g) s = Inr s' \<and> under_check i g t (ig_now s + lastMemberQueryInterval s) s'
     \<and> ig_outs s' = ig_outs s @ [the_query i g (lastMemberQueryInterval s)] \<and> ig_now s' = ig_now s
     \<and> lastMemberQueryInterval s' = lastMemberQueryInterval s \<and> ip_data s' = ip_data s"
proof -
  obtain r where r: "map_of (ri_groups (router_of i s)) g = Some r" "rg_state r = IGMP_RGS_CHECKING_MEMBERSHIP"
    "rg_timer r = Some (Some t)" "rg_rexmtTimer r = Some (Some u)" using assms by (auto simp: under_check_def)
  have d: "routerData s i = Some (router_of i s)" "active_router s" "mcast_if s i" "routable_group g"
    "igmpRouterState (router_of i s) = IGMP_RS_QUERIER"
    using assms router_of_Some[of s i] by (simp_all add: under_check_def)
  have "rg_rexmtTimer r \<noteq> None" using r(4) by simp
  then show ?thesis using r d processRexmtTimer_eq[OF d(1,3,4) r(1)] by (simp add: router_handlers under_check_def)
qed

lemma queries_repeated_n:
  assumes "under_check i g t (ig_now s + lastMemberQueryInterval s) s"
  shows "\<exists>s'. queries_repeated n i g s = Inr s' \<and> under_check i g t (ig_now s + lastMemberQueryInterval s * (int n + 1)) s'
     \<and> ig_outs s' = ig_outs s @ replicate n (the_query i g (lastMemberQueryInterval s))
     \<and> ig_now s' = ig_now s + lastMemberQueryInterval s * int n
     \<and> lastMemberQueryInterval s' = lastMemberQueryInterval s \<and> ip_data s' = ip_data s"
  using assms
proof (induction n arbitrary: s)
  case (Suc n)
  let ?s = "s\<lparr>ig_now := ig_now s + lastMemberQueryInterval s\<rparr>"
  have "under_check i g t (ig_now s + lastMemberQueryInterval s) ?s" using Suc.prems by (simp add: under_check_def)
  from query_repeated[OF this] obtain s1 where s1: "igmp_handleMessage (Igmp_rexmt_timer i g) ?s = Inr s1"
    "under_check i g t (ig_now ?s + lastMemberQueryInterval s) s1" "ig_outs s1 = ig_outs s @ [the_query i g (lastMemberQueryInterval s)]"
    "ig_now s1 = ig_now s + lastMemberQueryInterval s" "lastMemberQueryInterval s1 = lastMemberQueryInterval s" "ip_data s1 = ip_data s"
    by auto
  from Suc.IH[of s1] s1 obtain s2 where "queries_repeated n i g s1 = Inr s2"
    "under_check i g t (ig_now s1 + lastMemberQueryInterval s * (int n + 1)) s2"
    "ig_outs s2 = ig_outs s1 @ replicate n (the_query i g (lastMemberQueryInterval s))"
    "ig_now s2 = ig_now s1 + lastMemberQueryInterval s * int n" "lastMemberQueryInterval s2 = lastMemberQueryInterval s" "ip_data s2 = ip_data s1"
    by auto
  then show ?case using s1 by (auto simp: algebra_simps)
qed (simp add: under_check_def)

lemma leave_starts_check:
  assumes "active_router s" "mcast_if s i" "routerData s i \<noteq> None" "map_of (ri_groups (router_of i s)) g = Some r"
    "router_group_ok L (g, r)" "rg_state r = IGMP_RGS_MEMBERS_PRESENT" "igmpRouterState (router_of i s) = IGMP_RS_QUERIER"
  shows "\<exists>s'. igmp_handleMessage (Igmp_from_ip i src (about_group IGMPV2_LEAVE_GROUP g)) s = Inr s'
     \<and> under_check i g (ig_now s + lastMemberQueryInterval s * lastMemberQueryCount s) (ig_now s + lastMemberQueryInterval s) s'
     \<and> ig_outs s' = ig_outs s @ [the_query i g (lastMemberQueryInterval s)] \<and> ig_now s' = ig_now s
     \<and> lastMemberQueryInterval s' = lastMemberQueryInterval s \<and> ip_data s' = ip_data s"
proof -
  have "routable_group g" "rg_timer r \<noteq> None" "rg_rexmtTimer r \<noteq> None" using assms(5) by (auto elim: router_group_cases)
  from leave_router_eq[OF router_of_Some[OF assms(3)] assms(2) this(1) assms(4) this(2,3)] this(1) show ?thesis
    using assms by (simp add: router_handlers under_check_def)
qed

lemma leave_timer_ends_check:
  assumes "under_check i g t u s" "ip_data s i = Some dat" "distinct (reportedMulticastGroups dat)"
  shows "\<exists>s'. igmp_handleMessage (Igmp_leave_timer i g) (s\<lparr>ig_now := v\<rparr>) = Inr s' \<and> ig_outs s' = ig_outs s @ [Mcast_unregistered i g]
     \<and> map_of (ri_groups (router_of i s')) g = None \<and> g \<notin> set (listeners s' i)"
proof -
  let ?s = "s\<lparr>ig_now := v\<rparr>"
  obtain r where r: "map_of (ri_groups (router_of i s)) g = Some r" "rg_rexmtTimer r = Some (Some u)"
    using assms(1) by (auto simp: under_check_def)
  have d: "active_router ?s" "routerData ?s i = Some (router_of i ?s)" "ip_data ?s i = Some dat"
    using assms(1,2) router_of_Some[of s i] by (simp_all add: under_check_def)
  then have "igmp_handleMessage (Igmp_leave_timer i g) ?s = processLeaveTimer i g ?s" by (simp add: router_handlers)
  then show ?thesis using processLeaveTimer_eq[OF d(2,3), of g r] r assms(2,3)
    by (simp add: listeners_def removeMulticastListener_def)
qed

text \<open>
  In every reachable state, a router takes part in the election of each link: it is querier or not, and a timer runs that will
  make it send a query.  Every group that it remembers is on the list of listeners of the interface, and a timer runs that will
  end the group unless a report comes; the timer for further queries runs only while the router checks for members.\<close>

theorem router_groups_are_timed_listeners:
  assumes "igmp_run s" "active_router s" "mcast_if s i"
  shows "\<exists>d. routerData s i = Some d \<and> igmpRouterState d \<in> {IGMP_RS_QUERIER, IGMP_RS_NON_QUERIER} \<and> scheduled (igmpQueryTimer d)
     \<and> sorted_wrt (<) (map fst (ri_groups d))
     \<and> list_all (\<lambda>(g, r). g \<in> set (listeners s i) \<and> scheduled (rg_timer r)
          \<and> (rg_state r = IGMP_RGS_MEMBERS_PRESENT \<and> \<not> scheduled (rg_rexmtTimer r) \<or> rg_state r = IGMP_RGS_CHECKING_MEMBERSHIP)) (ri_groups d)"
proof -
  have d: "routerData s i = Some (router_of i s)" "router_if_ok (listeners s i) (router_of i s)"
    using router_of_ok[OF igmp_run_ok[OF assms(1)] assms(2)] assms(3) by simp_all
  have "igmpRouterState (router_of i s) \<in> {IGMP_RS_QUERIER, IGMP_RS_NON_QUERIER}" using d(2) by (rule router_state_cases) simp_all
  moreover have "list_all (\<lambda>(g, r). g \<in> set (listeners s i) \<and> scheduled (rg_timer r)
      \<and> (rg_state r = IGMP_RGS_MEMBERS_PRESENT \<and> \<not> scheduled (rg_rexmtTimer r) \<or> rg_state r = IGMP_RGS_CHECKING_MEMBERSHIP)) (ri_groups (router_of i s))"
    using d(2) unfolding router_if_ok_def list_all_iff by (auto elim!: router_group_cases)
  ultimately show ?thesis using d by (auto simp: router_if_ok_def)
qed

text \<open>
  C38. When a host tells the querier of a link that it leaves a group, and no member of the group reports, the querier asks for the
  members \<open>lastMemberQueryCount\<close> times, at intervals of \<open>lastMemberQueryInterval\<close>, the first time at once; then, after as
  many intervals, it forgets the group, takes it off the list of listeners of the interface and tells the routing protocols.
  (At that moment a further query is due as well, but the timer that ends the group was set before.)\<close>

theorem leave_takes_effect:
  assumes "igmp_run s" "active_router s" "mcast_if s i" "map_of (ri_groups (router_of i s)) g = Some r"
    "rg_state r = IGMP_RGS_MEMBERS_PRESENT" "igmpRouterState (router_of i s) = IGMP_RS_QUERIER" "lastMemberQueryCount s = int n + 1"
  shows "\<exists>s1 s2 s3 t.
     igmp_handleMessage (Igmp_from_ip i src (about_group IGMPV2_LEAVE_GROUP g)) s = Inr s1 \<and> queries_repeated n i g s1 = Inr s2
     \<and> ig_outs s2 = ig_outs s @ replicate (n + 1) (the_query i g (lastMemberQueryInterval s))
     \<and> t = ig_now s + lastMemberQueryInterval s * lastMemberQueryCount s \<and> t = ig_now s2 + lastMemberQueryInterval s \<and> under_check i g t t s2
     \<and> igmp_handleMessage (Igmp_leave_timer i g) (s2\<lparr>ig_now := t\<rparr>) = Inr s3 \<and> ig_outs s3 = ig_outs s2 @ [Mcast_unregistered i g]
     \<and> map_of (ri_groups (router_of i s3)) g = None \<and> g \<notin> set (listeners s3 i)"
proof -
  have ok: "igmp_ok s" using assms(1) by (rule igmp_run_ok)
  then have d: "routerData s i \<noteq> None" "router_group_ok (listeners s i) (g, r)"
    using router_of_ok(1)[OF ok assms(2)] group_on_router[OF ok assms(2) _ assms(4)] assms(3) by auto
  obtain dat where dat: "ip_data s i = Some dat" "distinct (reportedMulticastGroups dat)" using interface_data[OF ok assms(3)] .
  let ?q = "lastMemberQueryInterval s" let ?t = "ig_now s + ?q * lastMemberQueryCount s"
  obtain s1 where s1: "igmp_handleMessage (Igmp_from_ip i src (about_group IGMPV2_LEAVE_GROUP g)) s = Inr s1"
    "under_check i g ?t (ig_now s + ?q) s1" "ig_outs s1 = ig_outs s @ [the_query i g ?q]" "ig_now s1 = ig_now s"
    "lastMemberQueryInterval s1 = ?q" "ip_data s1 = ip_data s"
    using leave_starts_check[OF assms(2,3) d(1) assms(4) d(2) assms(5,6)] by blast
  have "under_check i g ?t (ig_now s1 + lastMemberQueryInterval s1) s1" using s1 by simp
  from queries_repeated_n[OF this, of n] s1 obtain s2 where s2: "queries_repeated n i g s1 = Inr s2"
    "under_check i g ?t (ig_now s + ?q * (int n + 1)) s2" "ig_outs s2 = ig_outs s1 @ replicate n (the_query i g ?q)"
    "ig_now s2 = ig_now s + ?q * int n" "ip_data s2 = ip_data s"
    by auto
  have t: "ig_now s + ?q * (int n + 1) = ?t" "?t = ig_now s2 + ?q" using s2(4) assms(7) by (simp_all add: algebra_simps)
  have o: "ig_outs s2 = ig_outs s @ replicate (n + 1) (the_query i g ?q)" using s2(3) s1(3) by simp
  have dat2: "ip_data s2 i = Some dat" using dat(1) s2(5) by simp
  show ?thesis using s1(1) s2(1,2) t o leave_timer_ends_check[OF s2(2) dat2 dat(2), of ?t] by auto
qed

text \<open>The router after a report for the group.\<close>

definition with_member :: "ip4 \<Rightarrow> igmp" where
  "with_member a = put_router 1 \<lparr>ri_groups = [(a_group, heard_group (260 * sec))], igmpRouterState = IGMP_RS_QUERIER,
       igmpQueryTimer = Some (Some (31 * sec))\<rparr>
     (set_ip_data 1 (add_listener a_group (new_interface_data\<lparr>inetAddr := a\<rparr>))
       (let s = put_host 1 [] (started a) in
        ig_emit (Mcast_registered 1 a_group) (s\<lparr>numGroups := numGroups s + 1\<rparr>)\<lparr>numRouterGroups := numRouterGroups s + 1\<rparr>))"

lemma with_member_fields [simp]:
  "active_router (with_member a)" "mcast_if (with_member a) 1" "ig_now (with_member a) = 0"
  "lastMemberQueryInterval (with_member a) = sec" "lastMemberQueryCount (with_member a) = 2"
  "router_of 1 (with_member a) = \<lparr>ri_groups = [(a_group, heard_group (260 * sec))], igmpRouterState = IGMP_RS_QUERIER,
       igmpQueryTimer = Some (Some (31 * sec))\<rparr>"
  by (simp_all add: with_member_def)
    (simp_all add: set_ip_data_def started_def ig_emit_def put_router_def put_host_def link_router_def active_router_def)

lemma with_member_run: "igmp_run (with_member a)"
proof (rule igmp_run.arrive[OF started_run])
  let ?x = "Igmp_from_ip 1 0 (about_group IGMPV2_MEMBERSHIP_REPORT a_group)"
  show "igmp_may_arrive ?x (started a)" by (simp add: about_group_def well_formed_def)
  have "report_host 1 a_group (started a) = Inr (put_host 1 [] (started a))"
    by (simp add: report_host_def igmp_data started_def) (simp add: host_of_def link_router_def)
  moreover have "report_router 1 a_group (put_host 1 [] (started a)) = Inr (with_member a)"
    using report_router_new[of "put_host 1 [] (started a)" 1 "new_interface_data\<lparr>inetAddr := a\<rparr>" a_group]
    by (simp add: with_member_def) (simp add: started_def link_router_def)
  moreover have "ig_enabled (started a)" "ig_forwarding (started a)" "\<not> externalRouter (started a)"
    using started_fields(3)[of a] by (simp_all add: active_router_def)
  ultimately show "igmp_handleMessage ?x (started a) = Inr (with_member a)"
    using igmp_interface[OF started_fields(1)[of a]]
    by (auto simp: igmp_handleMessage_def processIgmpMessage_def processV2Report_def about_group_def ig_interface_def
        IGMP_MEMBERSHIP_QUERY_def IGMPV2_MEMBERSHIP_REPORT_def)
qed

lemma leave_takes_effect_witness:
  "\<exists>s1 s2 s3. igmp_handleMessage (Igmp_from_ip 1 0 (about_group IGMPV2_LEAVE_GROUP a_group)) (with_member 0x0A000002) = Inr s1
     \<and> queries_repeated 1 1 a_group s1 = Inr s2 \<and> ig_outs s2 = ig_outs (with_member 0x0A000002) @ replicate 2 (the_query 1 a_group sec)
     \<and> igmp_handleMessage (Igmp_leave_timer 1 a_group) (s2\<lparr>ig_now := 2 * sec\<rparr>) = Inr s3 \<and> a_group \<notin> set (listeners s3 1)"
  using leave_takes_effect[OF with_member_run[of "0x0A000002"], where i = 1 and g = a_group and r = "heard_group (260 * sec)" and n = 1 and src = 0]
  by (simp add: heard_group_def numeral_2_eq_2) (metis mult.commute)

section \<open>The querier of a link\<close>

definition address_of :: "igmp \<Rightarrow> int \<Rightarrow> ip4" where
  "address_of s i = (case ip_data s i of None \<Rightarrow> 0 | Some d \<Rightarrow> inetAddr d)"

text \<open>A router that is the querier on its interface to the link.\<close>

definition querying :: "igmp \<times> int \<Rightarrow> bool" where
  "querying = (\<lambda>(s, i). igmp_run s \<and> active_router s \<and> mcast_if s i \<and> igmpRouterState (router_of i s) = IGMP_RS_QUERIER)"

fun hear_queries :: "int \<Rightarrow> (ip4 \<times> igmp_message) list \<Rightarrow> igmp \<Rightarrow> igmp res" where
  "hear_queries i [] s = Inr s"
| "hear_queries i ((src, m) # qs) s = bindE (igmp_handleMessage (Igmp_from_ip i src m) s) (hear_queries i qs)"

definition queries_of_others :: "(igmp \<times> int) list \<Rightarrow> igmp \<Rightarrow> int \<Rightarrow> (ip4 \<times> igmp_message) list" where
  "queries_of_others rs s i =
     map (\<lambda>(t, j). (address_of t j, general_query (queryResponseInterval t))) (remove1 (s, i) rs)"

lemma general_query_heard:
  assumes "igmp_run s" "active_router s" "mcast_if s i"
  shows "\<exists>s'. igmp_handleMessage (Igmp_from_ip i src (general_query t)) s = Inr s' \<and> igmp_run s' \<and> active_router s' \<and> mcast_if s' i
     \<and> address_of s' i = address_of s i
     \<and> igmpRouterState (router_of i s') = (if src < address_of s i then IGMP_RS_NON_QUERIER else igmpRouterState (router_of i s))"
proof -
  let ?m = "general_query t"
  have ok: "igmp_ok s" using assms(1) by (rule igmp_run_ok)
  obtain ie where ie: "find_interface i (ig_ift s) = Some ie" "ie_multicast ie" using igmp_interface[OF assms(3)] by auto
  obtain dat where dat: "ip_data s i = Some dat" using interface_data[OF ok assms(3)] .
  obtain s1 where s1: "query_host i ?m s = Inr s1" "kept s (Collect (mcast_if s)) s1" using query_host_kept[OF ok assms(3)] by (auto simp: returns_def)
  note f = query_host_frame[OF s1(1)]
  have a: "active_router s1" "mcast_if s1 i" "igmp_inv (Collect (mcast_if s)) s1" using s1(2) assms(2,3) by (simp_all add: kept_def)
  have r: "router_of i s1 = router_of i s" "ip_data s1 i = Some dat" using f dat by (simp_all add: router_of_def ip_data_def)
  have q: "routerData s1 i = Some (router_of i s1)" "igmpQueryTimer (router_of i s1) \<noteq> None"
    using router_of_ok[OF a(3,1)] assms(3) query_timer_runs by fastforce+
  have "ipv4Data ie = Some dat" using dat ie by (simp add: ip_data_def)
  then have "query_router i src ?m ie s1 = Inr (heard_querier i src (inetAddr dat) s1)"
    using query_router_eq[OF q(1) _ q(2), of ie dat src ?m] by (simp add: general_query_def ip4_isUnspecified_def Let_def)
  then have h: "igmp_handleMessage (Igmp_from_ip i src ?m) s = Inr (heard_querier i src (inetAddr dat) s1)"
    using assms(2) a(1) ie s1(1)
    by (simp add: igmp_handleMessage_def processIgmpMessage_def processQuery_def ig_interface_def active_router_def general_query_def)
  moreover have "igmp_may_arrive (Igmp_from_ip i src ?m) s"
    using assms(3) by (simp add: well_formed_def general_query_def ip4_isUnspecified_def)
  then have "igmp_run (heard_querier i src (inetAddr dat) s1)" using igmp_run.arrive[OF assms(1) _ h] by simp
  ultimately show ?thesis using a r dat by (auto simp: address_of_def heard_querier_def)
qed

lemma queries_heard:
  assumes "igmp_run s" "active_router s" "mcast_if s i" "list_all (\<lambda>q. \<exists>t. snd q = general_query t) qs"
  shows "\<exists>s'. hear_queries i qs s = Inr s' \<and> igmpRouterState (router_of i s') =
     (if \<exists>src\<in>fst ` set qs. src < address_of s i then IGMP_RS_NON_QUERIER else igmpRouterState (router_of i s))"
  using assms
proof (induction qs arbitrary: s)
  case (Cons q qs)
  obtain src t where q: "q = (src, general_query t)" using Cons.prems(4) by (cases q) auto
  from general_query_heard[OF Cons.prems(1-3), of src t] obtain s1 where
    s1: "igmp_handleMessage (Igmp_from_ip i src (general_query t)) s = Inr s1" "igmp_run s1" "active_router s1" "mcast_if s1 i"
     "address_of s1 i = address_of s i"
     "igmpRouterState (router_of i s1) = (if src < address_of s i then IGMP_RS_NON_QUERIER else igmpRouterState (router_of i s))"
    by blast
  have "list_all (\<lambda>q. \<exists>t. snd q = general_query t) qs" using Cons.prems(4) by simp
  from Cons.IH[OF s1(2-4) this] show ?case using s1 by (force simp: q)
qed simp

text \<open>
  C39. On a link of routers that all start as querier, let every router hear the general queries of all others, in any order.
  Then a router is still querier exactly if its address is the lowest of the link; where the addresses differ, the link has
  one querier.\<close>

theorem lowest_router_is_the_querier:
  assumes "list_all querying rs" "(s, i) \<in> set rs" "mset qs = mset (queries_of_others rs s i)"
  shows "\<exists>s'. hear_queries i qs s = Inr s' \<and>
     igmpRouterState (router_of i s') = (if address_of s i = Min ((\<lambda>(t, j). address_of t j) ` set rs) then IGMP_RS_QUERIER else IGMP_RS_NON_QUERIER)"
proof -
  let ?A = "(\<lambda>(t, j). address_of t j) ` set rs"
  have s: "igmp_run s" "active_router s" "mcast_if s i" "igmpRouterState (router_of i s) = IGMP_RS_QUERIER"
    using assms(1,2) by (auto simp: list_all_iff querying_def)
  have qs: "set qs = set (queries_of_others rs s i)" using assms(3) by (rule mset_eq_setD)
  have "list_all (\<lambda>q. \<exists>t. snd q = general_query t) qs" unfolding list_all_iff qs by (auto simp: queries_of_others_def)
  from queries_heard[OF s(1-3) this] obtain s' where s': "hear_queries i qs s = Inr s'"
    "igmpRouterState (router_of i s') = (if \<exists>src\<in>fst ` set qs. src < address_of s i then IGMP_RS_NON_QUERIER else IGMP_RS_QUERIER)"
    using s(4) by auto
  have others: "fst ` set qs = (\<lambda>(t, j). address_of t j) ` set (remove1 (s, i) rs)"
    unfolding qs by (force simp: queries_of_others_def)
  have "set rs \<subseteq> insert (s, i) (set (remove1 (s, i) rs))" by (metis in_set_remove1 insertI1 insertI2 subsetI)
  then have A: "fst ` set qs \<subseteq> ?A" "?A \<subseteq> insert (address_of s i) (fst ` set qs)"
    unfolding others using set_remove1_subset[of "(s, i)" rs] by fastforce+
  have m: "Min ?A \<in> ?A" "\<And>a. a \<in> ?A \<Longrightarrow> Min ?A \<le> a" using assms(2) by (auto intro!: Min_in Min_le)
  have "Min ?A \<le> address_of s i" using assms(2) by (intro m(2)) force
  moreover have "address_of s i \<noteq> Min ?A" if "src \<in> fst ` set qs" "src < address_of s i" for src
    using m(2)[OF subsetD[OF A(1) that(1)]] that(2) by (metis leD)
  moreover have "Min ?A \<in> fst ` set qs" if "address_of s i \<noteq> Min ?A" using subsetD[OF A(2) m(1)] by (rule insertE) (use that in auto)
  ultimately have "(\<exists>src\<in>fst ` set qs. src < address_of s i) \<longleftrightarrow> address_of s i \<noteq> Min ?A"
    by (metis order_le_less)
  then show ?thesis using s' by auto
qed

lemma lowest_router_is_the_querier_witness:
  "\<exists>s'. hear_queries 1 [(0x0A000001, general_query (10 * sec)), (0x0A000003, general_query (10 * sec))] (started 0x0A000002) = Inr s'
     \<and> igmpRouterState (router_of 1 s') = IGMP_RS_NON_QUERIER"
proof -
  let ?rs = "map (\<lambda>a. (started a, 1)) [0x0A000001, 0x0A000002, 0x0A000003]"
  have q: "queryResponseInterval (started a) = 10 * sec" "address_of (started a) 1 = a" for a
    by (simp_all add: started_def) (simp_all add: link_router_def address_of_def link_interface_def ip_data_def find_interface_def ig_emit_def put_router_def)
  have ne: "started 0x0A000001 \<noteq> started 0x0A000002"
  proof
    assume "started 0x0A000001 = started 0x0A000002"
    then have "address_of (started 0x0A000001) 1 = address_of (started 0x0A000002) 1" by (rule arg_cong)
    then show False by (simp add: q(2))
  qed
  have "list_all querying ?rs" by (simp add: querying_def started_run)
  moreover have "queries_of_others ?rs (started 0x0A000002) 1 = [(0x0A000001, general_query (10 * sec)), (0x0A000003, general_query (10 * sec))]"
    using ne by (simp add: queries_of_others_def q)
  ultimately show ?thesis using lowest_router_is_the_querier[of ?rs "started 0x0A000002" 1] by (simp add: q del: hear_queries.simps)
qed

section \<open>The host that leaves\<close>

subsection \<open>What routers leave alone\<close>

lemma sendQuery_frame: "sendQuery i g t s = Inr s' \<Longrightarrow> hostData s' = hostData s"
  by (auto simp: sendQuery_def igmp_data ig_sendToIP_def Let_def assertE_eq_Inr bindE_eq_Inr ig_emit_def put_router_def split: if_splits)

lemma change_listeners_frame: "change_listeners f i s = Inr s' \<Longrightarrow> hostData s' = hostData s"
  by (auto simp: change_listeners_def bindE_eq_Inr mapE_eq_Inr)

lemma router_frame:
  "processQueryTimer i s = Inr s' \<Longrightarrow> hostData s' = hostData s" "processRexmtTimer i g s = Inr s' \<Longrightarrow> hostData s' = hostData s"
  "processLeaveTimer i g s = Inr s' \<Longrightarrow> hostData s' = hostData s"
  "leave_router i g s = Inr s' \<Longrightarrow> hostData s' = hostData s"
proof -
  show "processQueryTimer i s = Inr s' \<Longrightarrow> hostData s' = hostData s"
    by (auto simp: processQueryTimer_def igmp_data Let_def bindE_eq_Inr mapE_eq_Inr split: if_splits dest!: sendQuery_frame)
  show "processRexmtTimer i g s = Inr s' \<Longrightarrow> hostData s' = hostData s"
    by (auto simp: processRexmtTimer_def igmp_data Let_def bindE_eq_Inr mapE_eq_Inr split: option.splits dest!: sendQuery_frame)
  show "processLeaveTimer i g s = Inr s' \<Longrightarrow> hostData s' = hostData s"
    by (auto simp: processLeaveTimer_def igmp_data Let_def bindE_eq_Inr mapE_eq_Inr ig_emit_def split: option.splits if_splits
        dest!: change_listeners_frame)
  show "leave_router i g s = Inr s' \<Longrightarrow> hostData s' = hostData s"
    by (auto simp: leave_router_def igmp_data Let_def bindE_eq_Inr mapE_eq_Inr split: option.splits if_splits dest!: sendQuery_frame)
qed

lemma report_router_frame:
  assumes "igmp_inv C s" "active_router s" "i \<in> C" "mcast_if s i" "routable_group g" "report_router i g s = Inr s'"
  shows "hostData s' = hostData s"
proof -
  obtain dat where dat: "ip_data s i = Some dat" using interface_data[OF assms(1,4)] .
  note d = router_of_ok(1)[OF assms(1-3)]
  show ?thesis
  proof (cases "map_of (ri_groups (router_of i s)) g")
    case None
    then show ?thesis using report_router_new[OF d dat _ None] assms(5,6) by (auto simp: routable_group_def ig_emit_def)
  next
    case (Some r)
    then show ?thesis using report_router_again[OF d Some group_on_router[OF assms(1-3) Some]] assms(6) by (auto simp: with_group_def)
  qed
qed

lemma query_router_frame:
  assumes "igmp_inv C s" "active_router s" "i \<in> C" "mcast_if s i" "find_interface i (ig_ift s) = Some ie" "query_router i src m ie s = Inr s'"
  shows "hostData s' = hostData s"
proof -
  obtain dat where dat: "ip_data s i = Some dat" using interface_data[OF assms(1,4)] .
  then have ie: "ipv4Data ie = Some dat" using assms(5) by (simp add: ip_data_def)
  note d = router_of_ok[OF assms(1-3)]
  then have q: "igmpQueryTimer (router_of i s) \<noteq> None" using query_timer_runs by fastforce
  have "hostData (heard_querier i src a s) = hostData s" for a by (simp add: heard_querier_def)
  then show ?thesis using assms(6) query_router_eq[OF d(1) ie q, of src m]
    by (auto simp: Let_def with_group_def mapE_eq_Inr split: if_splits option.splits)
qed

subsection \<open>The flag\<close>

text \<open>What a message or timer does to the flag of a group.\<close>

definition report_for :: "ip4 \<Rightarrow> igmp_message \<Rightarrow> bool" where
  "report_for g m \<longleftrightarrow> ig_type m = IGMPV2_MEMBERSHIP_REPORT \<and> ig_groupAddress m = g"

fun flag_after :: "int \<Rightarrow> ip4 \<Rightarrow> igmp_arrival \<Rightarrow> host_group \<Rightarrow> bool" where
  "flag_after i g (Igmp_hostgroup_timer j k) h \<longleftrightarrow> i = j \<and> g = k \<or> hg_flag h"
| "flag_after i g (Igmp_from_ip j src m) h \<longleftrightarrow> hg_flag h \<and> \<not> (i = j \<and> report_for g m \<and> hg_state h = IGMP_HGS_DELAYING_MEMBER)"
| "flag_after i g x h \<longleftrightarrow> hg_flag h"

definition same_flag :: "int \<Rightarrow> ip4 \<Rightarrow> bool \<Rightarrow> igmp \<Rightarrow> bool" where
  "same_flag i g b s \<longleftrightarrow> (\<exists>h. map_of (host_of i s) g = Some h \<and> hg_flag h = b)"

lemma same_flag_host: "hostData s' = hostData s \<Longrightarrow> same_flag i g b s' = same_flag i g b s"
  by (simp add: same_flag_def host_of_def)

lemma processGroupQuery_flag: "processGroupQuery r h s = Inr (h', s') \<Longrightarrow> hg_flag h' = hg_flag h"
  by (auto simp: processGroupQuery_def startHostTimer_def Let_def split: host_group_state.splits option.splits if_splits)

lemma query_groups_flag:
  "query_groups r gs s = Inr (gs', s') \<Longrightarrow> map_of gs g = Some h \<Longrightarrow> \<exists>h'. map_of gs' g = Some h' \<and> hg_flag h' = hg_flag h"
proof (induction r gs s arbitrary: gs' s' rule: query_groups.induct)
  case (2 r k x gs s)
  then obtain x' s1 gs1 where 1: "processGroupQuery r x s = Inr (x', s1)" "query_groups r gs s1 = Inr (gs1, s')" "gs' = (k, x') # gs1"
    by (auto simp: bindE_eq_Inr mapE_eq_Inr)
  then show ?case using "2.IH"[OF 1(1) refl 1(2)] processGroupQuery_flag[OF 1(1)] "2.prems"(2) by auto
qed simp

lemma query_host_flag:
  assumes "query_host j m s = Inr s'" "map_of (host_of i s) g = Some h"
  shows "same_flag i g (hg_flag h) s'"
proof -
  have d: "draws_only a b \<Longrightarrow> host_of i b = host_of i a" for a b by (rule draws_host_of)
  show ?thesis
  proof (cases "ip4_isUnspecified (ig_groupAddress m)")
    case True
    then obtain gs' b where q: "query_groups (ig_maxRespTime m) (host_of j s) (put_host j (host_of j s) s) = Inr (gs', b)" "s' = put_host j gs' b"
      using assms(1) by (auto simp: query_host_def igmp_data mapE_eq_Inr)
    then show ?thesis using query_groups_flag[OF q(1)] d[OF query_groups_draws[OF q(1)]] assms(2) by (auto simp: same_flag_def)
  next
    case False
    show ?thesis
    proof (cases "map_of (host_of j s) (ig_groupAddress m)")
      case None
      then show ?thesis using False assms by (auto simp: query_host_def igmp_data same_flag_def)
    next
      case (Some k)
      then obtain k' b where q: "processGroupQuery (ig_maxRespTime m) k (put_host j (host_of j s) s) = Inr (k', b)"
        "s' = set_host_group j (ig_groupAddress m) k' b" using False assms(1) by (auto simp: query_host_def igmp_data mapE_eq_Inr)
      then show ?thesis using processGroupQuery_flag[OF q(1)] draws_host_of[OF processGroupQuery_draws[OF q(1)]] assms(2) Some
        by (auto simp: same_flag_def igmp_data)
    qed
  qed
qed

lemma report_host_flag:
  assumes "report_host j k s = Inr s'" "map_of (host_of i s) g = Some h"
  shows "same_flag i g (hg_flag h \<and> \<not> (i = j \<and> g = k \<and> hg_state h = IGMP_HGS_DELAYING_MEMBER)) s'"
  using assms by (auto simp: report_host_def igmp_data same_flag_def mapE_eq_Inr split: option.splits if_splits)

lemma processQuery_flag:
  assumes "igmp_ok s" "ig_enabled s" "mcast_if s j" "processQuery j src m s = Inr s'" "map_of (host_of i s) g = Some h"
  shows "same_flag i g (hg_flag h) s'"
proof -
  obtain ie where ie: "find_interface j (ig_ift s) = Some ie" "ie_multicast ie" using igmp_interface[OF assms(3)] by auto
  obtain s1 where s1: "query_host j m s = Inr s1" "kept s (Collect (mcast_if s)) s1"
    using query_host_kept[OF assms(1,3)] by (auto simp: returns_def)
  have f: "same_flag i g (hg_flag h) s1" using s1(1) assms(5) by (rule query_host_flag)
  have "s' = s1 \<or> s' = ig_emit (Igmp_to_router m) s1 \<or> (active_router s1 \<and> query_router j src m ie s1 = Inr s')"
    using assms(2,4) ie s1 by (auto simp: processQuery_def ig_interface_def active_router_def kept_def split: if_splits)
  moreover have "hostData s' = hostData s1" if "active_router s1" "query_router j src m ie s1 = Inr s'"
    using query_router_frame[of "Collect (mcast_if s)", OF _ that(1) _ _ _ that(2)] s1(2) assms(3) ie(1) query_host_frame(2)[OF s1(1)] by (simp add: kept_def)
  ultimately have "hostData s' = hostData s1" by (auto simp: ig_emit_def)
  then show ?thesis using f same_flag_host by blast
qed

lemma processV2Report_flag:
  assumes "igmp_ok s" "ig_enabled s" "mcast_if s j" "processV2Report j m s = Inr s'" "routable_group (ig_groupAddress m)"
    "map_of (host_of i s) g = Some h"
  shows "same_flag i g (hg_flag h \<and> \<not> (i = j \<and> g = ig_groupAddress m \<and> hg_state h = IGMP_HGS_DELAYING_MEMBER)) s'"
proof -
  obtain ie where ie: "find_interface j (ig_ift s) = Some ie" "ie_multicast ie" using igmp_interface[OF assms(3)] by auto
  obtain s1 where s1: "report_host j (ig_groupAddress m) s = Inr s1" "kept s (Collect (mcast_if s)) s1"
    using report_host_kept[OF assms(1,3)] by (auto simp: returns_def)
  have "s' = s1 \<or> s' = ig_emit (Igmp_to_router m) s1 \<or> (active_router s1 \<and> report_router j (ig_groupAddress m) s1 = Inr s')"
    using assms(2,4) ie s1 by (auto simp: processV2Report_def ig_interface_def active_router_def kept_def split: if_splits)
  moreover have "hostData s' = hostData s1" if "active_router s1" "report_router j (ig_groupAddress m) s1 = Inr s'"
    using report_router_frame[of "Collect (mcast_if s)", OF _ that(1) _ _ assms(5) that(2)] s1(2) assms(3) by (simp add: kept_def)
  ultimately have "hostData s' = hostData s1" by (auto simp: ig_emit_def)
  then show ?thesis using report_host_flag[OF s1(1) assms(6)] same_flag_host by blast
qed

lemma flag_step:
  assumes "igmp_run s" "ig_enabled s" "igmp_may_arrive x s" "igmp_handleMessage x s = Inr s'" "map_of (host_of i s) g = Some h"
  shows "same_flag i g (flag_after i g x h) s'"
proof -
  have ok: "igmp_ok s" using assms(1) by (rule igmp_run_ok)
  have now: "same_flag i g (hg_flag h) s" using assms(5) by (simp add: same_flag_def)
  have keeps: "same_flag i g (hg_flag h) s'" if "hostData s' = hostData s" using now same_flag_host[OF that] by blast
  show ?thesis
  proof (cases x)
    case (Igmp_query_timer j)
    then show ?thesis using assms(2,4) keeps router_frame(1) by (simp add: igmp_handleMessage_def)
  next
    case (Igmp_hostgroup_timer j k)
    then show ?thesis using assms(2,4,5)
      by (auto simp: igmp_handleMessage_def processHostGroupTimer_def igmp_data same_flag_def mapE_eq_Inr sendReport_def ig_sendToIP_def
          assertE_eq_Inr bindE_eq_Inr split: option.splits)
  next
    case (Igmp_leave_timer j k)
    then show ?thesis using assms(2,4) keeps router_frame(3) by (simp add: igmp_handleMessage_def)
  next
    case (Igmp_rexmt_timer j k)
    then show ?thesis using assms(2,4) keeps router_frame(2) by (simp add: igmp_handleMessage_def)
  next
    case (Igmp_from_router m)
    then show ?thesis using assms(2,4) keeps by (auto simp: igmp_handleMessage_def ig_emit_def)
  next
    case (Igmp_from_ip j src m)
    then have m: "mcast_if s j" "well_formed m" "processIgmpMessage j src m s = Inr s'"
      using assms(2-4) by (simp_all add: igmp_handleMessage_def)
    note t = IGMP_MEMBERSHIP_QUERY_def IGMPV2_MEMBERSHIP_REPORT_def IGMPV2_LEAVE_GROUP_def
    from m(2) consider "ig_type m = IGMP_MEMBERSHIP_QUERY"
      | "ig_type m = IGMPV2_MEMBERSHIP_REPORT" "routable_group (ig_groupAddress m)" | "ig_type m = IGMPV2_LEAVE_GROUP"
      by (auto simp: well_formed_def)
    then show ?thesis
    proof cases
      case 1
      then have "processQuery j src m s = Inr s'" using m(3) by (simp add: processIgmpMessage_def)
      from processQuery_flag[OF ok assms(2) m(1) this assms(5)] show ?thesis using 1 Igmp_from_ip by (simp add: report_for_def t)
    next
      case 2
      then have "processV2Report j m s = Inr s'" using m(3) by (simp add: processIgmpMessage_def t)
      from processV2Report_flag[OF ok assms(2) m(1) this 2(2) assms(5)] show ?thesis
        using 2 Igmp_from_ip by (simp add: report_for_def eq_commute)
    next
      case 3
      then have "processLeave j m s = Inr s'" using m(3) by (simp add: processIgmpMessage_def t)
      then have "hostData s' = hostData s" using router_frame(4)
        by (auto simp: processLeave_def assertE_eq_Inr bindE_eq_Inr ig_emit_def split: if_splits)
      then show ?thesis using keeps 3 Igmp_from_ip by (simp add: report_for_def t)
    qed
  qed
qed

text \<open>A sequence of arrivals, each possible when it comes, that the module processes.\<close>

fun igmp_arrivals :: "igmp_arrival list \<Rightarrow> igmp \<Rightarrow> igmp option" where
  "igmp_arrivals [] s = Some s"
| "igmp_arrivals (x # xs) s =
     (if igmp_may_arrive x s then case igmp_handleMessage x s of Inl e \<Rightarrow> None | Inr s' \<Rightarrow> igmp_arrivals xs s' else None)"

text \<open>Whether the last report for the group on the link, of those that the host has sent and heard, is its own; \<open>b\<close> is the answer
  before the arrivals.\<close>

fun last_report_ours :: "int \<Rightarrow> ip4 \<Rightarrow> bool \<Rightarrow> igmp_arrival list \<Rightarrow> bool" where
  "last_report_ours i g b [] = b"
| "last_report_ours i g b (x # xs) = last_report_ours i g
     (case x of Igmp_hostgroup_timer j k \<Rightarrow> (i = j \<and> g = k) \<or> b
      | Igmp_from_ip j src m \<Rightarrow> b \<and> \<not> (i = j \<and> report_for g m) | _ \<Rightarrow> b) xs"

lemma handled_state:
  assumes "igmp_run s" "igmp_may_arrive x s" "igmp_handleMessage x s = Inr s'"
  shows "igmp_run s' \<and> ig_enabled s' = ig_enabled s \<and> mcast_if s' = mcast_if s"
proof -
  have "kept s (Collect (mcast_if s)) s'"
    using igmp_handleMessage_kept[OF igmp_run_ok[OF assms(1)] assms(2)] assms(3) by (auto simp: returns_def split: if_splits)
  then show ?thesis using igmp_run.arrive[OF assms] by (simp add: kept_def)
qed

lemma flag_of_last_report:
  assumes "igmp_run s" "ig_enabled s" "map_of (host_of i s) g = Some h" "b \<longrightarrow> hg_flag h" "igmp_arrivals xs s = Some s'"
  shows "igmp_run s' \<and> ig_enabled s' \<and> mcast_if s' = mcast_if s
     \<and> (\<exists>h'. map_of (host_of i s') g = Some h' \<and> (last_report_ours i g b xs \<longrightarrow> hg_flag h'))"
  using assms
proof (induction xs arbitrary: s h b)
  case (Cons x xs)
  then obtain s1 where s1: "igmp_may_arrive x s" "igmp_handleMessage x s = Inr s1" "igmp_arrivals xs s1 = Some s'"
    by (auto split: if_splits sum.splits)
  note k = handled_state[OF Cons.prems(1) s1(1,2)]
  from flag_step[OF Cons.prems(1,2) s1(1,2) Cons.prems(3)] obtain h1 where
    h1: "map_of (host_of i s1) g = Some h1" "hg_flag h1 = flag_after i g x h" by (auto simp: same_flag_def)
  define b1 where "b1 = (case x of Igmp_hostgroup_timer j k \<Rightarrow> (i = j \<and> g = k) \<or> b
      | Igmp_from_ip j src m \<Rightarrow> b \<and> \<not> (i = j \<and> report_for g m) | _ \<Rightarrow> b)"
  have "b1 \<longrightarrow> hg_flag h1" using h1(2) Cons.prems(4) by (cases x) (auto simp: b1_def)
  then show ?case using Cons.IH[of s1 h1 b1] k h1(1) s1(3) Cons.prems(2) by (auto simp: b1_def)
qed auto

lemma joined_group:
  assumes "ig_enabled s" "mcast_if s i" "routable_group g" "map_of (host_of i s) g = None" "multicastGroupJoined i g s = Inr s'"
  shows "ig_enabled s' \<and> mcast_if s' = mcast_if s \<and> (\<exists>h. map_of (host_of i s') g = Some h \<and> hg_flag h)"
proof -
  have "returns (\<lambda>s'. ig_enabled s' \<and> mcast_if s' = mcast_if s \<and> (\<exists>h. map_of (host_of i s') g = Some h \<and> hg_flag h)) (multicastGroupJoined i g s)"
    using assms(1-4)
    by (simp add: multicastGroupJoined_def createHostGroupData_def igmp_data startHostTimer_def routable_group_def)
      (simp add: ig_emit_def)
  then show ?thesis using assms(5) by simp
qed

lemma left_group:
  assumes "igmp_ok s" "ig_enabled s" "map_of (host_of i s) g = Some h" "hg_flag h"
  shows "\<exists>s'. multicastGroupLeft i g s = Inr s' \<and> ig_outs s' = ig_outs s @ [the_leave i g] \<and> map_of (host_of i s') g = None"
proof -
  have h: "host_group_ok (g, h)" using host_of_ok[OF assms(1)] assms(3) by (rule host_if_ok_groups(1))
  have m: "mcast_if s i" using assms(1,3) by (auto simp: igmp_inv_def hosts_ok_def host_of_def split: option.splits)
  have "returns (\<lambda>s'. ig_outs s' = ig_outs s @ [the_leave i g] \<and> map_of (host_of i s') g = None) (multicastGroupLeft i g s)"
    using assms(2-4) h m
    by (auto simp: multicastGroupLeft_def igmp_data host_group_ok_def routable_group_def scheduled_def split: option.splits host_group_state.splits)
  then show ?thesis by (auto simp: returns_def)
qed

text \<open>
  C40. A host that joins a group and leaves it later tells the routers that it leaves, if of the reports for the group on the link
  that it has sent or heard meanwhile, the last one was its own: the link then may have no other member.\<close>

theorem last_reporter_tells_leave:
  assumes "igmp_run s" "ig_enabled s" "mcast_if s i" "routable_group g" "map_of (host_of i s) g = None"
    "multicastGroupJoined i g s = Inr s1" "igmp_arrivals xs s1 = Some s2" "last_report_ours i g True xs"
  shows "\<exists>s3. multicastGroupLeft i g s2 = Inr s3 \<and> ig_outs s3 = ig_outs s2 @ [the_leave i g] \<and> map_of (host_of i s3) g = None"
proof -
  have "igmp_receiveChangeNotification (Igmp_mcast_join i g) s = Inr s1" using assms(6) by (simp add: igmp_receiveChangeNotification_def)
  moreover have "igmp_may_tell (Igmp_mcast_join i g) s" using assms(3-5) by (simp add: routable_group_def)
  ultimately have "igmp_run s1" using igmp_run.tell[OF assms(1)] by blast
  then obtain h where "igmp_run s2" "ig_enabled s2" "map_of (host_of i s2) g = Some h" "hg_flag h"
    using joined_group[OF assms(2-6)] flag_of_last_report[of s1 i g _ True xs s2] assms(7,8) by auto
  then show ?thesis using left_group igmp_run_ok by blast
qed

text \<open>A host that joins, hears a report of another member, is asked, and reports in its turn.\<close>

definition link_host :: "ip4 \<Rightarrow> igmp" where
  "link_host a = (link_router a)\<lparr>ig_forwarding := False\<rparr>"

lemma link_host_fields [simp]:
  "mcast_if (link_host a) 1" "ig_enabled (link_host a)" "host_of 1 (link_host a) = []" "\<not> ig_forwarding (link_host a)"
  by (simp_all add: link_host_def link_router_def link_interface_def mcast_if_def find_interface_def host_of_def)

lemma link_host_run: "igmp_run (link_host a)"
proof (rule igmp_run.start)
  show "interfaces_ok (link_host a)"
    by (auto simp: interfaces_ok_def mcast_if_def ip_data_def listeners_def link_host_def link_router_def link_interface_def find_interface_def
        new_interface_data_def split: if_splits)
  show "igmp_initialize (link_host a) = Inr (link_host a)"
    by (simp add: igmp_initialize_def configureInterface_def link_host_def link_router_def link_interface_def)
qed

text \<open>The steps of a host that is in one group only.\<close>

definition lone_host :: "igmp \<Rightarrow> bool" where
  "lone_host s \<longleftrightarrow> ig_enabled s \<and> \<not> ig_forwarding s \<and> mcast_if s 1"

lemma lone_host_steps:
  assumes "lone_host s" "hg_state h = IGMP_HGS_DELAYING_MEMBER" "hg_timer h = Some (Some u)" "hg_state k = IGMP_HGS_IDLE_MEMBER"
  shows "igmp_handleMessage (Igmp_from_ip 1 src (about_group IGMPV2_MEMBERSHIP_REPORT a_group)) (put_host 1 [(a_group, h)] s) =
      Inr (put_host 1 [(a_group, h\<lparr>hg_timer := Some None, hg_flag := False, hg_state := IGMP_HGS_IDLE_MEMBER\<rparr>)] s)"
    "\<exists>t n. igmp_handleMessage (Igmp_from_ip 1 src (general_query d)) (put_host 1 [(a_group, k)] s) =
      Inr (put_host 1 [(a_group, k\<lparr>hg_timer := Some (Some t), hg_state := IGMP_HGS_DELAYING_MEMBER\<rparr>)] (s\<lparr>ig_draws := n\<rparr>))"
    "igmp_handleMessage (Igmp_hostgroup_timer 1 a_group) (put_host 1 [(a_group, h)] s) =
      Inr (put_host 1 [(a_group, h\<lparr>hg_flag := True, hg_state := IGMP_HGS_IDLE_MEMBER, hg_timer := Some None\<rparr>)] (ig_emit (the_report 1 a_group) s))"
  using assms
  by (auto simp: returns_eq[symmetric] lone_host_def igmp_handleMessage_def processIgmpMessage_def processV2Report_def processQuery_def
      processHostGroupTimer_def report_host_def query_host_def igmp_data about_group_def general_query_def processGroupQuery_def
      startHostTimer_def ip4_isUnspecified_def IGMP_MEMBERSHIP_QUERY_def IGMPV2_MEMBERSHIP_REPORT_def dest!: igmp_interface)

lemma last_reporter_tells_leave_witness:
  "\<exists>s1 s2 s3. multicastGroupJoined 1 a_group (link_host 0x0A000005) = Inr s1
     \<and> igmp_arrivals [Igmp_from_ip 1 0x0A000006 (about_group IGMPV2_MEMBERSHIP_REPORT a_group),
          Igmp_from_ip 1 0x0A000001 (general_query sec), Igmp_hostgroup_timer 1 a_group] s1 = Some s2
     \<and> multicastGroupLeft 1 a_group s2 = Inr s3 \<and> ig_outs s3 = ig_outs s2 @ [the_leave 1 a_group]"
proof -
  let ?s = "link_host 0x0A000005" and ?xs = "[Igmp_from_ip 1 0x0A000006 (about_group IGMPV2_MEMBERSHIP_REPORT a_group),
          Igmp_from_ip 1 0x0A000001 (general_query sec), Igmp_hostgroup_timer 1 a_group]"
  have "returns (\<lambda>s1. \<exists>h u s0. s1 = put_host 1 [(a_group, h)] s0 \<and> lone_host s0 \<and> hg_state h = IGMP_HGS_DELAYING_MEMBER
      \<and> hg_timer h = Some (Some u)) (multicastGroupJoined 1 a_group ?s)"
    by (simp add: multicastGroupJoined_def createHostGroupData_def igmp_data startHostTimer_def)
      (intro exI conjI, rule refl, simp_all add: lone_host_def, simp_all add: ig_emit_def)
  then obtain h u s0 where j: "multicastGroupJoined 1 a_group ?s = Inr (put_host 1 [(a_group, h)] s0)" "lone_host s0"
    "hg_state h = IGMP_HGS_DELAYING_MEMBER" "hg_timer h = Some (Some u)" by (auto simp: returns_def)
  let ?h1 = "h\<lparr>hg_timer := Some None, hg_flag := False, hg_state := IGMP_HGS_IDLE_MEMBER\<rparr>"
  have "hg_state ?h1 = IGMP_HGS_IDLE_MEMBER" by simp
  note steps = lone_host_steps[OF j(2-4) this]
  from steps(2)[of "0x0A000001" sec] obtain t n where q: "igmp_handleMessage (Igmp_from_ip 1 0x0A000001 (general_query sec)) (put_host 1 [(a_group, ?h1)] s0) =
      Inr (put_host 1 [(a_group, ?h1\<lparr>hg_timer := Some (Some t), hg_state := IGMP_HGS_DELAYING_MEMBER\<rparr>)] (s0\<lparr>ig_draws := n\<rparr>))" by blast
  have l: "lone_host (s0\<lparr>ig_draws := n\<rparr>)" "mcast_if s0 1" using j(2) by (simp_all add: lone_host_def)
  obtain s2 where "igmp_handleMessage (Igmp_hostgroup_timer 1 a_group)
      (put_host 1 [(a_group, ?h1\<lparr>hg_timer := Some (Some t), hg_state := IGMP_HGS_DELAYING_MEMBER\<rparr>)] (s0\<lparr>ig_draws := n\<rparr>)) = Inr s2"
    using lone_host_steps(3)[OF l(1), of "?h1\<lparr>hg_timer := Some (Some t), hg_state := IGMP_HGS_DELAYING_MEMBER\<rparr>" t ?h1] by simp
  then have "igmp_arrivals ?xs (put_host 1 [(a_group, h)] s0) = Some s2"
    using steps(1) q l(2) by (simp add: well_formed_def about_group_def general_query_def ip4_isUnspecified_def)
  note s = j(1) this
  have "last_report_ours 1 a_group True ?xs" by simp
  from last_reporter_tells_leave[OF link_host_run _ _ _ _ s this] s show ?thesis by auto
qed

end
