(* ===== verification/Spec2Isabelle.thy ===== *)
theory Spec2Isabelle
  imports Tcp_Runs Tcp_Syn_Options Tcp_Sending Ip_Module_Inv Packet_Queues Udp Bridge_Relay Rip_Send Igmp_Runs
begin

text \<open>
  A verification development of protocols of the INET framework: TCP and UDP (\<open>src/inet/src/transport\<close>), IPv4 with ARP, ICMP,
  IGMP and RIP (\<open>networklayer\<close>), Ethernet switches with the spanning tree protocol, and the queues and schedulers (\<open>linklayer\<close>).

  \<^bold>\<open>The program.\<close>  A node is a stack of modules that exchange messages: an application hands packets to TCP or UDP, those
  hand segments and datagrams to IPv4, which looks up its routing table, fragments, asks ARP for the address of the next hop
  and hands the datagram to an interface with its queues; upwards, IPv4 reassembles and delivers by protocol, and ICMP
  reports errors both ways.

  The module \<open>TCP\<close> (\<open>TCP.cc\<close>) has a table of connections by socket pair and one by application
  key.  A message is a timer, a segment or a command; the module finds the \<open>TCPConnection\<close>, which processes the
  message and returns an event, and \<open>performStateTransition\<close> moves the state machine.  A connection has a send
  queue, a receive queue, a SACK scoreboard and a congestion control algorithm, each an object behind an interface
  with several implementations.

  \<^bold>\<open>The theories.\<close>
  \<^item> \<open>Prelude\<close>: results, assertions and lists.
  \<^item> \<open>Seq_Arith\<close>: the comparison of sequence numbers, \<open>tcp_common/TCPSegment.h\<close>.
  \<^item> \<open>Sack_Rexmit_Queue\<close>: the SACK scoreboard, \<open>TCPSACKRexmitQueue.cc\<close>.
  \<^item> \<open>Tcp_Segment\<close>: segments and byte buffers, \<open>TCPSegment.cc\<close>, \<open>ByteArray.cc\<close>, \<open>ByteArrayBuffer.cc\<close>.
  \<^item> \<open>Tcp_Rcv_Queue\<close>, \<open>Tcp_Send_Queue\<close>: the three receive queues and the three send queues, \<open>queues/\<close>.
  \<^item> \<open>Tcp_State\<close>: \<open>TCPStateVariables\<close> and \<open>TCPConnection\<close>, \<open>TCPConnection.h\<close>.
  \<^item> \<open>Tcp_Fsm\<close>: the state machine, \<open>TCPConnectionBase.cc\<close>.
  \<^item> \<open>Tcp_Options\<close>: header options and windows, \<open>TCPConnectionUtil.cc\<close>.
  \<^item> \<open>Tcp_Send\<close>: sending and SACK based loss recovery, \<open>TCPConnectionUtil.cc\<close>, \<open>TCPConnectionSackUtil.cc\<close>.
  \<^item> \<open>Tcp_Alg\<close>: congestion control, \<open>flavours/\<close> (\<open>TCPBaseAlg\<close>, \<open>TCPTahoe\<close>, \<open>TCPReno\<close>, \<open>TCPNewReno\<close>).
  \<^item> \<open>Tcp_Maps\<close>: the tables of the module and the ephemeral ports, \<open>TCP.cc\<close>.
  \<^item> \<open>Tcp_Conn\<close>: construction, configuration and cloning of a connection.
  \<^item> \<open>Tcp_Rcv\<close>: arriving segments, \<open>TCPConnectionRcvSegment.cc\<close>.
  \<^item> \<open>Tcp_App\<close>: commands of the application, \<open>TCPConnectionEventProc.cc\<close>.
  \<^item> \<open>Tcp_Main\<close>: \<open>handleMessage\<close> and the life cycle of the module, \<open>TCP.cc\<close>.
  \<^item> \<open>Tcp_Frame\<close>, \<open>Tcp_Inv\<close>, \<open>Tcp_Module_Inv\<close>: what the operations leave alone, the invariant of the tables, and its
    preservation by every handler of the module.
  \<^item> \<open>Tcp_Runs\<close>: the reachable states of the module, and a run to an established connection.
  \<^item> \<open>Tcp_Window\<close>, \<open>Tcp_Syn_Options\<close>, \<open>Tcp_Sending\<close>: the advertised window, the options of the handshake, and what a call of
    \<open>sendSegment\<close> sends.
  \<^item> \<open>Ip_Address\<close>, \<open>Ip_Routing\<close>, \<open>Ip_Fragment\<close>: IPv4 addresses, the routing table, and fragmentation with reassembly.
  \<^item> \<open>Ip_Arp\<close>, \<open>Ip_Icmp\<close>, \<open>Ip_Module\<close>: ARP, ICMP, and the IPv4 module, which calls them and the routing table.
  \<^item> \<open>Ip_Module_Inv\<close>: the reachable states of IPv4 together with ARP.
  \<^item> \<open>Packet_Queues\<close>: the passive queues, the queue with a server, and the priority and weighted round robin schedulers,
    \<open>base/AbstractQueue.cc\<close>, \<open>base/PassiveQueueBase.cc\<close>, \<open>linklayer/queue\<close>.
  \<^item> \<open>Ether_Switch\<close>: the MAC address table and the learning switch, \<open>linklayer/ethernet/switch\<close>.
  \<^item> \<open>Stp\<close>: the spanning tree protocol, \<open>linklayer/ieee8021d/stp\<close>; \<open>Stp_Inv\<close>: its election, links and reachable states;
    \<open>Stp_Timers\<close>: a bridge that hears no other; \<open>Bridge_Relay\<close>: the relay of such a bridge, \<open>linklayer/ieee8021d/relay\<close>.
  \<^item> \<open>Udp\<close>: sockets, delivery and commands, \<open>UDP.cc\<close>.
  \<^item> \<open>Rip\<close>: the Routing Information Protocol, \<open>networklayer/routing/rip\<close>, on the table of \<open>Ip_Routing\<close>; \<open>Rip_Inv\<close>: the
    invariant under which none of its assertions fails; \<open>Rip_Send\<close>: its updates, and the distances that it computes.
  \<^item> \<open>Igmp\<close>: IGMPv2 for hosts and routers, \<open>IGMPv2.cc\<close>, on the lists of listeners of \<open>Ip_Routing\<close>; \<open>Igmp_Inv\<close>: its
    invariant and reachable states; \<open>Igmp_Runs\<close>: its one failure, the end of a group, the querier, and the host that leaves.

  \<^bold>\<open>Conventions.\<close>  Integers have the width of the source and wrap.  A failed assertion, a thrown error and the use
  of a null pointer are values of \<open>error\<close>, on the left of a sum.  A loop whose end depends on the data has fuel,
  and running out of it is the error \<open>Diverges\<close>.  Simulation time is an integer.

  \<^bold>\<open>What the lemmas show.\<close>  For each component an invariant of its reachable states, kept by every handler, from which it
  follows that its assertions hold; the exact effect of its main operations, or their agreement with an abstract reading (a set
  of marked bytes, a queue of bytes, a learned history, the relaxation of distances); and, where the code loops or waits, that
  it ends in time.  The theorems about errors state behaviour that the code has and does not mean to have.

  \<^bold>\<open>Not modelled.\<close>  The output vectors, signals and messages to the log.  Of the transport layer: SCTP, RTP, the experimental
  congestion control flavours, and the copies of the TCP module for experiments.  Of the network layer: IPv6 and its neighbour
  discovery, OSPF, BGP, the ad hoc routing protocols, MPLS with its signalling, and the configurators, which read files.
  Of the link layer: RSTP, the Ethernet MACs, PPP, and IEEE 802.11, whose behaviour depends on radio models in floating point;
  RED droppers, which compute with floating point averages and random numbers.  Applications, mobility, energy and the
  interfaces to tools are not protocols.
\<close>

end
